(* ===== verification/Daco_Prelude.thy ===== *)
theory Daco_Prelude
  imports Main "HOL-Library.Word" "HOL-Library.AList"
begin

text \<open>
  Shared vocabulary of the development.

  \<^item> \<^bold>\<open>Outcomes.\<close> A call of the program either returns or stops the process: \<open>'a exec\<close> is
    \<open>Inr\<close> of the returned value, or \<open>Inl\<close> of the way it stops. \<open>AssertFailed\<close> is a failing
    \<open>assert\<close> (the build in \<open>src/src/mk/recipes.mk\<close> does not define \<open>NDEBUG\<close>), \<open>Exited\<close> a call of
    \<open>exit(1)\<close>, \<open>Undefined\<close> behaviour the language leaves undefined (a read or write outside a buffer,
    a division by zero, a cast to the wrong type), \<open>Blocked\<close> a polling loop that cannot go on until
    another thread moves.
  \<^item> \<^bold>\<open>Machine integers and memory.\<close> \<open>u8\<close> to \<open>u64\<close> are words; \<open>le_bytes\<close> and \<open>be_bytes\<close> are the bytes
    of an integer in the memory of a little-endian machine, before and after \<open>htonl\<close>;
    \<open>read_at\<close>, \<open>write_at\<close> and \<open>resize_bytes\<close> are \<open>memcpy\<close> and \<open>vector::resize\<close> on a byte vector.
  \<^item> \<^bold>\<open>Streams.\<close> \<open>fstream\<close> is the unread rest of a \<open>std::fstream\<close> with its fail bit.
  \<^item> \<^bold>\<open>Association lists\<close> stand for \<open>std::unordered_map\<close> and \<open>std::unordered_set\<close>: the list is the
    iteration order, which the standard leaves open; no property below depends on it.
\<close>

named_theorems exec_simps \<open>evaluation of the outcome combinators\<close>
named_theorems exec_inv \<open>when a composed call returns\<close>

section \<open>Outcomes\<close>

datatype abort = AssertFailed | Exited | Undefined | Blocked

type_synonym 'a exec = "abort + 'a"

definition bindE :: "'a exec \<Rightarrow> ('a \<Rightarrow> 'b exec) \<Rightarrow> 'b exec" where
  "bindE m f = (case m of Inl e \<Rightarrow> Inl e | Inr x \<Rightarrow> f x)"

definition assertE :: "bool \<Rightarrow> 'a exec \<Rightarrow> 'a exec" where
  "assertE P k = (if P then k else Inl AssertFailed)"

definition exit_ifE :: "bool \<Rightarrow> 'a exec \<Rightarrow> 'a exec" where
  "exit_ifE P k = (if P then Inl Exited else k)"

definition definedE :: "bool \<Rightarrow> 'a exec \<Rightarrow> 'a exec" where
  "definedE P k = (if P then k else Inl Undefined)"

definition returns :: "'a exec \<Rightarrow> bool" where
  "returns m = (case m of Inl _ \<Rightarrow> False | Inr _ \<Rightarrow> True)"

section \<open>Machine integers and their bytes\<close>

type_synonym u8 = "8 word"
type_synonym u16 = "16 word"
type_synonym u32 = "32 word"
type_synonym u64 = "64 word"

fun le_bytes :: "nat \<Rightarrow> nat \<Rightarrow> u8 list" where
  "le_bytes 0 x = []"
| "le_bytes (Suc n) x = word_of_nat (x mod 256) # le_bytes n (x div 256)"

fun le_val :: "u8 list \<Rightarrow> nat" where
  "le_val [] = 0"
| "le_val (b # bs) = unat b + 256 * le_val bs"

definition u32_mem :: "u32 \<Rightarrow> u8 list" where
  "u32_mem w = le_bytes 4 (unat w)"

definition mem_u32 :: "u8 list \<Rightarrow> u32" where
  "mem_u32 bs = word_of_nat (le_val bs)"

definition u64_mem :: "u64 \<Rightarrow> u8 list" where
  "u64_mem w = le_bytes 8 (unat w)"

definition mem_u64 :: "u8 list \<Rightarrow> u64" where
  "mem_u64 bs = word_of_nat (le_val bs)"

definition u16_mem :: "u16 \<Rightarrow> u8 list" where
  "u16_mem w = le_bytes 2 (unat w)"

definition mem_u16 :: "u8 list \<Rightarrow> u16" where
  "mem_u16 bs = word_of_nat (le_val bs)"

text \<open>\<open>htonl\<close> and \<open>ntohl\<close> (\<open>htons\<close>, \<open>ntohs\<close>) reverse the bytes of the value in memory.\<close>

definition htonl_mem :: "u32 \<Rightarrow> u8 list" where
  "htonl_mem w = rev (u32_mem w)"

definition mem_ntohl :: "u8 list \<Rightarrow> u32" where
  "mem_ntohl bs = mem_u32 (rev bs)"

definition htons_mem :: "u16 \<Rightarrow> u8 list" where
  "htons_mem w = rev (u16_mem w)"

definition mem_ntohs :: "u8 list \<Rightarrow> u16" where
  "mem_ntohs bs = mem_u16 (rev bs)"

definition bool_mem :: "bool \<Rightarrow> u8 list" where
  "bool_mem b = [if b then 1 else 0]"

definition mem_bool :: "u8 list \<Rightarrow> bool" where
  "mem_bool bs = (bs \<noteq> [0])"

section \<open>Byte vectors\<close>

definition read_at :: "nat \<Rightarrow> nat \<Rightarrow> u8 list \<Rightarrow> u8 list" where
  "read_at p n bs = take n (drop p bs)"

definition write_at :: "nat \<Rightarrow> u8 list \<Rightarrow> u8 list \<Rightarrow> u8 list" where
  "write_at p d bs = take p bs @ d @ drop (p + length d) bs"

definition resize_bytes :: "nat \<Rightarrow> u8 list \<Rightarrow> u8 list" where
  "resize_bytes n bs = (if n \<le> length bs then take n bs else bs @ replicate (n - length bs) 0)"

section \<open>File streams\<close>

text \<open>
  \<open>istream::read\<close> of \<open>n\<close> bytes into a buffer: a failed stream gives nothing; a short one gives what is
  left and sets the fail bit; the rest of the buffer keeps its contents.
\<close>

record fstream =
  fs_data :: "u8 list"
  fs_fail :: bool

definition fs_read :: "u8 list \<Rightarrow> fstream \<Rightarrow> u8 list \<times> fstream" where
  "fs_read buf s =
     (if fs_fail s then (buf, s)
      else if length buf \<le> length (fs_data s)
      then (take (length buf) (fs_data s), s\<lparr>fs_data := drop (length buf) (fs_data s)\<rparr>)
      else (fs_data s @ drop (length (fs_data s)) buf, s\<lparr>fs_data := [], fs_fail := True\<rparr>))"

definition fs_write :: "u8 list \<Rightarrow> u8 list \<Rightarrow> u8 list" where
  "fs_write d out = out @ d"

section \<open>Arrays and hash maps\<close>

text \<open>An index outside an array is undefined behaviour.\<close>

definition nthE :: "'a list \<Rightarrow> nat \<Rightarrow> 'a exec" where
  "nthE xs i = definedE (i < length xs) (Inr (xs ! i))"

text \<open>\<open>std::unordered_map\<close>: \<open>insert\<close> leaves an existing entry alone, \<open>um_put\<close> writes through the iterator
  \<open>find\<close> returned or inserts, \<open>um_erase\<close> erases at that iterator; \<open>map_of\<close> is \<open>find\<close>.\<close>

definition um_insert :: "'k \<Rightarrow> 'v \<Rightarrow> ('k \<times> 'v) list \<Rightarrow> ('k \<times> 'v) list" where
  "um_insert k v al = (if map_of al k = None then al @ [(k, v)] else al)"

definition um_put :: "'k \<Rightarrow> 'v \<Rightarrow> ('k \<times> 'v) list \<Rightarrow> ('k \<times> 'v) list" where
  "um_put k v al = AList.update k v al"

definition um_erase :: "'k \<Rightarrow> ('k \<times> 'v) list \<Rightarrow> ('k \<times> 'v) list" where
  "um_erase k al = AList.delete k al"

section \<open>Lemmas on outcomes\<close>

lemma bindE_simps [simp, exec_simps]:
  "bindE (Inl e) f = Inl e" "bindE (Inr x) f = f x"
  by (simp_all add: bindE_def)

lemma bindE_eq_Inr [exec_inv]: "bindE m f = Inr y \<longleftrightarrow> (\<exists>x. m = Inr x \<and> f x = Inr y)"
  by (cases m) auto

lemma bindE_eq_Inl: "bindE m f = Inl e \<longleftrightarrow> m = Inl e \<or> (\<exists>x. m = Inr x \<and> f x = Inl e)"
  by (cases m) auto

lemma bindE_Inr_right [simp]: "bindE m Inr = m"
  by (cases m) auto

lemma bindE_assoc: "bindE (bindE m f) g = bindE m (\<lambda>x. bindE (f x) g)"
  by (cases m) auto

lemma bindE_cong [fundef_cong]:
  "m = m' \<Longrightarrow> (\<And>x. m' = Inr x \<Longrightarrow> f x = f' x) \<Longrightarrow> bindE m f = bindE m' f'"
  by (cases m') auto

lemma assertE_simps [simp, exec_simps]: "assertE True k = k" "assertE False k = Inl AssertFailed"
  by (simp_all add: assertE_def)

lemma assertE_eq_Inr [exec_inv]: "assertE P k = Inr y \<longleftrightarrow> P \<and> k = Inr y"
  by (simp add: assertE_def)

lemma exit_ifE_simps [simp, exec_simps]: "exit_ifE True k = Inl Exited" "exit_ifE False k = k"
  by (simp_all add: exit_ifE_def)

lemma exit_ifE_eq_Inr [exec_inv]: "exit_ifE P k = Inr y \<longleftrightarrow> \<not> P \<and> k = Inr y"
  by (simp add: exit_ifE_def)

lemma definedE_simps [simp, exec_simps]: "definedE True k = k" "definedE False k = Inl Undefined"
  by (simp_all add: definedE_def)

lemma definedE_eq_Inr [exec_inv]: "definedE P k = Inr y \<longleftrightarrow> P \<and> k = Inr y"
  by (simp add: definedE_def)

lemma returns_simps [simp]: "returns (Inr x)" "\<not> returns (Inl e)"
  by (simp_all add: returns_def)

lemma returns_iff: "returns m \<longleftrightarrow> (\<exists>x. m = Inr x)"
  by (cases m) auto

lemma nthE_simps [simp]: "i < length xs \<Longrightarrow> nthE xs i = Inr (xs ! i)"
  by (simp add: nthE_def)

lemma nthE_eq_Inr [exec_inv]: "nthE xs i = Inr y \<longleftrightarrow> i < length xs \<and> xs ! i = y"
  by (auto simp: nthE_def definedE_def)

lemma nth_list_update_at: "j < length xs \<Longrightarrow> xs[i := x] ! j = (if i = j then x else xs ! j)"
  by simp

lemma all_less_Suc: "(\<forall>i < Suc n. P i) \<longleftrightarrow> (\<forall>i < n. P i) \<and> P n"
  by (auto simp: less_Suc_eq)

section \<open>Lemmas on hash maps\<close>

text \<open>A list stands for a hash map when its keys are distinct; every operation keeps this.\<close>

abbreviation um_wf :: "('k \<times> 'v) list \<Rightarrow> bool" where
  "um_wf al \<equiv> distinct (map fst al)"

lemma map_of_um_put [simp]: "map_of (um_put k v al) = (map_of al)(k \<mapsto> v)"
  by (simp add: um_put_def update_conv')

lemma map_of_um_erase [simp]: "map_of (um_erase k al) = (map_of al)(k := None)"
  by (simp add: um_erase_def delete_conv')

lemma map_of_um_insert [simp]:
  "map_of (um_insert k v al) = (if map_of al k = None then (map_of al)(k \<mapsto> v) else map_of al)"
  by (auto simp: um_insert_def map_add_def fun_eq_iff split: option.splits)

lemma um_wf_put [simp]: "um_wf al \<Longrightarrow> um_wf (um_put k v al)"
  by (simp add: um_put_def distinct_update)

lemma um_wf_erase [simp]: "um_wf al \<Longrightarrow> um_wf (um_erase k al)"
  by (simp add: um_erase_def distinct_delete)

lemma um_wf_insert [simp]: "um_wf al \<Longrightarrow> um_wf (um_insert k v al)"
  by (auto simp: um_insert_def map_of_eq_None_iff)

lemma keys_um [simp]:
  "fst ` set (um_put k v al) = insert k (fst ` set al)"
  "fst ` set (um_erase k al) = fst ` set al - {k}"
proof -
  show "fst ` set (um_put k v al) = insert k (fst ` set al)"
    by (simp add: um_put_def dom_update)
  show "fst ` set (um_erase k al) = fst ` set al - {k}"
    by (simp add: um_erase_def delete_keys flip: set_map)
qed

lemma um_put_absent: "map_of al k = None \<Longrightarrow> um_put k v al = al @ [(k, v)]"
  by (induction al) (auto simp: um_put_def split: if_splits)

lemma um_erase_absent: "map_of al k = None \<Longrightarrow> um_erase k al = al"
  by (simp add: um_erase_def map_of_eq_None_iff)

lemma map_of_set_iff: "um_wf al \<Longrightarrow> (k, v) \<in> set al \<longleftrightarrow> map_of al k = Some v"
  by simp

section \<open>Lemmas on bytes\<close>

lemma length_le_bytes [simp]: "length (le_bytes n x) = n"
  by (induction n arbitrary: x) auto

lemma le_val_le_bytes: "le_val (le_bytes n x) = x mod 256 ^ n"
proof (induction n arbitrary: x)
  case 0
  then show ?case by simp
next
  case (Suc n)
  have "unat (word_of_nat (x mod 256) :: u8) = x mod 256"
    by (simp add: unat_of_nat)
  with Suc show ?case
    by (simp add: mod_mult2_eq)
qed

lemma length_mem [simp]:
  "length (u32_mem w) = 4" "length (u16_mem v) = 2" "length (htonl_mem w) = 4"
  "length (htons_mem v) = 2" "length (bool_mem b) = 1" "length (u64_mem x) = 8"
  by (simp_all add: u64_mem_def u32_mem_def u16_mem_def htonl_mem_def htons_mem_def bool_mem_def)

lemma mem_u32_inverse [simp]: "mem_u32 (u32_mem w) = w"
proof -
  have "unat w < 2 ^ 32" using unsigned_less [of w] by simp
  then show ?thesis by (simp add: mem_u32_def u32_mem_def le_val_le_bytes)
qed

lemma mem_u64_inverse [simp]: "mem_u64 (u64_mem w) = w"
proof -
  have "unat w < 2 ^ 64" using unsigned_less [of w] by simp
  then show ?thesis by (simp add: mem_u64_def u64_mem_def le_val_le_bytes)
qed

lemma mem_u16_inverse [simp]: "mem_u16 (u16_mem w) = w"
proof -
  have "unat w < 2 ^ 16" using unsigned_less [of w] by simp
  then show ?thesis by (simp add: mem_u16_def u16_mem_def le_val_le_bytes)
qed

lemma mem_ntohl_inverse [simp]: "mem_ntohl (htonl_mem w) = w"
  by (simp add: mem_ntohl_def htonl_mem_def)

lemma mem_ntohs_inverse [simp]: "mem_ntohs (htons_mem w) = w"
  by (simp add: mem_ntohs_def htons_mem_def)

lemma mem_bool_inverse [simp]: "mem_bool (bool_mem b) = b"
  by (simp add: mem_bool_def bool_mem_def)

section \<open>Lemmas on byte vectors\<close>

lemma length_resize_bytes [simp]: "length (resize_bytes n bs) = n"
  by (simp add: resize_bytes_def)

lemma length_write_at: "p + length d \<le> length bs \<Longrightarrow> length (write_at p d bs) = length bs"
  by (simp add: write_at_def)

lemma read_write_at: "p + length d \<le> length bs \<Longrightarrow> read_at p (length d) (write_at p d bs) = d"
  by (simp add: read_at_def write_at_def)

lemma read_write_at_before:
  "q + n \<le> p \<Longrightarrow> p \<le> length bs \<Longrightarrow> read_at q n (write_at p d bs) = read_at q n bs"
  by (simp add: read_at_def write_at_def drop_take)

lemma read_write_at_after:
  "p + length d \<le> q \<Longrightarrow> p + length d \<le> length bs \<Longrightarrow> read_at q n (write_at p d bs) = read_at q n bs"
  by (simp add: read_at_def write_at_def)

lemma read_resize_before: "q + n \<le> length bs \<Longrightarrow> length bs \<le> m \<Longrightarrow> read_at q n (resize_bytes m bs) = read_at q n bs"
  by (auto simp: read_at_def resize_bytes_def)

lemma read_at_split: "read_at p (m + n) bs = read_at p m bs @ read_at (p + m) n bs"
  by (simp add: read_at_def take_add drop_drop add.commute)

lemma length_read_at: "p + n \<le> length bs \<Longrightarrow> length (read_at p n bs) = n"
  by (simp add: read_at_def)

lemma read_at_append_eq:
  "p + length (xs @ ys) \<le> length bs \<Longrightarrow>
   read_at p (length (xs @ ys)) bs = xs @ ys \<longleftrightarrow>
   read_at p (length xs) bs = xs \<and> read_at (p + length xs) (length ys) bs = ys"
  by (simp add: read_at_split length_read_at append_eq_append_conv)

section \<open>Lemmas on streams\<close>

lemma fs_read_exact [simp]:
  "length d = length buf \<Longrightarrow>
   fs_read buf \<lparr>fs_data = d @ rest, fs_fail = False\<rparr> = (d, \<lparr>fs_data = rest, fs_fail = False\<rparr>)"
  by (simp add: fs_read_def)

lemma fs_write_append [simp]: "fs_write d out = out @ d"
  by (simp add: fs_write_def)

section \<open>Lemmas on words\<close>

lemma unat_less_32: "unat (w :: u32) < 2 ^ 32"
  using unsigned_less [of w] by simp

lemma unat_less_64: "unat (w :: u64) < 2 ^ 64"
  using unsigned_less [of w] by simp

lemma uint_le_iff_unat: "uint w + int m \<le> int n \<longleftrightarrow> unat w + m \<le> n" for w :: "'a::len word"
  unfolding uint_nat by linarith

lemma unat_add_no_wrap: "unat x + unat y < 2 ^ LENGTH('a) \<Longrightarrow> unat (x + y) = unat x + unat y"
  for x y :: "'a::len word"
  by (simp add: unat_word_ariths)

lemma unat_of_nat_small: "n < 2 ^ LENGTH('a) \<Longrightarrow> unat (word_of_nat n :: 'a::len word) = n"
  by (simp add: unat_of_nat)

lemma word_of_nat_eqI: "unat x = n \<Longrightarrow> x = word_of_nat n" for x :: "'a::len word"
  by auto

lemma word_of_nat_inj_iff:
  "m < 2 ^ LENGTH('a) \<Longrightarrow> n < 2 ^ LENGTH('a) \<Longrightarrow> word_of_nat m = (word_of_nat n :: 'a::len word) \<longleftrightarrow> m = n"
  by (metis unat_of_nat_small)

lemma unat_plus_of_nat:
  "unat p + n < 2 ^ LENGTH('a) \<Longrightarrow> unat (p + word_of_nat n) = unat p + n"
  for p :: "'a::len word"
  by (simp add: unat_add_no_wrap unat_of_nat_small)

lemma word_add_of_nat: "word_of_nat m + word_of_nat n = (word_of_nat (m + n) :: 'a::len word)"
  by simp

end
