(* ===== verification/Dynamic_Array.thy ===== *)
theory Dynamic_Array
  imports Daco_Prelude
begin

text \<open>
  \<open>DynamicArray\<close> (\<open>src/src/common/dynamic_array.c\<close>): the message buffer every \<open>serialize\<close> and
  \<open>deserialize\<close> of the program writes to and reads from. The class wraps a \<open>std::vector<char>\<close>; the
  record keeps its bytes and its reserved capacity. Positions and lengths are 32-bit, and the bound
  checks of the class add them at that width, so the sum written \<open>position + len\<close> wraps here as it
  does there; the copy itself is defined only inside the vector.
\<close>

record dynamic_array =
  da_bytes :: "u8 list"
  da_capacity :: nat

definition DynamicArray_new :: dynamic_array where
  "DynamicArray_new = \<lparr>da_bytes = [], da_capacity = 0\<rparr>"

definition DynamicArray_clear :: "u32 \<Rightarrow> dynamic_array \<Rightarrow> dynamic_array" where
  "DynamicArray_clear capacity a =
     a\<lparr>da_bytes := [], da_capacity := max (da_capacity a) (unat capacity)\<rparr>"

definition DynamicArray_with_capacity :: "u32 \<Rightarrow> dynamic_array" where
  "DynamicArray_with_capacity capacity = DynamicArray_clear capacity DynamicArray_new"

definition DynamicArray_getSize :: "dynamic_array \<Rightarrow> u32" where
  "DynamicArray_getSize a = word_of_nat (length (da_bytes a))"

definition DynamicArray_getCapacity :: "dynamic_array \<Rightarrow> u32" where
  "DynamicArray_getCapacity a = word_of_nat (da_capacity a)"

text \<open>The growth step shared by the writers: \<open>if (position + length > da_bytes.size()) da_bytes.resize(...)\<close>.\<close>

definition grow_to :: "nat \<Rightarrow> u8 list \<Rightarrow> u8 list" where
  "grow_to n bs = (if length bs < n then resize_bytes n bs else bs)"

definition DynamicArray_deserialize ::
    "dynamic_array \<Rightarrow> u32 \<Rightarrow> u8 list \<Rightarrow> u32 \<Rightarrow> dynamic_array exec" where
  "DynamicArray_deserialize a position data len =
     exit_ifE (da_capacity a < unat (position + len))
       (let bs = grow_to (unat (position + len)) (da_bytes a)
        in definedE (unat len \<le> length data \<and> unat position + unat len \<le> length bs)
             (Inr (a\<lparr>da_bytes := write_at (unat position) (take (unat len) data) bs\<rparr>)))"

definition DynamicArray_arrayset ::
    "dynamic_array \<Rightarrow> u32 \<Rightarrow> u32 \<Rightarrow> u32 \<Rightarrow> dynamic_array exec" where
  "DynamicArray_arrayset a position charval len =
     exit_ifE (da_capacity a < unat (position + len))
       (let bs = grow_to (unat (position + len)) (da_bytes a)
        in definedE (unat position + unat len \<le> length bs)
             (Inr (a\<lparr>da_bytes := write_at (unat position) (replicate (unat len) (ucast charval)) bs\<rparr>)))"

definition DynamicArray_serialize :: "dynamic_array \<Rightarrow> u32 \<Rightarrow> u32 \<Rightarrow> u8 list exec" where
  "DynamicArray_serialize a position len =
     exit_ifE (length (da_bytes a) < unat (position + len))
       (definedE (unat position + unat len \<le> length (da_bytes a))
          (Inr (read_at (unat position) (unat len) (da_bytes a))))"

definition DynamicArray_arraycpy ::
    "dynamic_array \<Rightarrow> u32 \<Rightarrow> dynamic_array \<Rightarrow> u32 \<Rightarrow> u32 \<Rightarrow> dynamic_array exec" where
  "DynamicArray_arraycpy a position dstarray dstarray_position len =
     exit_ifE (length (da_bytes a) < unat (position + len))
       (definedE (unat position \<le> length (da_bytes a))
          (DynamicArray_deserialize dstarray dstarray_position (drop (unat position) (da_bytes a)) len))"

definition DynamicArray_writeBinaryFile ::
    "dynamic_array \<Rightarrow> u32 \<Rightarrow> u8 list \<Rightarrow> u32 \<Rightarrow> u8 list exec" where
  "DynamicArray_writeBinaryFile a position out len =
     exit_ifE (length (da_bytes a) < unat (position + len))
       (definedE (unat position + unat len \<le> length (da_bytes a))
          (Inr (fs_write (read_at (unat position) (unat len) (da_bytes a)) out)))"

definition DynamicArray_readBinaryFile ::
    "dynamic_array \<Rightarrow> u32 \<Rightarrow> fstream \<Rightarrow> u32 \<Rightarrow> (dynamic_array \<times> fstream) exec" where
  "DynamicArray_readBinaryFile a position fs len =
     exit_ifE (da_capacity a < unat (position + len))
       (let bs = grow_to (unat (position + len)) (da_bytes a)
        in definedE (unat position + unat len \<le> length bs)
             (let (d, fs') = fs_read (read_at (unat position) (unat len) bs) fs
              in Inr (a\<lparr>da_bytes := write_at (unat position) d bs\<rparr>, fs')))"

section \<open>Invariant and abstract effect\<close>

definition da_wf :: "dynamic_array \<Rightarrow> bool" where
  "da_wf a \<longleftrightarrow> length (da_bytes a) \<le> da_capacity a"

text \<open>What a write that stays inside the capacity does to the contents.\<close>

definition da_put :: "nat \<Rightarrow> u8 list \<Rightarrow> dynamic_array \<Rightarrow> dynamic_array" where
  "da_put p d a = a\<lparr>da_bytes := write_at p d (grow_to (p + length d) (da_bytes a))\<rparr>"

definition da_holds :: "dynamic_array \<Rightarrow> nat \<Rightarrow> u8 list \<Rightarrow> bool" where
  "da_holds a p d \<longleftrightarrow> p + length d \<le> length (da_bytes a) \<and> read_at p (length d) (da_bytes a) = d"

lemma length_grow_to [simp]: "length (grow_to n bs) = max n (length bs)"
  by (simp add: grow_to_def)

lemma read_grow_to: "q + n \<le> length bs \<Longrightarrow> read_at q n (grow_to m bs) = read_at q n bs"
  by (simp add: grow_to_def read_resize_before)

lemma da_put_simps [simp]:
  "da_capacity (da_put p d a) = da_capacity a"
  "length (da_bytes (da_put p d a)) = max (p + length d) (length (da_bytes a))"
  by (simp_all add: da_put_def length_write_at)

lemma da_put_wf [simp]: "da_wf a \<Longrightarrow> p + length d \<le> da_capacity a \<Longrightarrow> da_wf (da_put p d a)"
  by (simp add: da_wf_def)

lemma da_holds_put [simp]: "da_holds (da_put p d a) p d"
  by (simp add: da_holds_def da_put_def length_write_at read_write_at)

lemma da_holds_put_after:
  "da_holds a q e \<Longrightarrow> q + length e \<le> p \<Longrightarrow> da_holds (da_put p d a) q e"
proof -
  assume h: "da_holds a q e" and le: "q + length e \<le> p"
  have "read_at q (length e) (write_at p d (grow_to (p + length d) (da_bytes a)))
      = read_at q (length e) (grow_to (p + length d) (da_bytes a))"
    using le by (intro read_write_at_before) auto
  also have "\<dots> = e"
    using h by (simp add: da_holds_def read_grow_to)
  finally show ?thesis
    using h by (auto simp: da_holds_def da_put_def length_write_at)
qed

lemma da_holds_put_before:
  assumes "da_holds a q e" and "p + length d \<le> q"
  shows "da_holds (da_put p d a) q e"
proof -
  have "read_at q (length e) (write_at p d (grow_to (p + length d) (da_bytes a)))
      = read_at q (length e) (grow_to (p + length d) (da_bytes a))"
    using assms(2) by (intro read_write_at_after) auto
  also have "\<dots> = e" using assms(1) by (simp add: da_holds_def read_grow_to)
  finally show ?thesis using assms(1) by (auto simp: da_holds_def da_put_def length_write_at)
qed

lemma da_holds_append:
  "da_holds a p (d @ e) \<longleftrightarrow> da_holds a p d \<and> da_holds a (p + length d) e"
  by (auto simp: da_holds_def read_at_append_eq [simplified] algebra_simps)

lemma da_holds_Nil [simp]: "da_holds a p [] \<longleftrightarrow> p \<le> length (da_bytes a)"
  by (simp add: da_holds_def read_at_def)

text \<open>Two adjacent writes are one write of the concatenation.\<close>

lemma da_put_put:
  assumes "q = p + length d"
  shows "da_put q e (da_put p d a) = da_put p (d @ e) a"
proof -
  have "write_at (p + length d) e (grow_to (p + length d + length e)
          (write_at p d (grow_to (p + length d) bs)))
      = write_at p (d @ e) (grow_to (p + length (d @ e)) bs)" for bs
  proof (cases "p + length d + length e \<le> length bs")
    case True
    then show ?thesis
      by (simp add: grow_to_def write_at_def drop_drop algebra_simps)
  next
    case False
    then show ?thesis
      by (cases "p + length d \<le> length bs")
        (auto simp: grow_to_def write_at_def resize_bytes_def)
  qed
  then show ?thesis
    using assms by (simp add: da_put_def add.assoc)
qed

lemma da_put_Nil [simp]: "p \<le> length (da_bytes a) \<Longrightarrow> da_put p [] a = a"
  by (simp add: da_put_def write_at_def grow_to_def)

section \<open>The operations inside the bounds\<close>

lemma deserialize_ok:
  assumes "unat p + length d \<le> da_capacity a" and "unat p + length d < 2 ^ 32"
    and "n = word_of_nat (length d)"
  shows "DynamicArray_deserialize a p d n = Inr (da_put (unat p) d a)"
proof -
  have n: "unat n = length d"
    using assms by (simp add: unat_of_nat_small)
  then have "unat (p + n) = unat p + length d"
    using assms(2) by (simp add: unat_add_no_wrap)
  with n assms(1) show ?thesis
    by (simp add: DynamicArray_deserialize_def da_put_def Let_def)
qed

lemma serialize_ok:
  assumes "da_holds a (unat p) d" and "unat p + length d < 2 ^ 32" and "n = word_of_nat (length d)"
  shows "DynamicArray_serialize a p n = Inr d"
proof -
  have n: "unat n = length d"
    using assms by (simp add: unat_of_nat_small)
  then have "unat (p + n) = unat p + length d"
    using assms(2) by (simp add: unat_add_no_wrap)
  with n assms(1) show ?thesis
    by (simp add: DynamicArray_serialize_def da_holds_def)
qed

lemma arraycpy_ok:
  assumes "da_holds a (unat p) d" and "unat p + length d < 2 ^ 32" and "n = word_of_nat (length d)"
    and "length d \<le> da_capacity b" and "da_bytes b = []"
  shows "DynamicArray_arraycpy a p b 0 n = Inr (b\<lparr>da_bytes := d\<rparr>)"
proof -
  have n: "unat n = length d"
    using assms by (simp add: unat_of_nat_small)
  then have pn: "unat (p + n) = unat p + length d"
    using assms(2) by (simp add: unat_add_no_wrap)
  have "take (length d) (drop (unat p) (da_bytes a)) = d"
    using assms(1) by (simp add: da_holds_def read_at_def)
  moreover have "length d \<le> length (da_bytes a) - unat p"
    using assms(1) by (auto simp: da_holds_def)
  ultimately show ?thesis
    using n pn assms(1,4,5)
    by (simp add: DynamicArray_arraycpy_def DynamicArray_deserialize_def da_holds_def Let_def
        write_at_def)
qed

section \<open>Failures\<close>

lemma deserialize_exits_iff:
  "DynamicArray_deserialize a p d n = Inl Exited \<longleftrightarrow> da_capacity a < unat (p + n)"
  by (auto simp: DynamicArray_deserialize_def exit_ifE_def definedE_def Let_def)

lemma deserialize_returns_no_wrap:
  assumes "DynamicArray_deserialize a p d n = Inr a'" and "da_wf a" and "da_capacity a < 2 ^ 32"
  shows "unat p + unat n \<le> da_capacity a \<and> a' = da_put (unat p) (take (unat n) d) a
    \<and> da_wf a' \<and> unat n \<le> length d"
proof -
  let ?bs = "grow_to (unat (p + n)) (da_bytes a)"
  from assms(1) have c: "unat (p + n) \<le> da_capacity a" and le: "unat n \<le> length d"
    and fit: "unat p + unat n \<le> length ?bs"
    and a': "a' = a\<lparr>da_bytes := write_at (unat p) (take (unat n) d) ?bs\<rparr>"
    by (auto simp: DynamicArray_deserialize_def exec_inv Let_def)
  have "length ?bs \<le> da_capacity a"
    using c assms(2) by (simp add: da_wf_def)
  with fit have cap: "unat p + unat n \<le> da_capacity a" by (rule order_trans)
  with assms(3) have "unat p + unat n < 2 ^ 32" by simp
  then have "unat (p + n) = unat p + unat n"
    by (simp add: unat_add_no_wrap)
  with a' le have "a' = da_put (unat p) (take (unat n) d) a"
    by (simp add: da_put_def)
  with cap le assms(2) show ?thesis by simp
qed

end
