(* ===== verification/Wire_Format.thy ===== *)
theory Wire_Format
  imports Dynamic_Array
begin

text \<open>
  The contract every serialisable class of the program has with its messages and snapshots. A class
  has a byte format \<open>enc\<close>; \<open>serialize\<close> into a message buffer puts exactly these bytes at the given
  position and returns their number, \<open>deserialize\<close> at a position that holds them gives the object back
  (\<open>wire_codec\<close>), and the same for file streams (\<open>stream_codec\<close>). The classes of the development
  interpret these locales; what follows from the contract (round trip, later writes do not disturb an
  earlier field, a length-prefixed list of fields) is proved here once.

  \<open>ser_list\<close> and \<open>deser_list\<close> are the loops the classes write around the \<open>serialize\<close> of an element.
\<close>

type_synonym 'a serializer = "'a \<Rightarrow> dynamic_array \<Rightarrow> u32 \<Rightarrow> (dynamic_array \<times> u32) exec"
type_synonym 'a deserializer = "'a \<Rightarrow> dynamic_array \<Rightarrow> u32 \<Rightarrow> ('a \<times> u32) exec"
type_synonym 'a fs_serializer = "'a \<Rightarrow> u8 list \<Rightarrow> (u8 list \<times> u32) exec"
type_synonym 'a fs_deserializer = "'a \<Rightarrow> fstream \<Rightarrow> ('a \<times> fstream \<times> u32) exec"

fun ser_list :: "'a serializer \<Rightarrow> 'a list \<Rightarrow> dynamic_array \<Rightarrow> u32 \<Rightarrow> (dynamic_array \<times> u32) exec" where
  "ser_list ser [] a sz = Inr (a, sz)"
| "ser_list ser (x # xs) a sz =
     bindE (ser x a sz) (\<lambda>(a', n). ser_list ser xs a' (sz + n))"

fun deser_list :: "'a deserializer \<Rightarrow> 'a \<Rightarrow> nat \<Rightarrow> dynamic_array \<Rightarrow> u32 \<Rightarrow> ('a list \<times> u32) exec" where
  "deser_list deser y 0 a sz = Inr ([], sz)"
| "deser_list deser y (Suc k) a sz =
     bindE (deser y a sz) (\<lambda>(x, n).
     bindE (deser_list deser y k a (sz + n)) (\<lambda>(xs, sz'). Inr (x # xs, sz')))"

fun fs_ser_list :: "'a fs_serializer \<Rightarrow> 'a list \<Rightarrow> u8 list \<Rightarrow> u32 \<Rightarrow> (u8 list \<times> u32) exec" where
  "fs_ser_list ser [] out sz = Inr (out, sz)"
| "fs_ser_list ser (x # xs) out sz =
     bindE (ser x out) (\<lambda>(out', n). fs_ser_list ser xs out' (sz + n))"

fun fs_deser_list :: "'a fs_deserializer \<Rightarrow> 'a \<Rightarrow> nat \<Rightarrow> fstream \<Rightarrow> u32 \<Rightarrow> ('a list \<times> fstream \<times> u32) exec" where
  "fs_deser_list deser y 0 fs sz = Inr ([], fs, sz)"
| "fs_deser_list deser y (Suc k) fs sz =
     bindE (deser y fs) (\<lambda>(x, fs', n).
     bindE (fs_deser_list deser y k fs' (sz + n)) (\<lambda>(xs, fs'', sz'). Inr (x # xs, fs'', sz')))"

text \<open>A list with its length in front.\<close>

definition ser_counted :: "'a serializer \<Rightarrow> 'a list \<Rightarrow> dynamic_array \<Rightarrow> u32 \<Rightarrow> (dynamic_array \<times> u32) exec" where
  "ser_counted ser xs msg_payload sz =
     bindE (DynamicArray_deserialize msg_payload sz (u32_mem (word_of_nat (length xs))) 4) (\<lambda>msg_payload.
     ser_list ser xs msg_payload (sz + 4))"

definition deser_counted :: "'a deserializer \<Rightarrow> 'a \<Rightarrow> dynamic_array \<Rightarrow> u32 \<Rightarrow> ('a list \<times> u32) exec" where
  "deser_counted deser y msg_payload sz =
     bindE (DynamicArray_serialize msg_payload sz 4) (\<lambda>n. deser_list deser y (unat (mem_u32 n)) msg_payload (sz + 4))"

definition fs_ser_counted :: "'a fs_serializer \<Rightarrow> 'a list \<Rightarrow> u8 list \<Rightarrow> u32 \<Rightarrow> (u8 list \<times> u32) exec" where
  "fs_ser_counted ser xs out sz = fs_ser_list ser xs (fs_write (u32_mem (word_of_nat (length xs))) out) (sz + 4)"

definition fs_deser_counted :: "'a fs_deserializer \<Rightarrow> 'a \<Rightarrow> fstream \<Rightarrow> u32 \<Rightarrow> ('a list \<times> fstream \<times> u32) exec" where
  "fs_deser_counted deser y fs sz =
     (let (n, fs) = fs_read [0, 0, 0, 0] fs in fs_deser_list deser y (unat (mem_u32 n)) fs (sz + 4))"

definition good_fs :: "u8 list \<Rightarrow> fstream" where
  "good_fs d = \<lparr>fs_data = d, fs_fail = False\<rparr>"

lemma fs_read_good [simp]:
  "length d = length buf \<Longrightarrow> fs_read buf (good_fs (d @ rest)) = (d, good_fs rest)"
  by (simp add: good_fs_def)

lemma fs_read_one [simp]: "fs_read [c] (good_fs (b # rest)) = ([b], good_fs rest)"
  using fs_read_good [of "[b]" "[c]" rest] by simp

section \<open>The byte format of a class\<close>

locale byte_format =
  fixes wf :: "'a \<Rightarrow> bool"
    and enc :: "'a \<Rightarrow> u8 list"
begin

definition enc_list :: "'a list \<Rightarrow> u8 list" where
  "enc_list xs = concat (map enc xs)"

lemma enc_list_simps [simp]:
  "enc_list [] = []" "enc_list (x # xs) = enc x @ enc_list xs"
  by (simp_all add: enc_list_def)

definition counted_enc :: "'a list \<Rightarrow> u8 list" where
  "counted_enc xs = u32_mem (word_of_nat (length xs)) @ enc_list xs"

end

section \<open>Message buffers\<close>

locale wire_codec = byte_format wf enc
  for wf :: "'a \<Rightarrow> bool" and enc :: "'a \<Rightarrow> u8 list" +
  fixes fresh :: "'a \<Rightarrow> bool"
    and ser :: "'a serializer"
    and deser :: "'a deserializer"
  assumes ser_enc: "wf x \<Longrightarrow> unat p + length (enc x) \<le> da_capacity a \<Longrightarrow> unat p + length (enc x) < 2 ^ 32 \<Longrightarrow>
      ser x a p = Inr (da_put (unat p) (enc x) a, word_of_nat (length (enc x)))"
    and deser_enc: "wf x \<Longrightarrow> fresh y \<Longrightarrow> da_holds a (unat p) (enc x) \<Longrightarrow> unat p + length (enc x) < 2 ^ 32 \<Longrightarrow>
      deser y a p = Inr (x, word_of_nat (length (enc x)))"
begin

lemma round_trip:
  assumes "wf x" and "fresh y"
    and "unat p + length (enc x) \<le> da_capacity a" and "unat p + length (enc x) < 2 ^ 32"
  shows "\<exists>a'. ser x a p = Inr (a', word_of_nat (length (enc x)))
    \<and> deser y a' p = Inr (x, word_of_nat (length (enc x)))"
  using assms by (auto simp: ser_enc intro!: deser_enc)

lemma survives_later_write:
  assumes "wf x" and "fresh y" and "da_holds a (unat p) (enc x)" and "unat p + length (enc x) < 2 ^ 32"
    and "unat p + length (enc x) \<le> q"
  shows "deser y (da_put q d a) p = Inr (x, word_of_nat (length (enc x)))"
  using assms by (auto intro!: deser_enc da_holds_put_after)

lemma ser_list_enc:
  assumes "\<forall>x\<in>set xs. wf x"
    and "unat p + length (enc_list xs) \<le> da_capacity a" and "unat p + length (enc_list xs) < 2 ^ 32"
    and "unat p \<le> length (da_bytes a)"
  shows "ser_list ser xs a p = Inr (da_put (unat p) (enc_list xs) a, p + word_of_nat (length (enc_list xs)))"
  using assms
proof (induction xs arbitrary: a p)
  case Nil
  then show ?case by simp
next
  case (Cons x xs)
  let ?a1 = "da_put (unat p) (enc x) a"
  let ?p1 = "p + word_of_nat (length (enc x))"
  have p1: "unat ?p1 = unat p + length (enc x)"
    using Cons.prems by (simp add: unat_add_no_wrap unat_of_nat_small)
  have s: "ser x a p = Inr (?a1, word_of_nat (length (enc x)))"
    using Cons.prems by (intro ser_enc) auto
  have "ser_list ser xs ?a1 ?p1
      = Inr (da_put (unat ?p1) (enc_list xs) ?a1, ?p1 + word_of_nat (length (enc_list xs)))"
    using Cons.prems p1 by (intro Cons.IH) auto
  with s p1 show ?case
    by (simp add: da_put_put add.assoc)
qed

lemma deser_list_enc:
  assumes "\<forall>x\<in>set xs. wf x" and "fresh y"
    and "da_holds a (unat p) (enc_list xs)" and "unat p + length (enc_list xs) < 2 ^ 32"
  shows "deser_list deser y (length xs) a p = Inr (xs, p + word_of_nat (length (enc_list xs)))"
  using assms
proof (induction xs arbitrary: p)
  case Nil
  then show ?case by simp
next
  case (Cons x xs)
  let ?p1 = "p + word_of_nat (length (enc x))"
  have p1: "unat ?p1 = unat p + length (enc x)"
    using Cons.prems by (simp add: unat_add_no_wrap unat_of_nat_small)
  have d: "deser y a p = Inr (x, word_of_nat (length (enc x)))"
    using Cons.prems by (intro deser_enc) (auto simp: da_holds_append)
  have "deser_list deser y (length xs) a ?p1 = Inr (xs, ?p1 + word_of_nat (length (enc_list xs)))"
    using Cons.IH [of ?p1] Cons.prems p1 by (auto simp: da_holds_append)
  with d show ?case by (simp add: add.assoc)
qed

lemma ser_counted_enc:
  assumes "\<forall>x \<in> set xs. wf x" and "unat p + length (counted_enc xs) \<le> da_capacity a" and "unat p + length (counted_enc xs) < 2 ^ 32"
  shows "ser_counted ser xs a p = Inr (da_put (unat p) (counted_enc xs) a, p + word_of_nat (length (counted_enc xs)))"
proof -
  let ?h = "u32_mem (word_of_nat (length xs))"
  have p4: "unat (p + 4) = unat p + 4" using assms by (simp add: unat_add_no_wrap counted_enc_def)
  have 1: "DynamicArray_deserialize a p ?h 4 = Inr (da_put (unat p) ?h a)"
    using assms by (intro deserialize_ok) (simp_all add: counted_enc_def)
  have "ser_list ser xs (da_put (unat p) ?h a) (p + 4)
      = Inr (da_put (unat (p + 4)) (enc_list xs) (da_put (unat p) ?h a), p + 4 + word_of_nat (length (enc_list xs)))"
    using assms p4 by (intro ser_list_enc) (simp_all add: counted_enc_def)
  then show ?thesis using 1 p4 by (simp add: ser_counted_def counted_enc_def da_put_put)
qed

lemma deser_counted_enc:
  assumes "\<forall>x \<in> set xs. wf x" and "fresh y" and "length xs < 2 ^ 32" and "da_holds a (unat p) (counted_enc xs)"
    and "unat p + length (counted_enc xs) < 2 ^ 32"
  shows "deser_counted deser y a p = Inr (xs, p + word_of_nat (length (counted_enc xs)))"
proof -
  let ?h = "u32_mem (word_of_nat (length xs))"
  have p4: "unat (p + 4) = unat p + 4" using assms by (simp add: unat_add_no_wrap counted_enc_def)
  have h: "da_holds a (unat p) ?h" "da_holds a (unat (p + 4)) (enc_list xs)"
    using assms(4) p4 by (simp_all add: counted_enc_def da_holds_append)
  have 1: "DynamicArray_serialize a p 4 = Inr ?h" using h(1) assms(5) by (intro serialize_ok) (simp_all add: counted_enc_def)
  have 2: "deser_list deser y (length xs) a (p + 4) = Inr (xs, p + 4 + word_of_nat (length (enc_list xs)))"
    using assms p4 h(2) by (intro deser_list_enc) (simp_all add: counted_enc_def)
  show ?thesis using 1 2 assms(3) by (simp add: deser_counted_def counted_enc_def unat_of_nat_small)
qed

end

section \<open>File streams\<close>

locale stream_codec = byte_format wf enc
  for wf :: "'a \<Rightarrow> bool" and enc :: "'a \<Rightarrow> u8 list" +
  fixes fresh :: "'a \<Rightarrow> bool"
    and fs_ser :: "'a fs_serializer"
    and fs_deser :: "'a fs_deserializer"
  assumes fs_ser_enc: "wf x \<Longrightarrow> fs_ser x out = Inr (out @ enc x, word_of_nat (length (enc x)))"
    and fs_deser_enc: "wf x \<Longrightarrow> fresh y \<Longrightarrow>
      fs_deser y (good_fs (enc x @ rest)) = Inr (x, good_fs rest, word_of_nat (length (enc x)))"
begin

lemma fs_round_trip:
  "wf x \<Longrightarrow> fresh y \<Longrightarrow>
   \<exists>bs. fs_ser x [] = Inr (bs, word_of_nat (length bs))
     \<and> fs_deser y (good_fs (bs @ rest)) = Inr (x, good_fs rest, word_of_nat (length bs))"
  by (simp add: fs_ser_enc fs_deser_enc)

lemma fs_ser_list_enc:
  "\<forall>x\<in>set xs. wf x \<Longrightarrow>
   fs_ser_list fs_ser xs out n = Inr (out @ enc_list xs, n + word_of_nat (length (enc_list xs)))"
  by (induction xs arbitrary: out n) (auto simp: fs_ser_enc add.assoc)

lemma fs_deser_list_enc:
  "\<forall>x\<in>set xs. wf x \<Longrightarrow> fresh y \<Longrightarrow>
   fs_deser_list fs_deser y (length xs) (good_fs (enc_list xs @ rest)) n
     = Inr (xs, good_fs rest, n + word_of_nat (length (enc_list xs)))"
  by (induction xs arbitrary: n) (auto simp: fs_deser_enc add.assoc)

lemma fs_ser_counted_enc:
  "\<forall>x \<in> set xs. wf x \<Longrightarrow> fs_ser_counted fs_ser xs out n = Inr (out @ counted_enc xs, n + word_of_nat (length (counted_enc xs)))"
  by (simp add: fs_ser_counted_def fs_ser_list_enc fs_write_def counted_enc_def add.assoc)

lemma fs_deser_counted_enc:
  "\<forall>x \<in> set xs. wf x \<Longrightarrow> fresh y \<Longrightarrow> length xs < 2 ^ 32 \<Longrightarrow>
   fs_deser_counted fs_deser y (good_fs (counted_enc xs @ rest)) n = Inr (xs, good_fs rest, n + word_of_nat (length (counted_enc xs)))"
  by (simp add: fs_deser_counted_def fs_deser_list_enc counted_enc_def unat_of_nat_small add.assoc)

end

end
