(* ===== verification/Keys_Values.thy ===== *)
theory Keys_Values
  imports Wire_Format
begin

text \<open>
  \<open>Key\<close> (\<open>src/src/common/key.c\<close>) and \<open>Value\<close> (\<open>src/src/common/value.c\<close>): the identifiers and objects
  the caches hold, with their serialisation into messages and files. A key is a byte string; its
  length is cut to 32 bits wherever the class returns or sends it. A value carries its size only
  (\<open>MAX_VALUE_CONTENT_SIZE\<close> is 0, so no content goes over the network). The theory makes \<open>key\<close> a linear
  order by the class's \<open>operator<\<close> and interprets both classes as codecs.
\<close>

section \<open>Key\<close>

datatype key = Key (keystr: "u8 list")

definition Key_getKeyLength :: "key \<Rightarrow> u32" where
  "Key_getKeyLength k = word_of_nat (length (keystr k))"

definition Key_getKeyPayloadSize :: "key \<Rightarrow> u32" where
  "Key_getKeyPayloadSize k = 4 + word_of_nat (length (keystr k))"

definition Key_serialize :: "key serializer" where
  "Key_serialize k msg_payload position =
     bindE (DynamicArray_deserialize msg_payload position (htonl_mem (Key_getKeyLength k)) 4) (\<lambda>msg_payload.
     bindE (DynamicArray_deserialize msg_payload (position + 4) (keystr k) (Key_getKeyLength k)) (\<lambda>msg_payload.
     Inr (msg_payload, position + 4 + Key_getKeyLength k - position)))"

definition Key_serialize_fs :: "key fs_serializer" where
  "Key_serialize_fs k out =
     (let out = fs_write (htonl_mem (Key_getKeyLength k)) out;
          out = fs_write (keystr k) out
      in Inr (out, 4 + Key_getKeyLength k))"

definition Key_deserialize :: "key deserializer" where
  "Key_deserialize this msg_payload position =
     bindE (DynamicArray_serialize msg_payload position 4) (\<lambda>bigendian_keysize.
     let keysize = mem_ntohl bigendian_keysize;
         keybytes = DynamicArray_with_capacity keysize
     in bindE (DynamicArray_arraycpy msg_payload (position + 4) keybytes 0 keysize) (\<lambda>keybytes.
        Inr (Key (take (unat keysize) (da_bytes keybytes)), position + 4 + keysize - position)))"

text \<open>
  Reading a key from a file fills storage that is reserved but not initialised, so a short read
  leaves indeterminate bytes in the key.
\<close>

definition Key_deserialize_fs :: "key fs_deserializer" where
  "Key_deserialize_fs this fs =
     (let (bitendian_keysize, fs) = fs_read [0, 0, 0, 0] fs;
          keysize = mem_ntohl bitendian_keysize;
          (keybytes, fs) = fs_read (replicate (unat keysize) 0) fs
      in definedE (keysize = 0 \<or> \<not> fs_fail fs) (Inr (Key keybytes, fs, 4 + keysize)))"

text \<open>\<open>std::string::compare\<close>: bytes as unsigned values, then the lengths.\<close>

fun string_compare :: "u8 list \<Rightarrow> u8 list \<Rightarrow> int" where
  "string_compare [] [] = 0"
| "string_compare [] (y # ys) = -1"
| "string_compare (x # xs) [] = 1"
| "string_compare (x # xs) (y # ys) =
     (if x < y then -1 else if y < x then 1 else string_compare xs ys)"

definition Key_less :: "key \<Rightarrow> key \<Rightarrow> bool" where
  "Key_less k l = (string_compare (keystr k) (keystr l) < 0)"

definition Key_equal :: "key \<Rightarrow> key \<Rightarrow> bool" where
  "Key_equal k l = (keystr k = keystr l)"

section \<open>Value\<close>

record data_value =
  is_deleted :: bool
  valuesize :: u32

definition MAX_VALUE_CONTENT_SIZE :: u32 where
  "MAX_VALUE_CONTENT_SIZE = 0"

definition Value_deleted :: data_value where
  "Value_deleted = \<lparr>is_deleted = True, valuesize = 0\<rparr>"

definition Value_of_size :: "u32 \<Rightarrow> data_value" where
  "Value_of_size n = \<lparr>is_deleted = False, valuesize = n\<rparr>"

definition Value_getValuesizeForNetwork :: "u32 \<Rightarrow> u32" where
  "Value_getValuesizeForNetwork value_size =
     (if MAX_VALUE_CONTENT_SIZE < value_size then MAX_VALUE_CONTENT_SIZE else value_size)"

text \<open>
  The content: random bytes when the configuration asks for them (\<open>is_random\<close>,
  \<open>Util::getRandomString\<close> is the argument \<open>getRandomString\<close>), the character \<open>0\<close> otherwise.
\<close>

definition Value_generateValuestr :: "bool \<Rightarrow> (u32 \<Rightarrow> u8 list) \<Rightarrow> u32 \<Rightarrow> u8 list" where
  "Value_generateValuestr is_random getRandomString value_size =
     (if 0 < value_size
      then if is_random then getRandomString value_size else replicate (unat value_size) 48
      else [])"

definition Value_getValuePayloadSize :: "bool \<Rightarrow> data_value \<Rightarrow> u32" where
  "Value_getValuePayloadSize is_space_efficient v =
     1 + 4 + (if \<not> is_space_efficient then Value_getValuesizeForNetwork (valuesize v) else 0)"

definition Value_serialize ::
    "bool \<Rightarrow> (u32 \<Rightarrow> u8 list) \<Rightarrow> bool \<Rightarrow> data_value serializer" where
  "Value_serialize is_random getRandomString is_space_efficient v msg_payload position =
     bindE (DynamicArray_deserialize msg_payload position (bool_mem (is_deleted v)) 1) (\<lambda>msg_payload.
     bindE (DynamicArray_deserialize msg_payload (position + 1) (htonl_mem (valuesize v)) 4) (\<lambda>msg_payload.
     let pos = position + 1 + 4;
         valuestr = Value_generateValuestr is_random getRandomString (Value_getValuesizeForNetwork (valuesize v));
         len = (word_of_nat (length valuestr) :: u32)
     in if \<not> is_space_efficient \<and> 0 < length valuestr
        then bindE (DynamicArray_deserialize msg_payload pos valuestr len) (\<lambda>msg_payload.
             Inr (msg_payload, pos + len - position))
        else Inr (msg_payload, pos - position)))"

definition Value_serialize_fs ::
    "bool \<Rightarrow> (u32 \<Rightarrow> u8 list) \<Rightarrow> bool \<Rightarrow> data_value fs_serializer" where
  "Value_serialize_fs is_random getRandomString is_space_efficient v out =
     (let out = fs_write (bool_mem (is_deleted v)) out;
          out = fs_write (htonl_mem (valuesize v)) out;
          valuestr = Value_generateValuestr is_random getRandomString (Value_getValuesizeForNetwork (valuesize v))
      in if \<not> is_space_efficient \<and> 0 < length valuestr
         then Inr (fs_write valuestr out, 1 + 4 + word_of_nat (length valuestr))
         else Inr (out, 1 + 4))"

definition Value_deserialize :: "bool \<Rightarrow> data_value deserializer" where
  "Value_deserialize is_space_efficient this msg_payload position =
     bindE (DynamicArray_serialize msg_payload position 1) (\<lambda>deleted.
     bindE (DynamicArray_serialize msg_payload (position + 1) 4) (\<lambda>bigendian_valuesize.
     let v = \<lparr>is_deleted = mem_bool deleted, valuesize = mem_ntohl bigendian_valuesize\<rparr>;
         pos = position + 1 + 4
     in Inr (v, (if \<not> is_space_efficient then pos + Value_getValuesizeForNetwork (valuesize v) else pos)
               - position)))"

definition Value_deserialize_fs :: "bool \<Rightarrow> data_value fs_deserializer" where
  "Value_deserialize_fs is_space_efficient this fs =
     (let (deleted, fs) = fs_read (bool_mem (is_deleted this)) fs;
          (bitendian_valuesize, fs) = fs_read [0, 0, 0, 0] fs
      in assertE is_space_efficient
           (Inr (\<lparr>is_deleted = mem_bool deleted, valuesize = mem_ntohl bitendian_valuesize\<rparr>, fs, 1 + 4)))"

section \<open>The order on keys\<close>

lemma string_compare_eq_0 [simp]: "string_compare xs ys = 0 \<longleftrightarrow> xs = ys"
  by (induction xs ys rule: string_compare.induct) auto

lemma string_compare_refl [simp]: "string_compare xs xs = 0"
  by simp

lemma string_compare_antisym: "string_compare ys xs = - string_compare xs ys"
  by (induction xs ys rule: string_compare.induct) auto

lemma string_compare_trans:
  "string_compare xs ys < 0 \<Longrightarrow> string_compare ys zs < 0 \<Longrightarrow> string_compare xs zs < 0"
proof (induction xs ys arbitrary: zs rule: string_compare.induct)
  case (4 x xs y ys)
  then show ?case
    by (cases zs) (auto split: if_splits)
next
  case (2 y ys)
  then show ?case by (cases zs) auto
qed auto

instantiation key :: linorder
begin

definition less_key :: "key \<Rightarrow> key \<Rightarrow> bool" where
  "less_key k l = Key_less k l"

definition less_eq_key :: "key \<Rightarrow> key \<Rightarrow> bool" where
  "less_eq_key k l = (Key_less k l \<or> k = l)"

instance
proof
  fix x y z :: key
  show "(x < y) = (x \<le> y \<and> \<not> y \<le> x)"
    using string_compare_antisym [of "keystr y" "keystr x"]
    by (auto simp: less_key_def less_eq_key_def Key_less_def)
  show "x \<le> x" by (simp add: less_eq_key_def)
  show "x \<le> y \<Longrightarrow> y \<le> z \<Longrightarrow> x \<le> z"
    using string_compare_trans by (auto simp: less_eq_key_def Key_less_def)
  show "x \<le> y \<Longrightarrow> y \<le> x \<Longrightarrow> x = y"
    using string_compare_antisym [of "keystr y" "keystr x"]
    by (auto simp: less_eq_key_def Key_less_def)
  show "x \<le> y \<or> y \<le> x"
    using string_compare_antisym [of "keystr y" "keystr x"] string_compare_eq_0 [of "keystr x" "keystr y"]
    by (cases "string_compare (keystr x) (keystr y)" "0 :: int" rule: linorder_cases)
      (auto simp: less_eq_key_def Key_less_def key.expand)
qed

end

section \<open>Byte formats\<close>

definition Key_wf :: "key \<Rightarrow> bool" where
  "Key_wf k \<longleftrightarrow> length (keystr k) < 2 ^ 32"

definition Key_enc :: "key \<Rightarrow> u8 list" where
  "Key_enc k = htonl_mem (Key_getKeyLength k) @ keystr k"

definition Value_enc :: "data_value \<Rightarrow> u8 list" where
  "Value_enc v = bool_mem (is_deleted v) @ htonl_mem (valuesize v)"

lemma length_Key_enc [simp]: "length (Key_enc k) = 4 + length (keystr k)"
  by (simp add: Key_enc_def)

lemma length_Value_enc [simp]: "length (Value_enc v) = 5"
  by (simp add: Value_enc_def)

lemma unat_Key_getKeyLength: "Key_wf k \<Longrightarrow> unat (Key_getKeyLength k) = length (keystr k)"
  by (simp add: Key_wf_def Key_getKeyLength_def unat_of_nat_small)

lemma Value_network_empty [simp]:
  "Value_getValuesizeForNetwork n = 0" "Value_generateValuestr r g 0 = []"
  by (simp_all add: Value_getValuesizeForNetwork_def MAX_VALUE_CONTENT_SIZE_def
      Value_generateValuestr_def word_gt_0)

lemma Key_serialize_enc:
  assumes "Key_wf k" and "unat p + length (Key_enc k) \<le> da_capacity a"
    and "unat p + length (Key_enc k) < 2 ^ 32"
  shows "Key_serialize k a p = Inr (da_put (unat p) (Key_enc k) a, word_of_nat (length (Key_enc k)))"
proof -
  have p4: "unat (p + 4) = unat p + 4"
    using assms by (simp add: unat_add_no_wrap)
  have 1: "DynamicArray_deserialize a p (htonl_mem (Key_getKeyLength k)) 4
      = Inr (da_put (unat p) (htonl_mem (Key_getKeyLength k)) a)"
    using assms by (intro deserialize_ok) auto
  have 2: "DynamicArray_deserialize b (p + 4) (keystr k) (Key_getKeyLength k)
      = Inr (da_put (unat p + 4) (keystr k) b)" if "da_capacity b = da_capacity a" for b
    using assms that p4 deserialize_ok [of "p + 4" "keystr k" b "Key_getKeyLength k"]
    by (simp add: Key_getKeyLength_def)
  show ?thesis
    using 1 2 by (simp add: Key_serialize_def Key_enc_def da_put_put) (simp add: Key_getKeyLength_def)
qed

lemma Key_deserialize_enc:
  assumes "Key_wf k" and "da_holds a (unat p) (Key_enc k)" and "unat p + length (Key_enc k) < 2 ^ 32"
  shows "Key_deserialize y a p = Inr (k, word_of_nat (length (Key_enc k)))"
proof -
  have p4: "unat (p + 4) = unat p + 4"
    using assms by (simp add: unat_add_no_wrap)
  have h: "da_holds a (unat p) (htonl_mem (Key_getKeyLength k))" "da_holds a (unat p + 4) (keystr k)"
    using assms(2) by (auto simp: Key_enc_def da_holds_append)
  have 1: "DynamicArray_serialize a p 4 = Inr (htonl_mem (Key_getKeyLength k))"
    using assms h by (intro serialize_ok) auto
  have 2: "DynamicArray_arraycpy a (p + 4) (DynamicArray_with_capacity (Key_getKeyLength k)) 0 (Key_getKeyLength k)
     = Inr ((DynamicArray_with_capacity (Key_getKeyLength k))\<lparr>da_bytes := keystr k\<rparr>)"
    using assms h p4 unat_Key_getKeyLength [OF assms(1)]
    by (intro arraycpy_ok) (auto simp: DynamicArray_with_capacity_def DynamicArray_clear_def
        DynamicArray_new_def Key_getKeyLength_def)
  show ?thesis
    using 1 2 unat_Key_getKeyLength [OF assms(1)]
    by (simp add: Key_deserialize_def Let_def) (simp add: Key_getKeyLength_def)
qed

interpretation key_wire: wire_codec Key_wf Key_enc "\<lambda>_. True" Key_serialize Key_deserialize
  by unfold_locales (simp_all add: Key_serialize_enc Key_deserialize_enc)

interpretation key_stream: stream_codec Key_wf Key_enc "\<lambda>_. True" Key_serialize_fs Key_deserialize_fs
proof unfold_locales
  fix k y :: key and out rest :: "u8 list"
  assume wf: "Key_wf k"
  show "Key_serialize_fs k out = Inr (out @ Key_enc k, word_of_nat (length (Key_enc k)))"
    by (simp add: Key_serialize_fs_def Key_enc_def Let_def Key_getKeyLength_def)
  show "Key_deserialize_fs y (good_fs (Key_enc k @ rest)) = Inr (k, good_fs rest, word_of_nat (length (Key_enc k)))"
    using unat_Key_getKeyLength [OF wf]
    by (simp add: Key_deserialize_fs_def Key_enc_def Let_def) (simp add: good_fs_def Key_getKeyLength_def)
qed

lemma Value_serialize_enc:
  assumes "unat p + length (Value_enc v) \<le> da_capacity a" and "unat p + length (Value_enc v) < 2 ^ 32"
  shows "Value_serialize r g b v a p = Inr (da_put (unat p) (Value_enc v) a, word_of_nat (length (Value_enc v)))"
proof -
  have p1: "unat (p + 1) = unat p + 1"
    using assms by (simp add: unat_add_no_wrap)
  have 1: "DynamicArray_deserialize a p (bool_mem (is_deleted v)) 1 = Inr (da_put (unat p) (bool_mem (is_deleted v)) a)"
    using assms by (intro deserialize_ok) auto
  have 2: "DynamicArray_deserialize c (p + 1) (htonl_mem (valuesize v)) 4
      = Inr (da_put (unat p + 1) (htonl_mem (valuesize v)) c)" if "da_capacity c = da_capacity a" for c
    using assms that p1 deserialize_ok [of "p + 1" "htonl_mem (valuesize v)" c 4] by simp
  show ?thesis
    using 1 2 by (simp add: Value_serialize_def Value_enc_def da_put_put Let_def)
qed

lemma Value_deserialize_enc:
  assumes "da_holds a (unat p) (Value_enc v)" and "unat p + length (Value_enc v) < 2 ^ 32"
  shows "Value_deserialize b y a p = Inr (v, word_of_nat (length (Value_enc v)))"
proof -
  have p1: "unat (p + 1) = unat p + 1"
    using assms by (simp add: unat_add_no_wrap)
  have h: "da_holds a (unat p) (bool_mem (is_deleted v))" "da_holds a (unat p + 1) (htonl_mem (valuesize v))"
    using assms(1) by (auto simp: Value_enc_def da_holds_append)
  have 1: "DynamicArray_serialize a p 1 = Inr (bool_mem (is_deleted v))"
    using assms h by (intro serialize_ok) auto
  have 2: "DynamicArray_serialize a (p + 1) 4 = Inr (htonl_mem (valuesize v))"
    using assms h p1 by (intro serialize_ok) auto
  show ?thesis
    using 1 2 by (simp add: Value_deserialize_def Let_def)
qed

interpretation value_wire: wire_codec "\<lambda>_. True" Value_enc "\<lambda>_. True" "Value_serialize r g b" "Value_deserialize b"
  for r g b
  by unfold_locales (simp_all add: Value_serialize_enc Value_deserialize_enc)

interpretation value_stream: stream_codec "\<lambda>_. True" Value_enc "\<lambda>_. True"
    "Value_serialize_fs r g True" "Value_deserialize_fs True"
  for r g
proof unfold_locales
  fix v y :: data_value and out rest :: "u8 list"
  show "Value_serialize_fs r g True v out = Inr (out @ Value_enc v, word_of_nat (length (Value_enc v)))"
    by (simp add: Value_serialize_fs_def Value_enc_def Let_def)
  show "Value_deserialize_fs True y (good_fs (Value_enc v @ rest)) = Inr (v, good_fs rest, word_of_nat (length (Value_enc v)))"
    by (simp add: Value_deserialize_fs_def Value_enc_def Let_def)
qed

end
