(* ===== verification/Directory_Info.thy ===== *)
theory Directory_Info
  imports Keys_Values
begin

text \<open>
  The small classes under \<open>src/src/cooperation/directory/\<close> that a directory entry is made of:
  \<open>DirectoryInfo\<close> (which edge node caches the object), \<open>DirectoryMetadata\<close> (whether that copy is
  valid) and \<open>MetadataUpdateRequirement\<close> (which edge node has to be told when an object goes from one
  cached copy to several or back).
\<close>

section \<open>DirectoryInfo\<close>

datatype directory_info = DirectoryInfo (getTargetEdgeIdx: u32)

definition DirectoryInfo_default :: directory_info where
  "DirectoryInfo_default = DirectoryInfo 0"

text \<open>The iterator found is a position in the list; the length of the list stands for \<open>end()\<close>.\<close>

fun findDirinfoFromList :: "directory_info \<Rightarrow> directory_info list \<Rightarrow> nat" where
  "findDirinfoFromList dirinfo [] = 0"
| "findDirinfoFromList dirinfo (d # ds) =
     (if d = dirinfo then 0 else Suc (findDirinfoFromList dirinfo ds))"

definition DirectoryInfo_getDirectoryInfoPayloadSize :: "directory_info \<Rightarrow> u32" where
  "DirectoryInfo_getDirectoryInfoPayloadSize d = 4"

definition DirectoryInfo_serialize :: "directory_info serializer" where
  "DirectoryInfo_serialize d msg_payload position =
     bindE (DynamicArray_deserialize msg_payload position (htonl_mem (getTargetEdgeIdx d)) 4) (\<lambda>msg_payload.
     Inr (msg_payload, position + 4 - position))"

definition DirectoryInfo_serialize_fs :: "directory_info fs_serializer" where
  "DirectoryInfo_serialize_fs d out = Inr (fs_write (htonl_mem (getTargetEdgeIdx d)) out, 4)"

definition DirectoryInfo_deserialize :: "directory_info deserializer" where
  "DirectoryInfo_deserialize this msg_payload position =
     bindE (DynamicArray_serialize msg_payload position 4) (\<lambda>bigendian_target_edge_idx.
     Inr (DirectoryInfo (mem_ntohl bigendian_target_edge_idx), position + 4 - position))"

definition DirectoryInfo_deserialize_fs :: "directory_info fs_deserializer" where
  "DirectoryInfo_deserialize_fs this fs =
     (let (bigendian_target_edge_idx, fs) = fs_read [0, 0, 0, 0] fs
      in Inr (DirectoryInfo (mem_ntohl bigendian_target_edge_idx), fs, 4))"

definition DirectoryInfo_getSizeForCapacity :: "directory_info \<Rightarrow> u64" where
  "DirectoryInfo_getSizeForCapacity d = 4"

section \<open>DirectoryMetadata\<close>

datatype directory_metadata = DirectoryMetadata (isValidMetadata: bool)

definition DirectoryMetadata_validateMetadata :: "directory_metadata \<Rightarrow> directory_metadata" where
  "DirectoryMetadata_validateMetadata m = DirectoryMetadata True"

definition DirectoryMetadata_invalidateMetadata :: "directory_metadata \<Rightarrow> directory_metadata" where
  "DirectoryMetadata_invalidateMetadata m = DirectoryMetadata False"

definition DirectoryMetadata_getSizeForCapacity :: "directory_metadata \<Rightarrow> u64" where
  "DirectoryMetadata_getSizeForCapacity m = 1"

definition DirectoryMetadata_dumpDirectoryMetadata :: "directory_metadata \<Rightarrow> u8 list \<Rightarrow> u8 list" where
  "DirectoryMetadata_dumpDirectoryMetadata m out = fs_write (bool_mem (isValidMetadata m)) out"

definition DirectoryMetadata_loadDirectoryMetadata ::
    "directory_metadata \<Rightarrow> fstream \<Rightarrow> directory_metadata \<times> fstream" where
  "DirectoryMetadata_loadDirectoryMetadata m fs =
     (let (b, fs) = fs_read (bool_mem (isValidMetadata m)) fs in (DirectoryMetadata (mem_bool b), fs))"

section \<open>MetadataUpdateRequirement\<close>

record metadata_update_requirement =
  is_from_single_to_multiple :: bool
  is_from_multiple_to_single :: bool
  notify_edge_idx :: u32

definition MetadataUpdateRequirement_none :: metadata_update_requirement where
  "MetadataUpdateRequirement_none =
     \<lparr>is_from_single_to_multiple = False, is_from_multiple_to_single = False, notify_edge_idx = 0\<rparr>"

definition MetadataUpdateRequirement_new :: "bool \<Rightarrow> bool \<Rightarrow> u32 \<Rightarrow> metadata_update_requirement exec" where
  "MetadataUpdateRequirement_new single_to_multiple multiple_to_single edge_idx =
     assertE (\<not> (single_to_multiple \<and> multiple_to_single))
       (Inr \<lparr>is_from_single_to_multiple = single_to_multiple,
             is_from_multiple_to_single = multiple_to_single, notify_edge_idx = edge_idx\<rparr>)"

section \<open>Lemmas\<close>

lemma findDirinfo_end_iff [simp]: "findDirinfoFromList d ds = length ds \<longleftrightarrow> d \<notin> set ds"
  by (induction ds) auto

lemma findDirinfo_le: "findDirinfoFromList d ds \<le> length ds"
  by (induction ds) auto

text \<open>Erasing the element the iterator found removes its first occurrence.\<close>

lemma erase_findDirinfo:
  "take (findDirinfoFromList d ds) ds @ drop (Suc (findDirinfoFromList d ds)) ds = remove1 d ds"
  by (induction ds) auto

definition DirectoryInfo_enc :: "directory_info \<Rightarrow> u8 list" where
  "DirectoryInfo_enc d = htonl_mem (getTargetEdgeIdx d)"

lemma length_DirectoryInfo_enc [simp]: "length (DirectoryInfo_enc d) = 4"
  by (simp add: DirectoryInfo_enc_def)

interpretation dirinfo_wire: wire_codec "\<lambda>_. True" DirectoryInfo_enc "\<lambda>_. True"
    DirectoryInfo_serialize DirectoryInfo_deserialize
proof unfold_locales
  fix d y :: directory_info and p :: u32 and a :: dynamic_array
  show "DirectoryInfo_serialize d a p
      = Inr (da_put (unat p) (DirectoryInfo_enc d) a, word_of_nat (length (DirectoryInfo_enc d)))"
    if "unat p + length (DirectoryInfo_enc d) \<le> da_capacity a"
      and "unat p + length (DirectoryInfo_enc d) < 2 ^ 32"
    using that deserialize_ok [of p "DirectoryInfo_enc d" a 4]
    by (simp add: DirectoryInfo_serialize_def DirectoryInfo_enc_def)
  show "DirectoryInfo_deserialize y a p = Inr (d, word_of_nat (length (DirectoryInfo_enc d)))"
    if "da_holds a (unat p) (DirectoryInfo_enc d)" and "unat p + length (DirectoryInfo_enc d) < 2 ^ 32"
    using that serialize_ok [of a p "DirectoryInfo_enc d" 4]
    by (simp add: DirectoryInfo_deserialize_def DirectoryInfo_enc_def)
qed

interpretation dirinfo_stream: stream_codec "\<lambda>_. True" DirectoryInfo_enc "\<lambda>_. True"
    DirectoryInfo_serialize_fs DirectoryInfo_deserialize_fs
  by unfold_locales
    (simp_all add: DirectoryInfo_serialize_fs_def DirectoryInfo_deserialize_fs_def DirectoryInfo_enc_def)

lemma length_dirinfo_enc_list [simp]: "length (dirinfo_wire.enc_list ds) = 4 * length ds"
  by (induction ds) auto

end
