(* ===== verification/Dirinfo_Set.thy ===== *)
theory Dirinfo_Set
  imports Directory_Info
begin

unbundle bit_operations_syntax

text \<open>
  \<open>DirinfoSet\<close> (\<open>src/src/cooperation/directory/dirinfo_set.c\<close>): the set of edge nodes that cache a key,
  sent between edge nodes either complete or as a delta against the set sent before. The record has
  the class's fields, the bitmap is an 8-bit word with the masks of the source, and each of the
  two delta lists is present exactly when its bit is set. The main results: \<open>recover\<close> undoes
  \<open>compress\<close>, and the message format is a codec for well-formed sets read into an empty object.
\<close>

record dirinfo_set =
  delta_bitmap :: u8
  dirinfo_list :: "directory_info list"
  new_dirinfo_delta_set :: "directory_info list"
  stale_dirinfo_delta_set :: "directory_info list"

definition INVALID_BITMAP :: u8 where "INVALID_BITMAP = 255"
definition COMPLETE_BITMAP :: u8 where "COMPLETE_BITMAP = 0"
definition DELTA_MASK :: u8 where "DELTA_MASK = 1"
definition NEW_DIRINFO_SET_DELTA_MASK :: u8 where "NEW_DIRINFO_SET_DELTA_MASK = 2 OR DELTA_MASK"
definition STALE_DIRINFO_SET_DELTA_MASK :: u8 where "STALE_DIRINFO_SET_DELTA_MASK = 4 OR DELTA_MASK"

definition DirinfoSet_invalid :: dirinfo_set where
  "DirinfoSet_invalid = \<lparr>delta_bitmap = INVALID_BITMAP, dirinfo_list = [],
     new_dirinfo_delta_set = [], stale_dirinfo_delta_set = []\<rparr>"

definition DirinfoSet_of_list :: "directory_info list \<Rightarrow> dirinfo_set" where
  "DirinfoSet_of_list ds = \<lparr>delta_bitmap = COMPLETE_BITMAP, dirinfo_list = ds,
     new_dirinfo_delta_set = [], stale_dirinfo_delta_set = []\<rparr>"

definition DirinfoSet_isInvalid :: "dirinfo_set \<Rightarrow> bool" where
  "DirinfoSet_isInvalid s = (delta_bitmap s = INVALID_BITMAP)"

definition DirinfoSet_isComplete :: "dirinfo_set \<Rightarrow> bool exec" where
  "DirinfoSet_isComplete s =
     assertE (delta_bitmap s \<noteq> INVALID_BITMAP)
       (Inr (delta_bitmap s AND DELTA_MASK = COMPLETE_BITMAP AND DELTA_MASK))"

definition DirinfoSet_isCompressed :: "dirinfo_set \<Rightarrow> bool exec" where
  "DirinfoSet_isCompressed s =
     assertE (delta_bitmap s \<noteq> INVALID_BITMAP) (Inr (delta_bitmap s AND DELTA_MASK = DELTA_MASK))"

definition has_new_delta :: "dirinfo_set \<Rightarrow> bool" where
  "has_new_delta s = (delta_bitmap s AND NEW_DIRINFO_SET_DELTA_MASK = NEW_DIRINFO_SET_DELTA_MASK)"

definition has_stale_delta :: "dirinfo_set \<Rightarrow> bool" where
  "has_stale_delta s = (delta_bitmap s AND STALE_DIRINFO_SET_DELTA_MASK = STALE_DIRINFO_SET_DELTA_MASK)"

definition DirinfoSet_isFullyCompressed :: "dirinfo_set \<Rightarrow> bool exec" where
  "DirinfoSet_isFullyCompressed s =
     assertE (delta_bitmap s \<noteq> INVALID_BITMAP)
       (let is_fully_compressed =
              (delta_bitmap s AND DELTA_MASK = DELTA_MASK \<and> \<not> has_new_delta s \<and> \<not> has_stale_delta s)
        in if is_fully_compressed
           then assertE (length (new_dirinfo_delta_set s) = 0)
                  (assertE (length (stale_dirinfo_delta_set s) = 0) (Inr is_fully_compressed))
           else Inr is_fully_compressed)"

section \<open>Access to a complete set\<close>

text \<open>Each getter returns whether the set is complete, with the value the out-parameter then has.\<close>

definition DirinfoSet_isExistIfComplete :: "dirinfo_set \<Rightarrow> directory_info \<Rightarrow> (bool \<times> bool option) exec" where
  "DirinfoSet_isExistIfComplete s d =
     assertE (delta_bitmap s \<noteq> INVALID_BITMAP)
       (bindE (DirinfoSet_isComplete s) (\<lambda>complete.
        Inr (complete, if complete then Some (findDirinfoFromList d (dirinfo_list s) \<noteq> length (dirinfo_list s))
                       else None)))"

definition DirinfoSet_getDirinfoSetSizeIfComplete :: "dirinfo_set \<Rightarrow> (bool \<times> u32 option) exec" where
  "DirinfoSet_getDirinfoSetSizeIfComplete s =
     assertE (delta_bitmap s \<noteq> INVALID_BITMAP)
       (bindE (DirinfoSet_isComplete s) (\<lambda>complete.
        Inr (complete, if complete then Some (word_of_nat (length (dirinfo_list s))) else None)))"

definition DirinfoSet_tryToInsertIfComplete ::
    "dirinfo_set \<Rightarrow> directory_info \<Rightarrow> (dirinfo_set \<times> bool \<times> bool) exec" where
  "DirinfoSet_tryToInsertIfComplete s d =
     bindE (DirinfoSet_isComplete s) (\<lambda>complete.
     if complete \<and> findDirinfoFromList d (dirinfo_list s) = length (dirinfo_list s)
     then Inr (s\<lparr>dirinfo_list := dirinfo_list s @ [d]\<rparr>, complete, True)
     else Inr (s, complete, False))"

definition DirinfoSet_tryToEraseIfComplete ::
    "dirinfo_set \<Rightarrow> directory_info \<Rightarrow> (dirinfo_set \<times> bool \<times> bool) exec" where
  "DirinfoSet_tryToEraseIfComplete s d =
     bindE (DirinfoSet_isComplete s) (\<lambda>complete.
     let i = findDirinfoFromList d (dirinfo_list s)
     in if complete \<and> i \<noteq> length (dirinfo_list s)
        then Inr (s\<lparr>dirinfo_list := take i (dirinfo_list s) @ drop (Suc i) (dirinfo_list s)\<rparr>, complete, True)
        else Inr (s, complete, False))"

definition DirinfoSet_getDirinfoIfComplete ::
    "dirinfo_set \<Rightarrow> u32 \<Rightarrow> (bool \<times> directory_info option) exec" where
  "DirinfoSet_getDirinfoIfComplete s advance_idx =
     bindE (DirinfoSet_isComplete s) (\<lambda>complete.
     if complete
     then assertE (unat advance_idx < length (dirinfo_list s))
            (Inr (complete, Some (dirinfo_list s ! unat advance_idx)))
     else Inr (complete, None))"

definition DirinfoSet_getDirinfoSetIfComplete :: "dirinfo_set \<Rightarrow> (bool \<times> directory_info list) exec" where
  "DirinfoSet_getDirinfoSetIfComplete s =
     assertE (delta_bitmap s \<noteq> INVALID_BITMAP)
       (bindE (DirinfoSet_isComplete s) (\<lambda>complete. Inr (complete, if complete then dirinfo_list s else [])))"

definition DirinfoSet_setDirinfoSetForComplete :: "dirinfo_set \<Rightarrow> directory_info list \<Rightarrow> dirinfo_set exec" where
  "DirinfoSet_setDirinfoSetForComplete s ds =
     assertE (delta_bitmap s \<noteq> INVALID_BITMAP) (Inr (DirinfoSet_of_list ds))"

section \<open>Access to a compressed set\<close>

definition DirinfoSet_getDeltaDirinfoSetIfCompressed ::
    "dirinfo_set \<Rightarrow> (bool \<times> directory_info list \<times> directory_info list) exec" where
  "DirinfoSet_getDeltaDirinfoSetIfCompressed s =
     assertE (delta_bitmap s \<noteq> INVALID_BITMAP)
       (bindE (DirinfoSet_isComplete s) (\<lambda>complete.
        if \<not> complete
        then assertE (has_new_delta s \<longrightarrow> 0 < length (new_dirinfo_delta_set s))
               (assertE (has_stale_delta s \<longrightarrow> 0 < length (stale_dirinfo_delta_set s))
                 (Inr (complete, (if has_new_delta s then new_dirinfo_delta_set s else []),
                       (if has_stale_delta s then stale_dirinfo_delta_set s else []))))
        else Inr (complete, [], [])))"

definition DirinfoSet_setDeltaDirinfoSetForCompress ::
    "dirinfo_set \<Rightarrow> directory_info list \<Rightarrow> directory_info list \<Rightarrow> dirinfo_set exec" where
  "DirinfoSet_setDeltaDirinfoSetForCompress s new stale =
     assertE (delta_bitmap s \<noteq> INVALID_BITMAP)
       (let s = s\<lparr>delta_bitmap := delta_bitmap s OR DELTA_MASK, dirinfo_list := []\<rparr>;
            s = (if 0 < length new
                 then s\<lparr>delta_bitmap := delta_bitmap s OR NEW_DIRINFO_SET_DELTA_MASK,
                        new_dirinfo_delta_set := new\<rparr> else s);
            s = (if 0 < length stale
                 then s\<lparr>delta_bitmap := delta_bitmap s OR STALE_DIRINFO_SET_DELTA_MASK,
                        stale_dirinfo_delta_set := stale\<rparr> else s)
        in Inr s)"

section \<open>Sizes\<close>

definition getDirinfoSetPayloadSizeInternal :: "directory_info list \<Rightarrow> u32" where
  "getDirinfoSetPayloadSizeInternal ds =
     foldl (\<lambda>payload_size d. payload_size + DirectoryInfo_getDirectoryInfoPayloadSize d) 4 ds"

definition getDirinfoSetSizeForCapacityInternal :: "directory_info list \<Rightarrow> u32" where
  "getDirinfoSetSizeForCapacityInternal ds =
     foldl (\<lambda>total_size d. ucast (ucast total_size + DirectoryInfo_getSizeForCapacity d)) 0 ds"

definition DirinfoSet_getDirinfoSetPayloadSize :: "dirinfo_set \<Rightarrow> u32 exec" where
  "DirinfoSet_getDirinfoSetPayloadSize s =
     assertE (delta_bitmap s \<noteq> INVALID_BITMAP)
       (bindE (DirinfoSet_isComplete s) (\<lambda>complete.
        if complete then Inr (1 + getDirinfoSetPayloadSizeInternal (dirinfo_list s))
        else assertE (has_new_delta s \<longrightarrow> 0 < length (new_dirinfo_delta_set s))
               (assertE (has_stale_delta s \<longrightarrow> 0 < length (stale_dirinfo_delta_set s))
                 (Inr (1 + (if has_new_delta s then getDirinfoSetPayloadSizeInternal (new_dirinfo_delta_set s) else 0)
                         + (if has_stale_delta s then getDirinfoSetPayloadSizeInternal (stale_dirinfo_delta_set s) else 0))))))"

text \<open>
  In the compressed branch the source calls \<open>getDirinfoSetSizeForCapacityInternal_\<close> on the delta
  lists and drops the result.
\<close>

definition DirinfoSet_getSizeForCapacity :: "dirinfo_set \<Rightarrow> u64 exec" where
  "DirinfoSet_getSizeForCapacity s =
     assertE (delta_bitmap s \<noteq> INVALID_BITMAP)
       (bindE (DirinfoSet_isComplete s) (\<lambda>complete.
        if complete then Inr (1 + ucast (getDirinfoSetSizeForCapacityInternal (dirinfo_list s)))
        else assertE (has_new_delta s \<longrightarrow> 0 < length (new_dirinfo_delta_set s))
               (assertE (has_stale_delta s \<longrightarrow> 0 < length (stale_dirinfo_delta_set s)) (Inr 1))))"

section \<open>Delta compression\<close>

fun compress_new_loop ::
    "directory_info list \<Rightarrow> directory_info list \<Rightarrow> directory_info list \<times> u32 \<times> u32
     \<Rightarrow> directory_info list \<times> u32 \<times> u32" where
  "compress_new_loop prev [] acc = acc"
| "compress_new_loop prev (d # ds) (new, total_current, total_final) =
     (let total_current = total_current + DirectoryInfo_getDirectoryInfoPayloadSize d
      in if findDirinfoFromList d prev = length prev
         then compress_new_loop prev ds
                (new @ [d], total_current, total_final + DirectoryInfo_getDirectoryInfoPayloadSize d)
         else compress_new_loop prev ds (new, total_current, total_final))"

fun compress_stale_loop ::
    "directory_info list \<Rightarrow> directory_info list \<Rightarrow> directory_info list \<times> u32 \<Rightarrow> directory_info list \<times> u32" where
  "compress_stale_loop current [] acc = acc"
| "compress_stale_loop current (d # ds) (stale, total_final) =
     (if findDirinfoFromList d current = length current
      then compress_stale_loop current ds
             (stale @ [d], total_final + DirectoryInfo_getDirectoryInfoPayloadSize d)
      else compress_stale_loop current ds (stale, total_final))"

definition DirinfoSet_compress :: "dirinfo_set \<Rightarrow> dirinfo_set \<Rightarrow> dirinfo_set exec" where
  "DirinfoSet_compress current prev =
     bindE (DirinfoSet_isComplete current) (\<lambda>c. assertE c (
     bindE (DirinfoSet_isComplete prev) (\<lambda>c. assertE c (
     bindE (DirinfoSet_getDirinfoSetIfComplete current) (\<lambda>(c, current_list). assertE c (
     bindE (DirinfoSet_getDirinfoSetIfComplete prev) (\<lambda>(c, prev_list). assertE c (
     let (new, total_current, total_final) = compress_new_loop prev_list current_list ([], 0, 0);
         (stale, total_final) = compress_stale_loop current_list prev_list ([], total_final);
         with_complete = (total_current \<le> total_final)
     in bindE (if \<not> with_complete then DirinfoSet_setDeltaDirinfoSetForCompress current new stale
               else Inr current) (\<lambda>compressed.
        bindE (DirinfoSet_getDirinfoSetPayloadSize compressed) (\<lambda>compressed_size.
        bindE (DirinfoSet_getDirinfoSetPayloadSize current) (\<lambda>current_size.
        if compressed_size < current_size then Inr compressed else Inr current)))))))))))"

fun recover_new_loop :: "directory_info list \<Rightarrow> directory_info list \<Rightarrow> directory_info list" where
  "recover_new_loop [] complete = complete"
| "recover_new_loop (d # ds) complete =
     recover_new_loop ds (if findDirinfoFromList d complete = length complete then complete @ [d] else complete)"

fun recover_stale_loop :: "directory_info list \<Rightarrow> directory_info list \<Rightarrow> directory_info list" where
  "recover_stale_loop [] complete = complete"
| "recover_stale_loop (d # ds) complete =
     (let i = findDirinfoFromList d complete
      in recover_stale_loop ds (if i \<noteq> length complete then take i complete @ drop (Suc i) complete else complete))"

definition DirinfoSet_recover :: "dirinfo_set \<Rightarrow> dirinfo_set \<Rightarrow> dirinfo_set exec" where
  "DirinfoSet_recover compressed existing =
     bindE (DirinfoSet_isCompressed compressed) (\<lambda>c. assertE c (
     bindE (DirinfoSet_isFullyCompressed compressed) (\<lambda>f. assertE (\<not> f) (
     bindE (DirinfoSet_isComplete existing) (\<lambda>c. assertE c (
     bindE (DirinfoSet_getDirinfoSetIfComplete existing) (\<lambda>(c, complete_list). assertE c (
     bindE (DirinfoSet_getDeltaDirinfoSetIfCompressed compressed) (\<lambda>(c, new, stale). assertE (\<not> c) (
     bindE (DirinfoSet_setDirinfoSetForComplete existing
              (recover_stale_loop stale (recover_new_loop new complete_list))) (\<lambda>complete.
     bindE (DirinfoSet_isComplete complete) (\<lambda>c. assertE c (Inr complete)))))))))))))"

section \<open>Serialisation\<close>

definition serializeDirinfoSetInternal :: "directory_info list serializer" where
  "serializeDirinfoSetInternal ds msg_payload position =
     bindE (DynamicArray_deserialize msg_payload position (u32_mem (word_of_nat (length ds))) 4) (\<lambda>msg_payload.
     bindE (ser_list DirectoryInfo_serialize ds msg_payload (position + 4)) (\<lambda>(msg_payload, sz).
     Inr (msg_payload, sz - position)))"

definition serializeDirinfoSetInternal_fs :: "directory_info list fs_serializer" where
  "serializeDirinfoSetInternal_fs ds out =
     fs_ser_list DirectoryInfo_serialize_fs ds (fs_write (u32_mem (word_of_nat (length ds))) out) 4"

text \<open>The elements read are pushed behind what the list already holds.\<close>

definition deserializeDirinfoSetInternal :: "directory_info list deserializer" where
  "deserializeDirinfoSetInternal ds msg_payload position =
     bindE (DynamicArray_serialize msg_payload position 4) (\<lambda>n.
     bindE (deser_list DirectoryInfo_deserialize DirectoryInfo_default (unat (mem_u32 n)) msg_payload (position + 4)) (\<lambda>(new, sz).
     Inr (ds @ new, sz - position)))"

definition deserializeDirinfoSetInternal_fs :: "directory_info list fs_deserializer" where
  "deserializeDirinfoSetInternal_fs ds fs =
     (let (n, fs) = fs_read [0, 0, 0, 0] fs
      in bindE (fs_deser_list DirectoryInfo_deserialize_fs DirectoryInfo_default (unat (mem_u32 n)) fs 4) (\<lambda>(new, fs, sz).
         Inr (ds @ new, fs, sz)))"

definition DirinfoSet_serialize :: "dirinfo_set serializer" where
  "DirinfoSet_serialize s msg_payload position =
     assertE (delta_bitmap s \<noteq> INVALID_BITMAP)
       (bindE (DynamicArray_deserialize msg_payload position [delta_bitmap s] 1) (\<lambda>msg_payload.
        bindE (DirinfoSet_isComplete s) (\<lambda>complete.
        if complete
        then bindE (serializeDirinfoSetInternal (dirinfo_list s) msg_payload (position + 1)) (\<lambda>(msg_payload, n).
             Inr (msg_payload, position + 1 + n - position))
        else bindE (if has_new_delta s
                    then assertE (0 < length (new_dirinfo_delta_set s))
                           (serializeDirinfoSetInternal (new_dirinfo_delta_set s) msg_payload (position + 1))
                    else Inr (msg_payload, 0)) (\<lambda>(msg_payload, n).
             bindE (if has_stale_delta s
                    then assertE (0 < length (stale_dirinfo_delta_set s))
                           (serializeDirinfoSetInternal (stale_dirinfo_delta_set s) msg_payload (position + 1 + n))
                    else Inr (msg_payload, 0)) (\<lambda>(msg_payload, m).
             Inr (msg_payload, position + 1 + n + m - position))))))"

definition DirinfoSet_serialize_fs :: "dirinfo_set fs_serializer" where
  "DirinfoSet_serialize_fs s out =
     assertE (delta_bitmap s \<noteq> INVALID_BITMAP)
       (let out = fs_write [delta_bitmap s] out
        in bindE (DirinfoSet_isComplete s) (\<lambda>complete.
           if complete
           then bindE (serializeDirinfoSetInternal_fs (dirinfo_list s) out) (\<lambda>(out, n). Inr (out, 1 + n))
           else bindE (if has_new_delta s
                       then assertE (0 < length (new_dirinfo_delta_set s))
                              (serializeDirinfoSetInternal_fs (new_dirinfo_delta_set s) out)
                       else Inr (out, 0)) (\<lambda>(out, n).
                bindE (if has_stale_delta s
                       then assertE (0 < length (stale_dirinfo_delta_set s))
                              (serializeDirinfoSetInternal_fs (stale_dirinfo_delta_set s) out)
                       else Inr (out, 0)) (\<lambda>(out, m).
                Inr (out, 1 + n + m)))))"

definition DirinfoSet_deserialize :: "dirinfo_set deserializer" where
  "DirinfoSet_deserialize this msg_payload position =
     bindE (DynamicArray_serialize msg_payload position 1) (\<lambda>b.
     let s = this\<lparr>delta_bitmap := hd b\<rparr>
     in assertE (delta_bitmap s \<noteq> INVALID_BITMAP)
       (bindE (DirinfoSet_isComplete s) (\<lambda>complete.
        if complete
        then bindE (deserializeDirinfoSetInternal (dirinfo_list s) msg_payload (position + 1)) (\<lambda>(ds, n).
             Inr (s\<lparr>dirinfo_list := ds\<rparr>, position + 1 + n - position))
        else bindE (if has_new_delta s
                    then bindE (deserializeDirinfoSetInternal (new_dirinfo_delta_set s) msg_payload (position + 1)) (\<lambda>(ds, n).
                         assertE (0 < length ds) (Inr (s\<lparr>new_dirinfo_delta_set := ds\<rparr>, n)))
                    else Inr (s, 0)) (\<lambda>(s, n).
             bindE (if has_stale_delta s
                    then bindE (deserializeDirinfoSetInternal (stale_dirinfo_delta_set s) msg_payload (position + 1 + n)) (\<lambda>(ds, m).
                         assertE (0 < length ds) (Inr (s\<lparr>stale_dirinfo_delta_set := ds\<rparr>, m)))
                    else Inr (s, 0)) (\<lambda>(s, m).
             Inr (s, position + 1 + n + m - position))))))"

definition DirinfoSet_deserialize_fs :: "dirinfo_set fs_deserializer" where
  "DirinfoSet_deserialize_fs this fs =
     (let (b, fs) = fs_read [delta_bitmap this] fs;
          s = this\<lparr>delta_bitmap := hd b\<rparr>
      in assertE (delta_bitmap s \<noteq> INVALID_BITMAP)
        (bindE (DirinfoSet_isComplete s) (\<lambda>complete.
         if complete
         then bindE (deserializeDirinfoSetInternal_fs (dirinfo_list s) fs) (\<lambda>(ds, fs, n).
              Inr (s\<lparr>dirinfo_list := ds\<rparr>, fs, 1 + n))
         else bindE (if has_new_delta s
                     then bindE (deserializeDirinfoSetInternal_fs (new_dirinfo_delta_set s) fs) (\<lambda>(ds, fs, n).
                          assertE (0 < length ds) (Inr (s\<lparr>new_dirinfo_delta_set := ds\<rparr>, fs, n)))
                     else Inr (s, fs, 0)) (\<lambda>(s, fs, n).
              bindE (if has_stale_delta s
                     then bindE (deserializeDirinfoSetInternal_fs (stale_dirinfo_delta_set s) fs) (\<lambda>(ds, fs, m).
                          assertE (0 < length ds) (Inr (s\<lparr>stale_dirinfo_delta_set := ds\<rparr>, fs, m)))
                     else Inr (s, fs, 0)) (\<lambda>(s, fs, m).
              Inr (s, fs, 1 + n + m))))))"

section \<open>Well-formed sets\<close>

lemmas bitmap_defs = INVALID_BITMAP_def COMPLETE_BITMAP_def DELTA_MASK_def
  NEW_DIRINFO_SET_DELTA_MASK_def STALE_DIRINFO_SET_DELTA_MASK_def

text \<open>The compressed set that carries the two delta lists.\<close>

definition DirinfoSet_delta :: "directory_info list \<Rightarrow> directory_info list \<Rightarrow> dirinfo_set" where
  "DirinfoSet_delta new stale =
     \<lparr>delta_bitmap = 1 OR (if new = [] then 0 else 2) OR (if stale = [] then 0 else 4),
      dirinfo_list = [], new_dirinfo_delta_set = new, stale_dirinfo_delta_set = stale\<rparr>"

definition DirinfoSet_wf :: "dirinfo_set \<Rightarrow> bool" where
  "DirinfoSet_wf s \<longleftrightarrow>
     s = DirinfoSet_of_list (dirinfo_list s) \<and> length (dirinfo_list s) < 2 ^ 28 \<or>
     s = DirinfoSet_delta (new_dirinfo_delta_set s) (stale_dirinfo_delta_set s)
       \<and> length (new_dirinfo_delta_set s) < 2 ^ 28 \<and> length (stale_dirinfo_delta_set s) < 2 ^ 28"

definition DirinfoSet_fresh :: "dirinfo_set \<Rightarrow> bool" where
  "DirinfoSet_fresh s \<longleftrightarrow>
     dirinfo_list s = [] \<and> new_dirinfo_delta_set s = [] \<and> stale_dirinfo_delta_set s = []"

lemma of_list_sel [simp]:
  "delta_bitmap (DirinfoSet_of_list ds) = 0" "dirinfo_list (DirinfoSet_of_list ds) = ds"
  "new_dirinfo_delta_set (DirinfoSet_of_list ds) = []" "stale_dirinfo_delta_set (DirinfoSet_of_list ds) = []"
  by (simp_all add: DirinfoSet_of_list_def bitmap_defs)

lemma delta_sel [simp]:
  "dirinfo_list (DirinfoSet_delta new stale) = []"
  "new_dirinfo_delta_set (DirinfoSet_delta new stale) = new"
  "stale_dirinfo_delta_set (DirinfoSet_delta new stale) = stale"
  by (simp_all add: DirinfoSet_delta_def)

lemma of_list_status [simp]:
  "DirinfoSet_isComplete (DirinfoSet_of_list ds) = Inr True"
  "DirinfoSet_isCompressed (DirinfoSet_of_list ds) = Inr False"
  "DirinfoSet_isFullyCompressed (DirinfoSet_of_list ds) = Inr False"
  "\<not> DirinfoSet_isInvalid (DirinfoSet_of_list ds)"
  by (simp_all add: DirinfoSet_isComplete_def DirinfoSet_isCompressed_def
      DirinfoSet_isFullyCompressed_def DirinfoSet_isInvalid_def bitmap_defs)

lemma delta_status [simp]:
  "delta_bitmap (DirinfoSet_delta new stale) \<noteq> INVALID_BITMAP"
  "has_new_delta (DirinfoSet_delta new stale) \<longleftrightarrow> new \<noteq> []"
  "has_stale_delta (DirinfoSet_delta new stale) \<longleftrightarrow> stale \<noteq> []"
  "DirinfoSet_isComplete (DirinfoSet_delta new stale) = Inr False"
  "DirinfoSet_isCompressed (DirinfoSet_delta new stale) = Inr True"
  "DirinfoSet_isFullyCompressed (DirinfoSet_delta new stale) = Inr (new = [] \<and> stale = [])"
  by (simp_all add: DirinfoSet_delta_def DirinfoSet_isComplete_def DirinfoSet_isCompressed_def
      DirinfoSet_isFullyCompressed_def has_new_delta_def has_stale_delta_def bitmap_defs)

lemma of_list_getters [simp]:
  "DirinfoSet_isExistIfComplete (DirinfoSet_of_list ds) d = Inr (True, Some (d \<in> set ds))"
  "DirinfoSet_getDirinfoSetSizeIfComplete (DirinfoSet_of_list ds) = Inr (True, Some (word_of_nat (length ds)))"
  "DirinfoSet_getDirinfoSetIfComplete (DirinfoSet_of_list ds) = Inr (True, ds)"
  by (simp_all add: DirinfoSet_isExistIfComplete_def DirinfoSet_getDirinfoSetSizeIfComplete_def
      DirinfoSet_getDirinfoSetIfComplete_def bitmap_defs)

lemma of_list_update [simp]:
  "(DirinfoSet_of_list ds)\<lparr>dirinfo_list := es\<rparr> = DirinfoSet_of_list es"
  by (simp add: DirinfoSet_of_list_def)

lemma tryToErase_of_list [simp]:
  "DirinfoSet_tryToEraseIfComplete (DirinfoSet_of_list ds) d
     = Inr (DirinfoSet_of_list (remove1 d ds), True, d \<in> set ds)"
  by (simp add: DirinfoSet_tryToEraseIfComplete_def Let_def erase_findDirinfo remove1_idem)

lemma tryToInsert_of_list [simp]:
  "DirinfoSet_tryToInsertIfComplete (DirinfoSet_of_list ds) d
     = Inr (DirinfoSet_of_list (if d \<in> set ds then ds else ds @ [d]), True, d \<notin> set ds)"
  by (simp add: DirinfoSet_tryToInsertIfComplete_def)

lemma getDirinfo_of_list:
  "unat i < length ds \<Longrightarrow> DirinfoSet_getDirinfoIfComplete (DirinfoSet_of_list ds) i = Inr (True, Some (ds ! unat i))"
  by (simp add: DirinfoSet_getDirinfoIfComplete_def)

lemma setDelta_of_list:
  "DirinfoSet_setDeltaDirinfoSetForCompress (DirinfoSet_of_list ds) new stale = Inr (DirinfoSet_delta new stale)"
  by (cases "new = []"; cases "stale = []")
    (simp_all add: DirinfoSet_setDeltaDirinfoSetForCompress_def DirinfoSet_delta_def DirinfoSet_of_list_def
      bitmap_defs Let_def)

section \<open>Delta compression is exact\<close>

lemma payloadSizeInternal: "getDirinfoSetPayloadSizeInternal ds = word_of_nat (4 + 4 * length ds)"
proof -
  have "foldl (\<lambda>payload_size d. payload_size + DirectoryInfo_getDirectoryInfoPayloadSize d) n ds
      = n + word_of_nat (4 * length ds)" for n
    by (induction ds arbitrary: n) (simp_all add: DirectoryInfo_getDirectoryInfoPayloadSize_def)
  then show ?thesis by (simp add: getDirinfoSetPayloadSizeInternal_def)
qed

definition delta_payload :: "directory_info list \<Rightarrow> directory_info list \<Rightarrow> nat" where
  "delta_payload new stale =
     1 + (if new = [] then 0 else 4 + 4 * length new) + (if stale = [] then 0 else 4 + 4 * length stale)"

lemma payload_of_list: "DirinfoSet_getDirinfoSetPayloadSize (DirinfoSet_of_list ds) = Inr (word_of_nat (5 + 4 * length ds))"
  by (simp add: DirinfoSet_getDirinfoSetPayloadSize_def bitmap_defs payloadSizeInternal)

lemma payload_delta: "DirinfoSet_getDirinfoSetPayloadSize (DirinfoSet_delta new stale) = Inr (word_of_nat (delta_payload new stale))"
  by (simp add: DirinfoSet_getDirinfoSetPayloadSize_def payloadSizeInternal delta_payload_def)

lemma compress_new_loop_eq:
  "compress_new_loop prev ds (acc, m, n) =
     (acc @ filter (\<lambda>d. d \<notin> set prev) ds, m + word_of_nat (4 * length ds),
      n + word_of_nat (4 * length (filter (\<lambda>d. d \<notin> set prev) ds)))"
  by (induction ds arbitrary: acc m n) (simp_all add: DirectoryInfo_getDirectoryInfoPayloadSize_def)

lemma compress_stale_loop_eq:
  "compress_stale_loop current ds (acc, n) =
     (acc @ filter (\<lambda>d. d \<notin> set current) ds, n + word_of_nat (4 * length (filter (\<lambda>d. d \<notin> set current) ds)))"
  by (induction ds arbitrary: acc n) (simp_all add: DirectoryInfo_getDirectoryInfoPayloadSize_def)

definition new_of :: "directory_info list \<Rightarrow> directory_info list \<Rightarrow> directory_info list" where
  "new_of cs ps = filter (\<lambda>d. d \<notin> set ps) cs"

lemma length_new_of: "length (new_of cs ps) \<le> length cs"
  by (simp add: new_of_def)

lemma word_of_nat_less_iff32: "m < 2 ^ 32 \<Longrightarrow> n < 2 ^ 32 \<Longrightarrow> (word_of_nat m :: u32) < word_of_nat n \<longleftrightarrow> m < n"
  by (simp add: word_less_nat_alt unat_of_nat_small)

lemma word_of_nat_le_iff32: "m < 2 ^ 32 \<Longrightarrow> n < 2 ^ 32 \<Longrightarrow> (word_of_nat m :: u32) \<le> word_of_nat n \<longleftrightarrow> m \<le> n"
  by (simp add: word_le_nat_alt unat_of_nat_small)

lemma compress_spec:
  assumes "length cs < 2 ^ 28" and "length ps < 2 ^ 28"
  shows "DirinfoSet_compress (DirinfoSet_of_list cs) (DirinfoSet_of_list ps) =
    Inr (if length (new_of cs ps) + length (new_of ps cs) < length cs
            \<and> delta_payload (new_of cs ps) (new_of ps cs) < 5 + 4 * length cs
         then DirinfoSet_delta (new_of cs ps) (new_of ps cs) else DirinfoSet_of_list cs)"
proof -
  let ?n = "length (new_of cs ps)" and ?s = "length (new_of ps cs)"
  have b: "?n \<le> length cs" "?s \<le> length ps"
    by (simp_all add: length_new_of)
  have tot: "(word_of_nat (4 * length cs) :: u32) \<le> word_of_nat (4 * ?n + 4 * ?s) \<longleftrightarrow> length cs \<le> ?n + ?s"
    using assms b by (subst word_of_nat_le_iff32) auto
  have pay: "(word_of_nat (delta_payload (new_of cs ps) (new_of ps cs)) :: u32) < word_of_nat (5 + 4 * length cs)
      \<longleftrightarrow> delta_payload (new_of cs ps) (new_of ps cs) < 5 + 4 * length cs"
    using assms b by (intro word_of_nat_less_iff32) (auto simp: delta_payload_def)
  show ?thesis
  proof (cases "length cs \<le> ?n + ?s")
    case True
    then show ?thesis
      using tot by (simp add: DirinfoSet_compress_def compress_new_loop_eq compress_stale_loop_eq
          payload_of_list flip: new_of_def)
  next
    case False
    then show ?thesis
      using tot pay by (simp add: DirinfoSet_compress_def compress_new_loop_eq compress_stale_loop_eq
          payload_of_list payload_delta setDelta_of_list flip: new_of_def)
  qed
qed

lemma set_recover_new_loop: "set (recover_new_loop ns c) = set c \<union> set ns"
  by (induction ns arbitrary: c) auto

lemma distinct_recover_new_loop: "distinct c \<Longrightarrow> distinct (recover_new_loop ns c)"
  by (induction ns arbitrary: c) auto

lemma recover_stale_loop_eq: "recover_stale_loop ss c = fold remove1 ss c"
  by (induction ss arbitrary: c) (simp_all add: erase_findDirinfo Let_def remove1_idem)

lemma fold_remove1:
  "distinct c \<Longrightarrow> distinct (fold remove1 ss c) \<and> set (fold remove1 ss c) = set c - set ss"
proof (induction ss arbitrary: c)
  case Nil
  then show ?case by simp
next
  case (Cons d ss)
  then have "distinct (remove1 d c)" by simp
  from Cons.IH [OF this] Cons.prems show ?case
    by (auto simp: set_remove1_eq)
qed

lemma recover_delta:
  assumes "new \<noteq> [] \<or> stale \<noteq> []"
  shows "DirinfoSet_recover (DirinfoSet_delta new stale) (DirinfoSet_of_list ps)
    = Inr (DirinfoSet_of_list (fold remove1 stale (recover_new_loop new ps)))"
  using assms
  by (auto simp: DirinfoSet_recover_def DirinfoSet_getDeltaDirinfoSetIfCompressed_def
      DirinfoSet_setDirinfoSetForComplete_def recover_stale_loop_eq bitmap_defs
      delta_status(1) [simplified bitmap_defs])

section \<open>Byte formats\<close>

definition dirinfos_enc :: "directory_info list \<Rightarrow> u8 list" where
  "dirinfos_enc ds = u32_mem (word_of_nat (length ds)) @ dirinfo_wire.enc_list ds"

definition DirinfoSet_enc :: "dirinfo_set \<Rightarrow> u8 list" where
  "DirinfoSet_enc s =
     [delta_bitmap s] @
     (if delta_bitmap s AND DELTA_MASK = 0 then dirinfos_enc (dirinfo_list s)
      else (if has_new_delta s then dirinfos_enc (new_dirinfo_delta_set s) else []) @
           (if has_stale_delta s then dirinfos_enc (stale_dirinfo_delta_set s) else []))"

lemma length_dirinfos_enc [simp]: "length (dirinfos_enc ds) = 4 + 4 * length ds"
  by (simp add: dirinfos_enc_def)

lemma serializeInternal_enc:
  assumes "unat p + length (dirinfos_enc ds) \<le> da_capacity a"
    and "unat p + length (dirinfos_enc ds) < 2 ^ 32"
  shows "serializeDirinfoSetInternal ds a p
    = Inr (da_put (unat p) (dirinfos_enc ds) a, word_of_nat (length (dirinfos_enc ds)))"
proof -
  let ?h = "u32_mem (word_of_nat (length ds))"
  have p4: "unat (p + 4) = unat p + 4"
    using assms by (simp add: unat_add_no_wrap)
  have 1: "DynamicArray_deserialize a p ?h 4 = Inr (da_put (unat p) ?h a)"
    using assms by (intro deserialize_ok) auto
  have 2: "ser_list DirectoryInfo_serialize ds (da_put (unat p) ?h a) (p + 4)
      = Inr (da_put (unat p + 4) (dirinfo_wire.enc_list ds) (da_put (unat p) ?h a), p + 4 + word_of_nat (4 * length ds))"
    using assms p4 dirinfo_wire.ser_list_enc [of ds "p + 4" "da_put (unat p) ?h a"] by simp
  show ?thesis
    using 1 2 by (simp add: serializeDirinfoSetInternal_def dirinfos_enc_def da_put_put)
qed

lemma deserializeInternal_enc:
  assumes "length ds < 2 ^ 28" and "da_holds a (unat p) (dirinfos_enc ds)"
    and "unat p + length (dirinfos_enc ds) < 2 ^ 32"
  shows "deserializeDirinfoSetInternal es a p = Inr (es @ ds, word_of_nat (length (dirinfos_enc ds)))"
proof -
  let ?h = "u32_mem (word_of_nat (length ds))"
  have p4: "unat (p + 4) = unat p + 4"
    using assms by (simp add: unat_add_no_wrap)
  have h: "da_holds a (unat p) ?h" "da_holds a (unat p + 4) (dirinfo_wire.enc_list ds)"
    using assms(2) by (auto simp: dirinfos_enc_def da_holds_append)
  have 1: "DynamicArray_serialize a p 4 = Inr ?h"
    using assms h by (intro serialize_ok) auto
  have "unat (word_of_nat (length ds) :: u32) = length ds"
    using assms(1) by (simp add: unat_of_nat_small)
  then show ?thesis
    using 1 h p4 assms dirinfo_wire.deser_list_enc [where xs = ds and a = a and p = "p + 4"]
    by (simp add: deserializeDirinfoSetInternal_def)
qed

interpretation dirinfos_wire: wire_codec "\<lambda>ds. length ds < 2 ^ 28" dirinfos_enc "\<lambda>ds. ds = []"
    serializeDirinfoSetInternal deserializeDirinfoSetInternal
  by unfold_locales (simp_all add: serializeInternal_enc deserializeInternal_enc)

interpretation dirinfos_stream: stream_codec "\<lambda>ds. length ds < 2 ^ 28" dirinfos_enc "\<lambda>ds. ds = []"
    serializeDirinfoSetInternal_fs deserializeDirinfoSetInternal_fs
proof unfold_locales
  fix ds es :: "directory_info list" and out rest :: "u8 list"
  assume len: "length ds < 2 ^ 28"
  show "serializeDirinfoSetInternal_fs ds out = Inr (out @ dirinfos_enc ds, word_of_nat (length (dirinfos_enc ds)))"
    by (simp add: serializeDirinfoSetInternal_fs_def dirinfos_enc_def dirinfo_stream.fs_ser_list_enc)
  have "unat (word_of_nat (length ds) :: u32) = length ds"
    using len by (simp add: unat_of_nat_small)
  then show "deserializeDirinfoSetInternal_fs es (good_fs (dirinfos_enc ds @ rest))
      = Inr (ds, good_fs rest, word_of_nat (length (dirinfos_enc ds)))" if "es = []"
    using that by (simp add: deserializeDirinfoSetInternal_fs_def dirinfos_enc_def
        dirinfo_stream.fs_deser_list_enc)
qed

lemma DirinfoSet_enc_simps:
  "DirinfoSet_enc (DirinfoSet_of_list ds) = [0] @ dirinfos_enc ds"
  "DirinfoSet_enc (DirinfoSet_delta new stale) = [delta_bitmap (DirinfoSet_delta new stale)]
     @ (if new = [] then [] else dirinfos_enc new) @ (if stale = [] then [] else dirinfos_enc stale)"
proof -
  show "DirinfoSet_enc (DirinfoSet_of_list ds) = [0] @ dirinfos_enc ds"
    by (simp add: DirinfoSet_enc_def bitmap_defs)
  have "delta_bitmap (DirinfoSet_delta new stale) AND DELTA_MASK \<noteq> 0"
    by (simp add: DirinfoSet_delta_def bitmap_defs)
  then show "DirinfoSet_enc (DirinfoSet_delta new stale) = [delta_bitmap (DirinfoSet_delta new stale)]
     @ (if new = [] then [] else dirinfos_enc new) @ (if stale = [] then [] else dirinfos_enc stale)"
    by (simp add: DirinfoSet_enc_def)
qed

lemma DirinfoSet_wf_cases:
  assumes "DirinfoSet_wf s"
  obtains (complete) ds where "s = DirinfoSet_of_list ds" "length ds < 2 ^ 28"
  | (delta) new stale where "s = DirinfoSet_delta new stale" "length new < 2 ^ 28" "length stale < 2 ^ 28"
  using assms unfolding DirinfoSet_wf_def by blast

lemma DirinfoSet_serialize_enc:
  assumes "DirinfoSet_wf s" and "unat p + length (DirinfoSet_enc s) \<le> da_capacity a"
    and "unat p + length (DirinfoSet_enc s) < 2 ^ 32"
  shows "DirinfoSet_serialize s a p
    = Inr (da_put (unat p) (DirinfoSet_enc s) a, word_of_nat (length (DirinfoSet_enc s)))"
proof -
  have p1: "unat (p + 1) = unat p + 1"
    using assms by (simp add: DirinfoSet_enc_def unat_add_no_wrap)
  have hd: "DynamicArray_deserialize a p [delta_bitmap s] 1 = Inr (da_put (unat p) [delta_bitmap s] a)"
    using assms by (intro deserialize_ok) (auto simp: DirinfoSet_enc_def)
  from assms(1) show ?thesis
  proof (cases rule: DirinfoSet_wf_cases)
    case (complete ds)
    then show ?thesis
      using assms p1 hd serializeInternal_enc [of "p + 1" ds "da_put (unat p) [0] a"]
      by (simp add: DirinfoSet_serialize_def DirinfoSet_enc_simps da_put_put bitmap_defs)
  next
    case (delta new stale)
    define xs where "xs = (if new = [] then [] else dirinfos_enc new)"
    define ys where "ys = (if stale = [] then [] else dirinfos_enc stale)"
    define q where "q = p + 1 + word_of_nat (length xs)"
    let ?a1 = "da_put (unat p) [delta_bitmap s] a"
    have len: "length (DirinfoSet_enc s) = 1 + length xs + length ys"
      using delta by (simp add: DirinfoSet_enc_simps xs_def ys_def)
    have q: "unat q = unat p + 1 + length xs"
      using unat_plus_of_nat [of "p + 1" "length xs"] assms p1 len by (simp add: q_def)
    have new: "(if has_new_delta s then assertE (0 < length (new_dirinfo_delta_set s))
          (serializeDirinfoSetInternal (new_dirinfo_delta_set s) ?a1 (p + 1)) else Inr (?a1, 0))
        = Inr (da_put (unat p + 1) xs ?a1, word_of_nat (length xs))"
      using assms p1 len delta serializeInternal_enc [of "p + 1" new ?a1]
      by (cases "new = []") (simp_all add: xs_def)
    have stale: "(if has_stale_delta s then assertE (0 < length (stale_dirinfo_delta_set s))
          (serializeDirinfoSetInternal (stale_dirinfo_delta_set s) b q) else Inr (b, 0))
        = Inr (da_put (unat q) ys b, word_of_nat (length ys))"
      if "da_capacity b = da_capacity a" and "unat q \<le> length (da_bytes b)" for b
      using assms q len delta that serializeInternal_enc [of q stale b]
      by (cases "stale = []") (simp_all add: ys_def)
    have s: "delta_bitmap s \<noteq> INVALID_BITMAP" "DirinfoSet_isComplete s = Inr False"
      using delta by simp_all
    have "unat q \<le> length (da_bytes (da_put (unat p + 1) xs ?a1))"
      using q by simp
    note stale' = stale [OF _ this, simplified da_put_simps, OF refl]
    have enc: "da_put (unat q) ys (da_put (unat p + 1) xs ?a1) = da_put (unat p) (DirinfoSet_enc s) a"
      using delta q by (simp add: da_put_put DirinfoSet_enc_simps xs_def ys_def)
    have sz: "q + word_of_nat (length ys) - p = word_of_nat (length (DirinfoSet_enc s))"
      by (simp add: q_def len)
    show ?thesis
      by (simp only: DirinfoSet_serialize_def hd s bindE_simps assertE_simps not_False_eq_True if_False
          new prod.case q_def [symmetric] stale' enc sz)
  qed
qed

text \<open>Reading the bitmap into an empty object, then the lists, rebuilds the set.\<close>

lemma rebuild_of_list:
  "DirinfoSet_fresh y \<Longrightarrow> y\<lparr>delta_bitmap := 0, dirinfo_list := ds\<rparr> = DirinfoSet_of_list ds"
  by (cases y) (simp add: DirinfoSet_fresh_def DirinfoSet_of_list_def bitmap_defs)

lemma rebuild_delta:
  "DirinfoSet_fresh y \<Longrightarrow>
   y\<lparr>delta_bitmap := delta_bitmap (DirinfoSet_delta new stale), new_dirinfo_delta_set := new,
     stale_dirinfo_delta_set := stale\<rparr> = DirinfoSet_delta new stale"
  by (cases y) (simp add: DirinfoSet_fresh_def DirinfoSet_delta_def)

lemma bitmap_only [simp]:
  "DirinfoSet_isComplete (y\<lparr>delta_bitmap := delta_bitmap s\<rparr>) = DirinfoSet_isComplete s"
  "has_new_delta (y\<lparr>delta_bitmap := delta_bitmap s\<rparr>) = has_new_delta s"
  "has_stale_delta (y\<lparr>delta_bitmap := delta_bitmap s\<rparr>) = has_stale_delta s"
  "has_stale_delta (y\<lparr>new_dirinfo_delta_set := new\<rparr>) = has_stale_delta y"
  by (simp_all add: DirinfoSet_isComplete_def has_new_delta_def has_stale_delta_def)

lemma bitmap_zero [simp]: "DirinfoSet_isComplete (y\<lparr>delta_bitmap := 0\<rparr>) = Inr True"
  by (simp add: DirinfoSet_isComplete_def bitmap_defs)

lemma DirinfoSet_deserialize_enc:
  assumes "DirinfoSet_wf s" and "DirinfoSet_fresh y" and "da_holds a (unat p) (DirinfoSet_enc s)"
    and "unat p + length (DirinfoSet_enc s) < 2 ^ 32"
  shows "DirinfoSet_deserialize y a p = Inr (s, word_of_nat (length (DirinfoSet_enc s)))"
proof -
  let ?y = "y\<lparr>delta_bitmap := delta_bitmap s\<rparr>"
  have p1: "unat (p + 1) = unat p + 1"
    using assms by (simp add: DirinfoSet_enc_def unat_add_no_wrap)
  have fresh: "dirinfo_list ?y = []" "new_dirinfo_delta_set ?y = []" "stale_dirinfo_delta_set ?y = []"
    using assms(2) by (simp_all add: DirinfoSet_fresh_def)
  have hd: "DynamicArray_serialize a p 1 = Inr [delta_bitmap s]"
    using assms by (intro serialize_ok) (auto simp: DirinfoSet_enc_def da_holds_append
        simp del: append_Cons append_Nil)
  from assms(1) show ?thesis
  proof (cases rule: DirinfoSet_wf_cases)
    case (complete ds)
    have "da_holds a (unat p + 1) (dirinfos_enc ds)"
      using assms(3) complete da_holds_append [of a "unat p" "[0]" "dirinfos_enc ds"]
      by (simp add: DirinfoSet_enc_simps)
    then show ?thesis
      using complete assms p1 hd fresh deserializeInternal_enc [of ds a "p + 1" "[]"]
      by (simp add: DirinfoSet_deserialize_def DirinfoSet_enc_simps rebuild_of_list INVALID_BITMAP_def Let_def)
  next
    case (delta new stale)
    define xs where "xs = (if new = [] then [] else dirinfos_enc new)"
    define ys where "ys = (if stale = [] then [] else dirinfos_enc stale)"
    define q where "q = p + 1 + word_of_nat (length xs)"
    have len: "length (DirinfoSet_enc s) = 1 + length xs + length ys"
      using delta by (simp add: DirinfoSet_enc_simps xs_def ys_def)
    have q: "unat q = unat p + 1 + length xs"
      using unat_plus_of_nat [of "p + 1" "length xs"] assms p1 len by (simp add: q_def)
    have "da_holds a (unat p) ([delta_bitmap s] @ xs @ ys)"
      using assms(3) delta by (simp add: DirinfoSet_enc_simps xs_def ys_def)
    then have h: "da_holds a (unat p + 1) xs" "da_holds a (unat q) ys"
      unfolding q by (simp_all only: da_holds_append list.size) (simp_all add: add.assoc)
    have new: "new \<noteq> [] \<Longrightarrow> deserializeDirinfoSetInternal [] a (p + 1) = Inr (new, word_of_nat (length xs))"
      using assms p1 len delta h deserializeInternal_enc [of new a "p + 1" "[]"] by (simp add: xs_def)
    have stale: "stale \<noteq> [] \<Longrightarrow> deserializeDirinfoSetInternal [] a q = Inr (stale, word_of_nat (length ys))"
      using assms q len delta h deserializeInternal_enc [of stale a q "[]"] by (simp add: ys_def)
    have sz: "q + word_of_nat (length ys) - p = word_of_nat (length (DirinfoSet_enc s))"
      by (simp add: q_def len)
    have y: "delta_bitmap ?y \<noteq> INVALID_BITMAP" "has_new_delta ?y \<longleftrightarrow> new \<noteq> []"
      "has_stale_delta ?y \<longleftrightarrow> stale \<noteq> []" "DirinfoSet_isComplete ?y = Inr False"
      using delta by simp_all
    have yy: "?y\<lparr>new_dirinfo_delta_set := new, stale_dirinfo_delta_set := stale\<rparr> = s"
      using assms(2) delta rebuild_delta by simp
    have e: "new = [] \<Longrightarrow> ?y\<lparr>new_dirinfo_delta_set := new\<rparr> = ?y"
      "stale = [] \<Longrightarrow> (?y\<lparr>new_dirinfo_delta_set := new\<rparr>)\<lparr>stale_dirinfo_delta_set := stale\<rparr>
         = ?y\<lparr>new_dirinfo_delta_set := new\<rparr>"
      using fresh by (cases y; simp)+
    have f1: "(if has_new_delta ?y
        then bindE (deserializeDirinfoSetInternal (new_dirinfo_delta_set ?y) a (p + 1)) (\<lambda>(ds, n).
               assertE (0 < length ds) (Inr (?y\<lparr>new_dirinfo_delta_set := ds\<rparr>, n)))
        else Inr (?y, 0)) = Inr (?y\<lparr>new_dirinfo_delta_set := new\<rparr>, word_of_nat (length xs))"
      using y(2) fresh(2) new e(1) by (cases "new = []") (simp_all add: xs_def)
    let ?z = "?y\<lparr>new_dirinfo_delta_set := new\<rparr>"
    have f2: "(if has_stale_delta ?z
        then bindE (deserializeDirinfoSetInternal (stale_dirinfo_delta_set ?z) a q) (\<lambda>(ds, m).
               assertE (0 < length ds) (Inr (?z\<lparr>stale_dirinfo_delta_set := ds\<rparr>, m)))
        else Inr (?z, 0)) = Inr (s, word_of_nat (length ys))"
      using y(3) fresh(3) stale yy trans [OF sym [OF e(2)] yy]
      by (cases "stale = []") (simp_all add: ys_def)
    show ?thesis
      by (simp only: DirinfoSet_deserialize_def hd bindE_simps Let_def list.sel y(1,4) assertE_simps
          not_False_eq_True if_False f1 f2 prod.case q_def [symmetric] sz)
  qed
qed

interpretation dirinfoset_wire: wire_codec DirinfoSet_wf DirinfoSet_enc DirinfoSet_fresh
    DirinfoSet_serialize DirinfoSet_deserialize
  by unfold_locales (simp_all add: DirinfoSet_serialize_enc DirinfoSet_deserialize_enc)

text \<open>The same format in a file.\<close>

lemma DirinfoSet_serialize_fs_enc:
  assumes "DirinfoSet_wf s"
  shows "DirinfoSet_serialize_fs s out = Inr (out @ DirinfoSet_enc s, word_of_nat (length (DirinfoSet_enc s)))"
  using assms
proof (cases rule: DirinfoSet_wf_cases)
  case (complete ds)
  then show ?thesis
    by (simp add: DirinfoSet_serialize_fs_def DirinfoSet_enc_simps dirinfos_stream.fs_ser_enc bitmap_defs)
next
  case (delta new stale)
  then show ?thesis
    by (cases "new = []"; cases "stale = []")
      (simp_all add: DirinfoSet_serialize_fs_def DirinfoSet_enc_simps dirinfos_stream.fs_ser_enc)
qed

lemma DirinfoSet_deserialize_fs_enc:
  assumes "DirinfoSet_wf s" and "DirinfoSet_fresh y"
  shows "DirinfoSet_deserialize_fs y (good_fs (DirinfoSet_enc s @ rest))
    = Inr (s, good_fs rest, word_of_nat (length (DirinfoSet_enc s)))"
  using assms(1)
proof (cases rule: DirinfoSet_wf_cases)
  case (complete ds)
  then show ?thesis
    using assms(2)
    by (simp add: DirinfoSet_deserialize_fs_def DirinfoSet_enc_simps INVALID_BITMAP_def Let_def)
      (simp add: DirinfoSet_fresh_def dirinfos_stream.fs_deser_enc rebuild_of_list)
next
  case (delta new stale)
  obtain c where y: "y = \<lparr>delta_bitmap = c, dirinfo_list = [], new_dirinfo_delta_set = [],
      stale_dirinfo_delta_set = []\<rparr>"
    using assms(2) by (cases y) (simp add: DirinfoSet_fresh_def)
  have enc: "DirinfoSet_enc s = [delta_bitmap s]
      @ (if new = [] then [] else dirinfos_enc new) @ (if stale = [] then [] else dirinfos_enc stale)"
    using delta by (simp add: DirinfoSet_enc_simps)
  show ?thesis
    unfolding enc y using delta
    by (cases "new = []"; cases "stale = []")
      (simp_all add: DirinfoSet_deserialize_fs_def dirinfos_stream.fs_deser_enc Let_def
        DirinfoSet_delta_def DirinfoSet_isComplete_def has_new_delta_def has_stale_delta_def bitmap_defs)
qed

interpretation dirinfoset_stream: stream_codec DirinfoSet_wf DirinfoSet_enc DirinfoSet_fresh
    DirinfoSet_serialize_fs DirinfoSet_deserialize_fs
  by unfold_locales (simp_all add: DirinfoSet_serialize_fs_enc DirinfoSet_deserialize_fs_enc)

section \<open>Properties\<close>

lemma set_recover:
  assumes "distinct cs" and "distinct ps"
  shows "distinct (fold remove1 (new_of ps cs) (recover_new_loop (new_of cs ps) ps))
    \<and> set (fold remove1 (new_of ps cs) (recover_new_loop (new_of cs ps) ps)) = set cs"
  using fold_remove1 [OF distinct_recover_new_loop [OF assms(2)], of "new_of ps cs" "new_of cs ps"]
  by (auto simp: set_recover_new_loop new_of_def)

text \<open>C9: Delta compression loses nothing. Compressing a complete set of edge nodes against the set
  sent before always returns, and the receiver gets the same edge nodes back: the result is either
  the complete set itself, or a fully compressed set (and then the two sets were equal), or a delta
  from which \<open>recover\<close> on the previous set rebuilds a duplicate-free list of exactly the current edge
  nodes. Its payload is never larger than that of the complete set.\<close>

theorem compress_recover:
  assumes "distinct cs" and "distinct ps" and "length cs < 2 ^ 28" and "length ps < 2 ^ 28"
  shows "\<exists>c n m. DirinfoSet_compress (DirinfoSet_of_list cs) (DirinfoSet_of_list ps) = Inr c
    \<and> DirinfoSet_getDirinfoSetPayloadSize c = Inr n
    \<and> DirinfoSet_getDirinfoSetPayloadSize (DirinfoSet_of_list cs) = Inr m \<and> n \<le> m
    \<and> (c = DirinfoSet_of_list cs
       \<or> DirinfoSet_isFullyCompressed c = Inr True \<and> set ps = set cs
       \<or> (\<exists>r. DirinfoSet_recover c (DirinfoSet_of_list ps) = Inr (DirinfoSet_of_list r)
              \<and> distinct r \<and> set r = set cs))"
proof (cases "length (new_of cs ps) + length (new_of ps cs) < length cs
    \<and> delta_payload (new_of cs ps) (new_of ps cs) < 5 + 4 * length cs")
  case True
  let ?c = "DirinfoSet_delta (new_of cs ps) (new_of ps cs)"
  have "set ps = set cs" if "new_of cs ps = []" and "new_of ps cs = []"
    using that by (auto simp: new_of_def filter_empty_conv)
  then have "DirinfoSet_isFullyCompressed ?c = Inr True \<and> set ps = set cs
      \<or> (\<exists>r. DirinfoSet_recover ?c (DirinfoSet_of_list ps) = Inr (DirinfoSet_of_list r)
              \<and> distinct r \<and> set r = set cs)"
    using recover_delta [of "new_of cs ps" "new_of ps cs" ps] set_recover [OF assms(1,2)] by auto
  moreover have "(word_of_nat (delta_payload (new_of cs ps) (new_of ps cs)) :: u32) \<le> word_of_nat (5 + 4 * length cs)"
    using True assms(3) by (intro word_of_nat_le_iff32 [THEN iffD2]) auto
  ultimately show ?thesis
    using True compress_spec [OF assms(3,4)] by (auto simp: payload_of_list payload_delta simp del: of_nat_add)
next
  case False
  then show ?thesis
    using compress_spec [OF assms(3,4)] by (auto simp: payload_of_list)
qed

theorem compress_recover_witness:
  "\<exists>c n m. DirinfoSet_compress (DirinfoSet_of_list [DirectoryInfo 1, DirectoryInfo 2, DirectoryInfo 3, DirectoryInfo 5])
        (DirinfoSet_of_list [DirectoryInfo 4, DirectoryInfo 3, DirectoryInfo 2, DirectoryInfo 5]) = Inr c
    \<and> DirinfoSet_getDirinfoSetPayloadSize c = Inr n
    \<and> DirinfoSet_getDirinfoSetPayloadSize
        (DirinfoSet_of_list [DirectoryInfo 1, DirectoryInfo 2, DirectoryInfo 3, DirectoryInfo 5]) = Inr m \<and> n \<le> m
    \<and> (c = DirinfoSet_of_list [DirectoryInfo 1, DirectoryInfo 2, DirectoryInfo 3, DirectoryInfo 5]
       \<or> DirinfoSet_isFullyCompressed c = Inr True \<and>
         set [DirectoryInfo 4, DirectoryInfo 3, DirectoryInfo 2, DirectoryInfo 5]
           = set [DirectoryInfo 1, DirectoryInfo 2, DirectoryInfo 3, DirectoryInfo 5]
       \<or> (\<exists>r. DirinfoSet_recover c
               (DirinfoSet_of_list [DirectoryInfo 4, DirectoryInfo 3, DirectoryInfo 2, DirectoryInfo 5])
               = Inr (DirinfoSet_of_list r)
              \<and> distinct r \<and> set r = set [DirectoryInfo 1, DirectoryInfo 2, DirectoryInfo 3, DirectoryInfo 5]))"
  by (rule compress_recover) simp_all

lemma length_DirinfoSet_enc:
  assumes "DirinfoSet_wf s"
  shows "DirinfoSet_getDirinfoSetPayloadSize s = Inr (word_of_nat (length (DirinfoSet_enc s)))"
  using assms
proof (cases rule: DirinfoSet_wf_cases)
  case (complete ds)
  then show ?thesis by (simp add: payload_of_list DirinfoSet_enc_simps)
next
  case (delta new stale)
  then show ?thesis by (auto simp: payload_delta delta_payload_def DirinfoSet_enc_simps)
qed

text \<open>Message round trip of a set of edge nodes. A well-formed complete or compressed set that
  fits into the message buffer is written by \<open>serialize\<close> with exactly the size \<open>getDirinfoSetPayloadSize\<close>
  announces, and \<open>deserialize\<close> at the same position into an object whose lists are empty reads the
  same set and the same number of bytes.\<close>

theorem DirinfoSet_message_round_trip:
  assumes "DirinfoSet_wf s" and "DirinfoSet_fresh y"
    and "unat p + length (DirinfoSet_enc s) \<le> da_capacity a"
    and "unat p + length (DirinfoSet_enc s) < 2 ^ 32"
  shows "\<exists>a' n. DirinfoSet_serialize s a p = Inr (a', n) \<and> DirinfoSet_deserialize y a' p = Inr (s, n)
    \<and> DirinfoSet_getDirinfoSetPayloadSize s = Inr n"
  using dirinfoset_wire.round_trip [OF assms] length_DirinfoSet_enc [OF assms(1)] by auto

theorem DirinfoSet_message_round_trip_witness:
  "\<exists>a' n. DirinfoSet_serialize (DirinfoSet_delta [DirectoryInfo 7] []) (DynamicArray_with_capacity 64) 5 = Inr (a', n)
    \<and> DirinfoSet_deserialize DirinfoSet_invalid a' 5 = Inr (DirinfoSet_delta [DirectoryInfo 7] [], n)
    \<and> DirinfoSet_getDirinfoSetPayloadSize (DirinfoSet_delta [DirectoryInfo 7] []) = Inr n"
proof (rule DirinfoSet_message_round_trip)
  show "DirinfoSet_wf (DirinfoSet_delta [DirectoryInfo 7] [])"
    by (simp add: DirinfoSet_wf_def)
  show "DirinfoSet_fresh DirinfoSet_invalid"
    by (simp add: DirinfoSet_fresh_def DirinfoSet_invalid_def)
qed (simp_all add: DirinfoSet_enc_simps DynamicArray_with_capacity_def DynamicArray_clear_def)

text \<open>Reading a complete set into an object that already holds edge nodes does not replace them:
  \<open>deserialize\<close> pushes what it reads behind the old content, so a reused object ends up with the
  union.\<close>

theorem DirinfoSet_deserialize_appends:
  assumes "length ds < 2 ^ 28" and "da_holds a (unat p) (DirinfoSet_enc (DirinfoSet_of_list ds))"
    and "unat p + length (DirinfoSet_enc (DirinfoSet_of_list ds)) < 2 ^ 32"
  shows "DirinfoSet_deserialize (DirinfoSet_of_list es) a p
    = Inr (DirinfoSet_of_list (es @ ds), word_of_nat (5 + 4 * length ds))"
proof -
  have p1: "unat (p + 1) = unat p + 1"
    using assms by (simp add: DirinfoSet_enc_simps unat_add_no_wrap)
  have h: "da_holds a (unat p) [0]" "da_holds a (unat p + 1) (dirinfos_enc ds)"
    using assms(2) da_holds_append [of a "unat p" "[0]" "dirinfos_enc ds"] by (simp_all add: DirinfoSet_enc_simps)
  have "DynamicArray_serialize a p 1 = Inr [0]"
    using assms h by (intro serialize_ok) (auto simp: DirinfoSet_enc_simps)
  then show ?thesis
    using assms h p1 deserializeInternal_enc [of ds a "p + 1" es]
    by (simp add: DirinfoSet_deserialize_def DirinfoSet_enc_simps INVALID_BITMAP_def Let_def)
qed

theorem DirinfoSet_deserialize_appends_witness:
  "DirinfoSet_deserialize (DirinfoSet_of_list [DirectoryInfo 1])
     (da_put 0 (DirinfoSet_enc (DirinfoSet_of_list [DirectoryInfo 2])) (DynamicArray_with_capacity 64)) 0
   = Inr (DirinfoSet_of_list [DirectoryInfo 1, DirectoryInfo 2], 9)"
  using DirinfoSet_deserialize_appends [of "[DirectoryInfo 2]"
      "da_put 0 (DirinfoSet_enc (DirinfoSet_of_list [DirectoryInfo 2])) (DynamicArray_with_capacity 64)" 0
      "[DirectoryInfo 1]"]
  by (simp add: DirinfoSet_enc_simps)

text \<open>The capacity accounting of a compressed set counts the bitmap only: whatever delta lists it
  carries, \<open>getSizeForCapacity\<close> returns one byte, while a complete set of the same \<open>n\<close> edge nodes is
  counted as \<open>1 + 4 n\<close>.\<close>

theorem DirinfoSet_delta_size_ignored:
  "DirinfoSet_getSizeForCapacity (DirinfoSet_delta new stale) = Inr 1
   \<and> DirinfoSet_getSizeForCapacity (DirinfoSet_of_list [d1, d2]) = Inr 9"
proof
  show "DirinfoSet_getSizeForCapacity (DirinfoSet_delta new stale) = Inr 1"
    by (simp add: DirinfoSet_getSizeForCapacity_def)
  show "DirinfoSet_getSizeForCapacity (DirinfoSet_of_list [d1, d2]) = Inr 9"
    by (simp add: DirinfoSet_getSizeForCapacity_def getDirinfoSetSizeForCapacityInternal_def
        DirectoryInfo_getSizeForCapacity_def INVALID_BITMAP_def)
qed

end
