(* ===== verification/Directory_Entry.thy ===== *)
theory Directory_Entry
  imports Dirinfo_Set
begin

text \<open>
  \<open>DirectoryEntry\<close> (\<open>src/src/cooperation/directory/directory_entry.c\<close>): for one key, the edge nodes that
  cache it, each with its validity bit. The class is the value type of the beacon's directory table,
  which reaches its operations by name through \<open>call\<close> and \<open>constCall\<close> with an untyped parameter
  structure; here the structures are the constructors of \<open>direntry_param\<close>, and a name with the
  structure of another function is undefined behaviour. Out-parameters come back in the structure.
\<close>

type_synonym directory_entry = "(directory_info \<times> directory_metadata) list"

definition DirectoryEntry_new :: directory_entry where
  "DirectoryEntry_new = []"

section \<open>Operations\<close>

definition DirectoryEntry_getAllDirinfo :: "directory_entry \<Rightarrow> dirinfo_set" where
  "DirectoryEntry_getAllDirinfo e = DirinfoSet_of_list (map fst e)"

definition DirectoryEntry_getAllValidDirinfo :: "directory_entry \<Rightarrow> dirinfo_set" where
  "DirectoryEntry_getAllValidDirinfo e =
     DirinfoSet_of_list (map fst (filter (\<lambda>(d, m). isValidMetadata m) e))"

definition DirectoryEntry_addDirinfo ::
    "directory_entry \<Rightarrow> directory_info \<Rightarrow> directory_metadata
     \<Rightarrow> (directory_entry \<times> bool \<times> metadata_update_requirement) exec" where
  "DirectoryEntry_addDirinfo e dirinfo dirmeta =
     (if map_of e dirinfo = None
      then let single_to_multiple = (length e = 1);
               edge_idx = (if single_to_multiple then getTargetEdgeIdx (fst (hd e)) else 0);
               e' = um_insert dirinfo dirmeta e
           in if single_to_multiple
              then bindE (MetadataUpdateRequirement_new single_to_multiple False edge_idx)
                     (\<lambda>requirement. Inr (e', False, requirement))
              else Inr (e', False, MetadataUpdateRequirement_none)
      else Inr (um_put dirinfo dirmeta e, True, MetadataUpdateRequirement_none))"

definition DirectoryEntry_removeDirinfo ::
    "directory_entry \<Rightarrow> directory_info \<Rightarrow> (directory_entry \<times> bool \<times> metadata_update_requirement) exec" where
  "DirectoryEntry_removeDirinfo e dirinfo =
     (if map_of e dirinfo = None
      then Inr (e, False, MetadataUpdateRequirement_none)
      else let e' = um_erase dirinfo e;
               multiple_to_single = (length e' = 1);
               edge_idx = (if multiple_to_single then getTargetEdgeIdx (fst (hd e')) else 0)
           in if multiple_to_single
              then bindE (MetadataUpdateRequirement_new False multiple_to_single edge_idx)
                     (\<lambda>requirement. Inr (e', True, requirement))
              else Inr (e', True, MetadataUpdateRequirement_none))"

definition DirectoryEntry_invalidateMetadataForAllDirinfoIfExist ::
    "directory_entry \<Rightarrow> directory_entry \<times> dirinfo_set" where
  "DirectoryEntry_invalidateMetadataForAllDirinfoIfExist e =
     (map (\<lambda>(d, m). (d, DirectoryMetadata_invalidateMetadata m)) e, DirinfoSet_of_list (map fst e))"

definition DirectoryEntry_validateMetadataForDirinfoIfExist ::
    "directory_entry \<Rightarrow> directory_info \<Rightarrow> directory_entry \<times> bool" where
  "DirectoryEntry_validateMetadataForDirinfoIfExist e dirinfo =
     (case map_of e dirinfo of
        None \<Rightarrow> (e, False)
      | Some m \<Rightarrow> (um_put dirinfo (DirectoryMetadata_validateMetadata m) e, True))"

definition DirectoryEntry_getSizeForCapacity :: "directory_entry \<Rightarrow> u64" where
  "DirectoryEntry_getSizeForCapacity e =
     foldl (\<lambda>sz (d, m). sz + DirectoryInfo_getSizeForCapacity d + DirectoryMetadata_getSizeForCapacity m) 0 e"

section \<open>Calls by name\<close>

definition GET_ALL_DIRINFO_FUNCNAME :: string where
  "GET_ALL_DIRINFO_FUNCNAME = ''getAllDirinfo''"
definition GET_ALL_VALID_DIRINFO_FUNCNAME :: string where
  "GET_ALL_VALID_DIRINFO_FUNCNAME = ''getAllValidDirinfo''"
definition ADD_DIRINFO_FUNCNAME :: string where
  "ADD_DIRINFO_FUNCNAME = ''addDirinfo''"
definition REMOVE_DIRINFO_FUNCNAME :: string where
  "REMOVE_DIRINFO_FUNCNAME = ''removeDirinfo''"
definition INVALIDATE_METADATA_FOR_ALL_DIRINFO_IF_EXIST_FUNCNAME :: string where
  "INVALIDATE_METADATA_FOR_ALL_DIRINFO_IF_EXIST_FUNCNAME = ''invalidateMetadataForAllDirinfoIfExist''"
definition VALIDATE_METADATA_FOR_DIRINFO_IF_EXIST_FUNCNAME :: string where
  "VALIDATE_METADATA_FOR_DIRINFO_IF_EXIST_FUNCNAME = ''validateMetadataForDirinfoIfExist''"

lemmas funcname_defs = GET_ALL_DIRINFO_FUNCNAME_def GET_ALL_VALID_DIRINFO_FUNCNAME_def
  ADD_DIRINFO_FUNCNAME_def REMOVE_DIRINFO_FUNCNAME_def
  INVALIDATE_METADATA_FOR_ALL_DIRINFO_IF_EXIST_FUNCNAME_def
  VALIDATE_METADATA_FOR_DIRINFO_IF_EXIST_FUNCNAME_def

datatype direntry_param =
    GetAllDirinfoParam (param_dirinfo_set: dirinfo_set)
  | GetAllValidDirinfoParam (param_dirinfo_set: dirinfo_set)
  | AddDirinfoParam directory_info directory_metadata bool metadata_update_requirement
  | RemoveDirinfoParam directory_info bool bool metadata_update_requirement
  | InvalidateMetadataForAllDirinfoIfExistParam (param_dirinfo_set: dirinfo_set)
  | ValidateMetadataForDirinfoIfExistParam directory_info bool

definition DirectoryEntry_call ::
    "string \<Rightarrow> direntry_param \<Rightarrow> directory_entry \<Rightarrow> (directory_entry \<times> direntry_param \<times> bool) exec" where
  "DirectoryEntry_call function_name param e =
     (if function_name = ADD_DIRINFO_FUNCNAME
      then (case param of
              AddDirinfoParam d m _ _ \<Rightarrow>
                bindE (DirectoryEntry_addDirinfo e d m) (\<lambda>(e', already_exist, requirement).
                Inr (e', AddDirinfoParam d m already_exist requirement, False))
            | _ \<Rightarrow> Inl Undefined)
      else if function_name = REMOVE_DIRINFO_FUNCNAME
      then (case param of
              RemoveDirinfoParam d _ _ _ \<Rightarrow>
                bindE (DirectoryEntry_removeDirinfo e d) (\<lambda>(e', already_exist, requirement).
                if length e' = 0
                then Inr (e', RemoveDirinfoParam d already_exist False requirement, True)
                else Inr (e', RemoveDirinfoParam d already_exist True requirement, False))
            | _ \<Rightarrow> Inl Undefined)
      else if function_name = INVALIDATE_METADATA_FOR_ALL_DIRINFO_IF_EXIST_FUNCNAME
      then (case param of
              InvalidateMetadataForAllDirinfoIfExistParam _ \<Rightarrow>
                (let (e', all_dirinfo) = DirectoryEntry_invalidateMetadataForAllDirinfoIfExist e
                 in Inr (e', InvalidateMetadataForAllDirinfoIfExistParam all_dirinfo, False))
            | _ \<Rightarrow> Inl Undefined)
      else if function_name = VALIDATE_METADATA_FOR_DIRINFO_IF_EXIST_FUNCNAME
      then (case param of
              ValidateMetadataForDirinfoIfExistParam d _ \<Rightarrow>
                (let (e', dirinfo_exist) = DirectoryEntry_validateMetadataForDirinfoIfExist e d
                 in Inr (e', ValidateMetadataForDirinfoIfExistParam d dirinfo_exist, False))
            | _ \<Rightarrow> Inl Undefined)
      else Inl Exited)"

definition DirectoryEntry_constCall ::
    "string \<Rightarrow> direntry_param \<Rightarrow> directory_entry \<Rightarrow> direntry_param exec" where
  "DirectoryEntry_constCall function_name param e =
     (if function_name = GET_ALL_VALID_DIRINFO_FUNCNAME
      then (case param of
              GetAllValidDirinfoParam _ \<Rightarrow> Inr (GetAllValidDirinfoParam (DirectoryEntry_getAllValidDirinfo e))
            | _ \<Rightarrow> Inl Undefined)
      else if function_name = GET_ALL_DIRINFO_FUNCNAME
      then (case param of
              GetAllDirinfoParam _ \<Rightarrow> Inr (GetAllDirinfoParam (DirectoryEntry_getAllDirinfo e))
            | _ \<Rightarrow> Inl Undefined)
      else Inl Exited)"

section \<open>Snapshots\<close>

fun dumpDirectoryEntry_loop :: "directory_entry \<Rightarrow> u8 list \<Rightarrow> u8 list exec" where
  "dumpDirectoryEntry_loop [] out = Inr out"
| "dumpDirectoryEntry_loop ((d, m) # e) out =
     bindE (DirectoryInfo_serialize_fs d out) (\<lambda>(out, _).
     dumpDirectoryEntry_loop e (DirectoryMetadata_dumpDirectoryMetadata m out))"

definition DirectoryEntry_dumpDirectoryEntry :: "directory_entry \<Rightarrow> u8 list \<Rightarrow> u8 list exec" where
  "DirectoryEntry_dumpDirectoryEntry e out =
     dumpDirectoryEntry_loop e (fs_write (u32_mem (word_of_nat (length e))) out)"

fun loadDirectoryEntry_loop ::
    "nat \<Rightarrow> directory_entry \<Rightarrow> fstream \<Rightarrow> (directory_entry \<times> fstream) exec" where
  "loadDirectoryEntry_loop 0 e fs = Inr (e, fs)"
| "loadDirectoryEntry_loop (Suc n) e fs =
     bindE (DirectoryInfo_deserialize_fs DirectoryInfo_default fs) (\<lambda>(d, fs, _).
     let (m, fs) = DirectoryMetadata_loadDirectoryMetadata (DirectoryMetadata False) fs
     in loadDirectoryEntry_loop n (um_insert d m e) fs)"

definition DirectoryEntry_loadDirectoryEntry ::
    "directory_entry \<Rightarrow> fstream \<Rightarrow> (directory_entry \<times> fstream) exec" where
  "DirectoryEntry_loadDirectoryEntry e fs =
     (let (pair_cnt, fs) = fs_read (u32_mem 0) fs
      in loadDirectoryEntry_loop (unat (mem_u32 pair_cnt)) [] fs)"

section \<open>The operations on the map from edge nodes to validity\<close>

abbreviation edges_of :: "directory_entry \<Rightarrow> directory_info set" where
  "edges_of e \<equiv> dom (map_of e)"

lemma edges_of_set: "edges_of e = fst ` set e"
  by (rule dom_map_of_conv_image_fst)

lemma card_edges_of: "um_wf e \<Longrightarrow> card (edges_of e) = length e"
  using distinct_card [of "map fst e"] by (simp add: edges_of_set)

lemma edges_of_single: "length e = 1 \<Longrightarrow> edges_of e = {fst (hd e)}"
  by (cases e) (auto simp: edges_of_set)

text \<open>The notifications of the two changing operations.\<close>

definition add_requirement :: "directory_entry \<Rightarrow> directory_info \<Rightarrow> metadata_update_requirement" where
  "add_requirement e d =
     (if d \<notin> edges_of e \<and> length e = 1
      then \<lparr>is_from_single_to_multiple = True, is_from_multiple_to_single = False,
             notify_edge_idx = getTargetEdgeIdx (fst (hd e))\<rparr>
      else MetadataUpdateRequirement_none)"

definition remove_requirement :: "directory_entry \<Rightarrow> directory_info \<Rightarrow> metadata_update_requirement" where
  "remove_requirement e d =
     (if d \<in> edges_of e \<and> length (um_erase d e) = 1
      then \<lparr>is_from_single_to_multiple = False, is_from_multiple_to_single = True,
             notify_edge_idx = getTargetEdgeIdx (fst (hd (um_erase d e)))\<rparr>
      else MetadataUpdateRequirement_none)"

lemma addDirinfo_eq:
  "DirectoryEntry_addDirinfo e d m = Inr (um_put d m e, d \<in> edges_of e, add_requirement e d)"
  by (auto simp: DirectoryEntry_addDirinfo_def MetadataUpdateRequirement_new_def add_requirement_def
      um_insert_def um_put_absent Let_def)

lemma removeDirinfo_eq:
  "DirectoryEntry_removeDirinfo e d = Inr (um_erase d e, d \<in> edges_of e, remove_requirement e d)"
  by (cases "map_of e d")
    (simp_all add: DirectoryEntry_removeDirinfo_def MetadataUpdateRequirement_new_def remove_requirement_def
      Let_def um_erase_absent domIff)

lemma invalidateAll_eq:
  "DirectoryEntry_invalidateMetadataForAllDirinfoIfExist e
     = (map (\<lambda>(d, _). (d, DirectoryMetadata False)) e, DirinfoSet_of_list (map fst e))"
  by (simp add: DirectoryEntry_invalidateMetadataForAllDirinfoIfExist_def
      DirectoryMetadata_invalidateMetadata_def)

lemma validate_eq:
  "DirectoryEntry_validateMetadataForDirinfoIfExist e d
     = (if d \<in> edges_of e then um_put d (DirectoryMetadata True) e else e, d \<in> edges_of e)"
  by (auto simp: DirectoryEntry_validateMetadataForDirinfoIfExist_def
      DirectoryMetadata_validateMetadata_def split: option.splits)

definition valid_edges :: "directory_entry \<Rightarrow> directory_info list" where
  "valid_edges e = map fst (filter (\<lambda>(d, m). isValidMetadata m) e)"

lemma getAllValidDirinfo_eq: "DirectoryEntry_getAllValidDirinfo e = DirinfoSet_of_list (valid_edges e)"
  by (simp add: DirectoryEntry_getAllValidDirinfo_def valid_edges_def)

lemma set_valid_edges: "um_wf e \<Longrightarrow> set (valid_edges e) = {d. map_of e d = Some (DirectoryMetadata True)}"
proof (intro set_eqI iffI)
  fix d
  assume wf: "um_wf e"
  show "d \<in> set (valid_edges e) \<Longrightarrow> d \<in> {d. map_of e d = Some (DirectoryMetadata True)}"
    using wf by (auto simp: valid_edges_def) (metis directory_metadata.exhaust directory_metadata.sel)
  show "d \<in> {d. map_of e d = Some (DirectoryMetadata True)} \<Longrightarrow> d \<in> set (valid_edges e)"
    using wf by (force simp: valid_edges_def)
qed

lemma distinct_valid_edges: "um_wf e \<Longrightarrow> distinct (valid_edges e)"
  unfolding valid_edges_def by (rule distinct_map_filter)

lemma valid_edges_invalidated [simp]: "valid_edges (map (\<lambda>(d, _). (d, DirectoryMetadata False)) e) = []"
  by (induction e) (auto simp: valid_edges_def)

lemma keys_invalidated [simp]: "map fst (map (\<lambda>(d, _). (d, DirectoryMetadata False)) e) = map fst e"
  by (induction e) auto

lemma map_of_invalidated:
  "map_of (map (\<lambda>(d, _). (d, DirectoryMetadata False)) e) d = map_option (\<lambda>_. DirectoryMetadata False) (map_of e d)"
  by (induction e) auto

section \<open>What the entry is worth in the capacity\<close>

lemma DirectoryEntry_size: "DirectoryEntry_getSizeForCapacity e = word_of_nat (5 * length e)"
proof -
  have "foldl (\<lambda>sz (d, m). sz + DirectoryInfo_getSizeForCapacity d + DirectoryMetadata_getSizeForCapacity m) n e
      = n + word_of_nat (5 * length e)" for n
    by (induction e arbitrary: n)
      (auto simp: DirectoryInfo_getSizeForCapacity_def DirectoryMetadata_getSizeForCapacity_def)
  then show ?thesis
    by (simp add: DirectoryEntry_getSizeForCapacity_def)
qed

section \<open>Calls\<close>

text \<open>Edge indices are below the number of edge nodes, itself a 32-bit number; so the largest 32-bit number
  is not an edge index, and the length of a duplicate-free entry fits into 32 bits.\<close>

definition edge_ok :: "directory_info \<Rightarrow> bool" where
  "edge_ok d \<longleftrightarrow> getTargetEdgeIdx d \<noteq> - 1"

definition direntry_param_ok :: "direntry_param \<Rightarrow> bool" where
  "direntry_param_ok p \<longleftrightarrow> (case p of AddDirinfoParam d _ _ _ \<Rightarrow> edge_ok d | _ \<Rightarrow> True)"

definition DirectoryEntry_inv :: "directory_entry \<Rightarrow> bool" where
  "DirectoryEntry_inv e \<longleftrightarrow> um_wf e \<and> e \<noteq> [] \<and> (\<forall>d \<in> edges_of e. edge_ok d)"

lemma length_direntry:
  assumes "um_wf e" and "\<forall>d \<in> edges_of e. edge_ok d"
  shows "length e < 2 ^ 32"
proof -
  have "card (edges_of e) = card (getTargetEdgeIdx ` edges_of e)"
    by (rule card_image [symmetric]) (auto simp: inj_on_def intro: directory_info.expand)
  also have "\<dots> \<le> card (UNIV - {- 1 :: u32})"
    using assms(2) by (intro card_mono) (auto simp: edge_ok_def)
  also have "\<dots> < 2 ^ 32"
    by (simp add: card_Diff_singleton card_word)
  finally show ?thesis using card_edges_of [OF assms(1)] by simp
qed

lemma um_put_not_Nil [simp]: "um_put k v al \<noteq> []"
  by (simp add: um_put_def)

lemma DirectoryEntry_call_cases:
  assumes "DirectoryEntry_call f p e = Inr (e', p', erase)"
  obtains (add) d m b r where "f = ADD_DIRINFO_FUNCNAME" "p = AddDirinfoParam d m b r"
      "e' = um_put d m e" "\<not> erase"
  | (remove) d b g r where "f = REMOVE_DIRINFO_FUNCNAME" "p = RemoveDirinfoParam d b g r"
      "e' = um_erase d e" "erase = (e' = [])"
  | (invalidate) s where "f = INVALIDATE_METADATA_FOR_ALL_DIRINFO_IF_EXIST_FUNCNAME"
      "p = InvalidateMetadataForAllDirinfoIfExistParam s"
      "e' = map (\<lambda>(d, _). (d, DirectoryMetadata False)) e" "\<not> erase"
  | (validate) d b where "f = VALIDATE_METADATA_FOR_DIRINFO_IF_EXIST_FUNCNAME"
      "p = ValidateMetadataForDirinfoIfExistParam d b"
      "e' = (if d \<in> edges_of e then um_put d (DirectoryMetadata True) e else e)" "\<not> erase"
  using assms
  by (auto simp: DirectoryEntry_call_def addDirinfo_eq removeDirinfo_eq invalidateAll_eq validate_eq
      exec_inv Let_def split: if_splits direntry_param.splits)

text \<open>A call that does not ask for the entry to be erased leaves it non-empty and duplicate-free.\<close>

lemma edges_of_invalidated [simp]: "edges_of (map (\<lambda>(d, _). (d, DirectoryMetadata False)) e) = edges_of e"
  by (auto simp: map_of_invalidated)

lemma DirectoryEntry_call_inv:
  assumes "DirectoryEntry_inv e" and "direntry_param_ok p" and "DirectoryEntry_call f p e = Inr (e', p', False)"
  shows "DirectoryEntry_inv e'"
  using assms(3)
proof (cases rule: DirectoryEntry_call_cases)
  case (invalidate s)
  then show ?thesis
    using assms(1) unfolding DirectoryEntry_inv_def invalidate(3) edges_of_invalidated
    by (simp del: map_map)
qed (use assms in \<open>auto simp: DirectoryEntry_inv_def direntry_param_ok_def split: if_splits\<close>)

text \<open>The calls the directory table makes.\<close>

lemma add_requirement_iff:
  assumes "um_wf e"
  shows "is_from_single_to_multiple (add_requirement e d)
      \<longleftrightarrow> card (edges_of e) = 1 \<and> card (insert d (edges_of e)) = 2"
    and "is_from_single_to_multiple (add_requirement e d) \<Longrightarrow>
      edges_of e = {DirectoryInfo (notify_edge_idx (add_requirement e d))}"
    and "\<not> is_from_multiple_to_single (add_requirement e d)"
proof -
  have "card (insert d (edges_of e)) = 2 \<longleftrightarrow> d \<notin> edges_of e" if "card (edges_of e) = 1"
    using that by (cases "d \<in> edges_of e") (auto simp: insert_absorb card_insert_if finite_dom_map_of)
  then show "is_from_single_to_multiple (add_requirement e d)
      \<longleftrightarrow> card (edges_of e) = 1 \<and> card (insert d (edges_of e)) = 2"
    using card_edges_of [OF assms] by (auto simp: add_requirement_def MetadataUpdateRequirement_none_def)
  show "is_from_single_to_multiple (add_requirement e d) \<Longrightarrow>
      edges_of e = {DirectoryInfo (notify_edge_idx (add_requirement e d))}"
    using edges_of_single [of e] by (auto simp: add_requirement_def MetadataUpdateRequirement_none_def split: if_splits)
  show "\<not> is_from_multiple_to_single (add_requirement e d)"
    by (simp add: add_requirement_def MetadataUpdateRequirement_none_def)
qed

lemma remove_requirement_iff:
  assumes "um_wf e"
  shows "is_from_multiple_to_single (remove_requirement e d)
      \<longleftrightarrow> card (edges_of e) = 2 \<and> card (edges_of e - {d}) = 1"
    and "is_from_multiple_to_single (remove_requirement e d) \<Longrightarrow>
      edges_of e - {d} = {DirectoryInfo (notify_edge_idx (remove_requirement e d))}"
    and "\<not> is_from_single_to_multiple (remove_requirement e d)"
proof -
  have "card (edges_of e - {d}) = 1 \<and> d \<in> edges_of e \<longleftrightarrow> card (edges_of e) = 2 \<and> card (edges_of e - {d}) = 1"
    by (cases "d \<in> edges_of e") (auto simp: finite_dom_map_of)
  moreover have "card (edges_of e - {d}) = length (um_erase d e)"
    using card_edges_of [of "um_erase d e"] assms by simp
  ultimately show "is_from_multiple_to_single (remove_requirement e d)
      \<longleftrightarrow> card (edges_of e) = 2 \<and> card (edges_of e - {d}) = 1"
    by (auto simp: remove_requirement_def MetadataUpdateRequirement_none_def)
  show "is_from_multiple_to_single (remove_requirement e d) \<Longrightarrow>
      edges_of e - {d} = {DirectoryInfo (notify_edge_idx (remove_requirement e d))}"
    using edges_of_single [of "um_erase d e"]
    by (auto simp: remove_requirement_def MetadataUpdateRequirement_none_def split: if_splits)
  show "\<not> is_from_single_to_multiple (remove_requirement e d)"
    by (simp add: remove_requirement_def MetadataUpdateRequirement_none_def)
qed

lemma DirectoryEntry_call_eqs:
  "DirectoryEntry_call ADD_DIRINFO_FUNCNAME (AddDirinfoParam d m b r) e
     = Inr (um_put d m e, AddDirinfoParam d m (d \<in> edges_of e) (add_requirement e d), False)"
  "DirectoryEntry_call REMOVE_DIRINFO_FUNCNAME (RemoveDirinfoParam d b g r) e
     = Inr (um_erase d e, RemoveDirinfoParam d (d \<in> edges_of e) (um_erase d e \<noteq> []) (remove_requirement e d),
            um_erase d e = [])"
  "DirectoryEntry_call INVALIDATE_METADATA_FOR_ALL_DIRINFO_IF_EXIST_FUNCNAME
       (InvalidateMetadataForAllDirinfoIfExistParam s) e
     = Inr (map (\<lambda>(d, _). (d, DirectoryMetadata False)) e,
            InvalidateMetadataForAllDirinfoIfExistParam (DirinfoSet_of_list (map fst e)), False)"
  "DirectoryEntry_call VALIDATE_METADATA_FOR_DIRINFO_IF_EXIST_FUNCNAME
       (ValidateMetadataForDirinfoIfExistParam d b) e
     = Inr (if d \<in> edges_of e then um_put d (DirectoryMetadata True) e else e,
            ValidateMetadataForDirinfoIfExistParam d (d \<in> edges_of e), False)"
  by (simp_all add: DirectoryEntry_call_def funcname_defs addDirinfo_eq removeDirinfo_eq invalidateAll_eq
      validate_eq)

lemma DirectoryEntry_constCall_eqs:
  "DirectoryEntry_constCall GET_ALL_VALID_DIRINFO_FUNCNAME (GetAllValidDirinfoParam s) e
     = Inr (GetAllValidDirinfoParam (DirinfoSet_of_list (valid_edges e)))"
  "DirectoryEntry_constCall GET_ALL_DIRINFO_FUNCNAME (GetAllDirinfoParam s) e
     = Inr (GetAllDirinfoParam (DirinfoSet_of_list (map fst e)))"
  by (simp_all add: DirectoryEntry_constCall_def funcname_defs getAllValidDirinfo_eq DirectoryEntry_getAllDirinfo_def)

section \<open>Snapshots\<close>

definition DirectoryEntry_enc :: "directory_entry \<Rightarrow> u8 list" where
  "DirectoryEntry_enc e = u32_mem (word_of_nat (length e))
     @ concat (map (\<lambda>(d, m). DirectoryInfo_enc d @ bool_mem (isValidMetadata m)) e)"

lemma dump_loop_enc:
  "dumpDirectoryEntry_loop e out
     = Inr (out @ concat (map (\<lambda>(d, m). DirectoryInfo_enc d @ bool_mem (isValidMetadata m)) e))"
  by (induction e arbitrary: out)
    (auto simp: DirectoryInfo_serialize_fs_def DirectoryInfo_enc_def DirectoryMetadata_dumpDirectoryMetadata_def)

lemma dumpDirectoryEntry_enc: "DirectoryEntry_dumpDirectoryEntry e out = Inr (out @ DirectoryEntry_enc e)"
  by (simp add: DirectoryEntry_dumpDirectoryEntry_def dump_loop_enc DirectoryEntry_enc_def)

lemma load_metadata_enc:
  "DirectoryMetadata_loadDirectoryMetadata y (good_fs (bool_mem (isValidMetadata m) @ rest)) = (m, good_fs rest)"
  by (simp add: DirectoryMetadata_loadDirectoryMetadata_def)

lemma load_loop_enc:
  assumes "um_wf (acc @ e)"
  shows "loadDirectoryEntry_loop (length e) acc
      (good_fs (concat (map (\<lambda>(d, m). DirectoryInfo_enc d @ bool_mem (isValidMetadata m)) e) @ rest))
    = Inr (acc @ e, good_fs rest)"
  using assms
proof (induction e arbitrary: acc)
  case Nil
  then show ?case by simp
next
  case (Cons p e)
  obtain d m where p: "p = (d, m)" by (cases p)
  have "map_of acc d = None"
    using Cons.prems p by (auto simp: map_of_eq_None_iff)
  moreover have "um_wf ((acc @ [(d, m)]) @ e)"
    using Cons.prems p by simp
  ultimately show ?case
    using Cons.IH [of "acc @ [(d, m)]"] p
    by (simp add: dirinfo_stream.fs_deser_enc load_metadata_enc um_insert_def)
qed

lemma loadDirectoryEntry_enc:
  assumes "um_wf e" and "length e < 2 ^ 32"
  shows "DirectoryEntry_loadDirectoryEntry y (good_fs (DirectoryEntry_enc e @ rest)) = Inr (e, good_fs rest)"
  using assms load_loop_enc [of "[]" e rest]
  by (simp add: DirectoryEntry_loadDirectoryEntry_def DirectoryEntry_enc_def unat_of_nat_small)

section \<open>Properties\<close>

text \<open>Adding an edge node to a directory entry. The entry maps the node to the given validity and
  keeps every other node; the returned flag says whether the node was there; and the requirement
  asks to notify exactly when the number of copies goes from one to two, naming the edge node that
  held the only copy.\<close>

theorem addDirinfo_notifies_first_copy:
  assumes "um_wf e"
  shows "\<exists>e' r. DirectoryEntry_addDirinfo e d m = Inr (e', d \<in> edges_of e, r)
    \<and> um_wf e' \<and> map_of e' = (map_of e)(d \<mapsto> m)
    \<and> (is_from_single_to_multiple r \<longleftrightarrow> card (edges_of e) = 1 \<and> card (edges_of e') = 2)
    \<and> (is_from_single_to_multiple r \<longrightarrow> edges_of e = {DirectoryInfo (notify_edge_idx r)})
    \<and> \<not> is_from_multiple_to_single r"
  using assms add_requirement_iff [OF assms, of d] by (simp add: addDirinfo_eq)

theorem addDirinfo_notifies_first_copy_witness:
  "\<exists>e' r. DirectoryEntry_addDirinfo [(DirectoryInfo 3, DirectoryMetadata True)] (DirectoryInfo 5) (DirectoryMetadata True)
      = Inr (e', DirectoryInfo 5 \<in> edges_of [(DirectoryInfo 3, DirectoryMetadata True)], r)
    \<and> um_wf e'
    \<and> map_of e' = (map_of [(DirectoryInfo 3, DirectoryMetadata True)])(DirectoryInfo 5 \<mapsto> DirectoryMetadata True)
    \<and> (is_from_single_to_multiple r \<longleftrightarrow>
         card (edges_of [(DirectoryInfo 3, DirectoryMetadata True)]) = 1 \<and> card (edges_of e') = 2)
    \<and> (is_from_single_to_multiple r \<longrightarrow>
         edges_of [(DirectoryInfo 3, DirectoryMetadata True)] = {DirectoryInfo (notify_edge_idx r)})
    \<and> \<not> is_from_multiple_to_single r"
  by (rule addDirinfo_notifies_first_copy) simp

text \<open>Removing an edge node from a directory entry. The node is gone and every other node keeps its
  validity; the returned flag says whether the node was there; and the requirement asks to notify
  exactly when the number of copies goes from two to one, naming the edge node that keeps the last
  copy.\<close>

theorem removeDirinfo_notifies_last_copy:
  assumes "um_wf e"
  shows "\<exists>e' r. DirectoryEntry_removeDirinfo e d = Inr (e', d \<in> edges_of e, r)
    \<and> um_wf e' \<and> map_of e' = (map_of e)(d := None)
    \<and> (is_from_multiple_to_single r \<longleftrightarrow> card (edges_of e) = 2 \<and> card (edges_of e') = 1)
    \<and> (is_from_multiple_to_single r \<longrightarrow> edges_of e' = {DirectoryInfo (notify_edge_idx r)})
    \<and> \<not> is_from_single_to_multiple r"
  using assms remove_requirement_iff [OF assms, of d] by (simp add: removeDirinfo_eq)

theorem removeDirinfo_notifies_last_copy_witness:
  "\<exists>e' r. DirectoryEntry_removeDirinfo
        [(DirectoryInfo 3, DirectoryMetadata True), (DirectoryInfo 5, DirectoryMetadata False)] (DirectoryInfo 3)
      = Inr (e', DirectoryInfo 3 \<in> edges_of
          [(DirectoryInfo 3, DirectoryMetadata True), (DirectoryInfo 5, DirectoryMetadata False)], r)
    \<and> um_wf e'
    \<and> map_of e' = (map_of [(DirectoryInfo 3, DirectoryMetadata True),
        (DirectoryInfo 5, DirectoryMetadata False)])(DirectoryInfo 3 := None)
    \<and> (is_from_multiple_to_single r \<longleftrightarrow>
         card (edges_of [(DirectoryInfo 3, DirectoryMetadata True), (DirectoryInfo 5, DirectoryMetadata False)]) = 2
         \<and> card (edges_of e') = 1)
    \<and> (is_from_multiple_to_single r \<longrightarrow> edges_of e' = {DirectoryInfo (notify_edge_idx r)})
    \<and> \<not> is_from_single_to_multiple r"
  by (rule removeDirinfo_notifies_last_copy) simp

end
