(* ===== verification/Perkey_Rwlock.thy ===== *)
theory Perkey_Rwlock
  imports Keys_Values
begin

text \<open>
  \<open>PerkeyRwlock\<close> (\<open>src/src/concurrency/perkey_rwlock.c\<close>) and \<open>Rwlock\<close> (\<open>src/src/concurrency/rwlock.c\<close>): the
  reader-writer locks that serialise the operations on a key. A key hashes to one of the locks; beside
  each \<open>boost::shared_mutex\<close> the class keeps a count of readers and a writer flag, which the tables use
  to check that they are called under the right lock.

  The mutex of the boost library and the hash function are parameters, the fields of \<open>lock_env\<close>, beside
  the configuration flag \<open>Config::isAssert()\<close> that switches \<open>MYASSERT\<close> on; what the boost documentation
  says of the mutex is the predicate \<open>shared_mutex_ok\<close>. The two memory accesses
  of \<open>try_lock\<close> and of \<open>unlock\<close> are separate definitions, so that the step relation \<open>rw_step\<close> can
  interleave the atomic actions of any number of threads.
\<close>

record 'm lock_env =
  is_assert :: bool
  hash_fn :: "key \<Rightarrow> u32"
  mtx_init :: 'm
  mtx_try_lock_shared :: "'m \<Rightarrow> bool \<times> 'm"
  mtx_unlock_shared :: "'m \<Rightarrow> 'm"
  mtx_try_lock :: "'m \<Rightarrow> bool \<times> 'm"
  mtx_unlock :: "'m \<Rightarrow> 'm"

record 'm perkey_rwlock =
  fine_grained_locking_size :: u32
  enable_fine_grained_locking :: bool
  rwlock_hashtable :: "'m list"
  read_lock_cnts :: "u32 list"
  write_lock_flags :: "bool list"

definition PerkeyRwlock_new :: "('m, 'z) lock_env_scheme \<Rightarrow> u32 \<Rightarrow> bool \<Rightarrow> 'm perkey_rwlock" where
  "PerkeyRwlock_new env sz enable =
     (let rwlock_cnt = (if \<not> enable then 1 else unat sz)
      in \<lparr>fine_grained_locking_size = sz, enable_fine_grained_locking = enable,
          rwlock_hashtable = replicate rwlock_cnt (mtx_init env),
          read_lock_cnts = replicate rwlock_cnt 0,
          write_lock_flags = replicate rwlock_cnt False\<rparr>)"

definition PerkeyRwlock_getRwlockIndex ::
    "('m, 'z) lock_env_scheme \<Rightarrow> 'm perkey_rwlock \<Rightarrow> key \<Rightarrow> u32 exec" where
  "PerkeyRwlock_getRwlockIndex env lk k =
     (if enable_fine_grained_locking lk
      then definedE (fine_grained_locking_size lk \<noteq> 0) (Inr (hash_fn env k mod fine_grained_locking_size lk))
      else Inr 0)"

definition PerkeyRwlock_getFineGrainedLockingSize :: "'m perkey_rwlock \<Rightarrow> u32" where
  "PerkeyRwlock_getFineGrainedLockingSize lk = fine_grained_locking_size lk"

section \<open>Read locks\<close>

definition mutex_try_lock_shared ::
    "('m, 'z) lock_env_scheme \<Rightarrow> 'm perkey_rwlock \<Rightarrow> key \<Rightarrow> ('m perkey_rwlock \<times> bool) exec" where
  "mutex_try_lock_shared env lk k =
     bindE (PerkeyRwlock_getRwlockIndex env lk k) (\<lambda>rwlock_index.
     bindE (nthE (rwlock_hashtable lk) (unat rwlock_index)) (\<lambda>m.
     let (result, m') = mtx_try_lock_shared env m
     in Inr (lk\<lparr>rwlock_hashtable := (rwlock_hashtable lk)[unat rwlock_index := m']\<rparr>, result)))"

definition read_cnt_add ::
    "('m, 'z) lock_env_scheme \<Rightarrow> 'm perkey_rwlock \<Rightarrow> key \<Rightarrow> u32 \<Rightarrow> 'm perkey_rwlock exec" where
  "read_cnt_add env lk k d =
     bindE (PerkeyRwlock_getRwlockIndex env lk k) (\<lambda>rwlock_index.
     bindE (nthE (read_lock_cnts lk) (unat rwlock_index)) (\<lambda>c.
     Inr (lk\<lparr>read_lock_cnts := (read_lock_cnts lk)[unat rwlock_index := c + d]\<rparr>)))"

definition PerkeyRwlock_try_lock_shared ::
    "('m, 'z) lock_env_scheme \<Rightarrow> 'm perkey_rwlock \<Rightarrow> key \<Rightarrow> ('m perkey_rwlock \<times> bool) exec" where
  "PerkeyRwlock_try_lock_shared env lk k =
     bindE (mutex_try_lock_shared env lk k) (\<lambda>(lk, result).
     if result then bindE (read_cnt_add env lk k 1) (\<lambda>lk. Inr (lk, result))
     else Inr (lk, result))"

definition PerkeyRwlock_acquire_lock_shared ::
    "('m, 'z) lock_env_scheme \<Rightarrow> 'm perkey_rwlock \<Rightarrow> key \<Rightarrow> 'm perkey_rwlock exec" where
  "PerkeyRwlock_acquire_lock_shared env lk k =
     bindE (PerkeyRwlock_try_lock_shared env lk k) (\<lambda>(lk, result). if result then Inr lk else Inl Blocked)"

definition mutex_unlock_shared ::
    "('m, 'z) lock_env_scheme \<Rightarrow> 'm perkey_rwlock \<Rightarrow> key \<Rightarrow> 'm perkey_rwlock exec" where
  "mutex_unlock_shared env lk k =
     bindE (PerkeyRwlock_getRwlockIndex env lk k) (\<lambda>rwlock_index.
     bindE (nthE (rwlock_hashtable lk) (unat rwlock_index)) (\<lambda>m.
     Inr (lk\<lparr>rwlock_hashtable := (rwlock_hashtable lk)[unat rwlock_index := mtx_unlock_shared env m]\<rparr>)))"

definition PerkeyRwlock_unlock_shared ::
    "('m, 'z) lock_env_scheme \<Rightarrow> 'm perkey_rwlock \<Rightarrow> key \<Rightarrow> 'm perkey_rwlock exec" where
  "PerkeyRwlock_unlock_shared env lk k =
     bindE (read_cnt_add env lk k (- 1)) (\<lambda>lk. mutex_unlock_shared env lk k)"

section \<open>Write locks\<close>

definition mutex_try_lock ::
    "('m, 'z) lock_env_scheme \<Rightarrow> 'm perkey_rwlock \<Rightarrow> key \<Rightarrow> ('m perkey_rwlock \<times> bool) exec" where
  "mutex_try_lock env lk k =
     bindE (PerkeyRwlock_getRwlockIndex env lk k) (\<lambda>rwlock_index.
     bindE (nthE (rwlock_hashtable lk) (unat rwlock_index)) (\<lambda>m.
     let (result, m') = mtx_try_lock env m
     in Inr (lk\<lparr>rwlock_hashtable := (rwlock_hashtable lk)[unat rwlock_index := m']\<rparr>, result)))"

definition write_flag_set ::
    "('m, 'z) lock_env_scheme \<Rightarrow> 'm perkey_rwlock \<Rightarrow> key \<Rightarrow> 'm perkey_rwlock exec" where
  "write_flag_set env lk k =
     bindE (PerkeyRwlock_getRwlockIndex env lk k) (\<lambda>rwlock_index.
     bindE (nthE (write_lock_flags lk) (unat rwlock_index)) (\<lambda>original_write_lock_flag.
     assertE (\<not> original_write_lock_flag)
       (Inr (lk\<lparr>write_lock_flags := (write_lock_flags lk)[unat rwlock_index := True]\<rparr>))))"

definition PerkeyRwlock_try_lock ::
    "('m, 'z) lock_env_scheme \<Rightarrow> 'm perkey_rwlock \<Rightarrow> key \<Rightarrow> ('m perkey_rwlock \<times> bool) exec" where
  "PerkeyRwlock_try_lock env lk k =
     bindE (mutex_try_lock env lk k) (\<lambda>(lk, result).
     if result then bindE (write_flag_set env lk k) (\<lambda>lk. Inr (lk, result))
     else Inr (lk, result))"

definition PerkeyRwlock_acquire_lock ::
    "('m, 'z) lock_env_scheme \<Rightarrow> 'm perkey_rwlock \<Rightarrow> key \<Rightarrow> 'm perkey_rwlock exec" where
  "PerkeyRwlock_acquire_lock env lk k =
     bindE (PerkeyRwlock_try_lock env lk k) (\<lambda>(lk, result). if result then Inr lk else Inl Blocked)"

definition write_flag_clear ::
    "('m, 'z) lock_env_scheme \<Rightarrow> 'm perkey_rwlock \<Rightarrow> key \<Rightarrow> 'm perkey_rwlock exec" where
  "write_flag_clear env lk k =
     bindE (PerkeyRwlock_getRwlockIndex env lk k) (\<lambda>rwlock_index.
     definedE (unat rwlock_index < length (write_lock_flags lk))
       (Inr (lk\<lparr>write_lock_flags := (write_lock_flags lk)[unat rwlock_index := False]\<rparr>)))"

definition mutex_unlock ::
    "('m, 'z) lock_env_scheme \<Rightarrow> 'm perkey_rwlock \<Rightarrow> key \<Rightarrow> 'm perkey_rwlock exec" where
  "mutex_unlock env lk k =
     bindE (PerkeyRwlock_getRwlockIndex env lk k) (\<lambda>rwlock_index.
     bindE (nthE (rwlock_hashtable lk) (unat rwlock_index)) (\<lambda>m.
     Inr (lk\<lparr>rwlock_hashtable := (rwlock_hashtable lk)[unat rwlock_index := mtx_unlock env m]\<rparr>)))"

definition PerkeyRwlock_unlock ::
    "('m, 'z) lock_env_scheme \<Rightarrow> 'm perkey_rwlock \<Rightarrow> key \<Rightarrow> 'm perkey_rwlock exec" where
  "PerkeyRwlock_unlock env lk k =
     bindE (write_flag_clear env lk k) (\<lambda>lk. mutex_unlock env lk k)"

section \<open>Queries\<close>

definition PerkeyRwlock_isReadLocked ::
    "('m, 'z) lock_env_scheme \<Rightarrow> 'm perkey_rwlock \<Rightarrow> key \<Rightarrow> bool exec" where
  "PerkeyRwlock_isReadLocked env lk k =
     bindE (PerkeyRwlock_getRwlockIndex env lk k) (\<lambda>rwlock_index.
     bindE (nthE (read_lock_cnts lk) (unat rwlock_index)) (\<lambda>c. Inr (0 < c)))"

definition PerkeyRwlock_isWriteLocked ::
    "('m, 'z) lock_env_scheme \<Rightarrow> 'm perkey_rwlock \<Rightarrow> key \<Rightarrow> bool exec" where
  "PerkeyRwlock_isWriteLocked env lk k =
     bindE (PerkeyRwlock_getRwlockIndex env lk k) (\<lambda>rwlock_index.
     nthE (write_lock_flags lk) (unat rwlock_index))"

definition PerkeyRwlock_isReadOrWriteLocked ::
    "('m, 'z) lock_env_scheme \<Rightarrow> 'm perkey_rwlock \<Rightarrow> key \<Rightarrow> bool exec" where
  "PerkeyRwlock_isReadOrWriteLocked env lk k =
     bindE (PerkeyRwlock_getRwlockIndex env lk k) (\<lambda>rwlock_index.
     bindE (nthE (read_lock_cnts lk) (unat rwlock_index)) (\<lambda>c.
     bindE (nthE (write_lock_flags lk) (unat rwlock_index)) (\<lambda>f.
     Inr (0 < c \<or> f))))"

section \<open>The single lock\<close>

record 'm rwlock =
  rwlock_mutex :: 'm

definition Rwlock_try_lock_shared :: "('m, 'z) lock_env_scheme \<Rightarrow> 'm rwlock \<Rightarrow> 'm rwlock \<times> bool" where
  "Rwlock_try_lock_shared env r =
     (let (result, m) = mtx_try_lock_shared env (rwlock_mutex r) in (r\<lparr>rwlock_mutex := m\<rparr>, result))"

definition Rwlock_acquire_lock_shared :: "('m, 'z) lock_env_scheme \<Rightarrow> 'm rwlock \<Rightarrow> 'm rwlock exec" where
  "Rwlock_acquire_lock_shared env r =
     (let (r, result) = Rwlock_try_lock_shared env r in if result then Inr r else Inl Blocked)"

definition Rwlock_unlock_shared :: "('m, 'z) lock_env_scheme \<Rightarrow> 'm rwlock \<Rightarrow> 'm rwlock" where
  "Rwlock_unlock_shared env r = r\<lparr>rwlock_mutex := mtx_unlock_shared env (rwlock_mutex r)\<rparr>"

definition Rwlock_try_lock :: "('m, 'z) lock_env_scheme \<Rightarrow> 'm rwlock \<Rightarrow> 'm rwlock \<times> bool" where
  "Rwlock_try_lock env r =
     (let (result, m) = mtx_try_lock env (rwlock_mutex r) in (r\<lparr>rwlock_mutex := m\<rparr>, result))"

definition Rwlock_acquire_lock :: "('m, 'z) lock_env_scheme \<Rightarrow> 'm rwlock \<Rightarrow> 'm rwlock exec" where
  "Rwlock_acquire_lock env r =
     (let (r, result) = Rwlock_try_lock env r in if result then Inr r else Inl Blocked)"

definition Rwlock_unlock :: "('m, 'z) lock_env_scheme \<Rightarrow> 'm rwlock \<Rightarrow> 'm rwlock" where
  "Rwlock_unlock env r = r\<lparr>rwlock_mutex := mtx_unlock env (rwlock_mutex r)\<rparr>"

section \<open>The mutex of the boost library\<close>

text \<open>
  What the documentation of \<open>boost::shared_mutex\<close> says of its state, seen as a number of shared owners
  and whether there is an exclusive owner: shared ownership is granted only without an exclusive
  owner, exclusive ownership only without any owner, a failed attempt changes nothing and only
  happens when somebody owns the mutex, and a release takes back what was granted.
\<close>

definition shared_mutex_ok :: "('m, 'z) lock_env_scheme \<Rightarrow> ('m \<Rightarrow> nat) \<Rightarrow> ('m \<Rightarrow> bool) \<Rightarrow> bool" where
  "shared_mutex_ok env shared excl \<longleftrightarrow>
     shared (mtx_init env) = 0 \<and> \<not> excl (mtx_init env) \<and>
     (\<forall>m m'. mtx_try_lock_shared env m = (True, m') \<longrightarrow>
        \<not> excl m \<and> \<not> excl m' \<and> shared m' = Suc (shared m)) \<and>
     (\<forall>m m'. mtx_try_lock_shared env m = (False, m') \<longrightarrow>
        shared m' = shared m \<and> excl m' = excl m \<and> (excl m \<or> 0 < shared m)) \<and>
     (\<forall>m m'. mtx_try_lock env m = (True, m') \<longrightarrow>
        \<not> excl m \<and> shared m = 0 \<and> excl m' \<and> shared m' = 0) \<and>
     (\<forall>m m'. mtx_try_lock env m = (False, m') \<longrightarrow>
        shared m' = shared m \<and> excl m' = excl m \<and> (excl m \<or> 0 < shared m)) \<and>
     (\<forall>m. 0 < shared m \<longrightarrow> shared (mtx_unlock_shared env m) = shared m - 1
        \<and> excl (mtx_unlock_shared env m) = excl m) \<and>
     (\<forall>m. excl m \<longrightarrow> shared (mtx_unlock env m) = shared m \<and> \<not> excl (mtx_unlock env m))"

text \<open>A counter of shared owners and an exclusive flag have this behaviour.\<close>

definition counting_env :: "(key \<Rightarrow> u32) \<Rightarrow> (nat \<times> bool) lock_env" where
  "counting_env h = \<lparr>is_assert = True, hash_fn = h, mtx_init = (0, False),
     mtx_try_lock_shared = (\<lambda>(n, w). if w then (False, (n, w)) else (True, (Suc n, w))),
     mtx_unlock_shared = (\<lambda>(n, w). (n - 1, w)),
     mtx_try_lock = (\<lambda>(n, w). if w \<or> 0 < n then (False, (n, w)) else (True, (n, True))),
     mtx_unlock = (\<lambda>(n, w). (n, False))\<rparr>"

lemma counting_env_ok: "shared_mutex_ok (counting_env h) fst snd"
  by (auto simp: shared_mutex_ok_def counting_env_def split: if_splits)

section \<open>Well-formed locks\<close>

definition rwlock_wf :: "'m perkey_rwlock \<Rightarrow> bool" where
  "rwlock_wf lk \<longleftrightarrow>
     length (read_lock_cnts lk) = length (rwlock_hashtable lk) \<and>
     length (write_lock_flags lk) = length (rwlock_hashtable lk) \<and>
     fine_grained_locking_size lk \<noteq> 0 \<and>
     length (rwlock_hashtable lk) = (if enable_fine_grained_locking lk then unat (fine_grained_locking_size lk) else 1)"

definition lock_idx :: "('m, 'z) lock_env_scheme \<Rightarrow> 'm perkey_rwlock \<Rightarrow> key \<Rightarrow> nat" where
  "lock_idx env lk k =
     (if enable_fine_grained_locking lk then unat (hash_fn env k mod fine_grained_locking_size lk) else 0)"

lemma lock_idx_less: "rwlock_wf lk \<Longrightarrow> lock_idx env lk k < length (rwlock_hashtable lk)"
  by (auto simp: rwlock_wf_def lock_idx_def unat_mod unat_eq_0 unat_gt_0)

lemma lock_idx_less_size: "rwlock_wf lk \<Longrightarrow> lock_idx env lk k < unat (fine_grained_locking_size lk)"
  by (auto simp: rwlock_wf_def lock_idx_def unat_mod unat_eq_0 unat_gt_0)

lemma getRwlockIndex_eq:
  "rwlock_wf lk \<Longrightarrow> PerkeyRwlock_getRwlockIndex env lk k = Inr (word_of_nat (lock_idx env lk k))"
  by (simp add: rwlock_wf_def PerkeyRwlock_getRwlockIndex_def lock_idx_def)

lemma unat_lock_idx [simp]: "unat (word_of_nat (lock_idx env lk k) :: u32) = lock_idx env lk k"
  by (simp add: lock_idx_def)

lemma rwlock_wf_new: "sz \<noteq> 0 \<Longrightarrow> rwlock_wf (PerkeyRwlock_new env sz enable)"
  by (simp add: rwlock_wf_def PerkeyRwlock_new_def Let_def)

lemma rwlock_wf_update [simp]:
  "rwlock_wf (lk\<lparr>rwlock_hashtable := (rwlock_hashtable lk)[i := m]\<rparr>) = rwlock_wf lk"
  "rwlock_wf (lk\<lparr>read_lock_cnts := (read_lock_cnts lk)[i := c]\<rparr>) = rwlock_wf lk"
  "rwlock_wf (lk\<lparr>write_lock_flags := (write_lock_flags lk)[i := f]\<rparr>) = rwlock_wf lk"
  by (simp_all add: rwlock_wf_def)

lemma lock_idx_update [simp]:
  "lock_idx env (lk\<lparr>rwlock_hashtable := ms\<rparr>) = lock_idx env lk"
  "lock_idx env (lk\<lparr>read_lock_cnts := cs\<rparr>) = lock_idx env lk"
  "lock_idx env (lk\<lparr>write_lock_flags := fs\<rparr>) = lock_idx env lk"
  by (simp_all add: lock_idx_def fun_eq_iff)

text \<open>The atomic actions on a well-formed lock, as updates of the fields at the key's index.\<close>

lemma atomic_actions:
  assumes "rwlock_wf lk"
  shows "mutex_try_lock_shared env lk k =
      (let (result, m) = mtx_try_lock_shared env (rwlock_hashtable lk ! lock_idx env lk k)
       in Inr (lk\<lparr>rwlock_hashtable := (rwlock_hashtable lk)[lock_idx env lk k := m]\<rparr>, result))"
    and "mutex_try_lock env lk k =
      (let (result, m) = mtx_try_lock env (rwlock_hashtable lk ! lock_idx env lk k)
       in Inr (lk\<lparr>rwlock_hashtable := (rwlock_hashtable lk)[lock_idx env lk k := m]\<rparr>, result))"
    and "read_cnt_add env lk k d =
      Inr (lk\<lparr>read_lock_cnts := (read_lock_cnts lk)[lock_idx env lk k := read_lock_cnts lk ! lock_idx env lk k + d]\<rparr>)"
    and "mutex_unlock_shared env lk k = Inr (lk\<lparr>rwlock_hashtable := (rwlock_hashtable lk)
       [lock_idx env lk k := mtx_unlock_shared env (rwlock_hashtable lk ! lock_idx env lk k)]\<rparr>)"
    and "mutex_unlock env lk k = Inr (lk\<lparr>rwlock_hashtable := (rwlock_hashtable lk)
       [lock_idx env lk k := mtx_unlock env (rwlock_hashtable lk ! lock_idx env lk k)]\<rparr>)"
    and "write_flag_set env lk k = (if write_lock_flags lk ! lock_idx env lk k then Inl AssertFailed
       else Inr (lk\<lparr>write_lock_flags := (write_lock_flags lk)[lock_idx env lk k := True]\<rparr>))"
    and "write_flag_clear env lk k
       = Inr (lk\<lparr>write_lock_flags := (write_lock_flags lk)[lock_idx env lk k := False]\<rparr>)"
  using assms lock_idx_less [OF assms, of env k]
  by (simp_all add: mutex_try_lock_shared_def mutex_try_lock_def read_cnt_add_def mutex_unlock_shared_def
      mutex_unlock_def write_flag_set_def write_flag_clear_def getRwlockIndex_eq rwlock_wf_def Let_def)

lemma locked_queries:
  assumes "rwlock_wf lk"
  shows "PerkeyRwlock_isWriteLocked env lk k = Inr (write_lock_flags lk ! lock_idx env lk k)"
    and "PerkeyRwlock_isReadLocked env lk k = Inr (0 < read_lock_cnts lk ! lock_idx env lk k)"
    and "PerkeyRwlock_isReadOrWriteLocked env lk k
      = Inr (0 < read_lock_cnts lk ! lock_idx env lk k \<or> write_lock_flags lk ! lock_idx env lk k)"
  using assms lock_idx_less [OF assms, of env k]
  by (simp_all add: PerkeyRwlock_isWriteLocked_def PerkeyRwlock_isReadLocked_def
      PerkeyRwlock_isReadOrWriteLocked_def getRwlockIndex_eq rwlock_wf_def)

section \<open>Threads\<close>

text \<open>Where a thread is between its atomic actions: \<open>RCount\<close> after \<open>try_lock_shared\<close> on the mutex and before
  the count, \<open>RUnlock\<close> after the count and before the mutex is released, and so on for writers. \<open>rw_action\<close> is the
  next action of a thread that has got the mutex; a thread at \<open>Idle\<close> has none of its own, it chooses a key and attempts the
  mutex, the first two rules of \<open>rw_step\<close>, and goes on attempting while it fails.\<close>

datatype pc = Idle | RCount key | Reading key | RUnlock key | WFlag key | Writing key | WUnlock key

fun rw_action :: "('m, 'z) lock_env_scheme \<Rightarrow> pc \<Rightarrow> 'm perkey_rwlock \<Rightarrow> ('m perkey_rwlock \<times> pc) exec" where
  "rw_action env Idle lk = Inr (lk, Idle)"
| "rw_action env (RCount k) lk = bindE (read_cnt_add env lk k 1) (\<lambda>lk. Inr (lk, Reading k))"
| "rw_action env (Reading k) lk = bindE (read_cnt_add env lk k (- 1)) (\<lambda>lk. Inr (lk, RUnlock k))"
| "rw_action env (RUnlock k) lk = bindE (mutex_unlock_shared env lk k) (\<lambda>lk. Inr (lk, Idle))"
| "rw_action env (WFlag k) lk = bindE (write_flag_set env lk k) (\<lambda>lk. Inr (lk, Writing k))"
| "rw_action env (Writing k) lk = bindE (write_flag_clear env lk k) (\<lambda>lk. Inr (lk, WUnlock k))"
| "rw_action env (WUnlock k) lk = bindE (mutex_unlock env lk k) (\<lambda>lk. Inr (lk, Idle))"

inductive rw_step ::
    "('m, 'z) lock_env_scheme \<Rightarrow> 'm perkey_rwlock \<times> pc list \<Rightarrow> 'm perkey_rwlock \<times> pc list \<Rightarrow> bool"
  for env where
  try_read: "t < length pcs \<Longrightarrow> pcs ! t = Idle \<Longrightarrow> mutex_try_lock_shared env lk k = Inr (lk', ok) \<Longrightarrow>
     rw_step env (lk, pcs) (lk', pcs[t := if ok then RCount k else Idle])"
| try_write: "t < length pcs \<Longrightarrow> pcs ! t = Idle \<Longrightarrow> mutex_try_lock env lk k = Inr (lk', ok) \<Longrightarrow>
     rw_step env (lk, pcs) (lk', pcs[t := if ok then WFlag k else Idle])"
| advance: "t < length pcs \<Longrightarrow> pcs ! t \<noteq> Idle \<Longrightarrow> rw_action env (pcs ! t) lk = Inr (lk', p') \<Longrightarrow>
     rw_step env (lk, pcs) (lk', pcs[t := p'])"

inductive rw_reachable :: "('m, 'z) lock_env_scheme \<Rightarrow> 'm perkey_rwlock \<times> pc list \<Rightarrow> bool" for env where
  start: "sz \<noteq> 0 \<Longrightarrow> n < 2 ^ 32 \<Longrightarrow> rw_reachable env (PerkeyRwlock_new env sz enable, replicate n Idle)"
| step: "rw_reachable env s \<Longrightarrow> rw_step env s s' \<Longrightarrow> rw_reachable env s'"

text \<open>The check a table makes when a thread calls it inside its section.\<close>

fun section_check :: "('m, 'z) lock_env_scheme \<Rightarrow> 'm perkey_rwlock \<Rightarrow> pc \<Rightarrow> bool exec" where
  "section_check env lk (Reading k) = PerkeyRwlock_isReadOrWriteLocked env lk k"
| "section_check env lk (Writing k) = PerkeyRwlock_isWriteLocked env lk k"
| "section_check env lk _ = Inr True"

fun pc_key :: "pc \<Rightarrow> key option" where
  "pc_key Idle = None"
| "pc_key (RCount k) = Some k" | "pc_key (Reading k) = Some k" | "pc_key (RUnlock k) = Some k"
| "pc_key (WFlag k) = Some k" | "pc_key (Writing k) = Some k" | "pc_key (WUnlock k) = Some k"

definition at_idx :: "(key \<Rightarrow> nat) \<Rightarrow> nat \<Rightarrow> pc \<Rightarrow> bool" where
  "at_idx idx i p \<longleftrightarrow> (case pc_key p of None \<Rightarrow> False | Some k \<Rightarrow> idx k = i)"

fun is_sharing :: "pc \<Rightarrow> bool" where
  "is_sharing (RCount _) = True" | "is_sharing (Reading _) = True" | "is_sharing (RUnlock _) = True"
| "is_sharing _ = False"

fun is_owning :: "pc \<Rightarrow> bool" where
  "is_owning (WFlag _) = True" | "is_owning (Writing _) = True" | "is_owning (WUnlock _) = True"
| "is_owning _ = False"

fun is_reading :: "pc \<Rightarrow> bool" where
  "is_reading (Reading _) = True" | "is_reading _ = False"

fun is_writing :: "pc \<Rightarrow> bool" where
  "is_writing (Writing _) = True" | "is_writing _ = False"

text \<open>How many threads are at lock \<open>i\<close> in a given stage.\<close>

definition threads :: "(pc \<Rightarrow> bool) \<Rightarrow> (key \<Rightarrow> nat) \<Rightarrow> nat \<Rightarrow> pc list \<Rightarrow> nat" where
  "threads P idx i pcs = sum_list (map (\<lambda>p. if P p \<and> at_idx idx i p then 1 else 0) pcs)"

lemma threads_update:
  assumes "t < length pcs"
  shows "threads P idx i (pcs[t := p]) + (if P (pcs ! t) \<and> at_idx idx i (pcs ! t) then 1 else 0)
    = threads P idx i pcs + (if P p \<and> at_idx idx i p then 1 else 0)"
  using assms
proof (induction pcs arbitrary: t)
  case Nil
  then show ?case by simp
next
  case (Cons q pcs)
  then show ?case
    by (cases t) (force simp: threads_def)+
qed

lemma threads_le: "threads P idx i pcs \<le> length pcs"
  by (induction pcs) (auto simp: threads_def)

lemma threads_pos:
  assumes "t < length pcs" and "P (pcs ! t)" and "at_idx idx i (pcs ! t)"
  shows "0 < threads P idx i pcs"
  using threads_update [OF assms(1), of P idx i Idle] assms by (auto simp: at_idx_def)

lemma threads_two:
  assumes "t < length pcs" "u < length pcs" "t \<noteq> u"
    and "P (pcs ! t)" "at_idx idx i (pcs ! t)" "P (pcs ! u)" "at_idx idx i (pcs ! u)"
  shows "2 \<le> threads P idx i pcs"
proof -
  have "0 < threads P idx i (pcs[t := Idle])"
    using assms by (intro threads_pos [of u]) auto
  then show ?thesis
    using threads_update [OF assms(1), of P idx i Idle] assms by (auto simp: at_idx_def)
qed

section \<open>The invariant of the lock\<close>

definition bucket_inv ::
    "('m \<Rightarrow> nat) \<Rightarrow> ('m \<Rightarrow> bool) \<Rightarrow> (key \<Rightarrow> nat) \<Rightarrow> nat \<Rightarrow> 'm \<Rightarrow> u32 \<Rightarrow> bool \<Rightarrow> pc list \<Rightarrow> bool" where
  "bucket_inv shared excl idx i m c f pcs \<longleftrightarrow>
     shared m = threads is_sharing idx i pcs \<and>
     (if excl m then 1 else 0) = threads is_owning idx i pcs \<and>
     (excl m \<longrightarrow> shared m = 0) \<and>
     c = word_of_nat (threads is_reading idx i pcs) \<and>
     (if f then 1 else 0) = threads is_writing idx i pcs"

definition rw_inv ::
    "('m, 'z) lock_env_scheme \<Rightarrow> ('m \<Rightarrow> nat) \<Rightarrow> ('m \<Rightarrow> bool) \<Rightarrow> 'm perkey_rwlock \<times> pc list \<Rightarrow> bool" where
  "rw_inv env shared excl s \<longleftrightarrow> (case s of (lk, pcs) \<Rightarrow>
     rwlock_wf lk \<and> length pcs < 2 ^ 32 \<and>
     (\<forall>i < length (rwlock_hashtable lk). bucket_inv shared excl (lock_idx env lk) i
        (rwlock_hashtable lk ! i) (read_lock_cnts lk ! i) (write_lock_flags lk ! i) pcs))"

lemma threads_idle [simp]: "threads P idx i (replicate n Idle) = 0"
  by (induction n) (auto simp: threads_def at_idx_def)

lemma threads_other:
  "t < length pcs \<Longrightarrow> \<not> at_idx idx i (pcs ! t) \<Longrightarrow> \<not> at_idx idx i p \<Longrightarrow>
   threads P idx i (pcs[t := p]) = threads P idx i pcs"
  using threads_update [of t pcs P idx i p] by simp

lemma rw_inv_start:
  assumes "shared_mutex_ok env shared excl" and "sz \<noteq> 0" and "n < 2 ^ 32"
  shows "rw_inv env shared excl (PerkeyRwlock_new env sz enable, replicate n Idle)"
proof -
  have "shared (mtx_init env) = 0" "\<not> excl (mtx_init env)"
    using assms(1) by (simp_all add: shared_mutex_ok_def)
  then have "\<forall>i < length (rwlock_hashtable (PerkeyRwlock_new env sz enable)).
      bucket_inv shared excl idx i (rwlock_hashtable (PerkeyRwlock_new env sz enable) ! i)
        (read_lock_cnts (PerkeyRwlock_new env sz enable) ! i)
        (write_lock_flags (PerkeyRwlock_new env sz enable) ! i) (replicate n Idle)" for idx
    by (simp add: PerkeyRwlock_new_def Let_def bucket_inv_def)
  then show ?thesis
    using assms by (simp add: rw_inv_def rwlock_wf_new)
qed

text \<open>A step touches the fields at one index only; the threads at other indices do not notice.\<close>

lemma rw_inv_at:
  assumes inv: "rw_inv env shared excl (lk, pcs)" and t: "t < length pcs"
    and old: "pc_key (pcs ! t) \<in> {None, Some k}" and new: "pc_key p \<in> {None, Some k}"
    and lk': "lk' = lk\<lparr>rwlock_hashtable := (rwlock_hashtable lk)[lock_idx env lk k := m],
        read_lock_cnts := (read_lock_cnts lk)[lock_idx env lk k := c],
        write_lock_flags := (write_lock_flags lk)[lock_idx env lk k := f]\<rparr>"
    and bucket: "bucket_inv shared excl (lock_idx env lk) (lock_idx env lk k) m c f (pcs[t := p])"
  shows "rw_inv env shared excl (lk', pcs[t := p])"
proof -
  have wf: "rwlock_wf lk" and len: "length pcs < 2 ^ 32" and
    b: "\<And>i. i < length (rwlock_hashtable lk) \<Longrightarrow> bucket_inv shared excl (lock_idx env lk) i
        (rwlock_hashtable lk ! i) (read_lock_cnts lk ! i) (write_lock_flags lk ! i) pcs"
    using inv by (auto simp: rw_inv_def)
  have other: "bucket_inv shared excl (lock_idx env lk) i (rwlock_hashtable lk ! i)
      (read_lock_cnts lk ! i) (write_lock_flags lk ! i) (pcs[t := p])"
    if "i < length (rwlock_hashtable lk)" and "i \<noteq> lock_idx env lk k" for i
  proof -
    have "\<not> at_idx (lock_idx env lk) i (pcs ! t)" "\<not> at_idx (lock_idx env lk) i p"
      using that(2) old new by (auto simp: at_idx_def)
    then show ?thesis
      using b [OF that(1)] t by (auto simp: bucket_inv_def threads_other)
  qed
  have "lock_idx env lk' = lock_idx env lk"
    by (simp add: lk' lock_idx_def fun_eq_iff)
  moreover have "rwlock_wf lk'"
    using wf by (simp add: lk' rwlock_wf_def)
  moreover have "bucket_inv shared excl (lock_idx env lk) i (rwlock_hashtable lk' ! i)
      (read_lock_cnts lk' ! i) (write_lock_flags lk' ! i) (pcs[t := p])"
    if "i < length (rwlock_hashtable lk)" for i
    using that bucket other [OF that] wf
    by (cases "i = lock_idx env lk k") (auto simp: lk' rwlock_wf_def)
  ultimately show ?thesis
    using len by (simp add: rw_inv_def) (simp add: lk')
qed

lemma bucket_at:
  "rw_inv env shared excl (lk, pcs) \<Longrightarrow>
   bucket_inv shared excl (lock_idx env lk) (lock_idx env lk k) (rwlock_hashtable lk ! lock_idx env lk k)
     (read_lock_cnts lk ! lock_idx env lk k) (write_lock_flags lk ! lock_idx env lk k) pcs"
  using lock_idx_less by (auto simp: rw_inv_def)

lemmas rw_threads_update = threads_update [of _ _ is_sharing] threads_update [of _ _ is_owning]
  threads_update [of _ _ is_reading] threads_update [of _ _ is_writing]

lemma at_idx_simps [simp]:
  "at_idx idx i Idle = False" "at_idx idx i (RCount k) = (idx k = i)" "at_idx idx i (Reading k) = (idx k = i)"
  "at_idx idx i (RUnlock k) = (idx k = i)" "at_idx idx i (WFlag k) = (idx k = i)"
  "at_idx idx i (Writing k) = (idx k = i)" "at_idx idx i (WUnlock k) = (idx k = i)"
  by (simp_all add: at_idx_def)

lemma mutex_try_lock_sharedD:
  "shared_mutex_ok env shared excl \<Longrightarrow> mtx_try_lock_shared env m = (r, m') \<Longrightarrow>
   (if r then \<not> excl m \<and> \<not> excl m' \<and> shared m' = Suc (shared m)
    else shared m' = shared m \<and> excl m' = excl m \<and> (excl m \<or> 0 < shared m))"
  by (cases r) (simp_all add: shared_mutex_ok_def)

lemma mutex_try_lockD:
  "shared_mutex_ok env shared excl \<Longrightarrow> mtx_try_lock env m = (r, m') \<Longrightarrow>
   (if r then \<not> excl m \<and> shared m = 0 \<and> excl m' \<and> shared m' = 0
    else shared m' = shared m \<and> excl m' = excl m \<and> (excl m \<or> 0 < shared m))"
  by (cases r) (simp_all add: shared_mutex_ok_def)

lemma mutex_unlock_sharedD:
  "shared_mutex_ok env shared excl \<Longrightarrow> 0 < shared m \<Longrightarrow>
   shared (mtx_unlock_shared env m) = shared m - 1 \<and> excl (mtx_unlock_shared env m) = excl m"
  by (simp add: shared_mutex_ok_def)

lemma mutex_unlockD:
  "shared_mutex_ok env shared excl \<Longrightarrow> excl m \<Longrightarrow>
   shared (mtx_unlock env m) = shared m \<and> \<not> excl (mtx_unlock env m)"
  by (simp add: shared_mutex_ok_def)

text \<open>A thread between the mutex and the flag is not writing, so with one owner nobody is writing.\<close>

lemma writing_le_owning: "threads is_writing idx i pcs \<le> threads is_owning idx i pcs"
proof (induction pcs)
  case (Cons p pcs)
  then show ?case by (cases p) (auto simp: threads_def)
qed (simp add: threads_def)

lemma threads_owner:
  assumes "t < length pcs" and "pcs ! t = WFlag k" and "idx k = i"
  shows "Suc (threads is_writing idx i pcs) \<le> threads is_owning idx i pcs"
  using threads_update [OF assms(1), of is_writing idx i Idle] threads_update [OF assms(1), of is_owning idx i Idle]
    writing_le_owning [of idx i "pcs[t := Idle]"] assms
  by auto

text \<open>Every atomic action of a thread at its lock returns, the assertion in \<open>try_lock\<close> included, and
  keeps the invariant of that lock.\<close>

lemma rw_action_bucket:
  assumes ok: "shared_mutex_ok env shared excl" and inv: "rw_inv env shared excl (lk, pcs)"
    and t: "t < length pcs" and k: "pc_key (pcs ! t) = Some k" and j: "j = lock_idx env lk k"
  shows "\<exists>m c f p. rw_action env (pcs ! t) lk = Inr (lk\<lparr>rwlock_hashtable := (rwlock_hashtable lk)[j := m],
        read_lock_cnts := (read_lock_cnts lk)[j := c], write_lock_flags := (write_lock_flags lk)[j := f]\<rparr>, p)
      \<and> pc_key p \<in> {None, Some k} \<and> bucket_inv shared excl (lock_idx env lk) j m c f (pcs[t := p])"
    (is "\<exists>m c f p. ?P m c f p")
proof -
  let ?m = "rwlock_hashtable lk ! j" and ?c = "read_lock_cnts lk ! j" and ?f = "write_lock_flags lk ! j"
  have wf: "rwlock_wf lk" using inv by (simp add: rw_inv_def)
  note b = bucket_at [OF inv, of k, folded j]
  note up = rw_threads_update [OF t, of "lock_idx env lk" j]
  let ?at = "\<lambda>m c f. lk\<lparr>rwlock_hashtable := (rwlock_hashtable lk)[j := m],
      read_lock_cnts := (read_lock_cnts lk)[j := c], write_lock_flags := (write_lock_flags lk)[j := f]\<rparr>"
  have acts: "rw_action env (RCount k) lk = Inr (?at ?m (?c + 1) ?f, Reading k)"
    "rw_action env (Reading k) lk = Inr (?at ?m (?c + - 1) ?f, RUnlock k)"
    "rw_action env (RUnlock k) lk = Inr (?at (mtx_unlock_shared env ?m) ?c ?f, Idle)"
    "\<not> ?f \<Longrightarrow> rw_action env (WFlag k) lk = Inr (?at ?m ?c True, Writing k)"
    "rw_action env (Writing k) lk = Inr (?at ?m ?c False, WUnlock k)"
    "rw_action env (WUnlock k) lk = Inr (?at (mtx_unlock env ?m) ?c ?f, Idle)"
    by (simp_all add: atomic_actions [OF wf] j [symmetric])
  note simps = bucket_inv_def j [symmetric]
  have "?P ?m (?c + 1) ?f (Reading k)" if "pcs ! t = RCount k"
    using b up [of "Reading k"] that by (auto simp: simps acts(1) simp del: rw_action.simps)
  moreover have "?P ?m (?c + - 1) ?f (RUnlock k)" if "pcs ! t = Reading k"
  proof -
    have "threads is_reading (lock_idx env lk) j pcs = Suc (threads is_reading (lock_idx env lk) j (pcs[t := RUnlock k]))"
      using up(3) [of "RUnlock k"] that by (simp add: j)
    then show ?thesis
      using b up [of "RUnlock k"] that by (auto simp: simps acts(2) simp del: rw_action.simps)
  qed
  moreover have "?P (mtx_unlock_shared env ?m) ?c ?f Idle" if "pcs ! t = RUnlock k"
    using b up [of Idle] mutex_unlock_sharedD [OF ok, of ?m] that by (auto simp: simps acts(3) simp del: rw_action.simps)
  moreover have "?P ?m ?c True (Writing k)" if "pcs ! t = WFlag k"
    using b up [of "Writing k"] threads_owner [OF t that, of "lock_idx env lk" j] that
    by (auto simp: simps acts(4) simp del: rw_action.simps split: if_splits)
  moreover have "?P ?m ?c False (WUnlock k)" if "pcs ! t = Writing k"
    using b up [of "WUnlock k"] that by (auto simp: simps acts(5) simp del: rw_action.simps split: if_splits)
  moreover have "?P (mtx_unlock env ?m) ?c ?f Idle" if "pcs ! t = WUnlock k"
    using b up [of Idle] mutex_unlockD [OF ok, of ?m] that by (auto simp: simps acts(6) simp del: rw_action.simps split: if_splits)
  moreover have "pcs ! t \<in> {RCount k, Reading k, RUnlock k, WFlag k, Writing k, WUnlock k}"
    using k by (cases "pcs ! t") auto
  ultimately show ?thesis
    by (elim insertE emptyE) blast+
qed

lemma rw_action_ok:
  assumes "shared_mutex_ok env shared excl" and "rw_inv env shared excl (lk, pcs)" and t: "t < length pcs"
  shows "\<exists>lk' p'. rw_action env (pcs ! t) lk = Inr (lk', p') \<and> rw_inv env shared excl (lk', pcs[t := p'])"
proof (cases "pc_key (pcs ! t)")
  case None
  then have "pcs ! t = Idle" by (cases "pcs ! t") auto
  moreover from this have "pcs[t := Idle] = pcs" using list_update_id [of pcs t] by simp
  ultimately show ?thesis
    using assms(2) by simp
next
  case (Some k)
  with rw_action_bucket [OF assms Some refl] show ?thesis
    using rw_inv_at [OF assms(2) t, where k = k] by blast
qed

lemma rw_try_bucket:
  assumes ok: "shared_mutex_ok env shared excl" and inv: "rw_inv env shared excl (lk, pcs)"
    and t: "t < length pcs" and idle: "pcs ! t = Idle" and j: "j = lock_idx env lk k"
  shows "mtx_try_lock_shared env (rwlock_hashtable lk ! j) = (r, m) \<Longrightarrow>
      bucket_inv shared excl (lock_idx env lk) j m (read_lock_cnts lk ! j) (write_lock_flags lk ! j)
        (pcs[t := if r then RCount k else Idle])"
    and "mtx_try_lock env (rwlock_hashtable lk ! j) = (r, m) \<Longrightarrow>
      bucket_inv shared excl (lock_idx env lk) j m (read_lock_cnts lk ! j) (write_lock_flags lk ! j)
        (pcs[t := if r then WFlag k else Idle])"
proof -
  note b = bucket_at [OF inv, of k, folded j]
  note up = rw_threads_update [OF t, of "lock_idx env lk" j]
  show "bucket_inv shared excl (lock_idx env lk) j m (read_lock_cnts lk ! j) (write_lock_flags lk ! j)
      (pcs[t := if r then RCount k else Idle])" if "mtx_try_lock_shared env (rwlock_hashtable lk ! j) = (r, m)"
    using b up [of "if r then RCount k else Idle"] mutex_try_lock_sharedD [OF ok that] idle
    by (cases r) (auto simp: bucket_inv_def j [symmetric] split: if_splits)
  show "bucket_inv shared excl (lock_idx env lk) j m (read_lock_cnts lk ! j) (write_lock_flags lk ! j)
      (pcs[t := if r then WFlag k else Idle])" if "mtx_try_lock env (rwlock_hashtable lk ! j) = (r, m)"
    using b up [of "if r then WFlag k else Idle"] mutex_try_lockD [OF ok that] idle
    by (cases r) (auto simp: bucket_inv_def j [symmetric] split: if_splits)
qed

lemma rw_step_inv:
  assumes ok: "shared_mutex_ok env shared excl" and "rw_step env s s'" and "rw_inv env shared excl s"
  shows "rw_inv env shared excl s'"
  using assms(2,3)
proof (cases rule: rw_step.cases)
  case (try_read t pcs lk k lk' r)
  with assms(3) have inv: "rw_inv env shared excl (lk, pcs)" and wf: "rwlock_wf lk"
    by (simp_all add: rw_inv_def)
  from try_read(5) obtain m where "mtx_try_lock_shared env (rwlock_hashtable lk ! lock_idx env lk k) = (r, m)"
    and "lk' = lk\<lparr>rwlock_hashtable := (rwlock_hashtable lk)[lock_idx env lk k := m]\<rparr>"
    by (auto simp: atomic_actions [OF wf] split: prod.splits)
  with rw_try_bucket(1) [OF ok inv try_read(3,4) refl] show ?thesis
    unfolding try_read(2) by (intro rw_inv_at [OF inv try_read(3), where k = k and m = m
          and c = "read_lock_cnts lk ! lock_idx env lk k" and f = "write_lock_flags lk ! lock_idx env lk k"])
      (auto simp: try_read(4))
next
  case (try_write t pcs lk k lk' r)
  with assms(3) have inv: "rw_inv env shared excl (lk, pcs)" and wf: "rwlock_wf lk"
    by (simp_all add: rw_inv_def)
  from try_write(5) obtain m where "mtx_try_lock env (rwlock_hashtable lk ! lock_idx env lk k) = (r, m)"
    and "lk' = lk\<lparr>rwlock_hashtable := (rwlock_hashtable lk)[lock_idx env lk k := m]\<rparr>"
    by (auto simp: atomic_actions [OF wf] split: prod.splits)
  with rw_try_bucket(2) [OF ok inv try_write(3,4) refl] show ?thesis
    unfolding try_write(2) by (intro rw_inv_at [OF inv try_write(3), where k = k and m = m
          and c = "read_lock_cnts lk ! lock_idx env lk k" and f = "write_lock_flags lk ! lock_idx env lk k"])
      (auto simp: try_write(4))
next
  case (advance t pcs lk lk' p')
  with assms(3) rw_action_ok [OF ok, of lk pcs t] show ?thesis by auto
qed

lemma rw_reachable_inv:
  assumes "shared_mutex_ok env shared excl" and "rw_reachable env s"
  shows "rw_inv env shared excl s"
  using assms(2) by induction (auto intro: rw_inv_start rw_step_inv assms(1))

lemma reading_le_sharing: "threads is_reading idx i pcs \<le> threads is_sharing idx i pcs"
proof (induction pcs)
  case (Cons p pcs)
  then show ?case by (cases p) (auto simp: threads_def)
qed (simp add: threads_def)

section \<open>Sections under a lock, one thread at a time\<close>

definition rwlock_free ::
    "('m, 'z) lock_env_scheme \<Rightarrow> ('m \<Rightarrow> nat) \<Rightarrow> ('m \<Rightarrow> bool) \<Rightarrow> 'm perkey_rwlock \<Rightarrow> bool" where
  "rwlock_free env shared excl lk \<longleftrightarrow> rw_inv env shared excl (lk, [])"

lemma rwlock_free_iff:
  "rwlock_free env shared excl lk \<longleftrightarrow> rwlock_wf lk \<and> (\<forall>i < length (rwlock_hashtable lk).
     shared (rwlock_hashtable lk ! i) = 0 \<and> \<not> excl (rwlock_hashtable lk ! i)
     \<and> read_lock_cnts lk ! i = 0 \<and> \<not> write_lock_flags lk ! i)"
  by (auto simp: rwlock_free_def rw_inv_def bucket_inv_def threads_def)

definition same_lock :: "'m perkey_rwlock \<Rightarrow> 'm perkey_rwlock \<Rightarrow> bool" where
  "same_lock lk lk' \<longleftrightarrow> fine_grained_locking_size lk' = fine_grained_locking_size lk
     \<and> enable_fine_grained_locking lk' = enable_fine_grained_locking lk"

lemma same_lock_idx: "same_lock lk lk' \<Longrightarrow> lock_idx env lk' = lock_idx env lk"
  by (simp add: same_lock_def lock_idx_def fun_eq_iff)

lemma rwlock_free_update:
  assumes "rwlock_free env shared excl lk" and "shared m = 0" and "\<not> excl m"
  shows "rwlock_free env shared excl (lk\<lparr>rwlock_hashtable := (rwlock_hashtable lk)[i := m],
     read_lock_cnts := (read_lock_cnts lk)[i := 0], write_lock_flags := (write_lock_flags lk)[i := False]\<rparr>)"
  using assms by (auto simp: rwlock_free_iff rwlock_wf_def nth_list_update_at)

text \<open>With no lock held, a writer gets the lock, its tables see it, and its release frees the lock.\<close>

lemma write_section:
  assumes ok: "shared_mutex_ok env shared excl" and free: "rwlock_free env shared excl lk"
  obtains lk1 lk2 where "PerkeyRwlock_acquire_lock env lk k = Inr lk1"
    and "rwlock_wf lk1" and "same_lock lk lk1"
    and "PerkeyRwlock_isWriteLocked env lk1 k = Inr True"
    and "PerkeyRwlock_isReadOrWriteLocked env lk1 k = Inr True"
    and "PerkeyRwlock_unlock env lk1 k = Inr lk2"
    and "rwlock_free env shared excl lk2" and "same_lock lk lk2"
proof -
  define j where "j = lock_idx env lk k"
  have wf: "rwlock_wf lk" using free by (simp add: rwlock_free_iff)
  have j: "j < length (rwlock_hashtable lk)" by (simp add: j_def lock_idx_less [OF wf])
  have len: "length (write_lock_flags lk) = length (rwlock_hashtable lk)"
    using wf by (simp add: rwlock_wf_def)
  have held: "shared (rwlock_hashtable lk ! j) = 0" "\<not> excl (rwlock_hashtable lk ! j)"
    "read_lock_cnts lk ! j = 0" "\<not> write_lock_flags lk ! j"
    using free j by (simp_all add: rwlock_free_iff)
  obtain r m where m: "mtx_try_lock env (rwlock_hashtable lk ! j) = (r, m)" by fastforce
  have r: "r" "excl m" "shared m = 0"
    using mutex_try_lockD [OF ok m] held by (auto split: if_splits)
  define lk1 where "lk1 = lk\<lparr>rwlock_hashtable := (rwlock_hashtable lk)[j := m],
      write_lock_flags := (write_lock_flags lk)[j := True]\<rparr>"
  have wf1: "rwlock_wf lk1" using wf by (simp add: lk1_def rwlock_wf_def)
  have s1: "same_lock lk lk1" by (simp add: lk1_def same_lock_def)
  have acq: "PerkeyRwlock_acquire_lock env lk k = Inr lk1"
    using wf m r held by (simp add: PerkeyRwlock_acquire_lock_def PerkeyRwlock_try_lock_def atomic_actions
        j_def [symmetric] lk1_def)
  have q: "PerkeyRwlock_isWriteLocked env lk1 k = Inr True" "PerkeyRwlock_isReadOrWriteLocked env lk1 k = Inr True"
    using j len by (simp_all add: locked_queries [OF wf1] same_lock_idx [OF s1] j_def [symmetric])
      (simp_all add: lk1_def)
  define lk2 where "lk2 = lk\<lparr>rwlock_hashtable := (rwlock_hashtable lk)[j := mtx_unlock env m],
     read_lock_cnts := (read_lock_cnts lk)[j := 0], write_lock_flags := (write_lock_flags lk)[j := False]\<rparr>"
  have cnt: "(read_lock_cnts lk)[j := 0] = read_lock_cnts lk"
    using held(3) list_update_id [of "read_lock_cnts lk" j] by simp
  have "PerkeyRwlock_unlock env lk1 k = Inr lk2"
    using wf1 j by (simp add: PerkeyRwlock_unlock_def atomic_actions same_lock_idx [OF s1] j_def [symmetric])
      (simp add: lk1_def lk2_def cnt)
  moreover have "rwlock_free env shared excl lk2"
    using mutex_unlockD [OF ok r(2)] r(3) unfolding lk2_def by (intro rwlock_free_update [OF free]) auto
  moreover have "same_lock lk lk2" by (simp add: lk2_def same_lock_def)
  ultimately show ?thesis using that acq wf1 s1 q by blast
qed

lemma read_section:
  assumes ok: "shared_mutex_ok env shared excl" and free: "rwlock_free env shared excl lk"
  obtains lk1 lk2 where "PerkeyRwlock_acquire_lock_shared env lk k = Inr lk1"
    and "rwlock_wf lk1" and "same_lock lk lk1"
    and "PerkeyRwlock_isReadOrWriteLocked env lk1 k = Inr True"
    and "PerkeyRwlock_unlock_shared env lk1 k = Inr lk2"
    and "rwlock_free env shared excl lk2" and "same_lock lk lk2"
proof -
  define j where "j = lock_idx env lk k"
  have wf: "rwlock_wf lk" using free by (simp add: rwlock_free_iff)
  have j: "j < length (rwlock_hashtable lk)" by (simp add: j_def lock_idx_less [OF wf])
  have len: "length (read_lock_cnts lk) = length (rwlock_hashtable lk)"
    using wf by (simp add: rwlock_wf_def)
  have held: "shared (rwlock_hashtable lk ! j) = 0" "\<not> excl (rwlock_hashtable lk ! j)"
    "read_lock_cnts lk ! j = 0" "\<not> write_lock_flags lk ! j"
    using free j by (simp_all add: rwlock_free_iff)
  obtain r m where m: "mtx_try_lock_shared env (rwlock_hashtable lk ! j) = (r, m)" by fastforce
  have r: "r" "\<not> excl m" "shared m = 1"
    using mutex_try_lock_sharedD [OF ok m] held by (auto split: if_splits)
  define lk1 where "lk1 = lk\<lparr>rwlock_hashtable := (rwlock_hashtable lk)[j := m],
      read_lock_cnts := (read_lock_cnts lk)[j := 1]\<rparr>"
  have wf1: "rwlock_wf lk1" using wf by (simp add: lk1_def rwlock_wf_def)
  have s1: "same_lock lk lk1" by (simp add: lk1_def same_lock_def)
  have acq: "PerkeyRwlock_acquire_lock_shared env lk k = Inr lk1"
    using wf m r held by (simp add: PerkeyRwlock_acquire_lock_shared_def PerkeyRwlock_try_lock_shared_def
        atomic_actions j_def [symmetric] lk1_def)
  have q: "PerkeyRwlock_isReadOrWriteLocked env lk1 k = Inr True"
    using j len by (simp add: locked_queries [OF wf1] same_lock_idx [OF s1] j_def [symmetric])
      (simp add: lk1_def)
  define lk2 where "lk2 = lk\<lparr>rwlock_hashtable := (rwlock_hashtable lk)[j := mtx_unlock_shared env m],
     read_lock_cnts := (read_lock_cnts lk)[j := 0], write_lock_flags := (write_lock_flags lk)[j := False]\<rparr>"
  have flag: "(write_lock_flags lk)[j := False] = write_lock_flags lk"
    using held(4) list_update_id [of "write_lock_flags lk" j] by simp
  have "PerkeyRwlock_unlock_shared env lk1 k = Inr lk2"
    using wf1 j len by (simp add: PerkeyRwlock_unlock_shared_def atomic_actions same_lock_idx [OF s1] j_def [symmetric])
      (simp add: lk1_def lk2_def flag)
  moreover have "rwlock_free env shared excl lk2"
    using mutex_unlock_sharedD [OF ok, of m] r unfolding lk2_def by (intro rwlock_free_update [OF free]) auto
  moreover have "same_lock lk lk2" by (simp add: lk2_def same_lock_def)
  ultimately show ?thesis using that acq wf1 s1 q by blast
qed

lemma rwlock_free_new:
  "shared_mutex_ok env shared excl \<Longrightarrow> sz \<noteq> 0 \<Longrightarrow> rwlock_free env shared excl (PerkeyRwlock_new env sz enable)"
  using rw_inv_start [of env shared excl sz 0 enable] by (simp add: rwlock_free_def)

section \<open>Properties\<close>

text \<open>C6: Mutual exclusion of the per-key lock. In every state that any interleaving of the atomic
  actions of any number of threads reaches, while one thread is in a write section no other thread
  is in a read or write section of a key with the same lock, and the writer's own check
  \<open>isWriteLocked\<close> succeeds.\<close>

theorem rwlock_mutual_exclusion:
  assumes "shared_mutex_ok env shared excl" and "rw_reachable env (lk, pcs)"
    and "t < length pcs" and "u < length pcs" and "t \<noteq> u"
    and "pcs ! t = Writing k" and "lock_idx env lk k' = lock_idx env lk k"
  shows "pcs ! u \<noteq> Reading k' \<and> pcs ! u \<noteq> Writing k' \<and> PerkeyRwlock_isWriteLocked env lk k = Inr True"
proof (intro conjI notI)
  let ?i = "lock_idx env lk k"
  have inv: "rw_inv env shared excl (lk, pcs)"
    by (rule rw_reachable_inv [OF assms(1,2)])
  note b = bucket_at [OF inv, of k, unfolded bucket_inv_def]
  have own: "0 < threads is_owning (lock_idx env lk) ?i pcs"
    and wr: "0 < threads is_writing (lock_idx env lk) ?i pcs"
    using assms by (auto intro!: threads_pos [of t])
  show False if "pcs ! u = Reading k'"
  proof -
    have "0 < threads is_sharing (lock_idx env lk) ?i pcs"
      using assms that by (intro threads_pos [of u]) auto
    then show False using b own by (auto split: if_splits)
  qed
  show False if "pcs ! u = Writing k'"
  proof -
    have "2 \<le> threads is_owning (lock_idx env lk) ?i pcs"
      using assms that by (intro threads_two [of t _ u]) auto
    then show False using b by (auto split: if_splits)
  qed
  have "rwlock_wf lk" using inv by (simp add: rw_inv_def)
  then show "PerkeyRwlock_isWriteLocked env lk k = Inr True"
    using b wr by (auto simp: locked_queries split: if_splits)
qed

text \<open>A run of two threads on one lock: the first one takes the write lock.\<close>

lemma rw_example_run:
  "rw_reachable (counting_env (\<lambda>_. 0))
     (\<lparr>fine_grained_locking_size = 1, enable_fine_grained_locking = True,
       rwlock_hashtable = [(0, True)], read_lock_cnts = [0], write_lock_flags = [True]\<rparr>,
      [Writing (Key [1]), Idle])"
proof -
  let ?env = "counting_env (\<lambda>_. 0)"
  have "rw_reachable ?env (PerkeyRwlock_new ?env 1 True, replicate 2 Idle)"
    by (rule rw_reachable.start) simp_all
  then have 1: "rw_reachable ?env (\<lparr>fine_grained_locking_size = 1, enable_fine_grained_locking = True,
      rwlock_hashtable = [(0, False)], read_lock_cnts = [0], write_lock_flags = [False]\<rparr>, [Idle, Idle])"
    by (simp add: PerkeyRwlock_new_def counting_env_def numeral_2_eq_2)
  have "rw_step ?env (\<lparr>fine_grained_locking_size = 1, enable_fine_grained_locking = True,
      rwlock_hashtable = [(0, False)], read_lock_cnts = [0], write_lock_flags = [False]\<rparr>, [Idle, Idle])
    (\<lparr>fine_grained_locking_size = 1, enable_fine_grained_locking = True,
      rwlock_hashtable = [(0, True)], read_lock_cnts = [0], write_lock_flags = [False]\<rparr>,
      [Idle, Idle][0 := if True then WFlag (Key [1]) else Idle])"
    by (rule rw_step.try_write) (simp_all add: mutex_try_lock_def PerkeyRwlock_getRwlockIndex_def counting_env_def)
  then have 2: "rw_reachable ?env (\<lparr>fine_grained_locking_size = 1, enable_fine_grained_locking = True,
      rwlock_hashtable = [(0, True)], read_lock_cnts = [0], write_lock_flags = [False]\<rparr>, [WFlag (Key [1]), Idle])"
    using rw_reachable.step [OF 1] by simp
  have "rw_step ?env (\<lparr>fine_grained_locking_size = 1, enable_fine_grained_locking = True,
      rwlock_hashtable = [(0, True)], read_lock_cnts = [0], write_lock_flags = [False]\<rparr>, [WFlag (Key [1]), Idle])
    (\<lparr>fine_grained_locking_size = 1, enable_fine_grained_locking = True,
      rwlock_hashtable = [(0, True)], read_lock_cnts = [0], write_lock_flags = [True]\<rparr>,
      [WFlag (Key [1]), Idle][0 := Writing (Key [1])])"
    by (rule rw_step.advance) (simp_all add: write_flag_set_def PerkeyRwlock_getRwlockIndex_def counting_env_def)
  then show ?thesis
    using rw_reachable.step [OF 2] by simp
qed

theorem rwlock_mutual_exclusion_witness:
  "[Writing (Key [1]), Idle] ! 1 \<noteq> Reading (Key [2]) \<and> [Writing (Key [1]), Idle] ! 1 \<noteq> Writing (Key [2])
   \<and> PerkeyRwlock_isWriteLocked (counting_env (\<lambda>_. 0))
       \<lparr>fine_grained_locking_size = 1, enable_fine_grained_locking = True,
         rwlock_hashtable = [(0, True)], read_lock_cnts = [0], write_lock_flags = [True]\<rparr> (Key [1]) = Inr True"
  by (rule rwlock_mutual_exclusion [OF counting_env_ok rw_example_run, where t = 0])
    (simp_all add: lock_idx_def counting_env_def)

text \<open>C7: No thread ever stops inside the lock. In every reachable state the next atomic action of
  every thread returns: the assertion in \<open>try_lock\<close> that the writer flag was clear cannot fail, and no
  index is out of range; and an attempt to take the mutex of any key for reading or for writing returns too, with the
  lock or without it. The check of the tables a thread calls inside its section, \<open>isReadOrWriteLocked\<close>
  for readers and \<open>isWriteLocked\<close> for writers, succeeds.\<close>

theorem rwlock_never_aborts:
  assumes "shared_mutex_ok env shared excl" and "rw_reachable env (lk, pcs)" and "t < length pcs"
  shows "returns (rw_action env (pcs ! t) lk) \<and> section_check env lk (pcs ! t) = Inr True
    \<and> (\<forall>k. returns (mutex_try_lock_shared env lk k) \<and> returns (mutex_try_lock env lk k))"
proof (intro conjI allI)
  have inv: "rw_inv env shared excl (lk, pcs)"
    by (rule rw_reachable_inv [OF assms(1,2)])
  from rw_action_ok [OF assms(1) inv assms(3)] show "returns (rw_action env (pcs ! t) lk)"
    by auto
  have wf: "rwlock_wf lk" and len: "length pcs < 2 ^ 32"
    using inv by (simp_all add: rw_inv_def)
  show "returns (mutex_try_lock_shared env lk k)" and "returns (mutex_try_lock env lk k)" for k
    by (simp_all add: atomic_actions [OF wf] split: prod.splits)
  show "section_check env lk (pcs ! t) = Inr True"
  proof (cases "pcs ! t")
    case (Reading k)
    then have "0 < threads is_reading (lock_idx env lk) (lock_idx env lk k) pcs"
      using assms(3) by (intro threads_pos [of t]) auto
    moreover have "threads is_reading (lock_idx env lk) (lock_idx env lk k) pcs < 2 ^ 32"
      using threads_le len by (rule le_less_trans)
    ultimately have "0 < (word_of_nat (threads is_reading (lock_idx env lk) (lock_idx env lk k) pcs) :: u32)"
      by (simp add: word_less_nat_alt unat_of_nat_small)
    then show ?thesis
      using bucket_at [OF inv, of k] Reading by (simp add: locked_queries [OF wf] bucket_inv_def)
  next
    case (Writing k)
    then have "0 < threads is_writing (lock_idx env lk) (lock_idx env lk k) pcs"
      using assms(3) by (intro threads_pos [of t]) auto
    then show ?thesis
      using bucket_at [OF inv, of k] Writing
      by (auto simp: locked_queries [OF wf] bucket_inv_def split: if_splits)
  qed simp_all
qed

theorem rwlock_never_aborts_witness:
  "returns (rw_action (counting_env (\<lambda>_. 0)) ([Writing (Key [1]), Idle] ! 0)
      \<lparr>fine_grained_locking_size = 1, enable_fine_grained_locking = True,
         rwlock_hashtable = [(0, True)], read_lock_cnts = [0], write_lock_flags = [True]\<rparr>)
   \<and> section_check (counting_env (\<lambda>_. 0))
       \<lparr>fine_grained_locking_size = 1, enable_fine_grained_locking = True,
         rwlock_hashtable = [(0, True)], read_lock_cnts = [0], write_lock_flags = [True]\<rparr>
       ([Writing (Key [1]), Idle] ! 0) = Inr True
   \<and> (\<forall>k. returns (mutex_try_lock_shared (counting_env (\<lambda>_. 0)) \<lparr>fine_grained_locking_size = 1, enable_fine_grained_locking = True,
         rwlock_hashtable = [(0, True)], read_lock_cnts = [0], write_lock_flags = [True]\<rparr> k)
       \<and> returns (mutex_try_lock (counting_env (\<lambda>_. 0)) \<lparr>fine_grained_locking_size = 1, enable_fine_grained_locking = True,
         rwlock_hashtable = [(0, True)], read_lock_cnts = [0], write_lock_flags = [True]\<rparr> k))"
  by (rule rwlock_never_aborts [OF counting_env_ok rw_example_run]) simp

end
