(* ===== verification/Util_Arithmetic.thy ===== *)
theory Util_Arithmetic
  imports Daco_Prelude
begin

text \<open>
  The checked 64-bit arithmetic of \<open>Util\<close> (\<open>src/src/common/util.c\<close>), used for every size counter:
  additions stop the process on overflow, subtractions stop at 0 with a warning. The atomic variants
  are a \<open>fetch_add\<close> or \<open>fetch_sub\<close> followed by the same test on the value fetched; here they map the old
  counter to the new one.
\<close>

definition Util_uint64Add :: "u64 \<Rightarrow> u64 \<Rightarrow> u64 exec" where
  "Util_uint64Add a b = (let results = a + b in exit_ifE (results < a \<or> results < b) (Inr results))"

definition Util_uint64Minus :: "u64 \<Rightarrow> u64 \<Rightarrow> u64" where
  "Util_uint64Minus a b = (let results = a - b in if a < results then 0 else results)"

definition Util_uint64AddForAtomic :: "u64 \<Rightarrow> u64 \<Rightarrow> u64 exec" where
  "Util_uint64AddForAtomic a b =
     (let original_a = a; a = a + b; results = original_a + b
      in exit_ifE (results < original_a \<or> results < b) (Inr a))"

definition Util_uint64MinusForAtomic :: "u64 \<Rightarrow> u64 \<Rightarrow> u64" where
  "Util_uint64MinusForAtomic a b =
     (let original_a = a; a = a - b; results = original_a - b
      in if original_a < results then 0 else a)"

lemma word_add_overflow_iff: "x + y < x \<or> x + y < y \<longleftrightarrow> 2 ^ LENGTH('a) \<le> unat x + unat y"
  for x y :: "'a::len word"
proof (cases "unat x + unat y < 2 ^ LENGTH('a)")
  case True
  then show ?thesis
    by (simp add: word_less_nat_alt unat_add_no_wrap)
next
  case False
  have "unat x < 2 ^ LENGTH('a)" "unat y < 2 ^ LENGTH('a)"
    by (rule unsigned_less)+
  then have "unat x + unat y - 2 ^ LENGTH('a) < 2 ^ LENGTH('a)"
    by linarith
  with False have "unat (x + y) = unat x + unat y - 2 ^ LENGTH('a)"
    by (simp add: unat_word_ariths le_mod_geq)
  with False \<open>unat y < 2 ^ LENGTH('a)\<close> have "unat (x + y) < unat x"
    by linarith
  with False show ?thesis
    by (simp add: word_less_nat_alt)
qed

lemma inc_no_wrap: "n \<noteq> - 1 \<Longrightarrow> \<not> (n + 1 < n \<or> n + 1 < 1)" for n :: u64
proof -
  assume "n \<noteq> - 1"
  then have "unat n \<noteq> unat (- 1 :: u64)" by (metis word_unat_eq_iff)
  moreover have "unat (- 1 :: u64) = 2 ^ 64 - 1" by (simp add: unsigned_minus_1_eq_mask mask_eq_exp_minus_1)
  ultimately show ?thesis
    using unsigned_less [of n, where 'a = nat] by (subst word_add_overflow_iff) simp
qed

lemma uint64Add_one: "n \<noteq> - 1 \<Longrightarrow> Util_uint64Add n 1 = Inr (n + 1)"
  using inc_no_wrap [of n] by (simp add: Util_uint64Add_def Let_def)

lemma word_minus_wraps_iff: "x < x - y \<longleftrightarrow> x < y"
  for x y :: "'a::len word"
proof (cases "y \<le> x")
  case True
  then have "unat (x - y) = unat x - unat y"
    by (simp add: unat_sub)
  with True show ?thesis
    by (auto simp: word_less_nat_alt word_le_nat_alt)
next
  case False
  then have "unat x < unat y"
    by (simp add: word_le_nat_alt not_le)
  moreover have "unat y < 2 ^ LENGTH('a)"
    by (rule unsigned_less)
  ultimately have "unat (x - y) = unat x + 2 ^ LENGTH('a) - unat y"
    by (simp add: unat_sub_if')
  with \<open>unat y < 2 ^ LENGTH('a)\<close> \<open>unat x < unat y\<close> have "unat x < unat (x - y)"
    by linarith
  with \<open>unat x < unat y\<close> show ?thesis
    by (simp add: word_less_nat_alt)
qed

lemma uint64Add_spec:
  "Util_uint64Add a b = (if unat a + unat b < 2 ^ 64 then Inr (a + b) else Inl Exited)"
  using word_add_overflow_iff [of a b] by (auto simp: Util_uint64Add_def Let_def exit_ifE_def)

lemma uint64AddForAtomic_spec:
  "Util_uint64AddForAtomic a b = (if unat a + unat b < 2 ^ 64 then Inr (a + b) else Inl Exited)"
  using word_add_overflow_iff [of a b] by (auto simp: Util_uint64AddForAtomic_def Let_def exit_ifE_def)

lemma unat_uint64Minus: "unat (Util_uint64Minus a b) = unat a - unat b"
  using word_minus_wraps_iff [of a b]
  by (auto simp: Util_uint64Minus_def Let_def word_less_nat_alt unat_sub word_le_nat_alt not_less)

lemma unat_uint64MinusForAtomic: "unat (Util_uint64MinusForAtomic a b) = unat a - unat b"
  using word_minus_wraps_iff [of a b]
  by (auto simp: Util_uint64MinusForAtomic_def Let_def word_less_nat_alt unat_sub word_le_nat_alt not_less)

lemma unat_ucast_u64: "unat (ucast x :: u64) = unat x" for x :: u32
proof -
  have "unat x < 2 ^ 32" using unsigned_less [of x, where 'a = nat] by simp
  then have "unat x < 2 ^ 64" by simp
  then show ?thesis by (simp add: unsigned_ucast_eq take_bit_nat_eq_self)
qed

lemma word_of_unat_u64: "word_of_nat (unat x) = (ucast x :: u64)" for x :: u32
  using unat_ucast_u64 [of x] by (metis of_nat_unat ucast_id)

end
