(* ===== verification/Concurrent_Hashtable.thy ===== *)
theory Concurrent_Hashtable
  imports Perkey_Rwlock Util_Arithmetic
begin

text \<open>
  \<open>ConcurrentHashtable<V>\<close> (\<open>src/src/concurrency/concurrent_hashtable_impl.h\<close>): one hash map per lock of
  a \<open>PerkeyRwlock\<close>, with running totals of the key and value sizes. The table only reads the lock, which
  is therefore an argument; the methods the template calls on its value type (\<open>call\<close>, \<open>constCall\<close>,
  \<open>getSizeForCapacity\<close>) are the record \<open>value_ops\<close>. The table refines a map from keys to values: the
  lemmas of the last sections state each operation as an update or a look-up of that map. The locale
  \<open>table_value\<close> is the contract of a value type whose calls keep an invariant; it is interpreted by
  the directory entries and by the MSI metadata.
\<close>

record ('v, 'p) value_ops =
  v_call :: "string \<Rightarrow> 'p \<Rightarrow> 'v \<Rightarrow> ('v \<times> 'p \<times> bool) exec"
  v_constCall :: "string \<Rightarrow> 'p \<Rightarrow> 'v \<Rightarrow> 'p exec"
  v_size :: "'v \<Rightarrow> u64"

record 'v concurrent_hashtable =
  hashtables :: "(key \<times> 'v) list list"
  total_key_size :: u64
  total_value_size :: u64

definition myassertE :: "('m, 'z) lock_env_scheme \<Rightarrow> bool exec \<Rightarrow> 'a exec \<Rightarrow> 'a exec" where
  "myassertE env cond k = (if is_assert env then bindE cond (\<lambda>c. assertE c k) else k)"

definition ConcurrentHashtable_new :: "'m perkey_rwlock \<Rightarrow> 'v concurrent_hashtable" where
  "ConcurrentHashtable_new lk =
     \<lparr>hashtables = replicate (unat (PerkeyRwlock_getFineGrainedLockingSize lk)) [],
      total_key_size = 0, total_value_size = 0\<rparr>"

definition ConcurrentHashtable_isExist ::
    "('m, 'z) lock_env_scheme \<Rightarrow> 'm perkey_rwlock \<Rightarrow> 'v concurrent_hashtable \<Rightarrow> key \<Rightarrow> bool exec" where
  "ConcurrentHashtable_isExist env lk t k =
     bindE (PerkeyRwlock_isReadOrWriteLocked env lk k) (\<lambda>locked. assertE locked (
     bindE (PerkeyRwlock_getRwlockIndex env lk k) (\<lambda>hashidx.
     bindE (nthE (hashtables t) (unat hashidx)) (\<lambda>tmp_hashtable.
     bindE (PerkeyRwlock_isReadOrWriteLocked env lk k) (\<lambda>locked. assertE locked (
     Inr (map_of tmp_hashtable k \<noteq> None)))))))"

definition updateTotalValueSize :: "u64 \<Rightarrow> u64 \<Rightarrow> u64 \<Rightarrow> u64 exec" where
  "updateTotalValueSize total_size current_value_size original_value_size =
     (if original_value_size \<le> current_value_size
      then Util_uint64AddForAtomic total_size (current_value_size - original_value_size)
      else Inr (Util_uint64MinusForAtomic total_size (original_value_size - current_value_size)))"

text \<open>Every writing operation starts with the lock check and finds the bucket, and ends with the check
  again.\<close>

definition write_locked_bucket ::
    "('m, 'z) lock_env_scheme \<Rightarrow> 'm perkey_rwlock \<Rightarrow> 'v concurrent_hashtable \<Rightarrow> key
     \<Rightarrow> (nat \<Rightarrow> (key \<times> 'v) list \<Rightarrow> 'a exec) \<Rightarrow> 'a exec" where
  "write_locked_bucket env lk t k body =
     bindE (PerkeyRwlock_isWriteLocked env lk k) (\<lambda>locked. exit_ifE (\<not> locked) (
     bindE (PerkeyRwlock_getRwlockIndex env lk k) (\<lambda>hashidx.
     bindE (nthE (hashtables t) (unat hashidx)) (\<lambda>tmp_hashtable.
     bindE (body (unat hashidx) tmp_hashtable) (\<lambda>result.
     bindE (PerkeyRwlock_isWriteLocked env lk k) (\<lambda>locked. assertE locked (Inr result)))))))"

text \<open>The branch for a key that is not in the bucket, and the one that overwrites its value.\<close>

definition insert_new ::
    "('v, 'p) value_ops \<Rightarrow> 'v concurrent_hashtable \<Rightarrow> nat \<Rightarrow> (key \<times> 'v) list \<Rightarrow> key \<Rightarrow> 'v
     \<Rightarrow> 'v concurrent_hashtable exec" where
  "insert_new ops t hashidx tmp_hashtable k v =
     bindE (Util_uint64AddForAtomic (total_key_size t) (ucast (Key_getKeyLength k))) (\<lambda>key_size.
     bindE (Util_uint64AddForAtomic (total_value_size t) (v_size ops v)) (\<lambda>value_size.
     Inr (t\<lparr>hashtables := (hashtables t)[hashidx := um_insert k v tmp_hashtable],
            total_key_size := key_size, total_value_size := value_size\<rparr>)))"

definition replace_value ::
    "('v, 'p) value_ops \<Rightarrow> 'v concurrent_hashtable \<Rightarrow> nat \<Rightarrow> (key \<times> 'v) list \<Rightarrow> key \<Rightarrow> 'v \<Rightarrow> 'v
     \<Rightarrow> 'v concurrent_hashtable exec" where
  "replace_value ops t hashidx tmp_hashtable k old v =
     bindE (updateTotalValueSize (total_value_size t) (v_size ops v) (v_size ops old)) (\<lambda>value_size.
     Inr (t\<lparr>hashtables := (hashtables t)[hashidx := um_put k v tmp_hashtable],
            total_value_size := value_size\<rparr>))"

definition ConcurrentHashtable_insertOrUpdate ::
    "('m, 'z) lock_env_scheme \<Rightarrow> 'm perkey_rwlock \<Rightarrow> ('v, 'p) value_ops \<Rightarrow> 'v concurrent_hashtable
     \<Rightarrow> key \<Rightarrow> 'v \<Rightarrow> ('v concurrent_hashtable \<times> bool) exec" where
  "ConcurrentHashtable_insertOrUpdate env lk ops t k v =
     write_locked_bucket env lk t k (\<lambda>hashidx tmp_hashtable.
       case map_of tmp_hashtable k of
         None \<Rightarrow> bindE (insert_new ops t hashidx tmp_hashtable k v) (\<lambda>t. Inr (t, False))
       | Some old \<Rightarrow> bindE (replace_value ops t hashidx tmp_hashtable k old v) (\<lambda>t. Inr (t, True)))"

definition ConcurrentHashtable_insertOrCall ::
    "('m, 'z) lock_env_scheme \<Rightarrow> 'm perkey_rwlock \<Rightarrow> ('v, 'p) value_ops \<Rightarrow> 'v concurrent_hashtable
     \<Rightarrow> key \<Rightarrow> 'v \<Rightarrow> string \<Rightarrow> 'p \<Rightarrow> ('v concurrent_hashtable \<times> bool \<times> 'p) exec" where
  "ConcurrentHashtable_insertOrCall env lk ops t k v function_name param =
     write_locked_bucket env lk t k (\<lambda>hashidx tmp_hashtable.
       case map_of tmp_hashtable k of
         None \<Rightarrow> bindE (insert_new ops t hashidx tmp_hashtable k v) (\<lambda>t. Inr (t, False, param))
       | Some old \<Rightarrow>
           bindE (v_call ops function_name param old) (\<lambda>(new, param, is_erase).
           bindE (replace_value ops t hashidx tmp_hashtable k old new) (\<lambda>t.
           assertE (\<not> is_erase) (Inr (t, True, param)))))"

definition erase_pair ::
    "('v, 'p) value_ops \<Rightarrow> 'v concurrent_hashtable \<Rightarrow> nat \<Rightarrow> (key \<times> 'v) list \<Rightarrow> key \<Rightarrow> 'v
     \<Rightarrow> 'v concurrent_hashtable" where
  "erase_pair ops t hashidx tmp_hashtable k old =
     t\<lparr>hashtables := (hashtables t)[hashidx := um_erase k tmp_hashtable],
       total_key_size := Util_uint64MinusForAtomic (total_key_size t) (ucast (Key_getKeyLength k)),
       total_value_size := Util_uint64MinusForAtomic (total_value_size t) (v_size ops old)\<rparr>"

definition ConcurrentHashtable_callIfExist ::
    "('m, 'z) lock_env_scheme \<Rightarrow> 'm perkey_rwlock \<Rightarrow> ('v, 'p) value_ops \<Rightarrow> 'v concurrent_hashtable
     \<Rightarrow> key \<Rightarrow> string \<Rightarrow> 'p \<Rightarrow> ('v concurrent_hashtable \<times> bool \<times> 'p) exec" where
  "ConcurrentHashtable_callIfExist env lk ops t k function_name param =
     write_locked_bucket env lk t k (\<lambda>hashidx tmp_hashtable.
       case map_of tmp_hashtable k of
         None \<Rightarrow> Inr (t, False, param)
       | Some old \<Rightarrow>
           bindE (v_call ops function_name param old) (\<lambda>(new, param, is_erase).
           bindE (replace_value ops t hashidx tmp_hashtable k old new) (\<lambda>t.
           Inr (if is_erase then erase_pair ops t hashidx (hashtables t ! hashidx) k new else t, True, param))))"

definition ConcurrentHashtable_constCallIfExist ::
    "('m, 'z) lock_env_scheme \<Rightarrow> 'm perkey_rwlock \<Rightarrow> ('v, 'p) value_ops \<Rightarrow> 'v concurrent_hashtable
     \<Rightarrow> key \<Rightarrow> string \<Rightarrow> 'p \<Rightarrow> (bool \<times> 'p) exec" where
  "ConcurrentHashtable_constCallIfExist env lk ops t k function_name param =
     myassertE env (PerkeyRwlock_isReadOrWriteLocked env lk k) (
     bindE (PerkeyRwlock_getRwlockIndex env lk k) (\<lambda>hashidx.
     bindE (nthE (hashtables t) (unat hashidx)) (\<lambda>tmp_hashtable.
     bindE (case map_of tmp_hashtable k of
              None \<Rightarrow> Inr (False, param)
            | Some v \<Rightarrow> bindE (v_constCall ops function_name param v) (\<lambda>param. Inr (True, param))) (\<lambda>result.
     myassertE env (PerkeyRwlock_isReadOrWriteLocked env lk k) (Inr result)))))"

definition ConcurrentHashtable_eraseIfExist ::
    "('m, 'z) lock_env_scheme \<Rightarrow> 'm perkey_rwlock \<Rightarrow> ('v, 'p) value_ops \<Rightarrow> 'v concurrent_hashtable
     \<Rightarrow> key \<Rightarrow> ('v concurrent_hashtable \<times> bool) exec" where
  "ConcurrentHashtable_eraseIfExist env lk ops t k =
     write_locked_bucket env lk t k (\<lambda>hashidx tmp_hashtable.
       case map_of tmp_hashtable k of
         None \<Rightarrow> Inr (t, False)
       | Some old \<Rightarrow> Inr (erase_pair ops t hashidx tmp_hashtable k old, True))"

definition ConcurrentHashtable_getTotalKeySizeForCapcity :: "'v concurrent_hashtable \<Rightarrow> u64" where
  "ConcurrentHashtable_getTotalKeySizeForCapcity t = total_key_size t"

definition ConcurrentHashtable_getTotalValueSizeForCapcity :: "'v concurrent_hashtable \<Rightarrow> u64" where
  "ConcurrentHashtable_getTotalValueSizeForCapcity t = total_value_size t"

section \<open>Snapshots (no locks)\<close>

definition ConcurrentHashtable_getAllKeyValuePairs ::
    "'v concurrent_hashtable \<Rightarrow> (key \<times> 'v) list \<Rightarrow> (key \<times> 'v) list" where
  "ConcurrentHashtable_getAllKeyValuePairs t kvpairs =
     foldl (foldl (\<lambda>m (k, v). um_insert k v m)) kvpairs (hashtables t)"

definition ConcurrentHashtable_putKeyValuePair ::
    "('m, 'z) lock_env_scheme \<Rightarrow> 'm perkey_rwlock \<Rightarrow> ('v, 'p) value_ops \<Rightarrow> 'v concurrent_hashtable
     \<Rightarrow> key \<Rightarrow> 'v \<Rightarrow> ('v concurrent_hashtable \<times> bool) exec" where
  "ConcurrentHashtable_putKeyValuePair env lk ops t k v =
     bindE (PerkeyRwlock_getRwlockIndex env lk k) (\<lambda>hashidx.
     bindE (nthE (hashtables t) (unat hashidx)) (\<lambda>tmp_hashtable.
     case map_of tmp_hashtable k of
       None \<Rightarrow> bindE (insert_new ops t (unat hashidx) tmp_hashtable k v) (\<lambda>t. Inr (t, False))
     | Some old \<Rightarrow> bindE (replace_value ops t (unat hashidx) tmp_hashtable k old v) (\<lambda>t. Inr (t, True))))"

section \<open>The table as a map\<close>

definition ht_map :: "('m, 'z) lock_env_scheme \<Rightarrow> 'm perkey_rwlock \<Rightarrow> 'v concurrent_hashtable \<Rightarrow> key \<Rightarrow> 'v option" where
  "ht_map env lk t k = map_of (hashtables t ! lock_idx env lk k) k"

definition weight :: "(key \<times> 'v \<Rightarrow> nat) \<Rightarrow> (key \<times> 'v) list list \<Rightarrow> nat" where
  "weight f hs = sum_list (map (\<lambda>h. sum_list (map f h)) hs)"

definition key_weight :: "key \<times> 'v \<Rightarrow> nat" where
  "key_weight kv = unat (Key_getKeyLength (fst kv))"

definition value_weight :: "('v, 'p) value_ops \<Rightarrow> key \<times> 'v \<Rightarrow> nat" where
  "value_weight ops kv = unat (v_size ops (snd kv))"

text \<open>Every key is in the bucket of its lock, at most once, and the counters are the sums of the sizes.\<close>

definition bucketed :: "(key \<Rightarrow> nat) \<Rightarrow> (key \<times> 'v) list list \<Rightarrow> bool" where
  "bucketed idx hs \<longleftrightarrow> (\<forall>i < length hs. um_wf (hs ! i) \<and> (\<forall>k \<in> fst ` set (hs ! i). idx k = i))"

definition ht_wf ::
    "('m, 'z) lock_env_scheme \<Rightarrow> 'm perkey_rwlock \<Rightarrow> ('v, 'p) value_ops \<Rightarrow> 'v concurrent_hashtable \<Rightarrow> bool" where
  "ht_wf env lk ops t \<longleftrightarrow>
     length (hashtables t) = unat (fine_grained_locking_size lk) \<and>
     bucketed (lock_idx env lk) (hashtables t) \<and>
     unat (total_key_size t) = weight key_weight (hashtables t) \<and>
     unat (total_value_size t) = weight (value_weight ops) (hashtables t)"

lemma weight_update:
  "i < length hs \<Longrightarrow> weight f (hs[i := h]) + sum_list (map f (hs ! i)) = weight f hs + sum_list (map f h)"
proof (induction hs arbitrary: i)
  case Nil
  then show ?case by simp
next
  case (Cons g hs)
  then show ?case
    by (cases i) (force simp: weight_def)+
qed

lemma weight_concat: "sum_list (map f (concat hs)) = weight f hs"
  by (induction hs) (auto simp: weight_def)

lemma sum_um_insert:
  "map_of h k = None \<Longrightarrow> sum_list (map f (um_insert k v h)) = sum_list (map f h) + (f (k, v) :: nat)"
  by (simp add: um_insert_def)

lemma sum_um_put:
  "um_wf h \<Longrightarrow> map_of h k = Some old \<Longrightarrow>
   sum_list (map f (um_put k v h)) + (f (k, old) :: nat) = sum_list (map f h) + f (k, v)"
  by (induction h) (auto simp: um_put_def split: if_splits)

lemma sum_um_erase:
  "um_wf h \<Longrightarrow> map_of h k = Some old \<Longrightarrow>
   sum_list (map f (um_erase k h)) + (f (k, old) :: nat) = sum_list (map f h)"
proof (induction h)
  case (Cons kv h)
  then show ?case
    by (auto simp: um_erase_def split: if_splits)
qed simp

lemma bucketed_update:
  assumes "bucketed idx hs" and "um_wf h" and "fst ` set h \<subseteq> insert k (fst ` set (hs ! i))" and "idx k = i"
  shows "bucketed idx (hs[i := h])"
  using assms by (force simp: bucketed_def nth_list_update_at)

lemma bucketed_map_of_concat:
  assumes "bucketed idx hs" and "idx k < length hs"
  shows "map_of (concat hs) k = map_of (hs ! idx k) k"
proof -
  have "\<forall>i < length hs. k \<in> fst ` set (hs ! i) \<longrightarrow> idx k = i"
    using assms(1) by (auto simp: bucketed_def)
  then have "\<forall>i < length hs. i \<noteq> idx k \<longrightarrow> map_of (hs ! i) k = None"
    by (auto simp: map_of_eq_None_iff)
  then show ?thesis
    using assms(2)
  proof (induction hs arbitrary: idx)
    case (Cons h hs)
    show ?case
    proof (cases "idx k")
      case 0
      have "map_of h' k = None" if "h' \<in> set hs" for h'
      proof -
        obtain i where "i < length hs" "h' = hs ! i" using \<open>h' \<in> set hs\<close> by (metis in_set_conv_nth)
        then show ?thesis using Cons.prems(1) [rule_format, of "Suc i"] 0 by simp
      qed
      then have "map_of (concat hs) k = None"
        by (induction hs) (auto simp: map_of_append map_add_None)
      then show ?thesis using 0 by (simp add: map_add_def split: option.splits)
    next
      case (Suc n)
      have "map_of h k = None" using Cons.prems(1) [rule_format, of 0] Suc by simp
      moreover have "map_of (concat hs) k = map_of (hs ! n) k"
      proof -
        have "\<forall>i < length hs. i \<noteq> n \<longrightarrow> map_of (hs ! i) k = None"
          using Cons.prems(1) Suc by fastforce
        then show ?thesis using Cons.IH [of "\<lambda>_. n"] Cons.prems(2) Suc by simp
      qed
      ultimately show ?thesis using Suc by (simp add: map_add_def split: option.splits)
    qed
  qed simp
qed

lemma bucketed_snoc:
  "bucketed idx (hs @ [h]) \<longleftrightarrow> bucketed idx hs \<and> um_wf h \<and> (\<forall>k \<in> fst ` set h. idx k = length hs)"
  by (auto simp: bucketed_def nth_append all_less_Suc)

lemma bucketed_keys_less: "bucketed idx hs \<Longrightarrow> k \<in> fst ` set (concat hs) \<Longrightarrow> idx k < length hs"
  by (induction hs rule: rev_induct) (auto simp: bucketed_snoc less_Suc_eq)

lemma bucketed_distinct: "bucketed idx hs \<Longrightarrow> um_wf (concat hs)"
proof (induction hs rule: rev_induct)
  case (snoc h hs)
  then have hs: "bucketed idx hs" "um_wf h" "\<forall>k \<in> fst ` set h. idx k = length hs"
    by (simp_all add: bucketed_snoc)
  then have "fst ` set h \<inter> fst ` set (concat hs) = {}"
    using bucketed_keys_less [OF hs(1)] by fastforce
  then show ?case
    using snoc.IH [OF hs(1)] hs(2) by auto
qed simp

lemma ht_map_update:
  "i < length (hashtables t) \<Longrightarrow> i = lock_idx env lk k \<Longrightarrow> \<forall>k'. k' \<noteq> k \<longrightarrow> map_of h k' = map_of (hashtables t ! i) k' \<Longrightarrow>
   ht_map env lk (t\<lparr>hashtables := (hashtables t)[i := h]\<rparr>) = (ht_map env lk t)(k := map_of h k)"
  by (rule ext) (auto simp: ht_map_def nth_list_update)

section \<open>The three updates of a bucket\<close>

lemma updateTotalValueSize_ok:
  assumes "unat orig \<le> unat tot" and "unat tot + unat cur < 2 ^ 64"
  obtains w where "updateTotalValueSize tot cur orig = Inr w" and "unat w + unat orig = unat tot + unat cur"
proof (cases "orig \<le> cur")
  case True
  then have "unat (cur - orig) = unat cur - unat orig" "unat orig \<le> unat cur"
    by (simp_all add: unat_sub word_le_nat_alt)
  then show ?thesis
    using assms True that [of "tot + (cur - orig)"]
    by (simp add: updateTotalValueSize_def uint64AddForAtomic_spec unat_add_no_wrap)
next
  case False
  then have "unat (orig - cur) = unat orig - unat cur" "unat cur < unat orig"
    by (simp_all add: unat_sub word_le_nat_alt not_le)
  then show ?thesis
    using assms False that [of "Util_uint64MinusForAtomic tot (orig - cur)"]
    by (simp add: updateTotalValueSize_def unat_uint64MinusForAtomic)
qed

lemma unat_key_length: "unat (ucast (Key_getKeyLength k) :: u64) = unat (Key_getKeyLength k)"
proof -
  have "unat (Key_getKeyLength k) < 2 ^ 32"
    using unsigned_less [of "Key_getKeyLength k"] by simp
  then have "unat (Key_getKeyLength k) < 2 ^ 64"
    by simp
  then show ?thesis
    by (simp add: unsigned_ucast_eq take_bit_nat_eq_self)
qed

lemma weight_ge: "i < length hs \<Longrightarrow> sum_list (map f (hs ! i)) \<le> weight f hs"
  using weight_update [of i hs f "[]"] by simp

lemma sum_member_le: "map_of h k = Some old \<Longrightarrow> (f (k, old) :: nat) \<le> sum_list (map f h)"
  by (rule member_le_sum_list) (auto dest: map_of_SomeD)

lemma weight_member:
  assumes "i < length hs" and "map_of (hs ! i) k = Some old"
  shows "f (k, old) \<le> weight f hs"
  using sum_member_le [OF assms(2), of f] weight_ge [OF assms(1), of f] by linarith

text \<open>The facts every operation on a well-formed table starts from.\<close>

lemma ht_bucket:
  assumes "ht_wf env lk ops t" and "rwlock_wf lk" and "i = lock_idx env lk k"
  shows "i < length (hashtables t)" and "um_wf (hashtables t ! i)"
    and "bucketed (lock_idx env lk) (hashtables t)"
  using assms lock_idx_less_size [OF assms(2), of env k] by (auto simp: ht_wf_def bucketed_def)

lemma insert_new_ok:
  assumes wf: "ht_wf env lk ops t" and lk: "rwlock_wf lk" and i: "i = lock_idx env lk k"
    and new: "map_of (hashtables t ! i) k = None"
    and room: "unat (total_key_size t) + unat (Key_getKeyLength k) < 2 ^ 64"
      "unat (total_value_size t) + unat (v_size ops v) < 2 ^ 64"
  obtains t' where "insert_new ops t i (hashtables t ! i) k v = Inr t'"
    and "ht_wf env lk ops t'" and "ht_map env lk t' = (ht_map env lk t)(k \<mapsto> v)"
    and "unat (total_key_size t') = unat (total_key_size t) + key_weight (k, v)"
    and "unat (total_value_size t') = unat (total_value_size t) + value_weight ops (k, v)"
proof -
  note b = ht_bucket [OF wf lk i]
  let ?t = "t\<lparr>hashtables := (hashtables t)[i := um_insert k v (hashtables t ! i)],
      total_key_size := total_key_size t + ucast (Key_getKeyLength k),
      total_value_size := total_value_size t + v_size ops v\<rparr>"
  have "insert_new ops t i (hashtables t ! i) k v = Inr ?t"
    using room by (simp add: insert_new_def uint64AddForAtomic_spec unat_key_length)
  moreover have "ht_wf env lk ops ?t"
  proof -
    have "bucketed (lock_idx env lk) ((hashtables t)[i := um_insert k v (hashtables t ! i)])"
      using b i by (intro bucketed_update) (auto simp: um_insert_def)
    then show ?thesis
      using wf room new b(1) weight_update [OF b(1), of key_weight "um_insert k v (hashtables t ! i)"]
        weight_update [OF b(1), of "value_weight ops" "um_insert k v (hashtables t ! i)"]
      by (simp add: ht_wf_def sum_um_insert unat_add_no_wrap unat_key_length)
        (simp add: key_weight_def value_weight_def)
  qed
  moreover have "ht_map env lk ?t = (ht_map env lk t)(k \<mapsto> v)"
    using ht_map_update [OF b(1) i, of "um_insert k v (hashtables t ! i)"] new by (simp add: ht_map_def fun_eq_iff)
  moreover have "unat (total_key_size ?t) = unat (total_key_size t) + key_weight (k, v)"
    "unat (total_value_size ?t) = unat (total_value_size t) + value_weight ops (k, v)"
    using room by (simp_all add: unat_add_no_wrap unat_key_length key_weight_def value_weight_def)
  ultimately show ?thesis using that by blast
qed

lemma replace_value_ok:
  assumes wf: "ht_wf env lk ops t" and lk: "rwlock_wf lk" and i: "i = lock_idx env lk k"
    and old: "map_of (hashtables t ! i) k = Some old"
    and room: "unat (total_value_size t) + unat (v_size ops v) < 2 ^ 64"
  obtains t' where "replace_value ops t i (hashtables t ! i) k old v = Inr t'"
    and "ht_wf env lk ops t'" and "ht_map env lk t' = (ht_map env lk t)(k \<mapsto> v)"
    and "total_key_size t' = total_key_size t" "hashtables t' = (hashtables t)[i := um_put k v (hashtables t ! i)]"
proof -
  note b = ht_bucket [OF wf lk i]
  have "unat (v_size ops old) \<le> unat (total_value_size t)"
    using weight_member [OF b(1) old, of "value_weight ops"] wf by (simp add: ht_wf_def value_weight_def)
  from updateTotalValueSize_ok [OF this room] obtain w
    where w: "updateTotalValueSize (total_value_size t) (v_size ops v) (v_size ops old) = Inr w"
      "unat w + unat (v_size ops old) = unat (total_value_size t) + unat (v_size ops v)" .
  let ?t = "t\<lparr>hashtables := (hashtables t)[i := um_put k v (hashtables t ! i)], total_value_size := w\<rparr>"
  have "replace_value ops t i (hashtables t ! i) k old v = Inr ?t"
    using w by (simp add: replace_value_def)
  moreover have "ht_wf env lk ops ?t"
  proof -
    have "bucketed (lock_idx env lk) ((hashtables t)[i := um_put k v (hashtables t ! i)])"
      using b i by (intro bucketed_update) auto
    then show ?thesis
      using wf w(2) weight_update [OF b(1), of key_weight "um_put k v (hashtables t ! i)"]
        weight_update [OF b(1), of "value_weight ops" "um_put k v (hashtables t ! i)"]
        sum_um_put [OF b(2) old, of key_weight v] sum_um_put [OF b(2) old, of "value_weight ops" v]
      by (simp add: ht_wf_def key_weight_def value_weight_def)
  qed
  moreover have "ht_map env lk ?t = (ht_map env lk t)(k \<mapsto> v)"
    using ht_map_update [OF b(1) i, of "um_put k v (hashtables t ! i)"] by (simp add: ht_map_def fun_eq_iff)
  ultimately show ?thesis using that by simp
qed

lemma erase_pair_ok:
  assumes wf: "ht_wf env lk ops t" and lk: "rwlock_wf lk" and i: "i = lock_idx env lk k"
    and old: "map_of (hashtables t ! i) k = Some old"
  shows "ht_wf env lk ops (erase_pair ops t i (hashtables t ! i) k old)"
    and "ht_map env lk (erase_pair ops t i (hashtables t ! i) k old) = (ht_map env lk t)(k := None)"
proof -
  note b = ht_bucket [OF wf lk i]
  have "bucketed (lock_idx env lk) ((hashtables t)[i := um_erase k (hashtables t ! i)])"
    using b i by (intro bucketed_update) auto
  then show "ht_wf env lk ops (erase_pair ops t i (hashtables t ! i) k old)"
    using wf weight_update [OF b(1), of key_weight "um_erase k (hashtables t ! i)"]
      weight_update [OF b(1), of "value_weight ops" "um_erase k (hashtables t ! i)"]
      sum_um_erase [OF b(2) old, of key_weight] sum_um_erase [OF b(2) old, of "value_weight ops"]
    by (simp add: ht_wf_def erase_pair_def unat_uint64MinusForAtomic unat_key_length)
      (auto simp: key_weight_def value_weight_def)
  show "ht_map env lk (erase_pair ops t i (hashtables t ! i) k old) = (ht_map env lk t)(k := None)"
    using ht_map_update [OF b(1) i, of "um_erase k (hashtables t ! i)"]
    by (simp add: erase_pair_def ht_map_def fun_eq_iff)
qed

section \<open>The operations on the map\<close>

definition table_locked ::
    "('m, 'z) lock_env_scheme \<Rightarrow> 'm perkey_rwlock \<Rightarrow> ('v, 'p) value_ops \<Rightarrow> 'v concurrent_hashtable \<Rightarrow> key \<Rightarrow> bool" where
  "table_locked env lk ops t k \<longleftrightarrow> ht_wf env lk ops t \<and> rwlock_wf lk
     \<and> PerkeyRwlock_isReadOrWriteLocked env lk k = Inr True"

definition table_write_locked ::
    "('m, 'z) lock_env_scheme \<Rightarrow> 'm perkey_rwlock \<Rightarrow> ('v, 'p) value_ops \<Rightarrow> 'v concurrent_hashtable \<Rightarrow> key \<Rightarrow> bool" where
  "table_write_locked env lk ops t k \<longleftrightarrow> ht_wf env lk ops t \<and> rwlock_wf lk
     \<and> PerkeyRwlock_isWriteLocked env lk k = Inr True"

text \<open>The counters have room for a key and a value.\<close>

definition ht_room :: "('v, 'p) value_ops \<Rightarrow> 'v concurrent_hashtable \<Rightarrow> key \<Rightarrow> 'v \<Rightarrow> bool" where
  "ht_room ops t k v \<longleftrightarrow> unat (total_key_size t) + unat (Key_getKeyLength k) < 2 ^ 64
     \<and> unat (total_value_size t) + unat (v_size ops v) < 2 ^ 64"

lemma isExist_eq:
  assumes "table_locked env lk ops t k"
  shows "ConcurrentHashtable_isExist env lk t k = Inr (ht_map env lk t k \<noteq> None)"
  using assms ht_bucket(1) [OF _ _ refl, of env lk ops t k]
  by (simp add: table_locked_def ht_map_def ConcurrentHashtable_isExist_def getRwlockIndex_eq)

lemma constCallIfExist_eq:
  assumes "table_locked env lk ops t k"
  shows "ConcurrentHashtable_constCallIfExist env lk ops t k f p =
    (case ht_map env lk t k of None \<Rightarrow> Inr (False, p)
     | Some v \<Rightarrow> bindE (v_constCall ops f p v) (\<lambda>p'. Inr (True, p')))"
  using assms ht_bucket(1) [OF _ _ refl, of env lk ops t k]
  by (simp add: table_locked_def ht_map_def ConcurrentHashtable_constCallIfExist_def getRwlockIndex_eq myassertE_def)

lemma write_locked_bucket_eq:
  assumes "table_write_locked env lk ops t k"
  shows "write_locked_bucket env lk t k body = body (lock_idx env lk k) (hashtables t ! lock_idx env lk k)"
  using assms ht_bucket(1) [OF _ _ refl, of env lk ops t k]
  by (simp add: table_write_locked_def write_locked_bucket_def getRwlockIndex_eq)

lemma insertOrCall_new:
  assumes "table_write_locked env lk ops t k" and "ht_map env lk t k = None" and "ht_room ops t k v"
  obtains t' where "ConcurrentHashtable_insertOrCall env lk ops t k v f p = Inr (t', False, p)"
    and "ht_wf env lk ops t'" and "ht_map env lk t' = (ht_map env lk t)(k \<mapsto> v)"
proof -
  have "ht_wf env lk ops t" "rwlock_wf lk" using assms(1) by (simp_all add: table_write_locked_def)
  from insert_new_ok [OF this refl, of k v] assms(2,3) obtain t' where
    "insert_new ops t (lock_idx env lk k) (hashtables t ! lock_idx env lk k) k v = Inr t'"
    "ht_wf env lk ops t'" "ht_map env lk t' = (ht_map env lk t)(k \<mapsto> v)"
    by (auto simp: ht_room_def ht_map_def)
  then show ?thesis
    using that assms(2) by (simp add: ConcurrentHashtable_insertOrCall_def ht_map_def write_locked_bucket_eq [OF assms(1)])
qed

lemma replace_value_locked:
  assumes "table_write_locked env lk ops t k" and "ht_map env lk t k = Some old" and "ht_room ops t k v"
  obtains t' where
    "replace_value ops t (lock_idx env lk k) (hashtables t ! lock_idx env lk k) k old v = Inr t'"
    "ht_wf env lk ops t'" "ht_map env lk t' = (ht_map env lk t)(k \<mapsto> v)"
    "hashtables t' ! lock_idx env lk k = um_put k v (hashtables t ! lock_idx env lk k)"
proof -
  have wf: "ht_wf env lk ops t" "rwlock_wf lk" using assms(1) by (simp_all add: table_write_locked_def)
  from replace_value_ok [OF this refl, of k old v] assms(2,3) obtain t' where
    "replace_value ops t (lock_idx env lk k) (hashtables t ! lock_idx env lk k) k old v = Inr t'"
    "ht_wf env lk ops t'" "ht_map env lk t' = (ht_map env lk t)(k \<mapsto> v)"
    "hashtables t' = (hashtables t)[lock_idx env lk k := um_put k v (hashtables t ! lock_idx env lk k)]"
    by (auto simp: ht_room_def ht_map_def)
  then show ?thesis
    using that ht_bucket(1) [OF wf refl, of k] by simp
qed

lemma insertOrCall_call:
  assumes "table_write_locked env lk ops t k" and "ht_map env lk t k = Some old"
    and "v_call ops f p old = Inr (new, p', False)" and "ht_room ops t k new"
  obtains t' where "ConcurrentHashtable_insertOrCall env lk ops t k v f p = Inr (t', True, p')"
    and "ht_wf env lk ops t'" and "ht_map env lk t' = (ht_map env lk t)(k \<mapsto> new)"
proof -
  from replace_value_locked [OF assms(1,2,4)] obtain t' where
    "replace_value ops t (lock_idx env lk k) (hashtables t ! lock_idx env lk k) k old new = Inr t'"
    "ht_wf env lk ops t'" "ht_map env lk t' = (ht_map env lk t)(k \<mapsto> new)" .
  then show ?thesis
    using that assms(2,3)
    by (simp add: ConcurrentHashtable_insertOrCall_def write_locked_bucket_eq [OF assms(1)] ht_map_def [of _ _ t k])
qed

lemma insertOrCall_fails:
  assumes "table_write_locked env lk ops t k" and "ht_map env lk t k = Some old" and "v_call ops f p old = Inl e"
  shows "ConcurrentHashtable_insertOrCall env lk ops t k v f p = Inl e"
  using assms(2,3)
  by (simp add: ConcurrentHashtable_insertOrCall_def write_locked_bucket_eq [OF assms(1)] ht_map_def)

lemma insertOrUpdate_ok:
  assumes "table_write_locked env lk ops t k" and "ht_room ops t k v"
  obtains t' where "ConcurrentHashtable_insertOrUpdate env lk ops t k v = Inr (t', ht_map env lk t k \<noteq> None)"
    and "ht_wf env lk ops t'" and "ht_map env lk t' = (ht_map env lk t)(k \<mapsto> v)"
proof (cases "ht_map env lk t k")
  case None
  have "ht_wf env lk ops t" "rwlock_wf lk" using assms(1) by (simp_all add: table_write_locked_def)
  from insert_new_ok [OF this refl, of k v] None assms(2) obtain t' where
    "insert_new ops t (lock_idx env lk k) (hashtables t ! lock_idx env lk k) k v = Inr t'"
    "ht_wf env lk ops t'" "ht_map env lk t' = (ht_map env lk t)(k \<mapsto> v)"
    by (auto simp: ht_room_def ht_map_def)
  then show ?thesis
    using that None by (simp add: ConcurrentHashtable_insertOrUpdate_def ht_map_def write_locked_bucket_eq [OF assms(1)])
next
  case (Some old)
  from replace_value_locked [OF assms(1) Some assms(2)] obtain t' where
    "replace_value ops t (lock_idx env lk k) (hashtables t ! lock_idx env lk k) k old v = Inr t'"
    "ht_wf env lk ops t'" "ht_map env lk t' = (ht_map env lk t)(k \<mapsto> v)" .
  then show ?thesis
    using that Some
    by (simp add: ConcurrentHashtable_insertOrUpdate_def write_locked_bucket_eq [OF assms(1)] ht_map_def [of _ _ t k])
qed

lemma callIfExist_absent:
  assumes "table_write_locked env lk ops t k" and "ht_map env lk t k = None"
  shows "ConcurrentHashtable_callIfExist env lk ops t k f p = Inr (t, False, p)"
  using assms by (simp add: ConcurrentHashtable_callIfExist_def ht_map_def write_locked_bucket_eq)

lemma callIfExist_call:
  assumes "table_write_locked env lk ops t k" and "ht_map env lk t k = Some old"
    and "v_call ops f p old = Inr (new, p', erase)" and "ht_room ops t k new"
  obtains t' where "ConcurrentHashtable_callIfExist env lk ops t k f p = Inr (t', True, p')"
    and "ht_wf env lk ops t'"
    and "ht_map env lk t' = (ht_map env lk t)(k := if erase then None else Some new)"
proof -
  let ?i = "lock_idx env lk k"
  from replace_value_locked [OF assms(1,2,4)] obtain t1 where
    t1: "replace_value ops t ?i (hashtables t ! ?i) k old new = Inr t1"
    "ht_wf env lk ops t1" "ht_map env lk t1 = (ht_map env lk t)(k \<mapsto> new)"
    "hashtables t1 ! ?i = um_put k new (hashtables t ! ?i)" .
  have lk: "rwlock_wf lk" using assms(1) by (simp add: table_write_locked_def)
  have erased: "ht_wf env lk ops (erase_pair ops t1 ?i (hashtables t1 ! ?i) k new)"
    "ht_map env lk (erase_pair ops t1 ?i (hashtables t1 ! ?i) k new) = (ht_map env lk t1)(k := None)"
    using erase_pair_ok [OF t1(2) lk refl, of k new] t1(4) by (simp_all add: map_of_um_put)
  show ?thesis
    using that [of "if erase then erase_pair ops t1 ?i (hashtables t1 ! ?i) k new else t1"] t1 erased assms(2,3)
    by (simp add: ConcurrentHashtable_callIfExist_def ht_map_def write_locked_bucket_eq [OF assms(1)])
qed

lemma eraseIfExist_ok:
  assumes "table_write_locked env lk ops t k"
  obtains t' where "ConcurrentHashtable_eraseIfExist env lk ops t k = Inr (t', ht_map env lk t k \<noteq> None)"
    and "ht_wf env lk ops t'" and "ht_map env lk t' = (ht_map env lk t)(k := None)"
proof (cases "ht_map env lk t k")
  case None
  then have "ht_map env lk t = (ht_map env lk t)(k := None)" by (simp add: fun_upd_idem)
  then show ?thesis
    using that [of t] None assms
    by (simp add: ConcurrentHashtable_eraseIfExist_def ht_map_def write_locked_bucket_eq [OF assms] table_write_locked_def)
next
  case (Some old)
  have "ht_wf env lk ops t" "rwlock_wf lk" using assms by (simp_all add: table_write_locked_def)
  from erase_pair_ok [OF this refl Some [unfolded ht_map_def]] show ?thesis
    using that Some
    by (simp add: ConcurrentHashtable_eraseIfExist_def write_locked_bucket_eq [OF assms] ht_map_def [of _ _ t k])
qed

lemma putKeyValuePair_new:
  assumes "ht_wf env lk ops t" and "rwlock_wf lk" and "ht_map env lk t k = None" and "ht_room ops t k v"
  obtains t' where "ConcurrentHashtable_putKeyValuePair env lk ops t k v = Inr (t', False)"
    and "ht_wf env lk ops t'" and "ht_map env lk t' = (ht_map env lk t)(k \<mapsto> v)"
    and "unat (total_key_size t') = unat (total_key_size t) + key_weight (k, v)"
    and "unat (total_value_size t') = unat (total_value_size t) + value_weight ops (k, v)"
proof -
  from insert_new_ok [OF assms(1,2) refl, of k v] assms(3,4) obtain t' where
    "insert_new ops t (lock_idx env lk k) (hashtables t ! lock_idx env lk k) k v = Inr t'"
    "ht_wf env lk ops t'" "ht_map env lk t' = (ht_map env lk t)(k \<mapsto> v)"
    "unat (total_key_size t') = unat (total_key_size t) + key_weight (k, v)"
    "unat (total_value_size t') = unat (total_value_size t) + value_weight ops (k, v)"
    by (auto simp: ht_room_def ht_map_def)
  then show ?thesis
    using that assms ht_bucket(1) [OF assms(1,2) refl, of k]
    by (simp add: ConcurrentHashtable_putKeyValuePair_def ht_map_def getRwlockIndex_eq)
qed

lemma totals_new [simp]:
  "total_key_size (ConcurrentHashtable_new lk) = 0" "total_value_size (ConcurrentHashtable_new lk) = 0"
  by (simp_all add: ConcurrentHashtable_new_def)

lemma ht_wf_new: "ht_wf env lk ops (ConcurrentHashtable_new lk)"
  by (simp add: ht_wf_def ConcurrentHashtable_new_def PerkeyRwlock_getFineGrainedLockingSize_def
      bucketed_def weight_def)

lemma ht_map_new: "rwlock_wf lk \<Longrightarrow> ht_map env lk (ConcurrentHashtable_new lk) = Map.empty"
  using lock_idx_less_size [of lk env]
  by (simp add: fun_eq_iff ht_map_def ConcurrentHashtable_new_def PerkeyRwlock_getFineGrainedLockingSize_def)

lemma ht_same_lock:
  assumes "same_lock lk lk'"
  shows "ht_map env lk' t = ht_map env lk t" and "ht_wf env lk' ops t = ht_wf env lk ops t"
  using same_lock_idx [OF assms, of env] assms by (simp_all add: ht_wf_def same_lock_def ht_map_def [abs_def])

lemma foldl_um_insert: "um_wf (acc @ h) \<Longrightarrow> foldl (\<lambda>m (k, v). um_insert k v m) acc h = acc @ h"
proof (induction h arbitrary: acc)
  case (Cons kv h)
  obtain k v where kv: "kv = (k, v)" by (cases kv)
  have "map_of acc k = None" using Cons.prems kv by (auto simp: map_of_eq_None_iff)
  then show ?case using Cons.IH [of "acc @ [(k, v)]"] Cons.prems kv by (simp add: um_insert_def)
qed simp

lemma foldl_foldl_um_insert:
  "um_wf (acc @ concat hs) \<Longrightarrow> foldl (foldl (\<lambda>m (k, v). um_insert k v m)) acc hs = acc @ concat hs"
proof (induction hs arbitrary: acc)
  case (Cons h hs)
  then have "foldl (\<lambda>m (k, v). um_insert k v m) acc h = acc @ h"
    by (intro foldl_um_insert) auto
  then show ?case using Cons.IH [of "acc @ h"] Cons.prems by simp
qed simp

lemma getAllKeyValuePairs_eq:
  assumes "ht_wf env lk ops t" and "rwlock_wf lk"
  shows "ConcurrentHashtable_getAllKeyValuePairs t [] = concat (hashtables t)"
    and "map_of (concat (hashtables t)) = ht_map env lk t" and "um_wf (concat (hashtables t))"
proof -
  have b: "bucketed (lock_idx env lk) (hashtables t)" using assms(1) by (simp add: ht_wf_def)
  show d: "um_wf (concat (hashtables t))" by (rule bucketed_distinct [OF b])
  then show "ConcurrentHashtable_getAllKeyValuePairs t [] = concat (hashtables t)"
    by (simp add: ConcurrentHashtable_getAllKeyValuePairs_def foldl_foldl_um_insert)
  show "map_of (concat (hashtables t)) = ht_map env lk t"
    using bucketed_map_of_concat [OF b] ht_bucket(1) [OF assms refl] by (simp add: ht_map_def fun_eq_iff)
qed

section \<open>The contract of a value type\<close>

text \<open>What the table asks of the values it stores: a call with acceptable parameters that does not ask
  for the value to be erased leaves the value's invariant. Then every operation of the table keeps it
  for all its values.\<close>

locale table_value =
  fixes ops :: "('v, 'p) value_ops" and vinv :: "'v \<Rightarrow> bool" and pinv :: "'p \<Rightarrow> bool"
  assumes call_inv: "vinv v \<Longrightarrow> pinv p \<Longrightarrow> v_call ops f p v = Inr (v', p', False) \<Longrightarrow> vinv v'"
begin

definition table_inv :: "('m, 'z) lock_env_scheme \<Rightarrow> 'm perkey_rwlock \<Rightarrow> 'v concurrent_hashtable \<Rightarrow> bool" where
  "table_inv env lk t \<longleftrightarrow> ht_wf env lk ops t \<and> (\<forall>k v. ht_map env lk t k = Some v \<longrightarrow> vinv v)"

lemma table_inv_new: "rwlock_wf lk \<Longrightarrow> table_inv env lk (ConcurrentHashtable_new lk)"
  by (simp add: table_inv_def ht_wf_new ht_map_new)

lemma insertOrCall_new_inv:
  assumes "table_inv env lk t" and "table_write_locked env lk ops t k" and "ht_map env lk t k = None"
    and "ht_room ops t k v" and "vinv v"
  obtains t' where "ConcurrentHashtable_insertOrCall env lk ops t k v f p = Inr (t', False, p)"
    and "table_inv env lk t'" and "ht_map env lk t' = (ht_map env lk t)(k \<mapsto> v)"
proof -
  from insertOrCall_new [OF assms(2-4)] obtain t' where
    t': "ConcurrentHashtable_insertOrCall env lk ops t k v f p = Inr (t', False, p)"
    "ht_wf env lk ops t'" "ht_map env lk t' = (ht_map env lk t)(k \<mapsto> v)" .
  moreover from this assms(1,5) have "table_inv env lk t'"
    unfolding table_inv_def t'(3) by auto
  ultimately show ?thesis using that by blast
qed

lemma insertOrCall_call_inv:
  assumes "table_inv env lk t" and "table_write_locked env lk ops t k" and "ht_map env lk t k = Some old"
    and "v_call ops f p old = Inr (new, p', False)" and "ht_room ops t k new" and "pinv p"
  obtains t' where "ConcurrentHashtable_insertOrCall env lk ops t k v f p = Inr (t', True, p')"
    and "table_inv env lk t'" and "ht_map env lk t' = (ht_map env lk t)(k \<mapsto> new)"
proof -
  from insertOrCall_call [OF assms(2-5)] obtain t' where
    t': "ConcurrentHashtable_insertOrCall env lk ops t k v f p = Inr (t', True, p')"
    "ht_wf env lk ops t'" "ht_map env lk t' = (ht_map env lk t)(k \<mapsto> new)" .
  have "vinv old" using assms(1,3) by (auto simp: table_inv_def)
  then have "vinv new" using assms(6,4) by (rule call_inv)
  with t' assms(1) have "table_inv env lk t'"
    unfolding table_inv_def t'(3) by auto
  with t' show ?thesis using that by blast
qed

lemma callIfExist_call_inv:
  assumes "table_inv env lk t" and "table_write_locked env lk ops t k" and "ht_map env lk t k = Some old"
    and "v_call ops f p old = Inr (new, p', erase)" and "ht_room ops t k new" and "pinv p"
  obtains t' where "ConcurrentHashtable_callIfExist env lk ops t k f p = Inr (t', True, p')"
    and "table_inv env lk t'"
    and "ht_map env lk t' = (ht_map env lk t)(k := if erase then None else Some new)"
proof -
  from callIfExist_call [OF assms(2-5)] obtain t' where
    t': "ConcurrentHashtable_callIfExist env lk ops t k f p = Inr (t', True, p')"
    "ht_wf env lk ops t'" "ht_map env lk t' = (ht_map env lk t)(k := if erase then None else Some new)" .
  have "vinv old" using assms(1,3) by (auto simp: table_inv_def)
  then have "vinv new" if "\<not> erase" using assms(4,6) that call_inv [of old p f new p'] by simp
  with t' assms(1) have "table_inv env lk t'"
    unfolding table_inv_def t'(3) by (auto split: if_splits)
  with t' show ?thesis using that by blast
qed

end

section \<open>Properties\<close>

text \<open>C10: The table refines a map. Under the write lock of the key and with room in the size counters,
  \<open>insertOrUpdate\<close> returns, reports whether the key was there, and updates exactly that key of the
  map; \<open>eraseIfExist\<close> then removes exactly that key. After each of them every key is still in the
  bucket of its lock and the two counters are the sums of the key and value sizes.\<close>

theorem hashtable_refines_map:
  assumes "table_write_locked env lk ops t k" and "ht_room ops t k v"
  shows "\<exists>t1 t2. ConcurrentHashtable_insertOrUpdate env lk ops t k v = Inr (t1, ht_map env lk t k \<noteq> None)
    \<and> ht_wf env lk ops t1 \<and> ht_map env lk t1 = (ht_map env lk t)(k \<mapsto> v)
    \<and> ConcurrentHashtable_eraseIfExist env lk ops t1 k = Inr (t2, True)
    \<and> ht_wf env lk ops t2 \<and> ht_map env lk t2 = (ht_map env lk t)(k := None)"
proof -
  from insertOrUpdate_ok [OF assms] obtain t1 where
    t1: "ConcurrentHashtable_insertOrUpdate env lk ops t k v = Inr (t1, ht_map env lk t k \<noteq> None)"
    "ht_wf env lk ops t1" "ht_map env lk t1 = (ht_map env lk t)(k \<mapsto> v)" .
  have "table_write_locked env lk ops t1 k"
    using assms(1) t1(2) by (simp add: table_write_locked_def)
  from eraseIfExist_ok [OF this] obtain t2 where
    "ConcurrentHashtable_eraseIfExist env lk ops t1 k = Inr (t2, ht_map env lk t1 k \<noteq> None)"
    "ht_wf env lk ops t2" "ht_map env lk t2 = (ht_map env lk t1)(k := None)" .
  with t1 show ?thesis by simp
qed

text \<open>A table with one lock, held by a writer, and a value type of plain sizes.\<close>

definition plain_ops :: "(u64, unit) value_ops" where
  "plain_ops = \<lparr>v_call = (\<lambda>f p v. Inr (v, p, False)), v_constCall = (\<lambda>f p v. Inr p), v_size = (\<lambda>v. v)\<rparr>"

definition one_lock_written :: "(nat \<times> bool) perkey_rwlock" where
  "one_lock_written = \<lparr>fine_grained_locking_size = 1, enable_fine_grained_locking = True,
     rwlock_hashtable = [(0, True)], read_lock_cnts = [0], write_lock_flags = [True]\<rparr>"

lemma one_lock_written_ok:
  "rwlock_wf one_lock_written"
  "PerkeyRwlock_isWriteLocked (counting_env (\<lambda>_. 0)) one_lock_written k = Inr True"
  by (simp_all add: rwlock_wf_def one_lock_written_def PerkeyRwlock_isWriteLocked_def
      PerkeyRwlock_getRwlockIndex_def counting_env_def)

definition empty_plain_table :: "u64 concurrent_hashtable" where
  "empty_plain_table = ConcurrentHashtable_new one_lock_written"

theorem hashtable_refines_map_witness:
  "\<exists>t1 t2. ConcurrentHashtable_insertOrUpdate (counting_env (\<lambda>_. 0)) one_lock_written plain_ops
        empty_plain_table (Key [1]) 7
      = Inr (t1, ht_map (counting_env (\<lambda>_. 0)) one_lock_written empty_plain_table (Key [1]) \<noteq> None)
    \<and> ht_wf (counting_env (\<lambda>_. 0)) one_lock_written plain_ops t1
    \<and> ht_map (counting_env (\<lambda>_. 0)) one_lock_written t1
      = (ht_map (counting_env (\<lambda>_. 0)) one_lock_written empty_plain_table)(Key [1] \<mapsto> 7)
    \<and> ConcurrentHashtable_eraseIfExist (counting_env (\<lambda>_. 0)) one_lock_written plain_ops t1 (Key [1]) = Inr (t2, True)
    \<and> ht_wf (counting_env (\<lambda>_. 0)) one_lock_written plain_ops t2
    \<and> ht_map (counting_env (\<lambda>_. 0)) one_lock_written t2
      = (ht_map (counting_env (\<lambda>_. 0)) one_lock_written empty_plain_table)(Key [1] := None)"
  by (rule hashtable_refines_map)
    (simp_all add: table_write_locked_def one_lock_written_ok ht_wf_new ht_room_def
      Key_getKeyLength_def plain_ops_def empty_plain_table_def)

text \<open>A table is never changed without the write lock: with the writer flag of the key's lock
  clear, every changing operation stops the process before it touches the table.\<close>

theorem write_without_lock_exits:
  assumes "rwlock_wf lk" and "PerkeyRwlock_isWriteLocked env lk k = Inr False"
  shows "ConcurrentHashtable_insertOrUpdate env lk ops t k v = Inl Exited
    \<and> ConcurrentHashtable_insertOrCall env lk ops t k v f p = Inl Exited
    \<and> ConcurrentHashtable_callIfExist env lk ops t k f p = Inl Exited
    \<and> ConcurrentHashtable_eraseIfExist env lk ops t k = Inl Exited"
  using assms
  by (simp add: ConcurrentHashtable_insertOrUpdate_def ConcurrentHashtable_insertOrCall_def
      ConcurrentHashtable_callIfExist_def ConcurrentHashtable_eraseIfExist_def write_locked_bucket_def)

theorem write_without_lock_exits_witness:
  "ConcurrentHashtable_insertOrUpdate (counting_env (\<lambda>_. 0)) (PerkeyRwlock_new (counting_env (\<lambda>_. 0)) 1 True)
      plain_ops empty_plain_table (Key [1]) 7 = Inl Exited
   \<and> ConcurrentHashtable_insertOrCall (counting_env (\<lambda>_. 0)) (PerkeyRwlock_new (counting_env (\<lambda>_. 0)) 1 True)
      plain_ops empty_plain_table (Key [1]) 7 ''f'' () = Inl Exited
   \<and> ConcurrentHashtable_callIfExist (counting_env (\<lambda>_. 0)) (PerkeyRwlock_new (counting_env (\<lambda>_. 0)) 1 True)
      plain_ops empty_plain_table (Key [1]) ''f'' () = Inl Exited
   \<and> ConcurrentHashtable_eraseIfExist (counting_env (\<lambda>_. 0)) (PerkeyRwlock_new (counting_env (\<lambda>_. 0)) 1 True)
      plain_ops empty_plain_table (Key [1]) = Inl Exited"
  by (rule write_without_lock_exits)
    (simp_all add: rwlock_wf_def PerkeyRwlock_isWriteLocked_def PerkeyRwlock_getRwlockIndex_def
      PerkeyRwlock_new_def counting_env_def)

end
