(* ===== verification/Directory_Table.thy ===== *)
theory Directory_Table
  imports Directory_Entry Concurrent_Hashtable
begin

text \<open>
  \<open>DirectoryTable\<close> (\<open>src/src/cooperation/directory_table.c\<close>): the beacon's table from keys to directory
  entries. Look-ups pick a random valid copy outside the requesting edge node; updates admit or evict
  the copy of one edge node. The generator behind \<open>std::uniform_int_distribution\<close> is a parameter: a
  field \<open>uniform_draw\<close> of the environment maps the state of the generator and the upper bound to a
  number and the next state. Out-parameters are returned; a pointer that may be \<open>NULL\<close> is an option.
\<close>

record ('m, 'g) coop_env = "'m lock_env" +
  uniform_draw :: "'g \<Rightarrow> u32 \<Rightarrow> u32 \<times> 'g"

record 'g directory_table =
  directory_hashtable :: "directory_entry concurrent_hashtable"
  directory_randgen :: 'g

definition direntry_ops :: "(directory_entry, direntry_param) value_ops" where
  "direntry_ops = \<lparr>v_call = DirectoryEntry_call, v_constCall = DirectoryEntry_constCall,
     v_size = DirectoryEntry_getSizeForCapacity\<rparr>"

definition DirectoryTable_new :: "'m perkey_rwlock \<Rightarrow> 'g \<Rightarrow> 'g directory_table" where
  "DirectoryTable_new lk g = \<lparr>directory_hashtable = ConcurrentHashtable_new lk, directory_randgen = g\<rparr>"

text \<open>The value an out-parameter has after a getter: unchanged when the getter did not set it.\<close>

definition out_param :: "'a \<Rightarrow> 'a option \<Rightarrow> 'a" where
  "out_param old r = (case r of None \<Rightarrow> old | Some x \<Rightarrow> x)"

section \<open>Reading\<close>

definition DirectoryTable_getAll ::
    "('m, 'z) lock_env_scheme \<Rightarrow> 'm perkey_rwlock \<Rightarrow> 'g directory_table \<Rightarrow> key \<Rightarrow> dirinfo_set exec" where
  "DirectoryTable_getAll env lk dt k =
     bindE (ConcurrentHashtable_constCallIfExist env lk direntry_ops (directory_hashtable dt) k
              GET_ALL_DIRINFO_FUNCNAME (GetAllDirinfoParam (DirinfoSet_of_list []))) (\<lambda>(is_exist, tmp_param).
     let all_dirinfo = param_dirinfo_set tmp_param
     in if \<not> is_exist then assertE (\<not> DirinfoSet_isInvalid all_dirinfo) (Inr all_dirinfo)
        else bindE (DirinfoSet_getDirinfoSetSizeIfComplete all_dirinfo) (\<lambda>(complete, sz).
             assertE complete (assertE (0 < out_param 0 sz) (Inr all_dirinfo))))"

definition DirectoryTable_lookup ::
    "('m, 'g, 'z) coop_env_scheme \<Rightarrow> 'm perkey_rwlock \<Rightarrow> 'g directory_table \<Rightarrow> key \<Rightarrow> u32
     \<Rightarrow> directory_info \<Rightarrow> directory_info list option
     \<Rightarrow> ('g directory_table \<times> bool \<times> bool \<times> directory_info \<times> directory_info list option) exec" where
  "DirectoryTable_lookup env lk dt k source_edge_idx directory_info dirinfo_set_ptr =
     bindE (ConcurrentHashtable_constCallIfExist env lk direntry_ops (directory_hashtable dt) k
              GET_ALL_VALID_DIRINFO_FUNCNAME (GetAllValidDirinfoParam DirinfoSet_invalid)) (\<lambda>(is_exist, tmp_param).
     if \<not> is_exist then Inr (dt, False, False, directory_info, dirinfo_set_ptr)
     else
       bindE (DirinfoSet_tryToEraseIfComplete (param_dirinfo_set tmp_param) (DirectoryInfo source_edge_idx))
         (\<lambda>(valid_set, complete, is_erase). assertE complete (
       bindE (case dirinfo_set_ptr of
                None \<Rightarrow> Inr None
              | Some _ \<Rightarrow> bindE (DirinfoSet_getDirinfoSetIfComplete valid_set) (\<lambda>(complete, ds).
                          assertE complete (Inr (Some ds)))) (\<lambda>dirinfo_set_ptr.
       bindE (DirinfoSet_getDirinfoSetSizeIfComplete valid_set) (\<lambda>(complete, sz). assertE complete (
       let dirinfo_set_size = out_param 0 sz
       in if 0 < dirinfo_set_size
          then let (random_number, g) = uniform_draw env (directory_randgen dt) (dirinfo_set_size - 1)
               in assertE (random_number < dirinfo_set_size) (
                  bindE (DirinfoSet_getDirinfoIfComplete valid_set random_number) (\<lambda>(complete, d). assertE complete (
                  assertE (getTargetEdgeIdx (out_param directory_info d) \<noteq> source_edge_idx)
                    (Inr (dt\<lparr>directory_randgen := g\<rparr>, True, True, out_param directory_info d, dirinfo_set_ptr)))))
          else Inr (dt, True, False, directory_info, dirinfo_set_ptr)))))))"

definition DirectoryTable_isGlobalCached ::
    "('m, 'z) lock_env_scheme \<Rightarrow> 'm perkey_rwlock \<Rightarrow> 'g directory_table \<Rightarrow> key \<Rightarrow> bool exec" where
  "DirectoryTable_isGlobalCached env lk dt k = ConcurrentHashtable_isExist env lk (directory_hashtable dt) k"

definition DirectoryTable_isCachedByGivenEdge ::
    "('m, 'z) lock_env_scheme \<Rightarrow> 'm perkey_rwlock \<Rightarrow> 'g directory_table \<Rightarrow> key \<Rightarrow> u32 \<Rightarrow> bool exec" where
  "DirectoryTable_isCachedByGivenEdge env lk dt k edge_idx =
     bindE (DirectoryTable_getAll env lk dt k) (\<lambda>all_dirinfo.
     bindE (DirinfoSet_isExistIfComplete all_dirinfo (DirectoryInfo edge_idx)) (\<lambda>(complete, r).
     assertE complete (Inr (out_param False r))))"

definition DirectoryTable_isNeighborCached ::
    "('m, 'z) lock_env_scheme \<Rightarrow> 'm perkey_rwlock \<Rightarrow> 'g directory_table \<Rightarrow> key \<Rightarrow> u32 \<Rightarrow> bool exec" where
  "DirectoryTable_isNeighborCached env lk dt k edge_idx =
     bindE (DirectoryTable_getAll env lk dt k) (\<lambda>all_dirinfo.
     bindE (DirinfoSet_getDirinfoSetIfComplete all_dirinfo) (\<lambda>(complete, dirinfo_list).
     assertE complete (Inr (list_ex (\<lambda>d. getTargetEdgeIdx d \<noteq> edge_idx) dirinfo_list))))"

section \<open>Writing\<close>

definition DirectoryTable_update ::
    "('m, 'z) lock_env_scheme \<Rightarrow> 'm perkey_rwlock \<Rightarrow> 'g directory_table \<Rightarrow> key \<Rightarrow> bool \<Rightarrow> directory_info
     \<Rightarrow> directory_metadata \<Rightarrow> metadata_update_requirement
     \<Rightarrow> ('g directory_table \<times> bool \<times> metadata_update_requirement) exec" where
  "DirectoryTable_update env lk dt k is_admit directory_info directory_metadata requirement =
     (if is_admit
      then
        bindE (DirectoryEntry_addDirinfo DirectoryEntry_new directory_info directory_metadata)
          (\<lambda>(directory_entry, already_exist, _). assertE (\<not> already_exist) (
        bindE (ConcurrentHashtable_insertOrCall env lk direntry_ops (directory_hashtable dt) k directory_entry
                 ADD_DIRINFO_FUNCNAME (AddDirinfoParam directory_info directory_metadata False requirement))
          (\<lambda>(ht, is_exist, tmp_param).
        if \<not> is_exist then Inr (dt\<lparr>directory_hashtable := ht\<rparr>, True, MetadataUpdateRequirement_none)
        else (case tmp_param of
                AddDirinfoParam _ _ _ requirement \<Rightarrow> Inr (dt\<lparr>directory_hashtable := ht\<rparr>, True, requirement)
              | _ \<Rightarrow> Inl Undefined))))
      else
        bindE (ConcurrentHashtable_callIfExist env lk direntry_ops (directory_hashtable dt) k
                 REMOVE_DIRINFO_FUNCNAME (RemoveDirinfoParam directory_info False False requirement))
          (\<lambda>(ht, is_exist, tmp_param).
        if is_exist
        then (case tmp_param of
                RemoveDirinfoParam _ _ is_global_cached requirement \<Rightarrow>
                  Inr (dt\<lparr>directory_hashtable := ht\<rparr>, is_global_cached, requirement)
              | _ \<Rightarrow> Inl Undefined)
        else Inr (dt\<lparr>directory_hashtable := ht\<rparr>, False, MetadataUpdateRequirement_none)))"

definition DirectoryTable_invalidateAllDirinfoForKeyIfExist ::
    "('m, 'z) lock_env_scheme \<Rightarrow> 'm perkey_rwlock \<Rightarrow> 'g directory_table \<Rightarrow> key \<Rightarrow> dirinfo_set
     \<Rightarrow> ('g directory_table \<times> dirinfo_set) exec" where
  "DirectoryTable_invalidateAllDirinfoForKeyIfExist env lk dt k all_dirinfo =
     bindE (ConcurrentHashtable_callIfExist env lk direntry_ops (directory_hashtable dt) k
              INVALIDATE_METADATA_FOR_ALL_DIRINFO_IF_EXIST_FUNCNAME
              (InvalidateMetadataForAllDirinfoIfExistParam all_dirinfo)) (\<lambda>(ht, is_exist, tmp_param).
     assertE is_exist (
     bindE (DirinfoSet_getDirinfoSetSizeIfComplete (param_dirinfo_set tmp_param)) (\<lambda>(complete, sz).
     assertE complete (assertE (0 < out_param 0 sz)
       (Inr (dt\<lparr>directory_hashtable := ht\<rparr>, param_dirinfo_set tmp_param))))))"

definition DirectoryTable_validateDirinfoForKeyIfExist ::
    "('m, 'z) lock_env_scheme \<Rightarrow> 'm perkey_rwlock \<Rightarrow> 'g directory_table \<Rightarrow> key \<Rightarrow> directory_info
     \<Rightarrow> ('g directory_table \<times> bool \<times> bool) exec" where
  "DirectoryTable_validateDirinfoForKeyIfExist env lk dt k directory_info =
     bindE (ConcurrentHashtable_callIfExist env lk direntry_ops (directory_hashtable dt) k
              VALIDATE_METADATA_FOR_DIRINFO_IF_EXIST_FUNCNAME
              (ValidateMetadataForDirinfoIfExistParam directory_info False)) (\<lambda>(ht, is_key_exist, tmp_param).
     if is_key_exist
     then (case tmp_param of
             ValidateMetadataForDirinfoIfExistParam _ is_dirinfo_exist \<Rightarrow>
               Inr (dt\<lparr>directory_hashtable := ht\<rparr>, is_key_exist, is_dirinfo_exist)
           | _ \<Rightarrow> Inl Undefined)
     else Inr (dt\<lparr>directory_hashtable := ht\<rparr>, is_key_exist, False))"

definition DirectoryTable_getSizeForCapacity :: "'g directory_table \<Rightarrow> u64 exec" where
  "DirectoryTable_getSizeForCapacity dt =
     Util_uint64Add (ConcurrentHashtable_getTotalKeySizeForCapcity (directory_hashtable dt))
       (ConcurrentHashtable_getTotalValueSizeForCapcity (directory_hashtable dt))"

section \<open>Snapshots\<close>

fun dumpDirectoryTable_loop :: "(key \<times> directory_entry) list \<Rightarrow> u8 list \<Rightarrow> u8 list exec" where
  "dumpDirectoryTable_loop [] out = Inr out"
| "dumpDirectoryTable_loop ((k, e) # kvs) out =
     bindE (Key_serialize_fs k out) (\<lambda>(out, _).
     bindE (DirectoryEntry_dumpDirectoryEntry e out) (\<lambda>out. dumpDirectoryTable_loop kvs out))"

definition DirectoryTable_dumpDirectoryTable :: "'g directory_table \<Rightarrow> u8 list \<Rightarrow> u8 list exec" where
  "DirectoryTable_dumpDirectoryTable dt out =
     (let key_direntry_map = ConcurrentHashtable_getAllKeyValuePairs (directory_hashtable dt) []
      in dumpDirectoryTable_loop key_direntry_map
           (fs_write (u32_mem (word_of_nat (length key_direntry_map))) out))"

fun loadDirectoryTable_loop ::
    "('m, 'z) lock_env_scheme \<Rightarrow> 'm perkey_rwlock \<Rightarrow> nat \<Rightarrow> directory_entry concurrent_hashtable \<Rightarrow> fstream
     \<Rightarrow> (directory_entry concurrent_hashtable \<times> fstream) exec" where
  "loadDirectoryTable_loop env lk 0 ht fs = Inr (ht, fs)"
| "loadDirectoryTable_loop env lk (Suc n) ht fs =
     bindE (Key_deserialize_fs (Key []) fs) (\<lambda>(k, fs, _).
     bindE (DirectoryEntry_loadDirectoryEntry DirectoryEntry_new fs) (\<lambda>(e, fs).
     bindE (ConcurrentHashtable_putKeyValuePair env lk direntry_ops ht k e) (\<lambda>(ht, is_exist).
     assertE (\<not> is_exist) (loadDirectoryTable_loop env lk n ht fs))))"

definition DirectoryTable_loadDirectoryTable ::
    "('m, 'z) lock_env_scheme \<Rightarrow> 'm perkey_rwlock \<Rightarrow> 'g directory_table \<Rightarrow> fstream
     \<Rightarrow> ('g directory_table \<times> fstream) exec" where
  "DirectoryTable_loadDirectoryTable env lk dt fs =
     (let (key_direntry_mapsize, fs) = fs_read (u32_mem 0) fs
      in bindE (loadDirectoryTable_loop env lk (unat (mem_u32 key_direntry_mapsize)) (directory_hashtable dt) fs)
           (\<lambda>(ht, fs). Inr (dt\<lparr>directory_hashtable := ht\<rparr>, fs)))"

section \<open>The table as a map from keys to directory entries\<close>

interpretation direntry_value: table_value direntry_ops DirectoryEntry_inv direntry_param_ok
  by unfold_locales (auto simp: direntry_ops_def intro: DirectoryEntry_call_inv)

lemma direntry_ops_sel [simp]:
  "v_call direntry_ops = DirectoryEntry_call" "v_constCall direntry_ops = DirectoryEntry_constCall"
  "v_size direntry_ops = DirectoryEntry_getSizeForCapacity"
  by (simp_all add: direntry_ops_def)

abbreviation dir_map :: "('m, 'z) lock_env_scheme \<Rightarrow> 'm perkey_rwlock \<Rightarrow> 'g directory_table \<Rightarrow> key \<Rightarrow> directory_entry option" where
  "dir_map env lk dt \<equiv> ht_map env lk (directory_hashtable dt)"

definition dir_inv :: "('m, 'z) lock_env_scheme \<Rightarrow> 'm perkey_rwlock \<Rightarrow> 'g directory_table \<Rightarrow> bool" where
  "dir_inv env lk dt \<longleftrightarrow> direntry_value.table_inv env lk (directory_hashtable dt)"

text \<open>The edge nodes that cache a key, and those whose copy is valid.\<close>

definition dir_edges :: "('m, 'z) lock_env_scheme \<Rightarrow> 'm perkey_rwlock \<Rightarrow> 'g directory_table \<Rightarrow> key \<Rightarrow> directory_info list" where
  "dir_edges env lk dt k = (case dir_map env lk dt k of None \<Rightarrow> [] | Some e \<Rightarrow> map fst e)"

definition dir_valid :: "('m, 'z) lock_env_scheme \<Rightarrow> 'm perkey_rwlock \<Rightarrow> 'g directory_table \<Rightarrow> key \<Rightarrow> directory_info list" where
  "dir_valid env lk dt k = (case dir_map env lk dt k of None \<Rightarrow> [] | Some e \<Rightarrow> valid_edges e)"

definition dir_locked :: "('m, 'z) lock_env_scheme \<Rightarrow> 'm perkey_rwlock \<Rightarrow> key \<Rightarrow> bool" where
  "dir_locked env lk k \<longleftrightarrow> rwlock_wf lk \<and> PerkeyRwlock_isReadOrWriteLocked env lk k = Inr True"

definition dir_write_locked :: "('m, 'z) lock_env_scheme \<Rightarrow> 'm perkey_rwlock \<Rightarrow> key \<Rightarrow> bool" where
  "dir_write_locked env lk k \<longleftrightarrow> rwlock_wf lk \<and> PerkeyRwlock_isWriteLocked env lk k = Inr True"

text \<open>The size counters are far enough from 64 bits for one more key and one more entry.\<close>

definition dir_room :: "'g directory_table \<Rightarrow> bool" where
  "dir_room dt \<longleftrightarrow> uint (total_key_size (directory_hashtable dt)) + 2 ^ 36 \<le> 2 ^ 64
     \<and> uint (total_value_size (directory_hashtable dt)) + 2 ^ 36 \<le> 2 ^ 64"

lemma dir_room_unat:
  "dir_room dt \<longleftrightarrow> unat (total_key_size (directory_hashtable dt)) + 2 ^ 36 \<le> 2 ^ 64
     \<and> unat (total_value_size (directory_hashtable dt)) + 2 ^ 36 \<le> 2 ^ 64"
  using uint_le_iff_unat [of "total_key_size (directory_hashtable dt)" "2 ^ 36" "2 ^ 64"]
    uint_le_iff_unat [of "total_value_size (directory_hashtable dt)" "2 ^ 36" "2 ^ 64"]
  by (simp add: dir_room_def)

lemma dir_write_locked_locked: "dir_write_locked env lk k \<Longrightarrow> dir_locked env lk k"
  by (auto simp: dir_write_locked_def dir_locked_def locked_queries)

lemma dir_inv_entry: "dir_inv env lk dt \<Longrightarrow> dir_map env lk dt k = Some e \<Longrightarrow> DirectoryEntry_inv e"
  by (auto simp: dir_inv_def direntry_value.table_inv_def)

lemma dir_table_locked:
  "dir_inv env lk dt \<Longrightarrow> dir_locked env lk k \<Longrightarrow> table_locked env lk direntry_ops (directory_hashtable dt) k"
  by (simp add: dir_inv_def direntry_value.table_inv_def table_locked_def dir_locked_def)

lemma dir_table_write_locked:
  "dir_inv env lk dt \<Longrightarrow> dir_write_locked env lk k \<Longrightarrow>
   table_write_locked env lk direntry_ops (directory_hashtable dt) k"
  by (simp add: dir_inv_def direntry_value.table_inv_def table_write_locked_def dir_write_locked_def)

lemma dir_ht_room:
  assumes "dir_room dt" and "length e \<le> 2 ^ 32"
  shows "ht_room direntry_ops (directory_hashtable dt) k e"
proof -
  have "unat (Key_getKeyLength k) < 2 ^ 32" using unsigned_less [of "Key_getKeyLength k"] by simp
  moreover have "unat (word_of_nat (5 * length e) :: u64) < 2 ^ 36"
    using assms(2) by (subst unat_of_nat_small) auto
  ultimately show ?thesis
    using assms(1) by (simp add: dir_room_unat ht_room_def direntry_ops_def DirectoryEntry_size)
qed

lemma entry_size_pos: "DirectoryEntry_inv e \<Longrightarrow> 0 < (word_of_nat (length e) :: u32)"
  using length_direntry [of e] by (auto simp: DirectoryEntry_inv_def word_less_nat_alt unat_of_nat_small)

section \<open>What the operations return\<close>

lemma DirectoryTable_getAll_eq:
  assumes "dir_inv env lk dt" and "dir_locked env lk k"
  shows "DirectoryTable_getAll env lk dt k = Inr (DirinfoSet_of_list (dir_edges env lk dt k))"
proof (cases "dir_map env lk dt k")
  case None
  then show ?thesis
    by (simp add: DirectoryTable_getAll_def constCallIfExist_eq [OF dir_table_locked [OF assms]] dir_edges_def)
next
  case (Some e)
  then have "0 < (word_of_nat (length e) :: u32)"
    using entry_size_pos dir_inv_entry [OF assms(1)] by blast
  with Some show ?thesis
    by (simp add: DirectoryTable_getAll_def constCallIfExist_eq [OF dir_table_locked [OF assms]] dir_edges_def
        DirectoryEntry_constCall_eqs out_param_def)
qed

lemma DirectoryTable_isGlobalCached_eq:
  "dir_inv env lk dt \<Longrightarrow> dir_locked env lk k \<Longrightarrow>
   DirectoryTable_isGlobalCached env lk dt k = Inr (dir_map env lk dt k \<noteq> None)"
  by (simp add: DirectoryTable_isGlobalCached_def isExist_eq [OF dir_table_locked])

lemma DirectoryTable_isCachedByGivenEdge_eq:
  "dir_inv env lk dt \<Longrightarrow> dir_locked env lk k \<Longrightarrow>
   DirectoryTable_isCachedByGivenEdge env lk dt k i = Inr (DirectoryInfo i \<in> set (dir_edges env lk dt k))"
  by (simp add: DirectoryTable_isCachedByGivenEdge_def DirectoryTable_getAll_eq out_param_def)

lemma DirectoryTable_isNeighborCached_eq:
  "dir_inv env lk dt \<Longrightarrow> dir_locked env lk k \<Longrightarrow>
   DirectoryTable_isNeighborCached env lk dt k i
     = Inr (\<exists>d \<in> set (dir_edges env lk dt k). getTargetEdgeIdx d \<noteq> i)"
  by (simp add: DirectoryTable_isNeighborCached_def DirectoryTable_getAll_eq list_ex_iff)

text \<open>The distribution object draws a number between 0 and its upper bound.\<close>

definition draw_ok :: "('m, 'g, 'z) coop_env_scheme \<Rightarrow> bool" where
  "draw_ok env \<longleftrightarrow> (\<forall>g n. fst (uniform_draw env g n) \<le> n)"

lemma DirectoryTable_lookup_absent:
  assumes "dir_inv env lk dt" and "dir_locked env lk k" and "dir_map env lk dt k = None"
  shows "DirectoryTable_lookup env lk dt k src d ptr = Inr (dt, False, False, d, ptr)"
  by (simp add: DirectoryTable_lookup_def constCallIfExist_eq [OF dir_table_locked [OF assms(1,2)]] assms(3))

lemma length_valid_edges: "DirectoryEntry_inv e \<Longrightarrow> length (valid_edges e) < 2 ^ 32"
proof -
  assume "DirectoryEntry_inv e"
  then have "length e < 2 ^ 32" by (intro length_direntry) (auto simp: DirectoryEntry_inv_def)
  moreover have "length (valid_edges e) \<le> length e" by (simp add: valid_edges_def)
  ultimately show ?thesis by linarith
qed

lemma DirectoryTable_lookup_present:
  assumes inv: "dir_inv env lk dt" and lk: "dir_locked env lk k" and e: "dir_map env lk dt k = Some e"
    and vs: "vs = remove1 (DirectoryInfo src) (valid_edges e)" and draw: "draw_ok env"
  shows "vs = [] \<Longrightarrow> DirectoryTable_lookup env lk dt k src d ptr
      = Inr (dt, True, False, d, map_option (\<lambda>_. vs) ptr)"
    and "vs \<noteq> [] \<Longrightarrow> \<exists>d' g. d' \<in> set vs \<and> DirectoryTable_lookup env lk dt k src d ptr
      = Inr (dt\<lparr>directory_randgen := g\<rparr>, True, True, d', map_option (\<lambda>_. vs) ptr)"
proof -
  let ?n = "word_of_nat (length vs) :: u32"
  have ie: "DirectoryEntry_inv e" by (rule dir_inv_entry [OF inv e])
  have len: "length vs < 2 ^ 32"
    using length_valid_edges [OF ie] length_remove1 [of "DirectoryInfo src" "valid_edges e"] vs
    by (auto split: if_splits)
  note eqs = DirectoryTable_lookup_def constCallIfExist_eq [OF dir_table_locked [OF inv lk]] e
    DirectoryEntry_constCall_eqs vs [symmetric] out_param_def
  show "vs = [] \<Longrightarrow> DirectoryTable_lookup env lk dt k src d ptr = Inr (dt, True, False, d, map_option (\<lambda>_. vs) ptr)"
    by (cases ptr) (simp_all add: eqs)
  assume ne: "vs \<noteq> []"
  obtain r g where rg: "uniform_draw env (directory_randgen dt) (?n - 1) = (r, g)" by fastforce
  have pos: "0 < ?n" using ne len by (simp add: word_less_nat_alt unat_of_nat_small)
  have "r \<le> ?n - 1" using draw rg unfolding draw_ok_def by (metis fst_conv)
  then have r: "r < ?n"
    using pos by (auto simp: word_le_nat_alt word_less_nat_alt unat_sub)
  then have i: "unat r < length vs" using len by (simp add: word_less_nat_alt unat_of_nat_small)
  then have "vs ! unat r \<in> set vs" by simp
  moreover have "DirectoryInfo src \<notin> set vs"
    using distinct_valid_edges ie vs by (auto simp: DirectoryEntry_inv_def)
  ultimately have "getTargetEdgeIdx (vs ! unat r) \<noteq> src" by (metis directory_info.collapse)
  then have "DirectoryTable_lookup env lk dt k src d ptr
      = Inr (dt\<lparr>directory_randgen := g\<rparr>, True, True, vs ! unat r, map_option (\<lambda>_. vs) ptr)"
    using rg r i pos by (cases ptr) (simp_all add: eqs getDirinfo_of_list)
  with \<open>vs ! unat r \<in> set vs\<close> show "\<exists>d' g. d' \<in> set vs \<and> DirectoryTable_lookup env lk dt k src d ptr
      = Inr (dt\<lparr>directory_randgen := g\<rparr>, True, True, d', map_option (\<lambda>_. vs) ptr)"
    by blast
qed

definition entry_of :: "directory_entry option \<Rightarrow> directory_entry" where
  "entry_of r = (case r of None \<Rightarrow> [] | Some e \<Rightarrow> e)"

lemma entry_of_simps [simp]: "entry_of None = []" "entry_of (Some e) = e"
  by (simp_all add: entry_of_def)

lemma length_um_put: "length (um_put k v al) \<le> Suc (length al)"
  by (induction al) (auto simp: um_put_def)

lemma length_um_erase: "length (um_erase k al) \<le> length al"
  by (simp add: um_erase_def length_delete_le)

lemma dir_inv_length: "dir_inv env lk dt \<Longrightarrow> dir_map env lk dt k = Some e \<Longrightarrow> length e < 2 ^ 32"
  using dir_inv_entry [of env lk dt k e] length_direntry [of e] by (simp add: DirectoryEntry_inv_def)

lemma DirectoryTable_update_admit:
  assumes inv: "dir_inv env lk dt" and lk: "dir_write_locked env lk k" and room: "dir_room dt" and d: "edge_ok d"
  obtains ht where
    "DirectoryTable_update env lk dt k True d m r
       = Inr (dt\<lparr>directory_hashtable := ht\<rparr>, True, add_requirement (entry_of (dir_map env lk dt k)) d)"
    and "dir_inv env lk (dt\<lparr>directory_hashtable := ht\<rparr>)"
    and "ht_map env lk ht = (dir_map env lk dt)(k \<mapsto> um_put d m (entry_of (dir_map env lk dt k)))"
proof (cases "dir_map env lk dt k")
  case None
  have "DirectoryEntry_inv (um_put d m [])"
    using d by (auto simp: DirectoryEntry_inv_def um_put_def)
  moreover have "ht_room direntry_ops (directory_hashtable dt) k (um_put d m [])"
    using room by (intro dir_ht_room) (auto simp: um_put_def)
  ultimately obtain ht where
    "ConcurrentHashtable_insertOrCall env lk direntry_ops (directory_hashtable dt) k (um_put d m [])
       ADD_DIRINFO_FUNCNAME (AddDirinfoParam d m False r) = Inr (ht, False, AddDirinfoParam d m False r)"
    "direntry_value.table_inv env lk ht" "ht_map env lk ht = (dir_map env lk dt)(k \<mapsto> um_put d m [])"
    using direntry_value.insertOrCall_new_inv [OF inv [unfolded dir_inv_def] dir_table_write_locked [OF inv lk] None]
    by blast
  then show ?thesis
    using that [of ht] None
    by (simp add: DirectoryTable_update_def DirectoryEntry_new_def addDirinfo_eq dir_inv_def add_requirement_def)
next
  case (Some e)
  have "length (um_put d m e) \<le> 2 ^ 32"
    using dir_inv_length [OF inv Some] length_um_put [of d m e] by linarith
  then have "ht_room direntry_ops (directory_hashtable dt) k (um_put d m e)"
    using room by (rule dir_ht_room [rotated])
  then obtain ht where
    "ConcurrentHashtable_insertOrCall env lk direntry_ops (directory_hashtable dt) k (um_put d m [])
       ADD_DIRINFO_FUNCNAME (AddDirinfoParam d m False r)
     = Inr (ht, True, AddDirinfoParam d m (d \<in> edges_of e) (add_requirement e d))"
    "direntry_value.table_inv env lk ht" "ht_map env lk ht = (dir_map env lk dt)(k \<mapsto> um_put d m e)"
    using direntry_value.insertOrCall_call_inv [OF inv [unfolded dir_inv_def] dir_table_write_locked [OF inv lk] Some,
        of ADD_DIRINFO_FUNCNAME "AddDirinfoParam d m False r"] d
    by (auto simp: DirectoryEntry_call_eqs direntry_param_ok_def)
  then show ?thesis
    using that [of ht] Some
    by (simp add: DirectoryTable_update_def DirectoryEntry_new_def addDirinfo_eq dir_inv_def)
qed

lemma DirectoryTable_update_evict_absent:
  assumes inv: "dir_inv env lk dt" and lk: "dir_write_locked env lk k" and "dir_map env lk dt k = None"
  shows "DirectoryTable_update env lk dt k False d m r = Inr (dt, False, MetadataUpdateRequirement_none)"
  using callIfExist_absent [OF dir_table_write_locked [OF inv lk] assms(3)]
  by (simp add: DirectoryTable_update_def)

lemma DirectoryTable_update_evict:
  assumes inv: "dir_inv env lk dt" and lk: "dir_write_locked env lk k" and room: "dir_room dt"
    and e: "dir_map env lk dt k = Some e"
  obtains ht where
    "DirectoryTable_update env lk dt k False d m r
       = Inr (dt\<lparr>directory_hashtable := ht\<rparr>, um_erase d e \<noteq> [], remove_requirement e d)"
    and "dir_inv env lk (dt\<lparr>directory_hashtable := ht\<rparr>)"
    and "ht_map env lk ht = (dir_map env lk dt)(k := if um_erase d e = [] then None else Some (um_erase d e))"
proof -
  have "length (um_erase d e) \<le> 2 ^ 32"
    using dir_inv_length [OF inv e] length_um_erase [of d e] by linarith
  then have "ht_room direntry_ops (directory_hashtable dt) k (um_erase d e)"
    using room by (rule dir_ht_room [rotated])
  then obtain ht where
    "ConcurrentHashtable_callIfExist env lk direntry_ops (directory_hashtable dt) k
       REMOVE_DIRINFO_FUNCNAME (RemoveDirinfoParam d False False r)
     = Inr (ht, True, RemoveDirinfoParam d (d \<in> edges_of e) (um_erase d e \<noteq> []) (remove_requirement e d))"
    "direntry_value.table_inv env lk ht"
    "ht_map env lk ht = (dir_map env lk dt)(k := if um_erase d e = [] then None else Some (um_erase d e))"
    using direntry_value.callIfExist_call_inv [OF inv [unfolded dir_inv_def] dir_table_write_locked [OF inv lk] e,
        of REMOVE_DIRINFO_FUNCNAME "RemoveDirinfoParam d False False r"]
    by (auto simp: DirectoryEntry_call_eqs direntry_param_ok_def)
  then show ?thesis
    using that [of ht] by (simp add: DirectoryTable_update_def dir_inv_def)
qed

lemma DirectoryTable_invalidate:
  assumes inv: "dir_inv env lk dt" and lk: "dir_write_locked env lk k" and room: "dir_room dt"
    and e: "dir_map env lk dt k = Some e"
  obtains ht where
    "DirectoryTable_invalidateAllDirinfoForKeyIfExist env lk dt k s
       = Inr (dt\<lparr>directory_hashtable := ht\<rparr>, DirinfoSet_of_list (map fst e))"
    and "dir_inv env lk (dt\<lparr>directory_hashtable := ht\<rparr>)"
    and "ht_map env lk ht = (dir_map env lk dt)(k \<mapsto> map (\<lambda>(d, _). (d, DirectoryMetadata False)) e)"
proof -
  let ?e = "map (\<lambda>(d, _). (d, DirectoryMetadata False)) e"
  have "ht_room direntry_ops (directory_hashtable dt) k ?e"
    using dir_inv_length [OF inv e] by (intro dir_ht_room [OF room]) simp
  then obtain ht where
    "ConcurrentHashtable_callIfExist env lk direntry_ops (directory_hashtable dt) k
       INVALIDATE_METADATA_FOR_ALL_DIRINFO_IF_EXIST_FUNCNAME (InvalidateMetadataForAllDirinfoIfExistParam s)
     = Inr (ht, True, InvalidateMetadataForAllDirinfoIfExistParam (DirinfoSet_of_list (map fst e)))"
    "direntry_value.table_inv env lk ht" "ht_map env lk ht = (dir_map env lk dt)(k \<mapsto> ?e)"
    using direntry_value.callIfExist_call_inv [OF inv [unfolded dir_inv_def] dir_table_write_locked [OF inv lk] e,
        of INVALIDATE_METADATA_FOR_ALL_DIRINFO_IF_EXIST_FUNCNAME "InvalidateMetadataForAllDirinfoIfExistParam s"]
    by (auto simp: DirectoryEntry_call_eqs direntry_param_ok_def)
  moreover have "0 < (word_of_nat (length e) :: u32)"
    by (rule entry_size_pos [OF dir_inv_entry [OF inv e]])
  ultimately show ?thesis
    using that [of ht]
    by (simp add: DirectoryTable_invalidateAllDirinfoForKeyIfExist_def dir_inv_def out_param_def)
qed

lemma DirectoryTable_validate_absent:
  assumes inv: "dir_inv env lk dt" and lk: "dir_write_locked env lk k" and "dir_map env lk dt k = None"
  shows "DirectoryTable_validateDirinfoForKeyIfExist env lk dt k d = Inr (dt, False, False)"
  using callIfExist_absent [OF dir_table_write_locked [OF inv lk] assms(3)]
  by (simp add: DirectoryTable_validateDirinfoForKeyIfExist_def)

lemma DirectoryTable_validate:
  assumes inv: "dir_inv env lk dt" and lk: "dir_write_locked env lk k" and room: "dir_room dt"
    and e: "dir_map env lk dt k = Some e"
  obtains ht where
    "DirectoryTable_validateDirinfoForKeyIfExist env lk dt k d
       = Inr (dt\<lparr>directory_hashtable := ht\<rparr>, True, d \<in> edges_of e)"
    and "dir_inv env lk (dt\<lparr>directory_hashtable := ht\<rparr>)"
    and "ht_map env lk ht = (dir_map env lk dt)
      (k \<mapsto> if d \<in> edges_of e then um_put d (DirectoryMetadata True) e else e)"
proof -
  let ?e = "if d \<in> edges_of e then um_put d (DirectoryMetadata True) e else e"
  have "length ?e \<le> 2 ^ 32"
    using dir_inv_length [OF inv e] length_um_put [of d "DirectoryMetadata True" e] by auto
  then have "ht_room direntry_ops (directory_hashtable dt) k ?e"
    using room by (rule dir_ht_room [rotated])
  then obtain ht where
    "ConcurrentHashtable_callIfExist env lk direntry_ops (directory_hashtable dt) k
       VALIDATE_METADATA_FOR_DIRINFO_IF_EXIST_FUNCNAME (ValidateMetadataForDirinfoIfExistParam d False)
     = Inr (ht, True, ValidateMetadataForDirinfoIfExistParam d (d \<in> edges_of e))"
    "direntry_value.table_inv env lk ht" "ht_map env lk ht = (dir_map env lk dt)(k \<mapsto> ?e)"
    using direntry_value.callIfExist_call_inv [OF inv [unfolded dir_inv_def] dir_table_write_locked [OF inv lk] e,
        of VALIDATE_METADATA_FOR_DIRINFO_IF_EXIST_FUNCNAME "ValidateMetadataForDirinfoIfExistParam d False"]
    by (auto simp: DirectoryEntry_call_eqs direntry_param_ok_def)
  then show ?thesis
    using that [of ht] by (simp add: DirectoryTable_validateDirinfoForKeyIfExist_def dir_inv_def)
qed

section \<open>Snapshots of the table\<close>

definition pair_enc :: "key \<times> directory_entry \<Rightarrow> u8 list" where
  "pair_enc kv = Key_enc (fst kv) @ DirectoryEntry_enc (snd kv)"

lemma dump_table_loop_enc:
  "\<forall>kv \<in> set kvs. Key_wf (fst kv) \<Longrightarrow>
   dumpDirectoryTable_loop kvs out = Inr (out @ concat (map pair_enc kvs))"
  by (induction kvs arbitrary: out)
    (auto simp: key_stream.fs_ser_enc dumpDirectoryEntry_enc pair_enc_def)

lemma load_table_loop_enc:
  assumes "ht_wf env lk direntry_ops ht" and "rwlock_wf lk"
    and "\<forall>kv \<in> set kvs. Key_wf (fst kv) \<and> um_wf (snd kv) \<and> length (snd kv) < 2 ^ 32"
    and "um_wf kvs" and "\<forall>k \<in> fst ` set kvs. ht_map env lk ht k = None"
    and "unat (total_key_size ht) + sum_list (map key_weight kvs) < 2 ^ 64"
    and "unat (total_value_size ht) + sum_list (map (value_weight direntry_ops) kvs) < 2 ^ 64"
  shows "\<exists>ht'. loadDirectoryTable_loop env lk (length kvs) ht (good_fs (concat (map pair_enc kvs) @ rest))
        = Inr (ht', good_fs rest)
      \<and> ht_wf env lk direntry_ops ht' \<and> ht_map env lk ht' = ht_map env lk ht ++ map_of kvs"
  using assms
proof (induction kvs arbitrary: ht)
  case Nil
  then show ?case by simp
next
  case (Cons kv kvs)
  obtain k e where kv: "kv = (k, e)" by (cases kv)
  have "ht_map env lk ht k = None" "ht_room direntry_ops ht k e"
    using Cons.prems kv by (simp_all add: ht_room_def key_weight_def value_weight_def)
  from putKeyValuePair_new [OF Cons.prems(1,2) this] obtain ht1 where
    ht1: "ConcurrentHashtable_putKeyValuePair env lk direntry_ops ht k e = Inr (ht1, False)"
    "ht_wf env lk direntry_ops ht1" "ht_map env lk ht1 = (ht_map env lk ht)(k \<mapsto> e)"
    "unat (total_key_size ht1) = unat (total_key_size ht) + key_weight (k, e)"
    "unat (total_value_size ht1) = unat (total_value_size ht) + value_weight direntry_ops (k, e)" .
  have "\<exists>ht'. loadDirectoryTable_loop env lk (length kvs) ht1 (good_fs (concat (map pair_enc kvs) @ rest))
        = Inr (ht', good_fs rest)
      \<and> ht_wf env lk direntry_ops ht' \<and> ht_map env lk ht' = ht_map env lk ht1 ++ map_of kvs"
    using Cons.prems kv ht1 by (intro Cons.IH) auto
  then obtain ht' where
    ht': "loadDirectoryTable_loop env lk (length kvs) ht1 (good_fs (concat (map pair_enc kvs) @ rest))
      = Inr (ht', good_fs rest)"
    "ht_wf env lk direntry_ops ht'" "ht_map env lk ht' = ht_map env lk ht1 ++ map_of kvs" by blast
  have "ht_map env lk ht1 ++ map_of kvs = ht_map env lk ht ++ map_of (kv # kvs)"
    using Cons.prems(4) kv ht1(3) by (simp add: map_add_upd_left dom_map_of_conv_image_fst)
  moreover have "loadDirectoryTable_loop env lk (length (kv # kvs)) ht
      (good_fs (concat (map pair_enc (kv # kvs)) @ rest)) = Inr (ht', good_fs rest)"
    using Cons.prems(3) kv ht1(1) ht'(1)
    by (simp add: pair_enc_def [of "(k, e)"] key_stream.fs_deser_enc loadDirectoryEntry_enc)
  ultimately show ?case
    using ht'(2,3) by metis
qed

section \<open>Properties\<close>

lemma lookup_spec:
  assumes "dir_inv env lk dt" and "dir_locked env lk k" and "draw_ok env"
  shows "\<exists>dt' is_global_cached is_valid d' ds. DirectoryTable_lookup env lk dt k src d ptr
      = Inr (dt', is_global_cached, is_valid, d', ds)
    \<and> directory_hashtable dt' = directory_hashtable dt
    \<and> (is_global_cached \<longleftrightarrow> dir_map env lk dt k \<noteq> None)
    \<and> (is_valid \<longleftrightarrow> (\<exists>n \<in> set (dir_valid env lk dt k). getTargetEdgeIdx n \<noteq> src))
    \<and> (if is_valid then d' \<in> set (dir_valid env lk dt k) \<and> getTargetEdgeIdx d' \<noteq> src else d' = d)"
proof (cases "dir_map env lk dt k")
  case None
  then show ?thesis
    using DirectoryTable_lookup_absent [OF assms(1,2) None] by (auto simp: dir_valid_def)
next
  case (Some e)
  let ?vs = "remove1 (DirectoryInfo src) (valid_edges e)"
  have "um_wf e" using dir_inv_entry [OF assms(1) Some] by (simp add: DirectoryEntry_inv_def)
  then have vs: "set ?vs = {n \<in> set (valid_edges e). getTargetEdgeIdx n \<noteq> src}"
    using distinct_valid_edges by (auto simp: set_remove1_eq)
  show ?thesis
  proof (cases "?vs = []")
    case True
    then have "\<forall>n \<in> set (valid_edges e). getTargetEdgeIdx n = src"
      using vs by (metis (mono_tags, lifting) empty_iff list.set(1) mem_Collect_eq)
    then show ?thesis
      using DirectoryTable_lookup_present(1) [OF assms(1,2) Some refl assms(3) True] Some
      by (auto simp: dir_valid_def)
  next
    case False
    from DirectoryTable_lookup_present(2) [OF assms(1,2) Some refl assms(3) False]
    obtain d' g where "d' \<in> set ?vs" "DirectoryTable_lookup env lk dt k src d ptr
        = Inr (dt\<lparr>directory_randgen := g\<rparr>, True, True, d', map_option (\<lambda>_. ?vs) ptr)"
      by blast
    then show ?thesis
      using vs Some by (auto simp: dir_valid_def)
  qed
qed

text \<open>C8: Look-up of a content directory. Under the lock, \<open>lookup\<close> always returns: for a key no edge
  node caches it reports nothing; otherwise it reports the key as globally cached, and reports a valid
  directory exactly when some edge node other than the requester holds a valid copy, in which case
  the directory returned is such a node. The table keeps its contents.\<close>

theorem lookup_finds_valid_neighbor:
  assumes "dir_inv env lk dt" and "dir_locked env lk k" and "draw_ok env"
  shows "\<exists>dt' is_global_cached is_valid d' ds. DirectoryTable_lookup env lk dt k src d ptr
      = Inr (dt', is_global_cached, is_valid, d', ds)
    \<and> directory_hashtable dt' = directory_hashtable dt
    \<and> (is_global_cached \<longleftrightarrow> dir_map env lk dt k \<noteq> None)
    \<and> (is_valid \<longleftrightarrow> (\<exists>n \<in> set (dir_valid env lk dt k). getTargetEdgeIdx n \<noteq> src))
    \<and> (if is_valid then d' \<in> set (dir_valid env lk dt k) \<and> getTargetEdgeIdx d' \<noteq> src else d' = d)"
  using assms by (rule lookup_spec)

text \<open>An environment with the counting mutex and the least number drawn, and a table with one key.\<close>

definition least_env :: "(key \<Rightarrow> u32) \<Rightarrow> (nat \<times> bool, unit) coop_env" where
  "least_env h = \<lparr>is_assert = True, hash_fn = h, mtx_init = (0, False),
     mtx_try_lock_shared = (\<lambda>(n, w). if w then (False, (n, w)) else (True, (Suc n, w))),
     mtx_unlock_shared = (\<lambda>(n, w). (n - 1, w)),
     mtx_try_lock = (\<lambda>(n, w). if w \<or> 0 < n then (False, (n, w)) else (True, (n, True))),
     mtx_unlock = (\<lambda>(n, w). (n, False)), uniform_draw = (\<lambda>g n. (0, g))\<rparr>"

lemma least_env_ok: "shared_mutex_ok (least_env h) fst snd" "draw_ok (least_env h)"
  by (auto simp: shared_mutex_ok_def draw_ok_def least_env_def split: if_splits)

definition example_table :: "unit directory_table" where
  "example_table = \<lparr>directory_hashtable =
       \<lparr>hashtables = [[(Key [1], [(DirectoryInfo 3, DirectoryMetadata True)])]],
        total_key_size = 1, total_value_size = 5\<rparr>, directory_randgen = ()\<rparr>"

lemma example_table_ok:
  "dir_inv (least_env (\<lambda>_. 0)) one_lock_written example_table"
  "dir_write_locked (least_env (\<lambda>_. 0)) one_lock_written k" "dir_room example_table"
  by (auto simp: dir_inv_def direntry_value.table_inv_def ht_wf_def bucketed_def weight_def key_weight_def
      value_weight_def ht_map_def lock_idx_def example_table_def one_lock_written_def least_env_def
      Key_getKeyLength_def DirectoryEntry_size DirectoryEntry_inv_def edge_ok_def dir_write_locked_def
      rwlock_wf_def PerkeyRwlock_isWriteLocked_def PerkeyRwlock_getRwlockIndex_def dir_room_unat
      split: if_splits)

theorem lookup_finds_valid_neighbor_witness:
  "\<exists>dt' is_global_cached is_valid d' ds.
     DirectoryTable_lookup (least_env (\<lambda>_. 0)) one_lock_written example_table (Key [1]) 7 (DirectoryInfo 0) None
      = Inr (dt', is_global_cached, is_valid, d', ds)
    \<and> directory_hashtable dt' = directory_hashtable example_table
    \<and> (is_global_cached \<longleftrightarrow> dir_map (least_env (\<lambda>_. 0)) one_lock_written example_table (Key [1]) \<noteq> None)
    \<and> (is_valid \<longleftrightarrow> (\<exists>n \<in> set (dir_valid (least_env (\<lambda>_. 0)) one_lock_written example_table (Key [1])).
          getTargetEdgeIdx n \<noteq> 7))
    \<and> (if is_valid
       then d' \<in> set (dir_valid (least_env (\<lambda>_. 0)) one_lock_written example_table (Key [1]))
         \<and> getTargetEdgeIdx d' \<noteq> 7
       else d' = DirectoryInfo 0)"
  by (rule lookup_finds_valid_neighbor)
    (simp_all add: example_table_ok least_env_ok dir_write_locked_locked)

lemma entry_edges:
  "set (dir_edges env lk dt k) = edges_of (entry_of (dir_map env lk dt k))"
  by (cases "dir_map env lk dt k") (auto simp: dir_edges_def edges_of_set)

lemma entry_of_wf: "dir_inv env lk dt \<Longrightarrow> um_wf (entry_of (dir_map env lk dt k))"
  by (cases "dir_map env lk dt k") (auto dest: dir_inv_entry simp: DirectoryEntry_inv_def)

lemma update_admit_edges:
  assumes "dir_inv env lk dt" and "dir_write_locked env lk k" and "dir_room dt" and "edge_ok d"
  obtains dt' where
    "DirectoryTable_update env lk dt k True d m r
       = Inr (dt', True, add_requirement (entry_of (dir_map env lk dt k)) d)"
    and "dir_inv env lk dt'" and "directory_randgen dt' = directory_randgen dt"
    and "dir_map env lk dt' = (dir_map env lk dt)(k \<mapsto> um_put d m (entry_of (dir_map env lk dt k)))"
proof -
  from DirectoryTable_update_admit [OF assms, of m r] obtain ht where
    "DirectoryTable_update env lk dt k True d m r
       = Inr (dt\<lparr>directory_hashtable := ht\<rparr>, True, add_requirement (entry_of (dir_map env lk dt k)) d)"
    "dir_inv env lk (dt\<lparr>directory_hashtable := ht\<rparr>)"
    "ht_map env lk ht = (dir_map env lk dt)(k \<mapsto> um_put d m (entry_of (dir_map env lk dt k)))" .
  then show ?thesis
    using that [of "dt\<lparr>directory_hashtable := ht\<rparr>"] by simp
qed

lemma update_evict_edges:
  assumes inv: "dir_inv env lk dt" and lk: "dir_write_locked env lk k" and room: "dir_room dt"
  obtains dt' where
    "DirectoryTable_update env lk dt k False d m r
       = Inr (dt', um_erase d (entry_of (dir_map env lk dt k)) \<noteq> [],
              remove_requirement (entry_of (dir_map env lk dt k)) d)"
    and "dir_inv env lk dt'" and "directory_randgen dt' = directory_randgen dt"
    and "dir_map env lk dt' = (dir_map env lk dt)
      (k := if um_erase d (entry_of (dir_map env lk dt k)) = [] then None
            else Some (um_erase d (entry_of (dir_map env lk dt k))))"
proof (cases "dir_map env lk dt k")
  case None
  then show ?thesis
    using that [of dt] DirectoryTable_update_evict_absent [OF inv lk None, of d m r] inv
    by (simp add: um_erase_def remove_requirement_def fun_upd_idem)
next
  case (Some e)
  from DirectoryTable_update_evict [OF inv lk room Some, of d m r] obtain ht where
    "DirectoryTable_update env lk dt k False d m r
       = Inr (dt\<lparr>directory_hashtable := ht\<rparr>, um_erase d e \<noteq> [], remove_requirement e d)"
    "dir_inv env lk (dt\<lparr>directory_hashtable := ht\<rparr>)"
    "ht_map env lk ht = (dir_map env lk dt)(k := if um_erase d e = [] then None else Some (um_erase d e))" .
  then show ?thesis
    using that [of "dt\<lparr>directory_hashtable := ht\<rparr>"] Some by simp
qed

text \<open>Update of a content directory. Under the write lock and with room in the size counters,
  \<open>update\<close> returns, adds or removes exactly the given edge node for exactly the given key, keeps the
  invariant of the table (no empty or duplicate entries, exact size counters), reports whether the
  key is still cached anywhere, and asks for a notification exactly when the number of copies goes
  from one to two or from two to one.\<close>

theorem update_directory_table:
  assumes "dir_inv env lk dt" and "dir_write_locked env lk k" and "dir_room dt" and "edge_ok d"
  shows "\<exists>dt' is_global_cached r. DirectoryTable_update env lk dt k is_admit d m r0 = Inr (dt', is_global_cached, r)
    \<and> dir_inv env lk dt'
    \<and> (is_global_cached \<longleftrightarrow> dir_map env lk dt' k \<noteq> None)
    \<and> (dir_map env lk dt')(k := None) = (dir_map env lk dt)(k := None)
    \<and> set (dir_edges env lk dt' k)
        = (if is_admit then insert d (set (dir_edges env lk dt k)) else set (dir_edges env lk dt k) - {d})
    \<and> (is_from_single_to_multiple r \<longleftrightarrow>
         card (set (dir_edges env lk dt k)) = 1 \<and> card (set (dir_edges env lk dt' k)) = 2)
    \<and> (is_from_multiple_to_single r \<longleftrightarrow>
         card (set (dir_edges env lk dt k)) = 2 \<and> card (set (dir_edges env lk dt' k)) = 1)"
proof (cases is_admit)
  case True
  let ?e = "entry_of (dir_map env lk dt k)"
  from update_admit_edges [OF assms, of m r0] obtain dt' where
    dt': "DirectoryTable_update env lk dt k True d m r0 = Inr (dt', True, add_requirement ?e d)"
    "dir_inv env lk dt'" "dir_map env lk dt' = (dir_map env lk dt)(k \<mapsto> um_put d m ?e)" .
  have edges: "set (dir_edges env lk dt' k) = insert d (set (dir_edges env lk dt k))"
    by (simp add: entry_edges dt'(3))
  have "card (insert d (set (dir_edges env lk dt k))) \<noteq> 1 \<or> card (set (dir_edges env lk dt k)) \<noteq> 2"
    by (simp add: card_insert_if)
  moreover note add_requirement_iff(1,3) [OF entry_of_wf [OF assms(1)], of k d, folded entry_edges]
  ultimately show ?thesis
    using dt' True by (simp add: edges) blast
next
  case False
  let ?e = "entry_of (dir_map env lk dt k)"
  from update_evict_edges [OF assms(1-3), of d m r0] obtain dt' where
    dt': "DirectoryTable_update env lk dt k False d m r0 = Inr (dt', um_erase d ?e \<noteq> [], remove_requirement ?e d)"
    "dir_inv env lk dt'"
    "dir_map env lk dt' = (dir_map env lk dt)(k := if um_erase d ?e = [] then None else Some (um_erase d ?e))" .
  have "edges_of (um_erase d ?e) = edges_of ?e - {d}" by simp
  then have edges: "set (dir_edges env lk dt' k) = set (dir_edges env lk dt k) - {d}"
    by (cases "um_erase d ?e = []") (simp_all add: entry_edges dt'(3))
  have "card (set (dir_edges env lk dt k) - {d}) \<noteq> 2 \<or> card (set (dir_edges env lk dt k)) \<noteq> 1"
    by (cases "d \<in> set (dir_edges env lk dt k)") auto
  moreover note remove_requirement_iff(1,3) [OF entry_of_wf [OF assms(1)], of k d, folded entry_edges]
  ultimately show ?thesis
    using dt' False by (simp add: edges) blast
qed

theorem update_directory_table_witness:
  "\<exists>dt' is_global_cached r.
     DirectoryTable_update (least_env (\<lambda>_. 0)) one_lock_written example_table (Key [1]) True (DirectoryInfo 5)
       (DirectoryMetadata True) MetadataUpdateRequirement_none = Inr (dt', is_global_cached, r)
    \<and> dir_inv (least_env (\<lambda>_. 0)) one_lock_written dt'
    \<and> (is_global_cached \<longleftrightarrow> dir_map (least_env (\<lambda>_. 0)) one_lock_written dt' (Key [1]) \<noteq> None)
    \<and> (dir_map (least_env (\<lambda>_. 0)) one_lock_written dt')(Key [1] := None)
        = (dir_map (least_env (\<lambda>_. 0)) one_lock_written example_table)(Key [1] := None)
    \<and> set (dir_edges (least_env (\<lambda>_. 0)) one_lock_written dt' (Key [1]))
        = (if True then insert (DirectoryInfo 5) (set (dir_edges (least_env (\<lambda>_. 0)) one_lock_written example_table (Key [1])))
           else set (dir_edges (least_env (\<lambda>_. 0)) one_lock_written example_table (Key [1])) - {DirectoryInfo 5})
    \<and> (is_from_single_to_multiple r \<longleftrightarrow>
         card (set (dir_edges (least_env (\<lambda>_. 0)) one_lock_written example_table (Key [1]))) = 1
         \<and> card (set (dir_edges (least_env (\<lambda>_. 0)) one_lock_written dt' (Key [1]))) = 2)
    \<and> (is_from_multiple_to_single r \<longleftrightarrow>
         card (set (dir_edges (least_env (\<lambda>_. 0)) one_lock_written example_table (Key [1]))) = 2
         \<and> card (set (dir_edges (least_env (\<lambda>_. 0)) one_lock_written dt' (Key [1]))) = 1)"
  by (rule update_directory_table) (simp_all add: example_table_ok edge_ok_def)

text \<open>Snapshot round trip of the directory table. Dumping a table and loading the file into a new
  table, with any number of locks and any hash function, returns and gives the same directory
  entries for every key; the assertion that no key is loaded twice cannot fail.\<close>

theorem directory_table_snapshot:
  assumes "dir_inv env lk dt" and "rwlock_wf lk" and "rwlock_wf lk'"
    and "\<forall>k \<in> dom (dir_map env lk dt). Key_wf k" and "length (concat (hashtables (directory_hashtable dt))) < 2 ^ 32"
  shows "\<exists>bs dt'. DirectoryTable_dumpDirectoryTable dt [] = Inr bs
    \<and> DirectoryTable_loadDirectoryTable env' lk' (DirectoryTable_new lk' g) (good_fs (bs @ rest)) = Inr (dt', good_fs rest)
    \<and> dir_inv env' lk' dt' \<and> dir_map env' lk' dt' = dir_map env lk dt"
proof -
  let ?t = "directory_hashtable dt" and ?kvs = "concat (hashtables (directory_hashtable dt))"
  have wf: "ht_wf env lk direntry_ops ?t"
    using assms(1) by (simp add: dir_inv_def direntry_value.table_inv_def)
  note kvs = getAllKeyValuePairs_eq [OF wf assms(2)]
  have entries: "DirectoryEntry_inv e \<and> Key_wf k" if "(k, e) \<in> set ?kvs" for k e
    using that assms(1,4) kvs(2,3) map_of_is_SomeI [OF kvs(3) that]
    by (auto simp: dir_inv_def direntry_value.table_inv_def)
  have ok: "\<forall>kv \<in> set ?kvs. Key_wf (fst kv) \<and> um_wf (snd kv) \<and> length (snd kv) < 2 ^ 32"
    using entries length_direntry by (fastforce simp: DirectoryEntry_inv_def)
  have sums: "sum_list (map key_weight ?kvs) < 2 ^ 64" "sum_list (map (value_weight direntry_ops) ?kvs) < 2 ^ 64"
    using wf unat_less_64 [of "total_key_size ?t"] unat_less_64 [of "total_value_size ?t"]
    by (simp_all add: weight_concat ht_wf_def)
  have "\<exists>ht'. loadDirectoryTable_loop env' lk' (length ?kvs) (ConcurrentHashtable_new lk')
        (good_fs (concat (map pair_enc ?kvs) @ rest)) = Inr (ht', good_fs rest)
      \<and> ht_wf env' lk' direntry_ops ht' \<and> ht_map env' lk' ht' = ht_map env' lk' (ConcurrentHashtable_new lk') ++ map_of ?kvs"
    using ok kvs(3) sums by (intro load_table_loop_enc [OF ht_wf_new assms(3)]) (auto simp: ht_map_new [OF assms(3)])
  then obtain ht' where ht': "loadDirectoryTable_loop env' lk' (length ?kvs) (ConcurrentHashtable_new lk')
        (good_fs (concat (map pair_enc ?kvs) @ rest)) = Inr (ht', good_fs rest)"
      "ht_wf env' lk' direntry_ops ht'" "ht_map env' lk' ht' = ht_map env lk ?t"
    by (auto simp: ht_map_new [OF assms(3)] kvs(2))
  define bs where "bs = u32_mem (word_of_nat (length ?kvs)) @ concat (map pair_enc ?kvs)"
  have "DirectoryTable_dumpDirectoryTable dt [] = Inr bs"
    using ok dump_table_loop_enc [of ?kvs "u32_mem (word_of_nat (length ?kvs))"]
    by (auto simp: DirectoryTable_dumpDirectoryTable_def kvs(1) bs_def Let_def)
  moreover have "DirectoryTable_loadDirectoryTable env' lk' (DirectoryTable_new lk' g) (good_fs (bs @ rest))
      = Inr ((DirectoryTable_new lk' g)\<lparr>directory_hashtable := ht'\<rparr>, good_fs rest)"
    using ht'(1) assms(5)
    by (simp add: DirectoryTable_loadDirectoryTable_def DirectoryTable_new_def bs_def unat_of_nat_small del: length_concat)
  moreover have "dir_inv env' lk' ((DirectoryTable_new lk' g)\<lparr>directory_hashtable := ht'\<rparr>)"
    using assms(1) ht'(2,3) by (simp add: dir_inv_def direntry_value.table_inv_def)
  ultimately show ?thesis using ht'(3) by auto
qed

theorem directory_table_snapshot_witness:
  "\<exists>bs dt'. DirectoryTable_dumpDirectoryTable example_table [] = Inr bs
    \<and> DirectoryTable_loadDirectoryTable (least_env (\<lambda>k. Key_getKeyLength k)) (PerkeyRwlock_new (least_env (\<lambda>_. 0)) 4 True)
        (DirectoryTable_new (PerkeyRwlock_new (least_env (\<lambda>_. 0)) 4 True) ()) (good_fs (bs @ [])) = Inr (dt', good_fs [])
    \<and> dir_inv (least_env (\<lambda>k. Key_getKeyLength k)) (PerkeyRwlock_new (least_env (\<lambda>_. 0)) 4 True) dt'
    \<and> dir_map (least_env (\<lambda>k. Key_getKeyLength k)) (PerkeyRwlock_new (least_env (\<lambda>_. 0)) 4 True) dt'
      = dir_map (least_env (\<lambda>_. 0)) one_lock_written example_table"
proof (rule directory_table_snapshot)
  show "\<forall>k \<in> dom (dir_map (least_env (\<lambda>_. 0)) one_lock_written example_table). Key_wf k"
    by (auto simp: example_table_def ht_map_def lock_idx_def one_lock_written_def least_env_def Key_wf_def
        split: if_splits)
  show "length (concat (hashtables (directory_hashtable example_table))) < 2 ^ 32"
    by (simp add: example_table_def)
qed (simp_all add: example_table_ok one_lock_written_ok rwlock_wf_new)

end
