(* ===== verification/Network_Addr.thy ===== *)
theory Network_Addr
  imports Wire_Format Keys_Values
begin

text \<open>
  \<open>NetworkAddr\<close> (\<open>src/src/network/network_addr.c\<close>): the address of a server of an edge node, the form in
  which a beacon remembers the edge nodes it has blocked. The POSIX functions \<open>inet_pton\<close> and
  \<open>inet_ntop\<close> are parameters: the first gives a return value and the four bytes it wrote, the second
  the text or nothing. The source asserts that the return value of \<open>inet_pton\<close> is not negative; 0 means
  that the text is no address, and then the bytes sent are those of an uninitialised variable.
\<close>

record network_addr =
  ipstr :: "u8 list"
  port :: u16
  is_valid :: bool

record inet_env =
  inet_pton :: "u8 list \<Rightarrow> int \<times> u8 list"
  inet_ntop :: "u8 list \<Rightarrow> u8 list option"

definition NetworkAddr_invalid :: network_addr where
  "NetworkAddr_invalid = \<lparr>ipstr = [], port = 0, is_valid = False\<rparr>"

definition NetworkAddr_new :: "u8 list \<Rightarrow> u16 \<Rightarrow> network_addr" where
  "NetworkAddr_new ip p = \<lparr>ipstr = ip, port = p, is_valid = True\<rparr>"

definition NetworkAddr_setIpstr :: "u8 list \<Rightarrow> network_addr \<Rightarrow> network_addr" where
  "NetworkAddr_setIpstr ip a = a\<lparr>ipstr := ip\<rparr>"

definition NetworkAddr_setPort :: "u16 \<Rightarrow> network_addr \<Rightarrow> network_addr" where
  "NetworkAddr_setPort p a = a\<lparr>port := p\<rparr>"

definition NetworkAddr_setValidAddr :: "network_addr \<Rightarrow> network_addr" where
  "NetworkAddr_setValidAddr a = a\<lparr>is_valid := True\<rparr>"

definition NetworkAddr_resetValidAddr :: "network_addr \<Rightarrow> network_addr" where
  "NetworkAddr_resetValidAddr a = a\<lparr>is_valid := False\<rparr>"

definition NetworkAddr_getSizeForCapacity :: "network_addr \<Rightarrow> u64" where
  "NetworkAddr_getSizeForCapacity a = word_of_nat (length (ipstr a)) + 2"

definition NetworkAddr_getAddrPayloadSize :: "network_addr \<Rightarrow> u32" where
  "NetworkAddr_getAddrPayloadSize a = 4 + 2"

definition NetworkAddr_serialize :: "inet_env \<Rightarrow> network_addr serializer" where
  "NetworkAddr_serialize inet a msg_payload position =
     (let (return_val, ipint) = inet_pton inet (ipstr a)
      in assertE (0 \<le> return_val)
        (definedE (return_val = 1)
          (bindE (DynamicArray_deserialize msg_payload position ipint 4) (\<lambda>msg_payload.
           bindE (DynamicArray_deserialize msg_payload (position + 4) (htons_mem (port a)) 2) (\<lambda>msg_payload.
           Inr (msg_payload, position + 4 + 2 - position))))))"

definition NetworkAddr_deserialize :: "inet_env \<Rightarrow> network_addr deserializer" where
  "NetworkAddr_deserialize inet this msg_payload position =
     bindE (DynamicArray_serialize msg_payload position 4) (\<lambda>ipint.
     (case inet_ntop inet ipint of
        None \<Rightarrow> Inl AssertFailed
      | Some ipstr_bytes \<Rightarrow>
          bindE (DynamicArray_serialize msg_payload (position + 4) 2) (\<lambda>bigendian_port.
          Inr (\<lparr>ipstr = ipstr_bytes, port = mem_ntohs bigendian_port, is_valid = True\<rparr>,
               position + 4 + 2 - position))))"

definition NetworkAddr_less :: "network_addr \<Rightarrow> network_addr \<Rightarrow> bool" where
  "NetworkAddr_less a b =
     (let ipstr_compare_result = string_compare (ipstr a) (ipstr b)
      in if ipstr_compare_result < 0 then True
         else if 0 < ipstr_compare_result then False
         else port a < port b)"

definition NetworkAddr_equal :: "network_addr \<Rightarrow> network_addr \<Rightarrow> bool" where
  "NetworkAddr_equal a b = (ipstr a = ipstr b \<and> port a = port b)"

section \<open>Lemmas\<close>

lemma NetworkAddr_equal_valid:
  "is_valid a \<Longrightarrow> is_valid b \<Longrightarrow> NetworkAddr_equal a b \<longleftrightarrow> a = b"
  by (cases a; cases b) (auto simp: NetworkAddr_equal_def)

text \<open>What POSIX says of the two functions on IPv4 addresses: the text \<open>inet_ntop\<close> writes for four bytes is
  the text \<open>inet_pton\<close> turns back into them, with return value 1.\<close>

definition inet_ok :: "inet_env \<Rightarrow> bool" where
  "inet_ok inet \<longleftrightarrow> (\<forall>bs ip. length bs = 4 \<longrightarrow> inet_ntop inet bs = Some ip \<longrightarrow> inet_pton inet ip = (1, bs))"

definition NetworkAddr_wf :: "inet_env \<Rightarrow> network_addr \<Rightarrow> bool" where
  "NetworkAddr_wf inet a \<longleftrightarrow> is_valid a \<and> fst (inet_pton inet (ipstr a)) = 1
     \<and> length (snd (inet_pton inet (ipstr a))) = 4
     \<and> inet_ntop inet (snd (inet_pton inet (ipstr a))) = Some (ipstr a)"

definition NetworkAddr_enc :: "inet_env \<Rightarrow> network_addr \<Rightarrow> u8 list" where
  "NetworkAddr_enc inet a = snd (inet_pton inet (ipstr a)) @ htons_mem (port a)"

lemma length_NetworkAddr_enc: "NetworkAddr_wf inet a \<Longrightarrow> length (NetworkAddr_enc inet a) = 6"
  by (simp add: NetworkAddr_wf_def NetworkAddr_enc_def)

interpretation addr_wire: wire_codec "NetworkAddr_wf inet" "NetworkAddr_enc inet" "\<lambda>_. True"
    "NetworkAddr_serialize inet" "NetworkAddr_deserialize inet" for inet
proof unfold_locales
  fix a y :: network_addr and p :: u32 and m :: dynamic_array
  assume wf: "NetworkAddr_wf inet a"
  define ip where "ip = snd (inet_pton inet (ipstr a))"
  have ip: "inet_pton inet (ipstr a) = (1, ip)" "length ip = 4" "inet_ntop inet ip = Some (ipstr a)"
    using wf by (simp_all add: NetworkAddr_wf_def ip_def prod_eq_iff)
  have len: "length (NetworkAddr_enc inet a) = 6" by (rule length_NetworkAddr_enc [OF wf])
  show "NetworkAddr_serialize inet a m p
      = Inr (da_put (unat p) (NetworkAddr_enc inet a) m, word_of_nat (length (NetworkAddr_enc inet a)))"
    if "unat p + length (NetworkAddr_enc inet a) \<le> da_capacity m" "unat p + length (NetworkAddr_enc inet a) < 2 ^ 32"
  proof -
    have p4: "unat (p + 4) = unat p + 4" using that len by (simp add: unat_add_no_wrap)
    have 1: "DynamicArray_deserialize m p ip 4 = Inr (da_put (unat p) ip m)"
      using that len ip by (intro deserialize_ok) auto
    have 2: "DynamicArray_deserialize b (p + 4) (htons_mem (port a)) 2 = Inr (da_put (unat p + 4) (htons_mem (port a)) b)"
      if "da_capacity b = da_capacity m" for b
      using \<open>unat p + length (NetworkAddr_enc inet a) \<le> da_capacity m\<close>
        \<open>unat p + length (NetworkAddr_enc inet a) < 2 ^ 32\<close> len p4 that
        deserialize_ok [of "p + 4" "htons_mem (port a)" b 2] by simp
    show ?thesis
      using 1 2 ip len by (simp add: NetworkAddr_serialize_def NetworkAddr_enc_def da_put_put)
  qed
  show "NetworkAddr_deserialize inet y m p = Inr (a, word_of_nat (length (NetworkAddr_enc inet a)))"
    if h: "da_holds m (unat p) (NetworkAddr_enc inet a)" and b: "unat p + length (NetworkAddr_enc inet a) < 2 ^ 32"
  proof -
    have p4: "unat (p + 4) = unat p + 4" using b len by (simp add: unat_add_no_wrap)
    have hs: "da_holds m (unat p) ip" "da_holds m (unat p + 4) (htons_mem (port a))"
      using h ip by (auto simp: NetworkAddr_enc_def da_holds_append)
    have 1: "DynamicArray_serialize m p 4 = Inr ip"
      using hs ip b len by (intro serialize_ok) auto
    have 2: "DynamicArray_serialize m (p + 4) 2 = Inr (htons_mem (port a))"
      using hs p4 b len by (intro serialize_ok) auto
    have "is_valid a" using wf by (simp add: NetworkAddr_wf_def)
    with 1 2 ip len show ?thesis
      by (cases a) (simp add: NetworkAddr_deserialize_def)
  qed
qed

section \<open>Properties\<close>

text \<open>An address a server receives is the address it sends on: for every four address bytes the
  POSIX functions can print, and every port, the address read from a message is written back as the
  same six bytes.\<close>

theorem network_addr_round_trip:
  assumes "inet_ok inet" and "length bs = 4" and "inet_ntop inet bs = Some ip"
    and "unat p + 6 \<le> da_capacity m" and "unat p + 6 < 2 ^ 32"
  shows "\<exists>m'. NetworkAddr_serialize inet (NetworkAddr_new ip q) m p = Inr (m', 6)
    \<and> NetworkAddr_deserialize inet NetworkAddr_invalid m' p = Inr (NetworkAddr_new ip q, 6)"
proof -
  have "inet_pton inet ip = (1, bs)" using assms(1-3) by (auto simp: inet_ok_def)
  then have wf: "NetworkAddr_wf inet (NetworkAddr_new ip q)"
    using assms by (simp add: NetworkAddr_wf_def NetworkAddr_new_def)
  show ?thesis
    using addr_wire.round_trip [OF wf, where y = NetworkAddr_invalid and p = p and a = m] length_NetworkAddr_enc [OF wf] assms(4,5) by simp
qed

text \<open>A pair of functions with the POSIX behaviour on one address, printed as \<open>10.0.0.1\<close>.\<close>

definition one_addr_inet :: inet_env where
  "one_addr_inet = \<lparr>inet_pton = (\<lambda>s. if s = [49, 48, 46, 48, 46, 48, 46, 49] then (1, [10, 0, 0, 1]) else (0, [])),
     inet_ntop = (\<lambda>b. if b = [10, 0, 0, 1] then Some [49, 48, 46, 48, 46, 48, 46, 49] else None)\<rparr>"

theorem network_addr_round_trip_witness:
  "\<exists>m'. NetworkAddr_serialize one_addr_inet (NetworkAddr_new [49, 48, 46, 48, 46, 48, 46, 49] 4000)
        (DynamicArray_with_capacity 64) 8 = Inr (m', 6)
    \<and> NetworkAddr_deserialize one_addr_inet NetworkAddr_invalid m' 8
      = Inr (NetworkAddr_new [49, 48, 46, 48, 46, 48, 46, 49] 4000, 6)"
  by (rule network_addr_round_trip [where bs = "[10, 0, 0, 1]"])
    (auto simp: inet_ok_def one_addr_inet_def DynamicArray_with_capacity_def DynamicArray_clear_def split: if_splits)

end
