(* ===== verification/Msi_Metadata.thy ===== *)
theory Msi_Metadata
  imports Network_Addr Concurrent_Hashtable
begin

text \<open>
  \<open>MsiMetadata\<close> (\<open>src/src/cooperation/msi/msi_metadata.c\<close>) and \<open>BlockTracker\<close>
  (\<open>src/src/cooperation/block_tracker.c\<close>): which keys are being written, and which edge nodes wait for
  the end of the write. A key is in the tracker exactly while it is written; the edge nodes that ask
  for it meanwhile are blocked, at most once each, and handed back when the write ends. As for the
  directory entries, the calls by name take a structure of \<open>msi_param\<close>.
\<close>

record msi_metadata =
  writeflag :: bool
  edge_blocklist :: "network_addr list"

definition MsiMetadata_new :: "bool \<Rightarrow> msi_metadata" where
  "MsiMetadata_new is_being_written = \<lparr>writeflag = is_being_written, edge_blocklist = []\<rparr>"

definition MsiMetadata_isBeingWritten :: "msi_metadata \<Rightarrow> bool" where
  "MsiMetadata_isBeingWritten m = writeflag m"

text \<open>Results: the metadata, whether the edge was blocked before, whether the key is being written.\<close>

definition MsiMetadata_blockEdgeIfBeingWritten ::
    "msi_metadata \<Rightarrow> network_addr \<Rightarrow> (msi_metadata \<times> bool \<times> bool) exec" where
  "MsiMetadata_blockEdgeIfBeingWritten m addr =
     assertE (is_valid addr)
       (if writeflag m
        then if \<not> list_ex (NetworkAddr_equal addr) (edge_blocklist m)
             then Inr (m\<lparr>edge_blocklist := edge_blocklist m @ [addr]\<rparr>, False, True)
             else Inr (m, True, True)
        else assertE (length (edge_blocklist m) = 0) (Inr (m, False, False)))"

definition MsiMetadata_casWriteflag :: "msi_metadata \<Rightarrow> (msi_metadata \<times> bool) exec" where
  "MsiMetadata_casWriteflag m =
     (if \<not> writeflag m
      then assertE (length (edge_blocklist m) = 0) (Inr (m\<lparr>writeflag := True\<rparr>, True))
      else Inr (m, False))"

text \<open>The local variable of the source hides the out-parameter \<open>is_blocked_before\<close>, which stays as it was.\<close>

definition MsiMetadata_casWriteflagOrBlockEdge ::
    "msi_metadata \<Rightarrow> network_addr \<Rightarrow> bool \<Rightarrow> (msi_metadata \<times> bool \<times> bool) exec" where
  "MsiMetadata_casWriteflagOrBlockEdge m addr is_blocked_before =
     bindE (MsiMetadata_casWriteflag m) (\<lambda>(m, is_successful).
     if \<not> is_successful
     then bindE (MsiMetadata_blockEdgeIfBeingWritten m addr) (\<lambda>(m, blocked, is_being_written).
          assertE (\<not> blocked) (assertE is_being_written (Inr (m, is_successful, is_blocked_before))))
     else Inr (m, is_successful, is_blocked_before))"

definition MsiMetadata_unblockAllEdgesAndFinishWrite ::
    "msi_metadata \<Rightarrow> (msi_metadata \<times> network_addr list) exec" where
  "MsiMetadata_unblockAllEdgesAndFinishWrite m =
     assertE (writeflag m) (Inr (m\<lparr>writeflag := False\<rparr>, edge_blocklist m))"

definition MsiMetadata_getSizeForCapacity :: "msi_metadata \<Rightarrow> u64" where
  "MsiMetadata_getSizeForCapacity m =
     foldl (\<lambda>sz addr. sz + NetworkAddr_getSizeForCapacity addr) 1 (edge_blocklist m)"

section \<open>Calls by name\<close>

definition IS_BEING_WRITTEN_FUNCNAME :: string where
  "IS_BEING_WRITTEN_FUNCNAME = ''isBeingWritten''"
definition BLOCK_EDGE_IF_BEING_WRITTEN_FUNCNAME :: string where
  "BLOCK_EDGE_IF_BEING_WRITTEN_FUNCNAME = ''blockEdgeIfBeingWritten''"
definition CAS_WRITEFLAG_FUNCNAME :: string where
  "CAS_WRITEFLAG_FUNCNAME = ''casWriteflag''"
definition CAS_WRITEFLAG_OR_BLOCK_EDGE_FUNCNAME :: string where
  "CAS_WRITEFLAG_OR_BLOCK_EDGE_FUNCNAME = ''casWriteflagOrBlockEdge''"
definition UNBLOCK_ALL_EDGES_AND_FINISH_WRITE_FUNCNAME :: string where
  "UNBLOCK_ALL_EDGES_AND_FINISH_WRITE_FUNCNAME = ''unblockAllEdgesAndFinishWrite''"

lemmas msi_funcname_defs = IS_BEING_WRITTEN_FUNCNAME_def BLOCK_EDGE_IF_BEING_WRITTEN_FUNCNAME_def
  CAS_WRITEFLAG_FUNCNAME_def CAS_WRITEFLAG_OR_BLOCK_EDGE_FUNCNAME_def UNBLOCK_ALL_EDGES_AND_FINISH_WRITE_FUNCNAME_def

datatype msi_param =
    IsBeingWrittenParam (param_written: bool)
  | BlockEdgeIfBeingWrittenParam network_addr (param_written: bool) (param_blocked: bool)
  | CasWriteflagParam (param_successful: bool)
  | CasWriteflagOrBlockEdgeParam network_addr (param_blocked: bool) (param_successful: bool)
  | UnblockAllEdgesAndFinishWriteParam (param_blocked_edges: "network_addr list")

definition MsiMetadata_call ::
    "string \<Rightarrow> msi_param \<Rightarrow> msi_metadata \<Rightarrow> (msi_metadata \<times> msi_param \<times> bool) exec" where
  "MsiMetadata_call function_name param m =
     (if function_name = CAS_WRITEFLAG_FUNCNAME
      then (case param of
              CasWriteflagParam _ \<Rightarrow>
                bindE (MsiMetadata_casWriteflag m) (\<lambda>(m, is_successful). Inr (m, CasWriteflagParam is_successful, False))
            | _ \<Rightarrow> Inl Undefined)
      else if function_name = CAS_WRITEFLAG_OR_BLOCK_EDGE_FUNCNAME
      then (case param of
              CasWriteflagOrBlockEdgeParam addr is_blocked_before _ \<Rightarrow>
                bindE (MsiMetadata_casWriteflagOrBlockEdge m addr is_blocked_before)
                  (\<lambda>(m, is_successful, is_blocked_before).
                Inr (m, CasWriteflagOrBlockEdgeParam addr is_blocked_before is_successful, False))
            | _ \<Rightarrow> Inl Undefined)
      else if function_name = BLOCK_EDGE_IF_BEING_WRITTEN_FUNCNAME
      then (case param of
              BlockEdgeIfBeingWrittenParam addr _ _ \<Rightarrow>
                bindE (MsiMetadata_blockEdgeIfBeingWritten m addr) (\<lambda>(m, is_blocked_before, is_being_written).
                Inr (m, BlockEdgeIfBeingWrittenParam addr is_being_written is_blocked_before, False))
            | _ \<Rightarrow> Inl Undefined)
      else if function_name = UNBLOCK_ALL_EDGES_AND_FINISH_WRITE_FUNCNAME
      then (case param of
              UnblockAllEdgesAndFinishWriteParam _ \<Rightarrow>
                bindE (MsiMetadata_unblockAllEdgesAndFinishWrite m) (\<lambda>(m, blocked_edges).
                Inr (m, UnblockAllEdgesAndFinishWriteParam blocked_edges, True))
            | _ \<Rightarrow> Inl Undefined)
      else Inl Exited)"

definition MsiMetadata_constCall :: "string \<Rightarrow> msi_param \<Rightarrow> msi_metadata \<Rightarrow> msi_param exec" where
  "MsiMetadata_constCall function_name param m =
     (if function_name = IS_BEING_WRITTEN_FUNCNAME
      then (case param of
              IsBeingWrittenParam _ \<Rightarrow> Inr (IsBeingWrittenParam (MsiMetadata_isBeingWritten m))
            | _ \<Rightarrow> Inl Undefined)
      else Inl Exited)"

section \<open>The block tracker\<close>

definition msi_ops :: "(msi_metadata, msi_param) value_ops" where
  "msi_ops = \<lparr>v_call = MsiMetadata_call, v_constCall = MsiMetadata_constCall,
     v_size = MsiMetadata_getSizeForCapacity\<rparr>"

type_synonym block_tracker = "msi_metadata concurrent_hashtable"

definition BlockTracker_new :: "'m perkey_rwlock \<Rightarrow> block_tracker" where
  "BlockTracker_new lk = ConcurrentHashtable_new lk"

definition BlockTracker_isBeingWrittenForKey ::
    "('m, 'z) lock_env_scheme \<Rightarrow> 'm perkey_rwlock \<Rightarrow> block_tracker \<Rightarrow> key \<Rightarrow> bool exec" where
  "BlockTracker_isBeingWrittenForKey env lk bt k =
     bindE (ConcurrentHashtable_constCallIfExist env lk msi_ops bt k IS_BEING_WRITTEN_FUNCNAME
              (IsBeingWrittenParam False)) (\<lambda>(is_exist, tmp_param).
     Inr (if is_exist then param_written tmp_param else False))"

definition BlockTracker_blockEdgeForKeyIfExistAndBeingWritten ::
    "('m, 'z) lock_env_scheme \<Rightarrow> 'm perkey_rwlock \<Rightarrow> block_tracker \<Rightarrow> key \<Rightarrow> network_addr
     \<Rightarrow> (block_tracker \<times> bool) exec" where
  "BlockTracker_blockEdgeForKeyIfExistAndBeingWritten env lk bt k addr =
     assertE (is_valid addr) (
     bindE (ConcurrentHashtable_callIfExist env lk msi_ops bt k BLOCK_EDGE_IF_BEING_WRITTEN_FUNCNAME
              (BlockEdgeIfBeingWrittenParam addr False False)) (\<lambda>(bt, is_exist, tmp_param).
     assertE (\<not> param_blocked tmp_param)
       (Inr (bt, if \<not> is_exist then False else param_written tmp_param))))"

definition BlockTracker_casWriteflagForKey ::
    "('m, 'z) lock_env_scheme \<Rightarrow> 'm perkey_rwlock \<Rightarrow> block_tracker \<Rightarrow> key \<Rightarrow> (block_tracker \<times> bool) exec" where
  "BlockTracker_casWriteflagForKey env lk bt k =
     bindE (ConcurrentHashtable_insertOrCall env lk msi_ops bt k (MsiMetadata_new True) CAS_WRITEFLAG_FUNCNAME
              (CasWriteflagParam False)) (\<lambda>(bt, is_exist, tmp_param).
     Inr (bt, if \<not> is_exist then True else param_successful tmp_param))"

definition BlockTracker_casWriteflagOrBlockEdgeForKey ::
    "('m, 'z) lock_env_scheme \<Rightarrow> 'm perkey_rwlock \<Rightarrow> block_tracker \<Rightarrow> key \<Rightarrow> network_addr
     \<Rightarrow> (block_tracker \<times> bool) exec" where
  "BlockTracker_casWriteflagOrBlockEdgeForKey env lk bt k addr =
     bindE (ConcurrentHashtable_insertOrCall env lk msi_ops bt k (MsiMetadata_new True)
              CAS_WRITEFLAG_OR_BLOCK_EDGE_FUNCNAME (CasWriteflagOrBlockEdgeParam addr False False))
       (\<lambda>(bt, is_exist, tmp_param).
     assertE (\<not> param_blocked tmp_param)
       (Inr (bt, if \<not> is_exist then True else param_successful tmp_param)))"

definition BlockTracker_unblockAllEdgesAndFinishWriteForKeyIfExist ::
    "('m, 'z) lock_env_scheme \<Rightarrow> 'm perkey_rwlock \<Rightarrow> block_tracker \<Rightarrow> key
     \<Rightarrow> (block_tracker \<times> network_addr list) exec" where
  "BlockTracker_unblockAllEdgesAndFinishWriteForKeyIfExist env lk bt k =
     bindE (ConcurrentHashtable_callIfExist env lk msi_ops bt k UNBLOCK_ALL_EDGES_AND_FINISH_WRITE_FUNCNAME
              (UnblockAllEdgesAndFinishWriteParam [])) (\<lambda>(bt, is_exist, tmp_param).
     assertE is_exist (Inr (bt, param_blocked_edges tmp_param)))"

definition BlockTracker_getSizeForCapacity :: "block_tracker \<Rightarrow> u64" where
  "BlockTracker_getSizeForCapacity bt = ConcurrentHashtable_getTotalValueSizeForCapcity bt"

section \<open>The metadata of a key that is being written\<close>

definition addr_ok :: "network_addr \<Rightarrow> bool" where
  "addr_ok a \<longleftrightarrow> is_valid a \<and> int (length (ipstr a)) < 2 ^ 32"

definition MsiMetadata_inv :: "msi_metadata \<Rightarrow> bool" where
  "MsiMetadata_inv m \<longleftrightarrow> writeflag m \<and> distinct (edge_blocklist m) \<and> (\<forall>a \<in> set (edge_blocklist m). addr_ok a)"

definition msi_param_ok :: "msi_param \<Rightarrow> bool" where
  "msi_param_ok p \<longleftrightarrow> (case p of BlockEdgeIfBeingWrittenParam a _ _ \<Rightarrow> addr_ok a
     | CasWriteflagOrBlockEdgeParam a _ _ \<Rightarrow> addr_ok a | _ \<Rightarrow> True)"

abbreviation block_edge :: "network_addr \<Rightarrow> msi_metadata \<Rightarrow> msi_metadata" where
  "block_edge a m \<equiv> m\<lparr>edge_blocklist := edge_blocklist m @ [a]\<rparr>"

lemma find_blocked:
  assumes "MsiMetadata_inv m" and "addr_ok a"
  shows "list_ex (NetworkAddr_equal a) (edge_blocklist m) \<longleftrightarrow> a \<in> set (edge_blocklist m)"
  using assms by (auto simp: list_ex_iff MsiMetadata_inv_def addr_ok_def NetworkAddr_equal_valid)

lemma MsiMetadata_call_eqs:
  assumes "MsiMetadata_inv m"
  shows "MsiMetadata_call CAS_WRITEFLAG_FUNCNAME (CasWriteflagParam s) m = Inr (m, CasWriteflagParam False, False)"
    and "addr_ok a \<Longrightarrow> MsiMetadata_call CAS_WRITEFLAG_OR_BLOCK_EDGE_FUNCNAME (CasWriteflagOrBlockEdgeParam a b s) m
      = (if a \<in> set (edge_blocklist m) then Inl AssertFailed
         else Inr (block_edge a m, CasWriteflagOrBlockEdgeParam a b False, False))"
    and "addr_ok a \<Longrightarrow> MsiMetadata_call BLOCK_EDGE_IF_BEING_WRITTEN_FUNCNAME (BlockEdgeIfBeingWrittenParam a w b) m
      = (if a \<in> set (edge_blocklist m) then Inr (m, BlockEdgeIfBeingWrittenParam a True True, False)
         else Inr (block_edge a m, BlockEdgeIfBeingWrittenParam a True False, False))"
    and "MsiMetadata_call UNBLOCK_ALL_EDGES_AND_FINISH_WRITE_FUNCNAME (UnblockAllEdgesAndFinishWriteParam bs) m
      = Inr (m\<lparr>writeflag := False\<rparr>, UnblockAllEdgesAndFinishWriteParam (edge_blocklist m), True)"
    and "MsiMetadata_constCall IS_BEING_WRITTEN_FUNCNAME (IsBeingWrittenParam w) m = Inr (IsBeingWrittenParam True)"
proof -
  have w: "writeflag m" using assms by (simp add: MsiMetadata_inv_def)
  note eqs = MsiMetadata_call_def MsiMetadata_constCall_def msi_funcname_defs MsiMetadata_casWriteflag_def
    MsiMetadata_casWriteflagOrBlockEdge_def MsiMetadata_blockEdgeIfBeingWritten_def
    MsiMetadata_unblockAllEdgesAndFinishWrite_def MsiMetadata_isBeingWritten_def w
  show "MsiMetadata_call CAS_WRITEFLAG_FUNCNAME (CasWriteflagParam s) m = Inr (m, CasWriteflagParam False, False)"
    "MsiMetadata_call UNBLOCK_ALL_EDGES_AND_FINISH_WRITE_FUNCNAME (UnblockAllEdgesAndFinishWriteParam bs) m
      = Inr (m\<lparr>writeflag := False\<rparr>, UnblockAllEdgesAndFinishWriteParam (edge_blocklist m), True)"
    "MsiMetadata_constCall IS_BEING_WRITTEN_FUNCNAME (IsBeingWrittenParam w) m = Inr (IsBeingWrittenParam True)"
    by (simp_all add: eqs)
  assume a: "addr_ok a"
  then have v: "is_valid a" by (simp add: addr_ok_def)
  show "MsiMetadata_call CAS_WRITEFLAG_OR_BLOCK_EDGE_FUNCNAME (CasWriteflagOrBlockEdgeParam a b s) m
      = (if a \<in> set (edge_blocklist m) then Inl AssertFailed
         else Inr (block_edge a m, CasWriteflagOrBlockEdgeParam a b False, False))"
    "MsiMetadata_call BLOCK_EDGE_IF_BEING_WRITTEN_FUNCNAME (BlockEdgeIfBeingWrittenParam a w b) m
      = (if a \<in> set (edge_blocklist m) then Inr (m, BlockEdgeIfBeingWrittenParam a True True, False)
         else Inr (block_edge a m, BlockEdgeIfBeingWrittenParam a True False, False))"
    using find_blocked [OF assms a] v by (simp_all add: eqs)
qed

lemma MsiMetadata_call_inv:
  assumes "MsiMetadata_inv m" and "msi_param_ok p" and "MsiMetadata_call f p m = Inr (m', p', False)"
  shows "MsiMetadata_inv m'"
proof -
  have "m' = m \<or> (\<exists>a. addr_ok a \<and> a \<notin> set (edge_blocklist m) \<and> m' = block_edge a m)"
  proof (cases p)
    case (BlockEdgeIfBeingWrittenParam a w b)
    then show ?thesis
      using assms MsiMetadata_call_eqs(3) [OF assms(1), of a w b]
      by (auto simp: msi_param_ok_def MsiMetadata_call_def split: if_splits)
  next
    case (CasWriteflagOrBlockEdgeParam a b s)
    then show ?thesis
      using assms MsiMetadata_call_eqs(2) [OF assms(1), of a b s]
      by (auto simp: msi_param_ok_def MsiMetadata_call_def split: if_splits)
  next
    case (CasWriteflagParam s)
    then show ?thesis
      using assms MsiMetadata_call_eqs(1) [OF assms(1), of s] by (auto simp: MsiMetadata_call_def split: if_splits)
  qed (use assms(3) in \<open>auto simp: MsiMetadata_call_def exec_inv split: if_splits\<close>)
  then show ?thesis
    using assms(1) by (auto simp: MsiMetadata_inv_def)
qed

interpretation msi_value: table_value msi_ops MsiMetadata_inv msi_param_ok
  by unfold_locales (auto simp: msi_ops_def intro: MsiMetadata_call_inv)

lemma msi_ops_sel [simp]:
  "v_call msi_ops = MsiMetadata_call" "v_constCall msi_ops = MsiMetadata_constCall"
  "v_size msi_ops = MsiMetadata_getSizeForCapacity"
  by (simp_all add: msi_ops_def)

section \<open>The tracker as a map\<close>

definition bt_inv :: "('m, 'z) lock_env_scheme \<Rightarrow> 'm perkey_rwlock \<Rightarrow> block_tracker \<Rightarrow> bool" where
  "bt_inv env lk bt \<longleftrightarrow> msi_value.table_inv env lk bt"

definition being_written :: "('m, 'z) lock_env_scheme \<Rightarrow> 'm perkey_rwlock \<Rightarrow> block_tracker \<Rightarrow> key \<Rightarrow> bool" where
  "being_written env lk bt k \<longleftrightarrow> ht_map env lk bt k \<noteq> None"

definition blocked_edges :: "('m, 'z) lock_env_scheme \<Rightarrow> 'm perkey_rwlock \<Rightarrow> block_tracker \<Rightarrow> key \<Rightarrow> network_addr list" where
  "blocked_edges env lk bt k = (case ht_map env lk bt k of None \<Rightarrow> [] | Some m \<Rightarrow> edge_blocklist m)"

definition bt_room :: "block_tracker \<Rightarrow> bool" where
  "bt_room bt \<longleftrightarrow> uint (total_key_size bt) < 2 ^ 62 \<and> uint (total_value_size bt) < 2 ^ 62"

lemma bt_room_unat: "bt_room bt \<longleftrightarrow> unat (total_key_size bt) < 2 ^ 62 \<and> unat (total_value_size bt) < 2 ^ 62"
  using uint_le_iff_unat [of "total_key_size bt" 1 "2 ^ 62"] uint_le_iff_unat [of "total_value_size bt" 1 "2 ^ 62"]
  by (simp add: bt_room_def flip: add1_zle_eq) linarith

lemma bt_table_locked:
  "bt_inv env lk bt \<Longrightarrow> rwlock_wf lk \<Longrightarrow> PerkeyRwlock_isReadOrWriteLocked env lk k = Inr True \<Longrightarrow>
   table_locked env lk msi_ops bt k"
  by (simp add: bt_inv_def msi_value.table_inv_def table_locked_def)

lemma bt_table_write_locked:
  "bt_inv env lk bt \<Longrightarrow> rwlock_wf lk \<Longrightarrow> PerkeyRwlock_isWriteLocked env lk k = Inr True \<Longrightarrow>
   table_write_locked env lk msi_ops bt k"
  by (simp add: bt_inv_def msi_value.table_inv_def table_write_locked_def)

lemma bt_entry: "bt_inv env lk bt \<Longrightarrow> ht_map env lk bt k = Some m \<Longrightarrow> MsiMetadata_inv m"
  by (auto simp: bt_inv_def msi_value.table_inv_def)

lemma bt_entry_size:
  assumes "bt_inv env lk bt" and "rwlock_wf lk" and "ht_map env lk bt k = Some m"
  shows "unat (MsiMetadata_getSizeForCapacity m) \<le> unat (total_value_size bt)"
proof -
  have wf: "ht_wf env lk msi_ops bt" using assms(1) by (simp add: bt_inv_def msi_value.table_inv_def)
  show ?thesis
    using weight_member [OF ht_bucket(1) [OF wf assms(2) refl] assms(3) [unfolded ht_map_def], of "value_weight msi_ops"] wf
    by (simp add: ht_wf_def value_weight_def)
qed

lemma unat_plus_le: "unat (x + y) \<le> unat x + unat y" for x y :: "'a::len word"
  by (simp add: unat_word_ariths)

lemma size_block_edge:
  "MsiMetadata_getSizeForCapacity (block_edge a m)
     = MsiMetadata_getSizeForCapacity m + NetworkAddr_getSizeForCapacity a"
  by (simp add: MsiMetadata_getSizeForCapacity_def)

lemma addr_size_less: "addr_ok a \<Longrightarrow> unat (NetworkAddr_getSizeForCapacity a) < 2 ^ 33"
proof -
  assume "addr_ok a"
  then have len: "length (ipstr a) < 2 ^ 32" by (simp add: addr_ok_def)
  then have "unat (word_of_nat (length (ipstr a)) :: u64) = length (ipstr a)"
    by (intro unat_of_nat_small) simp
  then show ?thesis
    using len unat_plus_le [of "word_of_nat (length (ipstr a)) :: u64" 2]
    by (simp add: NetworkAddr_getSizeForCapacity_def)
qed

lemma bt_room_any:
  assumes "bt_room bt" and "unat (MsiMetadata_getSizeForCapacity m) < 2 ^ 63"
  shows "ht_room msi_ops bt k m"
  using assms unat_less_32 [of "Key_getKeyLength k"] by (simp add: ht_room_def bt_room_unat)

lemma bt_room_block:
  assumes "bt_inv env lk bt" and "rwlock_wf lk" and "ht_map env lk bt k = Some m" and "bt_room bt" and "addr_ok a"
  shows "ht_room msi_ops bt k (block_edge a m)"
proof (rule bt_room_any [OF assms(4)])
  have "unat (MsiMetadata_getSizeForCapacity (block_edge a m))
      \<le> unat (MsiMetadata_getSizeForCapacity m) + unat (NetworkAddr_getSizeForCapacity a)"
    unfolding size_block_edge by (rule unat_plus_le)
  then show "unat (MsiMetadata_getSizeForCapacity (block_edge a m)) < 2 ^ 63"
    using bt_entry_size [OF assms(1-3)] addr_size_less [OF assms(5)] assms(4) by (simp add: bt_room_unat)
qed

lemma bt_room_same:
  assumes "bt_inv env lk bt" and "rwlock_wf lk" and "ht_map env lk bt k = Some m" and "bt_room bt"
    and "MsiMetadata_getSizeForCapacity m' = MsiMetadata_getSizeForCapacity m"
  shows "ht_room msi_ops bt k m'"
  using bt_entry_size [OF assms(1-3)] assms(4,5) by (intro bt_room_any) (simp_all add: bt_room_unat)

section \<open>What the tracker returns\<close>

lemma isBeingWrittenForKey_eq:
  assumes "bt_inv env lk bt" and "rwlock_wf lk" and "PerkeyRwlock_isReadOrWriteLocked env lk k = Inr True"
  shows "BlockTracker_isBeingWrittenForKey env lk bt k = Inr (being_written env lk bt k)"
  using MsiMetadata_call_eqs(5) [OF bt_entry [OF assms(1)]]
  by (cases "ht_map env lk bt k")
    (simp_all add: BlockTracker_isBeingWrittenForKey_def constCallIfExist_eq [OF bt_table_locked [OF assms]] being_written_def)

lemma blockEdge_absent:
  assumes "bt_inv env lk bt" and "rwlock_wf lk" and "PerkeyRwlock_isWriteLocked env lk k = Inr True"
    and "ht_map env lk bt k = None" and "addr_ok a"
  shows "BlockTracker_blockEdgeForKeyIfExistAndBeingWritten env lk bt k a = Inr (bt, False)"
  using assms(5) callIfExist_absent [OF bt_table_write_locked [OF assms(1-3)] assms(4)]
  by (simp add: BlockTracker_blockEdgeForKeyIfExistAndBeingWritten_def addr_ok_def)

lemma blockEdge_new:
  assumes "bt_inv env lk bt" and "rwlock_wf lk" and "PerkeyRwlock_isWriteLocked env lk k = Inr True"
    and m: "ht_map env lk bt k = Some m" and a: "addr_ok a" "a \<notin> set (edge_blocklist m)" and room: "bt_room bt"
  obtains bt' where "BlockTracker_blockEdgeForKeyIfExistAndBeingWritten env lk bt k a = Inr (bt', True)"
    and "bt_inv env lk bt'" and "ht_map env lk bt' = (ht_map env lk bt)(k \<mapsto> block_edge a m)"
proof -
  from msi_value.callIfExist_call_inv [OF assms(1) [unfolded bt_inv_def] bt_table_write_locked [OF assms(1-3)] m,
      of BLOCK_EDGE_IF_BEING_WRITTEN_FUNCNAME "BlockEdgeIfBeingWrittenParam a False False" "block_edge a m"
        "BlockEdgeIfBeingWrittenParam a True False" False]
  obtain bt' where
    "ConcurrentHashtable_callIfExist env lk msi_ops bt k BLOCK_EDGE_IF_BEING_WRITTEN_FUNCNAME
       (BlockEdgeIfBeingWrittenParam a False False) = Inr (bt', True, BlockEdgeIfBeingWrittenParam a True False)"
    "msi_value.table_inv env lk bt'" "ht_map env lk bt' = (ht_map env lk bt)(k \<mapsto> block_edge a m)"
    using MsiMetadata_call_eqs(3) [OF bt_entry [OF assms(1) m] a(1)] a bt_room_block [OF assms(1,2) m room a(1)]
    by (auto simp: msi_param_ok_def)
  then show ?thesis
    using that [of bt'] a(1)
    by (simp add: BlockTracker_blockEdgeForKeyIfExistAndBeingWritten_def addr_ok_def bt_inv_def)
qed

lemma blockEdge_again:
  assumes "bt_inv env lk bt" and "rwlock_wf lk" and "PerkeyRwlock_isWriteLocked env lk k = Inr True"
    and m: "ht_map env lk bt k = Some m" and a: "addr_ok a" "a \<in> set (edge_blocklist m)" and room: "bt_room bt"
  shows "BlockTracker_blockEdgeForKeyIfExistAndBeingWritten env lk bt k a = Inl AssertFailed"
proof -
  from msi_value.callIfExist_call_inv [OF assms(1) [unfolded bt_inv_def] bt_table_write_locked [OF assms(1-3)] m,
      of BLOCK_EDGE_IF_BEING_WRITTEN_FUNCNAME "BlockEdgeIfBeingWrittenParam a False False" m
        "BlockEdgeIfBeingWrittenParam a True True" False]
  obtain bt' where
    "ConcurrentHashtable_callIfExist env lk msi_ops bt k BLOCK_EDGE_IF_BEING_WRITTEN_FUNCNAME
       (BlockEdgeIfBeingWrittenParam a False False) = Inr (bt', True, BlockEdgeIfBeingWrittenParam a True True)"
    "msi_value.table_inv env lk bt'" "ht_map env lk bt' = (ht_map env lk bt)(k \<mapsto> m)"
    using MsiMetadata_call_eqs(3) [OF bt_entry [OF assms(1) m] a(1)] a bt_room_same [OF assms(1,2) m room refl]
    by (auto simp: msi_param_ok_def)
  then show ?thesis
    using a(1) by (simp add: BlockTracker_blockEdgeForKeyIfExistAndBeingWritten_def addr_ok_def)
qed

lemma new_msi_ok: "MsiMetadata_inv (MsiMetadata_new True)" "bt_room bt \<Longrightarrow> ht_room msi_ops bt k (MsiMetadata_new True)"
  by (simp_all add: MsiMetadata_inv_def MsiMetadata_new_def bt_room_any MsiMetadata_getSizeForCapacity_def)

lemma casWriteflag_new:
  assumes "bt_inv env lk bt" and "rwlock_wf lk" and "PerkeyRwlock_isWriteLocked env lk k = Inr True"
    and "ht_map env lk bt k = None" and "bt_room bt"
  obtains bt' where "BlockTracker_casWriteflagForKey env lk bt k = Inr (bt', True)"
    and "bt_inv env lk bt'" and "ht_map env lk bt' = (ht_map env lk bt)(k \<mapsto> MsiMetadata_new True)"
proof -
  from msi_value.insertOrCall_new_inv [OF assms(1) [unfolded bt_inv_def] bt_table_write_locked [OF assms(1-3)]
      assms(4) new_msi_ok(2) [OF assms(5)] new_msi_ok(1), of CAS_WRITEFLAG_FUNCNAME "CasWriteflagParam False"]
  obtain bt' where
    "ConcurrentHashtable_insertOrCall env lk msi_ops bt k (MsiMetadata_new True) CAS_WRITEFLAG_FUNCNAME
       (CasWriteflagParam False) = Inr (bt', False, CasWriteflagParam False)"
    "msi_value.table_inv env lk bt'" "ht_map env lk bt' = (ht_map env lk bt)(k \<mapsto> MsiMetadata_new True)" .
  then show ?thesis
    using that [of bt'] by (simp add: BlockTracker_casWriteflagForKey_def bt_inv_def)
qed

lemma casWriteflag_fails:
  assumes "bt_inv env lk bt" and "rwlock_wf lk" and "PerkeyRwlock_isWriteLocked env lk k = Inr True"
    and m: "ht_map env lk bt k = Some m" and room: "bt_room bt"
  obtains bt' where "BlockTracker_casWriteflagForKey env lk bt k = Inr (bt', False)"
    and "bt_inv env lk bt'" and "ht_map env lk bt' = ht_map env lk bt"
proof -
  from msi_value.insertOrCall_call_inv [OF assms(1) [unfolded bt_inv_def] bt_table_write_locked [OF assms(1-3)] m,
      of CAS_WRITEFLAG_FUNCNAME "CasWriteflagParam False" m "CasWriteflagParam False" "MsiMetadata_new True"]
  obtain bt' where
    "ConcurrentHashtable_insertOrCall env lk msi_ops bt k (MsiMetadata_new True) CAS_WRITEFLAG_FUNCNAME
       (CasWriteflagParam False) = Inr (bt', True, CasWriteflagParam False)"
    "msi_value.table_inv env lk bt'" "ht_map env lk bt' = (ht_map env lk bt)(k \<mapsto> m)"
    using MsiMetadata_call_eqs(1) [OF bt_entry [OF assms(1) m]] bt_room_same [OF assms(1,2) m room refl]
    by (auto simp: msi_param_ok_def)
  then show ?thesis
    using that [of bt'] m by (simp add: BlockTracker_casWriteflagForKey_def bt_inv_def fun_upd_idem)
qed

lemma casOrBlock_new:
  assumes "bt_inv env lk bt" and "rwlock_wf lk" and "PerkeyRwlock_isWriteLocked env lk k = Inr True"
    and "ht_map env lk bt k = None" and "bt_room bt"
  obtains bt' where "BlockTracker_casWriteflagOrBlockEdgeForKey env lk bt k a = Inr (bt', True)"
    and "bt_inv env lk bt'" and "ht_map env lk bt' = (ht_map env lk bt)(k \<mapsto> MsiMetadata_new True)"
proof -
  from msi_value.insertOrCall_new_inv [OF assms(1) [unfolded bt_inv_def] bt_table_write_locked [OF assms(1-3)]
      assms(4) new_msi_ok(2) [OF assms(5)] new_msi_ok(1),
      of CAS_WRITEFLAG_OR_BLOCK_EDGE_FUNCNAME "CasWriteflagOrBlockEdgeParam a False False"]
  obtain bt' where
    "ConcurrentHashtable_insertOrCall env lk msi_ops bt k (MsiMetadata_new True) CAS_WRITEFLAG_OR_BLOCK_EDGE_FUNCNAME
       (CasWriteflagOrBlockEdgeParam a False False) = Inr (bt', False, CasWriteflagOrBlockEdgeParam a False False)"
    "msi_value.table_inv env lk bt'" "ht_map env lk bt' = (ht_map env lk bt)(k \<mapsto> MsiMetadata_new True)" .
  then show ?thesis
    using that [of bt'] by (simp add: BlockTracker_casWriteflagOrBlockEdgeForKey_def bt_inv_def)
qed

lemma casOrBlock_blocks:
  assumes "bt_inv env lk bt" and "rwlock_wf lk" and "PerkeyRwlock_isWriteLocked env lk k = Inr True"
    and m: "ht_map env lk bt k = Some m" and a: "addr_ok a" "a \<notin> set (edge_blocklist m)" and room: "bt_room bt"
  obtains bt' where "BlockTracker_casWriteflagOrBlockEdgeForKey env lk bt k a = Inr (bt', False)"
    and "bt_inv env lk bt'" and "ht_map env lk bt' = (ht_map env lk bt)(k \<mapsto> block_edge a m)"
proof -
  from msi_value.insertOrCall_call_inv [OF assms(1) [unfolded bt_inv_def] bt_table_write_locked [OF assms(1-3)] m,
      of CAS_WRITEFLAG_OR_BLOCK_EDGE_FUNCNAME "CasWriteflagOrBlockEdgeParam a False False" "block_edge a m"
        "CasWriteflagOrBlockEdgeParam a False False" "MsiMetadata_new True"]
  obtain bt' where
    "ConcurrentHashtable_insertOrCall env lk msi_ops bt k (MsiMetadata_new True) CAS_WRITEFLAG_OR_BLOCK_EDGE_FUNCNAME
       (CasWriteflagOrBlockEdgeParam a False False) = Inr (bt', True, CasWriteflagOrBlockEdgeParam a False False)"
    "msi_value.table_inv env lk bt'" "ht_map env lk bt' = (ht_map env lk bt)(k \<mapsto> block_edge a m)"
    using MsiMetadata_call_eqs(2) [OF bt_entry [OF assms(1) m] a(1)] a bt_room_block [OF assms(1,2) m room a(1)]
    by (auto simp: msi_param_ok_def)
  then show ?thesis
    using that [of bt'] by (simp add: BlockTracker_casWriteflagOrBlockEdgeForKey_def bt_inv_def)
qed

lemma casOrBlock_again:
  assumes "bt_inv env lk bt" and "rwlock_wf lk" and "PerkeyRwlock_isWriteLocked env lk k = Inr True"
    and m: "ht_map env lk bt k = Some m" and a: "addr_ok a" "a \<in> set (edge_blocklist m)"
  shows "BlockTracker_casWriteflagOrBlockEdgeForKey env lk bt k a = Inl AssertFailed"
  using insertOrCall_fails [OF bt_table_write_locked [OF assms(1-3)] m]
    MsiMetadata_call_eqs(2) [OF bt_entry [OF assms(1) m] a(1)] a(2)
  by (simp add: BlockTracker_casWriteflagOrBlockEdgeForKey_def)

lemma unblock_ok:
  assumes "bt_inv env lk bt" and "rwlock_wf lk" and "PerkeyRwlock_isWriteLocked env lk k = Inr True"
    and m: "ht_map env lk bt k = Some m" and room: "bt_room bt"
  obtains bt' where
    "BlockTracker_unblockAllEdgesAndFinishWriteForKeyIfExist env lk bt k = Inr (bt', edge_blocklist m)"
    and "bt_inv env lk bt'" and "ht_map env lk bt' = (ht_map env lk bt)(k := None)"
proof -
  from msi_value.callIfExist_call_inv [OF assms(1) [unfolded bt_inv_def] bt_table_write_locked [OF assms(1-3)] m,
      of UNBLOCK_ALL_EDGES_AND_FINISH_WRITE_FUNCNAME "UnblockAllEdgesAndFinishWriteParam []" "m\<lparr>writeflag := False\<rparr>"
        "UnblockAllEdgesAndFinishWriteParam (edge_blocklist m)" True]
  obtain bt' where
    "ConcurrentHashtable_callIfExist env lk msi_ops bt k UNBLOCK_ALL_EDGES_AND_FINISH_WRITE_FUNCNAME
       (UnblockAllEdgesAndFinishWriteParam []) = Inr (bt', True, UnblockAllEdgesAndFinishWriteParam (edge_blocklist m))"
    "msi_value.table_inv env lk bt'" "ht_map env lk bt' = (ht_map env lk bt)(k := None)"
    using MsiMetadata_call_eqs(4) [OF bt_entry [OF assms(1) m]]
      bt_room_same [OF assms(1,2) m room, of "m\<lparr>writeflag := False\<rparr>"]
    by (auto simp: msi_param_ok_def MsiMetadata_getSizeForCapacity_def)
  then show ?thesis
    using that [of bt'] by (simp add: BlockTracker_unblockAllEdgesAndFinishWriteForKeyIfExist_def bt_inv_def)
qed

lemma unblock_absent:
  assumes "bt_inv env lk bt" and "rwlock_wf lk" and "PerkeyRwlock_isWriteLocked env lk k = Inr True"
    and "ht_map env lk bt k = None"
  shows "BlockTracker_unblockAllEdgesAndFinishWriteForKeyIfExist env lk bt k = Inl AssertFailed"
  using callIfExist_absent [OF bt_table_write_locked [OF assms(1-3)] assms(4)]
  by (simp add: BlockTracker_unblockAllEdgesAndFinishWriteForKeyIfExist_def)

end
