(* ===== verification/Dht_Wrapper.thy ===== *)
theory Dht_Wrapper
  imports Keys_Values
begin

text \<open>
  \<open>DhtWrapper\<close> (\<open>src/src/cooperation/dht_wrapper.c\<close>): which edge node is the beacon of a key. The hash of
  the key is reduced to a ring of \<open>2\<^sup>20\<close> positions, cut into one arc of equal length per edge node; the
  positions that are left over belong to the last node. The hash function (MurmurHash3, behind
  \<open>HashWrapperBase::hash\<close>) is not part of the sources: it is a field of the record.
\<close>

record dht_wrapper =
  edgecnt :: u32
  dht_hash :: "key \<Rightarrow> u32"

definition DHT_HASH_RING_LENGTH :: u32 where
  "DHT_HASH_RING_LENGTH = 1024 * 1024"

definition DhtWrapper_new :: "(key \<Rightarrow> u32) \<Rightarrow> u32 \<Rightarrow> dht_wrapper exec" where
  "DhtWrapper_new hash n = assertE (0 < n) (Inr \<lparr>edgecnt = n, dht_hash = hash\<rparr>)"

definition DhtWrapper_getBeaconEdgeIdx :: "dht_wrapper \<Rightarrow> key \<Rightarrow> u32 exec" where
  "DhtWrapper_getBeaconEdgeIdx w k =
     (let hash_value = dht_hash w k; hash_ring_value = hash_value mod DHT_HASH_RING_LENGTH
      in definedE (edgecnt w \<noteq> 0)
        (let peredge_hash_ring_length = DHT_HASH_RING_LENGTH div edgecnt w
         in assertE (0 < peredge_hash_ring_length)
           (let beacon_edge_idx = hash_ring_value div peredge_hash_ring_length
            in Inr (if edgecnt w \<le> beacon_edge_idx then edgecnt w - 1 else beacon_edge_idx))))"

section \<open>The arcs of the ring\<close>

text \<open>The node that owns a position of the ring, for \<open>n\<close> nodes.\<close>

definition ring_owner :: "nat \<Rightarrow> nat \<Rightarrow> nat" where
  "ring_owner n p = min (p div (2 ^ 20 div n)) (n - 1)"

definition ring_pos :: "dht_wrapper \<Rightarrow> key \<Rightarrow> nat" where
  "ring_pos w k = unat (dht_hash w k) mod 2 ^ 20"

lemma unat_ring_length [simp]: "unat DHT_HASH_RING_LENGTH = 2 ^ 20"
  by (simp add: DHT_HASH_RING_LENGTH_def)

lemma ring_pos_less: "ring_pos w k < 2 ^ 20"
  by (simp add: ring_pos_def)

lemma unat_pred: "0 < x \<Longrightarrow> unat (x - 1) = unat x - 1" for x :: "'a::len word"
  using unat_minus_one [of x] by (simp add: word_gt_0)

lemma getBeaconEdgeIdx_eq:
  assumes "0 < edgecnt w" and "unat (edgecnt w) \<le> 2 ^ 20"
  shows "DhtWrapper_getBeaconEdgeIdx w k = Inr (word_of_nat (ring_owner (unat (edgecnt w)) (ring_pos w k)))"
proof -
  define n where "n = unat (edgecnt w)"
  have n: "0 < n" "n \<le> 2 ^ 20" using assms by (simp_all add: n_def unat_gt_0)
  have arc: "0 < (2 ^ 20 :: nat) div n" using n by (simp add: div_greater_zero_iff)
  define b where "b = dht_hash w k mod DHT_HASH_RING_LENGTH div (DHT_HASH_RING_LENGTH div edgecnt w)"
  have b: "unat b = ring_pos w k div (2 ^ 20 div n)"
    by (simp add: b_def unat_div unat_mod ring_pos_def n_def)
  have "unat (edgecnt w - 1) = n - 1" using unat_pred [OF assms(1)] by (simp add: n_def)
  then have "unat (if edgecnt w \<le> b then edgecnt w - 1 else b) = min (unat b) (n - 1)"
    unfolding word_le_nat_alt n_def [symmetric] using n(1) by auto
  then have "(if edgecnt w \<le> b then edgecnt w - 1 else b) = word_of_nat (min (unat b) (n - 1))"
    by (rule word_of_nat_eqI)
  moreover have "0 < DHT_HASH_RING_LENGTH div edgecnt w"
    using arc by (simp add: word_less_nat_alt unat_div n_def)
  ultimately show ?thesis
    using assms(1) b by (auto simp: DhtWrapper_getBeaconEdgeIdx_def Let_def ring_owner_def definedE_def
        simp flip: n_def b_def)
qed

lemma ring_owner_less: "0 < n \<Longrightarrow> ring_owner n p < n"
  unfolding ring_owner_def by linarith

lemma getBeaconEdgeIdx_too_many:
  assumes "2 ^ 20 < unat (edgecnt w)"
  shows "DhtWrapper_getBeaconEdgeIdx w k = Inl AssertFailed"
proof -
  have "DHT_HASH_RING_LENGTH div edgecnt w = 0"
    using assms by (simp add: word_unat_eq_iff unat_div)
  moreover have "edgecnt w \<noteq> 0" using assms by auto
  ultimately show ?thesis by (simp add: DhtWrapper_getBeaconEdgeIdx_def Let_def)
qed

lemma ring_owner_arc:
  assumes "0 < n" and "n \<le> 2 ^ 20" and "i < n" and "p < 2 ^ 20"
  shows "ring_owner n p = i
    \<longleftrightarrow> i * (2 ^ 20 div n) \<le> p \<and> p < (if i = n - 1 then 2 ^ 20 else Suc i * (2 ^ 20 div n))"
proof -
  define l where "l = (2 ^ 20 :: nat) div n"
  have l: "0 < l" using assms by (simp add: l_def div_greater_zero_iff)
  have ge: "j \<le> p div l \<longleftrightarrow> j * l \<le> p" for j
    using l by (simp add: less_eq_div_iff_mult_less_eq)
  show ?thesis
  proof (cases "i = n - 1")
    case True
    have "min (p div l) i = i \<longleftrightarrow> i \<le> p div l" by linarith
    then show ?thesis
      unfolding ring_owner_def l_def [symmetric] True [symmetric] ge using assms(4) by simp
  next
    case False
    then have "ring_owner n p = i \<longleftrightarrow> p div l = i"
      unfolding ring_owner_def l_def [symmetric] using assms(3) by (auto simp: min_def)
    also have "\<dots> \<longleftrightarrow> i \<le> p div l \<and> \<not> Suc i \<le> p div l"
      by linarith
    finally show ?thesis
      unfolding ge l_def [symmetric] not_le using False by (simp only: if_False)
  qed
qed

text \<open>C11: Beacon of a key. The beacon index is defined for every key exactly when there are between one
  and \<open>2\<^sup>20\<close> edge nodes, and is then one of them: node \<open>i\<close> owns the \<open>i\<close>-th arc of the ring, all arcs have the
  same length, and the last node owns what is left over.\<close>

theorem beacon_partitions_ring:
  assumes "0 < edgecnt w"
  shows "if unat (edgecnt w) \<le> 2 ^ 20
    then \<exists>i. DhtWrapper_getBeaconEdgeIdx w k = Inr i \<and> i < edgecnt w
      \<and> ring_pos w k \<in> {unat i * (2 ^ 20 div unat (edgecnt w))
          ..< (if i = edgecnt w - 1 then 2 ^ 20 else Suc (unat i) * (2 ^ 20 div unat (edgecnt w)))}
    else DhtWrapper_getBeaconEdgeIdx w k = Inl AssertFailed"
proof (cases "unat (edgecnt w) \<le> 2 ^ 20")
  case True
  let ?n = "unat (edgecnt w)"
  have n: "0 < ?n" using assms by (simp add: unat_gt_0)
  define i where "i = (word_of_nat (ring_owner ?n (ring_pos w k)) :: u32)"
  have less: "ring_owner ?n (ring_pos w k) < ?n" using ring_owner_less n by blast
  then have ui: "unat i = ring_owner ?n (ring_pos w k)"
    unfolding i_def using unat_less_32 [of "edgecnt w"] by (intro unat_of_nat_small) simp
  have last: "i = edgecnt w - 1 \<longleftrightarrow> unat i = ?n - 1"
    using unat_pred [OF assms] by (simp add: word_unat_eq_iff)
  have "ring_pos w k \<in> {unat i * (2 ^ 20 div ?n)
      ..< (if i = edgecnt w - 1 then 2 ^ 20 else Suc (unat i) * (2 ^ 20 div ?n))}"
    unfolding last atLeastLessThan_iff
    using ring_owner_arc [OF n True _ ring_pos_less, of "unat i" w k] less ui by (simp only: simp_thms)
  moreover have "i < edgecnt w" using less ui by (simp add: word_less_nat_alt)
  ultimately show ?thesis
    unfolding if_P [OF True] using getBeaconEdgeIdx_eq [OF assms True, of k, folded i_def] by blast
next
  case False
  then show ?thesis using getBeaconEdgeIdx_too_many by simp
qed

theorem beacon_partitions_ring_witness:
  "if unat (edgecnt \<lparr>edgecnt = 3, dht_hash = (\<lambda>_. 1048575)\<rparr>) \<le> 2 ^ 20
    then \<exists>i. DhtWrapper_getBeaconEdgeIdx \<lparr>edgecnt = 3, dht_hash = (\<lambda>_. 1048575)\<rparr> (Key [1]) = Inr i
      \<and> i < edgecnt \<lparr>edgecnt = 3, dht_hash = (\<lambda>_. 1048575)\<rparr>
      \<and> ring_pos \<lparr>edgecnt = 3, dht_hash = (\<lambda>_. 1048575)\<rparr> (Key [1])
        \<in> {unat i * (2 ^ 20 div unat (edgecnt \<lparr>edgecnt = 3, dht_hash = (\<lambda>_. 1048575)\<rparr>))
          ..< (if i = edgecnt \<lparr>edgecnt = 3, dht_hash = (\<lambda>_. 1048575)\<rparr> - 1 then 2 ^ 20
               else Suc (unat i) * (2 ^ 20 div unat (edgecnt \<lparr>edgecnt = 3, dht_hash = (\<lambda>_. 1048575)\<rparr>)))}
    else DhtWrapper_getBeaconEdgeIdx \<lparr>edgecnt = 3, dht_hash = (\<lambda>_. 1048575)\<rparr> (Key [1]) = Inl AssertFailed"
  by (rule beacon_partitions_ring) simp

end
