(* ===== verification/Cooperation_Wrapper.thy ===== *)
theory Cooperation_Wrapper
  imports Directory_Table Msi_Metadata Dht_Wrapper
begin

text \<open>
  \<open>CooperationWrapperBase\<close> and \<open>BasicCooperationWrapper\<close>
  (\<open>src/src/cooperation/cooperation_wrapper_base.c\<close>, \<open>basic_cooperation_wrapper.c\<close>): the state of a beacon
  edge node and the requests it serves. The wrapper owns the per-key locks, the directory table and
  the block tracker; every request runs under the read or the write lock of its key, which is the
  combinator \<open>coop_section\<close>.
\<close>

datatype lock_result = kSuccess | kFailure | kNoneed

record ('m, 'g) cooperation_wrapper =
  coop_edge_idx :: u32
  dht_wrapper_ptr :: dht_wrapper
  perkey_rwlock_ptr :: "'m perkey_rwlock"
  directory_table_ptr :: "'g directory_table"
  block_tracker_ptr :: block_tracker

text \<open>The parameters stand for what the constructor reads elsewhere: the hash function behind the name,
  the number of locks of the configuration, and the generator seeded with the edge index.\<close>

definition CooperationWrapperBase_new ::
    "('m, 'z) lock_env_scheme \<Rightarrow> (key \<Rightarrow> u32) \<Rightarrow> u32 \<Rightarrow> 'g \<Rightarrow> u32 \<Rightarrow> u32 \<Rightarrow> ('m, 'g) cooperation_wrapper exec" where
  "CooperationWrapperBase_new env hash locking_size seeded_randgen n edge_idx =
     bindE (DhtWrapper_new hash n) (\<lambda>dht.
     let lk = PerkeyRwlock_new env locking_size True
     in Inr \<lparr>coop_edge_idx = edge_idx, dht_wrapper_ptr = dht, perkey_rwlock_ptr = lk,
             directory_table_ptr = DirectoryTable_new lk seeded_randgen, block_tracker_ptr = BlockTracker_new lk\<rparr>)"

definition CooperationWrapperBase_getBeaconEdgeIdx :: "('m, 'g) cooperation_wrapper \<Rightarrow> key \<Rightarrow> u32 exec" where
  "CooperationWrapperBase_getBeaconEdgeIdx w k = DhtWrapper_getBeaconEdgeIdx (dht_wrapper_ptr w) k"

text \<open>Take the lock, check that this node is the beacon of the key, run the body, release the lock.\<close>

definition coop_section ::
    "(('m, 'z) lock_env_scheme \<Rightarrow> 'm perkey_rwlock \<Rightarrow> key \<Rightarrow> 'm perkey_rwlock exec)
     \<Rightarrow> (('m, 'z) lock_env_scheme \<Rightarrow> 'm perkey_rwlock \<Rightarrow> key \<Rightarrow> 'm perkey_rwlock exec)
     \<Rightarrow> ('m, 'z) lock_env_scheme \<Rightarrow> ('m, 'g) cooperation_wrapper \<Rightarrow> key
     \<Rightarrow> (('m, 'g) cooperation_wrapper \<Rightarrow> (('m, 'g) cooperation_wrapper \<times> 'r) exec)
     \<Rightarrow> (('m, 'g) cooperation_wrapper \<times> 'r) exec" where
  "coop_section acquire release env w k body =
     bindE (acquire env (perkey_rwlock_ptr w) k) (\<lambda>lk.
     myassertE env (bindE (DhtWrapper_getBeaconEdgeIdx (dht_wrapper_ptr w) k) (\<lambda>i. Inr (i = coop_edge_idx w))) (
     bindE (body (w\<lparr>perkey_rwlock_ptr := lk\<rparr>)) (\<lambda>(w, result).
     bindE (release env (perkey_rwlock_ptr w) k) (\<lambda>lk. Inr (w\<lparr>perkey_rwlock_ptr := lk\<rparr>, result)))))"

abbreviation read_locked_section where
  "read_locked_section \<equiv> coop_section PerkeyRwlock_acquire_lock_shared PerkeyRwlock_unlock_shared"

abbreviation write_locked_section where
  "write_locked_section \<equiv> coop_section PerkeyRwlock_acquire_lock PerkeyRwlock_unlock"

section \<open>Reading\<close>

definition CooperationWrapperBase_isGlobalAndSourceCached ::
    "('m, 'z) lock_env_scheme \<Rightarrow> ('m, 'g) cooperation_wrapper \<Rightarrow> key \<Rightarrow> u32
     \<Rightarrow> (('m, 'g) cooperation_wrapper \<times> bool \<times> bool) exec" where
  "CooperationWrapperBase_isGlobalAndSourceCached env w k source_edge_idx =
     read_locked_section env w k (\<lambda>w.
     bindE (DirectoryTable_isGlobalCached env (perkey_rwlock_ptr w) (directory_table_ptr w) k) (\<lambda>is_global_cached.
     bindE (DirectoryTable_isCachedByGivenEdge env (perkey_rwlock_ptr w) (directory_table_ptr w) k source_edge_idx)
       (\<lambda>is_source_cached.
     Inr (w, is_global_cached, is_source_cached))))"

definition CooperationWrapperBase_isBeingWritten ::
    "('m, 'z) lock_env_scheme \<Rightarrow> ('m, 'g) cooperation_wrapper \<Rightarrow> key
     \<Rightarrow> (('m, 'g) cooperation_wrapper \<times> bool) exec" where
  "CooperationWrapperBase_isBeingWritten env w k =
     read_locked_section env w k (\<lambda>w.
     bindE (BlockTracker_isBeingWrittenForKey env (perkey_rwlock_ptr w) (block_tracker_ptr w) k)
       (\<lambda>is_being_written. Inr (w, is_being_written)))"

definition CooperationWrapperBase_getLocalDirectoryInfos ::
    "('m, 'z) lock_env_scheme \<Rightarrow> ('m, 'g) cooperation_wrapper \<Rightarrow> key
     \<Rightarrow> (('m, 'g) cooperation_wrapper \<times> dirinfo_set) exec" where
  "CooperationWrapperBase_getLocalDirectoryInfos env w k =
     bindE (read_locked_section env w k (\<lambda>w.
       bindE (DirectoryTable_getAll env (perkey_rwlock_ptr w) (directory_table_ptr w) k)
         (\<lambda>dirinfo_set. Inr (w, dirinfo_set)))) (\<lambda>(w, dirinfo_set).
     bindE (DirinfoSet_isComplete dirinfo_set) (\<lambda>complete. assertE complete (Inr (w, dirinfo_set))))"

text \<open>Results: whether the key is cached anywhere, whether a valid directory exists, the directory,
  whether the source caches the key, the set behind the pointer.\<close>

definition CooperationWrapperBase_lookupDirectoryTable ::
    "('m, 'g, 'z) coop_env_scheme \<Rightarrow> ('m, 'g) cooperation_wrapper \<Rightarrow> key \<Rightarrow> u32 \<Rightarrow> bool \<Rightarrow> directory_info
     \<Rightarrow> directory_info list option
     \<Rightarrow> (('m, 'g) cooperation_wrapper \<times> bool \<times> bool \<times> directory_info \<times> bool \<times> directory_info list option) exec" where
  "CooperationWrapperBase_lookupDirectoryTable env w k source_edge_idx is_being_written directory_info dirinfo_set_ptr =
     bindE
       (if \<not> is_being_written
        then bindE (DirectoryTable_lookup env (perkey_rwlock_ptr w) (directory_table_ptr w) k source_edge_idx
                      directory_info dirinfo_set_ptr)
               (\<lambda>(dt, is_global_cached, is_valid_directory_exist, directory_info, dirinfo_set_ptr).
             Inr (w\<lparr>directory_table_ptr := dt\<rparr>, is_global_cached, is_valid_directory_exist, directory_info,
                  dirinfo_set_ptr))
        else bindE (DirectoryTable_isGlobalCached env (perkey_rwlock_ptr w) (directory_table_ptr w) k)
               (\<lambda>is_global_cached.
             Inr (w, is_global_cached, False, DirectoryInfo_default, map_option (\<lambda>_. []) dirinfo_set_ptr)))
       (\<lambda>(w, is_global_cached, is_valid_directory_exist, directory_info, dirinfo_set_ptr).
     bindE (DirectoryTable_isCachedByGivenEdge env (perkey_rwlock_ptr w) (directory_table_ptr w) k source_edge_idx)
       (\<lambda>is_source_cached.
     Inr (w, is_global_cached, is_valid_directory_exist, directory_info, is_source_cached, dirinfo_set_ptr)))"

definition CooperationWrapperBase_lookupDirectoryTableByCacheServer ::
    "('m, 'g, 'z) coop_env_scheme \<Rightarrow> ('m, 'g) cooperation_wrapper \<Rightarrow> key \<Rightarrow> u32 \<Rightarrow> directory_info
     \<Rightarrow> directory_info list option
     \<Rightarrow> (('m, 'g) cooperation_wrapper \<times> bool \<times> bool \<times> bool \<times> directory_info \<times> bool \<times> directory_info list option) exec" where
  "CooperationWrapperBase_lookupDirectoryTableByCacheServer env w k source_edge_idx directory_info dirinfo_set_ptr =
     read_locked_section env w k (\<lambda>w.
     bindE (BlockTracker_isBeingWrittenForKey env (perkey_rwlock_ptr w) (block_tracker_ptr w) k) (\<lambda>is_being_written.
     bindE (CooperationWrapperBase_lookupDirectoryTable env w k source_edge_idx is_being_written directory_info
              dirinfo_set_ptr)
       (\<lambda>(w, is_global_cached, results). Inr (w, is_global_cached, is_being_written, results))))"

definition CooperationWrapperBase_lookupDirectoryTableByBeaconServer ::
    "('m, 'g, 'z) coop_env_scheme \<Rightarrow> ('m, 'g) cooperation_wrapper \<Rightarrow> key \<Rightarrow> u32 \<Rightarrow> network_addr \<Rightarrow> directory_info
     \<Rightarrow> directory_info list option
     \<Rightarrow> (('m, 'g) cooperation_wrapper \<times> bool \<times> bool \<times> bool \<times> directory_info \<times> bool \<times> directory_info list option) exec" where
  "CooperationWrapperBase_lookupDirectoryTableByBeaconServer env w k source_edge_idx recvreq_dst_addr directory_info
       dirinfo_set_ptr =
     write_locked_section env w k (\<lambda>w.
     bindE (BlockTracker_blockEdgeForKeyIfExistAndBeingWritten env (perkey_rwlock_ptr w) (block_tracker_ptr w) k
              recvreq_dst_addr) (\<lambda>(bt, is_being_written).
     bindE (CooperationWrapperBase_lookupDirectoryTable env (w\<lparr>block_tracker_ptr := bt\<rparr>) k source_edge_idx
              is_being_written directory_info dirinfo_set_ptr)
       (\<lambda>(w, is_global_cached, results). Inr (w, is_global_cached, is_being_written, results))))"

section \<open>Writing\<close>

text \<open>Results: whether the key is cached anywhere after the update, whether it is being written, whether
  an edge node other than the source caches it, and the notification that is due.\<close>

definition CooperationWrapperBase_updateDirectoryTable ::
    "('m, 'z) lock_env_scheme \<Rightarrow> ('m, 'g) cooperation_wrapper \<Rightarrow> key \<Rightarrow> u32 \<Rightarrow> bool \<Rightarrow> directory_info
     \<Rightarrow> metadata_update_requirement
     \<Rightarrow> (('m, 'g) cooperation_wrapper \<times> bool \<times> bool \<times> bool \<times> metadata_update_requirement) exec" where
  "CooperationWrapperBase_updateDirectoryTable env w k source_edge_idx is_admit directory_info requirement =
     assertE (source_edge_idx = getTargetEdgeIdx directory_info) (
     write_locked_section env w k (\<lambda>w.
     bindE (if is_admit then BlockTracker_isBeingWrittenForKey env (perkey_rwlock_ptr w) (block_tracker_ptr w) k
            else Inr False) (\<lambda>is_being_written.
     bindE (DirectoryTable_update env (perkey_rwlock_ptr w) (directory_table_ptr w) k is_admit directory_info
              (DirectoryMetadata (\<not> is_being_written)) requirement) (\<lambda>(dt, is_global_cached, requirement).
     bindE (DirectoryTable_isNeighborCached env (perkey_rwlock_ptr w) dt k source_edge_idx) (\<lambda>is_neighbor_cached.
     let result = Inr (w\<lparr>directory_table_ptr := dt\<rparr>, is_global_cached, is_being_written, is_neighbor_cached, requirement)
     in if is_from_single_to_multiple requirement then assertE (is_admit \<and> is_neighbor_cached) result
        else if is_from_multiple_to_single requirement then assertE (\<not> is_admit \<and> is_neighbor_cached) result
        else result)))))"

text \<open>The common part of the two requests for a write lock, after the attempt to set the write flag.\<close>

definition acquire_writelock_result ::
    "('m, 'z) lock_env_scheme \<Rightarrow> ('m, 'g) cooperation_wrapper \<Rightarrow> key \<Rightarrow> dirinfo_set \<Rightarrow> bool
     \<Rightarrow> (('m, 'g) cooperation_wrapper \<times> lock_result \<times> dirinfo_set) exec" where
  "acquire_writelock_result env w k all_dirinfo is_successful =
     (if is_successful
      then bindE (DirectoryTable_invalidateAllDirinfoForKeyIfExist env (perkey_rwlock_ptr w) (directory_table_ptr w)
                    k all_dirinfo) (\<lambda>(dt, all_dirinfo).
           Inr (w\<lparr>directory_table_ptr := dt\<rparr>, kSuccess, all_dirinfo))
      else Inr (w, kFailure, all_dirinfo))"

definition CooperationWrapperBase_acquireLocalWritelockByCacheServer ::
    "('m, 'z) lock_env_scheme \<Rightarrow> ('m, 'g) cooperation_wrapper \<Rightarrow> key \<Rightarrow> u32 \<Rightarrow> dirinfo_set
     \<Rightarrow> (('m, 'g) cooperation_wrapper \<times> lock_result \<times> dirinfo_set \<times> bool) exec" where
  "CooperationWrapperBase_acquireLocalWritelockByCacheServer env w k source_edge_idx all_dirinfo =
     write_locked_section env w k (\<lambda>w.
     bindE (DirectoryTable_isGlobalCached env (perkey_rwlock_ptr w) (directory_table_ptr w) k) (\<lambda>is_global_cached.
     bindE (if is_global_cached
            then bindE (BlockTracker_casWriteflagForKey env (perkey_rwlock_ptr w) (block_tracker_ptr w) k)
                   (\<lambda>(bt, is_successful).
                 acquire_writelock_result env (w\<lparr>block_tracker_ptr := bt\<rparr>) k all_dirinfo is_successful)
            else Inr (w, kNoneed, all_dirinfo)) (\<lambda>(w, lock_result, all_dirinfo).
     bindE (DirectoryTable_isCachedByGivenEdge env (perkey_rwlock_ptr w) (directory_table_ptr w) k source_edge_idx)
       (\<lambda>is_source_cached.
     Inr (w, lock_result, all_dirinfo, is_source_cached)))))"

definition CooperationWrapperBase_acquireLocalWritelockByBeaconServer ::
    "('m, 'z) lock_env_scheme \<Rightarrow> ('m, 'g) cooperation_wrapper \<Rightarrow> key \<Rightarrow> u32 \<Rightarrow> network_addr \<Rightarrow> dirinfo_set
     \<Rightarrow> (('m, 'g) cooperation_wrapper \<times> lock_result \<times> dirinfo_set \<times> bool) exec" where
  "CooperationWrapperBase_acquireLocalWritelockByBeaconServer env w k source_edge_idx recvreq_dst_addr all_dirinfo =
     write_locked_section env w k (\<lambda>w.
     bindE (DirectoryTable_isGlobalCached env (perkey_rwlock_ptr w) (directory_table_ptr w) k) (\<lambda>is_global_cached.
     bindE (if is_global_cached
            then bindE (BlockTracker_casWriteflagOrBlockEdgeForKey env (perkey_rwlock_ptr w) (block_tracker_ptr w) k
                          recvreq_dst_addr) (\<lambda>(bt, is_successful).
                 acquire_writelock_result env (w\<lparr>block_tracker_ptr := bt\<rparr>) k all_dirinfo is_successful)
            else Inr (w, kNoneed, all_dirinfo)) (\<lambda>(w, lock_result, all_dirinfo).
     bindE (DirectoryTable_isCachedByGivenEdge env (perkey_rwlock_ptr w) (directory_table_ptr w) k source_edge_idx)
       (\<lambda>is_source_cached.
     Inr (w, lock_result, all_dirinfo, is_source_cached)))))"

definition CooperationWrapperBase_releaseLocalWritelock ::
    "('m, 'z) lock_env_scheme \<Rightarrow> ('m, 'g) cooperation_wrapper \<Rightarrow> key \<Rightarrow> u32 \<Rightarrow> directory_info
     \<Rightarrow> (('m, 'g) cooperation_wrapper \<times> network_addr list \<times> bool) exec" where
  "CooperationWrapperBase_releaseLocalWritelock env w k source_edge_idx sender_dirinfo =
     write_locked_section env w k (\<lambda>w.
     bindE (BlockTracker_unblockAllEdgesAndFinishWriteForKeyIfExist env (perkey_rwlock_ptr w) (block_tracker_ptr w) k)
       (\<lambda>(bt, blocked_edges).
     bindE (DirectoryTable_validateDirinfoForKeyIfExist env (perkey_rwlock_ptr w) (directory_table_ptr w) k
              sender_dirinfo) (\<lambda>(dt, is_key_exist, _).
     bindE (DirectoryTable_isCachedByGivenEdge env (perkey_rwlock_ptr w) dt k source_edge_idx) (\<lambda>is_source_cached.
     Inr (w\<lparr>directory_table_ptr := dt, block_tracker_ptr := bt\<rparr>, blocked_edges, is_source_cached)))))"

section \<open>Sizes and snapshots\<close>

definition CooperationWrapperBase_getSizeForCapacity :: "('m, 'g) cooperation_wrapper \<Rightarrow> u64 exec" where
  "CooperationWrapperBase_getSizeForCapacity w =
     bindE (DirectoryTable_getSizeForCapacity (directory_table_ptr w)) (\<lambda>directory_table_size.
     Util_uint64Add directory_table_size (BlockTracker_getSizeForCapacity (block_tracker_ptr w)))"

definition CooperationWrapperBase_dumpCooperationSnapshot ::
    "('m, 'g) cooperation_wrapper \<Rightarrow> u8 list \<Rightarrow> u8 list exec" where
  "CooperationWrapperBase_dumpCooperationSnapshot w out =
     DirectoryTable_dumpDirectoryTable (directory_table_ptr w) out"

definition CooperationWrapperBase_loadCooperationSnapshot ::
    "('m, 'z) lock_env_scheme \<Rightarrow> ('m, 'g) cooperation_wrapper \<Rightarrow> fstream
     \<Rightarrow> (('m, 'g) cooperation_wrapper \<times> fstream) exec" where
  "CooperationWrapperBase_loadCooperationSnapshot env w fs =
     bindE (DirectoryTable_loadDirectoryTable env (perkey_rwlock_ptr w) (directory_table_ptr w) fs) (\<lambda>(dt, fs).
     Inr (w\<lparr>directory_table_ptr := dt\<rparr>, fs))"

section \<open>The functions of the BestGuess method\<close>

definition BasicCooperationWrapper_preserveDirectoryTableIfGlobalUncachedInternal ::
    "('m, 'z) lock_env_scheme \<Rightarrow> ('m, 'g) cooperation_wrapper \<Rightarrow> key \<Rightarrow> directory_info
     \<Rightarrow> (('m, 'g) cooperation_wrapper \<times> bool) exec" where
  "BasicCooperationWrapper_preserveDirectoryTableIfGlobalUncachedInternal env w k directory_info =
     write_locked_section env w k (\<lambda>w.
     bindE (DirectoryTable_isGlobalCached env (perkey_rwlock_ptr w) (directory_table_ptr w) k) (\<lambda>is_global_cached.
     if \<not> is_global_cached
     then bindE (DirectoryTable_update env (perkey_rwlock_ptr w) (directory_table_ptr w) k True directory_info
                   (DirectoryMetadata False) MetadataUpdateRequirement_none) (\<lambda>(dt, is_global_cached, _).
          assertE is_global_cached (Inr (w\<lparr>directory_table_ptr := dt\<rparr>, True)))
     else Inr (w, False)))"

text \<open>Results: whether the directory was validated, whether the key is being written, whether another
  edge node caches it.\<close>

definition BasicCooperationWrapper_validateDirectoryTableForPreservedDirinfoInternal ::
    "('m, 'z) lock_env_scheme \<Rightarrow> ('m, 'g) cooperation_wrapper \<Rightarrow> key \<Rightarrow> u32 \<Rightarrow> directory_info
     \<Rightarrow> (('m, 'g) cooperation_wrapper \<times> bool \<times> bool \<times> bool) exec" where
  "BasicCooperationWrapper_validateDirectoryTableForPreservedDirinfoInternal env w k source_edge_idx directory_info =
     assertE (source_edge_idx = getTargetEdgeIdx directory_info) (
     write_locked_section env w k (\<lambda>w.
     bindE (BlockTracker_isBeingWrittenForKey env (perkey_rwlock_ptr w) (block_tracker_ptr w) k) (\<lambda>is_being_written.
     bindE (DirectoryTable_validateDirinfoForKeyIfExist env (perkey_rwlock_ptr w) (directory_table_ptr w) k
              directory_info) (\<lambda>(dt, is_key_exist, is_dirinfo_exist).
     bindE (DirectoryTable_isNeighborCached env (perkey_rwlock_ptr w) dt k source_edge_idx) (\<lambda>is_neighbor_cached.
     Inr (w\<lparr>directory_table_ptr := dt\<rparr>, is_key_exist \<and> is_dirinfo_exist, is_being_written, is_neighbor_cached))))))"

definition PreserveDirectoryTable_FUNCNAME :: string where
  "PreserveDirectoryTable_FUNCNAME = ''preserve_directory_table_if_global_uncached''"

definition ValidateDirectoryTable_FUNCNAME :: string where
  "ValidateDirectoryTable_FUNCNAME = ''validate_directory_table_for_preserved_dirinfo''"

datatype coop_custom_param =
    PreserveDirectoryTableIfGlobalUncachedFuncParam key directory_info (isSuccessfulPreservation: bool)
  | ValidateDirectoryTableForPreservedDirinfoFuncParam key u32 directory_info (isBeingWrittenRef: bool)
      (isNeighborCachedRef: bool) (isSuccessfulValidation: bool)

text \<open>A parameter of the wrong class makes the \<open>dynamic_cast\<close> give \<open>NULL\<close>, which the source asserts against.\<close>

definition BasicCooperationWrapper_customFunc ::
    "('m, 'z) lock_env_scheme \<Rightarrow> ('m, 'g) cooperation_wrapper \<Rightarrow> string \<Rightarrow> coop_custom_param
     \<Rightarrow> (('m, 'g) cooperation_wrapper \<times> coop_custom_param) exec" where
  "BasicCooperationWrapper_customFunc env w funcname param =
     (if funcname = PreserveDirectoryTable_FUNCNAME
      then (case param of
              PreserveDirectoryTableIfGlobalUncachedFuncParam k d _ \<Rightarrow>
                bindE (BasicCooperationWrapper_preserveDirectoryTableIfGlobalUncachedInternal env w k d)
                  (\<lambda>(w, is_successful). Inr (w, PreserveDirectoryTableIfGlobalUncachedFuncParam k d is_successful))
            | _ \<Rightarrow> Inl AssertFailed)
      else if funcname = ValidateDirectoryTable_FUNCNAME
      then (case param of
              ValidateDirectoryTableForPreservedDirinfoFuncParam k source_edge_idx d _ _ _ \<Rightarrow>
                bindE (BasicCooperationWrapper_validateDirectoryTableForPreservedDirinfoInternal env w k source_edge_idx d)
                  (\<lambda>(w, is_successful, is_being_written, is_neighbor_cached).
                Inr (w, ValidateDirectoryTableForPreservedDirinfoFuncParam k source_edge_idx d is_being_written
                          is_neighbor_cached is_successful))
            | _ \<Rightarrow> Inl AssertFailed)
      else Inl Exited)"

definition BasicCooperationWrapper_constCustomFunc ::
    "('m, 'g) cooperation_wrapper \<Rightarrow> string \<Rightarrow> coop_custom_param \<Rightarrow> coop_custom_param exec" where
  "BasicCooperationWrapper_constCustomFunc w funcname param = Inl Exited"

end
