(* ===== verification/Beacon_State.thy ===== *)
theory Beacon_State
  imports Cooperation_Wrapper
begin

text \<open>
  The state of a beacon seen as an MSI directory: for every key, the edge nodes that cache it with the
  validity of their copies, and, while the key is being written, the edge nodes that wait for the end of
  the write. \<open>coop_abs\<close> maps the tables of a cooperation wrapper to such a state, \<open>coop_inv\<close> is the
  invariant of a wrapper no thread is working on. The locale \<open>lock_section\<close> is the contract between
  the wrapper and the per-key locks; it is interpreted by the read locks and by the write locks.
\<close>

record msi_state =
  copies :: "key \<Rightarrow> directory_info \<Rightarrow> bool option"
  waiting :: "key \<Rightarrow> network_addr set option"

definition entry_copies :: "directory_entry \<Rightarrow> directory_info \<Rightarrow> bool option" where
  "entry_copies e d = map_option isValidMetadata (map_of e d)"

definition coop_abs :: "('m, 'z) lock_env_scheme \<Rightarrow> ('m, 'g) cooperation_wrapper \<Rightarrow> msi_state" where
  "coop_abs env w =
     \<lparr>copies = (\<lambda>k. entry_copies (entry_of (dir_map env (perkey_rwlock_ptr w) (directory_table_ptr w) k))),
      waiting = (\<lambda>k. map_option (\<lambda>m. set (edge_blocklist m)) (ht_map env (perkey_rwlock_ptr w) (block_tracker_ptr w) k))\<rparr>"

definition coop_data :: "('m, 'z) lock_env_scheme \<Rightarrow> ('m, 'g) cooperation_wrapper \<Rightarrow> bool" where
  "coop_data env w \<longleftrightarrow> dir_inv env (perkey_rwlock_ptr w) (directory_table_ptr w)
     \<and> bt_inv env (perkey_rwlock_ptr w) (block_tracker_ptr w)"

definition coop_inv ::
    "('m, 'z) lock_env_scheme \<Rightarrow> ('m \<Rightarrow> nat) \<Rightarrow> ('m \<Rightarrow> bool) \<Rightarrow> ('m, 'g) cooperation_wrapper \<Rightarrow> bool" where
  "coop_inv env shared excl w \<longleftrightarrow> rwlock_free env shared excl (perkey_rwlock_ptr w) \<and> coop_data env w"

definition coop_room :: "('m, 'g) cooperation_wrapper \<Rightarrow> bool" where
  "coop_room w \<longleftrightarrow> dir_room (directory_table_ptr w) \<and> bt_room (block_tracker_ptr w)"

definition is_beacon :: "('m, 'g) cooperation_wrapper \<Rightarrow> key \<Rightarrow> bool" where
  "is_beacon w k \<longleftrightarrow> CooperationWrapperBase_getBeaconEdgeIdx w k = Inr (coop_edge_idx w)"

text \<open>No request changes the place of the node on the ring.\<close>

definition same_node :: "('m, 'g) cooperation_wrapper \<Rightarrow> ('m, 'g) cooperation_wrapper \<Rightarrow> bool" where
  "same_node w w' \<longleftrightarrow> coop_edge_idx w' = coop_edge_idx w \<and> dht_wrapper_ptr w' = dht_wrapper_ptr w"

lemma is_beacon_same_node: "same_node w w' \<Longrightarrow> is_beacon w' k = is_beacon w k"
  by (simp add: same_node_def is_beacon_def CooperationWrapperBase_getBeaconEdgeIdx_def)

lemma coop_room_lock [simp]: "coop_room (w\<lparr>perkey_rwlock_ptr := lk\<rparr>) = coop_room w"
  by (simp add: coop_room_def)

lemma coop_relock:
  assumes "same_lock (perkey_rwlock_ptr w) lk"
  shows "coop_abs env (w\<lparr>perkey_rwlock_ptr := lk\<rparr>) = coop_abs env w"
    and "coop_data env (w\<lparr>perkey_rwlock_ptr := lk\<rparr>) = coop_data env w"
  by (simp_all add: coop_abs_def coop_data_def dir_inv_def bt_inv_def direntry_value.table_inv_def
      msi_value.table_inv_def ht_same_lock [OF assms])

section \<open>Sections under the lock of a key\<close>

locale lock_section =
  fixes acquire release :: "('m, 'z) lock_env_scheme \<Rightarrow> 'm perkey_rwlock \<Rightarrow> key \<Rightarrow> 'm perkey_rwlock exec"
    and held :: "('m, 'z) lock_env_scheme \<Rightarrow> 'm perkey_rwlock \<Rightarrow> key \<Rightarrow> bool"
  assumes section_ok: "shared_mutex_ok env shared excl \<Longrightarrow> rwlock_free env shared excl lk \<Longrightarrow>
    \<exists>lk1 lk2. acquire env lk k = Inr lk1 \<and> same_lock lk lk1 \<and> held env lk1 k
      \<and> release env lk1 k = Inr lk2 \<and> rwlock_free env shared excl lk2 \<and> same_lock lk lk2"
begin

lemma section_run:
  assumes ok: "shared_mutex_ok env shared excl" and inv: "coop_inv env shared excl w" and beacon: "is_beacon w k"
    and body: "\<And>lk. held env lk k \<Longrightarrow> coop_data env (w\<lparr>perkey_rwlock_ptr := lk\<rparr>) \<Longrightarrow>
      coop_abs env (w\<lparr>perkey_rwlock_ptr := lk\<rparr>) = coop_abs env w \<Longrightarrow>
      \<exists>w' r. body (w\<lparr>perkey_rwlock_ptr := lk\<rparr>) = Inr (w', r) \<and> perkey_rwlock_ptr w' = lk \<and> same_node w w'
        \<and> coop_data env w' \<and> P (coop_abs env w') r"
  shows "\<exists>w' r. coop_section acquire release env w k body = Inr (w', r) \<and> coop_inv env shared excl w'
    \<and> same_node w w' \<and> P (coop_abs env w') r"
proof -
  have free: "rwlock_free env shared excl (perkey_rwlock_ptr w)" and data: "coop_data env w"
    using inv by (simp_all add: coop_inv_def)
  from section_ok [OF ok free, of k] obtain lk1 lk2 where
    lk: "acquire env (perkey_rwlock_ptr w) k = Inr lk1" "same_lock (perkey_rwlock_ptr w) lk1" "held env lk1 k"
    "release env lk1 k = Inr lk2" "rwlock_free env shared excl lk2" "same_lock (perkey_rwlock_ptr w) lk2"
    by blast
  note relock = coop_relock [OF lk(2), of env]
  from body [OF lk(3)] relock data obtain w1 r where
    w1: "body (w\<lparr>perkey_rwlock_ptr := lk1\<rparr>) = Inr (w1, r)" "perkey_rwlock_ptr w1 = lk1" "same_node w w1"
    "coop_data env w1" "P (coop_abs env w1) r"
    by auto
  have "same_lock (perkey_rwlock_ptr w1) lk2" using lk(2,6) w1(2) by (simp add: same_lock_def)
  note relock2 = coop_relock [OF this, of env]
  have "coop_section acquire release env w k body = Inr (w1\<lparr>perkey_rwlock_ptr := lk2\<rparr>, r)"
    using lk(1,4) w1(1,2) beacon
    by (simp add: coop_section_def myassertE_def is_beacon_def CooperationWrapperBase_getBeaconEdgeIdx_def)
  moreover have "coop_inv env shared excl (w1\<lparr>perkey_rwlock_ptr := lk2\<rparr>)"
    using lk(5) w1(4) relock2(2) by (simp add: coop_inv_def)
  moreover have "same_node w (w1\<lparr>perkey_rwlock_ptr := lk2\<rparr>)" using w1(3) by (simp add: same_node_def)
  ultimately show ?thesis using w1(5) relock2(1) by metis
qed

lemma section_aborts:
  assumes ok: "shared_mutex_ok env shared excl" and inv: "coop_inv env shared excl w" and beacon: "is_beacon w k"
    and body: "\<And>lk. held env lk k \<Longrightarrow> coop_data env (w\<lparr>perkey_rwlock_ptr := lk\<rparr>) \<Longrightarrow>
      coop_abs env (w\<lparr>perkey_rwlock_ptr := lk\<rparr>) = coop_abs env w \<Longrightarrow> body (w\<lparr>perkey_rwlock_ptr := lk\<rparr>) = Inl e"
  shows "coop_section acquire release env w k body = Inl e"
proof -
  have free: "rwlock_free env shared excl (perkey_rwlock_ptr w)" and data: "coop_data env w"
    using inv by (simp_all add: coop_inv_def)
  from section_ok [OF ok free, of k] obtain lk1 where
    lk: "acquire env (perkey_rwlock_ptr w) k = Inr lk1" "same_lock (perkey_rwlock_ptr w) lk1" "held env lk1 k"
    by blast
  have "body (w\<lparr>perkey_rwlock_ptr := lk1\<rparr>) = Inl e"
    using body [OF lk(3)] coop_relock [OF lk(2), of env] data by simp
  then show ?thesis
    using lk(1) beacon
    by (simp add: coop_section_def myassertE_def is_beacon_def CooperationWrapperBase_getBeaconEdgeIdx_def)
qed

text \<open>A node that is not the beacon of the key refuses the request, whatever the body.\<close>

lemma section_refuses:
  assumes ok: "shared_mutex_ok env shared excl" and inv: "coop_inv env shared excl w"
    and "is_assert env" and "CooperationWrapperBase_getBeaconEdgeIdx w k = Inr i" and "i \<noteq> coop_edge_idx w"
  shows "coop_section acquire release env w k body = Inl AssertFailed"
proof -
  have free: "rwlock_free env shared excl (perkey_rwlock_ptr w)" using inv by (simp add: coop_inv_def)
  from section_ok [OF ok free, of k] obtain lk1 where "acquire env (perkey_rwlock_ptr w) k = Inr lk1" by blast
  then show ?thesis
    using assms(3-5) by (simp add: coop_section_def myassertE_def CooperationWrapperBase_getBeaconEdgeIdx_def)
qed

end

interpretation read_section: lock_section PerkeyRwlock_acquire_lock_shared PerkeyRwlock_unlock_shared dir_locked
proof (unfold_locales, goal_cases)
  case (1 env shared excl lk k)
  from Perkey_Rwlock.read_section [OF 1, of k] show ?case
    by (metis dir_locked_def)
qed

interpretation write_section: lock_section PerkeyRwlock_acquire_lock PerkeyRwlock_unlock dir_write_locked
proof (unfold_locales, goal_cases)
  case (1 env shared excl lk k)
  from Perkey_Rwlock.write_section [OF 1, of k] show ?case
    by (metis dir_write_locked_def)
qed

section \<open>Reading the state through the tables\<close>

abbreviation lk_of :: "('m, 'g) cooperation_wrapper \<Rightarrow> 'm perkey_rwlock" where
  "lk_of \<equiv> perkey_rwlock_ptr"

lemma dom_entry_copies [simp]: "dom (entry_copies e) = edges_of e"
  by (auto simp: entry_copies_def)

lemma entry_copies_updates [simp]:
  "entry_copies (um_put d m e) = (entry_copies e)(d \<mapsto> isValidMetadata m)"
  "entry_copies (um_erase d e) = (entry_copies e)(d := None)"
  "entry_copies [] = Map.empty"
  by (auto simp: entry_copies_def)

lemma entry_copies_invalidated:
  "entry_copies (map (\<lambda>(d, _). (d, DirectoryMetadata False)) e) d = map_option (\<lambda>_. False) (entry_copies e d)"
  by (induction e) (auto simp: entry_copies_def)

lemma entry_copies_empty [simp]: "entry_copies e = Map.empty \<longleftrightarrow> e = []"
proof -
  have "entry_copies e = Map.empty \<longleftrightarrow> dom (entry_copies e) = {}" by (simp only: dom_eq_empty_conv)
  then show ?thesis by (simp add: edges_of_set)
qed

lemma coop_abs_copies:
  "copies (coop_abs env w) k = entry_copies (entry_of (dir_map env (lk_of w) (directory_table_ptr w) k))"
  by (simp add: coop_abs_def)

lemma coop_abs_waiting:
  "waiting (coop_abs env w) k
     = map_option (\<lambda>m. set (edge_blocklist m)) (ht_map env (lk_of w) (block_tracker_ptr w) k)"
  by (simp add: coop_abs_def)

lemma coop_dataD:
  assumes "coop_data env w"
  shows "dir_inv env (lk_of w) (directory_table_ptr w)" and "bt_inv env (lk_of w) (block_tracker_ptr w)"
  using assms by (simp_all add: coop_data_def)

lemma copies_edges: "set (dir_edges env (lk_of w) (directory_table_ptr w) k) = dom (copies (coop_abs env w) k)"
  by (simp add: coop_abs_copies entry_edges)

lemma copies_empty_iff:
  assumes "coop_data env w"
  shows "copies (coop_abs env w) k = Map.empty \<longleftrightarrow> dir_map env (lk_of w) (directory_table_ptr w) k = None"
  using dir_inv_entry [OF coop_dataD(1) [OF assms]]
  by (cases "dir_map env (lk_of w) (directory_table_ptr w) k")
    (auto simp: coop_abs_copies DirectoryEntry_inv_def)

lemma copies_valid:
  assumes "coop_data env w"
  shows "set (dir_valid env (lk_of w) (directory_table_ptr w) k) = {d. copies (coop_abs env w) k d = Some True}"
proof (cases "dir_map env (lk_of w) (directory_table_ptr w) k")
  case None
  then show ?thesis by (simp add: coop_abs_copies dir_valid_def)
next
  case (Some e)
  have "um_wf e" using dir_inv_entry [OF coop_dataD(1) [OF assms] Some] by (simp add: DirectoryEntry_inv_def)
  moreover have "isValidMetadata m \<longleftrightarrow> m = DirectoryMetadata True" for m by (cases m) simp
  ultimately show ?thesis
    using Some by (auto simp: coop_abs_copies dir_valid_def set_valid_edges entry_copies_def)
qed

lemma being_written_iff: "being_written env (lk_of w) (block_tracker_ptr w) k \<longleftrightarrow> waiting (coop_abs env w) k \<noteq> None"
  by (simp add: being_written_def coop_abs_waiting)

lemma isGlobalCached_abs:
  assumes "coop_data env w" and "dir_locked env (lk_of w) k"
  shows "DirectoryTable_isGlobalCached env (lk_of w) (directory_table_ptr w) k
    = Inr (copies (coop_abs env w) k \<noteq> Map.empty)"
  using DirectoryTable_isGlobalCached_eq [OF coop_dataD(1) [OF assms(1)] assms(2)] copies_empty_iff [OF assms(1)]
  by simp

lemma isCachedByGivenEdge_abs:
  assumes "coop_data env w" and "dir_locked env (lk_of w) k"
  shows "DirectoryTable_isCachedByGivenEdge env (lk_of w) (directory_table_ptr w) k i
    = Inr (DirectoryInfo i \<in> dom (copies (coop_abs env w) k))"
  using DirectoryTable_isCachedByGivenEdge_eq [OF coop_dataD(1) [OF assms(1)] assms(2)] copies_edges by metis

lemma isNeighborCached_abs:
  assumes "coop_data env w" and "dir_locked env (lk_of w) k"
  shows "DirectoryTable_isNeighborCached env (lk_of w) (directory_table_ptr w) k i
    = Inr (\<exists>d \<in> dom (copies (coop_abs env w) k). getTargetEdgeIdx d \<noteq> i)"
  using DirectoryTable_isNeighborCached_eq [OF coop_dataD(1) [OF assms(1)] assms(2)] copies_edges by metis

lemma isBeingWritten_abs:
  assumes "coop_data env w" and "dir_locked env (lk_of w) k"
  shows "BlockTracker_isBeingWrittenForKey env (lk_of w) (block_tracker_ptr w) k
    = Inr (waiting (coop_abs env w) k \<noteq> None)"
  using isBeingWrittenForKey_eq [OF coop_dataD(2) [OF assms(1)], of k] assms(2)
  by (simp add: dir_locked_def being_written_iff)

text \<open>Writing back a table changes the state at one key.\<close>

lemma coop_put_table:
  assumes "coop_data env w" and "dir_inv env (lk_of w) dt"
    and "dir_map env (lk_of w) dt = (dir_map env (lk_of w) (directory_table_ptr w))(k := e)"
  shows "coop_data env (w\<lparr>directory_table_ptr := dt\<rparr>)"
    and "coop_abs env (w\<lparr>directory_table_ptr := dt\<rparr>)
      = (coop_abs env w)\<lparr>copies := (copies (coop_abs env w))(k := entry_copies (entry_of e))\<rparr>"
  using assms by (simp_all add: coop_data_def coop_abs_def fun_eq_iff)

lemma coop_put_tracker:
  assumes "coop_data env w" and "bt_inv env (lk_of w) bt"
    and "ht_map env (lk_of w) bt = (ht_map env (lk_of w) (block_tracker_ptr w))(k := r)"
  shows "coop_data env (w\<lparr>block_tracker_ptr := bt\<rparr>)"
    and "coop_abs env (w\<lparr>block_tracker_ptr := bt\<rparr>)
      = (coop_abs env w)\<lparr>waiting := (waiting (coop_abs env w))(k := map_option (\<lambda>m. set (edge_blocklist m)) r)\<rparr>"
  using assms by (simp_all add: coop_data_def coop_abs_def fun_eq_iff)

end
