(* ===== verification/Beacon_Protocol.thy ===== *)
theory Beacon_Protocol
  imports Beacon_State
begin

text \<open>
  The requests a beacon serves, as an abstract MSI directory and as the code serves them.
  \<open>coop_handle\<close> runs the operation of \<open>CooperationWrapperBase\<close> or \<open>BasicCooperationWrapper\<close> that a request
  names; \<open>msi_next\<close> and \<open>msi_reply_ok\<close> say what the request means for the state of the directory and
  which replies are allowed. The lemmas show that a beacon refines this specification and never stops
  for an enabled request; the properties of whole runs are then proved on the specification.
\<close>

section \<open>Requests and replies\<close>

datatype coop_request =
    LookupByCacheServer (request_key: key) u32
  | LookupByBeaconServer (request_key: key) u32 network_addr
  | UpdateDirectory (request_key: key) bool directory_info
  | AcquireByCacheServer (request_key: key) u32
  | AcquireByBeaconServer (request_key: key) u32 network_addr
  | ReleaseWritelock (request_key: key) u32 directory_info
  | PreserveDirectory (request_key: key) directory_info
  | ValidatePreserved (request_key: key) directory_info

datatype coop_reply =
    LookupReply bool bool bool directory_info bool
  | UpdateReply bool bool bool metadata_update_requirement
  | AcquireReply lock_result dirinfo_set bool
  | ReleaseReply "network_addr list" bool
  | PreserveReply bool
  | ValidateReply bool bool bool

text \<open>The operation each request runs, called with the default values of the out-parameters.\<close>

fun coop_handle ::
    "('m, 'g, 'z) coop_env_scheme \<Rightarrow> ('m, 'g) cooperation_wrapper \<Rightarrow> coop_request
     \<Rightarrow> (('m, 'g) cooperation_wrapper \<times> coop_reply) exec" where
  "coop_handle env w (LookupByCacheServer k src) =
     bindE (CooperationWrapperBase_lookupDirectoryTableByCacheServer env w k src DirectoryInfo_default None)
       (\<lambda>(w, is_global_cached, is_being_written, is_valid, d, is_source_cached, _).
     Inr (w, LookupReply is_global_cached is_being_written is_valid d is_source_cached))"
| "coop_handle env w (LookupByBeaconServer k src addr) =
     bindE (CooperationWrapperBase_lookupDirectoryTableByBeaconServer env w k src addr DirectoryInfo_default None)
       (\<lambda>(w, is_global_cached, is_being_written, is_valid, d, is_source_cached, _).
     Inr (w, LookupReply is_global_cached is_being_written is_valid d is_source_cached))"
| "coop_handle env w (UpdateDirectory k is_admit d) =
     bindE (CooperationWrapperBase_updateDirectoryTable env w k (getTargetEdgeIdx d) is_admit d
              MetadataUpdateRequirement_none)
       (\<lambda>(w, is_global_cached, is_being_written, is_neighbor_cached, requirement).
     Inr (w, UpdateReply is_global_cached is_being_written is_neighbor_cached requirement))"
| "coop_handle env w (AcquireByCacheServer k src) =
     bindE (CooperationWrapperBase_acquireLocalWritelockByCacheServer env w k src DirinfoSet_invalid)
       (\<lambda>(w, lock_result, all_dirinfo, is_source_cached).
     Inr (w, AcquireReply lock_result all_dirinfo is_source_cached))"
| "coop_handle env w (AcquireByBeaconServer k src addr) =
     bindE (CooperationWrapperBase_acquireLocalWritelockByBeaconServer env w k src addr DirinfoSet_invalid)
       (\<lambda>(w, lock_result, all_dirinfo, is_source_cached).
     Inr (w, AcquireReply lock_result all_dirinfo is_source_cached))"
| "coop_handle env w (ReleaseWritelock k src d) =
     bindE (CooperationWrapperBase_releaseLocalWritelock env w k src d)
       (\<lambda>(w, blocked_edges, is_source_cached). Inr (w, ReleaseReply blocked_edges is_source_cached))"
| "coop_handle env w (PreserveDirectory k d) =
     bindE (BasicCooperationWrapper_customFunc env w PreserveDirectoryTable_FUNCNAME
              (PreserveDirectoryTableIfGlobalUncachedFuncParam k d False)) (\<lambda>(w, param).
     Inr (w, PreserveReply (isSuccessfulPreservation param)))"
| "coop_handle env w (ValidatePreserved k d) =
     bindE (BasicCooperationWrapper_customFunc env w ValidateDirectoryTable_FUNCNAME
              (ValidateDirectoryTableForPreservedDirinfoFuncParam k (getTargetEdgeIdx d) d False False False))
       (\<lambda>(w, param).
     Inr (w, ValidateReply (isSuccessfulValidation param) (isBeingWrittenRef param) (isNeighborCachedRef param)))"

section \<open>The specification\<close>

definition block_at :: "key \<Rightarrow> network_addr \<Rightarrow> msi_state \<Rightarrow> msi_state" where
  "block_at k a s = s\<lparr>waiting := (waiting s)(k := map_option (insert a) (waiting s k))\<rparr>"

definition validate_at :: "key \<Rightarrow> directory_info \<Rightarrow> msi_state \<Rightarrow> msi_state" where
  "validate_at k d s =
     s\<lparr>copies := (copies s)(k := if d \<in> dom (copies s k) then (copies s k)(d \<mapsto> True) else copies s k)\<rparr>"

definition start_write :: "key \<Rightarrow> msi_state \<Rightarrow> msi_state" where
  "start_write k s =
     s\<lparr>copies := (copies s)(k := \<lambda>d. map_option (\<lambda>_. False) (copies s k d)), waiting := (waiting s)(k \<mapsto> {})\<rparr>"

fun msi_next :: "coop_request \<Rightarrow> msi_state \<Rightarrow> msi_state" where
  "msi_next (LookupByCacheServer k src) s = s"
| "msi_next (LookupByBeaconServer k src a) s = block_at k a s"
| "msi_next (UpdateDirectory k is_admit d) s =
     s\<lparr>copies := (copies s)(k := (copies s k)(d := if is_admit then Some (waiting s k = None) else None))\<rparr>"
| "msi_next (AcquireByCacheServer k src) s =
     (if copies s k = Map.empty \<or> waiting s k \<noteq> None then s else start_write k s)"
| "msi_next (AcquireByBeaconServer k src a) s =
     (if copies s k = Map.empty then s else if waiting s k \<noteq> None then block_at k a s else start_write k s)"
| "msi_next (ReleaseWritelock k src d) s = validate_at k d (s\<lparr>waiting := (waiting s)(k := None)\<rparr>)"
| "msi_next (PreserveDirectory k d) s =
     (if copies s k = Map.empty then s\<lparr>copies := (copies s)(k := [d \<mapsto> False])\<rparr> else s)"
| "msi_next (ValidatePreserved k d) s = validate_at k d s"

text \<open>When a request does not stop the beacon: addresses and edge indices are well formed, an edge node
  that is blocked for the key does not ask again, and only a running write is released.\<close>

definition not_blocked :: "key \<Rightarrow> network_addr \<Rightarrow> msi_state \<Rightarrow> bool" where
  "not_blocked k a s \<longleftrightarrow> (case waiting s k of None \<Rightarrow> True | Some ws \<Rightarrow> a \<notin> ws)"

fun request_wf :: "coop_request \<Rightarrow> bool" where
  "request_wf (LookupByBeaconServer k src a) = addr_ok a"
| "request_wf (AcquireByBeaconServer k src a) = addr_ok a"
| "request_wf (UpdateDirectory k is_admit d) = edge_ok d"
| "request_wf (PreserveDirectory k d) = edge_ok d"
| "request_wf _ = True"

fun msi_enabled :: "coop_request \<Rightarrow> msi_state \<Rightarrow> bool" where
  "msi_enabled (LookupByBeaconServer k src a) s = not_blocked k a s"
| "msi_enabled (AcquireByBeaconServer k src a) s = (copies s k = Map.empty \<or> not_blocked k a s)"
| "msi_enabled (ReleaseWritelock k src d) s = (waiting s k \<noteq> None)"
| "msi_enabled _ s = True"

text \<open>The allowed replies. A look-up names a valid copy outside the requesting node, if there is one and
  the key is not being written; the notification of an update tells the change from one copy to two
  or back; a successful writer learns all copies; a release hands back the edge nodes that wait.\<close>

definition lookup_reply_ok :: "key \<Rightarrow> u32 \<Rightarrow> msi_state \<Rightarrow> coop_reply \<Rightarrow> bool" where
  "lookup_reply_ok k src s rep \<longleftrightarrow> (\<exists>is_valid d.
     rep = LookupReply (copies s k \<noteq> Map.empty) (waiting s k \<noteq> None) is_valid d (DirectoryInfo src \<in> dom (copies s k))
     \<and> (is_valid \<longleftrightarrow> waiting s k = None \<and> (\<exists>n. copies s k n = Some True \<and> getTargetEdgeIdx n \<noteq> src))
     \<and> (if is_valid then copies s k d = Some True \<and> getTargetEdgeIdx d \<noteq> src else d = DirectoryInfo_default))"

definition update_reply_ok :: "key \<Rightarrow> bool \<Rightarrow> directory_info \<Rightarrow> msi_state \<Rightarrow> msi_state \<Rightarrow> coop_reply \<Rightarrow> bool" where
  "update_reply_ok k is_admit d s s' rep \<longleftrightarrow> (\<exists>r.
     rep = UpdateReply (copies s' k \<noteq> Map.empty) (is_admit \<and> waiting s k \<noteq> None)
             (\<exists>n \<in> dom (copies s' k). n \<noteq> d) r
     \<and> (is_from_single_to_multiple r \<longleftrightarrow> card (dom (copies s k)) = 1 \<and> card (dom (copies s' k)) = 2)
     \<and> (is_from_multiple_to_single r \<longleftrightarrow> card (dom (copies s k)) = 2 \<and> card (dom (copies s' k)) = 1)
     \<and> (is_from_single_to_multiple r \<longrightarrow> dom (copies s k) = {DirectoryInfo (notify_edge_idx r)})
     \<and> (is_from_multiple_to_single r \<longrightarrow> dom (copies s' k) = {DirectoryInfo (notify_edge_idx r)}))"

definition acquire_reply_ok :: "key \<Rightarrow> u32 \<Rightarrow> msi_state \<Rightarrow> coop_reply \<Rightarrow> bool" where
  "acquire_reply_ok k src s rep \<longleftrightarrow> (\<exists>result all_dirinfo.
     rep = AcquireReply result all_dirinfo (DirectoryInfo src \<in> dom (copies s k))
     \<and> result = (if copies s k = Map.empty then kNoneed else if waiting s k \<noteq> None then kFailure else kSuccess)
     \<and> (if result = kSuccess
        then \<exists>ds. all_dirinfo = DirinfoSet_of_list ds \<and> distinct ds \<and> set ds = dom (copies s k)
        else all_dirinfo = DirinfoSet_invalid))"

fun msi_reply_ok :: "coop_request \<Rightarrow> msi_state \<Rightarrow> coop_reply \<Rightarrow> bool" where
  "msi_reply_ok (LookupByCacheServer k src) s rep = lookup_reply_ok k src s rep"
| "msi_reply_ok (LookupByBeaconServer k src a) s rep = lookup_reply_ok k src s rep"
| "msi_reply_ok (UpdateDirectory k is_admit d) s rep =
     update_reply_ok k is_admit d s (msi_next (UpdateDirectory k is_admit d) s) rep"
| "msi_reply_ok (AcquireByCacheServer k src) s rep = acquire_reply_ok k src s rep"
| "msi_reply_ok (AcquireByBeaconServer k src a) s rep = acquire_reply_ok k src s rep"
| "msi_reply_ok (ReleaseWritelock k src d) s rep = (\<exists>blocked_edges.
     rep = ReleaseReply blocked_edges (DirectoryInfo src \<in> dom (copies s k))
     \<and> distinct blocked_edges \<and> waiting s k = Some (set blocked_edges))"
| "msi_reply_ok (PreserveDirectory k d) s rep = (rep = PreserveReply (copies s k = Map.empty))"
| "msi_reply_ok (ValidatePreserved k d) s rep =
     (rep = ValidateReply (d \<in> dom (copies s k)) (waiting s k \<noteq> None) (\<exists>n \<in> dom (copies s k). n \<noteq> d))"

section \<open>The bodies of the requests\<close>

lemma same_node_simps [simp]:
  "same_node w w" "same_node w (w'\<lparr>perkey_rwlock_ptr := lk\<rparr>) = same_node w w'"
  "same_node w (w'\<lparr>directory_table_ptr := dt\<rparr>) = same_node w w'"
  "same_node w (w'\<lparr>block_tracker_ptr := bt\<rparr>) = same_node w w'"
  "same_node (w\<lparr>perkey_rwlock_ptr := lk\<rparr>) w' = same_node w w'"
  "same_node (w\<lparr>block_tracker_ptr := bt\<rparr>) w' = same_node w w'"
  by (simp_all add: same_node_def)

lemma write_heldD:
  assumes "dir_write_locked env lk k"
  shows "dir_locked env lk k" and "rwlock_wf lk" and "PerkeyRwlock_isWriteLocked env lk k = Inr True"
  using assms by (simp_all add: dir_write_locked_locked) (simp_all add: dir_write_locked_def)

lemma lookup_body:
  assumes data: "coop_data env w" and lk: "dir_locked env (lk_of w) k" and draw: "draw_ok env"
    and written: "is_being_written \<longleftrightarrow> waiting (coop_abs env w) k \<noteq> None"
  obtains w' g v d sc ptr where
    "CooperationWrapperBase_lookupDirectoryTable env w k src is_being_written DirectoryInfo_default None
      = Inr (w', g, v, d, sc, ptr)"
    and "lk_of w' = lk_of w" and "same_node w w'" and "coop_data env w'" and "coop_abs env w' = coop_abs env w"
    and "lookup_reply_ok k src (coop_abs env w) (LookupReply g is_being_written v d sc)"
proof (cases is_being_written)
  case True
  then have "lookup_reply_ok k src (coop_abs env w) (LookupReply (copies (coop_abs env w) k \<noteq> Map.empty) True False
      DirectoryInfo_default (DirectoryInfo src \<in> dom (copies (coop_abs env w) k)))"
    using written by (auto simp: lookup_reply_ok_def)
  then show ?thesis
    using that [of w "copies (coop_abs env w) k \<noteq> Map.empty" False DirectoryInfo_default
        "DirectoryInfo src \<in> dom (copies (coop_abs env w) k)" None] True data
      isGlobalCached_abs [OF data lk] isCachedByGivenEdge_abs [OF data lk, of src]
    by (simp add: CooperationWrapperBase_lookupDirectoryTable_def)
next
  case False
  from lookup_spec [OF coop_dataD(1) [OF data] lk draw, of src DirectoryInfo_default None]
  obtain dt g v d ds where
    look: "DirectoryTable_lookup env (lk_of w) (directory_table_ptr w) k src DirectoryInfo_default None
        = Inr (dt, g, v, d, ds)" "directory_hashtable dt = directory_hashtable (directory_table_ptr w)"
      "g \<longleftrightarrow> dir_map env (lk_of w) (directory_table_ptr w) k \<noteq> None"
      "v \<longleftrightarrow> (\<exists>n \<in> set (dir_valid env (lk_of w) (directory_table_ptr w) k). getTargetEdgeIdx n \<noteq> src)"
      "if v then d \<in> set (dir_valid env (lk_of w) (directory_table_ptr w) k) \<and> getTargetEdgeIdx d \<noteq> src
       else d = DirectoryInfo_default"
    by blast
  let ?w = "w\<lparr>directory_table_ptr := dt\<rparr>"
  have data': "coop_data env ?w" and abs': "coop_abs env ?w = coop_abs env w"
    using data look(2) by (simp_all add: coop_data_def dir_inv_def coop_abs_def)
  have "lookup_reply_ok k src (coop_abs env w)
      (LookupReply g is_being_written v d (DirectoryInfo src \<in> dom (copies (coop_abs env w) k)))"
    using look(3-5) False written unfolding copies_valid [OF data] copies_empty_iff [OF data, symmetric]
    by (auto simp: lookup_reply_ok_def split: if_splits)
  then show ?thesis
    using that [of ?w g v d] look(1) False data' abs' isCachedByGivenEdge_abs [OF data', of k src] lk
    by (simp add: CooperationWrapperBase_lookupDirectoryTable_def)
qed

lemma update_body:
  assumes data: "coop_data env w" and lk: "dir_write_locked env (lk_of w) k"
    and room: "dir_room (directory_table_ptr w)" and d: "edge_ok d"
  obtains dt g r where
    "DirectoryTable_update env (lk_of w) (directory_table_ptr w) k is_admit d (DirectoryMetadata v) r0 = Inr (dt, g, r)"
    and "coop_data env (w\<lparr>directory_table_ptr := dt\<rparr>)"
    and "coop_abs env (w\<lparr>directory_table_ptr := dt\<rparr>) = (coop_abs env w)\<lparr>copies := (copies (coop_abs env w))
      (k := (copies (coop_abs env w) k)(d := if is_admit then Some v else None))\<rparr>"
    and "r = (if is_admit then add_requirement else remove_requirement)
               (entry_of (dir_map env (lk_of w) (directory_table_ptr w) k)) d"
    and "g \<longleftrightarrow> (copies (coop_abs env w) k)(d := if is_admit then Some v else None) \<noteq> Map.empty"
proof (cases is_admit)
  case True
  from update_admit_edges [OF coop_dataD(1) [OF data] lk room d, of "DirectoryMetadata v" r0] obtain dt where
    dt: "DirectoryTable_update env (lk_of w) (directory_table_ptr w) k True d (DirectoryMetadata v) r0
        = Inr (dt, True, add_requirement (entry_of (dir_map env (lk_of w) (directory_table_ptr w) k)) d)"
      "dir_inv env (lk_of w) dt" "dir_map env (lk_of w) dt = (dir_map env (lk_of w) (directory_table_ptr w))
        (k \<mapsto> um_put d (DirectoryMetadata v) (entry_of (dir_map env (lk_of w) (directory_table_ptr w) k)))" .
  show ?thesis
    using that [OF _ coop_put_table(1) [OF data dt(2,3)]] coop_put_table(2) [OF data dt(2,3)] dt(1) True
    by (simp add: coop_abs_copies)
next
  case False
  let ?e = "entry_of (dir_map env (lk_of w) (directory_table_ptr w) k)"
  from update_evict_edges [OF coop_dataD(1) [OF data] lk room, of d "DirectoryMetadata v" r0] obtain dt where
    dt: "DirectoryTable_update env (lk_of w) (directory_table_ptr w) k False d (DirectoryMetadata v) r0
        = Inr (dt, um_erase d ?e \<noteq> [], remove_requirement ?e d)"
      "dir_inv env (lk_of w) dt" "dir_map env (lk_of w) dt = (dir_map env (lk_of w) (directory_table_ptr w))
        (k := if um_erase d ?e = [] then None else Some (um_erase d ?e))" .
  have e: "entry_of (if um_erase d ?e = [] then None else Some (um_erase d ?e)) = um_erase d ?e" by simp
  have "um_erase d ?e \<noteq> [] \<longleftrightarrow> (copies (coop_abs env w) k)(d := None) \<noteq> Map.empty"
    by (simp add: coop_abs_copies flip: entry_copies_empty)
  then show ?thesis
    using that [OF _ coop_put_table(1) [OF data dt(2,3)]] coop_put_table(2) [OF data dt(2,3)] dt(1) False
    unfolding e by (simp add: coop_abs_copies)
qed

lemma invalidate_body:
  assumes data: "coop_data env w" and lk: "dir_write_locked env (lk_of w) k"
    and room: "dir_room (directory_table_ptr w)" and cached: "copies (coop_abs env w) k \<noteq> Map.empty"
  obtains dt ds where
    "DirectoryTable_invalidateAllDirinfoForKeyIfExist env (lk_of w) (directory_table_ptr w) k s
       = Inr (dt, DirinfoSet_of_list ds)"
    and "distinct ds" and "set ds = dom (copies (coop_abs env w) k)"
    and "coop_data env (w\<lparr>directory_table_ptr := dt\<rparr>)"
    and "coop_abs env (w\<lparr>directory_table_ptr := dt\<rparr>) = (coop_abs env w)\<lparr>copies := (copies (coop_abs env w))
      (k := \<lambda>d. map_option (\<lambda>_. False) (copies (coop_abs env w) k d))\<rparr>"
proof -
  obtain e where e: "dir_map env (lk_of w) (directory_table_ptr w) k = Some e"
    using cached copies_empty_iff [OF data] by auto
  let ?e = "map (\<lambda>(d, _). (d, DirectoryMetadata False)) e"
  from DirectoryTable_invalidate [OF coop_dataD(1) [OF data] lk room e, of s] obtain ht where
    ht: "DirectoryTable_invalidateAllDirinfoForKeyIfExist env (lk_of w) (directory_table_ptr w) k s
        = Inr ((directory_table_ptr w)\<lparr>directory_hashtable := ht\<rparr>, DirinfoSet_of_list (map fst e))"
      "dir_inv env (lk_of w) ((directory_table_ptr w)\<lparr>directory_hashtable := ht\<rparr>)"
      "ht_map env (lk_of w) ht = (dir_map env (lk_of w) (directory_table_ptr w))(k \<mapsto> ?e)" .
  let ?dt = "(directory_table_ptr w)\<lparr>directory_hashtable := ht\<rparr>"
  have map': "dir_map env (lk_of w) ?dt = (dir_map env (lk_of w) (directory_table_ptr w))(k \<mapsto> ?e)"
    using ht(3) by simp
  have c: "entry_copies (entry_of (Some ?e)) = (\<lambda>d. map_option (\<lambda>_. False) (copies (coop_abs env w) k d))"
    by (simp add: fun_eq_iff coop_abs_copies e entry_copies_invalidated)
  have "um_wf e" using dir_inv_entry [OF coop_dataD(1) [OF data] e] by (simp add: DirectoryEntry_inv_def)
  moreover have "set (map fst e) = dom (copies (coop_abs env w) k)"
    by (simp add: coop_abs_copies e edges_of_set)
  ultimately show ?thesis
    using that [OF ht(1)] coop_put_table [OF data ht(2) map'] unfolding c by blast
qed

lemma validate_body:
  assumes data: "coop_data env w" and lk: "dir_write_locked env (lk_of w) k"
    and room: "dir_room (directory_table_ptr w)"
  obtains dt where
    "DirectoryTable_validateDirinfoForKeyIfExist env (lk_of w) (directory_table_ptr w) k d
       = Inr (dt, copies (coop_abs env w) k \<noteq> Map.empty, d \<in> dom (copies (coop_abs env w) k))"
    and "coop_data env (w\<lparr>directory_table_ptr := dt\<rparr>)"
    and "coop_abs env (w\<lparr>directory_table_ptr := dt\<rparr>) = validate_at k d (coop_abs env w)"
proof (cases "dir_map env (lk_of w) (directory_table_ptr w) k")
  case None
  then have c: "copies (coop_abs env w) k = Map.empty" by (simp add: coop_abs_copies)
  have "validate_at k d (coop_abs env w) = coop_abs env w" by (simp add: validate_at_def c fun_upd_idem)
  then show ?thesis
    using that [of "directory_table_ptr w"] DirectoryTable_validate_absent [OF coop_dataD(1) [OF data] lk None] data c
    by simp
next
  case (Some e)
  let ?e = "if d \<in> edges_of e then um_put d (DirectoryMetadata True) e else e"
  from DirectoryTable_validate [OF coop_dataD(1) [OF data] lk room Some, of d] obtain ht where
    ht: "DirectoryTable_validateDirinfoForKeyIfExist env (lk_of w) (directory_table_ptr w) k d
        = Inr ((directory_table_ptr w)\<lparr>directory_hashtable := ht\<rparr>, True, d \<in> edges_of e)"
      "dir_inv env (lk_of w) ((directory_table_ptr w)\<lparr>directory_hashtable := ht\<rparr>)"
      "ht_map env (lk_of w) ht = (dir_map env (lk_of w) (directory_table_ptr w))(k \<mapsto> ?e)" .
  let ?dt = "(directory_table_ptr w)\<lparr>directory_hashtable := ht\<rparr>"
  have map': "dir_map env (lk_of w) ?dt = (dir_map env (lk_of w) (directory_table_ptr w))(k \<mapsto> ?e)"
    using ht(3) by simp
  have c: "copies (coop_abs env w) k = entry_copies e" by (simp add: coop_abs_copies Some)
  have "copies (coop_abs env w) k \<noteq> Map.empty" using copies_empty_iff [OF data] Some by simp
  moreover have "entry_copies (entry_of (Some ?e))
      = (if d \<in> dom (copies (coop_abs env w) k) then (copies (coop_abs env w) k)(d \<mapsto> True)
         else copies (coop_abs env w) k)"
    by (simp add: c)
  ultimately show ?thesis
    using that [of ?dt] ht(1) coop_put_table [OF data ht(2) map'] by (simp add: validate_at_def c)
qed

text \<open>The tracker: start a write, block an edge node, finish a write.\<close>

lemma waiting_lookup:
  assumes "waiting (coop_abs env w) k = Some ws"
  obtains m where "ht_map env (lk_of w) (block_tracker_ptr w) k = Some m" and "ws = set (edge_blocklist m)"
  using assms by (auto simp: coop_abs_waiting)

lemma waiting_absent:
  "waiting (coop_abs env w) k = None \<Longrightarrow> ht_map env (lk_of w) (block_tracker_ptr w) k = None"
  by (simp add: coop_abs_waiting)

lemma block_at_idem: "waiting s k = None \<Longrightarrow> block_at k a s = s"
  by (simp add: block_at_def fun_upd_idem)

lemma tracker_block_at:
  assumes "coop_data env w" and "bt_inv env (lk_of w) bt"
    and "ht_map env (lk_of w) (block_tracker_ptr w) k = Some m"
    and "ht_map env (lk_of w) bt = (ht_map env (lk_of w) (block_tracker_ptr w))(k \<mapsto> block_edge a m)"
  shows "coop_data env (w\<lparr>block_tracker_ptr := bt\<rparr>)"
    and "coop_abs env (w\<lparr>block_tracker_ptr := bt\<rparr>) = block_at k a (coop_abs env w)"
  using coop_put_tracker [OF assms(1,2,4)] assms(3) by (simp_all add: block_at_def coop_abs_waiting)

lemma block_body:
  assumes data: "coop_data env w" and lk: "dir_write_locked env (lk_of w) k"
    and room: "bt_room (block_tracker_ptr w)" and a: "addr_ok a" "not_blocked k a (coop_abs env w)"
  obtains bt where
    "BlockTracker_blockEdgeForKeyIfExistAndBeingWritten env (lk_of w) (block_tracker_ptr w) k a
       = Inr (bt, waiting (coop_abs env w) k \<noteq> None)"
    and "coop_data env (w\<lparr>block_tracker_ptr := bt\<rparr>)"
    and "coop_abs env (w\<lparr>block_tracker_ptr := bt\<rparr>) = block_at k a (coop_abs env w)"
proof (cases "waiting (coop_abs env w) k")
  case None
  then show ?thesis
    using that [of "block_tracker_ptr w"] data block_at_idem
      blockEdge_absent [OF coop_dataD(2) [OF data] write_heldD(2,3) [OF lk] waiting_absent a(1)]
    by simp
next
  case (Some ws)
  from waiting_lookup [OF Some] obtain m where
    m: "ht_map env (lk_of w) (block_tracker_ptr w) k = Some m" "ws = set (edge_blocklist m)" .
  then have "a \<notin> set (edge_blocklist m)" using a(2) Some by (simp add: not_blocked_def)
  from blockEdge_new [OF coop_dataD(2) [OF data] write_heldD(2,3) [OF lk] m(1) a(1) this room] obtain bt where
    bt: "BlockTracker_blockEdgeForKeyIfExistAndBeingWritten env (lk_of w) (block_tracker_ptr w) k a = Inr (bt, True)"
      "bt_inv env (lk_of w) bt"
      "ht_map env (lk_of w) bt = (ht_map env (lk_of w) (block_tracker_ptr w))(k \<mapsto> block_edge a m)" .
  show ?thesis
    using that [OF _ tracker_block_at [OF data bt(2) m(1) bt(3)]] bt(1) Some by simp
qed

lemma finish_body:
  assumes data: "coop_data env w" and lk: "dir_write_locked env (lk_of w) k"
    and room: "bt_room (block_tracker_ptr w)" and written: "waiting (coop_abs env w) k = Some ws"
  obtains bt blocked where
    "BlockTracker_unblockAllEdgesAndFinishWriteForKeyIfExist env (lk_of w) (block_tracker_ptr w) k = Inr (bt, blocked)"
    and "distinct blocked" and "set blocked = ws"
    and "coop_data env (w\<lparr>block_tracker_ptr := bt\<rparr>)"
    and "coop_abs env (w\<lparr>block_tracker_ptr := bt\<rparr>)
      = (coop_abs env w)\<lparr>waiting := (waiting (coop_abs env w))(k := None)\<rparr>"
proof -
  from waiting_lookup [OF written] obtain m where
    m: "ht_map env (lk_of w) (block_tracker_ptr w) k = Some m" "ws = set (edge_blocklist m)" .
  from unblock_ok [OF coop_dataD(2) [OF data] write_heldD(2,3) [OF lk] m(1) room] obtain bt where
    bt: "BlockTracker_unblockAllEdgesAndFinishWriteForKeyIfExist env (lk_of w) (block_tracker_ptr w) k
        = Inr (bt, edge_blocklist m)" "bt_inv env (lk_of w) bt"
      "ht_map env (lk_of w) bt = (ht_map env (lk_of w) (block_tracker_ptr w))(k := None)" .
  have "distinct (edge_blocklist m)"
    using bt_entry [OF coop_dataD(2) [OF data] m(1)] by (simp add: MsiMetadata_inv_def)
  then show ?thesis
    using that [OF bt(1)] m(2) coop_put_tracker [OF data bt(2,3)] by simp
qed

text \<open>A request for the write lock, for either way \<open>cas\<close> to set the write flag: a new write invalidates
  all copies, a running one leaves what \<open>cas\<close> left.\<close>

definition acquire_with ::
    "('m, 'z) lock_env_scheme \<Rightarrow> (block_tracker \<times> bool) exec \<Rightarrow> ('m, 'g) cooperation_wrapper \<Rightarrow> key \<Rightarrow> u32
     \<Rightarrow> dirinfo_set \<Rightarrow> (('m, 'g) cooperation_wrapper \<times> lock_result \<times> dirinfo_set \<times> bool) exec" where
  "acquire_with env cas w k src all_dirinfo =
     bindE (DirectoryTable_isGlobalCached env (lk_of w) (directory_table_ptr w) k) (\<lambda>is_global_cached.
     bindE (if is_global_cached
            then bindE cas (\<lambda>(bt, is_successful).
                 acquire_writelock_result env (w\<lparr>block_tracker_ptr := bt\<rparr>) k all_dirinfo is_successful)
            else Inr (w, kNoneed, all_dirinfo)) (\<lambda>(w, lock_result, all_dirinfo).
     bindE (DirectoryTable_isCachedByGivenEdge env (lk_of w) (directory_table_ptr w) k src) (\<lambda>is_source_cached.
     Inr (w, lock_result, all_dirinfo, is_source_cached))))"

lemma dom_start_write [simp]: "dom (copies (start_write k s) k) = dom (copies s k)"
  by (auto simp: start_write_def)

lemma copies_block_at [simp]: "copies (block_at k a s) = copies s"
  by (simp add: block_at_def)

lemma acquire_with_noneed:
  assumes data: "coop_data env w" and lk: "dir_locked env (lk_of w) k"
    and "copies (coop_abs env w) k = Map.empty"
  shows "acquire_with env cas w k src all_dirinfo = Inr (w, kNoneed, all_dirinfo, False)"
  using isGlobalCached_abs [OF data lk] isCachedByGivenEdge_abs [OF data lk, of src] assms(3)
  by (simp add: acquire_with_def)

lemma acquire_with_failure:
  assumes data: "coop_data env w" and lk: "dir_locked env (lk_of w) k"
    and "copies (coop_abs env w) k \<noteq> Map.empty" and "cas = Inr (bt, False)"
    and data': "coop_data env (w\<lparr>block_tracker_ptr := bt\<rparr>)"
  shows "acquire_with env cas w k src all_dirinfo
    = Inr (w\<lparr>block_tracker_ptr := bt\<rparr>, kFailure, all_dirinfo, DirectoryInfo src \<in> dom (copies (coop_abs env w) k))"
proof -
  have "copies (coop_abs env (w\<lparr>block_tracker_ptr := bt\<rparr>)) = copies (coop_abs env w)"
    by (simp add: coop_abs_def)
  then show ?thesis
    using isGlobalCached_abs [OF data lk] isCachedByGivenEdge_abs [OF data', of k src] lk assms(3,4)
    by (simp add: acquire_with_def acquire_writelock_result_def)
qed

lemma acquire_with_success:
  assumes data: "coop_data env w" and lk: "dir_write_locked env (lk_of w) k"
    and room: "dir_room (directory_table_ptr w)" and cached: "copies (coop_abs env w) k \<noteq> Map.empty"
    and cas: "cas = Inr (bt, True)" and bt: "bt_inv env (lk_of w) bt"
      "ht_map env (lk_of w) bt = (ht_map env (lk_of w) (block_tracker_ptr w))(k \<mapsto> MsiMetadata_new True)"
  obtains w' ds where
    "acquire_with env cas w k src all_dirinfo
      = Inr (w', kSuccess, DirinfoSet_of_list ds, DirectoryInfo src \<in> dom (copies (coop_abs env w) k))"
    and "lk_of w' = lk_of w" and "same_node w w'" and "coop_data env w'"
    and "coop_abs env w' = start_write k (coop_abs env w)"
    and "distinct ds" and "set ds = dom (copies (coop_abs env w) k)"
proof -
  let ?w1 = "w\<lparr>block_tracker_ptr := bt\<rparr>"
  note tracker = coop_put_tracker [OF data bt]
  have abs1: "copies (coop_abs env ?w1) = copies (coop_abs env w)" by (simp add: coop_abs_def)
  from invalidate_body [OF tracker(1), of k all_dirinfo] lk room cached abs1 obtain dt ds where
    dt: "DirectoryTable_invalidateAllDirinfoForKeyIfExist env (lk_of w) (directory_table_ptr w) k all_dirinfo
        = Inr (dt, DirinfoSet_of_list ds)" "distinct ds" "set ds = dom (copies (coop_abs env w) k)"
      "coop_data env (?w1\<lparr>directory_table_ptr := dt\<rparr>)"
      "coop_abs env (?w1\<lparr>directory_table_ptr := dt\<rparr>) = (coop_abs env ?w1)\<lparr>copies := (copies (coop_abs env w))
        (k := \<lambda>d. map_option (\<lambda>_. False) (copies (coop_abs env w) k d))\<rparr>"
    by auto
  let ?w2 = "?w1\<lparr>directory_table_ptr := dt\<rparr>"
  have abs2: "coop_abs env ?w2 = start_write k (coop_abs env w)"
    unfolding dt(5) tracker(2) by (simp add: start_write_def MsiMetadata_new_def)
  have "DirectoryTable_isCachedByGivenEdge env (lk_of w) dt k src
      = Inr (DirectoryInfo src \<in> dom (copies (coop_abs env w) k))"
    using isCachedByGivenEdge_abs [OF dt(4), of k src] write_heldD(1) [OF lk] unfolding abs2 by simp
  then have "acquire_with env cas w k src all_dirinfo
      = Inr (?w2, kSuccess, DirinfoSet_of_list ds, DirectoryInfo src \<in> dom (copies (coop_abs env w) k))"
    using isGlobalCached_abs [OF data write_heldD(1) [OF lk]] cached cas dt(1)
    by (simp add: acquire_with_def acquire_writelock_result_def)
  then show ?thesis using that [of ?w2 ds] dt(2-4) abs2 by simp
qed

section \<open>Serving a request\<close>

definition serves ::
    "('m, 'g, 'z) coop_env_scheme \<Rightarrow> ('m \<Rightarrow> nat) \<Rightarrow> ('m \<Rightarrow> bool) \<Rightarrow> ('m, 'g) cooperation_wrapper \<Rightarrow> coop_request \<Rightarrow> bool" where
  "serves env shared excl w req \<longleftrightarrow> (\<exists>w' rep. coop_handle env w req = Inr (w', rep)
     \<and> coop_inv env shared excl w' \<and> same_node w w'
     \<and> coop_abs env w' = msi_next req (coop_abs env w) \<and> msi_reply_ok req (coop_abs env w) rep)"

lemma serves_lookup_cache:
  assumes ok: "shared_mutex_ok env shared excl" and inv: "coop_inv env shared excl w" and beacon: "is_beacon w k"
    and draw: "draw_ok env"
  shows "serves env shared excl w (LookupByCacheServer k src)"
proof -
  let ?s = "coop_abs env w"
  let ?P = "\<lambda>s' r. s' = ?s \<and> (case r of (g, b, v, d, sc, _) \<Rightarrow> lookup_reply_ok k src ?s (LookupReply g b v d sc))"
  have "\<exists>w' r. CooperationWrapperBase_lookupDirectoryTableByCacheServer env w k src DirectoryInfo_default None
      = Inr (w', r) \<and> coop_inv env shared excl w' \<and> same_node w w' \<and> ?P (coop_abs env w') r"
    unfolding CooperationWrapperBase_lookupDirectoryTableByCacheServer_def
  proof (rule read_section.section_run [OF ok inv beacon, where P = ?P])
    fix lk
    let ?w = "w\<lparr>perkey_rwlock_ptr := lk\<rparr>"
    assume "dir_locked env lk k" and data: "coop_data env ?w" and abs: "coop_abs env ?w = ?s"
    then have lk: "dir_locked env (lk_of ?w) k" by simp
    from lookup_body [OF data lk draw refl, of src] obtain w' g v d sc ptr where
      "CooperationWrapperBase_lookupDirectoryTable env ?w k src (waiting (coop_abs env ?w) k \<noteq> None)
          DirectoryInfo_default None = Inr (w', g, v, d, sc, ptr)"
      "lk_of w' = lk_of ?w" "same_node ?w w'" "coop_data env w'" "coop_abs env w' = coop_abs env ?w"
      "lookup_reply_ok k src (coop_abs env ?w) (LookupReply g (waiting (coop_abs env ?w) k \<noteq> None) v d sc)" .
    then show "\<exists>w' r. bindE (BlockTracker_isBeingWrittenForKey env (lk_of ?w) (block_tracker_ptr ?w) k)
        (\<lambda>is_being_written.
          bindE (CooperationWrapperBase_lookupDirectoryTable env ?w k src is_being_written DirectoryInfo_default None)
            (\<lambda>(w, is_global_cached, results). Inr (w, is_global_cached, is_being_written, results)))
        = Inr (w', r) \<and> lk_of w' = lk \<and> same_node w w' \<and> coop_data env w' \<and> ?P (coop_abs env w') r"
      using isBeingWritten_abs [OF data lk] abs by simp
  qed
  then show ?thesis by (force simp: serves_def)
qed

lemma serves_lookup_beacon:
  assumes ok: "shared_mutex_ok env shared excl" and inv: "coop_inv env shared excl w" and beacon: "is_beacon w k"
    and draw: "draw_ok env" and room: "coop_room w" and a: "addr_ok a" "not_blocked k a (coop_abs env w)"
  shows "serves env shared excl w (LookupByBeaconServer k src a)"
proof -
  let ?s = "coop_abs env w"
  let ?P = "\<lambda>s' r. s' = block_at k a ?s \<and> (case r of (g, b, v, d, sc, _) \<Rightarrow> lookup_reply_ok k src ?s (LookupReply g b v d sc))"
  have "\<exists>w' r. CooperationWrapperBase_lookupDirectoryTableByBeaconServer env w k src a DirectoryInfo_default None
      = Inr (w', r) \<and> coop_inv env shared excl w' \<and> same_node w w' \<and> ?P (coop_abs env w') r"
    unfolding CooperationWrapperBase_lookupDirectoryTableByBeaconServer_def
  proof (rule write_section.section_run [OF ok inv beacon, where P = ?P])
    fix lk
    let ?w = "w\<lparr>perkey_rwlock_ptr := lk\<rparr>"
    assume "dir_write_locked env lk k" and data: "coop_data env ?w" and abs: "coop_abs env ?w = ?s"
    then have lk: "dir_write_locked env (lk_of ?w) k" by simp
    have room': "bt_room (block_tracker_ptr ?w)" using room by (simp add: coop_room_def)
    from block_body [OF data lk room' a(1)] a(2) abs obtain bt where
      bt: "BlockTracker_blockEdgeForKeyIfExistAndBeingWritten env lk (block_tracker_ptr w) k a
          = Inr (bt, waiting ?s k \<noteq> None)"
        "coop_data env (?w\<lparr>block_tracker_ptr := bt\<rparr>)"
        "coop_abs env (?w\<lparr>block_tracker_ptr := bt\<rparr>) = block_at k a ?s"
      by auto
    have written: "(waiting ?s k \<noteq> None) \<longleftrightarrow> waiting (coop_abs env (?w\<lparr>block_tracker_ptr := bt\<rparr>)) k \<noteq> None"
      by (simp add: bt(3) block_at_def)
    have lk': "dir_locked env (lk_of (?w\<lparr>block_tracker_ptr := bt\<rparr>)) k" using write_heldD(1) [OF lk] by simp
    from lookup_body [OF bt(2) lk' draw written, of src] obtain w' g v d sc ptr where
      "CooperationWrapperBase_lookupDirectoryTable env (?w\<lparr>block_tracker_ptr := bt\<rparr>) k src (waiting ?s k \<noteq> None)
          DirectoryInfo_default None = Inr (w', g, v, d, sc, ptr)"
      "lk_of w' = lk_of (?w\<lparr>block_tracker_ptr := bt\<rparr>)" "same_node (?w\<lparr>block_tracker_ptr := bt\<rparr>) w'" "coop_data env w'"
      "coop_abs env w' = coop_abs env (?w\<lparr>block_tracker_ptr := bt\<rparr>)"
      "lookup_reply_ok k src (coop_abs env (?w\<lparr>block_tracker_ptr := bt\<rparr>)) (LookupReply g (waiting ?s k \<noteq> None) v d sc)" .
    moreover have "lookup_reply_ok k src (block_at k a ?s) r = lookup_reply_ok k src ?s r" for r
      by (simp add: lookup_reply_ok_def block_at_def)
    ultimately show "\<exists>w' r. bindE (BlockTracker_blockEdgeForKeyIfExistAndBeingWritten env (lk_of ?w)
          (block_tracker_ptr ?w) k a) (\<lambda>(bt, is_being_written).
          bindE (CooperationWrapperBase_lookupDirectoryTable env (?w\<lparr>block_tracker_ptr := bt\<rparr>) k src is_being_written
              DirectoryInfo_default None)
            (\<lambda>(w, is_global_cached, results). Inr (w, is_global_cached, is_being_written, results)))
        = Inr (w', r) \<and> lk_of w' = lk \<and> same_node w w' \<and> coop_data env w' \<and> ?P (coop_abs env w') r"
      using bt(1,3) by simp
  qed
  then show ?thesis by (force simp: serves_def)
qed

text \<open>The reply to an update, from the notification the directory entry computed.\<close>

lemma neighbor_iff: "(\<exists>n \<in> S. getTargetEdgeIdx n \<noteq> getTargetEdgeIdx d) \<longleftrightarrow> (\<exists>n \<in> S. n \<noteq> d)"
  by (auto intro: directory_info.expand)

lemma update_reply:
  assumes data: "coop_data env w" and s: "s = coop_abs env w" and s': "s' = msi_next (UpdateDirectory k is_admit d) s"
    and r: "r = (if is_admit then add_requirement else remove_requirement)
      (entry_of (dir_map env (lk_of w) (directory_table_ptr w) k)) d"
  shows "update_reply_ok k is_admit d s s'
      (UpdateReply (copies s' k \<noteq> Map.empty) (is_admit \<and> waiting s k \<noteq> None) (\<exists>n \<in> dom (copies s' k). n \<noteq> d) r)"
    and "is_from_single_to_multiple r \<Longrightarrow> is_admit \<and> (\<exists>n \<in> dom (copies s' k). n \<noteq> d)"
    and "is_from_multiple_to_single r \<Longrightarrow> \<not> is_admit \<and> (\<exists>n \<in> dom (copies s' k). n \<noteq> d)"
proof -
  let ?e = "entry_of (dir_map env (lk_of w) (directory_table_ptr w) k)"
  have wf: "um_wf ?e" by (rule entry_of_wf [OF coop_dataD(1) [OF data]])
  have dom: "edges_of ?e = dom (copies s k)" by (simp add: s coop_abs_copies)
  have dom': "dom (copies s' k) = (if is_admit then insert d (dom (copies s k)) else dom (copies s k) - {d})"
    by (simp add: s')
  have fin: "finite (dom (copies s k))" unfolding dom [symmetric] by (rule finite_dom_map_of)
  note add = add_requirement_iff [OF wf, of d, unfolded dom] and remove = remove_requirement_iff [OF wf, of d, unfolded dom]
  have none: "\<not> (card (dom (copies s k)) = 2 \<and> card (insert d (dom (copies s k))) = 1)"
    "\<not> (card (dom (copies s k)) = 1 \<and> card (dom (copies s k) - {d}) = 2)"
    using fin by (auto simp: card_insert_if card_Diff_singleton_if)
  show "update_reply_ok k is_admit d s s'
      (UpdateReply (copies s' k \<noteq> Map.empty) (is_admit \<and> waiting s k \<noteq> None) (\<exists>n \<in> dom (copies s' k). n \<noteq> d) r)"
    unfolding update_reply_ok_def dom' using add remove none r by (cases is_admit) auto
  have other: "\<exists>n \<in> S. n \<noteq> d" if "card S = 2" for S :: "directory_info set"
    using that by (auto simp: card_2_iff)
  show "is_from_single_to_multiple r \<Longrightarrow> is_admit \<and> (\<exists>n \<in> dom (copies s' k). n \<noteq> d)"
    unfolding dom' using add(1) remove(3) other [of "insert d (dom (copies s k))"] r by (cases is_admit) simp_all
  show "is_from_multiple_to_single r \<Longrightarrow> \<not> is_admit \<and> (\<exists>n \<in> dom (copies s' k). n \<noteq> d)"
    unfolding dom' using add(3) remove(1) other [of "dom (copies s k)"] r by (cases is_admit) auto
qed

lemma serves_update:
  assumes ok: "shared_mutex_ok env shared excl" and inv: "coop_inv env shared excl w" and beacon: "is_beacon w k"
    and room: "coop_room w" and d: "edge_ok d"
  shows "serves env shared excl w (UpdateDirectory k is_admit d)"
proof -
  let ?s = "coop_abs env w" and ?req = "UpdateDirectory k is_admit d"
  let ?P = "\<lambda>s' r. s' = msi_next ?req ?s \<and> (case r of (g, b, n, q) \<Rightarrow> update_reply_ok k is_admit d ?s s' (UpdateReply g b n q))"
  have "\<exists>w' r. CooperationWrapperBase_updateDirectoryTable env w k (getTargetEdgeIdx d) is_admit d
      MetadataUpdateRequirement_none = Inr (w', r)
      \<and> coop_inv env shared excl w' \<and> same_node w w' \<and> ?P (coop_abs env w') r"
    unfolding CooperationWrapperBase_updateDirectoryTable_def simp_thms(6) assertE_simps
  proof (rule write_section.section_run [OF ok inv beacon, where P = ?P])
    fix lk
    let ?w = "w\<lparr>perkey_rwlock_ptr := lk\<rparr>" and ?b = "is_admit \<and> waiting ?s k \<noteq> None"
    assume "dir_write_locked env lk k" and data: "coop_data env ?w" and abs: "coop_abs env ?w = ?s"
    then have lk: "dir_write_locked env (lk_of ?w) k" by simp
    have room': "dir_room (directory_table_ptr ?w)" using room by (simp add: coop_room_def)
    from update_body [OF data lk room' d, of is_admit "\<not> ?b" MetadataUpdateRequirement_none] obtain dt g r where
      dt: "DirectoryTable_update env lk (directory_table_ptr w) k is_admit d (DirectoryMetadata (\<not> ?b))
          MetadataUpdateRequirement_none = Inr (dt, g, r)"
        "coop_data env (?w\<lparr>directory_table_ptr := dt\<rparr>)"
        "coop_abs env (?w\<lparr>directory_table_ptr := dt\<rparr>) = ?s\<lparr>copies := (copies ?s)
          (k := (copies ?s k)(d := if is_admit then Some (\<not> ?b) else None))\<rparr>"
        "r = (if is_admit then add_requirement else remove_requirement)
          (entry_of (dir_map env (lk_of ?w) (directory_table_ptr ?w) k)) d"
        "g \<longleftrightarrow> (copies ?s k)(d := if is_admit then Some (\<not> ?b) else None) \<noteq> Map.empty"
      unfolding abs by auto
    have s': "coop_abs env (?w\<lparr>directory_table_ptr := dt\<rparr>) = msi_next ?req ?s"
      unfolding dt(3) by auto
    have g: "g \<longleftrightarrow> copies (msi_next ?req ?s) k \<noteq> Map.empty"
      unfolding s' [symmetric] dt(3) dt(5) by simp
    note reply = update_reply [OF data abs [symmetric] refl dt(4)]
    define b n where "b = ?b" and "n = (\<exists>n \<in> dom (copies (msi_next ?req ?s) k). n \<noteq> d)"
    have "DirectoryTable_isNeighborCached env lk dt k (getTargetEdgeIdx d) = Inr n"
      using isNeighborCached_abs [OF dt(2), of k "getTargetEdgeIdx d"] write_heldD(1) [OF lk]
      unfolding s' neighbor_iff n_def by simp
    moreover have "(if is_admit then BlockTracker_isBeingWrittenForKey env (lk_of ?w) (block_tracker_ptr ?w) k else Inr False)
        = Inr b"
      using isBeingWritten_abs [OF data write_heldD(1) [OF lk]] abs by (simp add: b_def)
    moreover have "DirectoryTable_update env lk (directory_table_ptr w) k is_admit d (DirectoryMetadata (\<not> b))
        MetadataUpdateRequirement_none = Inr (dt, g, r)"
      unfolding b_def by (rule dt(1))
    moreover have "is_from_single_to_multiple r \<Longrightarrow> is_admit \<and> n" "is_from_multiple_to_single r \<Longrightarrow> \<not> is_admit \<and> n"
      unfolding n_def by (rule reply(2,3), assumption)+
    moreover have "update_reply_ok k is_admit d ?s (coop_abs env (?w\<lparr>directory_table_ptr := dt\<rparr>)) (UpdateReply g b n r)"
      unfolding b_def n_def g s' by (rule reply(1))
    ultimately show "\<exists>w' r. bindE (if is_admit then BlockTracker_isBeingWrittenForKey env (lk_of ?w) (block_tracker_ptr ?w) k
          else Inr False) (\<lambda>is_being_written.
        bindE (DirectoryTable_update env (lk_of ?w) (directory_table_ptr ?w) k is_admit d
          (DirectoryMetadata (\<not> is_being_written)) MetadataUpdateRequirement_none) (\<lambda>(dt, is_global_cached, requirement).
        bindE (DirectoryTable_isNeighborCached env (lk_of ?w) dt k (getTargetEdgeIdx d)) (\<lambda>is_neighbor_cached.
        let result = Inr (?w\<lparr>directory_table_ptr := dt\<rparr>, is_global_cached, is_being_written, is_neighbor_cached, requirement)
        in if is_from_single_to_multiple requirement then assertE (is_admit \<and> is_neighbor_cached) result
           else if is_from_multiple_to_single requirement then assertE (\<not> is_admit \<and> is_neighbor_cached) result
           else result)))
        = Inr (w', r) \<and> lk_of w' = lk \<and> same_node w w' \<and> coop_data env w' \<and> ?P (coop_abs env w') r"
      using dt(2) s' by (cases "is_from_single_to_multiple r"; cases "is_from_multiple_to_single r"; cases n)
        (simp_all add: Let_def assertE_def del: msi_next.simps)
  qed
  then show ?thesis by (force simp: serves_def simp del: msi_next.simps)
qed

lemma acquire_cases:
  assumes data: "coop_data env w" and lk: "dir_write_locked env (lk_of w) k"
    and room: "dir_room (directory_table_ptr w)"
    and new: "waiting (coop_abs env w) k = None \<Longrightarrow> \<exists>bt. cas = Inr (bt, True) \<and> bt_inv env (lk_of w) bt
      \<and> ht_map env (lk_of w) bt = (ht_map env (lk_of w) (block_tracker_ptr w))(k \<mapsto> MsiMetadata_new True)"
    and running: "waiting (coop_abs env w) k \<noteq> None \<Longrightarrow> copies (coop_abs env w) k \<noteq> Map.empty \<Longrightarrow>
      \<exists>bt. cas = Inr (bt, False) \<and> coop_data env (w\<lparr>block_tracker_ptr := bt\<rparr>)
        \<and> coop_abs env (w\<lparr>block_tracker_ptr := bt\<rparr>) = blocked (coop_abs env w)"
  shows "\<exists>w' r. acquire_with env cas w k src DirinfoSet_invalid = Inr (w', r)
    \<and> lk_of w' = lk_of w \<and> same_node w w' \<and> coop_data env w'
    \<and> coop_abs env w' = (if copies (coop_abs env w) k = Map.empty then coop_abs env w
        else if waiting (coop_abs env w) k \<noteq> None then blocked (coop_abs env w) else start_write k (coop_abs env w))
    \<and> (case r of (result, ds, sc) \<Rightarrow> acquire_reply_ok k src (coop_abs env w) (AcquireReply result ds sc))"
proof -
  let ?s = "coop_abs env w"
  consider (noneed) "copies ?s k = Map.empty" | (failure) "copies ?s k \<noteq> Map.empty" "waiting ?s k \<noteq> None"
    | (success) "copies ?s k \<noteq> Map.empty" "waiting ?s k = None"
    by blast
  then show ?thesis
  proof cases
    case noneed
    then show ?thesis
      using acquire_with_noneed [OF data write_heldD(1) [OF lk] noneed, of cas src DirinfoSet_invalid] data
      by (simp add: acquire_reply_ok_def)
  next
    case failure
    then obtain bt where bt: "cas = Inr (bt, False)" "coop_data env (w\<lparr>block_tracker_ptr := bt\<rparr>)"
        "coop_abs env (w\<lparr>block_tracker_ptr := bt\<rparr>) = blocked ?s"
      using running by blast
    then show ?thesis
      using acquire_with_failure [OF data write_heldD(1) [OF lk] failure(1) bt(1,2), of src DirinfoSet_invalid] failure
      by (simp add: acquire_reply_ok_def)
  next
    case success
    from new [OF success(2)] obtain bt where bt: "cas = Inr (bt, True)" "bt_inv env (lk_of w) bt"
      "ht_map env (lk_of w) bt = (ht_map env (lk_of w) (block_tracker_ptr w))(k \<mapsto> MsiMetadata_new True)"
      by blast
    from acquire_with_success [OF data lk room success(1) bt, of src DirinfoSet_invalid] obtain w' ds where
      "acquire_with env cas w k src DirinfoSet_invalid
        = Inr (w', kSuccess, DirinfoSet_of_list ds, DirectoryInfo src \<in> dom (copies ?s k))"
      "lk_of w' = lk_of w" "same_node w w'" "coop_data env w'" "coop_abs env w' = start_write k ?s"
      "distinct ds" "set ds = dom (copies ?s k)" .
    then show ?thesis using success by (simp add: acquire_reply_ok_def) blast
  qed
qed

lemma serves_acquire_cache:
  assumes ok: "shared_mutex_ok env shared excl" and inv: "coop_inv env shared excl w" and beacon: "is_beacon w k"
    and room: "coop_room w"
  shows "serves env shared excl w (AcquireByCacheServer k src)"
proof -
  let ?s = "coop_abs env w" and ?req = "AcquireByCacheServer k src"
  let ?P = "\<lambda>s' r. s' = msi_next ?req ?s \<and> (case r of (x, ds, sc) \<Rightarrow> acquire_reply_ok k src ?s (AcquireReply x ds sc))"
  have "\<exists>w' r. CooperationWrapperBase_acquireLocalWritelockByCacheServer env w k src DirinfoSet_invalid = Inr (w', r)
      \<and> coop_inv env shared excl w' \<and> same_node w w' \<and> ?P (coop_abs env w') r"
    unfolding CooperationWrapperBase_acquireLocalWritelockByCacheServer_def acquire_with_def [symmetric]
  proof (rule write_section.section_run [OF ok inv beacon, where P = ?P])
    fix lk
    let ?w = "w\<lparr>perkey_rwlock_ptr := lk\<rparr>"
    assume "dir_write_locked env lk k" and data: "coop_data env ?w" and abs: "coop_abs env ?w = ?s"
    then have lk: "dir_write_locked env (lk_of ?w) k" by simp
    have room': "dir_room (directory_table_ptr ?w)" "bt_room (block_tracker_ptr ?w)"
      using room by (simp_all add: coop_room_def)
    note held = coop_dataD(2) [OF data] write_heldD(2,3) [OF lk]
    have "\<exists>w' r. acquire_with env (BlockTracker_casWriteflagForKey env (lk_of ?w) (block_tracker_ptr ?w) k) ?w k src
        DirinfoSet_invalid = Inr (w', r) \<and> lk_of w' = lk_of ?w \<and> same_node ?w w' \<and> coop_data env w'
      \<and> coop_abs env w' = (if copies (coop_abs env ?w) k = Map.empty then coop_abs env ?w
          else if waiting (coop_abs env ?w) k \<noteq> None then coop_abs env ?w else start_write k (coop_abs env ?w))
      \<and> (case r of (x, ds, sc) \<Rightarrow> acquire_reply_ok k src (coop_abs env ?w) (AcquireReply x ds sc))"
    proof (rule acquire_cases [OF data lk room'(1)])
      assume "waiting (coop_abs env ?w) k = None"
      from casWriteflag_new [OF held waiting_absent [OF this] room'(2)] show
        "\<exists>bt. BlockTracker_casWriteflagForKey env (lk_of ?w) (block_tracker_ptr ?w) k = Inr (bt, True)
          \<and> bt_inv env (lk_of ?w) bt
          \<and> ht_map env (lk_of ?w) bt = (ht_map env (lk_of ?w) (block_tracker_ptr ?w))(k \<mapsto> MsiMetadata_new True)"
        by blast
    next
      assume "waiting (coop_abs env ?w) k \<noteq> None"
      then obtain ws where "waiting (coop_abs env ?w) k = Some ws" by blast
      from waiting_lookup [OF this] obtain m where
        m: "ht_map env (lk_of ?w) (block_tracker_ptr ?w) k = Some m" .
      from casWriteflag_fails [OF held m room'(2)] obtain bt where
        bt: "BlockTracker_casWriteflagForKey env (lk_of ?w) (block_tracker_ptr ?w) k = Inr (bt, False)"
          "bt_inv env (lk_of ?w) bt" "ht_map env (lk_of ?w) bt = ht_map env (lk_of ?w) (block_tracker_ptr ?w)" .
      then show "\<exists>bt. BlockTracker_casWriteflagForKey env (lk_of ?w) (block_tracker_ptr ?w) k = Inr (bt, False)
          \<and> coop_data env (?w\<lparr>block_tracker_ptr := bt\<rparr>)
          \<and> coop_abs env (?w\<lparr>block_tracker_ptr := bt\<rparr>) = coop_abs env ?w"
        using data by (simp add: coop_data_def coop_abs_def)
    qed
    then show "\<exists>w' r. acquire_with env (BlockTracker_casWriteflagForKey env (lk_of ?w) (block_tracker_ptr ?w) k) ?w k src
        DirinfoSet_invalid = Inr (w', r) \<and> lk_of w' = lk \<and> same_node w w' \<and> coop_data env w' \<and> ?P (coop_abs env w') r"
      unfolding abs by (auto split: if_splits)
  qed
  then show ?thesis by (force simp: serves_def)
qed

lemma serves_acquire_beacon:
  assumes ok: "shared_mutex_ok env shared excl" and inv: "coop_inv env shared excl w" and beacon: "is_beacon w k"
    and room: "coop_room w" and a: "addr_ok a"
    and enabled: "copies (coop_abs env w) k = Map.empty \<or> not_blocked k a (coop_abs env w)"
  shows "serves env shared excl w (AcquireByBeaconServer k src a)"
proof -
  let ?s = "coop_abs env w" and ?req = "AcquireByBeaconServer k src a"
  let ?P = "\<lambda>s' r. s' = msi_next ?req ?s \<and> (case r of (x, ds, sc) \<Rightarrow> acquire_reply_ok k src ?s (AcquireReply x ds sc))"
  have "\<exists>w' r. CooperationWrapperBase_acquireLocalWritelockByBeaconServer env w k src a DirinfoSet_invalid = Inr (w', r)
      \<and> coop_inv env shared excl w' \<and> same_node w w' \<and> ?P (coop_abs env w') r"
    unfolding CooperationWrapperBase_acquireLocalWritelockByBeaconServer_def acquire_with_def [symmetric]
  proof (rule write_section.section_run [OF ok inv beacon, where P = ?P])
    fix lk
    let ?w = "w\<lparr>perkey_rwlock_ptr := lk\<rparr>"
    let ?cas = "BlockTracker_casWriteflagOrBlockEdgeForKey env (lk_of ?w) (block_tracker_ptr ?w) k a"
    assume "dir_write_locked env lk k" and data: "coop_data env ?w" and abs: "coop_abs env ?w = ?s"
    then have lk: "dir_write_locked env (lk_of ?w) k" by simp
    have room': "dir_room (directory_table_ptr ?w)" "bt_room (block_tracker_ptr ?w)"
      using room by (simp_all add: coop_room_def)
    note held = coop_dataD(2) [OF data] write_heldD(2,3) [OF lk]
    have "\<exists>w' r. acquire_with env ?cas ?w k src
        DirinfoSet_invalid = Inr (w', r) \<and> lk_of w' = lk_of ?w \<and> same_node ?w w' \<and> coop_data env w'
      \<and> coop_abs env w' = (if copies (coop_abs env ?w) k = Map.empty then coop_abs env ?w
          else if waiting (coop_abs env ?w) k \<noteq> None then block_at k a (coop_abs env ?w)
          else start_write k (coop_abs env ?w))
      \<and> (case r of (x, ds, sc) \<Rightarrow> acquire_reply_ok k src (coop_abs env ?w) (AcquireReply x ds sc))"
    proof (rule acquire_cases [OF data lk room'(1)])
      assume "waiting (coop_abs env ?w) k = None"
      from casOrBlock_new [OF held waiting_absent [OF this] room'(2), of a] show
        "\<exists>bt. ?cas = Inr (bt, True) \<and> bt_inv env (lk_of ?w) bt
          \<and> ht_map env (lk_of ?w) bt = (ht_map env (lk_of ?w) (block_tracker_ptr ?w))(k \<mapsto> MsiMetadata_new True)"
        by blast
    next
      assume "waiting (coop_abs env ?w) k \<noteq> None" and cached: "copies (coop_abs env ?w) k \<noteq> Map.empty"
      then obtain ws where ws: "waiting (coop_abs env ?w) k = Some ws" by blast
      from waiting_lookup [OF this] obtain m where
        m: "ht_map env (lk_of ?w) (block_tracker_ptr ?w) k = Some m" "ws = set (edge_blocklist m)" .
      have "a \<notin> set (edge_blocklist m)"
        using enabled cached ws m(2) unfolding abs by (simp add: not_blocked_def)
      from casOrBlock_blocks [OF held m(1) a this room'(2)] obtain bt where
        bt: "?cas = Inr (bt, False)" "bt_inv env (lk_of ?w) bt"
          "ht_map env (lk_of ?w) bt = (ht_map env (lk_of ?w) (block_tracker_ptr ?w))(k \<mapsto> block_edge a m)" .
      then show "\<exists>bt. ?cas = Inr (bt, False) \<and> coop_data env (?w\<lparr>block_tracker_ptr := bt\<rparr>)
          \<and> coop_abs env (?w\<lparr>block_tracker_ptr := bt\<rparr>) = block_at k a (coop_abs env ?w)"
        using tracker_block_at [OF data bt(2) m(1) bt(3)] by blast
    qed
    then show "\<exists>w' r. acquire_with env ?cas ?w k src DirinfoSet_invalid = Inr (w', r)
        \<and> lk_of w' = lk \<and> same_node w w' \<and> coop_data env w' \<and> ?P (coop_abs env w') r"
      unfolding abs by simp
  qed
  then show ?thesis by (force simp: serves_def)
qed

lemma dom_validate_at [simp]: "dom (copies (validate_at k d s) k) = dom (copies s k)"
  by (auto simp: validate_at_def)

lemma serves_release:
  assumes ok: "shared_mutex_ok env shared excl" and inv: "coop_inv env shared excl w" and beacon: "is_beacon w k"
    and room: "coop_room w" and written: "waiting (coop_abs env w) k \<noteq> None"
  shows "serves env shared excl w (ReleaseWritelock k src d)"
proof -
  let ?s = "coop_abs env w" and ?req = "ReleaseWritelock k src d"
  let ?P = "\<lambda>s' r. s' = msi_next ?req ?s \<and> (case r of (blocked, sc) \<Rightarrow> msi_reply_ok ?req ?s (ReleaseReply blocked sc))"
  obtain ws where ws: "waiting ?s k = Some ws" using written by blast
  have "\<exists>w' r. CooperationWrapperBase_releaseLocalWritelock env w k src d = Inr (w', r)
      \<and> coop_inv env shared excl w' \<and> same_node w w' \<and> ?P (coop_abs env w') r"
    unfolding CooperationWrapperBase_releaseLocalWritelock_def
  proof (rule write_section.section_run [OF ok inv beacon, where P = ?P])
    fix lk
    let ?w = "w\<lparr>perkey_rwlock_ptr := lk\<rparr>"
    assume "dir_write_locked env lk k" and data: "coop_data env ?w" and abs: "coop_abs env ?w = ?s"
    then have lk: "dir_write_locked env (lk_of ?w) k" by simp
    have room': "dir_room (directory_table_ptr ?w)" "bt_room (block_tracker_ptr ?w)"
      using room by (simp_all add: coop_room_def)
    from finish_body [OF data lk room'(2) ws [folded abs]] obtain bt blocked where
      bt: "BlockTracker_unblockAllEdgesAndFinishWriteForKeyIfExist env (lk_of ?w) (block_tracker_ptr ?w) k = Inr (bt, blocked)"
        "distinct blocked" "set blocked = ws" "coop_data env (?w\<lparr>block_tracker_ptr := bt\<rparr>)"
        "coop_abs env (?w\<lparr>block_tracker_ptr := bt\<rparr>)
          = (coop_abs env ?w)\<lparr>waiting := (waiting (coop_abs env ?w))(k := None)\<rparr>" .
    let ?w1 = "?w\<lparr>block_tracker_ptr := bt\<rparr>"
    have lk1: "dir_write_locked env (lk_of ?w1) k" and room1: "dir_room (directory_table_ptr ?w1)"
      using lk room'(1) by simp_all
    from validate_body [OF bt(4) lk1 room1, of d] obtain dt where
      dt: "DirectoryTable_validateDirinfoForKeyIfExist env (lk_of ?w1) (directory_table_ptr ?w1) k d
          = Inr (dt, copies (coop_abs env ?w1) k \<noteq> Map.empty, d \<in> dom (copies (coop_abs env ?w1) k))"
        "coop_data env (?w1\<lparr>directory_table_ptr := dt\<rparr>)"
        "coop_abs env (?w1\<lparr>directory_table_ptr := dt\<rparr>) = validate_at k d (coop_abs env ?w1)" .
    let ?w2 = "?w1\<lparr>directory_table_ptr := dt\<rparr>"
    have abs2: "coop_abs env ?w2 = msi_next ?req ?s" unfolding dt(3) bt(5) abs by simp
    have "DirectoryTable_isCachedByGivenEdge env (lk_of ?w2) (directory_table_ptr ?w2) k src
        = Inr (DirectoryInfo src \<in> dom (copies ?s k))"
      using isCachedByGivenEdge_abs [OF dt(2), of k src] write_heldD(1) [OF lk] unfolding abs2 by simp
    moreover have swap: "?w\<lparr>directory_table_ptr := dt, block_tracker_ptr := bt\<rparr> = ?w2" by simp
    have "coop_data env (?w\<lparr>directory_table_ptr := dt, block_tracker_ptr := bt\<rparr>)"
      "coop_abs env (?w\<lparr>directory_table_ptr := dt, block_tracker_ptr := bt\<rparr>) = msi_next ?req ?s"
      unfolding swap by (fact dt(2) abs2)+
    ultimately show "\<exists>w' r. bindE (BlockTracker_unblockAllEdgesAndFinishWriteForKeyIfExist env (lk_of ?w)
          (block_tracker_ptr ?w) k) (\<lambda>(bt, blocked_edges).
        bindE (DirectoryTable_validateDirinfoForKeyIfExist env (lk_of ?w) (directory_table_ptr ?w) k d)
          (\<lambda>(dt, is_key_exist, _).
        bindE (DirectoryTable_isCachedByGivenEdge env (lk_of ?w) dt k src) (\<lambda>is_source_cached.
        Inr (?w\<lparr>directory_table_ptr := dt, block_tracker_ptr := bt\<rparr>, blocked_edges, is_source_cached))))
        = Inr (w', r) \<and> lk_of w' = lk \<and> same_node w w' \<and> coop_data env w' \<and> ?P (coop_abs env w') r"
      using bt(1-3) dt(1) ws by (simp del: msi_next.simps)
  qed
  then show ?thesis by (force simp: serves_def simp del: msi_next.simps)
qed

lemma serves_preserve:
  assumes ok: "shared_mutex_ok env shared excl" and inv: "coop_inv env shared excl w" and beacon: "is_beacon w k"
    and room: "coop_room w" and d: "edge_ok d"
  shows "serves env shared excl w (PreserveDirectory k d)"
proof -
  let ?s = "coop_abs env w" and ?req = "PreserveDirectory k d"
  let ?P = "\<lambda>s' r. s' = msi_next ?req ?s \<and> r = (copies ?s k = Map.empty)"
  have "\<exists>w' r. BasicCooperationWrapper_preserveDirectoryTableIfGlobalUncachedInternal env w k d = Inr (w', r)
      \<and> coop_inv env shared excl w' \<and> same_node w w' \<and> ?P (coop_abs env w') r"
    unfolding BasicCooperationWrapper_preserveDirectoryTableIfGlobalUncachedInternal_def
  proof (rule write_section.section_run [OF ok inv beacon, where P = ?P])
    fix lk
    let ?w = "w\<lparr>perkey_rwlock_ptr := lk\<rparr>"
    assume "dir_write_locked env lk k" and data: "coop_data env ?w" and abs: "coop_abs env ?w = ?s"
    then have lk: "dir_write_locked env (lk_of ?w) k" by simp
    have room': "dir_room (directory_table_ptr ?w)" using room by (simp add: coop_room_def)
    from update_body [OF data lk room' d, of True False MetadataUpdateRequirement_none] obtain dt g r where
      "DirectoryTable_update env (lk_of ?w) (directory_table_ptr ?w) k True d (DirectoryMetadata False)
          MetadataUpdateRequirement_none = Inr (dt, g, r)"
        "coop_data env (?w\<lparr>directory_table_ptr := dt\<rparr>)"
        "coop_abs env (?w\<lparr>directory_table_ptr := dt\<rparr>) = (coop_abs env ?w)\<lparr>copies := (copies (coop_abs env ?w))
          (k := (copies (coop_abs env ?w) k)(d := if True then Some False else None))\<rparr>"
        "g \<longleftrightarrow> (copies (coop_abs env ?w) k)(d := if True then Some False else None) \<noteq> Map.empty" .
    then show "\<exists>w' r. bindE (DirectoryTable_isGlobalCached env (lk_of ?w) (directory_table_ptr ?w) k) (\<lambda>is_global_cached.
        if \<not> is_global_cached
        then bindE (DirectoryTable_update env (lk_of ?w) (directory_table_ptr ?w) k True d (DirectoryMetadata False)
               MetadataUpdateRequirement_none) (\<lambda>(dt, is_global_cached, _).
             assertE is_global_cached (Inr (?w\<lparr>directory_table_ptr := dt\<rparr>, True)))
        else Inr (?w, False))
        = Inr (w', r) \<and> lk_of w' = lk \<and> same_node w w' \<and> coop_data env w' \<and> ?P (coop_abs env w') r"
      using isGlobalCached_abs [OF data write_heldD(1) [OF lk]] data abs
      by (cases "copies ?s k = Map.empty") auto
  qed
  then show ?thesis
    by (force simp: serves_def BasicCooperationWrapper_customFunc_def simp del: msi_next.simps)
qed

lemma serves_validate:
  assumes ok: "shared_mutex_ok env shared excl" and inv: "coop_inv env shared excl w" and beacon: "is_beacon w k"
    and room: "coop_room w"
  shows "serves env shared excl w (ValidatePreserved k d)"
proof -
  let ?s = "coop_abs env w" and ?req = "ValidatePreserved k d"
  let ?P = "\<lambda>s' r. s' = validate_at k d ?s
    \<and> r = (d \<in> dom (copies ?s k), waiting ?s k \<noteq> None, \<exists>n \<in> dom (copies ?s k). n \<noteq> d)"
  have "\<exists>w' r. BasicCooperationWrapper_validateDirectoryTableForPreservedDirinfoInternal env w k (getTargetEdgeIdx d) d
      = Inr (w', r) \<and> coop_inv env shared excl w' \<and> same_node w w' \<and> ?P (coop_abs env w') r"
    unfolding BasicCooperationWrapper_validateDirectoryTableForPreservedDirinfoInternal_def simp_thms(6) assertE_simps
  proof (rule write_section.section_run [OF ok inv beacon, where P = ?P])
    fix lk
    let ?w = "w\<lparr>perkey_rwlock_ptr := lk\<rparr>"
    assume "dir_write_locked env lk k" and data: "coop_data env ?w" and abs: "coop_abs env ?w = ?s"
    then have lk: "dir_write_locked env (lk_of ?w) k" by simp
    have room': "dir_room (directory_table_ptr ?w)" using room by (simp add: coop_room_def)
    from validate_body [OF data lk room', of d] obtain dt where
      dt: "DirectoryTable_validateDirinfoForKeyIfExist env (lk_of ?w) (directory_table_ptr ?w) k d
          = Inr (dt, copies (coop_abs env ?w) k \<noteq> Map.empty, d \<in> dom (copies (coop_abs env ?w) k))"
        "coop_data env (?w\<lparr>directory_table_ptr := dt\<rparr>)"
        "coop_abs env (?w\<lparr>directory_table_ptr := dt\<rparr>) = validate_at k d (coop_abs env ?w)" .
    have "DirectoryTable_isNeighborCached env lk dt k (getTargetEdgeIdx d) = Inr (\<exists>n \<in> dom (copies ?s k). n \<noteq> d)"
      using isNeighborCached_abs [OF dt(2), of k "getTargetEdgeIdx d"] write_heldD(1) [OF lk]
      unfolding dt(3) abs neighbor_iff by simp
    moreover have "copies ?s k \<noteq> Map.empty" if "d \<in> dom (copies ?s k)" using that by auto
    ultimately show "\<exists>w' r. bindE (BlockTracker_isBeingWrittenForKey env (lk_of ?w) (block_tracker_ptr ?w) k)
          (\<lambda>is_being_written.
        bindE (DirectoryTable_validateDirinfoForKeyIfExist env (lk_of ?w) (directory_table_ptr ?w) k d)
          (\<lambda>(dt, is_key_exist, is_dirinfo_exist).
        bindE (DirectoryTable_isNeighborCached env (lk_of ?w) dt k (getTargetEdgeIdx d)) (\<lambda>is_neighbor_cached.
        Inr (?w\<lparr>directory_table_ptr := dt\<rparr>, is_key_exist \<and> is_dirinfo_exist, is_being_written, is_neighbor_cached))))
        = Inr (w', r) \<and> lk_of w' = lk \<and> same_node w w' \<and> coop_data env w' \<and> ?P (coop_abs env w') r"
      using isBeingWritten_abs [OF data write_heldD(1) [OF lk]] dt abs by auto
  qed
  then show ?thesis
    by (force simp: serves_def BasicCooperationWrapper_customFunc_def PreserveDirectoryTable_FUNCNAME_def
        ValidateDirectoryTable_FUNCNAME_def)
qed

text \<open>A beacon serves every well-formed, enabled request.\<close>

lemma serves_request:
  assumes "shared_mutex_ok env shared excl" and "draw_ok env" and "coop_inv env shared excl w" and "coop_room w"
    and "is_beacon w (request_key req)" and "request_wf req" and "msi_enabled req (coop_abs env w)"
  shows "serves env shared excl w req"
  using assms
  by (cases req) (auto intro: serves_lookup_cache serves_lookup_beacon serves_update serves_acquire_cache
      serves_acquire_beacon serves_release serves_preserve serves_validate)

section \<open>Requests that stop the beacon\<close>

lemma stops_request:
  assumes ok: "shared_mutex_ok env shared excl" and inv: "coop_inv env shared excl w" and room: "coop_room w"
    and beacon: "is_beacon w (request_key req)" and wf: "request_wf req" and dis: "\<not> msi_enabled req (coop_abs env w)"
  shows "coop_handle env w req = Inl AssertFailed"
proof (cases req)
  case (LookupByBeaconServer k src a)
  have "CooperationWrapperBase_lookupDirectoryTableByBeaconServer env w k src a DirectoryInfo_default None = Inl AssertFailed"
    unfolding CooperationWrapperBase_lookupDirectoryTableByBeaconServer_def
  proof (rule write_section.section_aborts [OF ok inv])
    fix lk
    let ?w = "w\<lparr>perkey_rwlock_ptr := lk\<rparr>"
    assume lk: "dir_write_locked env lk k" and data: "coop_data env ?w" and abs: "coop_abs env ?w = coop_abs env w"
    obtain ws where ws: "waiting (coop_abs env ?w) k = Some ws" "a \<in> ws"
      using dis LookupByBeaconServer abs by (auto simp: not_blocked_def split: option.splits)
    from waiting_lookup [OF ws(1)] obtain m where
      m: "ht_map env (lk_of ?w) (block_tracker_ptr ?w) k = Some m" "ws = set (edge_blocklist m)" .
    have "BlockTracker_blockEdgeForKeyIfExistAndBeingWritten env lk (block_tracker_ptr w) k a = Inl AssertFailed"
      using blockEdge_again [OF coop_dataD(2) [OF data], of k m a] write_heldD [OF lk] m ws(2) wf LookupByBeaconServer room
      by (simp add: coop_room_def)
    then show "bindE (BlockTracker_blockEdgeForKeyIfExistAndBeingWritten env (lk_of ?w) (block_tracker_ptr ?w) k a)
        (\<lambda>(bt, is_being_written).
          bindE (CooperationWrapperBase_lookupDirectoryTable env (?w\<lparr>block_tracker_ptr := bt\<rparr>) k src is_being_written
              DirectoryInfo_default None)
            (\<lambda>(w, is_global_cached, results). Inr (w, is_global_cached, is_being_written, results))) = Inl AssertFailed"
      by simp
  qed (use beacon LookupByBeaconServer in simp)
  then show ?thesis using LookupByBeaconServer by simp
next
  case (AcquireByBeaconServer k src a)
  have "CooperationWrapperBase_acquireLocalWritelockByBeaconServer env w k src a DirinfoSet_invalid = Inl AssertFailed"
    unfolding CooperationWrapperBase_acquireLocalWritelockByBeaconServer_def acquire_with_def [symmetric]
  proof (rule write_section.section_aborts [OF ok inv])
    fix lk
    let ?w = "w\<lparr>perkey_rwlock_ptr := lk\<rparr>"
    assume lk: "dir_write_locked env lk k" and data: "coop_data env ?w" and abs: "coop_abs env ?w = coop_abs env w"
    obtain ws where ws: "waiting (coop_abs env ?w) k = Some ws" "a \<in> ws" and cached: "copies (coop_abs env w) k \<noteq> Map.empty"
      using dis AcquireByBeaconServer abs by (auto simp: not_blocked_def split: option.splits)
    from waiting_lookup [OF ws(1)] obtain m where
      m: "ht_map env (lk_of ?w) (block_tracker_ptr ?w) k = Some m" "ws = set (edge_blocklist m)" .
    have "BlockTracker_casWriteflagOrBlockEdgeForKey env lk (block_tracker_ptr w) k a = Inl AssertFailed"
      using casOrBlock_again [OF coop_dataD(2) [OF data], of k m a] write_heldD [OF lk] m ws(2) wf AcquireByBeaconServer
      by simp
    then show "acquire_with env (BlockTracker_casWriteflagOrBlockEdgeForKey env (lk_of ?w) (block_tracker_ptr ?w) k a)
        ?w k src DirinfoSet_invalid = Inl AssertFailed"
      using isGlobalCached_abs [OF data, of k] write_heldD(1) [OF lk] cached abs by (simp add: acquire_with_def)
  qed (use beacon AcquireByBeaconServer in simp)
  then show ?thesis using AcquireByBeaconServer by simp
next
  case (ReleaseWritelock k src d)
  have "CooperationWrapperBase_releaseLocalWritelock env w k src d = Inl AssertFailed"
    unfolding CooperationWrapperBase_releaseLocalWritelock_def
  proof (rule write_section.section_aborts [OF ok inv])
    fix lk
    let ?w = "w\<lparr>perkey_rwlock_ptr := lk\<rparr>"
    assume lk: "dir_write_locked env lk k" and data: "coop_data env ?w" and abs: "coop_abs env ?w = coop_abs env w"
    have none: "waiting (coop_abs env ?w) k = None" using dis ReleaseWritelock abs by simp
    show "bindE (BlockTracker_unblockAllEdgesAndFinishWriteForKeyIfExist env (lk_of ?w) (block_tracker_ptr ?w) k)
        (\<lambda>(bt, blocked_edges).
        bindE (DirectoryTable_validateDirinfoForKeyIfExist env (lk_of ?w) (directory_table_ptr ?w) k d)
          (\<lambda>(dt, is_key_exist, _).
        bindE (DirectoryTable_isCachedByGivenEdge env (lk_of ?w) dt k src) (\<lambda>is_source_cached.
        Inr (?w\<lparr>directory_table_ptr := dt, block_tracker_ptr := bt\<rparr>, blocked_edges, is_source_cached)))) = Inl AssertFailed"
      using unblock_absent [OF coop_dataD(2) [OF data] _ _ waiting_absent [OF none]] write_heldD [OF lk] by simp
  qed (use beacon ReleaseWritelock in simp)
  then show ?thesis using ReleaseWritelock by simp
qed (use dis in simp_all)

end
