(* ===== verification/Beacon_Runs.thy ===== *)
theory Beacon_Runs
  imports Beacon_Protocol
begin

text \<open>
  Whole runs of a beacon: sequences of requests served one after the other by \<open>coop_handle\<close> (the per-key
  locks serialise the requests for a key). The properties are the ones a cache that asks this beacon
  relies on: the directory it computes is the one of the specification, it never stops for an enabled
  request, no copy is valid during a write, and the end of a write wakes exactly the edge nodes that
  were told to wait.
\<close>

fun coop_run ::
    "('m, 'g, 'z) coop_env_scheme \<Rightarrow> ('m, 'g) cooperation_wrapper \<Rightarrow> coop_request list
     \<Rightarrow> (('m, 'g) cooperation_wrapper \<times> coop_reply list) exec" where
  "coop_run env w [] = Inr (w, [])"
| "coop_run env w (req # reqs) =
     bindE (coop_handle env w req) (\<lambda>(w, rep). bindE (coop_run env w reqs) (\<lambda>(w, reps). Inr (w, rep # reps)))"

text \<open>The requests of a run are well formed and addressed to the beacon of their key, and the size
  counters have room before each of them.\<close>

fun run_ok :: "('m, 'g, 'z) coop_env_scheme \<Rightarrow> ('m, 'g) cooperation_wrapper \<Rightarrow> coop_request list \<Rightarrow> bool" where
  "run_ok env w [] = True"
| "run_ok env w (req # reqs) =
     (request_wf req \<and> is_beacon w (request_key req) \<and> coop_room w
      \<and> (case coop_handle env w req of Inl e \<Rightarrow> True | Inr (w', rep) \<Rightarrow> run_ok env w' reqs))"

inductive beacon_reachable ::
    "('m, 'g, 'z) coop_env_scheme \<Rightarrow> (coop_request \<Rightarrow> bool) \<Rightarrow> ('m, 'g) cooperation_wrapper
     \<Rightarrow> ('m, 'g) cooperation_wrapper \<Rightarrow> bool"
  for env allowed w0 where
  start: "beacon_reachable env allowed w0 w0"
| step: "beacon_reachable env allowed w0 w \<Longrightarrow> allowed req \<Longrightarrow> request_wf req \<Longrightarrow> is_beacon w (request_key req) \<Longrightarrow>
    coop_room w \<Longrightarrow> coop_handle env w req = Inr (w', rep) \<Longrightarrow> beacon_reachable env allowed w0 w'"

section \<open>Steps of the code are steps of the specification\<close>

lemma handle_spec:
  assumes "shared_mutex_ok env shared excl" and "draw_ok env" and "coop_inv env shared excl w" and "coop_room w"
    and "is_beacon w (request_key req)" and "request_wf req" and run: "coop_handle env w req = Inr (w', rep)"
  shows "coop_inv env shared excl w' \<and> same_node w w' \<and> msi_enabled req (coop_abs env w)
    \<and> coop_abs env w' = msi_next req (coop_abs env w) \<and> msi_reply_ok req (coop_abs env w) rep"
proof -
  have enabled: "msi_enabled req (coop_abs env w)"
    using stops_request [OF assms(1,3,4,5,6)] run by fastforce
  then show ?thesis
    using serves_request [OF assms(1-6)] run by (auto simp: serves_def)
qed

text \<open>While a key is written no copy is valid; only the validation of a preserved copy ignores the write.\<close>

definition msi_safe :: "msi_state \<Rightarrow> bool" where
  "msi_safe s \<longleftrightarrow> (\<forall>k. waiting s k \<noteq> None \<longrightarrow> (\<forall>d. copies s k d \<noteq> Some True))"

fun is_validate :: "coop_request \<Rightarrow> bool" where
  "is_validate (ValidatePreserved k d) = True"
| "is_validate _ = False"

lemma msi_safe_next: "msi_safe s \<Longrightarrow> \<not> is_validate req \<Longrightarrow> msi_safe (msi_next req s)"
  by (cases req) (auto simp: msi_safe_def block_at_def validate_at_def start_write_def split: if_splits)

lemma coop_new:
  assumes "shared_mutex_ok env shared excl" and "locking_size \<noteq> 0"
    and "CooperationWrapperBase_new env hash locking_size g n i = Inr w"
  shows "coop_inv env shared excl w" and "coop_abs env w = \<lparr>copies = \<lambda>k. Map.empty, waiting = Map.empty\<rparr>"
proof -
  define lk where "lk = PerkeyRwlock_new env locking_size True"
  have free: "rwlock_free env shared excl lk" unfolding lk_def by (rule rwlock_free_new [OF assms(1,2)])
  then have wf: "rwlock_wf lk" by (simp add: rwlock_free_iff)
  have w: "perkey_rwlock_ptr w = lk" "directory_table_ptr w = DirectoryTable_new lk g"
      "block_tracker_ptr w = BlockTracker_new lk"
    using assms(3) by (auto simp: CooperationWrapperBase_new_def DhtWrapper_new_def exec_inv Let_def lk_def)
  show "coop_inv env shared excl w"
    using free direntry_value.table_inv_new [OF wf, of env] msi_value.table_inv_new [OF wf, of env]
    by (simp add: coop_inv_def coop_data_def w dir_inv_def bt_inv_def DirectoryTable_new_def BlockTracker_new_def)
  show "coop_abs env w = \<lparr>copies = \<lambda>k. Map.empty, waiting = Map.empty\<rparr>"
    by (simp add: coop_abs_def w DirectoryTable_new_def BlockTracker_new_def ht_map_new [OF wf])
qed

lemma reachable_inv:
  assumes "beacon_reachable env allowed w0 w" and "shared_mutex_ok env shared excl" and "draw_ok env"
    and "coop_inv env shared excl w0"
  shows "coop_inv env shared excl w \<and> same_node w0 w
    \<and> ((\<forall>req. allowed req \<longrightarrow> \<not> is_validate req) \<longrightarrow> msi_safe (coop_abs env w0) \<longrightarrow> msi_safe (coop_abs env w))"
  using assms(1)
proof induction
  case start
  then show ?case using assms(4) by simp
next
  case (step w req w' rep)
  then have "coop_inv env shared excl w" by simp
  from handle_spec [OF assms(2,3) this step.hyps(5,4,3,6)] step.IH step.hyps(2) show ?case
    by (auto simp: same_node_def intro: msi_safe_next)
qed

section \<open>A write and the edge nodes that wait for it\<close>

text \<open>The edge node a request leaves waiting, given the reply.\<close>

fun blocks :: "key \<Rightarrow> network_addr \<Rightarrow> coop_request \<Rightarrow> coop_reply \<Rightarrow> bool" where
  "blocks k a (LookupByBeaconServer k' src a') rep = (k' = k \<and> a' = a)"
| "blocks k a (AcquireByBeaconServer k' src a') (AcquireReply r ds sc) = (k' = k \<and> a' = a \<and> r = kFailure)"
| "blocks k a _ rep = False"

fun releases :: "key \<Rightarrow> coop_request \<Rightarrow> bool" where
  "releases k (ReleaseWritelock k' src d) = (k' = k)"
| "releases k _ = False"

text \<open>What a reply for a key that is being written says.\<close>

fun write_excluded :: "coop_reply \<Rightarrow> bool" where
  "write_excluded (LookupReply g written valid d sc) = (written \<and> \<not> valid)"
| "write_excluded (AcquireReply r ds sc) = (r \<noteq> kSuccess)"
| "write_excluded _ = True"

lemma waiting_next:
  assumes "waiting s k = Some ws" and "\<not> releases k req" and "msi_reply_ok req s rep"
  shows "waiting (msi_next req s) k = Some (ws \<union> {a. blocks k a req rep})"
proof (cases req)
  case (AcquireByBeaconServer k' src a)
  then show ?thesis
    using assms by (auto simp: acquire_reply_ok_def block_at_def start_write_def)
qed (use assms in \<open>auto simp: block_at_def start_write_def validate_at_def acquire_reply_ok_def
    lookup_reply_ok_def\<close>)

lemma reply_excluded:
  assumes "waiting s k = Some ws" and "request_key req = k" and "msi_reply_ok req s rep"
  shows "write_excluded rep"
  using assms by (cases req) (auto simp: lookup_reply_ok_def acquire_reply_ok_def update_reply_ok_def)

lemma run_while_written:
  assumes "shared_mutex_ok env shared excl" and "draw_ok env" and "coop_inv env shared excl w"
    and "run_ok env w reqs" and "coop_run env w reqs = Inr (w', reps)"
    and "waiting (coop_abs env w) k = Some ws" and "\<forall>req \<in> set reqs. \<not> releases k req"
  shows "length reps = length reqs \<and> coop_inv env shared excl w' \<and> same_node w w'
    \<and> waiting (coop_abs env w') k = Some (ws \<union> {a. \<exists>(req, rep) \<in> set (zip reqs reps). blocks k a req rep})
    \<and> (\<forall>(req, rep) \<in> set (zip reqs reps). request_key req = k \<longrightarrow> write_excluded rep)"
  using assms(3-7)
proof (induction reqs arbitrary: w reps ws)
  case Nil
  then show ?case by auto
next
  case (Cons req reqs)
  obtain w1 rep where h: "coop_handle env w req = Inr (w1, rep)"
    using Cons.prems(3) by (auto simp: exec_inv)
  obtain reps1 where r: "coop_run env w1 reqs = Inr (w', reps1)" and reps: "reps = rep # reps1"
    using Cons.prems(3) h by (auto simp: exec_inv)
  have step: "coop_inv env shared excl w1" "same_node w w1" "coop_abs env w1 = msi_next req (coop_abs env w)"
      "msi_reply_ok req (coop_abs env w) rep"
    using handle_spec [OF assms(1,2) Cons.prems(1) _ _ _ h] Cons.prems(2) by auto
  have w1: "waiting (coop_abs env w1) k = Some (ws \<union> {a. blocks k a req rep})"
    unfolding step(3) using Cons.prems(4,5) step(4) by (intro waiting_next) auto
  have ex: "request_key req = k \<longrightarrow> write_excluded rep"
    using reply_excluded [OF Cons.prems(4) _ step(4)] by blast
  have "run_ok env w1 reqs" using Cons.prems(2) h by simp
  from Cons.IH [OF step(1) this r w1] Cons.prems(5) ex step(2) show ?case
    unfolding reps by (auto simp: same_node_def)
qed

text \<open>A successful request for the write lock starts a write with no edge node waiting.\<close>

definition acquires :: "key \<Rightarrow> coop_request \<Rightarrow> bool" where
  "acquires k req \<longleftrightarrow> (\<exists>src. req = AcquireByCacheServer k src) \<or> (\<exists>src a. req = AcquireByBeaconServer k src a)"

lemma acquired:
  assumes "acquires k req" and "msi_reply_ok req s (AcquireReply kSuccess ds sc)"
  shows "waiting (msi_next req s) k = Some {}" and "\<forall>d. copies (msi_next req s) k d \<noteq> Some True"
  using assms by (auto simp: acquires_def acquire_reply_ok_def start_write_def split: if_splits)

lemma acquire_then_run:
  assumes ok: "shared_mutex_ok env shared excl" "draw_ok env" and inv: "coop_inv env shared excl w"
    and run: "run_ok env w (acq # reqs)" "coop_run env w (acq # reqs) = Inr (w', AcquireReply kSuccess ds sc # reps)"
    and acq: "acquires k acq" and norel: "\<forall>req \<in> set reqs. \<not> releases k req"
  shows "length reps = length reqs \<and> coop_inv env shared excl w' \<and> same_node w w'
    \<and> waiting (coop_abs env w') k = Some {a. \<exists>(req, rep) \<in> set (zip reqs reps). blocks k a req rep}
    \<and> (\<forall>(req, rep) \<in> set (zip reqs reps). request_key req = k \<longrightarrow> write_excluded rep)"
proof -
  obtain w1 where h: "coop_handle env w acq = Inr (w1, AcquireReply kSuccess ds sc)"
    and r: "coop_run env w1 reqs = Inr (w', reps)"
    using run(2) by (auto simp: exec_inv)
  have step: "coop_inv env shared excl w1 \<and> same_node w w1 \<and> coop_abs env w1 = msi_next acq (coop_abs env w)
      \<and> msi_reply_ok acq (coop_abs env w) (AcquireReply kSuccess ds sc)"
    using handle_spec [OF ok inv _ _ _ h] run(1) by simp
  then have w1: "waiting (coop_abs env w1) k = Some {}" using acquired(1) [OF acq] by metis
  have "run_ok env w1 reqs" using run(1) h by simp
  from run_while_written [OF ok _ this r w1 norel] step show ?thesis by (auto simp: same_node_def)
qed

lemma coop_run_append:
  "coop_run env w (xs @ ys) = bindE (coop_run env w xs) (\<lambda>(w, rs). bindE (coop_run env w ys) (\<lambda>(w, ss). Inr (w, rs @ ss)))"
proof (induction xs arbitrary: w)
  case Nil
  show ?case by (cases "coop_run env w ys") auto
next
  case (Cons req xs)
  show ?case
  proof (cases "coop_handle env w req")
    case (Inr r)
    obtain w1 rep where r: "r = (w1, rep)" by (cases r)
    show ?thesis
    proof (cases "coop_run env w1 xs")
      case (Inr r')
      obtain w2 reps where "r' = (w2, reps)" by (cases r')
      with Inr r \<open>coop_handle env w req = Inr r\<close> Cons [of w1] show ?thesis
        by (cases "coop_run env w2 ys") auto
    qed (use r \<open>coop_handle env w req = Inr r\<close> Cons [of w1] in auto)
  qed simp
qed

lemma run_ok_append: "run_ok env w (xs @ ys) \<Longrightarrow> coop_run env w xs = Inr (w', rs) \<Longrightarrow> run_ok env w xs \<and> run_ok env w' ys"
  by (induction xs arbitrary: w rs) (auto simp: exec_inv)

section \<open>Properties\<close>

text \<open>A beacon that serves one key, cached by edge node 3.\<close>

definition example_node :: "(nat \<times> bool, unit) cooperation_wrapper" where
  "example_node = \<lparr>coop_edge_idx = 0, dht_wrapper_ptr = \<lparr>edgecnt = 1, dht_hash = (\<lambda>_. 0)\<rparr>,
     perkey_rwlock_ptr = PerkeyRwlock_new (least_env (\<lambda>_. 0)) 1 True, directory_table_ptr = example_table,
     block_tracker_ptr = BlockTracker_new (PerkeyRwlock_new (least_env (\<lambda>_. 0)) 1 True)\<rparr>"

definition example_addr :: network_addr where
  "example_addr = NetworkAddr_new [49, 46, 49] 4000"

lemma example_node_inv: "coop_inv (least_env (\<lambda>_. 0)) fst snd example_node"
proof -
  let ?lk = "PerkeyRwlock_new (least_env (\<lambda>_. 0)) 1 True"
  have free: "rwlock_free (least_env (\<lambda>_. 0)) fst snd ?lk" by (rule rwlock_free_new) (simp_all add: least_env_ok)
  then have wf: "rwlock_wf ?lk" by (simp add: rwlock_free_iff)
  have "same_lock one_lock_written ?lk" by (simp add: same_lock_def one_lock_written_def PerkeyRwlock_new_def Let_def)
  then have "dir_inv (least_env (\<lambda>_. 0)) ?lk example_table"
    using example_table_ok(1) by (simp add: dir_inv_def direntry_value.table_inv_def ht_same_lock)
  then show ?thesis
    using free msi_value.table_inv_new [OF wf] by (simp add: coop_inv_def coop_data_def example_node_def bt_inv_def BlockTracker_new_def)
qed

lemma example_node_ok: "is_beacon example_node k" "coop_room example_node"
proof -
  show "is_beacon example_node k"
    by (simp add: is_beacon_def CooperationWrapperBase_getBeaconEdgeIdx_def DhtWrapper_getBeaconEdgeIdx_def
        example_node_def DHT_HASH_RING_LENGTH_def)
  show "coop_room example_node" by code_simp
qed

lemma example_addr_ok: "addr_ok example_addr"
  by (simp add: addr_ok_def example_addr_def NetworkAddr_new_def)

lemma example_node_idle: "waiting (coop_abs (least_env (\<lambda>_. 0)) example_node) k = None"
  by (simp add: coop_abs_def example_node_def BlockTracker_new_def ht_map_new rwlock_wf_new)

text \<open>A run of it: a write that one edge node waits for; and a run of a new beacon up to a write.\<close>

definition example_reqs :: "coop_request list" where
  "example_reqs = [AcquireByCacheServer (Key [1]) 3, LookupByBeaconServer (Key [1]) 5 example_addr,
     ReleaseWritelock (Key [1]) 3 (DirectoryInfo 3)]"

lemma example_run:
  obtains w' where "coop_run (least_env (\<lambda>_. 0)) example_node example_reqs
    = Inr (w', [AcquireReply kSuccess (DirinfoSet_of_list [DirectoryInfo 3]) True,
        LookupReply True True False DirectoryInfo_default False, ReleaseReply [example_addr] True])"
proof -
  have "map_sum id snd (coop_run (least_env (\<lambda>_. 0)) example_node example_reqs)
      = Inr [AcquireReply kSuccess (DirinfoSet_of_list [DirectoryInfo 3]) True,
          LookupReply True True False DirectoryInfo_default False, ReleaseReply [example_addr] True]"
    by code_simp
  then show ?thesis
    using that by (cases "coop_run (least_env (\<lambda>_. 0)) example_node example_reqs") auto
qed

lemma example_run_ok: "run_ok (least_env (\<lambda>_. 0)) example_node example_reqs"
  by code_simp

definition example_start :: "(nat \<times> bool, unit) cooperation_wrapper" where
  "example_start = \<lparr>coop_edge_idx = 0, dht_wrapper_ptr = \<lparr>edgecnt = 1, dht_hash = (\<lambda>_. 0)\<rparr>,
     perkey_rwlock_ptr = PerkeyRwlock_new (least_env (\<lambda>_. 0)) 1 True,
     directory_table_ptr = DirectoryTable_new (PerkeyRwlock_new (least_env (\<lambda>_. 0)) 1 True) (),
     block_tracker_ptr = BlockTracker_new (PerkeyRwlock_new (least_env (\<lambda>_. 0)) 1 True)\<rparr>"

lemma example_start_new: "CooperationWrapperBase_new (least_env (\<lambda>_. 0)) (\<lambda>_. 0) 1 () 1 0 = Inr example_start"
  by (simp add: CooperationWrapperBase_new_def DhtWrapper_new_def example_start_def Let_def)

definition example_write :: "coop_request list" where
  "example_write = [UpdateDirectory (Key [1]) True (DirectoryInfo 3), AcquireByCacheServer (Key [1]) 3]"

lemma run_reachable:
  assumes "run_ok env w reqs" and "coop_run env w reqs = Inr (w', reps)" and "\<forall>req \<in> set reqs. allowed req"
    and "beacon_reachable env allowed w0 w"
  shows "beacon_reachable env allowed w0 w'"
  using assms
proof (induction reqs arbitrary: w reps)
  case (Cons req reqs)
  then obtain w1 rep reps1 where h: "coop_handle env w req = Inr (w1, rep)" "coop_run env w1 reqs = Inr (w', reps1)"
    by (auto simp: exec_inv)
  have "beacon_reachable env allowed w0 w1"
    using Cons.prems h(1) by (intro beacon_reachable.step [OF Cons.prems(4) _ _ _ _ h(1)]) auto
  then show ?case using Cons.IH [OF _ h(2)] Cons.prems h(1) by simp
qed simp

lemma example_write_reachable:
  obtains w where "beacon_reachable (least_env (\<lambda>_. 0)) (\<lambda>req. \<not> is_validate req) example_start w"
    and "being_written (least_env (\<lambda>_. 0)) (perkey_rwlock_ptr w) (block_tracker_ptr w) (Key [1])"
    and "DirectoryInfo 3 \<in> set (dir_edges (least_env (\<lambda>_. 0)) (perkey_rwlock_ptr w) (directory_table_ptr w) (Key [1]))"
    and "coop_room w"
proof -
  let ?P = "\<lambda>(w, reps :: coop_reply list).
    being_written (least_env (\<lambda>_. 0)) (perkey_rwlock_ptr w) (block_tracker_ptr w) (Key [1])
    \<and> DirectoryInfo 3 \<in> set (dir_edges (least_env (\<lambda>_. 0)) (perkey_rwlock_ptr w) (directory_table_ptr w) (Key [1]))
    \<and> coop_room w"
  have ok: "run_ok (least_env (\<lambda>_. 0)) example_start example_write" by code_simp
  have "map_sum id ?P (coop_run (least_env (\<lambda>_. 0)) example_start example_write) = Inr True"
    by code_simp
  then obtain w reps where w: "coop_run (least_env (\<lambda>_. 0)) example_start example_write = Inr (w, reps)" "?P (w, reps)"
    by (cases "coop_run (least_env (\<lambda>_. 0)) example_start example_write") auto
  have "beacon_reachable (least_env (\<lambda>_. 0)) (\<lambda>req. \<not> is_validate req) example_start w"
    by (rule run_reachable [OF ok w(1) _ beacon_reachable.start]) (simp add: example_write_def)
  then show ?thesis using that w(2) by simp
qed

text \<open>C1: A beacon refines the MSI directory. For every well-formed request that the specification enables,
  the code returns; the new tables represent exactly the next state of the specification, the reply is
  one the specification allows, the locks are free again and all invariants hold.\<close>

theorem beacon_refines_msi:
  assumes "shared_mutex_ok env shared excl" and "draw_ok env" and "coop_inv env shared excl w" and "coop_room w"
    and "is_beacon w (request_key req)" and "request_wf req" and "msi_enabled req (coop_abs env w)"
  shows "\<exists>w' rep. coop_handle env w req = Inr (w', rep) \<and> coop_inv env shared excl w'
    \<and> coop_abs env w' = msi_next req (coop_abs env w) \<and> msi_reply_ok req (coop_abs env w) rep"
  using serves_request [OF assms] by (auto simp: serves_def)

theorem beacon_refines_msi_witness:
  "\<exists>w' rep. coop_handle (least_env (\<lambda>_. 0)) example_node (AcquireByBeaconServer (Key [1]) 5 example_addr) = Inr (w', rep)
    \<and> coop_inv (least_env (\<lambda>_. 0)) fst snd w'
    \<and> coop_abs (least_env (\<lambda>_. 0)) w'
        = msi_next (AcquireByBeaconServer (Key [1]) 5 example_addr) (coop_abs (least_env (\<lambda>_. 0)) example_node)
    \<and> msi_reply_ok (AcquireByBeaconServer (Key [1]) 5 example_addr) (coop_abs (least_env (\<lambda>_. 0)) example_node) rep"
  by (rule beacon_refines_msi)
    (simp_all add: least_env_ok example_node_inv example_node_ok example_addr_ok example_node_idle not_blocked_def)

text \<open>C5: When a beacon stops. A well-formed request stops the process exactly when the specification does
  not enable it, always by a failed assertion: an edge node that is already blocked for the key and
  asks again (as a re-sent message does), or a release of a key that nobody writes.\<close>

theorem beacon_stops_iff_disabled:
  assumes "shared_mutex_ok env shared excl" and "draw_ok env" and "coop_inv env shared excl w" and "coop_room w"
    and "is_beacon w (request_key req)" and "request_wf req"
  shows "if msi_enabled req (coop_abs env w) then returns (coop_handle env w req)
    else coop_handle env w req = Inl AssertFailed"
proof (cases "msi_enabled req (coop_abs env w)")
  case True
  then show ?thesis using serves_request [OF assms True] by (auto simp: serves_def)
next
  case False
  then show ?thesis using stops_request [OF assms(1,3,4,5,6)] by simp
qed

theorem beacon_stops_iff_disabled_witness:
  "if msi_enabled (ReleaseWritelock (Key [1]) 5 (DirectoryInfo 5)) (coop_abs (least_env (\<lambda>_. 0)) example_node)
    then returns (coop_handle (least_env (\<lambda>_. 0)) example_node (ReleaseWritelock (Key [1]) 5 (DirectoryInfo 5)))
    else coop_handle (least_env (\<lambda>_. 0)) example_node (ReleaseWritelock (Key [1]) 5 (DirectoryInfo 5)) = Inl AssertFailed"
  by (rule beacon_stops_iff_disabled [where shared = fst and excl = snd]) (simp_all add: least_env_ok example_node_inv example_node_ok)

text \<open>C2: No valid copy during a write. In every state that a new beacon reaches by any sequence of
  look-ups, updates, write locks, releases and preservations, the tables and locks are well formed,
  and while a key is being written none of its copies is marked valid.\<close>

theorem no_valid_copy_during_write:
  assumes "shared_mutex_ok env shared excl" and "draw_ok env" and "locking_size \<noteq> 0"
    and "CooperationWrapperBase_new env hash locking_size g n i = Inr w0"
    and "beacon_reachable env (\<lambda>req. \<not> is_validate req) w0 w"
    and "being_written env (perkey_rwlock_ptr w) (block_tracker_ptr w) k"
  shows "coop_inv env shared excl w \<and> dir_valid env (perkey_rwlock_ptr w) (directory_table_ptr w) k = []"
proof -
  note new = coop_new [OF assms(1,3,4)]
  have "msi_safe (coop_abs env w0)" by (simp add: new(2) msi_safe_def)
  then have inv: "coop_inv env shared excl w" and safe: "msi_safe (coop_abs env w)"
    using reachable_inv [OF assms(5,1,2) new(1)] by auto
  then have "coop_data env w" by (simp add: coop_inv_def)
  from copies_valid [OF this, of k] safe assms(6) inv show ?thesis
    by (simp add: msi_safe_def being_written_iff)
qed

theorem no_valid_copy_during_write_witness:
  "\<exists>w. beacon_reachable (least_env (\<lambda>_. 0)) (\<lambda>req. \<not> is_validate req) example_start w
    \<and> being_written (least_env (\<lambda>_. 0)) (perkey_rwlock_ptr w) (block_tracker_ptr w) (Key [1])
    \<and> coop_inv (least_env (\<lambda>_. 0)) fst snd w
    \<and> dir_valid (least_env (\<lambda>_. 0)) (perkey_rwlock_ptr w) (directory_table_ptr w) (Key [1]) = []"
proof -
  obtain w where w: "beacon_reachable (least_env (\<lambda>_. 0)) (\<lambda>req. \<not> is_validate req) example_start w"
    "being_written (least_env (\<lambda>_. 0)) (perkey_rwlock_ptr w) (block_tracker_ptr w) (Key [1])"
    by (rule example_write_reachable)
  with no_valid_copy_during_write [OF least_env_ok _ example_start_new w] show ?thesis by auto
qed

text \<open>C3: Writers exclude readers and writers. From a successful request for the write lock of a key until
  the first release for that key, every look-up of the key answers that it is being written and that
  there is no valid directory, and no other request for its write lock succeeds.\<close>

theorem write_excludes_readers:
  assumes "shared_mutex_ok env shared excl" and "draw_ok env" and "coop_inv env shared excl w"
    and "run_ok env w (acq # reqs)" and "coop_run env w (acq # reqs) = Inr (w', AcquireReply kSuccess ds sc # reps)"
    and "acquires k acq" and "\<forall>req \<in> set reqs. \<not> releases k req"
  shows "\<forall>(req, rep) \<in> set (zip reqs reps). request_key req = k \<longrightarrow> write_excluded rep"
  using acquire_then_run [OF assms] by blast

theorem write_excludes_readers_witness:
  "\<exists>w' ds sc reps. coop_run (least_env (\<lambda>_. 0)) example_node
        (AcquireByCacheServer (Key [1]) 3 # [LookupByBeaconServer (Key [1]) 5 example_addr])
      = Inr (w', AcquireReply kSuccess ds sc # reps) \<and> length reps = 1
    \<and> (\<forall>(req, rep) \<in> set (zip [LookupByBeaconServer (Key [1]) 5 example_addr] reps).
        request_key req = Key [1] \<longrightarrow> write_excluded rep)"
proof -
  let ?reqs = "AcquireByCacheServer (Key [1]) 3 # [LookupByBeaconServer (Key [1]) 5 example_addr]"
  obtain w' where w': "coop_run (least_env (\<lambda>_. 0)) example_node example_reqs
    = Inr (w', [AcquireReply kSuccess (DirinfoSet_of_list [DirectoryInfo 3]) True,
        LookupReply True True False DirectoryInfo_default False, ReleaseReply [example_addr] True])"
    by (rule example_run)
  have split: "example_reqs = ?reqs @ [ReleaseWritelock (Key [1]) 3 (DirectoryInfo 3)]" by (simp add: example_reqs_def)
  obtain w1 where run: "coop_run (least_env (\<lambda>_. 0)) example_node ?reqs
      = Inr (w1, AcquireReply kSuccess (DirinfoSet_of_list [DirectoryInfo 3]) True
          # [LookupReply True True False DirectoryInfo_default False])"
    using w' unfolding split coop_run_append by (auto simp: exec_inv simp del: coop_handle.simps)
  have ok: "run_ok (least_env (\<lambda>_. 0)) example_node ?reqs"
    using run_ok_append [OF example_run_ok [unfolded split] run] by blast
  from write_excludes_readers [OF least_env_ok example_node_inv ok run, of "Key [1]"] run show ?thesis
    by (auto simp: acquires_def simp del: coop_run.simps)
qed

text \<open>C4: The end of a write. The release that ends a write returns, without repetition, exactly the
  addresses of the edge nodes that looked the key up remotely or failed to get its write lock since
  the write began; after it the key is not being written, and the copy of the sender is valid if the
  sender has one.\<close>

theorem release_wakes_blocked:
  assumes "shared_mutex_ok env shared excl" and "draw_ok env" and "coop_inv env shared excl w"
    and "run_ok env w (acq # reqs @ [ReleaseWritelock k src d])"
    and "coop_run env w (acq # reqs @ [ReleaseWritelock k src d])
      = Inr (w', AcquireReply kSuccess ds sc # reps @ [ReleaseReply blocked sc'])"
    and "acquires k acq" and "\<forall>req \<in> set reqs. \<not> releases k req"
  shows "distinct blocked \<and> set blocked = {a. \<exists>(req, rep) \<in> set (zip reqs reps). blocks k a req rep}
    \<and> \<not> being_written env (perkey_rwlock_ptr w') (block_tracker_ptr w') k
    \<and> (d \<in> set (dir_edges env (perkey_rwlock_ptr w') (directory_table_ptr w') k)
        \<longrightarrow> d \<in> set (dir_valid env (perkey_rwlock_ptr w') (directory_table_ptr w') k))"
proof -
  have split: "acq # reqs @ [ReleaseWritelock k src d] = (acq # reqs) @ [ReleaseWritelock k src d]" by simp
  obtain w1 where r: "coop_run env w (acq # reqs) = Inr (w1, AcquireReply kSuccess ds sc # reps)"
    and h: "coop_handle env w1 (ReleaseWritelock k src d) = Inr (w', ReleaseReply blocked sc')"
    using assms(5) unfolding split coop_run_append by (auto simp: exec_inv simp del: coop_handle.simps)
  have ok: "run_ok env w (acq # reqs)" "run_ok env w1 [ReleaseWritelock k src d]"
    using run_ok_append [OF assms(4) [unfolded split] r] by blast+
  note run = acquire_then_run [OF assms(1-3) ok(1) r assms(6,7)]
  have step: "coop_inv env shared excl w' \<and> coop_abs env w' = msi_next (ReleaseWritelock k src d) (coop_abs env w1)
      \<and> msi_reply_ok (ReleaseWritelock k src d) (coop_abs env w1) (ReleaseReply blocked sc')"
    using handle_spec [OF assms(1,2) _ _ _ _ h] run ok(2) by (auto simp del: coop_handle.simps)
  have data: "coop_data env w'" using step by (simp add: coop_inv_def)
  show ?thesis
    unfolding being_written_iff copies_valid [OF data] copies_edges using step run
    by (auto simp: validate_at_def split: if_splits)
qed

theorem release_wakes_blocked_witness:
  "\<exists>w' ds sc reps blocked sc'. coop_run (least_env (\<lambda>_. 0)) example_node (AcquireByCacheServer (Key [1]) 3
        # [LookupByBeaconServer (Key [1]) 5 example_addr] @ [ReleaseWritelock (Key [1]) 3 (DirectoryInfo 3)])
      = Inr (w', AcquireReply kSuccess ds sc # reps @ [ReleaseReply blocked sc'])
    \<and> distinct blocked
    \<and> set blocked = {a. \<exists>(req, rep) \<in> set (zip [LookupByBeaconServer (Key [1]) 5 example_addr] reps). blocks (Key [1]) a req rep}
    \<and> \<not> being_written (least_env (\<lambda>_. 0)) (perkey_rwlock_ptr w') (block_tracker_ptr w') (Key [1])
    \<and> (DirectoryInfo 3 \<in> set (dir_edges (least_env (\<lambda>_. 0)) (perkey_rwlock_ptr w') (directory_table_ptr w') (Key [1]))
        \<longrightarrow> DirectoryInfo 3 \<in> set (dir_valid (least_env (\<lambda>_. 0)) (perkey_rwlock_ptr w') (directory_table_ptr w') (Key [1])))"
proof -
  let ?reqs = "AcquireByCacheServer (Key [1]) 3 # [LookupByBeaconServer (Key [1]) 5 example_addr]
      @ [ReleaseWritelock (Key [1]) 3 (DirectoryInfo 3)]"
  have eq: "example_reqs = ?reqs" by (simp add: example_reqs_def)
  obtain w' where "coop_run (least_env (\<lambda>_. 0)) example_node example_reqs
    = Inr (w', [AcquireReply kSuccess (DirinfoSet_of_list [DirectoryInfo 3]) True,
        LookupReply True True False DirectoryInfo_default False, ReleaseReply [example_addr] True])"
    by (rule example_run)
  then have run: "coop_run (least_env (\<lambda>_. 0)) example_node ?reqs
      = Inr (w', AcquireReply kSuccess (DirinfoSet_of_list [DirectoryInfo 3]) True
          # [LookupReply True True False DirectoryInfo_default False] @ [ReleaseReply [example_addr] True])"
    unfolding eq by simp
  have "acquires (Key [1]) (AcquireByCacheServer (Key [1]) 3)"
    "\<forall>req \<in> set [LookupByBeaconServer (Key [1]) 5 example_addr]. \<not> releases (Key [1]) req"
    by (simp_all add: acquires_def)
  from release_wakes_blocked [OF least_env_ok example_node_inv example_run_ok [unfolded eq] run this] run
  show ?thesis by blast
qed

text \<open>A request for a key of another beacon. With the assertions of the configuration switched on, a
  node that is not the beacon of a key serves no request for it: the process stops before any table
  is read.\<close>

theorem wrong_beacon_refused:
  assumes "shared_mutex_ok env shared excl" and "coop_inv env shared excl w" and "is_assert env"
    and "CooperationWrapperBase_getBeaconEdgeIdx w (request_key req) = Inr i" and "i \<noteq> coop_edge_idx w"
  shows "coop_handle env w req = Inl AssertFailed"
  using assms(4)
  by (cases req) (simp_all add: write_section.section_refuses [OF assms(1-3) _ assms(5)]
      read_section.section_refuses [OF assms(1-3) _ assms(5)]
      CooperationWrapperBase_lookupDirectoryTableByCacheServer_def
      CooperationWrapperBase_lookupDirectoryTableByBeaconServer_def CooperationWrapperBase_updateDirectoryTable_def
      CooperationWrapperBase_acquireLocalWritelockByCacheServer_def
      CooperationWrapperBase_acquireLocalWritelockByBeaconServer_def CooperationWrapperBase_releaseLocalWritelock_def
      BasicCooperationWrapper_customFunc_def PreserveDirectoryTable_FUNCNAME_def ValidateDirectoryTable_FUNCNAME_def
      BasicCooperationWrapper_preserveDirectoryTableIfGlobalUncachedInternal_def
      BasicCooperationWrapper_validateDirectoryTableForPreservedDirinfoInternal_def)

theorem wrong_beacon_refused_witness:
  "coop_handle (least_env (\<lambda>_. 0)) (example_node\<lparr>coop_edge_idx := 1\<rparr>) (LookupByCacheServer (Key [1]) 3) = Inl AssertFailed"
proof (rule wrong_beacon_refused [where shared = fst and excl = snd and i = 0])
  show "coop_inv (least_env (\<lambda>_. 0)) fst snd (example_node\<lparr>coop_edge_idx := 1\<rparr>)"
    using example_node_inv by (simp add: coop_inv_def coop_data_def)
  show "CooperationWrapperBase_getBeaconEdgeIdx (example_node\<lparr>coop_edge_idx := 1\<rparr>)
      (request_key (LookupByCacheServer (Key [1]) 3)) = Inr 0"
    using example_node_ok(1) [of "Key [1]"]
    by (simp add: is_beacon_def CooperationWrapperBase_getBeaconEdgeIdx_def example_node_def)
qed (simp_all add: least_env_ok, simp_all add: least_env_def)

text \<open>Validation of a preserved copy during a write. The request that validates a preserved copy marks
  it valid even while the key is being written, unlike the admission of a copy, so that the safety of
  the other requests does not extend to it.\<close>

theorem validate_preserved_ignores_write:
  assumes "shared_mutex_ok env shared excl" and "draw_ok env" and "coop_inv env shared excl w" and "coop_room w"
    and "is_beacon w k" and "being_written env (perkey_rwlock_ptr w) (block_tracker_ptr w) k"
    and "d \<in> set (dir_edges env (perkey_rwlock_ptr w) (directory_table_ptr w) k)"
  shows "\<exists>w' n. coop_handle env w (ValidatePreserved k d) = Inr (w', ValidateReply True True n)
    \<and> being_written env (perkey_rwlock_ptr w') (block_tracker_ptr w') k
    \<and> d \<in> set (dir_valid env (perkey_rwlock_ptr w') (directory_table_ptr w') k)"
proof -
  have "serves env shared excl w (ValidatePreserved k d)"
    using assms by (intro serves_request) simp_all
  then obtain w' rep where r: "coop_handle env w (ValidatePreserved k d) = Inr (w', rep)" "coop_inv env shared excl w'"
      "coop_abs env w' = validate_at k d (coop_abs env w)"
      "rep = ValidateReply (d \<in> dom (copies (coop_abs env w) k)) (waiting (coop_abs env w) k \<noteq> None)
         (\<exists>n \<in> dom (copies (coop_abs env w) k). n \<noteq> d)"
    by (auto simp: serves_def)
  have data: "coop_data env w'" using r(2) by (simp add: coop_inv_def)
  have "coop_handle env w (ValidatePreserved k d) = Inr (w', ValidateReply True True (\<exists>n \<in> dom (copies (coop_abs env w) k). n \<noteq> d))"
    using r(1,4) assms(6,7) by (simp add: being_written_iff copies_edges)
  moreover have "being_written env (perkey_rwlock_ptr w') (block_tracker_ptr w') k"
    using assms(6) by (simp add: being_written_iff r(3) validate_at_def)
  moreover have "d \<in> set (dir_valid env (perkey_rwlock_ptr w') (directory_table_ptr w') k)"
    using assms(7) by (simp add: copies_edges copies_valid [OF data] r(3) validate_at_def)
  ultimately show ?thesis by blast
qed

theorem validate_preserved_ignores_write_witness:
  "\<exists>w w' n. beacon_reachable (least_env (\<lambda>_. 0)) (\<lambda>req. \<not> is_validate req) example_start w
    \<and> coop_handle (least_env (\<lambda>_. 0)) w (ValidatePreserved (Key [1]) (DirectoryInfo 3)) = Inr (w', ValidateReply True True n)
    \<and> being_written (least_env (\<lambda>_. 0)) (perkey_rwlock_ptr w') (block_tracker_ptr w') (Key [1])
    \<and> DirectoryInfo 3 \<in> set (dir_valid (least_env (\<lambda>_. 0)) (perkey_rwlock_ptr w') (directory_table_ptr w') (Key [1]))"
proof -
  obtain w where w: "beacon_reachable (least_env (\<lambda>_. 0)) (\<lambda>req. \<not> is_validate req) example_start w"
    "being_written (least_env (\<lambda>_. 0)) (perkey_rwlock_ptr w) (block_tracker_ptr w) (Key [1])"
    "DirectoryInfo 3 \<in> set (dir_edges (least_env (\<lambda>_. 0)) (perkey_rwlock_ptr w) (directory_table_ptr w) (Key [1]))"
    "coop_room w"
    by (rule example_write_reachable)
  have inv0: "coop_inv (least_env (\<lambda>_. 0)) fst snd example_start"
    by (rule coop_new(1) [OF least_env_ok(1) _ example_start_new]) simp
  from reachable_inv [OF w(1) least_env_ok inv0] have inv: "coop_inv (least_env (\<lambda>_. 0)) fst snd w"
    and "same_node example_start w" by simp_all
  then have "is_beacon w (Key [1])"
    using is_beacon_same_node [of example_start w] example_node_ok(1) [of "Key [1]"]
    by (simp add: is_beacon_def CooperationWrapperBase_getBeaconEdgeIdx_def example_node_def example_start_def)
  from validate_preserved_ignores_write [OF least_env_ok inv w(4) this w(2,3)] w(1) show ?thesis by blast
qed

end
