(* ===== verification/Validity_Map.thy ===== *)
theory Validity_Map
  imports Concurrent_Hashtable
begin

text \<open>
  \<open>ValidityFlag\<close> and \<open>ValidityMap\<close> (\<open>src/src/cache/validity_map.c\<close>): whether the copy an edge node holds of a
  key may be served. It is the second client of the concurrent hash table, with one-byte values that
  are only ever overwritten: a call by name that would change one stops the process.
\<close>

datatype validity_flag = ValidityFlag (isValidFlag: bool)

definition IS_VALID_FLAG_FUNCNAME :: string where
  "IS_VALID_FLAG_FUNCNAME = ''isValidFlag''"

definition ValidityFlag_getSizeForCapacity :: "validity_flag \<Rightarrow> u64" where
  "ValidityFlag_getSizeForCapacity v = 1"

datatype validity_param = IsValidFlagParam (param_is_valid: bool)

definition ValidityFlag_call ::
    "string \<Rightarrow> validity_param \<Rightarrow> validity_flag \<Rightarrow> (validity_flag \<times> validity_param \<times> bool) exec" where
  "ValidityFlag_call function_name param v = Inl Exited"

definition ValidityFlag_constCall :: "string \<Rightarrow> validity_param \<Rightarrow> validity_flag \<Rightarrow> validity_param exec" where
  "ValidityFlag_constCall function_name param v =
     (if function_name = IS_VALID_FLAG_FUNCNAME then Inr (IsValidFlagParam (isValidFlag v)) else Inl Exited)"

definition validity_ops :: "(validity_flag, validity_param) value_ops" where
  "validity_ops = \<lparr>v_call = ValidityFlag_call, v_constCall = ValidityFlag_constCall,
     v_size = ValidityFlag_getSizeForCapacity\<rparr>"

type_synonym validity_map = "validity_flag concurrent_hashtable"

definition ValidityMap_new :: "'m perkey_rwlock \<Rightarrow> validity_map" where
  "ValidityMap_new lk = ConcurrentHashtable_new lk"

definition ValidityMap_isKeyExist ::
    "('m, 'z) lock_env_scheme \<Rightarrow> 'm perkey_rwlock \<Rightarrow> validity_map \<Rightarrow> key \<Rightarrow> bool exec" where
  "ValidityMap_isKeyExist env lk t k = ConcurrentHashtable_isExist env lk t k"

text \<open>Results: whether the key exists, and the flag (false for a key that does not).\<close>

definition ValidityMap_isValidFlagForKey ::
    "('m, 'z) lock_env_scheme \<Rightarrow> 'm perkey_rwlock \<Rightarrow> validity_map \<Rightarrow> key \<Rightarrow> (bool \<times> bool) exec" where
  "ValidityMap_isValidFlagForKey env lk t k =
     bindE (ConcurrentHashtable_constCallIfExist env lk validity_ops t k IS_VALID_FLAG_FUNCNAME (IsValidFlagParam False))
       (\<lambda>(is_exist, tmp_param). Inr (is_exist, param_is_valid tmp_param))"

definition ValidityMap_invalidateFlagForKey ::
    "('m, 'z) lock_env_scheme \<Rightarrow> 'm perkey_rwlock \<Rightarrow> validity_map \<Rightarrow> key \<Rightarrow> (validity_map \<times> bool) exec" where
  "ValidityMap_invalidateFlagForKey env lk t k =
     ConcurrentHashtable_insertOrUpdate env lk validity_ops t k (ValidityFlag False)"

definition ValidityMap_validateFlagForKey ::
    "('m, 'z) lock_env_scheme \<Rightarrow> 'm perkey_rwlock \<Rightarrow> validity_map \<Rightarrow> key \<Rightarrow> (validity_map \<times> bool) exec" where
  "ValidityMap_validateFlagForKey env lk t k =
     ConcurrentHashtable_insertOrUpdate env lk validity_ops t k (ValidityFlag True)"

definition ValidityMap_eraseFlagForKey ::
    "('m, 'z) lock_env_scheme \<Rightarrow> 'm perkey_rwlock \<Rightarrow> validity_map \<Rightarrow> key \<Rightarrow> (validity_map \<times> bool) exec" where
  "ValidityMap_eraseFlagForKey env lk t k = ConcurrentHashtable_eraseIfExist env lk validity_ops t k"

definition ValidityMap_getSizeForCapacity :: "validity_map \<Rightarrow> u64" where
  "ValidityMap_getSizeForCapacity t = ConcurrentHashtable_getTotalValueSizeForCapcity t"

definition ValidityMap_getAllKeyValidityPairs ::
    "validity_map \<Rightarrow> (key \<times> validity_flag) list \<Rightarrow> (key \<times> validity_flag) list" where
  "ValidityMap_getAllKeyValidityPairs t key_validity_map = ConcurrentHashtable_getAllKeyValuePairs t key_validity_map"

definition ValidityMap_putKeyValidityPair ::
    "('m, 'z) lock_env_scheme \<Rightarrow> 'm perkey_rwlock \<Rightarrow> validity_map \<Rightarrow> key \<Rightarrow> validity_flag \<Rightarrow> (validity_map \<times> bool) exec" where
  "ValidityMap_putKeyValidityPair env lk t k v = ConcurrentHashtable_putKeyValuePair env lk validity_ops t k v"

section \<open>The map of flags\<close>

lemma validity_ops_sel [simp]:
  "v_constCall validity_ops = ValidityFlag_constCall" "v_size validity_ops = ValidityFlag_getSizeForCapacity"
  by (simp_all add: validity_ops_def)

lemma isValidFlagForKey_eq:
  assumes "table_locked env lk validity_ops t k"
  shows "ValidityMap_isValidFlagForKey env lk t k
    = Inr (ht_map env lk t k \<noteq> None, ht_map env lk t k = Some (ValidityFlag True))"
  using constCallIfExist_eq [OF assms, of IS_VALID_FLAG_FUNCNAME "IsValidFlagParam False"]
  by (cases "ht_map env lk t k")
    (auto simp: ValidityMap_isValidFlagForKey_def ValidityFlag_constCall_def validity_flag.expand)

lemma validity_size:
  assumes "ht_wf env lk validity_ops t" and "rwlock_wf lk"
  shows "unat (ValidityMap_getSizeForCapacity t) = card (dom (ht_map env lk t))"
proof -
  note kvs = getAllKeyValuePairs_eq [OF assms]
  have "value_weight validity_ops = (\<lambda>_. 1)" by (simp add: value_weight_def fun_eq_iff ValidityFlag_getSizeForCapacity_def)
  then have "weight (value_weight validity_ops) (hashtables t) = length (concat (hashtables t))"
    unfolding weight_concat [symmetric] by (simp add: sum_list_triv del: length_concat)
  moreover have "card (dom (map_of (concat (hashtables t)))) = length (concat (hashtables t))"
    using distinct_card [OF kvs(3)] by (simp add: dom_map_of_conv_image_fst del: length_concat)
  ultimately show ?thesis
    using assms(1) by (simp add: ht_wf_def ValidityMap_getSizeForCapacity_def
        ConcurrentHashtable_getTotalValueSizeForCapcity_def kvs(2) del: length_concat)
qed

lemma table_locked_of_write: "table_write_locked env lk ops t k \<Longrightarrow> table_locked env lk ops t k"
  by (auto simp: table_write_locked_def table_locked_def locked_queries)

text \<open>Validity of cached objects. Under the write lock, setting the flag of a key returns, reports
  whether the key was tracked, and makes the flag read back for this key what was set and for every
  other key what it was; erasing the flag makes the key unknown. The map counts one byte per key.\<close>

theorem validity_map_flags:
  assumes "table_write_locked env lk validity_ops t k" and "ht_room validity_ops t k (ValidityFlag b)"
  shows "\<exists>t' t''. (if b then ValidityMap_validateFlagForKey else ValidityMap_invalidateFlagForKey) env lk t k
      = Inr (t', ht_map env lk t k \<noteq> None)
    \<and> ValidityMap_isValidFlagForKey env lk t' k = Inr (True, b)
    \<and> (\<forall>k'. k' \<noteq> k \<longrightarrow> ht_map env lk t' k' = ht_map env lk t k')
    \<and> unat (ValidityMap_getSizeForCapacity t') = card (insert k (dom (ht_map env lk t)))
    \<and> ValidityMap_eraseFlagForKey env lk t' k = Inr (t'', True)
    \<and> ValidityMap_isValidFlagForKey env lk t'' k = Inr (False, False)
    \<and> unat (ValidityMap_getSizeForCapacity t'') = card (dom (ht_map env lk t) - {k})"
proof -
  have wf: "rwlock_wf lk" using assms(1) by (simp add: table_write_locked_def)
  from insertOrUpdate_ok [OF assms] obtain t' where
    t': "ConcurrentHashtable_insertOrUpdate env lk validity_ops t k (ValidityFlag b) = Inr (t', ht_map env lk t k \<noteq> None)"
      "ht_wf env lk validity_ops t'" "ht_map env lk t' = (ht_map env lk t)(k \<mapsto> ValidityFlag b)" .
  have lk': "table_write_locked env lk validity_ops t' k" using assms(1) t'(2) by (simp add: table_write_locked_def)
  from eraseIfExist_ok [OF lk'] obtain t'' where
    t'': "ConcurrentHashtable_eraseIfExist env lk validity_ops t' k = Inr (t'', ht_map env lk t' k \<noteq> None)"
      "ht_wf env lk validity_ops t''" "ht_map env lk t'' = (ht_map env lk t')(k := None)" .
  have lk'': "table_write_locked env lk validity_ops t'' k" using assms(1) t''(2) by (simp add: table_write_locked_def)
  have "(if b then ValidityMap_validateFlagForKey else ValidityMap_invalidateFlagForKey) env lk t k
      = Inr (t', ht_map env lk t k \<noteq> None)"
    using t'(1) by (cases b) (simp_all add: ValidityMap_validateFlagForKey_def ValidityMap_invalidateFlagForKey_def)
  then show ?thesis
    using t'(3) t''(1,3) isValidFlagForKey_eq [OF table_locked_of_write [OF lk']]
      isValidFlagForKey_eq [OF table_locked_of_write [OF lk'']] validity_size [OF t'(2) wf] validity_size [OF t''(2) wf]
    by (auto simp: ValidityMap_eraseFlagForKey_def)
qed

theorem validity_map_flags_witness:
  "\<exists>t' t''. (if True then ValidityMap_validateFlagForKey else ValidityMap_invalidateFlagForKey)
        (counting_env (\<lambda>_. 0)) one_lock_written (ValidityMap_new one_lock_written) (Key [1])
      = Inr (t', ht_map (counting_env (\<lambda>_. 0)) one_lock_written (ValidityMap_new one_lock_written) (Key [1]) \<noteq> None)
    \<and> ValidityMap_isValidFlagForKey (counting_env (\<lambda>_. 0)) one_lock_written t' (Key [1]) = Inr (True, True)
    \<and> (\<forall>k'. k' \<noteq> Key [1] \<longrightarrow> ht_map (counting_env (\<lambda>_. 0)) one_lock_written t' k'
        = ht_map (counting_env (\<lambda>_. 0)) one_lock_written (ValidityMap_new one_lock_written) k')
    \<and> unat (ValidityMap_getSizeForCapacity t')
        = card (insert (Key [1]) (dom (ht_map (counting_env (\<lambda>_. 0)) one_lock_written (ValidityMap_new one_lock_written))))
    \<and> ValidityMap_eraseFlagForKey (counting_env (\<lambda>_. 0)) one_lock_written t' (Key [1]) = Inr (t'', True)
    \<and> ValidityMap_isValidFlagForKey (counting_env (\<lambda>_. 0)) one_lock_written t'' (Key [1]) = Inr (False, False)
    \<and> unat (ValidityMap_getSizeForCapacity t'')
        = card (dom (ht_map (counting_env (\<lambda>_. 0)) one_lock_written (ValidityMap_new one_lock_written)) - {Key [1]})"
  by (rule validity_map_flags)
    (simp_all add: table_write_locked_def one_lock_written_ok ht_wf_new ht_room_def Key_getKeyLength_def
      ValidityMap_new_def ValidityFlag_getSizeForCapacity_def)

end
