(* ===== verification/Udp_Fragments.thy ===== *)
theory Udp_Fragments
  imports Network_Addr
begin

text \<open>
  Messages over UDP: the fragment header \<open>UdpFragHdr\<close> (\<open>src/src/network/udp_frag_hdr.c\<close>), the table of
  incomplete messages \<open>MsgFragStats\<close> (\<open>msg_frag_stats.c\<close>), the sender \<open>UdpMsgSocketClient\<close> and the receiver
  \<open>UdpMsgSocketServer\<close> (\<open>udp_msg_socket_client.c\<close>, \<open>udp_msg_socket_server.c\<close>), and the fragment arithmetic of
  \<open>Util\<close>. The socket is not part of the model: sending returns the packets, receiving takes the
  list of events the socket delivers. A \<open>std::map\<close> is an association list in the order of its keys; the
  map from source addresses is keyed by what the order of \<open>NetworkAddr\<close> looks at, address text and port.
\<close>

section \<open>Fragment arithmetic\<close>

definition UDP_MAX_PKT_PAYLOAD :: u32 where
  "UDP_MAX_PKT_PAYLOAD = 65507"

definition UDP_FRAGHDR_SIZE :: u32 where
  "UDP_FRAGHDR_SIZE = 5 * 4 + 2"

definition UDP_MAX_FRAG_PAYLOAD :: u32 where
  "UDP_MAX_FRAG_PAYLOAD = UDP_MAX_PKT_PAYLOAD - UDP_FRAGHDR_SIZE"

definition UDP_MIN_PORT :: u16 where
  "UDP_MIN_PORT = 1024"

definition Util_getFragmentCnt :: "u32 \<Rightarrow> u32 exec" where
  "Util_getFragmentCnt msg_payload_size =
     (if msg_payload_size = 0 then Inr 1
      else assertE (0 < UDP_MAX_FRAG_PAYLOAD) (Inr ((msg_payload_size - 1) div UDP_MAX_FRAG_PAYLOAD + 1)))"

definition Util_getFragmentOffset :: "u32 \<Rightarrow> u32" where
  "Util_getFragmentOffset fragment_idx = fragment_idx * UDP_MAX_FRAG_PAYLOAD"

definition Util_getFragmentPayloadSize :: "u32 \<Rightarrow> u32 \<Rightarrow> u32 exec" where
  "Util_getFragmentPayloadSize fragment_idx msg_payload_size =
     bindE (Util_getFragmentCnt msg_payload_size) (\<lambda>fragment_cnt.
     let fragment_payload_size =
           (if fragment_idx = fragment_cnt - 1
            then msg_payload_size - (fragment_cnt - 1) * UDP_MAX_FRAG_PAYLOAD
            else UDP_MAX_FRAG_PAYLOAD)
     in assertE (0 \<le> fragment_payload_size)
          (assertE (fragment_payload_size \<le> UDP_MAX_FRAG_PAYLOAD) (Inr fragment_payload_size)))"

section \<open>Fragment headers\<close>

record udp_frag_hdr =
  fragment_idx :: u32
  fragment_cnt :: u32
  msg_payload_size :: u32
  msg_seqnum :: u32
  source_addr :: network_addr

definition UdpFragHdr_serialize :: "inet_env \<Rightarrow> udp_frag_hdr \<Rightarrow> dynamic_array \<Rightarrow> (dynamic_array \<times> u32) exec" where
  "UdpFragHdr_serialize inet h pkt_payload =
     bindE (DynamicArray_deserialize pkt_payload 0 (htonl_mem (fragment_idx h)) 4) (\<lambda>pkt_payload.
     bindE (DynamicArray_deserialize pkt_payload 4 (htonl_mem (fragment_cnt h)) 4) (\<lambda>pkt_payload.
     bindE (DynamicArray_deserialize pkt_payload 8 (htonl_mem (msg_payload_size h)) 4) (\<lambda>pkt_payload.
     bindE (DynamicArray_deserialize pkt_payload 12 (htonl_mem (msg_seqnum h)) 4) (\<lambda>pkt_payload.
     bindE (NetworkAddr_serialize inet (source_addr h) pkt_payload 16) (\<lambda>(pkt_payload, addr_serialize_size).
     assertE (16 + addr_serialize_size = UDP_FRAGHDR_SIZE) (Inr (pkt_payload, 16 + addr_serialize_size)))))))"

definition UdpFragHdr_deserialize :: "inet_env \<Rightarrow> dynamic_array \<Rightarrow> (udp_frag_hdr \<times> u32) exec" where
  "UdpFragHdr_deserialize inet pkt_payload =
     bindE (DynamicArray_serialize pkt_payload 0 4) (\<lambda>bigendian_fragment_idx.
     bindE (DynamicArray_serialize pkt_payload 4 4) (\<lambda>bigendian_fragment_cnt.
     bindE (DynamicArray_serialize pkt_payload 8 4) (\<lambda>bigendian_msg_payload_size.
     bindE (DynamicArray_serialize pkt_payload 12 4) (\<lambda>bigendian_msg_seqnum.
     bindE (NetworkAddr_deserialize inet NetworkAddr_invalid pkt_payload 16) (\<lambda>(addr, addr_deserialize_size).
     assertE (16 + addr_deserialize_size = UDP_FRAGHDR_SIZE)
       (Inr (\<lparr>fragment_idx = mem_ntohl bigendian_fragment_idx, fragment_cnt = mem_ntohl bigendian_fragment_cnt,
              msg_payload_size = mem_ntohl bigendian_msg_payload_size, msg_seqnum = mem_ntohl bigendian_msg_seqnum,
              source_addr = addr\<rparr>, 16 + addr_deserialize_size)))))))"

definition UdpFragHdr_getudpFragHdrPayloadSize :: "udp_frag_hdr \<Rightarrow> u32" where
  "UdpFragHdr_getudpFragHdrPayloadSize h = 4 * 4 + NetworkAddr_getAddrPayloadSize (source_addr h)"

definition UdpFragHdr_staticGetudpFragHdrPayloadSize :: u32 where
  "UdpFragHdr_staticGetudpFragHdrPayloadSize = 4 * 4 + NetworkAddr_getAddrPayloadSize NetworkAddr_invalid"

section \<open>Incomplete messages\<close>

record msg_frag_stats_entry =
  fragidx_fragpayload_map :: "(u32 \<times> dynamic_array) list"
  fragcnt :: u32
  entry_seqnum :: u32

definition MsgFragStatsEntry_new :: msg_frag_stats_entry where
  "MsgFragStatsEntry_new = \<lparr>fragidx_fragpayload_map = [], fragcnt = 0, entry_seqnum = 0\<rparr>"

definition MsgFragStatsEntry_isLastFrag :: "msg_frag_stats_entry \<Rightarrow> udp_frag_hdr \<Rightarrow> bool" where
  "MsgFragStatsEntry_isLastFrag e fraghdr =
     (length (fragidx_fragpayload_map e) = unat (fragcnt e - 1)
      \<and> map_of (fragidx_fragpayload_map e) (fragment_idx fraghdr) = None
      \<and> entry_seqnum e = msg_seqnum fraghdr)"

text \<open>The fragment is stored without its header, in the order of the indices.\<close>

definition store_frag :: "msg_frag_stats_entry \<Rightarrow> u32 \<Rightarrow> dynamic_array \<Rightarrow> msg_frag_stats_entry exec" where
  "store_frag e fragidx pkt_payload =
     bindE (DynamicArray_arraycpy pkt_payload UDP_FRAGHDR_SIZE (DynamicArray_clear UDP_MAX_FRAG_PAYLOAD DynamicArray_new) 0
              (DynamicArray_getSize pkt_payload - UDP_FRAGHDR_SIZE)) (\<lambda>frag_payload.
     Inr (e\<lparr>fragidx_fragpayload_map := insort_key fst (fragidx, frag_payload) (fragidx_fragpayload_map e)\<rparr>))"

definition MsgFragStatsEntry_insertFrag ::
    "msg_frag_stats_entry \<Rightarrow> udp_frag_hdr \<Rightarrow> dynamic_array \<Rightarrow> msg_frag_stats_entry exec" where
  "MsgFragStatsEntry_insertFrag e fraghdr pkt_payload =
     (let fragidx = fragment_idx fraghdr; cnt = fragment_cnt fraghdr; seqnum = msg_seqnum fraghdr;
          absent = (\<lambda>e. map_of (fragidx_fragpayload_map e) fragidx = None)
      in if length (fragidx_fragpayload_map e) = 0
         then let e = e\<lparr>fragcnt := cnt, entry_seqnum := seqnum\<rparr>
              in assertE (absent e) (store_frag e fragidx pkt_payload)
         else if seqnum < entry_seqnum e then Inr e
         else if entry_seqnum e < seqnum
         then let e = \<lparr>fragidx_fragpayload_map = [], fragcnt = cnt, entry_seqnum = seqnum\<rparr>
              in assertE (absent e) (store_frag e fragidx pkt_payload)
         else assertE (cnt = fragcnt e)
                (let need_insert = absent e
                 in assertE (absent e) (if need_insert then store_frag e fragidx pkt_payload else Inr e)))"

type_synonym addr_key = "u8 list \<times> u16"
type_synonym msg_frag_stats = "(addr_key \<times> msg_frag_stats_entry) list"

definition addr_key :: "network_addr \<Rightarrow> addr_key" where
  "addr_key a = (ipstr a, port a)"

text \<open>Results: the table, and whether this fragment completes its message.\<close>

definition MsgFragStats_insertEntry ::
    "inet_env \<Rightarrow> msg_frag_stats \<Rightarrow> network_addr \<Rightarrow> dynamic_array \<Rightarrow> (msg_frag_stats \<times> bool) exec" where
  "MsgFragStats_insertEntry inet st addr pkt_payload =
     assertE (is_valid addr) (
     bindE (UdpFragHdr_deserialize inet pkt_payload) (\<lambda>(fraghdr, _).
     if fragment_cnt fraghdr = 1 then Inr (st, True)
     else (case map_of st (addr_key addr) of
             None \<Rightarrow>
               bindE (MsgFragStatsEntry_insertFrag MsgFragStatsEntry_new fraghdr pkt_payload) (\<lambda>e.
               Inr (um_put (addr_key addr) e st, False))
           | Some e \<Rightarrow>
               if MsgFragStatsEntry_isLastFrag e fraghdr then Inr (st, True)
               else bindE (MsgFragStatsEntry_insertFrag e fraghdr pkt_payload) (\<lambda>e.
                    Inr (um_put (addr_key addr) e st, False)))))"

definition MsgFragStats_getEntry :: "msg_frag_stats \<Rightarrow> network_addr \<Rightarrow> msg_frag_stats_entry option exec" where
  "MsgFragStats_getEntry st addr = assertE (is_valid addr) (Inr (map_of st (addr_key addr)))"

definition MsgFragStats_removeEntry :: "msg_frag_stats \<Rightarrow> network_addr \<Rightarrow> msg_frag_stats" where
  "MsgFragStats_removeEntry st addr = um_erase (addr_key addr) st"

section \<open>Receiving\<close>

text \<open>What the socket delivers: nothing before the timeout, an error, or the bytes of a datagram, of
  which at most the size of the buffer are copied.\<close>

datatype recv_event = RecvTimeout | RecvError | RecvPacket "u8 list"

definition UdpPktSocket_udpRecvfrom :: "recv_event \<Rightarrow> dynamic_array \<Rightarrow> (dynamic_array \<times> bool) exec" where
  "UdpPktSocket_udpRecvfrom ev pkt_payload =
     (case ev of
        RecvTimeout \<Rightarrow> Inr (pkt_payload, True)
      | RecvError \<Rightarrow> Inl Exited
      | RecvPacket bs \<Rightarrow>
          let bs = take (unat UDP_MAX_PKT_PAYLOAD) bs
          in bindE (DynamicArray_deserialize pkt_payload 0 bs (word_of_nat (length bs))) (\<lambda>pkt_payload.
             Inr (pkt_payload, False)))"

fun copy_frags :: "(u32 \<times> dynamic_array) list \<Rightarrow> u32 \<Rightarrow> dynamic_array \<Rightarrow> dynamic_array exec" where
  "copy_frags [] msg_size msg_payload = Inr msg_payload"
| "copy_frags ((fragidx, frag_payload) # frags) msg_size msg_payload =
     bindE (Util_getFragmentPayloadSize fragidx msg_size) (\<lambda>fragment_payload_size.
     bindE (DynamicArray_arraycpy frag_payload 0 msg_payload (Util_getFragmentOffset fragidx) fragment_payload_size)
       (\<lambda>msg_payload.
     copy_frags frags msg_size msg_payload))"

text \<open>The message is complete: the stored fragments and then the current one are copied to their places.\<close>

definition assemble ::
    "msg_frag_stats \<Rightarrow> udp_frag_hdr \<Rightarrow> dynamic_array \<Rightarrow> dynamic_array \<Rightarrow> (msg_frag_stats \<times> dynamic_array) exec" where
  "assemble st fraghdr pkt_payload msg_payload =
     (let msg_size = msg_payload_size fraghdr; msg_payload = DynamicArray_clear msg_size msg_payload
      in bindE (if 1 < fragment_cnt fraghdr
                then bindE (MsgFragStats_getEntry st (source_addr fraghdr)) (\<lambda>entry.
                     case entry of
                       None \<Rightarrow> Inl AssertFailed
                     | Some e \<Rightarrow> bindE (copy_frags (fragidx_fragpayload_map e) msg_size msg_payload) (\<lambda>msg_payload.
                                Inr (MsgFragStats_removeEntry st (source_addr fraghdr), msg_payload)))
                else Inr (st, msg_payload)) (\<lambda>(st, msg_payload).
         bindE (Util_getFragmentPayloadSize (fragment_idx fraghdr) msg_size) (\<lambda>fragment_payload_size.
         assertE (fragment_payload_size = DynamicArray_getSize pkt_payload - UdpFragHdr_getudpFragHdrPayloadSize fraghdr) (
         bindE (DynamicArray_arraycpy pkt_payload UDP_FRAGHDR_SIZE msg_payload
                  (Util_getFragmentOffset (fragment_idx fraghdr)) fragment_payload_size) (\<lambda>msg_payload.
         Inr (st, msg_payload))))))"

text \<open>Results: the table, the events not yet consumed, whether the call timed out, the message buffer. A
  call that has seen all events waits for the next one.\<close>

fun UdpMsgSocketServer_recv ::
    "inet_env \<Rightarrow> msg_frag_stats \<Rightarrow> recv_event list \<Rightarrow> dynamic_array
     \<Rightarrow> (msg_frag_stats \<times> recv_event list \<times> bool \<times> dynamic_array) exec" where
  "UdpMsgSocketServer_recv inet st [] msg_payload = Inl Blocked"
| "UdpMsgSocketServer_recv inet st (ev # evs) msg_payload =
     bindE (UdpPktSocket_udpRecvfrom ev (DynamicArray_with_capacity UDP_MAX_PKT_PAYLOAD)) (\<lambda>(pkt_payload, is_timeout).
     if is_timeout then Inr (st, evs, True, msg_payload)
     else if DynamicArray_getSize pkt_payload < UdpFragHdr_staticGetudpFragHdrPayloadSize
     then Inr (st, evs, True, msg_payload)
     else
       bindE (UdpFragHdr_deserialize inet pkt_payload) (\<lambda>(fraghdr, _).
       if port (source_addr fraghdr) \<le> UDP_MIN_PORT then Inr (st, evs, True, msg_payload)
       else
         bindE (MsgFragStats_insertEntry inet st (source_addr fraghdr) pkt_payload) (\<lambda>(st, is_last_frag).
         if is_last_frag
         then bindE (assemble st fraghdr pkt_payload msg_payload) (\<lambda>(st, msg_payload). Inr (st, evs, False, msg_payload))
         else UdpMsgSocketServer_recv inet st evs msg_payload)))"

section \<open>Sending\<close>

definition make_packet ::
    "inet_env \<Rightarrow> u32 \<Rightarrow> network_addr \<Rightarrow> dynamic_array \<Rightarrow> u32 \<Rightarrow> u32 \<Rightarrow> u32 \<Rightarrow> dynamic_array exec" where
  "make_packet inet seqnum addr message_payload message_payload_size frag_cnt frag_idx =
     bindE (UdpFragHdr_serialize inet \<lparr>fragment_idx = frag_idx, fragment_cnt = frag_cnt,
              msg_payload_size = message_payload_size, msg_seqnum = seqnum, source_addr = addr\<rparr>
              (DynamicArray_with_capacity UDP_MAX_PKT_PAYLOAD)) (\<lambda>(pkt_payload, fraghdr_size).
     bindE (Util_getFragmentPayloadSize frag_idx message_payload_size) (\<lambda>fragment_payload_size.
     DynamicArray_arraycpy message_payload (Util_getFragmentOffset frag_idx) pkt_payload fraghdr_size
       fragment_payload_size))"

fun send_loop :: "(u32 \<Rightarrow> dynamic_array exec) \<Rightarrow> nat \<Rightarrow> nat \<Rightarrow> dynamic_array list exec" where
  "send_loop mk i 0 = Inr []"
| "send_loop mk i (Suc n) =
     bindE (mk (word_of_nat i)) (\<lambda>pkt. bindE (send_loop mk (Suc i) n) (\<lambda>pkts. Inr (pkt # pkts)))"

text \<open>The message is given by its source address, its announced size and its \<open>serialize\<close>; \<open>any_ipstr\<close> is
  the wildcard address of the configuration. Results: the next sequence number and the packets.\<close>

definition UdpMsgSocketClient_send ::
    "inet_env \<Rightarrow> u8 list \<Rightarrow> u32 \<Rightarrow> network_addr \<Rightarrow> u32 \<Rightarrow> (dynamic_array \<Rightarrow> (dynamic_array \<times> u32) exec)
     \<Rightarrow> network_addr \<Rightarrow> (u32 \<times> dynamic_array list) exec" where
  "UdpMsgSocketClient_send inet any_ipstr seqnum addr message_payload_size message_serialize remote_addr =
     assertE (is_valid remote_addr) (assertE (ipstr remote_addr \<noteq> any_ipstr) (
     bindE (message_serialize (DynamicArray_with_capacity message_payload_size)) (\<lambda>(message_payload, serialize_size).
     assertE (serialize_size = message_payload_size) (
     bindE (Util_getFragmentCnt message_payload_size) (\<lambda>frag_cnt.
     bindE (send_loop (make_packet inet seqnum addr message_payload message_payload_size frag_cnt) 0 (unat frag_cnt))
       (\<lambda>pkts. Inr (seqnum + 1, pkts)))))))"

end
