(* ===== verification/Udp_Roundtrip.thy ===== *)
theory Udp_Roundtrip
  imports Udp_Fragments "HOL-Library.Multiset"
begin

text \<open>
  What the fragmentation of \<open>Udp_Fragments\<close> achieves: the packets a message is cut into, the entry of the
  receiver after some of them, the buffer it assembles, and from these the round trip of a message whose packets
  arrive in any order. A fragment that arrives twice stops the receiver.
\<close>

section \<open>The fragments of a message\<close>

definition frag_max :: nat where
  "frag_max = unat UDP_MAX_FRAG_PAYLOAD"

definition frag_count :: "u8 list \<Rightarrow> nat" where
  "frag_count msg = (length msg - 1) div frag_max + 1"

definition chunk :: "u8 list \<Rightarrow> nat \<Rightarrow> u8 list" where
  "chunk msg i = take frag_max (drop (i * frag_max) msg)"

lemma frag_max_eq: "frag_max = 65485"
  by (simp add: frag_max_def UDP_MAX_FRAG_PAYLOAD_def UDP_MAX_PKT_PAYLOAD_def UDP_FRAGHDR_SIZE_def)

lemma frag_max_pos [simp]: "0 < frag_max"
  by (simp add: frag_max_eq)

lemma frag_count_bounds:
  assumes "0 < length msg"
  shows "(frag_count msg - 1) * frag_max < length msg" and "length msg \<le> frag_count msg * frag_max"
    and "frag_count msg \<le> length msg"
proof -
  let ?q = "(length msg - 1) div frag_max"
  have "?q * frag_max \<le> length msg - 1" by (rule div_times_less_eq_dividend)
  then show "(frag_count msg - 1) * frag_max < length msg"
    unfolding frag_count_def add_diff_cancel_right' using assms by linarith
  have "length msg - 1 < Suc ?q * frag_max"
    using dividend_less_div_times [OF frag_max_pos, of "length msg - 1"] by simp
  then show "length msg \<le> frag_count msg * frag_max" unfolding frag_count_def by simp
  have "?q \<le> length msg - 1" by (rule div_le_dividend)
  then show "frag_count msg \<le> length msg" unfolding frag_count_def using assms by linarith
qed

lemma frag_start_less:
  assumes "0 < length msg" and "i < frag_count msg"
  shows "i * frag_max < length msg"
proof -
  have "i * frag_max \<le> (frag_count msg - 1) * frag_max" using assms(2) by (intro mult_le_mono1) simp
  then show ?thesis using frag_count_bounds(1) [OF assms(1)] by (rule le_less_trans)
qed

lemma length_chunk:
  assumes "0 < length msg" and "i < frag_count msg"
  shows "length (chunk msg i) = (if i = frag_count msg - 1 then length msg - i * frag_max else frag_max)"
proof (cases "i = frag_count msg - 1")
  case True
  have "frag_count msg * frag_max = i * frag_max + frag_max"
    using True assms(2) by (cases "frag_count msg") auto
  then show ?thesis using True frag_count_bounds(2) [OF assms(1)] by (simp add: chunk_def)
next
  case False
  then have "Suc i \<le> frag_count msg - 1" using assms(2) by simp
  then have "Suc i * frag_max \<le> (frag_count msg - 1) * frag_max" by (rule mult_le_mono1)
  then show ?thesis using False frag_count_bounds(1) [OF assms(1)] by (simp add: chunk_def)
qed

lemma length_chunk_le: "length (chunk msg i) \<le> frag_max"
  by (simp add: chunk_def)

lemma chunk_end: "0 < length msg \<Longrightarrow> i < frag_count msg \<Longrightarrow> i * frag_max + length (chunk msg i) \<le> length msg"
  using frag_start_less [of msg i] by (simp add: chunk_def)

lemma chunk_in_msg: "j < length (chunk msg i) \<Longrightarrow> chunk msg i ! j = msg ! (i * frag_max + j)"
  unfolding chunk_def by (subst nth_take, simp) (subst nth_drop, auto)

lemma getFragmentCnt_eq:
  assumes "0 < length msg" and "length msg < 2 ^ 32"
  shows "Util_getFragmentCnt (word_of_nat (length msg)) = Inr (word_of_nat (frag_count msg))"
proof -
  let ?w = "word_of_nat (length msg) :: u32"
  have w: "unat ?w = length msg" using assms(2) by (simp add: unat_of_nat_small)
  then have "?w \<noteq> 0" using assms(1) by (metis unat_0 less_irrefl)
  then have "unat (?w - 1) = length msg - 1" using w by (simp add: unat_minus_one)
  then have "unat ((?w - 1) div UDP_MAX_FRAG_PAYLOAD) = (length msg - 1) div frag_max"
    by (simp add: unat_div frag_max_def)
  then have "(?w - 1) div UDP_MAX_FRAG_PAYLOAD = word_of_nat ((length msg - 1) div frag_max)"
    by (rule word_of_nat_eqI)
  moreover have "0 < UDP_MAX_FRAG_PAYLOAD"
    by (simp add: UDP_MAX_FRAG_PAYLOAD_def UDP_MAX_PKT_PAYLOAD_def UDP_FRAGHDR_SIZE_def)
  ultimately show ?thesis
    using \<open>?w \<noteq> 0\<close> by (simp add: Util_getFragmentCnt_def frag_count_def)
qed

lemma frag_count_less: "0 < length msg \<Longrightarrow> length msg < 2 ^ 32 \<Longrightarrow> frag_count msg < 2 ^ 32"
  using frag_count_bounds(3) [of msg] by linarith

lemma getFragmentOffset_eq:
  assumes "0 < length msg" and "length msg < 2 ^ 32" and "i < frag_count msg"
  shows "Util_getFragmentOffset (word_of_nat i) = word_of_nat (i * frag_max)"
    and "unat (Util_getFragmentOffset (word_of_nat i)) = i * frag_max"
proof -
  have "UDP_MAX_FRAG_PAYLOAD = word_of_nat frag_max" by (simp add: frag_max_def)
  then show eq: "Util_getFragmentOffset (word_of_nat i) = word_of_nat (i * frag_max)"
    by (simp add: Util_getFragmentOffset_def)
  show "unat (Util_getFragmentOffset (word_of_nat i)) = i * frag_max"
    unfolding eq using frag_start_less [OF assms(1,3)] assms(2) by (intro unat_of_nat_small) simp
qed

lemma getFragmentPayloadSize_eq:
  assumes "0 < length msg" and "length msg < 2 ^ 32" and "i < frag_count msg"
  shows "Util_getFragmentPayloadSize (word_of_nat i) (word_of_nat (length msg)) = Inr (word_of_nat (length (chunk msg i)))"
proof -
  let ?n = "frag_count msg"
  have n: "0 < ?n" "?n < 2 ^ 32" using assms(3) frag_count_less [OF assms(1,2)] by simp_all
  have pred: "word_of_nat ?n - 1 = (word_of_nat (?n - 1) :: u32)" using n(1) by (simp add: of_nat_diff)
  have last: "(word_of_nat i :: u32) = word_of_nat ?n - 1 \<longleftrightarrow> i = ?n - 1"
    unfolding pred using assms(3) n(2) by (intro word_of_nat_inj_iff) simp_all
  have max: "UDP_MAX_FRAG_PAYLOAD = word_of_nat frag_max" by (simp add: frag_max_def)
  have size: "(if (word_of_nat i :: u32) = word_of_nat ?n - 1
      then word_of_nat (length msg) - (word_of_nat ?n - 1) * UDP_MAX_FRAG_PAYLOAD else UDP_MAX_FRAG_PAYLOAD)
      = (word_of_nat (length (chunk msg i)) :: u32)"
  proof (cases "i = ?n - 1")
    case True
    then have "length (chunk msg i) = length msg - i * frag_max" using length_chunk [OF assms(1,3)] by simp
    moreover have "i * frag_max \<le> length msg" using frag_start_less [OF assms(1,3)] by simp
    ultimately show ?thesis
      using True unfolding last pred max by (simp add: of_nat_diff)
  next
    case False
    then show ?thesis using length_chunk [OF assms(1,3)] unfolding last max by simp
  qed
  have "length (chunk msg i) < 2 ^ 32" using length_chunk_le [of msg i] by (simp add: frag_max_eq)
  then have "word_of_nat (length (chunk msg i)) \<le> UDP_MAX_FRAG_PAYLOAD"
    using length_chunk_le [of msg i] by (simp add: word_le_nat_alt unat_of_nat_small frag_max_def)
  then show ?thesis
    using getFragmentCnt_eq [OF assms(1,2)] size by (simp add: Util_getFragmentPayloadSize_def Let_def)
qed

section \<open>Headers and packets\<close>

definition hdr_enc :: "inet_env \<Rightarrow> udp_frag_hdr \<Rightarrow> u8 list" where
  "hdr_enc inet h = htonl_mem (fragment_idx h) @ htonl_mem (fragment_cnt h) @ htonl_mem (msg_payload_size h)
     @ htonl_mem (msg_seqnum h) @ NetworkAddr_enc inet (source_addr h)"

lemma length_hdr_enc: "NetworkAddr_wf inet (source_addr h) \<Longrightarrow> length (hdr_enc inet h) = 22"
  by (simp add: hdr_enc_def length_NetworkAddr_enc)

lemma hdr_size_eq: "unat UDP_FRAGHDR_SIZE = 22" "UDP_FRAGHDR_SIZE = 22"
  by (simp_all add: UDP_FRAGHDR_SIZE_def)

lemma UdpFragHdr_serialize_enc:
  assumes "NetworkAddr_wf inet (source_addr h)" and "22 \<le> da_capacity a" and "da_bytes a = []"
  shows "UdpFragHdr_serialize inet h a = Inr (a\<lparr>da_bytes := hdr_enc inet h\<rparr>, 22)"
proof -
  have put: "DynamicArray_deserialize b p (htonl_mem x) 4 = Inr (da_put (unat p) (htonl_mem x) b)"
    if "da_capacity b = da_capacity a" "unat p \<le> 12" for b p x
    using that assms(2) by (intro deserialize_ok) auto
  have addr: "NetworkAddr_serialize inet (source_addr h) b 16 = Inr (da_put 16 (NetworkAddr_enc inet (source_addr h)) b, 6)"
    if "da_capacity b = da_capacity a" for b
    using that assms(1,2) addr_wire.ser_enc [OF assms(1), where p = 16 and a = b] length_NetworkAddr_enc [OF assms(1)]
    by simp
  have "da_put 0 (hdr_enc inet h) a = a\<lparr>da_bytes := hdr_enc inet h\<rparr>"
    using assms(3) by (simp add: da_put_def write_at_def grow_to_def resize_bytes_def)
  then show ?thesis
    using put addr by (simp add: UdpFragHdr_serialize_def hdr_enc_def da_put_put hdr_size_eq)
qed

lemma UdpFragHdr_deserialize_enc:
  assumes "NetworkAddr_wf inet (source_addr h)" and "da_holds a 0 (hdr_enc inet h)"
  shows "UdpFragHdr_deserialize inet a = Inr (h, 22)"
proof -
  have holds: "da_holds a 0 (htonl_mem (fragment_idx h))" "da_holds a 4 (htonl_mem (fragment_cnt h))"
      "da_holds a 8 (htonl_mem (msg_payload_size h))" "da_holds a 12 (htonl_mem (msg_seqnum h))"
      "da_holds a 16 (NetworkAddr_enc inet (source_addr h))"
    using assms(2) by (simp_all add: hdr_enc_def da_holds_append)
  have get: "DynamicArray_serialize a p 4 = Inr (htonl_mem x)" if "da_holds a (unat p) (htonl_mem x)" "unat p \<le> 12" for p x
    using that by (intro serialize_ok) auto
  have "NetworkAddr_deserialize inet NetworkAddr_invalid a 16 = Inr (source_addr h, 6)"
    using addr_wire.deser_enc [OF assms(1) TrueI, where p = 16 and a = a and y = NetworkAddr_invalid] holds(5)
      length_NetworkAddr_enc [OF assms(1)] by simp
  then show ?thesis
    using get [of 0] get [of 4] get [of 8] get [of 12] holds
    by (cases h) (simp add: UdpFragHdr_deserialize_def hdr_size_eq)
qed

text \<open>The packet of a fragment: its header and its bytes.\<close>

definition frag_hdr :: "u32 \<Rightarrow> network_addr \<Rightarrow> u8 list \<Rightarrow> nat \<Rightarrow> udp_frag_hdr" where
  "frag_hdr seqnum addr msg i = \<lparr>fragment_idx = word_of_nat i, fragment_cnt = word_of_nat (frag_count msg),
     msg_payload_size = word_of_nat (length msg), msg_seqnum = seqnum, source_addr = addr\<rparr>"

definition packet :: "inet_env \<Rightarrow> u32 \<Rightarrow> network_addr \<Rightarrow> u8 list \<Rightarrow> nat \<Rightarrow> u8 list" where
  "packet inet seqnum addr msg i = hdr_enc inet (frag_hdr seqnum addr msg i) @ chunk msg i"

lemma frag_hdr_sel [simp]:
  "fragment_idx (frag_hdr seqnum addr msg i) = word_of_nat i"
  "fragment_cnt (frag_hdr seqnum addr msg i) = word_of_nat (frag_count msg)"
  "msg_payload_size (frag_hdr seqnum addr msg i) = word_of_nat (length msg)"
  "msg_seqnum (frag_hdr seqnum addr msg i) = seqnum" "source_addr (frag_hdr seqnum addr msg i) = addr"
  by (simp_all add: frag_hdr_def)

lemma length_packet:
  assumes "NetworkAddr_wf inet addr"
  shows "length (packet inet seqnum addr msg i) = 22 + length (chunk msg i)"
    and "length (packet inet seqnum addr msg i) \<le> 65507"
  using assms length_chunk_le [of msg i] by (simp_all add: packet_def length_hdr_enc frag_max_eq)

lemma arraycpy_append:
  assumes "da_holds a (unat p) d" and "unat p + length d < 2 ^ 32" and "n = word_of_nat (length d)"
    and "unat q + length d \<le> da_capacity b" and "unat q + length d < 2 ^ 32"
  shows "DynamicArray_arraycpy a p b q n = Inr (da_put (unat q) d b)"
proof -
  have n: "unat n = length d" using assms by (simp add: unat_of_nat_small)
  have pn: "unat (p + n) = unat p + length d" using assms(2) n by (simp add: unat_add_no_wrap)
  have qn: "unat (q + n) = unat q + length d" using assms(5) n by (simp add: unat_add_no_wrap)
  have "take (length d) (drop (unat p) (da_bytes a)) = d" "length d \<le> length (da_bytes a) - unat p"
    using assms(1) by (auto simp: da_holds_def read_at_def)
  then show ?thesis
    using n pn qn assms(1,4)
    by (auto simp: DynamicArray_arraycpy_def DynamicArray_deserialize_def da_holds_def Let_def da_put_def)
qed

lemma make_packet_eq:
  assumes "NetworkAddr_wf inet addr" and "0 < length msg" and "length msg < 2 ^ 32" and "i < frag_count msg"
    and "da_bytes message_payload = msg"
  shows "make_packet inet seqnum addr message_payload (word_of_nat (length msg)) (word_of_nat (frag_count msg)) (word_of_nat i)
    = Inr \<lparr>da_bytes = packet inet seqnum addr msg i, da_capacity = 65507\<rparr>"
proof -
  let ?a = "DynamicArray_with_capacity UDP_MAX_PKT_PAYLOAD"
  have cap: "da_capacity ?a = 65507" "da_bytes ?a = []"
    by (simp_all add: DynamicArray_with_capacity_def DynamicArray_clear_def DynamicArray_new_def UDP_MAX_PKT_PAYLOAD_def)
  have hdr: "UdpFragHdr_serialize inet \<lparr>fragment_idx = word_of_nat i, fragment_cnt = word_of_nat (frag_count msg),
      msg_payload_size = word_of_nat (length msg), msg_seqnum = seqnum, source_addr = addr\<rparr> ?a
      = Inr (?a\<lparr>da_bytes := hdr_enc inet (frag_hdr seqnum addr msg i)\<rparr>, 22)"
    using UdpFragHdr_serialize_enc [of inet "frag_hdr seqnum addr msg i" ?a] assms(1) cap by (simp add: frag_hdr_def)
  note off = getFragmentOffset_eq [OF assms(2-4)]
  have holds: "da_holds message_payload (unat (Util_getFragmentOffset (word_of_nat i))) (chunk msg i)"
    unfolding off(2) using chunk_end [OF assms(2,4)] assms(5)
    by (auto simp: da_holds_def read_at_def chunk_def min_def)
  have len: "length (hdr_enc inet (frag_hdr seqnum addr msg i)) = 22" using assms(1) by (simp add: length_hdr_enc)
  have "DynamicArray_arraycpy message_payload (Util_getFragmentOffset (word_of_nat i))
      (?a\<lparr>da_bytes := hdr_enc inet (frag_hdr seqnum addr msg i)\<rparr>) 22 (word_of_nat (length (chunk msg i)))
      = Inr (da_put 22 (chunk msg i) (?a\<lparr>da_bytes := hdr_enc inet (frag_hdr seqnum addr msg i)\<rparr>))"
    using arraycpy_append [OF holds _ refl, of 22 "?a\<lparr>da_bytes := hdr_enc inet (frag_hdr seqnum addr msg i)\<rparr>"]
      chunk_end [OF assms(2,4)] assms(3) length_chunk_le [of msg i] cap off(2) by (simp add: frag_max_eq)
  moreover have "da_put 22 (chunk msg i) (?a\<lparr>da_bytes := hdr_enc inet (frag_hdr seqnum addr msg i)\<rparr>)
      = \<lparr>da_bytes = packet inet seqnum addr msg i, da_capacity = 65507\<rparr>"
    using len cap by (simp add: da_put_def write_at_def grow_to_def resize_bytes_def packet_def)
  ultimately show ?thesis
    using hdr getFragmentPayloadSize_eq [OF assms(2-4)] by (simp add: make_packet_def)
qed

lemma send_loop_eq:
  "\<forall>i < j + n. j \<le> i \<longrightarrow> mk (word_of_nat i) = Inr (f i) \<Longrightarrow> send_loop mk j n = Inr (map f [j ..< j + n])"
proof (induction n arbitrary: j)
  case (Suc n)
  have "send_loop mk (Suc j) n = Inr (map f [Suc j ..< Suc j + n])"
    using Suc.prems by (intro Suc.IH) simp
  moreover have "[j ..< j + Suc n] = j # [Suc j ..< Suc j + n]"
    by (simp add: upt_conv_Cons)
  ultimately show ?case using Suc.prems by simp
qed simp

lemma send_eq:
  assumes "NetworkAddr_wf inet addr" and "0 < length msg" and "length msg < 2 ^ 32"
    and "is_valid remote_addr" and "ipstr remote_addr \<noteq> any_ipstr"
    and "message_serialize (DynamicArray_with_capacity (word_of_nat (length msg)))
      = Inr (message_payload, word_of_nat (length msg))" and "da_bytes message_payload = msg"
  shows "UdpMsgSocketClient_send inet any_ipstr seqnum addr (word_of_nat (length msg)) message_serialize remote_addr
    = Inr (seqnum + 1, map (\<lambda>i. \<lparr>da_bytes = packet inet seqnum addr msg i, da_capacity = 65507\<rparr>) [0 ..< frag_count msg])"
proof -
  have n: "unat (word_of_nat (frag_count msg) :: u32) = frag_count msg"
    using frag_count_less [OF assms(2,3)] by (simp add: unat_of_nat_small)
  have "send_loop (make_packet inet seqnum addr message_payload (word_of_nat (length msg)) (word_of_nat (frag_count msg)))
      0 (frag_count msg)
      = Inr (map (\<lambda>i. \<lparr>da_bytes = packet inet seqnum addr msg i, da_capacity = 65507\<rparr>) [0 ..< 0 + frag_count msg])"
    using make_packet_eq [OF assms(1-3) _ assms(7)] by (intro send_loop_eq) simp
  then show ?thesis
    using assms(4-6) getFragmentCnt_eq [OF assms(2,3)] n by (simp add: UdpMsgSocketClient_send_def)
qed

section \<open>Storing fragments\<close>

definition frag_pair :: "u8 list \<Rightarrow> nat \<Rightarrow> u32 \<times> dynamic_array" where
  "frag_pair msg i = (word_of_nat i, \<lparr>da_bytes = chunk msg i, da_capacity = frag_max\<rparr>)"

text \<open>The entry after the fragments \<open>xs\<close> have been received.\<close>

definition frag_entry :: "u32 \<Rightarrow> u8 list \<Rightarrow> nat list \<Rightarrow> msg_frag_stats_entry" where
  "frag_entry seqnum msg xs = \<lparr>fragidx_fragpayload_map = map (frag_pair msg) xs,
     fragcnt = word_of_nat (frag_count msg), entry_seqnum = seqnum\<rparr>"

definition pkt_of :: "inet_env \<Rightarrow> u32 \<Rightarrow> network_addr \<Rightarrow> u8 list \<Rightarrow> nat \<Rightarrow> dynamic_array" where
  "pkt_of inet seqnum addr msg i = \<lparr>da_bytes = packet inet seqnum addr msg i, da_capacity = 65507\<rparr>"

lemma insort_frags:
  assumes "i < 2 ^ 32" and "\<forall>j \<in> set xs. j < 2 ^ 32"
  shows "insort_key fst (frag_pair msg i) (map (frag_pair msg) xs) = map (frag_pair msg) (insort i xs)"
  using assms(2)
proof (induction xs)
  case (Cons j xs)
  then have "(word_of_nat i :: u32) \<le> word_of_nat j \<longleftrightarrow> i \<le> j"
    using assms(1) by (simp add: word_le_nat_alt unat_of_nat_small)
  then show ?case using Cons by (simp add: frag_pair_def)
qed simp

lemma frag_absent:
  assumes "i < 2 ^ 32" and "\<forall>j \<in> set xs. j < 2 ^ 32"
  shows "map_of (map (frag_pair msg) xs) (word_of_nat i) = None \<longleftrightarrow> i \<notin> set xs"
proof -
  have keys: "fst ` set (map (frag_pair msg) xs) = word_of_nat ` set xs"
    by (simp add: image_image frag_pair_def)
  have "(word_of_nat i :: u32) = word_of_nat j \<longleftrightarrow> i = j" if "j \<in> set xs" for j
    using assms that by (intro word_of_nat_inj_iff) auto
  then have "(word_of_nat i :: u32) \<in> word_of_nat ` set xs \<longleftrightarrow> i \<in> set xs" by blast
  then show ?thesis unfolding map_of_eq_None_iff keys by simp
qed

lemma pkt_of_holds:
  assumes "NetworkAddr_wf inet addr"
  shows "da_holds (pkt_of inet seqnum addr msg i) 0 (hdr_enc inet (frag_hdr seqnum addr msg i))"
    and "da_holds (pkt_of inet seqnum addr msg i) 22 (chunk msg i)"
    and "DynamicArray_getSize (pkt_of inet seqnum addr msg i) = word_of_nat (22 + length (chunk msg i))"
    and "DynamicArray_getSize (pkt_of inet seqnum addr msg i) - 22 = word_of_nat (length (chunk msg i))"
  using assms length_packet [OF assms, of seqnum msg i]
  by (simp_all add: pkt_of_def da_holds_def read_at_def packet_def length_hdr_enc DynamicArray_getSize_def)

lemma store_frag_eq:
  assumes "NetworkAddr_wf inet addr"
  shows "store_frag e (word_of_nat i) (pkt_of inet seqnum addr msg i)
    = Inr (e\<lparr>fragidx_fragpayload_map := insort_key fst (frag_pair msg i) (fragidx_fragpayload_map e)\<rparr>)"
proof -
  let ?b = "DynamicArray_clear UDP_MAX_FRAG_PAYLOAD DynamicArray_new"
  have b: "?b = \<lparr>da_bytes = [], da_capacity = frag_max\<rparr>"
    by (simp add: DynamicArray_clear_def DynamicArray_new_def frag_max_def)
  have "DynamicArray_arraycpy (pkt_of inet seqnum addr msg i) UDP_FRAGHDR_SIZE ?b 0
      (DynamicArray_getSize (pkt_of inet seqnum addr msg i) - UDP_FRAGHDR_SIZE)
      = Inr (?b\<lparr>da_bytes := chunk msg i\<rparr>)"
    unfolding hdr_size_eq(2) pkt_of_holds(4) [OF assms]
    using pkt_of_holds(2) [OF assms, of seqnum msg i] length_chunk_le [of msg i]
    by (intro arraycpy_ok) (simp_all add: b frag_max_eq)
  then show ?thesis by (simp add: store_frag_def b frag_pair_def)
qed

text \<open>An entry that does not keep a new message from being stored: none, or one of an older message.\<close>

definition outdated :: "msg_frag_stats \<Rightarrow> network_addr \<Rightarrow> u32 \<Rightarrow> bool" where
  "outdated st addr seqnum \<longleftrightarrow> (\<forall>e. map_of st (addr_key addr) = Some e \<longrightarrow> entry_seqnum e < seqnum)"

lemma insertFrag_first:
  assumes "NetworkAddr_wf inet addr" and "fragidx_fragpayload_map e = [] \<or> entry_seqnum e < seqnum"
  shows "MsgFragStatsEntry_insertFrag e (frag_hdr seqnum addr msg i) (pkt_of inet seqnum addr msg i)
    = Inr (frag_entry seqnum msg [i])"
  using assms by (auto simp: MsgFragStatsEntry_insertFrag_def Let_def store_frag_eq frag_entry_def)

lemma insertFrag_next:
  assumes "NetworkAddr_wf inet addr" and "xs \<noteq> []" and "i \<notin> set xs" and "i < 2 ^ 32" and "\<forall>j \<in> set xs. j < 2 ^ 32"
  shows "MsgFragStatsEntry_insertFrag (frag_entry seqnum msg xs) (frag_hdr seqnum addr msg i) (pkt_of inet seqnum addr msg i)
    = Inr (frag_entry seqnum msg (insort i xs))"
  using assms frag_absent [OF assms(4,5), of msg]
  by (simp add: MsgFragStatsEntry_insertFrag_def Let_def store_frag_eq insort_frags frag_entry_def)

lemma isLastFrag_iff:
  assumes "i < frag_count msg" and "i \<notin> set xs" and "\<forall>j \<in> set xs. j < frag_count msg" and "frag_count msg < 2 ^ 32"
  shows "MsgFragStatsEntry_isLastFrag (frag_entry seqnum msg xs) (frag_hdr seqnum addr msg i)
    \<longleftrightarrow> length xs = frag_count msg - 1"
proof -
  have "word_of_nat (frag_count msg) - 1 = (word_of_nat (frag_count msg - 1) :: u32)"
    using assms(1) by (simp add: of_nat_diff)
  then have "unat (word_of_nat (frag_count msg) - 1 :: u32) = frag_count msg - 1"
    using assms(4) by (simp add: unat_of_nat_small)
  moreover have "map_of (map (frag_pair msg) xs) (word_of_nat i) = None"
    using assms by (subst frag_absent) auto
  ultimately show ?thesis
    by (simp add: MsgFragStatsEntry_isLastFrag_def frag_entry_def)
qed

section \<open>The table of incomplete messages\<close>

lemma deserialize_pkt:
  assumes "NetworkAddr_wf inet addr"
  shows "UdpFragHdr_deserialize inet (pkt_of inet seqnum addr msg i) = Inr (frag_hdr seqnum addr msg i, 22)"
  using assms pkt_of_holds(1) [OF assms] by (intro UdpFragHdr_deserialize_enc) simp_all

definition pending :: "msg_frag_stats \<Rightarrow> network_addr \<Rightarrow> u32 \<Rightarrow> u8 list \<Rightarrow> nat list \<Rightarrow> bool" where
  "pending st addr seqnum msg xs \<longleftrightarrow>
     (if xs = [] then outdated st addr seqnum
      else map_of st (addr_key addr) = Some (frag_entry seqnum msg xs))"

lemma frag_count_not_one:
  assumes "1 < frag_count msg" and "frag_count msg < 2 ^ 32"
  shows "(word_of_nat (frag_count msg) :: u32) \<noteq> 1" "1 < (word_of_nat (frag_count msg) :: u32)"
proof -
  have "unat (word_of_nat (frag_count msg) :: u32) = frag_count msg" using assms(2) by (simp add: unat_of_nat_small)
  then show "1 < (word_of_nat (frag_count msg) :: u32)" using assms(1) by (simp add: word_less_nat_alt)
  then show "(word_of_nat (frag_count msg) :: u32) \<noteq> 1" by auto
qed

lemma insertEntry_single:
  assumes "NetworkAddr_wf inet addr" and "frag_count msg = 1"
  shows "MsgFragStats_insertEntry inet st addr (pkt_of inet seqnum addr msg i) = Inr (st, True)"
  using assms by (simp add: MsgFragStats_insertEntry_def deserialize_pkt NetworkAddr_wf_def)

lemma insertEntry_more:
  assumes "NetworkAddr_wf inet addr" and "pending st addr seqnum msg xs" and "i < frag_count msg" and "i \<notin> set xs"
    and "\<forall>j \<in> set xs. j < frag_count msg" and "frag_count msg < 2 ^ 32" and "Suc (length xs) < frag_count msg"
  obtains st' where "MsgFragStats_insertEntry inet st addr (pkt_of inet seqnum addr msg i) = Inr (st', False)"
    and "map_of st' = (map_of st)(addr_key addr \<mapsto> frag_entry seqnum msg (insort i xs))"
proof -
  have one: "(word_of_nat (frag_count msg) :: u32) \<noteq> 1" using assms(6,7) by (intro frag_count_not_one) simp_all
  have valid: "is_valid addr" using assms(1) by (simp add: NetworkAddr_wf_def)
  let ?st = "um_put (addr_key addr) (frag_entry seqnum msg (insort i xs)) st"
  have "MsgFragStats_insertEntry inet st addr (pkt_of inet seqnum addr msg i) = Inr (?st, False)"
  proof (cases "xs = []")
    case False
    have bnd: "i < 2 ^ 32" "\<forall>j \<in> set xs. j < 2 ^ 32" using assms(3,5,6) by auto
    have "\<not> MsgFragStatsEntry_isLastFrag (frag_entry seqnum msg xs) (frag_hdr seqnum addr msg i)"
      using isLastFrag_iff [OF assms(3,4,5,6)] assms(7) by simp
    then show ?thesis
      using False assms(2) one valid insertFrag_next [OF assms(1) False assms(4) bnd]
      by (simp add: MsgFragStats_insertEntry_def deserialize_pkt [OF assms(1)] pending_def)
  next
    case True
    show ?thesis
    proof (cases "map_of st (addr_key addr)")
      case None
      then show ?thesis
        using True one valid insertFrag_first [OF assms(1), of MsgFragStatsEntry_new]
        by (simp add: MsgFragStats_insertEntry_def deserialize_pkt [OF assms(1)] MsgFragStatsEntry_new_def)
    next
      case (Some e)
      then have old: "entry_seqnum e < seqnum" using assms(2) True by (simp add: pending_def outdated_def)
      then have "\<not> MsgFragStatsEntry_isLastFrag e (frag_hdr seqnum addr msg i)"
        by (auto simp: MsgFragStatsEntry_isLastFrag_def)
      then show ?thesis
        using True Some one valid old insertFrag_first [OF assms(1), of e]
        by (simp add: MsgFragStats_insertEntry_def deserialize_pkt [OF assms(1)])
    qed
  qed
  then show ?thesis by (rule that) simp
qed

lemma insertEntry_last:
  assumes "NetworkAddr_wf inet addr" and "pending st addr seqnum msg xs" and "i < frag_count msg" and "i \<notin> set xs"
    and "\<forall>j \<in> set xs. j < frag_count msg" and "frag_count msg < 2 ^ 32" and "Suc (length xs) = frag_count msg"
    and "xs \<noteq> []"
  shows "MsgFragStats_insertEntry inet st addr (pkt_of inet seqnum addr msg i) = Inr (st, True)"
proof -
  have "MsgFragStatsEntry_isLastFrag (frag_entry seqnum msg xs) (frag_hdr seqnum addr msg i)"
    using isLastFrag_iff [OF assms(3,4,5,6)] assms(7) by simp
  then show ?thesis
    using assms(1,2,8) by (simp add: MsgFragStats_insertEntry_def deserialize_pkt NetworkAddr_wf_def pending_def)
qed

section \<open>The reassembled buffer\<close>

definition holds_frags :: "dynamic_array \<Rightarrow> u8 list \<Rightarrow> nat set \<Rightarrow> bool" where
  "holds_frags b msg S \<longleftrightarrow> length (da_bytes b) \<le> length msg \<and> (\<forall>i \<in> S. da_holds b (i * frag_max) (chunk msg i))"

lemma holds_frags_put:
  assumes "holds_frags b msg S" and "0 < length msg" and "i < frag_count msg"
  shows "holds_frags (da_put (i * frag_max) (chunk msg i) b) msg (insert i S)"
proof -
  have "da_holds (da_put (i * frag_max) (chunk msg i) b) (j * frag_max) (chunk msg j)" if "j \<in> S" for j
  proof (cases i j rule: linorder_cases)
    case less
    then have "Suc i * frag_max \<le> j * frag_max" by (intro mult_le_mono1) simp
    then have "i * frag_max + length (chunk msg i) \<le> j * frag_max" using length_chunk_le [of msg i] by simp
    then show ?thesis using assms(1) that by (intro da_holds_put_before) (auto simp: holds_frags_def)
  next
    case greater
    then have "Suc j * frag_max \<le> i * frag_max" by (intro mult_le_mono1) simp
    then have "j * frag_max + length (chunk msg j) \<le> i * frag_max" using length_chunk_le [of msg j] by simp
    then show ?thesis using assms(1) that by (intro da_holds_put_after) (auto simp: holds_frags_def)
  qed simp
  then show ?thesis
    using assms(1) chunk_end [OF assms(2,3)] by (simp add: holds_frags_def)
qed

lemma holds_all_frags:
  assumes "holds_frags b msg {..<frag_count msg}" and "0 < length msg"
  shows "da_bytes b = msg"
proof (rule nth_equalityI)
  let ?l = "frag_count msg - 1"
  have l: "?l < frag_count msg" by (simp add: frag_count_def)
  have "da_holds b (?l * frag_max) (chunk msg ?l)" using assms(1) l unfolding holds_frags_def by blast
  then have "?l * frag_max + length (chunk msg ?l) \<le> length (da_bytes b)" by (simp add: da_holds_def)
  then show len: "length (da_bytes b) = length msg"
    using assms(1) length_chunk [OF assms(2) l] frag_start_less [OF assms(2) l] by (simp add: holds_frags_def)
  fix k assume "k < length (da_bytes b)"
  then have k: "k < length msg" using len by simp
  let ?i = "k div frag_max" and ?j = "k mod frag_max"
  have "?i \<le> (length msg - 1) div frag_max" using k by (intro div_le_mono) simp
  then have i: "?i < frag_count msg" by (simp add: frag_count_def)
  have ij: "?i * frag_max + ?j = k" by (rule div_mult_mod_eq)
  have "?j < frag_max" by simp
  then have j: "?j < length (chunk msg ?i)" 
    using k ij unfolding chunk_def length_take length_drop by linarith
  have "da_holds b (?i * frag_max) (chunk msg ?i)" using assms(1) i unfolding holds_frags_def by blast
  then have eq: "read_at (?i * frag_max) (length (chunk msg ?i)) (da_bytes b) = chunk msg ?i"
    and le: "?i * frag_max + length (chunk msg ?i) \<le> length (da_bytes b)" by (simp_all add: da_holds_def)
  have "read_at (?i * frag_max) (length (chunk msg ?i)) (da_bytes b) ! ?j = da_bytes b ! (?i * frag_max + ?j)"
    using j le unfolding read_at_def by (subst nth_take, simp) (subst nth_drop, simp_all)
  then show "da_bytes b ! k = msg ! k" using eq chunk_in_msg [OF j] ij by simp
qed

lemma copy_frag:
  assumes "0 < length msg" and "length msg < 2 ^ 32" and "i < frag_count msg"
    and "da_holds a (unat p) (chunk msg i)" and "unat p + length (chunk msg i) < 2 ^ 32" and "length msg \<le> da_capacity b"
  shows "DynamicArray_arraycpy a p b (Util_getFragmentOffset (word_of_nat i)) (word_of_nat (length (chunk msg i)))
    = Inr (da_put (i * frag_max) (chunk msg i) b)"
  using arraycpy_append [OF assms(4,5) refl, of "Util_getFragmentOffset (word_of_nat i)" b]
    getFragmentOffset_eq(2) [OF assms(1-3)] chunk_end [OF assms(1,3)] assms(2,6) by simp

lemma copy_frags_eq:
  assumes "0 < length msg" and "length msg < 2 ^ 32" and "\<forall>i \<in> set xs. i < frag_count msg"
    and "length msg \<le> da_capacity b" and "holds_frags b msg S"
  obtains b' where "copy_frags (map (frag_pair msg) xs) (word_of_nat (length msg)) b = Inr b'"
    and "holds_frags b' msg (set xs \<union> S)" and "da_capacity b' = da_capacity b"
  using assms(3-5)
proof (induction xs arbitrary: b S thesis)
  case Nil
  show ?case by (rule Nil.prems(1)) (use Nil.prems in simp_all)
next
  case (Cons i xs)
  let ?b = "da_put (i * frag_max) (chunk msg i) b"
  have i: "i < frag_count msg" using Cons.prems(2) by simp
  have "da_holds \<lparr>da_bytes = chunk msg i, da_capacity = frag_max\<rparr> (unat (0 :: u32)) (chunk msg i)"
    by (simp add: da_holds_def read_at_def)
  then have "DynamicArray_arraycpy \<lparr>da_bytes = chunk msg i, da_capacity = frag_max\<rparr> 0 b (Util_getFragmentOffset (word_of_nat i))
      (word_of_nat (length (chunk msg i))) = Inr ?b"
    using length_chunk_le [of msg i] Cons.prems(3)
    by (intro copy_frag [OF assms(1,2) i]) (simp_all add: frag_max_eq)
  then have step: "copy_frags (map (frag_pair msg) (i # xs)) (word_of_nat (length msg)) b
      = copy_frags (map (frag_pair msg) xs) (word_of_nat (length msg)) ?b"
    using getFragmentPayloadSize_eq [OF assms(1,2) i] by (simp add: frag_pair_def)
  obtain b' where b': "copy_frags (map (frag_pair msg) xs) (word_of_nat (length msg)) ?b = Inr b'"
    "holds_frags b' msg (set xs \<union> insert i S)" "da_capacity b' = da_capacity ?b"
    by (rule Cons.IH [of ?b "insert i S"]) (use Cons.prems holds_frags_put [OF Cons.prems(4) assms(1) i] in auto)
  show ?case
    by (rule Cons.prems(1) [of b']) (use step b' in simp_all)
qed

section \<open>Receiving a message\<close>

definition event_of :: "inet_env \<Rightarrow> u32 \<Rightarrow> network_addr \<Rightarrow> u8 list \<Rightarrow> nat \<Rightarrow> recv_event" where
  "event_of inet seqnum addr msg i = RecvPacket (packet inet seqnum addr msg i)"

lemma udpRecvfrom_event:
  assumes "NetworkAddr_wf inet addr"
  shows "UdpPktSocket_udpRecvfrom (event_of inet seqnum addr msg i) (DynamicArray_with_capacity UDP_MAX_PKT_PAYLOAD)
    = Inr (pkt_of inet seqnum addr msg i, False)"
proof -
  let ?a = "DynamicArray_with_capacity UDP_MAX_PKT_PAYLOAD" and ?p = "packet inet seqnum addr msg i"
  have a: "?a = \<lparr>da_bytes = [], da_capacity = 65507\<rparr>"
    by (simp add: DynamicArray_with_capacity_def DynamicArray_clear_def DynamicArray_new_def UDP_MAX_PKT_PAYLOAD_def)
  have le: "length ?p \<le> 65507" by (rule length_packet(2) [OF assms])
  then have "DynamicArray_deserialize ?a 0 ?p (word_of_nat (length ?p)) = Inr (da_put (unat (0 :: u32)) ?p ?a)"
    by (intro deserialize_ok) (simp_all add: a)
  moreover have "da_put 0 ?p ?a = pkt_of inet seqnum addr msg i"
    by (simp add: a pkt_of_def da_put_def write_at_def grow_to_def resize_bytes_def)
  moreover have "take (unat UDP_MAX_PKT_PAYLOAD) ?p = ?p" using le by (simp add: UDP_MAX_PKT_PAYLOAD_def)
  ultimately show ?thesis
    by (simp add: UdpPktSocket_udpRecvfrom_def event_of_def)
qed

text \<open>One turn of the receive loop on a packet of the message.\<close>

lemma recv_event:
  assumes "NetworkAddr_wf inet addr" and "UDP_MIN_PORT < port addr"
  shows "UdpMsgSocketServer_recv inet st (event_of inet seqnum addr msg i # evs) buf =
    bindE (MsgFragStats_insertEntry inet st addr (pkt_of inet seqnum addr msg i)) (\<lambda>(st, is_last_frag).
    if is_last_frag
    then bindE (assemble st (frag_hdr seqnum addr msg i) (pkt_of inet seqnum addr msg i) buf)
       (\<lambda>(st, msg_payload). Inr (st, evs, False, msg_payload))
    else UdpMsgSocketServer_recv inet st evs buf)"
proof -
  have "unat (word_of_nat (22 + length (chunk msg i)) :: u32) = 22 + length (chunk msg i)"
    using length_chunk_le [of msg i] by (intro unat_of_nat_small) (simp add: frag_max_eq)
  then have "\<not> DynamicArray_getSize (pkt_of inet seqnum addr msg i) < UdpFragHdr_staticGetudpFragHdrPayloadSize"
    unfolding pkt_of_holds(3) [OF assms(1)] word_less_nat_alt
    by (simp add: UdpFragHdr_staticGetudpFragHdrPayloadSize_def NetworkAddr_getAddrPayloadSize_def)
  moreover have "\<not> port addr \<le> UDP_MIN_PORT" using assms(2) by simp
  ultimately show ?thesis
    by (simp add: udpRecvfrom_event [OF assms(1)] deserialize_pkt [OF assms(1)])
qed

lemma recv_packet:
  assumes "NetworkAddr_wf inet addr" and "UDP_MIN_PORT < port addr"
    and "MsgFragStats_insertEntry inet st addr (pkt_of inet seqnum addr msg i) = Inr (st', fin)"
  shows "UdpMsgSocketServer_recv inet st (event_of inet seqnum addr msg i # evs) buf =
    (if fin then bindE (assemble st' (frag_hdr seqnum addr msg i) (pkt_of inet seqnum addr msg i) buf)
       (\<lambda>(st, msg_payload). Inr (st, evs, False, msg_payload))
     else UdpMsgSocketServer_recv inet st' evs buf)"
  unfolding recv_event [OF assms(1,2)] assms(3) by simp

lemma recv_packet_aborts:
  assumes "NetworkAddr_wf inet addr" and "UDP_MIN_PORT < port addr"
    and "MsgFragStats_insertEntry inet st addr (pkt_of inet seqnum addr msg i) = Inl x"
  shows "UdpMsgSocketServer_recv inet st (event_of inet seqnum addr msg i # evs) buf = Inl x"
  unfolding recv_event [OF assms(1,2)] assms(3) by simp

lemma clear_empty:
  assumes "length msg < 2 ^ 32"
  shows "holds_frags (DynamicArray_clear (word_of_nat (length msg)) buf) msg {}"
    and "length msg \<le> da_capacity (DynamicArray_clear (word_of_nat (length msg)) buf)"
  using assms by (simp_all add: holds_frags_def DynamicArray_clear_def unat_of_nat_small)

text \<open>The last step of the assembly: the current packet is copied behind the stored fragments.\<close>

lemma copy_current:
  assumes "NetworkAddr_wf inet addr" and "0 < length msg" and "length msg < 2 ^ 32" and "i < frag_count msg"
    and "length msg \<le> da_capacity b" and "holds_frags b msg S" and "insert i S = {..<frag_count msg}"
  obtains b' where "DynamicArray_arraycpy (pkt_of inet seqnum addr msg i) UDP_FRAGHDR_SIZE b
      (Util_getFragmentOffset (word_of_nat i)) (word_of_nat (length (chunk msg i))) = Inr b'"
    and "da_bytes b' = msg"
proof (rule that)
  show "DynamicArray_arraycpy (pkt_of inet seqnum addr msg i) UDP_FRAGHDR_SIZE b
      (Util_getFragmentOffset (word_of_nat i)) (word_of_nat (length (chunk msg i)))
      = Inr (da_put (i * frag_max) (chunk msg i) b)"
    using pkt_of_holds(2) [OF assms(1), of seqnum msg i] length_chunk_le [of msg i]
    by (intro copy_frag [OF assms(2-4) _ _ assms(5)]) (simp_all add: hdr_size_eq frag_max_eq)
  have "holds_frags (da_put (i * frag_max) (chunk msg i) b) msg {..<frag_count msg}"
    using holds_frags_put [OF assms(6,2,4)] assms(7) by simp
  then show "da_bytes (da_put (i * frag_max) (chunk msg i) b) = msg"
    by (rule holds_all_frags) (rule assms(2))
qed

lemma current_size:
  assumes "NetworkAddr_wf inet addr"
  shows "word_of_nat (length (chunk msg i)) =
    DynamicArray_getSize (pkt_of inet seqnum addr msg i) - UdpFragHdr_getudpFragHdrPayloadSize (frag_hdr seqnum addr msg i)"
  using pkt_of_holds(4) [OF assms, of seqnum msg i]
  by (simp add: UdpFragHdr_getudpFragHdrPayloadSize_def NetworkAddr_getAddrPayloadSize_def)

lemma assemble_single:
  assumes "NetworkAddr_wf inet addr" and "0 < length msg" and "length msg < 2 ^ 32" and "frag_count msg = 1"
  obtains b where "assemble st (frag_hdr seqnum addr msg 0) (pkt_of inet seqnum addr msg 0) buf = Inr (st, b)"
    and "da_bytes b = msg"
proof -
  have i: "0 < frag_count msg" and all: "insert 0 {} = {..<frag_count msg}" using assms(4) by auto
  obtain b where b: "DynamicArray_arraycpy (pkt_of inet seqnum addr msg 0) UDP_FRAGHDR_SIZE
      (DynamicArray_clear (word_of_nat (length msg)) buf)
      (Util_getFragmentOffset (word_of_nat 0)) (word_of_nat (length (chunk msg 0))) = Inr b" "da_bytes b = msg"
    by (rule copy_current [OF assms(1-3) i clear_empty(2,1) [OF assms(3), of buf] all])
  show ?thesis
    by (rule that [OF _ b(2)])
      (use b(1) assms(4) getFragmentPayloadSize_eq [OF assms(2,3) i] current_size [OF assms(1), of msg 0 seqnum]
       in \<open>simp add: assemble_def\<close>)
qed

lemma assemble_last:
  assumes "NetworkAddr_wf inet addr" and "0 < length msg" and "length msg < 2 ^ 32" and "i < frag_count msg"
    and "1 < frag_count msg" and "map_of st (addr_key addr) = Some (frag_entry seqnum msg xs)"
    and "insert i (set xs) = {..<frag_count msg}"
  obtains b where "assemble st (frag_hdr seqnum addr msg i) (pkt_of inet seqnum addr msg i) buf
      = Inr (um_erase (addr_key addr) st, b)" and "da_bytes b = msg"
proof -
  have one: "1 < (word_of_nat (frag_count msg) :: u32)"
    by (rule frag_count_not_one(2) [OF assms(5) frag_count_less [OF assms(2,3)]])
  have xs: "\<forall>j \<in> set xs. j < frag_count msg" using assms(7) by blast
  let ?c = "DynamicArray_clear (word_of_nat (length msg)) buf"
  obtain c where c: "copy_frags (map (frag_pair msg) xs) (word_of_nat (length msg)) ?c = Inr c"
    "holds_frags c msg (set xs \<union> {})" "da_capacity c = da_capacity ?c"
    by (rule copy_frags_eq [OF assms(2,3) xs clear_empty(2,1) [OF assms(3), of buf]])
  have cap: "length msg \<le> da_capacity c" unfolding c(3) by (rule clear_empty(2) [OF assms(3)])
  have all: "insert i (set xs \<union> {}) = {..<frag_count msg}" using assms(7) by simp
  obtain b where b: "DynamicArray_arraycpy (pkt_of inet seqnum addr msg i) UDP_FRAGHDR_SIZE c
      (Util_getFragmentOffset (word_of_nat i)) (word_of_nat (length (chunk msg i))) = Inr b" "da_bytes b = msg"
    by (rule copy_current [OF assms(1-4) cap c(2) all])
  have entry: "MsgFragStats_getEntry st addr = Inr (Some (frag_entry seqnum msg xs))"
    using assms(1,6) by (simp add: MsgFragStats_getEntry_def NetworkAddr_wf_def)
  show ?thesis
    by (rule that [OF _ b(2)])
      (use b(1) c(1) one entry getFragmentPayloadSize_eq [OF assms(2-4)] current_size [OF assms(1), of msg i seqnum]
       in \<open>simp add: assemble_def frag_entry_def MsgFragStats_removeEntry_def\<close>)
qed

lemma recv_fragments:
  assumes "NetworkAddr_wf inet addr" and "UDP_MIN_PORT < port addr" and "0 < length msg" and "length msg < 2 ^ 32"
    and "1 < frag_count msg"
    and "pending st addr seqnum msg xs" and "distinct (xs @ ys)" and "set (xs @ ys) = {..<frag_count msg}" and "ys \<noteq> []"
  shows "\<exists>st' b. UdpMsgSocketServer_recv inet st (map (event_of inet seqnum addr msg) ys @ rest) buf = Inr (st', rest, False, b)
    \<and> da_bytes b = msg \<and> map_of st' = (map_of st)(addr_key addr := None)"
  using assms(6-9)
proof (induction ys arbitrary: st xs)
  case (Cons i ys)
  have n: "frag_count msg < 2 ^ 32" by (rule frag_count_less [OF assms(3,4)])
  have i: "i < frag_count msg" "i \<notin> set xs" and xs: "\<forall>j \<in> set xs. j < frag_count msg"
    using Cons.prems(2,3) by auto
  have len: "length xs + length (i # ys) = frag_count msg"
    using distinct_card [OF Cons.prems(2)] Cons.prems(3) by simp
  show ?case
  proof (cases "ys = []")
    case True
    then have l: "Suc (length xs) = frag_count msg" and ne: "xs \<noteq> []" using len assms(5) by auto
    have all: "insert i (set xs) = {..<frag_count msg}" using Cons.prems(3) True by simp
    have e: "map_of st (addr_key addr) = Some (frag_entry seqnum msg xs)" using Cons.prems(1) ne by (simp add: pending_def)
    obtain b where b: "assemble st (frag_hdr seqnum addr msg i) (pkt_of inet seqnum addr msg i) buf
        = Inr (um_erase (addr_key addr) st, b)" "da_bytes b = msg"
      by (rule assemble_last [OF assms(1,3,4) i(1) assms(5) e all])
    show ?thesis
      using True b recv_packet [OF assms(1,2) insertEntry_last [OF assms(1) Cons.prems(1) i xs n l ne]]
      by (simp add: fun_eq_iff)
  next
    case False
    then have l: "Suc (length xs) < frag_count msg" using len by (cases ys) auto
    obtain st' where st': "MsgFragStats_insertEntry inet st addr (pkt_of inet seqnum addr msg i) = Inr (st', False)"
      "map_of st' = (map_of st)(addr_key addr \<mapsto> frag_entry seqnum msg (insort i xs))"
      by (rule insertEntry_more [OF assms(1) Cons.prems(1) i xs n l])
    have upd: "(map_of st')(addr_key addr := None) = (map_of st)(addr_key addr := None)"
      unfolding st'(2) by (rule fun_upd_upd)
    have "\<exists>st'' b. UdpMsgSocketServer_recv inet st' (map (event_of inet seqnum addr msg) ys @ rest) buf = Inr (st'', rest, False, b)
        \<and> da_bytes b = msg \<and> map_of st'' = (map_of st')(addr_key addr := None)"
      by (rule Cons.IH [of st' "insort i xs"])
        (use False st'(2) Cons.prems(2,3) in \<open>auto simp: pending_def distinct_insort set_insort_key\<close>)
    then show ?thesis
      unfolding upd list.map append_Cons recv_packet [OF assms(1,2) st'(1)] if_False .
  qed
qed simp

lemma map_permuted:
  assumes "mset zs = mset (map f ys)"
  obtains xs where "zs = map f xs" and "mset xs = mset ys"
  using assms
proof (induction zs arbitrary: ys thesis)
  case Nil
  show ?case by (rule Nil.prems(1) [of "[]"]) (use Nil.prems(2) in simp_all)
next
  case (Cons z zs)
  have "z \<in> set (map f ys)" unfolding mset_eq_setD [OF Cons.prems(2), symmetric] by simp
  then obtain y where y: "y \<in> set ys" "z = f y" by auto
  then have ys: "mset ys = mset (y # remove1 y ys)" by simp
  have "mset (map f ys) = mset (map f (y # remove1 y ys))" unfolding mset_map using ys by (rule arg_cong)
  then have "mset zs = mset (map f (remove1 y ys))" using Cons.prems(2) y(2) by simp
  then obtain xs where xs: "zs = map f xs" "mset xs = mset (remove1 y ys)" by (rule Cons.IH [rotated])
  show ?case
  proof (rule Cons.prems(1))
    show "z # zs = map f (y # xs)" using xs(1) y(2) by simp
    have "mset (y # xs) = mset (y # remove1 y ys)" using xs(2) by simp
    also have "\<dots> = mset ys" by (rule ys [symmetric])
    finally show "mset (y # xs) = mset ys" .
  qed
qed

lemma packets_rebuild_message:
  assumes "NetworkAddr_wf inet addr" and "UDP_MIN_PORT < port addr"
    and "is_valid remote_addr" and "ipstr remote_addr \<noteq> any_ipstr"
    and "0 < length msg" and "length msg < 2 ^ 32"
    and "message_serialize (DynamicArray_with_capacity (word_of_nat (length msg)))
      = Inr (message_payload, word_of_nat (length msg))" and "da_bytes message_payload = msg"
    and "outdated st addr seqnum"
  shows "\<exists>pkts. UdpMsgSocketClient_send inet any_ipstr seqnum addr (word_of_nat (length msg)) message_serialize remote_addr
        = Inr (seqnum + 1, pkts)
      \<and> (\<forall>evs rest. mset evs = mset (map (RecvPacket \<circ> da_bytes) pkts) \<longrightarrow>
          (\<exists>st' b. UdpMsgSocketServer_recv inet st (evs @ rest) buf = Inr (st', rest, False, b)
             \<and> da_bytes b = msg \<and> outdated st' addr seqnum
             \<and> (\<forall>k. k \<noteq> addr_key addr \<longrightarrow> map_of st' k = map_of st k)))"
proof (rule exI, intro conjI allI impI)
  let ?pkts = "map (\<lambda>i. \<lparr>da_bytes = packet inet seqnum addr msg i, da_capacity = 65507\<rparr>) [0 ..< frag_count msg]"
  show "UdpMsgSocketClient_send inet any_ipstr seqnum addr (word_of_nat (length msg)) message_serialize remote_addr
      = Inr (seqnum + 1, ?pkts)"
    using assms(1-8) by (intro send_eq) simp_all
  fix evs rest assume msetevs: "mset evs = mset (map (RecvPacket \<circ> da_bytes) ?pkts)"
  have ev: "map (RecvPacket \<circ> da_bytes) ?pkts = map (event_of inet seqnum addr msg) [0 ..< frag_count msg]"
    by (simp add: event_of_def)
  from msetevs have "mset evs = mset (map (event_of inet seqnum addr msg) [0 ..< frag_count msg])" unfolding ev .
  then obtain ys where evs: "evs = map (event_of inet seqnum addr msg) ys" and ys: "mset ys = mset [0 ..< frag_count msg]"
    by (rule map_permuted)
  have set: "set ([] @ ys) = {..<frag_count msg}" and dist: "distinct ([] @ ys)"
    unfolding append_Nil mset_eq_setD [OF ys] mset_eq_imp_distinct_iff [OF ys] by auto
  have "0 < frag_count msg" by (simp add: frag_count_def)
  then have ne: "ys \<noteq> []" using set by (cases ys) auto
  show "\<exists>st' b. UdpMsgSocketServer_recv inet st (evs @ rest) buf = Inr (st', rest, False, b)
      \<and> da_bytes b = msg \<and> outdated st' addr seqnum \<and> (\<forall>k. k \<noteq> addr_key addr \<longrightarrow> map_of st' k = map_of st k)"
  proof (cases "frag_count msg = 1")
    case True
    have "ys = [0]" using ys unfolding True by simp
    obtain b where b: "assemble st (frag_hdr seqnum addr msg 0) (pkt_of inet seqnum addr msg 0) buf = Inr (st, b)"
      "da_bytes b = msg" by (rule assemble_single [OF assms(1,5,6) True])
    show ?thesis
      using b assms(9) recv_packet [OF assms(1,2) insertEntry_single [OF assms(1) True]]
      by (simp add: evs \<open>ys = [0]\<close> del: UdpMsgSocketServer_recv.simps)
  next
    case False
    then have n: "1 < frag_count msg" by (simp add: frag_count_def)
    have "pending st addr seqnum msg []" using assms(9) by (simp add: pending_def)
    then obtain st' b where r: "UdpMsgSocketServer_recv inet st (evs @ rest) buf = Inr (st', rest, False, b)" "da_bytes b = msg"
      and st': "map_of st' = (map_of st)(addr_key addr := None)"
      using recv_fragments [OF assms(1,2,5,6) n _ dist set ne, of st seqnum rest buf] unfolding evs by blast
    have "outdated st' addr seqnum" "\<forall>k. k \<noteq> addr_key addr \<longrightarrow> map_of st' k = map_of st k"
      by (simp_all add: st' outdated_def)
    with r show ?thesis by blast
  qed
qed

text \<open>C12: Whatever the order in which the packets of a message arrive, the receiver rebuilds exactly the
  bytes the sender serialized, drops its record of the fragments, leaves the records of the other senders
  alone and consumes no packet after the last one of the message. The sender always produces the packets.\<close>

theorem udp_message_roundtrip:
  assumes "NetworkAddr_wf inet addr" and "UDP_MIN_PORT < port addr"
    and "is_valid remote_addr" and "ipstr remote_addr \<noteq> any_ipstr"
    and "0 < length msg" and "length msg < 2 ^ 32"
    and "message_serialize (DynamicArray_with_capacity (word_of_nat (length msg)))
      = Inr (message_payload, word_of_nat (length msg))" and "da_bytes message_payload = msg"
    and "outdated st addr seqnum"
  shows "\<exists>pkts. UdpMsgSocketClient_send inet any_ipstr seqnum addr (word_of_nat (length msg)) message_serialize remote_addr
        = Inr (seqnum + 1, pkts)
      \<and> (\<forall>evs rest. mset evs = mset (map (RecvPacket \<circ> da_bytes) pkts) \<longrightarrow>
          (\<exists>st' b. UdpMsgSocketServer_recv inet st (evs @ rest) buf = Inr (st', rest, False, b)
             \<and> da_bytes b = msg \<and> outdated st' addr seqnum
             \<and> (\<forall>k. k \<noteq> addr_key addr \<longrightarrow> map_of st' k = map_of st k)))"
  by (rule packets_rebuild_message [where message_serialize = message_serialize, OF assms])

lemma insertEntry_duplicate:
  assumes "NetworkAddr_wf inet addr" and "1 < frag_count msg" and "frag_count msg < 2 ^ 32" and "i < frag_count msg"
    and "map_of st (addr_key addr) = Some (frag_entry seqnum msg [i])"
  shows "MsgFragStats_insertEntry inet st addr (pkt_of inet seqnum addr msg i) = Inl AssertFailed"
proof -
  have "map_of (map (frag_pair msg) [i]) (word_of_nat i) \<noteq> None"
    using assms(3,4) by (subst frag_absent) auto
  then show ?thesis
    using assms(1,5) frag_count_not_one [OF assms(2,3)]
    by (auto simp: MsgFragStats_insertEntry_def deserialize_pkt NetworkAddr_wf_def MsgFragStatsEntry_insertFrag_def
        MsgFragStatsEntry_isLastFrag_def frag_entry_def frag_pair_def Let_def)
qed

text \<open>A fragment that arrives twice before its message is complete stops the receiving process: the
  assertion behind the test for a tracked fragment repeats that test.\<close>

theorem duplicate_fragment_aborts:
  assumes "NetworkAddr_wf inet addr" and "UDP_MIN_PORT < port addr"
    and "is_valid remote_addr" and "ipstr remote_addr \<noteq> any_ipstr"
    and "0 < length msg" and "length msg < 2 ^ 32"
    and "message_serialize (DynamicArray_with_capacity (word_of_nat (length msg)))
      = Inr (message_payload, word_of_nat (length msg))" and "da_bytes message_payload = msg"
    and "outdated st addr seqnum" and "unat UDP_MAX_FRAG_PAYLOAD < length msg"
  shows "\<exists>pkts. UdpMsgSocketClient_send inet any_ipstr seqnum addr (word_of_nat (length msg)) message_serialize remote_addr
        = Inr (seqnum + 1, pkts)
      \<and> (\<forall>i < length pkts. UdpMsgSocketServer_recv inet st
            (RecvPacket (da_bytes (pkts ! i)) # RecvPacket (da_bytes (pkts ! i)) # rest) buf = Inl AssertFailed)"
proof (rule exI, intro conjI allI impI)
  let ?pkts = "map (\<lambda>i. \<lparr>da_bytes = packet inet seqnum addr msg i, da_capacity = 65507\<rparr>) [0 ..< frag_count msg]"
  show "UdpMsgSocketClient_send inet any_ipstr seqnum addr (word_of_nat (length msg)) message_serialize remote_addr
      = Inr (seqnum + 1, ?pkts)"
    using assms(1-8) by (intro send_eq) simp_all
  fix i assume "i < length ?pkts"
  then have i: "i < frag_count msg" by simp
  have "frag_max \<le> length msg - 1" using assms(10) by (simp add: frag_max_def)
  then have n: "1 < frag_count msg" by (simp add: frag_count_def div_greater_zero_iff)
  note n32 = frag_count_less [OF assms(5,6)]
  have p: "pending st addr seqnum msg []" using assms(9) by (simp add: pending_def)
  obtain st' where st': "MsgFragStats_insertEntry inet st addr (pkt_of inet seqnum addr msg i) = Inr (st', False)"
    "map_of st' = (map_of st)(addr_key addr \<mapsto> frag_entry seqnum msg (insort i []))"
    by (rule insertEntry_more [OF assms(1) p i _ _ n32]) (use n in simp_all)
  then have "MsgFragStats_insertEntry inet st' addr (pkt_of inet seqnum addr msg i) = Inl AssertFailed"
    by (intro insertEntry_duplicate [OF assms(1) n n32 i]) simp
  then have "UdpMsgSocketServer_recv inet st' (event_of inet seqnum addr msg i # rest) buf = Inl AssertFailed"
    by (rule recv_packet_aborts [OF assms(1,2)])
  then show "UdpMsgSocketServer_recv inet st
      (RecvPacket (da_bytes (?pkts ! i)) # RecvPacket (da_bytes (?pkts ! i)) # rest) buf = Inl AssertFailed"
    using i recv_packet [OF assms(1,2) st'(1), of "event_of inet seqnum addr msg i # rest" buf]
    by (simp add: event_of_def [symmetric] del: UdpMsgSocketServer_recv.simps)
qed

text \<open>A node whose resolver knows one address, and a two-packet message.\<close>

definition udp_inet :: inet_env where
  "udp_inet = \<lparr>inet_pton = (\<lambda>s. (1, [10, 0, 0, 1])), inet_ntop = (\<lambda>b. Some [49, 48])\<rparr>"

definition udp_source :: network_addr where
  "udp_source = \<lparr>ipstr = [49, 48], port = 2000, is_valid = True\<rparr>"

definition udp_message :: "u8 list" where
  "udp_message = replicate (frag_max + 1) 7"

definition udp_serialize :: "dynamic_array \<Rightarrow> (dynamic_array \<times> u32) exec" where
  "udp_serialize a = Inr (a\<lparr>da_bytes := udp_message\<rparr>, word_of_nat (length udp_message))"

lemma udp_example:
  "NetworkAddr_wf udp_inet udp_source" "UDP_MIN_PORT < port udp_source" "is_valid udp_source" "ipstr udp_source \<noteq> []"
  "0 < length udp_message" "length udp_message < 2 ^ 32" "unat UDP_MAX_FRAG_PAYLOAD < length udp_message"
  "outdated [] udp_source 5"
  "udp_serialize (DynamicArray_with_capacity (word_of_nat (length udp_message)))
     = Inr ((DynamicArray_with_capacity (word_of_nat (length udp_message)))\<lparr>da_bytes := udp_message\<rparr>, word_of_nat (length udp_message))"
  by (simp_all add: NetworkAddr_wf_def udp_inet_def udp_source_def udp_message_def udp_serialize_def UDP_MIN_PORT_def
      outdated_def frag_max_eq flip: frag_max_def)

theorem udp_message_roundtrip_witness:
  "\<exists>pkts. UdpMsgSocketClient_send udp_inet [] 5 udp_source (word_of_nat (length udp_message)) udp_serialize udp_source
      = Inr (6, pkts)
    \<and> (\<exists>st' b. UdpMsgSocketServer_recv udp_inet [] (rev (map (RecvPacket \<circ> da_bytes) pkts) @ [RecvTimeout]) DynamicArray_new
      = Inr (st', [RecvTimeout], False, b) \<and> da_bytes b = udp_message)"
proof -
  obtain pkts where p: "UdpMsgSocketClient_send udp_inet [] 5 udp_source (word_of_nat (length udp_message)) udp_serialize udp_source
      = Inr (5 + 1, pkts)"
    and r: "\<forall>evs rest. mset evs = mset (map (RecvPacket \<circ> da_bytes) pkts) \<longrightarrow>
        (\<exists>st' b. UdpMsgSocketServer_recv udp_inet [] (evs @ rest) DynamicArray_new = Inr (st', rest, False, b)
         \<and> da_bytes b = udp_message \<and> outdated st' udp_source 5
         \<and> (\<forall>k. k \<noteq> addr_key udp_source \<longrightarrow> map_of st' k = map_of [] k))"
    using udp_message_roundtrip [where message_serialize = udp_serialize and buf = DynamicArray_new,
        OF udp_example(1-6,9) _ udp_example(8)] by auto
  have "mset (rev (map (RecvPacket \<circ> da_bytes) pkts)) = mset (map (RecvPacket \<circ> da_bytes) pkts)" by simp
  with r have "\<exists>st' b. UdpMsgSocketServer_recv udp_inet [] (rev (map (RecvPacket \<circ> da_bytes) pkts) @ [RecvTimeout]) DynamicArray_new
      = Inr (st', [RecvTimeout], False, b) \<and> da_bytes b = udp_message" by blast
  with p show ?thesis by auto
qed

theorem duplicate_fragment_aborts_witness:
  "\<exists>pkts. UdpMsgSocketClient_send udp_inet [] 5 udp_source (word_of_nat (length udp_message)) udp_serialize udp_source
        = Inr (5 + 1, pkts)
      \<and> (\<forall>i < length pkts. UdpMsgSocketServer_recv udp_inet []
            (RecvPacket (da_bytes (pkts ! i)) # RecvPacket (da_bytes (pkts ! i)) # []) DynamicArray_new = Inl AssertFailed)"
  by (rule duplicate_fragment_aborts [where message_serialize = udp_serialize, OF udp_example(1-6,9) _ udp_example(8,7)]) simp

end
