(* ===== verification/Float_Compare.thy ===== *)
theory Float_Compare
  imports Util_Arithmetic "HOL-Library.Log_Nat"
begin

unbundle bit_operations_syntax

text \<open>
  The single-precision numbers of the program (\<open>Popularity\<close>, \<open>Reward\<close>, \<open>Weight\<close> in
  \<open>src/src/common/covered_common_header.h\<close>) and their approximate comparison (\<open>isApproxEqual\<close>,
  \<open>isApproxLargerEqual\<close> of \<open>src/src/common/util.c\<close>). A number is its bit pattern, as in memory and in messages. Every
  finite pattern is a multiple of \<open>2 ^ (- 149)\<close>, so its value is kept as that integer multiple; widening to
  double is exact, and the difference of two doubles is rounded to 53 bits, ties to even. Exponents outside
  the range of double do not occur in differences of single-precision numbers.
\<close>

section \<open>Values of bit patterns\<close>

datatype fval = NaN | Inf (fnegative: bool) | Fin (fscaled: int)

definition f32_fraction :: "u32 \<Rightarrow> int" where
  "f32_fraction x = uint x mod 2 ^ 23"

definition f32_exponent :: "u32 \<Rightarrow> int" where
  "f32_exponent x = uint x div 2 ^ 23 mod 2 ^ 8"

definition f32_negative :: "u32 \<Rightarrow> bool" where
  "f32_negative x = (2 ^ 31 \<le> uint x)"

definition f32_val :: "u32 \<Rightarrow> fval" where
  "f32_val x =
     (let f = f32_fraction x; e = f32_exponent x; s = f32_negative x
      in if e = 255 then if f = 0 then Inf s else NaN
         else let m = (if e = 0 then f else (2 ^ 23 + f) * 2 ^ nat (e - 1)) in Fin (if s then - m else m))"

definition fval_less :: "fval \<Rightarrow> fval \<Rightarrow> bool" where
  "fval_less a b =
     (case (a, b) of
        (NaN, _) \<Rightarrow> False | (_, NaN) \<Rightarrow> False
      | (Inf s, Inf t) \<Rightarrow> s \<and> \<not> t
      | (Inf s, Fin _) \<Rightarrow> s | (Fin _, Inf t) \<Rightarrow> \<not> t
      | (Fin m, Fin n) \<Rightarrow> m < n)"

definition fval_le :: "fval \<Rightarrow> fval \<Rightarrow> bool" where
  "fval_le a b = (a \<noteq> NaN \<and> b \<noteq> NaN \<and> \<not> fval_less b a)"

section \<open>Double-precision subtraction\<close>

definition round53 :: "int \<Rightarrow> int" where
  "round53 n =
     (let m = \<bar>n\<bar>; s = nat (bitlen m - 53); q = m div 2 ^ s; r = m mod 2 ^ s;
          q = (if s \<noteq> 0 \<and> (2 ^ s < 2 * r \<or> 2 ^ s = 2 * r \<and> odd q) then q + 1 else q)
      in sgn n * (q * 2 ^ s))"

definition fval_minus :: "fval \<Rightarrow> fval \<Rightarrow> fval" where
  "fval_minus a b =
     (case (a, b) of
        (NaN, _) \<Rightarrow> NaN | (_, NaN) \<Rightarrow> NaN
      | (Inf s, Inf t) \<Rightarrow> if s = t then NaN else Inf s
      | (Inf s, Fin _) \<Rightarrow> Inf s | (Fin _, Inf t) \<Rightarrow> Inf (\<not> t)
      | (Fin m, Fin n) \<Rightarrow> Fin (round53 (m - n)))"

section \<open>Approximate comparison\<close>

text \<open>The double nearest to 0.1, as a multiple of \<open>2 ^ (- 149)\<close>.\<close>

definition DOUBLE_IOTA :: int where
  "DOUBLE_IOTA = 7205759403792794 * 2 ^ 93"

definition Util_isApproxEqual :: "u32 \<Rightarrow> u32 \<Rightarrow> bool" where
  "Util_isApproxEqual x y =
     (let a = f32_val x; b = f32_val y
      in if fval_le b a then fval_le (fval_minus a b) (Fin DOUBLE_IOTA)
         else fval_le (fval_minus b a) (Fin DOUBLE_IOTA))"

definition Util_isApproxLargerEqual :: "u32 \<Rightarrow> u32 \<Rightarrow> bool" where
  "Util_isApproxLargerEqual x y = (fval_less (f32_val y) (f32_val x) \<or> Util_isApproxEqual x y)"

section \<open>What the comparison guarantees\<close>

definition f32_finite :: "u32 \<Rightarrow> bool" where
  "f32_finite x = (case f32_val x of Fin _ \<Rightarrow> True | _ \<Rightarrow> False)"

definition f32_scaled :: "u32 \<Rightarrow> int" where
  "f32_scaled x = fscaled (f32_val x)"

lemma f32_finite_val: "f32_finite x \<longleftrightarrow> f32_val x = Fin (f32_scaled x)"
  by (auto simp: f32_finite_def f32_scaled_def split: fval.splits)

lemma round53_zero [simp]: "round53 0 = 0"
  by (simp add: round53_def)

text \<open>Rounding loses at most the last of 53 bits.\<close>

lemma round53_lower:
  assumes "0 \<le> n"
  shows "(2 ^ 52 - 1) * n \<le> 2 ^ 52 * round53 n"
proof (cases "n = 0")
  case False
  let ?s = "nat (bitlen n - 53)"
  let ?q = "n div 2 ^ ?s"
  have pos: "0 < n" using assms False by simp
  have round: "?q * 2 ^ ?s \<le> round53 n"
    using pos by (auto simp: round53_def Let_def abs_of_pos algebra_simps)
  show ?thesis
  proof (cases "bitlen n \<le> 53")
    case True
    then have "n \<le> round53 n" using round by simp
    then have "2 ^ 52 * n \<le> 2 ^ 52 * round53 n" by (intro mult_left_mono) simp_all
    moreover have "(2 ^ 52 - 1) * n \<le> 2 ^ 52 * n" using pos by (intro mult_right_mono) simp_all
    ultimately show ?thesis by (rule order_trans [rotated])
  next
    case False
    have "2 ^ nat (bitlen n - 1) \<le> n" using bitlen_bounds [OF pos] by simp
    moreover have "nat (bitlen n - 1) = 52 + ?s" using False by simp
    ultimately have big: "2 ^ 52 * 2 ^ ?s \<le> n" by (simp add: power_add)
    have "n = ?q * 2 ^ ?s + n mod 2 ^ ?s" by (rule div_mult_mod_eq [symmetric])
    moreover have "n mod 2 ^ ?s < 2 ^ ?s" by simp
    ultimately have "n - 2 ^ ?s < ?q * 2 ^ ?s" by linarith
    then have "n - 2 ^ ?s < round53 n" using round by linarith
    then have "2 ^ 52 * (n - 2 ^ ?s) \<le> 2 ^ 52 * round53 n" by (intro mult_left_mono) simp_all
    moreover have "(2 ^ 52 - 1) * n \<le> 2 ^ 52 * (n - 2 ^ ?s)"
      using big by (simp only: left_diff_distrib right_diff_distrib)
    ultimately show ?thesis by (rule order_trans [rotated])
  qed
qed simp

lemma isApproxEqual_refl: "f32_finite x \<Longrightarrow> Util_isApproxEqual x x"
  by (simp add: f32_finite_val Util_isApproxEqual_def fval_le_def fval_less_def fval_minus_def DOUBLE_IOTA_def)

lemma isApproxEqual_close:
  assumes "f32_finite x" and "f32_finite y" and "Util_isApproxEqual x y"
  shows "(2 ^ 52 - 1) * \<bar>f32_scaled x - f32_scaled y\<bar> \<le> 2 ^ 52 * DOUBLE_IOTA"
proof -
  let ?d = "\<bar>f32_scaled x - f32_scaled y\<bar>"
  have "round53 ?d \<le> DOUBLE_IOTA"
    using assms
    by (auto simp: f32_finite_val Util_isApproxEqual_def fval_le_def fval_less_def fval_minus_def
        abs_if not_less split: if_splits)
  then have "2 ^ 52 * round53 ?d \<le> 2 ^ 52 * DOUBLE_IOTA" by (intro mult_left_mono) simp_all
  then show ?thesis using round53_lower [of ?d] by linarith
qed

lemma isApproxEqual_finite:
  assumes "Util_isApproxEqual x y"
  shows "f32_finite x" and "f32_finite y"
  using assms
  by (cases "f32_val x"; cases "f32_val y";
    auto simp: Util_isApproxEqual_def f32_finite_def fval_le_def fval_less_def fval_minus_def split: if_splits)+

text \<open>Equal, or both finite and at most 0.1 apart, up to the rounding of the difference.\<close>

definition f32_close :: "u32 \<Rightarrow> u32 \<Rightarrow> bool" where
  "f32_close x y \<longleftrightarrow> x = y \<or> (f32_finite x \<and> f32_finite y
     \<and> (2 ^ 52 - 1) * \<bar>f32_scaled x - f32_scaled y\<bar> \<le> 2 ^ 52 * DOUBLE_IOTA)"

lemma f32_close_refl [simp]: "f32_close x x"
  by (simp add: f32_close_def)

lemma isApproxEqual_f32_close: "Util_isApproxEqual x y \<Longrightarrow> f32_close x y"
  using isApproxEqual_finite [of x y] isApproxEqual_close [of x y] by (simp add: f32_close_def)

lemma f32_close_sym: "f32_close x y \<longleftrightarrow> f32_close y x"
  by (auto simp: f32_close_def abs_minus_commute)

lemma isApproxEqual_exact: "f32_finite x \<Longrightarrow> \<not> Util_isApproxEqual x y \<Longrightarrow> x \<noteq> y"
  using isApproxEqual_refl by blast

end
