(* ===== verification/Victim_Cacheinfo.thy ===== *)
theory Victim_Cacheinfo
  imports Keys_Values Float_Compare
begin

text \<open>
  \<open>VictimCacheinfo\<close> (\<open>src/src/core/victim/victim_cacheinfo.c\<close>): what an edge node tells its neighbours about an object it
  may evict. It is sent complete, or without the fields that did not change since the last time
  (\<open>dedup\<close>), or as a note that the object is no longer a victim (\<open>markStale\<close>); \<open>recover\<close> fills the missing fields
  from the information received before. The bitmap and the masks are those of the source. The reward
  \<open>redirected_cached_reward\<close> is a field of the class that is never sent.
\<close>

record victim_cacheinfo =
  dedup_bitmap :: u8
  victim_key :: key
  beacon_edgeidx :: u32
  object_size :: u32
  local_cached_popularity :: u32
  redirected_cached_popularity :: u32
  local_reward :: u32
  redirected_cached_reward :: u32

definition VictimCacheinfo_INVALID_BITMAP :: u8 where "VictimCacheinfo_INVALID_BITMAP = 255"
definition VictimCacheinfo_COMPLETE_BITMAP :: u8 where "VictimCacheinfo_COMPLETE_BITMAP = 0"
definition VictimCacheinfo_DEDUP_MASK :: u8 where "VictimCacheinfo_DEDUP_MASK = 1"
definition VictimCacheinfo_STALE_BITMAP :: u8 where "VictimCacheinfo_STALE_BITMAP = 63"
definition OBJECT_SIZE_DEDUP_MASK :: u8 where "OBJECT_SIZE_DEDUP_MASK = 2 OR VictimCacheinfo_DEDUP_MASK"
definition LOCAL_CACHED_POPULARITY_DEDUP_MASK :: u8 where
  "LOCAL_CACHED_POPULARITY_DEDUP_MASK = 4 OR VictimCacheinfo_DEDUP_MASK"
definition REDIRECTED_CACHED_POPULARITY_DEDUP_MASK :: u8 where
  "REDIRECTED_CACHED_POPULARITY_DEDUP_MASK = 8 OR VictimCacheinfo_DEDUP_MASK"
definition LOCAL_REWARD_DEDUP_MASK :: u8 where "LOCAL_REWARD_DEDUP_MASK = 16 OR VictimCacheinfo_DEDUP_MASK"

definition covers :: "u8 \<Rightarrow> u8 \<Rightarrow> bool" where
  "covers bitmap msk = (bitmap AND msk = msk)"

section \<open>Construction and status\<close>

definition VictimCacheinfo_invalid :: victim_cacheinfo where
  "VictimCacheinfo_invalid = \<lparr>dedup_bitmap = VictimCacheinfo_INVALID_BITMAP, victim_key = Key [], beacon_edgeidx = -1,
     object_size = 0, local_cached_popularity = 0, redirected_cached_popularity = 0, local_reward = 0,
     redirected_cached_reward = 0\<rparr>"

definition VictimCacheinfo_new_reward :: "key \<Rightarrow> u32 \<Rightarrow> u32 \<Rightarrow> u32 \<Rightarrow> u32 \<Rightarrow> u32 \<Rightarrow> victim_cacheinfo" where
  "VictimCacheinfo_new_reward key obj_size local_pop redirected_pop reward redirected_reward =
     \<lparr>dedup_bitmap = VictimCacheinfo_COMPLETE_BITMAP, victim_key = key, beacon_edgeidx = -1, object_size = obj_size,
      local_cached_popularity = local_pop, redirected_cached_popularity = redirected_pop, local_reward = reward,
      redirected_cached_reward = redirected_reward\<rparr>"

text \<open>The constructor without that reward leaves the field uninitialised: \<open>indeterminate\<close> is what it then holds.\<close>

definition VictimCacheinfo_new :: "u32 \<Rightarrow> key \<Rightarrow> u32 \<Rightarrow> u32 \<Rightarrow> u32 \<Rightarrow> u32 \<Rightarrow> victim_cacheinfo" where
  "VictimCacheinfo_new indeterminate key obj_size local_pop redirected_pop reward =
     \<lparr>dedup_bitmap = VictimCacheinfo_COMPLETE_BITMAP, victim_key = key, beacon_edgeidx = -1, object_size = obj_size,
      local_cached_popularity = local_pop, redirected_cached_popularity = redirected_pop, local_reward = reward,
      redirected_cached_reward = indeterminate\<rparr>"

definition validE :: "victim_cacheinfo \<Rightarrow> 'a exec \<Rightarrow> 'a exec" where
  "validE v k = assertE (dedup_bitmap v \<noteq> VictimCacheinfo_INVALID_BITMAP) k"

definition VictimCacheinfo_isInvalid :: "victim_cacheinfo \<Rightarrow> bool" where
  "VictimCacheinfo_isInvalid v = (dedup_bitmap v = VictimCacheinfo_INVALID_BITMAP)"

definition VictimCacheinfo_isComplete :: "victim_cacheinfo \<Rightarrow> bool exec" where
  "VictimCacheinfo_isComplete v =
     validE v (Inr (dedup_bitmap v \<noteq> VictimCacheinfo_STALE_BITMAP
       \<and> dedup_bitmap v AND VictimCacheinfo_DEDUP_MASK = VictimCacheinfo_COMPLETE_BITMAP AND VictimCacheinfo_DEDUP_MASK))"

definition VictimCacheinfo_isStale :: "victim_cacheinfo \<Rightarrow> bool exec" where
  "VictimCacheinfo_isStale v = validE v (Inr (dedup_bitmap v = VictimCacheinfo_STALE_BITMAP))"

definition VictimCacheinfo_isDeduped :: "victim_cacheinfo \<Rightarrow> bool exec" where
  "VictimCacheinfo_isDeduped v =
     validE v (Inr (dedup_bitmap v \<noteq> VictimCacheinfo_STALE_BITMAP \<and> covers (dedup_bitmap v) VictimCacheinfo_DEDUP_MASK))"

definition VictimCacheinfo_isFullyDeduped :: "victim_cacheinfo \<Rightarrow> bool exec" where
  "VictimCacheinfo_isFullyDeduped v =
     validE v (Inr (dedup_bitmap v \<noteq> VictimCacheinfo_STALE_BITMAP \<and> covers (dedup_bitmap v) OBJECT_SIZE_DEDUP_MASK
       \<and> covers (dedup_bitmap v) LOCAL_CACHED_POPULARITY_DEDUP_MASK
       \<and> covers (dedup_bitmap v) REDIRECTED_CACHED_POPULARITY_DEDUP_MASK
       \<and> covers (dedup_bitmap v) LOCAL_REWARD_DEDUP_MASK))"

section \<open>Fields\<close>

definition VictimCacheinfo_getKey :: "victim_cacheinfo \<Rightarrow> key exec" where
  "VictimCacheinfo_getKey v = validE v (Inr (victim_key v))"

text \<open>A getter with an out-parameter returns what it writes there, if it does; its result is whether it did.\<close>

definition VictimCacheinfo_getBeaconEdgeidx :: "victim_cacheinfo \<Rightarrow> u32 option exec" where
  "VictimCacheinfo_getBeaconEdgeidx v =
     validE v (Inr (if 0 \<le> sint (beacon_edgeidx v) then Some (beacon_edgeidx v) else None))"

definition VictimCacheinfo_setBeaconEdgeidx :: "u32 \<Rightarrow> victim_cacheinfo \<Rightarrow> victim_cacheinfo exec" where
  "VictimCacheinfo_setBeaconEdgeidx edgeidx v = validE v (Inr (v\<lparr>beacon_edgeidx := edgeidx\<rparr>))"

definition get_unless :: "u8 \<Rightarrow> (victim_cacheinfo \<Rightarrow> u32) \<Rightarrow> victim_cacheinfo \<Rightarrow> u32 option exec" where
  "get_unless msk field v = validE v (Inr (if covers (dedup_bitmap v) msk then None else Some (field v)))"

definition VictimCacheinfo_getObjectSize :: "victim_cacheinfo \<Rightarrow> u32 option exec" where
  "VictimCacheinfo_getObjectSize = get_unless OBJECT_SIZE_DEDUP_MASK object_size"

definition VictimCacheinfo_getLocalCachedPopularity :: "victim_cacheinfo \<Rightarrow> u32 option exec" where
  "VictimCacheinfo_getLocalCachedPopularity = get_unless LOCAL_CACHED_POPULARITY_DEDUP_MASK local_cached_popularity"

definition VictimCacheinfo_getRedirectedCachedPopularity :: "victim_cacheinfo \<Rightarrow> u32 option exec" where
  "VictimCacheinfo_getRedirectedCachedPopularity =
     get_unless REDIRECTED_CACHED_POPULARITY_DEDUP_MASK redirected_cached_popularity"

definition VictimCacheinfo_getRedirectedCachedPopularityReward :: "victim_cacheinfo \<Rightarrow> u32 option exec" where
  "VictimCacheinfo_getRedirectedCachedPopularityReward =
     get_unless REDIRECTED_CACHED_POPULARITY_DEDUP_MASK redirected_cached_reward"

definition VictimCacheinfo_getLocalReward :: "victim_cacheinfo \<Rightarrow> u32 option exec" where
  "VictimCacheinfo_getLocalReward = get_unless LOCAL_REWARD_DEDUP_MASK local_reward"

definition VictimCacheinfo_markStale :: "victim_cacheinfo \<Rightarrow> victim_cacheinfo exec" where
  "VictimCacheinfo_markStale v = validE v (Inr (v\<lparr>dedup_bitmap := VictimCacheinfo_STALE_BITMAP\<rparr>))"

definition VictimCacheinfo_dedupObjectSize :: "victim_cacheinfo \<Rightarrow> victim_cacheinfo exec" where
  "VictimCacheinfo_dedupObjectSize v =
     validE v (Inr (v\<lparr>dedup_bitmap := dedup_bitmap v OR OBJECT_SIZE_DEDUP_MASK, object_size := 0\<rparr>))"

definition VictimCacheinfo_dedupLocalCachedPopularity :: "victim_cacheinfo \<Rightarrow> victim_cacheinfo exec" where
  "VictimCacheinfo_dedupLocalCachedPopularity v =
     validE v (Inr (v\<lparr>dedup_bitmap := dedup_bitmap v OR LOCAL_CACHED_POPULARITY_DEDUP_MASK, local_cached_popularity := 0\<rparr>))"

definition VictimCacheinfo_dedupRedirectedCachedPopularity :: "victim_cacheinfo \<Rightarrow> victim_cacheinfo exec" where
  "VictimCacheinfo_dedupRedirectedCachedPopularity v =
     validE v (Inr (v\<lparr>dedup_bitmap := dedup_bitmap v OR REDIRECTED_CACHED_POPULARITY_DEDUP_MASK,
       redirected_cached_popularity := 0, redirected_cached_reward := 0\<rparr>))"

definition VictimCacheinfo_dedupLocalReward :: "victim_cacheinfo \<Rightarrow> victim_cacheinfo exec" where
  "VictimCacheinfo_dedupLocalReward v =
     validE v (Inr (v\<lparr>dedup_bitmap := dedup_bitmap v OR LOCAL_REWARD_DEDUP_MASK, local_reward := 0\<rparr>))"

section \<open>Sizes\<close>

definition sized :: "u8 \<Rightarrow> u8 \<Rightarrow> 'a::len word" where
  "sized bitmap msk = (if covers bitmap msk then 0 else 4)"

definition VictimCacheinfo_getVictimCacheinfoPayloadSize :: "victim_cacheinfo \<Rightarrow> u32 exec" where
  "VictimCacheinfo_getVictimCacheinfoPayloadSize v =
     validE v (Inr (1 + Key_getKeyPayloadSize (victim_key v) + 4
       + sized (dedup_bitmap v) OBJECT_SIZE_DEDUP_MASK + sized (dedup_bitmap v) LOCAL_CACHED_POPULARITY_DEDUP_MASK
       + sized (dedup_bitmap v) REDIRECTED_CACHED_POPULARITY_DEDUP_MASK + sized (dedup_bitmap v) LOCAL_REWARD_DEDUP_MASK))"

definition VictimCacheinfo_getSizeForCapacity :: "victim_cacheinfo \<Rightarrow> u64 exec" where
  "VictimCacheinfo_getSizeForCapacity v =
     validE v (Inr (1 + ucast (Key_getKeyLength (victim_key v))
       + sized (dedup_bitmap v) OBJECT_SIZE_DEDUP_MASK + sized (dedup_bitmap v) LOCAL_CACHED_POPULARITY_DEDUP_MASK
       + sized (dedup_bitmap v) REDIRECTED_CACHED_POPULARITY_DEDUP_MASK + sized (dedup_bitmap v) LOCAL_REWARD_DEDUP_MASK))"

section \<open>Deduplication and recovery\<close>

definition VictimCacheinfo_dedup :: "victim_cacheinfo \<Rightarrow> victim_cacheinfo \<Rightarrow> victim_cacheinfo exec" where
  "VictimCacheinfo_dedup current prev =
     bindE (VictimCacheinfo_isComplete current) (\<lambda>c. assertE c (
     bindE (VictimCacheinfo_isComplete prev) (\<lambda>c. assertE c (
     bindE (if object_size current = object_size prev then VictimCacheinfo_dedupObjectSize current else Inr current) (\<lambda>deduped.
     bindE (if Util_isApproxEqual (local_cached_popularity current) (local_cached_popularity prev)
            then VictimCacheinfo_dedupLocalCachedPopularity deduped else Inr deduped) (\<lambda>deduped.
     bindE (if Util_isApproxEqual (redirected_cached_popularity current) (redirected_cached_popularity prev)
            then VictimCacheinfo_dedupRedirectedCachedPopularity deduped else Inr deduped) (\<lambda>deduped.
     bindE (if Util_isApproxEqual (local_reward current) (local_reward prev)
            then VictimCacheinfo_dedupLocalReward deduped else Inr deduped) (\<lambda>deduped.
     bindE (VictimCacheinfo_getVictimCacheinfoPayloadSize deduped) (\<lambda>deduped_size.
     bindE (VictimCacheinfo_getVictimCacheinfoPayloadSize current) (\<lambda>current_size.
     if deduped_size < current_size then Inr deduped else Inr current))))))))))"

definition VictimCacheinfo_recover :: "victim_cacheinfo \<Rightarrow> victim_cacheinfo \<Rightarrow> victim_cacheinfo exec" where
  "VictimCacheinfo_recover compressed existing =
     bindE (VictimCacheinfo_isDeduped compressed) (\<lambda>d. assertE d (
     bindE (VictimCacheinfo_isFullyDeduped compressed) (\<lambda>f. assertE (\<not> f) (
     bindE (VictimCacheinfo_isComplete existing) (\<lambda>c. assertE c (
     bindE (VictimCacheinfo_getObjectSize compressed) (\<lambda>sz.
     let complete = (case sz of None \<Rightarrow> existing | Some x \<Rightarrow> existing\<lparr>object_size := x\<rparr>)
     in bindE (VictimCacheinfo_getLocalCachedPopularity compressed) (\<lambda>pop.
     let complete = (case pop of None \<Rightarrow> complete | Some x \<Rightarrow> complete\<lparr>local_cached_popularity := x\<rparr>)
     in bindE (VictimCacheinfo_getRedirectedCachedPopularity compressed) (\<lambda>rpop.
     bindE (VictimCacheinfo_getRedirectedCachedPopularityReward compressed) (\<lambda>rreward.
     let complete = (case rpop of None \<Rightarrow> complete
           | Some x \<Rightarrow> complete\<lparr>redirected_cached_popularity := x,
               redirected_cached_reward := (case rreward of None \<Rightarrow> 0 | Some y \<Rightarrow> y)\<rparr>)
     in bindE (VictimCacheinfo_getLocalReward compressed) (\<lambda>reward.
     let complete = (case reward of None \<Rightarrow> complete | Some x \<Rightarrow> complete\<lparr>local_reward := x\<rparr>)
     in bindE (VictimCacheinfo_isComplete complete) (\<lambda>c. assertE c (Inr complete)))))))))))))"

section \<open>Lists of victims\<close>

text \<open>The position of the first victim with the key, or the end.\<close>

fun VictimCacheinfo_findVictimCacheinfoForKey :: "key \<Rightarrow> victim_cacheinfo list \<Rightarrow> nat exec" where
  "VictimCacheinfo_findVictimCacheinfoForKey key [] = Inr 0"
| "VictimCacheinfo_findVictimCacheinfoForKey key (v # vs) =
     bindE (VictimCacheinfo_getKey v) (\<lambda>k.
     if Key_equal k key then Inr 0
     else bindE (VictimCacheinfo_findVictimCacheinfoForKey key vs) (\<lambda>i. Inr (Suc i)))"

text \<open>\<open>operator<\<close> compares local rewards, and \<open>std::list::sort\<close> is stable; it is defined only if \<open>operator<\<close> is a
  strict weak order, which a NaN breaks. The order of the other numbers is that of \<open>reward_rank\<close>.\<close>

definition VictimCacheinfo_less :: "victim_cacheinfo \<Rightarrow> victim_cacheinfo \<Rightarrow> bool" where
  "VictimCacheinfo_less v w = fval_less (f32_val (local_reward v)) (f32_val (local_reward w))"

definition reward_rank :: "u32 \<Rightarrow> int" where
  "reward_rank x = (case f32_val x of NaN \<Rightarrow> 0 | Inf s \<Rightarrow> if s then - (2 ^ 300) else 2 ^ 300 | Fin m \<Rightarrow> m)"

definition VictimCacheinfo_sortByLocalRewards :: "victim_cacheinfo list \<Rightarrow> victim_cacheinfo list exec" where
  "VictimCacheinfo_sortByLocalRewards vs =
     definedE (\<forall>v \<in> set vs. f32_val (local_reward v) \<noteq> NaN) (Inr (sort_key (\<lambda>v. reward_rank (local_reward v)) vs))"

section \<open>Serialisation\<close>

text \<open>The optional fields: written, or read into the field, unless the mask says that they are left out.\<close>

definition ser_unless :: "u8 \<Rightarrow> u8 \<Rightarrow> u32 \<Rightarrow> dynamic_array \<times> u32 \<Rightarrow> (dynamic_array \<times> u32) exec" where
  "ser_unless bitmap msk x = (\<lambda>(msg_payload, sz).
     if covers bitmap msk then Inr (msg_payload, sz)
     else bindE (DynamicArray_deserialize msg_payload sz (u32_mem x) 4) (\<lambda>msg_payload. Inr (msg_payload, sz + 4)))"

definition deser_unless :: "u8 \<Rightarrow> u8 \<Rightarrow> dynamic_array \<Rightarrow> u32 \<Rightarrow> u32 \<Rightarrow> (u32 \<times> u32) exec" where
  "deser_unless bitmap msk msg_payload old sz =
     (if covers bitmap msk then Inr (old, sz)
      else bindE (DynamicArray_serialize msg_payload sz 4) (\<lambda>b. Inr (mem_u32 b, sz + 4)))"

definition fs_ser_unless :: "u8 \<Rightarrow> u8 \<Rightarrow> u32 \<Rightarrow> u8 list \<times> u32 \<Rightarrow> u8 list \<times> u32" where
  "fs_ser_unless bitmap msk x = (\<lambda>(out, sz).
     if covers bitmap msk then (out, sz) else (fs_write (u32_mem x) out, sz + 4))"

definition fs_deser_unless :: "u8 \<Rightarrow> u8 \<Rightarrow> u32 \<Rightarrow> fstream \<times> u32 \<Rightarrow> u32 \<times> fstream \<times> u32" where
  "fs_deser_unless bitmap msk old = (\<lambda>(fs, sz).
     if covers bitmap msk then (old, fs, sz)
     else let (b, fs) = fs_read (u32_mem old) fs in (mem_u32 b, fs, sz + 4))"

definition VictimCacheinfo_serialize :: "victim_cacheinfo serializer" where
  "VictimCacheinfo_serialize v msg_payload position =
     validE v (
     bindE (DynamicArray_deserialize msg_payload position [dedup_bitmap v] 1) (\<lambda>msg_payload.
     bindE (Key_serialize (victim_key v) msg_payload (position + 1)) (\<lambda>(msg_payload, key_size).
     bindE (DynamicArray_deserialize msg_payload (position + 1 + key_size) (u32_mem (beacon_edgeidx v)) 4) (\<lambda>msg_payload.
     bindE (ser_unless (dedup_bitmap v) OBJECT_SIZE_DEDUP_MASK (object_size v)
              (msg_payload, position + 1 + key_size + 4)) (\<lambda>ms.
     bindE (ser_unless (dedup_bitmap v) LOCAL_CACHED_POPULARITY_DEDUP_MASK (local_cached_popularity v) ms) (\<lambda>ms.
     bindE (ser_unless (dedup_bitmap v) REDIRECTED_CACHED_POPULARITY_DEDUP_MASK (redirected_cached_popularity v) ms) (\<lambda>ms.
     bindE (ser_unless (dedup_bitmap v) LOCAL_REWARD_DEDUP_MASK (local_reward v) ms) (\<lambda>(msg_payload, sz).
     Inr (msg_payload, sz - position)))))))))"

definition VictimCacheinfo_serialize_fs :: "victim_cacheinfo fs_serializer" where
  "VictimCacheinfo_serialize_fs v out =
     validE v (
     bindE (Key_serialize_fs (victim_key v) (fs_write [dedup_bitmap v] out)) (\<lambda>(out, key_size).
     let os = (fs_write (u32_mem (beacon_edgeidx v)) out, 1 + key_size + 4);
         os = fs_ser_unless (dedup_bitmap v) OBJECT_SIZE_DEDUP_MASK (object_size v) os;
         os = fs_ser_unless (dedup_bitmap v) LOCAL_CACHED_POPULARITY_DEDUP_MASK (local_cached_popularity v) os;
         os = fs_ser_unless (dedup_bitmap v) REDIRECTED_CACHED_POPULARITY_DEDUP_MASK (redirected_cached_popularity v) os
     in Inr (fs_ser_unless (dedup_bitmap v) LOCAL_REWARD_DEDUP_MASK (local_reward v) os)))"

definition VictimCacheinfo_deserialize :: "victim_cacheinfo deserializer" where
  "VictimCacheinfo_deserialize this msg_payload position =
     bindE (DynamicArray_serialize msg_payload position 1) (\<lambda>b.
     let v = this\<lparr>dedup_bitmap := hd b\<rparr>
     in validE v (
     bindE (Key_deserialize (victim_key v) msg_payload (position + 1)) (\<lambda>(key, key_size).
     bindE (DynamicArray_serialize msg_payload (position + 1 + key_size) 4) (\<lambda>b.
     let v = v\<lparr>victim_key := key, beacon_edgeidx := mem_u32 b\<rparr>
     in bindE (deser_unless (dedup_bitmap v) OBJECT_SIZE_DEDUP_MASK msg_payload (object_size v)
              (position + 1 + key_size + 4)) (\<lambda>(x, sz).
     let v = v\<lparr>object_size := x\<rparr>
     in bindE (deser_unless (dedup_bitmap v) LOCAL_CACHED_POPULARITY_DEDUP_MASK msg_payload (local_cached_popularity v) sz) (\<lambda>(x, sz).
     let v = v\<lparr>local_cached_popularity := x\<rparr>
     in bindE (deser_unless (dedup_bitmap v) REDIRECTED_CACHED_POPULARITY_DEDUP_MASK msg_payload
              (redirected_cached_popularity v) sz) (\<lambda>(x, sz).
     let v = v\<lparr>redirected_cached_popularity := x\<rparr>
     in bindE (deser_unless (dedup_bitmap v) LOCAL_REWARD_DEDUP_MASK msg_payload (local_reward v) sz) (\<lambda>(x, sz).
     Inr (v\<lparr>local_reward := x\<rparr>, sz - position)))))))))"

definition VictimCacheinfo_deserialize_fs :: "victim_cacheinfo fs_deserializer" where
  "VictimCacheinfo_deserialize_fs this fs =
     (let (b, fs) = fs_read [dedup_bitmap this] fs;
          v = this\<lparr>dedup_bitmap := hd b\<rparr>
      in validE v (
         bindE (Key_deserialize_fs (victim_key v) fs) (\<lambda>(key, fs, key_size).
         let (b, fs) = fs_read (u32_mem (beacon_edgeidx v)) fs;
             v = v\<lparr>victim_key := key, beacon_edgeidx := mem_u32 b\<rparr>;
             (x, fss) = fs_deser_unless (dedup_bitmap v) OBJECT_SIZE_DEDUP_MASK (object_size v) (fs, 1 + key_size + 4);
             v = v\<lparr>object_size := x\<rparr>;
             (x, fss) = fs_deser_unless (dedup_bitmap v) LOCAL_CACHED_POPULARITY_DEDUP_MASK (local_cached_popularity v) fss;
             v = v\<lparr>local_cached_popularity := x\<rparr>;
             (x, fss) = fs_deser_unless (dedup_bitmap v) REDIRECTED_CACHED_POPULARITY_DEDUP_MASK (redirected_cached_popularity v) fss;
             v = v\<lparr>redirected_cached_popularity := x\<rparr>;
             (x, fss) = fs_deser_unless (dedup_bitmap v) LOCAL_REWARD_DEDUP_MASK (local_reward v) fss
         in Inr (v\<lparr>local_reward := x\<rparr>, fss))))"

section \<open>Bitmaps\<close>

text \<open>The bitmap after some of the four fields have been left out.\<close>

definition dedup_bits :: "bool \<Rightarrow> bool \<Rightarrow> bool \<Rightarrow> bool \<Rightarrow> u8" where
  "dedup_bits b l r w = (if b then OBJECT_SIZE_DEDUP_MASK else 0) OR (if l then LOCAL_CACHED_POPULARITY_DEDUP_MASK else 0)
     OR (if r then REDIRECTED_CACHED_POPULARITY_DEDUP_MASK else 0) OR (if w then LOCAL_REWARD_DEDUP_MASK else 0)"

lemmas victim_bits = VictimCacheinfo_INVALID_BITMAP_def VictimCacheinfo_COMPLETE_BITMAP_def VictimCacheinfo_DEDUP_MASK_def
  VictimCacheinfo_STALE_BITMAP_def OBJECT_SIZE_DEDUP_MASK_def LOCAL_CACHED_POPULARITY_DEDUP_MASK_def
  REDIRECTED_CACHED_POPULARITY_DEDUP_MASK_def LOCAL_REWARD_DEDUP_MASK_def

lemma dedup_bits_simps [simp]:
  "dedup_bits b l r w \<noteq> VictimCacheinfo_INVALID_BITMAP" "dedup_bits b l r w \<noteq> VictimCacheinfo_STALE_BITMAP"
  "covers (dedup_bits b l r w) OBJECT_SIZE_DEDUP_MASK \<longleftrightarrow> b"
  "covers (dedup_bits b l r w) LOCAL_CACHED_POPULARITY_DEDUP_MASK \<longleftrightarrow> l"
  "covers (dedup_bits b l r w) REDIRECTED_CACHED_POPULARITY_DEDUP_MASK \<longleftrightarrow> r"
  "covers (dedup_bits b l r w) LOCAL_REWARD_DEDUP_MASK \<longleftrightarrow> w"
  "covers (dedup_bits b l r w) VictimCacheinfo_DEDUP_MASK \<longleftrightarrow> b \<or> l \<or> r \<or> w"
  by (cases b; cases l; cases r; cases w; simp add: dedup_bits_def covers_def victim_bits)+

lemma complete_bits [simp]:
  "0 \<noteq> VictimCacheinfo_INVALID_BITMAP" "0 \<noteq> VictimCacheinfo_STALE_BITMAP"
  "\<not> covers 0 OBJECT_SIZE_DEDUP_MASK" "\<not> covers 0 LOCAL_CACHED_POPULARITY_DEDUP_MASK"
  "\<not> covers 0 REDIRECTED_CACHED_POPULARITY_DEDUP_MASK" "\<not> covers 0 LOCAL_REWARD_DEDUP_MASK"
  "\<not> covers 0 VictimCacheinfo_DEDUP_MASK"
  by (simp_all add: covers_def victim_bits)

lemma stale_bits [simp]:
  "VictimCacheinfo_STALE_BITMAP \<noteq> VictimCacheinfo_INVALID_BITMAP"
  "covers VictimCacheinfo_STALE_BITMAP OBJECT_SIZE_DEDUP_MASK"
  "covers VictimCacheinfo_STALE_BITMAP LOCAL_CACHED_POPULARITY_DEDUP_MASK"
  "covers VictimCacheinfo_STALE_BITMAP REDIRECTED_CACHED_POPULARITY_DEDUP_MASK"
  "covers VictimCacheinfo_STALE_BITMAP LOCAL_REWARD_DEDUP_MASK"
  by (simp_all add: covers_def victim_bits)

lemma validE_simps [simp]:
  "dedup_bitmap v \<noteq> VictimCacheinfo_INVALID_BITMAP \<Longrightarrow> validE v k = k"
  "dedup_bitmap v = VictimCacheinfo_INVALID_BITMAP \<Longrightarrow> validE v k = Inl AssertFailed"
  by (simp_all add: validE_def)

definition victim_complete :: "victim_cacheinfo \<Rightarrow> bool" where
  "victim_complete v \<longleftrightarrow> dedup_bitmap v = VictimCacheinfo_COMPLETE_BITMAP"

lemma victim_complete_bitmap: "victim_complete v \<Longrightarrow> dedup_bitmap v = 0"
  by (simp add: victim_complete_def victim_bits)

lemma status_complete [simp]:
  assumes "dedup_bitmap v = 0"
  shows "VictimCacheinfo_isComplete v = Inr True" "VictimCacheinfo_isStale v = Inr False"
    "VictimCacheinfo_isDeduped v = Inr False" "VictimCacheinfo_isFullyDeduped v = Inr False"
    "VictimCacheinfo_getKey v = Inr (victim_key v)"
  using assms
  by (simp_all add: VictimCacheinfo_isComplete_def VictimCacheinfo_isStale_def VictimCacheinfo_isDeduped_def
      VictimCacheinfo_isFullyDeduped_def VictimCacheinfo_getKey_def, simp_all add: victim_bits)

lemma status_deduped [simp]:
  assumes "dedup_bitmap v = dedup_bits b l r w" and "b \<or> l \<or> r \<or> w"
  shows "VictimCacheinfo_isComplete v = Inr False" "VictimCacheinfo_isStale v = Inr False"
    "VictimCacheinfo_isDeduped v = Inr True" "VictimCacheinfo_isFullyDeduped v = Inr (b \<and> l \<and> r \<and> w)"
    "VictimCacheinfo_getKey v = Inr (victim_key v)"
proof -
  have "dedup_bits b l r w AND VictimCacheinfo_DEDUP_MASK \<noteq> 0"
    using assms(2) dedup_bits_simps(7) [of b l r w] by (auto simp: covers_def victim_bits)
  then show "VictimCacheinfo_isComplete v = Inr False"
    using assms(1) by (simp add: VictimCacheinfo_isComplete_def) (simp add: victim_bits)
qed (use assms in \<open>simp_all add: VictimCacheinfo_isStale_def VictimCacheinfo_isDeduped_def
      VictimCacheinfo_isFullyDeduped_def VictimCacheinfo_getKey_def\<close>)

lemma status_stale [simp]:
  assumes "dedup_bitmap v = VictimCacheinfo_STALE_BITMAP"
  shows "VictimCacheinfo_isComplete v = Inr False" "VictimCacheinfo_isStale v = Inr True"
    "VictimCacheinfo_getKey v = Inr (victim_key v)"
  using assms by (simp_all add: VictimCacheinfo_isComplete_def VictimCacheinfo_isStale_def VictimCacheinfo_getKey_def)

section \<open>Deduplication and recovery\<close>

text \<open>Which fields are left out, what is then sent, and what the receiver ends up with.\<close>

definition same_size :: "victim_cacheinfo \<Rightarrow> victim_cacheinfo \<Rightarrow> bool" where
  "same_size c p \<longleftrightarrow> object_size c = object_size p"

definition same_local :: "victim_cacheinfo \<Rightarrow> victim_cacheinfo \<Rightarrow> bool" where
  "same_local c p \<longleftrightarrow> Util_isApproxEqual (local_cached_popularity c) (local_cached_popularity p)"

definition same_redirected :: "victim_cacheinfo \<Rightarrow> victim_cacheinfo \<Rightarrow> bool" where
  "same_redirected c p \<longleftrightarrow> Util_isApproxEqual (redirected_cached_popularity c) (redirected_cached_popularity p)"

definition same_reward :: "victim_cacheinfo \<Rightarrow> victim_cacheinfo \<Rightarrow> bool" where
  "same_reward c p \<longleftrightarrow> Util_isApproxEqual (local_reward c) (local_reward p)"

lemmas same_defs = same_size_def same_local_def same_redirected_def same_reward_def

definition deduped :: "victim_cacheinfo \<Rightarrow> victim_cacheinfo \<Rightarrow> victim_cacheinfo" where
  "deduped c p = c\<lparr>dedup_bitmap := dedup_bits (same_size c p) (same_local c p) (same_redirected c p) (same_reward c p),
     object_size := (if same_size c p then 0 else object_size c),
     local_cached_popularity := (if same_local c p then 0 else local_cached_popularity c),
     redirected_cached_popularity := (if same_redirected c p then 0 else redirected_cached_popularity c),
     redirected_cached_reward := (if same_redirected c p then 0 else redirected_cached_reward c),
     local_reward := (if same_reward c p then 0 else local_reward c)\<rparr>"

definition any_same :: "victim_cacheinfo \<Rightarrow> victim_cacheinfo \<Rightarrow> bool" where
  "any_same c p \<longleftrightarrow> same_size c p \<or> same_local c p \<or> same_redirected c p \<or> same_reward c p"

definition all_same :: "victim_cacheinfo \<Rightarrow> victim_cacheinfo \<Rightarrow> bool" where
  "all_same c p \<longleftrightarrow> same_size c p \<and> same_local c p \<and> same_redirected c p \<and> same_reward c p"

definition carried :: "victim_cacheinfo \<Rightarrow> victim_cacheinfo \<Rightarrow> victim_cacheinfo" where
  "carried c p = p\<lparr>object_size := object_size c,
     local_cached_popularity := (if same_local c p then local_cached_popularity p else local_cached_popularity c),
     redirected_cached_popularity := (if same_redirected c p then redirected_cached_popularity p else redirected_cached_popularity c),
     redirected_cached_reward := (if same_redirected c p then redirected_cached_reward p else redirected_cached_reward c),
     local_reward := (if same_reward c p then local_reward p else local_reward c)\<rparr>"

lemma payload_size:
  assumes "length (keystr (victim_key v)) < 2 ^ 31" and "dedup_bitmap v = dedup_bits b l r w"
  shows "\<exists>n. VictimCacheinfo_getVictimCacheinfoPayloadSize v = Inr n
    \<and> unat n + (if b then 4 else 0) + (if l then 4 else 0) + (if r then 4 else 0) + (if w then 4 else 0)
      = 25 + length (keystr (victim_key v))"
proof -
  let ?k = "length (keystr (victim_key v))"
  let ?m = "9 + ?k + (if b then 0 else 4) + (if l then 0 else 4) + (if r then 0 else 4) + (if w then 0 else 4)"
  have "VictimCacheinfo_getVictimCacheinfoPayloadSize v = Inr (word_of_nat ?m)"
    using assms(2) by (simp add: VictimCacheinfo_getVictimCacheinfoPayloadSize_def sized_def Key_getKeyPayloadSize_def)
  moreover have "unat (word_of_nat ?m :: u32) = ?m" using assms(1) by (intro unat_of_nat_small) simp
  ultimately show ?thesis by auto
qed

lemma complete_dedup_bits: "dedup_bits False False False False = 0"
  by (simp add: dedup_bits_def)

lemma dedup_fields:
  assumes "dedup_bitmap c = 0"
  shows "bindE (if b then VictimCacheinfo_dedupObjectSize c else Inr c) (\<lambda>d.
     bindE (if l then VictimCacheinfo_dedupLocalCachedPopularity d else Inr d) (\<lambda>d.
     bindE (if r then VictimCacheinfo_dedupRedirectedCachedPopularity d else Inr d) (\<lambda>d.
     bindE (if w then VictimCacheinfo_dedupLocalReward d else Inr d) k)))
    = k (c\<lparr>dedup_bitmap := dedup_bits b l r w,
     object_size := (if b then 0 else object_size c),
     local_cached_popularity := (if l then 0 else local_cached_popularity c),
     redirected_cached_popularity := (if r then 0 else redirected_cached_popularity c),
     redirected_cached_reward := (if r then 0 else redirected_cached_reward c),
     local_reward := (if w then 0 else local_reward c)\<rparr>)"
  using assms
  by (cases c; cases b; cases l; cases r; cases w;
    simp add: VictimCacheinfo_dedupObjectSize_def VictimCacheinfo_dedupLocalCachedPopularity_def
      VictimCacheinfo_dedupRedirectedCachedPopularity_def VictimCacheinfo_dedupLocalReward_def
      dedup_bits_def validE_def victim_bits)

lemma dedup_spec:
  assumes "victim_complete c" and "victim_complete p" and "length (keystr (victim_key c)) < 2 ^ 31"
  shows "VictimCacheinfo_dedup c p = Inr (if any_same c p then deduped c p else c)"
proof -
  have c: "dedup_bitmap c = 0" and p: "dedup_bitmap p = 0" using assms(1,2) by (simp_all add: victim_complete_bitmap)
  obtain m where m: "VictimCacheinfo_getVictimCacheinfoPayloadSize c = Inr m" "unat m = 25 + length (keystr (victim_key c))"
    using payload_size [OF assms(3), of False False False False] c complete_dedup_bits by auto
  have key: "victim_key (deduped c p) = victim_key c" by (simp add: deduped_def)
  obtain n where n: "VictimCacheinfo_getVictimCacheinfoPayloadSize (deduped c p) = Inr n"
    "unat n + (if same_size c p then 4 else 0) + (if same_local c p then 4 else 0) + (if same_redirected c p then 4 else 0)
      + (if same_reward c p then 4 else 0) = 25 + length (keystr (victim_key c))"
    using payload_size [of "deduped c p" "same_size c p" "same_local c p" "same_redirected c p" "same_reward c p"] assms(3)
    unfolding key by (auto simp: deduped_def)
  have less: "n < m \<longleftrightarrow> any_same c p"
    using n(2) m(2) by (auto simp: word_less_nat_alt any_same_def split: if_splits)
  have "deduped c p = c" if "\<not> any_same c p"
    using that c by (cases c) (simp add: deduped_def any_same_def complete_dedup_bits)
  then show ?thesis using less c p m(1) n(1)
    by (simp add: VictimCacheinfo_dedup_def dedup_fields flip: same_defs deduped_def)
qed

lemma victim_self_update:
  "v\<lparr>object_size := object_size v\<rparr> = v" "v\<lparr>local_cached_popularity := local_cached_popularity v\<rparr> = v"
  "v\<lparr>redirected_cached_popularity := redirected_cached_popularity v\<rparr> = v"
  "v\<lparr>redirected_cached_reward := redirected_cached_reward v\<rparr> = v" "v\<lparr>local_reward := local_reward v\<rparr> = v"
  by simp_all

text \<open>What recovery makes of a received object: the fields that came replace those of the existing one.\<close>

definition patched :: "victim_cacheinfo \<Rightarrow> victim_cacheinfo \<Rightarrow> victim_cacheinfo" where
  "patched d e = (let here = (\<lambda>msk. \<not> covers (dedup_bitmap d) msk) in
     e\<lparr>object_size := (if here OBJECT_SIZE_DEDUP_MASK then object_size d else object_size e),
       local_cached_popularity := (if here LOCAL_CACHED_POPULARITY_DEDUP_MASK then local_cached_popularity d else local_cached_popularity e),
       redirected_cached_popularity := (if here REDIRECTED_CACHED_POPULARITY_DEDUP_MASK then redirected_cached_popularity d
          else redirected_cached_popularity e),
       redirected_cached_reward := (if here REDIRECTED_CACHED_POPULARITY_DEDUP_MASK then redirected_cached_reward d
          else redirected_cached_reward e),
       local_reward := (if here LOCAL_REWARD_DEDUP_MASK then local_reward d else local_reward e)\<rparr>)"

lemma recover_patched:
  assumes "dedup_bitmap e = 0" and "dedup_bitmap d = dedup_bits b l r w" and "b \<or> l \<or> r \<or> w" and "\<not> (b \<and> l \<and> r \<and> w)"
  shows "VictimCacheinfo_recover d e = Inr (patched d e)"
proof -
  have status: "VictimCacheinfo_isDeduped d = Inr True" "VictimCacheinfo_isFullyDeduped d = Inr False"
    using assms(3,4) status_deduped [OF assms(2)] by simp_all
  have get: "VictimCacheinfo_getObjectSize d = Inr (if b then None else Some (object_size d))"
    "VictimCacheinfo_getLocalCachedPopularity d = Inr (if l then None else Some (local_cached_popularity d))"
    "VictimCacheinfo_getRedirectedCachedPopularity d = Inr (if r then None else Some (redirected_cached_popularity d))"
    "VictimCacheinfo_getRedirectedCachedPopularityReward d = Inr (if r then None else Some (redirected_cached_reward d))"
    "VictimCacheinfo_getLocalReward d = Inr (if w then None else Some (local_reward d))"
    using assms(2)
    by (simp_all add: VictimCacheinfo_getObjectSize_def VictimCacheinfo_getLocalCachedPopularity_def
        VictimCacheinfo_getRedirectedCachedPopularity_def VictimCacheinfo_getRedirectedCachedPopularityReward_def
        VictimCacheinfo_getLocalReward_def get_unless_def)
  show ?thesis
    using assms(1,2)
    by (cases b; cases l; cases r; cases w; simp add: VictimCacheinfo_recover_def status get patched_def victim_self_update)
qed

lemma patched_deduped: "patched (deduped c p) p = carried c p"
  by (simp add: patched_def deduped_def carried_def same_size_def)

lemma recover_spec:
  assumes "victim_complete p" and "any_same c p" and "\<not> all_same c p"
  shows "VictimCacheinfo_recover (deduped c p) p = Inr (carried c p)"
  unfolding patched_deduped [symmetric]
  by (rule recover_patched [where b = "same_size c p" and l = "same_local c p" and r = "same_redirected c p" and w = "same_reward c p"])
    (use assms in \<open>simp_all add: victim_complete_bitmap deduped_def any_same_def all_same_def\<close>)

lemma carried_close:
  "f32_close (local_cached_popularity (carried c p)) (local_cached_popularity c)"
  "f32_close (redirected_cached_popularity (carried c p)) (redirected_cached_popularity c)"
  "f32_close (local_reward (carried c p)) (local_reward c)"
  using isApproxEqual_f32_close by (simp_all add: carried_def same_defs f32_close_sym)

lemma carried_sel [simp]:
  "victim_key (carried c p) = victim_key p" "object_size (carried c p) = object_size c"
  "dedup_bitmap (carried c p) = dedup_bitmap p" "beacon_edgeidx (carried c p) = beacon_edgeidx p"
  by (simp_all add: carried_def)

lemma deduped_sel [simp]:
  "victim_key (deduped c p) = victim_key c" "beacon_edgeidx (deduped c p) = beacon_edgeidx c"
  "dedup_bitmap (deduped c p) = dedup_bits (same_size c p) (same_local c p) (same_redirected c p) (same_reward c p)"
  by (simp_all add: deduped_def)

lemma status_of_deduped [simp]:
  assumes "any_same c p"
  shows "VictimCacheinfo_isComplete (deduped c p) = Inr False" "VictimCacheinfo_isStale (deduped c p) = Inr False"
    "VictimCacheinfo_isFullyDeduped (deduped c p) = Inr (all_same c p)"
    "VictimCacheinfo_getKey (deduped c p) = Inr (victim_key c)"
  using assms status_deduped [of "deduped c p", OF deduped_sel(3)] by (simp_all add: any_same_def all_same_def)

lemma carried_all_same: "all_same c p \<Longrightarrow> carried c p = p"
  by (simp add: all_same_def carried_def same_size_def victim_self_update)

section \<open>Message format\<close>

definition opt_enc :: "u8 \<Rightarrow> u8 \<Rightarrow> u32 \<Rightarrow> u8 list" where
  "opt_enc bitmap msk x = (if covers bitmap msk then [] else u32_mem x)"

definition VictimCacheinfo_enc :: "victim_cacheinfo \<Rightarrow> u8 list" where
  "VictimCacheinfo_enc v = [dedup_bitmap v] @ Key_enc (victim_key v) @ u32_mem (beacon_edgeidx v)
     @ opt_enc (dedup_bitmap v) OBJECT_SIZE_DEDUP_MASK (object_size v)
     @ opt_enc (dedup_bitmap v) LOCAL_CACHED_POPULARITY_DEDUP_MASK (local_cached_popularity v)
     @ opt_enc (dedup_bitmap v) REDIRECTED_CACHED_POPULARITY_DEDUP_MASK (redirected_cached_popularity v)
     @ opt_enc (dedup_bitmap v) LOCAL_REWARD_DEDUP_MASK (local_reward v)"

definition VictimCacheinfo_sendable :: "victim_cacheinfo \<Rightarrow> bool" where
  "VictimCacheinfo_sendable v \<longleftrightarrow> dedup_bitmap v \<noteq> VictimCacheinfo_INVALID_BITMAP \<and> Key_wf (victim_key v)"

text \<open>What arrives: the fields that are left out, and the redirected reward, are those of a new object.\<close>

definition sent :: "victim_cacheinfo \<Rightarrow> victim_cacheinfo" where
  "sent v = v\<lparr>object_size := (if covers (dedup_bitmap v) OBJECT_SIZE_DEDUP_MASK then 0 else object_size v),
     local_cached_popularity := (if covers (dedup_bitmap v) LOCAL_CACHED_POPULARITY_DEDUP_MASK then 0 else local_cached_popularity v),
     redirected_cached_popularity := (if covers (dedup_bitmap v) REDIRECTED_CACHED_POPULARITY_DEDUP_MASK then 0
        else redirected_cached_popularity v),
     local_reward := (if covers (dedup_bitmap v) LOCAL_REWARD_DEDUP_MASK then 0 else local_reward v),
     redirected_cached_reward := 0\<rparr>"

lemma length_opt_enc: "length (opt_enc bitmap msk x) = (if covers bitmap msk then 0 else 4)"
  by (simp add: opt_enc_def)

lemma ser_unless_enc:
  assumes "q = p + word_of_nat n" and "unat p + n + length (opt_enc bitmap msk x) \<le> da_capacity a"
    and "unat p + n + length (opt_enc bitmap msk x) < 2 ^ 32" and "n = length d"
  shows "ser_unless bitmap msk x (da_put (unat p) d a, q)
    = Inr (da_put (unat p) (d @ opt_enc bitmap msk x) a, p + word_of_nat (n + length (opt_enc bitmap msk x)))"
proof -
  have q: "unat q = unat p + n" using assms unat_plus_of_nat [of p n] by simp
  have "DynamicArray_deserialize (da_put (unat p) d a) q (u32_mem x) 4 = Inr (da_put (unat q) (u32_mem x) (da_put (unat p) d a))"
    if "\<not> covers bitmap msk"
    using that assms q by (intro deserialize_ok) (simp_all add: opt_enc_def)
  then show ?thesis
    using assms(1,4) q by (simp add: ser_unless_def opt_enc_def da_put_put)
qed

lemma deser_unless_enc:
  assumes "da_holds a (unat q) (opt_enc bitmap msk x)" and "unat q + length (opt_enc bitmap msk x) < 2 ^ 32"
  shows "deser_unless bitmap msk a old q
    = Inr (if covers bitmap msk then old else x, q + word_of_nat (length (opt_enc bitmap msk x)))"
proof -
  have "DynamicArray_serialize a q 4 = Inr (u32_mem x)" if "\<not> covers bitmap msk"
    using that assms by (intro serialize_ok) (simp_all add: opt_enc_def)
  then show ?thesis by (simp add: deser_unless_def opt_enc_def)
qed

lemma VictimCacheinfo_serialize_enc:
  assumes "VictimCacheinfo_sendable v" and "unat p + length (VictimCacheinfo_enc v) \<le> da_capacity a"
    and "unat p + length (VictimCacheinfo_enc v) < 2 ^ 32"
  shows "VictimCacheinfo_serialize v a p
    = Inr (da_put (unat p) (VictimCacheinfo_enc v) a, word_of_nat (length (VictimCacheinfo_enc v)))"
proof -
  let ?b = "dedup_bitmap v" and ?k = "Key_enc (victim_key v)" and ?m = "u32_mem (beacon_edgeidx v)"
  let ?o = "opt_enc ?b OBJECT_SIZE_DEDUP_MASK (object_size v)"
  let ?l = "opt_enc ?b LOCAL_CACHED_POPULARITY_DEDUP_MASK (local_cached_popularity v)"
  let ?r = "opt_enc ?b REDIRECTED_CACHED_POPULARITY_DEDUP_MASK (redirected_cached_popularity v)"
  let ?w = "opt_enc ?b LOCAL_REWARD_DEDUP_MASK (local_reward v)"
  have valid: "?b \<noteq> VictimCacheinfo_INVALID_BITMAP" and key: "Key_wf (victim_key v)"
    using assms(1) by (simp_all add: VictimCacheinfo_sendable_def)
  define n where "n = 1 + length ?k"
  have len: "length (VictimCacheinfo_enc v) = n + 4 + length ?o + length ?l + length ?r + length ?w"
    by (simp add: VictimCacheinfo_enc_def n_def)
  note cap = assms(2) [unfolded len] and lim = assms(3) [unfolded len]
  have n1: "1 \<le> n" by (simp add: n_def)
  have p1: "unat (p + 1) = unat p + 1" using lim n1 by (simp add: unat_add_no_wrap)
  have pn: "unat (p + word_of_nat n) = unat p + n" using lim by (intro unat_plus_of_nat) simp
  have 1: "DynamicArray_deserialize a p [?b] 1 = Inr (da_put (unat p) [?b] a)"
    using cap lim n1 by (intro deserialize_ok) simp_all
  have "Key_serialize (victim_key v) (da_put (unat p) [?b] a) (p + 1)
      = Inr (da_put (unat (p + 1)) ?k (da_put (unat p) [?b] a), word_of_nat (length ?k))"
    using cap lim p1 key by (intro Key_serialize_enc) (simp_all add: n_def)
  then have 2: "Key_serialize (victim_key v) (da_put (unat p) [?b] a) (p + 1)
      = Inr (da_put (unat p) ([?b] @ ?k) a, word_of_nat (length ?k))"
    using p1 by (simp add: da_put_put)
  have pos: "p + 1 + word_of_nat (length ?k) = p + word_of_nat n" by (simp add: n_def)
  have "DynamicArray_deserialize (da_put (unat p) ([?b] @ ?k) a) (p + word_of_nat n) ?m 4
      = Inr (da_put (unat (p + word_of_nat n)) ?m (da_put (unat p) ([?b] @ ?k) a))"
    using cap lim pn by (intro deserialize_ok) simp_all
  then have 3: "DynamicArray_deserialize (da_put (unat p) ([?b] @ ?k) a) (p + word_of_nat n) ?m 4
      = Inr (da_put (unat p) (([?b] @ ?k) @ ?m) a)"
    using pn by (simp add: da_put_put n_def)
  define d where "d = ([?b] @ ?k) @ ?m"
  have d: "n + 4 = length d" by (simp add: d_def n_def)
  have 4: "p + word_of_nat n + 4 = p + word_of_nat (n + 4)" by simp
  show ?thesis
    unfolding VictimCacheinfo_serialize_def
    using valid 1 2 3 pos d 4 cap lim
      ser_unless_enc [of "p + word_of_nat (n + 4)" p "n + 4" ?b OBJECT_SIZE_DEDUP_MASK "object_size v" a d, OF refl]
      ser_unless_enc [of _ p "n + 4 + length ?o" ?b LOCAL_CACHED_POPULARITY_DEDUP_MASK "local_cached_popularity v" a "d @ ?o", OF refl]
      ser_unless_enc [of _ p "n + 4 + length ?o + length ?l" ?b REDIRECTED_CACHED_POPULARITY_DEDUP_MASK
        "redirected_cached_popularity v" a "d @ ?o @ ?l", OF refl]
      ser_unless_enc [of _ p "n + 4 + length ?o + length ?l + length ?r" ?b LOCAL_REWARD_DEDUP_MASK "local_reward v" a
        "d @ ?o @ ?l @ ?r", OF refl]
    by (simp add: validE_def d_def VictimCacheinfo_enc_def n_def add.assoc)
qed

lemma VictimCacheinfo_deserialize_enc:
  assumes "VictimCacheinfo_sendable v" and "da_holds a (unat p) (VictimCacheinfo_enc v)"
    and "unat p + length (VictimCacheinfo_enc v) < 2 ^ 32"
  shows "VictimCacheinfo_deserialize VictimCacheinfo_invalid a p = Inr (sent v, word_of_nat (length (VictimCacheinfo_enc v)))"
proof -
  let ?b = "dedup_bitmap v" and ?k = "Key_enc (victim_key v)" and ?m = "u32_mem (beacon_edgeidx v)"
  let ?o = "opt_enc ?b OBJECT_SIZE_DEDUP_MASK (object_size v)"
  let ?l = "opt_enc ?b LOCAL_CACHED_POPULARITY_DEDUP_MASK (local_cached_popularity v)"
  let ?r = "opt_enc ?b REDIRECTED_CACHED_POPULARITY_DEDUP_MASK (redirected_cached_popularity v)"
  let ?w = "opt_enc ?b LOCAL_REWARD_DEDUP_MASK (local_reward v)"
  have valid: "?b \<noteq> VictimCacheinfo_INVALID_BITMAP" and key: "Key_wf (victim_key v)"
    using assms(1) by (simp_all add: VictimCacheinfo_sendable_def)
  define n where "n = 1 + length ?k"
  have enc: "VictimCacheinfo_enc v = [?b] @ ?k @ ?m @ ?o @ ?l @ ?r @ ?w" by (simp add: VictimCacheinfo_enc_def)
  have len: "length (VictimCacheinfo_enc v) = n + 4 + length ?o + length ?l + length ?r + length ?w"
    by (simp add: enc n_def)
  have h: "da_holds a (unat p) [?b]" "da_holds a (unat p + 1) ?k" "da_holds a (unat p + n) ?m"
    "da_holds a (unat p + (n + 4)) ?o" "da_holds a (unat p + (n + 4 + length ?o)) ?l"
    "da_holds a (unat p + (n + 4 + length ?o + length ?l)) ?r"
    "da_holds a (unat p + (n + 4 + length ?o + length ?l + length ?r)) ?w"
    using assms(2) unfolding enc by (simp_all add: da_holds_append n_def ac_simps del: append.simps)
  note lim = assms(3) [unfolded len]
  have pos: "unat (p + word_of_nat i) = unat p + i" if "i \<le> length (VictimCacheinfo_enc v)" for i
    using assms(3) that by (intro unat_plus_of_nat) simp
  have 1: "DynamicArray_serialize a p 1 = Inr [?b]"
    using h(1) lim by (intro serialize_ok) (simp_all add: n_def)
  have p1: "unat (p + 1) = unat p + 1" using pos [of 1] by (simp add: enc)
  have 2: "Key_deserialize y a (p + 1) = Inr (victim_key v, word_of_nat (length ?k))" for y
    using h(2) lim p1 key by (intro Key_deserialize_enc) (simp_all add: n_def)
  have 3: "DynamicArray_serialize a (p + 1 + word_of_nat (length ?k)) 4 = Inr ?m"
    using h(3) lim pos [of n] by (intro serialize_ok) (simp_all add: n_def len add.assoc)
  have 4: "deser_unless ?b msk a old (p + word_of_nat i) = Inr (if covers ?b msk then old else x,
      p + word_of_nat (i + length (opt_enc ?b msk x)))"
    if "da_holds a (unat p + i) (opt_enc ?b msk x)" "i + length (opt_enc ?b msk x) \<le> length (VictimCacheinfo_enc v)" for msk old i x
  proof -
    have i: "unat (p + word_of_nat i) = unat p + i" using that(2) by (intro pos) simp
    show ?thesis
      using deser_unless_enc [of a "p + word_of_nat i" ?b msk x old] i that assms(3) by (simp add: add.assoc)
  qed
  define ks where "ks = (word_of_nat (length ?k) :: u32)"
  define q where "q i = p + word_of_nat i" for i
  have end3: "p + 1 + ks + 4 = q (n + 4)" by (simp add: n_def ks_def q_def)
  have fin: "q (n + 4 + length ?o + length ?l + length ?r + length ?w) - p = word_of_nat (length (VictimCacheinfo_enc v))"
    by (simp add: q_def len)
  note fields = 4 [OF h(4), folded q_def] 4 [OF h(5), folded q_def] 4 [OF h(6), folded q_def] 4 [OF h(7), folded q_def]
  show ?thesis
    using valid 1 2 [folded ks_def] 3 [folded ks_def] end3 fin fields
    by (simp add: VictimCacheinfo_deserialize_def VictimCacheinfo_invalid_def validE_def Let_def sent_def len
        del: length_Key_enc)
qed

lemma VictimCacheinfo_serialize_fs_enc:
  "VictimCacheinfo_sendable v \<Longrightarrow>
   VictimCacheinfo_serialize_fs v out = Inr (out @ VictimCacheinfo_enc v, word_of_nat (length (VictimCacheinfo_enc v)))"
  by (simp add: VictimCacheinfo_serialize_fs_def VictimCacheinfo_sendable_def validE_def key_stream.fs_ser_enc
      VictimCacheinfo_enc_def fs_ser_unless_def opt_enc_def fs_write_def)

lemma fs_deser_unless_enc:
  "fs_deser_unless bitmap msk old (good_fs (opt_enc bitmap msk x @ rest), sz)
   = (if covers bitmap msk then old else x, good_fs rest, sz + word_of_nat (length (opt_enc bitmap msk x)))"
  by (simp add: fs_deser_unless_def opt_enc_def)

lemma VictimCacheinfo_deserialize_fs_enc:
  assumes "VictimCacheinfo_sendable v"
  shows "VictimCacheinfo_deserialize_fs VictimCacheinfo_invalid (good_fs (VictimCacheinfo_enc v @ rest))
    = Inr (sent v, good_fs rest, word_of_nat (length (VictimCacheinfo_enc v)))"
  using assms
  by (simp add: VictimCacheinfo_deserialize_fs_def VictimCacheinfo_sendable_def validE_def key_stream.fs_deser_enc
      VictimCacheinfo_enc_def fs_deser_unless_enc VictimCacheinfo_invalid_def sent_def Let_def)

text \<open>An object that has nothing to lose on the way is a codec in the sense of the message contract.\<close>

definition VictimCacheinfo_wf :: "victim_cacheinfo \<Rightarrow> bool" where
  "VictimCacheinfo_wf v \<longleftrightarrow> VictimCacheinfo_sendable v \<and> sent v = v"

interpretation victim_wire: wire_codec VictimCacheinfo_wf VictimCacheinfo_enc "\<lambda>y. y = VictimCacheinfo_invalid"
    VictimCacheinfo_serialize VictimCacheinfo_deserialize
  by unfold_locales
    (use VictimCacheinfo_deserialize_enc in \<open>auto simp: VictimCacheinfo_wf_def VictimCacheinfo_serialize_enc\<close>)

interpretation victim_stream: stream_codec VictimCacheinfo_wf VictimCacheinfo_enc "\<lambda>y. y = VictimCacheinfo_invalid"
    VictimCacheinfo_serialize_fs VictimCacheinfo_deserialize_fs
  by unfold_locales
    (use VictimCacheinfo_deserialize_fs_enc in \<open>auto simp: VictimCacheinfo_wf_def VictimCacheinfo_serialize_fs_enc\<close>)

section \<open>Results\<close>

text \<open>C17: Deduplication loses nothing but differences below the tolerance. For a complete object and the complete
  object sent before it for the same key, what the receiver then holds (the object itself, the
  previous one when nothing had to be sent, or the recovered one) is complete, has the same key and object
  size, and each of its three numbers is equal to the sender's or at most 0.1 from it.\<close>

theorem victim_dedup_recover:
  assumes "victim_complete c" and "victim_complete p" and "victim_key c = victim_key p"
    and "length (keystr (victim_key c)) < 2 ^ 31"
  shows "\<exists>v r. VictimCacheinfo_dedup c p = Inr v
    \<and> (if VictimCacheinfo_isComplete v = Inr True then r = v
        else if VictimCacheinfo_isFullyDeduped v = Inr True then r = p
        else VictimCacheinfo_recover v p = Inr r)
    \<and> VictimCacheinfo_isComplete r = Inr True \<and> victim_key r = victim_key c \<and> object_size r = object_size c
    \<and> f32_close (local_cached_popularity r) (local_cached_popularity c)
    \<and> f32_close (redirected_cached_popularity r) (redirected_cached_popularity c)
    \<and> f32_close (local_reward r) (local_reward c)"
proof (cases "any_same c p")
  case False
  then show ?thesis
    using dedup_spec [OF assms(1,2,4)] victim_complete_bitmap [OF assms(1)] by auto
next
  case True
  have c: "VictimCacheinfo_dedup c p = Inr (deduped c p)" using dedup_spec [OF assms(1,2,4)] True by simp
  have p: "dedup_bitmap p = 0" by (rule victim_complete_bitmap [OF assms(2)])
  have "(if VictimCacheinfo_isFullyDeduped (deduped c p) = Inr True then carried c p = p
        else VictimCacheinfo_recover (deduped c p) p = Inr (carried c p))"
    using True recover_spec [OF assms(2) True] carried_all_same by simp
  then show ?thesis
    using c True p carried_close [of c p] assms(3) by (intro exI [of _ "deduped c p"] exI [of _ "carried c p"]) simp
qed

definition example_victim :: "u32 \<Rightarrow> u32 \<Rightarrow> victim_cacheinfo" where
  "example_victim sz reward = VictimCacheinfo_new_reward (Key [1]) sz 0 0 reward 0"

theorem victim_dedup_recover_witness:
  "\<exists>v r. VictimCacheinfo_dedup (example_victim 8 1065353216) (example_victim 8 1073741824) = Inr v
    \<and> (if VictimCacheinfo_isComplete v = Inr True then r = v
        else if VictimCacheinfo_isFullyDeduped v = Inr True then r = example_victim 8 1073741824
        else VictimCacheinfo_recover v (example_victim 8 1073741824) = Inr r)
    \<and> VictimCacheinfo_isComplete r = Inr True \<and> victim_key r = victim_key (example_victim 8 1065353216)
    \<and> object_size r = object_size (example_victim 8 1065353216)
    \<and> f32_close (local_cached_popularity r) (local_cached_popularity (example_victim 8 1065353216))
    \<and> f32_close (redirected_cached_popularity r) (redirected_cached_popularity (example_victim 8 1065353216))
    \<and> f32_close (local_reward r) (local_reward (example_victim 8 1065353216))"
  by (rule victim_dedup_recover) (simp_all add: example_victim_def VictimCacheinfo_new_reward_def victim_complete_def)

text \<open>The numbers from 0 to 1 in steps of 1/16, as bit patterns.\<close>

definition drift_rewards :: "u32 list" where
  "drift_rewards = [0, 1031798784, 1040187392, 1044381696, 1048576000, 1050673152, 1052770304, 1054867456, 1056964608, 1058013184, 1059061760, 1060110336, 1061158912, 1062207488, 1063256064, 1064304640, 1065353216]"

text \<open>The tolerance accumulates. The sender compares with what it sent last, not with what the receiver
  holds: there is a sequence of complete objects in which every object is withheld as unchanged with respect to the one
  before, while the reward grows from 0 to 1 and the receiver still holds 0.\<close>

theorem dedup_drift:
  "\<exists>cs. length cs = 17 \<and> list_all (\<lambda>c. VictimCacheinfo_isComplete c = Inr True) cs
    \<and> list_all (\<lambda>(c, p). bindE (VictimCacheinfo_dedup c p) VictimCacheinfo_isFullyDeduped = Inr True) (zip (tl cs) cs)
    \<and> f32_val (local_reward (hd cs)) = Fin 0 \<and> f32_val (local_reward (last cs)) = Fin (2 ^ 149)"
proof (intro exI conjI)
  show "length (map (example_victim 8) drift_rewards) = 17" by code_simp
  show "list_all (\<lambda>c. VictimCacheinfo_isComplete c = Inr True) (map (example_victim 8) drift_rewards)" by code_simp
  show "list_all (\<lambda>(c, p). bindE (VictimCacheinfo_dedup c p) VictimCacheinfo_isFullyDeduped = Inr True)
    (zip (tl (map (example_victim 8) drift_rewards)) (map (example_victim 8) drift_rewards))" by code_simp
  show "f32_val (local_reward (hd (map (example_victim 8) drift_rewards))) = Fin 0" by code_simp
  show "f32_val (local_reward (last (map (example_victim 8) drift_rewards))) = Fin (2 ^ 149)" by code_simp
qed

end
