(* ===== verification/Keyed_List.thy ===== *)
theory Keyed_List
  imports Daco_Prelude
begin

text \<open>
  Lists that are searched by a key of their elements, as the program does with \<open>std::list\<close> where order matters
  (\<open>KVListHelper\<close> in \<open>src/src/common/kv_list_helper_impl.h\<close>, and the searches of the victim classes). A search gives
  the position of the first match or the length of the list, the end iterator. For lists without duplicate keys,
  \<open>kmap\<close> is the map the list represents, and replacing, erasing and appending at the found position are the
  updates of that map.
\<close>

fun find_by :: "('a \<Rightarrow> 'k) \<Rightarrow> 'k \<Rightarrow> 'a list \<Rightarrow> nat" where
  "find_by f k [] = 0"
| "find_by f k (x # xs) = (if f x = k then 0 else Suc (find_by f k xs))"

definition KVListHelper_findVFromListForK :: "'k \<Rightarrow> ('k \<times> 'v) list \<Rightarrow> nat" where
  "KVListHelper_findVFromListForK k xs = find_by fst k xs"

definition erase_at :: "nat \<Rightarrow> 'a list \<Rightarrow> 'a list" where
  "erase_at i xs = take i xs @ drop (Suc i) xs"

definition kmap :: "('a \<Rightarrow> 'k) \<Rightarrow> 'a list \<Rightarrow> 'k \<rightharpoonup> 'a" where
  "kmap f xs = map_of (map (\<lambda>x. (f x, x)) xs)"

lemma kmap_simps [simp]:
  "kmap f [] = Map.empty" "kmap f (x # xs) = (kmap f xs)(f x \<mapsto> x)"
  by (simp_all add: kmap_def)

lemma kmap_None_iff: "kmap f xs k = None \<longleftrightarrow> k \<notin> f ` set xs"
  by (induction xs) auto

lemma kmap_SomeD: "kmap f xs k = Some x \<Longrightarrow> x \<in> set xs \<and> f x = k"
  by (induction xs) (auto split: if_splits)

lemma dom_kmap: "dom (kmap f xs) = f ` set xs"
  using kmap_None_iff [of f xs] by (auto simp: dom_def)

lemma kmap_Some_iff:
  assumes "distinct (map f xs)"
  shows "kmap f xs k = Some x \<longleftrightarrow> x \<in> set xs \<and> f x = k"
  using assms by (induction xs) (auto simp: image_iff dest: kmap_SomeD)

lemma ran_kmap: "distinct (map f xs) \<Longrightarrow> ran (kmap f xs) = set xs"
  by (auto simp: ran_def kmap_Some_iff)

lemma kmap_append: "kmap f (xs @ ys) k = (case kmap f xs k of None \<Rightarrow> kmap f ys k | Some x \<Rightarrow> Some x)"
  by (induction xs) auto

lemma find_by_le: "find_by f k xs \<le> length xs"
  by (induction xs) auto

lemma find_by_end_iff [simp]: "find_by f k xs = length xs \<longleftrightarrow> kmap f xs k = None"
  by (induction xs) auto

lemma find_by_nth: "kmap f xs k = Some x \<Longrightarrow> find_by f k xs < length xs \<and> xs ! find_by f k xs = x"
  by (induction xs) (auto split: if_splits)

lemma map_f_update: "kmap f xs k = Some x \<Longrightarrow> f y = k \<Longrightarrow> map f (xs[find_by f k xs := y]) = map f xs"
  by (induction xs) (auto split: if_splits)

lemma kmap_update: "kmap f xs k = Some x \<Longrightarrow> f y = k \<Longrightarrow> kmap f (xs[find_by f k xs := y]) = (kmap f xs)(k \<mapsto> y)"
  by (induction xs) (auto simp: fun_eq_iff split: if_splits)

lemma kmap_snoc: "kmap f xs (f y) = None \<Longrightarrow> kmap f (xs @ [y]) = (kmap f xs)(f y \<mapsto> y)"
  by (induction xs) (auto simp: fun_eq_iff split: if_splits)

text \<open>Erasing at the found position removes the elements with the key.\<close>

lemma erase_at_found: "distinct (map f xs) \<Longrightarrow> erase_at (find_by f k xs) xs = filter (\<lambda>x. f x \<noteq> k) xs"
proof (induction xs)
  case (Cons x xs)
  have "filter (\<lambda>y. f y \<noteq> k) xs = xs" if "f x = k"
    using Cons.prems that by (intro filter_True) (auto simp: image_iff)
  then show ?case using Cons by (auto simp: erase_at_def)
qed (simp add: erase_at_def)

lemma distinct_filter_map: "distinct (map f xs) \<Longrightarrow> distinct (map f (filter P xs))"
  by (rule distinct_map_filter)

lemma kmap_eqI:
  assumes "distinct (map f xs)" and "\<And>x. m (f x) = Some x \<longleftrightarrow> x \<in> set xs" and "\<And>k x. m k = Some x \<Longrightarrow> f x = k"
  shows "kmap f xs = m"
proof
  fix k
  show "kmap f xs k = m k"
  proof (cases "m k")
    case None
    then have "k \<notin> f ` set xs" using assms(2) by force
    then show ?thesis using None by (simp add: kmap_None_iff)
  next
    case (Some x)
    then show ?thesis using assms by (simp add: kmap_Some_iff) metis
  qed
qed

lemma kmap_filter:
  assumes "distinct (map f xs)"
  shows "kmap f (filter (\<lambda>x. f x \<noteq> k) xs) = (kmap f xs)(k := None)"
  by (rule kmap_eqI) (use assms in \<open>auto simp: distinct_filter_map kmap_Some_iff split: if_splits\<close>)

lemma distinct_sort_map: "distinct (map f xs) \<Longrightarrow> distinct (map f (sort_key g xs))"
  by (simp add: distinct_map distinct_sort)

lemma kmap_sort:
  assumes "distinct (map f xs)"
  shows "kmap f (sort_key g xs) = kmap f xs"
  by (rule kmap_eqI) (use assms in \<open>auto simp: distinct_sort_map kmap_Some_iff\<close>)

text \<open>Lists built by emitting at most one element with the same key per element, and lists changed element-wise.\<close>

lemma kmap_concat:
  assumes "distinct (map f xs)" and "\<And>x. x \<in> set xs \<Longrightarrow> e x = (case g x of None \<Rightarrow> [] | Some y \<Rightarrow> [y])"
    and "\<And>x y. x \<in> set xs \<Longrightarrow> g x = Some y \<Longrightarrow> f y = f x"
  shows "kmap f (concat (map e xs)) k = Option.bind (kmap f xs k) g" "distinct (map f (concat (map e xs)))"
proof -
  have "kmap f (concat (map e xs)) k = Option.bind (kmap f xs k) g \<and> distinct (map f (concat (map e xs)))
      \<and> f ` set (concat (map e xs)) \<subseteq> f ` set xs"
    using assms
  proof (induction xs)
    case (Cons x xs)
    have IH: "kmap f (concat (map e xs)) k = Option.bind (kmap f xs k) g \<and> distinct (map f (concat (map e xs)))
      \<and> f ` set (concat (map e xs)) \<subseteq> f ` set xs"
      by (rule Cons.IH) (use Cons.prems in simp_all)
    have new: "f x \<notin> f ` set (concat (map e xs))" "kmap f xs (f x) = None" "f x \<notin> f ` set xs"
      using Cons.prems(1) IH by (auto simp: kmap_None_iff simp del: set_concat)
    show ?case
    proof (cases "g x")
      case None
      then show ?thesis using IH new Cons.prems(2) [of x] by (auto simp del: set_concat)
    next
      case (Some y)
      then show ?thesis using IH new Cons.prems(2,3) [of x] by (auto simp del: set_concat)
    qed
  qed simp
  then show "kmap f (concat (map e xs)) k = Option.bind (kmap f xs k) g" "distinct (map f (concat (map e xs)))" by simp_all
qed

lemma kmap_map: "(\<And>x. f (h x) = f x) \<Longrightarrow> kmap f (map h xs) k = map_option h (kmap f xs k)"
  by (induction xs) auto

section \<open>Lists of pairs\<close>

text \<open>Find the key, append it with a default value if it is not there, and change the value in place.\<close>

definition kv_update :: "'k \<Rightarrow> 'v \<Rightarrow> ('v \<Rightarrow> 'v) \<Rightarrow> ('k \<times> 'v) list \<Rightarrow> ('k \<times> 'v) list" where
  "kv_update k d f xs =
     (let i = KVListHelper_findVFromListForK k xs
      in if i = length xs then xs @ [(k, f d)] else xs[i := (fst (xs ! i), f (snd (xs ! i)))])"

definition kv_get :: "'k \<Rightarrow> ('k \<times> 'v) list \<Rightarrow> 'v option" where
  "kv_get k xs = (let i = KVListHelper_findVFromListForK k xs in if i = length xs then None else Some (snd (xs ! i)))"

lemma kv_get_eq: "kv_get k xs = map_option snd (kmap fst xs k)"
  by (cases "kmap fst xs k") (auto simp: kv_get_def KVListHelper_findVFromListForK_def Let_def dest: find_by_nth)

lemma kv_update_cases:
  assumes "kmap fst xs k = None"
  shows "kv_update k d f xs = xs @ [(k, f d)]"
  using assms by (simp add: kv_update_def KVListHelper_findVFromListForK_def)

lemma kv_update_present:
  assumes "kmap fst xs k = Some x"
  shows "kv_update k d f xs = xs[find_by fst k xs := (k, f (snd x))]"
proof -
  have "find_by fst k xs < length xs" "xs ! find_by fst k xs = x" "fst x = k" using find_by_nth [OF assms] kmap_SomeD [OF assms] by simp_all
  then show ?thesis using assms by (simp add: kv_update_def KVListHelper_findVFromListForK_def)
qed

lemma kv_get_update:
  "kv_get l (kv_update k d f xs) = (if l = k then Some (f (case kv_get k xs of None \<Rightarrow> d | Some v \<Rightarrow> v)) else kv_get l xs)"
  by (cases "kmap fst xs k")
    (auto simp: kv_get_eq kv_update_cases kv_update_present kmap_snoc kmap_update)

lemma distinct_kv_update: "distinct (map fst xs) \<Longrightarrow> distinct (map fst (kv_update k d f xs))"
  by (cases "kmap fst xs k")
    (auto simp: kv_update_cases kv_update_present map_f_update kmap_None_iff)

lemma keys_kv_update: "fst ` set (kv_update k d f xs) = insert k (fst ` set xs)"
proof -
  have "dom (kmap fst (kv_update k d f xs)) = insert k (dom (kmap fst xs))"
    by (cases "kmap fst xs k") (auto simp: kv_update_cases kv_update_present kmap_snoc kmap_update)
  then show ?thesis by (simp add: dom_kmap)
qed

lemma find_by_update: "kmap f xs k = Some x \<Longrightarrow> f y = k \<Longrightarrow> find_by f k (xs[find_by f k xs := y]) = find_by f k xs"
  by (induction xs) (auto split: if_splits)

lemma kv_at:
  assumes "KVListHelper_findVFromListForK k ds \<noteq> length ds"
  obtains d where "kmap fst ds k = Some (k, d)" and "ds ! KVListHelper_findVFromListForK k ds = (k, d)"
    and "kv_get k ds = Some d" and "(k, d) \<in> set ds"
proof -
  obtain x where x: "kmap fst ds k = Some x"
    using assms by (cases "kmap fst ds k") (auto simp: KVListHelper_findVFromListForK_def)
  then have "fst x = k" "x \<in> set ds" using kmap_SomeD by fastforce+
  then show ?thesis using that [of "snd x"] x find_by_nth [OF x]
    by (metis KVListHelper_findVFromListForK_def kv_get_eq option.simps(9) prod.collapse)
qed

lemma kv_end: "KVListHelper_findVFromListForK k ds = length ds \<longleftrightarrow> kv_get k ds = None"
  by (simp add: KVListHelper_findVFromListForK_def kv_get_eq)

lemma kv_get_replace:
  assumes "kmap fst ds k = Some (k, d)"
  shows "kv_get l (ds[KVListHelper_findVFromListForK k ds := (k, d')]) = (if l = k then Some d' else kv_get l ds)"
  using assms by (simp add: kv_get_eq KVListHelper_findVFromListForK_def kmap_update)

lemma kv_get_kmap: "kv_get k ds = Some d \<Longrightarrow> kmap fst ds k = Some (k, d)"
  by (auto simp: kv_get_eq) (metis fst_conv kmap_SomeD)

lemma count_erase:
  "kmap f xs k = Some x \<Longrightarrow> count_list (map f (erase_at (find_by f k xs) xs)) l = count_list (map f xs) l - (if l = k then 1 else 0)"
  by (induction xs) (auto simp: erase_at_def split: if_splits)

end
