(* ===== verification/Victim_Syncset.thy ===== *)
theory Victim_Syncset
  imports Victim_Cacheinfo Dirinfo_Set Keyed_List
begin

text \<open>
  \<open>VictimSyncset\<close> (\<open>src/src/core/victim/victim_syncset.c\<close>): the message part with which an edge node tells a neighbour
  how much room its cache has left, which objects it may evict and where the keys it is the beacon of are
  cached. It carries sequence numbers and is sent complete or compressed against the one sent before: the
  room as a signed 32-bit difference, the victims without their unchanged fields, the directory sets as
  deltas. Bitmap, masks and the order of the operations on them are those of the source. \<open>chk\<close> is
  \<open>Config::isAssert()\<close>, which switches the checks over whole lists on.
\<close>

record victim_syncset =
  compressed_bitmap :: u8
  seqnum :: u64
  enforce_complete :: bool
  cache_margin_bytes :: u64
  cache_margin_delta_bytes :: u32
  local_synced_victims :: "victim_cacheinfo list"
  local_beaconed_victims :: "(key \<times> dirinfo_set) list"

definition VictimSyncset_INVALID_BITMAP :: u8 where "VictimSyncset_INVALID_BITMAP = 255"
definition VictimSyncset_COMPLETE_BITMAP :: u8 where "VictimSyncset_COMPLETE_BITMAP = 0"
definition COMPRESS_MASK :: u8 where "COMPRESS_MASK = 1"
definition CACHE_MARGIN_BYTES_DELTA_MASK :: u8 where "CACHE_MARGIN_BYTES_DELTA_MASK = 2 OR COMPRESS_MASK"
definition LOCAL_SYNCED_VICTIMS_DEDUP_MASK :: u8 where "LOCAL_SYNCED_VICTIMS_DEDUP_MASK = 4 OR COMPRESS_MASK"
definition LOCAL_SYNCED_VICTIMS_EMPTY_MASK :: u8 where "LOCAL_SYNCED_VICTIMS_EMPTY_MASK = 8"
definition LOCAL_BEACONED_VICTIMS_DEDUP_MASK :: u8 where "LOCAL_BEACONED_VICTIMS_DEDUP_MASK = 16 OR COMPRESS_MASK"
definition LOCAL_BEACONED_VICTIMS_EMPTY_MASK :: u8 where "LOCAL_BEACONED_VICTIMS_EMPTY_MASK = 32"
definition FULLY_COMPRESSED_BITMAP :: u8 where "FULLY_COMPRESSED_BITMAP = 63"

section \<open>Checks and status\<close>

definition VictimSyncset_checkValidity :: "victim_syncset \<Rightarrow> 'a exec \<Rightarrow> 'a exec" where
  "VictimSyncset_checkValidity s k = assertE (compressed_bitmap s \<noteq> VictimSyncset_INVALID_BITMAP) k"

fun all_complete :: "('a \<Rightarrow> bool exec) \<Rightarrow> 'a list \<Rightarrow> bool exec" where
  "all_complete f [] = Inr True"
| "all_complete f (x # xs) = bindE (f x) (\<lambda>c. if \<not> c then Inr False else all_complete f xs)"

definition VictimSyncset_assertAtLeastOneCacheinfoDeduped :: "victim_syncset \<Rightarrow> 'a exec \<Rightarrow> 'a exec" where
  "VictimSyncset_assertAtLeastOneCacheinfoDeduped s k = assertE (0 < length (local_synced_victims s)) k"

definition VictimSyncset_assertAllCacheinfosComplete :: "bool \<Rightarrow> victim_syncset \<Rightarrow> 'a exec \<Rightarrow> 'a exec" where
  "VictimSyncset_assertAllCacheinfosComplete chk s k =
     assertE (0 < length (local_synced_victims s))
       (if chk then bindE (all_complete VictimCacheinfo_isComplete (local_synced_victims s)) (\<lambda>c. assertE c k) else k)"

definition VictimSyncset_assertAtLeastOneDirinfoSetCompressed :: "victim_syncset \<Rightarrow> 'a exec \<Rightarrow> 'a exec" where
  "VictimSyncset_assertAtLeastOneDirinfoSetCompressed s k = assertE (0 < length (local_beaconed_victims s)) k"

definition VictimSyncset_assertAllDirinfoSetsComplete :: "bool \<Rightarrow> victim_syncset \<Rightarrow> 'a exec \<Rightarrow> 'a exec" where
  "VictimSyncset_assertAllDirinfoSetsComplete chk s k =
     assertE (0 < length (local_beaconed_victims s))
       (if chk then bindE (all_complete (\<lambda>(key, ds). DirinfoSet_isComplete ds) (local_beaconed_victims s)) (\<lambda>c. assertE c k)
        else k)"

definition VictimSyncset_isComplete :: "victim_syncset \<Rightarrow> bool exec" where
  "VictimSyncset_isComplete s =
     VictimSyncset_checkValidity s
       (Inr (compressed_bitmap s AND COMPRESS_MASK = VictimSyncset_COMPLETE_BITMAP AND COMPRESS_MASK))"

definition VictimSyncset_isCompressed :: "victim_syncset \<Rightarrow> bool exec" where
  "VictimSyncset_isCompressed s =
     VictimSyncset_checkValidity s
       (Inr (covers (compressed_bitmap s) CACHE_MARGIN_BYTES_DELTA_MASK
         \<or> covers (compressed_bitmap s) LOCAL_SYNCED_VICTIMS_DEDUP_MASK
         \<or> covers (compressed_bitmap s) LOCAL_BEACONED_VICTIMS_DEDUP_MASK))"

section \<open>Construction\<close>

definition VictimSyncset_invalid :: victim_syncset where
  "VictimSyncset_invalid = \<lparr>compressed_bitmap = VictimSyncset_INVALID_BITMAP, seqnum = 0, enforce_complete = False,
     cache_margin_bytes = 0, cache_margin_delta_bytes = 0, local_synced_victims = [], local_beaconed_victims = []\<rparr>"

definition VictimSyncset_empty :: "u64 \<Rightarrow> bool \<Rightarrow> victim_syncset" where
  "VictimSyncset_empty n e =
     \<lparr>compressed_bitmap = VictimSyncset_COMPLETE_BITMAP OR LOCAL_SYNCED_VICTIMS_EMPTY_MASK OR LOCAL_BEACONED_VICTIMS_EMPTY_MASK,
      seqnum = n, enforce_complete = e, cache_margin_bytes = 0, cache_margin_delta_bytes = 0,
      local_synced_victims = [], local_beaconed_victims = []\<rparr>"

definition VictimSyncset_new ::
    "bool \<Rightarrow> u64 \<Rightarrow> bool \<Rightarrow> u64 \<Rightarrow> victim_cacheinfo list \<Rightarrow> (key \<times> dirinfo_set) list \<Rightarrow> victim_syncset exec" where
  "VictimSyncset_new chk n e margin synced beaconed =
     (let s = \<lparr>compressed_bitmap = VictimSyncset_COMPLETE_BITMAP, seqnum = n, enforce_complete = e, cache_margin_bytes = margin,
                cache_margin_delta_bytes = 0, local_synced_victims = synced, local_beaconed_victims = []\<rparr>
      in bindE (if length synced = 0
                then Inr (s\<lparr>compressed_bitmap := compressed_bitmap s OR LOCAL_SYNCED_VICTIMS_EMPTY_MASK\<rparr>)
                else VictimSyncset_assertAllCacheinfosComplete chk s (Inr s)) (\<lambda>s.
         let s = s\<lparr>local_beaconed_victims := beaconed\<rparr>
         in if length beaconed = 0
            then Inr (s\<lparr>compressed_bitmap := compressed_bitmap s OR LOCAL_BEACONED_VICTIMS_EMPTY_MASK\<rparr>)
            else VictimSyncset_assertAllDirinfoSetsComplete chk s (Inr s)))"

definition VictimSyncset_getFullCompressedVictimSyncset :: "u64 \<Rightarrow> bool \<Rightarrow> victim_syncset" where
  "VictimSyncset_getFullCompressedVictimSyncset n e = VictimSyncset_invalid\<lparr>compressed_bitmap := FULLY_COMPRESSED_BITMAP,
     seqnum := n, enforce_complete := e, cache_margin_bytes := 0, cache_margin_delta_bytes := 0,
     local_synced_victims := [], local_beaconed_victims := []\<rparr>"

section \<open>Access\<close>

definition VictimSyncset_getSeqnum :: "victim_syncset \<Rightarrow> u64 exec" where
  "VictimSyncset_getSeqnum s = VictimSyncset_checkValidity s (Inr (seqnum s))"

definition VictimSyncset_setSeqnum :: "u64 \<Rightarrow> victim_syncset \<Rightarrow> victim_syncset exec" where
  "VictimSyncset_setSeqnum n s = VictimSyncset_checkValidity s (Inr (s\<lparr>seqnum := n\<rparr>))"

definition VictimSyncset_isEnforceComplete :: "victim_syncset \<Rightarrow> bool exec" where
  "VictimSyncset_isEnforceComplete s = VictimSyncset_checkValidity s (Inr (enforce_complete s))"

definition VictimSyncset_setEnforceComplete :: "bool \<Rightarrow> victim_syncset \<Rightarrow> victim_syncset exec" where
  "VictimSyncset_setEnforceComplete e s = VictimSyncset_checkValidity s (Inr (s\<lparr>enforce_complete := e\<rparr>))"

text \<open>The room: the bytes if they are complete, the difference otherwise.\<close>

definition VictimSyncset_getCacheMarginBytesOrDelta :: "victim_syncset \<Rightarrow> (u64 + u32) exec" where
  "VictimSyncset_getCacheMarginBytesOrDelta s =
     VictimSyncset_checkValidity s
       (Inr (if covers (compressed_bitmap s) CACHE_MARGIN_BYTES_DELTA_MASK then Inr (cache_margin_delta_bytes s)
             else Inl (cache_margin_bytes s)))"

text \<open>The lists: whether they are complete, and the list. One getter copies the list, the other returns a
  pointer to the member, so only the first looks at the mark for empty lists.\<close>

definition VictimSyncset_getLocalSyncedVictims :: "bool \<Rightarrow> victim_syncset \<Rightarrow> (bool \<times> victim_cacheinfo list) exec" where
  "VictimSyncset_getLocalSyncedVictims chk s =
     VictimSyncset_checkValidity s
       (let with_complete = (\<not> covers (compressed_bitmap s) LOCAL_SYNCED_VICTIMS_DEDUP_MASK)
        in if covers (compressed_bitmap s) LOCAL_SYNCED_VICTIMS_EMPTY_MASK then Inr (with_complete, [])
           else (if \<not> with_complete then VictimSyncset_assertAtLeastOneCacheinfoDeduped s
                 else VictimSyncset_assertAllCacheinfosComplete chk s) (Inr (with_complete, local_synced_victims s)))"

definition VictimSyncset_getLocalSyncedVictimsPtr :: "bool \<Rightarrow> victim_syncset \<Rightarrow> (bool \<times> victim_cacheinfo list) exec" where
  "VictimSyncset_getLocalSyncedVictimsPtr chk s =
     VictimSyncset_checkValidity s
       (let with_complete = (\<not> covers (compressed_bitmap s) LOCAL_SYNCED_VICTIMS_DEDUP_MASK);
            is_empty = covers (compressed_bitmap s) LOCAL_SYNCED_VICTIMS_EMPTY_MASK
        in if is_empty then Inr (with_complete, local_synced_victims s)
           else (if with_complete then VictimSyncset_assertAllCacheinfosComplete chk s
                 else VictimSyncset_assertAtLeastOneCacheinfoDeduped s) (Inr (with_complete, local_synced_victims s)))"

definition VictimSyncset_getLocalBeaconedVictims :: "bool \<Rightarrow> victim_syncset \<Rightarrow> (bool \<times> (key \<times> dirinfo_set) list) exec" where
  "VictimSyncset_getLocalBeaconedVictims chk s =
     VictimSyncset_checkValidity s
       (let with_complete = (\<not> covers (compressed_bitmap s) LOCAL_BEACONED_VICTIMS_DEDUP_MASK)
        in if covers (compressed_bitmap s) LOCAL_BEACONED_VICTIMS_EMPTY_MASK then Inr (with_complete, [])
           else (if \<not> with_complete then VictimSyncset_assertAtLeastOneDirinfoSetCompressed s
                 else VictimSyncset_assertAllDirinfoSetsComplete chk s) (Inr (with_complete, local_beaconed_victims s)))"

definition VictimSyncset_getLocalBeaconedVictimsPtr :: "bool \<Rightarrow> victim_syncset \<Rightarrow> (bool \<times> (key \<times> dirinfo_set) list) exec" where
  "VictimSyncset_getLocalBeaconedVictimsPtr chk s =
     VictimSyncset_checkValidity s
       (let with_complete = (\<not> covers (compressed_bitmap s) LOCAL_BEACONED_VICTIMS_DEDUP_MASK);
            is_empty = covers (compressed_bitmap s) LOCAL_BEACONED_VICTIMS_EMPTY_MASK
        in if is_empty then Inr (with_complete, local_beaconed_victims s)
           else (if with_complete then VictimSyncset_assertAllDirinfoSetsComplete chk s
                 else VictimSyncset_assertAtLeastOneDirinfoSetCompressed s) (Inr (with_complete, local_beaconed_victims s)))"

section \<open>Setting complete parts\<close>

text \<open>The bit of the part goes, and the compression bit with it when no other part is compressed.\<close>

definition clear_compressed :: "u8 \<Rightarrow> victim_syncset \<Rightarrow> victim_syncset exec" where
  "clear_compressed msk s =
     (let s = s\<lparr>compressed_bitmap := compressed_bitmap s AND NOT (msk AND NOT COMPRESS_MASK)\<rparr>
      in bindE (VictimSyncset_isCompressed s) (\<lambda>c.
         Inr (if \<not> c then s\<lparr>compressed_bitmap := compressed_bitmap s AND NOT COMPRESS_MASK\<rparr> else s)))"

definition VictimSyncset_setCacheMarginBytes :: "u64 \<Rightarrow> victim_syncset \<Rightarrow> victim_syncset exec" where
  "VictimSyncset_setCacheMarginBytes margin s =
     VictimSyncset_checkValidity s
       (bindE (clear_compressed CACHE_MARGIN_BYTES_DELTA_MASK s) (\<lambda>s.
        Inr (s\<lparr>cache_margin_bytes := margin, cache_margin_delta_bytes := 0\<rparr>)))"

definition VictimSyncset_setLocalSyncedVictims :: "bool \<Rightarrow> victim_cacheinfo list \<Rightarrow> victim_syncset \<Rightarrow> victim_syncset exec" where
  "VictimSyncset_setLocalSyncedVictims chk victims s =
     VictimSyncset_checkValidity s
       (bindE (clear_compressed LOCAL_SYNCED_VICTIMS_DEDUP_MASK s) (\<lambda>s.
        let s = s\<lparr>local_synced_victims := victims\<rparr>
        in if length victims = 0
           then Inr (s\<lparr>compressed_bitmap := compressed_bitmap s OR LOCAL_SYNCED_VICTIMS_EMPTY_MASK\<rparr>)
           else let s = s\<lparr>compressed_bitmap := compressed_bitmap s AND NOT LOCAL_SYNCED_VICTIMS_EMPTY_MASK\<rparr>
                in VictimSyncset_assertAllCacheinfosComplete chk s (Inr s)))"

definition VictimSyncset_pushLocalBeaconedVictimForComplete :: "key \<Rightarrow> dirinfo_set \<Rightarrow> victim_syncset \<Rightarrow> victim_syncset exec" where
  "VictimSyncset_pushLocalBeaconedVictimForComplete key ds s =
     VictimSyncset_checkValidity s
       (bindE (VictimSyncset_isComplete s) (\<lambda>c. assertE c
         (let s = (if length (local_beaconed_victims s) = 0
                   then s\<lparr>compressed_bitmap := compressed_bitmap s AND NOT LOCAL_BEACONED_VICTIMS_EMPTY_MASK\<rparr> else s)
          in Inr (s\<lparr>local_beaconed_victims := local_beaconed_victims s @ [(key, ds)]\<rparr>))))"

definition VictimSyncset_setLocalBeaconedVictims :: "bool \<Rightarrow> (key \<times> dirinfo_set) list \<Rightarrow> victim_syncset \<Rightarrow> victim_syncset exec" where
  "VictimSyncset_setLocalBeaconedVictims chk victims s =
     VictimSyncset_checkValidity s
       (bindE (clear_compressed LOCAL_BEACONED_VICTIMS_DEDUP_MASK s) (\<lambda>s.
        let s = s\<lparr>local_beaconed_victims := victims\<rparr>
        in if length victims = 0
           then Inr (s\<lparr>compressed_bitmap := compressed_bitmap s OR LOCAL_BEACONED_VICTIMS_EMPTY_MASK\<rparr>)
           else let s = s\<lparr>compressed_bitmap := compressed_bitmap s AND NOT LOCAL_BEACONED_VICTIMS_EMPTY_MASK\<rparr>
                in VictimSyncset_assertAllDirinfoSetsComplete chk s (Inr s)))"

section \<open>Setting compressed parts\<close>

definition VictimSyncset_setCacheMarginDeltaBytes :: "u32 \<Rightarrow> victim_syncset \<Rightarrow> victim_syncset exec" where
  "VictimSyncset_setCacheMarginDeltaBytes delta s =
     VictimSyncset_checkValidity s
       (Inr (s\<lparr>compressed_bitmap := compressed_bitmap s OR CACHE_MARGIN_BYTES_DELTA_MASK, cache_margin_delta_bytes := delta,
               cache_margin_bytes := 0\<rparr>))"

definition VictimSyncset_setLocalSyncedVictimsForCompress :: "victim_cacheinfo list \<Rightarrow> victim_syncset \<Rightarrow> victim_syncset exec" where
  "VictimSyncset_setLocalSyncedVictimsForCompress victims s =
     VictimSyncset_checkValidity s
       (let s = s\<lparr>compressed_bitmap := compressed_bitmap s OR LOCAL_SYNCED_VICTIMS_DEDUP_MASK, local_synced_victims := victims\<rparr>
        in if length victims = 0
           then Inr (s\<lparr>compressed_bitmap := compressed_bitmap s OR LOCAL_SYNCED_VICTIMS_EMPTY_MASK\<rparr>)
           else let s = s\<lparr>compressed_bitmap := compressed_bitmap s AND NOT LOCAL_SYNCED_VICTIMS_EMPTY_MASK\<rparr>
                in VictimSyncset_assertAtLeastOneCacheinfoDeduped s (Inr s))"

definition VictimSyncset_setLocalBeaconedVictimsForCompress :: "(key \<times> dirinfo_set) list \<Rightarrow> victim_syncset \<Rightarrow> victim_syncset exec" where
  "VictimSyncset_setLocalBeaconedVictimsForCompress victims s =
     VictimSyncset_checkValidity s
       (let s = s\<lparr>compressed_bitmap := compressed_bitmap s OR LOCAL_BEACONED_VICTIMS_DEDUP_MASK, local_beaconed_victims := victims\<rparr>
        in if length victims = 0
           then Inr (s\<lparr>compressed_bitmap := compressed_bitmap s OR LOCAL_BEACONED_VICTIMS_EMPTY_MASK\<rparr>)
           else let s = s\<lparr>compressed_bitmap := compressed_bitmap s AND NOT LOCAL_BEACONED_VICTIMS_EMPTY_MASK\<rparr>
                in VictimSyncset_assertAtLeastOneDirinfoSetCompressed s (Inr s))"

section \<open>Sizes\<close>

fun sum_sizes :: "('a \<Rightarrow> u32 exec) \<Rightarrow> 'a list \<Rightarrow> u32 \<Rightarrow> u32 exec" where
  "sum_sizes f [] acc = Inr acc"
| "sum_sizes f (x # xs) acc = bindE (f x) (\<lambda>n. sum_sizes f xs (acc + n))"

definition VictimSyncset_getVictimSyncsetPayloadSize :: "victim_syncset \<Rightarrow> u32 exec" where
  "VictimSyncset_getVictimSyncsetPayloadSize s =
     (let sz = 1 + 8 + 1 + (if covers (compressed_bitmap s) CACHE_MARGIN_BYTES_DELTA_MASK then 4 else 8)
      in bindE (if covers (compressed_bitmap s) LOCAL_SYNCED_VICTIMS_EMPTY_MASK then Inr sz
                else assertE (0 < length (local_synced_victims s))
                       (sum_sizes VictimCacheinfo_getVictimCacheinfoPayloadSize (local_synced_victims s) (sz + 4))) (\<lambda>sz.
         if covers (compressed_bitmap s) LOCAL_BEACONED_VICTIMS_EMPTY_MASK then Inr sz
         else assertE (0 < length (local_beaconed_victims s))
                (sum_sizes (\<lambda>(key, ds). bindE (DirinfoSet_getDirinfoSetPayloadSize ds) (\<lambda>n. Inr (Key_getKeyPayloadSize key + n)))
                   (local_beaconed_victims s) (sz + 4))))"

text \<open>The sum is kept in 32 bits although the parts have 64.\<close>

definition VictimSyncset_getSizeForCapacity :: "victim_syncset \<Rightarrow> u64 exec" where
  "VictimSyncset_getSizeForCapacity s =
     (let sz = 1 + 8 + 1 + (if covers (compressed_bitmap s) CACHE_MARGIN_BYTES_DELTA_MASK then 4 else 8)
      in bindE (if covers (compressed_bitmap s) LOCAL_SYNCED_VICTIMS_EMPTY_MASK then Inr sz
                else assertE (0 < length (local_synced_victims s))
                       (sum_sizes (\<lambda>v. bindE (VictimCacheinfo_getSizeForCapacity v) (\<lambda>n. Inr (ucast n))) (local_synced_victims s) sz)) (\<lambda>sz.
         bindE (if covers (compressed_bitmap s) LOCAL_BEACONED_VICTIMS_EMPTY_MASK then Inr sz
                else assertE (0 < length (local_beaconed_victims s))
                       (sum_sizes (\<lambda>(key, ds). bindE (DirinfoSet_getSizeForCapacity ds) (\<lambda>n. Inr (Key_getKeyPayloadSize key + ucast n)))
                          (local_beaconed_victims s) sz)) (\<lambda>sz.
         Inr (ucast sz))))"

section \<open>Compression\<close>

text \<open>The difference of the room as a 32-bit signed number, if it fits. For a decrease by \<open>2 ^ 31\<close> the source
  negates the smallest \<open>int\<close>, which is undefined.\<close>

definition margin_delta :: "u64 \<Rightarrow> u64 \<Rightarrow> u32 option exec" where
  "margin_delta current prev =
     (if prev \<le> current
      then let tmp_delta = current - prev in Inr (if tmp_delta \<le> 2 ^ 31 - 1 then Some (ucast tmp_delta) else None)
      else let tmp_delta_abs = prev - current
           in if tmp_delta_abs \<le> 2 ^ 31 then definedE (tmp_delta_abs \<noteq> 2 ^ 31) (Inr (Some (- ucast tmp_delta_abs)))
              else Inr None)"

text \<open>The loops keep the list that is sent and the two payload sizes that are compared.\<close>

fun compress_synced_loop ::
    "victim_cacheinfo list \<Rightarrow> victim_cacheinfo list \<Rightarrow> victim_cacheinfo list \<times> u32 \<times> u32
     \<Rightarrow> (victim_cacheinfo list \<times> u32 \<times> u32) exec" where
  "compress_synced_loop prevs [] acc = Inr acc"
| "compress_synced_loop prevs (c # cs) (final, total_current, total_final) =
     bindE (VictimCacheinfo_getKey c) (\<lambda>key.
     bindE (VictimCacheinfo_getVictimCacheinfoPayloadSize c) (\<lambda>n.
     let total_current = total_current + n
     in bindE (VictimCacheinfo_findVictimCacheinfoForKey key prevs) (\<lambda>i.
     if i = length prevs
     then bindE (VictimCacheinfo_isComplete c) (\<lambda>complete. assertE complete
            (compress_synced_loop prevs cs (final @ [c], total_current, total_final + n)))
     else bindE (VictimCacheinfo_dedup c (prevs ! i)) (\<lambda>tmp_final.
          bindE (VictimCacheinfo_isFullyDeduped tmp_final) (\<lambda>full.
          if \<not> full
          then bindE (VictimCacheinfo_getVictimCacheinfoPayloadSize tmp_final) (\<lambda>m.
               compress_synced_loop prevs cs (final @ [tmp_final], total_current, total_final + m))
          else compress_synced_loop prevs cs (final, total_current, total_final))))))"

fun compress_synced_stale_loop ::
    "victim_cacheinfo list \<Rightarrow> victim_cacheinfo list \<Rightarrow> victim_cacheinfo list \<times> u32 \<Rightarrow> (victim_cacheinfo list \<times> u32) exec" where
  "compress_synced_stale_loop currents [] acc = Inr acc"
| "compress_synced_stale_loop currents (p # ps) (final, total_final) =
     bindE (VictimCacheinfo_getKey p) (\<lambda>key.
     bindE (VictimCacheinfo_findVictimCacheinfoForKey key currents) (\<lambda>i.
     if i = length currents
     then bindE (VictimCacheinfo_markStale p) (\<lambda>stale.
          bindE (VictimCacheinfo_getVictimCacheinfoPayloadSize stale) (\<lambda>n.
          compress_synced_stale_loop currents ps (final @ [stale], total_final + n)))
     else compress_synced_stale_loop currents ps (final, total_final)))"

fun compress_beaconed_loop ::
    "(key \<times> dirinfo_set) list \<Rightarrow> (key \<times> dirinfo_set) list \<Rightarrow> (key \<times> dirinfo_set) list \<times> u32 \<times> u32
     \<Rightarrow> ((key \<times> dirinfo_set) list \<times> u32 \<times> u32) exec" where
  "compress_beaconed_loop prevs [] acc = Inr acc"
| "compress_beaconed_loop prevs ((key, c) # cs) (final, total_current, total_final) =
     bindE (DirinfoSet_getDirinfoSetPayloadSize c) (\<lambda>n.
     let total_current = total_current + n; i = KVListHelper_findVFromListForK key prevs
     in if i = length prevs
        then bindE (DirinfoSet_isComplete c) (\<lambda>complete. assertE complete
               (compress_beaconed_loop prevs cs (final @ [(key, c)], total_current, total_final + n)))
        else bindE (DirinfoSet_compress c (snd (prevs ! i))) (\<lambda>tmp_final.
             bindE (DirinfoSet_isFullyCompressed tmp_final) (\<lambda>full.
             if \<not> full
             then bindE (DirinfoSet_getDirinfoSetPayloadSize tmp_final) (\<lambda>m.
                  compress_beaconed_loop prevs cs (final @ [(key, tmp_final)], total_current, total_final + m))
             else compress_beaconed_loop prevs cs (final, total_current, total_final))))"

definition compress_margin :: "victim_syncset \<Rightarrow> victim_syncset \<Rightarrow> victim_syncset \<Rightarrow> victim_syncset exec" where
  "compress_margin current prev compressed =
     bindE (margin_delta (cache_margin_bytes current) (cache_margin_bytes prev)) (\<lambda>delta.
     case delta of None \<Rightarrow> Inr compressed | Some d \<Rightarrow> VictimSyncset_setCacheMarginDeltaBytes d compressed)"

definition compress_synced :: "bool \<Rightarrow> victim_syncset \<Rightarrow> victim_syncset \<Rightarrow> victim_syncset \<Rightarrow> victim_syncset exec" where
  "compress_synced chk current prev compressed =
     bindE (VictimSyncset_getLocalSyncedVictimsPtr chk current) (\<lambda>(c, currents). assertE c (
     bindE (VictimSyncset_getLocalSyncedVictimsPtr chk prev) (\<lambda>(c, prevs). assertE c (
     bindE (compress_synced_loop prevs currents ([], 0, 0)) (\<lambda>(final, total_current, total_final).
     bindE (compress_synced_stale_loop currents prevs (final, total_final)) (\<lambda>(final, total_final).
     if \<not> total_current \<le> total_final then VictimSyncset_setLocalSyncedVictimsForCompress final compressed
     else Inr compressed))))))"

definition compress_beaconed :: "bool \<Rightarrow> victim_syncset \<Rightarrow> victim_syncset \<Rightarrow> victim_syncset \<Rightarrow> victim_syncset exec" where
  "compress_beaconed chk current prev compressed =
     bindE (VictimSyncset_getLocalBeaconedVictimsPtr chk current) (\<lambda>(c, currents). assertE c (
     bindE (VictimSyncset_getLocalBeaconedVictimsPtr chk prev) (\<lambda>(c, prevs). assertE c (
     bindE (compress_beaconed_loop prevs currents ([], 0, 0)) (\<lambda>(final, total_current, total_final).
     if \<not> total_current \<le> total_final then VictimSyncset_setLocalBeaconedVictimsForCompress final compressed
     else Inr compressed)))))"

text \<open>The sequence numbers of two syncsets that follow each other.\<close>

definition next_seqnum :: "victim_syncset \<Rightarrow> victim_syncset \<Rightarrow> 'a exec \<Rightarrow> 'a exec" where
  "next_seqnum s prev k =
     bindE (VictimSyncset_getSeqnum s) (\<lambda>n. bindE (VictimSyncset_getSeqnum prev) (\<lambda>m.
     bindE (Util_uint64Add m 1) (\<lambda>m'. assertE (n = m') k)))"

definition VictimSyncset_compress :: "bool \<Rightarrow> victim_syncset \<Rightarrow> victim_syncset \<Rightarrow> victim_syncset exec" where
  "VictimSyncset_compress chk current prev =
     bindE (VictimSyncset_isComplete current) (\<lambda>c. assertE c (
     bindE (VictimSyncset_isComplete prev) (\<lambda>c. assertE c (
     next_seqnum current prev (
     bindE (compress_margin current prev current) (\<lambda>compressed.
     bindE (compress_synced chk current prev compressed) (\<lambda>compressed.
     bindE (compress_beaconed chk current prev compressed) (\<lambda>compressed.
     bindE (VictimSyncset_getVictimSyncsetPayloadSize compressed) (\<lambda>compressed_size.
     bindE (VictimSyncset_getVictimSyncsetPayloadSize current) (\<lambda>current_size.
     if compressed_size < current_size then Inr compressed else Inr current))))))))))"

section \<open>Recovery\<close>

definition recover_margin :: "victim_syncset \<Rightarrow> victim_syncset \<Rightarrow> victim_syncset \<Rightarrow> victim_syncset exec" where
  "recover_margin compressed existing completed =
     bindE (VictimSyncset_getCacheMarginBytesOrDelta compressed) (\<lambda>m.
     case m of
       Inl _ \<Rightarrow> Inr completed
     | Inr delta \<Rightarrow>
         bindE (VictimSyncset_getCacheMarginBytesOrDelta existing) (\<lambda>e.
         case e of
           Inr _ \<Rightarrow> Inl AssertFailed
         | Inl bytes \<Rightarrow>
             bindE (if 0 \<le> sint delta then Util_uint64Add bytes (word_of_int (sint delta))
                    else definedE (sint delta \<noteq> - (2 ^ 31)) (Inr (Util_uint64Minus bytes (word_of_int (- sint delta))))) (\<lambda>bytes.
             VictimSyncset_setCacheMarginBytes bytes completed)))"

fun recover_synced_loop :: "victim_cacheinfo list \<Rightarrow> victim_cacheinfo list \<Rightarrow> victim_cacheinfo list exec" where
  "recover_synced_loop [] completed = Inr completed"
| "recover_synced_loop (v # vs) completed =
     bindE (VictimCacheinfo_getKey v) (\<lambda>key.
     bindE (VictimCacheinfo_findVictimCacheinfoForKey key completed) (\<lambda>i.
     bindE (VictimCacheinfo_isComplete v) (\<lambda>is_complete.
     if is_complete
     then recover_synced_loop vs (if i = length completed then completed @ [v] else completed[i := v])
     else bindE (VictimCacheinfo_isStale v) (\<lambda>is_stale.
     if is_stale
     then recover_synced_loop vs (if i \<noteq> length completed then erase_at i completed else completed)
     else bindE (VictimCacheinfo_isFullyDeduped v) (\<lambda>full. assertE (\<not> full) (
     if i \<noteq> length completed
     then bindE (VictimCacheinfo_recover v (completed ! i)) (\<lambda>r. recover_synced_loop vs (completed[i := r]))
     else recover_synced_loop vs completed))))))"

fun recover_beaconed_loop ::
    "(key \<times> dirinfo_set) list \<Rightarrow> (key \<times> dirinfo_set) list \<Rightarrow> (key \<times> dirinfo_set) list exec" where
  "recover_beaconed_loop [] completed = Inr completed"
| "recover_beaconed_loop ((key, s) # ss) completed =
     (let i = KVListHelper_findVFromListForK key completed
      in bindE (DirinfoSet_isComplete s) (\<lambda>is_complete.
         if is_complete
         then recover_beaconed_loop ss (if i = length completed then completed @ [(key, s)] else completed[i := (fst (completed ! i), s)])
         else bindE (DirinfoSet_isFullyCompressed s) (\<lambda>full. assertE (\<not> full) (
              if i \<noteq> length completed
              then bindE (DirinfoSet_recover s (snd (completed ! i))) (\<lambda>r.
                   recover_beaconed_loop ss (completed[i := (fst (completed ! i), r)]))
              else recover_beaconed_loop ss completed))))"

definition recover_synced :: "bool \<Rightarrow> victim_syncset \<Rightarrow> victim_syncset \<Rightarrow> victim_syncset \<Rightarrow> victim_syncset exec" where
  "recover_synced chk compressed existing completed =
     bindE (VictimSyncset_getLocalSyncedVictimsPtr chk compressed) (\<lambda>(with_complete, victims).
     if with_complete then Inr completed
     else bindE (VictimSyncset_getLocalSyncedVictims chk existing) (\<lambda>(c, existing_victims). assertE c (
          bindE (recover_synced_loop victims existing_victims) (\<lambda>vs.
          bindE (VictimCacheinfo_sortByLocalRewards vs) (\<lambda>vs.
          VictimSyncset_setLocalSyncedVictims chk vs completed)))))"

definition recover_beaconed :: "bool \<Rightarrow> victim_syncset \<Rightarrow> victim_syncset \<Rightarrow> victim_syncset \<Rightarrow> victim_syncset exec" where
  "recover_beaconed chk compressed existing completed =
     bindE (VictimSyncset_getLocalBeaconedVictimsPtr chk compressed) (\<lambda>(with_complete, victims).
     if with_complete then Inr completed
     else bindE (VictimSyncset_getLocalBeaconedVictims chk existing) (\<lambda>(c, existing_victims). assertE c (
          bindE (recover_beaconed_loop victims existing_victims) (\<lambda>ss.
          VictimSyncset_setLocalBeaconedVictims chk ss completed))))"

definition VictimSyncset_recover :: "bool \<Rightarrow> victim_syncset \<Rightarrow> victim_syncset \<Rightarrow> victim_syncset exec" where
  "VictimSyncset_recover chk compressed existing =
     bindE (VictimSyncset_isCompressed compressed) (\<lambda>c. assertE c (
     bindE (VictimSyncset_isComplete existing) (\<lambda>c. assertE c (
     next_seqnum compressed existing (
     bindE (recover_margin compressed existing compressed) (\<lambda>completed.
     bindE (recover_synced chk compressed existing completed) (\<lambda>completed.
     bindE (recover_beaconed chk compressed existing completed) (\<lambda>completed.
     bindE (VictimSyncset_isComplete completed) (\<lambda>c. assertE c (
     assertE (seqnum completed = seqnum compressed) (
     assertE (enforce_complete completed = enforce_complete compressed) (Inr completed))))))))))))"

section \<open>Serialisation\<close>

text \<open>One element of the list of directory sets.\<close>

definition keyed_set_serialize :: "(key \<times> dirinfo_set) serializer" where
  "keyed_set_serialize ks msg_payload position =
     bindE (Key_serialize (fst ks) msg_payload position) (\<lambda>(msg_payload, key_size).
     bindE (DirinfoSet_serialize (snd ks) msg_payload (position + key_size)) (\<lambda>(msg_payload, set_size).
     Inr (msg_payload, key_size + set_size)))"

definition keyed_set_serialize_fs :: "(key \<times> dirinfo_set) fs_serializer" where
  "keyed_set_serialize_fs ks out =
     bindE (Key_serialize_fs (fst ks) out) (\<lambda>(out, key_size).
     bindE (DirinfoSet_serialize_fs (snd ks) out) (\<lambda>(out, set_size). Inr (out, key_size + set_size)))"

definition keyed_set_deserialize :: "(key \<times> dirinfo_set) deserializer" where
  "keyed_set_deserialize this msg_payload position =
     bindE (Key_deserialize (fst this) msg_payload position) (\<lambda>(key, key_size).
     bindE (DirinfoSet_deserialize (snd this) msg_payload (position + key_size)) (\<lambda>(ds, set_size).
     assertE (\<not> DirinfoSet_isInvalid ds) (Inr ((key, ds), key_size + set_size))))"

definition keyed_set_deserialize_fs :: "(key \<times> dirinfo_set) fs_deserializer" where
  "keyed_set_deserialize_fs this fs =
     bindE (Key_deserialize_fs (fst this) fs) (\<lambda>(key, fs, key_size).
     bindE (DirinfoSet_deserialize_fs (snd this) fs) (\<lambda>(ds, fs, set_size).
     assertE (\<not> DirinfoSet_isInvalid ds) (Inr ((key, ds), fs, key_size + set_size))))"

definition valid_victim_deserialize :: "victim_cacheinfo deserializer" where
  "valid_victim_deserialize this msg_payload position =
     bindE (VictimCacheinfo_deserialize this msg_payload position) (\<lambda>(v, n).
     assertE (\<not> VictimCacheinfo_isInvalid v) (Inr (v, n)))"

definition valid_victim_deserialize_fs :: "victim_cacheinfo fs_deserializer" where
  "valid_victim_deserialize_fs this fs =
     bindE (VictimCacheinfo_deserialize_fs this fs) (\<lambda>(v, fs, n).
     assertE (\<not> VictimCacheinfo_isInvalid v) (Inr (v, fs, n)))"

definition margin_mem :: "victim_syncset \<Rightarrow> u8 list" where
  "margin_mem s = (if covers (compressed_bitmap s) CACHE_MARGIN_BYTES_DELTA_MASK then u32_mem (cache_margin_delta_bytes s)
     else u64_mem (cache_margin_bytes s))"

definition VictimSyncset_serialize :: "victim_syncset serializer" where
  "VictimSyncset_serialize s msg_payload position =
     VictimSyncset_checkValidity s (
     bindE (DynamicArray_deserialize msg_payload position [compressed_bitmap s] 1) (\<lambda>msg_payload.
     bindE (DynamicArray_deserialize msg_payload (position + 1) (u64_mem (seqnum s)) 8) (\<lambda>msg_payload.
     bindE (DynamicArray_deserialize msg_payload (position + 1 + 8) (bool_mem (enforce_complete s)) 1) (\<lambda>msg_payload.
     let n = word_of_nat (length (margin_mem s))
     in bindE (DynamicArray_deserialize msg_payload (position + 1 + 8 + 1) (margin_mem s) n) (\<lambda>msg_payload.
     bindE (if covers (compressed_bitmap s) LOCAL_SYNCED_VICTIMS_EMPTY_MASK then Inr (msg_payload, position + 1 + 8 + 1 + n)
            else ser_counted VictimCacheinfo_serialize (local_synced_victims s) msg_payload (position + 1 + 8 + 1 + n)) (\<lambda>(msg_payload, sz).
     bindE (if covers (compressed_bitmap s) LOCAL_BEACONED_VICTIMS_EMPTY_MASK then Inr (msg_payload, sz)
            else ser_counted keyed_set_serialize (local_beaconed_victims s) msg_payload sz) (\<lambda>(msg_payload, sz).
     Inr (msg_payload, sz - position))))))))"

definition VictimSyncset_serialize_fs :: "victim_syncset fs_serializer" where
  "VictimSyncset_serialize_fs s out =
     VictimSyncset_checkValidity s (
     let out = fs_write [compressed_bitmap s] out; out = fs_write (u64_mem (seqnum s)) out;
         out = fs_write (bool_mem (enforce_complete s)) out; out = fs_write (margin_mem s) out;
         sz = 1 + 8 + 1 + word_of_nat (length (margin_mem s))
     in bindE (if covers (compressed_bitmap s) LOCAL_SYNCED_VICTIMS_EMPTY_MASK then Inr (out, sz)
            else fs_ser_counted VictimCacheinfo_serialize_fs (local_synced_victims s) out sz) (\<lambda>(out, sz).
        if covers (compressed_bitmap s) LOCAL_BEACONED_VICTIMS_EMPTY_MASK then Inr (out, sz)
        else fs_ser_counted keyed_set_serialize_fs (local_beaconed_victims s) out sz))"

text \<open>A list that is marked as empty is not read, and then keeps what the object had before.\<close>

definition VictimSyncset_deserialize :: "victim_syncset deserializer" where
  "VictimSyncset_deserialize this msg_payload position =
     bindE (DynamicArray_serialize msg_payload position 1) (\<lambda>b.
     let s = this\<lparr>compressed_bitmap := hd b\<rparr>
     in VictimSyncset_checkValidity s (
     bindE (DynamicArray_serialize msg_payload (position + 1) 8) (\<lambda>n.
     bindE (DynamicArray_serialize msg_payload (position + 1 + 8) 1) (\<lambda>e.
     let s = s\<lparr>seqnum := mem_u64 n, enforce_complete := mem_bool e\<rparr>; sz = position + 1 + 8 + 1
     in bindE (if covers (compressed_bitmap s) CACHE_MARGIN_BYTES_DELTA_MASK
            then bindE (DynamicArray_serialize msg_payload sz 4) (\<lambda>m. Inr (s\<lparr>cache_margin_delta_bytes := mem_u32 m\<rparr>, sz + 4))
            else bindE (DynamicArray_serialize msg_payload sz 8) (\<lambda>m. Inr (s\<lparr>cache_margin_bytes := mem_u64 m\<rparr>, sz + 8))) (\<lambda>(s, sz).
     bindE (if covers (compressed_bitmap s) LOCAL_SYNCED_VICTIMS_EMPTY_MASK then Inr (s, sz)
            else bindE (deser_counted valid_victim_deserialize VictimCacheinfo_invalid msg_payload sz) (\<lambda>(vs, sz).
                 Inr (s\<lparr>local_synced_victims := vs\<rparr>, sz))) (\<lambda>(s, sz).
     bindE (if covers (compressed_bitmap s) LOCAL_BEACONED_VICTIMS_EMPTY_MASK then Inr (s, sz)
            else bindE (deser_counted keyed_set_deserialize (Key [], DirinfoSet_invalid) msg_payload sz) (\<lambda>(ss, sz).
                 Inr (s\<lparr>local_beaconed_victims := ss\<rparr>, sz))) (\<lambda>(s, sz).
     Inr (s, sz - position))))))))"

definition VictimSyncset_deserialize_fs :: "victim_syncset fs_deserializer" where
  "VictimSyncset_deserialize_fs this fs =
     (let (b, fs) = fs_read [compressed_bitmap this] fs;
          s = this\<lparr>compressed_bitmap := hd b\<rparr>
      in VictimSyncset_checkValidity s (
         let (n, fs) = fs_read (u64_mem (seqnum s)) fs; (e, fs) = fs_read (bool_mem (enforce_complete s)) fs;
             s = s\<lparr>seqnum := mem_u64 n, enforce_complete := mem_bool e\<rparr>; sz = 1 + 8 + 1;
             (s, fs, sz) = (if covers (compressed_bitmap s) CACHE_MARGIN_BYTES_DELTA_MASK
                then let (m, fs) = fs_read (u32_mem (cache_margin_delta_bytes s)) fs in (s\<lparr>cache_margin_delta_bytes := mem_u32 m\<rparr>, fs, sz + 4)
                else let (m, fs) = fs_read (u64_mem (cache_margin_bytes s)) fs in (s\<lparr>cache_margin_bytes := mem_u64 m\<rparr>, fs, sz + 8))
         in bindE (if covers (compressed_bitmap s) LOCAL_SYNCED_VICTIMS_EMPTY_MASK then Inr (s, fs, sz)
                   else bindE (fs_deser_counted valid_victim_deserialize_fs VictimCacheinfo_invalid fs sz) (\<lambda>(vs, fs, sz).
                        Inr (s\<lparr>local_synced_victims := vs\<rparr>, fs, sz))) (\<lambda>(s, fs, sz).
            if covers (compressed_bitmap s) LOCAL_BEACONED_VICTIMS_EMPTY_MASK then Inr (s, fs, sz)
            else bindE (fs_deser_counted keyed_set_deserialize_fs (Key [], DirinfoSet_invalid) fs sz) (\<lambda>(ss, fs, sz).
                 Inr (s\<lparr>local_beaconed_victims := ss\<rparr>, fs, sz)))))"

end
