(* ===== verification/Victim_Sync.thy ===== *)
theory Victim_Sync
  imports Victim_Syncset
begin

text \<open>
  Compression and recovery of syncsets keep a receiver in step with the sender. The theory says what the loops of
  \<open>VictimSyncset::compress\<close> send (\<open>synced_delta\<close>, \<open>beaconed_delta\<close>), what the loops of \<open>VictimSyncset::recover\<close> make of it
  (\<open>effect\<close>, \<open>set_effect\<close>), and that the two fit together: \<open>in_sync\<close> relates the syncset the sender sent last to the
  one the receiver holds, and \<open>sync_simulation\<close> shows that a round keeps it.
\<close>

section \<open>Bitmaps of syncsets\<close>

text \<open>The bitmap with the given parts compressed and the given lists marked as empty.\<close>

definition sync_bits :: "bool \<Rightarrow> bool \<Rightarrow> bool \<Rightarrow> bool \<Rightarrow> bool \<Rightarrow> u8" where
  "sync_bits dm ds es db eb = (if dm then CACHE_MARGIN_BYTES_DELTA_MASK else 0) OR (if ds then LOCAL_SYNCED_VICTIMS_DEDUP_MASK else 0)
     OR (if es then LOCAL_SYNCED_VICTIMS_EMPTY_MASK else 0) OR (if db then LOCAL_BEACONED_VICTIMS_DEDUP_MASK else 0)
     OR (if eb then LOCAL_BEACONED_VICTIMS_EMPTY_MASK else 0)"

lemmas syncset_bits = VictimSyncset_INVALID_BITMAP_def VictimSyncset_COMPLETE_BITMAP_def COMPRESS_MASK_def
  CACHE_MARGIN_BYTES_DELTA_MASK_def LOCAL_SYNCED_VICTIMS_DEDUP_MASK_def LOCAL_SYNCED_VICTIMS_EMPTY_MASK_def
  LOCAL_BEACONED_VICTIMS_DEDUP_MASK_def LOCAL_BEACONED_VICTIMS_EMPTY_MASK_def FULLY_COMPRESSED_BITMAP_def

lemma sync_bits_simps [simp]:
  "sync_bits dm ds es db eb \<noteq> VictimSyncset_INVALID_BITMAP"
  "covers (sync_bits dm ds es db eb) CACHE_MARGIN_BYTES_DELTA_MASK \<longleftrightarrow> dm"
  "covers (sync_bits dm ds es db eb) LOCAL_SYNCED_VICTIMS_DEDUP_MASK \<longleftrightarrow> ds"
  "covers (sync_bits dm ds es db eb) LOCAL_SYNCED_VICTIMS_EMPTY_MASK \<longleftrightarrow> es"
  "covers (sync_bits dm ds es db eb) LOCAL_BEACONED_VICTIMS_DEDUP_MASK \<longleftrightarrow> db"
  "covers (sync_bits dm ds es db eb) LOCAL_BEACONED_VICTIMS_EMPTY_MASK \<longleftrightarrow> eb"
  "sync_bits dm ds es db eb AND COMPRESS_MASK = VictimSyncset_COMPLETE_BITMAP AND COMPRESS_MASK \<longleftrightarrow> \<not> (dm \<or> ds \<or> db)"
  by (cases dm; cases ds; cases es; cases db; cases eb; simp add: sync_bits_def covers_def syncset_bits)+

lemma sync_bits_or [simp]:
  "sync_bits dm ds es db eb OR CACHE_MARGIN_BYTES_DELTA_MASK = sync_bits True ds es db eb"
  "sync_bits dm ds es db eb OR LOCAL_SYNCED_VICTIMS_DEDUP_MASK = sync_bits dm True es db eb"
  "sync_bits dm ds es db eb OR LOCAL_SYNCED_VICTIMS_EMPTY_MASK = sync_bits dm ds True db eb"
  "sync_bits dm ds es db eb OR LOCAL_BEACONED_VICTIMS_DEDUP_MASK = sync_bits dm ds es True eb"
  "sync_bits dm ds es db eb OR LOCAL_BEACONED_VICTIMS_EMPTY_MASK = sync_bits dm ds es db True"
  by (cases dm; cases ds; cases es; cases db; cases eb; simp add: sync_bits_def syncset_bits)+

lemma sync_bits_clear [simp]:
  "sync_bits dm ds es db eb AND NOT LOCAL_SYNCED_VICTIMS_EMPTY_MASK = sync_bits dm ds False db eb"
  "sync_bits dm ds es db eb AND NOT LOCAL_BEACONED_VICTIMS_EMPTY_MASK = sync_bits dm ds es db False"
  by (cases dm; cases ds; cases es; cases db; cases eb; simp add: sync_bits_def syncset_bits)+

text \<open>Clearing a compressed part leaves a bitmap of the same shape: the compression bit stays exactly if another
  part is compressed.\<close>

lemma clear_compressed_bits:
  assumes "compressed_bitmap s = sync_bits dm ds es db eb"
  shows "clear_compressed CACHE_MARGIN_BYTES_DELTA_MASK s = Inr (s\<lparr>compressed_bitmap := sync_bits False ds es db eb\<rparr>)"
    "clear_compressed LOCAL_SYNCED_VICTIMS_DEDUP_MASK s = Inr (s\<lparr>compressed_bitmap := sync_bits dm False es db eb\<rparr>)"
    "clear_compressed LOCAL_BEACONED_VICTIMS_DEDUP_MASK s = Inr (s\<lparr>compressed_bitmap := sync_bits dm ds es False eb\<rparr>)"
  using assms
  by (cases s; cases dm; cases ds; cases es; cases db; cases eb;
    simp add: clear_compressed_def VictimSyncset_isCompressed_def VictimSyncset_checkValidity_def sync_bits_def covers_def
      syncset_bits Let_def)+

lemma sync_bits_zero: "VictimSyncset_COMPLETE_BITMAP = sync_bits False False False False False"
  by (simp add: sync_bits_def syncset_bits)

lemma status_sync [simp]:
  assumes "compressed_bitmap s = sync_bits dm ds es db eb"
  shows "VictimSyncset_isComplete s = Inr (\<not> (dm \<or> ds \<or> db))" "VictimSyncset_isCompressed s = Inr (dm \<or> ds \<or> db)"
    "VictimSyncset_getSeqnum s = Inr (seqnum s)" "VictimSyncset_isEnforceComplete s = Inr (enforce_complete s)"
    "VictimSyncset_checkValidity s k = k"
  using assms
  by (simp_all add: VictimSyncset_isComplete_def VictimSyncset_isCompressed_def VictimSyncset_getSeqnum_def
      VictimSyncset_isEnforceComplete_def VictimSyncset_checkValidity_def)

section \<open>What is sent\<close>

definition victim_ok :: "victim_cacheinfo \<Rightarrow> bool" where
  "victim_ok v \<longleftrightarrow> victim_complete v \<and> length (keystr (victim_key v)) < 2 ^ 31 \<and> f32_val (local_reward v) \<noteq> NaN"

definition victims_ok :: "victim_cacheinfo list \<Rightarrow> bool" where
  "victims_ok vs \<longleftrightarrow> distinct (map victim_key vs) \<and> (\<forall>v \<in> set vs. victim_ok v)"

text \<open>What is sent for a current victim, and for a victim that is no longer one.\<close>

definition emit :: "victim_cacheinfo list \<Rightarrow> victim_cacheinfo \<Rightarrow> victim_cacheinfo list" where
  "emit ps c = (case kmap victim_key ps (victim_key c) of
       None \<Rightarrow> [c]
     | Some p \<Rightarrow> if all_same c p then [] else if any_same c p then [deduped c p] else [c])"

definition marked :: "victim_cacheinfo \<Rightarrow> victim_cacheinfo" where
  "marked p = p\<lparr>dedup_bitmap := VictimCacheinfo_STALE_BITMAP\<rparr>"

definition gone :: "victim_cacheinfo list \<Rightarrow> victim_cacheinfo list \<Rightarrow> victim_cacheinfo list" where
  "gone cs ps = map marked (filter (\<lambda>p. kmap victim_key cs (victim_key p) = None) ps)"

definition synced_delta :: "victim_cacheinfo list \<Rightarrow> victim_cacheinfo list \<Rightarrow> victim_cacheinfo list" where
  "synced_delta cs ps = concat (map (emit ps) cs) @ gone cs ps"

lemma Key_equal_iff [simp]: "Key_equal k l \<longleftrightarrow> k = l"
  by (cases k; cases l) (simp add: Key_equal_def)

lemma find_victim:
  "\<forall>v \<in> set vs. dedup_bitmap v \<noteq> VictimCacheinfo_INVALID_BITMAP \<Longrightarrow>
   VictimCacheinfo_findVictimCacheinfoForKey k vs = Inr (find_by victim_key k vs)"
  by (induction vs) (auto simp: VictimCacheinfo_getKey_def)

lemma victim_ok_bitmap: "victim_ok v \<Longrightarrow> dedup_bitmap v = 0"
  by (simp add: victim_ok_def victim_complete_bitmap)

lemma victims_ok_valid: "\<forall>v \<in> set vs. victim_ok v \<Longrightarrow> \<forall>v \<in> set vs. dedup_bitmap v \<noteq> VictimCacheinfo_INVALID_BITMAP"
  using victim_ok_bitmap by fastforce

lemma payload_returns:
  assumes "dedup_bitmap v \<noteq> VictimCacheinfo_INVALID_BITMAP"
  obtains n where "VictimCacheinfo_getVictimCacheinfoPayloadSize v = Inr n"
  using assms by (simp add: VictimCacheinfo_getVictimCacheinfoPayloadSize_def)

lemma compress_synced_loop_spec:
  assumes "\<forall>p \<in> set ps. victim_ok p" and "\<forall>c \<in> set cs. victim_ok c"
  shows "\<exists>a b. compress_synced_loop ps cs (F, x, y) = Inr (F @ concat (map (emit ps) cs), a, b)"
  using assms(2)
proof (induction cs arbitrary: F x y)
  case (Cons c cs)
  have c: "dedup_bitmap c = 0" and ok: "victim_ok c" using Cons.prems by (simp_all add: victim_ok_bitmap)
  have IH: "\<exists>a b. compress_synced_loop ps cs (F', x', y') = Inr (F' @ concat (map (emit ps) cs), a, b)" for F' x' y'
    using Cons.prems by (intro Cons.IH) simp
  obtain n where n: "VictimCacheinfo_getVictimCacheinfoPayloadSize c = Inr n"
    by (rule payload_returns [of c]) (simp add: c)
  have find: "VictimCacheinfo_findVictimCacheinfoForKey k ps = Inr (find_by victim_key k ps)" for k
    by (rule find_victim [OF victims_ok_valid [OF assms(1)]])
  show ?case
  proof (cases "kmap victim_key ps (victim_key c)")
    case None
    then show ?thesis using IH [of "F @ [c]"] c n find by (simp add: emit_def [of ps c])
  next
    case (Some p)
    have p: "victim_ok p" using kmap_SomeD [OF Some] assms(1) by simp
    have i: "find_by victim_key (victim_key c) ps \<noteq> length ps" "ps ! find_by victim_key (victim_key c) ps = p"
      using find_by_nth [OF Some] Some by simp_all
    have dedup: "VictimCacheinfo_dedup c p = Inr (if any_same c p then deduped c p else c)"
      using ok p by (intro dedup_spec) (simp_all add: victim_ok_def)
    have all: "all_same c p \<Longrightarrow> any_same c p" by (simp add: all_same_def any_same_def)
    obtain m where m: "VictimCacheinfo_getVictimCacheinfoPayloadSize (deduped c p) = Inr m"
      by (rule payload_returns [of "deduped c p"]) simp
    show ?thesis
      using IH [of F] IH [of "F @ [c]"] IH [of "F @ [deduped c p]"] c n m find i dedup all Some
      by (cases "any_same c p"; cases "all_same c p") (simp_all add: emit_def [of ps c])
  qed
qed simp

lemma compress_synced_stale_loop_spec:
  assumes "\<forall>p \<in> set ps. victim_ok p" and "\<forall>c \<in> set cs. victim_ok c"
  shows "\<exists>b. compress_synced_stale_loop cs ps (F, y) = Inr (F @ gone cs ps, b)"
  using assms(1)
proof (induction ps arbitrary: F y)
  case Nil
  then show ?case by (simp add: gone_def)
next
  case (Cons p ps)
  have p: "dedup_bitmap p = 0" using Cons.prems by (simp add: victim_ok_bitmap)
  have IH: "\<exists>b. compress_synced_stale_loop cs ps (F', y') = Inr (F' @ gone cs ps, b)" for F' y'
    using Cons.prems by (intro Cons.IH) simp
  have stale: "VictimCacheinfo_markStale p = Inr (marked p)"
    using p by (simp add: VictimCacheinfo_markStale_def marked_def)
  obtain n where n: "VictimCacheinfo_getVictimCacheinfoPayloadSize (marked p) = Inr n"
    by (rule payload_returns [of "marked p"]) (simp add: marked_def)
  have find: "VictimCacheinfo_findVictimCacheinfoForKey k cs = Inr (find_by victim_key k cs)" for k
    by (rule find_victim [OF victims_ok_valid [OF assms(2)]])
  show ?case
    using IH [of F] IH [of "F @ [marked p]"] p stale n find
    by (cases "kmap victim_key cs (victim_key p)") (simp_all add: gone_def)
qed

section \<open>Directory sets\<close>

definition set_ok :: "dirinfo_set \<Rightarrow> bool" where
  "set_ok s \<longleftrightarrow> s = DirinfoSet_of_list (dirinfo_list s) \<and> distinct (dirinfo_list s) \<and> length (dirinfo_list s) < 2 ^ 28"

definition sets_ok :: "(key \<times> dirinfo_set) list \<Rightarrow> bool" where
  "sets_ok bs \<longleftrightarrow> distinct (map fst bs) \<and> (\<forall>(k, s) \<in> set bs. set_ok s \<and> length (keystr k) < 2 ^ 31)"

definition members :: "dirinfo_set \<Rightarrow> directory_info set" where
  "members s = set (dirinfo_list s)"

definition set_delta :: "dirinfo_set \<Rightarrow> dirinfo_set \<Rightarrow> dirinfo_set" where
  "set_delta s p = (let cs = dirinfo_list s; ps = dirinfo_list p
     in if length (new_of cs ps) + length (new_of ps cs) < length cs \<and> delta_payload (new_of cs ps) (new_of ps cs) < 5 + 4 * length cs
        then DirinfoSet_delta (new_of cs ps) (new_of ps cs) else s)"

lemma set_compress: "set_ok s \<Longrightarrow> set_ok p \<Longrightarrow> DirinfoSet_compress s p = Inr (set_delta s p)"
  using compress_spec [of "dirinfo_list s" "dirinfo_list p"] by (simp add: set_ok_def set_delta_def Let_def)

lemma set_delta_cases:
  assumes "set_ok s" and "set_ok p"
  obtains (whole) "set_delta s p = s" | (unchanged) "set_delta s p = DirinfoSet_delta [] []" "members s = members p"
  | (changed) "set_delta s p = DirinfoSet_delta (new_of (dirinfo_list s) (dirinfo_list p)) (new_of (dirinfo_list p) (dirinfo_list s))"
      "new_of (dirinfo_list s) (dirinfo_list p) \<noteq> [] \<or> new_of (dirinfo_list p) (dirinfo_list s) \<noteq> []"
proof (cases "set_delta s p = s")
  case False
  let ?n = "new_of (dirinfo_list s) (dirinfo_list p)" and ?o = "new_of (dirinfo_list p) (dirinfo_list s)"
  have d: "set_delta s p = DirinfoSet_delta ?n ?o" using False by (auto simp: set_delta_def Let_def split: if_splits)
  show ?thesis
  proof (cases "?n = [] \<and> ?o = []")
    case True
    then have "members s = members p" by (auto simp: new_of_def filter_empty_conv members_def)
    then show ?thesis using True d unchanged by simp
  qed (use d changed in blast)
qed (rule whole)

lemma set_recover_changed:
  assumes "set_ok s" and "set_ok p" and "set_ok e" and "members e = members p"
    and "new_of (dirinfo_list s) (dirinfo_list p) \<noteq> [] \<or> new_of (dirinfo_list p) (dirinfo_list s) \<noteq> []"
  obtains r where "DirinfoSet_recover (DirinfoSet_delta (new_of (dirinfo_list s) (dirinfo_list p)) (new_of (dirinfo_list p) (dirinfo_list s))) e = Inr r"
    and "set_ok r" and "members r = members s"
proof -
  let ?n = "new_of (dirinfo_list s) (dirinfo_list p)" and ?o = "new_of (dirinfo_list p) (dirinfo_list s)"
  let ?r = "fold remove1 ?o (recover_new_loop ?n (dirinfo_list e))"
  have dist: "distinct (recover_new_loop ?n (dirinfo_list e))"
    using assms(3) by (intro distinct_recover_new_loop) (simp add: set_ok_def)
  have r: "distinct ?r" "set ?r = set (dirinfo_list s)"
    using fold_remove1 [OF dist, of ?o] assms(4) by (auto simp: set_recover_new_loop new_of_def members_def)
  then have "length ?r = length (dirinfo_list s)" using assms(1) by (metis distinct_card set_ok_def)
  moreover have "DirinfoSet_recover (DirinfoSet_delta ?n ?o) e = Inr (DirinfoSet_of_list ?r)"
    using recover_delta [OF assms(5), of "dirinfo_list e"] assms(3) by (simp add: set_ok_def)
  ultimately show ?thesis
    using r assms(1) that [of "DirinfoSet_of_list ?r"] by (simp add: set_ok_def members_def)
qed

definition emit_set :: "(key \<times> dirinfo_set) list \<Rightarrow> key \<times> dirinfo_set \<Rightarrow> (key \<times> dirinfo_set) list" where
  "emit_set ps ks = (case kmap fst ps (fst ks) of
       None \<Rightarrow> [ks]
     | Some p \<Rightarrow> if set_delta (snd ks) (snd p) = DirinfoSet_delta [] [] then [] else [(fst ks, set_delta (snd ks) (snd p))])"

definition beaconed_delta :: "(key \<times> dirinfo_set) list \<Rightarrow> (key \<times> dirinfo_set) list \<Rightarrow> (key \<times> dirinfo_set) list" where
  "beaconed_delta cs ps = concat (map (emit_set ps) cs)"

lemma of_list_neq_delta [simp]: "DirinfoSet_of_list xs \<noteq> DirinfoSet_delta ys zs"
  using of_list_status(1) [of xs] delta_status(4) [of ys zs] by (metis Inr_inject)

lemma delta_inject [simp]: "DirinfoSet_delta xs ys = DirinfoSet_delta xs' ys' \<longleftrightarrow> xs = xs' \<and> ys = ys'"
  by (metis delta_sel(2,3))

lemma set_ok_status:
  assumes "set_ok s"
  shows "DirinfoSet_isComplete s = Inr True" "DirinfoSet_isFullyCompressed s = Inr False" "s \<noteq> DirinfoSet_delta xs ys"
    "\<exists>n. DirinfoSet_getDirinfoSetPayloadSize s = Inr n" "\<not> DirinfoSet_isInvalid s"
  using assms unfolding set_ok_def by (metis of_list_status of_list_neq_delta payload_of_list)+

lemma compress_beaconed_loop_spec:
  assumes "\<forall>(k, s) \<in> set ps. set_ok s" and "\<forall>(k, s) \<in> set cs. set_ok s"
  shows "\<exists>a b. compress_beaconed_loop ps cs (F, x, y) = Inr (F @ beaconed_delta cs ps, a, b)"
  using assms(2)
proof (induction cs arbitrary: F x y)
  case Nil
  then show ?case by (simp add: beaconed_delta_def)
next
  case (Cons c cs)
  obtain k s where c: "c = (k, s)" by (cases c)
  have s: "set_ok s" using Cons.prems c by simp
  note st = set_ok_status [OF s]
  have IH: "\<exists>a b. compress_beaconed_loop ps cs (F', x', y') = Inr (F' @ beaconed_delta cs ps, a, b)" for F' x' y'
    using Cons.prems by (intro Cons.IH) simp
  obtain n where n: "DirinfoSet_getDirinfoSetPayloadSize s = Inr n" using st(4) by blast
  show ?case
  proof (cases "kmap fst ps k")
    case None
    then show ?thesis using IH [of "F @ [(k, s)]"] c n st
      by (simp add: KVListHelper_findVFromListForK_def beaconed_delta_def emit_set_def [of ps "(k, s)"])
  next
    case (Some kp)
    have i: "find_by fst k ps \<noteq> length ps" "ps ! find_by fst k ps = kp"
      using find_by_nth [OF Some] Some by auto
    have p: "set_ok (snd kp)" using kmap_SomeD [OF Some] assms(1) by auto
    have comp: "DirinfoSet_compress s (snd kp) = Inr (set_delta s (snd kp))" by (rule set_compress [OF s p])
    obtain m where m: "DirinfoSet_getDirinfoSetPayloadSize (set_delta s (snd kp)) = Inr m"
      by (rule set_delta_cases [OF s p]) (use n payload_delta in auto)
    have full: "DirinfoSet_isFullyCompressed (set_delta s (snd kp)) = Inr (set_delta s (snd kp) = DirinfoSet_delta [] [])"
      by (rule set_delta_cases [OF s p]) (use st delta_inject in auto)
    show ?thesis
      using IH [of F] IH [of "F @ [(k, set_delta s (snd kp))]"] c n m i comp full Some
      by (simp add: KVListHelper_findVFromListForK_def beaconed_delta_def emit_set_def [of ps "(k, s)"])
  qed
qed

section \<open>What is received\<close>

text \<open>The elements a receiver can get, and the effect of one on what it holds for the key.\<close>

definition victim_update :: "victim_cacheinfo \<Rightarrow> bool" where
  "victim_update x \<longleftrightarrow> dedup_bitmap x = 0 \<or> dedup_bitmap x = VictimCacheinfo_STALE_BITMAP
     \<or> (\<exists>b l r w. dedup_bitmap x = dedup_bits b l r w \<and> (b \<or> l \<or> r \<or> w) \<and> \<not> (b \<and> l \<and> r \<and> w))"

definition effect :: "victim_cacheinfo \<Rightarrow> victim_cacheinfo option \<Rightarrow> victim_cacheinfo option" where
  "effect x e = (if dedup_bitmap x = 0 then Some x else if dedup_bitmap x = VictimCacheinfo_STALE_BITMAP then None
     else map_option (patched x) e)"

definition held :: "victim_cacheinfo list \<Rightarrow> bool" where
  "held vs \<longleftrightarrow> distinct (map victim_key vs) \<and> (\<forall>v \<in> set vs. dedup_bitmap v = 0)"

lemma patched_sel [simp]:
  "victim_key (patched d e) = victim_key e" "dedup_bitmap (patched d e) = dedup_bitmap e"
  by (simp_all add: patched_def Let_def)

lemma held_update:
  assumes "held vs" and "kmap victim_key vs k = Some e" and "victim_key v = k" and "dedup_bitmap v = 0"
  shows "held (vs[find_by victim_key k vs := v])"
  using assms map_f_update [OF assms(2,3)] by (auto simp: held_def dest!: set_mp [OF set_update_subset_insert])

lemma held_filter: "held vs \<Longrightarrow> held (filter P vs)"
  by (simp add: held_def distinct_filter_map)

lemma held_snoc: "held vs \<Longrightarrow> kmap victim_key vs (victim_key v) = None \<Longrightarrow> dedup_bitmap v = 0 \<Longrightarrow> held (vs @ [v])"
  by (auto simp: held_def kmap_None_iff)

lemma recover_synced_step:
  assumes "victim_update x" and "held E"
  obtains E' where "recover_synced_loop (x # xs) E = recover_synced_loop xs E'" and "held E'"
    and "kmap victim_key E' = (kmap victim_key E)(victim_key x := effect x (kmap victim_key E (victim_key x)))"
proof -
  let ?k = "victim_key x" and ?i = "find_by victim_key (victim_key x) E"
  have find: "VictimCacheinfo_findVictimCacheinfoForKey ?k E = Inr ?i"
    by (rule find_victim) (use assms(2) in \<open>auto simp: held_def\<close>)
  consider (whole) "dedup_bitmap x = 0" | (stale) "dedup_bitmap x = VictimCacheinfo_STALE_BITMAP"
    | (part) b l r w where "dedup_bitmap x = dedup_bits b l r w" "b \<or> l \<or> r \<or> w" "\<not> (b \<and> l \<and> r \<and> w)"
    using assms(1) by (auto simp: victim_update_def)
  then show ?thesis
  proof cases
    case whole
    show ?thesis
    proof (cases "kmap victim_key E ?k")
      case None
      then show ?thesis
        using that [of "E @ [x]"] held_snoc [OF assms(2), of x] find whole kmap_snoc [of victim_key E x] by (simp add: effect_def)
    next
      case (Some e)
      then show ?thesis
        using that [of "E[?i := x]"] held_update [OF assms(2) Some] find whole kmap_update [OF Some] by (simp add: effect_def)
    qed
  next
    case stale
    have eff: "effect x e = None" for e unfolding effect_def stale by (simp add: victim_bits)
    show ?thesis
    proof (cases "kmap victim_key E ?k")
      case None
      then show ?thesis using that [of E] assms(2) find stale by (simp add: eff fun_upd_idem)
    next
      case (Some e)
      have "erase_at ?i E = filter (\<lambda>v. victim_key v \<noteq> ?k) E"
        using assms(2) by (intro erase_at_found) (simp add: held_def)
      then show ?thesis
        using that [of "filter (\<lambda>v. victim_key v \<noteq> ?k) E"] held_filter [OF assms(2)] find stale Some assms(2)
        by (simp add: eff held_def kmap_filter)
    qed
  next
    case part
    have ne: "dedup_bitmap x \<noteq> 0" using part(1,2) by (metis complete_bits(7) dedup_bits_simps(7))
    note st = status_deduped [OF part(1,2)]
    show ?thesis
    proof (cases "kmap victim_key E ?k")
      case None
      then show ?thesis using that [of E] assms(2) find st part(3) ne part(1) by (simp add: effect_def fun_upd_idem)
    next
      case (Some e)
      have e: "dedup_bitmap e = 0" "victim_key e = ?k" "E ! ?i = e"
        using kmap_SomeD [OF Some] assms(2) find_by_nth [OF Some] by (auto simp: held_def)
      have "VictimCacheinfo_recover x e = Inr (patched x e)" by (rule recover_patched [OF e(1) part])
      then show ?thesis
        using that [of "E[?i := patched x e]"] held_update [OF assms(2) Some, of "patched x e"]
          kmap_update [OF Some, of "patched x e"] find st part(1,3) ne e Some by (simp add: effect_def)
    qed
  qed
qed

lemma recover_synced_loop_spec:
  assumes "distinct (map victim_key xs)" and "\<forall>x \<in> set xs. victim_update x" and "held E"
  shows "\<exists>E'. recover_synced_loop xs E = Inr E' \<and> held E' \<and> (\<forall>k. kmap victim_key E' k =
    (case kmap victim_key xs k of None \<Rightarrow> kmap victim_key E k | Some x \<Rightarrow> effect x (kmap victim_key E k)))"
  using assms
proof (induction xs arbitrary: E)
  case (Cons x xs)
  obtain E1 where 1: "recover_synced_loop (x # xs) E = recover_synced_loop xs E1" "held E1"
    "kmap victim_key E1 = (kmap victim_key E)(victim_key x := effect x (kmap victim_key E (victim_key x)))"
    by (rule recover_synced_step [of x E xs]) (use Cons.prems in auto)
  obtain E' where "recover_synced_loop xs E1 = Inr E'" "held E'" "\<forall>k. kmap victim_key E' k =
    (case kmap victim_key xs k of None \<Rightarrow> kmap victim_key E1 k | Some y \<Rightarrow> effect y (kmap victim_key E1 k))"
    using Cons.IH [of E1] Cons.prems 1(2) by auto
  moreover have "kmap victim_key xs (victim_key x) = None" using Cons.prems(1) by (simp add: kmap_None_iff)
  ultimately show ?case using 1(1,3) by (intro exI [of _ E']) (auto split: option.splits)
qed simp

section \<open>Received directory sets\<close>

definition set_effect :: "dirinfo_set \<Rightarrow> dirinfo_set option \<Rightarrow> dirinfo_set option" where
  "set_effect s e = (if DirinfoSet_isComplete s = Inr True then Some s
     else case e of None \<Rightarrow> None | Some e \<Rightarrow> (case DirinfoSet_recover s e of Inl _ \<Rightarrow> None | Inr r \<Rightarrow> Some r))"

abbreviation set_of :: "(key \<times> dirinfo_set) list \<Rightarrow> key \<Rightarrow> dirinfo_set option" where
  "set_of bs k \<equiv> map_option snd (kmap fst bs k)"

definition sets_held :: "(key \<times> dirinfo_set) list \<Rightarrow> bool" where
  "sets_held bs \<longleftrightarrow> distinct (map fst bs) \<and> (\<forall>b \<in> set bs. set_ok (snd b))"

definition set_update :: "dirinfo_set \<Rightarrow> bool" where
  "set_update s \<longleftrightarrow> set_ok s \<or> (\<exists>n d. s = DirinfoSet_delta n d \<and> \<not> (n = [] \<and> d = []))"

lemma sets_held_update:
  assumes "sets_held bs" and "kmap fst bs k = Some b" and "set_ok s"
  shows "sets_held (bs[find_by fst k bs := (k, s)])"
  using assms map_f_update [OF assms(2), of "(k, s)"] by (auto simp: sets_held_def dest!: set_mp [OF set_update_subset_insert])

lemma recover_beaconed_step:
  assumes "set_update s" and "sets_held E" and "set_effect s (set_of E k) = Some r" and "set_ok r"
  obtains E' where "recover_beaconed_loop ((k, s) # xs) E = recover_beaconed_loop xs E'" and "sets_held E'"
    and "kmap fst E' = (kmap fst E)(k \<mapsto> (k, r))"
proof -
  let ?i = "find_by fst k E"
  show ?thesis
  proof (cases "kmap fst E k")
    case None
    then have c: "DirinfoSet_isComplete s = Inr True" "r = s" using assms(3) by (auto simp: set_effect_def split: if_splits)
    have "sets_held (E @ [(k, s)])" using assms(2,4) c None by (auto simp: sets_held_def kmap_None_iff)
    then show ?thesis
      using that [of "E @ [(k, s)]"] None c kmap_snoc [of fst E "(k, s)"] by (simp add: KVListHelper_findVFromListForK_def)
  next
    case (Some b)
    have b: "fst b = k" "E ! ?i = b" "find_by fst k E \<noteq> length E" using kmap_SomeD [OF Some] find_by_nth [OF Some] Some by auto
    have upd: "kmap fst (E[?i := (k, r)]) = (kmap fst E)(k \<mapsto> (k, r))" by (rule kmap_update [OF Some]) simp
    show ?thesis
    proof (cases "set_ok s")
      case True
      then have "r = s" using assms(3) set_ok_status(1) by (simp add: set_effect_def)
      then show ?thesis
        using that [of "E[?i := (k, r)]"] sets_held_update [OF assms(2) Some assms(4)] upd b Some set_ok_status(1) [OF True]
        by (simp add: Let_def KVListHelper_findVFromListForK_def)
    next
      case False
      then obtain n d where s: "s = DirinfoSet_delta n d" "\<not> (n = [] \<and> d = [])" using assms(1) by (auto simp: set_update_def)
      have rec: "DirinfoSet_recover s (snd b) = Inr r"
        using assms(3) s Some by (auto simp: set_effect_def split: sum.splits)
      show ?thesis
        using that [of "E[?i := (k, r)]"] sets_held_update [OF assms(2) Some assms(4)] upd b s rec Some
        by (simp add: Let_def KVListHelper_findVFromListForK_def)
    qed
  qed
qed

lemma recover_beaconed_loop_spec:
  assumes "distinct (map fst xs)" and "\<forall>x \<in> set xs. set_update (snd x)" and "sets_held E"
    and "\<forall>x \<in> set xs. \<exists>r. set_effect (snd x) (set_of E (fst x)) = Some r \<and> set_ok r"
  shows "\<exists>E'. recover_beaconed_loop xs E = Inr E' \<and> sets_held E' \<and> (\<forall>k. set_of E' k =
    (case set_of xs k of None \<Rightarrow> set_of E k | Some s \<Rightarrow> set_effect s (set_of E k)))"
  using assms
proof (induction xs arbitrary: E)
  case (Cons x xs)
  obtain k s where x: "x = (k, s)" by (cases x)
  obtain r where r: "set_effect s (set_of E k) = Some r" "set_ok r" using Cons.prems(4) x by auto
  obtain E1 where 1: "recover_beaconed_loop ((k, s) # xs) E = recover_beaconed_loop xs E1" "sets_held E1"
    "kmap fst E1 = (kmap fst E)(k \<mapsto> (k, r))"
    by (rule recover_beaconed_step [OF _ Cons.prems(3) r, of xs]) (use Cons.prems(2) x in auto)
  have k: "kmap fst xs k = None" "k \<notin> fst ` set xs" using Cons.prems(1) x by (simp_all add: kmap_None_iff)
  have "\<forall>y \<in> set xs. \<exists>r. set_effect (snd y) (set_of E1 (fst y)) = Some r \<and> set_ok r"
  proof
    fix y assume y: "y \<in> set xs"
    then have "fst y \<noteq> k" using k(2) by auto
    then show "\<exists>r. set_effect (snd y) (set_of E1 (fst y)) = Some r \<and> set_ok r" using Cons.prems(4) y 1(3) by auto
  qed
  then obtain E' where "recover_beaconed_loop xs E1 = Inr E'" "sets_held E'" "\<forall>k. set_of E' k =
    (case set_of xs k of None \<Rightarrow> set_of E1 k | Some s \<Rightarrow> set_effect s (set_of E1 k))"
    using Cons.IH [of E1] Cons.prems(1,2) 1(2) by auto
  then show ?case using 1(1,3) x k r(1) by (intro exI [of _ E']) (auto split: option.splits)
qed simp

section \<open>Sent and received\<close>

definition send_victim :: "victim_cacheinfo option \<Rightarrow> victim_cacheinfo \<Rightarrow> victim_cacheinfo option" where
  "send_victim op c = (case op of None \<Rightarrow> Some c
     | Some p \<Rightarrow> if all_same c p then None else if any_same c p then Some (deduped c p) else Some c)"

lemma emit_send: "emit ps c = (case send_victim (kmap victim_key ps (victim_key c)) c of None \<Rightarrow> [] | Some y \<Rightarrow> [y])"
  by (simp add: emit_def send_victim_def split: option.splits)

lemma send_victim_key: "send_victim op c = Some y \<Longrightarrow> victim_key y = victim_key c"
  by (auto simp: send_victim_def split: option.splits if_splits)

lemma marked_sel [simp]: "victim_key (marked p) = victim_key p" "dedup_bitmap (marked p) = VictimCacheinfo_STALE_BITMAP"
  by (simp_all add: marked_def)

lemma synced_delta_map:
  assumes "distinct (map victim_key cs)" and "distinct (map victim_key ps)"
  shows "distinct (map victim_key (synced_delta cs ps))"
    and "kmap victim_key (synced_delta cs ps) k = (case kmap victim_key cs k of None \<Rightarrow> map_option marked (kmap victim_key ps k)
      | Some c \<Rightarrow> send_victim (kmap victim_key ps k) c)"
proof -
  let ?g = "\<lambda>c. send_victim (kmap victim_key ps (victim_key c)) c"
  let ?fresh = "filter (\<lambda>p. kmap victim_key cs (victim_key p) = None) ps"
  have 1: "kmap victim_key (concat (map (emit ps) cs)) k = Option.bind (kmap victim_key cs k) ?g" for k
    by (rule kmap_concat(1) [OF assms(1)]) (simp_all add: emit_send send_victim_key)
  have 2: "distinct (map victim_key (concat (map (emit ps) cs)))"
    by (rule kmap_concat(2) [OF assms(1), where g = ?g]) (simp_all add: emit_send send_victim_key)
  have fresh: "kmap victim_key ?fresh k = (if kmap victim_key cs k = None then kmap victim_key ps k else None)" for k
  proof -
    have "kmap victim_key ?fresh = (\<lambda>k. if kmap victim_key cs k = None then kmap victim_key ps k else None)"
      by (rule kmap_eqI) (use assms(2) in \<open>auto simp: distinct_filter_map kmap_Some_iff split: if_splits\<close>)
    then show ?thesis by simp
  qed
  have 3: "kmap victim_key (gone cs ps) k = map_option marked (if kmap victim_key cs k = None then kmap victim_key ps k else None)" for k
    by (simp add: gone_def kmap_map fresh)
  have 4: "distinct (map victim_key (gone cs ps))"
    using assms(2) by (simp add: gone_def comp_def distinct_map_filter)
  show "kmap victim_key (synced_delta cs ps) k = (case kmap victim_key cs k of None \<Rightarrow> map_option marked (kmap victim_key ps k)
      | Some c \<Rightarrow> send_victim (kmap victim_key ps k) c)"
    using kmap_SomeD [of victim_key cs k] by (auto simp: synced_delta_def kmap_append 1 3 split: option.splits)
  have "victim_key ` set (concat (map (emit ps) cs)) \<inter> victim_key ` set (gone cs ps) = {}"
  proof (rule ccontr)
    assume "\<not> ?thesis"
    then obtain k where "k \<in> victim_key ` set (concat (map (emit ps) cs))" "k \<in> victim_key ` set (gone cs ps)" by blast
    then have "kmap victim_key (concat (map (emit ps) cs)) k \<noteq> None" "kmap victim_key (gone cs ps) k \<noteq> None"
      by (simp_all add: kmap_None_iff del: set_concat)
    then show False by (auto simp: 1 3 split: if_splits)
  qed
  then show "distinct (map victim_key (synced_delta cs ps))" using 2 4 by (simp add: synced_delta_def del: set_concat)
qed

lemma sent_sel [simp]: "victim_key (sent v) = victim_key v" "dedup_bitmap (sent v) = dedup_bitmap v"
  by (simp_all add: sent_def)

lemma sent_complete [simp]:
  assumes "dedup_bitmap v = 0"
  shows "object_size (sent v) = object_size v" "local_reward (sent v) = local_reward v"
  using assms by (simp_all add: sent_def)

lemma victim_ok_sent: "victim_ok v \<Longrightarrow> victim_ok (sent v)"
  by (simp add: victim_ok_def victim_complete_def) (simp add: victim_bits)

lemma victims_ok_kmap: "victims_ok vs \<Longrightarrow> kmap victim_key vs k = Some v \<Longrightarrow> victim_ok v \<and> victim_key v = k"
  using kmap_SomeD by (fastforce simp: victims_ok_def)

lemma victim_update_deduped: "any_same c p \<Longrightarrow> \<not> all_same c p \<Longrightarrow> victim_update (deduped c p)"
  unfolding victim_update_def deduped_sel any_same_def all_same_def by blast

lemma synced_delta_update:
  assumes "victims_ok cs" and "victims_ok ps" and "x \<in> set (synced_delta cs ps)"
  shows "victim_update x"
proof -
  have d: "distinct (map victim_key cs)" "distinct (map victim_key ps)" using assms(1,2) by (simp_all add: victims_ok_def)
  have "kmap victim_key (synced_delta cs ps) (victim_key x) = Some x"
    using synced_delta_map(1) [OF d] assms(3) by (simp add: kmap_Some_iff)
  then consider (old) p where "x = marked p" | (new) c where "kmap victim_key cs (victim_key x) = Some c"
      "send_victim (kmap victim_key ps (victim_key x)) c = Some x"
    by (auto simp: synced_delta_map(2) [OF d] split: option.splits)
  then show ?thesis
  proof cases
    case new
    have "victim_update c"
      using victims_ok_kmap [OF assms(1) new(1)] by (simp add: victim_update_def victim_ok_bitmap)
    then show ?thesis
      using new(2) victim_update_deduped by (auto simp: send_victim_def split: option.splits if_splits)
  qed (simp add: victim_update_def)
qed

text \<open>What the receiver then holds for one key: the size the sender has, and nothing if the sender has nothing.\<close>

lemma effect_agrees:
  assumes "\<And>c. oc = Some c \<Longrightarrow> victim_ok c \<and> victim_key c = k" and "\<And>p. op = Some p \<Longrightarrow> victim_ok p"
    and "\<And>e. oe = Some e \<Longrightarrow> victim_ok e \<and> victim_key e = k"
    and "map_option object_size oe = map_option object_size op"
  defines "res \<equiv> (case map_option sent (case oc of None \<Rightarrow> map_option marked op | Some c \<Rightarrow> send_victim op c) of
      None \<Rightarrow> oe | Some x \<Rightarrow> effect x oe)"
  shows "map_option object_size res = map_option object_size oc" and "res = Some r \<Longrightarrow> victim_ok r"
proof -
  have stale: "VictimCacheinfo_STALE_BITMAP \<noteq> 0" by (simp add: victim_bits)
  have "map_option object_size res = map_option object_size oc \<and> (\<forall>r. res = Some r \<longrightarrow> victim_ok r)"
  proof (cases oc)
    case None
    then show ?thesis using assms(3,4) stale by (cases op) (auto simp: res_def effect_def)
  next
    case (Some c)
    have c: "victim_ok c" "dedup_bitmap c = 0" using assms(1) Some by (auto simp: victim_ok_bitmap)
    show ?thesis
    proof (cases "send_victim op c = Some c")
      case True
      then show ?thesis using c Some victim_ok_sent by (simp add: res_def effect_def)
    next
      case False
      then obtain p where p: "op = Some p" by (cases op) (auto simp: send_victim_def)
      then obtain e where e: "oe = Some e" "object_size e = object_size p" using assms(4) by (cases oe) auto
      have ok: "victim_ok e" "victim_key e = k" using assms(3) e by auto
      show ?thesis
      proof (cases "all_same c p")
        case True
        then show ?thesis using Some p e ok by (simp add: res_def send_victim_def all_same_def same_size_def)
      next
        case nall: False
        then have any: "any_same c p" using False p by (auto simp: send_victim_def split: if_splits)
        have ne: "dedup_bitmap (deduped c p) \<noteq> 0"
          using any complete_bits(7) dedup_bits_simps(7) [of "same_size c p"] unfolding any_same_def by (metis deduped_sel(3))
        have eff: "res = Some (patched (sent (deduped c p)) e)"
          using Some p e nall any ne by (simp add: res_def send_victim_def effect_def)
        have "object_size (patched (sent (deduped c p)) e) = object_size c"
          using e(2) by (simp add: patched_def Let_def sent_def) (simp add: deduped_def same_size_def)
        moreover have "local_reward (patched (sent (deduped c p)) e) = (if same_reward c p then local_reward e else local_reward c)"
          by (simp add: patched_def Let_def sent_def) (simp add: deduped_def)
        ultimately show ?thesis using eff ok c Some by (simp add: victim_ok_def victim_complete_def)
      qed
    qed
  qed
  then show "map_option object_size res = map_option object_size oc" and "res = Some r \<Longrightarrow> victim_ok r" by simp_all
qed

definition size_of :: "victim_cacheinfo list \<Rightarrow> key \<Rightarrow> u32 option" where
  "size_of vs k = map_option object_size (kmap victim_key vs k)"

lemma victims_ok_held: "victims_ok vs \<Longrightarrow> held vs"
  by (auto simp: victims_ok_def held_def victim_ok_bitmap)

lemma recover_synced_agrees:
  assumes "victims_ok cs" and "victims_ok ps" and "victims_ok E" and "size_of E = size_of ps"
  shows "\<exists>E'. recover_synced_loop (map sent (synced_delta cs ps)) E = Inr E' \<and> victims_ok E' \<and> size_of E' = size_of cs"
proof -
  let ?xs = "map sent (synced_delta cs ps)"
  have d: "distinct (map victim_key cs)" "distinct (map victim_key ps)" using assms(1,2) by (simp_all add: victims_ok_def)
  have dx: "distinct (map victim_key ?xs)" using synced_delta_map(1) [OF d] by (simp add: comp_def)
  have up: "\<forall>x \<in> set ?xs. victim_update x" using synced_delta_update [OF assms(1,2)] by (auto simp: victim_update_def)
  obtain E' where E': "recover_synced_loop ?xs E = Inr E'" "held E'" "\<forall>k. kmap victim_key E' k =
      (case kmap victim_key ?xs k of None \<Rightarrow> kmap victim_key E k | Some x \<Rightarrow> effect x (kmap victim_key E k))"
    using recover_synced_loop_spec [OF dx up victims_ok_held [OF assms(3)]] by blast
  have "kmap victim_key ?xs k = map_option sent (case kmap victim_key cs k of None \<Rightarrow> map_option marked (kmap victim_key ps k)
      | Some c \<Rightarrow> send_victim (kmap victim_key ps k) c)" for k
    by (simp only: kmap_map [where f = victim_key and h = sent, OF sent_sel(1)] synced_delta_map(2) [OF d])
  note agrees = effect_agrees [where oc = "kmap victim_key cs k" and op = "kmap victim_key ps k" and oe = "kmap victim_key E k" and k = k for k,
      folded this, folded E'(3) [rule_format]]
  have prem: "map_option object_size (kmap victim_key E k) = map_option object_size (kmap victim_key ps k)" for k
    using assms(4) by (simp add: size_of_def fun_eq_iff)
  have 1: "map_option object_size (kmap victim_key E' k) = map_option object_size (kmap victim_key cs k)"
    and 2: "kmap victim_key E' k = Some r \<Longrightarrow> victim_ok r" for k r
    by (rule agrees; use victims_ok_kmap assms(1,2,3) prem in blast)+
  have "\<forall>v \<in> set E'. victim_ok v"
    using 2 E'(2) by (metis held_def kmap_Some_iff)
  then show ?thesis
    using E'(1,2) 1 by (auto simp: size_of_def fun_eq_iff victims_ok_def held_def)
qed

definition send_set :: "dirinfo_set option \<Rightarrow> dirinfo_set \<Rightarrow> dirinfo_set option" where
  "send_set op s = (case op of None \<Rightarrow> Some s
     | Some p \<Rightarrow> if set_delta s p = DirinfoSet_delta [] [] then None else Some (set_delta s p))"

text \<open>The receiver knows at least the sets the sender has, with the same members.\<close>

definition knows :: "(key \<times> dirinfo_set) list \<Rightarrow> (key \<times> dirinfo_set) list \<Rightarrow> bool" where
  "knows E ps \<longleftrightarrow> (\<forall>k p. set_of ps k = Some p \<longrightarrow> (\<exists>e. set_of E k = Some e \<and> members e = members p))"

lemma beaconed_delta_map:
  assumes "distinct (map fst cs)"
  shows "distinct (map fst (beaconed_delta cs ps))"
    and "set_of (beaconed_delta cs ps) k = Option.bind (set_of cs k) (send_set (set_of ps k))"
proof -
  let ?g = "\<lambda>c. map_option (Pair (fst c)) (send_set (set_of ps (fst c)) (snd c))"
  have e: "emit_set ps c = (case ?g c of None \<Rightarrow> [] | Some y \<Rightarrow> [y])" for c
    by (cases c) (simp add: emit_set_def send_set_def split: option.splits)
  show "distinct (map fst (beaconed_delta cs ps))"
    unfolding beaconed_delta_def by (rule kmap_concat(2) [OF assms, where g = ?g]) (auto simp: e)
  have "kmap fst (beaconed_delta cs ps) k = Option.bind (kmap fst cs k) ?g"
    unfolding beaconed_delta_def by (rule kmap_concat(1) [OF assms]) (auto simp: e)
  then show "set_of (beaconed_delta cs ps) k = Option.bind (set_of cs k) (send_set (set_of ps k))"
    using kmap_SomeD [of fst cs k] by (cases "kmap fst cs k") (auto simp: option.map_comp comp_def option.map_ident)
qed

lemma sets_ok_set_of: "sets_ok bs \<Longrightarrow> set_of bs k = Some s \<Longrightarrow> set_ok s \<and> length (keystr k) < 2 ^ 31"
  using kmap_SomeD [of fst bs k] by (fastforce simp: sets_ok_def)

text \<open>One set: it is sent in a form the receiver can apply, and then the members are those of the sender.\<close>

lemma send_set_agrees:
  assumes "set_ok s" and "\<And>p. op = Some p \<Longrightarrow> set_ok p \<and> (\<exists>e. oe = Some e \<and> set_ok e \<and> members e = members p)"
  shows "send_set op s = Some x \<Longrightarrow> set_update x \<and> (\<exists>r. set_effect x oe = Some r \<and> set_ok r \<and> members r = members s)"
    and "send_set op s = None \<Longrightarrow> \<exists>e. oe = Some e \<and> members e = members s"
proof -
  have whole: "set_update s \<and> (\<exists>r. set_effect s oe = Some r \<and> set_ok r \<and> members r = members s)"
    using assms(1) set_ok_status(1) [OF assms(1)] by (simp add: set_update_def set_effect_def)
  have "(send_set op s = Some x \<longrightarrow> set_update x \<and> (\<exists>r. set_effect x oe = Some r \<and> set_ok r \<and> members r = members s))
    \<and> (send_set op s = None \<longrightarrow> (\<exists>e. oe = Some e \<and> members e = members s))"
  proof (cases op)
    case None
    then show ?thesis using whole by (auto simp: send_set_def)
  next
    case (Some p)
    obtain e where p: "set_ok p" and e: "oe = Some e" "set_ok e" "members e = members p" using assms(2) [OF Some] by blast
    show ?thesis using assms(1) p
    proof (cases rule: set_delta_cases)
      case whole
      then show ?thesis using \<open>set_update s \<and> _\<close> Some set_ok_status(3) [OF assms(1)] by (auto simp: send_set_def)
    next
      case unchanged
      then show ?thesis using Some e by (simp add: send_set_def)
    next
      case changed
      obtain r where r: "DirinfoSet_recover (set_delta s p) e = Inr r" "set_ok r" "members r = members s"
        using set_recover_changed [OF assms(1) p e(2,3) changed(2)] changed(1) by metis
      have "set_update (set_delta s p)" "DirinfoSet_isComplete (set_delta s p) = Inr False" "set_delta s p \<noteq> DirinfoSet_delta [] []"
        using changed by (auto simp: set_update_def)
      then show ?thesis using Some e r by (auto simp: send_set_def set_effect_def)
    qed
  qed
  then show "send_set op s = Some x \<Longrightarrow> set_update x \<and> (\<exists>r. set_effect x oe = Some r \<and> set_ok r \<and> members r = members s)"
    and "send_set op s = None \<Longrightarrow> \<exists>e. oe = Some e \<and> members e = members s" by simp_all
qed

lemma sets_ok_held: "sets_ok bs \<Longrightarrow> sets_held bs"
  by (fastforce simp: sets_ok_def sets_held_def)

lemma recover_beaconed_agrees:
  assumes "sets_ok cs" and "sets_ok ps" and "sets_ok E" and "knows E ps"
  shows "\<exists>E'. recover_beaconed_loop (beaconed_delta cs ps) E = Inr E' \<and> sets_ok E' \<and> knows E' cs"
proof -
  let ?xs = "beaconed_delta cs ps"
  have d: "distinct (map fst cs)" using assms(1) by (simp add: sets_ok_def)
  note dmap = beaconed_delta_map [OF d, of ps]
  have E: "set_ok p \<and> (\<exists>e. set_of E k = Some e \<and> set_ok e \<and> members e = members p)" if "set_of ps k = Some p" for k p
    using assms(4) sets_ok_set_of [OF assms(2) that] sets_ok_set_of [OF assms(3)] that unfolding knows_def by blast
  have agrees: "set_update x \<and> (\<exists>r. set_effect x (set_of E k) = Some r \<and> set_ok r \<and> members r = members s)"
    if "set_of cs k = Some s" "send_set (set_of ps k) s = Some x" for k s x
    using send_set_agrees(1) [of s "set_of ps k" "set_of E k" x] sets_ok_set_of [OF assms(1) that(1)] E that(2) by blast
  have xs: "\<exists>s. set_of cs (fst x) = Some s \<and> send_set (set_of ps (fst x)) s = Some (snd x)" if "x \<in> set ?xs" for x
  proof -
    have "set_of ?xs (fst x) = Some (snd x)" using that dmap(1) by (metis kmap_Some_iff option.simps(9))
    then show ?thesis by (simp add: dmap(2) bind_eq_Some_conv)
  qed
  obtain E' where E': "recover_beaconed_loop ?xs E = Inr E'" "sets_held E'" "\<And>k. set_of E' k =
      (case set_of ?xs k of None \<Rightarrow> set_of E k | Some s \<Rightarrow> set_effect s (set_of E k))"
    using recover_beaconed_loop_spec [OF dmap(1) _ sets_ok_held [OF assms(3)]] xs agrees by metis
  have "length (keystr k) < 2 ^ 31" if "set_of E' k = Some r" for k r
  proof -
    have "set_of cs k \<noteq> None \<or> set_of E k \<noteq> None"
      using that E'(3) [of k] dmap(2) [of k] by (cases "set_of cs k") (auto split: option.splits)
    then show ?thesis using sets_ok_set_of assms(1,3) by blast
  qed
  then have "sets_ok E'"
    using E'(2) by (auto simp: sets_ok_def sets_held_def) (metis fst_conv kmap_Some_iff option.simps(9))
  moreover have "knows E' cs" unfolding knows_def
  proof (intro allI impI)
    fix k s assume s: "set_of cs k = Some s"
    then have x: "set_of ?xs k = send_set (set_of ps k) s" by (auto simp: dmap(2))
    show "\<exists>e. set_of E' k = Some e \<and> members e = members s"
    proof (cases "send_set (set_of ps k) s")
      case None
      then show ?thesis
        using send_set_agrees(2) [of s "set_of ps k" "set_of E k"] sets_ok_set_of [OF assms(1) s] E E'(3) [of k] x by auto
    next
      case (Some y)
      then show ?thesis using agrees [OF s Some] E'(3) [of k] x by auto
    qed
  qed
  ultimately show ?thesis using E'(1) by blast
qed

section \<open>Syncsets\<close>

text \<open>Syncsets whose bitmap agrees with their contents; the operations stay among them.\<close>

definition syncset :: "u64 \<Rightarrow> bool \<Rightarrow> bool \<Rightarrow> bool \<Rightarrow> bool \<Rightarrow> u64 \<Rightarrow> u32 \<Rightarrow> victim_cacheinfo list \<Rightarrow> (key \<times> dirinfo_set) list
    \<Rightarrow> victim_syncset" where
  "syncset n e dm ds db m d vs bs = \<lparr>compressed_bitmap = sync_bits dm ds (vs = []) db (bs = []), seqnum = n, enforce_complete = e,
     cache_margin_bytes = m, cache_margin_delta_bytes = d, local_synced_victims = vs, local_beaconed_victims = bs\<rparr>"

lemma syncset_sel [simp]:
  "compressed_bitmap (syncset n e dm ds db m d vs bs) = sync_bits dm ds (vs = []) db (bs = [])"
  "seqnum (syncset n e dm ds db m d vs bs) = n" "enforce_complete (syncset n e dm ds db m d vs bs) = e"
  "cache_margin_bytes (syncset n e dm ds db m d vs bs) = m" "cache_margin_delta_bytes (syncset n e dm ds db m d vs bs) = d"
  "local_synced_victims (syncset n e dm ds db m d vs bs) = vs" "local_beaconed_victims (syncset n e dm ds db m d vs bs) = bs"
  by (simp_all add: syncset_def)

lemma all_complete_True: "(\<And>x. x \<in> set xs \<Longrightarrow> f x = Inr True) \<Longrightarrow> all_complete f xs = Inr True"
  by (induction xs) auto

definition victims_whole :: "victim_cacheinfo list \<Rightarrow> bool" where
  "victims_whole vs \<longleftrightarrow> (\<forall>v \<in> set vs. dedup_bitmap v = 0)"

definition sets_whole :: "(key \<times> dirinfo_set) list \<Rightarrow> bool" where
  "sets_whole bs \<longleftrightarrow> (\<forall>b \<in> set bs. DirinfoSet_isComplete (snd b) = Inr True)"

lemma assert_whole:
  "victims_whole (local_synced_victims s) \<Longrightarrow> local_synced_victims s \<noteq> [] \<Longrightarrow> VictimSyncset_assertAllCacheinfosComplete chk s k = k"
  "sets_whole (local_beaconed_victims s) \<Longrightarrow> local_beaconed_victims s \<noteq> [] \<Longrightarrow> VictimSyncset_assertAllDirinfoSetsComplete chk s k = k"
proof -
  have "all_complete VictimCacheinfo_isComplete vs = Inr True" if "victims_whole vs" for vs
    by (rule all_complete_True) (use that in \<open>simp add: victims_whole_def\<close>)
  then show "victims_whole (local_synced_victims s) \<Longrightarrow> local_synced_victims s \<noteq> [] \<Longrightarrow> VictimSyncset_assertAllCacheinfosComplete chk s k = k"
    by (simp add: VictimSyncset_assertAllCacheinfosComplete_def)
  have "all_complete (\<lambda>(key, ds). DirinfoSet_isComplete ds) bs = Inr True" if "sets_whole bs" for bs :: "(key \<times> dirinfo_set) list"
    by (rule all_complete_True) (use that in \<open>auto simp: sets_whole_def\<close>)
  then show "sets_whole (local_beaconed_victims s) \<Longrightarrow> local_beaconed_victims s \<noteq> [] \<Longrightarrow> VictimSyncset_assertAllDirinfoSetsComplete chk s k = k"
    by (simp add: VictimSyncset_assertAllDirinfoSetsComplete_def)
qed

lemma syncset_getters [simp]:
  "ds \<or> victims_whole vs \<Longrightarrow> VictimSyncset_getLocalSyncedVictimsPtr chk (syncset n e dm ds db m d vs bs) = Inr (\<not> ds, vs)"
  "ds \<or> victims_whole vs \<Longrightarrow> VictimSyncset_getLocalSyncedVictims chk (syncset n e dm ds db m d vs bs) = Inr (\<not> ds, vs)"
  "db \<or> sets_whole bs \<Longrightarrow> VictimSyncset_getLocalBeaconedVictimsPtr chk (syncset n e dm ds db m d vs bs) = Inr (\<not> db, bs)"
  "db \<or> sets_whole bs \<Longrightarrow> VictimSyncset_getLocalBeaconedVictims chk (syncset n e dm ds db m d vs bs) = Inr (\<not> db, bs)"
  "VictimSyncset_getCacheMarginBytesOrDelta (syncset n e dm ds db m d vs bs) = Inr (if dm then Inr d else Inl m)"
  by (cases ds; cases db; simp add: VictimSyncset_getLocalSyncedVictimsPtr_def VictimSyncset_getLocalSyncedVictims_def
      VictimSyncset_getLocalBeaconedVictimsPtr_def VictimSyncset_getLocalBeaconedVictims_def assert_whole Let_def
      VictimSyncset_assertAtLeastOneCacheinfoDeduped_def VictimSyncset_assertAtLeastOneDirinfoSetCompressed_def
      VictimSyncset_getCacheMarginBytesOrDelta_def)+

lemma syncset_setters [simp]:
  "VictimSyncset_setCacheMarginDeltaBytes d' (syncset n e dm ds db m d vs bs) = Inr (syncset n e True ds db 0 d' vs bs)"
  "VictimSyncset_setLocalSyncedVictimsForCompress vs' (syncset n e dm ds db m d vs bs) = Inr (syncset n e dm True db m d vs' bs)"
  "VictimSyncset_setLocalBeaconedVictimsForCompress bs' (syncset n e dm ds db m d vs bs) = Inr (syncset n e dm ds True m d vs bs')"
  "VictimSyncset_setCacheMarginBytes m' (syncset n e dm ds db m d vs bs) = Inr (syncset n e False ds db m' 0 vs bs)"
  "victims_whole vs' \<Longrightarrow> VictimSyncset_setLocalSyncedVictims chk vs' (syncset n e dm ds db m d vs bs) = Inr (syncset n e dm False db m d vs' bs)"
  "sets_whole bs' \<Longrightarrow> VictimSyncset_setLocalBeaconedVictims chk bs' (syncset n e dm ds db m d vs bs) = Inr (syncset n e dm ds False m d vs bs')"
proof -
  note clear = clear_compressed_bits [OF syncset_sel(1)]
  show "VictimSyncset_setCacheMarginDeltaBytes d' (syncset n e dm ds db m d vs bs) = Inr (syncset n e True ds db 0 d' vs bs)"
    by (simp add: VictimSyncset_setCacheMarginDeltaBytes_def syncset_def)
  show "VictimSyncset_setLocalSyncedVictimsForCompress vs' (syncset n e dm ds db m d vs bs) = Inr (syncset n e dm True db m d vs' bs)"
    by (simp add: VictimSyncset_setLocalSyncedVictimsForCompress_def VictimSyncset_assertAtLeastOneCacheinfoDeduped_def Let_def syncset_def)
  show "VictimSyncset_setLocalBeaconedVictimsForCompress bs' (syncset n e dm ds db m d vs bs) = Inr (syncset n e dm ds True m d vs bs')"
    by (simp add: VictimSyncset_setLocalBeaconedVictimsForCompress_def VictimSyncset_assertAtLeastOneDirinfoSetCompressed_def Let_def syncset_def)
  show "VictimSyncset_setCacheMarginBytes m' (syncset n e dm ds db m d vs bs) = Inr (syncset n e False ds db m' 0 vs bs)"
    by (simp add: VictimSyncset_setCacheMarginBytes_def clear)
  show "VictimSyncset_setLocalSyncedVictims chk vs' (syncset n e dm ds db m d vs bs) = Inr (syncset n e dm False db m d vs' bs)"
    if "victims_whole vs'"
    using that by (simp add: VictimSyncset_setLocalSyncedVictims_def clear Let_def assert_whole)
  show "VictimSyncset_setLocalBeaconedVictims chk bs' (syncset n e dm ds db m d vs bs) = Inr (syncset n e dm ds False m d vs bs')"
    if "sets_whole bs'"
    using that by (simp add: VictimSyncset_setLocalBeaconedVictims_def clear Let_def assert_whole)
qed

lemma sum_sizes_returns: "(\<And>x. x \<in> set xs \<Longrightarrow> \<exists>n. f x = Inr n) \<Longrightarrow> \<exists>n. sum_sizes f xs acc = Inr n"
proof (induction xs arbitrary: acc)
  case (Cons x xs)
  obtain n where "f x = Inr n" using Cons.prems [of x] by auto
  then show ?case using Cons.IH [of "acc + n"] Cons.prems by simp
qed simp

lemma payload_size_returns:
  assumes "\<And>v. v \<in> set vs \<Longrightarrow> dedup_bitmap v \<noteq> VictimCacheinfo_INVALID_BITMAP"
    and "\<And>b. b \<in> set bs \<Longrightarrow> \<exists>n. DirinfoSet_getDirinfoSetPayloadSize (snd b) = Inr n"
  shows "\<exists>n. VictimSyncset_getVictimSyncsetPayloadSize (syncset k e dm ds db m d vs bs) = Inr n"
proof -
  have 1: "\<exists>n. sum_sizes VictimCacheinfo_getVictimCacheinfoPayloadSize vs acc = Inr n" for acc
    using assms(1) payload_returns by (intro sum_sizes_returns) metis
  have 2: "\<exists>n. sum_sizes (\<lambda>(key, ds). bindE (DirinfoSet_getDirinfoSetPayloadSize ds) (\<lambda>n. Inr (Key_getKeyPayloadSize key + n))) bs acc = Inr n" for acc
    by (rule sum_sizes_returns) (use assms(2) in fastforce)
  show ?thesis
    using 1 2 by (simp add: VictimSyncset_getVictimSyncsetPayloadSize_def Let_def) (metis bindE_simps(2))
qed

section \<open>Compression of a syncset\<close>

definition syncset_ok :: "victim_syncset \<Rightarrow> bool" where
  "syncset_ok s \<longleftrightarrow> s = syncset (seqnum s) (enforce_complete s) False False False (cache_margin_bytes s) 0 (local_synced_victims s)
     (local_beaconed_victims s) \<and> victims_ok (local_synced_victims s) \<and> sets_ok (local_beaconed_victims s)"

lemma victims_ok_whole: "victims_ok vs \<Longrightarrow> victims_whole vs"
  by (simp add: victims_ok_def victims_whole_def victim_ok_bitmap)

lemma sets_ok_whole: "sets_ok bs \<Longrightarrow> sets_whole bs"
  by (auto simp: sets_ok_def sets_whole_def set_ok_status)

lemma beaconed_delta_payload:
  assumes "sets_ok cs" and "sets_ok ps" and "b \<in> set (beaconed_delta cs ps)"
  shows "\<exists>n. DirinfoSet_getDirinfoSetPayloadSize (snd b) = Inr n"
proof -
  obtain c where c: "c \<in> set cs" "b \<in> set (emit_set ps c)" using assms(3) by (auto simp: beaconed_delta_def)
  have s: "set_ok (snd c)" using assms(1) c(1) by (auto simp: sets_ok_def)
  show ?thesis
  proof (cases "kmap fst ps (fst c)")
    case None
    then show ?thesis using c(2) set_ok_status(4) [OF s] by (simp add: emit_set_def)
  next
    case (Some p)
    then have "set_ok (snd p)" using assms(2) kmap_SomeD [OF Some] by (auto simp: sets_ok_def)
    then show ?thesis
      using c(2) Some set_ok_status(4) [OF s] set_delta_cases [OF s] payload_delta
      by (auto simp: emit_set_def split: if_splits) metis
  qed
qed

lemma synced_delta_valid:
  assumes "victims_ok cs" and "victims_ok ps" and "x \<in> set (synced_delta cs ps)"
  shows "dedup_bitmap x \<noteq> VictimCacheinfo_INVALID_BITMAP"
  using synced_delta_update [OF assms] by (auto simp: victim_update_def)

lemma next_seqnum_ok:
  assumes "compressed_bitmap s = sync_bits a1 a2 a3 a4 a5" and "compressed_bitmap p = sync_bits b1 b2 b3 b4 b5"
    and "seqnum s = seqnum p + 1" and "seqnum p \<noteq> - 1"
  shows "next_seqnum s p k = k"
  using assms by (simp add: next_seqnum_def uint64Add_one)

lemma compress_syncset:
  assumes "syncset_ok c" and "syncset_ok p" and "seqnum c = seqnum p + 1" and "seqnum p \<noteq> - 1"
    and "margin_delta (cache_margin_bytes c) (cache_margin_bytes p) = Inr delta"
  obtains (whole) "VictimSyncset_compress chk c p = Inr c"
  | (part) dm ds db d where "VictimSyncset_compress chk c p = Inr (syncset (seqnum c) (enforce_complete c) dm ds db
        (if dm then 0 else cache_margin_bytes c) (if dm then d else 0)
        (if ds then synced_delta (local_synced_victims c) (local_synced_victims p) else local_synced_victims c)
        (if db then beaconed_delta (local_beaconed_victims c) (local_beaconed_victims p) else local_beaconed_victims c))"
      and "dm \<or> ds \<or> db" and "dm \<Longrightarrow> delta = Some d"
proof -
  obtain n e m vs bs where c: "c = syncset n e False False False m 0 vs bs" "victims_ok vs" "sets_ok bs"
    using assms(1) unfolding syncset_ok_def by blast
  obtain n' e' m' vs' bs' where p: "p = syncset n' e' False False False m' 0 vs' bs'" "victims_ok vs'" "sets_ok bs'"
    using assms(2) unfolding syncset_ok_def by blast
  have vo: "\<forall>v \<in> set vs. victim_ok v" "\<forall>v \<in> set vs'. victim_ok v" using c p by (simp_all add: victims_ok_def)
  have so: "\<forall>(k, s) \<in> set bs. set_ok s" "\<forall>(k, s) \<in> set bs'. set_ok s" using c p by (auto simp: sets_ok_def)
  define dm where "dm = (delta \<noteq> None)"
  define d where "d = (case delta of None \<Rightarrow> 0 | Some x \<Rightarrow> x)"
  have dm: "delta = Some d" if dm using that by (auto simp: dm_def d_def)
  have 1: "compress_margin c p c = Inr (syncset n e dm False False (if dm then 0 else m) (if dm then d else 0) vs bs)"
    using assms(5) by (cases delta) (simp_all add: compress_margin_def c p dm_def d_def)
  obtain a b b' where loops: "compress_synced_loop vs' vs ([], 0, 0) = Inr (concat (map (emit vs') vs), a, b)"
    "compress_synced_stale_loop vs vs' (concat (map (emit vs') vs), b) = Inr (synced_delta vs vs', b')"
    using compress_synced_loop_spec [OF vo(2,1), of "[]" 0 0] compress_synced_stale_loop_spec [OF vo(2,1)]
    by (metis append_Nil synced_delta_def)
  define ds where "ds = (\<not> a \<le> b')"
  have 2: "compress_synced chk c p (syncset n e dm False False m2 d2 vs bs)
      = Inr (syncset n e dm ds False m2 d2 (if ds then synced_delta vs vs' else vs) bs)" for m2 d2
    using c p by (simp add: compress_synced_def loops ds_def victims_ok_whole)
  obtain f g where bl: "compress_beaconed_loop bs' bs ([], 0, 0) = Inr (beaconed_delta bs bs', f, g)"
    using compress_beaconed_loop_spec [OF so(2,1), of "[]" 0 0] by auto
  define db where "db = (\<not> f \<le> g)"
  have 3: "compress_beaconed chk c p (syncset n e dm ds False m2 d2 vs2 bs)
      = Inr (syncset n e dm ds db m2 d2 vs2 (if db then beaconed_delta bs bs' else bs))" for m2 d2 vs2
    using c p by (simp add: compress_beaconed_def bl db_def sets_ok_whole)
  let ?s = "syncset n e dm ds db (if dm then 0 else m) (if dm then d else 0) (if ds then synced_delta vs vs' else vs)
      (if db then beaconed_delta bs bs' else bs)"
  have vv: "dedup_bitmap v \<noteq> VictimCacheinfo_INVALID_BITMAP" if "v \<in> set vs" for v
    using vo(1) that victims_ok_valid by blast
  have bb: "\<exists>n. DirinfoSet_getDirinfoSetPayloadSize (snd b) = Inr n" if "b \<in> set bs" for b
    using so(1) that set_ok_status(4) by fastforce
  have vv': "dedup_bitmap v \<noteq> VictimCacheinfo_INVALID_BITMAP" if "v \<in> set (if ds then synced_delta vs vs' else vs)" for v
    using that vv synced_delta_valid [OF c(2) p(2)] by (cases ds) auto
  have bb': "\<exists>n. DirinfoSet_getDirinfoSetPayloadSize (snd b) = Inr n" if "b \<in> set (if db then beaconed_delta bs bs' else bs)" for b
    using that bb beaconed_delta_payload [OF c(3) p(3)] by (cases db) auto
  obtain x where x: "VictimSyncset_getVictimSyncsetPayloadSize ?s = Inr x"
    using payload_size_returns [OF vv' bb'] by blast
  obtain y where y: "VictimSyncset_getVictimSyncsetPayloadSize c = Inr y"
    using payload_size_returns [of vs bs] vv bb c by blast
  have nx: "next_seqnum c p k = k" for k :: "victim_syncset exec"
    by (rule next_seqnum_ok) (use assms(3,4) c p in auto)
  have "VictimSyncset_compress chk c p = Inr (if x < y then ?s else c)"
    using 1 2 3 x y c p nx by (simp add: VictimSyncset_compress_def)
  then show ?thesis
  proof (cases "x < y \<and> (dm \<or> ds \<or> db)")
    case True
    then show ?thesis
      using part [of dm ds db d] \<open>VictimSyncset_compress chk c p = _\<close> c p dm by simp
  next
    case False
    then have "(if x < y then ?s else c) = c" using c by auto
    then show ?thesis using whole \<open>VictimSyncset_compress chk c p = _\<close> by simp
  qed
qed

section \<open>The receiver follows the sender\<close>

text \<open>What arrives of a syncset: the victims without what the message format leaves out.\<close>

definition arrive :: "victim_syncset \<Rightarrow> victim_syncset" where
  "arrive s = s\<lparr>local_synced_victims := map sent (local_synced_victims s)\<rparr>"

lemma arrive_syncset [simp]: "arrive (syncset n e dm ds db m d vs bs) = syncset n e dm ds db m d (map sent vs) bs"
  by (simp add: arrive_def syncset_def)

definition in_sync :: "victim_syncset \<Rightarrow> victim_syncset \<Rightarrow> bool" where
  "in_sync p e \<longleftrightarrow> syncset_ok p \<and> syncset_ok e \<and> seqnum e = seqnum p \<and> cache_margin_bytes e = cache_margin_bytes p
     \<and> size_of (local_synced_victims e) = size_of (local_synced_victims p)
     \<and> knows (local_beaconed_victims e) (local_beaconed_victims p)"

lemma victims_ok_sent: "victims_ok vs \<Longrightarrow> victims_ok (map sent vs)"
  by (auto simp: victims_ok_def comp_def victim_ok_sent)

lemma size_of_sent:
  assumes "victims_ok vs"
  shows "size_of (map sent vs) = size_of vs"
proof
  fix k
  show "size_of (map sent vs) k = size_of vs k"
    using victims_ok_kmap [OF assms, of k] victim_ok_bitmap
    by (cases "kmap victim_key vs k") (auto simp: size_of_def kmap_map [where f = victim_key and h = sent, OF sent_sel(1)])
qed

lemma knows_refl: "knows bs bs"
  unfolding knows_def by blast

lemma syncset_ok_complete:
  assumes "syncset_ok s"
  shows "VictimSyncset_isComplete s = Inr True" "VictimSyncset_getSeqnum s = Inr (seqnum s)"
proof -
  have "compressed_bitmap s = sync_bits False False (local_synced_victims s = []) False (local_beaconed_victims s = [])"
    using assms unfolding syncset_ok_def by (metis syncset_sel(1))
  then show "VictimSyncset_isComplete s = Inr True" "VictimSyncset_getSeqnum s = Inr (seqnum s)" by simp_all
qed

lemma in_sync_arrive:
  assumes "syncset_ok c"
  shows "in_sync c (arrive c)"
proof -
  obtain n e m vs bs where c: "c = syncset n e False False False m 0 vs bs" "victims_ok vs" "sets_ok bs"
    using assms unfolding syncset_ok_def by blast
  then show ?thesis by (simp add: in_sync_def syncset_ok_def victims_ok_sent size_of_sent knows_refl)
qed

text \<open>The room: the difference brings the receiver to the new value.\<close>

lemma sint_of_int_32: "- (2 ^ 31) \<le> i \<Longrightarrow> i < 2 ^ 31 \<Longrightarrow> sint (word_of_int i :: u32) = i"
  by (simp add: sint_sbintrunc' signed_take_bit_int_eq_self)

lemma margin_recovered:
  assumes "margin_delta m m' = Inr (Some d)"
  shows "(if 0 \<le> sint d then Util_uint64Add m' (word_of_int (sint d))
    else definedE (sint d \<noteq> - (2 ^ 31)) (Inr (Util_uint64Minus m' (word_of_int (- sint d))))) = Inr m"
proof (cases "m' \<le> m")
  case True
  define x where "x = m - m'"
  have x: "x \<le> 2 ^ 31 - 1" "d = ucast x" using assms True by (auto simp: margin_delta_def x_def Let_def split: if_splits)
  have "uint x < 2 ^ 31" using x(1) by (simp add: word_le_def)
  moreover have "- (2 ^ 31) \<le> uint x" by (rule order_trans [of _ 0]) simp_all
  ultimately have sd: "sint d = uint x" unfolding x(2) ucast_eq by (intro sint_of_int_32)
  have "\<not> (m' + x < m' \<or> m' + x < x)"
    using True unsigned_less [of m, where 'a = nat] by (subst word_add_overflow_iff) (simp add: x_def unat_sub word_le_nat_alt)
  then show ?thesis
    using sd by (simp add: Util_uint64Add_def Let_def) (simp add: x_def)
next
  case False
  define x where "x = m' - m"
  have x: "x \<le> 2 ^ 31" "x \<noteq> 2 ^ 31" "d = - ucast x"
    using assms False by (auto simp: margin_delta_def x_def Let_def definedE_def split: if_splits)
  have "x \<noteq> 0" using False by (auto simp: x_def)
  then have pos: "0 < uint x" by (metis uint_0_iff order_le_less unsigned_greater_eq)
  have "uint x \<noteq> uint (2 ^ 31 :: u64)" using x(2) by (metis word_uint_eq_iff)
  then have less: "uint x < 2 ^ 31" using x(1) by (simp add: word_le_def)
  have "d = word_of_int (- uint x)" unfolding x(3) ucast_eq by (rule wi_hom_neg)
  then have sd: "sint d = - uint x" using sint_of_int_32 [of "- uint x"] pos less by simp
  have mx: "m' - x = m" by (simp add: x_def)
  have "Util_uint64Minus m' x = m" using False by (auto simp: Util_uint64Minus_def mx)
  then show ?thesis using sd pos less by simp
qed

lemma margin_delta_returns: "m' - m \<noteq> 2 ^ 31 \<Longrightarrow> \<exists>delta. margin_delta m m' = Inr delta"
  by (simp add: margin_delta_def Let_def)

lemma recover_margin_ok:
  assumes "dm \<Longrightarrow> margin_delta m m' = Inr (Some d)"
  shows "recover_margin (syncset n e dm ds db (if dm then 0 else m) (if dm then d else 0) vs bs) (syncset n' e' False False False m' 0 vs' bs')
      (syncset n e dm ds db (if dm then 0 else m) (if dm then d else 0) vs bs)
    = Inr (syncset n e False ds db m 0 vs bs)"
  using assms margin_recovered [of m m' d] by (cases dm) (simp_all add: recover_margin_def)

lemma sort_victims_ok:
  assumes "victims_ok vs"
  shows "\<exists>ws. VictimCacheinfo_sortByLocalRewards vs = Inr ws \<and> victims_ok ws \<and> size_of ws = size_of vs"
proof -
  let ?ws = "sort_key (\<lambda>v. reward_rank (local_reward v)) vs"
  have "VictimCacheinfo_sortByLocalRewards vs = Inr ?ws"
    using assms by (simp add: VictimCacheinfo_sortByLocalRewards_def victims_ok_def victim_ok_def)
  then show ?thesis
    using assms by (auto simp: victims_ok_def distinct_sort_map size_of_def kmap_sort)
qed

lemma recover_syncset:
  assumes "in_sync p x" and "syncset_ok c" and "seqnum c = seqnum p + 1" and "seqnum p \<noteq> - 1" and "dm \<or> ds \<or> db"
    and "dm \<Longrightarrow> margin_delta (cache_margin_bytes c) (cache_margin_bytes p) = Inr (Some d)"
  shows "\<exists>r. VictimSyncset_recover chk (syncset (seqnum c) (enforce_complete c) dm ds db
        (if dm then 0 else cache_margin_bytes c) (if dm then d else 0)
        (map sent (if ds then synced_delta (local_synced_victims c) (local_synced_victims p) else local_synced_victims c))
        (if db then beaconed_delta (local_beaconed_victims c) (local_beaconed_victims p) else local_beaconed_victims c)) x = Inr r
     \<and> in_sync c r \<and> enforce_complete r = enforce_complete c"
proof -
  obtain n e m vs bs where c: "c = syncset n e False False False m 0 vs bs" "victims_ok vs" "sets_ok bs"
    using assms(2) unfolding syncset_ok_def by blast
  have "syncset_ok p" "syncset_ok x" using assms(1) by (simp_all add: in_sync_def)
  then obtain n' e' m' vs' bs' e'' xs ys where p: "p = syncset n' e' False False False m' 0 vs' bs'" "victims_ok vs'" "sets_ok bs'"
    and x: "x = syncset n' e'' False False False m' 0 xs ys" "victims_ok xs" "sets_ok ys"
    and agree: "size_of xs = size_of vs'" "knows ys bs'"
    using assms(1) unfolding syncset_ok_def in_sync_def by metis
  define V where "V = map sent (if ds then synced_delta vs vs' else vs)"
  define B where "B = (if db then beaconed_delta bs bs' else bs)"
  obtain V1 where V1: "recover_synced_loop (map sent (synced_delta vs vs')) xs = Inr V1" "victims_ok V1" "size_of V1 = size_of vs"
    using recover_synced_agrees [OF c(2) p(2) x(2) agree(1)] by blast
  obtain V2 where V2: "VictimCacheinfo_sortByLocalRewards V1 = Inr V2" "victims_ok V2" "size_of V2 = size_of vs"
    using sort_victims_ok [OF V1(2)] V1(3) by auto
  obtain B1 where B1: "recover_beaconed_loop (beaconed_delta bs bs') ys = Inr B1" "sets_ok B1" "knows B1 bs"
    using recover_beaconed_agrees [OF c(3) p(3) x(3) agree(2)] by blast
  define V' where "V' = (if ds then V2 else map sent vs)"
  define B' where "B' = (if db then B1 else bs)"
  have V': "victims_ok V'" "size_of V' = size_of vs" using V2 victims_ok_sent size_of_sent c(2) by (simp_all add: V'_def)
  have B': "sets_ok B'" "knows B' bs" using B1 c(3) knows_refl by (simp_all add: B'_def)
  let ?s = "syncset n e dm ds db (if dm then 0 else m) (if dm then d else 0) V B"
  have whole: "ds \<or> victims_whole V" "db \<or> sets_whole B"
    using c(2,3) victims_ok_sent by (auto simp: V_def B_def victims_ok_whole sets_ok_whole)
  have 1: "recover_margin ?s x ?s = Inr (syncset n e False ds db m 0 V B)"
    unfolding x(1) by (rule recover_margin_ok) (use assms(6) c p in simp)
  have 2: "recover_synced chk ?s x (syncset n e False ds db m 0 V B) = Inr (syncset n e False False db m 0 V' B)"
    using whole(1) V1(1) V2 x by (cases ds) (simp_all add: recover_synced_def V_def V'_def victims_ok_whole)
  have 3: "recover_beaconed chk ?s x (syncset n e False False db m 0 V' B) = Inr (syncset n e False False False m 0 V' B')"
    using whole(2) B1 x by (cases db) (simp_all add: recover_beaconed_def B_def B'_def sets_ok_whole)
  have nx: "next_seqnum ?s x k = k" for k :: "victim_syncset exec"
    by (rule next_seqnum_ok) (use assms(3,4) c p x in auto)
  let ?r = "syncset n e False False False m 0 V' B'"
  have rec: "VictimSyncset_recover chk ?s x = Inr ?r"
    using 1 2 3 nx assms(5) x by (simp add: VictimSyncset_recover_def)
  have "in_sync c ?r" using c V' B' by (simp add: in_sync_def syncset_ok_def)
  then have "\<exists>r. VictimSyncset_recover chk ?s x = Inr r \<and> in_sync c r \<and> enforce_complete r = e"
    using rec by (intro exI [of _ ?r]) simp
  then show ?thesis unfolding V_def B_def c(1) p(1) syncset_sel .
qed

section \<open>Results\<close>

text \<open>C13: The receiver follows the sender. Let the receiver be in step with what the sender sent last: same
  sequence number, same room, a victim with the same size for exactly the same keys, a directory set with the
  same members for every key the sender has one for. The sender then compresses its next complete syncset. This
  succeeds; and when what was produced arrives, either it is complete or the receiver can recover it from what it
  has, and is in step with the new syncset, whichever parts were compressed. Excluded is a decrease of the room by
  exactly 2147483648 bytes.\<close>

theorem sync_simulation:
  assumes "in_sync p x" and "syncset_ok c" and "seqnum c = seqnum p + 1" and "seqnum p \<noteq> - 1"
    and "cache_margin_bytes p - cache_margin_bytes c \<noteq> 2 ^ 31"
  shows "\<exists>s r. VictimSyncset_compress chk c p = Inr s
    \<and> (if VictimSyncset_isComplete s = Inr True then r = arrive s else VictimSyncset_recover chk (arrive s) x = Inr r)
    \<and> in_sync c r \<and> enforce_complete r = enforce_complete c"
proof -
  have p: "syncset_ok p" using assms(1) by (simp add: in_sync_def)
  obtain delta where delta: "margin_delta (cache_margin_bytes c) (cache_margin_bytes p) = Inr delta"
    using margin_delta_returns [OF assms(5)] by blast
  show ?thesis
  proof (rule compress_syncset [OF assms(2) p assms(3,4) delta, of chk])
    assume "VictimSyncset_compress chk c p = Inr c"
    moreover have "VictimSyncset_isComplete c = Inr True"
      by (rule syncset_ok_complete [OF assms(2)])
    ultimately show ?thesis
      using in_sync_arrive [OF assms(2)] by (intro exI [of _ c] exI [of _ "arrive c"]) (simp add: arrive_def)
  next
    fix dm ds db d
    let ?s = "syncset (seqnum c) (enforce_complete c) dm ds db (if dm then 0 else cache_margin_bytes c) (if dm then d else 0)
        (if ds then synced_delta (local_synced_victims c) (local_synced_victims p) else local_synced_victims c)
        (if db then beaconed_delta (local_beaconed_victims c) (local_beaconed_victims p) else local_beaconed_victims c)"
    assume s: "VictimSyncset_compress chk c p = Inr ?s" and any: "dm \<or> ds \<or> db" and dm: "dm \<Longrightarrow> delta = Some d"
    obtain r where "VictimSyncset_recover chk (arrive ?s) x = Inr r" "in_sync c r" "enforce_complete r = enforce_complete c"
      using recover_syncset [OF assms(1-4) any, of d chk] delta dm unfolding arrive_syncset by blast
    moreover have "VictimSyncset_isComplete ?s = Inr False" using any by simp
    ultimately show ?thesis using s by (intro exI [of _ ?s] exI [of _ r]) simp
  qed
qed

definition example_sets :: "u32 list \<Rightarrow> (key \<times> dirinfo_set) list" where
  "example_sets es = [(Key [2], DirinfoSet_of_list (map DirectoryInfo es))]"

definition example_sync :: "u64 \<Rightarrow> u64 \<Rightarrow> u32 \<Rightarrow> u32 list \<Rightarrow> victim_syncset" where
  "example_sync n room reward es = syncset n False False False False room 0 [example_victim 8 reward] (example_sets es)"

theorem sync_simulation_witness:
  "\<exists>s r. VictimSyncset_compress True (example_sync 5 300 1065353216 [1, 2, 3]) (example_sync 4 100 0 [1, 2]) = Inr s
    \<and> (if VictimSyncset_isComplete s = Inr True then r = arrive s
        else VictimSyncset_recover True (arrive s) (example_sync 4 100 0 [1, 2]) = Inr r)
    \<and> in_sync (example_sync 5 300 1065353216 [1, 2, 3]) r \<and> enforce_complete r = enforce_complete (example_sync 5 300 1065353216 [1, 2, 3])"
proof (rule sync_simulation)
  have ok: "f32_val 0 \<noteq> NaN" "f32_val 1065353216 \<noteq> NaN" by code_simp+
  have v: "syncset_ok (example_sync n room reward es)" if "f32_val reward \<noteq> NaN" "distinct es" "length es < 2 ^ 28" for n room reward es
    using that by (simp add: syncset_ok_def example_sync_def victims_ok_def victim_ok_def example_victim_def VictimCacheinfo_new_reward_def
        victim_complete_def sets_ok_def set_ok_def example_sets_def distinct_map inj_on_def)
  show "in_sync (example_sync 4 100 0 [1, 2]) (example_sync 4 100 0 [1, 2])"
    using v [of 0 "[1, 2]"] ok by (simp add: in_sync_def knows_refl)
  show "syncset_ok (example_sync 5 300 1065353216 [1, 2, 3])" using v [of 1065353216 "[1, 2, 3]"] ok by simp
qed (simp_all add: example_sync_def)

end
