(* ===== verification/Victimsync_Monitor.thy ===== *)
theory Victimsync_Monitor
  imports Victim_Sync
begin

text \<open>
  \<open>VictimsyncMonitor\<close> (\<open>src/src/core/victim/victimsync_monitor.c\<close>): what an edge node remembers of the syncsets it
  exchanges with one neighbour. As sender: the next sequence number, the last syncset it sent and whether it has to
  ask for a complete one. As receiver: the sequence number it has reached and the compressed syncsets that arrived too
  early. A pointer that may be null is an option.
\<close>

record victimsync_monitor =
  cur_seqnum :: u64
  prev_victim_syncset :: "victim_syncset option"
  is_first_complete_received :: bool
  tracked_seqnum :: u64
  cached_victim_syncsets :: "victim_syncset list"
  enforcement_seqnum :: u64
  wait_for_complete_victim_syncset :: bool
  need_enforcement :: bool

definition VictimsyncMonitor_new :: victimsync_monitor where
  "VictimsyncMonitor_new = \<lparr>cur_seqnum = 0, prev_victim_syncset = None, is_first_complete_received = True, tracked_seqnum = 0,
     cached_victim_syncsets = [], enforcement_seqnum = 0, wait_for_complete_victim_syncset = False, need_enforcement = False\<rparr>"

section \<open>As sender\<close>

definition VictimsyncMonitor_releasePrevVictimSyncset :: "victimsync_monitor \<Rightarrow> victimsync_monitor" where
  "VictimsyncMonitor_releasePrevVictimSyncset m = m\<lparr>prev_victim_syncset := None\<rparr>"

definition VictimsyncMonitor_enforceComplete :: "victimsync_monitor \<Rightarrow> victimsync_monitor" where
  "VictimsyncMonitor_enforceComplete m = VictimsyncMonitor_releasePrevVictimSyncset m"

definition VictimsyncMonitor_getCurSeqnum :: "victimsync_monitor \<Rightarrow> u64 exec" where
  "VictimsyncMonitor_getCurSeqnum m =
     (case prev_victim_syncset m of
        None \<Rightarrow> Inr (cur_seqnum m)
      | Some prev \<Rightarrow> bindE (VictimSyncset_getSeqnum prev) (\<lambda>n. bindE (Util_uint64Add n 1) (\<lambda>n.
          assertE (cur_seqnum m = n) (Inr (cur_seqnum m)))))"

definition VictimsyncMonitor_incrCurSeqnum :: "victimsync_monitor \<Rightarrow> victimsync_monitor exec" where
  "VictimsyncMonitor_incrCurSeqnum m = bindE (Util_uint64Add (cur_seqnum m) 1) (\<lambda>n. Inr (m\<lparr>cur_seqnum := n\<rparr>))"

definition VictimsyncMonitor_resetNeedEnforcement :: "victimsync_monitor \<Rightarrow> victimsync_monitor" where
  "VictimsyncMonitor_resetNeedEnforcement m = m\<lparr>need_enforcement := False\<rparr>"

text \<open>The result is the monitor, the current syncset with its number and flag set, and what is sent.\<close>

definition VictimsyncMonitor_replacePrevVictimSyncset ::
    "bool \<Rightarrow> victim_syncset \<Rightarrow> victimsync_monitor \<Rightarrow> (victimsync_monitor \<times> victim_syncset \<times> victim_syncset) exec" where
  "VictimsyncMonitor_replacePrevVictimSyncset chk current m =
     bindE (VictimSyncset_isComplete current) (\<lambda>c. assertE c (
     bindE (VictimsyncMonitor_getCurSeqnum m) (\<lambda>final_seqnum.
     let final_is_enforce_complete = need_enforcement m
     in bindE (VictimsyncMonitor_incrCurSeqnum m) (\<lambda>m.
     let m = VictimsyncMonitor_resetNeedEnforcement m
     in bindE (VictimSyncset_setSeqnum final_seqnum current) (\<lambda>current.
     bindE (VictimSyncset_setEnforceComplete final_is_enforce_complete current) (\<lambda>current.
     bindE (case prev_victim_syncset m of
              Some prev \<Rightarrow> bindE (VictimSyncset_isComplete prev) (\<lambda>c. assertE c (VictimSyncset_compress chk current prev))
            | None \<Rightarrow> Inr current) (\<lambda>final.
     Inr ((VictimsyncMonitor_releasePrevVictimSyncset m)\<lparr>prev_victim_syncset := Some current\<rparr>, current, final))))))))"

section \<open>As receiver\<close>

definition VictimsyncMonitor_isFirstCompleteReceived :: "victimsync_monitor \<Rightarrow> bool" where
  "VictimsyncMonitor_isFirstCompleteReceived m = is_first_complete_received m"

definition VictimsyncMonitor_clearFirstCompleteReceived :: "victimsync_monitor \<Rightarrow> victimsync_monitor exec" where
  "VictimsyncMonitor_clearFirstCompleteReceived m =
     assertE (tracked_seqnum m = 0) (Inr (m\<lparr>is_first_complete_received := False\<rparr>))"

definition VictimsyncMonitor_getTrackedSeqnum :: "victimsync_monitor \<Rightarrow> u64" where
  "VictimsyncMonitor_getTrackedSeqnum m = tracked_seqnum m"

fun drop_stale :: "u64 \<Rightarrow> victim_syncset list \<Rightarrow> victim_syncset list exec" where
  "drop_stale tracked [] = Inr []"
| "drop_stale tracked (s # ss) =
     bindE (VictimSyncset_getSeqnum s) (\<lambda>n. bindE (drop_stale tracked ss) (\<lambda>ss. Inr (if n \<le> tracked then ss else s # ss)))"

definition VictimsyncMonitor_clearStaleCachedVictimSyncsets :: "u32 \<Rightarrow> victimsync_monitor \<Rightarrow> victimsync_monitor exec" where
  "VictimsyncMonitor_clearStaleCachedVictimSyncsets cnt m =
     assertE (length (cached_victim_syncsets m) \<le> unat cnt)
       (bindE (drop_stale (tracked_seqnum m) (cached_victim_syncsets m)) (\<lambda>ss. Inr (m\<lparr>cached_victim_syncsets := ss\<rparr>)))"

text \<open>The inner loop: the position of the syncset that continues the tracked one, if there is one.\<close>

fun find_continuous :: "u64 \<Rightarrow> victim_syncset list \<Rightarrow> nat option exec" where
  "find_continuous tracked [] = Inr None"
| "find_continuous tracked (s # ss) =
     bindE (VictimSyncset_isCompressed s) (\<lambda>c. assertE c (
     bindE (VictimSyncset_getSeqnum s) (\<lambda>n. assertE (tracked < n) (
     bindE (Util_uint64Add tracked 1) (\<lambda>n'.
     if n = n' then Inr (Some 0)
     else bindE (find_continuous tracked ss) (\<lambda>i. Inr (map_option Suc i)))))))"

lemma find_continuous_bound: "find_continuous tracked ss = Inr (Some i) \<Longrightarrow> i < length ss"
  by (induction ss arbitrary: i) (auto simp: exec_inv split: if_splits)

text \<open>The outer loop, which ends when nothing continues: each round takes one syncset out of the list. \<open>fresh\<close> is the
  new complete syncset, if one has been made.\<close>

function continuous_loop ::
    "bool \<Rightarrow> victim_syncset \<Rightarrow> u64 \<Rightarrow> victim_syncset list \<Rightarrow> victim_syncset option
     \<Rightarrow> (u64 \<times> victim_syncset list \<times> victim_syncset option) exec" where
  "continuous_loop chk neighbor tracked ss fresh =
     bindE (find_continuous tracked ss) (\<lambda>i.
     case i of
       None \<Rightarrow> Inr (tracked, ss, fresh)
     | Some i \<Rightarrow>
         bindE (VictimSyncset_getSeqnum (ss ! i)) (\<lambda>n.
         bindE (VictimSyncset_recover chk (ss ! i) (case fresh of None \<Rightarrow> neighbor | Some f \<Rightarrow> f)) (\<lambda>r.
         bindE (VictimSyncset_isComplete r) (\<lambda>c. assertE c (
         bindE (VictimSyncset_getSeqnum r) (\<lambda>n'. assertE (n' = n) (
         continuous_loop chk neighbor n (erase_at i ss) (Some r))))))))"
  by pat_completeness auto
termination
  by (relation "measure (\<lambda>(chk, neighbor, tracked, ss, fresh). length ss)")
    (auto dest!: find_continuous_bound simp: erase_at_def)

declare continuous_loop.simps [simp del]

definition VictimsyncMonitor_clearContinuousCachedVictimSyncsets ::
    "bool \<Rightarrow> victim_syncset \<Rightarrow> u32 \<Rightarrow> victimsync_monitor \<Rightarrow> (victimsync_monitor \<times> victim_syncset option) exec" where
  "VictimsyncMonitor_clearContinuousCachedVictimSyncsets chk neighbor cnt m =
     bindE (VictimSyncset_isComplete neighbor) (\<lambda>c. assertE c (
     bindE (VictimSyncset_getSeqnum neighbor) (\<lambda>n. assertE (tracked_seqnum m = n) (
     assertE (length (cached_victim_syncsets m) \<le> unat cnt) (
     bindE (continuous_loop chk neighbor (tracked_seqnum m) (cached_victim_syncsets m) None) (\<lambda>(tracked, ss, fresh).
     bindE (case fresh of None \<Rightarrow> Inr True | Some f \<Rightarrow> VictimSyncset_isComplete f) (\<lambda>c. assertE c (
     Inr (m\<lparr>tracked_seqnum := tracked, cached_victim_syncsets := ss\<rparr>, fresh)))))))))"

definition VictimsyncMonitor_tryToClearEnforcementStatus ::
    "bool \<Rightarrow> victim_syncset \<Rightarrow> u64 \<Rightarrow> u32 \<Rightarrow> victimsync_monitor \<Rightarrow> (victimsync_monitor \<times> victim_syncset option) exec" where
  "VictimsyncMonitor_tryToClearEnforcementStatus chk neighbor synced_seqnum cnt m =
     bindE (VictimSyncset_isComplete neighbor) (\<lambda>c. assertE c (
     bindE (VictimSyncset_getSeqnum neighbor) (\<lambda>n. assertE (n = synced_seqnum) (
     bindE (VictimsyncMonitor_clearStaleCachedVictimSyncsets cnt (m\<lparr>tracked_seqnum := synced_seqnum\<rparr>)) (\<lambda>m.
     bindE (VictimsyncMonitor_clearContinuousCachedVictimSyncsets chk neighbor cnt m) (\<lambda>(m, fresh).
     assertE (synced_seqnum \<le> tracked_seqnum m) (
     Inr (if wait_for_complete_victim_syncset m \<and> enforcement_seqnum m < tracked_seqnum m
          then m\<lparr>need_enforcement := False, enforcement_seqnum := 0, wait_for_complete_victim_syncset := False\<rparr> else m, fresh))))))))"

fun max_seqnum_loop :: "victim_syncset list \<Rightarrow> u64 \<Rightarrow> u64 exec" where
  "max_seqnum_loop [] n = Inr n"
| "max_seqnum_loop (s # ss) n = bindE (VictimSyncset_getSeqnum s) (\<lambda>k. max_seqnum_loop ss (if n < k then k else n))"

definition VictimsyncMonitor_getMaxSeqnumFromCachedVictimSyncsets :: "u32 \<Rightarrow> victimsync_monitor \<Rightarrow> u64 exec" where
  "VictimsyncMonitor_getMaxSeqnumFromCachedVictimSyncsets cnt m =
     assertE (length (cached_victim_syncsets m) \<le> unat cnt)
       (case cached_victim_syncsets m of
          [] \<Rightarrow> Inr 0
        | s # ss \<Rightarrow> bindE (VictimSyncset_getSeqnum s) (\<lambda>n. max_seqnum_loop ss n))"

definition VictimsyncMonitor_tryToEnableEnforcementStatus ::
    "victim_syncset \<Rightarrow> u64 \<Rightarrow> u32 \<Rightarrow> victimsync_monitor \<Rightarrow> victimsync_monitor exec" where
  "VictimsyncMonitor_tryToEnableEnforcementStatus neighbor synced_seqnum cnt m =
     bindE (VictimSyncset_isCompressed neighbor) (\<lambda>c. assertE c (
     bindE (VictimSyncset_getSeqnum neighbor) (\<lambda>n. assertE (n = synced_seqnum) (
     if length (cached_victim_syncsets m) < unat cnt
     then Inr (m\<lparr>cached_victim_syncsets := cached_victim_syncsets m @ [neighbor]\<rparr>)
     else if \<not> wait_for_complete_victim_syncset m
     then bindE (VictimsyncMonitor_getMaxSeqnumFromCachedVictimSyncsets cnt m) (\<lambda>tmp_max_seqnum.
          let m = m\<lparr>enforcement_seqnum := (if tmp_max_seqnum \<le> synced_seqnum then synced_seqnum else tmp_max_seqnum),
                    wait_for_complete_victim_syncset := True\<rparr>
          in assertE (\<not> need_enforcement m) (Inr (m\<lparr>need_enforcement := True\<rparr>)))
     else Inr m))))"

section \<open>Size and snapshots\<close>

fun sum_sizes64 :: "('a \<Rightarrow> u64 exec) \<Rightarrow> 'a list \<Rightarrow> u64 \<Rightarrow> u64 exec" where
  "sum_sizes64 f [] acc = Inr acc"
| "sum_sizes64 f (x # xs) acc = bindE (f x) (\<lambda>n. sum_sizes64 f xs (acc + n))"

definition VictimsyncMonitor_getSizeForCapacity :: "victimsync_monitor \<Rightarrow> u64 exec" where
  "VictimsyncMonitor_getSizeForCapacity m =
     bindE (case prev_victim_syncset m of None \<Rightarrow> Inr 0 | Some prev \<Rightarrow> VictimSyncset_getSizeForCapacity prev) (\<lambda>n.
     bindE (sum_sizes64 VictimSyncset_getSizeForCapacity (cached_victim_syncsets m) (8 + n + 1 + 1 + 8)) (\<lambda>n.
     Inr (n + 8 + 1)))"

definition VictimsyncMonitor_dumpVictimsyncMonitor :: "victimsync_monitor \<Rightarrow> u8 list \<Rightarrow> u8 list exec" where
  "VictimsyncMonitor_dumpVictimsyncMonitor m out =
     (let out = fs_write (u64_mem (cur_seqnum m)) out; out = fs_write (bool_mem (is_first_complete_received m)) out;
          out = fs_write (u64_mem (tracked_seqnum m)) out
      in bindE (fs_ser_counted VictimSyncset_serialize_fs (cached_victim_syncsets m) out 0) (\<lambda>(out, _). Inr out))"

definition VictimsyncMonitor_loadVictimsyncMonitor :: "victimsync_monitor \<Rightarrow> fstream \<Rightarrow> (victimsync_monitor \<times> fstream) exec" where
  "VictimsyncMonitor_loadVictimsyncMonitor this fs =
     (let (n, fs) = fs_read (u64_mem (cur_seqnum this)) fs; (f, fs) = fs_read (bool_mem (is_first_complete_received this)) fs;
          (t, fs) = fs_read (u64_mem (tracked_seqnum this)) fs
      in bindE (fs_deser_counted VictimSyncset_deserialize_fs VictimSyncset_invalid fs 0) (\<lambda>(ss, fs, _).
         Inr (this\<lparr>cur_seqnum := mem_u64 n, prev_victim_syncset := None, is_first_complete_received := mem_bool f,
                tracked_seqnum := mem_u64 t, cached_victim_syncsets := ss\<rparr>, fs)))"

section \<open>Early syncsets\<close>

text \<open>A compressed syncset, as it can wait in the list.\<close>

definition compressed_form :: "victim_syncset \<Rightarrow> bool" where
  "compressed_form s \<longleftrightarrow> VictimSyncset_isCompressed s = Inr True"

lemma compressed_form_seqnum: "compressed_form s \<Longrightarrow> VictimSyncset_getSeqnum s = Inr (seqnum s)"
  by (auto simp: compressed_form_def VictimSyncset_isCompressed_def VictimSyncset_getSeqnum_def VictimSyncset_checkValidity_def
      assertE_def split: if_splits)

definition waiting :: "u64 \<Rightarrow> victim_syncset list \<Rightarrow> bool" where
  "waiting n ss \<longleftrightarrow> distinct (map seqnum ss) \<and> (\<forall>s \<in> set ss. compressed_form s \<and> n < seqnum s)"

lemma drop_stale_spec:
  "\<forall>s \<in> set ss. compressed_form s \<Longrightarrow> drop_stale n ss = Inr (filter (\<lambda>s. n < seqnum s) ss)"
  by (induction ss) (auto simp: compressed_form_seqnum not_less)

lemma find_continuous_spec:
  assumes "\<forall>s \<in> set ss. compressed_form s \<and> n < seqnum s"
  shows "find_continuous n ss = Inr (if n + 1 \<in> seqnum ` set ss then Some (find_by seqnum (n + 1) ss) else None)"
  using assms
proof (induction ss)
  case (Cons s ss)
  have "n \<noteq> - 1" using Cons.prems word_n1_ge [of "seqnum s"] by (metis list.set_intros(1) not_less)
  then show ?case
    using Cons compressed_form_seqnum [of s] by (auto simp: uint64Add_one compressed_form_def)
qed simp

text \<open>What the sender produced after \<open>p\<close>: complete syncsets that follow each other, with the compressed form of each.\<close>

fun sync_chain :: "bool \<Rightarrow> victim_syncset \<Rightarrow> (victim_syncset \<times> victim_syncset) list \<Rightarrow> bool" where
  "sync_chain chk p [] \<longleftrightarrow> True"
| "sync_chain chk p ((c, s) # cs) \<longleftrightarrow> syncset_ok c \<and> seqnum c = seqnum p + 1 \<and> seqnum p \<noteq> - 1
     \<and> cache_margin_bytes p - cache_margin_bytes c \<noteq> 2 ^ 31 \<and> VictimSyncset_compress chk c p = Inr s
     \<and> VictimSyncset_isComplete s = Inr False \<and> sync_chain chk c cs"

definition chain_end :: "victim_syncset \<Rightarrow> (victim_syncset \<times> victim_syncset) list \<Rightarrow> victim_syncset" where
  "chain_end p cs = last (p # map fst cs)"

lemma chain_end_simps [simp]: "chain_end p [] = p" "chain_end p ((c, s) # cs) = chain_end c cs"
  by (simp_all add: chain_end_def)

lemma sync_step:
  assumes "in_sync p x" and "sync_chain chk p ((c, s) # cs)"
  obtains r where "VictimSyncset_recover chk (arrive s) x = Inr r" and "in_sync c r" and "seqnum (arrive s) = seqnum p + 1"
    and "compressed_form (arrive s)"
proof -
  have c: "syncset_ok c" "seqnum c = seqnum p + 1" "seqnum p \<noteq> - 1" "cache_margin_bytes p - cache_margin_bytes c \<noteq> 2 ^ 31"
    "VictimSyncset_compress chk c p = Inr s" "VictimSyncset_isComplete s = Inr False"
    using assms(2) by simp_all
  have p: "syncset_ok p" using assms(1) by (simp add: in_sync_def)
  obtain delta where delta: "margin_delta (cache_margin_bytes c) (cache_margin_bytes p) = Inr delta"
    using margin_delta_returns [OF c(4)] by blast
  show ?thesis
  proof (rule compress_syncset [OF c(1) p c(2,3) delta, of chk])
    assume "VictimSyncset_compress chk c p = Inr c"
    moreover have "VictimSyncset_isComplete c = Inr True" by (rule syncset_ok_complete [OF c(1)])
    ultimately show ?thesis using c(5,6) by simp
  next
    fix dm ds db d
    let ?s = "syncset (seqnum c) (enforce_complete c) dm ds db (if dm then 0 else cache_margin_bytes c) (if dm then d else 0)
        (if ds then synced_delta (local_synced_victims c) (local_synced_victims p) else local_synced_victims c)
        (if db then beaconed_delta (local_beaconed_victims c) (local_beaconed_victims p) else local_beaconed_victims c)"
    assume s: "VictimSyncset_compress chk c p = Inr ?s" and any: "dm \<or> ds \<or> db" and dm: "dm \<Longrightarrow> delta = Some d"
    obtain r where "VictimSyncset_recover chk (arrive ?s) x = Inr r" "in_sync c r"
      using recover_syncset [OF assms(1) c(1-3) any, of d chk] delta dm unfolding arrive_syncset by blast
    moreover have "s = ?s" using s c(5) by simp
    moreover have "compressed_form (arrive ?s)" using any by (simp add: compressed_form_def)
    moreover have "seqnum (arrive ?s) = seqnum p + 1" using c(2) by simp
    ultimately show ?thesis using that by metis
  qed
qed

lemma in_sync_status: "in_sync p x \<Longrightarrow> VictimSyncset_isComplete x = Inr True \<and> VictimSyncset_getSeqnum x = Inr (seqnum p)"
  using syncset_ok_complete by (simp add: in_sync_def)

lemma waiting_filter: "waiting n ss \<Longrightarrow> waiting n (filter P ss)"
  by (auto simp: waiting_def distinct_map_filter)

lemma next_less: "n < k \<Longrightarrow> k \<noteq> n + 1 \<Longrightarrow> n + 1 < k" for n k :: u64
  by (metis inc_le order_le_less)

lemma less_next: "n \<noteq> - 1 \<Longrightarrow> n < n + 1" for n :: u64
  using inc_no_wrap [of n] by (metis add_cancel_right_right not_less_iff_gr_or_eq one_neq_zero)

lemma waiting_after: "waiting n ss \<Longrightarrow> waiting (n + 1) (filter (\<lambda>s. seqnum s \<noteq> n + 1) ss)"
  by (auto simp: waiting_def distinct_map_filter next_less)

lemma chain_later:
  assumes "syncset_ok p" and "sync_chain chk p cs"
  shows "seqnum p \<le> seqnum (chain_end p cs)" and "s \<in> snd ` set cs \<Longrightarrow> seqnum p < seqnum (arrive s)"
proof -
  have "seqnum p \<le> seqnum (chain_end p cs) \<and> (\<forall>s \<in> snd ` set cs. seqnum p < seqnum (arrive s))"
    using assms
  proof (induction cs arbitrary: p)
    case (Cons a cs)
    obtain c s where a: "a = (c, s)" by (cases a)
    have "seqnum (arrive s) = seqnum p + 1"
      using sync_step [OF in_sync_arrive [OF Cons.prems(1)], of chk c s cs] Cons.prems(2) a by metis
    moreover have "seqnum p < seqnum p + 1" using Cons.prems(2) a by (simp add: less_next)
    ultimately show ?case using Cons.IH [of c] Cons.prems(2) a by force
  qed simp
  then show "seqnum p \<le> seqnum (chain_end p cs)" and "s \<in> snd ` set cs \<Longrightarrow> seqnum p < seqnum (arrive s)" by blast+
qed

text \<open>The loop applies exactly the syncsets that continue each other, in sequence, wherever they are in the list.\<close>

lemma continuous_loop_chain:
  assumes "in_sync p (case fresh of None \<Rightarrow> x | Some f \<Rightarrow> f)" and "sync_chain chk p cs" and "waiting (seqnum p) ss"
    and "\<forall>s \<in> snd ` set cs. arrive s \<in> set ss" and "seqnum (chain_end p cs) + 1 \<notin> seqnum ` set ss"
  shows "\<exists>fresh'. continuous_loop chk x (seqnum p) ss fresh
      = Inr (seqnum (chain_end p cs), filter (\<lambda>s. seqnum (chain_end p cs) < seqnum s) ss, fresh')
    \<and> in_sync (chain_end p cs) (case fresh' of None \<Rightarrow> x | Some f \<Rightarrow> f) \<and> (fresh' = None \<longleftrightarrow> fresh = None \<and> cs = [])"
  using assms
proof (induction cs arbitrary: p ss fresh)
  case Nil
  have w: "\<forall>s \<in> set ss. compressed_form s \<and> seqnum p < seqnum s" using Nil.prems(3) by (simp add: waiting_def)
  have "filter (\<lambda>s. seqnum p < seqnum s) ss = ss" using w by (intro filter_True) simp
  then show ?case using Nil.prems find_continuous_spec [OF w] by (subst continuous_loop.simps) simp
next
  case (Cons a cs)
  obtain c s where a: "a = (c, s)" by (cases a)
  let ?cur = "case fresh of None \<Rightarrow> x | Some f \<Rightarrow> f" and ?n = "seqnum p + 1"
  obtain r where r: "VictimSyncset_recover chk (arrive s) ?cur = Inr r" "in_sync c r" "seqnum (arrive s) = ?n" "compressed_form (arrive s)"
    using sync_step [OF Cons.prems(1), of chk c s cs] Cons.prems(2) a by metis
  have c: "seqnum c = ?n" "sync_chain chk c cs" using Cons.prems(2) a by simp_all
  have w: "\<forall>s \<in> set ss. compressed_form s \<and> seqnum p < seqnum s" and d: "distinct (map seqnum ss)"
    using Cons.prems(3) by (simp_all add: waiting_def)
  have mem: "arrive s \<in> set ss" using Cons.prems(4) a by simp
  then have "kmap seqnum ss ?n = Some (arrive s)" using d r(3) by (simp add: kmap_Some_iff)
  then have i: "ss ! find_by seqnum ?n ss = arrive s" by (simp add: find_by_nth)
  have found: "?n \<in> seqnum ` set ss" using mem r(3) by force
  let ?ss = "filter (\<lambda>s. seqnum s \<noteq> ?n) ss"
  have erase: "erase_at (find_by seqnum ?n ss) ss = ?ss" by (rule erase_at_found [OF d])
  have step: "continuous_loop chk x (seqnum p) ss fresh = continuous_loop chk x (seqnum c) ?ss (Some r)"
    using find_continuous_spec [OF w] found i r in_sync_status [OF r(2)] erase c compressed_form_seqnum [OF r(4)]
    by (subst continuous_loop.simps) simp
  have ok: "syncset_ok c" using r(2) by (simp add: in_sync_def)
  have later: "arrive s' \<in> set ?ss" if "s' \<in> snd ` set cs" for s'
    using Cons.prems(4) chain_later(2) [OF ok c(2) that] that a c(1) by auto
  have "\<exists>fresh'. continuous_loop chk x (seqnum c) ?ss (Some r)
      = Inr (seqnum (chain_end c cs), filter (\<lambda>s. seqnum (chain_end c cs) < seqnum s) ?ss, fresh')
    \<and> in_sync (chain_end c cs) (case fresh' of None \<Rightarrow> x | Some f \<Rightarrow> f) \<and> (fresh' = None \<longleftrightarrow> Some r = None \<and> cs = [])"
  proof (rule Cons.IH)
    show "waiting (seqnum c) ?ss" unfolding c(1) by (rule waiting_after [OF Cons.prems(3)])
    show "seqnum (chain_end c cs) + 1 \<notin> seqnum ` set ?ss" using Cons.prems(5) a by auto
  qed (use r(2) c(2) later in simp_all)
  then obtain fresh' where IH: "continuous_loop chk x (seqnum c) ?ss (Some r)
      = Inr (seqnum (chain_end c cs), filter (\<lambda>s. seqnum (chain_end c cs) < seqnum s) ?ss, fresh')"
    "in_sync (chain_end c cs) (case fresh' of None \<Rightarrow> x | Some f \<Rightarrow> f)" "fresh' \<noteq> None"
    by blast
  have "filter (\<lambda>s. seqnum (chain_end c cs) < seqnum s) ?ss = filter (\<lambda>s. seqnum (chain_end c cs) < seqnum s) ss"
    unfolding filter_filter
  proof (rule filter_cong [OF refl])
    fix t
    have "seqnum t \<noteq> ?n" if "seqnum (chain_end c cs) < seqnum t" using that chain_later(1) [OF ok c(2)] c(1) by fastforce
    then show "(seqnum t \<noteq> ?n \<and> seqnum (chain_end c cs) < seqnum t) = (seqnum (chain_end c cs) < seqnum t)" by blast
  qed
  then show ?case using step IH a by (intro exI [of _ fresh']) simp
qed

section \<open>Invariant of the monitor\<close>

text \<open>What every operation keeps: the list is bounded and holds compressed syncsets only, a complete syncset is asked
  for only while one is awaited, and the next number continues the syncset sent last.\<close>

definition monitor_ok :: "u32 \<Rightarrow> victimsync_monitor \<Rightarrow> bool" where
  "monitor_ok cnt m \<longleftrightarrow> length (cached_victim_syncsets m) \<le> unat cnt \<and> list_all compressed_form (cached_victim_syncsets m)
     \<and> (need_enforcement m \<longrightarrow> wait_for_complete_victim_syncset m)
     \<and> (is_first_complete_received m \<longrightarrow> tracked_seqnum m = 0)
     \<and> (\<forall>p. prev_victim_syncset m = Some p \<longrightarrow>
            VictimSyncset_isComplete p = Inr True \<and> cur_seqnum m = seqnum p + 1 \<and> seqnum p \<noteq> - 1)"

inductive monitor_step :: "bool \<Rightarrow> u32 \<Rightarrow> victimsync_monitor \<Rightarrow> victimsync_monitor \<Rightarrow> bool" for chk cnt where
  send: "VictimsyncMonitor_replacePrevVictimSyncset chk current m = Inr (m', current', final) \<Longrightarrow> monitor_step chk cnt m m'"
| enforce: "monitor_step chk cnt m (VictimsyncMonitor_enforceComplete m)"
| first: "VictimsyncMonitor_clearFirstCompleteReceived m = Inr m' \<Longrightarrow> monitor_step chk cnt m m'"
| complete: "\<not> is_first_complete_received m \<Longrightarrow>
    VictimsyncMonitor_tryToClearEnforcementStatus chk neighbor n cnt m = Inr (m', fresh) \<Longrightarrow> monitor_step chk cnt m m'"
| early: "VictimsyncMonitor_tryToEnableEnforcementStatus neighbor n cnt m = Inr m' \<Longrightarrow> monitor_step chk cnt m m'"

inductive monitor_reachable :: "bool \<Rightarrow> u32 \<Rightarrow> victimsync_monitor \<Rightarrow> bool" for chk cnt where
  init: "monitor_reachable chk cnt VictimsyncMonitor_new"
| step: "monitor_reachable chk cnt m \<Longrightarrow> monitor_step chk cnt m m' \<Longrightarrow> monitor_reachable chk cnt m'"

lemma getSeqnum_eq: "VictimSyncset_getSeqnum s = Inr n \<Longrightarrow> n = seqnum s"
  by (auto simp: VictimSyncset_getSeqnum_def VictimSyncset_checkValidity_def assertE_def split: if_splits)

lemma drop_stale_subset: "drop_stale n ss = Inr ts \<Longrightarrow> set ts \<subseteq> set ss \<and> length ts \<le> length ss"
  by (induction ss arbitrary: ts) (fastforce simp: exec_inv split: if_splits)+

lemma erase_at_subset: "set (erase_at i xs) \<subseteq> set xs" "length (erase_at i xs) \<le> length xs"
  by (auto simp: erase_at_def dest: in_set_takeD in_set_dropD)

lemma continuous_loop_subset:
  "continuous_loop chk x n ss fresh = Inr (n', ts, fresh') \<Longrightarrow> set ts \<subseteq> set ss \<and> length ts \<le> length ss"
proof (induction chk x n ss fresh rule: continuous_loop.induct)
  case (1 chk x n ss fresh)
  obtain i where i: "find_continuous n ss = Inr i" using 1(2) by (subst (asm) continuous_loop.simps) (auto simp: exec_inv)
  show ?case
  proof (cases i)
    case None
    then show ?thesis using 1(2) i by (subst (asm) continuous_loop.simps) simp
  next
    case (Some j)
    obtain k r c k' where j: "VictimSyncset_getSeqnum (ss ! j) = Inr k"
      "VictimSyncset_recover chk (ss ! j) (case fresh of None \<Rightarrow> x | Some f \<Rightarrow> f) = Inr r"
      "VictimSyncset_isComplete r = Inr c" "c" "VictimSyncset_getSeqnum r = Inr k'" "k' = k"
      "continuous_loop chk x k (erase_at j ss) (Some r) = Inr (n', ts, fresh')"
      using 1(2) i Some by (subst (asm) continuous_loop.simps) (auto simp: exec_inv)
    have "set ts \<subseteq> set (erase_at j ss) \<and> length ts \<le> length (erase_at j ss)"
      by (rule 1(1) [OF i Some j(1,2,3,5,7)])
    then show ?thesis using erase_at_subset [of j ss] by force
  qed
qed

lemma monitor_ok_cached:
  "monitor_ok cnt m \<Longrightarrow> set ts \<subseteq> set (cached_victim_syncsets m) \<Longrightarrow> length ts \<le> length (cached_victim_syncsets m) \<Longrightarrow>
   length ts \<le> unat cnt \<and> list_all compressed_form ts"
  by (auto simp: monitor_ok_def list_all_iff)

lemma isComplete_setters:
  assumes "VictimSyncset_setSeqnum n s = Inr s1" and "VictimSyncset_setEnforceComplete e s1 = Inr s2"
  shows "VictimSyncset_isComplete s2 = VictimSyncset_isComplete s" "seqnum s2 = n"
  using assms by (auto simp: VictimSyncset_setSeqnum_def VictimSyncset_setEnforceComplete_def VictimSyncset_isComplete_def
      VictimSyncset_checkValidity_def assertE_def split: if_splits)

lemma uint64Add_one_inv: "Util_uint64Add n 1 = Inr k \<Longrightarrow> k = n + 1 \<and> n \<noteq> - 1"
  by (auto simp: Util_uint64Add_def Let_def exec_inv)

lemma send_ok:
  assumes "monitor_ok cnt m" and "VictimsyncMonitor_replacePrevVictimSyncset chk current m = Inr (m', current', final)"
  shows "monitor_ok cnt m'" and "seqnum current' = cur_seqnum m" and "prev_victim_syncset m' = Some current'"
    and "cur_seqnum m' = cur_seqnum m + 1"
proof -
  obtain n m1 c1 where n: "VictimSyncset_isComplete current = Inr True" "VictimsyncMonitor_getCurSeqnum m = Inr n"
    "VictimsyncMonitor_incrCurSeqnum m = Inr m1" "VictimSyncset_setSeqnum n current = Inr c1"
    "VictimSyncset_setEnforceComplete (need_enforcement m) c1 = Inr current'"
    "m' = (VictimsyncMonitor_resetNeedEnforcement m1)\<lparr>prev_victim_syncset := Some current'\<rparr>"
    using assms(2) by (auto simp: VictimsyncMonitor_replacePrevVictimSyncset_def Let_def exec_inv VictimsyncMonitor_releasePrevVictimSyncset_def)
  have m1: "m1 = m\<lparr>cur_seqnum := cur_seqnum m + 1\<rparr>" "cur_seqnum m \<noteq> - 1"
    using n(3) by (auto simp: VictimsyncMonitor_incrCurSeqnum_def exec_inv dest!: uint64Add_one_inv)
  have "n = cur_seqnum m" using n(2) by (auto simp: VictimsyncMonitor_getCurSeqnum_def exec_inv split: option.splits)
  then show "monitor_ok cnt m'" "seqnum current' = cur_seqnum m" "prev_victim_syncset m' = Some current'"
    "cur_seqnum m' = cur_seqnum m + 1"
    using isComplete_setters [OF n(4,5)] n(1,6) m1 assms(1) by (simp_all add: monitor_ok_def VictimsyncMonitor_resetNeedEnforcement_def)
qed

lemma clear_ok:
  assumes "monitor_ok cnt m" and "\<not> is_first_complete_received m"
    and "VictimsyncMonitor_tryToClearEnforcementStatus chk neighbor n cnt m = Inr (m', fresh)"
  shows "monitor_ok cnt m'"
proof -
  obtain m1 m2 where m1: "VictimsyncMonitor_clearStaleCachedVictimSyncsets cnt (m\<lparr>tracked_seqnum := n\<rparr>) = Inr m1"
    and m2: "VictimsyncMonitor_clearContinuousCachedVictimSyncsets chk neighbor cnt m1 = Inr (m2, fresh)"
    and m': "m' = (if wait_for_complete_victim_syncset m2 \<and> enforcement_seqnum m2 < tracked_seqnum m2
          then m2\<lparr>need_enforcement := False, enforcement_seqnum := 0, wait_for_complete_victim_syncset := False\<rparr> else m2)"
    using assms(3) unfolding VictimsyncMonitor_tryToClearEnforcementStatus_def by (auto simp only: exec_inv Inr_inject prod.inject split: prod.splits)
  obtain ss where ss: "drop_stale n (cached_victim_syncsets m) = Inr ss" "m1 = m\<lparr>tracked_seqnum := n, cached_victim_syncsets := ss\<rparr>"
    using m1 by (auto simp: VictimsyncMonitor_clearStaleCachedVictimSyncsets_def exec_inv)
  obtain n' ts where ts: "continuous_loop chk neighbor n ss None = Inr (n', ts, fresh)"
    "m2 = m\<lparr>tracked_seqnum := n', cached_victim_syncsets := ts\<rparr>"
    using m2 ss(2) by (auto simp: VictimsyncMonitor_clearContinuousCachedVictimSyncsets_def exec_inv)
  have "length ts \<le> unat cnt \<and> list_all compressed_form ts"
    by (rule monitor_ok_cached [OF assms(1)]) (use drop_stale_subset [OF ss(1)] continuous_loop_subset [OF ts(1)] in auto)
  then show ?thesis using m' ts(2) assms(1,2) by (simp add: monitor_ok_def)
qed

lemma early_ok:
  assumes "monitor_ok cnt m" and "VictimsyncMonitor_tryToEnableEnforcementStatus neighbor n cnt m = Inr m'"
  shows "monitor_ok cnt m'"
proof -
  have "VictimSyncset_isCompressed neighbor = Inr True"
    using assms(2) by (auto simp: VictimsyncMonitor_tryToEnableEnforcementStatus_def exec_inv)
  then show ?thesis
    using assms by (auto simp: VictimsyncMonitor_tryToEnableEnforcementStatus_def exec_inv monitor_ok_def compressed_form_def Let_def
        split: if_splits)
qed

lemma monitor_step_ok:
  assumes "monitor_step chk cnt m m'" and "monitor_ok cnt m"
  shows "monitor_ok cnt m'"
  using assms
proof (cases rule: monitor_step.cases)
  case (send current current' final)
  then show ?thesis using send_ok(1) assms(2) by blast
next
  case enforce
  then show ?thesis
    using assms(2) by (simp add: monitor_ok_def VictimsyncMonitor_enforceComplete_def VictimsyncMonitor_releasePrevVictimSyncset_def)
next
  case first
  then show ?thesis using assms(2) by (auto simp: monitor_ok_def VictimsyncMonitor_clearFirstCompleteReceived_def exec_inv)
next
  case (complete neighbor n fresh)
  then show ?thesis using clear_ok assms(2) by blast
next
  case (early neighbor n)
  then show ?thesis using early_ok assms(2) by blast
qed

lemma reachable_ok: "monitor_reachable chk cnt m \<Longrightarrow> monitor_ok cnt m"
  by (induction rule: monitor_reachable.induct) (auto simp: monitor_ok_def VictimsyncMonitor_new_def dest: monitor_step_ok)

lemma max_seqnum_returns: "list_all compressed_form ss \<Longrightarrow> \<exists>k. max_seqnum_loop ss n = Inr k"
  by (induction ss arbitrary: n) (auto simp: compressed_form_seqnum)

lemma early_returns:
  assumes "monitor_ok cnt m" and "compressed_form s"
  shows "\<exists>m'. VictimsyncMonitor_tryToEnableEnforcementStatus s (seqnum s) cnt m = Inr m'"
proof -
  have "\<exists>k. VictimsyncMonitor_getMaxSeqnumFromCachedVictimSyncsets cnt m = Inr k"
    using assms(1) max_seqnum_returns compressed_form_seqnum
    by (auto simp: VictimsyncMonitor_getMaxSeqnumFromCachedVictimSyncsets_def monitor_ok_def split: list.splits)
  then show ?thesis
    using assms compressed_form_seqnum [OF assms(2)]
    by (auto simp: VictimsyncMonitor_tryToEnableEnforcementStatus_def Let_def monitor_ok_def compressed_form_def)
qed

section \<open>Results\<close>

text \<open>C14: Syncsets that arrive out of order are applied in order. A complete syncset (number n) arrives and the
  receiver is in step with it; among the compressed syncsets that wait in the list, in any order and mixed with outdated ones and ones
  that are still too early, are those the sender produced as n+1, ..., n+k. Then all of these are applied in
  sequence: the receiver is in step with the sender's complete syncset number n+k, this number is tracked,
  and exactly the later syncsets keep waiting.\<close>

theorem early_syncsets_applied:
  assumes "in_sync p x" and "sync_chain chk p cs" and "length (cached_victim_syncsets m) \<le> unat cnt"
    and "\<forall>s \<in> set (cached_victim_syncsets m). VictimSyncset_isCompressed s = Inr True"
    and "distinct (map seqnum (filter (\<lambda>s. seqnum p < seqnum s) (cached_victim_syncsets m)))"
    and "\<forall>s \<in> snd ` set cs. arrive s \<in> set (cached_victim_syncsets m)"
    and "seqnum (chain_end p cs) + 1 \<notin> seqnum ` set (cached_victim_syncsets m)"
  shows "\<exists>m' fresh. VictimsyncMonitor_tryToClearEnforcementStatus chk x (seqnum p) cnt m = Inr (m', fresh)
    \<and> tracked_seqnum m' = seqnum (chain_end p cs)
    \<and> cached_victim_syncsets m' = filter (\<lambda>s. seqnum (chain_end p cs) < seqnum s) (cached_victim_syncsets m)
    \<and> in_sync (chain_end p cs) (case fresh of None \<Rightarrow> x | Some r \<Rightarrow> r)"
proof -
  let ?ss = "cached_victim_syncsets m" and ?k = "seqnum (chain_end p cs)"
  let ?w = "filter (\<lambda>s. seqnum p < seqnum s) ?ss"
  have p: "syncset_ok p" using assms(1) by (simp add: in_sync_def)
  have form: "\<forall>s \<in> set ?ss. compressed_form s" using assms(4) by (simp add: compressed_form_def)
  have stale: "drop_stale (seqnum p) ?ss = Inr ?w" by (rule drop_stale_spec [OF form])
  have le: "seqnum p \<le> ?k" by (rule chain_later(1) [OF p assms(2)])
  obtain fresh where loop: "continuous_loop chk x (seqnum p) ?w None = Inr (?k, filter (\<lambda>s. ?k < seqnum s) ?w, fresh)"
    and sync: "in_sync (chain_end p cs) (case fresh of None \<Rightarrow> x | Some f \<Rightarrow> f)"
    using continuous_loop_chain [of p x None chk cs ?w] assms(1,2,5,6,7) form chain_later(2) [OF p assms(2)]
    by (auto simp: waiting_def)
  have f: "filter (\<lambda>s. ?k < seqnum s) ?w = filter (\<lambda>s. ?k < seqnum s) ?ss"
    unfolding filter_filter using le by (intro filter_cong) auto
  have fresh: "VictimSyncset_isComplete r = Inr True" if "fresh = Some r" for r
    using sync in_sync_status that by auto
  have "length ?w \<le> unat cnt" using assms(3) length_filter_le [of _ ?ss] order_trans by blast
  then show ?thesis
    using stale loop f fresh sync in_sync_status [OF assms(1)] assms(3) le
    by (cases fresh) (auto simp: VictimsyncMonitor_tryToClearEnforcementStatus_def VictimsyncMonitor_clearStaleCachedVictimSyncsets_def
        VictimsyncMonitor_clearContinuousCachedVictimSyncsets_def)
qed

definition example_syncset :: "u64 \<Rightarrow> u64 \<Rightarrow> victim_syncset" where
  "example_syncset n room = syncset n False False False False room 0 [] []"

definition example_delta :: "u64 \<Rightarrow> u32 \<Rightarrow> victim_syncset" where
  "example_delta n d = syncset n False True False False 0 d [] []"

lemma example_in_sync: "in_sync (example_syncset n room) (example_syncset n room)" "syncset_ok (example_syncset n room)"
  by (simp_all add: example_syncset_def in_sync_def syncset_ok_def victims_ok_def sets_ok_def knows_refl)

lemma example_chain:
  "sync_chain True (example_syncset 4 100) [(example_syncset 5 300, example_delta 5 200), (example_syncset 6 250, example_delta 6 (- 50))]"
proof -
  have 1: "VictimSyncset_compress True (example_syncset 5 300) (example_syncset 4 100) = Inr (example_delta 5 200)" by code_simp
  have 2: "VictimSyncset_compress True (example_syncset 6 250) (example_syncset 5 300) = Inr (example_delta 6 (- 50))" by code_simp
  have 3: "VictimSyncset_isComplete (example_delta n d) = Inr False" for n d by (simp add: example_delta_def)
  show ?thesis using 1 2 3 example_in_sync(2) by (simp add: example_syncset_def)
qed

definition example_monitor :: "victim_syncset list \<Rightarrow> victimsync_monitor" where
  "example_monitor ss = VictimsyncMonitor_new\<lparr>is_first_complete_received := False, cached_victim_syncsets := ss\<rparr>"

theorem early_syncsets_applied_witness:
  "\<exists>m' fresh. VictimsyncMonitor_tryToClearEnforcementStatus True (example_syncset 4 100) (seqnum (example_syncset 4 100)) 5
       (example_monitor [example_delta 6 (- 50), example_delta 9 7, example_delta 3 1, example_delta 5 200]) = Inr (m', fresh)
    \<and> tracked_seqnum m' = 6 \<and> cached_victim_syncsets m' = [example_delta 9 7]
    \<and> in_sync (example_syncset 6 250) (case fresh of None \<Rightarrow> example_syncset 4 100 | Some r \<Rightarrow> r)"
  using early_syncsets_applied [OF example_in_sync(1) example_chain,
      of "example_monitor [example_delta 6 (- 50), example_delta 9 7, example_delta 3 1, example_delta 5 200]" 5]
  by (simp add: example_monitor_def example_delta_def, simp add: example_syncset_def)

text \<open>C15: Reachable states of a monitor: at most \<open>cnt\<close> syncsets wait, all of them compressed; a complete syncset is
  asked for only while one is awaited; the number used next continues the syncset sent last. In such a state a
  compressed syncset that arrives early is always accepted, so the assertion in that code does not fail.\<close>

theorem monitor_invariant:
  assumes "monitor_reachable chk cnt m"
  shows "length (cached_victim_syncsets m) \<le> unat cnt
    \<and> list_all (\<lambda>s. VictimSyncset_isCompressed s = Inr True) (cached_victim_syncsets m)
    \<and> (need_enforcement m \<longrightarrow> wait_for_complete_victim_syncset m)
    \<and> (\<forall>p. prev_victim_syncset m = Some p \<longrightarrow> cur_seqnum m = seqnum p + 1)
    \<and> (\<forall>s. VictimSyncset_isCompressed s = Inr True \<longrightarrow>
      (\<exists>m'. VictimsyncMonitor_tryToEnableEnforcementStatus s (seqnum s) cnt m = Inr m'))"
proof -
  have ok: "monitor_ok cnt m" by (rule reachable_ok [OF assms])
  show ?thesis using ok early_returns [OF ok] by (simp add: monitor_ok_def compressed_form_def list_all_iff)
qed

lemma example_full:
  "monitor_reachable True 0 (VictimsyncMonitor_new\<lparr>enforcement_seqnum := 5, wait_for_complete_victim_syncset := True, need_enforcement := True\<rparr>)"
proof (rule monitor_reachable.step [OF monitor_reachable.init monitor_step.early])
  show "VictimsyncMonitor_tryToEnableEnforcementStatus (example_delta 5 200) 5 0 VictimsyncMonitor_new
    = Inr (VictimsyncMonitor_new\<lparr>enforcement_seqnum := 5, wait_for_complete_victim_syncset := True, need_enforcement := True\<rparr>)"
    by code_simp
qed

theorem monitor_invariant_witness:
  "\<exists>m. need_enforcement m \<and> wait_for_complete_victim_syncset m
    \<and> (\<exists>m'. VictimsyncMonitor_tryToEnableEnforcementStatus (example_delta 7 1) 7 0 m = Inr m')"
proof -
  have "VictimSyncset_isCompressed (example_delta 7 1) = Inr True" "seqnum (example_delta 7 1) = 7"
    by (simp_all add: example_delta_def)
  then show ?thesis
    using monitor_invariant [OF example_full]
    by (intro exI [of _ "VictimsyncMonitor_new\<lparr>enforcement_seqnum := 5, wait_for_complete_victim_syncset := True, need_enforcement := True\<rparr>"])
      auto
qed

text \<open>A duplicate that waits stops the receiver. If the compressed syncset that continues the arriving complete one
  is in the list twice, as after a datagram that was delivered twice, the first copy is applied and the second
  then fails the assertion that every waiting syncset is newer than the tracked number.\<close>

theorem duplicate_early_aborts:
  assumes "in_sync p x" and "sync_chain chk p [(c, s)]" and "cached_victim_syncsets m = [arrive s, arrive s]" and "2 \<le> unat cnt"
  shows "VictimsyncMonitor_tryToClearEnforcementStatus chk x (seqnum p) cnt m = Inl AssertFailed"
proof -
  obtain r where r: "VictimSyncset_recover chk (arrive s) x = Inr r" "in_sync c r" "seqnum (arrive s) = seqnum p + 1"
    "compressed_form (arrive s)"
    by (rule sync_step [OF assms(1,2)])
  have c: "seqnum c = seqnum p + 1" "seqnum p \<noteq> - 1" using assms(2) by simp_all
  have less: "seqnum p < seqnum p + 1" by (rule less_next [OF c(2)])
  have n: "VictimSyncset_getSeqnum (arrive s) = Inr (seqnum p + 1)" using compressed_form_seqnum [OF r(4)] r(3) by simp
  have stale: "drop_stale (seqnum p) [arrive s, arrive s] = Inr [arrive s, arrive s]" using n less by simp
  have find1: "find_continuous (seqnum p) [arrive s, arrive s] = Inr (Some 0)"
    using r(4) n less c(2) by (simp add: compressed_form_def uint64Add_one)
  have find2: "find_continuous (seqnum p + 1) [arrive s] = Inl AssertFailed"
    using r(4) n by (simp add: compressed_form_def)
  have "continuous_loop chk x (seqnum p + 1) [arrive s] (Some r) = Inl AssertFailed"
    by (subst continuous_loop.simps) (simp only: find2 bindE_simps)
  then have "continuous_loop chk x (seqnum p) [arrive s, arrive s] None = Inl AssertFailed"
    using in_sync_status [OF r(2)] c(1) n r(1) by (subst continuous_loop.simps) (simp add: find1 erase_at_def del: find_continuous.simps)
  then show ?thesis
    using assms(3,4) in_sync_status [OF assms(1)] stale
    by (simp add: VictimsyncMonitor_tryToClearEnforcementStatus_def VictimsyncMonitor_clearStaleCachedVictimSyncsets_def
        VictimsyncMonitor_clearContinuousCachedVictimSyncsets_def)
qed

theorem duplicate_early_aborts_witness:
  "VictimsyncMonitor_tryToClearEnforcementStatus True (example_syncset 4 100) (seqnum (example_syncset 4 100)) 5
     (example_monitor [arrive (example_delta 5 200), arrive (example_delta 5 200)]) = Inl AssertFailed"
  by (rule duplicate_early_aborts [OF example_in_sync(1), where c = "example_syncset 5 300"])
    (use example_chain in \<open>simp_all add: example_monitor_def\<close>)

end
