(* ===== verification/Victim_Codec.thy ===== *)
theory Victim_Codec
  imports Victimsync_Monitor
begin

text \<open>
  The message and snapshot format of syncsets (\<open>VictimSyncset::serialize\<close> and \<open>deserialize\<close>) and of monitors: the
  format contracts hold for keyed directory sets, victims, syncsets and monitors, up to what victims do not send.
\<close>

section \<open>Elements of syncsets\<close>

definition keyed_set_wf :: "key \<times> dirinfo_set \<Rightarrow> bool" where
  "keyed_set_wf b \<longleftrightarrow> Key_wf (fst b) \<and> DirinfoSet_wf (snd b)"

definition keyed_set_enc :: "key \<times> dirinfo_set \<Rightarrow> u8 list" where
  "keyed_set_enc b = Key_enc (fst b) @ DirinfoSet_enc (snd b)"

lemma DirinfoSet_wf_valid: "DirinfoSet_wf s \<Longrightarrow> \<not> DirinfoSet_isInvalid s"
  unfolding DirinfoSet_wf_def by (metis of_list_status(4) delta_status(1) DirinfoSet_isInvalid_def)

interpretation keyed_set_wire: wire_codec keyed_set_wf keyed_set_enc "\<lambda>y. DirinfoSet_fresh (snd y)" keyed_set_serialize keyed_set_deserialize
proof unfold_locales
  fix x y :: "key \<times> dirinfo_set" and p :: u32 and a
  let ?k = "Key_enc (fst x)" and ?s = "DirinfoSet_enc (snd x)"
  assume wf: "keyed_set_wf x" and lim: "unat p + length (keyed_set_enc x) < 2 ^ 32"
  have pk: "unat (p + word_of_nat (length ?k)) = unat p + length ?k"
    using lim by (intro unat_plus_of_nat) (simp add: keyed_set_enc_def)
  have len: "word_of_nat (length ?k) + word_of_nat (length ?s) = (word_of_nat (length (keyed_set_enc x)) :: u32)"
    by (simp add: keyed_set_enc_def)
  show "keyed_set_serialize x a p = Inr (da_put (unat p) (keyed_set_enc x) a, word_of_nat (length (keyed_set_enc x)))"
    if cap: "unat p + length (keyed_set_enc x) \<le> da_capacity a"
  proof -
    have 1: "Key_serialize (fst x) a p = Inr (da_put (unat p) ?k a, word_of_nat (length ?k))"
      using wf cap lim by (intro key_wire.ser_enc) (simp_all add: keyed_set_wf_def keyed_set_enc_def)
    have 2: "DirinfoSet_serialize (snd x) (da_put (unat p) ?k a) (p + word_of_nat (length ?k))
        = Inr (da_put (unat (p + word_of_nat (length ?k))) ?s (da_put (unat p) ?k a), word_of_nat (length ?s))"
      using wf cap lim pk by (intro dirinfoset_wire.ser_enc) (simp_all add: keyed_set_wf_def keyed_set_enc_def)
    show ?thesis using 1 2 pk len by (simp add: keyed_set_serialize_def da_put_put keyed_set_enc_def del: length_Key_enc)
  qed
  show "keyed_set_deserialize y a p = Inr (x, word_of_nat (length (keyed_set_enc x)))"
    if fresh: "DirinfoSet_fresh (snd y)" and h: "da_holds a (unat p) (keyed_set_enc x)"
  proof -
    have h': "da_holds a (unat p) ?k" "da_holds a (unat (p + word_of_nat (length ?k))) ?s"
      using h pk by (simp_all add: keyed_set_enc_def da_holds_append)
    have 1: "Key_deserialize (fst y) a p = Inr (fst x, word_of_nat (length ?k))"
      using wf h' lim by (intro key_wire.deser_enc) (simp_all add: keyed_set_wf_def keyed_set_enc_def)
    have 2: "DirinfoSet_deserialize (snd y) a (p + word_of_nat (length ?k)) = Inr (snd x, word_of_nat (length ?s))"
      using wf h' lim pk fresh by (intro dirinfoset_wire.deser_enc) (simp_all add: keyed_set_wf_def keyed_set_enc_def)
    show ?thesis
      using 1 2 len wf DirinfoSet_wf_valid by (simp add: keyed_set_deserialize_def keyed_set_wf_def del: length_Key_enc)
  qed
qed

interpretation keyed_set_stream: stream_codec keyed_set_wf keyed_set_enc "\<lambda>y. DirinfoSet_fresh (snd y)"
    keyed_set_serialize_fs keyed_set_deserialize_fs
  by unfold_locales
    (auto simp: keyed_set_serialize_fs_def keyed_set_deserialize_fs_def keyed_set_wf_def keyed_set_enc_def key_stream.fs_ser_enc
      key_stream.fs_deser_enc dirinfoset_stream.fs_ser_enc dirinfoset_stream.fs_deser_enc DirinfoSet_wf_valid)

lemma victim_wf_valid: "VictimCacheinfo_wf v \<Longrightarrow> \<not> VictimCacheinfo_isInvalid v"
  by (simp add: VictimCacheinfo_wf_def VictimCacheinfo_sendable_def VictimCacheinfo_isInvalid_def)

interpretation synced_wire: wire_codec VictimCacheinfo_wf VictimCacheinfo_enc "\<lambda>y. y = VictimCacheinfo_invalid"
    VictimCacheinfo_serialize valid_victim_deserialize
  by unfold_locales (simp_all add: victim_wire.ser_enc victim_wire.deser_enc valid_victim_deserialize_def victim_wf_valid)

interpretation synced_stream: stream_codec VictimCacheinfo_wf VictimCacheinfo_enc "\<lambda>y. y = VictimCacheinfo_invalid"
    VictimCacheinfo_serialize_fs valid_victim_deserialize_fs
  by unfold_locales (simp_all add: victim_stream.fs_ser_enc victim_stream.fs_deser_enc valid_victim_deserialize_fs_def victim_wf_valid)

section \<open>Message format of syncsets\<close>

text \<open>A syncset of the shape the operations keep, with elements that can be sent.\<close>

definition syncset_shape :: "victim_syncset \<Rightarrow> bool" where
  "syncset_shape s \<longleftrightarrow> (\<exists>dm ds db. s = syncset (seqnum s) (enforce_complete s) dm ds db (cache_margin_bytes s) (cache_margin_delta_bytes s)
      (local_synced_victims s) (local_beaconed_victims s)
      \<and> (if dm then cache_margin_bytes s = 0 else cache_margin_delta_bytes s = 0))"

definition VictimSyncset_sendable :: "victim_syncset \<Rightarrow> bool" where
  "VictimSyncset_sendable s \<longleftrightarrow> syncset_shape s \<and> (\<forall>v \<in> set (local_synced_victims s). VictimCacheinfo_sendable v)
     \<and> (\<forall>b \<in> set (local_beaconed_victims s). keyed_set_wf b)
     \<and> length (local_synced_victims s) < 2 ^ 32 \<and> length (local_beaconed_victims s) < 2 ^ 32"

definition VictimSyncset_wf :: "victim_syncset \<Rightarrow> bool" where
  "VictimSyncset_wf s \<longleftrightarrow> VictimSyncset_sendable s \<and> (\<forall>v \<in> set (local_synced_victims s). VictimCacheinfo_wf v)"

definition head_enc :: "victim_syncset \<Rightarrow> u8 list" where
  "head_enc s = [compressed_bitmap s] @ u64_mem (seqnum s) @ bool_mem (enforce_complete s) @ margin_mem s"

definition synced_enc :: "victim_syncset \<Rightarrow> u8 list" where
  "synced_enc s = (if local_synced_victims s = [] then [] else victim_wire.counted_enc (local_synced_victims s))"

definition beaconed_enc :: "victim_syncset \<Rightarrow> u8 list" where
  "beaconed_enc s = (if local_beaconed_victims s = [] then [] else keyed_set_wire.counted_enc (local_beaconed_victims s))"

definition VictimSyncset_enc :: "victim_syncset \<Rightarrow> u8 list" where
  "VictimSyncset_enc s = head_enc s @ synced_enc s @ beaconed_enc s"

lemma shape_bits:
  assumes "syncset_shape s"
  obtains dm ds db where "compressed_bitmap s = sync_bits dm ds (local_synced_victims s = []) db (local_beaconed_victims s = [])"
    and "if dm then cache_margin_bytes s = 0 else cache_margin_delta_bytes s = 0"
  using assms unfolding syncset_shape_def by (metis syncset_sel(1))

lemma length_margin_mem: "length (margin_mem s) = (if covers (compressed_bitmap s) CACHE_MARGIN_BYTES_DELTA_MASK then 4 else 8)"
  by (simp add: margin_mem_def)

lemma VictimSyncset_serialize_enc:
  assumes "VictimSyncset_wf s" and "unat p + length (VictimSyncset_enc s) \<le> da_capacity a"
    and "unat p + length (VictimSyncset_enc s) < 2 ^ 32"
  shows "VictimSyncset_serialize s a p = Inr (da_put (unat p) (VictimSyncset_enc s) a, word_of_nat (length (VictimSyncset_enc s)))"
proof -
  obtain dm ds db where b: "compressed_bitmap s = sync_bits dm ds (local_synced_victims s = []) db (local_beaconed_victims s = [])"
    using assms(1) shape_bits unfolding VictimSyncset_wf_def VictimSyncset_sendable_def by metis
  have el: "\<forall>v \<in> set (local_synced_victims s). VictimCacheinfo_wf v" "\<forall>b \<in> set (local_beaconed_victims s). keyed_set_wf b"
    using assms(1) by (simp_all add: VictimSyncset_wf_def VictimSyncset_sendable_def)
  define m where "m = length (margin_mem s)"
  have len: "length (VictimSyncset_enc s) = 10 + m + length (synced_enc s) + length (beaconed_enc s)"
    by (simp add: VictimSyncset_enc_def head_enc_def m_def)
  note cap = assms(2) [unfolded len] and lim = assms(3) [unfolded len]
  have pos: "unat (p + word_of_nat i) = unat p + i" if "i \<le> length (VictimSyncset_enc s)" for i
    using assms(3) that by (intro unat_plus_of_nat) simp
  have p1: "unat (p + 1) = unat p + 1" using pos [of 1] by (simp add: len)
  have p9: "unat (p + 1 + 8) = unat p + 9" using pos [of 9] by (simp add: len add.commute)
  have p10: "unat (p + 1 + 8 + 1) = unat p + 10" using pos [of 10] by (simp add: len add.commute)
  let ?h1 = "[compressed_bitmap s]" and ?h2 = "u64_mem (seqnum s)" and ?h3 = "bool_mem (enforce_complete s)" and ?h4 = "margin_mem s"
  have 1: "DynamicArray_deserialize a p ?h1 1 = Inr (da_put (unat p) ?h1 a)"
    using cap lim by (intro deserialize_ok) simp_all
  have "DynamicArray_deserialize (da_put (unat p) ?h1 a) (p + 1) ?h2 8 = Inr (da_put (unat (p + 1)) ?h2 (da_put (unat p) ?h1 a))"
    using cap lim p1 by (intro deserialize_ok) simp_all
  then have 2: "DynamicArray_deserialize (da_put (unat p) ?h1 a) (p + 1) ?h2 8 = Inr (da_put (unat p) (?h1 @ ?h2) a)"
    using p1 by (simp add: da_put_put)
  have "DynamicArray_deserialize (da_put (unat p) (?h1 @ ?h2) a) (p + 1 + 8) ?h3 1 = Inr (da_put (unat (p + 1 + 8)) ?h3 (da_put (unat p) (?h1 @ ?h2) a))"
    using cap lim p9 by (intro deserialize_ok) simp_all
  then have 3: "DynamicArray_deserialize (da_put (unat p) (?h1 @ ?h2) a) (p + 1 + 8) ?h3 1 = Inr (da_put (unat p) ((?h1 @ ?h2) @ ?h3) a)"
    unfolding p9 by (simp add: da_put_put)
  have "DynamicArray_deserialize (da_put (unat p) ((?h1 @ ?h2) @ ?h3) a) (p + 1 + 8 + 1) ?h4 (word_of_nat m)
      = Inr (da_put (unat (p + 1 + 8 + 1)) ?h4 (da_put (unat p) ((?h1 @ ?h2) @ ?h3) a))"
    using cap lim p10 by (intro deserialize_ok) (simp_all add: m_def)
  then have 4: "DynamicArray_deserialize (da_put (unat p) ((?h1 @ ?h2) @ ?h3) a) (p + 1 + 8 + 1) ?h4 (word_of_nat m) = Inr (da_put (unat p) (head_enc s) a)"
    unfolding p10 by (simp add: da_put_put head_enc_def)
  define q where "q i = p + word_of_nat i" for i
  have q10: "p + 1 + 8 + 1 + word_of_nat m = q (10 + m)" by (simp add: q_def)
  have uq: "unat (q i) = unat p + i" if "i \<le> length (VictimSyncset_enc s)" for i using pos [OF that] by (simp add: q_def)
  have qq: "q i + word_of_nat j = q (i + j)" for i j by (simp add: q_def add.assoc)
  let ?j = "10 + m + length (synced_enc s)"
  have 5: "(if local_synced_victims s = [] then Inr (da_put (unat p) (head_enc s) a, q (10 + m))
      else ser_counted VictimCacheinfo_serialize (local_synced_victims s) (da_put (unat p) (head_enc s) a) (q (10 + m)))
     = Inr (da_put (unat p) (head_enc s @ synced_enc s) a, q ?j)"
  proof (cases "local_synced_victims s = []")
    case True
    then show ?thesis by (simp add: synced_enc_def)
  next
    case False
    have "ser_counted VictimCacheinfo_serialize (local_synced_victims s) (da_put (unat p) (head_enc s) a) (q (10 + m))
      = Inr (da_put (unat (q (10 + m))) (synced_enc s) (da_put (unat p) (head_enc s) a), q (10 + m) + word_of_nat (length (synced_enc s)))"
      using synced_wire.ser_counted_enc [OF el(1), of "q (10 + m)" "da_put (unat p) (head_enc s) a"] False uq [of "10 + m"] cap lim len
      by (simp add: synced_enc_def)
    then show ?thesis using False uq [of "10 + m"] len by (simp add: da_put_put qq head_enc_def m_def)
  qed
  have 6: "(if local_beaconed_victims s = [] then Inr (da_put (unat p) (head_enc s @ synced_enc s) a, q ?j)
      else ser_counted keyed_set_serialize (local_beaconed_victims s) (da_put (unat p) (head_enc s @ synced_enc s) a) (q ?j))
     = Inr (da_put (unat p) (VictimSyncset_enc s) a, q (length (VictimSyncset_enc s)))"
  proof (cases "local_beaconed_victims s = []")
    case True
    then show ?thesis by (simp add: beaconed_enc_def VictimSyncset_enc_def head_enc_def m_def add.assoc)
  next
    case False
    have "ser_counted keyed_set_serialize (local_beaconed_victims s) (da_put (unat p) (head_enc s @ synced_enc s) a) (q ?j)
      = Inr (da_put (unat (q ?j)) (beaconed_enc s) (da_put (unat p) (head_enc s @ synced_enc s) a), q ?j + word_of_nat (length (beaconed_enc s)))"
      using keyed_set_wire.ser_counted_enc [OF el(2), of "q ?j" "da_put (unat p) (head_enc s @ synced_enc s) a"] False uq [of ?j] cap lim len
      by (simp add: beaconed_enc_def)
    then show ?thesis using False uq [of ?j] len by (simp add: da_put_put qq VictimSyncset_enc_def head_enc_def m_def add.assoc)
  qed
  have end_pos: "q (length (VictimSyncset_enc s)) - p = word_of_nat (length (VictimSyncset_enc s))" by (simp add: q_def)
  have valid: "VictimSyncset_checkValidity s k = k" for k :: "(dynamic_array \<times> u32) exec" using b by simp
  have cov: "covers (compressed_bitmap s) LOCAL_SYNCED_VICTIMS_EMPTY_MASK = (local_synced_victims s = [])"
    "covers (compressed_bitmap s) LOCAL_BEACONED_VICTIMS_EMPTY_MASK = (local_beaconed_victims s = [])" using b by simp_all
  have 2: "DynamicArray_deserialize (da_put (unat p) ?h1 a) (p + 1) ?h2 8 = Inr (da_put (unat p) (?h1 @ ?h2) a)" by (rule 2)
  show ?thesis
    unfolding VictimSyncset_serialize_def Let_def m_def [symmetric] valid cov
    by (simp only: 1 2 3 4 bindE_simps q10 5 6 prod.case end_pos)
qed

text \<open>Reading needs an object that holds nothing yet, as lists that are marked as empty are not read.\<close>

lemma VictimSyncset_deserialize_enc:
  assumes "VictimSyncset_wf s" and "da_holds a (unat p) (VictimSyncset_enc s)" and "unat p + length (VictimSyncset_enc s) < 2 ^ 32"
  shows "VictimSyncset_deserialize VictimSyncset_invalid a p = Inr (s, word_of_nat (length (VictimSyncset_enc s)))"
proof -
  obtain dm ds db where b: "compressed_bitmap s = sync_bits dm ds (local_synced_victims s = []) db (local_beaconed_victims s = [])"
    and md: "if dm then cache_margin_bytes s = 0 else cache_margin_delta_bytes s = 0"
    using assms(1) shape_bits unfolding VictimSyncset_wf_def VictimSyncset_sendable_def by metis
  have el: "\<forall>v \<in> set (local_synced_victims s). VictimCacheinfo_wf v" "\<forall>b \<in> set (local_beaconed_victims s). keyed_set_wf b"
    "length (local_synced_victims s) < 2 ^ 32" "length (local_beaconed_victims s) < 2 ^ 32"
    using assms(1) by (simp_all add: VictimSyncset_wf_def VictimSyncset_sendable_def)
  define m where "m = length (margin_mem s)"
  define q where "q i = p + word_of_nat i" for i
  have len: "length (VictimSyncset_enc s) = 10 + m + length (synced_enc s) + length (beaconed_enc s)"
    by (simp add: VictimSyncset_enc_def head_enc_def m_def)
  have uq: "unat (q i) = unat p + i" if "i \<le> length (VictimSyncset_enc s)" for i
    using assms(3) that unfolding q_def by (intro unat_plus_of_nat) simp
  have h: "da_holds a (unat (q 0)) [compressed_bitmap s]" "da_holds a (unat (q 1)) (u64_mem (seqnum s))"
    "da_holds a (unat (q 9)) (bool_mem (enforce_complete s))" "da_holds a (unat (q 10)) (margin_mem s)"
    "da_holds a (unat (q (10 + m))) (synced_enc s)" "da_holds a (unat (q (10 + m + length (synced_enc s)))) (beaconed_enc s)"
    using assms(2) uq len unfolding VictimSyncset_enc_def head_enc_def
    by (simp_all add: da_holds_append m_def ac_simps del: append.simps)
  have read: "DynamicArray_serialize a (q i) (word_of_nat (length d)) = Inr d"
    if "da_holds a (unat (q i)) d" "i + length d \<le> length (VictimSyncset_enc s)" for i d
    using that uq [of i] assms(3) by (intro serialize_ok) simp_all
  have r: "DynamicArray_serialize a (q 0) 1 = Inr [compressed_bitmap s]" "DynamicArray_serialize a (q 1) 8 = Inr (u64_mem (seqnum s))"
    "DynamicArray_serialize a (q 9) 1 = Inr (bool_mem (enforce_complete s))"
    "DynamicArray_serialize a (q 10) (word_of_nat m) = Inr (margin_mem s)"
    using read [OF h(1)] read [OF h(2)] read [OF h(3)] read [OF h(4)] len by (simp_all add: m_def)
  have vs: "deser_counted valid_victim_deserialize VictimCacheinfo_invalid a (q (10 + m))
      = Inr (local_synced_victims s, q (10 + m + length (synced_enc s)))" if "local_synced_victims s \<noteq> []"
    using synced_wire.deser_counted_enc [OF el(1) refl el(3), of a "q (10 + m)"] h(5) that uq [of "10 + m"] assms(3) len
    by (simp add: synced_enc_def q_def)
  have bs: "deser_counted keyed_set_deserialize (Key [], DirinfoSet_invalid) a (q (10 + m + length (synced_enc s)))
      = Inr (local_beaconed_victims s, q (length (VictimSyncset_enc s)))" if "local_beaconed_victims s \<noteq> []"
    using keyed_set_wire.deser_counted_enc [OF el(2) _ el(4), of "(Key [], DirinfoSet_invalid)" a "q (10 + m + length (synced_enc s))"]
      h(6) that uq [of "10 + m + length (synced_enc s)"] assms(3) len
    by (simp add: beaconed_enc_def q_def DirinfoSet_fresh_def DirinfoSet_invalid_def)
  have none: "synced_enc s = []" if "local_synced_victims s = []" using that by (simp add: synced_enc_def)
  have none': "beaconed_enc s = []" if "local_beaconed_victims s = []" using that by (simp add: beaconed_enc_def)
  have q: "p + 1 = q 1" "q 1 + 8 = q 9" "q 9 + 1 = q 10" "q 10 + 4 = q 14" "q 10 + 8 = q 18" "q 0 = p"
    by (simp_all add: q_def)
  have fin: "q i - p = word_of_nat i" for i by (simp add: q_def)
  have m: "m = (if dm then 4 else 8)" using b by (simp add: m_def length_margin_mem)
  have mm: "margin_mem s = (if dm then u32_mem (cache_margin_delta_bytes s) else u64_mem (cache_margin_bytes s))"
    using b by (simp add: margin_mem_def)
  note steps = r [unfolded q(6)] q(1-5) fin
  show ?thesis
  proof (cases s)
    case (fields bm n e mb md' vs' bs')
    show ?thesis
      unfolding VictimSyncset_deserialize_def Let_def
      using steps vs bs none none' b md m mm len fields
      by (cases dm; cases "vs' = []"; cases "bs' = []") (simp_all add: VictimSyncset_invalid_def)
  qed
qed

lemma VictimSyncset_serialize_fs_enc:
  assumes "VictimSyncset_wf s"
  shows "VictimSyncset_serialize_fs s out = Inr (out @ VictimSyncset_enc s, word_of_nat (length (VictimSyncset_enc s)))"
proof -
  obtain dm ds db where b: "compressed_bitmap s = sync_bits dm ds (local_synced_victims s = []) db (local_beaconed_victims s = [])"
    using assms shape_bits unfolding VictimSyncset_wf_def VictimSyncset_sendable_def by metis
  have el: "\<forall>v \<in> set (local_synced_victims s). VictimCacheinfo_wf v" "\<forall>b \<in> set (local_beaconed_victims s). keyed_set_wf b"
    using assms by (simp_all add: VictimSyncset_wf_def VictimSyncset_sendable_def)
  show ?thesis
    using b by (simp add: VictimSyncset_serialize_fs_def Let_def fs_write_def synced_stream.fs_ser_counted_enc [OF el(1)]
        keyed_set_stream.fs_ser_counted_enc [OF el(2)] VictimSyncset_enc_def head_enc_def synced_enc_def beaconed_enc_def add.assoc)
qed

lemma VictimSyncset_deserialize_fs_enc:
  assumes "VictimSyncset_wf s"
  shows "VictimSyncset_deserialize_fs VictimSyncset_invalid (good_fs (VictimSyncset_enc s @ rest))
    = Inr (s, good_fs rest, word_of_nat (length (VictimSyncset_enc s)))"
proof -
  obtain dm ds db where b: "compressed_bitmap s = sync_bits dm ds (local_synced_victims s = []) db (local_beaconed_victims s = [])"
    and md: "if dm then cache_margin_bytes s = 0 else cache_margin_delta_bytes s = 0"
    using assms shape_bits unfolding VictimSyncset_wf_def VictimSyncset_sendable_def by metis
  have el: "\<forall>v \<in> set (local_synced_victims s). VictimCacheinfo_wf v" "\<forall>b \<in> set (local_beaconed_victims s). keyed_set_wf b"
    "length (local_synced_victims s) < 2 ^ 32" "length (local_beaconed_victims s) < 2 ^ 32"
    using assms by (simp_all add: VictimSyncset_wf_def VictimSyncset_sendable_def)
  have mm: "margin_mem s = (if dm then u32_mem (cache_margin_delta_bytes s) else u64_mem (cache_margin_bytes s))"
    using b by (simp add: margin_mem_def)
  have fresh: "DirinfoSet_fresh (snd (Key [], DirinfoSet_invalid))" by (simp add: DirinfoSet_fresh_def DirinfoSet_invalid_def)
  note lists = synced_stream.fs_deser_counted_enc [OF el(1) refl el(3)] keyed_set_stream.fs_deser_counted_enc [OF el(2) fresh el(4)]
  show ?thesis
  proof (cases s)
    case (fields bm n e mb md' vs' bs')
    show ?thesis
      using lists b md mm fields
      by (cases dm; cases "vs' = []"; cases "bs' = []")
        (simp_all add: VictimSyncset_deserialize_fs_def VictimSyncset_invalid_def Let_def VictimSyncset_enc_def head_enc_def
          synced_enc_def beaconed_enc_def)
  qed
qed

interpretation syncset_wire: wire_codec VictimSyncset_wf VictimSyncset_enc "\<lambda>y. y = VictimSyncset_invalid"
    VictimSyncset_serialize VictimSyncset_deserialize
  by unfold_locales (simp_all add: VictimSyncset_serialize_enc VictimSyncset_deserialize_enc)

interpretation syncset_stream: stream_codec VictimSyncset_wf VictimSyncset_enc "\<lambda>y. y = VictimSyncset_invalid"
    VictimSyncset_serialize_fs VictimSyncset_deserialize_fs
  by unfold_locales (simp_all add: VictimSyncset_serialize_fs_enc VictimSyncset_deserialize_fs_enc)

text \<open>What is written does not depend on what is not sent.\<close>

lemma sent_sent [simp]: "sent (sent v) = sent v"
  by (simp add: sent_def)

lemma serialize_sent: "VictimCacheinfo_serialize (sent v) = VictimCacheinfo_serialize v"
    "VictimCacheinfo_serialize_fs (sent v) = VictimCacheinfo_serialize_fs v"
  by (rule ext, rule ext, simp add: VictimCacheinfo_serialize_def validE_def, simp add: sent_def ser_unless_def)
    (rule ext, simp add: VictimCacheinfo_serialize_fs_def validE_def, simp add: sent_def fs_ser_unless_def)

lemma ser_list_sent:
  "ser_list VictimCacheinfo_serialize (map sent vs) = ser_list VictimCacheinfo_serialize vs"
  "fs_ser_list VictimCacheinfo_serialize_fs (map sent vs) = fs_ser_list VictimCacheinfo_serialize_fs vs"
  by (induction vs) (auto simp: fun_eq_iff serialize_sent)

lemma arrive_sel [simp]:
  "compressed_bitmap (arrive s) = compressed_bitmap s" "seqnum (arrive s) = seqnum s" "enforce_complete (arrive s) = enforce_complete s"
  "local_beaconed_victims (arrive s) = local_beaconed_victims s" "local_synced_victims (arrive s) = map sent (local_synced_victims s)"
  "cache_margin_bytes (arrive s) = cache_margin_bytes s" "cache_margin_delta_bytes (arrive s) = cache_margin_delta_bytes s"
  by (simp_all add: arrive_def)

lemma counted_sent:
  "ser_counted VictimCacheinfo_serialize (map sent vs) = ser_counted VictimCacheinfo_serialize vs"
  "fs_ser_counted VictimCacheinfo_serialize_fs (map sent vs) = fs_ser_counted VictimCacheinfo_serialize_fs vs"
  by (simp_all add: fun_eq_iff ser_counted_def fs_ser_counted_def ser_list_sent)

lemma serialize_arrive:
  "VictimSyncset_serialize (arrive s) = VictimSyncset_serialize s" "VictimSyncset_serialize_fs (arrive s) = VictimSyncset_serialize_fs s"
  by (rule ext, rule ext, simp only: VictimSyncset_serialize_def VictimSyncset_checkValidity_def margin_mem_def arrive_sel counted_sent)
    (rule ext, simp only: VictimSyncset_serialize_fs_def VictimSyncset_checkValidity_def margin_mem_def arrive_sel counted_sent)

lemma arrive_shape:
  assumes "syncset_shape s"
  shows "syncset_shape (arrive s)"
proof -
  obtain dm ds db where s: "s = syncset (seqnum s) (enforce_complete s) dm ds db (cache_margin_bytes s) (cache_margin_delta_bytes s)
      (local_synced_victims s) (local_beaconed_victims s)"
    and d: "if dm then cache_margin_bytes s = 0 else cache_margin_delta_bytes s = 0"
    using assms unfolding syncset_shape_def by blast
  have "arrive s = syncset (seqnum s) (enforce_complete s) dm ds db (cache_margin_bytes s) (cache_margin_delta_bytes s)
      (map sent (local_synced_victims s)) (local_beaconed_victims s)"
    by (subst s) (rule arrive_syncset)
  then show ?thesis unfolding syncset_shape_def arrive_sel using d by blast
qed

lemma arrive_wf:
  assumes "VictimSyncset_sendable s"
  shows "VictimSyncset_wf (arrive s)"
  using assms arrive_shape
  by (auto simp: VictimSyncset_wf_def VictimSyncset_sendable_def VictimCacheinfo_wf_def VictimCacheinfo_sendable_def)

section \<open>Snapshots of the monitor\<close>

definition monitor_enc :: "victimsync_monitor \<Rightarrow> u8 list" where
  "monitor_enc m = u64_mem (cur_seqnum m) @ bool_mem (is_first_complete_received m) @ u64_mem (tracked_seqnum m)
     @ syncset_wire.counted_enc (map arrive (cached_victim_syncsets m))"

lemma dump_enc:
  assumes "\<forall>s \<in> set (cached_victim_syncsets m). VictimSyncset_sendable s"
  shows "VictimsyncMonitor_dumpVictimsyncMonitor m out = Inr (out @ monitor_enc m)"
proof -
  have l: "fs_ser_list VictimSyncset_serialize_fs (map arrive ss) = fs_ser_list VictimSyncset_serialize_fs ss" for ss
    by (induction ss) (auto simp: fun_eq_iff serialize_arrive)
  have "\<forall>s \<in> set (map arrive (cached_victim_syncsets m)). VictimSyncset_wf s" using assms arrive_wf by auto
  note counted = syncset_stream.fs_ser_counted_enc [OF this]
  have "fs_ser_counted VictimSyncset_serialize_fs (cached_victim_syncsets m) out' 0
      = Inr (out' @ syncset_wire.counted_enc (map arrive (cached_victim_syncsets m)),
          word_of_nat (length (syncset_wire.counted_enc (map arrive (cached_victim_syncsets m)))))" for out'
    using counted [of out' 0] by (simp add: fs_ser_counted_def l)
  then show ?thesis
    by (simp add: VictimsyncMonitor_dumpVictimsyncMonitor_def Let_def fs_write_def monitor_enc_def)
qed

lemma load_enc:
  assumes "\<forall>s \<in> set (cached_victim_syncsets m). VictimSyncset_sendable s" and "length (cached_victim_syncsets m) < 2 ^ 32"
  shows "VictimsyncMonitor_loadVictimsyncMonitor this (good_fs (monitor_enc m @ rest)) =
    Inr (this\<lparr>cur_seqnum := cur_seqnum m, prev_victim_syncset := None, is_first_complete_received := is_first_complete_received m,
           tracked_seqnum := tracked_seqnum m, cached_victim_syncsets := map arrive (cached_victim_syncsets m)\<rparr>, good_fs rest)"
proof -
  have "\<forall>s \<in> set (map arrive (cached_victim_syncsets m)). VictimSyncset_wf s" using assms arrive_wf by auto
  from syncset_stream.fs_deser_counted_enc [OF this refl, of rest 0] assms(2) show ?thesis
    by (simp add: VictimsyncMonitor_loadVictimsyncMonitor_def Let_def monitor_enc_def)
qed

section \<open>Results\<close>

text \<open>C16: Syncsets survive the network and snapshots. Whatever is written of a syncset, complete or compressed, into a
  message or a snapshot is read back as the same syncset, except for what victims do not send: the fields
  that are left out and the redirected reward.\<close>

theorem syncset_roundtrip:
  assumes "VictimSyncset_sendable s" and "unat p + length (VictimSyncset_enc (arrive s)) \<le> da_capacity a"
    and "unat p + length (VictimSyncset_enc (arrive s)) < 2 ^ 32"
  shows "(\<exists>a' n. VictimSyncset_serialize s a p = Inr (a', n) \<and> VictimSyncset_deserialize VictimSyncset_invalid a' p = Inr (arrive s, n))
    \<and> (\<exists>bs n. VictimSyncset_serialize_fs s [] = Inr (bs, n)
         \<and> VictimSyncset_deserialize_fs VictimSyncset_invalid (good_fs (bs @ rest)) = Inr (arrive s, good_fs rest, n))"
  using syncset_wire.round_trip [OF arrive_wf [OF assms(1)] refl assms(2,3)]
    syncset_stream.fs_round_trip [OF arrive_wf [OF assms(1)] refl, of rest]
  unfolding serialize_arrive by blast

lemma whole_shape: "syncset_shape (syncset n e False ds db m 0 vs bs)"
  unfolding syncset_shape_def syncset_sel by (intro exI conjI) (rule refl, simp)

lemma example_sendable: "VictimSyncset_sendable (example_sync 5 300 1065353216 [1, 2, 3])"
  by (simp add: VictimSyncset_sendable_def whole_shape example_sync_def VictimCacheinfo_sendable_def example_victim_def
      VictimCacheinfo_new_reward_def example_sets_def keyed_set_wf_def Key_wf_def DirinfoSet_wf_def)
    (simp add: victim_bits)

theorem syncset_roundtrip_witness:
  "(\<exists>a' n. VictimSyncset_serialize (example_sync 5 300 1065353216 [1, 2, 3]) (DynamicArray_with_capacity 1024) 0 = Inr (a', n)
      \<and> VictimSyncset_deserialize VictimSyncset_invalid a' 0 = Inr (arrive (example_sync 5 300 1065353216 [1, 2, 3]), n))
    \<and> (\<exists>bs n. VictimSyncset_serialize_fs (example_sync 5 300 1065353216 [1, 2, 3]) [] = Inr (bs, n)
         \<and> VictimSyncset_deserialize_fs VictimSyncset_invalid (good_fs (bs @ [7])) = Inr (arrive (example_sync 5 300 1065353216 [1, 2, 3]), good_fs [7], n))"
proof (rule syncset_roundtrip [OF example_sendable])
  have "length (VictimSyncset_enc (arrive (example_sync 5 300 1065353216 [1, 2, 3]))) \<le> 1024"
    by (simp add: VictimSyncset_enc_def head_enc_def synced_enc_def beaconed_enc_def length_margin_mem example_sync_def example_sets_def
        victim_wire.counted_enc_def keyed_set_wire.counted_enc_def VictimCacheinfo_enc_def length_opt_enc keyed_set_enc_def
        DirinfoSet_enc_simps dirinfos_enc_def example_victim_def VictimCacheinfo_new_reward_def)
  then show "unat 0 + length (VictimSyncset_enc (arrive (example_sync 5 300 1065353216 [1, 2, 3]))) \<le> da_capacity (DynamicArray_with_capacity 1024)"
    "unat 0 + length (VictimSyncset_enc (arrive (example_sync 5 300 1065353216 [1, 2, 3]))) < 2 ^ 32"
    by (simp_all add: DynamicArray_with_capacity_def DynamicArray_clear_def)
qed

text \<open>A snapshot of a monitor brings back the number to send next, the number that is tracked and the syncsets that
  wait; the syncset sent last is dropped, so that the next one is sent complete.\<close>

theorem monitor_snapshot:
  assumes "\<forall>s \<in> set (cached_victim_syncsets m). VictimSyncset_sendable s" and "length (cached_victim_syncsets m) < 2 ^ 32"
  shows "\<exists>bs. VictimsyncMonitor_dumpVictimsyncMonitor m [] = Inr bs
    \<and> VictimsyncMonitor_loadVictimsyncMonitor VictimsyncMonitor_new (good_fs (bs @ rest))
      = Inr (m\<lparr>prev_victim_syncset := None, cached_victim_syncsets := map arrive (cached_victim_syncsets m), enforcement_seqnum := 0,
               wait_for_complete_victim_syncset := False, need_enforcement := False\<rparr>, good_fs rest)"
  using dump_enc [OF assms(1), of "[]"] load_enc [OF assms, of VictimsyncMonitor_new rest]
  by (cases m) (simp add: VictimsyncMonitor_new_def)

theorem monitor_snapshot_witness:
  "\<exists>bs. VictimsyncMonitor_dumpVictimsyncMonitor (example_monitor [example_sync 5 300 1065353216 [1, 2, 3]]) [] = Inr bs
    \<and> VictimsyncMonitor_loadVictimsyncMonitor VictimsyncMonitor_new (good_fs (bs @ [7]))
      = Inr ((example_monitor [example_sync 5 300 1065353216 [1, 2, 3]])\<lparr>prev_victim_syncset := None,
               cached_victim_syncsets := map arrive (cached_victim_syncsets (example_monitor [example_sync 5 300 1065353216 [1, 2, 3]])),
               enforcement_seqnum := 0, wait_for_complete_victim_syncset := False, need_enforcement := False\<rparr>, good_fs [7])"
  by (rule monitor_snapshot) (simp_all add: example_monitor_def example_sendable)

end
