(* ===== verification/Edge_Set.thy ===== *)
theory Edge_Set
  imports Wire_Format
begin

text \<open>
  \<open>Edgeset\<close> (\<open>src/src/core/popularity/edgeset.c\<close>): a set of edge nodes, for placements and for victims. The class wraps an
  \<open>unordered_set\<close>; the list is its iteration order and has no duplicates. Edge indexes are sent in the byte order of
  the machine.
\<close>

type_synonym edgeset = "u32 list"

definition Edgeset_size :: "edgeset \<Rightarrow> u32" where
  "Edgeset_size es = word_of_nat (length es)"

text \<open>\<open>find\<close> does not return the end iterator.\<close>

definition Edgeset_find :: "u32 \<Rightarrow> edgeset \<Rightarrow> bool" where
  "Edgeset_find e es = (e \<in> set es)"

definition Edgeset_insert :: "u32 \<Rightarrow> edgeset \<Rightarrow> edgeset \<times> bool" where
  "Edgeset_insert e es = (if e \<in> set es then (es, False) else (es @ [e], True))"

definition Edgeset_erase :: "u32 \<Rightarrow> edgeset \<Rightarrow> edgeset" where
  "Edgeset_erase e es = removeAll e es"

definition Edgeset_getEdgesetPayloadSize :: "edgeset \<Rightarrow> u32" where
  "Edgeset_getEdgesetPayloadSize es = word_of_nat (4 + length es * 4)"

definition edge_idx_serialize :: "u32 serializer" where
  "edge_idx_serialize e msg_payload position =
     bindE (DynamicArray_deserialize msg_payload position (u32_mem e) 4) (\<lambda>msg_payload. Inr (msg_payload, 4))"

definition edge_idx_deserialize :: "u32 deserializer" where
  "edge_idx_deserialize this msg_payload position =
     bindE (DynamicArray_serialize msg_payload position 4) (\<lambda>b. Inr (mem_u32 b, 4))"

definition Edgeset_serialize :: "edgeset serializer" where
  "Edgeset_serialize es msg_payload position =
     bindE (ser_counted edge_idx_serialize es msg_payload position) (\<lambda>(msg_payload, sz). Inr (msg_payload, sz - position))"

text \<open>The indexes read are inserted into the set there is.\<close>

definition Edgeset_deserialize :: "edgeset deserializer" where
  "Edgeset_deserialize this msg_payload position =
     bindE (deser_counted edge_idx_deserialize 0 msg_payload position) (\<lambda>(es, sz).
     Inr (foldl (\<lambda>acc e. fst (Edgeset_insert e acc)) this es, sz - position))"

section \<open>The set the class stands for\<close>

lemma Edgeset_find_iff [simp]: "Edgeset_find e es \<longleftrightarrow> e \<in> set es"
  by (simp add: Edgeset_find_def)

lemma Edgeset_insert_simps [simp]:
  "set (fst (Edgeset_insert e es)) = insert e (set es)" "distinct es \<Longrightarrow> distinct (fst (Edgeset_insert e es))"
  "snd (Edgeset_insert e es) \<longleftrightarrow> e \<notin> set es"
  by (auto simp: Edgeset_insert_def)

lemma length_Edgeset_insert: "length (fst (Edgeset_insert e es)) = (if e \<in> set es then length es else Suc (length es))"
  by (simp add: Edgeset_insert_def)

lemma Edgeset_erase_simps [simp]:
  "set (Edgeset_erase e es) = set es - {e}" "distinct es \<Longrightarrow> distinct (Edgeset_erase e es)"
  by (simp_all add: Edgeset_erase_def distinct_removeAll)

lemma insert_all:
  "distinct (acc @ es) \<Longrightarrow> foldl (\<lambda>acc e. fst (Edgeset_insert e acc)) acc es = acc @ es"
  by (induction es arbitrary: acc) (auto simp: Edgeset_insert_def)

section \<open>Message format\<close>

interpretation edge_idx_wire: wire_codec "\<lambda>_. True" u32_mem "\<lambda>_. True" edge_idx_serialize edge_idx_deserialize
proof unfold_locales
  fix e y p :: u32 and a :: dynamic_array
  show "edge_idx_serialize e a p = Inr (da_put (unat p) (u32_mem e) a, word_of_nat (length (u32_mem e)))"
    if "unat p + length (u32_mem e) \<le> da_capacity a" and "unat p + length (u32_mem e) < 2 ^ 32"
    using that deserialize_ok [of p "u32_mem e" a 4] by (simp add: edge_idx_serialize_def)
  show "edge_idx_deserialize y a p = Inr (e, word_of_nat (length (u32_mem e)))"
    if "da_holds a (unat p) (u32_mem e)" and "unat p + length (u32_mem e) < 2 ^ 32"
    using that serialize_ok [of a p "u32_mem e" 4] by (simp add: edge_idx_deserialize_def)
qed

lemma length_edge_idx_enc [simp]: "length (edge_idx_wire.enc_list es) = 4 * length es"
  by (induction es) auto

interpretation edgeset_wire: wire_codec "\<lambda>es. distinct es \<and> length es < 2 ^ 32" edge_idx_wire.counted_enc "\<lambda>y. y = []"
    Edgeset_serialize Edgeset_deserialize
proof unfold_locales
  fix es y :: edgeset and p :: u32 and a :: dynamic_array
  assume es: "distinct es \<and> length es < 2 ^ 32"
  show "Edgeset_serialize es a p = Inr (da_put (unat p) (edge_idx_wire.counted_enc es) a, word_of_nat (length (edge_idx_wire.counted_enc es)))"
    if "unat p + length (edge_idx_wire.counted_enc es) \<le> da_capacity a" and "unat p + length (edge_idx_wire.counted_enc es) < 2 ^ 32"
    using edge_idx_wire.ser_counted_enc [where xs = es and p = p and a = a] that by (simp add: Edgeset_serialize_def)
  show "Edgeset_deserialize y a p = Inr (es, word_of_nat (length (edge_idx_wire.counted_enc es)))"
    if "y = []" and "da_holds a (unat p) (edge_idx_wire.counted_enc es)" and "unat p + length (edge_idx_wire.counted_enc es) < 2 ^ 32"
    using edge_idx_wire.deser_counted_enc [where xs = es and y = 0 and a = a and p = p] es that insert_all [of "[]" es] by (simp add: Edgeset_deserialize_def)
qed

lemma Edgeset_payload_size: "Edgeset_getEdgesetPayloadSize es = word_of_nat (length (edge_idx_wire.counted_enc es))"
  by (simp add: Edgeset_getEdgesetPayloadSize_def edge_idx_wire.counted_enc_def mult.commute)

end
