(* ===== verification/Victim_Metadata.thy ===== *)
theory Victim_Metadata
  imports Victim_Codec Edge_Set
begin

text \<open>
  What a beacon node keeps of the victims of all edge nodes: \<open>EdgelevelVictimMetadata\<close>, the victims of one edge node with
  its cache margin (\<open>src/src/core/victim/edgelevel_victim_metadata.c\<close>), and \<open>VictimDirinfo\<close>, the directory information
  of one victim with the number of edge nodes that list it (\<open>src/src/core/victim/victim_dirinfo.c\<close>). The main result is
  that \<open>findVictimsForObjectSize\<close> takes the shortest sufficient prefix of the victims.
\<close>

section \<open>EdgelevelVictimMetadata\<close>

record edgelevel_victim_metadata =
  metadata_valid :: bool
  metadata_margin_bytes :: u64
  victim_cacheinfos :: "victim_cacheinfo list"

definition EdgelevelVictimMetadata_new :: edgelevel_victim_metadata where
  "EdgelevelVictimMetadata_new = \<lparr>metadata_valid = False, metadata_margin_bytes = 0, victim_cacheinfos = []\<rparr>"

definition EdgelevelVictimMetadata_checkValidity :: "edgelevel_victim_metadata \<Rightarrow> 'a exec \<Rightarrow> 'a exec" where
  "EdgelevelVictimMetadata_checkValidity m k = assertE (metadata_valid m) k"

text \<open>\<open>chk\<close> is \<open>Config::isAssert()\<close>.\<close>

definition EdgelevelVictimMetadata_validate ::
    "bool \<Rightarrow> u64 \<Rightarrow> victim_cacheinfo list \<Rightarrow> edgelevel_victim_metadata exec" where
  "EdgelevelVictimMetadata_validate chk margin victims =
     (let m = \<lparr>metadata_valid = True, metadata_margin_bytes = margin, victim_cacheinfos = victims\<rparr>
      in if chk then bindE (all_complete VictimCacheinfo_isComplete victims) (\<lambda>c. assertE c (Inr m)) else Inr m)"

definition EdgelevelVictimMetadata_updateCacheMarginBytes ::
    "u64 \<Rightarrow> edgelevel_victim_metadata \<Rightarrow> edgelevel_victim_metadata exec" where
  "EdgelevelVictimMetadata_updateCacheMarginBytes margin m =
     EdgelevelVictimMetadata_checkValidity m (Inr (m\<lparr>metadata_margin_bytes := margin\<rparr>))"

definition EdgelevelVictimMetadata_getCacheMarginBytes :: "edgelevel_victim_metadata \<Rightarrow> u64 exec" where
  "EdgelevelVictimMetadata_getCacheMarginBytes m = EdgelevelVictimMetadata_checkValidity m (Inr (metadata_margin_bytes m))"

definition EdgelevelVictimMetadata_getVictimCacheinfos :: "edgelevel_victim_metadata \<Rightarrow> victim_cacheinfo list exec" where
  "EdgelevelVictimMetadata_getVictimCacheinfos m = EdgelevelVictimMetadata_checkValidity m (Inr (victim_cacheinfos m))"

subsection \<open>Finding victims\<close>

text \<open>The out-parameters of the search, which all edge nodes of a placement share.\<close>

record found_victims =
  pervictim_edgeset :: "(key \<times> edgeset) list"
  pervictim_cacheinfos :: "(key \<times> victim_cacheinfo list) list"
  peredge_synced_victimset :: "(u32 \<times> key list) list"
  peredge_fetched_victimset :: "(u32 \<times> key list) list"
  victim_fetch_edgeset :: edgeset

definition EdgelevelVictimMetadata_updatePervictimEdgeset ::
    "key \<Rightarrow> u32 \<Rightarrow> (key \<times> edgeset) list \<Rightarrow> (key \<times> edgeset) list" where
  "EdgelevelVictimMetadata_updatePervictimEdgeset key edge_idx = kv_update key [] (\<lambda>es. fst (Edgeset_insert edge_idx es))"

definition EdgelevelVictimMetadata_updatePervictimCacheinfos ::
    "key \<Rightarrow> victim_cacheinfo \<Rightarrow> (key \<times> victim_cacheinfo list) list \<Rightarrow> (key \<times> victim_cacheinfo list) list" where
  "EdgelevelVictimMetadata_updatePervictimCacheinfos key v = kv_update key [] (\<lambda>vs. vs @ [v])"

definition EdgelevelVictimMetadata_updatePeredgeVictimset ::
    "u32 \<Rightarrow> key \<Rightarrow> (u32 \<times> key list) list \<Rightarrow> (u32 \<times> key list) list" where
  "EdgelevelVictimMetadata_updatePeredgeVictimset edge_idx key = kv_update edge_idx [] (\<lambda>ks. ks @ [key])"

definition note_synced :: "u32 \<Rightarrow> victim_cacheinfo \<Rightarrow> key \<Rightarrow> found_victims \<Rightarrow> found_victims" where
  "note_synced edge_idx v key f = f\<lparr>
     pervictim_edgeset := EdgelevelVictimMetadata_updatePervictimEdgeset key edge_idx (pervictim_edgeset f),
     pervictim_cacheinfos := EdgelevelVictimMetadata_updatePervictimCacheinfos key v (pervictim_cacheinfos f),
     peredge_synced_victimset := EdgelevelVictimMetadata_updatePeredgeVictimset edge_idx key (peredge_synced_victimset f)\<rparr>"

definition note_fetched :: "u32 \<Rightarrow> victim_cacheinfo \<Rightarrow> key \<Rightarrow> found_victims \<Rightarrow> found_victims" where
  "note_fetched edge_idx v key f = f\<lparr>
     pervictim_edgeset := EdgelevelVictimMetadata_updatePervictimEdgeset key edge_idx (pervictim_edgeset f),
     pervictim_cacheinfos := EdgelevelVictimMetadata_updatePervictimCacheinfos key v (pervictim_cacheinfos f),
     peredge_fetched_victimset := EdgelevelVictimMetadata_updatePeredgeVictimset edge_idx key (peredge_fetched_victimset f)\<rparr>"

definition victim_bytes :: "victim_cacheinfo \<Rightarrow> u64 exec" where
  "victim_bytes v = bindE (VictimCacheinfo_getObjectSize v) (\<lambda>sz.
     case sz of None \<Rightarrow> Inl AssertFailed | Some n \<Rightarrow> Inr (ucast n))"

fun find_synced_loop ::
    "u32 \<Rightarrow> u64 \<Rightarrow> victim_cacheinfo list \<Rightarrow> u64 \<Rightarrow> found_victims \<Rightarrow> (u64 \<times> found_victims) exec" where
  "find_synced_loop edge_idx required [] saved f = Inr (saved, f)"
| "find_synced_loop edge_idx required (v # vs) saved f =
     bindE (VictimCacheinfo_isComplete v) (\<lambda>c. assertE c (
     bindE (VictimCacheinfo_getKey v) (\<lambda>key.
     let f = note_synced edge_idx v key f
     in bindE (victim_bytes v) (\<lambda>n.
     let saved = saved + n
     in if required \<le> saved then Inr (saved, f) else find_synced_loop edge_idx required vs saved f))))"

text \<open>\<open>synced\<close> is what the iterator points to that was taken before the loop, if it is not the end iterator.\<close>

fun find_extra_loop ::
    "u32 \<Rightarrow> u64 \<Rightarrow> key list option \<Rightarrow> victim_cacheinfo list \<Rightarrow> u64 \<Rightarrow> found_victims \<Rightarrow> (u64 \<times> found_victims) exec" where
  "find_extra_loop edge_idx required synced [] saved f = Inr (saved, f)"
| "find_extra_loop edge_idx required synced (v # vs) saved f =
     bindE (VictimCacheinfo_isComplete v) (\<lambda>c. assertE c (
     bindE (VictimCacheinfo_getKey v) (\<lambda>key.
     if (case synced of None \<Rightarrow> False | Some ks \<Rightarrow> list_ex (\<lambda>k. Key_equal k key) ks)
     then find_extra_loop edge_idx required synced vs saved f
     else let f = note_fetched edge_idx v key f
     in bindE (victim_bytes v) (\<lambda>n.
     let saved = saved + n
     in if required \<le> saved then Inr (saved, f) else find_extra_loop edge_idx required synced vs saved f))))"

definition EdgelevelVictimMetadata_findVictimsForObjectSize ::
    "u32 \<Rightarrow> u32 \<Rightarrow> victim_cacheinfo list \<Rightarrow> edgelevel_victim_metadata \<Rightarrow> found_victims \<Rightarrow> found_victims exec" where
  "EdgelevelVictimMetadata_findVictimsForObjectSize edge_idx obj_size extra m f =
     EdgelevelVictimMetadata_checkValidity m
       (let with_extra_victims = (0 < length extra)
        in if metadata_margin_bytes m < ucast obj_size
           then let required = ucast obj_size - metadata_margin_bytes m
                in bindE (find_synced_loop edge_idx required (victim_cacheinfos m) 0 f) (\<lambda>(saved, f).
                   if saved < required
                   then if with_extra_victims
                        then bindE (find_extra_loop edge_idx required (kv_get edge_idx (peredge_synced_victimset f)) extra saved f)
                               (\<lambda>(saved, f). Inr f)
                        else assertE (\<not> Edgeset_find edge_idx (victim_fetch_edgeset f))
                               (Inr (f\<lparr>victim_fetch_edgeset := fst (Edgeset_insert edge_idx (victim_fetch_edgeset f))\<rparr>))
                   else Inr f)
           else Inr f)"

subsection \<open>Removal and snapshots\<close>

text \<open>For each key the first victim with it is erased; a key that is not there is reported and skipped.\<close>

fun remove_victims_loop :: "key list \<Rightarrow> victim_cacheinfo list \<Rightarrow> u64 \<Rightarrow> (victim_cacheinfo list \<times> u64) exec" where
  "remove_victims_loop [] vs removed = Inr (vs, removed)"
| "remove_victims_loop (key # ks) vs removed =
     bindE (VictimCacheinfo_findVictimCacheinfoForKey key vs) (\<lambda>i.
     if i = length vs then remove_victims_loop ks vs removed
     else bindE (VictimCacheinfo_getSizeForCapacity (vs ! i)) (\<lambda>n.
          remove_victims_loop ks (erase_at i vs) (removed + n)))"

text \<open>The result has the bytes removed and whether no victim is left.\<close>

definition EdgelevelVictimMetadata_removeVictimsForPlacement ::
    "key list \<Rightarrow> edgelevel_victim_metadata \<Rightarrow> (edgelevel_victim_metadata \<times> u64 \<times> bool) exec" where
  "EdgelevelVictimMetadata_removeVictimsForPlacement ks m =
     EdgelevelVictimMetadata_checkValidity m
       (bindE (remove_victims_loop ks (victim_cacheinfos m) 0) (\<lambda>(vs, removed).
        Inr (m\<lparr>victim_cacheinfos := vs\<rparr>, removed, length vs = 0)))"

definition EdgelevelVictimMetadata_dumpEdgelevelVictimMetadata :: "edgelevel_victim_metadata \<Rightarrow> u8 list \<Rightarrow> u8 list exec" where
  "EdgelevelVictimMetadata_dumpEdgelevelVictimMetadata m out =
     assertE (metadata_valid m)
       (bindE (fs_ser_counted VictimCacheinfo_serialize_fs (victim_cacheinfos m) (fs_write (u64_mem (metadata_margin_bytes m)) out) 0)
         (\<lambda>(out, _). Inr out))"

definition EdgelevelVictimMetadata_loadEdgelevelVictimMetadata ::
    "edgelevel_victim_metadata \<Rightarrow> fstream \<Rightarrow> (edgelevel_victim_metadata \<times> fstream) exec" where
  "EdgelevelVictimMetadata_loadEdgelevelVictimMetadata this fs =
     (let (b, fs) = fs_read (u64_mem (metadata_margin_bytes this)) fs
      in bindE (fs_deser_counted VictimCacheinfo_deserialize_fs VictimCacheinfo_invalid fs 0) (\<lambda>(vs, fs, _).
         Inr (\<lparr>metadata_valid = True, metadata_margin_bytes = mem_u64 b, victim_cacheinfos = vs\<rparr>, fs)))"

section \<open>VictimDirinfo\<close>

record victim_dirinfo =
  refcnt :: u32
  beacon_edge_idx :: u32
  victim_dirinfo_set :: dirinfo_set

definition VictimDirinfo_default :: victim_dirinfo where
  "VictimDirinfo_default = \<lparr>refcnt = 0, beacon_edge_idx = 0, victim_dirinfo_set = DirinfoSet_invalid\<rparr>"

definition completeE :: "dirinfo_set \<Rightarrow> 'a exec \<Rightarrow> 'a exec" where
  "completeE s k = bindE (DirinfoSet_isComplete s) (\<lambda>c. assertE c k)"

definition VictimDirinfo_new :: "u32 \<Rightarrow> victim_dirinfo exec" where
  "VictimDirinfo_new idx =
     (let s = DirinfoSet_of_list [] in completeE s (Inr \<lparr>refcnt = 0, beacon_edge_idx = idx, victim_dirinfo_set = s\<rparr>))"

definition VictimDirinfo_new_set :: "u32 \<Rightarrow> dirinfo_set \<Rightarrow> victim_dirinfo exec" where
  "VictimDirinfo_new_set idx s = completeE s (Inr \<lparr>refcnt = 0, beacon_edge_idx = idx, victim_dirinfo_set = s\<rparr>)"

definition VictimDirinfo_incrRefcnt :: "victim_dirinfo \<Rightarrow> victim_dirinfo" where
  "VictimDirinfo_incrRefcnt d = d\<lparr>refcnt := refcnt d + 1\<rparr>"

definition VictimDirinfo_decrRefcnt :: "victim_dirinfo \<Rightarrow> victim_dirinfo \<times> bool" where
  "VictimDirinfo_decrRefcnt d =
     (if 0 < refcnt d then let d = d\<lparr>refcnt := refcnt d - 1\<rparr> in (d, refcnt d = 0) else (d, True))"

definition VictimDirinfo_setBeaconEdgeIdx :: "u32 \<Rightarrow> victim_dirinfo \<Rightarrow> victim_dirinfo" where
  "VictimDirinfo_setBeaconEdgeIdx idx d = d\<lparr>beacon_edge_idx := idx\<rparr>"

definition VictimDirinfo_getDirinfoSetRef :: "victim_dirinfo \<Rightarrow> dirinfo_set exec" where
  "VictimDirinfo_getDirinfoSetRef d = completeE (victim_dirinfo_set d) (Inr (victim_dirinfo_set d))"

definition VictimDirinfo_setDirinfoSet :: "dirinfo_set \<Rightarrow> victim_dirinfo \<Rightarrow> victim_dirinfo exec" where
  "VictimDirinfo_setDirinfoSet s d = completeE s (Inr (d\<lparr>victim_dirinfo_set := s\<rparr>))"

definition VictimDirinfo_updateDirinfoSet :: "bool \<Rightarrow> directory_info \<Rightarrow> victim_dirinfo \<Rightarrow> (victim_dirinfo \<times> bool) exec" where
  "VictimDirinfo_updateDirinfoSet is_admit info d =
     bindE (if is_admit then DirinfoSet_tryToInsertIfComplete (victim_dirinfo_set d) info
            else DirinfoSet_tryToEraseIfComplete (victim_dirinfo_set d) info) (\<lambda>(s, with_complete, is_update).
     assertE with_complete (Inr (d\<lparr>victim_dirinfo_set := s\<rparr>, is_update)))"

definition VictimDirinfo_getSizeForCapacity :: "victim_dirinfo \<Rightarrow> u64 exec" where
  "VictimDirinfo_getSizeForCapacity d =
     completeE (victim_dirinfo_set d) (bindE (DirinfoSet_getSizeForCapacity (victim_dirinfo_set d)) (\<lambda>n. Inr (4 + n)))"

definition VictimDirinfo_dumpVictimDirinfo :: "victim_dirinfo \<Rightarrow> u8 list \<Rightarrow> u8 list exec" where
  "VictimDirinfo_dumpVictimDirinfo d out =
     (let out = fs_write (u32_mem (refcnt d)) out; out = fs_write (u32_mem (beacon_edge_idx d)) out
      in bindE (DirinfoSet_serialize_fs (victim_dirinfo_set d) out) (\<lambda>(out, _). Inr out))"

definition VictimDirinfo_loadVictimDirinfo :: "victim_dirinfo \<Rightarrow> fstream \<Rightarrow> (victim_dirinfo \<times> fstream) exec" where
  "VictimDirinfo_loadVictimDirinfo this fs =
     (let (r, fs) = fs_read (u32_mem (refcnt this)) fs; (b, fs) = fs_read (u32_mem (beacon_edge_idx this)) fs
      in bindE (DirinfoSet_deserialize_fs (victim_dirinfo_set this) fs) (\<lambda>(s, fs, _).
         Inr (\<lparr>refcnt = mem_u32 r, beacon_edge_idx = mem_u32 b, victim_dirinfo_set = s\<rparr>, fs)))"

section \<open>The search as a prefix\<close>

definition bytes_of :: "victim_cacheinfo list \<Rightarrow> nat" where
  "bytes_of vs = (\<Sum>v\<leftarrow>vs. unat (object_size v))"

lemma bytes_of_simps [simp]: "bytes_of [] = 0" "bytes_of (v # vs) = unat (object_size v) + bytes_of vs"
  "bytes_of (us @ vs) = bytes_of us + bytes_of vs"
  by (simp_all add: bytes_of_def)

fun shortest :: "nat \<Rightarrow> victim_cacheinfo list \<Rightarrow> victim_cacheinfo list" where
  "shortest r [] = []"
| "shortest r (v # vs) = v # (if r \<le> unat (object_size v) then [] else shortest (r - unat (object_size v)) vs)"

lemma shortest_prefix:
  assumes "0 < r"
  shows "\<exists>n \<le> length vs. shortest r vs = take n vs \<and> (\<forall>j < n. bytes_of (take j vs) < r) \<and> (n = length vs \<or> r \<le> bytes_of (take n vs))"
  using assms
proof (induction vs arbitrary: r)
  case (Cons v vs)
  show ?case
  proof (cases "r \<le> unat (object_size v)")
    case True
    then show ?thesis using Cons.prems by (intro exI [of _ 1]) simp
  next
    case False
    then obtain n where n: "n \<le> length vs" "shortest (r - unat (object_size v)) vs = take n vs"
      "\<forall>j < n. bytes_of (take j vs) < r - unat (object_size v)" "n = length vs \<or> r - unat (object_size v) \<le> bytes_of (take n vs)"
      using Cons.IH [of "r - unat (object_size v)"] by auto
    have "bytes_of (take j (v # vs)) < r" if "j < Suc n" for j
      using that n(3) False Cons.prems by (cases j) auto
    then show ?thesis using n False by (intro exI [of _ "Suc n"]) auto
  qed
qed simp

lemma shortest_short: "bytes_of vs < r \<Longrightarrow> shortest r vs = vs"
  by (induction vs arbitrary: r) auto

lemma shortest_enough: "r \<le> bytes_of vs \<Longrightarrow> 0 < r \<Longrightarrow> r \<le> bytes_of (shortest r vs)"
proof (induction vs arbitrary: r)
  case (Cons v vs)
  show ?case
  proof (cases "r \<le> unat (object_size v)")
    case False
    then have "r - unat (object_size v) \<le> bytes_of (shortest (r - unat (object_size v)) vs)"
      using Cons.prems by (intro Cons.IH) auto
    then show ?thesis using False by simp
  qed simp
qed simp

lemma bytes_shortest_le: "bytes_of (shortest r vs) \<le> bytes_of vs"
  by (induction vs arbitrary: r) auto

lemma shortest_append:
  "shortest r (us @ vs) = (if r \<le> bytes_of us \<and> us \<noteq> [] then shortest r us else us @ shortest (r - bytes_of us) vs)"
proof (induction us arbitrary: r)
  case (Cons u us)
  show ?case
  proof (cases "us = []")
    case False
    then show ?thesis using Cons [of "r - unat (object_size u)"] by auto
  qed simp
qed simp

abbreviation whole :: "victim_cacheinfo list \<Rightarrow> bool" where
  "whole vs \<equiv> \<forall>v \<in> set vs. dedup_bitmap v = 0"

lemma victim_bytes_whole: "dedup_bitmap v = 0 \<Longrightarrow> victim_bytes v = Inr (ucast (object_size v))"
  by (simp add: victim_bytes_def VictimCacheinfo_getObjectSize_def get_unless_def)

lemma getKey_whole: "dedup_bitmap v = 0 \<Longrightarrow> VictimCacheinfo_getKey v = Inr (victim_key v)"
  by (simp add: VictimCacheinfo_getKey_def)

definition note_all_synced :: "u32 \<Rightarrow> victim_cacheinfo list \<Rightarrow> found_victims \<Rightarrow> found_victims" where
  "note_all_synced e vs f = foldl (\<lambda>f v. note_synced e v (victim_key v) f) f vs"

definition note_all_fetched :: "u32 \<Rightarrow> victim_cacheinfo list \<Rightarrow> found_victims \<Rightarrow> found_victims" where
  "note_all_fetched e vs f = foldl (\<lambda>f v. note_fetched e v (victim_key v) f) f vs"

lemma note_all_simps [simp]:
  "note_all_synced e [] f = f" "note_all_synced e (v # vs) f = note_all_synced e vs (note_synced e v (victim_key v) f)"
  "note_all_fetched e [] f = f" "note_all_fetched e (v # vs) f = note_all_fetched e vs (note_fetched e v (victim_key v) f)"
  by (simp_all add: note_all_synced_def note_all_fetched_def)

lemma unat_saved:
  "unat saved + unat (object_size v) + n < 2 ^ 64 \<Longrightarrow> unat (saved + ucast (object_size v) :: u64) = unat saved + unat (object_size v)"
proof -
  assume a: "unat saved + unat (object_size v) + n < 2 ^ 64"
  have u: "unat (ucast (object_size v) :: u64) = unat (object_size v)" by (rule unat_ucast_u64)
  show ?thesis unfolding u [symmetric] by (rule unat_add_no_wrap) (use a u in simp)
qed

lemma find_synced_loop_eq:
  assumes "whole vs" and "unat saved + bytes_of vs < 2 ^ 64" and "saved < required"
  shows "find_synced_loop e required vs saved f
    = Inr (saved + word_of_nat (bytes_of (shortest (unat required - unat saved) vs)),
           note_all_synced e (shortest (unat required - unat saved) vs) f)"
  using assms
proof (induction vs arbitrary: saved f)
  case (Cons v vs)
  have v: "dedup_bitmap v = 0" using Cons.prems by simp
  let ?s = "saved + ucast (object_size v) :: u64"
  have s: "unat ?s = unat saved + unat (object_size v)" using Cons.prems(2) unat_saved [of saved v "bytes_of vs"] by simp
  have u: "word_of_nat (unat (object_size v)) = (ucast (object_size v) :: u64)" by (rule word_of_unat_u64)
  show ?case
  proof (cases "required \<le> ?s")
    case True
    then have "unat required - unat saved \<le> unat (object_size v)" using s by (simp add: word_le_nat_alt)
    then show ?thesis using True v by (simp add: Let_def victim_bytes_whole getKey_whole u)
  next
    case False
    then have F: "\<not> unat required - unat saved \<le> unat (object_size v)" using s by (simp add: word_le_nat_alt)
    have IH: "find_synced_loop e required vs ?s (note_synced e v (victim_key v) f)
      = Inr (?s + word_of_nat (bytes_of (shortest (unat required - unat ?s) vs)),
           note_all_synced e (shortest (unat required - unat ?s) vs) (note_synced e v (victim_key v) f))"
      by (rule Cons.IH) (use Cons.prems False s in auto)
    have r: "unat required - unat ?s = unat required - unat saved - unat (object_size v)" using s by simp
    show ?thesis using False F v IH by (simp add: Let_def victim_bytes_whole getKey_whole u r add.assoc)
  qed
qed simp

definition not_among :: "key list option \<Rightarrow> victim_cacheinfo list \<Rightarrow> victim_cacheinfo list" where
  "not_among ks vs = filter (\<lambda>v. case ks of None \<Rightarrow> True | Some ks \<Rightarrow> victim_key v \<notin> set ks) vs"

lemma find_extra_loop_eq:
  assumes "whole vs" and "unat saved + bytes_of vs < 2 ^ 64" and "saved < required"
  shows "\<exists>s. find_extra_loop e required ks vs saved f
    = Inr (s, note_all_fetched e (shortest (unat required - unat saved) (not_among ks vs)) f)"
  using assms
proof (induction vs arbitrary: saved f)
  case Nil
  then show ?case by (simp add: not_among_def)
next
  case (Cons v vs)
  have v: "dedup_bitmap v = 0" using Cons.prems by simp
  let ?s = "saved + ucast (object_size v) :: u64"
  have s: "unat ?s = unat saved + unat (object_size v)" using Cons.prems(2) unat_saved [of saved v "bytes_of vs"] by simp
  have among: "(case ks of None \<Rightarrow> False | Some ks \<Rightarrow> list_ex (\<lambda>k. Key_equal k (victim_key v)) ks) \<longleftrightarrow> not_among ks [v] = []"
    by (auto simp: not_among_def list_ex_iff split: option.splits)
  show ?case
  proof (cases "not_among ks [v] = []")
    case True
    moreover have "not_among ks (v # vs) = not_among ks vs" using True by (simp add: not_among_def split: if_splits)
    moreover have "\<exists>s. find_extra_loop e required ks vs saved f
        = Inr (s, note_all_fetched e (shortest (unat required - unat saved) (not_among ks vs)) f)"
      by (rule Cons.IH) (use Cons.prems in auto)
    ultimately show ?thesis using v among by (simp add: Let_def getKey_whole)
  next
    case new: False
    have na: "not_among ks (v # vs) = v # not_among ks vs" using new by (simp add: not_among_def split: if_splits)
    show ?thesis
    proof (cases "required \<le> ?s")
      case True
      then have "unat required - unat saved \<le> unat (object_size v)" using s by (simp add: word_le_nat_alt)
      then show ?thesis using True v new na among by (simp add: Let_def victim_bytes_whole getKey_whole)
    next
      case False
      then have F: "\<not> unat required - unat saved \<le> unat (object_size v)" using s by (simp add: word_le_nat_alt)
      have IH: "\<exists>s. find_extra_loop e required ks vs ?s (note_fetched e v (victim_key v) f)
        = Inr (s, note_all_fetched e (shortest (unat required - unat ?s) (not_among ks vs)) (note_fetched e v (victim_key v) f))"
        by (rule Cons.IH) (use Cons.prems False s in auto)
      have r: "unat required - unat ?s = unat required - unat saved - unat (object_size v)" using s by simp
      show ?thesis using False F v new na among IH by (simp add: Let_def victim_bytes_whole getKey_whole r)
    qed
  qed
qed

definition listed :: "key list option \<Rightarrow> key list" where
  "listed x = (case x of None \<Rightarrow> [] | Some ks \<Rightarrow> ks)"

lemma listed_simps [simp]: "listed None = []" "listed (Some ks) = ks"
  by (simp_all add: listed_def)

lemma note_synced_sel [simp]:
  "peredge_fetched_victimset (note_all_synced e vs f) = peredge_fetched_victimset f"
  "victim_fetch_edgeset (note_all_synced e vs f) = victim_fetch_edgeset f"
  "peredge_synced_victimset (note_all_fetched e vs f) = peredge_synced_victimset f"
  "victim_fetch_edgeset (note_all_fetched e vs f) = victim_fetch_edgeset f"
  by (induction vs arbitrary: f) (simp_all add: note_synced_def note_fetched_def)

lemma synced_all:
  "kv_get l (peredge_synced_victimset (note_all_synced e vs f))
   = (if l = e \<and> vs \<noteq> [] then Some (listed (kv_get e (peredge_synced_victimset f)) @ map victim_key vs)
      else kv_get l (peredge_synced_victimset f))"
  by (induction vs arbitrary: f)
    (auto simp: note_synced_def EdgelevelVictimMetadata_updatePeredgeVictimset_def kv_get_update split: option.splits)

lemma fetched_all:
  "kv_get l (peredge_fetched_victimset (note_all_fetched e vs f))
   = (if l = e \<and> vs \<noteq> [] then Some (listed (kv_get e (peredge_fetched_victimset f)) @ map victim_key vs)
      else kv_get l (peredge_fetched_victimset f))"
  by (induction vs arbitrary: f)
    (auto simp: note_fetched_def EdgelevelVictimMetadata_updatePeredgeVictimset_def kv_get_update split: option.splits)

definition unlisted :: "victim_cacheinfo list \<Rightarrow> victim_cacheinfo list \<Rightarrow> victim_cacheinfo list" where
  "unlisted vs extra = filter (\<lambda>x. victim_key x \<notin> victim_key ` set vs) extra"

text \<open>The whole search: which victims are noted as synchronised, which as fetched, and whether more are asked for.\<close>

definition searched :: "u32 \<Rightarrow> nat \<Rightarrow> victim_cacheinfo list \<Rightarrow> victim_cacheinfo list \<Rightarrow> found_victims \<Rightarrow> found_victims" where
  "searched e r vs extra f =
     (if bytes_of vs < r
      then if extra \<noteq> [] then note_all_fetched e (shortest (r - bytes_of vs) (unlisted vs extra)) (note_all_synced e vs f)
           else (note_all_synced e vs f)\<lparr>victim_fetch_edgeset := victim_fetch_edgeset f @ [e]\<rparr>
      else note_all_synced e (shortest r vs) f)"

lemma findVictims_eq:
  assumes "metadata_valid m" and "whole (victim_cacheinfos m)" and "whole extra"
    and "bytes_of (victim_cacheinfos m) + bytes_of extra < 2 ^ 64"
    and "e \<notin> set (victim_fetch_edgeset f)" and "kv_get e (peredge_synced_victimset f) = None"
  shows "EdgelevelVictimMetadata_findVictimsForObjectSize e sz extra m f
    = Inr (if unat (metadata_margin_bytes m) < unat sz
           then searched e (unat sz - unat (metadata_margin_bytes m)) (victim_cacheinfos m) extra f else f)"
proof -
  let ?vs = "victim_cacheinfos m" and ?M = "metadata_margin_bytes m"
  have lt: "?M < ucast sz \<longleftrightarrow> unat ?M < unat sz" by (simp add: word_less_nat_alt unat_ucast_u64)
  show ?thesis
  proof (cases "unat ?M < unat sz")
    case True
    define req where "req = (ucast sz - ?M :: u64)"
    have req: "unat req = unat sz - unat ?M" using True lt by (simp add: req_def unat_sub word_less_nat_alt word_le_nat_alt unat_ucast_u64)
    define s where "s = (word_of_nat (bytes_of (shortest (unat req) ?vs)) :: u64)"
    have pos: "0 < unat req" using True req by simp
    have loop: "find_synced_loop e req ?vs 0 f = Inr (s, note_all_synced e (shortest (unat req) ?vs) f)"
      using find_synced_loop_eq [OF assms(2), of 0 req e f] assms(4) pos by (simp add: s_def word_less_nat_alt)
    have s: "unat s = bytes_of (shortest (unat req) ?vs)"
      unfolding s_def using bytes_shortest_le [of "unat req" ?vs] assms(4) by (intro unat_of_nat_small) simp
    have short: "s < req \<longleftrightarrow> bytes_of ?vs < unat req"
      using shortest_short [of ?vs "unat req"] shortest_enough [of "unat req" ?vs] pos s
      by (cases "bytes_of ?vs < unat req") (simp_all add: word_less_nat_alt not_less)
    show ?thesis
    proof (cases "bytes_of ?vs < unat req")
      case F: False
      then show ?thesis using True lt loop short req assms(1)
        by (simp add: EdgelevelVictimMetadata_findVictimsForObjectSize_def EdgelevelVictimMetadata_checkValidity_def Let_def searched_def
            flip: req_def)
    next
      case T: True
      let ?f = "note_all_synced e ?vs f"
      have all: "shortest (unat req) ?vs = ?vs" by (rule shortest_short [OF T])
      obtain s' where extra: "find_extra_loop e req (kv_get e (peredge_synced_victimset ?f)) extra s ?f
          = Inr (s', note_all_fetched e (shortest (unat req - unat s) (not_among (kv_get e (peredge_synced_victimset ?f)) extra)) ?f)"
        using find_extra_loop_eq [OF assms(3), of s req e "kv_get e (peredge_synced_victimset ?f)" ?f] assms(4) T s short all by auto
      have "not_among (kv_get e (peredge_synced_victimset ?f)) extra = unlisted ?vs extra"
        using assms(6) by (simp add: not_among_def unlisted_def synced_all)
      then show ?thesis using True T lt loop short req assms(1,5) all extra s
        by (simp add: EdgelevelVictimMetadata_findVictimsForObjectSize_def EdgelevelVictimMetadata_checkValidity_def Let_def searched_def
            Edgeset_insert_def flip: req_def)
    qed
  next
    case False
    then show ?thesis using assms(1) lt
      by (simp add: EdgelevelVictimMetadata_findVictimsForObjectSize_def EdgelevelVictimMetadata_checkValidity_def Let_def)
  qed
qed

lemma shortest_split:
  assumes "0 < r" and "n \<le> length (us @ ws)" and "shortest r (us @ ws) = take n (us @ ws)"
  shows "take n us = (if bytes_of us < r then us else shortest r us)"
    and "drop (length us) (take n (us @ ws)) = (if bytes_of us < r then shortest (r - bytes_of us) ws else [])"
proof -
  have "take n us = (if bytes_of us < r then us else shortest r us)
    \<and> drop (length us) (take n (us @ ws)) = (if bytes_of us < r then shortest (r - bytes_of us) ws else [])"
  proof (cases "bytes_of us < r")
    case True
    then have eq: "take n (us @ ws) = us @ shortest (r - bytes_of us) ws" using assms(3) by (simp add: shortest_append)
    then have "length us \<le> length (take n (us @ ws))" by simp
    then have "length us \<le> n" by simp
    then show ?thesis using True eq by simp
  next
    case False
    then have "us \<noteq> []" using assms(1) by auto
    then have eq: "take n (us @ ws) = shortest r us" using assms(3) False by (simp add: shortest_append)
    obtain k where k: "k \<le> length us" "shortest r us = take k us" using shortest_prefix [OF assms(1), of us] by blast
    have "length (take n (us @ ws)) = n" using assms(2) by (simp only: length_take min_absorb2)
    moreover have "length (take n (us @ ws)) = k" using eq k by (simp only: length_take min_absorb2)
    ultimately have "n = k" by simp
    then show ?thesis using False k by simp
  qed
  then show "take n us = (if bytes_of us < r then us else shortest r us)"
    and "drop (length us) (take n (us @ ws)) = (if bytes_of us < r then shortest (r - bytes_of us) ws else [])" by blast+
qed

text \<open>C24: The search for victims takes exactly what is needed. Let \<open>xs\<close> be the victims of the edge node followed by the
  extra victims that are not among them. The search returns, and the victims it notes for the edge node are
  a prefix of \<open>xs\<close> (the first part as synchronised, the rest as fetched): with fewer of them the cache margin would not be
  large enough for the object, and with all of them it is, unless \<open>xs\<close> is used up. The edge node is asked for more victims exactly when
  its own do not suffice and no extra ones were passed.\<close>

theorem find_victims_minimal:
  assumes "metadata_valid m" and "whole (victim_cacheinfos m)" and "whole extra"
    and "bytes_of (victim_cacheinfos m) + bytes_of extra < 2 ^ 64"
    and "e \<notin> set (victim_fetch_edgeset f)" and "kv_get e (peredge_synced_victimset f) = None" and "kv_get e (peredge_fetched_victimset f) = None"
  shows "\<exists>f' n xs. EdgelevelVictimMetadata_findVictimsForObjectSize e sz extra m f = Inr f'
    \<and> xs = victim_cacheinfos m @ filter (\<lambda>x. victim_key x \<notin> victim_key ` set (victim_cacheinfos m)) extra
    \<and> n \<le> length xs \<and> (\<forall>j < n. unat (metadata_margin_bytes m) + bytes_of (take j xs) < unat sz)
    \<and> (unat sz \<le> unat (metadata_margin_bytes m) + bytes_of (take n xs) \<or> n = length xs)
    \<and> listed (kv_get e (peredge_synced_victimset f')) = map victim_key (take n (victim_cacheinfos m))
    \<and> listed (kv_get e (peredge_fetched_victimset f')) = map victim_key (drop (length (victim_cacheinfos m)) (take n xs))
    \<and> (e \<in> set (victim_fetch_edgeset f') \<longleftrightarrow> extra = [] \<and> unat (metadata_margin_bytes m) + bytes_of (victim_cacheinfos m) < unat sz)"
proof -
  let ?vs = "victim_cacheinfos m" and ?M = "unat (metadata_margin_bytes m)"
  let ?xs = "?vs @ unlisted ?vs extra" and ?r = "unat sz - ?M"
  note eq = findVictims_eq [OF assms(1-6), of sz]
  show ?thesis
  proof (cases "?M < unat sz")
    case False
    then show ?thesis using eq assms(5-7) by (intro exI [of _ f] exI [of _ 0] exI [of _ ?xs]) (simp add: unlisted_def)
  next
    case True
    obtain n where n: "n \<le> length ?xs" "shortest ?r ?xs = take n ?xs" "\<forall>j < n. bytes_of (take j ?xs) < ?r"
      "n = length ?xs \<or> ?r \<le> bytes_of (take n ?xs)"
      using shortest_prefix [of ?r ?xs] True by auto
    have c: "\<forall>j < n. ?M + bytes_of (take j ?xs) < unat sz" "unat sz \<le> ?M + bytes_of (take n ?xs) \<or> n = length ?xs"
      using n(3,4) True by force+
    let ?f = "searched e ?r ?vs extra f"
    have "take n ?vs = (if bytes_of ?vs < ?r then ?vs else shortest ?r ?vs)"
      and "drop (length ?vs) (take n ?xs) = (if bytes_of ?vs < ?r then shortest (?r - bytes_of ?vs) (unlisted ?vs extra) else [])"
      using shortest_split [OF _ n(1,2)] True by simp_all
    then have l: "listed (kv_get e (peredge_synced_victimset ?f)) = map victim_key (take n ?vs)"
       "listed (kv_get e (peredge_fetched_victimset ?f)) = map victim_key (drop (length ?vs) (take n ?xs))"
       "e \<in> set (victim_fetch_edgeset ?f) \<longleftrightarrow> extra = [] \<and> ?M + bytes_of ?vs < unat sz"
      using assms(5-7) True by (auto simp: searched_def synced_all fetched_all unlisted_def)
    show ?thesis using eq True n(1) c l
      by (intro exI [of _ ?f] exI [of _ n] exI [of _ ?xs]) (simp add: unlisted_def)
  qed
qed

definition sized_victim :: "u8 \<Rightarrow> u32 \<Rightarrow> victim_cacheinfo" where
  "sized_victim k sz = VictimCacheinfo_new 0 (Key [k]) sz 0 0 0"

definition example_metadata :: edgelevel_victim_metadata where
  "example_metadata = \<lparr>metadata_valid = True, metadata_margin_bytes = 5, victim_cacheinfos = [sized_victim 1 10, sized_victim 2 20]\<rparr>"

definition no_victims :: found_victims where
  "no_victims = \<lparr>pervictim_edgeset = [], pervictim_cacheinfos = [], peredge_synced_victimset = [], peredge_fetched_victimset = [],
     victim_fetch_edgeset = []\<rparr>"

lemma sized_victim_sel [simp]: "dedup_bitmap (sized_victim k sz) = 0" "object_size (sized_victim k sz) = sz" "victim_key (sized_victim k sz) = Key [k]"
  by (simp_all add: sized_victim_def VictimCacheinfo_new_def VictimCacheinfo_COMPLETE_BITMAP_def)

theorem find_victims_minimal_witness:
  "\<exists>f' n xs. EdgelevelVictimMetadata_findVictimsForObjectSize 3 40 [sized_victim 2 20, sized_victim 7 9] example_metadata no_victims = Inr f'
    \<and> xs = victim_cacheinfos example_metadata
        @ filter (\<lambda>x. victim_key x \<notin> victim_key ` set (victim_cacheinfos example_metadata)) [sized_victim 2 20, sized_victim 7 9]
    \<and> n \<le> length xs \<and> (\<forall>j < n. unat (metadata_margin_bytes example_metadata) + bytes_of (take j xs) < unat (40 :: u32))
    \<and> (unat (40 :: u32) \<le> unat (metadata_margin_bytes example_metadata) + bytes_of (take n xs) \<or> n = length xs)
    \<and> listed (kv_get 3 (peredge_synced_victimset f')) = map victim_key (take n (victim_cacheinfos example_metadata))
    \<and> listed (kv_get 3 (peredge_fetched_victimset f')) = map victim_key (drop (length (victim_cacheinfos example_metadata)) (take n xs))
    \<and> (3 \<in> set (victim_fetch_edgeset f') \<longleftrightarrow> [sized_victim 2 20, sized_victim 7 9] = []
        \<and> unat (metadata_margin_bytes example_metadata) + bytes_of (victim_cacheinfos example_metadata) < unat (40 :: u32))"
  by (rule find_victims_minimal) (simp_all add: example_metadata_def no_victims_def kv_get_eq)

end
