(* ===== verification/Covered_Cooperation.thy ===== *)
theory Covered_Cooperation
  imports Cooperation_Wrapper Victim_Metadata
begin

text \<open>
  \<open>CoveredCooperationWrapper\<close> (\<open>src/src/cooperation/covered_cooperation_wrapper.c\<close>): the cooperation wrapper of COVERED adds
  one service to the state of \<open>CooperationWrapperBase\<close>, the directory information of those victims for which this edge
  node is the beacon. It is called by name through a parameter object; asking for a name with the parameter of the
  other is a cast to the wrong type.
\<close>

definition GET_FROM_VICTIM_SYNCSET_FUNCNAME :: string where
  "GET_FROM_VICTIM_SYNCSET_FUNCNAME = ''get_local_beaconed_victims_from_victim_syncset''"

definition GET_FROM_CACHEINFOS_FUNCNAME :: string where
  "GET_FROM_CACHEINFOS_FUNCNAME = ''get_local_beaconed_victims_from_cacheinfos''"

datatype coop_custom_param =
    GetLocalBeaconedVictimsFromVictimSyncsetFuncParam victim_syncset "(key \<times> dirinfo_set) list"
  | GetLocalBeaconedVictimsFromCacheinfosParam "victim_cacheinfo list" "(key \<times> dirinfo_set) list"

text \<open>The beacon of a victim: the one in its cacheinfo, or else the one of the hash ring.\<close>

definition victim_beacon :: "('m, 'g) cooperation_wrapper \<Rightarrow> victim_cacheinfo \<Rightarrow> key \<Rightarrow> u32 exec" where
  "victim_beacon w v key = bindE (VictimCacheinfo_getBeaconEdgeidx v) (\<lambda>b.
     case b of Some i \<Rightarrow> Inr i | None \<Rightarrow> CooperationWrapperBase_getBeaconEdgeIdx w key)"

fun CoveredCooperationWrapper_getLocalBeaconedVictimsFromCacheinfosInternal ::
    "('m, 'z) lock_env_scheme \<Rightarrow> victim_cacheinfo list \<Rightarrow> ('m, 'g) cooperation_wrapper \<Rightarrow> (key \<times> dirinfo_set) list
     \<Rightarrow> (('m, 'g) cooperation_wrapper \<times> (key \<times> dirinfo_set) list) exec" where
  "CoveredCooperationWrapper_getLocalBeaconedVictimsFromCacheinfosInternal env [] w sets = Inr (w, sets)"
| "CoveredCooperationWrapper_getLocalBeaconedVictimsFromCacheinfosInternal env (v # vs) w sets =
     assertE (\<not> VictimCacheinfo_isInvalid v) (
     bindE (VictimCacheinfo_isFullyDeduped v) (\<lambda>full. assertE (\<not> full) (
     bindE (VictimCacheinfo_isStale v) (\<lambda>stale.
     if stale then CoveredCooperationWrapper_getLocalBeaconedVictimsFromCacheinfosInternal env vs w sets
     else bindE (VictimCacheinfo_getKey v) (\<lambda>key.
     bindE (victim_beacon w v key) (\<lambda>beacon.
     if beacon = coop_edge_idx w
     then bindE (CooperationWrapperBase_getLocalDirectoryInfos env w key) (\<lambda>(w, s).
          completeE s
            (CoveredCooperationWrapper_getLocalBeaconedVictimsFromCacheinfosInternal env vs w (sets @ [(key, s)])))
     else CoveredCooperationWrapper_getLocalBeaconedVictimsFromCacheinfosInternal env vs w sets))))))"

definition CoveredCooperationWrapper_getLocalBeaconedVictimsFromVictimSyncsetInternal ::
    "('m, 'z) lock_env_scheme \<Rightarrow> victim_syncset \<Rightarrow> ('m, 'g) cooperation_wrapper \<Rightarrow> (key \<times> dirinfo_set) list
     \<Rightarrow> (('m, 'g) cooperation_wrapper \<times> (key \<times> dirinfo_set) list) exec" where
  "CoveredCooperationWrapper_getLocalBeaconedVictimsFromVictimSyncsetInternal env s w sets =
     bindE (VictimSyncset_getLocalSyncedVictimsPtr (is_assert env) s) (\<lambda>(_, vs).
     CoveredCooperationWrapper_getLocalBeaconedVictimsFromCacheinfosInternal env vs w sets)"

definition CoveredCooperationWrapper_customFunc ::
    "string \<Rightarrow> coop_custom_param \<Rightarrow> (('m, 'g) cooperation_wrapper \<times> coop_custom_param) exec" where
  "CoveredCooperationWrapper_customFunc funcname param = Inl Exited"

definition CoveredCooperationWrapper_constCustomFunc ::
    "('m, 'z) lock_env_scheme \<Rightarrow> ('m, 'g) cooperation_wrapper \<Rightarrow> string \<Rightarrow> coop_custom_param
     \<Rightarrow> (('m, 'g) cooperation_wrapper \<times> coop_custom_param) exec" where
  "CoveredCooperationWrapper_constCustomFunc env w funcname param =
     (if funcname = GET_FROM_VICTIM_SYNCSET_FUNCNAME
      then case param of
          GetLocalBeaconedVictimsFromVictimSyncsetFuncParam s sets \<Rightarrow>
            bindE (CoveredCooperationWrapper_getLocalBeaconedVictimsFromVictimSyncsetInternal env s w sets)
              (\<lambda>(w, sets). Inr (w, GetLocalBeaconedVictimsFromVictimSyncsetFuncParam s sets))
        | _ \<Rightarrow> Inl Undefined
      else if funcname = GET_FROM_CACHEINFOS_FUNCNAME
      then case param of
          GetLocalBeaconedVictimsFromCacheinfosParam vs sets \<Rightarrow>
            bindE (CoveredCooperationWrapper_getLocalBeaconedVictimsFromCacheinfosInternal env vs w sets)
              (\<lambda>(w, sets). Inr (w, GetLocalBeaconedVictimsFromCacheinfosParam vs sets))
        | _ \<Rightarrow> Inl Undefined
      else Inl Exited)"

text \<open>What the tracker does with it: call it and take the sets out of the parameter.\<close>

definition local_beaconed_sets ::
    "('m, 'z) lock_env_scheme \<Rightarrow> ('m, 'g) cooperation_wrapper \<Rightarrow> victim_cacheinfo list
     \<Rightarrow> (('m, 'g) cooperation_wrapper \<times> (key \<times> dirinfo_set) list) exec" where
  "local_beaconed_sets env w vs =
     bindE (CoveredCooperationWrapper_constCustomFunc env w GET_FROM_CACHEINFOS_FUNCNAME
              (GetLocalBeaconedVictimsFromCacheinfosParam vs [])) (\<lambda>(w, param).
     case param of
       GetLocalBeaconedVictimsFromCacheinfosParam _ sets \<Rightarrow> assertE (length sets \<le> length vs) (Inr (w, sets))
     | _ \<Rightarrow> Inl Undefined)"

end
