(* ===== verification/Float_Arith.thy ===== *)
theory Float_Arith
  imports Float_Compare
begin

text \<open>
  Single-precision arithmetic of popularities and rewards on bit patterns, with the checks of \<open>src/src/common/util.c\<close>
  (\<open>popularityAdd\<close> and its kin exit when an operand or the result is not finite). An exact result is a ratio of
  integers in units of \<open>2 ^ (- 149)\<close>; it is rounded to 24 bits, ties to even. Since a pattern of exponent \<open>s + 1\<close> and
  fraction \<open>q - 2 ^ 23\<close> is the number \<open>s * 2 ^ 23 + q\<close>, and the same holds for subnormal numbers with \<open>s = 0\<close>, a carry out of
  the fraction needs no case of its own, and everything from the pattern of infinity on is infinity. NaN results are the
  default quiet pattern.
\<close>

section \<open>Rounding\<close>

definition round_bits :: "int \<Rightarrow> int \<Rightarrow> int" where
  "round_bits n d =
     (let s = nat (bitlen (n div d) - 24); u = d * 2 ^ s; q = n div u; r = n mod u;
          q = (if u < 2 * r \<or> u = 2 * r \<and> odd q then q + 1 else q)
      in min (255 * 2 ^ 23) (int s * 2 ^ 23 + q))"

definition f32_round :: "bool \<Rightarrow> int \<Rightarrow> int \<Rightarrow> u32" where
  "f32_round negative n d = word_of_int ((if negative then 2 ^ 31 else 0) + round_bits n d)"

definition f32_NaN :: u32 where
  "f32_NaN = 0xFFC00000"

section \<open>The four operations\<close>

definition f32_signed :: "bool \<Rightarrow> int \<Rightarrow> int \<Rightarrow> u32" where
  "f32_signed zero_negative n d = (if n = 0 then f32_round zero_negative 0 1 else f32_round (n < 0) \<bar>n\<bar> d)"

definition f32_neg :: "u32 \<Rightarrow> u32" where
  "f32_neg x = x XOR 0x80000000"

definition f32_add :: "u32 \<Rightarrow> u32 \<Rightarrow> u32" where
  "f32_add x y =
     (case (f32_val x, f32_val y) of
        (NaN, _) \<Rightarrow> f32_NaN | (_, NaN) \<Rightarrow> f32_NaN
      | (Inf s, Inf t) \<Rightarrow> if s = t then x else f32_NaN
      | (Inf s, Fin _) \<Rightarrow> x | (Fin _, Inf t) \<Rightarrow> y
      | (Fin m, Fin n) \<Rightarrow> f32_signed (f32_negative x \<and> f32_negative y) (m + n) 1)"

definition f32_minus :: "u32 \<Rightarrow> u32 \<Rightarrow> u32" where
  "f32_minus x y = f32_add x (f32_neg y)"

definition f32_infinity :: "bool \<Rightarrow> u32" where
  "f32_infinity negative = (if negative then 0xFF800000 else 0x7F800000)"

text \<open>A product of two units is \<open>2 ^ (- 298)\<close>.\<close>

definition f32_mult :: "u32 \<Rightarrow> u32 \<Rightarrow> u32" where
  "f32_mult x y =
     (let neg = (f32_negative x \<noteq> f32_negative y)
      in case (f32_val x, f32_val y) of
           (NaN, _) \<Rightarrow> f32_NaN | (_, NaN) \<Rightarrow> f32_NaN
         | (Inf s, Inf t) \<Rightarrow> f32_infinity neg
         | (Inf s, Fin n) \<Rightarrow> if n = 0 then f32_NaN else f32_infinity neg
         | (Fin m, Inf t) \<Rightarrow> if m = 0 then f32_NaN else f32_infinity neg
         | (Fin m, Fin n) \<Rightarrow> f32_round neg \<bar>m * n\<bar> (2 ^ 149))"

definition f32_div :: "u32 \<Rightarrow> u32 \<Rightarrow> u32" where
  "f32_div x y =
     (let neg = (f32_negative x \<noteq> f32_negative y)
      in case (f32_val x, f32_val y) of
           (NaN, _) \<Rightarrow> f32_NaN | (_, NaN) \<Rightarrow> f32_NaN
         | (Inf s, Inf t) \<Rightarrow> f32_NaN
         | (Inf s, Fin n) \<Rightarrow> f32_infinity neg
         | (Fin m, Inf t) \<Rightarrow> f32_round neg 0 1
         | (Fin m, Fin n) \<Rightarrow>
             if n = 0 then if m = 0 then f32_NaN else f32_infinity neg
             else f32_round neg (\<bar>m\<bar> * 2 ^ 149) \<bar>n\<bar>)"

text \<open>The conversion of a \<open>uint32_t\<close>.\<close>

definition f32_of_u32 :: "u32 \<Rightarrow> u32" where
  "f32_of_u32 n = f32_round False (uint n * 2 ^ 149) 1"

section \<open>Checked arithmetic\<close>

definition Util_assertPopularity :: "u32 \<Rightarrow> 'a exec \<Rightarrow> 'a exec" where
  "Util_assertPopularity a k = exit_ifE (\<not> f32_finite a) k"

definition Util_popularityDivide :: "u32 \<Rightarrow> u32 \<Rightarrow> u32 exec" where
  "Util_popularityDivide a b =
     Util_assertPopularity a (Util_assertPopularity b (let c = f32_div a b in Util_assertPopularity c (Inr c)))"

definition Util_popularityNonegMinus :: "u32 \<Rightarrow> u32 \<Rightarrow> u32 exec" where
  "Util_popularityNonegMinus a b =
     Util_assertPopularity a (Util_assertPopularity b (
     let c = f32_minus a b
     in Util_assertPopularity c (
        let c = (if fval_less (f32_val c) (Fin 0) then 0 else c)
        in assertE (fval_le (Fin 0) (f32_val c)) (Inr c))))"

definition Util_popularityAbsMinus :: "u32 \<Rightarrow> u32 \<Rightarrow> u32 exec" where
  "Util_popularityAbsMinus a b =
     Util_assertPopularity a (Util_assertPopularity b (
     let c = (if fval_le (f32_val b) (f32_val a) then f32_minus a b else f32_minus b a)
     in Util_assertPopularity c (assertE (fval_le (Fin 0) (f32_val c)) (Inr c))))"

definition Util_popularityMultiply :: "u32 \<Rightarrow> u32 \<Rightarrow> u32 exec" where
  "Util_popularityMultiply a b =
     Util_assertPopularity a (Util_assertPopularity b (let c = f32_mult a b in Util_assertPopularity c (Inr c)))"

definition Util_popularityAdd :: "u32 \<Rightarrow> u32 \<Rightarrow> u32 exec" where
  "Util_popularityAdd a b =
     Util_assertPopularity a (Util_assertPopularity b (let c = f32_add a b in Util_assertPopularity c (Inr c)))"

text \<open>What comes back is finite, and so were the operands.\<close>

lemma assertPopularity_eq_Inr [exec_inv]: "Util_assertPopularity a k = Inr x \<longleftrightarrow> f32_finite a \<and> k = Inr x"
  by (simp add: Util_assertPopularity_def exit_ifE_eq_Inr)

lemma popularityAdd_eq_Inr [exec_inv]:
  "Util_popularityAdd a b = Inr c \<longleftrightarrow> f32_finite a \<and> f32_finite b \<and> f32_finite c \<and> c = f32_add a b"
  by (auto simp: Util_popularityAdd_def assertPopularity_eq_Inr Let_def)

lemma popularityMultiply_eq_Inr [exec_inv]:
  "Util_popularityMultiply a b = Inr c \<longleftrightarrow> f32_finite a \<and> f32_finite b \<and> f32_finite c \<and> c = f32_mult a b"
  by (auto simp: Util_popularityMultiply_def assertPopularity_eq_Inr Let_def)

section \<open>Correct rounding\<close>

text \<open>The rounded number is a nearest one: no farther from the exact ratio than half a unit in the last place of
  24 bits.\<close>

definition round_scaled :: "int \<Rightarrow> int \<Rightarrow> int" where
  "round_scaled n d =
     (let s = nat (bitlen (n div d) - 24); u = d * 2 ^ s; q = n div u; r = n mod u;
          q = (if u < 2 * r \<or> u = 2 * r \<and> odd q then q + 1 else q)
      in q * 2 ^ s)"

definition round_shift :: "int \<Rightarrow> int \<Rightarrow> nat" where
  "round_shift n d = nat (bitlen (n div d) - 24)"

definition round_quot :: "int \<Rightarrow> int \<Rightarrow> int" where
  "round_quot n u = (let q = n div u; r = n mod u in if u < 2 * r \<or> u = 2 * r \<and> odd q then q + 1 else q)"

lemma round_bits_alt:
  "round_bits n d = min (255 * 2 ^ 23) (int (round_shift n d) * 2 ^ 23 + round_quot n (d * 2 ^ round_shift n d))"
  by (simp add: round_bits_def round_shift_def round_quot_def Let_def)

lemma round_scaled_alt: "round_scaled n d = round_quot n (d * 2 ^ round_shift n d) * 2 ^ round_shift n d"
  by (simp add: round_scaled_def round_shift_def round_quot_def Let_def)

lemma round_quot_near:
  assumes "0 < u"
  shows "2 * \<bar>round_quot n u * u - n\<bar> \<le> u"
proof -
  define q r where "q = n div u" and "r = n mod u"
  have n: "n = q * u + r" by (simp add: q_def r_def)
  have r: "0 \<le> r" "r < u" using assms by (simp_all add: r_def)
  have "round_quot n u = (if u < 2 * r \<or> u = 2 * r \<and> odd q then q + 1 else q)"
    by (simp add: round_quot_def q_def r_def Let_def)
  moreover have "(q + 1) * u - n = u - r" "q * u - n = - r" using n by (simp_all add: algebra_simps)
  ultimately show ?thesis using r by auto
qed

lemma round_quot_bounds:
  assumes "0 < d" and "0 \<le> n"
  shows "0 \<le> round_quot n (d * 2 ^ round_shift n d)" and "round_quot n (d * 2 ^ round_shift n d) \<le> 2 ^ 24"
    and "0 < round_shift n d \<Longrightarrow> 2 ^ 23 \<le> n div (d * 2 ^ round_shift n d)"
proof -
  let ?s = "round_shift n d" and ?q0 = "n div d"
  define q where "q = n div (d * 2 ^ ?s)"
  have q: "q = ?q0 div 2 ^ ?s" using assms by (simp add: q_def zdiv_zmult2_eq)
  have q0: "0 \<le> ?q0" using assms by (simp add: pos_imp_zdiv_nonneg_iff)
  have "bitlen ?q0 \<le> 24 + int ?s" by (simp add: round_shift_def)
  then have "?q0 < 2 ^ (24 + ?s)" using q0 by (simp add: bitlen_le_iff_power nat_add_distrib)
  moreover have "0 \<le> ?q0 mod 2 ^ ?s" by simp
  then have "q * 2 ^ ?s \<le> ?q0" unfolding q using div_mult_mod_eq [of ?q0 "2 ^ ?s"] by linarith
  ultimately have "q * 2 ^ ?s < 2 ^ 24 * 2 ^ ?s" unfolding power_add by linarith
  then have up: "q < 2 ^ 24" by simp
  have low: "0 \<le> q" using q q0 by (simp add: pos_imp_zdiv_nonneg_iff)
  have "round_quot n (d * 2 ^ ?s) \<in> {q, q + 1}" by (simp add: round_quot_def q_def Let_def)
  then show "0 \<le> round_quot n (d * 2 ^ ?s)" and "round_quot n (d * 2 ^ ?s) \<le> 2 ^ 24" using up low by auto
  show "2 ^ 23 \<le> n div (d * 2 ^ ?s)" if "0 < ?s"
  proof -
    have b: "bitlen ?q0 = 24 + int ?s" using that by (simp add: round_shift_def)
    then have "?q0 \<noteq> 0" by auto
    then have "2 ^ nat (bitlen ?q0 - 1) \<le> ?q0" using bitlen_bounds [of ?q0] q0 by simp
    moreover have "nat (bitlen ?q0 - 1) = 23 + ?s" using b by simp
    ultimately have "2 ^ 23 * 2 ^ ?s \<le> ?q0" by (simp add: power_add)
    then have "2 ^ 23 * 2 ^ ?s div 2 ^ ?s \<le> ?q0 div 2 ^ ?s" by (intro zdiv_mono1) simp_all
    then show ?thesis using q by (simp add: q_def)
  qed
qed

lemma round_quot_large:
  assumes "0 < d" and "0 \<le> n" and "0 < round_shift n d"
  shows "2 ^ 23 \<le> round_quot n (d * 2 ^ round_shift n d)"
  using round_quot_bounds(3) [OF assms] by (auto simp: round_quot_def Let_def)

lemma uint_word_of_int_small: "0 \<le> v \<Longrightarrow> v < 2 ^ 32 \<Longrightarrow> uint (word_of_int v :: u32) = v"
  by (simp add: unsigned_of_int take_bit_int_eq_self)

text \<open>Reading a pattern back.\<close>

lemma f32_val_pattern:
  assumes "0 \<le> q" and "q \<le> 2 ^ 24" and "0 < s \<Longrightarrow> 2 ^ 23 \<le> q" and "int s * 2 ^ 23 + q < 255 * 2 ^ 23"
  shows "f32_val (word_of_int ((if neg then 2 ^ 31 else 0) + (int s * 2 ^ 23 + q))) = Fin ((if neg then - 1 else 1) * (q * 2 ^ s))"
proof -
  let ?B = "int s * 2 ^ 23 + q"
  let ?w = "word_of_int ((if neg then 2 ^ 31 else 0) + ?B) :: u32"
  have w: "uint ?w = (if neg then 2 ^ 31 else 0) + ?B"
    by (rule uint_word_of_int_small) (use assms in auto)
  have neg: "f32_negative ?w = neg" using w assms by (simp add: f32_negative_def)
  have k: "uint ?w = q + 2 ^ 23 * (int s + (if neg then 2 ^ 8 else 0))" unfolding w by simp
  have frac: "f32_fraction ?w = q mod 2 ^ 23" unfolding f32_fraction_def k by (rule mod_mult_self2)
  have e: "uint ?w div 2 ^ 23 = (int s + (if neg then 2 ^ 8 else 0)) + q div 2 ^ 23"
    unfolding k by (rule div_mult_self2) simp
  have "int s + q div 2 ^ 23 < 255" "0 \<le> int s + q div 2 ^ 23"
    using zdiv_mono1 [OF less_imp_le, of "int s * 2 ^ 23 + q" "255 * 2 ^ 23 - 1" "2 ^ 23"] assms by (simp_all add: pos_imp_zdiv_nonneg_iff)
  moreover have "(int s + 2 ^ 8 + q div 2 ^ 23) mod 2 ^ 8 = (int s + q div 2 ^ 23) mod 2 ^ 8"
    using mod_add_self1 [of "2 ^ 8 :: int" "int s + q div 2 ^ 23"] by (simp only: ac_simps)
  ultimately have expo: "f32_exponent ?w = int s + q div 2 ^ 23" unfolding f32_exponent_def e by (cases neg) simp_all
  consider "s = 0" "q < 2 ^ 23" | "2 ^ 23 \<le> q" "q < 2 ^ 24" | "q = 2 ^ 24" using assms by force
  then show ?thesis
  proof cases
    case 1
    then have "q div 2 ^ 23 = 0" "q mod 2 ^ 23 = q" using assms(1) by simp_all
    then show ?thesis using 1 neg frac expo by (simp add: f32_val_def Let_def)
  next
    case 2
    then have "q div 2 ^ 23 = 1" "q mod 2 ^ 23 = q - 2 ^ 23"
      using int_div_pos_eq [of q "2 ^ 23" 1 "q - 2 ^ 23"] int_mod_pos_eq [of q "2 ^ 23" 1 "q - 2 ^ 23"] by simp_all
    then show ?thesis using assms(4) 2 neg frac expo by (simp add: f32_val_def Let_def)
  next
    case 3
    then show ?thesis using assms(4) neg frac expo by (simp add: f32_val_def Let_def nat_add_distrib)
  qed
qed

theorem f32_round_val:
  assumes "0 < d" and "0 \<le> n"
  shows "f32_val (f32_round neg n d)
    = (if round_scaled n d < 2 ^ 277 then Fin ((if neg then - 1 else 1) * round_scaled n d) else Inf neg)"
proof -
  define s q where "s = round_shift n d" and "q = round_quot n (d * 2 ^ s)"
  note b = round_quot_bounds(1,2) [OF assms] round_quot_large [OF assms]
  have q: "0 \<le> q" "q \<le> 2 ^ 24" "0 < s \<Longrightarrow> 2 ^ 23 \<le> q" using b by (simp_all add: s_def q_def)
  have bits: "round_bits n d = min (255 * 2 ^ 23) (int s * 2 ^ 23 + q)" by (simp add: round_bits_alt s_def q_def)
  have rs: "round_scaled n d = q * 2 ^ s" by (simp add: round_scaled_alt s_def q_def)
  have iff: "q * 2 ^ s < 2 ^ 277 \<longleftrightarrow> int s * 2 ^ 23 + q < 255 * 2 ^ 23"
  proof (cases "s \<le> 252")
    case True
    have "q * 2 ^ s \<le> 2 ^ 24 * 2 ^ 252" using q True by (intro mult_mono power_increasing) simp_all
    moreover have "(2 :: int) ^ 24 * 2 ^ 252 < 2 ^ 277" by simp
    ultimately have "q * 2 ^ s < 2 ^ 277" by (rule le_less_trans)
    moreover have "int s * 2 ^ 23 + q < 255 * 2 ^ 23" using True q(2) by simp
    ultimately show ?thesis by blast
  next
    case False
    show ?thesis
    proof (cases "s = 253")
      case True
      have "q * 2 ^ s < 2 ^ 277 \<longleftrightarrow> q * 2 ^ 253 < 2 ^ 24 * 2 ^ 253" using True by (simp only: flip: power_add) simp
      also have "\<dots> \<longleftrightarrow> q < 2 ^ 24" by simp
      finally show ?thesis using True by simp
    next
      case False
      with \<open>\<not> s \<le> 252\<close> have "254 \<le> s" by simp
      then have "2 ^ 23 * 2 ^ 254 \<le> q * 2 ^ s" using q by (intro mult_mono power_increasing) simp_all
      moreover have "(2 :: int) ^ 23 * 2 ^ 254 = 2 ^ 277" by simp
      ultimately have "\<not> q * 2 ^ s < 2 ^ 277" by simp
      moreover have "2 ^ 23 \<le> q" using q(3) \<open>254 \<le> s\<close> by simp
      then have "\<not> int s * 2 ^ 23 + q < 255 * 2 ^ 23" using \<open>254 \<le> s\<close> by simp
      ultimately show ?thesis by blast
    qed
  qed
  show ?thesis
  proof (cases "int s * 2 ^ 23 + q < 255 * 2 ^ 23")
    case True
    then have "f32_round neg n d = word_of_int ((if neg then 2 ^ 31 else 0) + (int s * 2 ^ 23 + q))"
      unfolding f32_round_def bits by (simp only: min_absorb2 less_imp_le)
    then show ?thesis using f32_val_pattern [OF q True, of neg] True iff rs by simp
  next
    case False
    then have "f32_round neg n d = (if neg then 0xFF800000 else 0x7F800000)"
      unfolding f32_round_def bits by (simp add: min_absorb1)
    moreover have "f32_val (if neg then 0xFF800000 else 0x7F800000) = Inf neg"
      by (simp add: f32_val_def f32_fraction_def f32_exponent_def f32_negative_def Let_def)
    ultimately show ?thesis using False iff rs by simp
  qed
qed

lemma round_scaled_near:
  assumes "0 \<le> n"
  shows "2 ^ 24 * \<bar>round_scaled n 1 - n\<bar> \<le> n"
proof -
  define s where "s = round_shift n 1"
  have near: "2 * \<bar>round_scaled n 1 - n\<bar> \<le> 2 ^ s"
    using round_quot_near [of "2 ^ s" n] by (simp add: round_scaled_alt s_def)
  show ?thesis
  proof (cases "s = 0")
    case True
    with near have "2 * \<bar>round_scaled n 1 - n\<bar> \<le> 1" by simp
    then have "\<bar>round_scaled n 1 - n\<bar> = 0" using abs_ge_zero [of "round_scaled n 1 - n"] by presburger
    then have "round_scaled n 1 = n" by simp
    then show ?thesis using assms by simp
  next
    case False
    then have "2 ^ 23 \<le> n div 2 ^ s" using round_quot_bounds(3) [of 1 n] assms by (simp add: s_def)
    then have "2 ^ 23 * 2 ^ s \<le> n div 2 ^ s * 2 ^ s" by (intro mult_right_mono) simp_all
    moreover have "0 \<le> n mod 2 ^ s" by simp
    then have "n div 2 ^ s * 2 ^ s \<le> n" using div_mult_mod_eq [of n "2 ^ s"] by linarith
    ultimately have big: "2 ^ 23 * 2 ^ s \<le> n" by linarith
    have "2 ^ 23 * (2 * \<bar>round_scaled n 1 - n\<bar>) \<le> 2 ^ 23 * 2 ^ s" using near by (intro mult_left_mono) simp_all
    then show ?thesis using big by simp
  qed
qed

lemma f32_negative_sign:
  "f32_val x = Fin m \<Longrightarrow> m \<noteq> 0 \<Longrightarrow> f32_negative x \<longleftrightarrow> m < 0"
  by (auto simp: f32_val_def Let_def f32_fraction_def mult_less_0_iff zero_less_mult_iff split: if_splits)

lemma f32_add_val:
  assumes "f32_val x = Fin m" and "f32_val y = Fin n"
  shows "f32_val (f32_add x y) = (if round_scaled \<bar>m + n\<bar> 1 < 2 ^ 277 then Fin (sgn (m + n) * round_scaled \<bar>m + n\<bar> 1) else Inf (m + n < 0))"
proof -
  have 0: "round_scaled 0 1 = 0" using round_scaled_near [of 0] by simp
  show ?thesis
    using assms by (auto simp: f32_add_def f32_signed_def f32_round_val 0 sgn_if)
qed

lemma f32_val_form:
  assumes "f32_val x = Fin v"
  shows "\<exists>m t. v = m * 2 ^ t \<and> \<bar>m\<bar> < 2 ^ 24"
proof -
  have f: "0 \<le> f32_fraction x" "f32_fraction x < 2 ^ 23" by (simp_all add: f32_fraction_def)
  define m where "m = (if f32_exponent x = 0 then f32_fraction x else 2 ^ 23 + f32_fraction x)"
  define t where "t = (if f32_exponent x = 0 then 0 else nat (f32_exponent x - 1))"
  have "v = (if f32_negative x then - m else m) * 2 ^ t" using assms
    by (auto simp: f32_val_def Let_def m_def t_def split: if_splits)
  moreover have "\<bar>if f32_negative x then - m else m\<bar> < 2 ^ 24" using f by (simp add: m_def)
  ultimately show ?thesis by blast
qed

text \<open>A number of at most 24 bits is a multiple of the unit or smaller than every number that needs the unit.\<close>

lemma form_multiple:
  fixes m :: int
  assumes "\<bar>m\<bar> < 2 ^ 24"
  shows "(\<exists>k. m * 2 ^ t = k * 2 ^ s) \<or> m * 2 ^ t < 2 ^ 23 * 2 ^ s"
proof (cases "s \<le> t")
  case True
  then have "m * 2 ^ t = m * 2 ^ (t - s) * 2 ^ s" by (simp flip: power_add add: mult.assoc)
  then show ?thesis by blast
next
  case False
  then have "(2 :: int) ^ Suc t \<le> 2 ^ s" by (intro power_increasing) simp_all
  moreover have "m * 2 ^ t < 2 ^ 24 * 2 ^ t" using assms by (intro mult_strict_right_mono) simp_all
  then have "m * 2 ^ t < 2 ^ 23 * 2 ^ Suc t" by simp
  moreover have "(2 :: int) ^ 23 * 2 ^ Suc t \<le> 2 ^ 23 * 2 ^ s" using calculation(1) by (intro mult_left_mono) simp_all
  ultimately show ?thesis by linarith
qed

lemma round_quot_nearest:
  assumes "0 < u"
  shows "\<bar>round_quot n u * u - n\<bar> \<le> \<bar>k * u - n\<bar>"
    and "k \<noteq> round_quot n u \<Longrightarrow> \<bar>k * u - n\<bar> = \<bar>round_quot n u * u - n\<bar> \<Longrightarrow> even (round_quot n u)"
proof -
  define q r x where "q = n div u" and "r = n mod u" and "x = (k - q) * u"
  have n: "n = q * u + r" by (simp add: q_def r_def)
  have r: "0 \<le> r" "r < u" using assms by (simp_all add: r_def)
  define up where "up \<longleftrightarrow> u < 2 * r \<or> u = 2 * r \<and> odd q"
  have rq: "round_quot n u = (if up then q + 1 else q)"
    by (simp add: round_quot_def q_def r_def up_def Let_def)
  have kx: "k * u - n = x - r" using n by (simp add: x_def algebra_simps)
  have dist: "\<bar>round_quot n u * u - n\<bar> = (if up then u - r else r)"
  proof -
    have "(q + 1) * u - n = u - r" "q * u - n = - r" using n by (simp_all add: algebra_simps)
    then show ?thesis using r unfolding rq by simp
  qed
  have "k < q \<Longrightarrow> x \<le> - u" "k = q \<Longrightarrow> x = 0" "k = q + 1 \<Longrightarrow> x = u" "q + 1 < k \<Longrightarrow> 2 * u \<le> x"
    using mult_right_mono [of "k - q" "-1" u] mult_right_mono [of 2 "k - q" u] assms by (simp_all add: x_def)
  then consider "k < q" "x \<le> - u" | "k = q" "x = 0" | "k = q + 1" "x = u" | "q + 1 < k" "2 * u \<le> x" by linarith
  note cs = this
  show "\<bar>round_quot n u * u - n\<bar> \<le> \<bar>k * u - n\<bar>"
    using cs r unfolding dist kx by cases (simp_all add: up_def)
  show "even (round_quot n u)" if "k \<noteq> round_quot n u" "\<bar>k * u - n\<bar> = \<bar>round_quot n u * u - n\<bar>"
    using cs that r unfolding dist kx by cases (auto simp: rq up_def split: if_splits)
qed

lemma round_scaled_nearest:
  assumes "0 \<le> n" and m: "\<bar>m\<bar> < 2 ^ 24"
  shows "\<bar>round_scaled n 1 - n\<bar> \<le> \<bar>m * 2 ^ t - n\<bar>"
    and "m * 2 ^ t \<noteq> round_scaled n 1 \<Longrightarrow> \<bar>m * 2 ^ t - n\<bar> = \<bar>round_scaled n 1 - n\<bar> \<Longrightarrow> even (round_quot n (2 ^ round_shift n 1))"
proof -
  define s where "s = round_shift n 1"
  define u :: int where "u = 2 ^ s"
  have rs: "round_scaled n 1 = round_quot n u * u" by (simp add: round_scaled_alt s_def u_def)
  note near = round_quot_nearest [where u = u and n = n]
  have u: "0 < u" by (simp add: u_def)
  have big: "2 ^ 23 * u \<le> n" if "s \<noteq> 0"
  proof -
    have "2 ^ 23 \<le> n div u" using round_quot_bounds(3) [of 1 n] assms(1) that by (simp add: s_def u_def)
    then have "2 ^ 23 * u \<le> n div u * u" using u by (intro mult_right_mono) simp_all
    then show ?thesis using div_mult_mod_eq [of n u] pos_mod_sign [of u n] u by linarith
  qed
  have smaller: "\<bar>round_scaled n 1 - n\<bar> < \<bar>m * 2 ^ t - n\<bar>" if "\<nexists>k. m * 2 ^ t = k * u"
  proof -
    have lt: "m * 2 ^ t < 2 ^ 23 * u" using form_multiple [OF m, of t s] that by (auto simp: u_def)
    have "s \<noteq> 0" using that by (cases s) (simp_all add: u_def)
    then show ?thesis using big near(1) [OF u, where k = "2 ^ 23"] lt unfolding rs by linarith
  qed
  show "\<bar>round_scaled n 1 - n\<bar> \<le> \<bar>m * 2 ^ t - n\<bar>"
  proof (cases "\<exists>k. m * 2 ^ t = k * u")
    case True
    then show ?thesis using near(1) [OF u] unfolding rs by auto
  next
    case False
    then show ?thesis using smaller by simp
  qed
  show "even (round_quot n (2 ^ round_shift n 1))"
    if "m * 2 ^ t \<noteq> round_scaled n 1" and eq: "\<bar>m * 2 ^ t - n\<bar> = \<bar>round_scaled n 1 - n\<bar>"
  proof -
    obtain k where "m * 2 ^ t = k * u" using smaller eq by force
    then have "even (round_quot n u)" using near(2) [OF u, where k = k] that unfolding rs by auto
    then show ?thesis by (simp add: u_def s_def)
  qed
qed

lemma even_round_bits:
  assumes "0 \<le> n" and "f32_val (f32_round neg n 1) = Fin v" and "even (round_quot n (2 ^ round_shift n 1))"
  shows "even (uint (f32_round neg n 1))"
proof -
  define s q where "s = round_shift n 1" and "q = round_quot n (2 ^ s)"
  have q: "0 \<le> q" "q \<le> 2 ^ 24" using round_quot_bounds(1,2) [of 1 n] assms(1) by (simp_all add: s_def q_def)
  have bits: "round_bits n 1 = min (255 * 2 ^ 23) (int s * 2 ^ 23 + q)" by (simp add: round_bits_alt s_def q_def)
  have "uint (f32_round neg n 1) = (if neg then 2 ^ 31 else 0) + round_bits n 1"
    unfolding f32_round_def using q by (intro uint_word_of_int_small) (auto simp: bits min_def)
  moreover have "even q" using assms(3) by (simp add: q_def s_def)
  then have "even (round_bits n 1)" by (simp add: bits min_def)
  ultimately show ?thesis by auto
qed

lemma f32_add_round:
  assumes "f32_val x = Fin m" and "f32_val y = Fin n"
  shows "\<exists>neg. f32_add x y = f32_round neg \<bar>m + n\<bar> 1"
  using assms by (cases "m + n = 0") (auto simp: f32_add_def f32_signed_def)

text \<open>C32: \<open>popularityAdd\<close> rounds correctly. It returns only finite numbers, for finite operands; no single-precision number is
  nearer to the exact sum than the result; and when another one is as near, the result is the one with the even pattern.\<close>

theorem popularityAdd_nearest:
  assumes "Util_popularityAdd a b = Inr c"
  shows "f32_finite a \<and> f32_finite b \<and> f32_finite c
    \<and> (\<forall>y. f32_finite y \<longrightarrow>
        \<bar>f32_scaled c - (f32_scaled a + f32_scaled b)\<bar> \<le> \<bar>f32_scaled y - (f32_scaled a + f32_scaled b)\<bar>
        \<and> (f32_scaled y \<noteq> f32_scaled c
            \<and> \<bar>f32_scaled y - (f32_scaled a + f32_scaled b)\<bar> = \<bar>f32_scaled c - (f32_scaled a + f32_scaled b)\<bar> \<longrightarrow> even (uint c)))"
proof (intro conjI allI impI)
  let ?e = "f32_scaled a + f32_scaled b"
  have f: "f32_finite a" "f32_finite b" "f32_finite c" "c = f32_add a b" using assms unfolding popularityAdd_eq_Inr by blast+
  then show "f32_finite a" "f32_finite b" "f32_finite c" by blast+
  have "f32_val c = (if round_scaled \<bar>?e\<bar> 1 < 2 ^ 277 then Fin (sgn ?e * round_scaled \<bar>?e\<bar> 1) else Inf (?e < 0))"
    using f f32_add_val by (simp add: f32_finite_val)
  then have c: "f32_scaled c = sgn ?e * round_scaled \<bar>?e\<bar> 1" using f(3) by (auto simp: f32_finite_val split: if_splits)
  have "round_scaled 0 1 = 0" using round_scaled_near [of 0] by simp
  then have dc: "\<bar>f32_scaled c - ?e\<bar> = \<bar>round_scaled \<bar>?e\<bar> 1 - \<bar>?e\<bar>\<bar>" unfolding c by (auto simp: sgn_if)
  fix y assume "f32_finite y"
  then obtain m t where y: "f32_scaled y = m * 2 ^ t" and m: "\<bar>m\<bar> < 2 ^ 24" using f32_val_form [of y "f32_scaled y"]
    unfolding f32_finite_val by blast
  define m' where "m' = (if ?e < 0 then - m else m)"
  have m': "\<bar>m'\<bar> < 2 ^ 24" using m by (simp add: m'_def)
  have dy: "\<bar>f32_scaled y - ?e\<bar> = \<bar>m' * 2 ^ t - \<bar>?e\<bar>\<bar>" unfolding y m'_def by (simp add: abs_if)
  show "\<bar>f32_scaled c - ?e\<bar> \<le> \<bar>f32_scaled y - ?e\<bar>"
    unfolding dc dy by (rule round_scaled_nearest(1) [OF _ m']) simp
  assume ne: "f32_scaled y \<noteq> f32_scaled c \<and> \<bar>f32_scaled y - ?e\<bar> = \<bar>f32_scaled c - ?e\<bar>"
  then have "m' * 2 ^ t \<noteq> round_scaled \<bar>?e\<bar> 1" unfolding y c m'_def
    using \<open>round_scaled 0 1 = 0\<close> by (auto simp: sgn_if split: if_splits)
  then have ev: "even (round_quot \<bar>?e\<bar> (2 ^ round_shift \<bar>?e\<bar> 1))"
    using round_scaled_nearest(2) [OF _ m', of "\<bar>?e\<bar>" t] ne unfolding dc dy by simp
  obtain neg where "c = f32_round neg \<bar>?e\<bar> 1" using f32_add_round f f32_finite_val by metis
  then show "even (uint c)" using even_round_bits [OF _ _ ev, of neg] f(3) unfolding f32_finite_val by simp
qed

text \<open>\<open>2 ^ 24 + 1\<close> lies between two numbers and is rounded to the even one.\<close>

theorem popularityAdd_nearest_witness:
  "Util_popularityAdd 0x4B800000 0x3F800000 = Inr 0x4B800000 \<and> f32_finite 0x4B800001
     \<and> f32_scaled 0x4B800001 \<noteq> f32_scaled 0x4B800000
     \<and> \<bar>f32_scaled 0x4B800001 - (f32_scaled 0x4B800000 + f32_scaled 0x3F800000)\<bar>
         = \<bar>f32_scaled 0x4B800000 - (f32_scaled 0x4B800000 + f32_scaled 0x3F800000)\<bar>
     \<and> even (uint (0x4B800000 :: u32))"
proof -
  have 1: "Util_popularityAdd 0x4B800000 0x3F800000 = Inr 0x4B800000" by code_simp
  have 2: "f32_finite 0x4B800001 \<and> f32_scaled 0x4B800001 \<noteq> f32_scaled 0x4B800000
     \<and> \<bar>f32_scaled 0x4B800001 - (f32_scaled 0x4B800000 + f32_scaled 0x3F800000)\<bar>
         = \<bar>f32_scaled 0x4B800000 - (f32_scaled 0x4B800000 + f32_scaled 0x3F800000)\<bar>" by code_simp
  show ?thesis using 1 2 popularityAdd_nearest [OF 1] by blast
qed

end
