(* ===== verification/Weight_Tuner.thy ===== *)
theory Weight_Tuner
  imports Float_Arith Wire_Format
begin

text \<open>
  \<open>WeightInfo\<close> and \<open>WeightTuner\<close> (\<open>src/src/edge/utils/weight_tuner.c\<close>): the weights of a local and of a cooperative hit follow
  moving averages of the measured latencies and of the share of look-ups at remote beacons; and the rewards that the edge
  wrapper calculates with them (\<open>src/src/edge/covered_edge_wrapper.c\<close>). \<open>ENABLE_WEIGHT_TUNING\<close> and \<open>ENABLE_PROBABILITY_TUNING\<close> are
  defined. Averages are calculated in double precision: a finite double is kept as its multiple of \<open>2 ^ (- 256)\<close>, rounded to
  53 bits, ties to even. The numbers that occur are differences, products with \<open>EWMA_ALPHA\<close> and sums of integers and single-precision
  numbers, so 53 bits reach down to \<open>2 ^ (- 206)\<close> at most. (Negative zeros do not occur and are not distinguished.)
\<close>

section \<open>Double precision\<close>

definition f64_shift :: "int \<Rightarrow> int \<Rightarrow> nat" where
  "f64_shift n d = nat (bitlen (n div d) - 53)"

definition f64_round :: "int \<Rightarrow> int \<Rightarrow> int" where
  "f64_round n d = (let s = f64_shift n d in round_quot n (d * 2 ^ s) * 2 ^ s)"

definition f64_ratio :: "int \<Rightarrow> int \<Rightarrow> fval" where
  "f64_ratio n d = (let r = f64_round \<bar>n\<bar> d in if r < 2 ^ 1280 then Fin (sgn n * r) else Inf (n < 0))"

definition f64_add :: "fval \<Rightarrow> fval \<Rightarrow> fval" where
  "f64_add a b =
     (case (a, b) of
        (NaN, _) \<Rightarrow> NaN | (_, NaN) \<Rightarrow> NaN
      | (Inf s, Inf t) \<Rightarrow> if s = t then Inf s else NaN
      | (Inf s, Fin _) \<Rightarrow> Inf s | (Fin _, Inf t) \<Rightarrow> Inf t
      | (Fin m, Fin n) \<Rightarrow> f64_ratio (m + n) 1)"

definition f64_minus :: "fval \<Rightarrow> fval \<Rightarrow> fval" where
  "f64_minus a b = f64_add a (case b of NaN \<Rightarrow> NaN | Inf t \<Rightarrow> Inf (\<not> t) | Fin n \<Rightarrow> Fin (- n))"

definition f64_mult :: "fval \<Rightarrow> fval \<Rightarrow> fval" where
  "f64_mult a b =
     (case (a, b) of
        (NaN, _) \<Rightarrow> NaN | (_, NaN) \<Rightarrow> NaN
      | (Inf s, Inf t) \<Rightarrow> Inf (s \<noteq> t)
      | (Inf s, Fin n) \<Rightarrow> if n = 0 then NaN else Inf (s \<noteq> (n < 0))
      | (Fin m, Inf t) \<Rightarrow> if m = 0 then NaN else Inf ((m < 0) \<noteq> t)
      | (Fin m, Fin n) \<Rightarrow> f64_ratio (m * n) (2 ^ 256))"

text \<open>Division by a positive number is all that occurs.\<close>

definition f64_div :: "fval \<Rightarrow> fval \<Rightarrow> fval" where
  "f64_div a b =
     (case (a, b) of
        (NaN, _) \<Rightarrow> NaN | (_, NaN) \<Rightarrow> NaN
      | (Inf s, Inf t) \<Rightarrow> NaN
      | (Inf s, Fin n) \<Rightarrow> Inf (s \<noteq> (n < 0))
      | (Fin m, Inf t) \<Rightarrow> Fin 0
      | (Fin m, Fin n) \<Rightarrow> if n = 0 then if m = 0 then NaN else Inf (m < 0) else f64_ratio (m * 2 ^ 256 * sgn n) \<bar>n\<bar>)"

definition f64_of_f32 :: "u32 \<Rightarrow> fval" where
  "f64_of_f32 x = (case f32_val x of Fin n \<Rightarrow> Fin (n * 2 ^ 107) | v \<Rightarrow> v)"

definition f64_of_u32 :: "u32 \<Rightarrow> fval" where
  "f64_of_u32 n = Fin (uint n * 2 ^ 256)"

definition f32_of_f64 :: "fval \<Rightarrow> u32" where
  "f32_of_f64 a = (case a of NaN \<Rightarrow> f32_NaN | Inf s \<Rightarrow> f32_infinity s | Fin n \<Rightarrow> f32_round (n < 0) \<bar>n\<bar> (2 ^ 107))"

text \<open>Truncation, undefined when the integer does not fit.\<close>

definition u32_of_f64 :: "fval \<Rightarrow> u32 exec" where
  "u32_of_f64 a =
     (case a of
        Fin n \<Rightarrow> definedE (- (2 ^ 256) < n \<and> n < 2 ^ 32 * 2 ^ 256) (Inr (if n < 0 then 0 else word_of_int (n div 2 ^ 256)))
      | _ \<Rightarrow> Inl Undefined)"

section \<open>Weights\<close>

record weight_info =
  local_hit_weight :: u32
  cooperative_hit_weight :: u32
  local_hit_weights :: "u32 list"
  cooperative_hit_weights :: "u32 list"

definition WeightInfo_default :: weight_info where
  "WeightInfo_default = \<lparr>local_hit_weight = 0, cooperative_hit_weight = 0, local_hit_weights = [], cooperative_hit_weights = []\<rparr>"

definition WeightInfo_new :: "u32 \<Rightarrow> u32 \<Rightarrow> weight_info" where
  "WeightInfo_new w1 w2 = \<lparr>local_hit_weight = w1, cooperative_hit_weight = w2, local_hit_weights = [], cooperative_hit_weights = []\<rparr>"

definition WeightInfo_new_p2p :: "u32 \<Rightarrow> u32 \<Rightarrow> u32 list \<Rightarrow> u32 list \<Rightarrow> weight_info" where
  "WeightInfo_new_p2p w1 w2 w1s w2s =
     \<lparr>local_hit_weight = w1, cooperative_hit_weight = w2, local_hit_weights = w1s, cooperative_hit_weights = w2s\<rparr>"

definition WeightInfo_getSizeForCapacity :: "weight_info \<Rightarrow> u64" where
  "WeightInfo_getSizeForCapacity w =
     (if local_hit_weights w = [] \<and> cooperative_hit_weights w = [] then 4 * 2
      else 4 * (2 + word_of_nat (length (local_hit_weights w)) + word_of_nat (length (cooperative_hit_weights w))))"

definition WeightInfo_dumpWeightInfo :: "weight_info \<Rightarrow> u8 list \<Rightarrow> u8 list" where
  "WeightInfo_dumpWeightInfo w out = fs_write (u32_mem (cooperative_hit_weight w)) (fs_write (u32_mem (local_hit_weight w)) out)"

definition WeightInfo_loadWeightInfo :: "weight_info \<Rightarrow> fstream \<Rightarrow> weight_info \<times> fstream" where
  "WeightInfo_loadWeightInfo this fs =
     (let (a, fs) = fs_read (u32_mem (local_hit_weight this)) fs;
          (b, fs) = fs_read (u32_mem (cooperative_hit_weight this)) fs
      in (this\<lparr>local_hit_weight := mem_u32 a, cooperative_hit_weight := mem_u32 b\<rparr>, fs))"

section \<open>The tuner\<close>

record weight_tuner =
  local_beacon_access_cnt :: u32
  remote_beacon_access_cnt :: u32
  remote_beacon_access_cnt_array :: "u32 list"
  ewma_remote_beacon_prob :: u32
  ewma_clientedge_us :: u32
  propagation_latency_edgecloud_us :: u32
  ewma_crossedge_us :: u32
  ewma_edgecloud_us :: u32
  ewma_crossedge_us_array :: "u32 list"
  tuner_weight_info :: weight_info
  is_p2p_enable :: bool

definition BEACON_ACCESS_CNT_FOR_PROB_WINDOW_SIZE :: u32 where
  "BEACON_ACCESS_CNT_FOR_PROB_WINDOW_SIZE = 0x42C80000"

text \<open>The double nearest to 0.1.\<close>

definition EWMA_ALPHA :: fval where
  "EWMA_ALPHA = Fin (7205759403792794 * 2 ^ 200)"

definition f64_one :: fval where
  "f64_one = Fin (2 ^ 256)"

definition ewma :: "fval \<Rightarrow> fval \<Rightarrow> fval" where
  "ewma old cur = f64_add (f64_mult (f64_minus f64_one EWMA_ALPHA) old) (f64_mult EWMA_ALPHA cur)"

definition ewma_latency :: "u32 \<Rightarrow> u32 \<Rightarrow> u32 exec" where
  "ewma_latency old cur = u32_of_f64 (ewma (f64_of_u32 old) (f64_of_u32 cur))"

text \<open>The difference in the array of cooperative weights is one of unsigned integers.\<close>

definition WeightTuner_updateWeightInfo :: "weight_tuner \<Rightarrow> weight_tuner exec" where
  "WeightTuner_updateWeightInfo t =
     (let client = f32_of_u32 (ewma_clientedge_us t); cross = f32_of_u32 (ewma_crossedge_us t);
          cloud = f32_of_u32 (ewma_edgecloud_us t); p = ewma_remote_beacon_prob t;
          local_hit_latency = client;
          cooperative_hit_latency = f32_add client (f32_mult (f32_add p 0x3F800000) cross);
          global_miss_latency = f32_add (f32_add client (f32_mult p cross)) cloud;
          w1 = f32_minus global_miss_latency local_hit_latency;
          w2 = f32_minus global_miss_latency cooperative_hit_latency
      in exit_ifE (fval_less (f32_val w1) (Fin 0) \<or> fval_less (f32_val w2) (Fin 0) \<or> fval_less (f32_val w1) (f32_val w2)) (
         Inr (t\<lparr>tuner_weight_info :=
           if \<not> is_p2p_enable t then WeightInfo_new w1 w2
           else WeightInfo_new_p2p w1 w2
                  (map (\<lambda>c. f32_add (f32_mult p (f32_of_u32 c)) cloud) (ewma_crossedge_us_array t))
                  (map (\<lambda>c. f32_of_u32 (ewma_edgecloud_us t - c)) (ewma_crossedge_us_array t))\<rparr>)))"

definition WeightTuner_new :: "u32 \<Rightarrow> u32 \<Rightarrow> u32 \<Rightarrow> u32 \<Rightarrow> u32 \<Rightarrow> u32 list \<Rightarrow> weight_tuner exec" where
  "WeightTuner_new edge_idx edge_cnt client cross cloud p2p_latency_array =
     bindE (if p2p_latency_array = [] \<or> hd p2p_latency_array = - 1
            then definedE (edge_idx < edge_cnt) (Inr (cross, (replicate (unat edge_cnt) cross)[unat edge_idx := 0]))
            else definedE (edge_cnt \<noteq> 0) (
                 assertE (length p2p_latency_array = unat edge_cnt) (
                 Inr (sum_list p2p_latency_array div edge_cnt, p2p_latency_array)))) (\<lambda>(cross, crosses).
     WeightTuner_updateWeightInfo
       \<lparr>local_beacon_access_cnt = 0, remote_beacon_access_cnt = 0, remote_beacon_access_cnt_array = replicate (unat edge_cnt) 0,
        ewma_remote_beacon_prob = f32_of_f64 (f64_minus f64_one (f64_div f64_one (f64_of_f32 (f32_of_u32 edge_cnt)))),
        ewma_clientedge_us = client, propagation_latency_edgecloud_us = cloud, ewma_crossedge_us = cross,
        ewma_edgecloud_us = cloud, ewma_crossedge_us_array = crosses, tuner_weight_info = WeightInfo_default, is_p2p_enable = False\<rparr>)"

definition float_incr :: "u32 \<Rightarrow> u32" where
  "float_incr x = f32_of_f64 (f64_add (f64_of_f32 x) f64_one)"

definition float_in_01 :: "u32 \<Rightarrow> bool" where
  "float_in_01 x \<longleftrightarrow> fval_le (Fin 0) (f32_val x) \<and> fval_le (f32_val x) (Fin (2 ^ 149))"

definition window_full :: "weight_tuner \<Rightarrow> bool" where
  "window_full t \<longleftrightarrow> fval_le (f32_val BEACON_ACCESS_CNT_FOR_PROB_WINDOW_SIZE)
     (f32_val (f32_add (local_beacon_access_cnt t) (remote_beacon_access_cnt t)))"

definition WeightTuner_updateEwmaRemoteBeaconProb :: "weight_tuner \<Rightarrow> weight_tuner exec" where
  "WeightTuner_updateEwmaRemoteBeaconProb t =
     assertE (window_full t) (
     let prob = f32_div (remote_beacon_access_cnt t) (f32_add (local_beacon_access_cnt t) (remote_beacon_access_cnt t))
     in assertE (float_in_01 prob) (
        let avg = f32_of_f64 (ewma (f64_of_f32 (ewma_remote_beacon_prob t)) (f64_of_f32 prob))
        in assertE (float_in_01 avg) (
           Inr (t\<lparr>ewma_remote_beacon_prob := avg, local_beacon_access_cnt := 0, remote_beacon_access_cnt := 0\<rparr>))))"

definition finish_access :: "weight_tuner \<Rightarrow> weight_tuner exec" where
  "finish_access t =
     bindE (if window_full t then WeightTuner_updateEwmaRemoteBeaconProb t else Inr t) WeightTuner_updateWeightInfo"

definition WeightTuner_incrLocalBeaconAccessCnt :: "weight_tuner \<Rightarrow> weight_tuner exec" where
  "WeightTuner_incrLocalBeaconAccessCnt t =
     finish_access (t\<lparr>local_beacon_access_cnt := float_incr (local_beacon_access_cnt t)\<rparr>)"

definition WeightTuner_incrRemoteBeaconAccessCnt :: "weight_tuner \<Rightarrow> weight_tuner exec" where
  "WeightTuner_incrRemoteBeaconAccessCnt t =
     finish_access (t\<lparr>remote_beacon_access_cnt := float_incr (remote_beacon_access_cnt t)\<rparr>)"

definition WeightTuner_incrRemoteBeaconAccessCntArray :: "int \<Rightarrow> weight_tuner \<Rightarrow> weight_tuner exec" where
  "WeightTuner_incrRemoteBeaconAccessCntArray j t =
     definedE (0 \<le> j \<and> nat j < length (remote_beacon_access_cnt_array t)) (
     finish_access (t\<lparr>remote_beacon_access_cnt_array := (remote_beacon_access_cnt_array t)
                        [nat j := float_incr (remote_beacon_access_cnt_array t ! nat j)],
                      remote_beacon_access_cnt := float_incr (remote_beacon_access_cnt t)\<rparr>))"

definition WeightTuner_updateEwmaCrossedgeLatency :: "u32 \<Rightarrow> weight_tuner \<Rightarrow> weight_tuner exec" where
  "WeightTuner_updateEwmaCrossedgeLatency cur t =
     assertE (0 < cur) (
     if propagation_latency_edgecloud_us t < cur then Inr t
     else bindE (ewma_latency (ewma_crossedge_us t) cur) (\<lambda>n. WeightTuner_updateWeightInfo (t\<lparr>ewma_crossedge_us := n\<rparr>)))"

definition WeightTuner_updateEwmaCrossedgeLatency_of_j :: "int \<Rightarrow> u32 \<Rightarrow> weight_tuner \<Rightarrow> weight_tuner exec" where
  "WeightTuner_updateEwmaCrossedgeLatency_of_j j cur t =
     assertE (0 < cur) (
     if propagation_latency_edgecloud_us t < cur then Inr t
     else definedE (0 \<le> j \<and> nat j < length (ewma_crossedge_us_array t)) (
          bindE (ewma_latency (ewma_crossedge_us_array t ! nat j) cur) (\<lambda>m.
          bindE (ewma_latency (ewma_crossedge_us t) cur) (\<lambda>n.
          WeightTuner_updateWeightInfo (t\<lparr>ewma_crossedge_us_array := (ewma_crossedge_us_array t)[nat j := m], ewma_crossedge_us := n\<rparr>)))))"

definition WeightTuner_updateEwmaEdgecloudLatency :: "u32 \<Rightarrow> weight_tuner \<Rightarrow> weight_tuner exec" where
  "WeightTuner_updateEwmaEdgecloudLatency cur t =
     assertE (0 < cur) (
     bindE (ewma_latency (ewma_edgecloud_us t) cur) (\<lambda>n. WeightTuner_updateWeightInfo (t\<lparr>ewma_edgecloud_us := n\<rparr>)))"

definition WeightTuner_getEwmaCrossedgeLatency_of_j :: "int \<Rightarrow> weight_tuner \<Rightarrow> u32 exec" where
  "WeightTuner_getEwmaCrossedgeLatency_of_j j t =
     definedE (0 \<le> j \<and> nat j < length (ewma_crossedge_us_array t)) (Inr (ewma_crossedge_us_array t ! nat j))"

definition WeightTuner_setP2PEnable :: "bool \<Rightarrow> weight_tuner \<Rightarrow> weight_tuner" where
  "WeightTuner_setP2PEnable flag t = t\<lparr>is_p2p_enable := flag\<rparr>"

definition WeightTuner_getSizeForCapacity :: "weight_tuner \<Rightarrow> u64" where
  "WeightTuner_getSizeForCapacity t = 4 + 4 * 2 + WeightInfo_getSizeForCapacity (tuner_weight_info t)"

definition WeightTuner_dumpWeightTunerSnapshot :: "weight_tuner \<Rightarrow> u8 list \<Rightarrow> u8 list" where
  "WeightTuner_dumpWeightTunerSnapshot t out =
     (let out = fs_write (u32_mem (local_beacon_access_cnt t)) out;
          out = fs_write (u32_mem (remote_beacon_access_cnt t)) out;
          out = fs_write (u32_mem (ewma_remote_beacon_prob t)) out;
          out = fs_write (u32_mem (ewma_crossedge_us t)) out;
          out = fs_write (u32_mem (ewma_edgecloud_us t)) out
      in WeightInfo_dumpWeightInfo (tuner_weight_info t) out)"

definition WeightTuner_loadWeightTunerSnapshot :: "weight_tuner \<Rightarrow> fstream \<Rightarrow> weight_tuner \<times> fstream" where
  "WeightTuner_loadWeightTunerSnapshot this fs =
     (let (a, fs) = fs_read (u32_mem (local_beacon_access_cnt this)) fs;
          (b, fs) = fs_read (u32_mem (remote_beacon_access_cnt this)) fs;
          (c, fs) = fs_read (u32_mem (ewma_remote_beacon_prob this)) fs;
          (d, fs) = fs_read (u32_mem (ewma_crossedge_us this)) fs;
          (e, fs) = fs_read (u32_mem (ewma_edgecloud_us this)) fs;
          (w, fs) = WeightInfo_loadWeightInfo (tuner_weight_info this) fs
      in (this\<lparr>local_beacon_access_cnt := mem_u32 a, remote_beacon_access_cnt := mem_u32 b, ewma_remote_beacon_prob := mem_u32 c,
               ewma_crossedge_us := mem_u32 d, ewma_edgecloud_us := mem_u32 e, tuner_weight_info := w\<rparr>, fs))"

section \<open>Rewards\<close>

definition CoveredEdgeWrapper_calcLocalCachedRewardInternal :: "weight_tuner \<Rightarrow> u32 \<Rightarrow> u32 \<Rightarrow> bool \<Rightarrow> u32 exec" where
  "CoveredEdgeWrapper_calcLocalCachedRewardInternal t local_cached_popularity redirected_cached_popularity is_last_copies =
     (let w1 = local_hit_weight (tuner_weight_info t); w2 = cooperative_hit_weight (tuner_weight_info t)
      in if is_last_copies
         then bindE (Util_popularityMultiply w1 local_cached_popularity) (\<lambda>x.
              bindE (Util_popularityMultiply w2 redirected_cached_popularity) (\<lambda>y. Inr (f32_add x y)))
         else bindE (Util_popularityNonegMinus w1 w2) (\<lambda>w. Util_popularityMultiply w local_cached_popularity))"

definition CoveredEdgeWrapper_calcLocalUncachedRewardInternal :: "weight_tuner \<Rightarrow> u32 \<Rightarrow> bool \<Rightarrow> u32 \<Rightarrow> u32 exec" where
  "CoveredEdgeWrapper_calcLocalUncachedRewardInternal t local_uncached_popularity is_global_cached redirected_uncached_popularity =
     (let w1 = local_hit_weight (tuner_weight_info t); w2 = cooperative_hit_weight (tuner_weight_info t)
      in if is_global_cached
         then bindE (Util_popularityNonegMinus w1 w2) (\<lambda>w. Util_popularityMultiply w local_uncached_popularity)
         else bindE (Util_popularityMultiply w1 local_uncached_popularity) (\<lambda>x.
              bindE (Util_popularityMultiply w2 redirected_uncached_popularity) (\<lambda>y. Util_popularityAdd x y)))"

section \<open>Averages stay between their arguments\<close>

lemma quot_large:
  assumes "0 < d" and "0 \<le> n" and s: "s = nat (bitlen (n div d) - (int k + 1))" and "0 < s"
  shows "2 ^ k \<le> n div (d * 2 ^ s)"
proof -
  let ?q = "n div d"
  have q0: "0 \<le> ?q" using assms by (simp add: pos_imp_zdiv_nonneg_iff)
  have b: "bitlen ?q = int k + 1 + int s" using assms by simp
  then have "?q \<noteq> 0" using \<open>0 < s\<close> by auto
  then have "2 ^ nat (bitlen ?q - 1) \<le> ?q" using bitlen_bounds [of ?q] q0 by simp
  moreover have "nat (bitlen ?q - 1) = k + s" using b by simp
  ultimately have "2 ^ k * 2 ^ s \<le> ?q" by (simp add: power_add)
  then have "2 ^ k * 2 ^ s div 2 ^ s \<le> ?q div 2 ^ s" by (intro zdiv_mono1) simp_all
  then show ?thesis using assms by (simp add: zdiv_zmult2_eq)
qed

lemma mult_div_le: "0 < u \<Longrightarrow> b \<le> n div u \<Longrightarrow> b * u \<le> (n :: int)"
proof -
  assume u: "0 < u" and b: "b \<le> n div u"
  have "b * u \<le> n div u * u" using u b by (intro mult_right_mono) simp_all
  moreover have "0 \<le> n mod u" using u by simp
  ultimately show ?thesis using div_mult_mod_eq [of n u] by linarith
qed

lemma f64_round_near:
  assumes "0 < d" and "0 \<le> n"
  shows "2 ^ 53 * \<bar>d * f64_round n d - n\<bar> \<le> n + 2 ^ 52 * d"
proof -
  define s u where "s = f64_shift n d" and "u = d * 2 ^ s"
  have u: "0 < u" using assms by (simp add: u_def)
  have e: "d * f64_round n d = round_quot n u * u" by (simp add: f64_round_def Let_def s_def u_def)
  have near: "2 ^ 53 * \<bar>d * f64_round n d - n\<bar> \<le> 2 ^ 52 * u" using round_quot_near [OF u, of n] unfolding e by simp
  show ?thesis
  proof (cases "s = 0")
    case True
    with near show ?thesis using assms by (simp add: u_def)
  next
    case False
    then have "2 ^ 52 \<le> n div u" unfolding u_def
      by (intro quot_large) (use assms in \<open>simp_all add: s_def f64_shift_def\<close>)
    then have "2 ^ 52 * u \<le> n" by (rule mult_div_le [OF u])
    with near assms show ?thesis by simp
  qed
qed

lemma f64_round_nonneg: "0 < d \<Longrightarrow> 0 \<le> n \<Longrightarrow> 0 \<le> f64_round n d"
  by (auto simp: f64_round_def Let_def round_quot_def pos_imp_zdiv_nonneg_iff intro!: mult_nonneg_nonneg)

text \<open>In units of \<open>2 ^ (- 256)\<close>, \<open>1 - EWMA_ALPHA\<close> and \<open>EWMA_ALPHA\<close> add up to \<open>2 ^ 256 + 2 ^ 201\<close>.\<close>

abbreviation ewma_old :: int where
  "ewma_old \<equiv> 8106479329266893 * 2 ^ 203"

abbreviation ewma_new :: int where
  "ewma_new \<equiv> 7205759403792794 * 2 ^ 200"

lemma one_minus_alpha: "f64_minus f64_one EWMA_ALPHA = Fin ewma_old"
  by code_simp

definition ewma_scaled :: "int \<Rightarrow> int \<Rightarrow> int" where
  "ewma_scaled x y = f64_round (f64_round (ewma_old * (x * 2 ^ 256)) (2 ^ 256) + f64_round (ewma_new * (y * 2 ^ 256)) (2 ^ 256)) 1"

lemma f64_round_product:
  assumes "0 \<le> a" and "0 \<le> x" and "0 < u"
  shows "2 ^ 53 * \<bar>f64_round (a * (x * u)) u - a * x\<bar> \<le> a * x + 2 ^ 52"
proof -
  let ?r = "f64_round (a * (x * u)) u"
  have "2 ^ 53 * \<bar>u * ?r - a * (x * u)\<bar> \<le> a * (x * u) + 2 ^ 52 * u"
    by (rule f64_round_near) (use assms in simp_all)
  moreover have "u * ?r - a * (x * u) = u * (?r - a * x)" by (simp add: algebra_simps)
  then have "\<bar>u * ?r - a * (x * u)\<bar> = u * \<bar>?r - a * x\<bar>" using assms(3) by (simp add: abs_mult)
  ultimately have "u * (2 ^ 53 * \<bar>?r - a * x\<bar>) \<le> u * (a * x + 2 ^ 52)" by (simp add: algebra_simps)
  then show ?thesis by (rule mult_left_le_imp_le) (rule assms(3))
qed

lemma near_bounds: "k * \<bar>a - b\<bar> \<le> c \<Longrightarrow> 0 \<le> k \<Longrightarrow> k * a \<le> k * b + c \<and> k * b \<le> k * a + (c :: int)"
proof -
  assume c: "k * \<bar>a - b\<bar> \<le> c" and k: "0 \<le> k"
  have "k * (a - b) \<le> k * \<bar>a - b\<bar>" "k * (b - a) \<le> k * \<bar>a - b\<bar>" using k by (intro mult_left_mono; simp)+
  with c show ?thesis by (simp add: algebra_simps)
qed

lemma ewma_scaled_bounds:
  assumes "0 \<le> l" and "l \<le> x" and "l \<le> y" and "x \<le> h" and "y \<le> h" and "h < 2 ^ 32"
  shows "l * 2 ^ 256 - 2 ^ 256 \<le> ewma_scaled x y" and "ewma_scaled x y < h * 2 ^ 256 + 2 ^ 256"
proof -
  define a b where "a = f64_round (ewma_old * (x * 2 ^ 256)) (2 ^ 256)" and "b = f64_round (ewma_new * (y * 2 ^ 256)) (2 ^ 256)"
  have a: "2 ^ 53 * \<bar>a - ewma_old * x\<bar> \<le> ewma_old * x + 2 ^ 52" unfolding a_def by (rule f64_round_product) (use assms in simp_all)
  have b: "2 ^ 53 * \<bar>b - ewma_new * y\<bar> \<le> ewma_new * y + 2 ^ 52" unfolding b_def by (rule f64_round_product) (use assms in simp_all)
  have pos: "0 \<le> a" "0 \<le> b" unfolding a_def b_def by (rule f64_round_nonneg; use assms in simp)+
  have c: "2 ^ 53 * \<bar>ewma_scaled x y - (a + b)\<bar> \<le> a + b + 2 ^ 52"
    using f64_round_near [of 1 "a + b"] pos by (simp add: ewma_scaled_def a_def b_def)
  show "l * 2 ^ 256 - 2 ^ 256 \<le> ewma_scaled x y" "ewma_scaled x y < h * 2 ^ 256 + 2 ^ 256"
    using near_bounds [OF a] near_bounds [OF b] near_bounds [OF c] assms by simp_all
qed

lemma ewma_scaled_nonneg: "0 \<le> x \<Longrightarrow> 0 \<le> y \<Longrightarrow> 0 \<le> ewma_scaled x y"
  unfolding ewma_scaled_def by (intro f64_round_nonneg add_nonneg_nonneg mult_nonneg_nonneg) simp_all

lemma f64_ratio_nonneg:
  assumes "0 \<le> n" and "0 < d" and "f64_round n d < 2 ^ 1280"
  shows "f64_ratio n d = Fin (f64_round n d)"
proof -
  have "0 \<le> d * 2 ^ f64_shift 0 d" using assms by simp
  then have "f64_round 0 d = 0" by (simp add: f64_round_def round_quot_def Let_def)
  then show ?thesis using assms by (auto simp: f64_ratio_def sgn_if)
qed

lemma f64_products_small:
  assumes "0 \<le> x" and "x < 2 ^ 32" and "0 \<le> k" and "k < 2 ^ 256"
  shows "f64_round (k * (x * 2 ^ 256)) (2 ^ 256) < 2 ^ 290"
proof -
  have "2 ^ 53 * f64_round (k * (x * 2 ^ 256)) (2 ^ 256) \<le> 2 ^ 53 * (k * x) + (k * x + 2 ^ 52)"
    using near_bounds [OF f64_round_product [of k x "2 ^ 256"]] assms by simp
  moreover have "k * x \<le> 2 ^ 256 * 2 ^ 32" using assms by (intro mult_mono) simp_all
  ultimately show ?thesis by simp
qed

lemma ewma_latency_eq:
  fixes old cur :: u32
  defines "c \<equiv> ewma_scaled (uint old) (uint cur)"
  shows "ewma_latency old cur = definedE (c < 2 ^ 32 * 2 ^ 256) (Inr (word_of_int (c div 2 ^ 256)))"
proof -
  have u: "0 \<le> uint old" "uint old < 2 ^ 32" "0 \<le> uint cur" "uint cur < 2 ^ 32"
    using uint_lt2p [of old] uint_lt2p [of cur] by simp_all
  note small = f64_products_small [OF u(1,2), of ewma_old] f64_products_small [OF u(3,4), of ewma_new]
  define a b where "a = f64_round (ewma_old * (uint old * 2 ^ 256)) (2 ^ 256)"
    and "b = f64_round (ewma_new * (uint cur * 2 ^ 256)) (2 ^ 256)"
  have ab: "a < 2 ^ 290" "b < 2 ^ 290" using small by (simp_all add: a_def b_def)
  have "0 \<le> a" "0 \<le> b" unfolding a_def b_def by (rule f64_round_nonneg; use u in simp)+
  have c: "c = f64_round (a + b) 1" by (simp add: c_def ewma_scaled_def a_def b_def)
  have "c < 2 ^ 1280" using near_bounds [OF f64_round_near [of 1 "a + b"]] ab \<open>0 \<le> a\<close> \<open>0 \<le> b\<close> unfolding c by simp
  have m: "f64_mult (Fin ewma_old) (f64_of_u32 old) = Fin a" "f64_mult EWMA_ALPHA (f64_of_u32 cur) = Fin b"
    unfolding f64_mult_def f64_of_u32_def EWMA_ALPHA_def a_def b_def prod.case fval.case
    by (rule f64_ratio_nonneg; use u small in simp)+
  have "ewma (f64_of_u32 old) (f64_of_u32 cur) = f64_ratio (a + b) 1"
    unfolding ewma_def one_minus_alpha m by (simp add: f64_add_def)
  also have "\<dots> = Fin c" unfolding c
    by (rule f64_ratio_nonneg) (use \<open>c < 2 ^ 1280\<close> \<open>0 \<le> a\<close> \<open>0 \<le> b\<close> c in simp_all)
  finally show ?thesis
    using ewma_scaled_nonneg [OF u(1,3)] by (simp add: ewma_latency_def u32_of_f64_def c_def)
qed

lemma ewma_latency_bounds:
  "\<exists>n. ewma_latency old cur = Inr n \<and> n \<le> max old cur \<and> unat (min old cur) \<le> unat n + 1"
proof -
  define c where "c = ewma_scaled (uint old) (uint cur)"
  define h l where "h = uint (max old cur)" and "l = uint (min old cur)"
  have h: "h < 2 ^ 32" "uint old \<le> h" "uint cur \<le> h" "0 \<le> l" "l \<le> uint old" "l \<le> uint cur"
    using uint_lt2p [of "max old cur"] by (auto simp: h_def l_def word_le_def max_def min_def)
  note b = ewma_scaled_bounds [OF h(4,5,6,2,3,1), folded c_def]
  have c0: "0 \<le> c" unfolding c_def by (rule ewma_scaled_nonneg) simp_all
  define q where "q = c div 2 ^ 256"
  have q: "q * 2 ^ 256 \<le> c" "c < q * 2 ^ 256 + 2 ^ 256" "0 \<le> q"
    using div_mult_mod_eq [of c "2 ^ 256"] pos_mod_bound [of "2 ^ 256" c] pos_mod_sign [of "2 ^ 256" c] c0
    unfolding q_def by (simp_all add: pos_imp_zdiv_nonneg_iff)
  have "q \<le> h" "l \<le> q + 1" using q b by simp_all
  then have "uint (word_of_int q :: u32) = q" using h(1) q(3) by (intro uint_word_of_int_small) simp_all
  then have "unat (word_of_int q :: u32) = nat q" "uint (word_of_int q :: u32) = q" by (simp_all add: unat_eq_nat_uint)
  then have w: "word_of_int q \<le> max old cur" "unat (min old cur) \<le> unat (word_of_int q :: u32) + 1"
    using \<open>q \<le> h\<close> nat_mono [OF \<open>l \<le> q + 1\<close>] q(3) by (simp_all add: word_le_def h_def l_def nat_add_distrib)
  have "c < 2 ^ 32 * 2 ^ 256" using b(2) h(1) by simp
  then have "ewma_latency old cur = Inr (word_of_int q)" by (simp add: ewma_latency_eq c_def q_def)
  with w show ?thesis by blast
qed

section \<open>Runs of a tuner\<close>

datatype tuner_request =
  LocalAccess | RemoteAccess | RemoteAccessOf int | CrossLatency u32 | CrossLatencyOf int u32 | CloudLatency u32 | SetP2P bool

fun tuner_serve :: "tuner_request \<Rightarrow> weight_tuner \<Rightarrow> weight_tuner exec" where
  "tuner_serve LocalAccess t = WeightTuner_incrLocalBeaconAccessCnt t"
| "tuner_serve RemoteAccess t = WeightTuner_incrRemoteBeaconAccessCnt t"
| "tuner_serve (RemoteAccessOf j) t = WeightTuner_incrRemoteBeaconAccessCntArray j t"
| "tuner_serve (CrossLatency cur) t = WeightTuner_updateEwmaCrossedgeLatency cur t"
| "tuner_serve (CrossLatencyOf j cur) t = WeightTuner_updateEwmaCrossedgeLatency_of_j j cur t"
| "tuner_serve (CloudLatency cur) t = WeightTuner_updateEwmaEdgecloudLatency cur t"
| "tuner_serve (SetP2P flag) t = Inr (WeightTuner_setP2PEnable flag t)"

fun measurement :: "tuner_request \<Rightarrow> weight_tuner \<Rightarrow> bool" where
  "measurement (CrossLatency cur) t \<longleftrightarrow> 0 < cur"
| "measurement (CrossLatencyOf j cur) t \<longleftrightarrow> 0 < cur \<and> 0 \<le> j \<and> nat j < length (ewma_crossedge_us_array t)"
| "measurement (CloudLatency cur) t \<longleftrightarrow> 0 < cur"
| "measurement _ t \<longleftrightarrow> False"

definition weights_ordered :: "weight_info \<Rightarrow> bool" where
  "weights_ordered w \<longleftrightarrow> \<not> fval_less (f32_val (local_hit_weight w)) (Fin 0)
     \<and> \<not> fval_less (f32_val (cooperative_hit_weight w)) (Fin 0)
     \<and> \<not> fval_less (f32_val (local_hit_weight w)) (f32_val (cooperative_hit_weight w))"

lemma updateWeightInfo_returns:
  assumes "WeightTuner_updateWeightInfo t = Inr t'"
  shows "weights_ordered (tuner_weight_info t') \<and> (\<exists>w. t' = t\<lparr>tuner_weight_info := w\<rparr>)"
proof
  show "weights_ordered (tuner_weight_info t')" using assms
    by (cases "is_p2p_enable t") (auto simp: WeightTuner_updateWeightInfo_def Let_def exit_ifE_eq_Inr weights_ordered_def
        WeightInfo_new_def WeightInfo_new_p2p_def)
  show "\<exists>w. t' = t\<lparr>tuner_weight_info := w\<rparr>" using assms
    unfolding WeightTuner_updateWeightInfo_def Let_def exit_ifE_eq_Inr sum.inject by blast
qed

lemma updateWeightInfo_cases: "WeightTuner_updateWeightInfo t = Inl Exited \<or> (\<exists>t'. WeightTuner_updateWeightInfo t = Inr t')"
  by (simp add: WeightTuner_updateWeightInfo_def Let_def exit_ifE_def)

lemma finish_access_returns:
  assumes "finish_access t = Inr t'"
  shows "weights_ordered (tuner_weight_info t') \<and> ewma_crossedge_us t' = ewma_crossedge_us t
    \<and> propagation_latency_edgecloud_us t' = propagation_latency_edgecloud_us t \<and> ewma_crossedge_us_array t' = ewma_crossedge_us_array t"
  using assms
  by (auto simp: finish_access_def WeightTuner_updateEwmaRemoteBeaconProb_def Let_def bindE_eq_Inr assertE_eq_Inr
      split: if_splits dest!: updateWeightInfo_returns)

lemma ewma_latency_le: "ewma_latency old cur = Inr n \<Longrightarrow> old \<le> l \<Longrightarrow> cur \<le> l \<Longrightarrow> n \<le> l"
  using ewma_latency_bounds [of old cur] by (auto intro: order_trans)

lemma ewma_latency_nth:
  "ewma_latency (xs ! i) cur = Inr n \<Longrightarrow> \<forall>c \<in> set xs. c \<le> l \<Longrightarrow> i < length xs \<Longrightarrow> cur \<le> l \<Longrightarrow> n \<le> l"
  using ewma_latency_le nth_mem by blast

inductive tuner_reach :: "u32 \<Rightarrow> u32 \<Rightarrow> u32 list \<Rightarrow> weight_tuner \<Rightarrow> bool" for cross cloud p2p where
  new: "WeightTuner_new edge_idx edge_cnt client cross cloud p2p = Inr t \<Longrightarrow> tuner_reach cross cloud p2p t"
| serve: "tuner_reach cross cloud p2p t \<Longrightarrow> tuner_serve r t = Inr t' \<Longrightarrow> tuner_reach cross cloud p2p t'"

text \<open>The greatest of the configured latencies.\<close>

definition latency_bound :: "u32 \<Rightarrow> u32 \<Rightarrow> u32 list \<Rightarrow> u32" where
  "latency_bound cross cloud p2p = foldr max (if p2p = [] \<or> hd p2p = - 1 then [cross] else p2p) cloud"

definition tuner_ok :: "u32 \<Rightarrow> u32 \<Rightarrow> weight_tuner \<Rightarrow> bool" where
  "tuner_ok l cloud t \<longleftrightarrow> propagation_latency_edgecloud_us t = cloud \<and> cloud \<le> l \<and> ewma_crossedge_us t \<le> l
     \<and> (\<forall>c \<in> set (ewma_crossedge_us_array t). c \<le> l)"

lemma foldr_max: "x \<in> insert y (set xs) \<Longrightarrow> x \<le> foldr max xs y" for x :: "'a :: linorder"
  by (induction xs) (auto simp: le_max_iff_disj)

lemma unat_sum_list_le: "unat (sum_list xs) \<le> sum_list (map unat xs)" for xs :: "u32 list"
proof (induction xs)
  case (Cons x xs)
  have "unat (x + sum_list xs) \<le> unat x + unat (sum_list xs)" by (simp add: unat_word_ariths)
  with Cons show ?case by simp
qed simp

lemma average_le:
  assumes "length xs = unat n" and "\<forall>x \<in> set xs. x \<le> l" and "n \<noteq> 0"
  shows "sum_list xs div n \<le> (l :: u32)"
proof -
  have "sum_list (map unat xs) \<le> length xs * unat l" using assms(2) by (induction xs) (auto simp: word_le_nat_alt)
  then have "unat (sum_list xs) \<le> unat n * unat l" using unat_sum_list_le [of xs] assms(1) by simp
  then have "unat (sum_list xs) div unat n \<le> unat l"
    using div_le_mono [of "unat (sum_list xs)" "unat n * unat l" "unat n"] assms(3) by (simp split: if_splits)
  then show ?thesis by (simp add: word_le_nat_alt unat_div)
qed

lemma serve_ok:
  assumes "tuner_serve r t = Inr t'" and "tuner_ok l cloud t" and "weights_ordered (tuner_weight_info t)"
  shows "tuner_ok l cloud t' \<and> weights_ordered (tuner_weight_info t')"
proof (cases r)
  case (CrossLatencyOf j cur)
  then show ?thesis using assms
    by (auto simp: WeightTuner_updateEwmaCrossedgeLatency_of_j_def tuner_ok_def assertE_eq_Inr bindE_eq_Inr definedE_eq_Inr not_less
        intro: ewma_latency_le [OF _ _ order_trans] ewma_latency_nth [OF _ _ _ order_trans]
        dest!: updateWeightInfo_returns subsetD [OF set_update_subset_insert] split: if_splits)
next
  case (CrossLatency cur)
  then show ?thesis using assms
    by (auto simp: WeightTuner_updateEwmaCrossedgeLatency_def tuner_ok_def assertE_eq_Inr bindE_eq_Inr not_less
        intro: ewma_latency_le [OF _ _ order_trans] dest!: updateWeightInfo_returns split: if_splits)
next
  case (CloudLatency cur)
  then show ?thesis using assms
    by (auto simp: WeightTuner_updateEwmaEdgecloudLatency_def tuner_ok_def assertE_eq_Inr bindE_eq_Inr dest!: updateWeightInfo_returns)
qed (use assms in \<open>auto simp: WeightTuner_incrLocalBeaconAccessCnt_def WeightTuner_incrRemoteBeaconAccessCnt_def
       WeightTuner_incrRemoteBeaconAccessCntArray_def WeightTuner_setP2PEnable_def tuner_ok_def definedE_eq_Inr dest!: finish_access_returns\<close>)

lemma new_ok:
  assumes "WeightTuner_new edge_idx edge_cnt client cross cloud p2p = Inr t"
  shows "tuner_ok (latency_bound cross cloud p2p) cloud t \<and> weights_ordered (tuner_weight_info t)"
proof (cases "p2p = [] \<or> hd p2p = - 1")
  case True
  then show ?thesis using assms
    by (auto simp: WeightTuner_new_def bindE_eq_Inr definedE_eq_Inr tuner_ok_def latency_bound_def
        dest!: updateWeightInfo_returns subsetD [OF set_update_subset_insert])
next
  case False
  then have l: "\<forall>x \<in> set (cloud # p2p). x \<le> latency_bound cross cloud p2p" using foldr_max by (auto simp: latency_bound_def)
  then show ?thesis using False assms average_le [of p2p edge_cnt "latency_bound cross cloud p2p"]
    by (auto simp: WeightTuner_new_def bindE_eq_Inr definedE_eq_Inr assertE_eq_Inr tuner_ok_def dest!: updateWeightInfo_returns)
qed

lemma tuner_reach_ok:
  "tuner_reach cross cloud p2p t \<Longrightarrow> tuner_ok (latency_bound cross cloud p2p) cloud t \<and> weights_ordered (tuner_weight_info t)"
  by (induction rule: tuner_reach.induct) (use new_ok serve_ok in blast)+

lemma measurement_returns:
  assumes "measurement r t"
  shows "tuner_serve r t = Inl Exited \<or> (\<exists>t'. tuner_serve r t = Inr t')"
proof (cases r)
  case (CrossLatencyOf j cur)
  obtain m n where "ewma_latency (ewma_crossedge_us_array t ! nat j) cur = Inr m" "ewma_latency (ewma_crossedge_us t) cur = Inr n"
    using ewma_latency_bounds by blast
  then show ?thesis using CrossLatencyOf assms updateWeightInfo_cases
    by (simp add: WeightTuner_updateEwmaCrossedgeLatency_of_j_def)
next
  case (CrossLatency cur)
  obtain n where "ewma_latency (ewma_crossedge_us t) cur = Inr n" using ewma_latency_bounds by blast
  then show ?thesis using CrossLatency assms updateWeightInfo_cases by (simp add: WeightTuner_updateEwmaCrossedgeLatency_def)
next
  case (CloudLatency cur)
  obtain n where "ewma_latency (ewma_edgecloud_us t) cur = Inr n" using ewma_latency_bounds by blast
  then show ?thesis using CloudLatency assms updateWeightInfo_cases by (simp add: WeightTuner_updateEwmaEdgecloudLatency_def)
qed (use assms in simp_all)

definition example_tuner :: "u32 \<Rightarrow> weight_tuner" where
  "example_tuner cross = \<lparr>local_beacon_access_cnt = 0, remote_beacon_access_cnt = 0, remote_beacon_access_cnt_array = [0, 0, 0, 0],
     ewma_remote_beacon_prob = 0x3F400000, ewma_clientedge_us = 100, propagation_latency_edgecloud_us = 1000, ewma_crossedge_us = cross,
     ewma_edgecloud_us = 1000, ewma_crossedge_us_array = [0, cross, cross, cross], tuner_weight_info = WeightInfo_default, is_p2p_enable = False\<rparr>"

lemma example_tuner_new: "WeightTuner_new 0 4 100 cross 1000 [] = WeightTuner_updateWeightInfo (example_tuner cross)"
proof -
  have "f32_of_f64 (f64_minus f64_one (f64_div f64_one (f64_of_f32 (f32_of_u32 4)))) = 0x3F400000" by code_simp
  moreover have "replicate 4 x = [x, x, x, x]" for x :: u32 by (simp add: numeral_eq_Suc)
  ultimately show ?thesis by (simp add: WeightTuner_new_def example_tuner_def)
qed

lemma example_tuner_p2p:
  "WeightTuner_new 0 4 100 0 1000 [0, 100, 100, 3000]
    = WeightTuner_updateWeightInfo ((example_tuner 800)\<lparr>ewma_crossedge_us_array := [0, 100, 100, 3000]\<rparr>)"
proof -
  have "f32_of_f64 (f64_minus f64_one (f64_div f64_one (f64_of_f32 (f32_of_u32 4)))) = 0x3F400000" by code_simp
  moreover have "replicate 4 x = [x, x, x, x]" for x :: u32 by (simp add: numeral_eq_Suc)
  moreover have "(0 :: u32) \<noteq> - 1" by simp
  ultimately show ?thesis by (simp add: WeightTuner_new_def example_tuner_def)
qed

lemma example_weights:
  "WeightTuner_updateWeightInfo (example_tuner 950) = Inr ((example_tuner 950)\<lparr>tuner_weight_info := WeightInfo_new 0x44D61000 0x42480000\<rparr>)"
  "WeightTuner_updateWeightInfo ((example_tuner 800)\<lparr>ewma_crossedge_us_array := [0, 100, 100, 3000]\<rparr>)
     = Inr ((example_tuner 800)\<lparr>ewma_crossedge_us_array := [0, 100, 100, 3000], tuner_weight_info := WeightInfo_new 0x44C80000 0x43480000\<rparr>)"
  by code_simp+

text \<open>C37: The averages of a tuner stay in range. In every state it reaches, from configured latencies of all links or from a measured
  latency of each, the averages of the cross-edge latencies never exceed the greatest of the configured cross-edge and
  edge-cloud latencies, however long the measurements are; every later measurement returns or ends in the verification of
  the weights, never in an undefined conversion; and when it returns, the weights are not negative and a local hit weighs
  at least as much as a cooperative one.\<close>

theorem weight_tuner_invariant:
  assumes "tuner_reach cross cloud p2p t"
  shows "ewma_crossedge_us t \<le> latency_bound cross cloud p2p
    \<and> (\<forall>c \<in> set (ewma_crossedge_us_array t). c \<le> latency_bound cross cloud p2p)
    \<and> propagation_latency_edgecloud_us t = cloud \<and> weights_ordered (tuner_weight_info t)
    \<and> (\<forall>r. measurement r t \<longrightarrow> tuner_serve r t = Inl Exited \<or> (\<exists>t'. tuner_serve r t = Inr t'))"
  using tuner_reach_ok [OF assms] measurement_returns by (auto simp: tuner_ok_def)

text \<open>One node of four is farther away than the cloud.\<close>

theorem weight_tuner_invariant_witness:
  "\<exists>t. tuner_reach 0 1000 [0, 100, 100, 3000] t \<and> latency_bound 0 1000 [0, 100, 100, 3000] = 3000
     \<and> ewma_crossedge_us_array t = [0, 100, 100, 3000] \<and> ewma_crossedge_us t \<le> 3000
     \<and> (tuner_serve (CrossLatencyOf 3 900) t = Inl Exited \<or> (\<exists>t'. tuner_serve (CrossLatencyOf 3 900) t = Inr t'))"
proof -
  define t where "t = (example_tuner 800)\<lparr>ewma_crossedge_us_array := [0, 100, 100, 3000],
      tuner_weight_info := WeightInfo_new 0x44C80000 0x43480000\<rparr>"
  have "WeightTuner_new 0 4 100 0 1000 [0, 100, 100, 3000] = Inr t" unfolding example_tuner_p2p example_weights t_def ..
  then have r: "tuner_reach 0 1000 [0, 100, 100, 3000] t" by (rule tuner_reach.new)
  have a: "ewma_crossedge_us_array t = [0, 100, 100, 3000]" by (simp add: t_def)
  have l: "latency_bound 0 1000 [0, 100, 100, 3000] = 3000" by code_simp
  have "measurement (CrossLatencyOf 3 900) t" by (simp add: a)
  then show ?thesis using weight_tuner_invariant [OF r, unfolded l] r l a by blast
qed

section \<open>A fast cloud\<close>

lemma f32_neg_val:
  assumes "f32_val x = Fin m"
  shows "f32_val (f32_neg x) = Fin (- m)"
proof -
  have u: "uint (f32_neg x) = uint x XOR 2147483648" by (simp add: f32_neg_def unsigned_xor_eq)
  have b: "bit (2147483648 :: int) i \<longleftrightarrow> i = 31" for i
    using bit_exp_iff [where 'a = int, of 31 i] by (simp add: ac_simps)
  have "take_bit 23 (uint (f32_neg x)) = take_bit 23 (uint x)" unfolding u
    by (rule bit_eqI) (auto simp: bit_take_bit_iff bit_xor_iff b)
  then have f: "f32_fraction (f32_neg x) = f32_fraction x" by (simp add: f32_fraction_def take_bit_eq_mod)
  have "take_bit 8 (drop_bit 23 (uint (f32_neg x))) = take_bit 8 (drop_bit 23 (uint x))" unfolding u
    by (rule bit_eqI) (auto simp: bit_take_bit_iff bit_drop_bit_eq bit_xor_iff b)
  then have e: "f32_exponent (f32_neg x) = f32_exponent x" by (simp add: f32_exponent_def take_bit_eq_mod drop_bit_eq_div)
  have s: "f32_negative y \<longleftrightarrow> bit (uint y) 31" for y :: u32
  proof -
    have "uint y div 2 ^ 31 < 2" using uint_lt2p [of y] by (simp add: div_less_iff_less_mult)
    moreover have "0 \<le> uint y div 2 ^ 31" by (simp add: pos_imp_zdiv_nonneg_iff)
    ultimately have "uint y div 2 ^ 31 = 0 \<or> uint y div 2 ^ 31 = 1" by linarith
    moreover have "uint y div 2 ^ 31 = 0 \<longleftrightarrow> uint y < 2 ^ 31" by (auto simp: div_pos_pos_trivial dest!: arg_cong [of _ _ "\<lambda>n. n < 1"] simp: div_less_iff_less_mult)
    ultimately show ?thesis by (auto simp: f32_negative_def bit_iff_odd)
  qed
  have "f32_negative (f32_neg x) \<longleftrightarrow> \<not> f32_negative x" unfolding s u by (simp add: bit_xor_iff b)
  then show ?thesis using assms f e by (auto simp: f32_val_def Let_def split: if_splits)
qed


lemma round_scaled_near_ratio:
  assumes "0 < d" and "0 \<le> n"
  shows "2 ^ 24 * \<bar>round_scaled n d * d - n\<bar> \<le> n + 2 ^ 23 * d"
proof -
  define s where "s = round_shift n d"
  have near: "2 * \<bar>round_scaled n d * d - n\<bar> \<le> d * 2 ^ s"
    using round_quot_near [of "d * 2 ^ s" n] assms by (simp add: round_scaled_alt s_def ac_simps)
  show ?thesis
  proof (cases "s = 0")
    case True
    then show ?thesis using near assms by simp
  next
    case False
    then have "2 ^ 23 \<le> n div (d * 2 ^ s)" using round_quot_bounds(3) [OF assms] by (simp add: s_def)
    then have "2 ^ 23 * (d * 2 ^ s) \<le> n" using assms(1) by (intro mult_div_le) simp_all
    then show ?thesis using near assms(1) by simp
  qed
qed

lemma scaled_abs: "2 ^ 24 * \<bar>x\<bar> \<le> y \<Longrightarrow> 2 ^ 24 * x \<le> y \<and> - y \<le> 2 ^ 24 * x" for x y :: int
  by (auto simp: abs_if split: if_splits)

lemma f32_mult_near:
  assumes "f32_val x = Fin m" and "f32_val y = Fin n" and "0 \<le> m" and "0 \<le> n" and "m * n \<le> 2 ^ 400"
  obtains r where "f32_val (f32_mult x y) = Fin r" "2 ^ 24 * (r * 2 ^ 149) \<le> (2 ^ 24 + 1) * (m * n) + 2 ^ 172"
    "(2 ^ 24 - 1) * (m * n) - 2 ^ 172 \<le> 2 ^ 24 * (r * 2 ^ 149)" "0 \<le> r"
proof -
  define r where "r = round_scaled (m * n) (2 ^ 149)"
  have mn: "0 \<le> m * n" using assms by simp
  have near: "2 ^ 24 * (r * 2 ^ 149) \<le> (2 ^ 24 + 1) * (m * n) + 2 ^ 172" "(2 ^ 24 - 1) * (m * n) - 2 ^ 172 \<le> 2 ^ 24 * (r * 2 ^ 149)"
    using scaled_abs [OF round_scaled_near_ratio [of "2 ^ 149" "m * n"]] mn by (simp_all add: r_def)
  have small: "r < 2 ^ 277" using near(1) assms(5) by simp
  have r0: "0 \<le> r" unfolding r_def round_scaled_alt using round_quot_bounds(1) [of "2 ^ 149" "m * n"] mn by simp
  define neg where "neg = (f32_negative x \<noteq> f32_negative y)"
  have "f32_mult x y = f32_round neg (m * n) (2 ^ 149)" using assms(1,2) mn by (simp add: f32_mult_def neg_def)
  then have v: "f32_val (f32_mult x y) = Fin ((if neg then - 1 else 1) * r)"
    using f32_round_val [of "2 ^ 149" "m * n" neg, folded r_def] small mn by simp
  have "m * n = 0" if neg
    using that f32_negative_sign [OF assms(1)] f32_negative_sign [OF assms(2)] assms(3,4) by (auto simp: neg_def)
  then have "2 ^ 24 * (r * 2 ^ 149) \<le> 2 ^ 172" if neg using near(1) that by (simp only: mult_zero_right add_0)
  then have "r = 0" if neg using r0 that by fastforce
  then have "f32_val (f32_mult x y) = Fin r" using v by (cases neg) simp_all
  then show ?thesis using that near r0 by blast
qed

lemma f32_add_near:
  assumes "f32_val x = Fin m" and "f32_val y = Fin n" and "0 \<le> m" and "0 \<le> n" and "m + n \<le> 2 ^ 270"
  obtains r where "f32_val (f32_add x y) = Fin r" "2 ^ 24 * r \<le> (2 ^ 24 + 1) * (m + n)" "(2 ^ 24 - 1) * (m + n) \<le> 2 ^ 24 * r"
proof -
  define r where "r = round_scaled (m + n) 1"
  have near: "2 ^ 24 * r \<le> (2 ^ 24 + 1) * (m + n)" "(2 ^ 24 - 1) * (m + n) \<le> 2 ^ 24 * r"
    using scaled_abs [OF round_scaled_near [of "m + n"]] assms(3,4) by (simp_all add: r_def)
  have "r < 2 ^ 277" using near(1) assms(5) by simp
  moreover have "sgn (m + n) * r = r" using near assms(3,4) by (auto simp: sgn_if)
  ultimately have "f32_val (f32_add x y) = Fin r" using assms f32_add_val [OF assms(1,2)] by (simp add: r_def)
  then show ?thesis using that near by blast
qed

lemma f32_minus_negative:
  assumes "f32_val x = Fin m" and "f32_val y = Fin n" and "m < n"
  shows "fval_less (f32_val (f32_minus x y)) (Fin 0)"
proof -
  have "2 ^ 24 * \<bar>round_scaled (n - m) 1 - (n - m)\<bar> \<le> n - m" using round_scaled_near [of "n - m"] assms(3) by simp
  then have "0 < round_scaled (n - m) 1" using assms(3) by (simp add: abs_if split: if_splits)
  moreover have "f32_val (f32_minus x y) = (if round_scaled \<bar>m + - n\<bar> 1 < 2 ^ 277
      then Fin (sgn (m + - n) * round_scaled \<bar>m + - n\<bar> 1) else Inf (m + - n < 0))"
    unfolding f32_minus_def by (rule f32_add_val [OF assms(1) f32_neg_val [OF assms(2)]])
  ultimately show ?thesis using assms(3) by (simp add: fval_less_def abs_if sgn_if)
qed

lemma f32_of_u32_val:
  assumes "n < 2 ^ 24"
  shows "f32_val (f32_of_u32 n) = Fin (uint n * 2 ^ 149)"
proof -
  have n: "0 \<le> uint n" "uint n < 2 ^ 24" using assms by (simp_all add: word_less_def)
  have "\<bar>uint n\<bar> < 2 ^ 24" using n by simp
  then have "round_scaled (uint n * 2 ^ 149) 1 = uint n * 2 ^ 149"
    using round_scaled_nearest(1) [of "uint n * 2 ^ 149" "uint n" 149] n by simp
  then show ?thesis using n by (simp add: f32_of_u32_def f32_round_val)
qed

text \<open>The weights of up to about a second, with a probability: the rounding errors of the two latencies stay below one microsecond.\<close>

lemma negative_weight_exits:
  assumes "float_in_01 (ewma_remote_beacon_prob t)" and "ewma_clientedge_us t \<le> 2 ^ 20" and "ewma_crossedge_us t \<le> 2 ^ 20"
    and "ewma_edgecloud_us t < ewma_crossedge_us t"
  shows "WeightTuner_updateWeightInfo t = Inl Exited"
proof -
  let ?U = "2 ^ 149 :: int"
  define cl cr cd p where "cl = uint (ewma_clientedge_us t)" and "cr = uint (ewma_crossedge_us t)" and "cd = uint (ewma_edgecloud_us t)"
    and "p = f32_scaled (ewma_remote_beacon_prob t)"
  have r: "0 \<le> cl" "cl \<le> 2 ^ 20" "0 \<le> cr" "cr \<le> 2 ^ 20" "0 \<le> cd" "cd + 1 \<le> cr"
    using assms(2-4) by (simp_all add: cl_def cr_def cd_def word_le_def word_less_def)
  have P: "f32_val (ewma_remote_beacon_prob t) = Fin p" "0 \<le> p" "p \<le> ?U"
    using assms(1) by (cases "f32_val (ewma_remote_beacon_prob t)"; auto simp: float_in_01_def fval_le_def fval_less_def p_def f32_scaled_def split: if_splits)+
  have small: "ewma_clientedge_us t < 2 ^ 24" "ewma_crossedge_us t < 2 ^ 24" "ewma_edgecloud_us t < 2 ^ 24"
    using r by (simp_all add: word_less_def cl_def cr_def cd_def)
  note v = small [THEN f32_of_u32_val, folded cl_def cr_def cd_def]
  define a where "a = p * cr"
  have a: "0 \<le> a" "a \<le> ?U * 2 ^ 20" using P r mult_mono [OF P(3) r(4)] by (simp_all add: a_def)
  have pa: "p * (cr * ?U) = a * ?U" by (simp add: a_def)
  obtain A where A: "f32_val (f32_mult (ewma_remote_beacon_prob t) (f32_of_u32 (ewma_crossedge_us t))) = Fin A"
      "2 ^ 24 * (A * ?U) \<le> (2 ^ 24 + 1) * (a * ?U) + 2 ^ 172" "(2 ^ 24 - 1) * (a * ?U) - 2 ^ 172 \<le> 2 ^ 24 * (A * ?U)" "0 \<le> A"
    by (rule f32_mult_near [OF P(1) v(2) P(2), unfolded pa]) (use r a in simp_all)
  obtain B where B: "f32_val (f32_add (f32_of_u32 (ewma_clientedge_us t)) (f32_mult (ewma_remote_beacon_prob t) (f32_of_u32 (ewma_crossedge_us t)))) = Fin B"
      "2 ^ 24 * B \<le> (2 ^ 24 + 1) * (cl * ?U + A)" "(2 ^ 24 - 1) * (cl * ?U + A) \<le> 2 ^ 24 * B"
    by (rule f32_add_near [OF v(1) A(1) _ A(4)]) (use r A a in simp_all)
  obtain C where C: "f32_val (f32_add (f32_add (f32_of_u32 (ewma_clientedge_us t)) (f32_mult (ewma_remote_beacon_prob t)
        (f32_of_u32 (ewma_crossedge_us t)))) (f32_of_u32 (ewma_edgecloud_us t))) = Fin C"
      "2 ^ 24 * C \<le> (2 ^ 24 + 1) * (B + cd * ?U)" "(2 ^ 24 - 1) * (B + cd * ?U) \<le> 2 ^ 24 * C"
    by (rule f32_add_near [OF B(1) v(3)]) (use r A B a in simp_all)
  have one: "f32_val 0x3F800000 = Fin ?U" by code_simp
  obtain D where D: "f32_val (f32_add (ewma_remote_beacon_prob t) 0x3F800000) = Fin D"
      "2 ^ 24 * D \<le> (2 ^ 24 + 1) * (p + ?U)" "(2 ^ 24 - 1) * (p + ?U) \<le> 2 ^ 24 * D"
    by (rule f32_add_near [OF P(1) one P(2)]) (use P in simp_all)
  define g where "g = D * cr"
  have "(2 ^ 24 - 1) * (p + ?U) * cr \<le> 2 ^ 24 * D * cr" using D(3) r(3) by (intro mult_right_mono) simp_all
  then have g: "(2 ^ 24 - 1) * (a + cr * ?U) \<le> 2 ^ 24 * g" by (simp add: g_def a_def algebra_simps)
  have "2 ^ 24 * D * cr \<le> (2 ^ 24 + 1) * (p + ?U) * cr" using D(2) r(3) by (intro mult_right_mono) simp_all
  then have g2: "2 ^ 24 * g \<le> (2 ^ 24 + 1) * (a + cr * ?U)" by (simp add: g_def a_def algebra_simps)
  have pg: "D * (cr * ?U) = g * ?U" by (simp add: g_def)
  have D0: "0 \<le> D" using D(3) P by simp
  obtain E where E: "f32_val (f32_mult (f32_add (ewma_remote_beacon_prob t) 0x3F800000) (f32_of_u32 (ewma_crossedge_us t))) = Fin E"
      "2 ^ 24 * (E * ?U) \<le> (2 ^ 24 + 1) * (g * ?U) + 2 ^ 172" "(2 ^ 24 - 1) * (g * ?U) - 2 ^ 172 \<le> 2 ^ 24 * (E * ?U)" "0 \<le> E"
    by (rule f32_mult_near [OF D(1) v(2) D0, unfolded pg]) (use r a g2 in simp_all)
  obtain F where F: "f32_val (f32_add (f32_of_u32 (ewma_clientedge_us t)) (f32_mult (f32_add (ewma_remote_beacon_prob t) 0x3F800000)
        (f32_of_u32 (ewma_crossedge_us t)))) = Fin F"
      "2 ^ 24 * F \<le> (2 ^ 24 + 1) * (cl * ?U + E)" "(2 ^ 24 - 1) * (cl * ?U + E) \<le> 2 ^ 24 * F"
    by (rule f32_add_near [OF v(1) E(1) _ E(4)]) (use r E a g2 in simp_all)
  have "C < F" using A(2) B(2) C(2) E(3) F(3) g r a by simp
  from f32_minus_negative [OF C(1) F(1) this] show ?thesis
    by (simp add: WeightTuner_updateWeightInfo_def Let_def exit_ifE_def)
qed

text \<open>C38: A cloud that answers faster than the neighbours stops an edge node. Cross-edge measurements are compared with the
  configured edge-cloud latency, but the average of the edge-cloud latency may fall below the average of the cross-edge
  latency. For latencies up to about a second, every measurement that leaves it there ends the process, whatever the share
  of remote beacons: the cooperative weight is negative in spite of all rounding.\<close>

theorem fast_cloud_answer_exits:
  assumes "float_in_01 (ewma_remote_beacon_prob t)" and "ewma_clientedge_us t \<le> 2 ^ 20" and "ewma_crossedge_us t \<le> 2 ^ 20"
    and "0 < cur" and "ewma_latency (ewma_edgecloud_us t) cur = Inr n" and "n < ewma_crossedge_us t"
  shows "WeightTuner_updateEwmaEdgecloudLatency cur t = Inl Exited"
  using negative_weight_exits [of "t\<lparr>ewma_edgecloud_us := n\<rparr>"] assms by (simp add: WeightTuner_updateEwmaEdgecloudLatency_def)

text \<open>The configured latencies are \<open>950\<close> and \<open>1000\<close> microseconds and a single answer of the cloud takes \<open>100\<close>.\<close>

theorem fast_cloud_answer_exits_witness:
  "\<exists>t. WeightTuner_new 0 4 100 950 1000 [] = Inr t \<and> WeightTuner_updateEwmaEdgecloudLatency 100 t = Inl Exited"
proof -
  let ?t = "(example_tuner 950)\<lparr>tuner_weight_info := WeightInfo_new 0x44D61000 0x42480000\<rparr>"
  have t: "WeightTuner_new 0 4 100 950 1000 [] = Inr ?t" unfolding example_tuner_new example_weights(1) ..
  have "float_in_01 0x3F400000" "ewma_latency 1000 100 = Inr 910" by code_simp+
  then have "WeightTuner_updateEwmaEdgecloudLatency 100 ?t = Inl Exited"
    by (intro fast_cloud_answer_exits [where n = 910]) (simp_all add: example_tuner_def)
  then show ?thesis using t by blast
qed

end
