(* ===== verification/Victim_Tracker.thy ===== *)
theory Victim_Tracker
  imports Covered_Cooperation Weight_Tuner
begin

text \<open>
  \<open>VictimTracker\<close> (\<open>src/src/core/victim_tracker.c\<close>): the victims of all edge nodes as one edge node knows them. Each public
  operation runs under the write lock of the tracker from its first to its last line (the read lock for the two that compute
  costs), so it is one step here. Edge indexes are positions in vectors. \<open>is_assert env\<close> is
  \<open>Config::isAssert()\<close>, which \<open>MYASSERT\<close> tests too.
\<close>

record victim_tracker =
  tracker_edge_idx :: u32
  peredge_synced_victimcnt :: u32
  peredge_monitored_victimsetcnt :: u32
  tracker_size_bytes :: u64
  peredge_victim_metadata :: "edgelevel_victim_metadata list"
  perkey_victim_dirinfo :: "(key \<times> victim_dirinfo) list"
  peredge_victimsync_monitor :: "victimsync_monitor list"

definition add_size :: "u64 \<Rightarrow> victim_tracker \<Rightarrow> victim_tracker exec" where
  "add_size n t = bindE (Util_uint64Add (tracker_size_bytes t) n) (\<lambda>b. Inr (t\<lparr>tracker_size_bytes := b\<rparr>))"

definition sub_size :: "u64 \<Rightarrow> victim_tracker \<Rightarrow> victim_tracker" where
  "sub_size n t = t\<lparr>tracker_size_bytes := Util_uint64Minus (tracker_size_bytes t) n\<rparr>"

text \<open>The counter follows the size of a part that changed.\<close>

definition resize :: "u64 \<Rightarrow> u64 \<Rightarrow> victim_tracker \<Rightarrow> victim_tracker exec" where
  "resize start end t =
     (if start < end then add_size (Util_uint64Minus end start) t
      else if end < start then Inr (sub_size (Util_uint64Minus start end) t) else Inr t)"

definition set_metadata :: "u32 \<Rightarrow> edgelevel_victim_metadata \<Rightarrow> victim_tracker \<Rightarrow> victim_tracker" where
  "set_metadata e m t = t\<lparr>peredge_victim_metadata := (peredge_victim_metadata t)[unat e := m]\<rparr>"

definition set_monitor :: "u32 \<Rightarrow> victimsync_monitor \<Rightarrow> victim_tracker \<Rightarrow> victim_tracker" where
  "set_monitor e m t = t\<lparr>peredge_victimsync_monitor := (peredge_victimsync_monitor t)[unat e := m]\<rparr>"

fun add_monitor_sizes :: "victimsync_monitor list \<Rightarrow> victim_tracker \<Rightarrow> victim_tracker exec" where
  "add_monitor_sizes [] t = Inr t"
| "add_monitor_sizes (m # ms) t =
     bindE (VictimsyncMonitor_getSizeForCapacity m) (\<lambda>n. bindE (add_size n t) (\<lambda>t. add_monitor_sizes ms t))"

definition VictimTracker_new :: "u32 \<Rightarrow> u32 \<Rightarrow> u32 \<Rightarrow> u32 \<Rightarrow> victim_tracker exec" where
  "VictimTracker_new edge_idx cnt synced_victimcnt monitored_victimsetcnt =
     (let monitors = replicate (unat cnt) VictimsyncMonitor_new
      in add_monitor_sizes monitors
           \<lparr>tracker_edge_idx = edge_idx, peredge_synced_victimcnt = synced_victimcnt,
            peredge_monitored_victimsetcnt = monitored_victimsetcnt, tracker_size_bytes = 0,
            peredge_victim_metadata = replicate (unat cnt) EdgelevelVictimMetadata_new, perkey_victim_dirinfo = [],
            peredge_victimsync_monitor = monitors\<rparr>)"

section \<open>Directory information of victims\<close>

definition VictimTracker_tryToReleaseVictimDirinfo :: "key \<Rightarrow> victim_tracker \<Rightarrow> victim_tracker exec" where
  "VictimTracker_tryToReleaseVictimDirinfo key t =
     (let ds = perkey_victim_dirinfo t; i = KVListHelper_findVFromListForK key ds
      in if i \<noteq> length ds
         then let d = fst (VictimDirinfo_decrRefcnt (snd (ds ! i))); t = t\<lparr>perkey_victim_dirinfo := ds[i := (fst (ds ! i), d)]\<rparr>
              in if refcnt d = 0
                 then bindE (VictimDirinfo_getSizeForCapacity d) (\<lambda>n.
                      Inr ((sub_size (ucast (Key_getKeyLength key) + n) t)
                             \<lparr>perkey_victim_dirinfo := erase_at i (perkey_victim_dirinfo t)\<rparr>))
                 else Inr t
         else Inr t)"

fun release_loop :: "key list \<Rightarrow> victim_tracker \<Rightarrow> victim_tracker exec" where
  "release_loop [] t = Inr t"
| "release_loop (k # ks) t = bindE (VictimTracker_tryToReleaseVictimDirinfo k t) (\<lambda>t. release_loop ks t)"

text \<open>Take one more reference to the victim information of a key, which is inserted first if it is new.\<close>

definition refer_to ::
    "('m, 'z) lock_env_scheme \<Rightarrow> key \<Rightarrow> u32 \<Rightarrow> victim_tracker \<Rightarrow> victim_tracker exec" where
  "refer_to env key beacon t =
     (let ds = perkey_victim_dirinfo t; i = KVListHelper_findVFromListForK key ds
      in if i = length ds
         then bindE (VictimDirinfo_new beacon) (\<lambda>d.
              let d = VictimDirinfo_incrRefcnt d; t = t\<lparr>perkey_victim_dirinfo := ds @ [(key, d)]\<rparr>
              in bindE (VictimDirinfo_getSizeForCapacity d) (\<lambda>n. add_size (ucast (Key_getKeyLength key) + n) t))
         else myassertE env (Inr (beacon_edge_idx (snd (ds ! i)) = beacon))
                (Inr (t\<lparr>perkey_victim_dirinfo := ds[i := (fst (ds ! i), VictimDirinfo_incrRefcnt (snd (ds ! i)))]\<rparr>)))"

fun add_victims_loop ::
    "('m, 'z) lock_env_scheme \<Rightarrow> ('m, 'g) cooperation_wrapper \<Rightarrow> victim_cacheinfo list \<Rightarrow> victim_tracker
     \<Rightarrow> victim_tracker exec" where
  "add_victims_loop env w [] t = Inr t"
| "add_victims_loop env w (v # vs) t =
     bindE (VictimCacheinfo_isComplete v) (\<lambda>c. assertE c (
     bindE (VictimCacheinfo_getSizeForCapacity v) (\<lambda>n.
     bindE (add_size n t) (\<lambda>t.
     bindE (VictimCacheinfo_getKey v) (\<lambda>key.
     bindE (victim_beacon w v key) (\<lambda>beacon.
     bindE (refer_to env key beacon t) (\<lambda>t. add_victims_loop env w vs t)))))))"

fun remove_old_loop :: "victim_cacheinfo list \<Rightarrow> victim_tracker \<Rightarrow> victim_tracker exec" where
  "remove_old_loop [] t = Inr t"
| "remove_old_loop (v # vs) t =
     bindE (VictimCacheinfo_isComplete v) (\<lambda>c. assertE c (
     bindE (VictimCacheinfo_getSizeForCapacity v) (\<lambda>n.
     let t = sub_size n t
     in bindE (VictimCacheinfo_getKey v) (\<lambda>key.
     bindE (VictimTracker_tryToReleaseVictimDirinfo key t) (\<lambda>t. remove_old_loop vs t)))))"

definition VictimTracker_replaceVictimMetadataForEdgeIdx ::
    "('m, 'z) lock_env_scheme \<Rightarrow> ('m, 'g) cooperation_wrapper \<Rightarrow> u32 \<Rightarrow> u64 \<Rightarrow> victim_cacheinfo list \<Rightarrow> victim_tracker
     \<Rightarrow> victim_tracker exec" where
  "VictimTracker_replaceVictimMetadataForEdgeIdx env w edge_idx margin victims t =
     assertE (length victims \<le> unat (peredge_synced_victimcnt t)) (
     bindE (nthE (peredge_victim_metadata t) (unat edge_idx)) (\<lambda>m.
     bindE (if \<not> metadata_valid m
            then bindE (EdgelevelVictimMetadata_validate (is_assert env) margin victims) (\<lambda>m.
                 assertE (metadata_valid m) (
                 bindE (add_size 8 (set_metadata edge_idx m t)) (\<lambda>t. Inr (t, []))))
            else bindE (EdgelevelVictimMetadata_getVictimCacheinfos m) (\<lambda>old.
                 bindE (EdgelevelVictimMetadata_validate (is_assert env) margin victims) (\<lambda>m.
                 Inr (set_metadata edge_idx m t, old)))) (\<lambda>(t, old).
     bindE (add_victims_loop env w victims t) (\<lambda>t.
     remove_old_loop old t))))"

text \<open>A victim of a local beacon that is not tracked is inserted.\<close>

definition ensure_local_dirinfo ::
    "('m, 'z) lock_env_scheme \<Rightarrow> key \<Rightarrow> dirinfo_set \<Rightarrow> nat \<Rightarrow> victim_tracker \<Rightarrow> victim_tracker exec" where
  "ensure_local_dirinfo env key s i t =
     bindE (if i = length (perkey_victim_dirinfo t)
            then bindE (VictimDirinfo_new_set (tracker_edge_idx t) s) (\<lambda>d.
                 let d = VictimDirinfo_incrRefcnt d;
                     t = t\<lparr>perkey_victim_dirinfo := perkey_victim_dirinfo t @ [(key, d)]\<rparr>
                 in bindE (VictimDirinfo_getSizeForCapacity d) (\<lambda>n. add_size (ucast (Key_getKeyLength key) + n) t))
            else Inr t) (\<lambda>t.
     myassertE env (Inr (beacon_edge_idx (snd (perkey_victim_dirinfo t ! i)) = tracker_edge_idx t)) (Inr t))"

definition store_dirinfo_set :: "dirinfo_set \<Rightarrow> nat \<Rightarrow> victim_tracker \<Rightarrow> victim_tracker exec" where
  "store_dirinfo_set s i t =
     (let (k, d) = perkey_victim_dirinfo t ! i
      in bindE (VictimDirinfo_getSizeForCapacity d) (\<lambda>prev.
         bindE (VictimDirinfo_setDirinfoSet s d) (\<lambda>d.
         let t = t\<lparr>perkey_victim_dirinfo := (perkey_victim_dirinfo t)[i := (k, d)]\<rparr>
         in bindE (VictimDirinfo_getSizeForCapacity d) (\<lambda>cur.
            if prev < cur then add_size (cur - prev) t
            else if cur < prev then Inr (sub_size (prev - cur) t) else Inr t))))"

fun VictimTracker_replaceVictimDirinfoSets ::
    "('m, 'z) lock_env_scheme \<Rightarrow> bool \<Rightarrow> (key \<times> dirinfo_set) list \<Rightarrow> victim_tracker \<Rightarrow> victim_tracker exec" where
  "VictimTracker_replaceVictimDirinfoSets env is_local_beaconed [] t = Inr t"
| "VictimTracker_replaceVictimDirinfoSets env is_local_beaconed ((key, s) # ss) t =
     completeE s (
     let i = KVListHelper_findVFromListForK key (perkey_victim_dirinfo t)
     in bindE (if is_local_beaconed then ensure_local_dirinfo env key s i t else Inr t) (\<lambda>t.
        bindE (if i \<noteq> length (perkey_victim_dirinfo t) then store_dirinfo_set s i t else Inr t) (\<lambda>t.
        VictimTracker_replaceVictimDirinfoSets env is_local_beaconed ss t)))"

section \<open>Local victims\<close>

definition VictimTracker_updateLocalCacheMarginBytes ::
    "('m, 'z) lock_env_scheme \<Rightarrow> u64 \<Rightarrow> victim_tracker \<Rightarrow> victim_tracker exec" where
  "VictimTracker_updateLocalCacheMarginBytes env margin t =
     bindE (nthE (peredge_victim_metadata t) (unat (tracker_edge_idx t))) (\<lambda>m.
     if \<not> metadata_valid m
     then bindE (EdgelevelVictimMetadata_validate (is_assert env) margin []) (\<lambda>m.
          assertE (metadata_valid m) (add_size 8 (set_metadata (tracker_edge_idx t) m t)))
     else bindE (EdgelevelVictimMetadata_updateCacheMarginBytes margin m) (\<lambda>m.
          Inr (set_metadata (tracker_edge_idx t) m t)))"

definition VictimTracker_updateLocalSyncedVictims ::
    "('m, 'z) lock_env_scheme \<Rightarrow> u64 \<Rightarrow> victim_cacheinfo list \<Rightarrow> ('m, 'g) cooperation_wrapper \<Rightarrow> victim_tracker
     \<Rightarrow> (('m, 'g) cooperation_wrapper \<times> victim_tracker) exec" where
  "VictimTracker_updateLocalSyncedVictims env margin victims w t =
     bindE (VictimTracker_replaceVictimMetadataForEdgeIdx env w (tracker_edge_idx t) margin victims t) (\<lambda>t.
     bindE (local_beaconed_sets env w victims) (\<lambda>(w, sets).
     bindE (VictimTracker_replaceVictimDirinfoSets env True sets t) (\<lambda>t. Inr (w, t))))"

definition VictimTracker_updateLocalBeaconedVictimDirinfo ::
    "('m, 'z) lock_env_scheme \<Rightarrow> key \<Rightarrow> bool \<Rightarrow> directory_info \<Rightarrow> victim_tracker \<Rightarrow> victim_tracker exec" where
  "VictimTracker_updateLocalBeaconedVictimDirinfo env key is_admit info t =
     (let ds = perkey_victim_dirinfo t; i = KVListHelper_findVFromListForK key ds
      in if i \<noteq> length ds
         then myassertE env (Inr (beacon_edge_idx (snd (ds ! i)) = tracker_edge_idx t)) (
              bindE (VictimDirinfo_updateDirinfoSet is_admit info (snd (ds ! i))) (\<lambda>(d, is_update).
              let t = t\<lparr>perkey_victim_dirinfo := ds[i := (fst (ds ! i), d)]\<rparr>
              in if is_update
                 then if is_admit then add_size (DirectoryInfo_getSizeForCapacity info) t
                      else Inr (sub_size (DirectoryInfo_getSizeForCapacity info) t)
                 else Inr t))
         else Inr t)"

section \<open>Synchronisation\<close>

fun push_beaconed_loop :: "u32 \<Rightarrow> (key \<times> victim_dirinfo) list \<Rightarrow> victim_syncset \<Rightarrow> victim_syncset exec" where
  "push_beaconed_loop edge_idx [] s = Inr s"
| "push_beaconed_loop edge_idx ((key, d) # ds) s =
     (if beacon_edge_idx d = edge_idx
      then bindE (VictimDirinfo_getDirinfoSetRef d) (\<lambda>set.
           bindE (VictimSyncset_pushLocalBeaconedVictimForComplete key set s) (\<lambda>s. push_beaconed_loop edge_idx ds s))
      else push_beaconed_loop edge_idx ds s)"

definition VictimTracker_getVictimSyncset :: "bool \<Rightarrow> u32 \<Rightarrow> victim_syncset \<Rightarrow> victim_tracker \<Rightarrow> victim_syncset exec" where
  "VictimTracker_getVictimSyncset chk edge_idx s t =
     bindE (nthE (peredge_victim_metadata t) (unat edge_idx)) (\<lambda>m.
     bindE (if metadata_valid m
            then bindE (EdgelevelVictimMetadata_getCacheMarginBytes m) (\<lambda>margin.
                 bindE (EdgelevelVictimMetadata_getVictimCacheinfos m) (\<lambda>victims. Inr (margin, victims)))
            else Inr (0, [])) (\<lambda>(margin, victims).
     bindE (VictimSyncset_setCacheMarginBytes margin s) (\<lambda>s.
     bindE (VictimSyncset_setLocalSyncedVictims chk victims s) (\<lambda>s.
     bindE (push_beaconed_loop edge_idx (perkey_victim_dirinfo t) s) (\<lambda>s.
     bindE (VictimSyncset_isComplete s) (\<lambda>c. assertE c (Inr s)))))))"

definition VictimTracker_getLocalVictimSyncsetForSynchronization ::
    "bool \<Rightarrow> u32 \<Rightarrow> u64 \<Rightarrow> victim_tracker \<Rightarrow> (victim_tracker \<times> victim_syncset) exec" where
  "VictimTracker_getLocalVictimSyncsetForSynchronization chk dst margin t =
     bindE (nthE (peredge_victimsync_monitor t) (unat dst)) (\<lambda>monitor.
     bindE (VictimsyncMonitor_getSizeForCapacity monitor) (\<lambda>start.
     bindE (VictimTracker_getVictimSyncset chk (tracker_edge_idx t) (VictimSyncset_empty 0 False) t) (\<lambda>current.
     bindE (VictimSyncset_isComplete current) (\<lambda>c. assertE c (
     bindE (VictimSyncset_setCacheMarginBytes margin current) (\<lambda>current.
     bindE (VictimsyncMonitor_replacePrevVictimSyncset chk current monitor) (\<lambda>(monitor, current, final).
     let t = set_monitor dst monitor t
     in bindE (VictimsyncMonitor_getSizeForCapacity monitor) (\<lambda>end.
        bindE (resize start end t) (\<lambda>t. Inr (t, final))))))))))"

text \<open>How a received syncset changes the monitor of its source, and the complete syncset that the tracker then holds,
  if it changes: the received one, or one recovered from it and from what is known.\<close>

definition receive_syncset ::
    "bool \<Rightarrow> u32 \<Rightarrow> victim_syncset \<Rightarrow> victim_tracker \<Rightarrow> victimsync_monitor \<Rightarrow> (victimsync_monitor \<times> victim_syncset option) exec" where
  "receive_syncset chk source neighbor t monitor =
     bindE (VictimSyncset_getSeqnum neighbor) (\<lambda>synced_seqnum.
     bindE (VictimSyncset_isComplete neighbor) (\<lambda>complete_received.
     let cnt = peredge_monitored_victimsetcnt t
     in if VictimsyncMonitor_isFirstCompleteReceived monitor
        then if complete_received
             then bindE (VictimsyncMonitor_clearFirstCompleteReceived monitor) (\<lambda>monitor.
                  bindE (VictimsyncMonitor_tryToClearEnforcementStatus chk neighbor synced_seqnum cnt monitor) (\<lambda>(monitor, fresh).
                  Inr (monitor, Some (case fresh of None \<Rightarrow> neighbor | Some f \<Rightarrow> f))))
             else bindE (VictimsyncMonitor_tryToEnableEnforcementStatus neighbor synced_seqnum cnt monitor) (\<lambda>monitor.
                  Inr (monitor, None))
        else let tracked = VictimsyncMonitor_getTrackedSeqnum monitor
             in if synced_seqnum \<le> tracked then Inr (monitor, None)
             else bindE (Util_uint64Add tracked 1) (\<lambda>next.
             if synced_seqnum = next
             then bindE (if \<not> complete_received
                         then bindE (VictimTracker_getVictimSyncset chk source (VictimSyncset_empty 0 False) t) (\<lambda>existing.
                              bindE (VictimSyncset_setSeqnum tracked existing) (\<lambda>existing.
                              bindE (VictimSyncset_isComplete existing) (\<lambda>c. assertE c (
                              bindE (VictimSyncset_recover chk neighbor existing) (\<lambda>r.
                              bindE (VictimSyncset_isComplete r) (\<lambda>c. assertE c (Inr r)))))))
                         else Inr neighbor) (\<lambda>whole_syncset.
                  bindE (VictimsyncMonitor_tryToClearEnforcementStatus chk whole_syncset synced_seqnum cnt monitor) (\<lambda>(monitor, fresh).
                  Inr (monitor, Some (case fresh of None \<Rightarrow> whole_syncset | Some f \<Rightarrow> f))))
             else if complete_received
             then bindE (VictimsyncMonitor_tryToClearEnforcementStatus chk neighbor synced_seqnum cnt monitor) (\<lambda>(monitor, fresh).
                  Inr (monitor, Some (case fresh of None \<Rightarrow> neighbor | Some f \<Rightarrow> f)))
             else bindE (VictimsyncMonitor_tryToEnableEnforcementStatus neighbor synced_seqnum cnt monitor) (\<lambda>monitor.
                  Inr (monitor, None)))))"

text \<open>Install a complete syncset of an edge node.\<close>

definition install_syncset ::
    "('m, 'z) lock_env_scheme \<Rightarrow> u32 \<Rightarrow> u64 \<Rightarrow> victim_syncset \<Rightarrow> ('m, 'g) cooperation_wrapper \<Rightarrow> victim_tracker
     \<Rightarrow> (('m, 'g) cooperation_wrapper \<times> victim_tracker) exec" where
  "install_syncset env source synced_seqnum final w t =
     bindE (VictimSyncset_isComplete final) (\<lambda>c. assertE c (
     bindE (VictimSyncset_getSeqnum final) (\<lambda>n. assertE (synced_seqnum \<le> n) (
     bindE (VictimSyncset_getCacheMarginBytesOrDelta final) (\<lambda>room.
     case room of
       Inr _ \<Rightarrow> Inl AssertFailed
     | Inl margin \<Rightarrow>
         bindE (VictimSyncset_getLocalSyncedVictimsPtr (is_assert env) final) (\<lambda>(c, victims). assertE c (
         bindE (VictimSyncset_getLocalBeaconedVictimsPtr (is_assert env) final) (\<lambda>(c, beaconed). assertE c (
         bindE (VictimTracker_replaceVictimMetadataForEdgeIdx env w source margin victims t) (\<lambda>t.
         bindE (VictimTracker_replaceVictimDirinfoSets env False beaconed t) (\<lambda>t.
         bindE (local_beaconed_sets env w victims) (\<lambda>(w, sets).
         bindE (VictimTracker_replaceVictimDirinfoSets env True sets t) (\<lambda>t. Inr (w, t))))))))))))))"

definition VictimTracker_updateForNeighborVictimSyncset ::
    "('m, 'z) lock_env_scheme \<Rightarrow> u32 \<Rightarrow> victim_syncset \<Rightarrow> ('m, 'g) cooperation_wrapper \<Rightarrow> victim_tracker
     \<Rightarrow> (('m, 'g) cooperation_wrapper \<times> victim_tracker) exec" where
  "VictimTracker_updateForNeighborVictimSyncset env source neighbor w t =
     bindE (nthE (peredge_victimsync_monitor t) (unat source)) (\<lambda>monitor.
     bindE (VictimsyncMonitor_getSizeForCapacity monitor) (\<lambda>start.
     bindE (VictimSyncset_isEnforceComplete neighbor) (\<lambda>enforce.
     let monitor = (if enforce then VictimsyncMonitor_enforceComplete monitor else monitor);
         t = set_monitor source monitor t
     in bindE (receive_syncset (is_assert env) source neighbor t monitor) (\<lambda>(monitor, final).
        let t = set_monitor source monitor t
        in bindE (case final of
                    None \<Rightarrow> Inr (w, t)
                  | Some f \<Rightarrow> install_syncset env source (seqnum neighbor) f w t) (\<lambda>(w, t).
           bindE (VictimsyncMonitor_getSizeForCapacity monitor) (\<lambda>end.
           bindE (resize start end t) (\<lambda>t. Inr (w, t))))))))"

section \<open>Placement\<close>

definition extra_of :: "u32 \<Rightarrow> (u32 \<times> victim_cacheinfo list) list \<Rightarrow> victim_cacheinfo list" where
  "extra_of e extra = (case kv_get e extra of None \<Rightarrow> [] | Some vs \<Rightarrow> vs)"

fun find_placement_loop ::
    "u32 \<Rightarrow> (u32 \<times> victim_cacheinfo list) list \<Rightarrow> edgelevel_victim_metadata list \<Rightarrow> edgeset \<Rightarrow> found_victims \<Rightarrow> found_victims exec" where
  "find_placement_loop obj_size extra ms [] f = Inr f"
| "find_placement_loop obj_size extra ms (e # es) f =
     bindE (nthE ms (unat e)) (\<lambda>m.
     if \<not> metadata_valid m then find_placement_loop obj_size extra ms es f
     else bindE (EdgelevelVictimMetadata_findVictimsForObjectSize e obj_size
                   (if 0 < length extra then extra_of e extra else []) m f)
            (\<lambda>f. find_placement_loop obj_size extra ms es f))"

definition VictimTracker_findVictimsForPlacement ::
    "u32 \<Rightarrow> edgeset \<Rightarrow> (u32 \<times> victim_cacheinfo list) list \<Rightarrow> victim_tracker \<Rightarrow> found_victims exec" where
  "VictimTracker_findVictimsForPlacement obj_size placement_edgeset extra t =
     bindE (find_placement_loop obj_size extra (peredge_victim_metadata t) placement_edgeset
              \<lparr>pervictim_edgeset = [], pervictim_cacheinfos = [], peredge_synced_victimset = [],
               peredge_fetched_victimset = [], victim_fetch_edgeset = []\<rparr>) (\<lambda>f.
     Inr (if 0 < length extra then f\<lparr>victim_fetch_edgeset := []\<rparr> else f))"

text \<open>The two passes over the directory information are cut short by the first edge node outside the set.\<close>

fun all_inside :: "edgeset \<Rightarrow> directory_info list \<Rightarrow> bool" where
  "all_inside es [] = True"
| "all_inside es (d # ds) = (if \<not> Edgeset_find (getTargetEdgeIdx d) es then False else all_inside es ds)"

fun last_copies_loop :: "edgeset \<Rightarrow> dirinfo_set list \<Rightarrow> bool exec" where
  "last_copies_loop es [] = Inr True"
| "last_copies_loop es (s # ss) =
     bindE (DirinfoSet_getDirinfoSetIfComplete s) (\<lambda>(c, ds). assertE c
       (if \<not> all_inside es ds then Inr False else last_copies_loop es ss))"

definition VictimTracker_isLastCopiesForVictimEdgeset ::
    "key \<Rightarrow> edgeset \<Rightarrow> (key \<times> dirinfo_set) list \<Rightarrow> victim_tracker \<Rightarrow> bool exec" where
  "VictimTracker_isLastCopiesForVictimEdgeset key victim_edgeset extra t =
     bindE (case kv_get key (perkey_victim_dirinfo t) of
              None \<Rightarrow> Inr []
            | Some d \<Rightarrow> bindE (VictimDirinfo_getDirinfoSetRef d) (\<lambda>s. completeE s (Inr [s]))) (\<lambda>tracked.
     bindE (case kv_get key extra of None \<Rightarrow> Inr [] | Some s \<Rightarrow> completeE s (Inr [s])) (\<lambda>fetched.
     last_copies_loop victim_edgeset (tracked @ fetched)))"

text \<open>Eviction costs are single-precision numbers. The reward of a victim comes from the edge wrapper through its
  \<open>constCustomFunc\<close>: it is that of \<open>Weight_Tuner\<close>, for the weights the wrapper has at the time.\<close>

definition popularities :: "victim_cacheinfo \<Rightarrow> (u32 \<times> u32) exec" where
  "popularities v =
     bindE (VictimCacheinfo_isComplete v) (\<lambda>c. assertE c (
     bindE (VictimCacheinfo_getLocalCachedPopularity v) (\<lambda>l.
     case l of
       None \<Rightarrow> Inl AssertFailed
     | Some l \<Rightarrow>
         bindE (VictimCacheinfo_getRedirectedCachedPopularity v) (\<lambda>r.
         case r of None \<Rightarrow> Inl AssertFailed | Some r \<Rightarrow> Inr (l, r)))))"

fun cost_of_victims :: "weight_tuner \<Rightarrow> bool \<Rightarrow> victim_cacheinfo list \<Rightarrow> u32 \<Rightarrow> u32 exec" where
  "cost_of_victims tuner is_last_copies [] cost = Inr cost"
| "cost_of_victims tuner is_last_copies (v # vs) cost =
     bindE (popularities v) (\<lambda>(l, r).
     bindE (CoveredEdgeWrapper_calcLocalCachedRewardInternal tuner l r is_last_copies) (\<lambda>eviction_cost.
     cost_of_victims tuner is_last_copies vs (f32_add cost eviction_cost)))"

fun cost_loop ::
    "weight_tuner \<Rightarrow> (key \<times> dirinfo_set) list \<Rightarrow> victim_tracker \<Rightarrow> (key \<times> victim_cacheinfo list) list \<Rightarrow> (key \<times> edgeset) list
     \<Rightarrow> u32 \<Rightarrow> u32 exec" where
  "cost_loop tuner extra_sets t infos [] cost = Inr cost"
| "cost_loop tuner extra_sets t infos ((key, es) # rest) cost =
     bindE (VictimTracker_isLastCopiesForVictimEdgeset key es extra_sets t) (\<lambda>is_last_copies.
     case kv_get key infos of
       None \<Rightarrow> Inl AssertFailed
     | Some vs \<Rightarrow>
         exit_ifE (word_of_nat (length vs) \<noteq> (ucast (Edgeset_size es) :: u64)) (
         bindE (cost_of_victims tuner is_last_copies vs cost) (\<lambda>cost.
         cost_loop tuner extra_sets t infos rest cost)))"

definition VictimTracker_calcEvictionCost ::
    "weight_tuner \<Rightarrow> u32 \<Rightarrow> edgeset \<Rightarrow> (u32 \<times> victim_cacheinfo list) list \<Rightarrow> (key \<times> dirinfo_set) list \<Rightarrow> victim_tracker
     \<Rightarrow> (u32 \<times> found_victims) exec" where
  "VictimTracker_calcEvictionCost tuner obj_size placement_edgeset extra extra_sets t =
     bindE (VictimTracker_findVictimsForPlacement obj_size placement_edgeset extra t) (\<lambda>f.
     assertE (0 < length extra \<longrightarrow> length (victim_fetch_edgeset f) = 0) (
     bindE (cost_loop tuner extra_sets t (pervictim_cacheinfos f) (pervictim_edgeset f) 0) (\<lambda>cost. Inr (cost, f))))"

fun fast_cost_loop ::
    "weight_tuner \<Rightarrow> (key \<times> dirinfo_set) list \<Rightarrow> victim_tracker \<Rightarrow> victim_cacheinfo list \<Rightarrow> u32 \<Rightarrow> u32 exec" where
  "fast_cost_loop tuner sets t [] cost = Inr cost"
| "fast_cost_loop tuner sets t (v # vs) cost =
     bindE (VictimCacheinfo_getKey v) (\<lambda>key.
     bindE (VictimTracker_isLastCopiesForVictimEdgeset key (fst (Edgeset_insert (tracker_edge_idx t) [])) sets t) (\<lambda>is_last_copies.
     bindE (popularities v) (\<lambda>(l, r).
     bindE (CoveredEdgeWrapper_calcLocalCachedRewardInternal tuner l r is_last_copies) (\<lambda>eviction_cost.
     fast_cost_loop tuner sets t vs (f32_add cost eviction_cost)))))"

definition VictimTracker_calcEvictionCostForFastPathPlacement ::
    "weight_tuner \<Rightarrow> victim_cacheinfo list \<Rightarrow> (key \<times> dirinfo_set) list \<Rightarrow> victim_tracker \<Rightarrow> u32 exec" where
  "VictimTracker_calcEvictionCostForFastPathPlacement tuner victims sets t = fast_cost_loop tuner sets t victims 0"

definition VictimTracker_removeVictimsForGivenEdge :: "u32 \<Rightarrow> key list \<Rightarrow> victim_tracker \<Rightarrow> victim_tracker exec" where
  "VictimTracker_removeVictimsForGivenEdge edge_idx ks t =
     bindE (nthE (peredge_victim_metadata t) (unat edge_idx)) (\<lambda>m.
     assertE (metadata_valid m) (
     bindE (EdgelevelVictimMetadata_removeVictimsForPlacement ks m) (\<lambda>(m, removed, is_empty).
     let t = set_metadata edge_idx m t; t = (if 0 < removed then sub_size removed t else t)
     in release_loop ks t)))"

definition VictimTracker_getSizeForCapacity :: "victim_tracker \<Rightarrow> u64" where
  "VictimTracker_getSizeForCapacity t = tracker_size_bytes t"

section \<open>Snapshots\<close>

fun dump_list :: "('a \<Rightarrow> u8 list \<Rightarrow> u8 list exec) \<Rightarrow> 'a list \<Rightarrow> u8 list \<Rightarrow> u8 list exec" where
  "dump_list f [] out = Inr out"
| "dump_list f (x # xs) out = bindE (f x out) (\<lambda>out. dump_list f xs out)"

definition dump_counted :: "('a \<Rightarrow> u8 list \<Rightarrow> u8 list exec) \<Rightarrow> 'a list \<Rightarrow> u8 list \<Rightarrow> u8 list exec" where
  "dump_counted f xs out = dump_list f xs (fs_write (u32_mem (word_of_nat (length xs))) out)"

fun load_list :: "(fstream \<Rightarrow> ('a \<times> fstream) exec) \<Rightarrow> nat \<Rightarrow> fstream \<Rightarrow> ('a list \<times> fstream) exec" where
  "load_list f 0 fs = Inr ([], fs)"
| "load_list f (Suc n) fs = bindE (f fs) (\<lambda>(x, fs). bindE (load_list f n fs) (\<lambda>(xs, fs). Inr (x # xs, fs)))"

definition load_counted :: "(fstream \<Rightarrow> ('a \<times> fstream) exec) \<Rightarrow> fstream \<Rightarrow> ('a list \<times> fstream) exec" where
  "load_counted f fs = (let (b, fs) = fs_read [0, 0, 0, 0] fs in load_list f (unat (mem_u32 b)) fs)"

definition dump_pair :: "key \<times> victim_dirinfo \<Rightarrow> u8 list \<Rightarrow> u8 list exec" where
  "dump_pair kd out = bindE (Key_serialize_fs (fst kd) out) (\<lambda>(out, _). VictimDirinfo_dumpVictimDirinfo (snd kd) out)"

definition load_pair :: "fstream \<Rightarrow> ((key \<times> victim_dirinfo) \<times> fstream) exec" where
  "load_pair fs = bindE (Key_deserialize_fs (Key []) fs) (\<lambda>(key, fs, _).
     bindE (VictimDirinfo_loadVictimDirinfo VictimDirinfo_default fs) (\<lambda>(d, fs). Inr ((key, d), fs)))"

definition VictimTracker_dumpVictimTracker :: "victim_tracker \<Rightarrow> u8 list \<Rightarrow> u8 list exec" where
  "VictimTracker_dumpVictimTracker t out =
     bindE (dump_counted EdgelevelVictimMetadata_dumpEdgelevelVictimMetadata (peredge_victim_metadata t)
              (fs_write (u64_mem (tracker_size_bytes t)) out)) (\<lambda>out.
     bindE (dump_counted dump_pair (perkey_victim_dirinfo t) out) (\<lambda>out.
     dump_counted VictimsyncMonitor_dumpVictimsyncMonitor (peredge_victimsync_monitor t) out))"

definition VictimTracker_loadVictimTracker :: "victim_tracker \<Rightarrow> fstream \<Rightarrow> (victim_tracker \<times> fstream) exec" where
  "VictimTracker_loadVictimTracker this fs =
     (let (b, fs) = fs_read (u64_mem (tracker_size_bytes this)) fs
      in bindE (load_counted (EdgelevelVictimMetadata_loadEdgelevelVictimMetadata EdgelevelVictimMetadata_new) fs) (\<lambda>(ms, fs).
         bindE (load_counted load_pair fs) (\<lambda>(ds, fs).
         bindE (load_counted (VictimsyncMonitor_loadVictimsyncMonitor VictimsyncMonitor_new) fs) (\<lambda>(vs, fs).
         Inr (this\<lparr>tracker_size_bytes := mem_u64 b, peredge_victim_metadata := ms, perkey_victim_dirinfo := ds,
                peredge_victimsync_monitor := vs\<rparr>, fs)))))"

end
