(* ===== verification/Tracker_References.thy ===== *)
theory Tracker_References
  imports Victim_Tracker
begin

text \<open>
  The reference counts of \<open>VictimTracker\<close>: in every reachable state the directory information of a key is kept exactly as long as
  some edge node lists the key as a victim, and its count is the number of entries. Removing a victim that its edge
  node no longer lists is the operation that breaks this.
\<close>

section \<open>References\<close>

definition refs :: "(key \<times> victim_dirinfo) list \<Rightarrow> key \<Rightarrow> nat" where
  "refs ds k = (case kv_get k ds of None \<Rightarrow> 0 | Some d \<Rightarrow> unat (refcnt d))"

definition live :: "(key \<times> victim_dirinfo) list \<Rightarrow> bool" where
  "live ds \<longleftrightarrow> distinct (map fst ds) \<and> (\<forall>kd \<in> set ds. refcnt (snd kd) \<noteq> 0)"

definition key_count :: "edgelevel_victim_metadata list \<Rightarrow> key \<Rightarrow> nat" where
  "key_count ms k = (\<Sum>m\<leftarrow>ms. count_list (map victim_key (victim_cacheinfos m)) k)"

lemma live_refs: "live ds \<Longrightarrow> refs ds k = 0 \<longleftrightarrow> kv_get k ds = None"
  by (cases "kmap fst ds k") (auto simp: refs_def live_def kv_get_eq unat_eq_0 dest!: kmap_SomeD)

lemma live_replace:
  assumes "live ds" and "kmap fst ds k = Some (k, d)" and "refcnt d' \<noteq> 0"
  shows "live (ds[KVListHelper_findVFromListForK k ds := (k, d')])"
  using assms map_f_update [OF assms(2), of "(k, d')"]
  by (auto simp: live_def KVListHelper_findVFromListForK_def dest!: set_mp [OF set_update_subset_insert])

lemma live_erase:
  assumes "distinct (map fst ds)" and "\<forall>kd \<in> set ds. fst kd \<noteq> k \<longrightarrow> refcnt (snd kd) \<noteq> 0"
  shows "live (erase_at (KVListHelper_findVFromListForK k ds) ds)"
    and "kv_get l (erase_at (KVListHelper_findVFromListForK k ds) ds) = (if l = k then None else kv_get l ds)"
  using assms erase_at_found [OF assms(1), of k]
  by (auto simp: live_def KVListHelper_findVFromListForK_def distinct_filter_map kv_get_eq kmap_filter)

text \<open>Parts of the tracker that an operation on the directory information leaves alone.\<close>

definition same_parts :: "victim_tracker \<Rightarrow> victim_tracker \<Rightarrow> bool" where
  "same_parts t t' \<longleftrightarrow> peredge_victim_metadata t' = peredge_victim_metadata t \<and> tracker_edge_idx t' = tracker_edge_idx t
     \<and> peredge_synced_victimcnt t' = peredge_synced_victimcnt t"

lemma same_parts_refl [simp]: "same_parts t t" and same_parts_trans: "same_parts t t' \<Longrightarrow> same_parts t' t'' \<Longrightarrow> same_parts t t''"
  by (simp_all add: same_parts_def)

lemma add_size_eq: "add_size n t = Inr t' \<Longrightarrow> \<exists>b. t' = t\<lparr>tracker_size_bytes := b\<rparr>"
  by (auto simp: add_size_def exec_inv)

lemma release_refs:
  assumes "live (perkey_victim_dirinfo t)" and "VictimTracker_tryToReleaseVictimDirinfo k t = Inr t'"
  shows "live (perkey_victim_dirinfo t')" and "same_parts t t'"
    and "refs (perkey_victim_dirinfo t') l = refs (perkey_victim_dirinfo t) l - (if l = k then 1 else 0)"
proof -
  let ?ds = "perkey_victim_dirinfo t" and ?i = "KVListHelper_findVFromListForK k (perkey_victim_dirinfo t)"
  have "live (perkey_victim_dirinfo t') \<and> same_parts t t'
    \<and> refs (perkey_victim_dirinfo t') l = refs ?ds l - (if l = k then 1 else 0)"
  proof (cases "?i = length ?ds")
    case True
    then have "t' = t" using assms(2) by (simp add: VictimTracker_tryToReleaseVictimDirinfo_def)
    moreover have "refs ?ds k = 0" using True by (simp add: kv_end refs_def)
    ultimately show ?thesis using assms(1) by simp
  next
    case False
    then obtain d where d: "kmap fst ?ds k = Some (k, d)" "?ds ! ?i = (k, d)" "kv_get k ?ds = Some d" "(k, d) \<in> set ?ds" by (rule kv_at)
    have nz: "refcnt d \<noteq> 0" using assms(1) d(4) by (auto simp: live_def)
    define d' where "d' = d\<lparr>refcnt := refcnt d - 1\<rparr>"
    have decr: "fst (VictimDirinfo_decrRefcnt d) = d'" using nz by (simp add: VictimDirinfo_decrRefcnt_def d'_def word_neq_0_conv)
    have u: "unat (refcnt d') = unat (refcnt d) - 1" using nz unat_minus_one [of "refcnt d"] by (simp add: d'_def)
    let ?ds' = "?ds[?i := (k, d')]"
    have i': "KVListHelper_findVFromListForK k ?ds' = ?i"
      using find_by_update [OF d(1), of "(k, d')"] by (simp add: KVListHelper_findVFromListForK_def)
    show ?thesis
    proof (cases "refcnt d' = 0")
      case F: False
      then have t': "t' = t\<lparr>perkey_victim_dirinfo := ?ds'\<rparr>"
        using assms(2) False d(2) decr by (simp add: VictimTracker_tryToReleaseVictimDirinfo_def Let_def)
      have "live ?ds'" by (rule live_replace [OF assms(1) d(1) F])
      then show ?thesis using t' u d(3) by (simp add: same_parts_def refs_def kv_get_replace [OF d(1)])
    next
      case T: True
      then obtain n where t': "t' = (sub_size n (t\<lparr>perkey_victim_dirinfo := ?ds'\<rparr>))\<lparr>perkey_victim_dirinfo := erase_at ?i ?ds'\<rparr>"
        using assms(2) False d(2) decr by (auto simp: VictimTracker_tryToReleaseVictimDirinfo_def exec_inv Let_def)
      have dist: "distinct (map fst ?ds')" using assms(1) map_f_update [OF d(1), of "(k, d')"] by (simp add: live_def KVListHelper_findVFromListForK_def)
      have rest: "\<forall>kd \<in> set ?ds'. fst kd \<noteq> k \<longrightarrow> refcnt (snd kd) \<noteq> 0"
        using assms(1) by (auto simp: live_def dest!: set_mp [OF set_update_subset_insert])
      note erase = live_erase [OF dist rest, unfolded i']
      show ?thesis using t' u T erase d(3) by (simp add: same_parts_def sub_size_def refs_def kv_get_replace [OF d(1)])
    qed
  qed
  then show "live (perkey_victim_dirinfo t')" and "same_parts t t'"
    and "refs (perkey_victim_dirinfo t') l = refs ?ds l - (if l = k then 1 else 0)" by simp_all
qed

lemma refer_refs:
  assumes "live (perkey_victim_dirinfo t)" and "refer_to env k b t = Inr t'" and "refs (perkey_victim_dirinfo t) k + 1 < 2 ^ 32"
  shows "live (perkey_victim_dirinfo t') \<and> same_parts t t'
    \<and> (\<forall>l. refs (perkey_victim_dirinfo t') l = refs (perkey_victim_dirinfo t) l + (if l = k then 1 else 0))"
proof (cases "KVListHelper_findVFromListForK k (perkey_victim_dirinfo t) = length (perkey_victim_dirinfo t)")
  case True
  let ?ds = "perkey_victim_dirinfo t"
  define d where "d = \<lparr>refcnt = 1, beacon_edge_idx = b, victim_dirinfo_set = DirinfoSet_of_list []\<rparr>"
  have new: "VictimDirinfo_new b = Inr \<lparr>refcnt = 0, beacon_edge_idx = b, victim_dirinfo_set = DirinfoSet_of_list []\<rparr>"
    by (simp add: VictimDirinfo_new_def completeE_def)
  obtain n where "add_size n (t\<lparr>perkey_victim_dirinfo := ?ds @ [(k, d)]\<rparr>) = Inr t'"
    using assms(2) True new by (auto simp: refer_to_def exec_inv Let_def VictimDirinfo_incrRefcnt_def d_def)
  then obtain s where t': "t' = t\<lparr>perkey_victim_dirinfo := ?ds @ [(k, d)], tracker_size_bytes := s\<rparr>" using add_size_eq by fastforce
  have none: "kmap fst ?ds k = None" using True by (simp add: KVListHelper_findVFromListForK_def)
  have "live (?ds @ [(k, d)])" using assms(1) none by (auto simp: live_def d_def kmap_None_iff)
  moreover have "kv_get l (?ds @ [(k, d)]) = (if l = k then Some d else kv_get l ?ds)" for l
    using none kmap_snoc [of fst ?ds "(k, d)"] by (simp add: kv_get_eq)
  moreover have "kv_get k ?ds = None" using none by (simp add: kv_get_eq)
  ultimately show ?thesis using t' by (auto simp: same_parts_def refs_def d_def)
next
  case False
  let ?ds = "perkey_victim_dirinfo t" and ?i = "KVListHelper_findVFromListForK k (perkey_victim_dirinfo t)"
  obtain d where d: "kmap fst ?ds k = Some (k, d)" "?ds ! ?i = (k, d)" "kv_get k ?ds = Some d" "(k, d) \<in> set ?ds"
    using False by (rule kv_at)
  have t': "t' = t\<lparr>perkey_victim_dirinfo := ?ds[?i := (k, VictimDirinfo_incrRefcnt d)]\<rparr>"
    using assms(2) False d(2) by (auto simp: refer_to_def Let_def myassertE_def assertE_def split: if_splits)
  have u: "unat (refcnt d + 1) = unat (refcnt d) + 1" using assms(3) d(3) by (simp add: refs_def unat_add_no_wrap)
  then have nz: "refcnt (VictimDirinfo_incrRefcnt d) \<noteq> 0" by (auto simp: VictimDirinfo_incrRefcnt_def)
  show ?thesis using t' live_replace [OF assms(1) d(1) nz] u d(3)
    by (auto simp: same_parts_def refs_def kv_get_replace [OF d(1)] VictimDirinfo_incrRefcnt_def)
qed

lemma getKey_eq: "VictimCacheinfo_getKey v = Inr k \<Longrightarrow> k = victim_key v"
  by (auto simp: VictimCacheinfo_getKey_def validE_def assertE_def split: if_splits)

lemma add_size_dirinfo: "add_size n t = Inr t' \<Longrightarrow> same_parts t t' \<and> perkey_victim_dirinfo t' = perkey_victim_dirinfo t"
  by (auto dest!: add_size_eq simp: same_parts_def)

lemma sub_size_dirinfo: "same_parts t (sub_size n t)" "perkey_victim_dirinfo (sub_size n t) = perkey_victim_dirinfo t"
  by (simp_all add: same_parts_def sub_size_def)

lemma add_victims_refs:
  assumes "add_victims_loop env w vs t = Inr t'" and "live (perkey_victim_dirinfo t)"
    and "\<forall>k. refs (perkey_victim_dirinfo t) k + length vs < 2 ^ 32"
  shows "live (perkey_victim_dirinfo t') \<and> same_parts t t'
    \<and> (\<forall>l. refs (perkey_victim_dirinfo t') l = refs (perkey_victim_dirinfo t) l + count_list (map victim_key vs) l)"
  using assms
proof (induction vs arbitrary: t)
  case (Cons v vs)
  obtain n t1 b t2 where t1: "add_size n t = Inr t1" and t2: "refer_to env (victim_key v) b t1 = Inr t2" and rest: "add_victims_loop env w vs t2 = Inr t'"
    using Cons.prems(1) by (auto simp: exec_inv dest!: getKey_eq)
  note 1 = add_size_dirinfo [OF t1]
  have 2: "live (perkey_victim_dirinfo t2) \<and> same_parts t1 t2
    \<and> (\<forall>l. refs (perkey_victim_dirinfo t2) l = refs (perkey_victim_dirinfo t1) l + (if l = victim_key v then 1 else 0))"
    by (rule refer_refs [OF _ t2]) (use 1 Cons.prems(2,3) in \<open>auto simp: Suc_le_eq dest!: spec [of _ "victim_key v"]\<close>)
  have b: "\<forall>k. refs (perkey_victim_dirinfo t2) k + length vs < 2 ^ 32"
  proof
    fix k
    have "refs (perkey_victim_dirinfo t) k + Suc (length vs) < 2 ^ 32" using Cons.prems(3) by simp
    then show "refs (perkey_victim_dirinfo t2) k + length vs < 2 ^ 32" using 1 2 by (cases "k = victim_key v") auto
  qed
  have "live (perkey_victim_dirinfo t') \<and> same_parts t2 t'
    \<and> (\<forall>l. refs (perkey_victim_dirinfo t') l = refs (perkey_victim_dirinfo t2) l + count_list (map victim_key vs) l)"
    by (rule Cons.IH [OF rest _ b]) (use 2 in simp)
  then show ?case using 1 2 by (auto simp: same_parts_def)
qed simp

lemma remove_old_refs:
  assumes "remove_old_loop vs t = Inr t'" and "live (perkey_victim_dirinfo t)"
  shows "live (perkey_victim_dirinfo t') \<and> same_parts t t'
    \<and> (\<forall>l. refs (perkey_victim_dirinfo t') l = refs (perkey_victim_dirinfo t) l - count_list (map victim_key vs) l)"
  using assms
proof (induction vs arbitrary: t)
  case (Cons v vs)
  obtain n t2 where t2: "VictimTracker_tryToReleaseVictimDirinfo (victim_key v) (sub_size n t) = Inr t2" and rest: "remove_old_loop vs t2 = Inr t'"
    using Cons.prems(1) by (auto simp: exec_inv Let_def dest!: getKey_eq)
  note 1 = sub_size_dirinfo [where t = t and n = n]
  have l: "live (perkey_victim_dirinfo (sub_size n t))" using 1 Cons.prems(2) by simp
  note 2 = release_refs [OF l t2]
  note IH = Cons.IH [OF rest 2(1)]
  show ?case using 1 2 IH by (auto simp: same_parts_def)
qed simp

lemma release_loop_refs:
  assumes "release_loop ks t = Inr t'" and "live (perkey_victim_dirinfo t)"
  shows "live (perkey_victim_dirinfo t') \<and> same_parts t t'
    \<and> (\<forall>l. refs (perkey_victim_dirinfo t') l = refs (perkey_victim_dirinfo t) l - count_list ks l)"
  using assms
proof (induction ks arbitrary: t)
  case (Cons k ks)
  obtain t2 where t2: "VictimTracker_tryToReleaseVictimDirinfo k t = Inr t2" and rest: "release_loop ks t2 = Inr t'"
    using Cons.prems(1) by (auto simp: exec_inv)
  note 2 = release_refs [OF Cons.prems(2) t2]
  show ?case using 2 Cons.IH [OF rest 2(1)] by (auto simp: same_parts_def)
qed simp

lemma key_count_update:
  "i < length ms \<Longrightarrow> key_count (ms[i := m]) k + count_list (map victim_key (victim_cacheinfos (ms ! i))) k
    = key_count ms k + count_list (map victim_key (victim_cacheinfos m)) k"
  by (induction ms arbitrary: i) (auto simp: key_count_def nth_Cons split: nat.splits)

definition refs_exact :: "victim_tracker \<Rightarrow> bool" where
  "refs_exact t \<longleftrightarrow> live (perkey_victim_dirinfo t) \<and> refs (perkey_victim_dirinfo t) = key_count (peredge_victim_metadata t)"

text \<open>The lists are bounded, so that no counter of references wraps.\<close>

definition lists_bounded :: "victim_tracker \<Rightarrow> bool" where
  "lists_bounded t \<longleftrightarrow> (\<forall>m \<in> set (peredge_victim_metadata t). length (victim_cacheinfos m) \<le> unat (peredge_synced_victimcnt t)
       \<and> (\<not> metadata_valid m \<longrightarrow> victim_cacheinfos m = []))
     \<and> (length (peredge_victim_metadata t) + 1) * unat (peredge_synced_victimcnt t) < 2 ^ 32"

lemma key_count_bound:
  assumes "\<forall>m \<in> set ms. length (victim_cacheinfos m) \<le> n"
  shows "key_count ms k \<le> length ms * n"
  using assms
proof (induction ms)
  case (Cons m ms)
  have "count_list (map victim_key (victim_cacheinfos m)) k \<le> length (victim_cacheinfos m)"
    by (metis count_le_length length_map)
  then show ?case using Cons by (simp add: key_count_def)
qed (simp add: key_count_def)

lemma validate_metadata_eq: "EdgelevelVictimMetadata_validate chk margin vs = Inr m \<Longrightarrow>
    m = \<lparr>metadata_valid = True, metadata_margin_bytes = margin, victim_cacheinfos = vs\<rparr>"
  by (auto simp: EdgelevelVictimMetadata_validate_def Let_def exec_inv split: if_splits)

lemma replaceMetadata_split:
  assumes "VictimTracker_replaceVictimMetadataForEdgeIdx env w e margin vs t = Inr t'"
  obtains m t1 t2 where "unat e < length (peredge_victim_metadata t)" and "length vs \<le> unat (peredge_synced_victimcnt t)"
    and "m = \<lparr>metadata_valid = True, metadata_margin_bytes = margin, victim_cacheinfos = vs\<rparr>"
    and "same_parts (set_metadata e m t) t1" and "perkey_victim_dirinfo t1 = perkey_victim_dirinfo t"
    and "add_victims_loop env w vs t1 = Inr t2"
    and "remove_old_loop (if metadata_valid (peredge_victim_metadata t ! unat e)
           then victim_cacheinfos (peredge_victim_metadata t ! unat e) else []) t2 = Inr t'"
proof -
  let ?m = "\<lparr>metadata_valid = True, metadata_margin_bytes = margin, victim_cacheinfos = vs\<rparr>"
  let ?old = "peredge_victim_metadata t ! unat e"
  have len: "length vs \<le> unat (peredge_synced_victimcnt t)" and i: "unat e < length (peredge_victim_metadata t)"
    using assms by (auto simp: VictimTracker_replaceVictimMetadataForEdgeIdx_def exec_inv nthE_def)
  show ?thesis
  proof (cases "metadata_valid ?old")
    case True
    then obtain t2 where "add_victims_loop env w vs (set_metadata e ?m t) = Inr t2" "remove_old_loop (victim_cacheinfos ?old) t2 = Inr t'"
      using assms i by (auto simp: VictimTracker_replaceVictimMetadataForEdgeIdx_def exec_inv nthE_def
          EdgelevelVictimMetadata_getVictimCacheinfos_def EdgelevelVictimMetadata_checkValidity_def dest!: validate_metadata_eq)
    then show ?thesis using that [of ?m "set_metadata e ?m t" t2] i len True by (simp add: set_metadata_def)
  next
    case False
    then obtain t1 t2 where "add_size 8 (set_metadata e ?m t) = Inr t1" "add_victims_loop env w vs t1 = Inr t2" "t2 = t'"
      using assms i by (auto simp: VictimTracker_replaceVictimMetadataForEdgeIdx_def exec_inv nthE_def dest!: validate_metadata_eq)
    then show ?thesis using that [of ?m t1 t2] i len False add_size_dirinfo [of 8 "set_metadata e ?m t" t1] by (simp add: set_metadata_def)
  qed
qed

lemma replaceMetadata_refs:
  assumes "VictimTracker_replaceVictimMetadataForEdgeIdx env w e margin vs t = Inr t'" and "refs_exact t" and "lists_bounded t"
  shows "refs_exact t' \<and> lists_bounded t' \<and> unat e < length (peredge_victim_metadata t)
    \<and> peredge_victim_metadata t' = (peredge_victim_metadata t)[unat e :=
        \<lparr>metadata_valid = True, metadata_margin_bytes = margin, victim_cacheinfos = vs\<rparr>]
    \<and> tracker_edge_idx t' = tracker_edge_idx t"
proof -
  obtain m t1 t2 where r: "unat e < length (peredge_victim_metadata t)" "length vs \<le> unat (peredge_synced_victimcnt t)"
    "m = \<lparr>metadata_valid = True, metadata_margin_bytes = margin, victim_cacheinfos = vs\<rparr>"
    "same_parts (set_metadata e m t) t1" "perkey_victim_dirinfo t1 = perkey_victim_dirinfo t" "add_victims_loop env w vs t1 = Inr t2"
    "remove_old_loop (if metadata_valid (peredge_victim_metadata t ! unat e)
           then victim_cacheinfos (peredge_victim_metadata t ! unat e) else []) t2 = Inr t'"
    using replaceMetadata_split [OF assms(1)] by metis
  let ?ms = "peredge_victim_metadata t" and ?old = "peredge_victim_metadata t ! unat e" and ?n = "unat (peredge_synced_victimcnt t)"
  have old: "(if metadata_valid ?old then victim_cacheinfos ?old else []) = victim_cacheinfos ?old"
    using assms(3) r(1) by (auto simp: lists_bounded_def)
  have live: "live (perkey_victim_dirinfo t1)" "refs (perkey_victim_dirinfo t1) = key_count ?ms"
    using assms(2) r(5) by (simp_all add: refs_exact_def)
  have "\<forall>k. refs (perkey_victim_dirinfo t1) k + length vs < 2 ^ 32"
  proof
    fix k
    have "key_count ?ms k \<le> length ?ms * ?n" using assms(3) by (intro key_count_bound) (simp add: lists_bounded_def)
    moreover have "length ?ms * ?n + ?n < 2 ^ 32" using assms(3) by (simp add: lists_bounded_def)
    ultimately show "refs (perkey_victim_dirinfo t1) k + length vs < 2 ^ 32" using r(2) live(2) by simp
  qed
  note 2 = add_victims_refs [OF r(6) live(1) this]
  note 3 = remove_old_refs [OF r(7) 2 [THEN conjunct1], unfolded old]
  have ms: "peredge_victim_metadata t' = ?ms[unat e := m]" "tracker_edge_idx t' = tracker_edge_idx t"
    "peredge_synced_victimcnt t' = peredge_synced_victimcnt t"
    using r(4) 2 3 by (simp_all add: same_parts_def set_metadata_def)
  have "refs (perkey_victim_dirinfo t') k = key_count (?ms[unat e := m]) k" for k
  proof -
    have "refs (perkey_victim_dirinfo t') k = key_count ?ms k + count_list (map victim_key vs) k - count_list (map victim_key (victim_cacheinfos ?old)) k"
      using 2 3 live(2) by simp
    then show ?thesis using key_count_update [OF r(1), of m k] r(3) by simp
  qed
  then have "refs_exact t'" using 3 ms(1) by (auto simp: refs_exact_def)
  moreover have "lists_bounded t'" using assms(3) ms r(2,3) by (auto simp: lists_bounded_def dest!: set_mp [OF set_update_subset_insert])
  ultimately show ?thesis using ms r(1,3) by simp
qed

text \<open>Replacing directory information keeps the references, if the victims of a local beacon are known.\<close>

lemma refs_replace_set:
  assumes "kmap fst ds k = Some (k, d)" and "refcnt d' = refcnt d"
  shows "refs (ds[KVListHelper_findVFromListForK k ds := (k, d')]) = refs ds"
proof
  fix l
  have "kv_get k ds = Some d" using assms(1) by (simp add: kv_get_eq)
  then show "refs (ds[KVListHelper_findVFromListForK k ds := (k, d')]) l = refs ds l"
    using assms(2) by (simp add: refs_def kv_get_replace [OF assms(1)])
qed

lemma setDirinfoSet_eq: "VictimDirinfo_setDirinfoSet s d = Inr d' \<Longrightarrow> d' = d\<lparr>victim_dirinfo_set := s\<rparr>"
  by (auto simp: VictimDirinfo_setDirinfoSet_def completeE_def exec_inv)

lemma store_dirinfo_set_eq:
  assumes "store_dirinfo_set s i t = Inr t'" and "perkey_victim_dirinfo t ! i = (k, d)"
  shows "same_parts t t' \<and> perkey_victim_dirinfo t' = (perkey_victim_dirinfo t)[i := (k, d\<lparr>victim_dirinfo_set := s\<rparr>)]"
proof -
  let ?t = "t\<lparr>perkey_victim_dirinfo := (perkey_victim_dirinfo t)[i := (k, d\<lparr>victim_dirinfo_set := s\<rparr>)]\<rparr>"
  obtain prev cur where "(if prev < cur then add_size (cur - prev) ?t
       else if cur < prev then Inr (sub_size (prev - cur) ?t) else Inr ?t) = Inr t'"
    using assms by (auto simp: store_dirinfo_set_def exec_inv Let_def dest!: setDirinfoSet_eq)
  then have "same_parts ?t t' \<and> perkey_victim_dirinfo t' = perkey_victim_dirinfo ?t"
    using add_size_dirinfo [of "cur - prev" ?t t'] by (auto simp: sub_size_dirinfo split: if_splits)
  then show ?thesis by (simp add: same_parts_def)
qed

lemma replaceSets_step:
  assumes "VictimTracker_replaceVictimDirinfoSets env local_beaconed ((k, s) # ss) t = Inr t'"
    and "local_beaconed \<Longrightarrow> kv_get k (perkey_victim_dirinfo t) \<noteq> None"
  obtains t1 where "VictimTracker_replaceVictimDirinfoSets env local_beaconed ss t1 = Inr t'" and "same_parts t t1"
    and "perkey_victim_dirinfo t1 = (case kv_get k (perkey_victim_dirinfo t) of None \<Rightarrow> perkey_victim_dirinfo t
      | Some d \<Rightarrow> (perkey_victim_dirinfo t)[KVListHelper_findVFromListForK k (perkey_victim_dirinfo t) := (k, d\<lparr>victim_dirinfo_set := s\<rparr>)])"
proof (cases "KVListHelper_findVFromListForK k (perkey_victim_dirinfo t) = length (perkey_victim_dirinfo t)")
  case True
  then have none: "kv_get k (perkey_victim_dirinfo t) = None" by (simp add: kv_end)
  then have "\<not> local_beaconed" using assms(2) by auto
  then have "VictimTracker_replaceVictimDirinfoSets env local_beaconed ss t = Inr t'"
    using assms(1) True by (auto simp: completeE_def exec_inv Let_def)
  then show ?thesis using that [of t] none by simp
next
  case False
  let ?ds = "perkey_victim_dirinfo t" and ?i = "KVListHelper_findVFromListForK k (perkey_victim_dirinfo t)"
  obtain d where d: "kmap fst ?ds k = Some (k, d)" "?ds ! ?i = (k, d)" "kv_get k ?ds = Some d" "(k, d) \<in> set ?ds"
    using False by (rule kv_at)
  obtain t1 where t1: "store_dirinfo_set s ?i t = Inr t1"
    and rest: "VictimTracker_replaceVictimDirinfoSets env local_beaconed ss t1 = Inr t'"
    using assms(1) False
    by (cases local_beaconed) (auto simp: completeE_def exec_inv Let_def ensure_local_dirinfo_def myassertE_def assertE_def split: if_splits)
  have "same_parts t t1 \<and> perkey_victim_dirinfo t1 = ?ds[?i := (k, d\<lparr>victim_dirinfo_set := s\<rparr>)]"
    by (rule store_dirinfo_set_eq [OF t1 d(2)])
  then show ?thesis using that [OF rest] d(3) by simp
qed

lemma replaceSets_refs:
  assumes "VictimTracker_replaceVictimDirinfoSets env local_beaconed ss t = Inr t'" and "live (perkey_victim_dirinfo t)"
    and "local_beaconed \<Longrightarrow> \<forall>k \<in> fst ` set ss. refs (perkey_victim_dirinfo t) k \<noteq> 0"
  shows "live (perkey_victim_dirinfo t') \<and> same_parts t t' \<and> refs (perkey_victim_dirinfo t') = refs (perkey_victim_dirinfo t)"
  using assms
proof (induction ss arbitrary: t)
  case (Cons ks ss)
  obtain k s where ks: "ks = (k, s)" by (cases ks)
  let ?ds = "perkey_victim_dirinfo t"
  have known: "local_beaconed \<Longrightarrow> kv_get k ?ds \<noteq> None"
    using Cons.prems(2,3) ks live_refs [of ?ds k] by auto
  obtain t1 where t1: "VictimTracker_replaceVictimDirinfoSets env local_beaconed ss t1 = Inr t'" "same_parts t t1"
    "perkey_victim_dirinfo t1 = (case kv_get k ?ds of None \<Rightarrow> ?ds
      | Some d \<Rightarrow> ?ds[KVListHelper_findVFromListForK k ?ds := (k, d\<lparr>victim_dirinfo_set := s\<rparr>)])"
    using replaceSets_step [OF Cons.prems(1) [unfolded ks] known] by metis
  have "live (perkey_victim_dirinfo t1) \<and> refs (perkey_victim_dirinfo t1) = refs ?ds"
  proof (cases "kv_get k ?ds")
    case None
    then show ?thesis using t1(3) Cons.prems(2) by simp
  next
    case (Some d)
    then have d: "kmap fst ?ds k = Some (k, d)" by (rule kv_get_kmap)
    then have "refcnt d \<noteq> 0" using Cons.prems(2) kmap_SomeD [OF d] by (auto simp: live_def)
    then show ?thesis
      using t1(3) Some live_replace [OF Cons.prems(2) d] refs_replace_set [OF d] by simp
  qed
  then show ?case using Cons.IH [OF t1(1)] Cons.prems(3) t1(2) same_parts_trans by fastforce
qed simp

lemma getLocalBeaconed_keys:
  "CoveredCooperationWrapper_getLocalBeaconedVictimsFromCacheinfosInternal env vs w sets = Inr (w', sets') \<Longrightarrow>
   fst ` set sets' \<subseteq> fst ` set sets \<union> victim_key ` set vs"
proof (induction env vs w sets rule: CoveredCooperationWrapper_getLocalBeaconedVictimsFromCacheinfosInternal.induct)
  case (2 env v vs w sets)
  obtain full stale where s: "\<not> VictimCacheinfo_isInvalid v" "VictimCacheinfo_isFullyDeduped v = Inr full" "\<not> full" "VictimCacheinfo_isStale v = Inr stale"
    using 2(4) by (auto simp: exec_inv)
  show ?case
  proof (cases stale)
    case True
    then show ?thesis using 2(1) [OF s(2,4)] 2(4) s by auto
  next
    case False
    obtain key b where k: "VictimCacheinfo_getKey v = Inr key" "victim_beacon w v key = Inr b"
      using 2(4) s False by (auto simp: exec_inv)
    have key: "key = victim_key v" by (rule getKey_eq [OF k(1)])
    show ?thesis
    proof (cases "b = coop_edge_idx w")
      case True
      obtain w1 s1 where w1: "CooperationWrapperBase_getLocalDirectoryInfos env w key = Inr (w1, s1)"
        and r: "CoveredCooperationWrapper_getLocalBeaconedVictimsFromCacheinfosInternal env vs w1 (sets @ [(key, s1)]) = Inr (w', sets')"
        using 2(4) s False k True by (auto simp: exec_inv completeE_def)
      have "fst ` set sets' \<subseteq> fst ` set (sets @ [(key, s1)]) \<union> victim_key ` set vs"
        by (rule 2(2) [OF s(2,4) False k True w1 refl r])
      then show ?thesis using key by auto
    next
      case b: False
      then show ?thesis using 2(3) [OF s(2,4) False k b] 2(4) s False k by auto
    qed
  qed
qed simp

lemma local_beaconed_sets_eq:
  "local_beaconed_sets env w vs = bindE (CoveredCooperationWrapper_getLocalBeaconedVictimsFromCacheinfosInternal env vs w [])
     (\<lambda>(w, sets). assertE (length sets \<le> length vs) (Inr (w, sets)))"
  by (cases "CoveredCooperationWrapper_getLocalBeaconedVictimsFromCacheinfosInternal env vs w []")
    (auto simp: local_beaconed_sets_def CoveredCooperationWrapper_constCustomFunc_def GET_FROM_CACHEINFOS_FUNCNAME_def
      GET_FROM_VICTIM_SYNCSET_FUNCNAME_def)

lemma local_beaconed_sets_keys: "local_beaconed_sets env w vs = Inr (w', sets) \<Longrightarrow> fst ` set sets \<subseteq> victim_key ` set vs"
  by (auto simp: local_beaconed_sets_eq exec_inv dest!: getLocalBeaconed_keys)

lemma find_victim_returns: "VictimCacheinfo_findVictimCacheinfoForKey key vs = Inr i \<Longrightarrow> i = find_by victim_key key vs"
  by (induction vs arbitrary: i) (auto simp: exec_inv dest!: getKey_eq split: if_splits)

lemma remove_victims_count:
  "remove_victims_loop ks vs r = Inr (vs', r') \<Longrightarrow>
   count_list (map victim_key vs') l = count_list (map victim_key vs) l - count_list ks l \<and> length vs' \<le> length vs"
proof (induction ks vs r rule: remove_victims_loop.induct)
  case (2 key ks vs r)
  obtain i where i: "VictimCacheinfo_findVictimCacheinfoForKey key vs = Inr i" using 2(3) by (auto simp: exec_inv)
  note i' = find_victim_returns [OF i]
  show ?case
  proof (cases "i = length vs")
    case True
    then have "kmap victim_key vs key = None" using i' by simp
    then have "count_list (map victim_key vs) key = 0" by (auto simp: kmap_None_iff count_list_0_iff)
    then show ?thesis using 2(1) [OF i True] 2(3) i True by auto
  next
    case False
    then obtain v where v: "kmap victim_key vs key = Some v" using i' by (cases "kmap victim_key vs key") auto
    obtain n where n: "VictimCacheinfo_getSizeForCapacity (vs ! i) = Inr n" using 2(3) i False by (auto simp: exec_inv)
    have "remove_victims_loop ks (erase_at i vs) (r + n) = Inr (vs', r')" using 2(3) i False n by simp
    then have "count_list (map victim_key vs') l = count_list (map victim_key (erase_at i vs)) l - count_list ks l \<and> length vs' \<le> length (erase_at i vs)"
      by (rule 2(2) [OF i False n])
    then show ?thesis using count_erase [OF v, of l] i' erase_at_subset(2) [of i vs] by (auto split: if_splits)
  qed
qed simp

section \<open>What an edge node does with its tracker\<close>

definition listed_by :: "u32 \<Rightarrow> victim_tracker \<Rightarrow> key list" where
  "listed_by e t = map victim_key (victim_cacheinfos (peredge_victim_metadata t ! unat e))"

inductive tracker_step ::
    "('m, 'z) lock_env_scheme \<Rightarrow> ('m, 'g) cooperation_wrapper \<times> victim_tracker
     \<Rightarrow> ('m, 'g) cooperation_wrapper \<times> victim_tracker \<Rightarrow> bool" for env where
  cooperate: "tracker_step env (w, t) (w', t)"
| local_margin: "VictimTracker_updateLocalCacheMarginBytes env margin t = Inr t' \<Longrightarrow> tracker_step env (w, t) (w, t')"
| local_victims: "VictimTracker_updateLocalSyncedVictims env margin victims w t = Inr (w', t') \<Longrightarrow>
    tracker_step env (w, t) (w', t')"
| local_directory: "VictimTracker_updateLocalBeaconedVictimDirinfo env key is_admit info t = Inr t' \<Longrightarrow>
    tracker_step env (w, t) (w, t')"
| send_syncset: "VictimTracker_getLocalVictimSyncsetForSynchronization (is_assert env) dst margin t = Inr (t', s) \<Longrightarrow>
    tracker_step env (w, t) (w, t')"
| receive: "VictimTracker_updateForNeighborVictimSyncset env source s w t = Inr (w', t') \<Longrightarrow>
    tracker_step env (w, t) (w', t')"
| remove: "\<forall>k. count_list ks k \<le> count_list (listed_by e t) k \<Longrightarrow> VictimTracker_removeVictimsForGivenEdge e ks t = Inr t' \<Longrightarrow>
    tracker_step env (w, t) (w, t')"

inductive tracker_reachable ::
    "('m, 'z) lock_env_scheme \<Rightarrow> ('m, 'g) cooperation_wrapper \<Rightarrow> victim_tracker \<Rightarrow> bool" for env where
  start: "VictimTracker_new edge_idx cnt synced monitored = Inr t \<Longrightarrow> (unat cnt + 1) * unat synced < 2 ^ 32 \<Longrightarrow>
    tracker_reachable env w t"
| step: "tracker_reachable env w t \<Longrightarrow> tracker_step env (w, t) (w', t') \<Longrightarrow> tracker_reachable env w' t'"

definition tracker_ok :: "victim_tracker \<Rightarrow> bool" where
  "tracker_ok t \<longleftrightarrow> refs_exact t \<and> lists_bounded t"

lemma tracker_ok_same:
  "tracker_ok t \<Longrightarrow> same_parts t t' \<Longrightarrow> live (perkey_victim_dirinfo t') \<Longrightarrow>
   refs (perkey_victim_dirinfo t') = refs (perkey_victim_dirinfo t) \<Longrightarrow> tracker_ok t'"
  by (simp add: tracker_ok_def refs_exact_def lists_bounded_def same_parts_def)

lemma tracker_ok_dirinfo:
  "tracker_ok t \<Longrightarrow> same_parts t t' \<Longrightarrow> perkey_victim_dirinfo t' = perkey_victim_dirinfo t \<Longrightarrow> tracker_ok t'"
  by (simp add: tracker_ok_def refs_exact_def lists_bounded_def same_parts_def)

lemma ok_new:
  assumes "VictimTracker_new edge_idx cnt synced monitored = Inr t" and "(unat cnt + 1) * unat synced < 2 ^ 32"
  shows "tracker_ok t"
proof -
  have add: "add_monitor_sizes ms t0 = Inr t1 \<Longrightarrow> same_parts t0 t1 \<and> perkey_victim_dirinfo t1 = perkey_victim_dirinfo t0" for ms t0 t1
    by (induction ms arbitrary: t0) (auto simp: exec_inv same_parts_def dest!: add_size_dirinfo)
  have zero: "key_count (replicate n EdgelevelVictimMetadata_new) k = 0" for n k
    by (induction n) (simp_all add: key_count_def EdgelevelVictimMetadata_new_def)
  show ?thesis using add [OF assms(1) [unfolded VictimTracker_new_def Let_def]] assms(2)
    by (auto simp: tracker_ok_def refs_exact_def lists_bounded_def same_parts_def live_def refs_def kv_get_def
        KVListHelper_findVFromListForK_def zero EdgelevelVictimMetadata_new_def [symmetric])
      (simp_all add: EdgelevelVictimMetadata_new_def)
qed

lemma ok_margin:
  assumes "VictimTracker_updateLocalCacheMarginBytes env margin t = Inr t'" and "tracker_ok t"
  shows "tracker_ok t'"
proof -
  let ?e = "tracker_edge_idx t"
  let ?m = "peredge_victim_metadata t ! unat ?e"
  have i: "unat ?e < length (peredge_victim_metadata t)"
    using assms(1) by (auto simp: VictimTracker_updateLocalCacheMarginBytes_def exec_inv nthE_def)
  have inv: "\<not> metadata_valid ?m \<longrightarrow> victim_cacheinfos ?m = []" "length (victim_cacheinfos ?m) \<le> unat (peredge_synced_victimcnt t)"
    using assms(2) i by (auto simp: tracker_ok_def lists_bounded_def)
  obtain m where m: "victim_cacheinfos m = victim_cacheinfos ?m" "metadata_valid m"
    and t': "same_parts (set_metadata ?e m t) t'" "perkey_victim_dirinfo t' = perkey_victim_dirinfo t"
  proof (cases "metadata_valid ?m")
    case True
    then show ?thesis using that [of "?m\<lparr>metadata_margin_bytes := margin\<rparr>"] assms(1) i
      by (auto simp: VictimTracker_updateLocalCacheMarginBytes_def exec_inv nthE_def set_metadata_def
          EdgelevelVictimMetadata_updateCacheMarginBytes_def EdgelevelVictimMetadata_checkValidity_def)
  next
    case False
    let ?m' = "\<lparr>metadata_valid = True, metadata_margin_bytes = margin, victim_cacheinfos = []\<rparr>"
    have "add_size 8 (set_metadata ?e ?m' t) = Inr t'"
      using assms(1) i False by (auto simp: VictimTracker_updateLocalCacheMarginBytes_def exec_inv nthE_def dest!: validate_metadata_eq)
    then show ?thesis using that [of ?m'] inv False add_size_dirinfo [of 8 "set_metadata ?e ?m' t" t'] by (simp add: set_metadata_def)
  qed
  have "key_count ((peredge_victim_metadata t)[unat ?e := m]) k = key_count (peredge_victim_metadata t) k" for k
    using key_count_update [OF i, of m k] m by simp
  then show ?thesis using t' assms(2) m inv
    by (auto simp: tracker_ok_def refs_exact_def lists_bounded_def same_parts_def set_metadata_def
        dest!: set_mp [OF set_update_subset_insert])
qed

lemma ok_directory:
  assumes "VictimTracker_updateLocalBeaconedVictimDirinfo env key is_admit info t = Inr t'" and "tracker_ok t"
  shows "tracker_ok t'"
proof (cases "KVListHelper_findVFromListForK key (perkey_victim_dirinfo t) = length (perkey_victim_dirinfo t)")
  case True
  then show ?thesis using assms by (simp add: VictimTracker_updateLocalBeaconedVictimDirinfo_def)
next
  case False
  let ?ds = "perkey_victim_dirinfo t" and ?i = "KVListHelper_findVFromListForK key (perkey_victim_dirinfo t)"
  obtain d where d: "kmap fst ?ds key = Some (key, d)" "?ds ! ?i = (key, d)" "kv_get key ?ds = Some d" "(key, d) \<in> set ?ds"
    using False by (rule kv_at)
  obtain d' u where u: "VictimDirinfo_updateDirinfoSet is_admit info d = Inr (d', u)"
    and t': "(if u then if is_admit then add_size (DirectoryInfo_getSizeForCapacity info) (t\<lparr>perkey_victim_dirinfo := ?ds[?i := (key, d')]\<rparr>)
         else Inr (sub_size (DirectoryInfo_getSizeForCapacity info) (t\<lparr>perkey_victim_dirinfo := ?ds[?i := (key, d')]\<rparr>))
       else Inr (t\<lparr>perkey_victim_dirinfo := ?ds[?i := (key, d')]\<rparr>)) = Inr t'"
  proof (cases "VictimDirinfo_updateDirinfoSet is_admit info d")
    case (Inr du)
    then show ?thesis using assms(1) False d(2) that
      by (cases du) (simp add: VictimTracker_updateLocalBeaconedVictimDirinfo_def Let_def myassertE_def assertE_def split: if_splits)
  qed (use assms(1) False d(2) in
      \<open>simp add: VictimTracker_updateLocalBeaconedVictimDirinfo_def Let_def myassertE_def assertE_def split: if_splits\<close>)
  have r: "refcnt d' = refcnt d" using u by (auto simp: VictimDirinfo_updateDirinfoSet_def exec_inv)
  let ?t = "t\<lparr>perkey_victim_dirinfo := ?ds[?i := (key, d')]\<rparr>"
  have same: "same_parts ?t t' \<and> perkey_victim_dirinfo t' = perkey_victim_dirinfo ?t"
    using t' add_size_dirinfo [of "DirectoryInfo_getSizeForCapacity info" ?t t'] by (auto simp: sub_size_dirinfo split: if_splits)
  have live: "live ?ds" using assms(2) by (simp add: tracker_ok_def refs_exact_def)
  then have "refcnt d' \<noteq> 0" using d(4) r by (auto simp: live_def)
  then have "tracker_ok ?t"
    using live_replace [OF live d(1)] refs_replace_set [OF d(1) r] by (intro tracker_ok_same [OF assms(2)]) (simp_all add: same_parts_def)
  then show ?thesis using same tracker_ok_dirinfo by blast
qed

lemma resize_dirinfo: "resize a b t = Inr t' \<Longrightarrow> same_parts t t' \<and> perkey_victim_dirinfo t' = perkey_victim_dirinfo t"
  by (auto simp: resize_def sub_size_dirinfo split: if_splits dest: add_size_dirinfo)

lemma set_monitor_dirinfo: "same_parts t (set_monitor e m t)" "perkey_victim_dirinfo (set_monitor e m t) = perkey_victim_dirinfo t"
  by (simp_all add: same_parts_def set_monitor_def)

lemma ok_send:
  assumes "VictimTracker_getLocalVictimSyncsetForSynchronization chk dst margin t = Inr (t', s)" and "tracker_ok t"
  shows "tracker_ok t'"
proof -
  obtain m a b where "resize a b (set_monitor dst m t) = Inr t'"
    using assms(1) by (auto simp: VictimTracker_getLocalVictimSyncsetForSynchronization_def exec_inv Let_def)
  then show ?thesis using resize_dirinfo set_monitor_dirinfo [where t = t and e = dst and m = m] tracker_ok_dirinfo [OF assms(2)] tracker_ok_dirinfo by metis
qed

lemma key_count_ge: "m \<in> set ms \<Longrightarrow> count_list (map victim_key (victim_cacheinfos m)) k \<le> key_count ms k"
  by (induction ms) (auto simp: key_count_def)

text \<open>After the victims of an edge node have been replaced, each of them is referred to.\<close>

lemma replaced_known:
  assumes "tracker_ok t" and "unat e < length (peredge_victim_metadata t)"
    and "peredge_victim_metadata t ! unat e = \<lparr>metadata_valid = True, metadata_margin_bytes = margin, victim_cacheinfos = vs\<rparr>" and "v \<in> set vs"
  shows "refs (perkey_victim_dirinfo t) (victim_key v) \<noteq> 0"
proof -
  have "count_list (map victim_key vs) (victim_key v) \<noteq> 0" using assms(4) by (auto simp: count_list_0_iff)
  moreover have "count_list (map victim_key vs) (victim_key v) \<le> key_count (peredge_victim_metadata t) (victim_key v)"
    using key_count_ge [OF nth_mem [OF assms(2)], of "victim_key v"] assms(3) by simp
  ultimately show ?thesis using assms(1) by (simp add: tracker_ok_def refs_exact_def)
qed

lemma ok_replaced:
  assumes "VictimTracker_replaceVictimMetadataForEdgeIdx env w e margin vs t = Inr t1" and "tracker_ok t"
    and "local_beaconed_sets env w' vs = Inr (w'', sets)"
    and "VictimTracker_replaceVictimDirinfoSets env False beaconed t1 = Inr t2"
    and "VictimTracker_replaceVictimDirinfoSets env True sets t2 = Inr t'"
  shows "tracker_ok t'"
proof -
  have 1: "refs_exact t1 \<and> lists_bounded t1 \<and> unat e < length (peredge_victim_metadata t)
    \<and> peredge_victim_metadata t1 = (peredge_victim_metadata t)[unat e :=
        \<lparr>metadata_valid = True, metadata_margin_bytes = margin, victim_cacheinfos = vs\<rparr>]
    \<and> tracker_edge_idx t1 = tracker_edge_idx t"
    by (rule replaceMetadata_refs [OF assms(1)]) (use assms(2) in \<open>simp_all add: tracker_ok_def\<close>)
  have live1: "live (perkey_victim_dirinfo t1)" using 1 by (simp add: refs_exact_def)
  have 2: "live (perkey_victim_dirinfo t2) \<and> same_parts t1 t2 \<and> refs (perkey_victim_dirinfo t2) = refs (perkey_victim_dirinfo t1)"
    by (rule replaceSets_refs [OF assms(4) live1]) simp
  have ok2: "tracker_ok t2" using 1 2 tracker_ok_same [of t1 t2] by (simp add: tracker_ok_def)
  have "\<forall>k \<in> fst ` set sets. refs (perkey_victim_dirinfo t2) k \<noteq> 0"
    using local_beaconed_sets_keys [OF assms(3)] replaced_known [OF ok2, of e margin vs] 1 2 by (auto simp: same_parts_def)
  then have "live (perkey_victim_dirinfo t') \<and> same_parts t2 t' \<and> refs (perkey_victim_dirinfo t') = refs (perkey_victim_dirinfo t2)"
    using replaceSets_refs [OF assms(5)] 2 by simp
  then show ?thesis using tracker_ok_same [OF ok2] by simp
qed

lemma ok_local:
  assumes "VictimTracker_updateLocalSyncedVictims env margin victims w t = Inr (w', t')" and "tracker_ok t"
  shows "tracker_ok t'"
proof -
  obtain t1 sets where "VictimTracker_replaceVictimMetadataForEdgeIdx env w (tracker_edge_idx t) margin victims t = Inr t1"
    "local_beaconed_sets env w victims = Inr (w', sets)" "VictimTracker_replaceVictimDirinfoSets env True sets t1 = Inr t'"
    using assms(1) by (auto simp: VictimTracker_updateLocalSyncedVictims_def exec_inv)
  then show ?thesis using ok_replaced [of env w "tracker_edge_idx t" margin victims t t1 w w' sets "[]" t1 t'] assms(2) by simp
qed

lemma ok_install:
  assumes "install_syncset env source n final w t = Inr (w', t')" and "tracker_ok t"
  shows "tracker_ok t'"
proof -
  obtain margin vs beaconed t1 t2 sets where
    "VictimTracker_replaceVictimMetadataForEdgeIdx env w source margin vs t = Inr t1"
    "VictimTracker_replaceVictimDirinfoSets env False beaconed t1 = Inr t2"
    "local_beaconed_sets env w vs = Inr (w', sets)" "VictimTracker_replaceVictimDirinfoSets env True sets t2 = Inr t'"
  proof (cases "VictimSyncset_getCacheMarginBytesOrDelta final")
    case (Inr room)
    then show ?thesis using assms(1) that by (cases room) (auto simp: install_syncset_def exec_inv)
  qed (use assms(1) in \<open>auto simp: install_syncset_def exec_inv\<close>)
  then show ?thesis using ok_replaced assms(2) by blast
qed

lemma ok_receive:
  assumes "VictimTracker_updateForNeighborVictimSyncset env source s w t = Inr (w', t')" and "tracker_ok t"
  shows "tracker_ok t'"
proof -
  obtain m m' final t1 a b where final: "(case final of None \<Rightarrow> Inr (w, set_monitor source m' (set_monitor source m t))
      | Some f \<Rightarrow> install_syncset env source (seqnum s) f w (set_monitor source m' (set_monitor source m t))) = Inr (w', t1)"
    and t': "resize a b t1 = Inr t'"
    using assms(1) by (auto simp: VictimTracker_updateForNeighborVictimSyncset_def exec_inv Let_def)
  have "tracker_ok (set_monitor source m' (set_monitor source m t))"
    using tracker_ok_dirinfo [OF assms(2)] set_monitor_dirinfo tracker_ok_dirinfo by metis
  then have "tracker_ok t1" using final ok_install by (cases final) auto
  then show ?thesis using resize_dirinfo [OF t'] tracker_ok_dirinfo by blast
qed

lemma remove_split:
  assumes "VictimTracker_removeVictimsForGivenEdge e ks t = Inr t'"
  obtains m r t1 where "unat e < length (peredge_victim_metadata t)" and "metadata_valid (peredge_victim_metadata t ! unat e)"
    and "remove_victims_loop ks (victim_cacheinfos (peredge_victim_metadata t ! unat e)) 0 = Inr (victim_cacheinfos m, r)"
    and "metadata_valid m" and "same_parts (set_metadata e m t) t1" and "perkey_victim_dirinfo t1 = perkey_victim_dirinfo t"
    and "release_loop ks t1 = Inr t'"
proof -
  let ?m = "peredge_victim_metadata t ! unat e"
  obtain vs r where i: "unat e < length (peredge_victim_metadata t)" "metadata_valid ?m" "remove_victims_loop ks (victim_cacheinfos ?m) 0 = Inr (vs, r)"
    and rest: "release_loop ks (if 0 < r then sub_size r (set_metadata e (?m\<lparr>victim_cacheinfos := vs\<rparr>) t)
        else set_metadata e (?m\<lparr>victim_cacheinfos := vs\<rparr>) t) = Inr t'"
    using assms by (auto simp: VictimTracker_removeVictimsForGivenEdge_def EdgelevelVictimMetadata_removeVictimsForPlacement_def
        EdgelevelVictimMetadata_checkValidity_def exec_inv nthE_def Let_def)
  show ?thesis
    by (rule that [of "?m\<lparr>victim_cacheinfos := vs\<rparr>" r, OF i(1,2) _ _ _ _ rest]) (use i in \<open>simp_all add: same_parts_def sub_size_def set_metadata_def\<close>)
qed

text \<open>The references after a removal: one less for each key of the list, whether the edge node lists it or not.\<close>

lemma remove_refs:
  assumes "VictimTracker_removeVictimsForGivenEdge e ks t = Inr t'" and "tracker_ok t"
  shows "live (perkey_victim_dirinfo t') \<and> refs (perkey_victim_dirinfo t') k = refs (perkey_victim_dirinfo t) k - count_list ks k"
    and "key_count (peredge_victim_metadata t') k + count_list (listed_by e t) k
      = key_count (peredge_victim_metadata t) k + (count_list (listed_by e t) k - count_list ks k)"
    and "lists_bounded t'"
    and "f < length (peredge_victim_metadata t) \<Longrightarrow> f \<noteq> unat e \<Longrightarrow> peredge_victim_metadata t' ! f = peredge_victim_metadata t ! f"
proof -
  obtain m r t1 where m: "unat e < length (peredge_victim_metadata t)" "metadata_valid (peredge_victim_metadata t ! unat e)"
    "remove_victims_loop ks (victim_cacheinfos (peredge_victim_metadata t ! unat e)) 0 = Inr (victim_cacheinfos m, r)" "metadata_valid m"
    "same_parts (set_metadata e m t) t1" "perkey_victim_dirinfo t1 = perkey_victim_dirinfo t" "release_loop ks t1 = Inr t'"
    using remove_split [OF assms(1)] by metis
  have "live (perkey_victim_dirinfo t1)" using assms(2) m(6) by (simp add: tracker_ok_def refs_exact_def)
  note rel = release_loop_refs [OF m(7) this]
  have cnt: "count_list (map victim_key (victim_cacheinfos m)) l = count_list (listed_by e t) l - count_list ks l" for l
    using remove_victims_count [OF m(3), of l] by (simp add: listed_by_def)
  have len: "length (victim_cacheinfos m) \<le> length (victim_cacheinfos (peredge_victim_metadata t ! unat e))"
    using remove_victims_count [OF m(3)] by simp
  have ms: "peredge_victim_metadata t' = (peredge_victim_metadata t)[unat e := m]" "peredge_synced_victimcnt t' = peredge_synced_victimcnt t"
    using m(5) rel by (simp_all add: same_parts_def set_metadata_def)
  show "live (perkey_victim_dirinfo t') \<and> refs (perkey_victim_dirinfo t') k = refs (perkey_victim_dirinfo t) k - count_list ks k"
    using rel m(6) by simp
  show "key_count (peredge_victim_metadata t') k + count_list (listed_by e t) k
      = key_count (peredge_victim_metadata t) k + (count_list (listed_by e t) k - count_list ks k)"
    using key_count_update [OF m(1), of m k] cnt [of k] ms by (simp add: listed_by_def)
  have "length (victim_cacheinfos (peredge_victim_metadata t ! unat e)) \<le> unat (peredge_synced_victimcnt t)"
    using assms(2) m(1) by (simp add: tracker_ok_def lists_bounded_def)
  then show "lists_bounded t'" using assms(2) ms len m(4)
    by (auto simp: tracker_ok_def lists_bounded_def dest!: set_mp [OF set_update_subset_insert])
  show "f < length (peredge_victim_metadata t) \<Longrightarrow> f \<noteq> unat e \<Longrightarrow> peredge_victim_metadata t' ! f = peredge_victim_metadata t ! f"
    using ms by simp
qed

lemma ok_remove:
  assumes "VictimTracker_removeVictimsForGivenEdge e ks t = Inr t'" and "tracker_ok t" and "\<forall>k. count_list ks k \<le> count_list (listed_by e t) k"
  shows "tracker_ok t'"
proof -
  have "refs (perkey_victim_dirinfo t') k = key_count (peredge_victim_metadata t') k" for k
    using remove_refs(1,2) [OF assms(1,2), of k] assms(2,3) spec [OF assms(3), of k] by (simp add: tracker_ok_def refs_exact_def)
  then show ?thesis using remove_refs(1,3) [OF assms(1,2)] by (auto simp: tracker_ok_def refs_exact_def)
qed

lemma tracker_step_ok: "tracker_step env s s' \<Longrightarrow> tracker_ok (snd s) \<Longrightarrow> tracker_ok (snd s')"
  by (induction rule: tracker_step.induct)
    (auto intro: ok_margin ok_local ok_directory ok_send ok_receive ok_remove)

lemma tracker_reachable_ok: "tracker_reachable env w t \<Longrightarrow> tracker_ok t"
  by (induction rule: tracker_reachable.induct) (auto intro: ok_new dest: tracker_step_ok)

text \<open>C25: The reference counts of the tracker are exact. In every state an edge node reaches (updates of its own cache
  margin and victims, changes of directory information, sending and receiving syncsets in any order and number, removing listed
  victims), the directory information of a key is kept exactly while some edge node lists the key as a victim, and
  its count is the number of entries with the key over all edge nodes.\<close>

theorem tracker_references_exact:
  assumes "tracker_reachable env w t"
  shows "case kv_get k (perkey_victim_dirinfo t) of
      None \<Rightarrow> key_count (peredge_victim_metadata t) k = 0
    | Some d \<Rightarrow> 0 < key_count (peredge_victim_metadata t) k \<and> unat (refcnt d) = key_count (peredge_victim_metadata t) k"
proof -
  have ok: "live (perkey_victim_dirinfo t)" "refs (perkey_victim_dirinfo t) = key_count (peredge_victim_metadata t)"
    using tracker_reachable_ok [OF assms] by (simp_all add: tracker_ok_def refs_exact_def)
  show ?thesis
  proof (cases "kv_get k (perkey_victim_dirinfo t)")
    case None
    then show ?thesis using live_refs [OF ok(1), of k] ok(2) by simp
  next
    case (Some d)
    then have "unat (refcnt d) = key_count (peredge_victim_metadata t) k" using ok(2) by (metis option.simps(5) refs_def)
    moreover have "key_count (peredge_victim_metadata t) k \<noteq> 0" using live_refs [OF ok(1), of k] ok(2) Some by simp
    ultimately show ?thesis using Some by simp
  qed
qed

text \<open>C26: A removal releases references that its edge node does not hold. If a key is to be removed for an edge node that
  no longer lists it (a victim that a syncset removed between the placement decision and the removal),
  the count is decreased all the same: directory information of a victim that exactly one other edge node lists is
  thrown away while that edge node still lists it.\<close>

theorem removal_drops_foreign_reference:
  assumes "tracker_reachable env w t" and "VictimTracker_removeVictimsForGivenEdge e [k] t = Inr t'"
    and "k \<notin> set (listed_by e t)" and "f \<noteq> e" and "unat f < length (peredge_victim_metadata t)" and "k \<in> set (listed_by f t)"
    and "key_count (peredge_victim_metadata t) k = 1"
  shows "kv_get k (perkey_victim_dirinfo t) \<noteq> None \<and> kv_get k (perkey_victim_dirinfo t') = None \<and> k \<in> set (listed_by f t')"
proof -
  have ok: "tracker_ok t" "live (perkey_victim_dirinfo t)" "refs (perkey_victim_dirinfo t) k = 1"
    using tracker_reachable_ok [OF assms(1)] assms(7) by (simp_all add: tracker_ok_def refs_exact_def)
  note rem = remove_refs [OF assms(2) ok(1)]
  have "refs (perkey_victim_dirinfo t') k = 0" using rem(1) [of k] ok(3) by simp
  then have "kv_get k (perkey_victim_dirinfo t') = None" using rem(1) [of k] live_refs [of "perkey_victim_dirinfo t'" k] by simp
  moreover have "listed_by f t' = listed_by f t" using rem(4) [of "unat f"] assms(4,5) by (simp add: listed_by_def flip: word_unat_eq_iff)
  ultimately show ?thesis using live_refs [OF ok(2), of k] ok(3) assms(6) by simp
qed

section \<open>A small run\<close>

text \<open>Edge node 0 of three; edge node 1 lists one victim with beacon 2, then edge node 2 reports that it has none.\<close>

definition example_coop :: "(nat \<times> bool, unit) cooperation_wrapper" where
  "example_coop = \<lparr>coop_edge_idx = 0, dht_wrapper_ptr = \<lparr>edgecnt = 3, dht_hash = (\<lambda>_. 0)\<rparr>,
     perkey_rwlock_ptr = PerkeyRwlock_new (least_env (\<lambda>_. 0)) 1 True,
     directory_table_ptr = DirectoryTable_new (PerkeyRwlock_new (least_env (\<lambda>_. 0)) 1 True) (),
     block_tracker_ptr = BlockTracker_new (PerkeyRwlock_new (least_env (\<lambda>_. 0)) 1 True)\<rparr>"

definition remote_victim :: victim_cacheinfo where
  "remote_victim = (sized_victim 7 10)\<lparr>beacon_edgeidx := 2\<rparr>"

lemma remote_victim_sel [simp]:
  "dedup_bitmap remote_victim = 0" "victim_key remote_victim = Key [7]" "beacon_edgeidx remote_victim = 2"
  by (simp_all add: remote_victim_def)

lemma example_sel [simp]: "coop_edge_idx example_coop = 0" "is_assert (least_env h) = True"
  by (simp_all add: example_coop_def least_env_def)

abbreviation seen_monitor :: victimsync_monitor where
  "seen_monitor \<equiv> VictimsyncMonitor_new\<lparr>is_first_complete_received := False\<rparr>"

definition example_tracker ::
    "u64 \<Rightarrow> edgelevel_victim_metadata \<Rightarrow> edgelevel_victim_metadata \<Rightarrow> (key \<times> victim_dirinfo) list \<Rightarrow> victimsync_monitor
     \<Rightarrow> victimsync_monitor \<Rightarrow> victim_tracker" where
  "example_tracker sz m1 m2 ds n1 n2 = \<lparr>tracker_edge_idx = 0, peredge_synced_victimcnt = 2, peredge_monitored_victimsetcnt = 2,
     tracker_size_bytes = sz, peredge_victim_metadata = [EdgelevelVictimMetadata_new, m1, m2], perkey_victim_dirinfo = ds,
     peredge_victimsync_monitor = [VictimsyncMonitor_new, n1, n2]\<rparr>"

abbreviation listing :: "victim_cacheinfo list \<Rightarrow> edgelevel_victim_metadata" where
  "listing vs \<equiv> \<lparr>metadata_valid = True, metadata_margin_bytes = 5, victim_cacheinfos = vs\<rparr>"

abbreviation fresh_dirinfo :: "(key \<times> victim_dirinfo) list" where
  "fresh_dirinfo \<equiv> [(Key [7], \<lparr>refcnt = 1, beacon_edge_idx = 2, victim_dirinfo_set = DirinfoSet_of_list []\<rparr>)]"

abbreviation report :: "victim_cacheinfo list \<Rightarrow> victim_syncset" where
  "report vs \<equiv> syncset 0 False False False False 5 0 vs []"

lemma continuous_loop_Nil [simp]: "continuous_loop chk x n [] f = Inr (n, [], f)"
  by (subst continuous_loop.simps) simp

lemma receive_first:
  "receive_syncset chk e (syncset 0 en False False False m 0 vs bs) t VictimsyncMonitor_new
    = Inr (seen_monitor, Some (syncset 0 en False False False m 0 vs bs))"
  by (simp add: receive_syncset_def VictimSyncset_getSeqnum_def VictimSyncset_checkValidity_def VictimsyncMonitor_isFirstCompleteReceived_def
      VictimsyncMonitor_new_def VictimsyncMonitor_clearFirstCompleteReceived_def VictimsyncMonitor_tryToClearEnforcementStatus_def
      VictimsyncMonitor_clearStaleCachedVictimSyncsets_def VictimsyncMonitor_clearContinuousCachedVictimSyncsets_def)

lemmas tracker_eval = VictimTracker_updateForNeighborVictimSyncset_def install_syncset_def VictimSyncset_getSeqnum_def
  VictimSyncset_checkValidity_def VictimSyncset_isEnforceComplete_def VictimsyncMonitor_getSizeForCapacity_def resize_def set_monitor_def
  local_beaconed_sets_eq VictimTracker_replaceVictimMetadataForEdgeIdx_def nthE_def definedE_def EdgelevelVictimMetadata_new_def
  EdgelevelVictimMetadata_validate_def set_metadata_def add_size_def Util_uint64Add_def Let_def VictimCacheinfo_getSizeForCapacity_def
  sized_def Key_getKeyLength_def getKey_whole victim_beacon_def VictimCacheinfo_getBeaconEdgeidx_def refer_to_def
  KVListHelper_findVFromListForK_def VictimDirinfo_new_def VictimDirinfo_incrRefcnt_def VictimDirinfo_getSizeForCapacity_def
  completeE_def DirinfoSet_getSizeForCapacity_def getDirinfoSetSizeForCapacityInternal_def VictimCacheinfo_isInvalid_def INVALID_BITMAP_def

lemma example_new:
  "VictimTracker_new 0 3 2 2
   = Inr (example_tracker 81 EdgelevelVictimMetadata_new EdgelevelVictimMetadata_new [] VictimsyncMonitor_new VictimsyncMonitor_new)"
proof -
  have three: "unat (3 :: u32) = Suc (Suc (Suc 0))" by simp
  show ?thesis unfolding VictimTracker_new_def three
    by (simp add: example_tracker_def add_size_def Util_uint64Add_def VictimsyncMonitor_new_def VictimsyncMonitor_getSizeForCapacity_def)
qed

lemma example_receive1:
  "VictimTracker_updateForNeighborVictimSyncset (least_env (\<lambda>_. 0)) 1 (report [remote_victim]) example_coop
     (example_tracker 81 EdgelevelVictimMetadata_new EdgelevelVictimMetadata_new [] VictimsyncMonitor_new VictimsyncMonitor_new)
   = Inr (example_coop, example_tracker 113 (listing [remote_victim]) EdgelevelVictimMetadata_new fresh_dirinfo seen_monitor VictimsyncMonitor_new)"
  by (simp add: example_tracker_def tracker_eval receive_first victims_whole_def sets_whole_def)
    (simp add: VictimsyncMonitor_new_def)

lemma example_receive2:
  "VictimTracker_updateForNeighborVictimSyncset (least_env (\<lambda>_. 0)) 2 (report []) example_coop
     (example_tracker 113 (listing [remote_victim]) EdgelevelVictimMetadata_new fresh_dirinfo seen_monitor VictimsyncMonitor_new)
   = Inr (example_coop, example_tracker 121 (listing [remote_victim]) (listing []) fresh_dirinfo seen_monitor seen_monitor)"
  by (simp add: example_tracker_def tracker_eval receive_first victims_whole_def sets_whole_def)
    (simp add: VictimsyncMonitor_new_def)

lemma example_remove:
  "VictimTracker_removeVictimsForGivenEdge 2 [Key [7]]
     (example_tracker 121 (listing [remote_victim]) (listing []) fresh_dirinfo seen_monitor seen_monitor)
   = Inr (example_tracker 115 (listing [remote_victim]) (listing []) [] seen_monitor seen_monitor)"
  by (simp add: example_tracker_def tracker_eval VictimTracker_removeVictimsForGivenEdge_def EdgelevelVictimMetadata_removeVictimsForPlacement_def
      EdgelevelVictimMetadata_checkValidity_def VictimTracker_tryToReleaseVictimDirinfo_def VictimDirinfo_decrRefcnt_def sub_size_def
      Util_uint64Minus_def erase_at_def)

lemma example_reachable:
  "tracker_reachable (least_env (\<lambda>_. 0)) example_coop
     (example_tracker 121 (listing [remote_victim]) (listing []) fresh_dirinfo seen_monitor seen_monitor)"
proof -
  have 1: "tracker_reachable (least_env (\<lambda>_. 0)) example_coop
     (example_tracker 81 EdgelevelVictimMetadata_new EdgelevelVictimMetadata_new [] VictimsyncMonitor_new VictimsyncMonitor_new)"
    by (rule tracker_reachable.start [OF example_new]) simp
  note 2 = tracker_reachable.step [OF 1 tracker_step.receive [OF example_receive1]]
  show ?thesis by (rule tracker_reachable.step [OF 2 tracker_step.receive [OF example_receive2]])
qed

theorem tracker_references_exact_witness:
  "case kv_get (Key [7]) (perkey_victim_dirinfo (example_tracker 121 (listing [remote_victim]) (listing []) fresh_dirinfo seen_monitor seen_monitor)) of
      None \<Rightarrow> key_count (peredge_victim_metadata (example_tracker 121 (listing [remote_victim]) (listing []) fresh_dirinfo seen_monitor seen_monitor)) (Key [7]) = 0
    | Some d \<Rightarrow> 0 < key_count (peredge_victim_metadata (example_tracker 121 (listing [remote_victim]) (listing []) fresh_dirinfo seen_monitor seen_monitor)) (Key [7])
        \<and> unat (refcnt d) = key_count (peredge_victim_metadata (example_tracker 121 (listing [remote_victim]) (listing []) fresh_dirinfo seen_monitor seen_monitor)) (Key [7])"
  by (rule tracker_references_exact [OF example_reachable])

theorem removal_drops_foreign_reference_witness:
  "kv_get (Key [7]) (perkey_victim_dirinfo (example_tracker 121 (listing [remote_victim]) (listing []) fresh_dirinfo seen_monitor seen_monitor)) \<noteq> None
   \<and> kv_get (Key [7]) (perkey_victim_dirinfo (example_tracker 115 (listing [remote_victim]) (listing []) [] seen_monitor seen_monitor)) = None
   \<and> Key [7] \<in> set (listed_by 1 (example_tracker 115 (listing [remote_victim]) (listing []) [] seen_monitor seen_monitor))"
  by (rule removal_drops_foreign_reference [OF example_reachable example_remove])
    (simp_all add: example_tracker_def listed_by_def key_count_def EdgelevelVictimMetadata_new_def)

end
