(* ===== verification/Tracker_Placement.thy ===== *)
theory Tracker_Placement
  imports Tracker_References
begin

text \<open>
  Placement and snapshots of \<open>VictimTracker\<close>: an eviction cost is the sum of the rewards of the victims found, and a snapshot
  of a tracker that has not heard of every edge node stops the process.
\<close>

section \<open>Victims of a placement\<close>




















section \<open>Sums of rewards\<close>


definition sum_rewards :: "u32 option list \<Rightarrow> u32 \<Rightarrow> u32 exec" where
  "sum_rewards rs cost = (case those rs of None \<Rightarrow> Inl Exited | Some xs \<Rightarrow> Inr (foldl f32_add cost xs))"


lemma sum_rewards_simps [simp]:
  "sum_rewards [] c = Inr c" "sum_rewards (None # rs) c = Inl Exited" "sum_rewards (Some x # rs) c = sum_rewards rs (f32_add c x)"
  by (simp_all add: sum_rewards_def split: option.split)








lemma dump_list_aborts: "\<exists>x \<in> set xs. \<forall>out. \<exists>a. f x out = Inl a \<Longrightarrow> \<exists>a. dump_list f xs out = Inl a"
proof (induction xs arbitrary: out)
  case (Cons x xs)
  show ?case
  proof (cases "f x out")
    case (Inr out')
    then have "\<exists>x \<in> set xs. \<forall>out. \<exists>a. f x out = Inl a" using Cons.prems by (metis Inr_Inl_False set_ConsD)
    then show ?thesis using Cons.IH [of out'] Inr by simp
  qed simp
qed simp

text \<open>A snapshot of a tracker that has not heard of every edge node stops the process: the dump of an edge node asserts that its
  victims are known, and the loop calls it for all of them.\<close>

theorem dump_needs_all_edges:
  assumes "\<exists>m \<in> set (peredge_victim_metadata t). \<not> metadata_valid m"
  shows "\<exists>a. VictimTracker_dumpVictimTracker t out = Inl a"
proof -
  have "\<exists>a. dump_list EdgelevelVictimMetadata_dumpEdgelevelVictimMetadata (peredge_victim_metadata t) out' = Inl a" for out'
    by (rule dump_list_aborts)
      (use assms in \<open>force simp: EdgelevelVictimMetadata_dumpEdgelevelVictimMetadata_def assertE_def\<close>)
  then obtain a where "dump_counted EdgelevelVictimMetadata_dumpEdgelevelVictimMetadata (peredge_victim_metadata t)
      (fs_write (u64_mem (tracker_size_bytes t)) out) = Inl a"
    unfolding dump_counted_def by blast
  then show ?thesis by (simp add: VictimTracker_dumpVictimTracker_def)
qed

end
