(* ===== verification/Ring_Buffer.thy ===== *)
theory Ring_Buffer
  imports Daco_Prelude
begin

text \<open>
  The ring buffers between threads (\<open>src/src/concurrency/ring_buffer_impl.h\<close>, \<open>blocking_ring_buffer_impl.h\<close>). Both keep
  \<open>buffer_size_\<close> slots of which one always stays free. The reading and writing of shared variables are definitions of
  their own, from which the operations are composed and which the theory of interleavings uses as atomic actions.
  The locale \<open>bounded_queue\<close> states what both classes promise to their clients: a first-in first-out queue with
  \<open>buffer_size_ - 1\<close> places.
\<close>

section \<open>The classes\<close>

record 'a ring_buffer =
  with_multi_providers :: bool
  ring_head :: u32
  ring_tail :: u32
  buffer_size :: u32
  default_element :: 'a
  ring_slots :: "'a list"

definition RingBuffer_new :: "'a \<Rightarrow> u32 \<Rightarrow> bool \<Rightarrow> 'a ring_buffer exec" where
  "RingBuffer_new d n multi =
     assertE (n > 0) (
     Inr \<lparr>with_multi_providers = multi, ring_head = 0, ring_tail = 0, buffer_size = n, default_element = d,
          ring_slots = replicate (unat n) d\<rparr>)"

text \<open>The index after an index; a remainder by zero is undefined.\<close>

definition next_index :: "u32 \<Rightarrow> 'a ring_buffer \<Rightarrow> u32 exec" where
  "next_index i b = definedE (buffer_size b \<noteq> 0) (Inr ((i + 1) mod buffer_size b))"

definition ring_full :: "'a ring_buffer \<Rightarrow> bool exec" where
  "ring_full b = bindE (next_index (ring_head b) b) (\<lambda>i. Inr (i = ring_tail b))"

definition ring_empty :: "'a ring_buffer \<Rightarrow> bool" where
  "ring_empty b \<longleftrightarrow> ring_tail b = ring_head b"

definition write_head :: "'a \<Rightarrow> 'a ring_buffer \<Rightarrow> 'a ring_buffer exec" where
  "write_head x b =
     definedE (unat (ring_head b) < length (ring_slots b)) (Inr (b\<lparr>ring_slots := (ring_slots b)[unat (ring_head b) := x]\<rparr>))"

definition advance_head :: "'a ring_buffer \<Rightarrow> 'a ring_buffer exec" where
  "advance_head b = bindE (next_index (ring_head b) b) (\<lambda>i. Inr (b\<lparr>ring_head := i\<rparr>))"

definition read_tail :: "'a ring_buffer \<Rightarrow> 'a exec" where
  "read_tail b = nthE (ring_slots b) (unat (ring_tail b))"

definition clear_tail :: "'a ring_buffer \<Rightarrow> 'a ring_buffer exec" where
  "clear_tail b =
     definedE (unat (ring_tail b) < length (ring_slots b))
       (Inr (b\<lparr>ring_slots := (ring_slots b)[unat (ring_tail b) := default_element b]\<rparr>))"

definition advance_tail :: "'a ring_buffer \<Rightarrow> 'a ring_buffer exec" where
  "advance_tail b = bindE (next_index (ring_tail b) b) (\<lambda>i. Inr (b\<lparr>ring_tail := i\<rparr>))"

text \<open>\<open>push\<close> returns whether there was room; \<open>pop\<close> returns the element, if there was one. With several providers \<open>push\<close>
  runs under the write lock of the buffer.\<close>

definition RingBuffer_push :: "'a \<Rightarrow> 'a ring_buffer \<Rightarrow> ('a ring_buffer \<times> bool) exec" where
  "RingBuffer_push x b =
     bindE (ring_full b) (\<lambda>full.
     if full then Inr (b, False)
     else bindE (write_head x b) (\<lambda>b. bindE (advance_head b) (\<lambda>b. Inr (b, True))))"

definition RingBuffer_pop :: "'a ring_buffer \<Rightarrow> ('a ring_buffer \<times> 'a option) exec" where
  "RingBuffer_pop b =
     (if ring_empty b then Inr (b, None)
      else bindE (read_tail b) (\<lambda>x. bindE (clear_tail b) (\<lambda>b. bindE (advance_tail b) (\<lambda>b. Inr (b, Some x)))))"

text \<open>The loop of \<open>getAllToRelease\<close>; \<open>None\<close> is a loop that does not end.\<close>

partial_function (option) RingBuffer_getAllToRelease :: "'a ring_buffer \<Rightarrow> 'a list \<Rightarrow> ('a ring_buffer \<times> 'a list) exec option" where
  "RingBuffer_getAllToRelease b remaining =
     (if ring_tail b \<noteq> ring_head b
      then case bindE (read_tail b) (\<lambda>x. bindE (clear_tail b) (\<lambda>b. bindE (advance_tail b) (\<lambda>b. Inr (b, x)))) of
             Inl e \<Rightarrow> Some (Inl e)
           | Inr r \<Rightarrow> RingBuffer_getAllToRelease (fst r) (remaining @ [snd r])
      else Some (Inr (b, remaining)))"

definition RingBuffer_getElementCnt :: "'a ring_buffer \<Rightarrow> u32 exec" where
  "RingBuffer_getElementCnt b =
     (let n = (if ring_head b \<ge> ring_tail b then ring_head b - ring_tail b
               else ring_head b + buffer_size b - ring_tail b)
      in assertE (n \<ge> 0 \<and> n < buffer_size b) (Inr n))"

text \<open>\<open>BlockingRingBuffer\<close>: the same members but for a finish condition. \<open>pop\<close> waits until the condition holds or there is an
  element; the condition has precedence. Its value when the wait ends is an argument.\<close>

definition BlockingRingBuffer_new :: "'a \<Rightarrow> u32 \<Rightarrow> 'a ring_buffer exec" where
  "BlockingRingBuffer_new d n = RingBuffer_new d n False"

definition BlockingRingBuffer_push :: "'a \<Rightarrow> 'a ring_buffer \<Rightarrow> ('a ring_buffer \<times> bool) exec" where
  "BlockingRingBuffer_push x b =
     bindE (ring_full b) (\<lambda>full.
     if full then Inr (b, False)
     else bindE (write_head x b) (\<lambda>b. bindE (advance_head b) (\<lambda>b. Inr (b, True))))"

definition BlockingRingBuffer_pop :: "bool \<Rightarrow> 'a ring_buffer \<Rightarrow> ('a ring_buffer \<times> 'a option) exec" where
  "BlockingRingBuffer_pop finished b =
     (if \<not> (finished \<or> ring_tail b \<noteq> ring_head b) then Inl Blocked
      else if finished then Inr (b, None)
      else assertE (ring_tail b \<noteq> ring_head b) (
           bindE (read_tail b) (\<lambda>x. bindE (clear_tail b) (\<lambda>b. bindE (advance_tail b) (\<lambda>b. Inr (b, Some x))))))"

definition BlockingRingBuffer_notifyFinish :: "bool option \<Rightarrow> unit exec" where
  "BlockingRingBuffer_notifyFinish condition = assertE (condition \<noteq> None) (assertE (condition = Some True) (Inr ()))"

section \<open>Bounded queues\<close>

datatype 'a queue_op = Push 'a | Pop

datatype 'a queue_reply = Pushed bool | Popped "'a option"

fun queue_step :: "nat \<Rightarrow> 'a queue_op \<Rightarrow> 'a list \<Rightarrow> 'a queue_reply \<times> 'a list" where
  "queue_step places (Push x) q = (if length q < places then (Pushed True, q @ [x]) else (Pushed False, q))"
| "queue_step places Pop [] = (Popped None, [])"
| "queue_step places Pop (x # q) = (Popped (Some x), q)"

fun run_queue :: "nat \<Rightarrow> 'a queue_op list \<Rightarrow> 'a list \<Rightarrow> 'a queue_reply list \<times> 'a list" where
  "run_queue places [] q = ([], q)"
| "run_queue places (c # cs) q =
     (let (r, q) = queue_step places c q; (rs, q) = run_queue places cs q in (r # rs, q))"

fun buffer_step ::
    "('a \<Rightarrow> 'b \<Rightarrow> ('b \<times> bool) exec) \<Rightarrow> ('b \<Rightarrow> ('b \<times> 'a option) exec) \<Rightarrow> 'a queue_op \<Rightarrow> 'b \<Rightarrow> ('a queue_reply \<times> 'b) exec" where
  "buffer_step push pop (Push x) b = bindE (push x b) (\<lambda>(b, r). Inr (Pushed r, b))"
| "buffer_step push pop Pop b = bindE (pop b) (\<lambda>(b, r). Inr (Popped r, b))"

fun run_buffer ::
    "('a \<Rightarrow> 'b \<Rightarrow> ('b \<times> bool) exec) \<Rightarrow> ('b \<Rightarrow> ('b \<times> 'a option) exec) \<Rightarrow> 'a queue_op list \<Rightarrow> 'b \<Rightarrow> ('a queue_reply list \<times> 'b) exec" where
  "run_buffer push pop [] b = Inr ([], b)"
| "run_buffer push pop (c # cs) b =
     bindE (buffer_step push pop c b) (\<lambda>(r, b). bindE (run_buffer push pop cs b) (\<lambda>(rs, b). Inr (r # rs, b)))"

locale bounded_queue =
  fixes ok :: "'b \<Rightarrow> bool" and elems :: "'b \<Rightarrow> 'a list" and places :: "'b \<Rightarrow> nat"
    and push :: "'a \<Rightarrow> 'b \<Rightarrow> ('b \<times> bool) exec" and pop :: "'b \<Rightarrow> ('b \<times> 'a option) exec"
  assumes push_room: "ok b \<Longrightarrow> length (elems b) < places b \<Longrightarrow>
      \<exists>b'. push x b = Inr (b', True) \<and> ok b' \<and> places b' = places b \<and> elems b' = elems b @ [x]"
    and push_full: "ok b \<Longrightarrow> \<not> length (elems b) < places b \<Longrightarrow> push x b = Inr (b, False)"
    and pop_some: "ok b \<Longrightarrow> elems b = y # ys \<Longrightarrow>
      \<exists>b'. pop b = Inr (b', Some y) \<and> ok b' \<and> places b' = places b \<and> elems b' = ys"
    and pop_none: "ok b \<Longrightarrow> elems b = [] \<Longrightarrow> pop b = Inr (b, None)"
begin

lemma step_equiv:
  assumes "ok b"
  shows "\<exists>b'. buffer_step push pop c b = Inr (fst (queue_step (places b) c (elems b)), b')
    \<and> ok b' \<and> places b' = places b \<and> elems b' = snd (queue_step (places b) c (elems b))"
proof (cases c)
  case (Push x)
  then show ?thesis using push_room [OF assms, of x] push_full [OF assms, of x] assms
    by (cases "length (elems b) < places b") auto
next
  case Pop
  then show ?thesis using pop_some [OF assms] pop_none [OF assms] assms by (cases "elems b") force+
qed

lemma run_equiv:
  "ok b \<Longrightarrow> \<exists>b'. run_buffer push pop cs b = Inr (fst (run_queue (places b) cs (elems b)), b')
    \<and> ok b' \<and> places b' = places b \<and> elems b' = snd (run_queue (places b) cs (elems b))"
proof (induction cs arbitrary: b)
  case (Cons c cs)
  obtain b' where b': "buffer_step push pop c b = Inr (fst (queue_step (places b) c (elems b)), b')" "ok b'"
      "places b' = places b" "elems b' = snd (queue_step (places b) c (elems b))"
    using step_equiv [OF Cons.prems] by blast
  then show ?case using Cons.IH [OF b'(2)] by (auto split: prod.splits)
qed simp

end

section \<open>The elements of a ring\<close>

definition ring_count :: "'a ring_buffer \<Rightarrow> nat" where
  "ring_count b = (unat (ring_head b) + unat (buffer_size b) - unat (ring_tail b)) mod unat (buffer_size b)"

definition slot_of :: "'a ring_buffer \<Rightarrow> nat \<Rightarrow> nat" where
  "slot_of b i = (unat (ring_tail b) + i) mod unat (buffer_size b)"

definition ring_elems :: "'a ring_buffer \<Rightarrow> 'a list" where
  "ring_elems b = map (\<lambda>i. ring_slots b ! slot_of b i) [0..<ring_count b]"

definition ring_places :: "'a ring_buffer \<Rightarrow> nat" where
  "ring_places b = unat (buffer_size b) - 1"

text \<open>The shape of a buffer: both indices are inside the slots.\<close>

definition ring_shape :: "'a ring_buffer \<Rightarrow> bool" where
  "ring_shape b \<longleftrightarrow> length (ring_slots b) = unat (buffer_size b) \<and> ring_head b < buffer_size b \<and> ring_tail b < buffer_size b"

text \<open>Slots outside the queue hold the default element.\<close>

definition ring_ok :: "'a ring_buffer \<Rightarrow> bool" where
  "ring_ok b \<longleftrightarrow> ring_shape b
     \<and> (\<forall>i < unat (buffer_size b). ring_count b \<le> i \<longrightarrow> ring_slots b ! slot_of b i = default_element b)"

lemma ring_bounds:
  assumes "ring_shape b"
  shows "0 < unat (buffer_size b)" "unat (ring_head b) < unat (buffer_size b)" "unat (ring_tail b) < unat (buffer_size b)"
    "unat (buffer_size b) < 2 ^ 32"
  using assms unsigned_less [of "buffer_size b", where 'a = nat] by (auto simp: ring_shape_def word_less_nat_alt)

lemma ring_next:
  assumes "ring_shape b" and "i < buffer_size b"
  shows "next_index i b = Inr ((i + 1) mod buffer_size b)" "unat ((i + 1) mod buffer_size b) = (unat i + 1) mod unat (buffer_size b)"
proof -
  note n = ring_bounds [OF assms(1)]
  show "next_index i b = Inr ((i + 1) mod buffer_size b)" using n(1) by (cases "buffer_size b = 0") (simp_all add: next_index_def)
  have "unat (i + 1) = unat i + 1" using n assms(2) unat_add_no_wrap [of i 1] by (simp add: word_less_nat_alt)
  then show "unat ((i + 1) mod buffer_size b) = (unat i + 1) mod unat (buffer_size b)" by (simp add: unat_mod)
qed

lemma slot_of_inj:
  assumes "slot_of b i = slot_of b j" and "i < unat (buffer_size b)" and "j < unat (buffer_size b)"
  shows "i = j"
proof -
  obtain q r where "unat (ring_tail b) + i + unat (buffer_size b) * q = unat (ring_tail b) + j + unat (buffer_size b) * r"
    using assms(1) by (auto simp: slot_of_def nat_mod_eq_iff)
  then have "i + unat (buffer_size b) * q = j + unat (buffer_size b) * r" by simp
  then have "i mod unat (buffer_size b) = j mod unat (buffer_size b)" by (metis mod_mult_self2)
  then show ?thesis using assms(2,3) by simp
qed

lemma head_slot:
  assumes "ring_shape b"
  shows "unat (ring_head b) = slot_of b (ring_count b)" "ring_count b < unat (buffer_size b)"
proof -
  note n = ring_bounds [OF assms]
  have "(unat (ring_tail b) + (unat (ring_head b) + unat (buffer_size b) - unat (ring_tail b))) mod unat (buffer_size b) = unat (ring_head b)"
    using n by simp
  then show "unat (ring_head b) = slot_of b (ring_count b)" by (simp add: slot_of_def ring_count_def mod_simps)
  show "ring_count b < unat (buffer_size b)" using n by (simp add: ring_count_def)
qed

lemma tail_slot: "ring_shape b \<Longrightarrow> unat (ring_tail b) = slot_of b 0"
  using ring_bounds [of b] by (simp add: slot_of_def)

lemma count_eqI:
  assumes "ring_shape b" and "unat (ring_head b) = (unat (ring_tail b) + c) mod unat (buffer_size b)" and "c < unat (buffer_size b)"
  shows "ring_count b = c"
  using slot_of_inj [of b "ring_count b" c] head_slot [OF assms(1)] assms by (simp add: slot_of_def)

lemma slot_of_less: "ring_shape b \<Longrightarrow> slot_of b i < length (ring_slots b)"
  using ring_bounds [of b] by (simp add: slot_of_def ring_shape_def)

lemma ring_empty_iff: "ring_shape b \<Longrightarrow> ring_tail b = ring_head b \<longleftrightarrow> ring_count b = 0"
  using head_slot [of b] tail_slot [of b] slot_of_inj [of b 0 "ring_count b"] ring_bounds [of b]
  by (metis word_unat_eq_iff)

lemma ring_full_eq:
  assumes "ring_shape b"
  shows "ring_full b = Inr (ring_count b + 1 = unat (buffer_size b))"
proof -
  note n = ring_bounds [OF assms] and h = head_slot [OF assms]
  have lt: "ring_head b < buffer_size b" using assms by (simp add: ring_shape_def)
  have "(unat (ring_head b) + 1) mod unat (buffer_size b) = slot_of b (ring_count b + 1)"
    using h(1) by (simp add: slot_of_def mod_simps)
  moreover have "slot_of b (ring_count b + 1) = unat (ring_tail b) \<longleftrightarrow> ring_count b + 1 = unat (buffer_size b)"
  proof (cases "ring_count b + 1 = unat (buffer_size b)")
    case True
    then show ?thesis using n by (simp add: slot_of_def)
  next
    case False
    then have "ring_count b + 1 < unat (buffer_size b)" using h(2) by simp
    then show ?thesis using False slot_of_inj [of b "ring_count b + 1" 0] n tail_slot [OF assms] by auto
  qed
  ultimately show ?thesis using ring_next [OF assms lt] by (simp add: ring_full_def word_unat_eq_iff)
qed

section \<open>Operations on the elements\<close>

text \<open>What each access does to the shape, the count and the slots.\<close>

lemma put_slot_shape [simp]: "ring_shape (b\<lparr>ring_slots := (ring_slots b)[j := x]\<rparr>) = ring_shape b"
  by (simp add: ring_shape_def)

lemma put_slot_simps [simp]:
  "ring_count (b\<lparr>ring_slots := ss\<rparr>) = ring_count b" "slot_of (b\<lparr>ring_slots := ss\<rparr>) = slot_of b"
  by (simp_all add: ring_count_def slot_of_def fun_eq_iff)

lemma nth_put_slot:
  assumes "ring_shape b" and "i < unat (buffer_size b)" and "j < unat (buffer_size b)"
  shows "(ring_slots b)[slot_of b j := x] ! slot_of b i = (if i = j then x else ring_slots b ! slot_of b i)"
  using assms slot_of_inj [of b i j] slot_of_less [OF assms(1)] by (auto simp: nth_list_update)

lemma write_head_eq:
  assumes "ring_shape b"
  shows "write_head x b = Inr (b\<lparr>ring_slots := (ring_slots b)[slot_of b (ring_count b) := x]\<rparr>)"
  using head_slot [OF assms] slot_of_less [OF assms] by (simp add: write_head_def)

lemma clear_tail_eq:
  assumes "ring_shape b"
  shows "clear_tail b = Inr (b\<lparr>ring_slots := (ring_slots b)[slot_of b 0 := default_element b]\<rparr>)"
  using tail_slot [OF assms] slot_of_less [OF assms] by (simp add: clear_tail_def)

lemma read_tail_eq: "ring_shape b \<Longrightarrow> read_tail b = Inr (ring_slots b ! slot_of b 0)"
  using tail_slot [of b] slot_of_less [of b] by (simp add: read_tail_def)

lemma advance_head_eq:
  assumes "ring_shape b" and "ring_count b + 1 < unat (buffer_size b)"
  shows "\<exists>b'. advance_head b = Inr b' \<and> ring_shape b' \<and> ring_count b' = ring_count b + 1 \<and> slot_of b' = slot_of b
    \<and> ring_slots b' = ring_slots b \<and> buffer_size b' = buffer_size b \<and> default_element b' = default_element b"
proof -
  note n = ring_bounds [OF assms(1)] and h = head_slot [OF assms(1)]
  have lt: "ring_head b < buffer_size b" using assms(1) by (simp add: ring_shape_def)
  note nx = ring_next [OF assms(1) lt]
  define b' where "b' = b\<lparr>ring_head := (ring_head b + 1) mod buffer_size b\<rparr>"
  have sh: "ring_shape b'" using assms(1) n nx(2) by (simp add: ring_shape_def b'_def word_less_nat_alt)
  have "unat (ring_head b') = (unat (ring_tail b') + (ring_count b + 1)) mod unat (buffer_size b')"
    using nx(2) h(1) by (simp add: b'_def slot_of_def mod_simps)
  then have "ring_count b' = ring_count b + 1" using assms(2) by (intro count_eqI [OF sh]) (simp_all add: b'_def)
  then show ?thesis using sh nx(1) by (intro exI [of _ b']) (simp add: advance_head_def b'_def slot_of_def fun_eq_iff)
qed

lemma advance_tail_eq:
  assumes "ring_shape b" and "ring_count b = Suc c"
  shows "\<exists>b'. advance_tail b = Inr b' \<and> ring_shape b' \<and> ring_count b' = c \<and> slot_of b' = (\<lambda>i. slot_of b (Suc i))
    \<and> ring_slots b' = ring_slots b \<and> buffer_size b' = buffer_size b \<and> default_element b' = default_element b"
proof -
  note n = ring_bounds [OF assms(1)] and h = head_slot [OF assms(1)]
  have lt: "ring_tail b < buffer_size b" using assms(1) by (simp add: ring_shape_def)
  note nx = ring_next [OF assms(1) lt]
  define b' where "b' = b\<lparr>ring_tail := (ring_tail b + 1) mod buffer_size b\<rparr>"
  have same: "ring_head b' = ring_head b" "buffer_size b' = buffer_size b" by (simp_all add: b'_def)
  have sh: "ring_shape b'" using assms(1) n nx(2) by (simp add: ring_shape_def b'_def word_less_nat_alt)
  have slot: "slot_of b' i = slot_of b (Suc i)" for i using nx(2) by (simp add: slot_of_def b'_def mod_simps)
  have "unat (ring_head b') = slot_of b' c" using h(1) same by (simp add: slot assms(2))
  then have "ring_count b' = c" using h(2) assms(2) same by (intro count_eqI [OF sh]) (simp_all add: slot_of_def)
  then show ?thesis using sh slot nx(1) by (intro exI [of _ b']) (simp add: advance_tail_def b'_def fun_eq_iff)
qed

lemma push_ring:
  assumes "ring_ok b" and "length (ring_elems b) < ring_places b"
  shows "\<exists>b'. RingBuffer_push x b = Inr (b', True) \<and> ring_ok b' \<and> ring_places b' = ring_places b \<and> ring_elems b' = ring_elems b @ [x]
    \<and> default_element b' = default_element b"
proof -
  have sh: "ring_shape b" using assms(1) by (simp add: ring_ok_def)
  note n = ring_bounds [OF sh] and h = head_slot [OF sh] and put = nth_put_slot [OF sh _ head_slot(2) [OF sh]]
  have room: "ring_count b + 1 < unat (buffer_size b)" using assms(2) n by (simp add: ring_elems_def ring_places_def)
  define c where "c = b\<lparr>ring_slots := (ring_slots b)[slot_of b (ring_count b) := x]\<rparr>"
  have c: "ring_shape c" "ring_count c = ring_count b" "slot_of c = slot_of b" "buffer_size c = buffer_size b" "default_element c = default_element b"
      "ring_slots c = (ring_slots b)[slot_of b (ring_count b) := x]"
    using sh by (simp_all add: c_def)
  obtain b' where b': "advance_head c = Inr b'" "ring_shape b'" "ring_count b' = ring_count b + 1" "slot_of b' = slot_of b"
      "ring_slots b' = ring_slots c" "buffer_size b' = buffer_size b" "default_element b' = default_element b"
    using advance_head_eq [OF c(1)] c room by auto
  have "RingBuffer_push x b = Inr (b', True)"
    using room b'(1) by (simp add: RingBuffer_push_def ring_full_eq [OF sh] write_head_eq [OF sh] c_def)
  moreover have "ring_elems b' = ring_elems b @ [x]" using put h(2) by (simp add: ring_elems_def b' c)
  moreover have "ring_ok b'" using b'(2) assms(1) put by (auto simp: ring_ok_def b' c)
  ultimately show ?thesis using b' by (simp add: ring_places_def)
qed

lemma pop_ring:
  assumes "ring_ok b" and "ring_elems b = y # ys"
  shows "\<exists>b'. bindE (read_tail b) (\<lambda>x. bindE (clear_tail b) (\<lambda>b. bindE (advance_tail b) (\<lambda>b. Inr (b, x)))) = Inr (b', y)
    \<and> RingBuffer_pop b = Inr (b', Some y) \<and> ring_ok b' \<and> ring_places b' = ring_places b \<and> ring_elems b' = ys
    \<and> default_element b' = default_element b"
proof -
  have sh: "ring_shape b" using assms(1) by (simp add: ring_ok_def)
  note n = ring_bounds [OF sh] and h = head_slot [OF sh] and put = nth_put_slot [OF sh _ ring_bounds(1) [OF sh]]
  obtain k where k: "ring_count b = Suc k" using assms(2) by (cases "ring_count b") (simp_all add: ring_elems_def)
  have y: "ring_slots b ! slot_of b 0 = y" and ys: "ys = map (\<lambda>i. ring_slots b ! slot_of b (Suc i)) [0..<k]"
    using assms(2) by (auto simp: ring_elems_def k upt_conv_Cons map_Suc_upt [symmetric] comp_def simp del: upt_Suc)
  define c where "c = b\<lparr>ring_slots := (ring_slots b)[slot_of b 0 := default_element b]\<rparr>"
  have c: "ring_shape c" "ring_count c = Suc k" "slot_of c = slot_of b" "buffer_size c = buffer_size b" "default_element c = default_element b"
      "ring_slots c = (ring_slots b)[slot_of b 0 := default_element b]"
    using sh k by (simp_all add: c_def)
  obtain b' where b': "advance_tail c = Inr b'" "ring_shape b'" "ring_count b' = k" "slot_of b' = (\<lambda>i. slot_of b (Suc i))"
      "ring_slots b' = ring_slots c" "buffer_size b' = buffer_size b" "default_element b' = default_element b"
    using advance_tail_eq [OF c(1,2)] c by auto
  have acc: "read_tail b = Inr y" "clear_tail b = Inr c" using y by (simp_all add: read_tail_eq [OF sh] clear_tail_eq [OF sh] c_def)
  have elems: "ring_elems b' = ys" using put h(2) k by (simp add: ring_elems_def b' c ys)
  have "ring_slots b' ! slot_of b (Suc i) = default_element b" if "k \<le> i" "i < unat (buffer_size b)" for i
  proof (cases "Suc i < unat (buffer_size b)")
    case True
    then show ?thesis using that put [of "Suc i"] assms(1) by (simp add: ring_ok_def k b' c)
  next
    case False
    then have "Suc i = unat (buffer_size b)" using that(2) by simp
    then have "slot_of b (Suc i) = slot_of b 0" by (simp add: slot_of_def)
    then show ?thesis using put [of 0] n by (simp add: b' c)
  qed
  then have "ring_ok b'" using b'(2) by (auto simp: ring_ok_def b')
  then show ?thesis using acc b' elems k ring_empty_iff [OF sh] by (simp add: RingBuffer_pop_def ring_empty_def ring_places_def)
qed

lemma push_ring_full:
  assumes "ring_ok b" and "\<not> length (ring_elems b) < ring_places b"
  shows "RingBuffer_push x b = Inr (b, False)"
proof -
  have sh: "ring_shape b" using assms(1) by (simp add: ring_ok_def)
  have "ring_count b + 1 = unat (buffer_size b)" using assms(2) head_slot(2) [OF sh] by (simp add: ring_elems_def ring_places_def)
  then show ?thesis by (simp add: RingBuffer_push_def ring_full_eq [OF sh])
qed

lemma pop_ring_empty:
  assumes "ring_ok b" and "ring_elems b = []"
  shows "ring_tail b = ring_head b"
  using assms ring_empty_iff [of b] by (auto simp: ring_elems_def ring_ok_def)

text \<open>A well-formed buffer with a given default element.\<close>

definition ring_of :: "'a \<Rightarrow> 'a ring_buffer \<Rightarrow> bool" where
  "ring_of d b \<longleftrightarrow> ring_ok b \<and> default_element b = d"

interpretation ring: bounded_queue "ring_of d" ring_elems ring_places RingBuffer_push RingBuffer_pop for d
proof
  fix b :: "'a ring_buffer" and x y ys
  assume ok: "ring_of d b"
  then have b: "ring_ok b" by (simp add: ring_of_def)
  show "\<exists>b'. RingBuffer_push x b = Inr (b', True) \<and> ring_of d b' \<and> ring_places b' = ring_places b \<and> ring_elems b' = ring_elems b @ [x]"
    if "length (ring_elems b) < ring_places b" using push_ring [OF b that] ok by (auto simp: ring_of_def)
  show "RingBuffer_push x b = Inr (b, False)" if "\<not> length (ring_elems b) < ring_places b"
    by (rule push_ring_full [OF b that])
  show "\<exists>b'. RingBuffer_pop b = Inr (b', Some y) \<and> ring_of d b' \<and> ring_places b' = ring_places b \<and> ring_elems b' = ys"
    if "ring_elems b = y # ys" using pop_ring [OF b that] ok by (auto simp: ring_of_def)
  show "RingBuffer_pop b = Inr (b, None)" if "ring_elems b = []"
    using pop_ring_empty [OF b that] by (simp add: RingBuffer_pop_def ring_empty_def)
qed

text \<open>A consumer that has to wait gets nothing yet.\<close>

definition waiting :: "('a ring_buffer \<times> 'a option) exec \<Rightarrow> 'a ring_buffer \<Rightarrow> ('a ring_buffer \<times> 'a option) exec" where
  "waiting m b = (case m of Inl Blocked \<Rightarrow> Inr (b, None) | r \<Rightarrow> r)"

lemma blocking_pop_eq:
  assumes "ring_ok b"
  shows "waiting (BlockingRingBuffer_pop False b) b = RingBuffer_pop b"
proof (cases "ring_elems b")
  case Nil
  then show ?thesis using pop_ring_empty [OF assms] by (simp add: BlockingRingBuffer_pop_def RingBuffer_pop_def ring_empty_def waiting_def)
next
  case (Cons y ys)
  obtain b' where b': "RingBuffer_pop b = Inr (b', Some y)" using pop_ring [OF assms Cons] by blast
  moreover from b' have "ring_tail b \<noteq> ring_head b" by (auto simp: RingBuffer_pop_def ring_empty_def)
  ultimately show ?thesis by (simp add: BlockingRingBuffer_pop_def RingBuffer_pop_def ring_empty_def waiting_def)
qed

lemma blocking_push_eq: "BlockingRingBuffer_push x b = RingBuffer_push x b"
  by (simp add: BlockingRingBuffer_push_def RingBuffer_push_def)

interpretation blocking_ring: bounded_queue "ring_of d" ring_elems ring_places BlockingRingBuffer_push
    "\<lambda>b. waiting (BlockingRingBuffer_pop False b) b" for d
proof
  fix b :: "'a ring_buffer" and x y ys
  assume ok: "ring_of d b"
  then have pop: "waiting (BlockingRingBuffer_pop False b) b = RingBuffer_pop b" by (simp add: ring_of_def blocking_pop_eq)
  show "\<exists>b'. BlockingRingBuffer_push x b = Inr (b', True) \<and> ring_of d b' \<and> ring_places b' = ring_places b \<and> ring_elems b' = ring_elems b @ [x]"
    if "length (ring_elems b) < ring_places b" using ring.push_room [OF ok that] by (simp add: blocking_push_eq)
  show "BlockingRingBuffer_push x b = Inr (b, False)" if "\<not> length (ring_elems b) < ring_places b"
    using ring.push_full [OF ok that] by (simp add: blocking_push_eq)
  show "\<exists>b'. waiting (BlockingRingBuffer_pop False b) b = Inr (b', Some y) \<and> ring_of d b' \<and> ring_places b' = ring_places b \<and> ring_elems b' = ys"
    if "ring_elems b = y # ys" using ring.pop_some [OF ok that] by (simp add: pop)
  show "waiting (BlockingRingBuffer_pop False b) b = Inr (b, None)" if "ring_elems b = []"
    using ring.pop_none [OF ok that] by (simp add: pop)
qed

lemma new_ring:
  assumes "RingBuffer_new d n multi = Inr b"
  shows "ring_of d b" "ring_elems b = []" "ring_places b = unat n - 1" "0 < unat n"
proof -
  have b: "0 < n" "b = \<lparr>with_multi_providers = multi, ring_head = 0, ring_tail = 0, buffer_size = n, default_element = d, ring_slots = replicate (unat n) d\<rparr>"
    using assms by (simp_all add: RingBuffer_new_def exec_inv)
  have n: "0 < unat n" using b(1) by (simp add: word_less_nat_alt)
  then show "ring_of d b" by (simp add: b ring_of_def ring_ok_def ring_shape_def slot_of_def word_less_nat_alt)
  show "ring_elems b = []" "ring_places b = unat n - 1" "0 < unat n"
    using n by (simp_all add: b(2) ring_elems_def ring_count_def ring_places_def)
qed

lemma element_count:
  assumes "ring_ok b"
  shows "RingBuffer_getElementCnt b = Inr (word_of_nat (length (ring_elems b)))"
proof -
  have sh: "ring_shape b" using assms by (simp add: ring_ok_def)
  note n = ring_bounds [OF sh]
  define m where "m = (if ring_head b \<ge> ring_tail b then ring_head b - ring_tail b else ring_head b + buffer_size b - ring_tail b)"
  have "unat (ring_tail b) + unat m = unat (ring_head b) + (if ring_head b \<ge> ring_tail b then 0 else unat (buffer_size b))"
  proof (cases "ring_head b \<ge> ring_tail b")
    case True
    then show ?thesis using unat_sub [of "ring_tail b" "ring_head b"] by (simp add: m_def word_le_nat_alt)
  next
    case False
    have "m = ring_head b + (buffer_size b - ring_tail b)" using False by (simp add: m_def)
    moreover have "unat (buffer_size b - ring_tail b) = unat (buffer_size b) - unat (ring_tail b)"
      using n by (intro unat_sub) (simp add: word_le_nat_alt)
    moreover have "unat (ring_head b) < unat (ring_tail b)" using False by (simp add: word_le_nat_alt)
    ultimately show ?thesis using False n unat_add_no_wrap [of "ring_head b" "buffer_size b - ring_tail b"] by simp
  qed
  then have m: "(unat (ring_tail b) + unat m) mod unat (buffer_size b) = unat (ring_head b)" "unat m < unat (buffer_size b)"
    using n by (auto simp: word_le_nat_alt split: if_splits)
  then have "ring_count b = unat m" by (intro count_eqI [OF sh]) simp_all
  then show ?thesis using m(2) by (simp add: RingBuffer_getElementCnt_def Let_def m_def [symmetric] ring_elems_def word_less_nat_alt)
qed

lemma release_all:
  "ring_ok b \<Longrightarrow> \<exists>b'. RingBuffer_getAllToRelease b remaining = Some (Inr (b', remaining @ ring_elems b))
     \<and> ring_ok b' \<and> ring_elems b' = [] \<and> default_element b' = default_element b \<and> ring_places b' = ring_places b"
proof (induction "ring_elems b" arbitrary: b remaining)
  case Nil
  then show ?case using pop_ring_empty [OF Nil(2)]
    by (subst RingBuffer_getAllToRelease.simps) auto
next
  case (Cons y ys)
  obtain b' where b': "ring_ok b'" "ring_places b' = ring_places b" "ring_elems b' = ys" "default_element b' = default_element b"
      "bindE (read_tail b) (\<lambda>x. bindE (clear_tail b) (\<lambda>b. bindE (advance_tail b) (\<lambda>b. Inr (b, x)))) = Inr (b', y)"
    using pop_ring [OF Cons(3) Cons(2) [symmetric]] by blast
  have ne: "ring_tail b \<noteq> ring_head b"
    using Cons(2,3) ring_empty_iff [of b] by (auto simp: ring_ok_def ring_elems_def)
  obtain b2 where "RingBuffer_getAllToRelease b' (remaining @ [y]) = Some (Inr (b2, (remaining @ [y]) @ ring_elems b'))" "ring_ok b2"
      "ring_elems b2 = []" "default_element b2 = default_element b'" "ring_places b2 = ring_places b'"
    using Cons(1) [OF b'(3) [symmetric] b'(1), of "remaining @ [y]"] by blast
  then show ?case using ne b' Cons(2) [symmetric]
    by (subst RingBuffer_getAllToRelease.simps) auto
qed

lemma empty_ring_slots:
  assumes "ring_ok b" and "ring_elems b = []"
  shows "ring_slots b = replicate (unat (buffer_size b)) (default_element b)"
proof (rule nth_equalityI)
  have sh: "ring_shape b" using assms(1) by (simp add: ring_ok_def)
  note n = ring_bounds [OF sh]
  show "length (ring_slots b) = length (replicate (unat (buffer_size b)) (default_element b))" using sh by (simp add: ring_shape_def)
  fix j
  assume "j < length (ring_slots b)"
  then have j: "j < unat (buffer_size b)" using sh by (simp add: ring_shape_def)
  define i where "i = (j + unat (buffer_size b) - unat (ring_tail b)) mod unat (buffer_size b)"
  have "slot_of b i = j" using n j by (simp add: slot_of_def i_def mod_simps)
  moreover have "i < unat (buffer_size b)" "ring_count b = 0" using n assms(2) by (simp_all add: i_def ring_elems_def)
  ultimately show "ring_slots b ! j = replicate (unat (buffer_size b)) (default_element b) ! j" using assms(1) j by (auto simp: ring_ok_def)
qed

text \<open>C21: Both ring buffers are bounded queues. On a new buffer of \<open>n\<close> slots any sequence of \<open>push\<close> and \<open>pop\<close> returns and gives the
  replies of a first-in first-out queue with \<open>n - 1\<close> places, wrap-around of the indices included, and the element count is the
  length of that queue. A consumer of the blocking buffer waits exactly when the queue is empty.\<close>

theorem ring_buffer_equals_queue:
  assumes "RingBuffer_new d n multi = Inr b"
  shows "(\<exists>b'. run_buffer RingBuffer_push RingBuffer_pop cs b = Inr (fst (run_queue (unat n - 1) cs []), b')
        \<and> RingBuffer_getElementCnt b' = Inr (word_of_nat (length (snd (run_queue (unat n - 1) cs [])))))
    \<and> (\<exists>b'. run_buffer BlockingRingBuffer_push (\<lambda>b. waiting (BlockingRingBuffer_pop False b) b) cs b
          = Inr (fst (run_queue (unat n - 1) cs []), b')
        \<and> (BlockingRingBuffer_pop False b' = Inl Blocked \<longleftrightarrow> snd (run_queue (unat n - 1) cs []) = []))"
proof -
  note new = new_ring [OF assms]
  obtain b1 where b1: "run_buffer RingBuffer_push RingBuffer_pop cs b = Inr (fst (run_queue (unat n - 1) cs []), b1)"
      "ring_ok b1" "ring_elems b1 = snd (run_queue (unat n - 1) cs [])"
    using ring.run_equiv [OF new(1), of cs] new by (auto simp: ring_of_def)
  obtain b2 where b2: "run_buffer BlockingRingBuffer_push (\<lambda>b. waiting (BlockingRingBuffer_pop False b) b) cs b
      = Inr (fst (run_queue (unat n - 1) cs []), b2)" "ring_ok b2" "ring_elems b2 = snd (run_queue (unat n - 1) cs [])"
    using blocking_ring.run_equiv [OF new(1), of cs] new by (auto simp: ring_of_def)
  have "BlockingRingBuffer_pop False b2 = Inl Blocked \<longleftrightarrow> ring_elems b2 = []"
  proof (cases "ring_elems b2")
    case Nil
    then show ?thesis using pop_ring_empty [OF b2(2)] by (simp add: BlockingRingBuffer_pop_def)
  next
    case (Cons y ys)
    then obtain b3 where "RingBuffer_pop b2 = Inr (b3, Some y)" using pop_ring [OF b2(2) Cons] by blast
    then have "waiting (BlockingRingBuffer_pop False b2) b2 = Inr (b3, Some y)" by (simp add: blocking_pop_eq [OF b2(2)])
    then show ?thesis using Cons by (auto simp: waiting_def)
  qed
  then show ?thesis using b1 b2 element_count [OF b1(2)] by auto
qed

lemma replicate3: "replicate 3 x = [x, x, x]"
  by (simp add: numeral_3_eq_3)

definition example_ring :: "nat ring_buffer" where
  "example_ring = \<lparr>with_multi_providers = True, ring_head = 0, ring_tail = 0, buffer_size = 3, default_element = 0, ring_slots = [0, 0, 0]\<rparr>"

lemma example_ring_new: "RingBuffer_new 0 3 True = Inr example_ring"
  by (simp add: RingBuffer_new_def example_ring_def replicate3)

lemma example_queue_run:
  "run_queue (unat (3 :: u32) - 1) [Push 7, Push 8, Pop, Push (9 :: nat), Push 5] []
   = ([Pushed True, Pushed True, Popped (Some 7), Pushed True, Pushed False], [8, 9])"
  by simp

theorem ring_buffer_equals_queue_witness:
  "\<exists>b'. run_buffer RingBuffer_push RingBuffer_pop [Push 7, Push 8, Pop, Push (9 :: nat), Push 5] example_ring
      = Inr ([Pushed True, Pushed True, Popped (Some 7), Pushed True, Pushed False], b')
      \<and> RingBuffer_getElementCnt b' = Inr 2"
  using ring_buffer_equals_queue [OF example_ring_new, of "[Push 7, Push 8, Pop, Push (9 :: nat), Push 5]"]
  unfolding example_queue_run by auto

text \<open>C23: \<open>getAllToRelease\<close> ends. After any run of a buffer its loop returns the elements that were not popped, in order, and
  leaves the default element in every slot.\<close>

theorem release_all_terminates:
  assumes "RingBuffer_new d n multi = Inr b" and "run_buffer RingBuffer_push RingBuffer_pop cs b = Inr (rs, b1)"
  shows "\<exists>b2. RingBuffer_getAllToRelease b1 [] = Some (Inr (b2, snd (run_queue (unat n - 1) cs [])))
    \<and> ring_slots b2 = replicate (unat n) d"
proof -
  note new = new_ring [OF assms(1)]
  have b1: "ring_of d b1" "ring_elems b1 = snd (run_queue (unat n - 1) cs [])" "ring_places b1 = unat n - 1"
    using ring.run_equiv [OF new(1), of cs] new assms(2) by auto
  obtain b2 where b2: "RingBuffer_getAllToRelease b1 [] = Some (Inr (b2, ring_elems b1))" "ring_ok b2" "ring_elems b2 = []"
      "default_element b2 = d" "ring_places b2 = unat n - 1"
    using release_all [of b1 "[]"] b1 by (auto simp: ring_of_def)
  have "unat (buffer_size b2) = unat n" using b2(2,5) new(4) ring_bounds(1) [of b2] by (simp add: ring_ok_def ring_places_def)
  then show ?thesis using b1 b2 empty_ring_slots [OF b2(2,3)] by auto
qed

lemma example_ring_run:
  "\<exists>b1. run_buffer RingBuffer_push RingBuffer_pop [Push 7, Push 8, Pop, Push (9 :: nat), Push 5] example_ring
      = Inr ([Pushed True, Pushed True, Popped (Some 7), Pushed True, Pushed False], b1)"
  using ring.run_equiv [OF new_ring(1) [OF example_ring_new], of "[Push 7, Push 8, Pop, Push 9, Push 5]"]
  unfolding new_ring(2,3) [OF example_ring_new] example_queue_run by auto

theorem release_all_terminates_witness:
  "\<exists>b1 b2. run_buffer RingBuffer_push RingBuffer_pop [Push 7, Push 8, Pop, Push (9 :: nat), Push 5] example_ring
        = Inr ([Pushed True, Pushed True, Popped (Some 7), Pushed True, Pushed False], b1)
      \<and> RingBuffer_getAllToRelease b1 [] = Some (Inr (b2, [8, 9])) \<and> ring_slots b2 = [0, 0, 0]"
proof -
  obtain b1 where b1: "run_buffer RingBuffer_push RingBuffer_pop [Push 7, Push 8, Pop, Push (9 :: nat), Push 5] example_ring
      = Inr ([Pushed True, Pushed True, Popped (Some 7), Pushed True, Pushed False], b1)" using example_ring_run by blast
  show ?thesis using b1 release_all_terminates [OF example_ring_new b1]
    unfolding example_queue_run by (auto simp: replicate3)
qed

end
