(* ===== verification/Ring_Threads.thy ===== *)
theory Ring_Threads
  imports Ring_Buffer
begin

text \<open>
  A ring buffer between a producer and a consumer thread that run without a lock
  (\<open>src/src/concurrency/ring_buffer_impl.h\<close> with one provider; several providers take turns by the write lock).
  \<open>push\<close> and \<open>pop\<close> are split at every access to a shared variable, and the two threads interleave freely; each
  access is taken to be atomic and seen in order.
\<close>

datatype 'a producer = Ready | Checked 'a | Written 'a

datatype 'a consumer = Asking | Found | Read 'a | Cleared 'a

record 'a ring_run =
  shared :: "'a ring_buffer"
  producer :: "'a producer"
  consumer :: "'a consumer"
  pushed :: "'a list"
  popped :: "'a list"

definition ring_start :: "'a ring_buffer \<Rightarrow> 'a ring_run" where
  "ring_start b = \<lparr>shared = b, producer = Ready, consumer = Asking, pushed = [], popped = []\<rparr>"

inductive producer_action :: "'a ring_run \<Rightarrow> 'a ring_run \<Rightarrow> bool" where
  push_refused: "producer s = Ready \<Longrightarrow> ring_full (shared s) = Inr True \<Longrightarrow> producer_action s s"
| push_check: "producer s = Ready \<Longrightarrow> ring_full (shared s) = Inr False \<Longrightarrow> producer_action s (s\<lparr>producer := Checked x\<rparr>)"
| push_write: "producer s = Checked x \<Longrightarrow> write_head x (shared s) = Inr b \<Longrightarrow> producer_action s (s\<lparr>shared := b, producer := Written x\<rparr>)"
| push_advance: "producer s = Written x \<Longrightarrow> advance_head (shared s) = Inr b \<Longrightarrow>
    producer_action s (s\<lparr>shared := b, producer := Ready, pushed := pushed s @ [x]\<rparr>)"

inductive consumer_action :: "'a ring_run \<Rightarrow> 'a ring_run \<Rightarrow> bool" where
  pop_refused: "consumer s = Asking \<Longrightarrow> ring_empty (shared s) \<Longrightarrow> consumer_action s s"
| pop_check: "consumer s = Asking \<Longrightarrow> \<not> ring_empty (shared s) \<Longrightarrow> consumer_action s (s\<lparr>consumer := Found\<rparr>)"
| pop_read: "consumer s = Found \<Longrightarrow> read_tail (shared s) = Inr x \<Longrightarrow> consumer_action s (s\<lparr>consumer := Read x\<rparr>)"
| pop_clear: "consumer s = Read x \<Longrightarrow> clear_tail (shared s) = Inr b \<Longrightarrow> consumer_action s (s\<lparr>shared := b, consumer := Cleared x\<rparr>)"
| pop_advance: "consumer s = Cleared x \<Longrightarrow> advance_tail (shared s) = Inr b \<Longrightarrow>
    consumer_action s (s\<lparr>shared := b, consumer := Asking, popped := popped s @ [x]\<rparr>)"

inductive ring_reachable :: "'a ring_buffer \<Rightarrow> 'a ring_run \<Rightarrow> bool" for b where
  start: "ring_reachable b (ring_start b)"
| produce: "ring_reachable b s \<Longrightarrow> producer_action s s' \<Longrightarrow> ring_reachable b s'"
| consume: "ring_reachable b s \<Longrightarrow> consumer_action s s' \<Longrightarrow> ring_reachable b s'"

text \<open>Between the two counts lie the pending elements; the slot of the first one may be cleared already, and the slot after
  the last one may be written already.\<close>

definition pending_in :: "nat \<Rightarrow> 'a ring_run \<Rightarrow> 'a list \<Rightarrow> bool" where
  "pending_in n s q \<longleftrightarrow> ring_shape (shared s) \<and> unat (buffer_size (shared s)) = n \<and> pushed s = popped s @ q
     \<and> ring_count (shared s) = length q
     \<and> (\<forall>i < length q. (0 < i \<or> (\<forall>x. consumer s \<noteq> Cleared x)) \<longrightarrow> ring_slots (shared s) ! slot_of (shared s) i = q ! i)
     \<and> (consumer s \<noteq> Asking \<longrightarrow> q \<noteq> []) \<and> (\<forall>x. consumer s = Read x \<or> consumer s = Cleared x \<longrightarrow> q ! 0 = x)
     \<and> (producer s \<noteq> Ready \<longrightarrow> length q + 1 < n)
     \<and> (\<forall>x. producer s = Written x \<longrightarrow> ring_slots (shared s) ! slot_of (shared s) (length q) = x)"

lemma pending_push:
  assumes "producer_action s s'" and "pending_in n s q"
  shows "\<exists>q'. pending_in n s' q'"
  using assms
proof cases
  case push_refused
  then show ?thesis using assms(2) by auto
next
  case (push_check x)
  have sh: "ring_shape (shared s)" "ring_count (shared s) < unat (buffer_size (shared s))"
    using assms(2) head_slot(2) [of "shared s"] by (auto simp: pending_in_def)
  then have "length q + 1 < n" using push_check assms(2) ring_full_eq [OF sh(1)] by (auto simp: pending_in_def)
  then show ?thesis using push_check assms(2) by (intro exI [of _ q]) (auto simp: pending_in_def)
next
  case (push_write x b)
  have sh: "ring_shape (shared s)" using assms(2) by (simp add: pending_in_def)
  note put = nth_put_slot [OF sh _ head_slot(2) [OF sh]]
  have "b = (shared s)\<lparr>ring_slots := (ring_slots (shared s))[slot_of (shared s) (ring_count (shared s)) := x]\<rparr>"
    using push_write write_head_eq [OF sh, of x] by simp
  then show ?thesis using push_write assms(2) put sh
    by (intro exI [of _ q]) (auto simp: pending_in_def)
next
  case (push_advance x b)
  have sh: "ring_shape (shared s)" "ring_count (shared s) + 1 < unat (buffer_size (shared s))"
    using assms(2) push_advance by (auto simp: pending_in_def)
  then show ?thesis using push_advance assms(2) advance_head_eq [OF sh]
    by (intro exI [of _ "q @ [x]"]) (auto simp: pending_in_def nth_append less_Suc_eq)
qed

lemma pending_pop:
  assumes "consumer_action s s'" and "pending_in n s q"
  shows "\<exists>q'. pending_in n s' q'"
  using assms
proof cases
  case pop_refused
  then show ?thesis using assms(2) by auto
next
  case pop_check
  then have "q \<noteq> []" using assms(2) ring_empty_iff [of "shared s"] by (auto simp: pending_in_def ring_empty_def)
  then show ?thesis using pop_check assms(2) by (intro exI [of _ q]) (auto simp: pending_in_def)
next
  case (pop_read x)
  have sh: "ring_shape (shared s)" using assms(2) by (simp add: pending_in_def)
  then show ?thesis using pop_read assms(2) read_tail_eq [OF sh]
    by (intro exI [of _ q]) (auto simp: pending_in_def)
next
  case (pop_clear x b)
  have sh: "ring_shape (shared s)" "length q < unat (buffer_size (shared s))" "q \<noteq> []"
    using assms(2) head_slot(2) [of "shared s"] pop_clear by (auto simp: pending_in_def)
  have "b = (shared s)\<lparr>ring_slots := (ring_slots (shared s))[slot_of (shared s) 0 := default_element (shared s)]\<rparr>"
    using pop_clear clear_tail_eq [OF sh(1)] by simp
  then show ?thesis using pop_clear assms(2) nth_put_slot [OF sh(1) _ ring_bounds(1) [OF sh(1)]] sh
    by (intro exI [of _ q]) (auto simp: pending_in_def)
next
  case (pop_advance x b)
  obtain y ys where q: "q = y # ys" using assms(2) pop_advance by (cases q) (auto simp: pending_in_def)
  have sh: "ring_shape (shared s)" "ring_count (shared s) = Suc (length ys)" using assms(2) q by (simp_all add: pending_in_def)
  have "x = y" using assms(2) q pop_advance by (auto simp: pending_in_def)
  then show ?thesis using pop_advance assms(2) advance_tail_eq [OF sh] q
    by (intro exI [of _ ys]) (auto simp: pending_in_def)
qed

lemma reachable_pending:
  assumes "RingBuffer_new d n multi = Inr b" and "ring_reachable b s"
  shows "\<exists>q. pending_in (unat n) s q"
  using assms(2)
proof induction
  case start
  have b: "ring_shape b" "ring_elems b = []" "unat (buffer_size b) = unat n"
    using new_ring [OF assms(1)] ring_bounds(1) [of b] by (auto simp: ring_of_def ring_ok_def ring_places_def)
  then show ?case by (intro exI [of _ "[]"]) (simp add: pending_in_def ring_start_def ring_elems_def)
qed (use pending_push pending_pop in blast)+

lemma pending_access:
  assumes "pending_in n s q" and "producer s \<noteq> Ready"
  shows "\<exists>b. write_head x (shared s) = Inr b" "\<exists>b. advance_head (shared s) = Inr b"
    "consumer s \<noteq> Asking \<Longrightarrow> ring_head (shared s) \<noteq> ring_tail (shared s)"
proof -
  have sh: "ring_shape (shared s)" "ring_count (shared s) + 1 < unat (buffer_size (shared s))" using assms by (auto simp: pending_in_def)
  show "\<exists>b. write_head x (shared s) = Inr b" "\<exists>b. advance_head (shared s) = Inr b"
    using write_head_eq [OF sh(1)] advance_head_eq [OF sh] by blast+
  show "ring_head (shared s) \<noteq> ring_tail (shared s)" if "consumer s \<noteq> Asking"
    using that assms(1) ring_empty_iff [OF sh(1)] by (auto simp: pending_in_def)
qed

lemma pending_found:
  assumes "pending_in n s q" and "consumer s \<noteq> Asking"
  shows "\<exists>x. read_tail (shared s) = Inr x" "\<exists>b. clear_tail (shared s) = Inr b" "\<exists>b. advance_tail (shared s) = Inr b"
proof -
  obtain c where sh: "ring_shape (shared s)" "ring_count (shared s) = Suc c"
    using assms by (cases "ring_count (shared s)") (auto simp: pending_in_def)
  show "\<exists>x. read_tail (shared s) = Inr x" "\<exists>b. clear_tail (shared s) = Inr b" "\<exists>b. advance_tail (shared s) = Inr b"
    using read_tail_eq [OF sh(1)] clear_tail_eq [OF sh(1)] advance_tail_eq [OF sh] by blast+
qed

text \<open>C22: A producer and a consumer share a ring buffer without a lock. In every interleaving of their accesses the elements that
  were popped are the first ones of those pushed, in order; at most \<open>n - 1\<close> are on their way; the element the consumer is about
  to return is the next one; while both threads are inside an operation they work on different slots; and no access is outside
  the slots.\<close>

theorem ring_threads_fifo:
  assumes "RingBuffer_new d n multi = Inr b" and "ring_reachable b s"
  shows "(\<exists>q. pushed s = popped s @ q \<and> length q < unat n \<and> (\<forall>x. consumer s = Read x \<or> consumer s = Cleared x \<longrightarrow> q \<noteq> [] \<and> hd q = x))
    \<and> (producer s \<noteq> Ready \<and> consumer s \<noteq> Asking \<longrightarrow> ring_head (shared s) \<noteq> ring_tail (shared s))
    \<and> (producer s \<noteq> Ready \<longrightarrow> (\<forall>x. \<exists>b. write_head x (shared s) = Inr b) \<and> (\<exists>b. advance_head (shared s) = Inr b))
    \<and> (consumer s \<noteq> Asking \<longrightarrow> (\<exists>x. read_tail (shared s) = Inr x) \<and> (\<exists>b. clear_tail (shared s) = Inr b) \<and> (\<exists>b. advance_tail (shared s) = Inr b))"
proof -
  obtain q where q: "pending_in (unat n) s q" using reachable_pending [OF assms] by blast
  have "length q < unat n" using q head_slot(2) [of "shared s"] by (auto simp: pending_in_def)
  moreover have "q \<noteq> [] \<and> hd q = x" if "consumer s = Read x \<or> consumer s = Cleared x" for x
    using q that by (auto simp: pending_in_def hd_conv_nth)
  moreover have "pushed s = popped s @ q" using q by (simp add: pending_in_def)
  ultimately show ?thesis using pending_access [OF q] pending_found [OF q] by blast
qed

text \<open>The consumer is about to return \<open>7\<close> while the producer has written \<open>8\<close>.\<close>

definition busy_run :: "nat ring_run" where
  "busy_run = \<lparr>shared = example_ring\<lparr>ring_slots := [0, 8, 0], ring_head := 1\<rparr>, producer = Written 8, consumer = Cleared 7,
               pushed = [7], popped = []\<rparr>"

lemma busy_reachable: "ring_reachable example_ring busy_run"
proof -
  note defs = ring_start_def example_ring_def ring_full_def next_index_def write_head_def advance_head_def
    clear_tail_def read_tail_def nthE_def ring_empty_def busy_run_def
  let ?s1 = "(ring_start example_ring)\<lparr>producer := Checked 7\<rparr>"
  let ?s2 = "?s1\<lparr>shared := example_ring\<lparr>ring_slots := [7, 0, 0]\<rparr>, producer := Written 7\<rparr>"
  let ?s3 = "?s2\<lparr>shared := example_ring\<lparr>ring_slots := [7, 0, 0], ring_head := 1\<rparr>, producer := Ready, pushed := [7]\<rparr>"
  let ?s4 = "?s3\<lparr>consumer := Found\<rparr>"
  let ?s5 = "?s4\<lparr>producer := Checked 8\<rparr>"
  let ?s6 = "?s5\<lparr>consumer := Read 7\<rparr>"
  let ?s7 = "?s6\<lparr>shared := example_ring\<lparr>ring_slots := [0, 0, 0], ring_head := 1\<rparr>, consumer := Cleared 7\<rparr>"
  have "ring_reachable example_ring ?s1" by (rule produce [OF start push_check]) (simp_all add: defs)
  then have "ring_reachable example_ring ?s2" by (rule produce) (use push_write [of ?s1 7] in \<open>simp add: defs\<close>)
  then have "ring_reachable example_ring ?s3" by (rule produce) (use push_advance [of ?s2 7] in \<open>simp add: defs\<close>)
  then have "ring_reachable example_ring ?s4" by (rule consume [OF _ pop_check]) (simp_all add: defs)
  then have "ring_reachable example_ring ?s5" by (rule produce [OF _ push_check]) (simp_all add: defs)
  then have "ring_reachable example_ring ?s6" by (rule consume [OF _ pop_read]) (simp_all add: defs)
  then have "ring_reachable example_ring ?s7" by (rule consume) (use pop_clear [of ?s6 7] in \<open>simp add: defs\<close>)
  then show ?thesis by (rule produce) (use push_write [of ?s7 8] in \<open>simp add: defs\<close>)
qed

theorem ring_threads_fifo_witness:
  "\<exists>q. pushed busy_run = popped busy_run @ q \<and> length q < 3 \<and> q \<noteq> [] \<and> hd q = 7 \<and> ring_head (shared busy_run) \<noteq> ring_tail (shared busy_run)"
  using ring_threads_fifo [OF example_ring_new busy_reachable] by (auto simp: busy_run_def)

end
