(* ===== verification/Lru_Cache.thy ===== *)
theory Lru_Cache
  imports Keys_Values Util_Arithmetic Concurrent_Hashtable
begin

text \<open>
  \<open>LruCache\<close> (\<open>src/src/cache/lru/lrucache.c\<close>): a list of key-value pairs in the order of their last use and a map from keys to
  list iterators. An iterator is the identity of a list node: nodes are numbered when they are created, and using an
  iterator whose node was erased is undefined. The specification is a clock: every key carries the time of its last
  use, and the victim is the key with the earliest one.
\<close>

record lru_cache =
  lru_size :: u64
  cache_items_list :: "(nat \<times> key \<times> data_value) list"
  cache_items_map :: "(key \<times> nat) list"
  next_node :: nat

definition LruCache_new :: lru_cache where
  "LruCache_new = \<lparr>lru_size = 0, cache_items_list = [], cache_items_map = [], next_node = 0\<rparr>"

definition list_node :: "nat \<Rightarrow> lru_cache \<Rightarrow> (key \<times> data_value) exec" where
  "list_node i c = (case map_of (cache_items_list c) i of None \<Rightarrow> Inl Undefined | Some kv \<Rightarrow> Inr kv)"

definition push_front :: "key \<Rightarrow> data_value \<Rightarrow> lru_cache \<Rightarrow> lru_cache" where
  "push_front key v c = c\<lparr>cache_items_list := (next_node c, key, v) # cache_items_list c, next_node := Suc (next_node c)\<rparr>"

definition erase_node :: "nat \<Rightarrow> lru_cache \<Rightarrow> lru_cache" where
  "erase_node i c = c\<lparr>cache_items_list := um_erase i (cache_items_list c)\<rparr>"

text \<open>The lengths are added in 32 bits before the cast.\<close>

definition pair_size :: "key \<Rightarrow> data_value \<Rightarrow> u64" where
  "pair_size key v = ucast (Key_getKeyLength key + valuesize v)"

definition entry_size :: "key \<Rightarrow> u64" where
  "entry_size key = ucast (Key_getKeyLength key) + 8"

definition grow_size :: "u64 \<Rightarrow> lru_cache \<Rightarrow> lru_cache exec" where
  "grow_size n c = bindE (Util_uint64Add (lru_size c) n) (\<lambda>s. Inr (c\<lparr>lru_size := s\<rparr>))"

definition shrink_size :: "u64 \<Rightarrow> lru_cache \<Rightarrow> lru_cache" where
  "shrink_size n c = c\<lparr>lru_size := Util_uint64Minus (lru_size c) n\<rparr>"

definition LruCache_get :: "key \<Rightarrow> lru_cache \<Rightarrow> (lru_cache \<times> data_value option) exec" where
  "LruCache_get key c =
     (case map_of (cache_items_map c) key of
        None \<Rightarrow> Inr (c, None)
      | Some i \<Rightarrow>
          bindE (list_node i c) (\<lambda>(k, v).
          exit_ifE (\<not> Key_equal k key) (
          Inr (c\<lparr>cache_items_list := (i, k, v) # um_erase i (cache_items_list c)\<rparr>, Some v))))"

definition LruCache_update :: "key \<Rightarrow> data_value \<Rightarrow> lru_cache \<Rightarrow> (lru_cache \<times> bool) exec" where
  "LruCache_update key v c =
     (case map_of (cache_items_map c) key of
        None \<Rightarrow> Inr (c, False)
      | Some prev \<Rightarrow>
          let node = next_node c
          in bindE (grow_size (pair_size key v) (push_front key v c)) (\<lambda>c.
             bindE (list_node prev c) (\<lambda>(prev_key, prev_value).
             assertE (Key_equal prev_key key) (
             let c = shrink_size (pair_size prev_key prev_value) (erase_node prev c)
             in Inr (c\<lparr>cache_items_map := um_put key node (cache_items_map c)\<rparr>, True)))))"

definition LruCache_admit :: "key \<Rightarrow> data_value \<Rightarrow> lru_cache \<Rightarrow> lru_cache exec" where
  "LruCache_admit key v c =
     (case map_of (cache_items_map c) key of
        Some i \<Rightarrow> Inr c
      | None \<Rightarrow>
          let node = next_node c
          in bindE (grow_size (pair_size key v) (push_front key v c)) (\<lambda>c.
             grow_size (entry_size key) (c\<lparr>cache_items_map := um_insert key node (cache_items_map c)\<rparr>)))"

definition LruCache_getVictimKey :: "lru_cache \<Rightarrow> key option" where
  "LruCache_getVictimKey c =
     (if cache_items_list c \<noteq> [] then Some (fst (snd (last (cache_items_list c)))) else None)"

definition LruCache_evictWithGivenKey :: "key \<Rightarrow> lru_cache \<Rightarrow> (lru_cache \<times> data_value option) exec" where
  "LruCache_evictWithGivenKey key c =
     (case map_of (cache_items_map c) key of
        None \<Rightarrow> Inr (c, None)
      | Some i \<Rightarrow>
          bindE (list_node i c) (\<lambda>(k, v).
          let c = shrink_size (entry_size key) (c\<lparr>cache_items_map := um_erase key (cache_items_map c)\<rparr>);
              c = shrink_size (pair_size key v) (erase_node i c)
          in Inr (c, Some v)))"

definition LruCache_exists :: "key \<Rightarrow> lru_cache \<Rightarrow> bool" where
  "LruCache_exists key c \<longleftrightarrow> map_of (cache_items_map c) key \<noteq> None"

definition LruCache_getSizeForCapacity :: "lru_cache \<Rightarrow> u64" where
  "LruCache_getSizeForCapacity c = lru_size c"

section \<open>Lists and iterators\<close>

definition items :: "lru_cache \<Rightarrow> (key \<times> data_value) list" where
  "items c = map snd (cache_items_list c)"

definition item_bytes :: "key \<times> data_value \<Rightarrow> nat" where
  "item_bytes kv = unat (pair_size (fst kv) (snd kv)) + unat (entry_size (fst kv))"

definition lru_ok :: "lru_cache \<Rightarrow> bool" where
  "lru_ok c \<longleftrightarrow> um_wf (cache_items_list c) \<and> um_wf (items c) \<and> um_wf (cache_items_map c)
     \<and> (\<forall>i \<in> fst ` set (cache_items_list c). i < next_node c)
     \<and> set (cache_items_map c) = (\<lambda>(i, k, v). (k, i)) ` set (cache_items_list c)
     \<and> unat (lru_size c) = sum_list (map item_bytes (items c))"

lemma um_erase_filter: "um_erase k al = filter (\<lambda>kv. fst kv \<noteq> k) al"
  by (auto simp: um_erase_def AList.delete_eq intro: filter_cong)

lemma set_um_erase: "set (um_erase k al) = {x \<in> set al. fst x \<noteq> k}"
  by (auto simp: um_erase_filter)

lemma set_um_put: "um_wf m \<Longrightarrow> set (um_put k j m) = insert (k, j) (set (um_erase k m))"
  by (induction m) (auto simp: um_put_def um_erase_filter intro: rev_image_eqI)

lemma node_iff_key:
  assumes "um_wf l" and "um_wf (map snd l)" and "(i, k, v) \<in> set l" and "(j, k', v') \<in> set l"
  shows "j = i \<longleftrightarrow> k' = k"
proof -
  have inj: "inj_on fst (set l)" "inj_on (\<lambda>x. fst (snd x)) (set l)" using assms(1,2) by (simp_all add: distinct_map comp_def)
  show ?thesis using inj_onD [OF inj(1) _ assms(4,3)] inj_onD [OF inj(2) _ assms(4,3)] by auto
qed

lemma erase_item:
  assumes "um_wf l" and "um_wf (map snd l)" and "(i, k, v) \<in> set l"
  shows "map snd (um_erase i l) = um_erase k (map snd l)"
proof -
  have "fst x \<noteq> i \<longleftrightarrow> fst (snd x) \<noteq> k" if "x \<in> set l" for x
    using node_iff_key [OF assms, of "fst x" "fst (snd x)" "snd (snd x)"] that by simp
  then show ?thesis by (simp add: um_erase_filter filter_map comp_def cong: filter_cong)
qed

lemma erase_link:
  assumes "um_wf l" and "um_wf (map snd l)" and "(i, k, v) \<in> set l" and "set m = (\<lambda>(i, k, v). (k, i)) ` set l"
  shows "set (um_erase k m) = (\<lambda>(i, k, v). (k, i)) ` set (um_erase i l)"
  using node_iff_key [OF assms(1-3)] assms(4) by (force simp: um_erase_filter)

lemma lru_item:
  assumes "lru_ok c" and "map_of (cache_items_map c) k = Some i"
  obtains v where "list_node i c = Inr (k, v)" "map_of (items c) k = Some v" "(i, k, v) \<in> set (cache_items_list c)"
    "map snd (um_erase i (cache_items_list c)) = um_erase k (items c)"
proof -
  have "(k, i) \<in> set (cache_items_map c)" using assms(2) by (rule map_of_SomeD)
  then obtain v where v: "(i, k, v) \<in> set (cache_items_list c)" using assms(1) by (auto simp: lru_ok_def)
  have "map_of (cache_items_list c) i = Some (k, v)" using assms(1) v by (simp add: lru_ok_def)
  moreover have "map_of (items c) k = Some v" using assms(1) v by (force simp: lru_ok_def items_def)
  ultimately show ?thesis using that [of v] v erase_item [OF _ _ v] assms(1) by (simp add: list_node_def lru_ok_def items_def)
qed

lemma lru_absent:
  assumes "lru_ok c" and "map_of (cache_items_map c) k = None"
  shows "map_of (items c) k = None" "k \<notin> fst ` set (items c)"
proof -
  show "k \<notin> fst ` set (items c)"
  proof
    assume "k \<in> fst ` set (items c)"
    then obtain i v where "(i, k, v) \<in> set (cache_items_list c)" by (force simp: items_def)
    then have "(k, i) \<in> set (cache_items_map c)" using assms(1) by (force simp: lru_ok_def)
    then show False using assms(2) by (force simp: map_of_eq_None_iff)
  qed
  then show "map_of (items c) k = None" by (simp add: map_of_eq_None_iff)
qed

lemma exists_items:
  assumes "lru_ok c"
  shows "LruCache_exists k c \<longleftrightarrow> map_of (items c) k \<noteq> None"
proof (cases "map_of (cache_items_map c) k")
  case (Some i)
  then show ?thesis using lru_item [OF assms Some] by (auto simp: LruCache_exists_def)
qed (use lru_absent(1) [OF assms] in \<open>simp add: LruCache_exists_def\<close>)

lemma victim_items: "LruCache_getVictimKey c = (if items c = [] then None else Some (fst (last (items c))))"
  by (simp add: LruCache_getVictimKey_def items_def last_map)

section \<open>Operations on the items\<close>

definition front :: "key \<Rightarrow> data_value \<Rightarrow> (key \<times> data_value) list \<Rightarrow> (key \<times> data_value) list" where
  "front k v q = (k, v) # um_erase k q"

lemma key_not_erased [simp]: "k \<notin> fst ` set (um_erase k q)"
  by (simp add: keys_um)

lemma bytes_front:
  assumes "um_wf q" and "map_of q k = Some w"
  shows "sum_list (map item_bytes (front k v q)) + item_bytes (k, w) = sum_list (map item_bytes q) + item_bytes (k, v)"
  using sum_um_erase [OF assms, of item_bytes] by (simp add: front_def)

lemma get_items:
  assumes "lru_ok c"
  shows "case map_of (items c) k of
      None \<Rightarrow> LruCache_get k c = Inr (c, None)
    | Some v \<Rightarrow> \<exists>c'. LruCache_get k c = Inr (c', Some v) \<and> lru_ok c' \<and> items c' = front k v (items c)"
proof (cases "map_of (cache_items_map c) k")
  case None
  then show ?thesis using lru_absent [OF assms None] by (simp add: LruCache_get_def)
next
  case (Some i)
  from lru_item [OF assms Some] obtain v where
    v: "list_node i c = Inr (k, v)" "map_of (items c) k = Some v" "(i, k, v) \<in> set (cache_items_list c)"
      "map snd (um_erase i (cache_items_list c)) = um_erase k (items c)" .
  define c' where "c' = c\<lparr>cache_items_list := (i, k, v) # um_erase i (cache_items_list c)\<rparr>"
  have it: "items c' = front k v (items c)" using v(4) by (simp add: items_def c'_def front_def)
  have sz: "sum_list (map item_bytes (items c')) = sum_list (map item_bytes (items c))"
    using bytes_front [of "items c" k v v] v(2) assms by (simp add: it lru_ok_def)
  have "set (cache_items_list c') = set (cache_items_list c)"
    using v(3) assms by (auto simp: c'_def um_erase_filter lru_ok_def dest: eq_key_imp_eq_value)
  then have "lru_ok c'" using assms sz it by (auto simp: lru_ok_def c'_def front_def)
  moreover have "LruCache_get k c = Inr (c', Some v)" using Some v(1) by (simp add: LruCache_get_def c'_def Key_equal_def)
  ultimately show ?thesis using v(2) it by simp
qed

lemma grow_size_ok:
  "unat (lru_size c) + unat n < 2 ^ 64 \<Longrightarrow> grow_size n c = Inr (c\<lparr>lru_size := lru_size c + n\<rparr>)"
  using word_add_overflow_iff [of "lru_size c" n] by (simp add: grow_size_def Util_uint64Add_def)

lemma update_items:
  assumes "lru_ok c" and "unat (lru_size c) + unat (pair_size k v) < 2 ^ 64"
  shows "if map_of (items c) k = None then LruCache_update k v c = Inr (c, False)
    else \<exists>c'. LruCache_update k v c = Inr (c', True) \<and> lru_ok c' \<and> items c' = front k v (items c)"
proof (cases "map_of (cache_items_map c) k")
  case None
  then show ?thesis using lru_absent [OF assms(1) None] by (simp add: LruCache_update_def)
next
  case (Some i)
  from lru_item [OF assms(1) Some] obtain w where
    w: "list_node i c = Inr (k, w)" "map_of (items c) k = Some w" "(i, k, w) \<in> set (cache_items_list c)"
      "map snd (um_erase i (cache_items_list c)) = um_erase k (items c)" .
  have i: "i < next_node c" using assms(1) w(3) by (force simp: lru_ok_def)
  define c' where "c' = c\<lparr>lru_size := Util_uint64Minus (lru_size c + pair_size k v) (pair_size k w),
      cache_items_list := (next_node c, k, v) # um_erase i (cache_items_list c),
      cache_items_map := um_put k (next_node c) (cache_items_map c), next_node := Suc (next_node c)\<rparr>"
  have "LruCache_update k v c = Inr (c', True)"
    using Some w(1) i assms(2) grow_size_ok [of "push_front k v c" "pair_size k v"]
    by (simp add: LruCache_update_def push_front_def list_node_def shrink_size_def erase_node_def c'_def Key_equal_def um_erase_filter split: option.splits)
  moreover have it: "items c' = front k v (items c)" using w(4) by (simp add: items_def c'_def front_def)
  moreover have "lru_ok c'"
  proof -
    have sum: "unat (lru_size c + pair_size k v) = unat (lru_size c) + unat (pair_size k v)"
      using assms(2) by (intro unat_add_no_wrap) simp
    have "lru_size c' = Util_uint64Minus (lru_size c + pair_size k v) (pair_size k w)" by (simp add: c'_def)
    then have "unat (lru_size c') = sum_list (map item_bytes (items c'))"
      using bytes_front [of "items c" k w v] w(2) assms(1) unfolding it
      by (simp add: lru_ok_def unat_uint64Minus sum item_bytes_def)
    moreover have "set (cache_items_map c') = (\<lambda>(i, k, v). (k, i)) ` set (cache_items_list c')"
      using erase_link [OF _ _ w(3)] assms(1) by (auto simp: lru_ok_def c'_def set_um_put items_def)
    ultimately show ?thesis using assms(1) it i unfolding lru_ok_def by (auto simp: c'_def front_def set_um_erase)
  qed
  ultimately show ?thesis using w(2) by auto
qed

lemma admit_items:
  assumes "lru_ok c" and "unat (lru_size c) + item_bytes (k, v) < 2 ^ 64"
  shows "if map_of (items c) k \<noteq> None then LruCache_admit k v c = Inr c
    else \<exists>c'. LruCache_admit k v c = Inr c' \<and> lru_ok c' \<and> items c' = (k, v) # items c"
proof (cases "map_of (cache_items_map c) k")
  case None
  note new = lru_absent [OF assms(1) None]
  define c1 where "c1 = (push_front k v c)\<lparr>lru_size := lru_size c + pair_size k v, cache_items_map := um_insert k (next_node c) (cache_items_map c)\<rparr>"
  have n1: "unat (lru_size c1) = unat (lru_size c) + unat (pair_size k v)"
    using assms(2) by (simp add: c1_def unat_add_no_wrap item_bytes_def)
  define c' where "c' = c1\<lparr>lru_size := lru_size c1 + entry_size k\<rparr>"
  have n2: "unat (lru_size c') = unat (lru_size c) + item_bytes (k, v)"
    using assms(2) n1 by (simp add: c'_def unat_add_no_wrap item_bytes_def)
  have "grow_size (pair_size k v) (push_front k v c) = Inr ((push_front k v c)\<lparr>lru_size := lru_size c + pair_size k v\<rparr>)"
    using assms(2) grow_size_ok [of "push_front k v c" "pair_size k v"] by (simp add: push_front_def item_bytes_def)
  moreover have "grow_size (entry_size k) c1 = Inr c'"
    using assms(2) n1 grow_size_ok [of c1 "entry_size k"] by (simp add: c'_def item_bytes_def)
  ultimately have "LruCache_admit k v c = Inr c'" using None by (simp add: LruCache_admit_def c1_def push_front_def)
  moreover have it: "items c' = (k, v) # items c" by (simp add: items_def c'_def c1_def push_front_def)
  moreover have "lru_ok c'"
  proof -
    have "set (cache_items_map c') = insert (k, next_node c) (set (cache_items_map c))"
      using None by (simp add: c'_def c1_def um_insert_def)
    then have "set (cache_items_map c') = (\<lambda>(i, k, v). (k, i)) ` set (cache_items_list c')"
      using assms(1) by (simp add: c'_def c1_def push_front_def lru_ok_def)
    moreover have "unat (lru_size c') = sum_list (map item_bytes (items c'))" using n2 assms(1) it by (simp add: lru_ok_def)
    ultimately show ?thesis using assms(1) it new unfolding lru_ok_def by (auto simp: c'_def c1_def push_front_def)
  qed
  ultimately show ?thesis using new by auto
next
  case (Some i)
  then show ?thesis using lru_item [OF assms(1) Some] by (auto simp: LruCache_admit_def)
qed

lemma evict_items:
  assumes "lru_ok c"
  shows "case map_of (items c) k of
      None \<Rightarrow> LruCache_evictWithGivenKey k c = Inr (c, None)
    | Some v \<Rightarrow> \<exists>c'. LruCache_evictWithGivenKey k c = Inr (c', Some v) \<and> lru_ok c' \<and> items c' = um_erase k (items c)"
proof (cases "map_of (cache_items_map c) k")
  case None
  then show ?thesis using lru_absent [OF assms None] by (simp add: LruCache_evictWithGivenKey_def)
next
  case (Some i)
  from lru_item [OF assms Some] obtain v where
    v: "list_node i c = Inr (k, v)" "map_of (items c) k = Some v" "(i, k, v) \<in> set (cache_items_list c)"
      "map snd (um_erase i (cache_items_list c)) = um_erase k (items c)" .
  define c' where "c' = c\<lparr>lru_size := Util_uint64Minus (Util_uint64Minus (lru_size c) (entry_size k)) (pair_size k v),
      cache_items_list := um_erase i (cache_items_list c), cache_items_map := um_erase k (cache_items_map c)\<rparr>"
  have "LruCache_evictWithGivenKey k c = Inr (c', Some v)"
    using Some v(1) by (simp add: LruCache_evictWithGivenKey_def shrink_size_def erase_node_def c'_def)
  moreover have it: "items c' = um_erase k (items c)" using v(4) by (simp add: items_def c'_def)
  moreover have "lru_ok c'"
  proof -
    have "lru_size c' = Util_uint64Minus (Util_uint64Minus (lru_size c) (entry_size k)) (pair_size k v)" by (simp add: c'_def)
    then have "unat (lru_size c') = sum_list (map item_bytes (items c'))"
      using sum_um_erase [of "items c" k v item_bytes] v(2) assms unfolding it
      by (simp add: lru_ok_def unat_uint64Minus item_bytes_def)
    moreover have "set (cache_items_map c') = (\<lambda>(i, k, v). (k, i)) ` set (cache_items_list c')"
      using erase_link [OF _ _ v(3)] assms by (auto simp: lru_ok_def c'_def items_def)
    ultimately show ?thesis using assms it unfolding lru_ok_def by (auto simp: c'_def)
  qed
  ultimately show ?thesis using v(2) by simp
qed

section \<open>Least recently used\<close>

datatype lru_request = Get key | Update key data_value | Admit key data_value | Evict key

datatype lru_reply = Found "data_value option" | Done bool

fun lru_serve :: "lru_request \<Rightarrow> lru_cache \<Rightarrow> (lru_cache \<times> lru_reply) exec" where
  "lru_serve (Get k) c = bindE (LruCache_get k c) (\<lambda>(c, r). Inr (c, Found r))"
| "lru_serve (Update k v) c = bindE (LruCache_update k v c) (\<lambda>(c, r). Inr (c, Done r))"
| "lru_serve (Admit k v) c = bindE (LruCache_admit k v c) (\<lambda>c. Inr (c, Done True))"
| "lru_serve (Evict k) c = bindE (LruCache_evictWithGivenKey k c) (\<lambda>(c, r). Inr (c, Found r))"

fun lru_run :: "lru_request list \<Rightarrow> lru_cache \<Rightarrow> (lru_cache \<times> lru_reply list) exec" where
  "lru_run [] c = Inr (c, [])"
| "lru_run (q # qs) c = bindE (lru_serve q c) (\<lambda>(c, r). bindE (lru_run qs c) (\<lambda>(c, rs). Inr (c, r # rs)))"

text \<open>The specification: the value and the time of the last use of every cached key.\<close>

fun clock_serve :: "lru_request \<Rightarrow> nat \<Rightarrow> (key \<rightharpoonup> data_value \<times> nat) \<Rightarrow> (key \<rightharpoonup> data_value \<times> nat) \<times> lru_reply" where
  "clock_serve (Get k) now m =
     (case m k of None \<Rightarrow> (m, Found None) | Some (v, s) \<Rightarrow> (m(k \<mapsto> (v, now)), Found (Some v)))"
| "clock_serve (Update k v) now m = (if m k = None then (m, Done False) else (m(k \<mapsto> (v, now)), Done True))"
| "clock_serve (Admit k v) now m = (if m k = None then m(k \<mapsto> (v, now)) else m, Done True)"
| "clock_serve (Evict k) now m = (m(k := None), Found (map_option fst (m k)))"

fun clock_run :: "lru_request list \<Rightarrow> nat \<Rightarrow> (key \<rightharpoonup> data_value \<times> nat) \<Rightarrow> (key \<rightharpoonup> data_value \<times> nat) \<times> lru_reply list" where
  "clock_run [] now m = (m, [])"
| "clock_run (q # qs) now m =
     (let (m, r) = clock_serve q now m; (m, rs) = clock_run qs (Suc now) m in (m, r # rs))"

fun request_bytes :: "lru_request \<Rightarrow> nat" where
  "request_bytes (Update k v) = item_bytes (k, v)"
| "request_bytes (Admit k v) = item_bytes (k, v)"
| "request_bytes _ = 0"

definition stamp :: "(key \<rightharpoonup> data_value \<times> nat) \<Rightarrow> key \<times> data_value \<Rightarrow> nat" where
  "stamp m x = (case m (fst x) of None \<Rightarrow> 0 | Some (v, s) \<Rightarrow> s)"

definition lru_rep :: "lru_cache \<Rightarrow> nat \<Rightarrow> (key \<rightharpoonup> data_value \<times> nat) \<Rightarrow> bool" where
  "lru_rep c now m \<longleftrightarrow> lru_ok c \<and> (\<forall>k. map_option fst (m k) = map_of (items c) k)
     \<and> sorted_wrt (\<lambda>x y. stamp m y < stamp m x) (items c) \<and> (\<forall>k v s. m k = Some (v, s) \<longrightarrow> s < now)"

lemma rep_later: "lru_rep c now m \<Longrightarrow> lru_rep c (Suc now) m"
  by (auto simp: lru_rep_def intro: less_SucI)

lemma stamp_now: "(\<forall>k v s. m k = Some (v, s) \<longrightarrow> s < now) \<Longrightarrow> m (fst x) \<noteq> None \<Longrightarrow> stamp m x < now"
  by (auto simp: stamp_def)

lemma rep_erase:
  assumes "lru_rep c now m" and "lru_ok c'" and "items c' = um_erase k (items c)"
  shows "lru_rep c' now (m(k := None))"
proof -
  have "sorted_wrt (\<lambda>x y. stamp m y < stamp m x) (um_erase k (items c))"
    using assms(1) by (simp add: lru_rep_def um_erase_filter sorted_wrt_filter)
  then have "sorted_wrt (\<lambda>x y. stamp (m(k := None)) y < stamp (m(k := None)) x) (um_erase k (items c))"
    by (rule sorted_wrt_mono_rel [rotated]) (auto simp: stamp_def set_um_erase)
  then show ?thesis using assms by (auto simp: lru_rep_def)
qed

lemma rep_front:
  assumes "lru_rep c now m" and "lru_ok c'" and "items c' = front k v (items c)"
  shows "lru_rep c' (Suc now) (m(k \<mapsto> (v, now)))"
proof -
  have old: "\<forall>k v s. m k = Some (v, s) \<longrightarrow> s < now" "\<And>k. map_option fst (m k) = map_of (items c) k" using assms(1) by (simp_all add: lru_rep_def)
  have mem: "m (fst x) \<noteq> None" if "x \<in> set (items c)" for x
    using that old(2) [of "fst x"] by (metis domI domIff imageI dom_map_of_conv_image_fst option.map_disc_iff prod.collapse)
  have keep: "stamp (m(k \<mapsto> (v, now))) x = stamp m x" if "x \<in> set (um_erase k (items c))" for x
    using that by (simp add: stamp_def set_um_erase)
  have "sorted_wrt (\<lambda>x y. stamp m y < stamp m x) (um_erase k (items c))"
    using assms(1) by (simp add: lru_rep_def um_erase_filter sorted_wrt_filter)
  then have "sorted_wrt (\<lambda>x y. stamp (m(k \<mapsto> (v, now))) y < stamp (m(k \<mapsto> (v, now))) x) (um_erase k (items c))"
    by (rule sorted_wrt_mono_rel [rotated]) (simp add: keep)
  moreover have "stamp (m(k \<mapsto> (v, now))) x < now" if "x \<in> set (um_erase k (items c))" for x
    using that keep [OF that] stamp_now [OF old(1)] mem by (simp add: set_um_erase)
  moreover have "stamp (m(k \<mapsto> (v, now))) (k, v) = now" by (simp add: stamp_def)
  ultimately show ?thesis using assms(2,3) old by (auto simp: lru_rep_def front_def intro: less_SucI)
qed

lemma front_absent: "map_of q k = None \<Longrightarrow> front k v q = (k, v) # q"
  by (auto simp: front_def um_erase_filter map_of_eq_None_iff intro!: filter_True)

lemma bytes_front_le:
  assumes "um_wf q"
  shows "sum_list (map item_bytes (front k v q)) \<le> sum_list (map item_bytes q) + item_bytes (k, v)"
proof (cases "map_of q k")
  case (Some w)
  then show ?thesis using bytes_front [OF assms Some, of v] by linarith
qed (simp add: front_absent)

lemma bytes_erase_le: "sum_list (map item_bytes (um_erase k q)) \<le> sum_list (map item_bytes q)"
  by (induction q) (auto simp: um_erase_filter)

lemma rep_facts:
  assumes "lru_rep c now m"
  shows "lru_ok c" "map_of (items c) k = map_option fst (m k)" "um_wf (items c)" "unat (lru_size c) = sum_list (map item_bytes (items c))"
  using assms by (simp_all add: lru_rep_def lru_ok_def)

lemma rep_touch:
  assumes "lru_rep c now m" and "lru_ok c'" and "items c' = front k v (items c)"
  shows "lru_rep c' (Suc now) (m(k \<mapsto> (v, now)))" "unat (lru_size c') \<le> unat (lru_size c) + item_bytes (k, v)"
    "map_option fst (m k) = Some v \<Longrightarrow> unat (lru_size c') = unat (lru_size c)"
proof -
  show rep: "lru_rep c' (Suc now) (m(k \<mapsto> (v, now)))" by (rule rep_front [OF assms])
  note c = rep_facts [OF assms(1)] and c' = rep_facts [OF rep]
  show "unat (lru_size c') \<le> unat (lru_size c) + item_bytes (k, v)"
    using bytes_front_le [OF c(3), of k v] c(4) c'(4) assms(3) by simp
  show "unat (lru_size c') = unat (lru_size c)" if "map_option fst (m k) = Some v"
    using bytes_front [OF c(3), of k v v] c(2) [of k] c(4) c'(4) assms(3) that by simp
qed

text \<open>What it means that a request follows the specification.\<close>

definition follows :: "lru_request \<Rightarrow> lru_cache \<Rightarrow> nat \<Rightarrow> (key \<rightharpoonup> data_value \<times> nat) \<Rightarrow> bool" where
  "follows q c now m \<longleftrightarrow> (\<exists>c'. lru_serve q c = Inr (c', snd (clock_serve q now m)) \<and> lru_rep c' (Suc now) (fst (clock_serve q now m))
    \<and> unat (lru_size c') \<le> unat (lru_size c) + request_bytes q)"

lemma serve_get:
  assumes "lru_rep c now m"
  shows "follows (Get k) c now m"
proof (cases "m k")
  case None
  then show ?thesis using get_items [OF rep_facts(1) [OF assms], of k] rep_facts(2) [OF assms, of k] rep_later [OF assms]
    by (simp add: follows_def)
next
  case (Some x)
  obtain c' where c': "LruCache_get k c = Inr (c', Some (fst x))" "lru_ok c'" "items c' = front k (fst x) (items c)"
    using get_items [OF rep_facts(1) [OF assms], of k] rep_facts(2) [OF assms, of k] Some by auto
  then show ?thesis using Some rep_touch(1,3) [OF assms c'(2,3)] by (cases x) (simp add: follows_def)
qed

lemma serve_update:
  assumes "lru_rep c now m" and "unat (lru_size c) + item_bytes (k, v) < 2 ^ 64"
  shows "follows (Update k v) c now m"
proof (cases "m k")
  case None
  then show ?thesis using update_items [OF rep_facts(1) [OF assms(1)], of k v] rep_facts(2) [OF assms(1), of k] rep_later [OF assms(1)] assms(2)
    by (simp add: follows_def item_bytes_def)
next
  case (Some x)
  obtain c' where c': "LruCache_update k v c = Inr (c', True)" "lru_ok c'" "items c' = front k v (items c)"
    using update_items [OF rep_facts(1) [OF assms(1)], of k v] rep_facts(2) [OF assms(1), of k] Some assms(2) by (auto simp: item_bytes_def)
  then show ?thesis using Some rep_touch(1,2) [OF assms(1) c'(2,3)] by (simp add: follows_def)
qed

lemma serve_admit:
  assumes "lru_rep c now m" and "unat (lru_size c) + item_bytes (k, v) < 2 ^ 64"
  shows "follows (Admit k v) c now m"
proof (cases "m k")
  case None
  obtain c' where c': "LruCache_admit k v c = Inr c'" "lru_ok c'" "items c' = front k v (items c)"
    using admit_items [OF rep_facts(1) [OF assms(1)] assms(2)] rep_facts(2) [OF assms(1), of k] None front_absent [of "items c" k v] by auto
  then show ?thesis using None rep_touch(1,2) [OF assms(1) c'(2,3)] by (simp add: follows_def)
next
  case (Some x)
  then show ?thesis using admit_items [OF rep_facts(1) [OF assms(1)] assms(2)] rep_facts(2) [OF assms(1), of k] rep_later [OF assms(1)]
    by (simp add: follows_def)
qed

lemma serve_evict:
  assumes "lru_rep c now m"
  shows "follows (Evict k) c now m"
proof (cases "m k")
  case None
  then have "m(k := None) = m" by (simp add: fun_upd_idem)
  then show ?thesis using None evict_items [OF rep_facts(1) [OF assms], of k] rep_facts(2) [OF assms, of k] rep_later [OF assms]
    by (simp add: follows_def)
next
  case (Some x)
  obtain c' where c': "LruCache_evictWithGivenKey k c = Inr (c', Some (fst x))" "lru_ok c'" "items c' = um_erase k (items c)"
    using evict_items [OF rep_facts(1) [OF assms], of k] rep_facts(2) [OF assms, of k] Some by auto
  have rep: "lru_rep c' (Suc now) (m(k := None))" by (rule rep_later [OF rep_erase [OF assms c'(2,3)]])
  then show ?thesis using Some c' bytes_erase_le [of k "items c"] rep_facts(4) [OF rep] rep_facts(4) [OF assms] by (simp add: follows_def)
qed

lemma serve_clock:
  assumes "lru_rep c now m" and "unat (lru_size c) + request_bytes q < 2 ^ 64"
  shows "follows q c now m"
  using assms by (cases q) (simp_all add: serve_get serve_update serve_admit serve_evict)

lemma run_clock:
  "lru_rep c now m \<Longrightarrow> unat (lru_size c) + sum_list (map request_bytes qs) < 2 ^ 64 \<Longrightarrow>
   \<exists>c'. lru_run qs c = Inr (c', snd (clock_run qs now m)) \<and> lru_rep c' (now + length qs) (fst (clock_run qs now m))"
proof (induction qs arbitrary: c now m)
  case (Cons q qs)
  obtain c' where c': "lru_serve q c = Inr (c', snd (clock_serve q now m))" "lru_rep c' (Suc now) (fst (clock_serve q now m))"
      "unat (lru_size c') \<le> unat (lru_size c) + request_bytes q"
    using serve_clock [OF Cons.prems(1), of q] Cons.prems(2) unfolding follows_def by auto
  then show ?case using Cons.IH [OF c'(2)] Cons.prems(2) by (auto simp: Let_def split: prod.splits)
qed simp

lemma rep_victim:
  assumes "lru_rep c now m"
  shows "case LruCache_getVictimKey c of
      None \<Rightarrow> m = Map.empty
    | Some k \<Rightarrow> \<exists>v s. m k = Some (v, s) \<and> (\<forall>k' v' s'. m k' = Some (v', s') \<longrightarrow> k' = k \<or> s < s')"
proof (cases "items c" rule: rev_cases)
  case Nil
  then have "m k = None" for k using rep_facts(2) [OF assms, of k] by simp
  then show ?thesis using Nil by (auto simp: victim_items)
next
  case (snoc q x)
  have len: "\<And>k. map_option fst (m k) = map_of (items c) k" and sorted: "sorted_wrt (\<lambda>x y. stamp m y < stamp m x) (q @ [x])"
    and wf: "um_wf (q @ [x])" using assms snoc rep_facts(3) [OF assms] by (simp_all add: lru_rep_def)
  have "map_of (q @ [x]) (fst x) = Some (snd x)" using wf by (intro map_of_is_SomeI) simp_all
  then obtain v s where vs: "m (fst x) = Some (v, s)" using len [of "fst x"] snoc by auto
  have "k' = fst x \<or> s < s'" if k': "m k' = Some (v', s')" for k' v' s'
  proof -
    have "map_of (q @ [x]) k' = Some v'" using len [of k'] k' snoc by simp
    then have "(k', v') \<in> set (q @ [x])" by (rule map_of_SomeD)
    then have "(k', v') = x \<or> stamp m x < stamp m (k', v')" using sorted by (auto simp: sorted_wrt_append)
    then show ?thesis using k' vs by (auto simp: stamp_def)
  qed
  then show ?thesis using vs snoc by (auto simp: victim_items)
qed

text \<open>C19: The cache keeps the most recently used objects. As long as the bytes of all requests fit into 64 bits, every sequence of
  look-ups, updates, admissions and evictions on a new cache returns, with the replies of a clock that notes when each key was
  used last. The victim the cache then names is the key with the earliest use, and the size is the exact number of
  bytes of the cached objects.\<close>

theorem lru_refines_clock:
  assumes "sum_list (map request_bytes qs) < 2 ^ 64" and "clock_run qs 0 Map.empty = (m, rs)"
  shows "\<exists>c. lru_run qs LruCache_new = Inr (c, rs)
    \<and> (\<forall>k. LruCache_exists k c \<longleftrightarrow> m k \<noteq> None)
    \<and> (case LruCache_getVictimKey c of
         None \<Rightarrow> m = Map.empty
       | Some k \<Rightarrow> \<exists>v s. m k = Some (v, s) \<and> (\<forall>k' v' s'. m k' = Some (v', s') \<longrightarrow> k' = k \<or> s < s'))
    \<and> unat (LruCache_getSizeForCapacity c) = sum_list (map item_bytes (items c)) \<and> map_of (items c) = (\<lambda>k. map_option fst (m k))"
proof -
  have "lru_rep LruCache_new 0 Map.empty" by (simp add: lru_rep_def lru_ok_def items_def LruCache_new_def)
  moreover have "unat (lru_size LruCache_new) = 0" by (simp add: LruCache_new_def)
  ultimately obtain c where c: "lru_run qs LruCache_new = Inr (c, rs)" "lru_rep c (length qs) m"
    using run_clock [of LruCache_new 0 Map.empty qs] assms by auto
  then show ?thesis
    using rep_victim [OF c(2)] rep_facts [OF c(2)] exists_items [OF rep_facts(1) [OF c(2)]]
    by (simp add: LruCache_getSizeForCapacity_def fun_eq_iff)
qed

definition lru_example :: "lru_request list" where
  "lru_example = [Admit (Key [1]) (Value_of_size 5), Admit (Key [2]) (Value_of_size 6), Get (Key [1]), Update (Key [3]) (Value_of_size 9)]"

theorem lru_refines_clock_witness:
  "\<exists>c. lru_run lru_example LruCache_new = Inr (c, [Done True, Done True, Found (Some (Value_of_size 5)), Done False])
     \<and> LruCache_exists (Key [1]) c"
proof -
  have bytes: "sum_list (map request_bytes lru_example) < 2 ^ 64"
    by (simp add: lru_example_def item_bytes_def pair_size_def entry_size_def Key_getKeyLength_def Value_of_size_def)
  have run: "clock_run lru_example 0 Map.empty = ([Key [1] \<mapsto> (Value_of_size 5, 2), Key [2] \<mapsto> (Value_of_size 6, 1)],
      [Done True, Done True, Found (Some (Value_of_size 5)), Done False])"
    by (simp add: lru_example_def fun_upd_twist numeral_2_eq_2)
  show ?thesis using lru_refines_clock [OF bytes run] by auto
qed

end
