(* ===== verification/Local_Cache.thy ===== *)
theory Local_Cache
  imports Lru_Cache Victim_Cacheinfo
begin

text \<open>
  \<open>LocalCacheBase\<close> (\<open>src/src/cache/local_cache_base.c\<close>) and \<open>LruLocalCache\<close> (\<open>lru_local_cache.c\<close>). The base class checks object
  sizes around virtual methods; \<open>cache_engine\<close> is the table of these methods, and the LRU cache fills it. Every
  method runs under the lock of the cache. \<open>affect_victim_tracker\<close> is threaded through as an argument and a result. The locale
  \<open>engine_laws\<close> states what the code above expects of an engine with key-level eviction.
\<close>

record 'c local_cache =
  capacity_bytes :: u64
  engine_state :: 'c

text \<open>The parameter of a call by name: its locks, the victims it collects, and the rest.\<close>

record 'p cache_param =
  need_perkey_lock :: bool
  is_perkey_write_lock :: bool
  param_key :: key
  is_local_cache_write_lock :: bool
  param_victims :: "victim_cacheinfo list"
  param_body :: 'p

record ('c, 'p) cache_engine =
  hasFineGrainedManagement :: bool
  isLocalCachedInternal :: "key \<Rightarrow> 'c local_cache \<Rightarrow> bool"
  getLocalCacheInternal :: "key \<Rightarrow> bool \<Rightarrow> bool \<Rightarrow> 'c local_cache \<Rightarrow> ('c local_cache \<times> data_value option \<times> bool) exec"
  getLocalCacheInternal_p2p :: "key \<Rightarrow> bool \<Rightarrow> bool \<Rightarrow> u32 \<Rightarrow> 'c local_cache \<Rightarrow> ('c local_cache \<times> data_value option \<times> bool) exec"
  updateLocalCacheInternal ::
    "key \<Rightarrow> data_value \<Rightarrow> bool \<Rightarrow> bool \<Rightarrow> bool \<Rightarrow> 'c local_cache \<Rightarrow> ('c local_cache \<times> bool \<times> bool \<times> bool) exec"
  needIndependentAdmitInternal :: "key \<Rightarrow> data_value \<Rightarrow> 'c local_cache \<Rightarrow> ('c local_cache \<times> bool) exec"
  admitLocalCacheInternal ::
    "key \<Rightarrow> data_value \<Rightarrow> bool \<Rightarrow> bool \<Rightarrow> u64 \<Rightarrow> 'c local_cache \<Rightarrow> ('c local_cache \<times> bool \<times> bool) exec"
  getLocalCacheVictimKeysInternal ::
    "key list \<Rightarrow> victim_cacheinfo list \<Rightarrow> u64 \<Rightarrow> 'c local_cache \<Rightarrow> (key list \<times> victim_cacheinfo list \<times> bool) exec"
  evictLocalCacheWithGivenKeyInternal :: "key \<Rightarrow> 'c local_cache \<Rightarrow> ('c local_cache \<times> data_value option) exec"
  evictLocalCacheNoGivenKeyInternal ::
    "(key \<times> data_value) list \<Rightarrow> u64 \<Rightarrow> 'c local_cache \<Rightarrow> ('c local_cache \<times> (key \<times> data_value) list) exec"
  invokeCustomFunctionInternal :: "string \<Rightarrow> 'p cache_param \<Rightarrow> 'c local_cache \<Rightarrow> ('c local_cache \<times> 'p cache_param) exec"
  invokeConstCustomFunctionInternal :: "string \<Rightarrow> 'p cache_param \<Rightarrow> 'c local_cache \<Rightarrow> 'p cache_param exec"
  getSizeForCapacityInternal :: "'c local_cache \<Rightarrow> u64"
  checkObjsizeInternal :: "u32 \<Rightarrow> 'c local_cache \<Rightarrow> bool"
  dumpCacheMetadata :: "'c local_cache \<Rightarrow> u8 list \<Rightarrow> u8 list exec"
  loadCacheMetadata :: "'c local_cache \<Rightarrow> fstream \<Rightarrow> ('c local_cache \<times> fstream) exec"

section \<open>LocalCacheBase\<close>

definition valid_objsize :: "(u32 \<Rightarrow> 'c local_cache \<Rightarrow> bool) \<Rightarrow> u32 \<Rightarrow> 'c local_cache \<Rightarrow> bool" where
  "valid_objsize check objsize lc \<longleftrightarrow> capacity_bytes lc > ucast objsize \<and> check objsize lc"

definition LocalCacheBase_isValidObjsize :: "('c, 'p) cache_engine \<Rightarrow> key \<Rightarrow> data_value \<Rightarrow> 'c local_cache \<Rightarrow> bool" where
  "LocalCacheBase_isValidObjsize e key v lc = valid_objsize (checkObjsizeInternal e) (Key_getKeyLength key + valuesize v) lc"

definition LocalCacheBase_isLocalCached :: "('c, 'p) cache_engine \<Rightarrow> key \<Rightarrow> 'c local_cache \<Rightarrow> bool" where
  "LocalCacheBase_isLocalCached e key lc = isLocalCachedInternal e key lc"

definition LocalCacheBase_getLocalCache ::
    "('c, 'p) cache_engine \<Rightarrow> key \<Rightarrow> bool \<Rightarrow> bool \<Rightarrow> 'c local_cache \<Rightarrow> ('c local_cache \<times> data_value option \<times> bool) exec" where
  "LocalCacheBase_getLocalCache e key is_redirected affect lc =
     bindE (getLocalCacheInternal e key is_redirected affect lc) (\<lambda>(lc, v, affect).
     case v of
       None \<Rightarrow> Inr (lc, None, affect)
     | Some x \<Rightarrow> assertE (LocalCacheBase_isValidObjsize e key x lc) (Inr (lc, Some x, affect)))"

definition LocalCacheBase_getLocalCache_p2p ::
    "('c, 'p) cache_engine \<Rightarrow> key \<Rightarrow> bool \<Rightarrow> bool \<Rightarrow> u32 \<Rightarrow> 'c local_cache \<Rightarrow> ('c local_cache \<times> data_value option \<times> bool) exec" where
  "LocalCacheBase_getLocalCache_p2p e key is_redirected affect reward lc =
     assertE is_redirected (
     bindE (getLocalCacheInternal_p2p e key is_redirected affect reward lc) (\<lambda>(lc, v, affect).
     case v of
       None \<Rightarrow> Inr (lc, None, affect)
     | Some x \<Rightarrow> assertE (LocalCacheBase_isValidObjsize e key x lc) (Inr (lc, Some x, affect))))"

text \<open>Results: whether the key is cached, the affect flag, whether the update succeeded.\<close>

definition LocalCacheBase_updateLocalCache ::
    "('c, 'p) cache_engine \<Rightarrow> key \<Rightarrow> data_value \<Rightarrow> bool \<Rightarrow> bool \<Rightarrow> bool \<Rightarrow> 'c local_cache
     \<Rightarrow> ('c local_cache \<times> bool \<times> bool \<times> bool) exec" where
  "LocalCacheBase_updateLocalCache e key v is_getrsp is_global_cached affect lc =
     updateLocalCacheInternal e key v is_getrsp is_global_cached affect lc"

definition LocalCacheBase_needIndependentAdmit ::
    "('c, 'p) cache_engine \<Rightarrow> key \<Rightarrow> data_value \<Rightarrow> 'c local_cache \<Rightarrow> ('c local_cache \<times> bool) exec" where
  "LocalCacheBase_needIndependentAdmit e key v lc =
     (if \<not> LocalCacheBase_isValidObjsize e key v lc then Inr (lc, False) else needIndependentAdmitInternal e key v lc)"

definition LocalCacheBase_admitLocalCache ::
    "('c, 'p) cache_engine \<Rightarrow> key \<Rightarrow> data_value \<Rightarrow> bool \<Rightarrow> bool \<Rightarrow> u64 \<Rightarrow> 'c local_cache \<Rightarrow> ('c local_cache \<times> bool \<times> bool) exec" where
  "LocalCacheBase_admitLocalCache e key v is_neighbor_cached affect miss_latency_us lc =
     assertE (LocalCacheBase_isValidObjsize e key v lc) (
     admitLocalCacheInternal e key v is_neighbor_cached affect miss_latency_us lc)"

fun check_victim_sizes :: "('c, 'p) cache_engine \<Rightarrow> victim_cacheinfo list \<Rightarrow> 'c local_cache \<Rightarrow> unit exec" where
  "check_victim_sizes e [] lc = Inr ()"
| "check_victim_sizes e (v # vs) lc =
     bindE (VictimCacheinfo_getObjectSize v) (\<lambda>sz.
     case sz of
       None \<Rightarrow> Inl AssertFailed
     | Some n \<Rightarrow> assertE (valid_objsize (checkObjsizeInternal e) n lc) (check_victim_sizes e vs lc))"

definition LocalCacheBase_getLocalCacheVictimKeys ::
    "('c, 'p) cache_engine \<Rightarrow> key list \<Rightarrow> victim_cacheinfo list \<Rightarrow> u64 \<Rightarrow> 'c local_cache
     \<Rightarrow> (key list \<times> victim_cacheinfo list \<times> bool) exec" where
  "LocalCacheBase_getLocalCacheVictimKeys e keys victims required_size lc =
     assertE (hasFineGrainedManagement e) (
     bindE (getLocalCacheVictimKeysInternal e keys victims required_size lc) (\<lambda>(keys, victims, has_victim_key).
     bindE (check_victim_sizes e victims lc) (\<lambda>_. Inr (keys, victims, has_victim_key))))"

definition LocalCacheBase_evictLocalCacheWithGivenKey ::
    "('c, 'p) cache_engine \<Rightarrow> key \<Rightarrow> 'c local_cache \<Rightarrow> ('c local_cache \<times> data_value option) exec" where
  "LocalCacheBase_evictLocalCacheWithGivenKey e key lc =
     assertE (hasFineGrainedManagement e) (
     bindE (evictLocalCacheWithGivenKeyInternal e key lc) (\<lambda>(lc, v).
     case v of
       None \<Rightarrow> Inr (lc, None)
     | Some x \<Rightarrow> assertE (LocalCacheBase_isValidObjsize e key x lc) (Inr (lc, Some x))))"

definition LocalCacheBase_evictLocalCacheNoGivenKey ::
    "('c, 'p) cache_engine \<Rightarrow> (key \<times> data_value) list \<Rightarrow> u64 \<Rightarrow> 'c local_cache
     \<Rightarrow> ('c local_cache \<times> (key \<times> data_value) list) exec" where
  "LocalCacheBase_evictLocalCacheNoGivenKey e victims required_size lc =
     assertE (\<not> hasFineGrainedManagement e) (
     bindE (evictLocalCacheNoGivenKeyInternal e victims required_size lc) (\<lambda>(lc, victims).
     assertE (list_all (\<lambda>(k, v). LocalCacheBase_isValidObjsize e k v lc) victims) (Inr (lc, victims))))"

definition LocalCacheBase_getSizeForCapacity :: "('c, 'p) cache_engine \<Rightarrow> 'c local_cache \<Rightarrow> u64" where
  "LocalCacheBase_getSizeForCapacity e lc = getSizeForCapacityInternal e lc"

section \<open>LruLocalCache\<close>

type_synonym lru_local_cache = "lru_cache local_cache"

definition LruLocalCache_new :: "u64 \<Rightarrow> lru_local_cache" where
  "LruLocalCache_new capacity = \<lparr>capacity_bytes = capacity, engine_state = LruCache_new\<rparr>"

definition LruLocalCache_checkObjsizeInternal :: "u32 \<Rightarrow> lru_local_cache \<Rightarrow> bool" where
  "LruLocalCache_checkObjsizeInternal objsize lc = True"

definition LruLocalCache_isLocalCachedInternal :: "key \<Rightarrow> lru_local_cache \<Rightarrow> bool" where
  "LruLocalCache_isLocalCachedInternal key lc = LruCache_exists key (engine_state lc)"

definition LruLocalCache_getLocalCacheInternal ::
    "key \<Rightarrow> bool \<Rightarrow> bool \<Rightarrow> lru_local_cache \<Rightarrow> (lru_local_cache \<times> data_value option \<times> bool) exec" where
  "LruLocalCache_getLocalCacheInternal key is_redirected affect lc =
     bindE (LruCache_get key (engine_state lc)) (\<lambda>(c, v). Inr (lc\<lparr>engine_state := c\<rparr>, v, affect))"

definition LruLocalCache_getLocalCacheInternal_p2p ::
    "key \<Rightarrow> bool \<Rightarrow> bool \<Rightarrow> u32 \<Rightarrow> lru_local_cache \<Rightarrow> (lru_local_cache \<times> data_value option \<times> bool) exec" where
  "LruLocalCache_getLocalCacheInternal_p2p key is_redirected affect reward lc = Inl Exited"

definition LruLocalCache_updateLocalCacheInternal ::
    "key \<Rightarrow> data_value \<Rightarrow> bool \<Rightarrow> bool \<Rightarrow> bool \<Rightarrow> lru_local_cache \<Rightarrow> (lru_local_cache \<times> bool \<times> bool \<times> bool) exec" where
  "LruLocalCache_updateLocalCacheInternal key v is_getrsp is_global_cached affect lc =
     (let valid = valid_objsize LruLocalCache_checkObjsizeInternal (Key_getKeyLength key + valuesize v) lc
      in if LruCache_exists key (engine_state lc)
         then if \<not> valid then Inr (lc, True, affect, False)
              else bindE (LruCache_update key v (engine_state lc)) (\<lambda>(c, cached).
                   assertE cached (Inr (lc\<lparr>engine_state := c\<rparr>, True, affect, True)))
         else Inr (lc, False, affect, False))"

definition LruLocalCache_needIndependentAdmitInternal :: "key \<Rightarrow> data_value \<Rightarrow> lru_local_cache \<Rightarrow> (lru_local_cache \<times> bool) exec" where
  "LruLocalCache_needIndependentAdmitInternal key v lc = Inr (lc, \<not> LruLocalCache_isLocalCachedInternal key lc)"

definition LruLocalCache_admitLocalCacheInternal ::
    "key \<Rightarrow> data_value \<Rightarrow> bool \<Rightarrow> bool \<Rightarrow> u64 \<Rightarrow> lru_local_cache \<Rightarrow> (lru_local_cache \<times> bool \<times> bool) exec" where
  "LruLocalCache_admitLocalCacheInternal key v is_neighbor_cached affect miss_latency_us lc =
     bindE (LruCache_admit key v (engine_state lc)) (\<lambda>c. Inr (lc\<lparr>engine_state := c\<rparr>, affect, True))"

definition LruLocalCache_getLocalCacheVictimKeysInternal ::
    "key list \<Rightarrow> victim_cacheinfo list \<Rightarrow> u64 \<Rightarrow> lru_local_cache \<Rightarrow> (key list \<times> victim_cacheinfo list \<times> bool) exec" where
  "LruLocalCache_getLocalCacheVictimKeysInternal keys victims required_size lc =
     (case LruCache_getVictimKey (engine_state lc) of
        None \<Rightarrow> Inr (keys, victims, False)
      | Some k \<Rightarrow> Inr (if k \<in> set keys then keys else keys @ [k], victims, True))"

definition LruLocalCache_evictLocalCacheWithGivenKeyInternal :: "key \<Rightarrow> lru_local_cache \<Rightarrow> (lru_local_cache \<times> data_value option) exec" where
  "LruLocalCache_evictLocalCacheWithGivenKeyInternal key lc =
     bindE (LruCache_evictWithGivenKey key (engine_state lc)) (\<lambda>(c, v). Inr (lc\<lparr>engine_state := c\<rparr>, v))"

definition LruLocalCache_evictLocalCacheNoGivenKeyInternal ::
    "(key \<times> data_value) list \<Rightarrow> u64 \<Rightarrow> lru_local_cache \<Rightarrow> (lru_local_cache \<times> (key \<times> data_value) list) exec" where
  "LruLocalCache_evictLocalCacheNoGivenKeyInternal victims required_size lc = Inl AssertFailed"

definition LruLocalCache_invokeCustomFunctionInternal ::
    "string \<Rightarrow> 'p cache_param \<Rightarrow> lru_local_cache \<Rightarrow> (lru_local_cache \<times> 'p cache_param) exec" where
  "LruLocalCache_invokeCustomFunctionInternal func_name param lc = Inl Exited"

definition LruLocalCache_invokeConstCustomFunctionInternal ::
    "string \<Rightarrow> 'p cache_param \<Rightarrow> lru_local_cache \<Rightarrow> 'p cache_param exec" where
  "LruLocalCache_invokeConstCustomFunctionInternal func_name param lc = Inl Exited"

definition LruLocalCache_getSizeForCapacityInternal :: "lru_local_cache \<Rightarrow> u64" where
  "LruLocalCache_getSizeForCapacityInternal lc = LruCache_getSizeForCapacity (engine_state lc)"

text \<open>Metadata is dumped by COVERED only; the methods of the base class stop the process.\<close>

definition LocalCacheBase_dumpCacheMetadata :: "'c local_cache \<Rightarrow> u8 list \<Rightarrow> u8 list exec" where
  "LocalCacheBase_dumpCacheMetadata lc out = Inl Exited"

definition LocalCacheBase_loadCacheMetadata :: "'c local_cache \<Rightarrow> fstream \<Rightarrow> ('c local_cache \<times> fstream) exec" where
  "LocalCacheBase_loadCacheMetadata lc fs = Inl Exited"

definition lru_engine :: "(lru_cache, 'p) cache_engine" where
  "lru_engine = \<lparr>hasFineGrainedManagement = True,
     isLocalCachedInternal = LruLocalCache_isLocalCachedInternal,
     getLocalCacheInternal = LruLocalCache_getLocalCacheInternal,
     getLocalCacheInternal_p2p = LruLocalCache_getLocalCacheInternal_p2p,
     updateLocalCacheInternal = LruLocalCache_updateLocalCacheInternal,
     needIndependentAdmitInternal = LruLocalCache_needIndependentAdmitInternal,
     admitLocalCacheInternal = LruLocalCache_admitLocalCacheInternal,
     getLocalCacheVictimKeysInternal = LruLocalCache_getLocalCacheVictimKeysInternal,
     evictLocalCacheWithGivenKeyInternal = LruLocalCache_evictLocalCacheWithGivenKeyInternal,
     evictLocalCacheNoGivenKeyInternal = LruLocalCache_evictLocalCacheNoGivenKeyInternal,
     invokeCustomFunctionInternal = LruLocalCache_invokeCustomFunctionInternal,
     invokeConstCustomFunctionInternal = LruLocalCache_invokeConstCustomFunctionInternal,
     getSizeForCapacityInternal = LruLocalCache_getSizeForCapacityInternal,
     checkObjsizeInternal = LruLocalCache_checkObjsizeInternal,
     dumpCacheMetadata = LocalCacheBase_dumpCacheMetadata,
     loadCacheMetadata = LocalCacheBase_loadCacheMetadata\<rparr>"

section \<open>What an engine promises\<close>

text \<open>The objects of a cache, the object sizes that fit, the room its counters have, and the keys it would evict.\<close>

locale engine_laws =
  fixes e :: "('c, 'p) cache_engine" and ok :: "'c local_cache \<Rightarrow> bool" and objects :: "'c local_cache \<Rightarrow> key \<rightharpoonup> data_value"
    and fits :: "key \<Rightarrow> data_value \<Rightarrow> bool" and room :: "'c local_cache \<Rightarrow> key \<Rightarrow> data_value \<Rightarrow> bool"
  assumes fine: "hasFineGrainedManagement e"
    and fits_iff: "ok lc \<Longrightarrow> LocalCacheBase_isValidObjsize e k v lc = fits k v"
    and objects_fit: "ok lc \<Longrightarrow> objects lc k = Some v \<Longrightarrow> fits k v"
    and cached_iff: "ok lc \<Longrightarrow> isLocalCachedInternal e k lc \<longleftrightarrow> objects lc k \<noteq> None"
    and get_law: "ok lc \<Longrightarrow> \<exists>lc' b'. getLocalCacheInternal e k r b lc = Inr (lc', objects lc k, b') \<and> ok lc' \<and> objects lc' = objects lc"
    and update_law: "ok lc \<Longrightarrow> room lc k v \<Longrightarrow>
      \<exists>lc' b'. updateLocalCacheInternal e k v g c b lc = Inr (lc', objects lc k \<noteq> None, b', objects lc k \<noteq> None \<and> fits k v) \<and> ok lc'
        \<and> objects lc' = (if objects lc k \<noteq> None \<and> fits k v then (objects lc)(k \<mapsto> v) else objects lc)"
    and admit_law: "ok lc \<Longrightarrow> room lc k v \<Longrightarrow> fits k v \<Longrightarrow>
      \<exists>lc' b'. admitLocalCacheInternal e k v n b u lc = Inr (lc', b', True) \<and> ok lc'
        \<and> objects lc' = (if objects lc k = None then (objects lc)(k \<mapsto> v) else objects lc)"
    and victim_law: "ok lc \<Longrightarrow> objects lc \<noteq> Map.empty \<Longrightarrow>
      \<exists>ks. getLocalCacheVictimKeysInternal e [] [] z lc = Inr (ks, [], True) \<and> ks \<noteq> [] \<and> distinct ks \<and> set ks \<subseteq> dom (objects lc)"
    and no_victim_law: "ok lc \<Longrightarrow> objects lc = Map.empty \<Longrightarrow> getLocalCacheVictimKeysInternal e [] [] z lc = Inr ([], [], False)"
    and evict_law: "ok lc \<Longrightarrow>
      \<exists>lc'. evictLocalCacheWithGivenKeyInternal e k lc = Inr (lc', objects lc k) \<and> ok lc' \<and> objects lc' = (objects lc)(k := None)"
begin

lemma base_get:
  assumes "ok lc"
  shows "\<exists>lc' b'. LocalCacheBase_getLocalCache e k r b lc = Inr (lc', objects lc k, b') \<and> ok lc' \<and> objects lc' = objects lc"
proof -
  obtain lc' b' where lc': "getLocalCacheInternal e k r b lc = Inr (lc', objects lc k, b')" "ok lc'" "objects lc' = objects lc"
    using get_law [OF assms] by blast
  then show ?thesis using fits_iff [OF lc'(2)] objects_fit [OF lc'(2), of k]
    by (cases "objects lc k") (auto simp: LocalCacheBase_getLocalCache_def)
qed

lemma base_admit:
  assumes "ok lc" and "room lc k v" and "fits k v"
  shows "\<exists>lc' b'. LocalCacheBase_admitLocalCache e k v n b u lc = Inr (lc', b', True) \<and> ok lc'
      \<and> objects lc' = (if objects lc k = None then (objects lc)(k \<mapsto> v) else objects lc)"
  using admit_law [OF assms, of n b u] fits_iff [OF assms(1), of k v] assms(3) by (simp add: LocalCacheBase_admitLocalCache_def)

lemma base_evict:
  assumes "ok lc"
  shows "\<exists>lc'. LocalCacheBase_evictLocalCacheWithGivenKey e k lc = Inr (lc', objects lc k) \<and> ok lc' \<and> objects lc' = (objects lc)(k := None)"
proof -
  obtain lc' where lc': "evictLocalCacheWithGivenKeyInternal e k lc = Inr (lc', objects lc k)" "ok lc'" "objects lc' = (objects lc)(k := None)"
    using evict_law [OF assms] by blast
  then show ?thesis using fits_iff [OF lc'(2)] objects_fit [OF assms, of k] fine
    by (cases "objects lc k") (auto simp: LocalCacheBase_evictLocalCacheWithGivenKey_def)
qed

lemma base_victims:
  assumes "ok lc" and "objects lc \<noteq> Map.empty"
  shows "\<exists>ks. LocalCacheBase_getLocalCacheVictimKeys e [] [] z lc = Inr (ks, [], True) \<and> ks \<noteq> [] \<and> distinct ks \<and> set ks \<subseteq> dom (objects lc)"
  using victim_law [OF assms, of z] fine by (auto simp: LocalCacheBase_getLocalCacheVictimKeys_def)

end

section \<open>The LRU engine\<close>

definition lru_fits :: "u64 \<Rightarrow> key \<Rightarrow> data_value \<Rightarrow> bool" where
  "lru_fits capacity k v \<longleftrightarrow> ucast (Key_getKeyLength k + valuesize v) < capacity"

definition lru_objects :: "lru_local_cache \<Rightarrow> key \<rightharpoonup> data_value" where
  "lru_objects lc = map_of (items (engine_state lc))"

definition lru_lc_ok :: "u64 \<Rightarrow> lru_local_cache \<Rightarrow> bool" where
  "lru_lc_ok capacity lc \<longleftrightarrow> capacity_bytes lc = capacity \<and> lru_ok (engine_state lc)
     \<and> (\<forall>k v. lru_objects lc k = Some v \<longrightarrow> lru_fits capacity k v)"

definition lru_room :: "lru_local_cache \<Rightarrow> key \<Rightarrow> data_value \<Rightarrow> bool" where
  "lru_room lc k v \<longleftrightarrow> unat (lru_size (engine_state lc)) + item_bytes (k, v) < 2 ^ 64"

lemma objects_front [simp]: "map_of (front k v q) = (map_of q)(k \<mapsto> v)"
  by (simp add: front_def fun_eq_iff)

lemma lru_put:
  assumes "lru_lc_ok capacity lc" and "lru_ok c" and "map_of (items c) = m" and "\<forall>k v. m k = Some v \<longrightarrow> lru_fits capacity k v"
  shows "lru_lc_ok capacity (lc\<lparr>engine_state := c\<rparr>)" "lru_objects (lc\<lparr>engine_state := c\<rparr>) = m"
  using assms by (auto simp: lru_lc_ok_def lru_objects_def)

lemma lru_get_law:
  assumes "lru_lc_ok capacity lc"
  shows "\<exists>lc' b'. LruLocalCache_getLocalCacheInternal k r b lc = Inr (lc', lru_objects lc k, b')
    \<and> lru_lc_ok capacity lc' \<and> lru_objects lc' = lru_objects lc"
proof (cases "lru_objects lc k")
  case None
  then show ?thesis using get_items [of "engine_state lc" k] assms
    by (simp add: LruLocalCache_getLocalCacheInternal_def lru_lc_ok_def lru_objects_def)
next
  case (Some v)
  then obtain c where c: "LruCache_get k (engine_state lc) = Inr (c, Some v)" "lru_ok c" "items c = front k v (items (engine_state lc))"
    using get_items [of "engine_state lc" k] assms by (auto simp: lru_lc_ok_def lru_objects_def)
  have "map_of (items c) = lru_objects lc" using c(3) Some by (auto simp: lru_objects_def)
  note put = lru_put [OF assms c(2) this]
  show ?thesis using c(1) put Some assms by (auto simp: LruLocalCache_getLocalCacheInternal_def lru_lc_ok_def)
qed

lemma lru_update_law:
  assumes "lru_lc_ok capacity lc" and "lru_room lc k v"
  shows "\<exists>lc' b'. LruLocalCache_updateLocalCacheInternal k v g c b lc
      = Inr (lc', lru_objects lc k \<noteq> None, b', lru_objects lc k \<noteq> None \<and> lru_fits capacity k v)
    \<and> lru_lc_ok capacity lc' \<and> lru_objects lc' = (if lru_objects lc k \<noteq> None \<and> lru_fits capacity k v then (lru_objects lc)(k \<mapsto> v) else lru_objects lc)"
proof -
  have ex: "LruCache_exists k (engine_state lc) \<longleftrightarrow> lru_objects lc k \<noteq> None"
    using assms(1) exists_items [of "engine_state lc" k] by (simp add: lru_lc_ok_def lru_objects_def)
  have valid: "valid_objsize LruLocalCache_checkObjsizeInternal (Key_getKeyLength k + valuesize v) lc = lru_fits capacity k v"
    using assms(1) by (simp add: valid_objsize_def LruLocalCache_checkObjsizeInternal_def lru_fits_def lru_lc_ok_def)
  show ?thesis
  proof (cases "lru_objects lc k \<noteq> None \<and> lru_fits capacity k v")
    case True
    then obtain c' where c': "LruCache_update k v (engine_state lc) = Inr (c', True)" "lru_ok c'" "items c' = front k v (items (engine_state lc))"
      using update_items [of "engine_state lc" k v] assms by (auto simp: lru_lc_ok_def lru_objects_def lru_room_def item_bytes_def)
    have "map_of (items c') = (lru_objects lc)(k \<mapsto> v)" using c'(3) by (simp add: lru_objects_def)
    note put = lru_put [OF assms(1) c'(2) this]
    show ?thesis using True c'(1) put ex valid assms(1) by (auto simp: LruLocalCache_updateLocalCacheInternal_def lru_lc_ok_def)
  next
    case False
    then show ?thesis using ex valid assms(1) by (auto simp: LruLocalCache_updateLocalCacheInternal_def)
  qed
qed

lemma lru_admit_law:
  assumes "lru_lc_ok capacity lc" and "lru_room lc k v" and "lru_fits capacity k v"
  shows "\<exists>lc' b'. LruLocalCache_admitLocalCacheInternal k v n b u lc = Inr (lc', b', True) \<and> lru_lc_ok capacity lc'
    \<and> lru_objects lc' = (if lru_objects lc k = None then (lru_objects lc)(k \<mapsto> v) else lru_objects lc)"
proof (cases "lru_objects lc k")
  case None
  then obtain c where c: "LruCache_admit k v (engine_state lc) = Inr c" "lru_ok c" "items c = (k, v) # items (engine_state lc)"
    using admit_items [of "engine_state lc" k v] assms by (auto simp: lru_lc_ok_def lru_objects_def lru_room_def)
  have "map_of (items c) = (lru_objects lc)(k \<mapsto> v)" using c(3) by (simp add: lru_objects_def)
  note put = lru_put [OF assms(1) c(2) this]
  show ?thesis using None c(1) put assms(1,3) by (auto simp: LruLocalCache_admitLocalCacheInternal_def lru_lc_ok_def)
next
  case (Some w)
  then show ?thesis using admit_items [of "engine_state lc" k v] assms
    by (auto simp: LruLocalCache_admitLocalCacheInternal_def lru_lc_ok_def lru_objects_def lru_room_def)
qed

lemma lru_evict_law:
  assumes "lru_lc_ok capacity lc"
  shows "\<exists>lc'. LruLocalCache_evictLocalCacheWithGivenKeyInternal k lc = Inr (lc', lru_objects lc k) \<and> lru_lc_ok capacity lc'
    \<and> lru_objects lc' = (lru_objects lc)(k := None)"
proof (cases "lru_objects lc k")
  case None
  then have "(lru_objects lc)(k := None) = lru_objects lc" by (simp add: fun_upd_idem)
  then show ?thesis using None evict_items [of "engine_state lc" k] assms
    by (simp add: LruLocalCache_evictLocalCacheWithGivenKeyInternal_def lru_lc_ok_def lru_objects_def)
next
  case (Some v)
  then obtain c where c: "LruCache_evictWithGivenKey k (engine_state lc) = Inr (c, Some v)" "lru_ok c" "items c = um_erase k (items (engine_state lc))"
    using evict_items [of "engine_state lc" k] assms by (auto simp: lru_lc_ok_def lru_objects_def)
  have "map_of (items c) = (lru_objects lc)(k := None)" using c(3) by (simp add: lru_objects_def)
  note put = lru_put [OF assms c(2) this]
  show ?thesis using Some c(1) put assms by (auto simp: LruLocalCache_evictLocalCacheWithGivenKeyInternal_def lru_lc_ok_def)
qed

lemma lru_victim_law:
  assumes "lru_objects lc \<noteq> Map.empty"
  shows "LruLocalCache_getLocalCacheVictimKeysInternal [] [] z lc = Inr ([fst (last (items (engine_state lc)))], [], True)
    \<and> fst (last (items (engine_state lc))) \<in> dom (lru_objects lc)"
proof -
  have "items (engine_state lc) \<noteq> []" using assms by (auto simp: lru_objects_def)
  then show ?thesis by (simp add: LruLocalCache_getLocalCacheVictimKeysInternal_def victim_items lru_objects_def dom_map_of_conv_image_fst)
qed

lemma lru_engine_sel:
  "hasFineGrainedManagement lru_engine = True"
  "getLocalCacheInternal lru_engine = LruLocalCache_getLocalCacheInternal"
  "updateLocalCacheInternal lru_engine = LruLocalCache_updateLocalCacheInternal"
  "admitLocalCacheInternal lru_engine = LruLocalCache_admitLocalCacheInternal"
  "evictLocalCacheWithGivenKeyInternal lru_engine = LruLocalCache_evictLocalCacheWithGivenKeyInternal"
  by (simp_all add: lru_engine_def)

interpretation lru: engine_laws lru_engine "lru_lc_ok capacity" lru_objects "lru_fits capacity" lru_room for capacity
proof
  fix lc k v
  assume ok: "lru_lc_ok capacity lc"
  show "LocalCacheBase_isValidObjsize lru_engine k v lc = lru_fits capacity k v"
    using ok by (simp add: LocalCacheBase_isValidObjsize_def valid_objsize_def lru_engine_def LruLocalCache_checkObjsizeInternal_def
        lru_fits_def lru_lc_ok_def)
  show "lru_fits capacity k v" if "lru_objects lc k = Some v" using ok that by (simp add: lru_lc_ok_def)
  show "isLocalCachedInternal lru_engine k lc \<longleftrightarrow> lru_objects lc k \<noteq> None"
    using ok exists_items [of "engine_state lc" k] by (simp add: lru_engine_def LruLocalCache_isLocalCachedInternal_def lru_lc_ok_def lru_objects_def)
  show "getLocalCacheVictimKeysInternal lru_engine [] [] z lc = Inr ([], [], False)" if "lru_objects lc = Map.empty" for z
    using that by (simp add: lru_engine_def LruLocalCache_getLocalCacheVictimKeysInternal_def victim_items lru_objects_def)
  show "\<exists>ks. getLocalCacheVictimKeysInternal lru_engine [] [] z lc = Inr (ks, [], True) \<and> ks \<noteq> [] \<and> distinct ks \<and> set ks \<subseteq> dom (lru_objects lc)"
    if "lru_objects lc \<noteq> Map.empty" for z using lru_victim_law [OF that, of z] by (simp add: lru_engine_def)
qed (simp only: lru_engine_sel, (rule lru_get_law lru_update_law lru_admit_law lru_evict_law TrueI; assumption)?)+

end
