(* ===== verification/Cache_Wrapper.thy ===== *)
theory Cache_Wrapper
  imports Local_Cache Validity_Map
begin

text \<open>
  \<open>CacheWrapper\<close> (\<open>src/src/cache/cache_wrapper.c\<close>): the cache of an edge node. It puts a validity flag beside every object of
  the local cache, keeps the beacon of every cached key, and runs every operation under the per-key lock. The table
  of the virtual methods of the local cache is an argument.
\<close>

record ('c, 'm) cache_wrapper =
  cache_name :: string
  local_cache_ptr :: "'c local_cache"
  cache_perkey_rwlock :: "'m perkey_rwlock"
  validity_map_ptr :: validity_map
  perkey_beacon_edgeidx :: "(key \<times> u32) list"

definition COVERED_CACHE_NAME :: string where
  "COVERED_CACHE_NAME = ''covered''"

text \<open>\<open>getLocalCacheByCacheName\<close> makes the local cache; the number of locks comes from the configuration.\<close>

definition CacheWrapper_new ::
    "('c, 'p) cache_engine \<Rightarrow> ('m, 'z) lock_env_scheme \<Rightarrow> string \<Rightarrow> 'c local_cache \<Rightarrow> u32 \<Rightarrow> ('c, 'm) cache_wrapper" where
  "CacheWrapper_new e env name lc locking_size =
     (let lk = PerkeyRwlock_new env locking_size (hasFineGrainedManagement e)
      in \<lparr>cache_name = name, local_cache_ptr = lc, cache_perkey_rwlock = lk, validity_map_ptr = ValidityMap_new lk,
          perkey_beacon_edgeidx = []\<rparr>)"

text \<open>Take a lock, run the body, release the lock.\<close>

definition cache_section ::
    "(('m, 'z) lock_env_scheme \<Rightarrow> 'm perkey_rwlock \<Rightarrow> key \<Rightarrow> 'm perkey_rwlock exec)
     \<Rightarrow> (('m, 'z) lock_env_scheme \<Rightarrow> 'm perkey_rwlock \<Rightarrow> key \<Rightarrow> 'm perkey_rwlock exec)
     \<Rightarrow> ('m, 'z) lock_env_scheme \<Rightarrow> key
     \<Rightarrow> (('c, 'm) cache_wrapper \<Rightarrow> (('c, 'm) cache_wrapper \<times> 'r) exec) \<Rightarrow> ('c, 'm) cache_wrapper
     \<Rightarrow> (('c, 'm) cache_wrapper \<times> 'r) exec" where
  "cache_section acquire release env key body w =
     bindE (acquire env (cache_perkey_rwlock w) key) (\<lambda>lk.
     bindE (body (w\<lparr>cache_perkey_rwlock := lk\<rparr>)) (\<lambda>(w, r).
     bindE (release env (cache_perkey_rwlock w) key) (\<lambda>lk. Inr (w\<lparr>cache_perkey_rwlock := lk\<rparr>, r))))"

abbreviation cache_read where
  "cache_read \<equiv> cache_section PerkeyRwlock_acquire_lock_shared PerkeyRwlock_unlock_shared"

abbreviation cache_write where
  "cache_write \<equiv> cache_section PerkeyRwlock_acquire_lock PerkeyRwlock_unlock"

section \<open>Validity\<close>

definition CacheWrapper_isValidKeyForLocalCachedObject_in ::
    "('m, 'z) lock_env_scheme \<Rightarrow> key \<Rightarrow> ('c, 'm) cache_wrapper \<Rightarrow> bool exec" where
  "CacheWrapper_isValidKeyForLocalCachedObject_in env key w =
     bindE (ValidityMap_isValidFlagForKey env (cache_perkey_rwlock w) (validity_map_ptr w) key) (\<lambda>(is_exist, valid).
     if \<not> is_exist then assertE (\<not> valid) (Inr valid) else Inr valid)"

text \<open>The flag of a key that is cached, or that was just admitted; the two pairs of methods differ in their warnings only.\<close>

definition CacheWrapper_validateKeyForLocalCachedObject_in ::
    "('m, 'z) lock_env_scheme \<Rightarrow> key \<Rightarrow> ('c, 'm) cache_wrapper \<Rightarrow> ('c, 'm) cache_wrapper exec" where
  "CacheWrapper_validateKeyForLocalCachedObject_in env key w =
     bindE (ValidityMap_validateFlagForKey env (cache_perkey_rwlock w) (validity_map_ptr w) key) (\<lambda>(vm, is_exist).
     Inr (w\<lparr>validity_map_ptr := vm\<rparr>))"

definition CacheWrapper_invalidateKeyForLocalCachedObject_in ::
    "('m, 'z) lock_env_scheme \<Rightarrow> key \<Rightarrow> ('c, 'm) cache_wrapper \<Rightarrow> ('c, 'm) cache_wrapper exec" where
  "CacheWrapper_invalidateKeyForLocalCachedObject_in env key w =
     bindE (ValidityMap_invalidateFlagForKey env (cache_perkey_rwlock w) (validity_map_ptr w) key) (\<lambda>(vm, is_exist).
     Inr (w\<lparr>validity_map_ptr := vm\<rparr>))"

definition CacheWrapper_validateKeyForLocalUncachedObject ::
    "('m, 'z) lock_env_scheme \<Rightarrow> key \<Rightarrow> ('c, 'm) cache_wrapper \<Rightarrow> ('c, 'm) cache_wrapper exec" where
  "CacheWrapper_validateKeyForLocalUncachedObject env key w =
     bindE (ValidityMap_validateFlagForKey env (cache_perkey_rwlock w) (validity_map_ptr w) key) (\<lambda>(vm, is_exist).
     Inr (w\<lparr>validity_map_ptr := vm\<rparr>))"

definition CacheWrapper_invalidateKeyForLocalUncachedObject ::
    "('m, 'z) lock_env_scheme \<Rightarrow> key \<Rightarrow> ('c, 'm) cache_wrapper \<Rightarrow> ('c, 'm) cache_wrapper exec" where
  "CacheWrapper_invalidateKeyForLocalUncachedObject env key w =
     bindE (ValidityMap_invalidateFlagForKey env (cache_perkey_rwlock w) (validity_map_ptr w) key) (\<lambda>(vm, is_exist).
     Inr (w\<lparr>validity_map_ptr := vm\<rparr>))"

definition CacheWrapper_isLocalCached ::
    "('c, 'p) cache_engine \<Rightarrow> ('m, 'z) lock_env_scheme \<Rightarrow> key \<Rightarrow> ('c, 'm) cache_wrapper \<Rightarrow> (('c, 'm) cache_wrapper \<times> bool) exec" where
  "CacheWrapper_isLocalCached e env key =
     cache_read env key (\<lambda>w. Inr (w, LocalCacheBase_isLocalCached e key (local_cache_ptr w)))"

definition CacheWrapper_isValidKeyForLocalCachedObject ::
    "('m, 'z) lock_env_scheme \<Rightarrow> key \<Rightarrow> ('c, 'm) cache_wrapper \<Rightarrow> (('c, 'm) cache_wrapper \<times> bool) exec" where
  "CacheWrapper_isValidKeyForLocalCachedObject env key =
     cache_read env key (\<lambda>w. bindE (CacheWrapper_isValidKeyForLocalCachedObject_in env key w) (\<lambda>valid. Inr (w, valid)))"

definition CacheWrapper_invalidateKeyForLocalCachedObject ::
    "('m, 'z) lock_env_scheme \<Rightarrow> key \<Rightarrow> ('c, 'm) cache_wrapper \<Rightarrow> (('c, 'm) cache_wrapper \<times> unit) exec" where
  "CacheWrapper_invalidateKeyForLocalCachedObject env key =
     cache_write env key (\<lambda>w. bindE (CacheWrapper_invalidateKeyForLocalCachedObject_in env key w) (\<lambda>w. Inr (w, ())))"

section \<open>Access\<close>

text \<open>Results: the value written to the out parameter, whether it is a valid hit, the affect flag.\<close>

definition get_result ::
    "('m, 'z) lock_env_scheme \<Rightarrow> key \<Rightarrow> ('c local_cache \<times> data_value option \<times> bool) exec \<Rightarrow> ('c, 'm) cache_wrapper
     \<Rightarrow> (('c, 'm) cache_wrapper \<times> data_value option \<times> bool \<times> bool) exec" where
  "get_result env key found w =
     bindE found (\<lambda>(lc, v, affect).
     let w = w\<lparr>local_cache_ptr := lc\<rparr>
     in bindE (if v \<noteq> None then CacheWrapper_isValidKeyForLocalCachedObject_in env key w else Inr False) (\<lambda>valid.
        Inr (w, v, v \<noteq> None \<and> valid, affect)))"

definition CacheWrapper_get ::
    "('c, 'p) cache_engine \<Rightarrow> ('m, 'z) lock_env_scheme \<Rightarrow> key \<Rightarrow> bool \<Rightarrow> bool \<Rightarrow> ('c, 'm) cache_wrapper
     \<Rightarrow> (('c, 'm) cache_wrapper \<times> data_value option \<times> bool \<times> bool) exec" where
  "CacheWrapper_get e env key is_redirected affect =
     cache_read env key (\<lambda>w. get_result env key (LocalCacheBase_getLocalCache e key is_redirected affect (local_cache_ptr w)) w)"

definition CacheWrapper_get_p2p ::
    "('c, 'p) cache_engine \<Rightarrow> ('m, 'z) lock_env_scheme \<Rightarrow> key \<Rightarrow> bool \<Rightarrow> bool \<Rightarrow> u32 \<Rightarrow> ('c, 'm) cache_wrapper
     \<Rightarrow> (('c, 'm) cache_wrapper \<times> data_value option \<times> bool \<times> bool) exec" where
  "CacheWrapper_get_p2p e env key is_redirected affect reward w =
     assertE is_redirected (
     cache_read env key (\<lambda>w.
       get_result env key (LocalCacheBase_getLocalCache_p2p e key is_redirected affect reward (local_cache_ptr w)) w) w)"

text \<open>Results: whether the key is cached, the affect flag.\<close>

definition CacheWrapper_update ::
    "('c, 'p) cache_engine \<Rightarrow> ('m, 'z) lock_env_scheme \<Rightarrow> key \<Rightarrow> data_value \<Rightarrow> bool \<Rightarrow> bool \<Rightarrow> ('c, 'm) cache_wrapper
     \<Rightarrow> (('c, 'm) cache_wrapper \<times> bool \<times> bool) exec" where
  "CacheWrapper_update e env key v is_global_cached affect =
     cache_write env key (\<lambda>w.
     bindE (LocalCacheBase_updateLocalCache e key v False is_global_cached affect (local_cache_ptr w)) (\<lambda>(lc, cached, affect, ok).
     let w = w\<lparr>local_cache_ptr := lc\<rparr>
     in bindE (if cached
               then if ok then CacheWrapper_validateKeyForLocalCachedObject_in env key w
                    else CacheWrapper_invalidateKeyForLocalCachedObject_in env key w
               else assertE (\<not> ok) (Inr w)) (\<lambda>w. Inr (w, cached, affect))))"

definition CacheWrapper_remove ::
    "('c, 'p) cache_engine \<Rightarrow> ('m, 'z) lock_env_scheme \<Rightarrow> key \<Rightarrow> bool \<Rightarrow> bool \<Rightarrow> ('c, 'm) cache_wrapper
     \<Rightarrow> (('c, 'm) cache_wrapper \<times> bool \<times> bool) exec" where
  "CacheWrapper_remove e env key is_global_cached affect = CacheWrapper_update e env key Value_deleted is_global_cached affect"

text \<open>Results: whether the key was cached and invalid, the affect flag.\<close>

definition CacheWrapper_updateIfInvalidForGetrsp ::
    "('c, 'p) cache_engine \<Rightarrow> ('m, 'z) lock_env_scheme \<Rightarrow> key \<Rightarrow> data_value \<Rightarrow> bool \<Rightarrow> bool \<Rightarrow> ('c, 'm) cache_wrapper
     \<Rightarrow> (('c, 'm) cache_wrapper \<times> bool \<times> bool) exec" where
  "CacheWrapper_updateIfInvalidForGetrsp e env key v is_global_cached affect =
     cache_write env key (\<lambda>w.
     if LocalCacheBase_isLocalCached e key (local_cache_ptr w)
     then bindE (CacheWrapper_isValidKeyForLocalCachedObject_in env key w) (\<lambda>valid.
          if \<not> valid
          then bindE (LocalCacheBase_updateLocalCache e key v True True affect (local_cache_ptr w)) (\<lambda>(lc, cached, affect, ok).
               assertE cached (
               let w = w\<lparr>local_cache_ptr := lc\<rparr>
               in bindE (if ok then CacheWrapper_validateKeyForLocalCachedObject_in env key w
                         else CacheWrapper_invalidateKeyForLocalCachedObject_in env key w) (\<lambda>w. Inr (w, True, affect))))
          else Inr (w, False, affect))
     else bindE (LocalCacheBase_updateLocalCache e key v True is_global_cached affect (local_cache_ptr w)) (\<lambda>(lc, cached, affect, ok).
          assertE (\<not> cached) (assertE (\<not> ok) (Inr (w\<lparr>local_cache_ptr := lc\<rparr>, False, affect)))))"

definition CacheWrapper_removeIfInvalidForGetrsp ::
    "('c, 'p) cache_engine \<Rightarrow> ('m, 'z) lock_env_scheme \<Rightarrow> key \<Rightarrow> bool \<Rightarrow> bool \<Rightarrow> ('c, 'm) cache_wrapper
     \<Rightarrow> (('c, 'm) cache_wrapper \<times> bool \<times> bool) exec" where
  "CacheWrapper_removeIfInvalidForGetrsp e env key is_global_cached affect =
     CacheWrapper_updateIfInvalidForGetrsp e env key Value_deleted is_global_cached affect"

fun set_beacons :: "(key \<times> u32) list \<Rightarrow> victim_cacheinfo list \<Rightarrow> victim_cacheinfo list exec" where
  "set_beacons bs [] = Inr []"
| "set_beacons bs (v # vs) =
     bindE (VictimCacheinfo_getKey v) (\<lambda>k.
     bindE (case map_of bs k of None \<Rightarrow> Inr v | Some b \<Rightarrow> VictimCacheinfo_setBeaconEdgeidx b v) (\<lambda>v.
     bindE (set_beacons bs vs) (\<lambda>vs. Inr (v # vs))))"

definition CacheWrapper_fetchVictimCacheinfosForRequiredSize ::
    "('c, 'p) cache_engine \<Rightarrow> victim_cacheinfo list \<Rightarrow> u64 \<Rightarrow> ('c, 'm) cache_wrapper \<Rightarrow> (victim_cacheinfo list \<times> bool) exec" where
  "CacheWrapper_fetchVictimCacheinfosForRequiredSize e victims required_size w =
     bindE (LocalCacheBase_getLocalCacheVictimKeys e [] victims required_size (local_cache_ptr w)) (\<lambda>(ks, victims, has_victim_key).
     bindE (set_beacons (perkey_beacon_edgeidx w) victims) (\<lambda>victims. Inr (victims, has_victim_key)))"

section \<open>Admission and eviction\<close>

definition CacheWrapper_needIndependentAdmit ::
    "('c, 'p) cache_engine \<Rightarrow> ('m, 'z) lock_env_scheme \<Rightarrow> key \<Rightarrow> data_value \<Rightarrow> ('c, 'm) cache_wrapper \<Rightarrow> (('c, 'm) cache_wrapper \<times> bool) exec" where
  "CacheWrapper_needIndependentAdmit e env key v =
     cache_read env key (\<lambda>w.
     bindE (LocalCacheBase_needIndependentAdmit e key v (local_cache_ptr w)) (\<lambda>(lc, need). Inr (w\<lparr>local_cache_ptr := lc\<rparr>, need)))"

definition CacheWrapper_admit ::
    "('c, 'p) cache_engine \<Rightarrow> ('m, 'z) lock_env_scheme \<Rightarrow> key \<Rightarrow> data_value \<Rightarrow> bool \<Rightarrow> bool \<Rightarrow> u32 \<Rightarrow> bool \<Rightarrow> u64 \<Rightarrow> ('c, 'm) cache_wrapper
     \<Rightarrow> (('c, 'm) cache_wrapper \<times> bool) exec" where
  "CacheWrapper_admit e env key v is_neighbor_cached valid beacon affect miss_latency_us =
     cache_write env key (\<lambda>w.
     bindE (LocalCacheBase_admitLocalCache e key v is_neighbor_cached affect miss_latency_us (local_cache_ptr w)) (\<lambda>(lc, affect, ok).
     let w = w\<lparr>local_cache_ptr := lc\<rparr>
     in if ok
        then bindE (if valid then CacheWrapper_validateKeyForLocalUncachedObject env key w
                    else CacheWrapper_invalidateKeyForLocalUncachedObject env key w) (\<lambda>w.
             Inr (w\<lparr>perkey_beacon_edgeidx := um_insert key beacon (perkey_beacon_edgeidx w)\<rparr>, affect))
        else Inr (w, affect)))"

definition evict_given_key ::
    "('c, 'p) cache_engine \<Rightarrow> ('m, 'z) lock_env_scheme \<Rightarrow> key \<Rightarrow> (key \<times> data_value) list \<Rightarrow> ('c, 'm) cache_wrapper
     \<Rightarrow> (('c, 'm) cache_wrapper \<times> (key \<times> data_value) list) exec" where
  "evict_given_key e env k victims =
     cache_write env k (\<lambda>w.
     bindE (LocalCacheBase_evictLocalCacheWithGivenKey e k (local_cache_ptr w)) (\<lambda>(lc, v).
     case v of
       None \<Rightarrow> Inl Exited
     | Some x \<Rightarrow>
         bindE (ValidityMap_eraseFlagForKey env (cache_perkey_rwlock w) (validity_map_ptr w) k) (\<lambda>(vm, is_exist).
         exit_ifE (\<not> is_exist) (
         Inr (w\<lparr>local_cache_ptr := lc, validity_map_ptr := vm\<rparr>, um_insert k x victims)))))"

fun evict_keys_loop ::
    "('c, 'p) cache_engine \<Rightarrow> ('m, 'z) lock_env_scheme \<Rightarrow> key list \<Rightarrow> (key \<times> data_value) list \<Rightarrow> ('c, 'm) cache_wrapper
     \<Rightarrow> (('c, 'm) cache_wrapper \<times> (key \<times> data_value) list) exec" where
  "evict_keys_loop e env [] victims w = Inr (w, victims)"
| "evict_keys_loop e env (k # ks) victims w =
     bindE (evict_given_key e env k victims w) (\<lambda>(w, victims). evict_keys_loop e env ks victims w)"

definition CacheWrapper_evictForFineGrainedManagement ::
    "('c, 'p) cache_engine \<Rightarrow> ('m, 'z) lock_env_scheme \<Rightarrow> u64 \<Rightarrow> ('c, 'm) cache_wrapper
     \<Rightarrow> (('c, 'm) cache_wrapper \<times> (key \<times> data_value) list) exec" where
  "CacheWrapper_evictForFineGrainedManagement e env required_size w =
     assertE (hasFineGrainedManagement e) (
     bindE (LocalCacheBase_getLocalCacheVictimKeys e [] [] required_size (local_cache_ptr w)) (\<lambda>(ks, infos, has_victim_key).
     exit_ifE (\<not> has_victim_key) (
     assertE (0 < length ks) (evict_keys_loop e env ks [] w))))"

fun erase_flags_loop ::
    "('m, 'z) lock_env_scheme \<Rightarrow> (key \<times> data_value) list \<Rightarrow> ('c, 'm) cache_wrapper \<Rightarrow> ('c, 'm) cache_wrapper exec" where
  "erase_flags_loop env [] w = Inr w"
| "erase_flags_loop env ((k, v) # kvs) w =
     bindE (ValidityMap_eraseFlagForKey env (cache_perkey_rwlock w) (validity_map_ptr w) k) (\<lambda>(vm, is_exist).
     exit_ifE (\<not> is_exist) (erase_flags_loop env kvs (w\<lparr>validity_map_ptr := vm\<rparr>)))"

definition CacheWrapper_evictForCoarseGrainedManagement ::
    "('c, 'p) cache_engine \<Rightarrow> ('m, 'z) lock_env_scheme \<Rightarrow> u64 \<Rightarrow> ('c, 'm) cache_wrapper
     \<Rightarrow> (('c, 'm) cache_wrapper \<times> (key \<times> data_value) list) exec" where
  "CacheWrapper_evictForCoarseGrainedManagement e env required_size w =
     assertE (\<not> hasFineGrainedManagement e) (
     cache_write env (Key []) (\<lambda>w.
     bindE (LocalCacheBase_evictLocalCacheNoGivenKey e [] required_size (local_cache_ptr w)) (\<lambda>(lc, victims).
     bindE (erase_flags_loop env victims (w\<lparr>local_cache_ptr := lc\<rparr>)) (\<lambda>w. Inr (w, victims)))) w)"

definition CacheWrapper_evict ::
    "('c, 'p) cache_engine \<Rightarrow> ('m, 'z) lock_env_scheme \<Rightarrow> u64 \<Rightarrow> ('c, 'm) cache_wrapper
     \<Rightarrow> (('c, 'm) cache_wrapper \<times> (key \<times> data_value) list) exec" where
  "CacheWrapper_evict e env required_size w =
     bindE (if hasFineGrainedManagement e then CacheWrapper_evictForFineGrainedManagement e env required_size w
            else CacheWrapper_evictForCoarseGrainedManagement e env required_size w) (\<lambda>(w, victims).
     Inr (w\<lparr>perkey_beacon_edgeidx := foldl (\<lambda>bs (k, v). um_erase k bs) (perkey_beacon_edgeidx w) victims\<rparr>, victims))"

section \<open>Calls by name, sizes and snapshots\<close>

definition GetLocalSyncedVictimCacheinfos_FUNCNAME :: string where
  "GetLocalSyncedVictimCacheinfos_FUNCNAME = ''get_local_synced_victim_cacheinfos''"

definition CacheWrapper_preCustomFunc ::
    "('m, 'z) lock_env_scheme \<Rightarrow> 'p cache_param \<Rightarrow> ('c, 'm) cache_wrapper \<Rightarrow> ('c, 'm) cache_wrapper exec" where
  "CacheWrapper_preCustomFunc env param w =
     (if need_perkey_lock param
      then bindE (if is_perkey_write_lock param then PerkeyRwlock_acquire_lock env (cache_perkey_rwlock w) (param_key param)
                  else PerkeyRwlock_acquire_lock_shared env (cache_perkey_rwlock w) (param_key param))
             (\<lambda>lk. Inr (w\<lparr>cache_perkey_rwlock := lk\<rparr>))
      else Inr w)"

definition CacheWrapper_postCustomFunc ::
    "('m, 'z) lock_env_scheme \<Rightarrow> string \<Rightarrow> 'p cache_param \<Rightarrow> ('c, 'm) cache_wrapper \<Rightarrow> (('c, 'm) cache_wrapper \<times> 'p cache_param) exec" where
  "CacheWrapper_postCustomFunc env func_name param w =
     bindE (if need_perkey_lock param
            then bindE (if is_perkey_write_lock param then PerkeyRwlock_unlock env (cache_perkey_rwlock w) (param_key param)
                        else PerkeyRwlock_unlock_shared env (cache_perkey_rwlock w) (param_key param))
                   (\<lambda>lk. Inr (w\<lparr>cache_perkey_rwlock := lk\<rparr>))
            else Inr w) (\<lambda>w.
     if func_name = GetLocalSyncedVictimCacheinfos_FUNCNAME
     then bindE (set_beacons (perkey_beacon_edgeidx w) (param_victims param)) (\<lambda>vs. Inr (w, param\<lparr>param_victims := vs\<rparr>))
     else Inr (w, param))"

definition CacheWrapper_customFunc ::
    "('c, 'p) cache_engine \<Rightarrow> ('m, 'z) lock_env_scheme \<Rightarrow> string \<Rightarrow> 'p cache_param \<Rightarrow> ('c, 'm) cache_wrapper
     \<Rightarrow> (('c, 'm) cache_wrapper \<times> 'p cache_param) exec" where
  "CacheWrapper_customFunc e env func_name param w =
     bindE (CacheWrapper_preCustomFunc env param w) (\<lambda>w.
     bindE (invokeCustomFunctionInternal e func_name param (local_cache_ptr w)) (\<lambda>(lc, param).
     CacheWrapper_postCustomFunc env func_name param (w\<lparr>local_cache_ptr := lc\<rparr>)))"

definition CacheWrapper_constCustomFunc ::
    "('c, 'p) cache_engine \<Rightarrow> ('m, 'z) lock_env_scheme \<Rightarrow> string \<Rightarrow> 'p cache_param \<Rightarrow> ('c, 'm) cache_wrapper
     \<Rightarrow> (('c, 'm) cache_wrapper \<times> 'p cache_param) exec" where
  "CacheWrapper_constCustomFunc e env func_name param w =
     bindE (CacheWrapper_preCustomFunc env param w) (\<lambda>w.
     bindE (invokeConstCustomFunctionInternal e func_name param (local_cache_ptr w)) (\<lambda>param.
     CacheWrapper_postCustomFunc env func_name param w))"

definition CacheWrapper_getSizeForCapacity :: "('c, 'p) cache_engine \<Rightarrow> ('c, 'm) cache_wrapper \<Rightarrow> u64 exec" where
  "CacheWrapper_getSizeForCapacity e w =
     Util_uint64Add (LocalCacheBase_getSizeForCapacity e (local_cache_ptr w)) (ValidityMap_getSizeForCapacity (validity_map_ptr w))"

fun cached_tuples ::
    "('c, 'p) cache_engine \<Rightarrow> (key \<times> validity_flag) list \<Rightarrow> 'c local_cache \<Rightarrow> ('c local_cache \<times> (key \<times> data_value \<times> bool) list) exec" where
  "cached_tuples e [] lc = Inr (lc, [])"
| "cached_tuples e ((k, f) # kfs) lc =
     bindE (LocalCacheBase_getLocalCache e k False False lc) (\<lambda>(lc, v, affect).
     bindE (cached_tuples e kfs lc) (\<lambda>(lc, ts).
     Inr (lc, (case v of None \<Rightarrow> ts | Some x \<Rightarrow> (k, x, isValidFlag f) # ts))))"

fun dump_tuples ::
    "bool \<Rightarrow> (u32 \<Rightarrow> u8 list) \<Rightarrow> (key \<times> u32) list \<Rightarrow> (key \<times> data_value \<times> bool) list \<Rightarrow> u8 list \<Rightarrow> u8 list exec" where
  "dump_tuples is_random getRandomString bs [] out = Inr out"
| "dump_tuples is_random getRandomString bs ((k, v, valid) # ts) out =
     bindE (Key_serialize_fs k out) (\<lambda>(out, _).
     bindE (Value_serialize_fs is_random getRandomString True v out) (\<lambda>(out, n).
     assertE (n = Value_getValuePayloadSize True v) (
     let out = fs_write (bool_mem valid) out;
         out = (case map_of bs k of
                  Some b \<Rightarrow> fs_write (u32_mem b) (fs_write (bool_mem True) out)
                | None \<Rightarrow> fs_write (bool_mem False) out)
     in dump_tuples is_random getRandomString bs ts out)))"

definition CacheWrapper_dumpCacheSnapshot ::
    "('c, 'p) cache_engine \<Rightarrow> bool \<Rightarrow> (u32 \<Rightarrow> u8 list) \<Rightarrow> ('c, 'm) cache_wrapper \<Rightarrow> u8 list \<Rightarrow> (('c, 'm) cache_wrapper \<times> u8 list) exec" where
  "CacheWrapper_dumpCacheSnapshot e is_random getRandomString w out =
     bindE (cached_tuples e (ValidityMap_getAllKeyValidityPairs (validity_map_ptr w) []) (local_cache_ptr w)) (\<lambda>(lc, ts).
     let w = w\<lparr>local_cache_ptr := lc\<rparr>; out = fs_write (u32_mem (word_of_nat (length ts))) out
     in bindE (dump_tuples is_random getRandomString (perkey_beacon_edgeidx w) ts out) (\<lambda>out.
        if cache_name w = COVERED_CACHE_NAME
        then bindE (dumpCacheMetadata e (local_cache_ptr w) out) (\<lambda>out. Inr (w, out))
        else Inr (w, out)))"

fun load_tuples ::
    "('c, 'p) cache_engine \<Rightarrow> ('m, 'z) lock_env_scheme \<Rightarrow> nat \<Rightarrow> fstream \<Rightarrow> ('c, 'm) cache_wrapper \<Rightarrow> (('c, 'm) cache_wrapper \<times> fstream) exec" where
  "load_tuples e env 0 fs w = Inr (w, fs)"
| "load_tuples e env (Suc n) fs w =
     bindE (Key_deserialize_fs (Key []) fs) (\<lambda>(k, fs, _).
     bindE (Value_deserialize_fs True Value_deleted fs) (\<lambda>(v, fs, _).
     let (valid, fs) = fs_read (bool_mem False) fs;
         (with_beacon, fs) = fs_read (bool_mem False) fs;
         (beacon, fs) = (if mem_bool with_beacon then fs_read (u32_mem 0) fs else (u32_mem 0, fs))
     in bindE (LocalCacheBase_admitLocalCache e k v False False 1 (local_cache_ptr w)) (\<lambda>(lc, affect, ok).
        let w = w\<lparr>local_cache_ptr := lc\<rparr>
        in bindE (if ok
                  then bindE (ValidityMap_putKeyValidityPair env (cache_perkey_rwlock w) (validity_map_ptr w) k (ValidityFlag (mem_bool valid)))
                         (\<lambda>(vm, is_exist).
                       Inr (w\<lparr>validity_map_ptr := vm,
                              perkey_beacon_edgeidx := (if mem_bool with_beacon then um_insert k (mem_u32 beacon) (perkey_beacon_edgeidx w)
                                                        else perkey_beacon_edgeidx w)\<rparr>))
                  else Inr w) (\<lambda>w. load_tuples e env n fs w))))"

definition CacheWrapper_loadCacheSnapshot ::
    "('c, 'p) cache_engine \<Rightarrow> ('m, 'z) lock_env_scheme \<Rightarrow> fstream \<Rightarrow> ('c, 'm) cache_wrapper \<Rightarrow> (('c, 'm) cache_wrapper \<times> fstream) exec" where
  "CacheWrapper_loadCacheSnapshot e env fs w =
     (let (cnt, fs) = fs_read (u32_mem 0) fs
      in bindE (load_tuples e env (unat (mem_u32 cnt)) fs (w\<lparr>perkey_beacon_edgeidx := []\<rparr>)) (\<lambda>(w, fs).
         if cache_name w = COVERED_CACHE_NAME
         then bindE (loadCacheMetadata e (local_cache_ptr w) fs) (\<lambda>(lc, fs). Inr (w\<lparr>local_cache_ptr := lc\<rparr>, fs))
         else Inr (w, fs)))"

end
