(* ===== verification/Cache_Coherence.thy ===== *)
theory Cache_Coherence
  imports Cache_Wrapper
begin

text \<open>
  What \<open>CacheWrapper\<close> promises to the servers of an edge node: a map from keys to a value and a validity bit. Every request
  of the wrapper is simulated by a step of this map (\<open>cache_spec\<close>), for every engine that obeys \<open>engine_laws\<close>, and so for
  the LRU cache. The flags may contain keys that are not cached (an invalidation that raced with an eviction leaves one behind).
\<close>

section \<open>Specification\<close>

datatype cache_request =
    Lookup key
  | Store key data_value
  | Fill key data_value
  | Invalidate key
  | Add key data_value bool u32
  | Free u64

datatype cache_reply = Hit "data_value option" | Cached bool | Freed "(key \<times> data_value) list" | Finished

fun cache_serve ::
    "('c, 'p) cache_engine \<Rightarrow> ('m, 'z) lock_env_scheme \<Rightarrow> cache_request \<Rightarrow> ('c, 'm) cache_wrapper \<Rightarrow> (('c, 'm) cache_wrapper \<times> cache_reply) exec" where
  "cache_serve e env (Lookup k) w =
     bindE (CacheWrapper_get e env k False False w) (\<lambda>(w, v, hit, _). Inr (w, Hit (if hit then v else None)))"
| "cache_serve e env (Store k v) w = bindE (CacheWrapper_update e env k v True False w) (\<lambda>(w, cached, _). Inr (w, Cached cached))"
| "cache_serve e env (Fill k v) w =
     bindE (CacheWrapper_updateIfInvalidForGetrsp e env k v True False w) (\<lambda>(w, cached, _). Inr (w, Cached cached))"
| "cache_serve e env (Invalidate k) w = bindE (CacheWrapper_invalidateKeyForLocalCachedObject env k w) (\<lambda>(w, _). Inr (w, Finished))"
| "cache_serve e env (Add k v valid beacon) w =
     bindE (CacheWrapper_admit e env k v False valid beacon False 0 w) (\<lambda>(w, _). Inr (w, Finished))"
| "cache_serve e env (Free n) w = bindE (CacheWrapper_evict e env n w) (\<lambda>(w, victims). Inr (w, Freed victims))"

type_synonym cache_map = "key \<rightharpoonup> data_value \<times> bool"

definition stored :: "(key \<Rightarrow> data_value \<Rightarrow> bool) \<Rightarrow> key \<Rightarrow> data_value \<Rightarrow> data_value \<Rightarrow> cache_map \<Rightarrow> cache_map" where
  "stored fits k v old m = m(k \<mapsto> if fits k v then (v, True) else (old, False))"

fun cache_spec :: "(key \<Rightarrow> data_value \<Rightarrow> bool) \<Rightarrow> cache_request \<Rightarrow> cache_map \<Rightarrow> cache_map \<Rightarrow> cache_reply \<Rightarrow> bool" where
  "cache_spec fits (Lookup k) m m' r \<longleftrightarrow>
     m' = m \<and> r = Hit (case m k of Some (v, valid) \<Rightarrow> if valid then Some v else None | None \<Rightarrow> None)"
| "cache_spec fits (Store k v) m m' r \<longleftrightarrow>
     (case m k of None \<Rightarrow> m' = m \<and> r = Cached False | Some (old, valid) \<Rightarrow> m' = stored fits k v old m \<and> r = Cached True)"
| "cache_spec fits (Fill k v) m m' r \<longleftrightarrow>
     (case m k of
        None \<Rightarrow> m' = m \<and> r = Cached False
      | Some (old, valid) \<Rightarrow> if valid then m' = m \<and> r = Cached False else m' = stored fits k v old m \<and> r = Cached True)"
| "cache_spec fits (Invalidate k) m m' r \<longleftrightarrow> m' = m(k := map_option (\<lambda>(v, valid). (v, False)) (m k)) \<and> r = Finished"
| "cache_spec fits (Add k v valid beacon) m m' r \<longleftrightarrow>
     m' = m(k \<mapsto> (case m k of None \<Rightarrow> v | Some (old, _) \<Rightarrow> old, valid)) \<and> r = Finished"
| "cache_spec fits (Free n) m m' r \<longleftrightarrow>
     (\<exists>ks. ks \<noteq> [] \<and> distinct ks \<and> set ks \<subseteq> dom m \<and> m' = m |` (- set ks) \<and> r = Freed (map (\<lambda>k. (k, fst (the (m k)))) ks))"

text \<open>Requests that the wrapper asserts or exits on otherwise: an object to admit has to fit, and there has to be a victim.\<close>

fun cache_enabled :: "(key \<Rightarrow> data_value \<Rightarrow> bool) \<Rightarrow> cache_request \<Rightarrow> cache_map \<Rightarrow> bool" where
  "cache_enabled fits (Add k v valid beacon) m = fits k v"
| "cache_enabled fits (Free n) m \<longleftrightarrow> m \<noteq> Map.empty"
| "cache_enabled fits _ m = True"

section \<open>The state of a wrapper\<close>

definition cache_flags :: "('m, 'z) lock_env_scheme \<Rightarrow> ('c, 'm) cache_wrapper \<Rightarrow> key \<rightharpoonup> validity_flag" where
  "cache_flags env w = ht_map env (cache_perkey_rwlock w) (validity_map_ptr w)"

definition cache_data ::
    "('c local_cache \<Rightarrow> bool) \<Rightarrow> ('c local_cache \<Rightarrow> key \<rightharpoonup> data_value) \<Rightarrow> ('m, 'z) lock_env_scheme \<Rightarrow> ('c, 'm) cache_wrapper \<Rightarrow> bool" where
  "cache_data ok objects env w \<longleftrightarrow> ok (local_cache_ptr w) \<and> ht_wf env (cache_perkey_rwlock w) validity_ops (validity_map_ptr w)
     \<and> dom (objects (local_cache_ptr w)) \<subseteq> dom (cache_flags env w)"

definition cache_abs :: "('c local_cache \<Rightarrow> key \<rightharpoonup> data_value) \<Rightarrow> ('m, 'z) lock_env_scheme \<Rightarrow> ('c, 'm) cache_wrapper \<Rightarrow> cache_map" where
  "cache_abs objects env w = (\<lambda>k. map_option (\<lambda>v. (v, cache_flags env w k = Some (ValidityFlag True))) (objects (local_cache_ptr w) k))"

definition cache_inv ::
    "('c local_cache \<Rightarrow> bool) \<Rightarrow> ('c local_cache \<Rightarrow> key \<rightharpoonup> data_value) \<Rightarrow> ('m, 'z) lock_env_scheme \<Rightarrow> ('m \<Rightarrow> nat) \<Rightarrow> ('m \<Rightarrow> bool)
     \<Rightarrow> ('c, 'm) cache_wrapper \<Rightarrow> bool" where
  "cache_inv ok objects env shared excl w \<longleftrightarrow> rwlock_free env shared excl (cache_perkey_rwlock w) \<and> cache_data ok objects env w"

text \<open>Room in the counters of the cache and of the flags.\<close>

fun cache_room :: "('c local_cache \<Rightarrow> key \<Rightarrow> data_value \<Rightarrow> bool) \<Rightarrow> cache_request \<Rightarrow> ('c, 'm) cache_wrapper \<Rightarrow> bool" where
  "cache_room room (Store k v) w \<longleftrightarrow> room (local_cache_ptr w) k v \<and> ht_room validity_ops (validity_map_ptr w) k (ValidityFlag True)"
| "cache_room room (Fill k v) w \<longleftrightarrow> room (local_cache_ptr w) k v \<and> ht_room validity_ops (validity_map_ptr w) k (ValidityFlag True)"
| "cache_room room (Invalidate k) w \<longleftrightarrow> ht_room validity_ops (validity_map_ptr w) k (ValidityFlag True)"
| "cache_room room (Add k v valid beacon) w \<longleftrightarrow> room (local_cache_ptr w) k v \<and> ht_room validity_ops (validity_map_ptr w) k (ValidityFlag True)"
| "cache_room room _ w = True"

lemma cache_relock:
  assumes "same_lock (cache_perkey_rwlock w) lk"
  shows "cache_flags env (w\<lparr>cache_perkey_rwlock := lk\<rparr>) = cache_flags env w"
    and "cache_abs objects env (w\<lparr>cache_perkey_rwlock := lk\<rparr>) = cache_abs objects env w"
    and "cache_data ok objects env (w\<lparr>cache_perkey_rwlock := lk\<rparr>) = cache_data ok objects env w"
proof -
  show flags: "cache_flags env (w\<lparr>cache_perkey_rwlock := lk\<rparr>) = cache_flags env w"
    by (simp add: cache_flags_def ht_same_lock(1) [OF assms])
  show "cache_abs objects env (w\<lparr>cache_perkey_rwlock := lk\<rparr>) = cache_abs objects env w" by (simp add: cache_abs_def flags)
  show "cache_data ok objects env (w\<lparr>cache_perkey_rwlock := lk\<rparr>) = cache_data ok objects env w"
    by (simp add: cache_data_def flags ht_same_lock(2) [OF assms])
qed

text \<open>A body that runs under the lock of its key and keeps the data makes a section that keeps the invariant.\<close>

lemma cache_section_ok:
  assumes inv: "cache_inv ok objects env shared excl w"
    and lock: "acquire env (cache_perkey_rwlock w) k = Inr lk1" "same_lock (cache_perkey_rwlock w) lk1"
      "release env lk1 k = Inr lk2" "rwlock_free env shared excl lk2" "same_lock (cache_perkey_rwlock w) lk2"
    and body: "\<exists>w1 r. body (w\<lparr>cache_perkey_rwlock := lk1\<rparr>) = Inr (w1, r) \<and> cache_perkey_rwlock w1 = lk1
      \<and> cache_data ok objects env w1 \<and> P (cache_abs objects env w1) r"
  shows "\<exists>w' r. cache_section acquire release env k body w = Inr (w', r) \<and> cache_inv ok objects env shared excl w'
    \<and> P (cache_abs objects env w') r"
proof -
  obtain w1 r where w1: "body (w\<lparr>cache_perkey_rwlock := lk1\<rparr>) = Inr (w1, r)" "cache_perkey_rwlock w1 = lk1"
      "cache_data ok objects env w1" "P (cache_abs objects env w1) r"
    using body by blast
  have "same_lock (cache_perkey_rwlock w1) lk2" using lock(2,5) w1(2) by (simp add: same_lock_def)
  note relock = cache_relock [OF this]
  have "cache_section acquire release env k body w = Inr (w1\<lparr>cache_perkey_rwlock := lk2\<rparr>, r)"
    using lock(1,3) w1(1,2) by (simp add: cache_section_def)
  then show ?thesis using lock(4) w1(3,4) by (auto simp: cache_inv_def relock)
qed

lemma cache_write_ok:
  assumes mutex: "shared_mutex_ok env shared excl" and inv: "cache_inv ok objects env shared excl w"
    and body: "\<And>w1. cache_data ok objects env w1 \<Longrightarrow> table_write_locked env (cache_perkey_rwlock w1) validity_ops (validity_map_ptr w1) k \<Longrightarrow>
      local_cache_ptr w1 = local_cache_ptr w \<Longrightarrow> validity_map_ptr w1 = validity_map_ptr w \<Longrightarrow> cache_abs objects env w1 = cache_abs objects env w \<Longrightarrow>
      cache_flags env w1 = cache_flags env w \<Longrightarrow>
      \<exists>w2 r. body w1 = Inr (w2, r) \<and> cache_perkey_rwlock w2 = cache_perkey_rwlock w1 \<and> cache_data ok objects env w2 \<and> P (cache_abs objects env w2) r"
  shows "\<exists>w' r. cache_write env k body w = Inr (w', r) \<and> cache_inv ok objects env shared excl w' \<and> P (cache_abs objects env w') r"
proof -
  have free: "rwlock_free env shared excl (cache_perkey_rwlock w)" and data: "cache_data ok objects env w"
    using inv by (simp_all add: cache_inv_def)
  from Perkey_Rwlock.write_section [OF mutex free, of k] obtain lk1 lk2 where
    lk: "PerkeyRwlock_acquire_lock env (cache_perkey_rwlock w) k = Inr lk1" "rwlock_wf lk1" "same_lock (cache_perkey_rwlock w) lk1"
      "PerkeyRwlock_isWriteLocked env lk1 k = Inr True" "PerkeyRwlock_unlock env lk1 k = Inr lk2" "rwlock_free env shared excl lk2"
      "same_lock (cache_perkey_rwlock w) lk2" .
  note relock = cache_relock [OF lk(3)]
  have "table_write_locked env lk1 validity_ops (validity_map_ptr w) k"
    using lk(2,4) data by (simp add: table_write_locked_def cache_data_def ht_same_lock(2) [OF lk(3)])
  then show ?thesis
    using body [of "w\<lparr>cache_perkey_rwlock := lk1\<rparr>"] data
    by (intro cache_section_ok [where P = P and acquire = PerkeyRwlock_acquire_lock and release = PerkeyRwlock_unlock, OF inv lk(1,3,5,6,7)])
      (simp add: relock)
qed

lemma cache_read_ok:
  assumes mutex: "shared_mutex_ok env shared excl" and inv: "cache_inv ok objects env shared excl w"
    and body: "\<And>w1. cache_data ok objects env w1 \<Longrightarrow> table_locked env (cache_perkey_rwlock w1) validity_ops (validity_map_ptr w1) k \<Longrightarrow>
      local_cache_ptr w1 = local_cache_ptr w \<Longrightarrow> cache_abs objects env w1 = cache_abs objects env w \<Longrightarrow>
      \<exists>w2 r. body w1 = Inr (w2, r) \<and> cache_perkey_rwlock w2 = cache_perkey_rwlock w1 \<and> cache_data ok objects env w2 \<and> P (cache_abs objects env w2) r"
  shows "\<exists>w' r. cache_read env k body w = Inr (w', r) \<and> cache_inv ok objects env shared excl w' \<and> P (cache_abs objects env w') r"
proof -
  have free: "rwlock_free env shared excl (cache_perkey_rwlock w)" and data: "cache_data ok objects env w"
    using inv by (simp_all add: cache_inv_def)
  from Perkey_Rwlock.read_section [OF mutex free, of k] obtain lk1 lk2 where
    lk: "PerkeyRwlock_acquire_lock_shared env (cache_perkey_rwlock w) k = Inr lk1" "rwlock_wf lk1" "same_lock (cache_perkey_rwlock w) lk1"
      "PerkeyRwlock_isReadOrWriteLocked env lk1 k = Inr True" "PerkeyRwlock_unlock_shared env lk1 k = Inr lk2" "rwlock_free env shared excl lk2"
      "same_lock (cache_perkey_rwlock w) lk2" .
  note relock = cache_relock [OF lk(3)]
  have "table_locked env lk1 validity_ops (validity_map_ptr w) k"
    using lk(2,4) data by (simp add: table_locked_def cache_data_def ht_same_lock(2) [OF lk(3)])
  then show ?thesis
    using body [of "w\<lparr>cache_perkey_rwlock := lk1\<rparr>"] data
    by (intro cache_section_ok [where P = P and acquire = PerkeyRwlock_acquire_lock_shared and release = PerkeyRwlock_unlock_shared,
          OF inv lk(1,3,5,6,7)]) (simp add: relock)
qed

section \<open>Flags\<close>

lemma room_flag: "ht_room validity_ops vm k (ValidityFlag True) \<Longrightarrow> ht_room validity_ops vm k (ValidityFlag b)"
  by (simp add: ht_room_def ValidityFlag_getSizeForCapacity_def)

text \<open>Setting a flag, by any of the four methods.\<close>

lemma set_flag:
  assumes "table_write_locked env (cache_perkey_rwlock w) validity_ops (validity_map_ptr w) k"
    and "ht_room validity_ops (validity_map_ptr w) k (ValidityFlag True)"
  shows "\<exists>vm b. ConcurrentHashtable_insertOrUpdate env (cache_perkey_rwlock w) validity_ops (validity_map_ptr w) k (ValidityFlag valid) = Inr (vm, b)
    \<and> ht_wf env (cache_perkey_rwlock w) validity_ops vm
    \<and> ht_map env (cache_perkey_rwlock w) vm = (cache_flags env w)(k \<mapsto> ValidityFlag valid)"
  using insertOrUpdate_ok [OF assms(1) room_flag [OF assms(2), of valid]] unfolding cache_flags_def by metis

lemmas flag_methods =
  CacheWrapper_validateKeyForLocalCachedObject_in_def CacheWrapper_invalidateKeyForLocalCachedObject_in_def
  CacheWrapper_validateKeyForLocalUncachedObject_def CacheWrapper_invalidateKeyForLocalUncachedObject_def
  ValidityMap_validateFlagForKey_def ValidityMap_invalidateFlagForKey_def

lemma read_flag:
  assumes "table_locked env (cache_perkey_rwlock w) validity_ops (validity_map_ptr w) k"
  shows "CacheWrapper_isValidKeyForLocalCachedObject_in env k w = Inr (cache_flags env w k = Some (ValidityFlag True))"
  using isValidFlagForKey_eq [OF assms] by (simp add: CacheWrapper_isValidKeyForLocalCachedObject_in_def cache_flags_def)

section \<open>Requests\<close>

text \<open>Changing the objects or the flags of a wrapper.\<close>

lemma put_objects:
  assumes "cache_data ok objects env w" and "ok lc" and "dom (objects lc) \<subseteq> dom (cache_flags env w)"
  shows "cache_data ok objects env (w\<lparr>local_cache_ptr := lc\<rparr>)"
    and "cache_abs objects env (w\<lparr>local_cache_ptr := lc\<rparr>)
      = (\<lambda>k. map_option (\<lambda>v. (v, cache_flags env w k = Some (ValidityFlag True))) (objects lc k))"
  using assms by (simp_all add: cache_data_def cache_abs_def cache_flags_def)

lemma put_objects_flag:
  assumes "cache_data ok objects env w" and "ok lc" and "ht_wf env (cache_perkey_rwlock w) validity_ops vm"
    and "ht_map env (cache_perkey_rwlock w) vm = (cache_flags env w)(k \<mapsto> ValidityFlag valid)" and "dom (objects lc) \<subseteq> insert k (dom (objects (local_cache_ptr w)))"
  shows "cache_data ok objects env (w\<lparr>local_cache_ptr := lc, validity_map_ptr := vm\<rparr>)"
    and "cache_abs objects env (w\<lparr>local_cache_ptr := lc, validity_map_ptr := vm\<rparr>)
      = (\<lambda>k'. map_option (\<lambda>v. (v, if k' = k then valid else cache_flags env w k' = Some (ValidityFlag True))) (objects lc k'))"
proof -
  have flags: "cache_flags env (w\<lparr>local_cache_ptr := lc, validity_map_ptr := vm\<rparr>) = (cache_flags env w)(k \<mapsto> ValidityFlag valid)"
    using assms(4) by (simp add: cache_flags_def)
  have "dom (objects (local_cache_ptr w)) \<subseteq> dom (cache_flags env w)" using assms(1) by (simp add: cache_data_def)
  then have "dom (objects lc) \<subseteq> insert k (dom (cache_flags env w))" using assms(5) by blast
  then show "cache_data ok objects env (w\<lparr>local_cache_ptr := lc, validity_map_ptr := vm\<rparr>)"
    using assms(2,3) by (simp add: cache_data_def flags)
  show "cache_abs objects env (w\<lparr>local_cache_ptr := lc, validity_map_ptr := vm\<rparr>)
      = (\<lambda>k'. map_option (\<lambda>v. (v, if k' = k then valid else cache_flags env w k' = Some (ValidityFlag True))) (objects lc k'))"
    by (simp add: cache_abs_def flags fun_eq_iff)
qed

lemma put_beacons [simp]:
  "cache_flags env (w\<lparr>perkey_beacon_edgeidx := bs\<rparr>) = cache_flags env w"
  "cache_data ok objects env (w\<lparr>perkey_beacon_edgeidx := bs\<rparr>) = cache_data ok objects env w"
  "cache_abs objects env (w\<lparr>perkey_beacon_edgeidx := bs\<rparr>) = cache_abs objects env w"
  "cache_inv ok objects env shared excl (w\<lparr>perkey_beacon_edgeidx := bs\<rparr>) = cache_inv ok objects env shared excl w"
  by (simp_all add: cache_flags_def cache_data_def cache_abs_def cache_inv_def)

definition follows_map where
  "follows_map ok objects fits e env shared excl q w \<longleftrightarrow>
     (\<exists>w' r. cache_serve e env q w = Inr (w', r) \<and> cache_inv ok objects env shared excl w'
        \<and> cache_spec fits q (cache_abs objects env w) (cache_abs objects env w') r)"

context engine_laws
begin

lemma lookup_follows:
  assumes "shared_mutex_ok env shared excl" and "cache_inv ok objects env shared excl w"
  shows "follows_map ok objects fits e env shared excl (Lookup k) w"
proof -
  let ?P = "\<lambda>m (v, hit, _). m = cache_abs objects env w \<and> (if hit then v else None)
      = (case cache_abs objects env w k of Some (v, valid) \<Rightarrow> if valid then Some v else None | None \<Rightarrow> None)"
  have "\<exists>w' r. CacheWrapper_get e env k False False w = Inr (w', r) \<and> cache_inv ok objects env shared excl w' \<and> ?P (cache_abs objects env w') r"
    unfolding CacheWrapper_get_def
  proof (rule cache_read_ok [OF assms])
    fix w1
    assume w1: "cache_data ok objects env w1" "table_locked env (cache_perkey_rwlock w1) validity_ops (validity_map_ptr w1) k"
      "local_cache_ptr w1 = local_cache_ptr w" "cache_abs objects env w1 = cache_abs objects env w"
    have ok1: "ok (local_cache_ptr w1)" "dom (objects (local_cache_ptr w1)) \<subseteq> dom (cache_flags env w1)"
      using w1(1) by (simp_all add: cache_data_def)
    obtain lc b where lc: "LocalCacheBase_getLocalCache e k False False (local_cache_ptr w1) = Inr (lc, objects (local_cache_ptr w1) k, b)"
        "ok lc" "objects lc = objects (local_cache_ptr w1)"
      using base_get [OF ok1(1)] by blast
    let ?w2 = "w1\<lparr>local_cache_ptr := lc\<rparr>"
    have flag: "CacheWrapper_isValidKeyForLocalCachedObject_in env k ?w2 = Inr (cache_flags env w1 k = Some (ValidityFlag True))"
      using read_flag [of env ?w2 k] w1(2) by (simp add: cache_flags_def)
    have put: "cache_data ok objects env ?w2" "cache_abs objects env ?w2 = cache_abs objects env w"
      using put_objects [OF w1(1) lc(2)] lc(3) ok1(2) w1(4) by (auto simp: cache_abs_def)
    have "cache_abs objects env w1 k = map_option (\<lambda>v. (v, cache_flags env w1 k = Some (ValidityFlag True))) (objects (local_cache_ptr w1) k)"
      by (simp add: cache_abs_def)
    then show "\<exists>w2 r. get_result env k (LocalCacheBase_getLocalCache e k False False (local_cache_ptr w1)) w1 = Inr (w2, r)
        \<and> cache_perkey_rwlock w2 = cache_perkey_rwlock w1 \<and> cache_data ok objects env w2 \<and> ?P (cache_abs objects env w2) r"
      using lc(1) flag put w1(4) by (cases "objects (local_cache_ptr w1) k") (auto simp: get_result_def)
  qed
  then show ?thesis by (auto simp: follows_map_def)
qed

lemma store_body:
  assumes "cache_data ok objects env w1" and "table_write_locked env (cache_perkey_rwlock w1) validity_ops (validity_map_ptr w1) k"
    and "room (local_cache_ptr w1) k v" and "ht_room validity_ops (validity_map_ptr w1) k (ValidityFlag True)"
    and "objects (local_cache_ptr w1) k = Some old"
  shows "\<exists>lc b w2. LocalCacheBase_updateLocalCache e k v g c False (local_cache_ptr w1) = Inr (lc, True, b, fits k v)
    \<and> (if fits k v then CacheWrapper_validateKeyForLocalCachedObject_in env k (w1\<lparr>local_cache_ptr := lc\<rparr>)
       else CacheWrapper_invalidateKeyForLocalCachedObject_in env k (w1\<lparr>local_cache_ptr := lc\<rparr>)) = Inr w2
    \<and> cache_perkey_rwlock w2 = cache_perkey_rwlock w1 \<and> cache_data ok objects env w2
    \<and> cache_abs objects env w2 = stored fits k v old (cache_abs objects env w1)"
proof -
  obtain lc b where lc: "updateLocalCacheInternal e k v g c False (local_cache_ptr w1) = Inr (lc, True, b, fits k v)" "ok lc"
      "objects lc = (if fits k v then (objects (local_cache_ptr w1))(k \<mapsto> v) else objects (local_cache_ptr w1))"
    using update_law [of "local_cache_ptr w1" k v g c False] assms(1,3,5) by (auto simp: cache_data_def)
  obtain vm b' where vm: "ConcurrentHashtable_insertOrUpdate env (cache_perkey_rwlock w1) validity_ops (validity_map_ptr w1) k (ValidityFlag (fits k v)) = Inr (vm, b')"
      "ht_wf env (cache_perkey_rwlock w1) validity_ops vm" "ht_map env (cache_perkey_rwlock w1) vm = (cache_flags env w1)(k \<mapsto> ValidityFlag (fits k v))"
    using set_flag [OF assms(2,4)] by blast
  have "dom (objects lc) \<subseteq> insert k (dom (objects (local_cache_ptr w1)))" by (auto simp: lc(3) split: if_splits)
  note put = put_objects_flag [OF assms(1) lc(2) vm(2,3) this]
  have "(if fits k v then CacheWrapper_validateKeyForLocalCachedObject_in env k (w1\<lparr>local_cache_ptr := lc\<rparr>)
       else CacheWrapper_invalidateKeyForLocalCachedObject_in env k (w1\<lparr>local_cache_ptr := lc\<rparr>)) = Inr (w1\<lparr>local_cache_ptr := lc, validity_map_ptr := vm\<rparr>)"
    using vm(1) by (cases "fits k v") (simp_all add: flag_methods)
  moreover have "cache_abs objects env (w1\<lparr>local_cache_ptr := lc, validity_map_ptr := vm\<rparr>) = stored fits k v old (cache_abs objects env w1)"
    using put(2) assms(5) by (auto simp: lc(3) stored_def cache_abs_def)
  ultimately show ?thesis using lc(1) put(1) by (auto simp: LocalCacheBase_updateLocalCache_def)
qed

lemma uncached_update:
  assumes "cache_data ok objects env w1" and "room (local_cache_ptr w1) k v" and "objects (local_cache_ptr w1) k = None"
  shows "\<exists>lc b. LocalCacheBase_updateLocalCache e k v g c False (local_cache_ptr w1) = Inr (lc, False, b, False)
    \<and> cache_data ok objects env (w1\<lparr>local_cache_ptr := lc\<rparr>) \<and> cache_abs objects env (w1\<lparr>local_cache_ptr := lc\<rparr>) = cache_abs objects env w1"
proof -
  obtain lc b where lc: "updateLocalCacheInternal e k v g c False (local_cache_ptr w1) = Inr (lc, False, b, False)" "ok lc"
      "objects lc = objects (local_cache_ptr w1)"
    using update_law [of "local_cache_ptr w1" k v g c False] assms by (auto simp: cache_data_def)
  have "dom (objects lc) \<subseteq> dom (cache_flags env w1)" using assms(1) lc(3) by (simp add: cache_data_def)
  then show ?thesis using lc(1) put_objects [OF assms(1) lc(2)] lc(3) by (auto simp: LocalCacheBase_updateLocalCache_def cache_abs_def)
qed

lemma abs_at: "cache_abs objects env w k = map_option (\<lambda>v. (v, cache_flags env w k = Some (ValidityFlag True))) (objects (local_cache_ptr w) k)"
  by (simp add: cache_abs_def)

lemma store_follows:
  assumes "shared_mutex_ok env shared excl" and "cache_inv ok objects env shared excl w"
    and "room (local_cache_ptr w) k v" and "ht_room validity_ops (validity_map_ptr w) k (ValidityFlag True)"
  shows "follows_map ok objects fits e env shared excl (Store k v) w"
proof -
  let ?P = "\<lambda>m (cached, _). cache_spec fits (Store k v) (cache_abs objects env w) m (Cached cached)"
  have "\<exists>w' r. CacheWrapper_update e env k v True False w = Inr (w', r) \<and> cache_inv ok objects env shared excl w' \<and> ?P (cache_abs objects env w') r"
    unfolding CacheWrapper_update_def
  proof (rule cache_write_ok [OF assms(1,2)], goal_cases)
    case (1 w1)
    show ?case
    proof (cases "objects (local_cache_ptr w1) k")
      case None
      then show ?thesis using uncached_update [OF 1(1), of k v False True] assms(3) 1(3,5) abs_at [of env w1 k]
        by (auto simp: Let_def)
    next
      case (Some old)
      then show ?thesis using store_body [OF 1(1,2) _ _ Some, of v False True] assms(3,4) 1(3,4,5) abs_at [of env w1 k]
        by (auto simp: Let_def)
    qed
  qed
  then show ?thesis by (auto simp: follows_map_def simp del: cache_spec.simps)
qed

lemma fill_follows:
  assumes "shared_mutex_ok env shared excl" and "cache_inv ok objects env shared excl w"
    and "room (local_cache_ptr w) k v" and "ht_room validity_ops (validity_map_ptr w) k (ValidityFlag True)"
  shows "follows_map ok objects fits e env shared excl (Fill k v) w"
proof -
  let ?P = "\<lambda>m (cached, _). cache_spec fits (Fill k v) (cache_abs objects env w) m (Cached cached)"
  have "\<exists>w' r. CacheWrapper_updateIfInvalidForGetrsp e env k v True False w = Inr (w', r) \<and> cache_inv ok objects env shared excl w' \<and> ?P (cache_abs objects env w') r"
    unfolding CacheWrapper_updateIfInvalidForGetrsp_def
  proof (rule cache_write_ok [OF assms(1,2)], goal_cases)
    case (1 w1)
    have cached: "LocalCacheBase_isLocalCached e k (local_cache_ptr w1) \<longleftrightarrow> objects (local_cache_ptr w1) k \<noteq> None"
      using cached_iff [of "local_cache_ptr w1" k] 1(1) by (simp add: LocalCacheBase_isLocalCached_def cache_data_def)
    note flag = read_flag [OF table_locked_of_write [OF 1(2)]]
    show ?case
    proof (cases "objects (local_cache_ptr w1) k")
      case None
      then show ?thesis using uncached_update [OF 1(1), of k v True True] assms(3) 1(3,5) abs_at [of env w1 k] cached
        by (auto simp: Let_def)
    next
      case (Some old)
      then show ?thesis using store_body [OF 1(1,2) _ _ Some, of v True True] assms(3,4) 1(1,3,4,5) abs_at [of env w1 k] cached flag
        by (cases "cache_flags env w1 k = Some (ValidityFlag True)") (auto simp: Let_def)
    qed
  qed
  then show ?thesis by (auto simp: follows_map_def simp del: cache_spec.simps)
qed

lemma invalidate_follows:
  assumes "shared_mutex_ok env shared excl" and "cache_inv ok objects env shared excl w"
    and "ht_room validity_ops (validity_map_ptr w) k (ValidityFlag True)"
  shows "follows_map ok objects fits e env shared excl (Invalidate k) w"
proof -
  let ?P = "\<lambda>m _. cache_spec fits (Invalidate k) (cache_abs objects env w) m Finished"
  have "\<exists>w' r. CacheWrapper_invalidateKeyForLocalCachedObject env k w = Inr (w', r) \<and> cache_inv ok objects env shared excl w' \<and> ?P (cache_abs objects env w') r"
    unfolding CacheWrapper_invalidateKeyForLocalCachedObject_def
  proof (rule cache_write_ok [OF assms(1,2)], goal_cases)
    case (1 w1)
    obtain vm b where vm: "ConcurrentHashtable_insertOrUpdate env (cache_perkey_rwlock w1) validity_ops (validity_map_ptr w1) k (ValidityFlag False) = Inr (vm, b)"
        "ht_wf env (cache_perkey_rwlock w1) validity_ops vm" "ht_map env (cache_perkey_rwlock w1) vm = (cache_flags env w1)(k \<mapsto> ValidityFlag False)"
      using set_flag [OF 1(2)] assms(3) 1(4) by fastforce
    have "ok (local_cache_ptr w1)" using 1(1) by (simp add: cache_data_def)
    note put = put_objects_flag [OF 1(1) this vm(2,3) subset_insertI, simplified]
    have "cache_abs objects env (w1\<lparr>validity_map_ptr := vm\<rparr>)
        = (cache_abs objects env w)(k := map_option (\<lambda>(v, valid). (v, False)) (cache_abs objects env w k))"
      unfolding put(2) using 1(3,6) by (auto simp: abs_at option.map_comp comp_def fun_eq_iff)
    then show ?case using vm(1) put(1) by (auto simp: flag_methods)
  qed
  then show ?thesis by (auto simp: follows_map_def simp del: cache_spec.simps)
qed

lemma add_follows:
  assumes "shared_mutex_ok env shared excl" and "cache_inv ok objects env shared excl w" and "fits k v"
    and "room (local_cache_ptr w) k v" and "ht_room validity_ops (validity_map_ptr w) k (ValidityFlag True)"
  shows "follows_map ok objects fits e env shared excl (Add k v valid beacon) w"
proof -
  let ?P = "\<lambda>m _. cache_spec fits (Add k v valid beacon) (cache_abs objects env w) m Finished"
  have "\<exists>w' r. CacheWrapper_admit e env k v False valid beacon False 0 w = Inr (w', r) \<and> cache_inv ok objects env shared excl w' \<and> ?P (cache_abs objects env w') r"
    unfolding CacheWrapper_admit_def
  proof (rule cache_write_ok [OF assms(1,2)], goal_cases)
    case (1 w1)
    have "ok (local_cache_ptr w1)" using 1(1) by (simp add: cache_data_def)
    then obtain lc b where lc: "LocalCacheBase_admitLocalCache e k v False False 0 (local_cache_ptr w1) = Inr (lc, b, True)" "ok lc"
        "objects lc = (if objects (local_cache_ptr w1) k = None then (objects (local_cache_ptr w1))(k \<mapsto> v) else objects (local_cache_ptr w1))"
      using base_admit [of "local_cache_ptr w1" k v False False 0] assms(3,4) 1(3) by auto
    obtain vm b' where vm: "ConcurrentHashtable_insertOrUpdate env (cache_perkey_rwlock w1) validity_ops (validity_map_ptr w1) k (ValidityFlag valid) = Inr (vm, b')"
        "ht_wf env (cache_perkey_rwlock w1) validity_ops vm" "ht_map env (cache_perkey_rwlock w1) vm = (cache_flags env w1)(k \<mapsto> ValidityFlag valid)"
      using set_flag [OF 1(2)] assms(5) 1(4) by fastforce
    have "dom (objects lc) \<subseteq> insert k (dom (objects (local_cache_ptr w1)))" by (auto simp: lc(3) split: if_splits)
    note put = put_objects_flag [OF 1(1) lc(2) vm(2,3) this]
    have "cache_abs objects env (w1\<lparr>local_cache_ptr := lc, validity_map_ptr := vm\<rparr>)
        = (cache_abs objects env w)(k \<mapsto> (case cache_abs objects env w k of None \<Rightarrow> v | Some (old, _) \<Rightarrow> old, valid))"
      unfolding put(2) using 1(3,6) by (auto simp: lc(3) abs_at fun_eq_iff)
    then show ?case using lc(1) vm(1) put(1) by (cases valid) (auto simp: flag_methods Let_def)
  qed
  then show ?thesis by (auto simp: follows_map_def simp del: cache_spec.simps)
qed

lemma evict_one:
  assumes "shared_mutex_ok env shared excl" and "cache_inv ok objects env shared excl w" and "objects (local_cache_ptr w) k = Some v"
  shows "\<exists>w'. evict_given_key e env k victims w = Inr (w', um_insert k v victims)
    \<and> cache_inv ok objects env shared excl w' \<and> cache_abs objects env w' = (cache_abs objects env w)(k := None)"
proof -
  let ?P = "\<lambda>m r. m = (cache_abs objects env w)(k := None) \<and> r = um_insert k v victims"
  have "\<exists>w' r. evict_given_key e env k victims w = Inr (w', r)
    \<and> cache_inv ok objects env shared excl w' \<and> ?P (cache_abs objects env w') r"
    unfolding evict_given_key_def
  proof (rule cache_write_ok [OF assms(1,2)], goal_cases)
    case (1 w1)
    have ok1: "ok (local_cache_ptr w1)" "dom (objects (local_cache_ptr w1)) \<subseteq> dom (cache_flags env w1)" using 1(1) by (simp_all add: cache_data_def)
    obtain lc where lc: "LocalCacheBase_evictLocalCacheWithGivenKey e k (local_cache_ptr w1) = Inr (lc, Some v)" "ok lc"
        "objects lc = (objects (local_cache_ptr w1))(k := None)"
      using base_evict [OF ok1(1), of k] assms(3) 1(3) by auto
    from eraseIfExist_ok [OF 1(2)] obtain vm where
      vm: "ConcurrentHashtable_eraseIfExist env (cache_perkey_rwlock w1) validity_ops (validity_map_ptr w1) k = Inr (vm, ht_map env (cache_perkey_rwlock w1) (validity_map_ptr w1) k \<noteq> None)"
        "ht_wf env (cache_perkey_rwlock w1) validity_ops vm" "ht_map env (cache_perkey_rwlock w1) vm = (ht_map env (cache_perkey_rwlock w1) (validity_map_ptr w1))(k := None)" .
    let ?w2 = "w1\<lparr>local_cache_ptr := lc, validity_map_ptr := vm\<rparr>"
    have flags: "cache_flags env ?w2 = (cache_flags env w1)(k := None)" using vm(3) by (simp add: cache_flags_def)
    have exist: "ht_map env (cache_perkey_rwlock w1) (validity_map_ptr w1) k \<noteq> None"
      using ok1(2) assms(3) 1(3) by (auto simp: cache_flags_def)
    have "dom (objects lc) \<subseteq> dom (cache_flags env ?w2)" using ok1(2) by (auto simp: flags lc(3))
    then have "cache_data ok objects env ?w2" using lc(2) vm(2) by (simp add: cache_data_def)
    moreover have "cache_abs objects env ?w2 = (cache_abs objects env w)(k := None)"
      using 1(3,6) by (auto simp: abs_at flags lc(3) fun_eq_iff)
    ultimately show ?case using lc(1) vm(1) exist by (auto simp: ValidityMap_eraseFlagForKey_def)
  qed
  then show ?thesis by auto
qed

lemma evict_keys:
  "shared_mutex_ok env shared excl \<Longrightarrow> cache_inv ok objects env shared excl w \<Longrightarrow> distinct ks \<Longrightarrow> set ks \<subseteq> dom (cache_abs objects env w) \<Longrightarrow>
   \<forall>k \<in> set ks. map_of victims k = None \<Longrightarrow>
   \<exists>w'. evict_keys_loop e env ks victims w = Inr (w', victims @ map (\<lambda>k. (k, fst (the (cache_abs objects env w k)))) ks)
     \<and> cache_inv ok objects env shared excl w' \<and> cache_abs objects env w' = cache_abs objects env w |` (- set ks)"
proof (induction ks arbitrary: w victims)
  case (Cons k ks)
  obtain v where v: "objects (local_cache_ptr w) k = Some v" using Cons.prems(4) by (auto simp: abs_at)
  obtain w1 where w1: "evict_given_key e env k victims w = Inr (w1, um_insert k v victims)" "cache_inv ok objects env shared excl w1"
      "cache_abs objects env w1 = (cache_abs objects env w)(k := None)"
    using evict_one [OF Cons.prems(1,2) v, of victims] by blast
  have vs: "um_insert k v victims = victims @ [(k, v)]" using Cons.prems(5) by (simp add: um_insert_def)
  have other: "map_of (victims @ [(k, v)]) k' = None" if "k' \<in> set ks" for k'
    using that Cons.prems(3,5) by (auto simp: map_add_def)
  have "set ks \<subseteq> dom (cache_abs objects env w1)" using Cons.prems(3,4) by (auto simp: w1(3))
  then obtain w2 where w2: "evict_keys_loop e env ks (victims @ [(k, v)]) w1
        = Inr (w2, (victims @ [(k, v)]) @ map (\<lambda>k. (k, fst (the (cache_abs objects env w1 k)))) ks)"
      "cache_inv ok objects env shared excl w2" "cache_abs objects env w2 = cache_abs objects env w1 |` (- set ks)"
    using Cons.IH [OF Cons.prems(1) w1(2), of "victims @ [(k, v)]"] Cons.prems(3) other by auto
  have "map (\<lambda>k. (k, fst (the (cache_abs objects env w1 k)))) ks = map (\<lambda>k. (k, fst (the (cache_abs objects env w k)))) ks"
    using Cons.prems(3) by (auto simp: w1(3))
  moreover have "fst (the (cache_abs objects env w k)) = v" using v by (simp add: abs_at)
  moreover have "cache_abs objects env w2 = cache_abs objects env w |` (- set (k # ks))"
    by (auto simp: w2(3) w1(3) restrict_map_def fun_eq_iff)
  ultimately show ?case using w1(1) w2(1,2) vs by simp
qed (simp add: restrict_map_def)

lemma free_follows:
  assumes "shared_mutex_ok env shared excl" and "cache_inv ok objects env shared excl w" and "cache_abs objects env w \<noteq> Map.empty"
  shows "follows_map ok objects fits e env shared excl (Free n) w"
proof -
  have ok1: "ok (local_cache_ptr w)" using assms(2) by (simp add: cache_inv_def cache_data_def)
  have dom: "dom (cache_abs objects env w) = dom (objects (local_cache_ptr w))" by (auto simp: abs_at dom_def)
  then have "objects (local_cache_ptr w) \<noteq> Map.empty" using assms(3) by (metis dom_eq_empty_conv)
  then obtain ks where ks: "LocalCacheBase_getLocalCacheVictimKeys e [] [] n (local_cache_ptr w) = Inr (ks, [], True)" "ks \<noteq> []" "distinct ks"
      "set ks \<subseteq> dom (cache_abs objects env w)"
    using base_victims [OF ok1, of n] dom by metis
  obtain w' where w': "evict_keys_loop e env ks [] w = Inr (w', map (\<lambda>k. (k, fst (the (cache_abs objects env w k)))) ks)"
      "cache_inv ok objects env shared excl w'" "cache_abs objects env w' = cache_abs objects env w |` (- set ks)"
    using evict_keys [OF assms(1,2) ks(3,4), of "[]"] by auto
  have "CacheWrapper_evict e env n w = bindE (evict_keys_loop e env ks [] w) (\<lambda>(w, victims).
      Inr (w\<lparr>perkey_beacon_edgeidx := foldl (\<lambda>bs (k, v). um_erase k bs) (perkey_beacon_edgeidx w) victims\<rparr>, victims))"
    using ks(1,2) fine by (simp add: CacheWrapper_evict_def CacheWrapper_evictForFineGrainedManagement_def)
  then show ?thesis using w' ks(2-4) by (auto simp: follows_map_def)
qed

lemma serve_follows:
  assumes "shared_mutex_ok env shared excl" and "cache_inv ok objects env shared excl w"
    and "cache_enabled fits q (cache_abs objects env w)" and "cache_room room q w"
  shows "follows_map ok objects fits e env shared excl q w"
  using assms lookup_follows store_follows fill_follows invalidate_follows add_follows free_follows by (cases q) auto

end

section \<open>Properties\<close>

abbreviation lru_cache_engine :: "(lru_cache, unit) cache_engine" where
  "lru_cache_engine \<equiv> lru_engine"

lemma cache_inv_new:
  assumes "shared_mutex_ok env shared excl" and "n \<noteq> 0"
  shows "cache_inv (lru_lc_ok capacity) lru_objects env shared excl (CacheWrapper_new lru_cache_engine env name (LruLocalCache_new capacity) n)"
proof -
  let ?lk = "PerkeyRwlock_new env n True"
  have free: "rwlock_free env shared excl ?lk" by (rule rwlock_free_new [OF assms])
  have "lru_ok LruCache_new" by (simp add: lru_ok_def items_def LruCache_new_def)
  then show ?thesis using free ht_wf_new [of env ?lk validity_ops]
    by (simp add: cache_inv_def cache_data_def CacheWrapper_new_def lru_engine_sel ValidityMap_new_def lru_lc_ok_def lru_objects_def
        LruLocalCache_new_def LruCache_new_def items_def Let_def)
qed

text \<open>C18: The cache of an edge node is a map with validity bits. In every state that a new cache with the LRU engine reaches, each look-up,
  update, refill after a miss, invalidation, admission of an object that fits and eviction of a non-empty cache returns and acts on
  the cached objects and their validity as the specification says: a look-up hits exactly a valid object and gives its value, an
  update makes the new value valid or, if it does not fit, the old one invalid, a refill touches invalid objects only, an eviction
  removes its victims from the objects and from the flags. The invariant holds for a new cache and is kept.\<close>

theorem edge_cache_refines_map:
  assumes "shared_mutex_ok env shared excl" and "cache_inv (lru_lc_ok capacity) lru_objects env shared excl w"
    and "cache_enabled (lru_fits capacity) q (cache_abs lru_objects env w)" and "cache_room lru_room q w" and "n \<noteq> 0"
  shows "(\<exists>w' r. cache_serve lru_cache_engine env q w = Inr (w', r) \<and> cache_inv (lru_lc_ok capacity) lru_objects env shared excl w'
      \<and> cache_spec (lru_fits capacity) q (cache_abs lru_objects env w) (cache_abs lru_objects env w') r)
    \<and> cache_inv (lru_lc_ok capacity) lru_objects env shared excl (CacheWrapper_new lru_cache_engine env name (LruLocalCache_new capacity) n)"
  using lru.serve_follows [OF assms(1-4)] cache_inv_new [OF assms(1,5)] by (auto simp: follows_map_def simp del: cache_spec.simps)

text \<open>C20: Admitting an object that is cached already brings a stale copy back. If the copy was invalidated, the LRU cache keeps the old value and
  reports success, the wrapper marks the key valid, and the next look-up hits with the old value.\<close>

theorem admit_revives_stale_copy:
  assumes "shared_mutex_ok env shared excl" and "cache_inv (lru_lc_ok capacity) lru_objects env shared excl w"
    and "cache_abs lru_objects env w k = Some (old, False)" and "lru_fits capacity k v" and "cache_room lru_room (Add k v True beacon) w"
  shows "\<exists>w1 w2. cache_serve lru_cache_engine env (Add k v True beacon) w = Inr (w1, Finished) \<and> cache_serve lru_cache_engine env (Lookup k) w1 = Inr (w2, Hit (Some old))"
proof -
  have "follows_map (lru_lc_ok capacity) lru_objects (lru_fits capacity) lru_cache_engine env shared excl (Add k v True beacon) w"
    using assms(4) by (intro lru.serve_follows [OF assms(1,2) _ assms(5)]) simp
  then obtain w1 where w1: "cache_serve lru_cache_engine env (Add k v True beacon) w = Inr (w1, Finished)"
      "cache_inv (lru_lc_ok capacity) lru_objects env shared excl w1" "cache_abs lru_objects env w1 k = Some (old, True)"
    using assms(3) by (auto simp: follows_map_def)
  have "follows_map (lru_lc_ok capacity) lru_objects (lru_fits capacity) lru_cache_engine env shared excl (Lookup k) w1"
    by (rule lru.lookup_follows [OF assms(1) w1(2)])
  then show ?thesis using w1(1,3) by (auto simp: follows_map_def)
qed

text \<open>A cache whose only object was invalidated.\<close>

definition stale_cache :: "(lru_cache, nat \<times> bool) cache_wrapper" where
  "stale_cache = \<lparr>cache_name = ''lru'',
     local_cache_ptr = \<lparr>capacity_bytes = 100, engine_state = \<lparr>lru_size = 15, cache_items_list = [(0, Key [1], Value_of_size 5)],
        cache_items_map = [(Key [1], 0)], next_node = 1\<rparr>\<rparr>,
     cache_perkey_rwlock = PerkeyRwlock_new (counting_env (\<lambda>_. 0)) 1 True,
     validity_map_ptr = \<lparr>hashtables = [[(Key [1], ValidityFlag False)]], total_key_size = 1, total_value_size = 1\<rparr>,
     perkey_beacon_edgeidx = [(Key [1], 0)]\<rparr>"

lemma stale_cache_ok:
  "cache_inv (lru_lc_ok 100) lru_objects (counting_env (\<lambda>_. 0)) fst snd stale_cache"
  "cache_abs lru_objects (counting_env (\<lambda>_. 0)) stale_cache (Key [1]) = Some (Value_of_size 5, False)"
  "cache_room lru_room (Add (Key [1]) (Value_of_size 6) True 0) stale_cache" "lru_fits 100 (Key [1]) (Value_of_size 6)"
proof -
  have free: "rwlock_free (counting_env (\<lambda>_. 0)) fst snd (PerkeyRwlock_new (counting_env (\<lambda>_. 0)) 1 True)"
    by (rule rwlock_free_new) (simp_all add: counting_env_ok)
  have idx: "lock_idx (counting_env (\<lambda>_. 0)) (PerkeyRwlock_new (counting_env (\<lambda>_. 0)) 1 True) k = 0" for k
    by (simp add: lock_idx_def PerkeyRwlock_new_def counting_env_def Let_def)
  have flags: "cache_flags (counting_env (\<lambda>_. 0)) stale_cache = [Key [1] \<mapsto> ValidityFlag False]"
    by (simp add: cache_flags_def stale_cache_def ht_map_def idx fun_eq_iff)
  have "fine_grained_locking_size (PerkeyRwlock_new (counting_env (\<lambda>_. 0)) 1 True) = 1" by (simp add: PerkeyRwlock_new_def Let_def)
  then have "ht_wf (counting_env (\<lambda>_. 0)) (cache_perkey_rwlock stale_cache) validity_ops (validity_map_ptr stale_cache)"
    by (simp add: ht_wf_def stale_cache_def bucketed_def idx weight_def key_weight_def value_weight_def ValidityFlag_getSizeForCapacity_def
        Key_getKeyLength_def)
  then show "cache_inv (lru_lc_ok 100) lru_objects (counting_env (\<lambda>_. 0)) fst snd stale_cache"
    using free flags by (simp add: cache_inv_def cache_data_def) (simp add: stale_cache_def lru_lc_ok_def lru_ok_def lru_objects_def items_def
        lru_fits_def item_bytes_def pair_size_def entry_size_def Key_getKeyLength_def Value_of_size_def)
  show "cache_abs lru_objects (counting_env (\<lambda>_. 0)) stale_cache (Key [1]) = Some (Value_of_size 5, False)"
    by (simp add: cache_abs_def flags) (simp add: stale_cache_def lru_objects_def items_def)
  show "cache_room lru_room (Add (Key [1]) (Value_of_size 6) True 0) stale_cache"
    by (simp add: stale_cache_def lru_room_def item_bytes_def pair_size_def entry_size_def Key_getKeyLength_def Value_of_size_def ht_room_def
        ValidityFlag_getSizeForCapacity_def)
  show "lru_fits 100 (Key [1]) (Value_of_size 6)" by (simp add: lru_fits_def Key_getKeyLength_def Value_of_size_def)
qed

theorem admit_revives_stale_copy_witness:
  "\<exists>w1 w2. cache_serve lru_cache_engine (counting_env (\<lambda>_. 0)) (Add (Key [1]) (Value_of_size 6) True 0) stale_cache = Inr (w1, Finished)
     \<and> cache_serve lru_cache_engine (counting_env (\<lambda>_. 0)) (Lookup (Key [1])) w1 = Inr (w2, Hit (Some (Value_of_size 5)))"
  by (rule admit_revives_stale_copy [OF counting_env_ok stale_cache_ok(1,2,4,3)])

theorem edge_cache_refines_map_witness:
  "(\<exists>w' r. cache_serve lru_cache_engine (counting_env (\<lambda>_. 0)) (Free 7) stale_cache = Inr (w', r)
      \<and> cache_inv (lru_lc_ok 100) lru_objects (counting_env (\<lambda>_. 0)) fst snd w'
      \<and> cache_spec (lru_fits 100) (Free 7) (cache_abs lru_objects (counting_env (\<lambda>_. 0)) stale_cache) (cache_abs lru_objects (counting_env (\<lambda>_. 0)) w') r)
    \<and> cache_inv (lru_lc_ok 100) lru_objects (counting_env (\<lambda>_. 0)) fst snd
        (CacheWrapper_new lru_cache_engine (counting_env (\<lambda>_. 0)) ''lru'' (LruLocalCache_new 100) 8)"
  by (rule edge_cache_refines_map [OF counting_env_ok stale_cache_ok(1)]) (use stale_cache_ok(2) in auto)

end
