(* ===== verification/Directory_Cacher.thy ===== *)
theory Directory_Cacher
  imports Weight_Tuner Victim_Tracker
begin

text \<open>
  \<open>CachedDirectory\<close> and \<open>DirectoryCacher\<close> (\<open>src/src/core/directory_cacher.c\<close>): an edge node keeps the answers of remote beacons,
  with the popularity it reported then, and asks again when its popularity has changed by more than a ratio. The ratio is a
  double that the call of \<open>popularityMultiply\<close> converts to single precision. Every operation runs under the lock of the cacher.
\<close>

section \<open>Cached directories\<close>

record cached_directory =
  cached_dirinfo :: directory_info
  prev_collect_popularity :: u32

definition CachedDirectory_default :: cached_directory where
  "CachedDirectory_default = \<lparr>cached_dirinfo = DirectoryInfo_default, prev_collect_popularity = 0\<rparr>"

definition CachedDirectory_getSizeForCapacity :: "cached_directory \<Rightarrow> u64" where
  "CachedDirectory_getSizeForCapacity d = DirectoryInfo_getSizeForCapacity (cached_dirinfo d) + 4"

definition CachedDirectory_dumpCachedDirectory :: "cached_directory \<Rightarrow> u8 list \<Rightarrow> u8 list exec" where
  "CachedDirectory_dumpCachedDirectory d out =
     bindE (DirectoryInfo_serialize_fs (cached_dirinfo d) out) (\<lambda>(out, _). Inr (fs_write (u32_mem (prev_collect_popularity d)) out))"

definition CachedDirectory_loadCachedDirectory :: "cached_directory \<Rightarrow> fstream \<Rightarrow> (cached_directory \<times> fstream) exec" where
  "CachedDirectory_loadCachedDirectory this fs =
     bindE (DirectoryInfo_deserialize_fs (cached_dirinfo this) fs) (\<lambda>(dirinfo, fs, _).
     let (b, fs) = fs_read (u32_mem (prev_collect_popularity this)) fs
     in Inr (\<lparr>cached_dirinfo = dirinfo, prev_collect_popularity = mem_u32 b\<rparr>, fs))"

section \<open>The cacher\<close>

record directory_cacher =
  popularity_collection_change_ratio :: fval
  cacher_size_bytes :: u64
  perkey_dirinfo_map :: "(key \<times> cached_directory) list"

definition DirectoryCacher_new :: "fval \<Rightarrow> directory_cacher" where
  "DirectoryCacher_new ratio = \<lparr>popularity_collection_change_ratio = ratio, cacher_size_bytes = 0, perkey_dirinfo_map = []\<rparr>"

definition DirectoryCacher_getCachedDirectory :: "key \<Rightarrow> directory_cacher \<Rightarrow> cached_directory option" where
  "DirectoryCacher_getCachedDirectory key c = map_of (perkey_dirinfo_map c) key"

text \<open>The result is the cached directory, if there is one, and whether the popularity has changed much.\<close>

definition DirectoryCacher_checkPopularityChange :: "key \<Rightarrow> u32 \<Rightarrow> directory_cacher \<Rightarrow> (cached_directory \<times> bool) option exec" where
  "DirectoryCacher_checkPopularityChange key popularity c =
     (case map_of (perkey_dirinfo_map c) key of
        None \<Rightarrow> Inr None
      | Some d \<Rightarrow>
          bindE (Util_popularityAbsMinus popularity (prev_collect_popularity d)) (\<lambda>change.
          assertE (fval_le (Fin 0) (f32_val change)) (
          bindE (Util_popularityMultiply (f32_of_f64 (popularity_collection_change_ratio c)) (prev_collect_popularity d)) (\<lambda>limit.
          Inr (Some (d, fval_le (f32_val limit) (f32_val change)))))))"

definition DirectoryCacher_removeCachedDirectoryIfAny :: "key \<Rightarrow> directory_cacher \<Rightarrow> directory_cacher" where
  "DirectoryCacher_removeCachedDirectoryIfAny key c =
     (case map_of (perkey_dirinfo_map c) key of
        None \<Rightarrow> c
      | Some d \<Rightarrow> c\<lparr>cacher_size_bytes := Util_uint64Minus (cacher_size_bytes c) (CachedDirectory_getSizeForCapacity d),
                     perkey_dirinfo_map := um_erase key (perkey_dirinfo_map c)\<rparr>)"

definition DirectoryCacher_updateForNewCachedDirectory :: "key \<Rightarrow> cached_directory \<Rightarrow> directory_cacher \<Rightarrow> directory_cacher exec" where
  "DirectoryCacher_updateForNewCachedDirectory key d c =
     (if map_of (perkey_dirinfo_map c) key \<noteq> None then Inr (c\<lparr>perkey_dirinfo_map := um_put key d (perkey_dirinfo_map c)\<rparr>)
      else bindE (Util_uint64Add (cacher_size_bytes c) (CachedDirectory_getSizeForCapacity d)) (\<lambda>n.
           Inr (c\<lparr>cacher_size_bytes := n, perkey_dirinfo_map := um_insert key d (perkey_dirinfo_map c)\<rparr>)))"

definition DirectoryCacher_getSizeForCapacity :: "directory_cacher \<Rightarrow> u64" where
  "DirectoryCacher_getSizeForCapacity c = cacher_size_bytes c"

section \<open>Snapshots\<close>

definition dump_cached_pair :: "key \<times> cached_directory \<Rightarrow> u8 list \<Rightarrow> u8 list exec" where
  "dump_cached_pair x out = bindE (Key_serialize_fs (fst x) out) (\<lambda>(out, _). CachedDirectory_dumpCachedDirectory (snd x) out)"

definition load_cached_pair :: "fstream \<Rightarrow> ((key \<times> cached_directory) \<times> fstream) exec" where
  "load_cached_pair fs =
     bindE (Key_deserialize_fs (Key []) fs) (\<lambda>(key, fs, _).
     bindE (CachedDirectory_loadCachedDirectory CachedDirectory_default fs) (\<lambda>(d, fs). Inr ((key, d), fs)))"

definition DirectoryCacher_dumpDirectoryCacher :: "directory_cacher \<Rightarrow> u8 list \<Rightarrow> u8 list exec" where
  "DirectoryCacher_dumpDirectoryCacher c out =
     dump_counted dump_cached_pair (perkey_dirinfo_map c) (fs_write (u64_mem (cacher_size_bytes c)) out)"

definition DirectoryCacher_loadDirectoryCacher :: "directory_cacher \<Rightarrow> fstream \<Rightarrow> (directory_cacher \<times> fstream) exec" where
  "DirectoryCacher_loadDirectoryCacher this fs =
     (let (b, fs) = fs_read (u64_mem (cacher_size_bytes this)) fs
      in bindE (load_counted load_cached_pair fs) (\<lambda>(xs, fs).
         Inr (this\<lparr>cacher_size_bytes := mem_u64 b,
                   perkey_dirinfo_map := foldl (\<lambda>m (k, d). um_insert k d m) [] xs\<rparr>, fs)))"

section \<open>The map a cacher stands for\<close>

datatype cacher_request = Remember key cached_directory | Forget key

fun cacher_serve :: "cacher_request \<Rightarrow> directory_cacher \<Rightarrow> directory_cacher exec" where
  "cacher_serve (Remember k d) c = DirectoryCacher_updateForNewCachedDirectory k d c"
| "cacher_serve (Forget k) c = Inr (DirectoryCacher_removeCachedDirectoryIfAny k c)"

fun cacher_run :: "cacher_request list \<Rightarrow> directory_cacher \<Rightarrow> directory_cacher exec" where
  "cacher_run [] c = Inr c"
| "cacher_run (r # rs) c = bindE (cacher_serve r c) (cacher_run rs)"

fun remembered :: "cacher_request list \<Rightarrow> (key \<rightharpoonup> cached_directory) \<Rightarrow> (key \<rightharpoonup> cached_directory)" where
  "remembered [] m = m"
| "remembered (Remember k d # rs) m = remembered rs (m(k \<mapsto> d))"
| "remembered (Forget k # rs) m = remembered rs (m(k := None))"

definition cacher_ok :: "directory_cacher \<Rightarrow> bool" where
  "cacher_ok c \<longleftrightarrow> um_wf (perkey_dirinfo_map c) \<and> unat (cacher_size_bytes c) = 8 * length (perkey_dirinfo_map c)"

lemma cached_size [simp]: "CachedDirectory_getSizeForCapacity d = 8"
  by (simp add: CachedDirectory_getSizeForCapacity_def DirectoryInfo_getSizeForCapacity_def)

lemma length_um_erase_present:
  assumes "um_wf al" and "map_of al k = Some v"
  shows "Suc (length (um_erase k al)) = length al"
proof -
  have "k \<in> fst ` set al" using assms(2) by (force dest: map_of_SomeD)
  moreover have "card (fst ` set al) = length al" using distinct_card [OF assms(1)] by simp
  moreover have "card (fst ` set al - {k}) = length (um_erase k al)"
    using distinct_card [OF um_wf_erase [OF assms(1), of k]] by (simp add: keys_um)
  ultimately show ?thesis using card_Suc_Diff1 [of "fst ` set al" k] by simp
qed

lemma length_um_put_present: "map_of al k \<noteq> None \<Longrightarrow> length (um_put k v al) = length al"
  unfolding um_put_def by (induction al) auto

lemma length_um_insert: "length (um_insert k v al) = (if map_of al k = None then Suc (length al) else length al)"
  by (simp add: um_insert_def)

lemma cacher_serve_ok:
  assumes "cacher_ok c" and "8 * length (perkey_dirinfo_map c) + 8 < 2 ^ 64"
  obtains c' where "cacher_serve r c = Inr c'" and "cacher_ok c'"
    and "map_of (perkey_dirinfo_map c') = remembered [r] (map_of (perkey_dirinfo_map c))"
    and "length (perkey_dirinfo_map c') \<le> Suc (length (perkey_dirinfo_map c))"
    and "popularity_collection_change_ratio c' = popularity_collection_change_ratio c"
proof -
  note [simp] = cacher_ok_def
  note that = that [rotated 1]
  show ?thesis
  proof (cases r)
    case (Remember k d)
    show ?thesis
    proof (cases "map_of (perkey_dirinfo_map c) k")
      case None
      have "unat (cacher_size_bytes c + 8) = unat (cacher_size_bytes c) + 8"
        using assms unat_add_no_wrap [of "cacher_size_bytes c" 8] by simp
      then show ?thesis using None Remember assms
        by (intro that) (simp_all add: DirectoryCacher_updateForNewCachedDirectory_def uint64Add_spec length_um_insert)
    next
      case (Some d')
      then show ?thesis using Remember assms
        by (intro that) (simp_all add: DirectoryCacher_updateForNewCachedDirectory_def length_um_put_present)
    qed
  next
    case (Forget k)
    show ?thesis
    proof (cases "map_of (perkey_dirinfo_map c) k")
      case None
      then show ?thesis using Forget assms
        by (intro that) (auto simp: DirectoryCacher_removeCachedDirectoryIfAny_def)
    next
      case (Some d)
      have "Suc (length (um_erase k (perkey_dirinfo_map c))) = length (perkey_dirinfo_map c)"
        using Some assms by (intro length_um_erase_present) simp_all
      then show ?thesis using Some Forget assms
        by (intro that) (simp_all add: DirectoryCacher_removeCachedDirectoryIfAny_def unat_uint64Minus)
    qed
  qed
qed

lemma cacher_run_ok:
  assumes "cacher_ok c" and "8 * (length (perkey_dirinfo_map c) + length rs) < 2 ^ 64"
  shows "\<exists>c'. cacher_run rs c = Inr c' \<and> cacher_ok c'
    \<and> map_of (perkey_dirinfo_map c') = remembered rs (map_of (perkey_dirinfo_map c))
    \<and> length (perkey_dirinfo_map c') \<le> length (perkey_dirinfo_map c) + length rs
    \<and> popularity_collection_change_ratio c' = popularity_collection_change_ratio c"
  using assms
proof (induction rs arbitrary: c)
  case Nil
  then show ?case by simp
next
  case (Cons r rs)
  obtain c1 where c1: "cacher_serve r c = Inr c1" "cacher_ok c1"
      "map_of (perkey_dirinfo_map c1) = remembered [r] (map_of (perkey_dirinfo_map c))"
      "length (perkey_dirinfo_map c1) \<le> Suc (length (perkey_dirinfo_map c))"
      "popularity_collection_change_ratio c1 = popularity_collection_change_ratio c"
    by (rule cacher_serve_ok [OF Cons.prems(1)]) (use Cons.prems(2) in simp_all)
  have "remembered (r # rs) m = remembered rs (remembered [r] m)" for m by (cases r) simp_all
  then show ?case using Cons.IH [OF c1(2)] Cons.prems(2) c1 by fastforce
qed

lemma cacher_ok_new [simp]: "cacher_ok (DirectoryCacher_new ratio)"
  by (simp add: cacher_ok_def DirectoryCacher_new_def)

section \<open>Snapshots give the map back\<close>

definition cached_enc :: "key \<times> cached_directory \<Rightarrow> u8 list" where
  "cached_enc x = Key_enc (fst x) @ DirectoryInfo_enc (cached_dirinfo (snd x)) @ u32_mem (prev_collect_popularity (snd x))"

lemma dump_cached_enc: "\<forall>x \<in> set xs. Key_wf (fst x) \<Longrightarrow> dump_list dump_cached_pair xs out = Inr (out @ concat (map cached_enc xs))"
  by (induction xs arbitrary: out)
    (simp_all add: dump_cached_pair_def CachedDirectory_dumpCachedDirectory_def key_stream.fs_ser_enc dirinfo_stream.fs_ser_enc cached_enc_def fs_write_def)

lemma load_cached_enc:
  "\<forall>x \<in> set xs. Key_wf (fst x) \<Longrightarrow> load_list load_cached_pair (length xs) (good_fs (concat (map cached_enc xs) @ rest)) = Inr (xs, good_fs rest)"
proof (induction xs)
  case (Cons x xs)
  have "\<lparr>cached_dirinfo = cached_dirinfo d, prev_collect_popularity = prev_collect_popularity d\<rparr> = d" for d :: cached_directory by simp
  then show ?case using Cons
    by (simp add: load_cached_pair_def CachedDirectory_loadCachedDirectory_def key_stream.fs_deser_enc dirinfo_stream.fs_deser_enc
        cached_enc_def prod_eq_iff)
qed simp

lemma insert_all_pairs: "um_wf (acc @ xs) \<Longrightarrow> foldl (\<lambda>m (k, d). um_insert k d m) acc xs = acc @ xs"
proof (induction xs arbitrary: acc)
  case (Cons x xs)
  then have "map_of acc (fst x) = None" by (auto simp: map_of_eq_None_iff)
  then show ?case using Cons by (simp add: um_insert_def case_prod_beta)
qed simp

lemma cacher_snapshot:
  assumes "cacher_ok c" and "\<forall>x \<in> set (perkey_dirinfo_map c). Key_wf (fst x)" and "length (perkey_dirinfo_map c) < 2 ^ 32"
  shows "\<exists>bs. DirectoryCacher_dumpDirectoryCacher c [] = Inr bs
    \<and> DirectoryCacher_loadDirectoryCacher c' (good_fs (bs @ rest))
      = Inr (c\<lparr>popularity_collection_change_ratio := popularity_collection_change_ratio c'\<rparr>, good_fs rest)"
  using assms insert_all_pairs [of "[]" "perkey_dirinfo_map c"]
  by (simp add: DirectoryCacher_dumpDirectoryCacher_def DirectoryCacher_loadDirectoryCacher_def dump_counted_def load_counted_def
      dump_cached_enc load_cached_enc cacher_ok_def fs_write_def unat_of_nat_small)

text \<open>C39: The directory cacher is a map with an exact byte counter. After any sequence of answers remembered and forgotten,
  a look-up returns what a map would, the counter is eight bytes for each key, and a snapshot of it, read by any cacher,
  gives the same entries and counter back.\<close>

theorem directory_cacher_refines_map:
  assumes "length rs < 2 ^ 32" and "\<forall>k d. Remember k d \<in> set rs \<longrightarrow> Key_wf k"
  shows "\<exists>c. cacher_run rs (DirectoryCacher_new ratio) = Inr c
    \<and> (\<forall>k. DirectoryCacher_getCachedDirectory k c = remembered rs Map.empty k)
    \<and> unat (DirectoryCacher_getSizeForCapacity c) = 8 * card (dom (remembered rs Map.empty))
    \<and> (\<exists>bs. DirectoryCacher_dumpDirectoryCacher c [] = Inr bs
         \<and> DirectoryCacher_loadDirectoryCacher (DirectoryCacher_new ratio) (good_fs (bs @ rest)) = Inr (c, good_fs rest))"
proof -
  obtain c where c: "cacher_run rs (DirectoryCacher_new ratio) = Inr c" "cacher_ok c" "length (perkey_dirinfo_map c) \<le> length rs"
      "map_of (perkey_dirinfo_map c) = remembered rs Map.empty" "popularity_collection_change_ratio c = ratio"
    using cacher_run_ok [OF cacher_ok_new, of ratio rs] assms(1) by (auto simp: DirectoryCacher_new_def)
  have "m k = None \<Longrightarrow> \<forall>d. Remember k d \<notin> set rs \<Longrightarrow> remembered rs m k = None" for m k
    by (induction rs m rule: remembered.induct) auto
  from this [of Map.empty] have "\<forall>k \<in> dom (remembered rs Map.empty). Key_wf k"
    using assms(2) by (metis domIff)
  then have wf: "\<forall>x \<in> set (perkey_dirinfo_map c). Key_wf (fst x)" 
    unfolding c(4) [symmetric] dom_map_of_conv_image_fst by blast
  have "card (dom (remembered rs Map.empty)) = length (perkey_dirinfo_map c)"
    using c(2) distinct_card [of "map fst (perkey_dirinfo_map c)"] by (simp add: cacher_ok_def dom_map_of_conv_image_fst flip: c(4))
  moreover have "c\<lparr>popularity_collection_change_ratio := popularity_collection_change_ratio (DirectoryCacher_new ratio)\<rparr> = c"
    using c(5) by (simp add: DirectoryCacher_new_def)
  ultimately show ?thesis
    using c cacher_snapshot [OF c(2) wf, of "DirectoryCacher_new ratio" rest] assms(1)
    by (auto simp: DirectoryCacher_getCachedDirectory_def DirectoryCacher_getSizeForCapacity_def cacher_ok_def)
qed

theorem directory_cacher_refines_map_witness:
  "\<exists>c. cacher_run [Remember (Key [1]) \<lparr>cached_dirinfo = DirectoryInfo 2, prev_collect_popularity = 0x3F800000\<rparr>, Forget (Key [7]),
         Remember (Key [1]) \<lparr>cached_dirinfo = DirectoryInfo 3, prev_collect_popularity = 0x40000000\<rparr>] (DirectoryCacher_new (Fin 0)) = Inr c
     \<and> DirectoryCacher_getCachedDirectory (Key [1]) c = Some \<lparr>cached_dirinfo = DirectoryInfo 3, prev_collect_popularity = 0x40000000\<rparr>
     \<and> unat (DirectoryCacher_getSizeForCapacity c) = 8"
proof -
  let ?rs = "[Remember (Key [1]) \<lparr>cached_dirinfo = DirectoryInfo 2, prev_collect_popularity = 0x3F800000\<rparr>, Forget (Key [7]),
         Remember (Key [1]) \<lparr>cached_dirinfo = DirectoryInfo 3, prev_collect_popularity = 0x40000000\<rparr>]"
  have 1: "length ?rs < 2 ^ 32" by simp
  have 2: "\<forall>k d. Remember k d \<in> set ?rs \<longrightarrow> Key_wf k" by (auto simp: Key_wf_def)
  show ?thesis using directory_cacher_refines_map [OF 1 2, of "Fin 0" "[]"] by auto
qed

end
