(* ===== verification/Aggregated_Popularity.thy ===== *)
theory Aggregated_Popularity
  imports Float_Arith Victim_Tracker "HOL-Library.Multiset"
begin

text \<open>
  \<open>AggregatedUncachedPopularity\<close> (\<open>src/src/core/popularity/aggregated_uncached_popularity.c\<close>): what a beacon knows of the popularity of
  one key at the edge nodes that do not cache it. It keeps the sum of all reports, a bitmap of the nodes that reported,
  and the \<open>k\<close> greatest reports as a list in ascending order; a report outside the list is later taken to be the average
  of those outside. A list iterator is a position, the end being the length. The reward of an admission comes from the
  edge wrapper through its virtual \<open>constCustomFunc\<close> and is an argument here; \<open>Covered_Manager\<close> passes that of \<open>Weight_Tuner\<close>.
\<close>

type_synonym reward_func = "u32 \<Rightarrow> bool \<Rightarrow> u32 \<Rightarrow> u32 exec"

record aggregated_uncached_popularity =
  agg_key :: key
  agg_object_size :: u32
  sum_local_uncached_popularity :: u32
  topk_edgeidx_local_uncached_popularity_pairs :: "(u32 \<times> u32) list"
  agg_bitmap :: "bool list"
  exist_edgecnt :: u32

abbreviation topk :: "aggregated_uncached_popularity \<Rightarrow> (u32 \<times> u32) list" where
  "topk \<equiv> topk_edgeidx_local_uncached_popularity_pairs"

definition AggregatedUncachedPopularity_default :: aggregated_uncached_popularity where
  "AggregatedUncachedPopularity_default = \<lparr>agg_key = Key [], agg_object_size = 0, sum_local_uncached_popularity = 0,
     topk_edgeidx_local_uncached_popularity_pairs = [], agg_bitmap = [], exist_edgecnt = 0\<rparr>"

definition AggregatedUncachedPopularity_new :: "key \<Rightarrow> u32 \<Rightarrow> aggregated_uncached_popularity" where
  "AggregatedUncachedPopularity_new key edge_cnt = \<lparr>agg_key = key, agg_object_size = 0, sum_local_uncached_popularity = 0,
     topk_edgeidx_local_uncached_popularity_pairs = [], agg_bitmap = replicate (unat edge_cnt) False, exist_edgecnt = 0\<rparr>"

definition AggregatedUncachedPopularity_getTopkListLength :: "aggregated_uncached_popularity \<Rightarrow> u32" where
  "AggregatedUncachedPopularity_getTopkListLength p = word_of_nat (length (topk p))"

definition AggregatedUncachedPopularity_hasLocalUncachedPopularity :: "u32 \<Rightarrow> aggregated_uncached_popularity \<Rightarrow> bool exec" where
  "AggregatedUncachedPopularity_hasLocalUncachedPopularity source_edge_idx p =
     assertE (unat source_edge_idx < length (agg_bitmap p)) (Inr (agg_bitmap p ! unat source_edge_idx))"

section \<open>The list of greatest reports\<close>

definition AggregatedUncachedPopularity_getTopkListIterForEdgeIdx :: "u32 \<Rightarrow> aggregated_uncached_popularity \<Rightarrow> nat" where
  "AggregatedUncachedPopularity_getTopkListIterForEdgeIdx source_edge_idx p =
     length (takeWhile (\<lambda>x. fst x \<noteq> source_edge_idx) (topk p))"

definition erase_report :: "nat \<Rightarrow> aggregated_uncached_popularity \<Rightarrow> aggregated_uncached_popularity" where
  "erase_report i p = p\<lparr>topk_edgeidx_local_uncached_popularity_pairs := take i (topk p) @ drop (Suc i) (topk p)\<rparr>"

definition AggregatedUncachedPopularity_getLocalUncachedPopularityForExistingEdgeIdx ::
    "u32 \<Rightarrow> aggregated_uncached_popularity \<Rightarrow> u32 exec" where
  "AggregatedUncachedPopularity_getLocalUncachedPopularityForExistingEdgeIdx source_edge_idx p =
     bindE (nthE (agg_bitmap p) (unat source_edge_idx)) (\<lambda>b. assertE b (
     let i = AggregatedUncachedPopularity_getTopkListIterForEdgeIdx source_edge_idx p
     in if i \<noteq> length (topk p) then Inr (snd (topk p ! i))
        else let sum_topk = foldl (\<lambda>acc x. f32_add acc (snd x)) 0 (topk p);
                 topk_edgecnt = word_of_nat (length (topk p))
             in assertE (fval_le (f32_val sum_topk) (f32_val (sum_local_uncached_popularity p))) (
                assertE (topk_edgecnt < exist_edgecnt p) (
                Inr (f32_div (f32_minus (sum_local_uncached_popularity p) sum_topk) (f32_of_u32 (exist_edgecnt p - topk_edgecnt)))))))"

definition AggregatedUncachedPopularity_minusLocalUncachedPopularityFromSum ::
    "u32 \<Rightarrow> aggregated_uncached_popularity \<Rightarrow> aggregated_uncached_popularity" where
  "AggregatedUncachedPopularity_minusLocalUncachedPopularityFromSum popularity p =
     (let s = f32_minus (sum_local_uncached_popularity p) popularity
      in p\<lparr>sum_local_uncached_popularity := if fval_less (f32_val s) (Fin 0) then 0 else s\<rparr>)"

text \<open>In front of the first greater one.\<close>

definition insert_pair :: "u32 \<Rightarrow> u32 \<Rightarrow> (u32 \<times> u32) list \<Rightarrow> (u32 \<times> u32) list" where
  "insert_pair e popularity xs =
     (let smaller = takeWhile (\<lambda>x. \<not> fval_less (f32_val popularity) (f32_val (snd x))) xs
      in smaller @ (e, popularity) # drop (length smaller) xs)"

definition AggregatedUncachedPopularity_tryToInsertForNontopkEdgeIdx ::
    "u32 \<Rightarrow> u32 \<Rightarrow> u32 \<Rightarrow> aggregated_uncached_popularity \<Rightarrow> (aggregated_uncached_popularity \<times> bool) exec" where
  "AggregatedUncachedPopularity_tryToInsertForNontopkEdgeIdx source_edge_idx popularity topk_edgecnt p =
     assertE (AggregatedUncachedPopularity_getTopkListIterForEdgeIdx source_edge_idx p = length (topk p)) (
     bindE (if unat topk_edgecnt \<le> length (topk p)
            then definedE (topk p \<noteq> []) (
                 Inr (if fval_less (f32_val (snd (hd (topk p)))) (f32_val popularity) then (tl (topk p), True) else (topk p, False)))
            else Inr (topk p, True)) (\<lambda>(xs, need_insert).
     Inr (p\<lparr>topk_edgeidx_local_uncached_popularity_pairs := if need_insert then insert_pair source_edge_idx popularity xs else xs\<rparr>,
          need_insert)))"

definition AggregatedUncachedPopularity_updateTopkForExistingEdgeIdx ::
    "u32 \<Rightarrow> u32 \<Rightarrow> u32 \<Rightarrow> aggregated_uncached_popularity \<Rightarrow> (aggregated_uncached_popularity \<times> bool) exec" where
  "AggregatedUncachedPopularity_updateTopkForExistingEdgeIdx source_edge_idx popularity topk_edgecnt p =
     bindE (nthE (agg_bitmap p) (unat source_edge_idx)) (\<lambda>b. assertE b (
     let i = AggregatedUncachedPopularity_getTopkListIterForEdgeIdx source_edge_idx p;
         must_insert = (i \<noteq> length (topk p));
         p = (if must_insert then erase_report i p else p)
     in bindE (AggregatedUncachedPopularity_tryToInsertForNontopkEdgeIdx source_edge_idx popularity topk_edgecnt p) (\<lambda>(p, is_insert).
        assertE (must_insert \<longrightarrow> is_insert) (Inr (p, is_insert)))))"

definition AggregatedUncachedPopularity_clearTopkForExistingEdgeIdx ::
    "u32 \<Rightarrow> aggregated_uncached_popularity \<Rightarrow> aggregated_uncached_popularity exec" where
  "AggregatedUncachedPopularity_clearTopkForExistingEdgeIdx source_edge_idx p =
     bindE (nthE (agg_bitmap p) (unat source_edge_idx)) (\<lambda>b. assertE b (
     let i = AggregatedUncachedPopularity_getTopkListIterForEdgeIdx source_edge_idx p
     in Inr (if i \<noteq> length (topk p) then erase_report i p else p)))"

section \<open>Reports and removals\<close>

definition AggregatedUncachedPopularity_update ::
    "u32 \<Rightarrow> u32 \<Rightarrow> u32 \<Rightarrow> u32 \<Rightarrow> aggregated_uncached_popularity \<Rightarrow> aggregated_uncached_popularity exec" where
  "AggregatedUncachedPopularity_update source_edge_idx popularity topk_edgecnt obj_size p =
     assertE (unat source_edge_idx < length (agg_bitmap p)) (
     bindE (if \<not> agg_bitmap p ! unat source_edge_idx
            then bindE (Util_popularityAdd (sum_local_uncached_popularity p) popularity) (\<lambda>s.
                 bindE (AggregatedUncachedPopularity_tryToInsertForNontopkEdgeIdx source_edge_idx popularity topk_edgecnt
                          (p\<lparr>sum_local_uncached_popularity := s\<rparr>)) (\<lambda>(p, is_insert).
                 Inr (p\<lparr>agg_bitmap := (agg_bitmap p)[unat source_edge_idx := True], exist_edgecnt := exist_edgecnt p + 1\<rparr>)))
            else bindE (AggregatedUncachedPopularity_getLocalUncachedPopularityForExistingEdgeIdx source_edge_idx p) (\<lambda>original.
                 bindE (Util_popularityAdd (sum_local_uncached_popularity p) popularity) (\<lambda>s.
                 bindE (AggregatedUncachedPopularity_updateTopkForExistingEdgeIdx source_edge_idx popularity topk_edgecnt
                          (AggregatedUncachedPopularity_minusLocalUncachedPopularityFromSum original (p\<lparr>sum_local_uncached_popularity := s\<rparr>)))
                   (\<lambda>(p, is_insert). Inr p)))) (\<lambda>p.
     Inr (p\<lparr>agg_object_size := obj_size\<rparr>)))"

text \<open>The results: whether no report is left, and whether one was removed.\<close>

definition AggregatedUncachedPopularity_clear ::
    "u32 \<Rightarrow> aggregated_uncached_popularity \<Rightarrow> (aggregated_uncached_popularity \<times> bool \<times> bool) exec" where
  "AggregatedUncachedPopularity_clear source_edge_idx p =
     assertE (unat source_edge_idx < length (agg_bitmap p)) (
     if agg_bitmap p ! unat source_edge_idx
     then bindE (AggregatedUncachedPopularity_getLocalUncachedPopularityForExistingEdgeIdx source_edge_idx p) (\<lambda>original.
          bindE (AggregatedUncachedPopularity_clearTopkForExistingEdgeIdx source_edge_idx
                   (AggregatedUncachedPopularity_minusLocalUncachedPopularityFromSum original p)) (\<lambda>p.
          assertE (1 \<le> exist_edgecnt p) (
          let p = p\<lparr>agg_bitmap := (agg_bitmap p)[unat source_edge_idx := False], exist_edgecnt := exist_edgecnt p - 1\<rparr>
          in Inr (p, exist_edgecnt p = 0, True))))
     else Inr (p, exist_edgecnt p = 0, False))"

fun clear_placement_loop :: "edgeset \<Rightarrow> aggregated_uncached_popularity \<Rightarrow> aggregated_uncached_popularity exec" where
  "clear_placement_loop [] p = Inr p"
| "clear_placement_loop (e # es) p =
     assertE (unat e < length (agg_bitmap p)) (
     bindE (AggregatedUncachedPopularity_clear e p) (\<lambda>(p, _). clear_placement_loop es p))"

definition AggregatedUncachedPopularity_clearForPlacement ::
    "edgeset \<Rightarrow> aggregated_uncached_popularity \<Rightarrow> (aggregated_uncached_popularity \<times> bool) exec" where
  "AggregatedUncachedPopularity_clearForPlacement placement_edgeset p =
     bindE (clear_placement_loop placement_edgeset p) (\<lambda>p. Inr (p, exist_edgecnt p = 0))"

section \<open>Admission benefits\<close>

fun topi_loop :: "(u32 \<times> u32) list \<Rightarrow> u32 \<Rightarrow> edgeset \<Rightarrow> (u32 \<times> edgeset) exec" where
  "topi_loop [] s es = Inr (s, es)"
| "topi_loop ((e, popularity) # xs) s es =
     bindE (Util_popularityAdd s popularity) (\<lambda>s. topi_loop xs s (fst (Edgeset_insert e es)))"

definition AggregatedUncachedPopularity_getTopiLocalUncachedPopularitySum ::
    "u32 \<Rightarrow> aggregated_uncached_popularity \<Rightarrow> (u32 \<times> edgeset) exec" where
  "AggregatedUncachedPopularity_getTopiLocalUncachedPopularitySum topicnt p =
     (let topk_list_length = word_of_nat (length (topk p)) :: u32
      in assertE (topicnt \<le> topk_list_length) (topi_loop (drop (unat (topk_list_length - topicnt)) (topk p)) 0 []))"

definition AggregatedUncachedPopularity_calcAdmissionBenefit ::
    "reward_func \<Rightarrow> u32 \<Rightarrow> bool \<Rightarrow> aggregated_uncached_popularity \<Rightarrow> (u32 \<times> edgeset) exec" where
  "AggregatedUncachedPopularity_calcAdmissionBenefit reward topicnt is_global_cached p =
     bindE (AggregatedUncachedPopularity_getTopiLocalUncachedPopularitySum topicnt p) (\<lambda>(topi, placement_edgeset).
     exit_ifE (\<not> Util_isApproxLargerEqual (sum_local_uncached_popularity p) topi) (
     bindE (Util_popularityNonegMinus (sum_local_uncached_popularity p) topi) (\<lambda>sum_minus_topi.
     bindE (reward topi is_global_cached sum_minus_topi) (\<lambda>benefit. Inr (benefit, placement_edgeset)))))"

definition AggregatedUncachedPopularity_calcMaxAdmissionBenefit ::
    "reward_func \<Rightarrow> bool \<Rightarrow> aggregated_uncached_popularity \<Rightarrow> u32 exec" where
  "AggregatedUncachedPopularity_calcMaxAdmissionBenefit reward is_global_cached p =
     bindE (AggregatedUncachedPopularity_calcAdmissionBenefit reward (word_of_nat (length (topk p))) is_global_cached p) (\<lambda>(b, _). Inr b)"

definition AggregatedUncachedPopularity_getSizeForCapacity :: "aggregated_uncached_popularity \<Rightarrow> u64" where
  "AggregatedUncachedPopularity_getSizeForCapacity p =
     ucast (Key_getKeyLength (agg_key p)) + 4 + 4 + word_of_nat (length (topk p)) * 8
     + ((word_of_nat (length (agg_bitmap p)) - 1) div 8 + 1) + 4"

section \<open>Snapshots\<close>

definition dump_pop_pair :: "u32 \<times> u32 \<Rightarrow> u8 list \<Rightarrow> u8 list exec" where
  "dump_pop_pair x out = Inr (fs_write (u32_mem (snd x)) (fs_write (u32_mem (fst x)) out))"

definition load_pop_pair :: "fstream \<Rightarrow> ((u32 \<times> u32) \<times> fstream) exec" where
  "load_pop_pair fs = (let (e, fs) = fs_read [0, 0, 0, 0] fs; (b, fs) = fs_read [0, 0, 0, 0] fs in Inr ((mem_u32 e, mem_u32 b), fs))"

definition dump_bit :: "bool \<Rightarrow> u8 list \<Rightarrow> u8 list exec" where
  "dump_bit b out = Inr (fs_write (bool_mem b) out)"

definition load_bit :: "fstream \<Rightarrow> (bool \<times> fstream) exec" where
  "load_bit fs = (let (b, fs) = fs_read [0] fs in Inr (mem_bool b, fs))"

definition AggregatedUncachedPopularity_dumpAggregatedUncachedPopularity ::
    "aggregated_uncached_popularity \<Rightarrow> u8 list \<Rightarrow> u8 list exec" where
  "AggregatedUncachedPopularity_dumpAggregatedUncachedPopularity p out =
     bindE (Key_serialize_fs (agg_key p) out) (\<lambda>(out, _).
     let out = fs_write (u32_mem (agg_object_size p)) out;
         out = fs_write (u32_mem (sum_local_uncached_popularity p)) out
     in bindE (dump_counted dump_pop_pair (topk p) out) (\<lambda>out. dump_counted dump_bit (agg_bitmap p) out))"

definition AggregatedUncachedPopularity_loadAggregatedUncachedPopularity ::
    "aggregated_uncached_popularity \<Rightarrow> fstream \<Rightarrow> (aggregated_uncached_popularity \<times> fstream) exec" where
  "AggregatedUncachedPopularity_loadAggregatedUncachedPopularity this fs =
     bindE (Key_deserialize_fs (agg_key this) fs) (\<lambda>(key, fs, _).
     let (n, fs) = fs_read (u32_mem (agg_object_size this)) fs;
         (s, fs) = fs_read (u32_mem (sum_local_uncached_popularity this)) fs
     in bindE (load_counted load_pop_pair fs) (\<lambda>(xs, fs).
        bindE (load_counted load_bit fs) (\<lambda>(bits, fs).
        Inr (\<lparr>agg_key = key, agg_object_size = mem_u32 n, sum_local_uncached_popularity = mem_u32 s,
               topk_edgeidx_local_uncached_popularity_pairs = xs, agg_bitmap = bits,
               exist_edgecnt = word_of_nat (length (filter id bits))\<rparr>, fs))))"

end
