(* ===== verification/Aggregated_Facts.thy ===== *)
theory Aggregated_Facts
  imports Aggregated_Popularity
begin

text \<open>
  Invariant of \<open>AggregatedUncachedPopularity\<close> and what its operations do to the bitmap and to the list of greatest reports.
\<close>

section \<open>Ordered lists of reports\<close>

definition rank :: "u32 \<times> u32 \<Rightarrow> int" where
  "rank x = f32_scaled (snd x)"

lemma rank_Pair [simp]: "rank (e, x) = f32_scaled x"
  by (simp add: rank_def)

lemma fval_less_finite: "f32_finite a \<Longrightarrow> f32_finite b \<Longrightarrow> fval_less (f32_val a) (f32_val b) \<longleftrightarrow> f32_scaled a < f32_scaled b"
  by (simp add: f32_finite_val fval_less_def)

abbreviation all_finite :: "(u32 \<times> u32) list \<Rightarrow> bool" where
  "all_finite xs \<equiv> (\<forall>x \<in> set xs. f32_finite (snd x))"

lemma takeWhile_eq_length_iff: "length (takeWhile P xs) = length xs \<longleftrightarrow> (\<forall>x \<in> set xs. P x)"
  by (metis takeWhile_eq_all_conv takeWhile_eq_take take_all_iff le_refl length_takeWhile_le)

lemma insert_pair_alt:
  "insert_pair e x xs = takeWhile (\<lambda>y. \<not> fval_less (f32_val x) (f32_val (snd y))) xs
     @ (e, x) # dropWhile (\<lambda>y. \<not> fval_less (f32_val x) (f32_val (snd y))) xs"
  by (simp add: insert_pair_def Let_def dropWhile_eq_drop)

lemma set_insert_pair [simp]: "set (insert_pair e x xs) = insert (e, x) (set xs)"
proof -
  have "set (takeWhile P xs) \<union> set (dropWhile P xs) = set xs" for P by (metis set_append takeWhile_dropWhile_id)
  then show ?thesis by (auto simp: insert_pair_alt)
qed

lemma length_insert_pair [simp]: "length (insert_pair e x xs) = Suc (length xs)"
proof -
  have "length (takeWhile P xs) + length (dropWhile P xs) = length xs" for P by (metis length_append takeWhile_dropWhile_id)
  then show ?thesis by (simp add: insert_pair_alt)
qed

lemma distinct_insert_pair [simp]: "distinct (map fst (insert_pair e x xs)) \<longleftrightarrow> e \<notin> fst ` set xs \<and> distinct (map fst xs)"
proof -
  have "mset (map fst (insert_pair e x xs)) = mset (e # map fst xs)"
    unfolding insert_pair_alt by (metis (no_types, lifting) fst_conv list.simps(9) map_append mset.simps(2) mset_append takeWhile_dropWhile_id union_mset_add_mset_right)
  then have "distinct (map fst (insert_pair e x xs)) \<longleftrightarrow> distinct (e # map fst xs)" by (rule mset_eq_imp_distinct_iff)
  then show ?thesis by simp
qed

lemma rank_insert_pair:
  assumes "f32_finite x" and "all_finite xs" and "sorted (map rank xs)"
  shows "map rank (insert_pair e x xs) = insort (f32_scaled x) (map rank xs)"
  using assms(2,3)
proof (induction xs)
  case Nil
  then show ?case by (simp add: insert_pair_alt rank_def)
next
  case (Cons y ys)
  have "fval_less (f32_val x) (f32_val (snd y)) \<longleftrightarrow> f32_scaled x < rank y"
    using assms(1) Cons.prems by (simp add: fval_less_finite rank_def)
  moreover have "insort (f32_scaled x) (map rank ys) = f32_scaled x # map rank ys" if "f32_scaled x = rank y"
    using Cons.prems that by (intro insort_is_Cons) auto
  ultimately show ?case using Cons by (auto simp: insert_pair_alt)
qed

lemma drop_insort:
  assumes "sorted V" and "m < length V"
  shows "drop (Suc m) (insort x V) = (if x \<le> V ! m then drop m V else insort x (drop (Suc m) V))"
  using assms
proof (induction V arbitrary: m)
  case Nil
  then show ?case by simp
next
  case (Cons v vs)
  show ?case
  proof (cases m)
    case 0
    then show ?thesis by simp
  next
    case (Suc n)
    then have n: "n < length vs" "v \<le> vs ! n" using Cons.prems by auto
    show ?thesis
    proof (cases "x \<le> v")
      case True
      then show ?thesis using n Suc by simp
    next
      case False
      then show ?thesis using n Suc Cons by simp
    qed
  qed
qed

section \<open>Positions\<close>

lemma iter_end_iff: "AggregatedUncachedPopularity_getTopkListIterForEdgeIdx e p = length (topk p) \<longleftrightarrow> e \<notin> fst ` set (topk p)"
  by (auto simp: AggregatedUncachedPopularity_getTopkListIterForEdgeIdx_def takeWhile_eq_length_iff)

lemma erase_at_iter:
  assumes "distinct (map fst xs)"
  shows "take (length (takeWhile (\<lambda>x. fst x \<noteq> e) xs)) xs @ drop (Suc (length (takeWhile (\<lambda>x. fst x \<noteq> e) xs))) xs
    = filter (\<lambda>x. fst x \<noteq> e) xs"
  using assms
proof (induction xs)
  case (Cons x xs)
  have "filter (\<lambda>y. fst y \<noteq> fst x) xs = xs" using Cons.prems by (auto simp: filter_id_conv intro: rev_image_eqI)
  then show ?case using Cons by auto
qed simp

definition without :: "u32 \<Rightarrow> (u32 \<times> u32) list \<Rightarrow> (u32 \<times> u32) list" where
  "without e xs = filter (\<lambda>x. fst x \<noteq> e) xs"

lemma without_simps [simp]:
  "set (without e xs) = {x \<in> set xs. fst x \<noteq> e}" "distinct (map fst xs) \<Longrightarrow> distinct (map fst (without e xs))"
  "sorted (map rank xs) \<Longrightarrow> sorted (map rank (without e xs))" "length (without e xs) \<le> length xs"
  by (simp_all add: without_def distinct_map_filter sorted_filter)

lemma without_absent: "e \<notin> fst ` set xs \<Longrightarrow> without e xs = xs"
  by (auto simp: without_def filter_id_conv)

lemma length_without: "e \<in> fst ` set xs \<Longrightarrow> length (without e xs) < length xs"
  by (auto simp: without_def intro!: length_filter_less)

lemma erase_report_iter:
  assumes "distinct (map fst (topk p))"
  shows "erase_report (AggregatedUncachedPopularity_getTopkListIterForEdgeIdx e p) p
    = p\<lparr>topk_edgeidx_local_uncached_popularity_pairs := without e (topk p)\<rparr>"
  using erase_at_iter [OF assms, of e] by (simp add: erase_report_def AggregatedUncachedPopularity_getTopkListIterForEdgeIdx_def without_def)

section \<open>Bitmaps\<close>

abbreviation bits :: "bool list \<Rightarrow> nat" where
  "bits bs \<equiv> length (filter id bs)"

lemma bits_set: "i < length bs \<Longrightarrow> \<not> bs ! i \<Longrightarrow> bits (bs[i := True]) = Suc (bits bs)"
  by (induction bs arbitrary: i) (auto split: nat.splits)

lemma bits_clear: "i < length bs \<Longrightarrow> bs ! i \<Longrightarrow> Suc (bits (bs[i := False])) = bits bs"
  by (induction bs arbitrary: i) (auto split: nat.splits)

lemma bits_pos: "i < length bs \<Longrightarrow> bs ! i \<Longrightarrow> 0 < bits bs"
  using bits_clear by fastforce

section \<open>Invariant\<close>

definition agg_ok :: "u32 \<Rightarrow> aggregated_uncached_popularity \<Rightarrow> bool" where
  "agg_ok k p \<longleftrightarrow> length (agg_bitmap p) < 2 ^ 32 \<and> unat (exist_edgecnt p) = bits (agg_bitmap p)
     \<and> distinct (map fst (topk p)) \<and> all_finite (topk p) \<and> sorted (map rank (topk p)) \<and> length (topk p) \<le> unat k
     \<and> (\<forall>x \<in> set (topk p). unat (fst x) < length (agg_bitmap p) \<and> agg_bitmap p ! unat (fst x))"

lemma agg_ok_new: "agg_ok k (AggregatedUncachedPopularity_new key n)"
  using unat_less_32 [of n] by (simp add: agg_ok_def AggregatedUncachedPopularity_new_def)

text \<open>Inserting a report: the list grows, or its least report gives way to a greater one.\<close>

lemma tryToInsert_returns:
  assumes "AggregatedUncachedPopularity_tryToInsertForNontopkEdgeIdx e x k p = Inr (q, ins)"
  obtains xs where "e \<notin> fst ` set (topk p)"
    "q = p\<lparr>topk_edgeidx_local_uncached_popularity_pairs := if ins then insert_pair e x xs else topk p\<rparr>"
    "xs = (if unat k \<le> length (topk p) then tl (topk p) else topk p)"
    "ins \<longleftrightarrow> length (topk p) < unat k \<or> fval_less (f32_val (snd (hd (topk p)))) (f32_val x)"
    "unat k \<le> length (topk p) \<longrightarrow> topk p \<noteq> []"
  using assms
  by (auto simp: AggregatedUncachedPopularity_tryToInsertForNontopkEdgeIdx_def iter_end_iff assertE_eq_Inr bindE_eq_Inr
      definedE_eq_Inr not_le split: if_splits)

lemma set_tl: "set (tl xs) \<subseteq> set xs"
  by (cases xs) auto

lemma tryToInsert_ok:
  assumes "AggregatedUncachedPopularity_tryToInsertForNontopkEdgeIdx e x k p = Inr (q, ins)" and "f32_finite x"
    and "agg_ok k p" and "unat e < length (agg_bitmap p)"
  shows "distinct (map fst (topk q))" and "all_finite (topk q)" and "sorted (map rank (topk q))" and "length (topk q) \<le> unat k"
    and "set (topk q) \<subseteq> insert (e, x) (set (topk p))"
    and "q = p\<lparr>topk_edgeidx_local_uncached_popularity_pairs := topk q\<rparr>"
    and "ins \<longleftrightarrow> (e, x) \<in> set (topk q)"
proof -
  from assms(1) obtain xs where e: "e \<notin> fst ` set (topk p)"
    and q: "q = p\<lparr>topk_edgeidx_local_uncached_popularity_pairs := if ins then insert_pair e x xs else topk p\<rparr>"
    and xs: "xs = (if unat k \<le> length (topk p) then tl (topk p) else topk p)"
    and "ins \<longleftrightarrow> length (topk p) < unat k \<or> fval_less (f32_val (snd (hd (topk p)))) (f32_val x)"
    and full: "unat k \<le> length (topk p) \<longrightarrow> topk p \<noteq> []"
    by (rule tryToInsert_returns)
  have p: "distinct (map fst (topk p))" "all_finite (topk p)" "sorted (map rank (topk p))" "length (topk p) \<le> unat k"
    using assms(3) by (simp_all add: agg_ok_def)
  have sub: "set xs \<subseteq> set (topk p)" using xs set_tl [of "topk p"] by auto
  have xs_ok: "distinct (map fst xs)" "sorted (map rank xs)"
    using xs p by (auto simp: map_tl distinct_tl sorted_tl)
  have len: "length xs < unat k"
  proof (cases "unat k \<le> length (topk p)")
    case True
    then show ?thesis using xs full p(4) by (cases "topk p") auto
  qed (use xs in simp)
  show "distinct (map fst (topk q))" using q p(1) xs_ok(1) e sub by auto
  show "all_finite (topk q)" using q p(2) assms(2) sub by auto
  have "all_finite xs" using p(2) sub by auto
  then have "map rank (insert_pair e x xs) = insort (f32_scaled x) (map rank xs)"
    using xs_ok(2) assms(2) by (intro rank_insert_pair)
  then show "sorted (map rank (topk q))" using q p(3) xs_ok(2) by (simp add: sorted_insort)
  show "length (topk q) \<le> unat k" using q p(4) len by auto
  show "set (topk q) \<subseteq> insert (e, x) (set (topk p))" using q sub by auto
  show "q = p\<lparr>topk_edgeidx_local_uncached_popularity_pairs := topk q\<rparr>" using q by simp
  show "ins \<longleftrightarrow> (e, x) \<in> set (topk q)" using q e by (auto intro: rev_image_eqI)
qed

definition marked :: "u32 \<Rightarrow> bool \<Rightarrow> aggregated_uncached_popularity \<Rightarrow> aggregated_uncached_popularity \<Rightarrow> bool" where
  "marked e b p q \<longleftrightarrow> agg_bitmap q = (agg_bitmap p)[unat e := b] \<and> agg_key q = agg_key p"

text \<open>The operations that touch only the sum.\<close>

lemma minusFromSum_simps [simp]:
  "topk (AggregatedUncachedPopularity_minusLocalUncachedPopularityFromSum x p) = topk p"
  "agg_bitmap (AggregatedUncachedPopularity_minusLocalUncachedPopularityFromSum x p) = agg_bitmap p"
  "exist_edgecnt (AggregatedUncachedPopularity_minusLocalUncachedPopularityFromSum x p) = exist_edgecnt p"
  "agg_key (AggregatedUncachedPopularity_minusLocalUncachedPopularityFromSum x p) = agg_key p"
  by (simp_all add: AggregatedUncachedPopularity_minusLocalUncachedPopularityFromSum_def Let_def)

lemma agg_ok_sum [simp]:
  "agg_ok k (AggregatedUncachedPopularity_minusLocalUncachedPopularityFromSum x p) \<longleftrightarrow> agg_ok k p"
  "agg_ok k (p\<lparr>sum_local_uncached_popularity := s\<rparr>) \<longleftrightarrow> agg_ok k p"
  "agg_ok k (p\<lparr>agg_object_size := n\<rparr>) \<longleftrightarrow> agg_ok k p"
  by (simp_all add: agg_ok_def)

lemma agg_ok_without: "agg_ok k p \<Longrightarrow> agg_ok k (p\<lparr>topk_edgeidx_local_uncached_popularity_pairs := without e (topk p)\<rparr>)"
  by (auto simp: agg_ok_def intro: le_trans [OF without_simps(4)])

lemma updateTopk_ok:
  assumes "AggregatedUncachedPopularity_updateTopkForExistingEdgeIdx e x k p = Inr (q, ins)" and "f32_finite x" and "agg_ok k p"
  shows "agg_ok k q" and "q = p\<lparr>topk_edgeidx_local_uncached_popularity_pairs := topk q\<rparr>"
    and "set (topk q) \<subseteq> insert (e, x) (set (topk p))" and "e \<in> fst ` set (topk p) \<longrightarrow> (e, x) \<in> set (topk q)"
proof -
  let ?i = "AggregatedUncachedPopularity_getTopkListIterForEdgeIdx e p"
  let ?p = "if ?i \<noteq> length (topk p) then erase_report ?i p else p"
  have d: "distinct (map fst (topk p))" using assms(3) by (simp add: agg_ok_def)
  have p: "?p = p\<lparr>topk_edgeidx_local_uncached_popularity_pairs := without e (topk p)\<rparr>"
  proof (cases "e \<in> fst ` set (topk p)")
    case True
    then show ?thesis by (simp only: iter_end_iff erase_report_iter [OF d] simp_thms if_True)
  next
    case False
    then show ?thesis by (simp add: iter_end_iff [of e p] without_absent)
  qed
  have ok: "agg_ok k ?p" unfolding p using agg_ok_without [OF assms(3)] by simp
  have r: "unat e < length (agg_bitmap p)" "agg_bitmap p ! unat e"
    and t: "AggregatedUncachedPopularity_tryToInsertForNontopkEdgeIdx e x k ?p = Inr (q, ins)"
    and m: "?i \<noteq> length (topk p) \<longrightarrow> ins"
    using assms(1) by (auto simp: AggregatedUncachedPopularity_updateTopkForExistingEdgeIdx_def bindE_eq_Inr nthE_eq_Inr assertE_eq_Inr Let_def)
  have "unat e < length (agg_bitmap ?p)" unfolding p using r by simp
  note q = tryToInsert_ok [OF t assms(2) ok this]
  show eq: "q = p\<lparr>topk_edgeidx_local_uncached_popularity_pairs := topk q\<rparr>" using q(6) unfolding p by simp
  show sub: "set (topk q) \<subseteq> insert (e, x) (set (topk p))" using q(5) unfolding p by auto
  show "e \<in> fst ` set (topk p) \<longrightarrow> (e, x) \<in> set (topk q)" using m q(7) by (simp add: iter_end_iff)
  have "agg_bitmap q = agg_bitmap p" "exist_edgecnt q = exist_edgecnt p" by (subst eq, simp)+
  then show "agg_ok k q" using q(1-4) sub r assms(3) by (auto simp: agg_ok_def)
qed

text \<open>A report marks its node and nothing else, and keeps the invariant.\<close>

lemma update_ok:
  assumes "AggregatedUncachedPopularity_update e x k n p = Inr q" and "agg_ok k p"
  shows "agg_ok k q" and "marked e True p q" and "unat e < length (agg_bitmap p)" and "f32_finite x"
    and "set (topk q) \<subseteq> insert (e, x) (set (topk p))"
proof -
  have e: "unat e < length (agg_bitmap p)" using assms(1) by (auto simp: AggregatedUncachedPopularity_update_def assertE_eq_Inr)
  have "agg_ok k q \<and> marked e True p q \<and> f32_finite x \<and> set (topk q) \<subseteq> insert (e, x) (set (topk p))"
  proof (cases "agg_bitmap p ! unat e")
    case False
    from assms(1) False obtain s q0 ins where add: "Util_popularityAdd (sum_local_uncached_popularity p) x = Inr s"
      and t: "AggregatedUncachedPopularity_tryToInsertForNontopkEdgeIdx e x k (p\<lparr>sum_local_uncached_popularity := s\<rparr>) = Inr (q0, ins)"
      and q: "q = q0\<lparr>agg_bitmap := (agg_bitmap q0)[unat e := True], exist_edgecnt := exist_edgecnt q0 + 1, agg_object_size := n\<rparr>"
      by (auto simp: AggregatedUncachedPopularity_update_def bindE_eq_Inr assertE_eq_Inr)
    have x: "f32_finite x" using add by (simp add: popularityAdd_eq_Inr)
    have ok: "agg_ok k (p\<lparr>sum_local_uncached_popularity := s\<rparr>)" using assms(2) by simp
    have "unat e < length (agg_bitmap (p\<lparr>sum_local_uncached_popularity := s\<rparr>))" using e by simp
    note o = tryToInsert_ok [OF t x ok this]
    have eq: "agg_bitmap q0 = agg_bitmap p" "exist_edgecnt q0 = exist_edgecnt p" "agg_key q0 = agg_key p"
      using arg_cong [OF o(6), of agg_bitmap] arg_cong [OF o(6), of exist_edgecnt] arg_cong [OF o(6), of agg_key] by simp_all
    have b: "bits ((agg_bitmap p)[unat e := True]) = Suc (bits (agg_bitmap p))" using bits_set e False by blast
    have "bits ((agg_bitmap p)[unat e := True]) \<le> length (agg_bitmap p)" by (metis length_filter_le length_list_update)
    then have "unat (exist_edgecnt p + 1) = Suc (bits (agg_bitmap p))"
      using assms(2) b by (simp add: agg_ok_def unat_add_no_wrap)
    then have "agg_ok k q" using o(1-5) assms(2) e b eq by (auto simp: agg_ok_def q nth_list_update)
    then show ?thesis using x o(5) eq by (auto simp: marked_def q)
  next
    case True
    from assms(1) True obtain original s q0 ins where add: "Util_popularityAdd (sum_local_uncached_popularity p) x = Inr s"
      and t: "AggregatedUncachedPopularity_updateTopkForExistingEdgeIdx e x k
          (AggregatedUncachedPopularity_minusLocalUncachedPopularityFromSum original (p\<lparr>sum_local_uncached_popularity := s\<rparr>)) = Inr (q0, ins)"
      and q: "q = q0\<lparr>agg_object_size := n\<rparr>"
      by (auto simp: AggregatedUncachedPopularity_update_def bindE_eq_Inr assertE_eq_Inr)
    have x: "f32_finite x" using add by (simp add: popularityAdd_eq_Inr)
    note o = updateTopk_ok [OF t x, simplified, OF assms(2)]
    have eq: "agg_bitmap q0 = agg_bitmap p" "agg_key q0 = agg_key p"
      using arg_cong [OF o(2), of agg_bitmap] arg_cong [OF o(2), of agg_key] by simp_all
    have "(agg_bitmap p)[unat e := True] = agg_bitmap p" using True by (metis list_update_id)
    then show ?thesis using o(1,3) x eq by (auto simp: marked_def q)
  qed
  then show "agg_ok k q" "marked e True p q" "f32_finite x" "set (topk q) \<subseteq> insert (e, x) (set (topk p))" by auto
  show "unat e < length (agg_bitmap p)" by (rule e)
qed

lemma clearTopk_eq:
  assumes "unat e < length (agg_bitmap p)" and "agg_bitmap p ! unat e" and "distinct (map fst (topk p))"
  shows "AggregatedUncachedPopularity_clearTopkForExistingEdgeIdx e p
    = Inr (p\<lparr>topk_edgeidx_local_uncached_popularity_pairs := without e (topk p)\<rparr>)"
proof (cases "e \<in> fst ` set (topk p)")
  case True
  then show ?thesis
    using assms iter_end_iff [of e p] by (simp add: AggregatedUncachedPopularity_clearTopkForExistingEdgeIdx_def erase_report_iter Let_def)
next
  case False
  then show ?thesis
    using assms iter_end_iff [of e p] by (simp add: AggregatedUncachedPopularity_clearTopkForExistingEdgeIdx_def without_absent)
qed

text \<open>A removal clears the mark of its node and drops the node from the list.\<close>

lemma clear_report_ok:
  assumes "AggregatedUncachedPopularity_clear e p = Inr (q, is_empty, is_clear)" and "agg_ok k p"
  shows "agg_ok k q" and "marked e False p q" and "unat e < length (agg_bitmap p)" and "topk q = without e (topk p)"
    and "is_empty \<longleftrightarrow> bits (agg_bitmap q) = 0" and "is_clear \<longleftrightarrow> agg_bitmap p ! unat e"
proof -
  have e: "unat e < length (agg_bitmap p)" using assms(1) by (auto simp: AggregatedUncachedPopularity_clear_def assertE_eq_Inr)
  have d: "distinct (map fst (topk p))" using assms(2) by (simp add: agg_ok_def)
  have "agg_ok k q \<and> marked e False p q \<and> topk q = without e (topk p) \<and> (is_empty \<longleftrightarrow> exist_edgecnt q = 0)
      \<and> (is_clear \<longleftrightarrow> agg_bitmap p ! unat e)"
  proof (cases "agg_bitmap p ! unat e")
    case True
    define m where "m original = AggregatedUncachedPopularity_minusLocalUncachedPopularityFromSum original p" for original
    have cl: "AggregatedUncachedPopularity_clearTopkForExistingEdgeIdx e (m original)
        = Inr ((m original)\<lparr>topk_edgeidx_local_uncached_popularity_pairs := without e (topk p)\<rparr>)" for original
      using clearTopk_eq [of e "m original"] True e d by (simp add: m_def)
    have assms1: "\<exists>original. q = (m original)\<lparr>topk_edgeidx_local_uncached_popularity_pairs := without e (topk p),
          agg_bitmap := (agg_bitmap p)[unat e := False], exist_edgecnt := exist_edgecnt p - 1\<rparr>
        \<and> (is_empty \<longleftrightarrow> exist_edgecnt p - 1 = 0) \<and> is_clear \<and> 1 \<le> exist_edgecnt p"
      using assms(1) True
      by (auto simp: AggregatedUncachedPopularity_clear_def bindE_eq_Inr assertE_eq_Inr Let_def cl [unfolded m_def] m_def)
    then obtain original where q: "q = (m original)\<lparr>topk_edgeidx_local_uncached_popularity_pairs := without e (topk p),
          agg_bitmap := (agg_bitmap p)[unat e := False], exist_edgecnt := exist_edgecnt p - 1\<rparr>"
      and r: "is_empty \<longleftrightarrow> exist_edgecnt p - 1 = 0" "is_clear" "1 \<le> exist_edgecnt p" by blast
    have b: "Suc (bits ((agg_bitmap p)[unat e := False])) = bits (agg_bitmap p)" using bits_clear e True by blast
    have cnt: "unat (exist_edgecnt p - 1) = bits ((agg_bitmap p)[unat e := False])"
      using r(3) b assms(2) by (simp add: agg_ok_def unat_sub)
    have "(agg_bitmap p)[unat e := False] ! unat a" if "a \<noteq> e" "unat a < length (agg_bitmap p)" "agg_bitmap p ! unat a" for a
      using that by (metis nth_list_update_neq word_unat_eq_iff)
    then have "agg_ok k q" using agg_ok_without [OF assms(2), of e] cnt b by (auto simp: agg_ok_def q)
    then show ?thesis using r True by (simp add: q marked_def m_def)
  next
    case False
    then have q: "q = p" "is_empty \<longleftrightarrow> exist_edgecnt p = 0" "\<not> is_clear"
      using assms(1) e by (auto simp: AggregatedUncachedPopularity_clear_def)
    have "(agg_bitmap p)[unat e := False] = agg_bitmap p" using False by (metis list_update_id)
    moreover have "e \<notin> fst ` set (topk p)" using False assms(2) by (auto simp: agg_ok_def)
    then have "without e (topk p) = topk p" by (rule without_absent)
    ultimately show ?thesis using q False assms(2) by (simp add: marked_def)
  qed
  then show ok: "agg_ok k q" and "marked e False p q" and "topk q = without e (topk p)" and "is_clear \<longleftrightarrow> agg_bitmap p ! unat e"
    and "is_empty \<longleftrightarrow> bits (agg_bitmap q) = 0"
    by (auto simp: agg_ok_def unat_eq_zero)
  show "unat e < length (agg_bitmap p)" by (rule e)
qed

lemma clear_placement_loop_ok:
  assumes "clear_placement_loop es p = Inr q" and "agg_ok k p"
  shows "agg_ok k q \<and> agg_key q = agg_key p \<and> length (agg_bitmap q) = length (agg_bitmap p) \<and> length (topk q) \<le> length (topk p)
    \<and> (\<forall>e. unat e < length (agg_bitmap p) \<longrightarrow> (agg_bitmap q ! unat e \<longleftrightarrow> agg_bitmap p ! unat e \<and> e \<notin> set es))"
  using assms
proof (induction es arbitrary: p)
  case Nil
  then show ?case by simp
next
  case (Cons e es)
  from Cons.prems(1) obtain p' x y where c: "AggregatedUncachedPopularity_clear e p = Inr (p', x, y)"
    and l: "clear_placement_loop es p' = Inr q" by (auto simp: assertE_eq_Inr bindE_eq_Inr)
  note o = clear_report_ok [OF c Cons.prems(2)]
  have "agg_bitmap p' ! unat a \<longleftrightarrow> agg_bitmap p ! unat a \<and> a \<noteq> e" if "unat a < length (agg_bitmap p)" for a
    using o(2) that by (cases "a = e") (auto simp: marked_def nth_list_update word_unat_eq_iff)
  moreover have "length (topk p') \<le> length (topk p)" using o(4) without_simps(4) by simp
  ultimately show ?case using Cons.IH [OF l o(1)] o(2) by (auto simp: marked_def)
qed

section \<open>Sizes\<close>

definition agg_bytes :: "aggregated_uncached_popularity \<Rightarrow> nat" where
  "agg_bytes p = unat (Key_getKeyLength (agg_key p)) + 12 + 8 * length (topk p) + ((length (agg_bitmap p) - 1) div 8 + 1)"

lemma unat_bitmap_size:
  assumes "0 < n" and "n < 2 ^ 32"
  shows "unat ((word_of_nat n - 1) div 8 + 1 :: u64) = (n - 1) div 8 + 1"
proof -
  have n: "unat (word_of_nat n :: u64) = n" using assms by (simp add: unat_of_nat_small)
  then have "(1 :: u64) \<le> word_of_nat n" using assms by (simp add: word_le_nat_alt)
  then have "unat (word_of_nat n - 1 :: u64) = n - 1" using n by (simp add: unat_sub)
  then have d: "unat ((word_of_nat n - 1) div 8 :: u64) = (n - 1) div 8" by (simp add: unat_div)
  then have "unat ((word_of_nat n - 1) div 8 :: u64) + unat (1 :: u64) < 2 ^ LENGTH(64)" using assms by simp
  then show ?thesis using d unat_add_no_wrap [of "(word_of_nat n - 1) div 8 :: u64" 1] by simp
qed

lemma unat_getSizeForCapacity:
  assumes "agg_ok k p" and "agg_bitmap p \<noteq> []"
  shows "unat (AggregatedUncachedPopularity_getSizeForCapacity p) = agg_bytes p" and "agg_bytes p < 2 ^ 37"
proof -
  have len: "0 < length (agg_bitmap p)" "length (agg_bitmap p) < 2 ^ 32" "length (topk p) < 2 ^ 32"
    using assms unat_less_32 [of k] by (auto simp: agg_ok_def)
  have k: "unat (ucast (Key_getKeyLength (agg_key p)) :: u64) = unat (Key_getKeyLength (agg_key p))" by (rule unat_ucast_u64)
  have t: "unat (word_of_nat (length (topk p)) * 8 :: u64) = 8 * length (topk p)"
    using len by (simp add: unat_word_ariths unat_of_nat_small)
  show small: "agg_bytes p < 2 ^ 37" using len unat_less_32 [of "Key_getKeyLength (agg_key p)"] by (simp add: agg_bytes_def)
  have b: "(8 :: u64) * word_of_nat (length (topk p)) = word_of_nat (8 * length (topk p))" by simp
  have "AggregatedUncachedPopularity_getSizeForCapacity p = word_of_nat (agg_bytes p)"
    unfolding AggregatedUncachedPopularity_getSizeForCapacity_def agg_bytes_def
    using word_of_nat_eqI [OF k] word_of_nat_eqI [OF t] word_of_nat_eqI [OF unat_bitmap_size [OF len(1,2)]]
    by (simp only: of_nat_add) simp
  then show "unat (AggregatedUncachedPopularity_getSizeForCapacity p) = agg_bytes p"
    using small by (simp add: unat_of_nat_small)
qed

section \<open>The greatest reports\<close>

fun report_all :: "u32 \<Rightarrow> u32 \<Rightarrow> (u32 \<times> u32) list \<Rightarrow> aggregated_uncached_popularity \<Rightarrow> aggregated_uncached_popularity exec" where
  "report_all k n [] p = Inr p"
| "report_all k n ((e, x) # rs) p = bindE (AggregatedUncachedPopularity_update e x k n p) (\<lambda>p. report_all k n rs p)"

lemma report_all_snoc: "report_all k n (rs @ [(e, x)]) p = bindE (report_all k n rs p) (AggregatedUncachedPopularity_update e x k n)"
proof (induction k n rs p rule: report_all.induct)
  case (1 k n p)
  then show ?case by (cases "AggregatedUncachedPopularity_update e x k n p") auto
next
  case (2 k n e' x' rs p)
  then show ?case by (cases "AggregatedUncachedPopularity_update e' x' k n p") auto
qed

definition greatest :: "u32 \<Rightarrow> (u32 \<times> u32) list \<Rightarrow> aggregated_uncached_popularity \<Rightarrow> bool" where
  "greatest k rs p \<longleftrightarrow> map rank (topk p) = drop (length rs - unat k) (sort (map rank rs)) \<and> set (topk p) \<subseteq> set rs"

lemma sort_snoc: "sort (xs @ [x]) = insort x (sort xs)" for x :: int
  by (rule properties_for_sort) (simp_all add: sorted_insort)

lemma update_new_node:
  assumes "\<not> agg_bitmap p ! unat e" and "unat e < length (agg_bitmap p)" and "0 < k" and "agg_ok k p"
  shows "(\<exists>q. AggregatedUncachedPopularity_update e x k n p = Inr q) \<or> AggregatedUncachedPopularity_update e x k n p = Inl Exited"
proof -
  have "e \<notin> fst ` set (topk p)" using assms(1,4) by (auto simp: agg_ok_def)
  moreover have "unat k \<le> length (topk p) \<Longrightarrow> topk p \<noteq> []" using assms(3) by (auto simp: word_less_nat_alt)
  ultimately show ?thesis
    using assms(1,2) iter_end_iff [of e "p\<lparr>sum_local_uncached_popularity := s\<rparr>" for s]
    by (auto simp: AggregatedUncachedPopularity_update_def AggregatedUncachedPopularity_tryToInsertForNontopkEdgeIdx_def
        Util_popularityAdd_def Util_assertPopularity_def exit_ifE_def Let_def)
qed

lemma greatest_step:
  assumes "AggregatedUncachedPopularity_update e x k n p = Inr q" and "agg_ok k p" and "greatest k rs p" and "\<not> agg_bitmap p ! unat e"
  shows "greatest k (rs @ [(e, x)]) q"
proof -
  let ?V = "sort (map rank rs)"
  have e: "unat e < length (agg_bitmap p)" and x: "f32_finite x" using update_ok(3,4) [OF assms(1,2)] by auto
  from assms(1,4) obtain s q0 ins where
      t: "AggregatedUncachedPopularity_tryToInsertForNontopkEdgeIdx e x k (p\<lparr>sum_local_uncached_popularity := s\<rparr>) = Inr (q0, ins)"
      and q: "topk q = topk q0" by (auto simp: AggregatedUncachedPopularity_update_def bindE_eq_Inr assertE_eq_Inr)
  from t obtain xs where "e \<notin> fst ` set (topk (p\<lparr>sum_local_uncached_popularity := s\<rparr>))"
    and q0: "q0 = p\<lparr>sum_local_uncached_popularity := s\<rparr>\<lparr>topk_edgeidx_local_uncached_popularity_pairs :=
        if ins then insert_pair e x xs else topk (p\<lparr>sum_local_uncached_popularity := s\<rparr>)\<rparr>"
    and xs: "xs = (if unat k \<le> length (topk (p\<lparr>sum_local_uncached_popularity := s\<rparr>)) then tl (topk (p\<lparr>sum_local_uncached_popularity := s\<rparr>))
        else topk (p\<lparr>sum_local_uncached_popularity := s\<rparr>))"
    and ins: "ins \<longleftrightarrow> length (topk (p\<lparr>sum_local_uncached_popularity := s\<rparr>)) < unat k
        \<or> fval_less (f32_val (snd (hd (topk (p\<lparr>sum_local_uncached_popularity := s\<rparr>))))) (f32_val x)"
    and full: "unat k \<le> length (topk (p\<lparr>sum_local_uncached_popularity := s\<rparr>)) \<longrightarrow> topk (p\<lparr>sum_local_uncached_popularity := s\<rparr>) \<noteq> []"
    by (rule tryToInsert_returns)
  have p: "all_finite (topk p)" "sorted (map rank (topk p))" "length (topk p) \<le> unat k" using assms(2) by (simp_all add: agg_ok_def)
  have g: "map rank (topk p) = drop (length rs - unat k) ?V" "set (topk p) \<subseteq> set rs" using assms(3) by (simp_all add: greatest_def)
  have len: "length (topk p) = length rs - (length rs - unat k)" using arg_cong [OF g(1), of length] by simp
  have sub: "set xs \<subseteq> set (topk p)" using xs set_tl [of "topk p"] by auto
  have ins_xs: "map rank (insert_pair e x xs) = insort (f32_scaled x) (map rank xs)"
    using sub p xs x by (intro rank_insert_pair) (auto simp: map_tl sorted_tl)
  have sort: "sort (map rank (rs @ [(e, x)])) = insort (f32_scaled x) ?V" by (simp add: sort_snoc)
  have "map rank (topk q) = drop (length (rs @ [(e, x)]) - unat k) (insort (f32_scaled x) ?V)"
  proof (cases "unat k \<le> length (topk p)")
    case False
    then have "length rs < unat k" using len by linarith
    then show ?thesis using False g(1) ins ins_xs xs q q0 by simp
  next
    case True
    then have k: "unat k \<le> length rs" "topk p \<noteq> []" using len full by auto
    define m where "m = length rs - unat k"
    have m: "m < length ?V" "length (rs @ [(e, x)]) - unat k = Suc m" using k True len by (auto simp: m_def length_greater_0_conv [symmetric] simp del: length_greater_0_conv)
    have hd: "rank (hd (topk p)) = ?V ! m" using g(1) k(2) m(1) by (metis hd_drop_conv_nth hd_map m_def)
    have "fval_less (f32_val (snd (hd (topk p)))) (f32_val x) \<longleftrightarrow> ?V ! m < f32_scaled x"
      using p(1) k(2) x hd by (simp add: fval_less_finite rank_def)
    then have i: "ins \<longleftrightarrow> \<not> f32_scaled x \<le> ?V ! m" using ins True by auto
    have "map rank xs = drop (Suc m) ?V" using xs True g(1) by (simp add: map_tl m_def drop_Suc tl_drop)
    then show ?thesis
      using i m drop_insort [OF sorted_sort m(1), of "f32_scaled x"] q q0 ins_xs g(1) by (simp add: m_def)
  qed
  then show ?thesis using q q0 sub g(2) sort by (auto simp: greatest_def)
qed

lemma report_all_greatest:
  assumes "0 < k" and "distinct (map fst rs)" and "\<forall>r \<in> set rs. unat (fst r) < unat m"
  shows "(case report_all k n rs (AggregatedUncachedPopularity_new key m) of
      Inl a \<Rightarrow> a = Exited
    | Inr p \<Rightarrow> agg_ok k p \<and> greatest k rs p \<and> length (agg_bitmap p) = unat m
        \<and> (\<forall>e. unat e < unat m \<longrightarrow> (agg_bitmap p ! unat e \<longleftrightarrow> e \<in> fst ` set rs)))"
  using assms(2,3)
proof (induction rs rule: rev_induct)
  case Nil
  show ?case
    using agg_ok_new [of k key m] by (simp add: greatest_def AggregatedUncachedPopularity_new_def)
next
  case (snoc r rs)
  obtain e x where r: "r = (e, x)" by (cases r)
  show ?case
  proof (cases "report_all k n rs (AggregatedUncachedPopularity_new key m)")
    case (Inl a)
    then show ?thesis using snoc by (simp add: r report_all_snoc)
  next
    case (Inr p)
    have p: "agg_ok k p" "greatest k rs p" "length (agg_bitmap p) = unat m"
      "\<forall>e. unat e < unat m \<longrightarrow> (agg_bitmap p ! unat e \<longleftrightarrow> e \<in> fst ` set rs)"
      using snoc Inr by auto
    have e: "unat e < length (agg_bitmap p)" "\<not> agg_bitmap p ! unat e" using snoc.prems p(3,4) by (auto simp: r)
    show ?thesis
    proof (cases "AggregatedUncachedPopularity_update e x k n p")
      case (Inl a)
      then show ?thesis using update_new_node [OF e(2,1) assms(1) p(1), of x n] Inr by (auto simp: r report_all_snoc)
    next
      case up: (Inr q)
      note o = update_ok(1,2) [OF up p(1)]
      have "agg_bitmap q ! unat a \<longleftrightarrow> a = e \<or> agg_bitmap p ! unat a" if "unat a < unat m" for a
        using o(2) that p(3) by (cases "a = e") (auto simp: marked_def nth_list_update word_unat_eq_iff)
      then show ?thesis
        using Inr up o p greatest_step [OF up p(1,2) e(2)] by (auto simp: r report_all_snoc marked_def)
    qed
  qed
qed

text \<open>C29: The beacon's list holds the greatest reports. After reports from different edge nodes, its popularities are
  exactly the last \<open>k\<close> of the sorted reports, each with the node that reported it; the bitmap holds exactly the nodes that
  reported. The only other outcome is an exit on a popularity or a sum that is not a finite number.\<close>

theorem topk_list_greatest:
  assumes "0 < k" and "distinct (map fst rs)" and "\<forall>r \<in> set rs. unat (fst r) < unat m"
  shows "(case report_all k n rs (AggregatedUncachedPopularity_new key m) of
      Inl a \<Rightarrow> a = Exited
    | Inr p \<Rightarrow>
        map (\<lambda>x. f32_scaled (snd x)) (topk p) = drop (length rs - unat k) (sort (map (\<lambda>x. f32_scaled (snd x)) rs))
        \<and> set (topk p) \<subseteq> set rs \<and> unat (exist_edgecnt p) = length rs
        \<and> (\<forall>e. unat e < unat m \<longrightarrow> AggregatedUncachedPopularity_hasLocalUncachedPopularity e p = Inr (e \<in> fst ` set rs)))"
proof (cases "report_all k n rs (AggregatedUncachedPopularity_new key m)")
  case (Inl a)
  then show ?thesis using report_all_greatest [OF assms, of n key] by simp
next
  case (Inr p)
  then have p: "agg_ok k p" "greatest k rs p" "length (agg_bitmap p) = unat m"
      "\<forall>e. unat e < unat m \<longrightarrow> (agg_bitmap p ! unat e \<longleftrightarrow> e \<in> fst ` set rs)"
    using report_all_greatest [OF assms, of n key] by auto
  have "bits (agg_bitmap p) = card {i. i < length (agg_bitmap p) \<and> agg_bitmap p ! i}" by (simp add: length_filter_conv_card)
  also have "{i. i < length (agg_bitmap p) \<and> agg_bitmap p ! i} = unat ` fst ` set rs"
  proof -
    have "i \<in> unat ` fst ` set rs" if "i < length (agg_bitmap p)" "agg_bitmap p ! i" for i
    proof -
      have "unat (word_of_nat i :: u32) = i" using that(1) p(1) by (simp add: agg_ok_def unat_of_nat_small)
      then show ?thesis using that p(3,4) by (metis image_eqI)
    qed
    then show ?thesis using assms(3) p(3,4) by auto
  qed
  also have "card \<dots> = card (fst ` set rs)" by (rule card_image) (simp add: inj_on_def word_unat_eq_iff)
  also have "\<dots> = length rs" using assms(2) by (metis distinct_card length_map set_map)
  finally have "unat (exist_edgecnt p) = length rs" using p(1) by (simp add: agg_ok_def id_def)
  moreover have "rank = (\<lambda>x. f32_scaled (snd x))" by (simp add: rank_def fun_eq_iff)
  ultimately show ?thesis
    using Inr p by (simp add: greatest_def AggregatedUncachedPopularity_hasLocalUncachedPopularity_def)
qed

theorem topk_list_greatest_witness:
  "\<exists>p. report_all 2 100 [(0, 0x40000000), (3, 0x3F800000), (1, 0x40400000)] (AggregatedUncachedPopularity_new (Key []) 4) = Inr p
     \<and> topk p = [(0, 0x40000000), (1, 0x40400000)]
     \<and> map (\<lambda>x. f32_scaled (snd x)) (topk p)
         = drop (3 - unat (2 :: u32)) (sort (map (\<lambda>x. f32_scaled (snd x)) [(0 :: u32, 0x40000000), (3, 0x3F800000), (1, 0x40400000)]))
     \<and> unat (exist_edgecnt p) = 3"
proof -
  let ?rs = "[(0, 0x40000000), (3, 0x3F800000), (1, 0x40400000)] :: (u32 \<times> u32) list"
  have 1: "report_all 2 100 ?rs (AggregatedUncachedPopularity_new (Key []) 4)
      = Inr \<lparr>agg_key = Key [], agg_object_size = 100, sum_local_uncached_popularity = 0x40C00000,
          topk_edgeidx_local_uncached_popularity_pairs = [(0, 0x40000000), (1, 0x40400000)],
          agg_bitmap = [True, True, False, True], exist_edgecnt = 3\<rparr>" by code_simp
  have 2: "0 < (2 :: u32)" "distinct (map fst ?rs)" "\<forall>r \<in> set ?rs. unat (fst r) < unat (4 :: u32)" by simp_all
  show ?thesis using 1 topk_list_greatest [OF 2, of 100 "Key []"] by simp
qed

section \<open>Rounding\<close>

lemma bits_at_least:
  "distinct is \<Longrightarrow> \<forall>i \<in> set is. i < length bs \<and> bs ! i \<Longrightarrow> length is \<le> bits bs"
proof (induction "is" arbitrary: bs)
  case (Cons i "is")
  have "length is \<le> bits (bs[i := False])" using Cons.prems by (intro Cons.IH) (auto simp: nth_list_update)
  moreover have "Suc (bits (bs[i := False])) = bits bs" using Cons.prems by (intro bits_clear) simp_all
  ultimately show ?case by (simp add: id_def)
qed simp

text \<open>A node outside the list has not been counted in it.\<close>

lemma outside_counted:
  assumes "agg_ok k p" and "unat e < length (agg_bitmap p)" and "agg_bitmap p ! unat e" and "e \<notin> fst ` set (topk p)"
  shows "(word_of_nat (length (topk p)) :: u32) < exist_edgecnt p"
proof -
  let ?is = "unat e # map (\<lambda>x. unat (fst x)) (topk p)"
  have "inj (unat :: u32 \<Rightarrow> nat)" by (simp add: inj_def word_unat_eq_iff)
  moreover have "distinct (e # map fst (topk p))" using assms(1,4) by (simp add: agg_ok_def)
  ultimately have "distinct (map unat (e # map fst (topk p)))" unfolding distinct_map by (blast intro: inj_on_subset)
  then have "distinct ?is" by (simp add: comp_def)
  then have "length ?is \<le> bits (agg_bitmap p)" using assms(1-3) by (intro bits_at_least) (auto simp: agg_ok_def)
  then have "length (topk p) < unat (exist_edgecnt p)" using assms(1) by (simp add: agg_ok_def)
  then show ?thesis using unat_less_32 [of "exist_edgecnt p"] by (simp add: word_less_nat_alt unat_of_nat_small)
qed

definition list_sum :: "aggregated_uncached_popularity \<Rightarrow> u32" where
  "list_sum p = foldl (\<lambda>acc x. f32_add acc (snd x)) 0 (topk p)"

lemma getLocal_eq:
  assumes "agg_ok k p" and "unat e < length (agg_bitmap p)" and "agg_bitmap p ! unat e"
  shows "if e \<in> fst ` set (topk p) \<or> fval_le (f32_val (list_sum p)) (f32_val (sum_local_uncached_popularity p))
    then \<exists>x. AggregatedUncachedPopularity_getLocalUncachedPopularityForExistingEdgeIdx e p = Inr x
    else AggregatedUncachedPopularity_getLocalUncachedPopularityForExistingEdgeIdx e p = Inl AssertFailed"
proof (cases "e \<in> fst ` set (topk p)")
  case True
  then show ?thesis using assms iter_end_iff [of e p]
    by (simp add: AggregatedUncachedPopularity_getLocalUncachedPopularityForExistingEdgeIdx_def nthE_def)
next
  case False
  then show ?thesis using assms outside_counted [OF assms False] iter_end_iff [of e p]
    by (simp add: AggregatedUncachedPopularity_getLocalUncachedPopularityForExistingEdgeIdx_def nthE_def Let_def list_sum_def)
qed

text \<open>C31: A report or removal aborts exactly when rounding has made the list outweigh the sum. For a node that has reported,
  removing the report returns, without the node in the list and with its mark cleared, if the node is in the list or the
  sum of the list is at most the sum of all reports; otherwise the removal and every further report of the node fail an
  assertion. Sums are rounded at every step, so the second case occurs although no popularity is negative.\<close>

theorem popularity_rounding_aborts:
  assumes "agg_ok k p" and "unat e < length (agg_bitmap p)" and "agg_bitmap p ! unat e"
  shows "if e \<in> fst ` set (topk p) \<or> fval_le (f32_val (list_sum p)) (f32_val (sum_local_uncached_popularity p))
    then \<exists>q. AggregatedUncachedPopularity_clear e p = Inr (q, bits (agg_bitmap q) = 0, True)
      \<and> topk q = filter (\<lambda>x. fst x \<noteq> e) (topk p) \<and> agg_bitmap q = (agg_bitmap p)[unat e := False]
    else AggregatedUncachedPopularity_clear e p = Inl AssertFailed
      \<and> (\<forall>x k n. AggregatedUncachedPopularity_update e x k n p = Inl AssertFailed)"
proof (cases "e \<in> fst ` set (topk p) \<or> fval_le (f32_val (list_sum p)) (f32_val (sum_local_uncached_popularity p))")
  case True
  then obtain x where x: "AggregatedUncachedPopularity_getLocalUncachedPopularityForExistingEdgeIdx e p = Inr x"
    using getLocal_eq [OF assms] by auto
  have "exist_edgecnt p \<noteq> 0" using assms bits_pos [OF assms(2,3)] by (auto simp: agg_ok_def)
  then have "1 \<le> exist_edgecnt p" by (simp add: word_le_nat_alt unat_gt_0 Suc_le_eq)
  moreover have "AggregatedUncachedPopularity_clearTopkForExistingEdgeIdx e (AggregatedUncachedPopularity_minusLocalUncachedPopularityFromSum x p)
      = Inr ((AggregatedUncachedPopularity_minusLocalUncachedPopularityFromSum x p)
          \<lparr>topk_edgeidx_local_uncached_popularity_pairs := without e (topk p)\<rparr>)"
    using clearTopk_eq [of e "AggregatedUncachedPopularity_minusLocalUncachedPopularityFromSum x p"] assms by (simp add: agg_ok_def)
  ultimately obtain q c where q: "AggregatedUncachedPopularity_clear e p = Inr (q, c, True)"
    "topk q = without e (topk p)" "agg_bitmap q = (agg_bitmap p)[unat e := False]"
    using x assms(2,3) by (simp add: AggregatedUncachedPopularity_clear_def Let_def)
  then show ?thesis using True clear_report_ok(5) [OF q(1) assms(1)] by (auto simp: without_def)
next
  case False
  then have "AggregatedUncachedPopularity_getLocalUncachedPopularityForExistingEdgeIdx e p = Inl AssertFailed"
    using getLocal_eq [OF assms] by auto
  then show ?thesis using False assms(2,3) by (simp add: AggregatedUncachedPopularity_clear_def AggregatedUncachedPopularity_update_def)
qed

text \<open>Reports of \<open>1\<close>, \<open>2 ^ (- 25)\<close> and \<open>2 ^ (- 26)\<close> from three nodes, with a list of two, leave the sum at \<open>1\<close>; after the removal
  of the first node the sum is \<open>0\<close>, but the list still holds \<open>2 ^ (- 25)\<close>.\<close>

theorem popularity_rounding_aborts_witness:
  "\<exists>p q. report_all 2 100 [(0, 0x3F800000), (1, 0x33000000), (2, 0x32800000)] (AggregatedUncachedPopularity_new (Key [1]) 4) = Inr p
     \<and> AggregatedUncachedPopularity_clear 0 p = Inr (q, False, True) \<and> agg_ok 2 q
     \<and> AggregatedUncachedPopularity_clear 2 q = Inl AssertFailed
     \<and> (\<forall>x k n. AggregatedUncachedPopularity_update 2 x k n q = Inl AssertFailed)"
proof -
  let ?p = "\<lparr>agg_key = Key [1], agg_object_size = 100, sum_local_uncached_popularity = 0x3F800000,
          topk_edgeidx_local_uncached_popularity_pairs = [(1, 0x33000000), (0, 0x3F800000)],
          agg_bitmap = [True, True, True, False], exist_edgecnt = 3\<rparr>"
  let ?q = "\<lparr>agg_key = Key [1], agg_object_size = 100, sum_local_uncached_popularity = 0,
          topk_edgeidx_local_uncached_popularity_pairs = [(1, 0x33000000)],
          agg_bitmap = [False, True, True, False], exist_edgecnt = 2\<rparr>"
  have 1: "report_all 2 100 [(0, 0x3F800000), (1, 0x33000000), (2, 0x32800000)] (AggregatedUncachedPopularity_new (Key [1]) 4) = Inr ?p"
    by code_simp
  have 2: "AggregatedUncachedPopularity_clear 0 ?p = Inr (?q, False, True)" by code_simp
  have "f32_finite 0x33000000" by code_simp
  then have ok: "agg_ok 2 ?q" by (simp add: agg_ok_def less_Suc_eq)
  have "\<not> fval_le (f32_val (list_sum ?q)) (f32_val (sum_local_uncached_popularity ?q))" by code_simp
  then have "AggregatedUncachedPopularity_clear 2 ?q = Inl AssertFailed
      \<and> (\<forall>x k n. AggregatedUncachedPopularity_update 2 x k n ?q = Inl AssertFailed)"
    using popularity_rounding_aborts [OF ok, of 2] by simp
  then show ?thesis using 1 2 ok by blast
qed

end
