(* ===== verification/Collected_Popularity.thy ===== *)
theory Collected_Popularity
  imports Wire_Format
begin

text \<open>
  What travels with directory look-ups for popularity aggregation: \<open>CollectedPopularity\<close> (the sender's popularity of a key it
  tracks) and \<open>FastPathHint\<close> (the beacon's answer to a first miss), under \<open>src/src/core/popularity\<close>. Numbers are sent in the byte
  order of the machine; both classes are instances of \<open>wire_codec\<close>.
\<close>

record collected_popularity =
  is_tracked :: bool
  collected_local_uncached_popularity :: u32
  collected_object_size :: u32

definition CollectedPopularity_new :: collected_popularity where
  "CollectedPopularity_new = \<lparr>is_tracked = False, collected_local_uncached_popularity = 0, collected_object_size = 0\<rparr>"

definition CollectedPopularity_getLocalUncachedPopularity :: "collected_popularity \<Rightarrow> u32 exec" where
  "CollectedPopularity_getLocalUncachedPopularity c = assertE (is_tracked c) (Inr (collected_local_uncached_popularity c))"

definition CollectedPopularity_getObjectSize :: "collected_popularity \<Rightarrow> u32 exec" where
  "CollectedPopularity_getObjectSize c = assertE (is_tracked c) (Inr (collected_object_size c))"

definition CollectedPopularity_getCollectedPopularityPayloadSize :: "collected_popularity \<Rightarrow> u32" where
  "CollectedPopularity_getCollectedPopularityPayloadSize c = (if is_tracked c then 1 + 4 + 4 else 1)"

definition CollectedPopularity_serialize :: "collected_popularity serializer" where
  "CollectedPopularity_serialize c msg_payload position =
     bindE (DynamicArray_deserialize msg_payload position (bool_mem (is_tracked c)) 1) (\<lambda>msg_payload.
     if is_tracked c
     then bindE (DynamicArray_deserialize msg_payload (position + 1) (u32_mem (collected_local_uncached_popularity c)) 4) (\<lambda>msg_payload.
          bindE (DynamicArray_deserialize msg_payload (position + 1 + 4) (u32_mem (collected_object_size c)) 4) (\<lambda>msg_payload.
          Inr (msg_payload, position + 1 + 4 + 4 - position)))
     else Inr (msg_payload, position + 1 - position))"

text \<open>What is not sent stays as it was.\<close>

definition CollectedPopularity_deserialize :: "collected_popularity deserializer" where
  "CollectedPopularity_deserialize this msg_payload position =
     bindE (DynamicArray_serialize msg_payload position 1) (\<lambda>t.
     if mem_bool t
     then bindE (DynamicArray_serialize msg_payload (position + 1) 4) (\<lambda>x.
          bindE (DynamicArray_serialize msg_payload (position + 1 + 4) 4) (\<lambda>n.
          Inr (\<lparr>is_tracked = True, collected_local_uncached_popularity = mem_u32 x, collected_object_size = mem_u32 n\<rparr>,
               position + 1 + 4 + 4 - position)))
     else Inr (this\<lparr>is_tracked := False\<rparr>, position + 1 - position))"

record fast_path_hint =
  hint_is_valid :: bool
  hint_sum_local_uncached_popularity :: u32
  smallest_max_admission_benefit :: u32

definition MIN_ADMISSION_BENEFIT :: u32 where
  "MIN_ADMISSION_BENEFIT = 0"

definition FastPathHint_default :: fast_path_hint where
  "FastPathHint_default = \<lparr>hint_is_valid = False, hint_sum_local_uncached_popularity = 0,
     smallest_max_admission_benefit = MIN_ADMISSION_BENEFIT\<rparr>"

definition FastPathHint_new :: "u32 \<Rightarrow> u32 \<Rightarrow> fast_path_hint" where
  "FastPathHint_new s b = \<lparr>hint_is_valid = True, hint_sum_local_uncached_popularity = s, smallest_max_admission_benefit = b\<rparr>"

definition FastPathHint_getSumLocalUncachedPopularity :: "fast_path_hint \<Rightarrow> u32 exec" where
  "FastPathHint_getSumLocalUncachedPopularity h = assertE (hint_is_valid h) (Inr (hint_sum_local_uncached_popularity h))"

definition FastPathHint_getSmallestMaxAdmissionBenefit :: "fast_path_hint \<Rightarrow> u32 exec" where
  "FastPathHint_getSmallestMaxAdmissionBenefit h = assertE (hint_is_valid h) (Inr (smallest_max_admission_benefit h))"

definition FastPathHint_getFastPathHintPayloadSize :: "fast_path_hint \<Rightarrow> u32 exec" where
  "FastPathHint_getFastPathHintPayloadSize h = assertE (hint_is_valid h) (Inr (4 + 4))"

definition FastPathHint_serialize :: "fast_path_hint serializer" where
  "FastPathHint_serialize h msg_payload position =
     bindE (DynamicArray_deserialize msg_payload position (u32_mem (hint_sum_local_uncached_popularity h)) 4) (\<lambda>msg_payload.
     bindE (DynamicArray_deserialize msg_payload (position + 4) (u32_mem (smallest_max_admission_benefit h)) 4) (\<lambda>msg_payload.
     Inr (msg_payload, position + 4 + 4 - position)))"

definition FastPathHint_deserialize :: "fast_path_hint deserializer" where
  "FastPathHint_deserialize this msg_payload position =
     bindE (DynamicArray_serialize msg_payload position 4) (\<lambda>s.
     bindE (DynamicArray_serialize msg_payload (position + 4) 4) (\<lambda>b.
     Inr (FastPathHint_new (mem_u32 s) (mem_u32 b), position + 4 + 4 - position)))"

section \<open>Message format\<close>

definition CollectedPopularity_enc :: "collected_popularity \<Rightarrow> u8 list" where
  "CollectedPopularity_enc c = bool_mem (is_tracked c)
     @ (if is_tracked c then u32_mem (collected_local_uncached_popularity c) @ u32_mem (collected_object_size c) else [])"

definition CollectedPopularity_wf :: "collected_popularity \<Rightarrow> bool" where
  "CollectedPopularity_wf c \<longleftrightarrow> is_tracked c \<or> c = CollectedPopularity_new"

definition FastPathHint_enc :: "fast_path_hint \<Rightarrow> u8 list" where
  "FastPathHint_enc h = u32_mem (hint_sum_local_uncached_popularity h) @ u32_mem (smallest_max_admission_benefit h)"

text \<open>Two fields one after the other.\<close>

lemma put_fields:
  assumes "unat p + (length d + length d') \<le> da_capacity a" and "unat p + (length d + length d') < 2 ^ 32"
    and "m = word_of_nat (length d)" and "n = word_of_nat (length d')"
  shows "DynamicArray_deserialize a p d m = Inr (da_put (unat p) d a)"
    and "DynamicArray_deserialize (da_put (unat p) d a) (p + m) d' n = Inr (da_put (unat p) (d @ d') a)"
proof -
  have "unat (p + m) = unat p + length d" using assms by (simp add: unat_plus_of_nat)
  moreover show "DynamicArray_deserialize a p d m = Inr (da_put (unat p) d a)"
    using assms by (intro deserialize_ok) simp_all
  ultimately show "DynamicArray_deserialize (da_put (unat p) d a) (p + m) d' n = Inr (da_put (unat p) (d @ d') a)"
    using assms deserialize_ok [of "p + m" d' "da_put (unat p) d a" n] by (simp add: da_put_put)
qed

lemma get_fields:
  assumes "da_holds a (unat p) (d @ d')" and "unat p + (length d + length d') < 2 ^ 32"
    and "m = word_of_nat (length d)" and "n = word_of_nat (length d')"
  shows "DynamicArray_serialize a p m = Inr d" and "DynamicArray_serialize a (p + m) n = Inr d'"
proof -
  have "unat (p + m) = unat p + length d" using assms by (simp add: unat_plus_of_nat)
  then show "DynamicArray_serialize a p m = Inr d" and "DynamicArray_serialize a (p + m) n = Inr d'"
    using assms by (auto simp: da_holds_append intro!: serialize_ok)
qed

interpretation hint_wire: wire_codec hint_is_valid FastPathHint_enc "\<lambda>_. True" FastPathHint_serialize FastPathHint_deserialize
proof unfold_locales
  fix h y :: fast_path_hint and p :: u32 and a :: dynamic_array
  assume v: "hint_is_valid h"
  let ?s = "u32_mem (hint_sum_local_uncached_popularity h)" and ?b = "u32_mem (smallest_max_admission_benefit h)"
  show "FastPathHint_serialize h a p = Inr (da_put (unat p) (FastPathHint_enc h) a, word_of_nat (length (FastPathHint_enc h)))"
    if "unat p + length (FastPathHint_enc h) \<le> da_capacity a" and "unat p + length (FastPathHint_enc h) < 2 ^ 32"
  proof -
    have c: "unat p + (length ?s + length ?b) \<le> da_capacity a" "unat p + (length ?s + length ?b) < 2 ^ 32"
      using that by (simp_all add: FastPathHint_enc_def)
    have w: "4 = (word_of_nat (length ?s) :: u32)" "4 = (word_of_nat (length ?b) :: u32)" by simp_all
    show ?thesis unfolding FastPathHint_serialize_def FastPathHint_enc_def put_fields [OF c w] bindE_simps by simp
  qed
  show "FastPathHint_deserialize y a p = Inr (h, word_of_nat (length (FastPathHint_enc h)))"
    if "da_holds a (unat p) (FastPathHint_enc h)" and "unat p + length (FastPathHint_enc h) < 2 ^ 32"
  proof -
    have c: "da_holds a (unat p) (?s @ ?b)" "unat p + (length ?s + length ?b) < 2 ^ 32"
      using that by (simp_all add: FastPathHint_enc_def)
    have w: "4 = (word_of_nat (length ?s) :: u32)" "4 = (word_of_nat (length ?b) :: u32)" by simp_all
    show ?thesis unfolding FastPathHint_deserialize_def FastPathHint_enc_def get_fields [OF c w] bindE_simps
      using v by (simp add: FastPathHint_new_def)
  qed
qed

interpretation collected_wire: wire_codec CollectedPopularity_wf CollectedPopularity_enc "\<lambda>y. y = CollectedPopularity_new"
    CollectedPopularity_serialize CollectedPopularity_deserialize
proof unfold_locales
  fix c y :: collected_popularity and p :: u32 and a :: dynamic_array
  assume wf: "CollectedPopularity_wf c"
  let ?t = "bool_mem (is_tracked c)" and ?x = "u32_mem (collected_local_uncached_popularity c)" and ?n = "u32_mem (collected_object_size c)"
  show "CollectedPopularity_serialize c a p = Inr (da_put (unat p) (CollectedPopularity_enc c) a, word_of_nat (length (CollectedPopularity_enc c)))"
    if l: "unat p + length (CollectedPopularity_enc c) \<le> da_capacity a" "unat p + length (CollectedPopularity_enc c) < 2 ^ 32"
  proof (cases "is_tracked c")
    case True
    have c: "unat p + (length ?t + length ?x) \<le> da_capacity a" "unat p + (length ?t + length ?x) < 2 ^ 32"
      "unat p + (length (?t @ ?x) + length ?n) \<le> da_capacity a" "unat p + (length (?t @ ?x) + length ?n) < 2 ^ 32"
      using l True by (simp_all add: CollectedPopularity_enc_def)
    have w: "1 = (word_of_nat (length ?t) :: u32)" "4 = (word_of_nat (length ?x) :: u32)"
      "1 + 4 = (word_of_nat (length (?t @ ?x)) :: u32)" "4 = (word_of_nat (length ?n) :: u32)" by simp_all
    show ?thesis
      using True unfolding CollectedPopularity_serialize_def CollectedPopularity_enc_def put_fields [OF c(1,2) w(1,2)] bindE_simps
        add.assoc [of p 1 4] put_fields(2) [OF c(3,4) w(3,4)] by simp
  next
    case False
    then show ?thesis
      using l deserialize_ok [of p ?t a 1] by (simp add: CollectedPopularity_serialize_def CollectedPopularity_enc_def)
  qed
  show "CollectedPopularity_deserialize y a p = Inr (c, word_of_nat (length (CollectedPopularity_enc c)))"
    if y: "y = CollectedPopularity_new" and l: "da_holds a (unat p) (CollectedPopularity_enc c)" "unat p + length (CollectedPopularity_enc c) < 2 ^ 32"
  proof (cases "is_tracked c")
    case True
    have h: "da_holds a (unat p) ((?t @ ?x) @ ?n)" using l True by (simp add: CollectedPopularity_enc_def)
    have c: "unat p + (length ?t + length ?x) < 2 ^ 32" "unat p + (length (?t @ ?x) + length ?n) < 2 ^ 32"
      using l True by (simp_all add: CollectedPopularity_enc_def)
    have h': "da_holds a (unat p) (?t @ ?x)" using h da_holds_append by blast
    have w: "1 = (word_of_nat (length ?t) :: u32)" "4 = (word_of_nat (length ?x) :: u32)"
      "1 + 4 = (word_of_nat (length (?t @ ?x)) :: u32)" "4 = (word_of_nat (length ?n) :: u32)" by simp_all
    show ?thesis
      using True unfolding CollectedPopularity_deserialize_def CollectedPopularity_enc_def get_fields [OF h' c(1) w(1,2)] bindE_simps
        add.assoc [of p 1 4] get_fields(2) [OF h c(2) w(3,4)] by simp
  next
    case False
    then show ?thesis
      using l y wf serialize_ok [of a p ?t 1]
      by (simp add: CollectedPopularity_deserialize_def CollectedPopularity_enc_def CollectedPopularity_wf_def CollectedPopularity_new_def)
  qed
qed

lemma CollectedPopularity_payload_size: "CollectedPopularity_getCollectedPopularityPayloadSize c = word_of_nat (length (CollectedPopularity_enc c))"
  by (simp add: CollectedPopularity_getCollectedPopularityPayloadSize_def CollectedPopularity_enc_def)

end
