(* ===== verification/Popularity_Aggregator.thy ===== *)
theory Popularity_Aggregator
  imports Aggregated_Facts Collected_Popularity
begin

text \<open>
  \<open>PopularityAggregator\<close> (\<open>src/src/core/popularity_aggregator.c\<close>) and \<open>PreservedEdgeset\<close> (\<open>popularity/preserved_edgeset.c\<close>): the beacon
  keeps the aggregated popularities of the keys with the greatest admission benefits within a number of bytes, and for
  each key the nodes it has chosen to place a copy on until they have admitted it. The multimap is a list in its iteration
  order; its iterators are identities of entries, numbered when they are inserted, and using one whose entry was erased is
  undefined. A benefit that is NaN breaks the order of the multimap and is undefined too. Fast-path placement is compiled
  in (\<open>ENABLE_FAST_PATH_PLACEMENT\<close>). Every operation runs under the lock of the aggregator.
\<close>

section \<open>Preserved edge nodes\<close>

definition PreservedEdgeset_new :: "u32 \<Rightarrow> bool list exec" where
  "PreservedEdgeset_new edge_cnt = (let bm = replicate (unat edge_cnt) False in assertE (0 < length bm) (Inr bm))"

definition PreservedEdgeset_isPreserved :: "u32 \<Rightarrow> bool list \<Rightarrow> bool exec" where
  "PreservedEdgeset_isPreserved edge_idx bm = assertE (unat edge_idx < length bm) (Inr (bm ! unat edge_idx))"

fun PreservedEdgeset_preserveEdgesetForPlacement :: "edgeset \<Rightarrow> bool list \<Rightarrow> bool list exec" where
  "PreservedEdgeset_preserveEdgesetForPlacement [] bm = Inr bm"
| "PreservedEdgeset_preserveEdgesetForPlacement (e # es) bm =
     assertE (unat e < length bm) (
     PreservedEdgeset_preserveEdgesetForPlacement es (if bm ! unat e then bm else bm[unat e := True]))"

definition PreservedEdgeset_clearPreservedEdgeNode :: "u32 \<Rightarrow> bool list \<Rightarrow> (bool list \<times> bool) exec" where
  "PreservedEdgeset_clearPreservedEdgeNode edge_idx bm =
     assertE (unat edge_idx < length bm) (
     let bm = (if bm ! unat edge_idx then bm[unat edge_idx := False] else bm)
     in Inr (bm, \<not> (\<exists>b \<in> set bm. b)))"

definition PreservedEdgeset_getSizeForCapacity :: "bool list \<Rightarrow> u64" where
  "PreservedEdgeset_getSizeForCapacity bm = (word_of_nat (length bm) - 1) div 8 + 1"

section \<open>State\<close>

record popularity_aggregator =
  agg_edgecnt :: u32
  popularity_aggregation_capacity_bytes :: u64
  agg_topk_edgecnt :: u32
  agg_size_bytes :: u64
  benefit_popularity_multimap :: "(nat \<times> u32 \<times> aggregated_uncached_popularity) list"
  perkey_benefit_popularity_table :: "(key \<times> nat) list"
  perkey_preserved_edgeset :: "(key \<times> bool list) list"
  next_entry :: nat

definition PopularityAggregator_new :: "u32 \<Rightarrow> u64 \<Rightarrow> u32 \<Rightarrow> popularity_aggregator" where
  "PopularityAggregator_new edge_cnt capacity_bytes k = \<lparr>agg_edgecnt = edge_cnt,
     popularity_aggregation_capacity_bytes = capacity_bytes, agg_topk_edgecnt = k, agg_size_bytes = 0,
     benefit_popularity_multimap = [], perkey_benefit_popularity_table = [], perkey_preserved_edgeset = [], next_entry = 0\<rparr>"

definition multimap_entry :: "nat \<Rightarrow> popularity_aggregator \<Rightarrow> (u32 \<times> aggregated_uncached_popularity) exec" where
  "multimap_entry i a = (case map_of (benefit_popularity_multimap a) i of None \<Rightarrow> Inl Undefined | Some x \<Rightarrow> Inr x)"

text \<open>\<open>insert\<close> puts an entry behind those of equal benefit and returns its iterator.\<close>

definition multimap_insert ::
    "u32 \<Rightarrow> aggregated_uncached_popularity \<Rightarrow> popularity_aggregator \<Rightarrow> (popularity_aggregator \<times> nat) exec" where
  "multimap_insert benefit p a =
     definedE (f32_val benefit \<noteq> NaN) (
     let m = benefit_popularity_multimap a;
         smaller = takeWhile (\<lambda>x. \<not> fval_less (f32_val benefit) (f32_val (fst (snd x)))) m
     in Inr (a\<lparr>benefit_popularity_multimap := smaller @ (next_entry a, benefit, p) # drop (length smaller) m,
               next_entry := Suc (next_entry a)\<rparr>, next_entry a))"

definition agg_grow :: "u64 \<Rightarrow> popularity_aggregator \<Rightarrow> popularity_aggregator" where
  "agg_grow n a = a\<lparr>agg_size_bytes := agg_size_bytes a + n\<rparr>"

definition agg_shrink :: "u64 \<Rightarrow> popularity_aggregator \<Rightarrow> popularity_aggregator" where
  "agg_shrink n a = a\<lparr>agg_size_bytes := Util_uint64Minus (agg_size_bytes a) n\<rparr>"

definition key_bytes :: "key \<Rightarrow> u64" where
  "key_bytes key = ucast (Key_getKeyLength key)"

section \<open>Look-ups\<close>

definition PopularityAggregator_getAggregatedUncachedPopularity ::
    "key \<Rightarrow> popularity_aggregator \<Rightarrow> aggregated_uncached_popularity option exec" where
  "PopularityAggregator_getAggregatedUncachedPopularity key a =
     (case map_of (perkey_benefit_popularity_table a) key of
        None \<Rightarrow> Inr None
      | Some i \<Rightarrow> bindE (multimap_entry i a) (\<lambda>(b, p). Inr (Some p)))"

definition PopularityAggregator_getTopkEdgecnt :: "popularity_aggregator \<Rightarrow> u32" where
  "PopularityAggregator_getTopkEdgecnt a = agg_topk_edgecnt a"

definition PopularityAggregator_isKeyBeingAdmitted :: "key \<Rightarrow> popularity_aggregator \<Rightarrow> bool" where
  "PopularityAggregator_isKeyBeingAdmitted key a \<longleftrightarrow> map_of (perkey_preserved_edgeset a) key \<noteq> None"

definition PopularityAggregator_getSizeForCapacity :: "popularity_aggregator \<Rightarrow> u64" where
  "PopularityAggregator_getSizeForCapacity a = agg_size_bytes a"

section \<open>Entries of keys\<close>

definition PopularityAggregator_addBenefitPopularityForNewKey ::
    "reward_func \<Rightarrow> key \<Rightarrow> aggregated_uncached_popularity \<Rightarrow> bool \<Rightarrow> popularity_aggregator \<Rightarrow> popularity_aggregator exec" where
  "PopularityAggregator_addBenefitPopularityForNewKey reward key p is_global_cached a =
     assertE (map_of (perkey_benefit_popularity_table a) key = None) (
     bindE (AggregatedUncachedPopularity_calcMaxAdmissionBenefit reward is_global_cached p) (\<lambda>benefit.
     bindE (multimap_insert benefit p a) (\<lambda>(a, i).
     let a = agg_grow 4 a;
         a = agg_grow (AggregatedUncachedPopularity_getSizeForCapacity p) a;
         a = a\<lparr>perkey_benefit_popularity_table := um_insert key i (perkey_benefit_popularity_table a)\<rparr>;
         a = agg_grow (key_bytes key) a
     in Inr (agg_grow 8 a))))"

definition PopularityAggregator_updateBenefitPopularityForExistingKey ::
    "reward_func \<Rightarrow> key \<Rightarrow> aggregated_uncached_popularity \<Rightarrow> bool \<Rightarrow> bool \<Rightarrow> popularity_aggregator \<Rightarrow> popularity_aggregator exec" where
  "PopularityAggregator_updateBenefitPopularityForExistingKey reward key p is_empty is_global_cached a =
     (case map_of (perkey_benefit_popularity_table a) key of
        None \<Rightarrow> Inl AssertFailed
      | Some i \<Rightarrow>
          bindE (multimap_entry i a) (\<lambda>(old_benefit, old).
          let a = agg_shrink 4 a;
              a = agg_shrink (AggregatedUncachedPopularity_getSizeForCapacity old) a;
              a = a\<lparr>benefit_popularity_multimap := um_erase i (benefit_popularity_multimap a)\<rparr>
          in if is_empty
             then let a = a\<lparr>perkey_benefit_popularity_table := um_erase key (perkey_benefit_popularity_table a)\<rparr>;
                      a = agg_shrink (key_bytes key) a
                  in Inr (agg_shrink 8 a)
             else bindE (AggregatedUncachedPopularity_calcMaxAdmissionBenefit reward is_global_cached p) (\<lambda>benefit.
                  bindE (multimap_insert benefit p a) (\<lambda>(a, j).
                  let a = agg_grow 4 a;
                      a = agg_grow (AggregatedUncachedPopularity_getSizeForCapacity p) a
                  in Inr (a\<lparr>perkey_benefit_popularity_table := um_put key j (perkey_benefit_popularity_table a)\<rparr>)))))"

definition PopularityAggregator_addAggregatedUncachedPopularityForNewKey ::
    "reward_func \<Rightarrow> key \<Rightarrow> u32 \<Rightarrow> u32 \<Rightarrow> u32 \<Rightarrow> bool \<Rightarrow> popularity_aggregator \<Rightarrow> popularity_aggregator exec" where
  "PopularityAggregator_addAggregatedUncachedPopularityForNewKey reward key source_edge_idx popularity obj_size is_global_cached a =
     bindE (AggregatedUncachedPopularity_update source_edge_idx popularity (agg_topk_edgecnt a) obj_size
              (AggregatedUncachedPopularity_new key (agg_edgecnt a))) (\<lambda>p.
     assertE (0 < AggregatedUncachedPopularity_getTopkListLength p) (
     PopularityAggregator_addBenefitPopularityForNewKey reward key p is_global_cached a))"

definition PopularityAggregator_updateAggregatedUncachedPopularityForExistingKey ::
    "reward_func \<Rightarrow> key \<Rightarrow> u32 \<Rightarrow> bool \<Rightarrow> u32 \<Rightarrow> u32 \<Rightarrow> bool \<Rightarrow> popularity_aggregator \<Rightarrow> (popularity_aggregator \<times> bool) exec" where
  "PopularityAggregator_updateAggregatedUncachedPopularityForExistingKey reward key source_edge_idx is_tracked_by_source
       popularity obj_size is_global_cached a =
     bindE (PopularityAggregator_getAggregatedUncachedPopularity key a) (\<lambda>existing.
     case existing of
       None \<Rightarrow> Inl AssertFailed
     | Some p \<Rightarrow>
         bindE (if is_tracked_by_source
                then bindE (AggregatedUncachedPopularity_update source_edge_idx popularity (agg_topk_edgecnt a) obj_size p) (\<lambda>p.
                     Inr (p, False, True))
                else AggregatedUncachedPopularity_clear source_edge_idx p) (\<lambda>(p, is_empty, is_successful).
         bindE (PopularityAggregator_updateBenefitPopularityForExistingKey reward key p is_empty is_global_cached a) (\<lambda>a.
         Inr (a, is_successful))))"

section \<open>The loop that keeps to the capacity\<close>

function (sequential) PopularityAggregator_discardGlobalLessPopularObjects :: "popularity_aggregator \<Rightarrow> popularity_aggregator exec" where
  "PopularityAggregator_discardGlobalLessPopularObjects a =
     (if agg_size_bytes a \<le> popularity_aggregation_capacity_bytes a then Inr a
      else case benefit_popularity_multimap a of
             [] \<Rightarrow> Inl AssertFailed
           | (i, b, p) # rest \<Rightarrow>
               let a = a\<lparr>benefit_popularity_multimap := rest\<rparr>;
                   a = agg_shrink 4 a;
                   a = agg_shrink (AggregatedUncachedPopularity_getSizeForCapacity p) a
               in assertE (map_of (perkey_benefit_popularity_table a) (agg_key p) \<noteq> None) (
                  let a = a\<lparr>perkey_benefit_popularity_table := um_erase (agg_key p) (perkey_benefit_popularity_table a)\<rparr>;
                      a = agg_shrink (key_bytes (agg_key p)) a
                  in PopularityAggregator_discardGlobalLessPopularObjects (agg_shrink 8 a)))"
  by pat_completeness auto
termination
  by (relation "measure (\<lambda>a. length (benefit_popularity_multimap a))") (auto simp: agg_shrink_def)

declare PopularityAggregator_discardGlobalLessPopularObjects.simps [simp del]

section \<open>Requests\<close>

definition fast_path_margin :: "key \<Rightarrow> bool \<Rightarrow> popularity_aggregator \<Rightarrow> u64" where
  "fast_path_margin key has_popularity a =
     (if has_popularity then 4 + 4
      else 4 + (key_bytes key + 4 + 4 + (4 + 4) + (ucast (agg_edgecnt a) - 1) div 8 + 1 + 4) + (key_bytes key + 8))"

definition make_fast_path_hint :: "key \<Rightarrow> popularity_aggregator \<Rightarrow> fast_path_hint exec" where
  "make_fast_path_hint key a =
     bindE (PopularityAggregator_getAggregatedUncachedPopularity key a) (\<lambda>existing.
     let s = (case existing of None \<Rightarrow> 0 | Some p \<Rightarrow> sum_local_uncached_popularity p);
         margin = fast_path_margin key (existing \<noteq> None) a;
         benefit = (if popularity_aggregation_capacity_bytes a \<le> agg_size_bytes a + margin \<and> 0 < length (benefit_popularity_multimap a)
                    then fst (snd (hd (benefit_popularity_multimap a))) else MIN_ADMISSION_BENEFIT)
     in Inr (FastPathHint_new s benefit))"

text \<open>The result is the aggregator and the hint, which is left alone unless the sender may have missed the key for the
  first time.\<close>

definition PopularityAggregator_updateAggregatedUncachedPopularity ::
    "reward_func \<Rightarrow> key \<Rightarrow> u32 \<Rightarrow> collected_popularity \<Rightarrow> bool \<Rightarrow> bool \<Rightarrow> fast_path_hint \<Rightarrow> popularity_aggregator
     \<Rightarrow> (popularity_aggregator \<times> fast_path_hint) exec" where
  "PopularityAggregator_updateAggregatedUncachedPopularity reward key source_edge_idx collected is_global_cached is_source_cached hint a =
     (let is_tracked_by_source = is_tracked collected \<and> \<not> is_source_cached;
          need_fast_path_hint = (\<not> is_tracked_by_source \<and> \<not> is_source_cached)
      in bindE (case map_of (perkey_preserved_edgeset a) key of
                  None \<Rightarrow> Inr False
                | Some bm \<Rightarrow> PreservedEdgeset_isPreserved source_edge_idx bm) (\<lambda>is_preserved.
         let is_tracked_by_source = is_tracked_by_source \<and> \<not> is_preserved;
             need_fast_path_hint = need_fast_path_hint \<and> \<not> is_preserved
         in bindE (if is_tracked_by_source
                   then bindE (CollectedPopularity_getLocalUncachedPopularity collected) (\<lambda>popularity.
                        bindE (CollectedPopularity_getObjectSize collected) (\<lambda>obj_size.
                        bindE (case map_of (perkey_benefit_popularity_table a) key of
                                 None \<Rightarrow> PopularityAggregator_addAggregatedUncachedPopularityForNewKey reward key source_edge_idx
                                           popularity obj_size is_global_cached a
                               | Some i \<Rightarrow>
                                   bindE (PopularityAggregator_updateAggregatedUncachedPopularityForExistingKey reward key source_edge_idx
                                            True popularity obj_size is_global_cached a) (\<lambda>(a, is_successful).
                                   assertE is_successful (Inr a))) (\<lambda>a.
                        bindE (PopularityAggregator_discardGlobalLessPopularObjects a) (\<lambda>a. Inr (a, need_fast_path_hint)))))
                   else case map_of (perkey_benefit_popularity_table a) key of
                          None \<Rightarrow> Inr (a, need_fast_path_hint)
                        | Some i \<Rightarrow>
                            bindE (PopularityAggregator_updateAggregatedUncachedPopularityForExistingKey reward key source_edge_idx
                                     False 0 0 is_global_cached a) (\<lambda>(a, is_successful).
                            Inr (a, need_fast_path_hint \<and> \<not> is_successful))) (\<lambda>(a, need_fast_path_hint).
            if need_fast_path_hint then bindE (make_fast_path_hint key a) (\<lambda>hint. Inr (a, hint)) else Inr (a, hint))))"

definition PopularityAggregator_updatePreservedEdgesetForPlacement ::
    "reward_func \<Rightarrow> key \<Rightarrow> edgeset \<Rightarrow> bool \<Rightarrow> popularity_aggregator \<Rightarrow> popularity_aggregator exec" where
  "PopularityAggregator_updatePreservedEdgesetForPlacement reward key placement_edgeset is_global_cached a =
     bindE (case map_of (perkey_preserved_edgeset a) key of
              Some bm \<Rightarrow> Inr (a, bm)
            | None \<Rightarrow>
                bindE (PreservedEdgeset_new (agg_edgecnt a)) (\<lambda>bm.
                let a = agg_grow (key_bytes key) a in Inr (agg_grow (PreservedEdgeset_getSizeForCapacity bm) a, bm))) (\<lambda>(a, bm).
     bindE (PreservedEdgeset_preserveEdgesetForPlacement placement_edgeset bm) (\<lambda>bm.
     let a = a\<lparr>perkey_preserved_edgeset := um_put key bm (perkey_preserved_edgeset a)\<rparr>
     in bindE (PopularityAggregator_getAggregatedUncachedPopularity key a) (\<lambda>existing.
        bindE (case existing of
                 None \<Rightarrow> Inr a
               | Some p \<Rightarrow>
                   bindE (AggregatedUncachedPopularity_clearForPlacement placement_edgeset p) (\<lambda>(p, is_empty).
                   PopularityAggregator_updateBenefitPopularityForExistingKey reward key p is_empty is_global_cached a)) (\<lambda>a.
        PopularityAggregator_discardGlobalLessPopularObjects a))))"

definition PopularityAggregator_clearPreservedEdgesetAfterAdmission ::
    "key \<Rightarrow> u32 \<Rightarrow> popularity_aggregator \<Rightarrow> popularity_aggregator exec" where
  "PopularityAggregator_clearPreservedEdgesetAfterAdmission key source_edge_idx a =
     (case map_of (perkey_preserved_edgeset a) key of
        None \<Rightarrow> Inr a
      | Some bm \<Rightarrow>
          bindE (PreservedEdgeset_clearPreservedEdgeNode source_edge_idx bm) (\<lambda>(bm, is_empty).
          if is_empty
          then let a = agg_shrink (key_bytes key) a;
                   a = agg_shrink (PreservedEdgeset_getSizeForCapacity bm) a
               in Inr (a\<lparr>perkey_preserved_edgeset := um_erase key (perkey_preserved_edgeset a)\<rparr>)
          else Inr (a\<lparr>perkey_preserved_edgeset := um_put key bm (perkey_preserved_edgeset a)\<rparr>)))"

section \<open>Snapshots\<close>

definition dump_benefit_pair :: "nat \<times> u32 \<times> aggregated_uncached_popularity \<Rightarrow> u8 list \<Rightarrow> u8 list exec" where
  "dump_benefit_pair x out =
     AggregatedUncachedPopularity_dumpAggregatedUncachedPopularity (snd (snd x)) (fs_write (u32_mem (fst (snd x))) out)"

definition PopularityAggregator_dumpPopularityAggregator :: "popularity_aggregator \<Rightarrow> u8 list \<Rightarrow> u8 list exec" where
  "PopularityAggregator_dumpPopularityAggregator a out =
     dump_counted dump_benefit_pair (benefit_popularity_multimap a) (fs_write (u64_mem (agg_size_bytes a)) out)"

fun load_pairs_loop :: "nat \<Rightarrow> popularity_aggregator \<Rightarrow> fstream \<Rightarrow> (popularity_aggregator \<times> fstream) exec" where
  "load_pairs_loop 0 a fs = Inr (a, fs)"
| "load_pairs_loop (Suc n) a fs =
     (let (b, fs) = fs_read [0, 0, 0, 0] fs
      in bindE (AggregatedUncachedPopularity_loadAggregatedUncachedPopularity AggregatedUncachedPopularity_default fs) (\<lambda>(p, fs).
         bindE (multimap_insert (mem_u32 b) p a) (\<lambda>(a, i).
         load_pairs_loop n (a\<lparr>perkey_benefit_popularity_table := um_insert (agg_key p) i (perkey_benefit_popularity_table a)\<rparr>) fs)))"

definition PopularityAggregator_loadPopularityAggregator ::
    "popularity_aggregator \<Rightarrow> fstream \<Rightarrow> (popularity_aggregator \<times> fstream) exec" where
  "PopularityAggregator_loadPopularityAggregator this fs =
     (let (s, fs) = fs_read (u64_mem (agg_size_bytes this)) fs;
          (n, fs) = fs_read [0, 0, 0, 0] fs
      in bindE (load_pairs_loop (unat (mem_u32 n))
                  (this\<lparr>agg_size_bytes := mem_u64 s, benefit_popularity_multimap := [], perkey_benefit_popularity_table := []\<rparr>) fs) (\<lambda>(a, fs).
         Inr (a\<lparr>perkey_preserved_edgeset := []\<rparr>, fs)))"

end
