(* ===== verification/Aggregator_Facts.thy ===== *)
theory Aggregator_Facts
  imports Popularity_Aggregator Lru_Cache
begin

text \<open>
  Invariant of \<open>PopularityAggregator\<close>: the look-up table points at the entries of the multimap, the byte counter is exact and
  within the capacity, and a node preserved for a placement of a key has no reported popularity of it.
\<close>

type_synonym benefit_entry = "nat \<times> u32 \<times> aggregated_uncached_popularity"

definition entry_key :: "benefit_entry \<Rightarrow> key" where
  "entry_key x = agg_key (snd (snd x))"

definition entry_bytes :: "benefit_entry \<Rightarrow> nat" where
  "entry_bytes x = 12 + agg_bytes (snd (snd x)) + unat (Key_getKeyLength (entry_key x))"

definition less_popular :: "benefit_entry \<Rightarrow> benefit_entry \<Rightarrow> bool" where
  "less_popular x y \<longleftrightarrow> \<not> fval_less (f32_val (fst (snd y))) (f32_val (fst (snd x)))"

definition popularity_ok :: "popularity_aggregator \<Rightarrow> aggregated_uncached_popularity \<Rightarrow> bool" where
  "popularity_ok a p \<longleftrightarrow> agg_ok (agg_topk_edgecnt a) p \<and> length (agg_bitmap p) = unat (agg_edgecnt a)"

abbreviation entries :: "popularity_aggregator \<Rightarrow> benefit_entry list" where
  "entries \<equiv> benefit_popularity_multimap"

definition linked :: "benefit_entry list \<Rightarrow> (key \<times> nat) list \<Rightarrow> nat \<Rightarrow> bool" where
  "linked m table n \<longleftrightarrow> um_wf m \<and> distinct (map entry_key m) \<and> um_wf table \<and> (\<forall>x \<in> set m. fst x < n)
     \<and> set table = (\<lambda>x. (entry_key x, fst x)) ` set m"

definition ordered :: "benefit_entry list \<Rightarrow> bool" where
  "ordered m \<longleftrightarrow> sorted_wrt less_popular m \<and> (\<forall>x \<in> set m. f32_val (fst (snd x)) \<noteq> NaN)"

definition preserved_bytes :: "key \<times> bool list \<Rightarrow> nat" where
  "preserved_bytes kb = unat (Key_getKeyLength (fst kb)) + ((length (snd kb) - 1) div 8 + 1)"

definition total_bytes :: "popularity_aggregator \<Rightarrow> nat" where
  "total_bytes a = sum_list (map entry_bytes (entries a)) + sum_list (map preserved_bytes (perkey_preserved_edgeset a))"

definition popularity_of :: "popularity_aggregator \<Rightarrow> key \<Rightarrow> aggregated_uncached_popularity option" where
  "popularity_of a key = map_of (map (\<lambda>x. (entry_key x, snd (snd x))) (entries a)) key"

text \<open>Everything but the bound on the bytes, which the discarding loop restores.\<close>

definition agg_core :: "popularity_aggregator \<Rightarrow> bool" where
  "agg_core a \<longleftrightarrow> 0 < agg_edgecnt a \<and> 0 < agg_topk_edgecnt a
     \<and> linked (entries a) (perkey_benefit_popularity_table a) (next_entry a) \<and> ordered (entries a)
     \<and> (\<forall>x \<in> set (entries a). popularity_ok a (snd (snd x)) \<and> 0 < bits (agg_bitmap (snd (snd x))))
     \<and> um_wf (perkey_preserved_edgeset a) \<and> (\<forall>bm \<in> snd ` set (perkey_preserved_edgeset a). length bm = unat (agg_edgecnt a))
     \<and> unat (agg_size_bytes a) = total_bytes a"

section \<open>Links\<close>

lemma linked_lookup:
  assumes "linked m table n"
  shows "case map_of table key of
      None \<Rightarrow> key \<notin> entry_key ` set m
    | Some i \<Rightarrow> \<exists>b p. map_of m i = Some (b, p) \<and> (i, b, p) \<in> set m \<and> agg_key p = key"
proof (cases "map_of table key")
  case None
  then have "key \<notin> fst ` set table" by (simp add: map_of_eq_None_iff)
  then show ?thesis using None assms by (force simp: linked_def)
next
  case (Some i)
  then have "(key, i) \<in> set table" by (rule map_of_SomeD)
  then obtain b p where "(i, b, p) \<in> set m" "agg_key p = key" using assms by (auto simp: linked_def entry_key_def)
  then show ?thesis using Some assms by (auto simp: linked_def)
qed

lemma linked_same:
  assumes "linked m table n" and "x \<in> set m" and "y \<in> set m"
  shows "fst x = fst y \<longleftrightarrow> x = y" and "entry_key x = entry_key y \<longleftrightarrow> x = y"
  using assms by (auto simp: linked_def distinct_map dest: inj_onD)

lemma linked_erase:
  assumes "linked m table n" and "(i, b, p) \<in> set m"
  shows "linked (um_erase i m) (um_erase (agg_key p) table) n"
proof -
  have iff: "fst x = i \<longleftrightarrow> entry_key x = agg_key p" if "x \<in> set m" for x
    using linked_same [OF assms(1) that assms(2)] by (auto simp: entry_key_def)
  have "set (um_erase (agg_key p) table) = {y \<in> (\<lambda>x. (entry_key x, fst x)) ` set m. fst y \<noteq> agg_key p}"
    using assms(1) by (simp add: linked_def set_um_erase)
  also have "\<dots> = (\<lambda>x. (entry_key x, fst x)) ` {x \<in> set m. entry_key x \<noteq> agg_key p}" by auto
  also have "{x \<in> set m. entry_key x \<noteq> agg_key p} = set (um_erase i m)" using iff by (auto simp: set_um_erase)
  finally have t: "set (um_erase (agg_key p) table) = (\<lambda>x. (entry_key x, fst x)) ` set (um_erase i m)" .
  have "distinct (map entry_key (um_erase i m))" using assms(1) by (simp add: linked_def um_erase_filter distinct_map_filter)
  moreover have "\<forall>x \<in> set (um_erase i m). fst x < n" using assms(1) by (simp add: linked_def set_um_erase)
  ultimately show ?thesis using assms(1) t by (simp add: linked_def)
qed

lemma linked_insert:
  assumes "linked (xs @ ys) table n" and "agg_key p \<notin> entry_key ` set (xs @ ys)"
    and "set table' = insert (agg_key p, n) (set table)" and "um_wf table'"
  shows "linked (xs @ (n, b, p) # ys) table' (Suc n)"
proof -
  have l: "um_wf (xs @ ys)" "distinct (map entry_key (xs @ ys))" "\<forall>x \<in> set (xs @ ys). fst x < n"
    "set table = (\<lambda>x. (entry_key x, fst x)) ` set (xs @ ys)"
    using assms(1) by (simp_all add: linked_def)
  have k: "entry_key (n, b, p) = agg_key p" by (simp add: entry_key_def)
  have "n \<notin> fst ` set (xs @ ys)" using l(3) by auto
  then have "um_wf (xs @ (n, b, p) # ys)" using l(1) by auto
  moreover have "distinct (map entry_key (xs @ (n, b, p) # ys))" using l(2) assms(2) by (auto simp: k)
  moreover have "\<forall>x \<in> set (xs @ (n, b, p) # ys). fst x < Suc n" using l(3) by (auto simp: less_Suc_eq)
  moreover have "set table' = (\<lambda>x. (entry_key x, fst x)) ` set (xs @ (n, b, p) # ys)" unfolding assms(3) l(4) by (auto simp: k)
  ultimately show ?thesis using assms(4) by (simp add: linked_def)
qed

section \<open>Inserting an entry\<close>

lemma multimap_insert_returns:
  assumes "multimap_insert b p a = Inr (a', j)"
  obtains xs ys where "entries a = xs @ ys" "a' = a\<lparr>benefit_popularity_multimap := xs @ (next_entry a, b, p) # ys, next_entry := Suc (next_entry a)\<rparr>"
    "j = next_entry a" "ordered (entries a) \<longrightarrow> ordered (xs @ (next_entry a, b, p) # ys)"
proof -
  define P where "P = (\<lambda>x :: benefit_entry. \<not> fval_less (f32_val b) (f32_val (fst (snd x))))"
  let ?xs = "takeWhile P (entries a)" and ?ys = "dropWhile P (entries a)"
  have 1: "entries a = ?xs @ ?ys" by simp
  have b: "f32_val b \<noteq> NaN" and 2: "a' = a\<lparr>benefit_popularity_multimap := ?xs @ (next_entry a, b, p) # ?ys, next_entry := Suc (next_entry a)\<rparr>"
    "j = next_entry a" using assms by (auto simp: multimap_insert_def definedE_eq_Inr Let_def P_def dropWhile_eq_drop)
  have "ordered (?xs @ (next_entry a, b, p) # ?ys)" if "ordered (entries a)"
  proof -
    have s: "sorted_wrt less_popular (?xs @ ?ys)" and nan: "\<forall>x \<in> set (entries a). f32_val (fst (snd x)) \<noteq> NaN"
      using that by (simp_all add: ordered_def)
    have front: "\<forall>x \<in> set ?xs. less_popular x (next_entry a, b, p)" by (auto simp: less_popular_def P_def dest: set_takeWhileD)
    have behind: "less_popular (next_entry a, b, p) y" if y: "y \<in> set ?ys" for y
    proof -
      obtain z zs where z: "?ys = z # zs" using y by (cases ?ys) auto
      then have "\<not> P z" by (metis hd_dropWhile list.distinct(1) list.sel(1))
      moreover have "z = y \<or> less_popular z y" using s y z by (auto simp: sorted_wrt_append)
      moreover have "f32_val (fst (snd y)) \<noteq> NaN" using nan y by (auto dest: set_dropWhileD)
      ultimately show ?thesis
        using b by (auto simp: less_popular_def P_def fval_less_def split: fval.splits)
    qed
    have "\<forall>x \<in> set ?xs. \<forall>y \<in> set ?ys. less_popular x y" using s unfolding sorted_wrt_append by blast
    moreover have "sorted_wrt less_popular ?xs" "sorted_wrt less_popular ?ys" using s unfolding sorted_wrt_append by blast+
    ultimately have "sorted_wrt less_popular (?xs @ (next_entry a, b, p) # ?ys)"
      using front behind by (simp add: sorted_wrt_append)
    then show ?thesis using b nan by (auto simp: ordered_def dest: set_takeWhileD set_dropWhileD)
  qed
  then show ?thesis using that 1 2 by blast
qed

section \<open>Entries of keys\<close>

lemma popularity_of_Some:
  assumes "linked (entries a) table n" and "x \<in> set (entries a)"
  shows "popularity_of a (entry_key x) = Some (snd (snd x))"
  unfolding popularity_of_def by (rule map_of_is_SomeI) (use assms in \<open>auto simp: linked_def comp_def\<close>)

lemma popularity_of_None: "popularity_of a key = None \<longleftrightarrow> key \<notin> entry_key ` set (entries a)"
  by (simp add: popularity_of_def map_of_eq_None_iff image_image)

lemma popularity_of_in: "popularity_of a key = Some p \<Longrightarrow> \<exists>x \<in> set (entries a). entry_key x = key \<and> snd (snd x) = p"
  by (auto simp: popularity_of_def dest!: map_of_SomeD)

lemma getAggregated_popularity_of:
  assumes "agg_core a"
  shows "PopularityAggregator_getAggregatedUncachedPopularity key a = Inr (popularity_of a key)"
proof -
  have l: "linked (entries a) (perkey_benefit_popularity_table a) (next_entry a)" using assms by (simp add: agg_core_def)
  show ?thesis
  proof (cases "map_of (perkey_benefit_popularity_table a) key")
    case None
    then show ?thesis
      using linked_lookup [OF l, of key] popularity_of_None [of a key] by (simp add: PopularityAggregator_getAggregatedUncachedPopularity_def)
  next
    case (Some i)
    then obtain b p where "map_of (entries a) i = Some (b, p)" "(i, b, p) \<in> set (entries a)" "agg_key p = key"
      using linked_lookup [OF l, of key] by auto
    then show ?thesis
      using Some popularity_of_Some [OF l, of "(i, b, p)"]
      by (simp add: PopularityAggregator_getAggregatedUncachedPopularity_def multimap_entry_def entry_key_def)
  qed
qed

lemma agg_grow_simps [simp]:
  "agg_size_bytes (agg_grow n a) = agg_size_bytes a + n" "entries (agg_grow n a) = entries a"
  "perkey_benefit_popularity_table (agg_grow n a) = perkey_benefit_popularity_table a"
  "perkey_preserved_edgeset (agg_grow n a) = perkey_preserved_edgeset a" "next_entry (agg_grow n a) = next_entry a"
  "agg_edgecnt (agg_grow n a) = agg_edgecnt a" "agg_topk_edgecnt (agg_grow n a) = agg_topk_edgecnt a"
  "popularity_aggregation_capacity_bytes (agg_grow n a) = popularity_aggregation_capacity_bytes a"
  by (simp_all add: agg_grow_def)

lemma agg_shrink_simps [simp]:
  "agg_size_bytes (agg_shrink n a) = Util_uint64Minus (agg_size_bytes a) n" "entries (agg_shrink n a) = entries a"
  "perkey_benefit_popularity_table (agg_shrink n a) = perkey_benefit_popularity_table a"
  "perkey_preserved_edgeset (agg_shrink n a) = perkey_preserved_edgeset a" "next_entry (agg_shrink n a) = next_entry a"
  "agg_edgecnt (agg_shrink n a) = agg_edgecnt a" "agg_topk_edgecnt (agg_shrink n a) = agg_topk_edgecnt a"
  "popularity_aggregation_capacity_bytes (agg_shrink n a) = popularity_aggregation_capacity_bytes a"
  by (simp_all add: agg_shrink_def)

lemma unat_key_bytes [simp]: "unat (key_bytes key) = unat (Key_getKeyLength key)"
  by (simp add: key_bytes_def unat_ucast_u64)

lemma popularity_bytes:
  assumes "popularity_ok a p" and "0 < agg_edgecnt a"
  shows "unat (AggregatedUncachedPopularity_getSizeForCapacity p) = agg_bytes p" and "agg_bytes p < 2 ^ 37"
proof -
  have "agg_bitmap p \<noteq> []" using assms by (auto simp: popularity_ok_def word_less_nat_alt)
  then show "unat (AggregatedUncachedPopularity_getSizeForCapacity p) = agg_bytes p" and "agg_bytes p < 2 ^ 37"
    using assms(1) unat_getSizeForCapacity by (auto simp: popularity_ok_def)
qed

text \<open>Removing an entry, and its bytes.\<close>

lemma erase_entry_bytes:
  assumes "linked (entries a) table n" and "(i, b, p) \<in> set (entries a)"
  shows "sum_list (map entry_bytes (um_erase i (entries a))) + entry_bytes (i, b, p) = sum_list (map entry_bytes (entries a))"
  using sum_um_erase [of "entries a" i "(b, p)" entry_bytes] assms by (simp add: linked_def)

lemma entry_bytes_alt: "entry_bytes (i, b, p) = 12 + agg_bytes p + unat (Key_getKeyLength (agg_key p))"
  by (simp add: entry_bytes_def entry_key_def)

lemma ordered_erase: "ordered m \<Longrightarrow> ordered (um_erase i m)"
  by (auto simp: ordered_def um_erase_filter sorted_wrt_filter)

lemma popularity_of_eq_Some:
  assumes "linked (entries a) table n"
  shows "popularity_of a key = Some p \<longleftrightarrow> (\<exists>x \<in> set (entries a). entry_key x = key \<and> snd (snd x) = p)"
  using popularity_of_in [of a key p] popularity_of_Some [OF assms] by auto

lemma map_eq_SomeI: "(\<And>k v. m k = Some v \<longleftrightarrow> n k = Some v) \<Longrightarrow> m = n"
  by (rule ext) (metis not_Some_eq)

definition same_config :: "popularity_aggregator \<Rightarrow> popularity_aggregator \<Rightarrow> bool" where
  "same_config a a' \<longleftrightarrow> agg_edgecnt a' = agg_edgecnt a \<and> agg_topk_edgecnt a' = agg_topk_edgecnt a
     \<and> popularity_aggregation_capacity_bytes a' = popularity_aggregation_capacity_bytes a"

text \<open>The popularity of one key is set or removed, and nothing else changes.\<close>

definition replaced :: "key \<Rightarrow> aggregated_uncached_popularity option \<Rightarrow> popularity_aggregator \<Rightarrow> popularity_aggregator \<Rightarrow> bool" where
  "replaced key v a a' \<longleftrightarrow> agg_core a' \<and> popularity_of a' = (popularity_of a)(key := v)
     \<and> perkey_preserved_edgeset a' = perkey_preserved_edgeset a \<and> same_config a a'"

definition key_entry_bytes :: "aggregated_uncached_popularity option \<Rightarrow> nat" where
  "key_entry_bytes v = (case v of None \<Rightarrow> 0 | Some p \<Rightarrow> 12 + agg_bytes p + unat (Key_getKeyLength (agg_key p)))"

lemma key_entry_bytes_simps [simp]:
  "key_entry_bytes None = 0" "key_entry_bytes (Some p) = 12 + agg_bytes p + unat (Key_getKeyLength (agg_key p))"
  by (simp_all add: key_entry_bytes_def)

lemma key_entry_small: "popularity_ok a p \<Longrightarrow> 0 < agg_edgecnt a \<Longrightarrow> key_entry_bytes (Some p) < 2 ^ 38"
  using popularity_bytes(2) [of a p] unat_less_32 [of "Key_getKeyLength (agg_key p)"] by simp

lemma insert_entry:
  assumes "agg_core a" and "popularity_of a (agg_key p) = None" and "popularity_ok a p" and "0 < bits (agg_bitmap p)"
    and "entries a = xs @ ys" and "entries a' = xs @ (next_entry a, b, p) # ys" and "next_entry a' = Suc (next_entry a)"
    and "ordered (entries a')" and "um_wf (perkey_benefit_popularity_table a')"
    and "set (perkey_benefit_popularity_table a') = insert (agg_key p, next_entry a) (set (perkey_benefit_popularity_table a))"
    and "unat (agg_size_bytes a') = unat (agg_size_bytes a) + key_entry_bytes (Some p)"
    and "same_config a a'" and "perkey_preserved_edgeset a' = perkey_preserved_edgeset a"
  shows "replaced (agg_key p) (Some p) a a'" and "total_bytes a' = total_bytes a + key_entry_bytes (Some p)"
proof -
  let ?key = "agg_key p"
  have core: "linked (entries a) (perkey_benefit_popularity_table a) (next_entry a)" "unat (agg_size_bytes a) = total_bytes a"
    using assms(1) by (simp_all add: agg_core_def)
  have new: "?key \<notin> entry_key ` set (entries a)" using assms(2) by (simp add: popularity_of_None)
  have link: "linked (entries a') (perkey_benefit_popularity_table a') (next_entry a')"
    unfolding assms(6,7) by (rule linked_insert [where table = "perkey_benefit_popularity_table a"])
      (use core(1) new assms(5,9,10) in simp_all)
  show tot: "total_bytes a' = total_bytes a + key_entry_bytes (Some p)"
    by (simp add: total_bytes_def assms(5,6,13) entry_bytes_alt)
  have pop: "popularity_of a' = (popularity_of a)(?key := Some p)"
  proof (rule map_eq_SomeI)
    fix k v
    have "popularity_of a' k = Some v \<longleftrightarrow> (\<exists>x \<in> insert (next_entry a, b, p) (set (entries a)). entry_key x = k \<and> snd (snd x) = v)"
      using popularity_of_eq_Some [OF link] by (auto simp: assms(5,6))
    also have "\<dots> \<longleftrightarrow> (?key = k \<and> p = v) \<or> (\<exists>x \<in> set (entries a). entry_key x = k \<and> snd (snd x) = v)"
      by (simp add: entry_key_def)
    also have "\<dots> \<longleftrightarrow> (?key = k \<and> p = v) \<or> popularity_of a k = Some v" using popularity_of_eq_Some [OF core(1), of k v] by simp
    finally show "popularity_of a' k = Some v \<longleftrightarrow> ((popularity_of a)(?key := Some p)) k = Some v" using assms(2) by auto
  qed
  have "\<forall>x \<in> set (entries a'). popularity_ok a' (snd (snd x)) \<and> 0 < bits (agg_bitmap (snd (snd x)))"
    using assms(1,3,4,12) unfolding assms(6) by (auto simp: agg_core_def popularity_ok_def same_config_def assms(5))
  then have "agg_core a'" using assms(1,8,11,12,13) link tot core(2) by (simp add: agg_core_def same_config_def)
  then show "replaced ?key (Some p) a a'" using pop assms(12,13) by (simp add: replaced_def)
qed

lemma addBenefit_ok:
  assumes "PopularityAggregator_addBenefitPopularityForNewKey reward key p g a = Inr a'" and "agg_core a"
    and "popularity_ok a p" and "0 < bits (agg_bitmap p)" and "agg_key p = key" and "total_bytes a < 2 ^ 63"
  shows "replaced key (Some p) a a' \<and> total_bytes a' = total_bytes a + key_entry_bytes (Some p)"
proof -
  let ?t = "perkey_benefit_popularity_table a"
  from assms(1) obtain benefit a1 j where none: "map_of ?t key = None" and ins: "multimap_insert benefit p a = Inr (a1, j)"
    and a': "a' = agg_grow 8 (agg_grow (key_bytes key)
        ((agg_grow (AggregatedUncachedPopularity_getSizeForCapacity p) (agg_grow 4 a1))\<lparr>perkey_benefit_popularity_table :=
          um_insert key j (perkey_benefit_popularity_table a1)\<rparr>))"
    by (auto simp: PopularityAggregator_addBenefitPopularityForNewKey_def assertE_eq_Inr bindE_eq_Inr Let_def)
  from ins obtain xs ys where e: "entries a = xs @ ys"
    and a1: "a1 = a\<lparr>benefit_popularity_multimap := xs @ (next_entry a, benefit, p) # ys, next_entry := Suc (next_entry a)\<rparr>"
    and j: "j = next_entry a" and ord: "ordered (entries a) \<longrightarrow> ordered (xs @ (next_entry a, benefit, p) # ys)"
    by (rule multimap_insert_returns)
  have core: "linked (entries a) ?t (next_entry a)" "ordered (entries a)" "0 < agg_edgecnt a" "unat (agg_size_bytes a) = total_bytes a"
    using assms(2) by (simp_all add: agg_core_def)
  have absent: "popularity_of a (agg_key p) = None"
    using linked_lookup [OF core(1), of key] none by (simp add: popularity_of_None assms(5))
  have t': "perkey_benefit_popularity_table a' = ?t @ [(key, next_entry a)]" using none by (simp add: a' a1 j um_insert_def)
  have wf: "um_wf (?t @ [(key, next_entry a)])" using core(1) none by (simp add: linked_def map_of_eq_None_iff)
  have small: "key_entry_bytes (Some p) < 2 ^ 38" using key_entry_small assms(3) core(3) by blast
  have "unat (agg_size_bytes a') = unat (agg_size_bytes a) + 4 + agg_bytes p + unat (Key_getKeyLength key) + 8"
    using assms(6) core(4) small popularity_bytes(1) [OF assms(3) core(3)] by (simp add: a' a1 unat_add_no_wrap assms(5))
  then have sz: "unat (agg_size_bytes a') = unat (agg_size_bytes a) + key_entry_bytes (Some p)" using assms(5) by simp
  have r: "entries a' = xs @ (next_entry a, benefit, p) # ys" "next_entry a' = Suc (next_entry a)" "ordered (entries a')"
    "um_wf (perkey_benefit_popularity_table a')"
    "set (perkey_benefit_popularity_table a') = insert (agg_key p, next_entry a) (set ?t)"
    using ord core(2) wf unfolding t' by (simp_all add: a' a1 assms(5))
  show ?thesis using insert_entry [OF assms(2) absent assms(3,4) e r sz] assms(5) by (simp add: same_config_def a' a1)
qed

lemma updateBenefit_empty:
  assumes "agg_core a" and "map_of (perkey_benefit_popularity_table a) key = Some i" and "(i, b, old) \<in> set (entries a)" and "agg_key old = key"
  defines "a' \<equiv> agg_shrink 8 (agg_shrink (key_bytes key) ((agg_shrink (AggregatedUncachedPopularity_getSizeForCapacity old) (agg_shrink 4 a))
      \<lparr>benefit_popularity_multimap := um_erase i (entries a),
       perkey_benefit_popularity_table := um_erase key (perkey_benefit_popularity_table a)\<rparr>))"
  shows "replaced key None a a'" and "total_bytes a' + key_entry_bytes (Some old) = total_bytes a"
proof -
  let ?t = "perkey_benefit_popularity_table a"
  have core: "linked (entries a) ?t (next_entry a)" "ordered (entries a)" "0 < agg_edgecnt a" "unat (agg_size_bytes a) = total_bytes a"
    and old: "popularity_ok a old" using assms(1,3) by (auto simp: agg_core_def)
  note pb = popularity_bytes(1) [OF old core(3)]
  have link: "linked (entries a') (perkey_benefit_popularity_table a') (next_entry a')"
    using linked_erase [OF core(1) assms(3)] by (simp add: a'_def assms(4))
  show tot: "total_bytes a' + key_entry_bytes (Some old) = total_bytes a"
    using erase_entry_bytes [OF core(1) assms(3)] by (simp add: total_bytes_def a'_def entry_bytes_alt)
  then have sz: "unat (agg_size_bytes a') = total_bytes a'"
    using core(4) pb by (simp add: a'_def unat_uint64Minus assms(4))
  have pop: "popularity_of a' = (popularity_of a)(key := None)"
  proof (rule map_eq_SomeI)
    fix k v
    have "fst x \<noteq> i \<longleftrightarrow> entry_key x \<noteq> key" if "x \<in> set (entries a)" for x
      using linked_same [OF core(1) that assms(3)] assms(4) by (auto simp: entry_key_def)
    then have "set (entries a') = {x \<in> set (entries a). entry_key x \<noteq> key}" by (auto simp: a'_def set_um_erase)
    then have "popularity_of a' k = Some v \<longleftrightarrow> (\<exists>x \<in> {x \<in> set (entries a). entry_key x \<noteq> key}. entry_key x = k \<and> snd (snd x) = v)"
      using popularity_of_eq_Some [OF link, of k v] by simp
    also have "\<dots> \<longleftrightarrow> k \<noteq> key \<and> (\<exists>x \<in> set (entries a). entry_key x = k \<and> snd (snd x) = v)" by blast
    also have "\<dots> \<longleftrightarrow> k \<noteq> key \<and> popularity_of a k = Some v" using popularity_of_eq_Some [OF core(1), of k v] by simp
    finally show "popularity_of a' k = Some v \<longleftrightarrow> ((popularity_of a)(key := None)) k = Some v" by simp
  qed
  have "agg_core a'" unfolding agg_core_def
    using assms(1) link ordered_erase [OF core(2)] sz by (auto simp: agg_core_def a'_def popularity_ok_def set_um_erase)
  then show "replaced key None a a'" using pop by (simp add: replaced_def same_config_def a'_def)
qed

lemma updateBenefit_ok:
  assumes "PopularityAggregator_updateBenefitPopularityForExistingKey reward key p is_empty g a = Inr a'" and "agg_core a"
    and "popularity_ok a p" and "is_empty \<longleftrightarrow> bits (agg_bitmap p) = 0" and "agg_key p = key" and "total_bytes a < 2 ^ 63"
    and "popularity_of a key = Some old"
  defines "v \<equiv> (if is_empty then None else Some p)"
  shows "replaced key v a a' \<and> total_bytes a' + key_entry_bytes (Some old) = total_bytes a + key_entry_bytes v"
proof -
  let ?t = "perkey_benefit_popularity_table a"
  have core: "linked (entries a) ?t (next_entry a)" "ordered (entries a)" "0 < agg_edgecnt a" "unat (agg_size_bytes a) = total_bytes a"
    using assms(2) by (simp_all add: agg_core_def)
  from assms(1) obtain i where i: "map_of ?t key = Some i"
    by (auto simp: PopularityAggregator_updateBenefitPopularityForExistingKey_def split: option.splits)
  then obtain b q where e: "map_of (entries a) i = Some (b, q)" "(i, b, q) \<in> set (entries a)" "agg_key q = key"
    using linked_lookup [OF core(1), of key] by auto
  have q: "q = old" using popularity_of_Some [OF core(1) e(2)] e(3) assms(7) by (simp add: entry_key_def)
  define a1 where "a1 = (agg_shrink (AggregatedUncachedPopularity_getSizeForCapacity old) (agg_shrink 4 a))\<lparr>benefit_popularity_multimap := um_erase i (entries a)\<rparr>"
  define a2 where "a2 = agg_shrink 8 (agg_shrink (key_bytes key) (a1\<lparr>perkey_benefit_popularity_table := um_erase key ?t\<rparr>))"
  note rep = updateBenefit_empty [OF assms(2) i e(2,3)]
  have a2: "replaced key None a a2" "total_bytes a2 + key_entry_bytes (Some old) = total_bytes a"
    using rep by (simp_all add: a2_def a1_def q)
  show ?thesis
  proof (cases is_empty)
    case True
    then have "a' = a2"
      using assms(1) i e(1) q by (simp add: PopularityAggregator_updateBenefitPopularityForExistingKey_def multimap_entry_def Let_def a2_def a1_def)
    then show ?thesis using a2 True by (simp add: v_def)
  next
    case False
    with assms(1) i e(1) q obtain benefit a3 j where ins: "multimap_insert benefit p a1 = Inr (a3, j)"
      and a': "a' = (agg_grow (AggregatedUncachedPopularity_getSizeForCapacity p) (agg_grow 4 a3))\<lparr>perkey_benefit_popularity_table :=
          um_put key j (perkey_benefit_popularity_table a3)\<rparr>"
      by (auto simp: PopularityAggregator_updateBenefitPopularityForExistingKey_def multimap_entry_def Let_def bindE_eq_Inr a1_def)
    from ins obtain xs ys where es: "entries a1 = xs @ ys"
      and a3: "a3 = a1\<lparr>benefit_popularity_multimap := xs @ (next_entry a1, benefit, p) # ys, next_entry := Suc (next_entry a1)\<rparr>"
      and j: "j = next_entry a1" and ord: "ordered (entries a1) \<longrightarrow> ordered (xs @ (next_entry a1, benefit, p) # ys)"
      by (rule multimap_insert_returns)
    have n: "next_entry a1 = next_entry a2" "entries a2 = xs @ ys" "perkey_benefit_popularity_table a1 = ?t"
      "perkey_benefit_popularity_table a2 = um_erase key ?t" using es by (simp_all add: a1_def a2_def)
    have core2: "agg_core a2" "popularity_of a2 (agg_key p) = None" using a2(1) by (simp_all add: replaced_def assms(5))
    have ok2: "popularity_ok a2 p" using assms(3) by (simp add: popularity_ok_def a2_def a1_def)
    have wf: "um_wf ?t" using core(1) by (simp add: linked_def)
    have "ordered (xs @ ys)" using core2(1) n(2) by (simp add: agg_core_def)
    then have r: "entries a' = xs @ (next_entry a2, benefit, p) # ys" "next_entry a' = Suc (next_entry a2)" "ordered (entries a')"
      "um_wf (perkey_benefit_popularity_table a')"
      "set (perkey_benefit_popularity_table a') = insert (agg_key p, next_entry a2) (set (perkey_benefit_popularity_table a2))"
      using ord es wf set_um_put [OF wf] by (simp_all add: a' a3 j n assms(5))
    have old: "popularity_ok a old" using assms(2) e(2) q by (auto simp: agg_core_def)
    have s1: "unat (agg_size_bytes a1) = total_bytes a - 4 - agg_bytes old"
      using core(4) popularity_bytes(1) [OF old core(3)] by (simp add: a1_def unat_uint64Minus)
    have s2: "unat (agg_size_bytes a2) + 8 + unat (Key_getKeyLength key) = unat (agg_size_bytes a1)"
      using s1 a2(2) e(3) q by (simp add: a2_def unat_uint64Minus)
    have s3: "agg_size_bytes a' = agg_size_bytes a1 + 4 + AggregatedUncachedPopularity_getSizeForCapacity p" by (simp add: a' a3)
    have "unat (agg_size_bytes a') = unat (agg_size_bytes a1) + 4 + agg_bytes p"
      unfolding s3 using assms(6) key_entry_small [OF assms(3) core(3)] popularity_bytes(1) [OF assms(3) core(3)] s1
      by (simp add: unat_add_no_wrap)
    then have sz: "unat (agg_size_bytes a') = unat (agg_size_bytes a2) + key_entry_bytes (Some p)" using s2 assms(5) by simp
    have "0 < bits (agg_bitmap p)" using assms(4) False by simp
    note ie = insert_entry [OF core2 ok2 this n(2) r sz]
    have "replaced key (Some p) a2 a'" "total_bytes a' = total_bytes a2 + key_entry_bytes (Some p)"
      using ie by (simp_all add: same_config_def a' a3 a2_def a1_def assms(5))
    then show ?thesis using a2 False by (simp add: replaced_def same_config_def v_def)
  qed
qed

end
