(* ===== verification/Aggregator_Runs.thy ===== *)
theory Aggregator_Runs
  imports Aggregator_Facts
begin

text \<open>
  Runs of \<open>PopularityAggregator\<close>: the loop that keeps to the capacity, the effect of every request on the popularities and the
  preserved nodes, and the states a beacon can reach.
\<close>

section \<open>Discarding the least beneficial keys\<close>

lemma um_erase_hd: "um_wf ((i, x) # m) \<Longrightarrow> um_erase i ((i, x) # m) = m"
  by (auto simp: um_erase_filter filter_id_conv intro: rev_image_eqI)

lemma discard_step:
  assumes "agg_core a" and "\<not> agg_size_bytes a \<le> popularity_aggregation_capacity_bytes a" and "entries a = (i, b, p) # rest"
  obtains a1 where "PopularityAggregator_discardGlobalLessPopularObjects a = PopularityAggregator_discardGlobalLessPopularObjects a1"
    "replaced (agg_key p) None a a1" "entries a1 = rest"
proof -
  let ?t = "perkey_benefit_popularity_table a"
  have link: "linked (entries a) ?t (next_entry a)" using assms(1) by (simp add: agg_core_def)
  have el: "(i, b, p) \<in> set (entries a)" by (simp add: assms(3))
  then have "(agg_key p, i) \<in> set ?t" using link by (force simp: linked_def entry_key_def)
  then have t: "map_of ?t (agg_key p) = Some i" using link by (simp add: linked_def)
  have er: "um_erase i (entries a) = rest" using link um_erase_hd [of i "(b, p)" rest] by (simp add: assms(3) linked_def)
  define a1 where "a1 = agg_shrink 8 (agg_shrink (key_bytes (agg_key p)) ((agg_shrink (AggregatedUncachedPopularity_getSizeForCapacity p) (agg_shrink 4 a))
      \<lparr>benefit_popularity_multimap := um_erase i (entries a),
       perkey_benefit_popularity_table := um_erase (agg_key p) ?t\<rparr>))"
  have "PopularityAggregator_discardGlobalLessPopularObjects a = PopularityAggregator_discardGlobalLessPopularObjects a1"
    using assms(2) t by (subst PopularityAggregator_discardGlobalLessPopularObjects.simps)
      (simp add: assms(3) a1_def er [unfolded assms(3)] agg_shrink_def)
  moreover have "replaced (agg_key p) None a a1" using updateBenefit_empty(1) [OF assms(1) t el] by (simp add: a1_def)
  moreover have "entries a1 = rest" by (simp add: a1_def er)
  ultimately show ?thesis using that by blast
qed

definition preserved_total :: "popularity_aggregator \<Rightarrow> nat" where
  "preserved_total a = sum_list (map preserved_bytes (perkey_preserved_edgeset a))"

definition discarded :: "nat \<Rightarrow> popularity_aggregator \<Rightarrow> popularity_aggregator \<Rightarrow> bool" where
  "discarded n a a' \<longleftrightarrow> agg_core a' \<and> entries a' = drop n (entries a) \<and> perkey_preserved_edgeset a' = perkey_preserved_edgeset a
     \<and> same_config a a' \<and> agg_size_bytes a' \<le> popularity_aggregation_capacity_bytes a
     \<and> (\<forall>m < n. unat (popularity_aggregation_capacity_bytes a) < sum_list (map entry_bytes (drop m (entries a))) + preserved_total a)"

lemma discard_ok:
  assumes "agg_core a"
  shows "case PopularityAggregator_discardGlobalLessPopularObjects a of
      Inl e \<Rightarrow> e = AssertFailed \<and> unat (popularity_aggregation_capacity_bytes a) < preserved_total a
    | Inr a' \<Rightarrow> \<exists>n. discarded n a a'"
  using assms
proof (induction "entries a" arbitrary: a)
  case Nil
  have "unat (agg_size_bytes a) = preserved_total a" using Nil by (simp add: agg_core_def total_bytes_def preserved_total_def)
  moreover have "discarded 0 a a" if "agg_size_bytes a \<le> popularity_aggregation_capacity_bytes a"
    using that Nil.prems by (simp add: discarded_def same_config_def)
  ultimately show ?case
    using Nil.hyps by (subst PopularityAggregator_discardGlobalLessPopularObjects.simps) (auto simp: word_le_nat_alt)
next
  case (Cons x rest)
  show ?case
  proof (cases "agg_size_bytes a \<le> popularity_aggregation_capacity_bytes a")
    case True
    then have "discarded 0 a a" using Cons.prems by (simp add: discarded_def same_config_def)
    then show ?thesis using True by (subst PopularityAggregator_discardGlobalLessPopularObjects.simps) auto
  next
    case False
    obtain i b p where x: "x = (i, b, p)" by (cases x) auto
    have e: "entries a = (i, b, p) # rest" using Cons.hyps(2) x by simp
    from discard_step [OF Cons.prems False e] obtain a1 where
      d: "PopularityAggregator_discardGlobalLessPopularObjects a = PopularityAggregator_discardGlobalLessPopularObjects a1"
      and r: "replaced (agg_key p) None a a1" and e1: "entries a1 = rest" .
    have c: "agg_core a1" "perkey_preserved_edgeset a1 = perkey_preserved_edgeset a" "same_config a a1" using r by (simp_all add: replaced_def)
    then have pt: "preserved_total a1 = preserved_total a" by (simp add: preserved_total_def)
    have big: "unat (popularity_aggregation_capacity_bytes a) < sum_list (map entry_bytes (entries a)) + preserved_total a"
      using False Cons.prems by (simp add: agg_core_def total_bytes_def preserved_total_def word_le_nat_alt)
    have step: "discarded (Suc n) a a'" if "discarded n a1 a'" for n a'
      using that c big pt e e1 by (auto simp: discarded_def same_config_def less_Suc_eq_0_disj)
    show ?thesis
    proof (cases "PopularityAggregator_discardGlobalLessPopularObjects a1")
      case (Inl err)
      then show ?thesis using Cons.hyps(1) [OF _ c(1)] e1 d pt c(3) by (simp add: same_config_def)
    next
      case (Inr a')
      then obtain n where "discarded n a1 a'" using Cons.hyps(1) [OF _ c(1)] e1 by auto
      then show ?thesis using step d Inr by auto
    qed
  qed
qed

section \<open>Invariant\<close>

text \<open>No node that is preserved for a placement of a key has a popularity of the key reported.\<close>

definition disjoint_bits :: "nat \<Rightarrow> bool list \<Rightarrow> bool list \<Rightarrow> bool" where
  "disjoint_bits n bs cs \<longleftrightarrow> (\<forall>e :: u32. unat e < n \<longrightarrow> \<not> (bs ! unat e \<and> cs ! unat e))"

definition apart :: "popularity_aggregator \<Rightarrow> bool" where
  "apart a \<longleftrightarrow> (\<forall>key bm p. map_of (perkey_preserved_edgeset a) key = Some bm \<longrightarrow> popularity_of a key = Some p \<longrightarrow>
     disjoint_bits (unat (agg_edgecnt a)) bm (agg_bitmap p))"

definition agg_inv :: "popularity_aggregator \<Rightarrow> bool" where
  "agg_inv a \<longleftrightarrow> agg_core a \<and> apart a \<and> agg_size_bytes a \<le> popularity_aggregation_capacity_bytes a
     \<and> unat (popularity_aggregation_capacity_bytes a) < 2 ^ 62"

lemma agg_inv_total: "agg_inv a \<Longrightarrow> total_bytes a < 2 ^ 62"
  by (simp add: agg_inv_def agg_core_def word_le_nat_alt)

lemma apart_replaced:
  assumes "apart a" and "replaced key v a a'"
    and "\<And>q bm. v = Some q \<Longrightarrow> map_of (perkey_preserved_edgeset a) key = Some bm \<Longrightarrow> disjoint_bits (unat (agg_edgecnt a)) bm (agg_bitmap q)"
  shows "apart a'"
  using assms by (auto simp: apart_def replaced_def same_config_def split: if_splits)

lemma apart_discarded:
  assumes "apart a" and "agg_core a" and "discarded n a a'"
  shows "apart a'"
proof -
  have l: "linked (entries a) (perkey_benefit_popularity_table a) (next_entry a)"
      "linked (entries a') (perkey_benefit_popularity_table a') (next_entry a')"
    using assms(2,3) unfolding agg_core_def discarded_def by blast+
  have "popularity_of a key = Some p" if "popularity_of a' key = Some p" for key p
    using that unfolding popularity_of_eq_Some [OF l(1)] popularity_of_eq_Some [OF l(2)]
    using assms(3) by (auto simp: discarded_def dest: in_set_dropD)
  then show ?thesis using assms(1,3) by (simp add: apart_def discarded_def same_config_def)
qed

lemma discard_inv:
  assumes "PopularityAggregator_discardGlobalLessPopularObjects a = Inr a'" and "agg_core a" and "apart a"
    and "unat (popularity_aggregation_capacity_bytes a) < 2 ^ 62"
  shows "agg_inv a'"
proof -
  obtain n where "discarded n a a'" using discard_ok [OF assms(2)] assms(1) by auto
  then show ?thesis using apart_discarded [OF assms(3,2)] assms(4) by (simp add: agg_inv_def discarded_def same_config_def)
qed

section \<open>Reports\<close>

lemma existing_ok:
  assumes "PopularityAggregator_updateAggregatedUncachedPopularityForExistingKey reward key e tracked x n g a = Inr (a', success)"
    and "agg_core a" and "total_bytes a < 2 ^ 63"
  obtains p q v where "popularity_of a key = Some p" "replaced key v a a'" "v = None \<or> v = Some q" "unat e < unat (agg_edgecnt a)"
    "agg_bitmap q = (agg_bitmap p)[unat e := tracked]" "\<not> tracked \<longrightarrow> total_bytes a' \<le> total_bytes a"
    "length (agg_bitmap p) = unat (agg_edgecnt a)" "success \<longleftrightarrow> tracked \<or> agg_bitmap p ! unat e"
proof -
  let ?k = "agg_topk_edgecnt a"
  have l: "linked (entries a) (perkey_benefit_popularity_table a) (next_entry a)" using assms(2) by (simp add: agg_core_def)
  from assms(1) obtain p q em where p: "popularity_of a key = Some p"
    and up: "(if tracked then bindE (AggregatedUncachedPopularity_update e x ?k n p) (\<lambda>p. Inr (p, False, True))
              else AggregatedUncachedPopularity_clear e p) = Inr (q, em, success)"
    and ben: "PopularityAggregator_updateBenefitPopularityForExistingKey reward key q em g a = Inr a'"
    by (auto simp: PopularityAggregator_updateAggregatedUncachedPopularityForExistingKey_def getAggregated_popularity_of [OF assms(2)]
        bindE_eq_Inr split: option.splits)
  have ok: "popularity_ok a p" "agg_key p = key"
    using p assms(2) unfolding popularity_of_eq_Some [OF l] by (auto simp: agg_core_def entry_key_def)
  have q: "agg_ok ?k q \<and> marked e tracked p q \<and> unat e < length (agg_bitmap p) \<and> (em \<longleftrightarrow> bits (agg_bitmap q) = 0)
      \<and> (success \<longleftrightarrow> tracked \<or> agg_bitmap p ! unat e) \<and> (\<not> tracked \<longrightarrow> length (topk q) \<le> length (topk p))"
  proof (cases tracked)
    case True
    then have u: "AggregatedUncachedPopularity_update e x ?k n p = Inr q" and r: "\<not> em" "success" using up by (auto simp: bindE_eq_Inr)
    have k: "agg_ok ?k p" using ok(1) by (simp add: popularity_ok_def)
    note o = update_ok(1-3) [OF u k]
    then have "0 < bits (agg_bitmap q)" using bits_pos [of "unat e" "agg_bitmap q"] by (simp add: popularity_ok_def marked_def)
    then show ?thesis using o r True by simp
  next
    case False
    then have "AggregatedUncachedPopularity_clear e p = Inr (q, em, success)" using up by simp
    moreover have k: "agg_ok ?k p" using ok(1) by (simp add: popularity_ok_def)
    ultimately show ?thesis
      using clear_report_ok [of e p q em success ?k] without_simps(4) [of e "topk p"] False by simp
  qed
  have qok: "popularity_ok a q" "agg_key q = key" using q ok by (simp_all add: popularity_ok_def marked_def)
  have em: "em \<longleftrightarrow> bits (agg_bitmap q) = 0" using q by blast
  note rep = updateBenefit_ok [OF ben assms(2) qok(1) em qok(2) assms(3) p]
  have "agg_bytes q \<le> agg_bytes p" if "\<not> tracked" using q that by (simp add: agg_bytes_def marked_def)
  then have "total_bytes a' \<le> total_bytes a" if "\<not> tracked" using rep that ok(2) qok(2) by (cases em) simp_all
  then show ?thesis
    using that [of p "if em then None else Some q" q] rep p q ok(1) by (auto simp: marked_def popularity_ok_def)
qed

lemma new_key_ok:
  assumes "PopularityAggregator_addAggregatedUncachedPopularityForNewKey reward key e x n g a = Inr a'"
    and "agg_core a" and "total_bytes a < 2 ^ 63"
  obtains q where "replaced key (Some q) a a'" "agg_bitmap q = (replicate (unat (agg_edgecnt a)) False)[unat e := True]"
proof -
  let ?p = "AggregatedUncachedPopularity_new key (agg_edgecnt a)" and ?k = "agg_topk_edgecnt a"
  from assms(1) obtain q where u: "AggregatedUncachedPopularity_update e x ?k n ?p = Inr q"
    and add: "PopularityAggregator_addBenefitPopularityForNewKey reward key q g a = Inr a'"
    by (auto simp: PopularityAggregator_addAggregatedUncachedPopularityForNewKey_def bindE_eq_Inr assertE_eq_Inr)
  note o = update_ok(1-3) [OF u agg_ok_new]
  have m: "agg_bitmap q = (replicate (unat (agg_edgecnt a)) False)[unat e := True]" "agg_key q = key" "unat e < unat (agg_edgecnt a)"
    using o(2,3) by (simp_all add: marked_def AggregatedUncachedPopularity_new_def)
  have "popularity_ok a q" using o(1) m by (simp add: popularity_ok_def)
  moreover have "0 < bits (agg_bitmap q)" using bits_pos [of "unat e" "agg_bitmap q"] m by simp
  ultimately show ?thesis using that addBenefit_ok [OF add assms(2) _ _ m(2) assms(3)] m(1) by blast
qed

lemma update_request_cases:
  assumes "PopularityAggregator_updateAggregatedUncachedPopularity reward key e c g is_source_cached hint a = Inr (a', hint')"
  obtains (added) a1 where
      "PopularityAggregator_addAggregatedUncachedPopularityForNewKey reward key e (collected_local_uncached_popularity c)
         (collected_object_size c) g a = Inr a1"
      "PopularityAggregator_discardGlobalLessPopularObjects a1 = Inr a'"
      "\<forall>bm. map_of (perkey_preserved_edgeset a) key = Some bm \<longrightarrow> \<not> bm ! unat e"
  | (updated) a1 where
      "PopularityAggregator_updateAggregatedUncachedPopularityForExistingKey reward key e True (collected_local_uncached_popularity c)
         (collected_object_size c) g a = Inr (a1, True)"
      "PopularityAggregator_discardGlobalLessPopularObjects a1 = Inr a'"
      "\<forall>bm. map_of (perkey_preserved_edgeset a) key = Some bm \<longrightarrow> \<not> bm ! unat e"
  | (cleared) success where
      "PopularityAggregator_updateAggregatedUncachedPopularityForExistingKey reward key e False 0 0 g a = Inr (a', success)"
  | (same) "a' = a"
  using assms
  by (auto simp: PopularityAggregator_updateAggregatedUncachedPopularity_def Let_def bindE_eq_Inr assertE_eq_Inr
      CollectedPopularity_getLocalUncachedPopularity_def CollectedPopularity_getObjectSize_def PreservedEdgeset_isPreserved_def
      split: if_splits option.splits)

lemma discard_after:
  assumes "PopularityAggregator_discardGlobalLessPopularObjects a1 = Inr a'" and "replaced key v a a1" and "agg_inv a" and "apart a1"
  shows "agg_inv a'"
  using discard_inv [OF assms(1)] assms(2-4) by (simp add: replaced_def same_config_def agg_inv_def)

lemma disjoint_bits_set:
  assumes "disjoint_bits n bs cs" and "\<not> bs ! unat e" and "length cs = n"
  shows "disjoint_bits n bs (cs[unat e := b])"
  using assms by (auto simp: disjoint_bits_def nth_list_update_at split: if_splits)

lemma disjoint_bits_clear: "disjoint_bits n bs cs \<Longrightarrow> length cs = n \<Longrightarrow> disjoint_bits n bs (cs[unat e := False])"
  by (auto simp: disjoint_bits_def nth_list_update_at split: if_splits)

lemma update_request_inv:
  assumes "PopularityAggregator_updateAggregatedUncachedPopularity reward key e c g is_source_cached hint a = Inr (a', hint')" and "agg_inv a"
  shows "agg_inv a'"
proof -
  have core: "agg_core a" "apart a" and tot: "total_bytes a < 2 ^ 63" using assms(2) agg_inv_total [OF assms(2)] by (simp_all add: agg_inv_def)
  from assms(1) show ?thesis
  proof (cases rule: update_request_cases)
    case (added a1)
    from new_key_ok [OF added(1) core(1) tot] obtain q where r: "replaced key (Some q) a a1"
      and q: "agg_bitmap q = (replicate (unat (agg_edgecnt a)) False)[unat e := True]" .
    have "disjoint_bits (unat (agg_edgecnt a)) bm (agg_bitmap q)" if "map_of (perkey_preserved_edgeset a) key = Some bm" for bm
      unfolding q by (rule disjoint_bits_set) (use that added(3) in \<open>auto simp: disjoint_bits_def\<close>)
    then have "apart a1" using apart_replaced [OF core(2) r] by blast
    then show ?thesis using discard_after [OF added(2) r assms(2)] by blast
  next
    case (updated a1)
    from existing_ok [OF updated(1) core(1) tot] obtain p q v where p: "popularity_of a key = Some p" and r: "replaced key v a a1"
      and v: "v = None \<or> v = Some q" and "unat e < unat (agg_edgecnt a)" and q: "agg_bitmap q = (agg_bitmap p)[unat e := True]"
      and "\<not> True \<longrightarrow> total_bytes a1 \<le> total_bytes a" and len: "length (agg_bitmap p) = unat (agg_edgecnt a)"
      and "True \<longleftrightarrow> True \<or> agg_bitmap p ! unat e" .
    have "disjoint_bits (unat (agg_edgecnt a)) bm (agg_bitmap q)" if "map_of (perkey_preserved_edgeset a) key = Some bm" for bm
      unfolding q by (rule disjoint_bits_set) (use that updated(3) core(2) p len in \<open>auto simp: apart_def\<close>)
    then have "apart a1" using apart_replaced [OF core(2) r] v by blast
    then show ?thesis using discard_after [OF updated(2) r assms(2)] by blast
  next
    case (cleared success)
    from existing_ok [OF cleared core(1) tot] obtain p q v where p: "popularity_of a key = Some p" and r: "replaced key v a a'"
      and v: "v = None \<or> v = Some q" and "unat e < unat (agg_edgecnt a)" and q: "agg_bitmap q = (agg_bitmap p)[unat e := False]"
      and le: "\<not> False \<longrightarrow> total_bytes a' \<le> total_bytes a" and len: "length (agg_bitmap p) = unat (agg_edgecnt a)"
      and "success \<longleftrightarrow> False \<or> agg_bitmap p ! unat e" .
    have "disjoint_bits (unat (agg_edgecnt a)) bm (agg_bitmap q)" if "map_of (perkey_preserved_edgeset a) key = Some bm" for bm
      unfolding q using that core(2) p len by (intro disjoint_bits_clear) (auto simp: apart_def)
    then have "apart a'" using apart_replaced [OF core(2) r] v by blast
    then show ?thesis using r assms(2) le by (simp add: agg_inv_def replaced_def same_config_def agg_core_def word_le_nat_alt)
  next
    case same
    then show ?thesis using assms(2) by simp
  qed
qed

section \<open>Placements and admissions\<close>

lemma preserve_ok:
  "PreservedEdgeset_preserveEdgesetForPlacement es bm = Inr bm' \<Longrightarrow>
   length bm' = length bm \<and> (\<forall>e. unat e < length bm \<longrightarrow> (bm' ! unat e \<longleftrightarrow> bm ! unat e \<or> e \<in> set es))"
proof (induction es arbitrary: bm)
  case (Cons a es)
  let ?b = "if bm ! unat a then bm else bm[unat a := True]"
  have 1: "PreservedEdgeset_preserveEdgesetForPlacement es ?b = Inr bm'" "unat a < length bm"
    using Cons.prems by (simp_all only: PreservedEdgeset_preserveEdgesetForPlacement.simps assertE_eq_Inr)
  have 2: "?b ! unat e \<longleftrightarrow> bm ! unat e \<or> e = a" if "unat e < length bm" for e
    using that by (auto simp: nth_list_update_at word_unat_eq_iff)
  have "length ?b = length bm" by simp
  then show ?case using Cons.IH [OF 1(1)] 2 by (metis list.set_intros(1) set_ConsD list.set_intros(2))
qed simp

lemma sum_preserved_put:
  assumes "um_wf al" and "map_of al key = Some bm" and "length bm' = length bm"
  shows "sum_list (map preserved_bytes (um_put key bm' al)) = sum_list (map preserved_bytes al)"
  using sum_um_put [OF assms(1,2), of preserved_bytes bm'] by (simp add: preserved_bytes_def assms(3))

lemma unat_preserved_size:
  "length bm = unat n \<Longrightarrow> 0 < n \<Longrightarrow> unat (PreservedEdgeset_getSizeForCapacity bm) = (length bm - 1) div 8 + 1" for n :: u32
  using unat_bitmap_size [of "length bm"] unat_less_32 [of n] by (simp add: PreservedEdgeset_getSizeForCapacity_def word_less_nat_alt)

text \<open>Preserving nodes leaves the popularities alone.\<close>

definition preserving :: "key \<Rightarrow> bool list \<Rightarrow> popularity_aggregator \<Rightarrow> popularity_aggregator \<Rightarrow> bool" where
  "preserving key bm a a1 \<longleftrightarrow> agg_core a1 \<and> popularity_of a1 = popularity_of a \<and> same_config a a1 \<and> total_bytes a1 < total_bytes a + 2 ^ 33
     \<and> map_of (perkey_preserved_edgeset a1) = (map_of (perkey_preserved_edgeset a))(key \<mapsto> bm)"

lemma preserving_existing:
  assumes "agg_core a" and "map_of (perkey_preserved_edgeset a) key = Some bm0" and "length bm = length bm0"
  shows "preserving key bm a (a\<lparr>perkey_preserved_edgeset := um_put key bm (perkey_preserved_edgeset a)\<rparr>)"
proof -
  let ?a = "a\<lparr>perkey_preserved_edgeset := um_put key bm (perkey_preserved_edgeset a)\<rparr>"
  have wf: "um_wf (perkey_preserved_edgeset a)" using assms(1) by (simp add: agg_core_def)
  have t: "total_bytes ?a = total_bytes a" using sum_preserved_put [OF wf assms(2,3)] by (simp add: total_bytes_def)
  have len: "length bm = unat (agg_edgecnt a)" using assms by (force simp: agg_core_def dest: map_of_SomeD)
  have "\<forall>b \<in> snd ` set (um_put key bm (perkey_preserved_edgeset a)). length b = unat (agg_edgecnt a)"
    using assms(1) len by (auto simp: set_um_put [OF wf] set_um_erase agg_core_def)
  then have "agg_core ?a" using assms(1) t by (simp add: agg_core_def popularity_ok_def)
  then show ?thesis using t by (simp add: preserving_def same_config_def popularity_of_def fun_eq_iff)
qed

lemma preserving_new:
  assumes "agg_core a" and "map_of (perkey_preserved_edgeset a) key = None" and "length bm = unat (agg_edgecnt a)"
    and "total_bytes a < 2 ^ 62" and "length bm0 = length bm"
  shows "preserving key bm a ((agg_grow (PreservedEdgeset_getSizeForCapacity bm0) (agg_grow (key_bytes key) a))
    \<lparr>perkey_preserved_edgeset := um_put key bm (perkey_preserved_edgeset a)\<rparr>)"
proof -
  let ?a = "(agg_grow (PreservedEdgeset_getSizeForCapacity bm0) (agg_grow (key_bytes key) a))\<lparr>perkey_preserved_edgeset := um_put key bm (perkey_preserved_edgeset a)\<rparr>"
  have put: "um_put key bm (perkey_preserved_edgeset a) = perkey_preserved_edgeset a @ [(key, bm)]" using assms(2) by (rule um_put_absent)
  have core: "um_wf (perkey_preserved_edgeset a)" "0 < agg_edgecnt a" "unat (agg_size_bytes a) = total_bytes a" using assms(1) by (simp_all add: agg_core_def)
  have t: "total_bytes ?a = total_bytes a + preserved_bytes (key, bm)" by (simp add: total_bytes_def put)
  have small: "preserved_bytes (key, bm) < 2 ^ 33"
    using unat_less_32 [of "Key_getKeyLength key"] unat_less_32 [of "agg_edgecnt a"] by (simp add: preserved_bytes_def assms(3))
  have "unat (agg_size_bytes ?a) = unat (agg_size_bytes a) + preserved_bytes (key, bm)"
    using assms(3,4,5) core small unat_preserved_size [of bm0 "agg_edgecnt a"] by (simp add: unat_add_no_wrap preserved_bytes_def)
  moreover have "um_wf (um_put key bm (perkey_preserved_edgeset a))" using core(1) by simp
  ultimately have "agg_core ?a" using assms(1,3) t core(3) by (auto simp: agg_core_def popularity_ok_def put)
  then show ?thesis using t small by (simp add: preserving_def same_config_def popularity_of_def fun_eq_iff)
qed

lemma placement_cases:
  assumes "PopularityAggregator_updatePreservedEdgesetForPlacement reward key es g a = Inr a'" and "agg_inv a"
  obtains bm0 bm a1 a2 where "preserving key bm a a1" "length bm0 = unat (agg_edgecnt a)" "length bm = unat (agg_edgecnt a)"
    "\<forall>e. unat e < unat (agg_edgecnt a) \<longrightarrow> (bm ! unat e \<longleftrightarrow> bm0 ! unat e \<or> e \<in> set es)"
    "map_of (perkey_preserved_edgeset a) key = Some bm0 \<or> map_of (perkey_preserved_edgeset a) key = None \<and> bm0 = replicate (unat (agg_edgecnt a)) False"
    "(case popularity_of a key of
        None \<Rightarrow> a2 = a1
      | Some p \<Rightarrow> \<exists>q is_empty. AggregatedUncachedPopularity_clearForPlacement es p = Inr (q, is_empty)
          \<and> PopularityAggregator_updateBenefitPopularityForExistingKey reward key q is_empty g a1 = Inr a2)"
    "PopularityAggregator_discardGlobalLessPopularObjects a2 = Inr a'"
proof -
  have core: "agg_core a" using assms(2) by (simp add: agg_inv_def)
  from assms(1) obtain a0 bm0 bm x a2 where
    s: "(case map_of (perkey_preserved_edgeset a) key of
           Some bm \<Rightarrow> Inr (a, bm)
         | None \<Rightarrow>
             bindE (PreservedEdgeset_new (agg_edgecnt a)) (\<lambda>bm.
             let a = agg_grow (key_bytes key) a in Inr (agg_grow (PreservedEdgeset_getSizeForCapacity bm) a, bm))) = Inr (a0, bm0)"
    and bm: "PreservedEdgeset_preserveEdgesetForPlacement es bm0 = Inr bm"
    and get: "PopularityAggregator_getAggregatedUncachedPopularity key (a0\<lparr>perkey_preserved_edgeset := um_put key bm (perkey_preserved_edgeset a0)\<rparr>) = Inr x"
    and upd: "(case x of
          None \<Rightarrow> Inr (a0\<lparr>perkey_preserved_edgeset := um_put key bm (perkey_preserved_edgeset a0)\<rparr>)
        | Some p \<Rightarrow>
            bindE (AggregatedUncachedPopularity_clearForPlacement es p) (\<lambda>(p, is_empty).
            PopularityAggregator_updateBenefitPopularityForExistingKey reward key p is_empty g
              (a0\<lparr>perkey_preserved_edgeset := um_put key bm (perkey_preserved_edgeset a0)\<rparr>))) = Inr a2"
    and d: "PopularityAggregator_discardGlobalLessPopularObjects a2 = Inr a'"
    unfolding PopularityAggregator_updatePreservedEdgesetForPlacement_def Let_def by (auto simp: bindE_eq_Inr)
  let ?a1 = "a0\<lparr>perkey_preserved_edgeset := um_put key bm (perkey_preserved_edgeset a0)\<rparr>"
  note p = preserve_ok [OF bm]
  have bm0: "preserving key bm a ?a1 \<and> length bm0 = unat (agg_edgecnt a)
      \<and> (map_of (perkey_preserved_edgeset a) key = Some bm0 \<or> map_of (perkey_preserved_edgeset a) key = None \<and> bm0 = replicate (unat (agg_edgecnt a)) False)"
  proof (cases "map_of (perkey_preserved_edgeset a) key")
    case None
    then have b: "bm0 = replicate (unat (agg_edgecnt a)) False"
      and a0: "a0 = agg_grow (PreservedEdgeset_getSizeForCapacity bm0) (agg_grow (key_bytes key) a)"
      using s by (auto simp: PreservedEdgeset_new_def Let_def assertE_eq_Inr bindE_eq_Inr)
    then show ?thesis
      using None preserving_new [OF core None, of bm bm0] p agg_inv_total [OF assms(2)] by simp
  next
    case (Some b)
    then have "a0 = a" "bm0 = b" using s by simp_all
    moreover have "length b = unat (agg_edgecnt a)" using Some core by (force simp: agg_core_def dest: map_of_SomeD)
    ultimately show ?thesis using Some preserving_existing [OF core Some, of bm] p by simp
  qed
  then have c1: "agg_core ?a1" "popularity_of ?a1 = popularity_of a" by (simp_all add: preserving_def)
  have "x = popularity_of a key" using get getAggregated_popularity_of [OF c1(1), of key] c1(2) by simp
  then have c: "(case popularity_of a key of
        None \<Rightarrow> a2 = ?a1
      | Some p \<Rightarrow> \<exists>q is_empty. AggregatedUncachedPopularity_clearForPlacement es p = Inr (q, is_empty)
          \<and> PopularityAggregator_updateBenefitPopularityForExistingKey reward key q is_empty g ?a1 = Inr a2)"
    using upd by (auto simp: bindE_eq_Inr split: option.splits)
  have "length bm = unat (agg_edgecnt a)" "\<forall>e. unat e < unat (agg_edgecnt a) \<longrightarrow> (bm ! unat e \<longleftrightarrow> bm0 ! unat e \<or> e \<in> set es)"
    using bm0 p by simp_all
  then show ?thesis using that [of bm ?a1 bm0 a2] bm0 c d by blast
qed

lemma apart_preserving:
  assumes "apart a" and "preserving key bm a a1" and "replaced key v a1 a2"
    and "v = None \<or> (\<exists>q. v = Some q \<and> disjoint_bits (unat (agg_edgecnt a)) bm (agg_bitmap q))"
  shows "apart a2"
  using assms by (auto simp: apart_def preserving_def replaced_def same_config_def split: if_splits)

lemma placement_cleared:
  assumes "agg_core a" and "popularity_of a key = Some p" and "preserving key bm a a1" and "total_bytes a1 < 2 ^ 63"
    and "AggregatedUncachedPopularity_clearForPlacement es p = Inr (q, em)"
    and "PopularityAggregator_updateBenefitPopularityForExistingKey reward key q em g a1 = Inr a2"
  shows "replaced key (if em then None else Some q) a1 a2"
    and "length (agg_bitmap p) = unat (agg_edgecnt a)"
    and "\<forall>e. unat e < length (agg_bitmap p) \<longrightarrow> (agg_bitmap q ! unat e \<longleftrightarrow> agg_bitmap p ! unat e \<and> e \<notin> set es)"
proof -
  have p1: "agg_core a1" "popularity_of a1 = popularity_of a" "same_config a a1" using assms(3) by (simp_all add: preserving_def)
  have q: "clear_placement_loop es p = Inr q" "em \<longleftrightarrow> exist_edgecnt q = 0"
    using assms(5) by (auto simp: AggregatedUncachedPopularity_clearForPlacement_def bindE_eq_Inr)
  obtain x where x: "x \<in> set (entries a)" "entry_key x = key" "snd (snd x) = p" using popularity_of_in [OF assms(2)] by blast
  then have ok: "popularity_ok a p" "agg_key p = key" using assms(1) by (auto simp: agg_core_def entry_key_def)
  have "agg_ok (agg_topk_edgecnt a) p" and plen: "length (agg_bitmap p) = unat (agg_edgecnt a)" using ok(1) by (simp_all add: popularity_ok_def)
  note cl = clear_placement_loop_ok [OF q(1) this(1)]
  have qok: "popularity_ok a1 q" "agg_key q = key" using cl plen ok(2) p1(3) by (simp_all add: popularity_ok_def same_config_def)
  have "unat (exist_edgecnt q) = bits (agg_bitmap q)" using cl by (simp add: agg_ok_def)
  then have em: "em \<longleftrightarrow> bits (agg_bitmap q) = 0" using q(2) by (metis unat_eq_zero)
  show "replaced key (if em then None else Some q) a1 a2"
    using updateBenefit_ok [OF assms(6) p1(1) qok(1) em qok(2) assms(4)] assms(2) p1(2) by simp
  show "length (agg_bitmap p) = unat (agg_edgecnt a)" by (rule plen)
  show "\<forall>e. unat e < length (agg_bitmap p) \<longrightarrow> (agg_bitmap q ! unat e \<longleftrightarrow> agg_bitmap p ! unat e \<and> e \<notin> set es)" using cl by blast
qed

lemma placement_replaced:
  assumes "PopularityAggregator_updatePreservedEdgesetForPlacement reward key es g a = Inr a'" and "agg_inv a"
  obtains bm0 bm a1 a2 v where "preserving key bm a a1" "length bm = unat (agg_edgecnt a)"
    "\<forall>e. unat e < unat (agg_edgecnt a) \<longrightarrow> (bm ! unat e \<longleftrightarrow> bm0 ! unat e \<or> e \<in> set es)"
    "map_of (perkey_preserved_edgeset a) key = Some bm0 \<or> map_of (perkey_preserved_edgeset a) key = None \<and> bm0 = replicate (unat (agg_edgecnt a)) False"
    "replaced key v a1 a2" "v = None \<or> (\<exists>q. v = Some q \<and> disjoint_bits (unat (agg_edgecnt a)) bm (agg_bitmap q))"
    "PopularityAggregator_discardGlobalLessPopularObjects a2 = Inr a'"
proof -
  from assms obtain bm0 bm a1 a2 where pr: "preserving key bm a a1" and len: "length bm0 = unat (agg_edgecnt a)" "length bm = unat (agg_edgecnt a)"
    and b: "\<forall>e. unat e < unat (agg_edgecnt a) \<longrightarrow> (bm ! unat e \<longleftrightarrow> bm0 ! unat e \<or> e \<in> set es)"
    and b0: "map_of (perkey_preserved_edgeset a) key = Some bm0 \<or> map_of (perkey_preserved_edgeset a) key = None \<and> bm0 = replicate (unat (agg_edgecnt a)) False"
    and c: "(case popularity_of a key of
        None \<Rightarrow> a2 = a1
      | Some p \<Rightarrow> \<exists>q is_empty. AggregatedUncachedPopularity_clearForPlacement es p = Inr (q, is_empty)
          \<and> PopularityAggregator_updateBenefitPopularityForExistingKey reward key q is_empty g a1 = Inr a2)"
    and d: "PopularityAggregator_discardGlobalLessPopularObjects a2 = Inr a'"
    by (rule placement_cases)
  have inv: "apart a" "agg_core a" "unat (popularity_aggregation_capacity_bytes a) < 2 ^ 62" using assms(2) by (simp_all add: agg_inv_def)
  have p1: "agg_core a1" "popularity_of a1 = popularity_of a" "same_config a a1" "total_bytes a1 < total_bytes a + 2 ^ 33"
    using pr by (simp_all add: preserving_def)
  have tot: "total_bytes a1 < 2 ^ 63" using p1(4) agg_inv_total [OF assms(2)] by simp
  obtain v where r: "replaced key v a1 a2" and v: "v = None \<or> (\<exists>q. v = Some q \<and> disjoint_bits (unat (agg_edgecnt a)) bm (agg_bitmap q))"
  proof (cases "popularity_of a key")
    case None
    then have "replaced key None a1 a2" using c p1 by (auto simp: replaced_def same_config_def)
    then show ?thesis using that [of None] by simp
  next
    case (Some p)
    with c obtain q em where q: "AggregatedUncachedPopularity_clearForPlacement es p = Inr (q, em)"
      and u: "PopularityAggregator_updateBenefitPopularityForExistingKey reward key q em g a1 = Inr a2" by auto
    note cl = placement_cleared [OF inv(2) Some pr tot q u]
    have "disjoint_bits (unat (agg_edgecnt a)) bm0 (agg_bitmap p)"
      using b0 inv(1) Some by (auto simp: apart_def disjoint_bits_def)
    then have "disjoint_bits (unat (agg_edgecnt a)) bm (agg_bitmap q)"
      using cl(2,3) b by (auto simp: disjoint_bits_def)
    then show ?thesis using that cl(1) by auto
  qed
  show ?thesis by (rule that [OF pr len(2) b b0 r v d])
qed

lemma placement_inv:
  assumes "PopularityAggregator_updatePreservedEdgesetForPlacement reward key es g a = Inr a'" and "agg_inv a"
  shows "agg_inv a'"
proof -
  from assms obtain bm0 bm a1 a2 v where pr: "preserving key bm a a1" and r: "replaced key v a1 a2"
    and v: "v = None \<or> (\<exists>q. v = Some q \<and> disjoint_bits (unat (agg_edgecnt a)) bm (agg_bitmap q))"
    and d: "PopularityAggregator_discardGlobalLessPopularObjects a2 = Inr a'"
    by (rule placement_replaced)
  have inv: "apart a" "unat (popularity_aggregation_capacity_bytes a) < 2 ^ 62" using assms(2) by (simp_all add: agg_inv_def)
  have "apart a2" using apart_preserving [OF inv(1) pr r v] .
  moreover have "agg_core a2" "same_config a a2" using r pr by (simp_all add: replaced_def preserving_def same_config_def)
  ultimately show ?thesis using discard_inv [OF d] inv(2) by (simp add: same_config_def)
qed

lemma admission_inv:
  assumes "PopularityAggregator_clearPreservedEdgesetAfterAdmission key e a = Inr a'" and "agg_inv a"
  shows "agg_inv a'"
proof (cases "map_of (perkey_preserved_edgeset a) key")
  case None
  then show ?thesis using assms by (simp add: PopularityAggregator_clearPreservedEdgesetAfterAdmission_def)
next
  case (Some bm0)
  have core: "agg_core a" "apart a" and wf: "um_wf (perkey_preserved_edgeset a)" and n: "0 < agg_edgecnt a"
    and sz: "unat (agg_size_bytes a) = total_bytes a" using assms(2) by (simp_all add: agg_inv_def agg_core_def)
  define bm where "bm = (if bm0 ! unat e then bm0[unat e := False] else bm0)"
  have len: "length bm0 = unat (agg_edgecnt a)" using Some core(1) by (force simp: agg_core_def dest: map_of_SomeD)
  have disj: "disjoint_bits (unat (agg_edgecnt a)) bm (agg_bitmap p)" if "popularity_of a key = Some p" for p
  proof -
    have "disjoint_bits (unat (agg_edgecnt a)) bm0 (agg_bitmap p)" using core(2) Some that by (simp add: apart_def)
    then show ?thesis by (auto simp: disjoint_bits_def bm_def len nth_list_update_at)
  qed
  have a': "a' = (if \<not> (\<exists>b \<in> set bm. b)
      then (agg_shrink (PreservedEdgeset_getSizeForCapacity bm) (agg_shrink (key_bytes key) a))\<lparr>perkey_preserved_edgeset := um_erase key (perkey_preserved_edgeset a)\<rparr>
      else a\<lparr>perkey_preserved_edgeset := um_put key bm (perkey_preserved_edgeset a)\<rparr>)"
    using assms(1) Some
    by (auto simp: PopularityAggregator_clearPreservedEdgesetAfterAdmission_def PreservedEdgeset_clearPreservedEdgeNode_def
        Let_def bindE_eq_Inr assertE_eq_Inr bm_def split: if_splits)
  show ?thesis
  proof (cases "\<exists>b \<in> set bm. b")
    case True
    have "preserving key bm a a'" using preserving_existing [OF core(1) Some, of bm] True by (simp add: a' bm_def)
    moreover have "agg_size_bytes a' = agg_size_bytes a" using True by (simp add: a')
    ultimately show ?thesis
      using assms(2) disj by (auto simp: agg_inv_def preserving_def apart_def same_config_def split: if_splits)
  next
    case False
    have a'': "a' = (agg_shrink (PreservedEdgeset_getSizeForCapacity bm) (agg_shrink (key_bytes key) a))
        \<lparr>perkey_preserved_edgeset := um_erase key (perkey_preserved_edgeset a)\<rparr>" using a' False by presburger
    have pb: "sum_list (map preserved_bytes (um_erase key (perkey_preserved_edgeset a))) + preserved_bytes (key, bm0)
        = sum_list (map preserved_bytes (perkey_preserved_edgeset a))" using sum_um_erase [OF wf Some] .
    have "unat (PreservedEdgeset_getSizeForCapacity bm) = (length bm0 - 1) div 8 + 1"
      using unat_preserved_size [of bm "agg_edgecnt a"] len n by (simp add: bm_def)
    then have s': "unat (agg_size_bytes a') = unat (agg_size_bytes a) - preserved_bytes (key, bm0)"
      by (simp add: a'' unat_uint64Minus preserved_bytes_def)
    have t': "total_bytes a' + preserved_bytes (key, bm0) = total_bytes a" using pb by (simp add: total_bytes_def a'')
    have same: "entries a' = entries a" "perkey_benefit_popularity_table a' = perkey_benefit_popularity_table a" "next_entry a' = next_entry a"
      "agg_edgecnt a' = agg_edgecnt a" "agg_topk_edgecnt a' = agg_topk_edgecnt a" "popularity_of a' = popularity_of a"
      "popularity_aggregation_capacity_bytes a' = popularity_aggregation_capacity_bytes a"
      "perkey_preserved_edgeset a' = um_erase key (perkey_preserved_edgeset a)"
      by (simp_all add: a'' popularity_of_def fun_eq_iff)
    have "agg_core a'" using core(1) s' t' sz by (auto simp: agg_core_def same popularity_ok_def set_um_erase)
    moreover have "apart a'" using core(2) by (auto simp: apart_def same)
    moreover have "unat (agg_size_bytes a') \<le> unat (agg_size_bytes a)" using s' by simp
    ultimately show ?thesis using assms(2) by (auto simp: agg_inv_def same word_le_nat_alt intro: le_trans)
  qed
qed

section \<open>Reachable states\<close>

text \<open>One request after another, with arguments as the messages bring them and any reward function.\<close>

inductive aggregator_reach :: "u32 \<Rightarrow> u64 \<Rightarrow> u32 \<Rightarrow> popularity_aggregator \<Rightarrow> bool" for n capacity k where
  start: "aggregator_reach n capacity k (PopularityAggregator_new n capacity k)"
| report: "aggregator_reach n capacity k a \<Longrightarrow>
    PopularityAggregator_updateAggregatedUncachedPopularity reward key e c g s hint a = Inr (a', hint') \<Longrightarrow> aggregator_reach n capacity k a'"
| placement: "aggregator_reach n capacity k a \<Longrightarrow>
    PopularityAggregator_updatePreservedEdgesetForPlacement reward key es g a = Inr a' \<Longrightarrow> aggregator_reach n capacity k a'"
| admission: "aggregator_reach n capacity k a \<Longrightarrow>
    PopularityAggregator_clearPreservedEdgesetAfterAdmission key e a = Inr a' \<Longrightarrow> aggregator_reach n capacity k a'"

lemma agg_inv_new: "0 < n \<Longrightarrow> 0 < k \<Longrightarrow> unat capacity < 2 ^ 62 \<Longrightarrow> agg_inv (PopularityAggregator_new n capacity k)"
  by (simp add: agg_inv_def agg_core_def apart_def PopularityAggregator_new_def linked_def ordered_def total_bytes_def)

lemma aggregator_reach_inv:
  assumes "aggregator_reach n capacity k a" and "0 < n" and "0 < k" and "unat capacity < 2 ^ 62"
  shows "agg_inv a"
  using assms
proof (induction rule: aggregator_reach.induct)
  case start
  then show ?case by (intro agg_inv_new)
next
  case (report a reward key e c g s hint a' hint')
  then show ?case using update_request_inv by blast
next
  case (placement a reward key es g a')
  then show ?case using placement_inv by blast
next
  case (admission a key e a')
  then show ?case using admission_inv by blast
qed

text \<open>The requests as values: what the threads of an edge node do to the aggregator, each under its write lock.\<close>

datatype aggregator_request =
    AggReport reward_func key u32 collected_popularity bool bool
  | AggPlace reward_func key edgeset bool
  | AggAdmit key u32

fun aggregator_serve :: "aggregator_request \<Rightarrow> popularity_aggregator \<Rightarrow> popularity_aggregator exec" where
  "aggregator_serve (AggReport reward key e c g s) a =
     bindE (PopularityAggregator_updateAggregatedUncachedPopularity reward key e c g s FastPathHint_default a) (\<lambda>(a, hint). Inr a)"
| "aggregator_serve (AggPlace reward key es g) a = PopularityAggregator_updatePreservedEdgesetForPlacement reward key es g a"
| "aggregator_serve (AggAdmit key e) a = PopularityAggregator_clearPreservedEdgesetAfterAdmission key e a"

fun aggregator_serve_all :: "aggregator_request list \<Rightarrow> popularity_aggregator \<Rightarrow> popularity_aggregator exec" where
  "aggregator_serve_all [] a = Inr a"
| "aggregator_serve_all (r # rs) a = bindE (aggregator_serve r a) (aggregator_serve_all rs)"

lemma aggregator_serve_reach:
  assumes "aggregator_serve r a = Inr a'" and "aggregator_reach n capacity k a"
  shows "aggregator_reach n capacity k a'"
  using assms by (cases r) (auto simp: bindE_eq_Inr intro: aggregator_reach.intros)

lemma aggregator_serve_all_reach:
  "aggregator_serve_all rs a = Inr a' \<Longrightarrow> aggregator_reach n capacity k a \<Longrightarrow> aggregator_reach n capacity k a'"
  by (induction rs arbitrary: a) (auto simp: bindE_eq_Inr dest: aggregator_serve_reach)





section \<open>When the capacity is used up\<close>

lemma discarded_preserved: "discarded m a a' \<Longrightarrow> preserved_total a \<le> unat (popularity_aggregation_capacity_bytes a)"
  by (auto simp: discarded_def agg_core_def total_bytes_def preserved_total_def word_le_nat_alt)

text \<open>The discarding loop ends. It drops the entries of least benefit, no more than it takes to get within the capacity, and it
  aborts exactly when the preserved edge sets, which it never drops, are alone greater than the capacity.\<close>

theorem discard_keeps_most_beneficial:
  assumes "agg_core a"
  shows "if unat (popularity_aggregation_capacity_bytes a) < preserved_total a
    then PopularityAggregator_discardGlobalLessPopularObjects a = Inl AssertFailed
    else \<exists>a' m. PopularityAggregator_discardGlobalLessPopularObjects a = Inr a'
      \<and> benefit_popularity_multimap a' = drop m (benefit_popularity_multimap a)
      \<and> (\<forall>x \<in> set (take m (benefit_popularity_multimap a)). \<forall>y \<in> set (benefit_popularity_multimap a').
           \<not> fval_less (f32_val (fst (snd y))) (f32_val (fst (snd x))))
      \<and> agg_size_bytes a' \<le> popularity_aggregation_capacity_bytes a
      \<and> (\<forall>l < m. unat (popularity_aggregation_capacity_bytes a)
           < sum_list (map entry_bytes (drop l (benefit_popularity_multimap a))) + preserved_total a)
      \<and> perkey_preserved_edgeset a' = perkey_preserved_edgeset a \<and> agg_core a'"
proof (cases "PopularityAggregator_discardGlobalLessPopularObjects a")
  case (Inl e)
  then show ?thesis using discard_ok [OF assms] by simp
next
  case (Inr a')
  then obtain m where d: "discarded m a a'" using discard_ok [OF assms] by auto
  have "sorted_wrt less_popular (take m (entries a) @ drop m (entries a))" using assms by (simp add: agg_core_def ordered_def)
  then have "\<forall>x \<in> set (take m (entries a)). \<forall>y \<in> set (drop m (entries a)). less_popular x y"
    unfolding sorted_wrt_append by blast
  then show ?thesis
    using Inr d discarded_preserved [OF d] by (auto simp: discarded_def less_popular_def)
qed

lemma example_two_keys:
  "\<exists>a. agg_core a \<and> popularity_aggregation_capacity_bytes a = 40 \<and> preserved_total a = 0
    \<and> map (\<lambda>x. fst (snd x)) (benefit_popularity_multimap a) = [0x3F800000, 0x40000000] \<and> map entry_bytes (benefit_popularity_multimap a) = [35, 35]"
proof -
  let ?r = "(\<lambda>t g s. Inr t) :: reward_func"
  let ?c = "\<lambda>x :: u32. \<lparr>is_tracked = True, collected_local_uncached_popularity = x, collected_object_size = 100\<rparr>"
  let ?p = "\<lambda>k x. \<lparr>agg_key = Key [k], agg_object_size = 100, sum_local_uncached_popularity = x,
      topk_edgeidx_local_uncached_popularity_pairs = [(1, x)], agg_bitmap = [False, True], exist_edgecnt = 1\<rparr>"
  let ?a = "\<lparr>agg_edgecnt = 2, popularity_aggregation_capacity_bytes = 1000, agg_topk_edgecnt = 1, agg_size_bytes = 70,
      benefit_popularity_multimap = [(1, 0x3F800000, ?p 1 0x3F800000), (0, 0x40000000, ?p 2 0x40000000)],
      perkey_benefit_popularity_table = [(Key [2], 0), (Key [1], 1)], perkey_preserved_edgeset = [], next_entry = 2\<rparr>"
  let ?b = "?a\<lparr>popularity_aggregation_capacity_bytes := 40\<rparr>"
  have "bindE (PopularityAggregator_updateAggregatedUncachedPopularity ?r (Key [2]) 1 (?c 0x40000000) False False FastPathHint_default
          (PopularityAggregator_new 2 1000 1)) (\<lambda>(a, h).
        PopularityAggregator_updateAggregatedUncachedPopularity ?r (Key [1]) 1 (?c 0x3F800000) False False FastPathHint_default a)
      = Inr (?a, FastPathHint_default)" by code_simp
  then obtain a1 h1 where
    "PopularityAggregator_updateAggregatedUncachedPopularity ?r (Key [2]) 1 (?c 0x40000000) False False FastPathHint_default
       (PopularityAggregator_new 2 1000 1) = Inr (a1, h1)"
    "PopularityAggregator_updateAggregatedUncachedPopularity ?r (Key [1]) 1 (?c 0x3F800000) False False FastPathHint_default a1
       = Inr (?a, FastPathHint_default)" by (auto simp: bindE_eq_Inr)
  then have "aggregator_reach 2 1000 1 ?a" using aggregator_reach.start [of 2 1000 1] by (blast intro: aggregator_reach.report)
  then have "agg_core ?a" using aggregator_reach_inv [of 2 1000 1 ?a] by (simp add: agg_inv_def)
  then have "agg_core ?b" by (simp add: agg_core_def popularity_ok_def total_bytes_def)
  moreover have "preserved_total ?b = 0" by (simp add: preserved_total_def)
  moreover have "map entry_bytes (benefit_popularity_multimap ?b) = [35, 35]"
    by (simp add: entry_bytes_def agg_bytes_def entry_key_def Key_getKeyLength_def)
  ultimately show ?thesis by (intro exI [of _ ?b]) simp
qed

theorem discard_keeps_most_beneficial_witness:
  "\<exists>a a'. agg_core a \<and> unat (popularity_aggregation_capacity_bytes a) = 40 \<and> preserved_total a = 0
    \<and> map (\<lambda>x. fst (snd x)) (benefit_popularity_multimap a) = [0x3F800000, 0x40000000]
    \<and> PopularityAggregator_discardGlobalLessPopularObjects a = Inr a' \<and> length (benefit_popularity_multimap a') \<le> 1
    \<and> agg_size_bytes a' \<le> 40"
proof -
  obtain a where a: "agg_core a" "popularity_aggregation_capacity_bytes a = 40" "preserved_total a = 0"
    "map (\<lambda>x. fst (snd x)) (benefit_popularity_multimap a) = [0x3F800000, 0x40000000]" "map entry_bytes (benefit_popularity_multimap a) = [35, 35]"
    using example_two_keys by (elim exE conjE) (rule that)
  have len: "length (benefit_popularity_multimap a) = 2" using arg_cong [OF a(5), of length] by simp
  obtain a' m where d: "PopularityAggregator_discardGlobalLessPopularObjects a = Inr a'"
    "benefit_popularity_multimap a' = drop m (benefit_popularity_multimap a)" "agg_size_bytes a' \<le> 40" "agg_core a'"
    "perkey_preserved_edgeset a' = perkey_preserved_edgeset a"
    using discard_keeps_most_beneficial [OF a(1)] a(2,3) by auto
  have "m \<noteq> 0"
  proof
    assume "m = 0"
    then have "total_bytes a' = 70" using d(2,5) a(3,5) by (simp add: total_bytes_def preserved_total_def)
    then have "unat (agg_size_bytes a') = 70" using d(4) by (simp add: agg_core_def)
    then show False using d(3) by (simp add: word_le_nat_alt)
  qed
  then have "length (benefit_popularity_multimap a') \<le> 1" using d(2) len by simp
  then show ?thesis using a d by (intro exI [of _ a] exI [of _ a']) simp
qed

lemma preserve_returns: "\<forall>e \<in> set es. unat e < length bm \<Longrightarrow> \<exists>bm'. PreservedEdgeset_preserveEdgesetForPlacement es bm = Inr bm'"
  by (induction es arbitrary: bm) auto

lemma preserved_total_new:
  assumes "um_wf (perkey_preserved_edgeset a)" and "um_wf (perkey_preserved_edgeset a1)"
    and "map_of (perkey_preserved_edgeset a1) = (map_of (perkey_preserved_edgeset a))(key \<mapsto> bm)"
    and "map_of (perkey_preserved_edgeset a) key = None"
  shows "preserved_total a1 = preserved_total a + preserved_bytes (key, bm)"
proof -
  have sum: "preserved_total x = sum preserved_bytes (set (perkey_preserved_edgeset x))" if "um_wf (perkey_preserved_edgeset x)" for x
    using that by (simp add: preserved_total_def sum_list_distinct_conv_sum_set distinct_map)
  have new: "(key, bm) \<notin> set (perkey_preserved_edgeset a)" using assms(4) unfolding map_of_eq_None_iff by force
  have "set (perkey_preserved_edgeset a1) = insert (key, bm) (set (perkey_preserved_edgeset a))"
  proof (rule set_eqI, clarify)
    fix k b
    show "(k, b) \<in> set (perkey_preserved_edgeset a1) \<longleftrightarrow> (k, b) \<in> insert (key, bm) (set (perkey_preserved_edgeset a))"
      using map_of_eq_Some_iff [OF assms(1), of k b] map_of_eq_Some_iff [OF assms(2), of k b] assms(3,4) by (auto split: if_splits)
  qed
  then show ?thesis using sum assms(1,2) new by simp
qed

lemma updateBenefit_returns:
  assumes "agg_core a" and "popularity_of a key = Some p"
    and "em \<or> (\<exists>b. AggregatedUncachedPopularity_calcMaxAdmissionBenefit reward g q = Inr b \<and> f32_val b \<noteq> NaN)"
  shows "\<exists>a'. PopularityAggregator_updateBenefitPopularityForExistingKey reward key q em g a = Inr a'"
proof -
  have l: "linked (entries a) (perkey_benefit_popularity_table a) (next_entry a)" using assms(1) by (simp add: agg_core_def)
  obtain x where "x \<in> set (entries a)" "entry_key x = key" using popularity_of_in [OF assms(2)] by blast
  then obtain i b r where i: "map_of (perkey_benefit_popularity_table a) key = Some i" "map_of (entries a) i = Some (b, r)"
    using linked_lookup [OF l, of key] by (auto split: option.splits)
  show ?thesis using assms(3) i
    by (auto simp: PopularityAggregator_updateBenefitPopularityForExistingKey_def multimap_entry_def multimap_insert_def Let_def definedE_def)
qed

text \<open>The entry of a key is at least as large as the preserved edge set of a placement of it.\<close>

lemma recorded_has_room:
  assumes "agg_inv a" and "popularity_of a key = Some p"
  shows "preserved_total a + unat (Key_getKeyLength key) + ((unat (agg_edgecnt a) - 1) div 8 + 1)
    \<le> unat (popularity_aggregation_capacity_bytes a)"
proof -
  have core: "agg_core a" using assms(1) by (simp add: agg_inv_def)
  obtain x where x: "x \<in> set (entries a)" "entry_key x = key" "snd (snd x) = p" using popularity_of_in [OF assms(2)] by blast
  then have "length (agg_bitmap p) = unat (agg_edgecnt a)" using core by (auto simp: agg_core_def popularity_ok_def)
  then have "unat (Key_getKeyLength key) + ((unat (agg_edgecnt a) - 1) div 8 + 1) \<le> entry_bytes x"
    using x by (simp add: entry_bytes_def agg_bytes_def)
  also have "\<dots> \<le> sum_list (map entry_bytes (entries a))" using x(1) by (intro member_le_sum_list) simp_all
  finally have "preserved_total a + unat (Key_getKeyLength key) + ((unat (agg_edgecnt a) - 1) div 8 + 1) \<le> total_bytes a"
    by (simp add: total_bytes_def preserved_total_def)
  then show ?thesis using assms(1) core by (simp add: agg_inv_def agg_core_def word_le_nat_alt)
qed

text \<open>C30: Placements that are not yet admitted are never forgotten and can use up the capacity, but only a race shows it. Consider a
  placement of a key that has none pending. While a popularity of the key is recorded there is room for it: if the chosen
  nodes can be cleared from the popularity and the benefit of the rest can be calculated, the placement is noted. When the
  popularity is no longer recorded, because another thread has placed or discarded it since the calculation, the beacon
  fails an assertion exactly when the preserved edge sets, with the new one, exceed the capacity.\<close>

theorem placement_aborts_when_full:
  assumes "aggregator_reach n capacity k a" and "0 < n" and "0 < k" and "unat capacity < 2 ^ 62"
    and "\<not> PopularityAggregator_isKeyBeingAdmitted key a" and "\<forall>e \<in> set es. e < agg_edgecnt a"
  shows "(\<forall>p q em. PopularityAggregator_getAggregatedUncachedPopularity key a = Inr (Some p) \<longrightarrow>
        AggregatedUncachedPopularity_clearForPlacement es p = Inr (q, em) \<longrightarrow>
        em \<or> (\<exists>b. AggregatedUncachedPopularity_calcMaxAdmissionBenefit reward g q = Inr b \<and> f32_val b \<noteq> NaN) \<longrightarrow>
        (\<exists>a'. PopularityAggregator_updatePreservedEdgesetForPlacement reward key es g a = Inr a'
          \<and> PopularityAggregator_isKeyBeingAdmitted key a'))
    \<and> (PopularityAggregator_getAggregatedUncachedPopularity key a = Inr None \<longrightarrow>
      (if unat (popularity_aggregation_capacity_bytes a)
          < preserved_total a + unat (Key_getKeyLength key) + ((unat (agg_edgecnt a) - 1) div 8 + 1)
       then PopularityAggregator_updatePreservedEdgesetForPlacement reward key es g a = Inl AssertFailed
       else \<exists>a'. PopularityAggregator_updatePreservedEdgesetForPlacement reward key es g a = Inr a'
          \<and> PopularityAggregator_isKeyBeingAdmitted key a'))"
proof -
  let ?need = "preserved_total a + unat (Key_getKeyLength key) + ((unat (agg_edgecnt a) - 1) div 8 + 1)"
  let ?update = "PopularityAggregator_updatePreservedEdgesetForPlacement reward key es g a"
  have inv: "agg_inv a" using aggregator_reach_inv assms(1-4) by blast
  then have core: "agg_core a" "0 < agg_edgecnt a" "um_wf (perkey_preserved_edgeset a)" by (simp_all add: agg_inv_def agg_core_def)
  have none: "map_of (perkey_preserved_edgeset a) key = None" using assms(5) by (simp add: PopularityAggregator_isKeyBeingAdmitted_def)
  let ?bm0 = "replicate (unat (agg_edgecnt a)) False"
  obtain bm where bm: "PreservedEdgeset_preserveEdgesetForPlacement es ?bm0 = Inr bm"
    using preserve_returns [of es ?bm0] assms(6) by (auto simp: word_less_nat_alt)
  have len: "length bm = unat (agg_edgecnt a)" using preserve_ok [OF bm] by simp
  define a1 where "a1 = (agg_grow (PreservedEdgeset_getSizeForCapacity ?bm0) (agg_grow (key_bytes key) a))
      \<lparr>perkey_preserved_edgeset := um_put key bm (perkey_preserved_edgeset a)\<rparr>"
  have pr: "preserving key bm a a1"
    using preserving_new [OF core(1) none len agg_inv_total [OF inv], of ?bm0] len by (simp add: a1_def)
  then have c1: "agg_core a1" "popularity_of a1 = popularity_of a" "same_config a a1" "total_bytes a1 < 2 ^ 63"
    using agg_inv_total [OF inv] by (simp_all add: preserving_def)
  have upd: "?update = bindE (case popularity_of a key of
         None \<Rightarrow> Inr a1
       | Some p \<Rightarrow>
           bindE (AggregatedUncachedPopularity_clearForPlacement es p) (\<lambda>(p, is_empty).
           PopularityAggregator_updateBenefitPopularityForExistingKey reward key p is_empty g a1))
       PopularityAggregator_discardGlobalLessPopularObjects"
    using none bm core(2) getAggregated_popularity_of [OF c1(1), of key] c1(2)
    unfolding a1_def PopularityAggregator_updatePreservedEdgesetForPlacement_def
    by (cases "popularity_of a key") (simp_all add: PreservedEdgeset_new_def word_less_nat_alt Let_def)
  have total: "preserved_total a1 = ?need"
    using preserved_total_new [OF core(3) _ _ none, of a1 bm] pr len by (simp add: preserving_def agg_core_def preserved_bytes_def)
  have disc: "if unat (popularity_aggregation_capacity_bytes a) < ?need
      then PopularityAggregator_discardGlobalLessPopularObjects a2 = Inl AssertFailed
      else \<exists>a'. PopularityAggregator_discardGlobalLessPopularObjects a2 = Inr a' \<and> PopularityAggregator_isKeyBeingAdmitted key a'"
    if r: "replaced key v a1 a2" for v a2
  proof -
    have a2: "agg_core a2" "preserved_total a2 = ?need"
      "popularity_aggregation_capacity_bytes a2 = popularity_aggregation_capacity_bytes a"
      "map_of (perkey_preserved_edgeset a2) key = Some bm"
      using r pr c1(3) total by (simp_all add: replaced_def preserving_def same_config_def preserved_total_def)
    have "PopularityAggregator_isKeyBeingAdmitted key a'" if "discarded m a2 a'" for m a'
      using that a2(4) by (simp add: discarded_def PopularityAggregator_isKeyBeingAdmitted_def)
    then show ?thesis using discard_ok [OF a2(1)] discarded_preserved [of _ a2] a2(2,3)
      by (cases "PopularityAggregator_discardGlobalLessPopularObjects a2") (auto simp: not_less)
  qed
  show ?thesis
  proof (intro conjI allI impI)
    fix p q em
    assume "PopularityAggregator_getAggregatedUncachedPopularity key a = Inr (Some p)"
      and cl: "AggregatedUncachedPopularity_clearForPlacement es p = Inr (q, em)"
      and b: "em \<or> (\<exists>b. AggregatedUncachedPopularity_calcMaxAdmissionBenefit reward g q = Inr b \<and> f32_val b \<noteq> NaN)"
    then have pop: "popularity_of a key = Some p" using getAggregated_popularity_of [OF core(1)] by simp
    obtain a2 where a2: "PopularityAggregator_updateBenefitPopularityForExistingKey reward key q em g a1 = Inr a2"
      using updateBenefit_returns [OF c1(1) _ b] pop c1(2) by metis
    have "\<not> unat (popularity_aggregation_capacity_bytes a) < ?need" using recorded_has_room [OF inv pop] by simp
    then have "\<exists>a'. PopularityAggregator_discardGlobalLessPopularObjects a2 = Inr a' \<and> PopularityAggregator_isKeyBeingAdmitted key a'"
      using disc [OF placement_cleared(1) [OF core(1) pop pr c1(4) cl a2]] by (simp only: if_False)
    then show "\<exists>a'. ?update = Inr a' \<and> PopularityAggregator_isKeyBeingAdmitted key a'"
      unfolding upd using pop cl a2 by simp
  next
    assume "PopularityAggregator_getAggregatedUncachedPopularity key a = Inr None"
    then have pop: "popularity_of a key = None" using getAggregated_popularity_of [OF core(1)] by simp
    then have "replaced key None a1 a1" using c1 by (auto simp: replaced_def same_config_def)
    from disc [OF this] show "if unat (popularity_aggregation_capacity_bytes a) < ?need
       then ?update = Inl AssertFailed else \<exists>a'. ?update = Inr a' \<and> PopularityAggregator_isKeyBeingAdmitted key a'"
      unfolding upd using pop by simp
  qed
qed

theorem placement_aborts_when_full_witness:
  "\<exists>a. aggregator_reach 4 3 2 a \<and> preserved_total a = 2
    \<and> PopularityAggregator_getAggregatedUncachedPopularity (Key [2]) a = Inr None
    \<and> PopularityAggregator_updatePreservedEdgesetForPlacement (\<lambda>t g s. Inr t) (Key [2]) [2] False a = Inl AssertFailed"
proof -
  let ?r = "(\<lambda>t g s. Inr t) :: reward_func"
  let ?a = "(PopularityAggregator_new 4 3 2)\<lparr>agg_size_bytes := 2, perkey_preserved_edgeset := [(Key [1], [False, True, False, False])]\<rparr>"
  have "PopularityAggregator_updatePreservedEdgesetForPlacement ?r (Key [1]) [1] False (PopularityAggregator_new 4 3 2) = Inr ?a" by code_simp
  then have r: "aggregator_reach 4 3 2 ?a" using aggregator_reach.start by (blast intro: aggregator_reach.placement)
  have t: "preserved_total ?a = 2" by code_simp
  have c: "0 < (4 :: u32)" "0 < (2 :: u32)" "unat (3 :: u64) < 2 ^ 62" by simp_all
  have h: "\<not> PopularityAggregator_isKeyBeingAdmitted (Key [2]) ?a" "\<forall>e \<in> set [2]. e < agg_edgecnt ?a"
    and p: "PopularityAggregator_getAggregatedUncachedPopularity (Key [2]) ?a = Inr None" by code_simp+
  have "unat (popularity_aggregation_capacity_bytes ?a) < preserved_total ?a + unat (Key_getKeyLength (Key [2])) + ((unat (agg_edgecnt ?a) - 1) div 8 + 1)"
    by code_simp
  then have "PopularityAggregator_updatePreservedEdgesetForPlacement ?r (Key [2]) [2] False ?a = Inl AssertFailed"
    using placement_aborts_when_full [OF r c h, of ?r False] p by simp
  then show ?thesis using r t p by blast
qed

end
