(* ===== verification/Covered_Manager.thy ===== *)
theory Covered_Manager
  imports Directory_Cacher Aggregator_Runs
begin

text \<open>
  \<open>CoveredCacheManager\<close> (\<open>src/src/core/covered_cache_manager.c\<close>): the cache manager of an edge node combines the popularity
  aggregator, the victim tracker and the directory cacher. Reports of popularity can trigger a placement: the manager
  weighs the benefit of admitting an object at the most interested nodes against the cost of evicting their victims,
  fetches more victims from those nodes when the known ones do not suffice, preserves the chosen nodes and forgets the
  victims that will go.

  What the manager asks of the edge wrapper is a parameter: its index, the weights from which it calculates the two
  rewards (\<open>constCustomFunc\<close>, with the rewards of \<open>Weight_Tuner\<close>), the victims of the local cache, and the data fetching
  that a placement starts, which tells whether a value has to be fetched from the sender. Weights and tracker do not change
  during one calculation; what other threads do to the aggregator between its parts is an argument. The socket is a list of events, a response or a time-out, where the latter carries whether the node still
  runs; receiving beyond the list waits. Requests sent are recorded. Bandwidth and event statistics are left out.
\<close>

record edge_services =
  node_idx :: u32
  edge_weights :: weight_tuner
  local_victims :: "u32 \<Rightarrow> (bool \<times> victim_cacheinfo list) exec"
  start_data_fetch :: "key \<Rightarrow> edgeset \<Rightarrow> bool exec"

definition uncached_reward :: "edge_services \<Rightarrow> reward_func" where
  "uncached_reward srv = CoveredEdgeWrapper_calcLocalUncachedRewardInternal (edge_weights srv)"

record covered_manager =
  mgr_topk_edgecnt :: u32
  mgr_aggregator :: popularity_aggregator
  mgr_tracker :: victim_tracker
  mgr_cacher :: directory_cacher

definition CoveredCacheManager_new :: "u32 \<Rightarrow> u32 \<Rightarrow> u32 \<Rightarrow> u32 \<Rightarrow> u64 \<Rightarrow> fval \<Rightarrow> u32 \<Rightarrow> covered_manager exec" where
  "CoveredCacheManager_new edge_idx cnt synced_victimcnt monitored_victimsetcnt capacity_bytes change_ratio k =
     bindE (VictimTracker_new edge_idx cnt synced_victimcnt monitored_victimsetcnt) (\<lambda>t.
     Inr \<lparr>mgr_topk_edgecnt = k, mgr_aggregator = PopularityAggregator_new cnt capacity_bytes k, mgr_tracker = t,
          mgr_cacher = DirectoryCacher_new change_ratio\<rparr>)"

section \<open>Fetching victims\<close>

datatype fetch_event =
    RecvTimeout (node_running: bool)
  | RecvResponse (rsp_seqnum: u64) (rsp_is_victim_fetch: bool) (rsp_source: u32) (rsp_fetchset: victim_syncset)

record fetch_state =
  acked_flags :: "(u32 \<times> bool) list"
  acked_edgecnt :: u32
  extra_peredge_victim_cacheinfos :: "(u32 \<times> victim_cacheinfo list) list"
  extra_perkey_victim_dirinfoset :: "(key \<times> dirinfo_set) list"
  requests_sent :: "u32 list"

definition push_if_absent :: "(key \<times> dirinfo_set) list \<Rightarrow> key \<times> dirinfo_set \<Rightarrow> (key \<times> dirinfo_set) list" where
  "push_if_absent sets ks = (if KVListHelper_findVFromListForK (fst ks) sets = length sets then sets @ [ks] else sets)"

definition mark_acked :: "u32 \<Rightarrow> fetch_state \<Rightarrow> fetch_state" where
  "mark_acked e st = st\<lparr>acked_flags := um_put e True (acked_flags st), acked_edgecnt := acked_edgecnt st + 1\<rparr>"

definition local_victim_fetch ::
    "('m, 'z) lock_env_scheme \<Rightarrow> edge_services \<Rightarrow> u32 \<Rightarrow> u32 \<Rightarrow> fetch_state \<Rightarrow> ('m, 'g) cooperation_wrapper
     \<Rightarrow> (fetch_state \<times> ('m, 'g) cooperation_wrapper) exec" where
  "local_victim_fetch env srv obj_size e st w =
     bindE (local_victims srv obj_size) (\<lambda>(has_victim_key, vs). assertE has_victim_key (
     bindE (CoveredCooperationWrapper_constCustomFunc env w GET_FROM_CACHEINFOS_FUNCNAME
              (GetLocalBeaconedVictimsFromCacheinfosParam vs [])) (\<lambda>(w, param).
     case param of
       GetLocalBeaconedVictimsFromCacheinfosParam _ sets \<Rightarrow>
         assertE (map_of (acked_flags st) e = Some False) (
         Inr (mark_acked e (st\<lparr>extra_peredge_victim_cacheinfos := extra_peredge_victim_cacheinfos st @ [(e, vs)],
                               extra_perkey_victim_dirinfoset := foldl push_if_absent (extra_perkey_victim_dirinfoset st) sets\<rparr>), w))
     | _ \<Rightarrow> Inl Undefined)))"

fun send_fetch_requests ::
    "('m, 'z) lock_env_scheme \<Rightarrow> edge_services \<Rightarrow> u32 \<Rightarrow> (u32 \<times> bool) list \<Rightarrow> fetch_state \<Rightarrow> ('m, 'g) cooperation_wrapper
     \<Rightarrow> (fetch_state \<times> ('m, 'g) cooperation_wrapper) exec" where
  "send_fetch_requests env srv obj_size [] st w = Inr (st, w)"
| "send_fetch_requests env srv obj_size ((e, acked) # fs) st w =
     (if acked then send_fetch_requests env srv obj_size fs st w
      else if e = node_idx srv
      then bindE (local_victim_fetch env srv obj_size e st w) (\<lambda>(st, w). send_fetch_requests env srv obj_size fs st w)
      else send_fetch_requests env srv obj_size fs (st\<lparr>requests_sent := requests_sent st @ [e]\<rparr>) w)"

text \<open>The directory sets that a neighbour sends are those it is the beacon of.\<close>

fun insert_neighbor_sets ::
    "('m, 'z) lock_env_scheme \<Rightarrow> (key \<times> dirinfo_set) list \<Rightarrow> (key \<times> dirinfo_set) list \<Rightarrow> (key \<times> dirinfo_set) list exec" where
  "insert_neighbor_sets env [] sets = Inr sets"
| "insert_neighbor_sets env ((k, s) # rest) sets =
     completeE s (
     myassertE env (Inr (KVListHelper_findVFromListForK k sets = length sets)) (insert_neighbor_sets env rest (sets @ [(k, s)])))"

fun insert_local_sets :: "(key \<times> dirinfo_set) list \<Rightarrow> (key \<times> dirinfo_set) list \<Rightarrow> (key \<times> dirinfo_set) list exec" where
  "insert_local_sets [] sets = Inr sets"
| "insert_local_sets ((k, s) # rest) sets = completeE s (insert_local_sets rest (push_if_absent sets (k, s)))"

definition CoveredCacheManager_processVictimFetchResponse ::
    "('m, 'z) lock_env_scheme \<Rightarrow> u32 \<Rightarrow> victim_syncset \<Rightarrow> fetch_state \<Rightarrow> ('m, 'g) cooperation_wrapper
     \<Rightarrow> (fetch_state \<times> ('m, 'g) cooperation_wrapper) exec" where
  "CoveredCacheManager_processVictimFetchResponse env source fetchset st w =
     bindE (VictimSyncset_isComplete fetchset) (\<lambda>c. assertE c (
     bindE (VictimSyncset_getLocalSyncedVictimsPtr (is_assert env) fetchset) (\<lambda>(with_complete, vs). assertE with_complete (
     bindE (VictimSyncset_getLocalBeaconedVictimsPtr (is_assert env) fetchset) (\<lambda>(with_complete, neighbor_sets). assertE with_complete (
     bindE (insert_neighbor_sets env neighbor_sets (extra_perkey_victim_dirinfoset st)) (\<lambda>sets.
     bindE (CoveredCooperationWrapper_constCustomFunc env w GET_FROM_VICTIM_SYNCSET_FUNCNAME
              (GetLocalBeaconedVictimsFromVictimSyncsetFuncParam fetchset [])) (\<lambda>(w, param).
     case param of
       GetLocalBeaconedVictimsFromVictimSyncsetFuncParam _ local_sets \<Rightarrow>
         bindE (insert_local_sets local_sets sets) (\<lambda>sets.
         Inr (st\<lparr>extra_peredge_victim_cacheinfos := extra_peredge_victim_cacheinfos st @ [(source, vs)],
                 extra_perkey_victim_dirinfoset := sets\<rparr>, w))
     | _ \<Rightarrow> Inl Undefined))))))))"

text \<open>The results: the events left, whether the node stopped, and whether a stale response came in.\<close>

fun recv_fetch_responses ::
    "('m, 'z) lock_env_scheme \<Rightarrow> u64 \<Rightarrow> nat \<Rightarrow> fetch_event list \<Rightarrow> fetch_state \<Rightarrow> ('m, 'g) cooperation_wrapper \<Rightarrow> bool
     \<Rightarrow> (fetch_event list \<times> fetch_state \<times> ('m, 'g) cooperation_wrapper \<times> bool \<times> bool) exec" where
  "recv_fetch_responses env seqn 0 evs st w stale = Inr (evs, st, w, False, stale)"
| "recv_fetch_responses env seqn (Suc n) [] st w stale = Inl Blocked"
| "recv_fetch_responses env seqn (Suc n) (RecvTimeout running # evs) st w stale =
     (if \<not> running then Inr (evs, st, w, True, stale) else Inr (evs, st, w, False, False))"
| "recv_fetch_responses env seqn (Suc n) (RecvResponse q is_fetch e fetchset # evs) st w stale =
     (if q \<noteq> seqn then Inr (evs, st, w, False, True)
      else assertE is_fetch (
           case map_of (acked_flags st) e of
             None \<Rightarrow> recv_fetch_responses env seqn n evs st w stale
           | Some acked \<Rightarrow>
               assertE (\<not> acked) (
               bindE (CoveredCacheManager_processVictimFetchResponse env e fetchset st w) (\<lambda>(st, w).
               recv_fetch_responses env seqn n evs (mark_acked e st) w stale))))"

lemma recv_fetch_events:
  "recv_fetch_responses env seqn n evs st w stale = Inr (evs', st', w', fin, stale') \<Longrightarrow>
   length evs' + (if n = 0 then 0 else 1) \<le> length evs \<and> (n = 0 \<longrightarrow> st' = st)"
  by (induction env seqn n evs st w stale rule: recv_fetch_responses.induct)
    (fastforce simp: bindE_eq_Inr assertE_eq_Inr split: if_splits option.splits)+

function (sequential) fetch_rounds ::
    "('m, 'z) lock_env_scheme \<Rightarrow> edge_services \<Rightarrow> u64 \<Rightarrow> u32 \<Rightarrow> u32 \<Rightarrow> fetch_event list \<Rightarrow> fetch_state
     \<Rightarrow> ('m, 'g) cooperation_wrapper \<Rightarrow> bool \<Rightarrow> (fetch_event list \<times> fetch_state \<times> ('m, 'g) cooperation_wrapper \<times> bool) exec" where
  "fetch_rounds env srv seqn obj_size cnt evs st w stale =
     (if acked_edgecnt st = cnt then Inr (evs, st, w, False)
      else bindE (if stale then Inr (st, w) else send_fetch_requests env srv obj_size (acked_flags st) st w) (\<lambda>(st, w).
           bindE (recv_fetch_responses env seqn (unat (cnt - acked_edgecnt st)) evs st w stale) (\<lambda>(evs, st, w, is_finish, stale).
           if is_finish then Inr (evs, st, w, True)
           else fetch_rounds env srv seqn obj_size cnt evs st w stale)))"
  by pat_completeness auto
termination
proof (relation "measure (\<lambda>(env, srv, seqn, obj_size, cnt, evs, st, w, stale). 2 * length evs + (if acked_edgecnt st = cnt then 0 else 1))", goal_cases)
  case 1
  then show ?case by simp
next
  case prems: (2 env srv seqn obj_size cnt evs st w stale x st1 w1 y evs' z1 st' z2 w' z3 fin stale')
  then have "recv_fetch_responses env seqn (unat (cnt - acked_edgecnt st1)) evs st1 w1 stale = Inr (evs', st', w', fin, stale')" by simp
  from recv_fetch_events [OF this] prems show ?case by (auto simp: unat_eq_0 split: if_splits)
qed

declare fetch_rounds.simps [simp del]

definition CoveredCacheManager_parallelFetchVictims ::
    "('m, 'z) lock_env_scheme \<Rightarrow> edge_services \<Rightarrow> u64 \<Rightarrow> u32 \<Rightarrow> edgeset \<Rightarrow> fetch_event list \<Rightarrow> ('m, 'g) cooperation_wrapper
     \<Rightarrow> (fetch_event list \<times> fetch_state \<times> ('m, 'g) cooperation_wrapper \<times> bool) exec" where
  "CoveredCacheManager_parallelFetchVictims env srv seqn obj_size fetch_edgeset evs w =
     assertE (0 < Edgeset_size fetch_edgeset) (
     fetch_rounds env srv seqn obj_size (Edgeset_size fetch_edgeset) evs
       \<lparr>acked_flags = map (\<lambda>e. (e, False)) fetch_edgeset, acked_edgecnt = 0, extra_peredge_victim_cacheinfos = [],
        extra_perkey_victim_dirinfoset = [], requests_sent = []\<rparr> w False)"

section \<open>Placement\<close>

record placement_candidate =
  placement_gain :: u32
  admission_benefit :: u32
  placement_edgeset :: edgeset
  placement_victims :: found_victims

definition calc_candidate ::
    "edge_services \<Rightarrow> aggregated_uncached_popularity \<Rightarrow> bool \<Rightarrow> victim_tracker \<Rightarrow> u32 \<Rightarrow> placement_candidate exec" where
  "calc_candidate srv p is_global_cached t topicnt =
     bindE (AggregatedUncachedPopularity_calcAdmissionBenefit (uncached_reward srv) topicnt is_global_cached p) (\<lambda>(benefit, es).
     bindE (VictimTracker_calcEvictionCost (edge_weights srv) (agg_object_size p) es [] [] t) (\<lambda>(cost, f).
     Inr \<lparr>placement_gain = f32_minus benefit cost, admission_benefit = benefit, placement_edgeset = es, placement_victims = f\<rparr>))"

text \<open>The first round has nothing to compare with.\<close>

definition better_candidate :: "placement_candidate option \<Rightarrow> placement_candidate \<Rightarrow> placement_candidate" where
  "better_candidate best c =
     (case best of
        None \<Rightarrow> c
      | Some b \<Rightarrow> if fval_less (f32_val (placement_gain b)) (f32_val (placement_gain c)) then c else b)"

fun greedy_loop ::
    "edge_services \<Rightarrow> aggregated_uncached_popularity \<Rightarrow> bool \<Rightarrow> victim_tracker \<Rightarrow> u32 list \<Rightarrow> placement_candidate option
     \<Rightarrow> placement_candidate option exec" where
  "greedy_loop srv p is_global_cached t [] best = Inr best"
| "greedy_loop srv p is_global_cached t (i # is) best =
     bindE (calc_candidate srv p is_global_cached t i) (\<lambda>c.
     greedy_loop srv p is_global_cached t is (Some (better_candidate best c)))"

text \<open>The values of the loop variable \<open>topicnt\<close>.\<close>

definition topi_counts :: "u32 \<Rightarrow> u32 list" where
  "topi_counts k = map word_of_nat [1..<Suc (unat k)]"

record placement_result =
  is_finish :: bool
  has_best_placement :: bool
  best_placement_edgeset :: edgeset
  best_placement_synced_victimset :: "(u32 \<times> key list) list"
  best_placement_fetched_victimset :: "(u32 \<times> key list) list"

definition no_placement :: placement_result where
  "no_placement = \<lparr>is_finish = False, has_best_placement = False, best_placement_edgeset = [],
     best_placement_synced_victimset = [], best_placement_fetched_victimset = []\<rparr>"

text \<open>After more victims are fetched, only the set of synced victims is taken over.\<close>

definition recalc_with_fetched ::
    "edge_services \<Rightarrow> aggregated_uncached_popularity \<Rightarrow> victim_tracker \<Rightarrow> placement_candidate \<Rightarrow> fetch_state \<Rightarrow> placement_result exec" where
  "recalc_with_fetched srv p t b st =
     (if 0 < length (extra_peredge_victim_cacheinfos st)
      then bindE (VictimTracker_calcEvictionCost (edge_weights srv) (agg_object_size p) (placement_edgeset b)
                    (extra_peredge_victim_cacheinfos st) (extra_perkey_victim_dirinfoset st) t) (\<lambda>(cost, f).
           assertE (Edgeset_size (victim_fetch_edgeset f) = 0) (
           Inr (if fval_less (Fin 0) (f32_val (f32_minus (admission_benefit b) cost))
                then no_placement\<lparr>has_best_placement := True, best_placement_edgeset := placement_edgeset b,
                       best_placement_synced_victimset := peredge_synced_victimset f\<rparr>
                else no_placement)))
      else Inr no_placement)"

definition CoveredCacheManager_placementCalculation ::
    "('m, 'z) lock_env_scheme \<Rightarrow> edge_services \<Rightarrow> u64 \<Rightarrow> key \<Rightarrow> bool \<Rightarrow> fetch_event list \<Rightarrow> ('m, 'g) cooperation_wrapper \<Rightarrow> covered_manager
     \<Rightarrow> (fetch_event list \<times> ('m, 'g) cooperation_wrapper \<times> placement_result) exec" where
  "CoveredCacheManager_placementCalculation env srv seqn key is_global_cached evs w mgr =
     bindE (PopularityAggregator_getAggregatedUncachedPopularity key (mgr_aggregator mgr)) (\<lambda>existing.
     case existing of
       None \<Rightarrow> Inr (evs, w, no_placement)
     | Some p \<Rightarrow>
         let k = AggregatedUncachedPopularity_getTopkListLength p
         in assertE (k \<le> PopularityAggregator_getTopkEdgecnt (mgr_aggregator mgr)) (
            bindE (greedy_loop srv p is_global_cached (mgr_tracker mgr) (topi_counts k) None) (\<lambda>best.
            case best of
              None \<Rightarrow> Inr (evs, w, no_placement)
            | Some b \<Rightarrow>
                if \<not> fval_less (Fin 0) (f32_val (placement_gain b)) then Inr (evs, w, no_placement)
                else if Edgeset_size (victim_fetch_edgeset (placement_victims b)) = 0
                then Inr (evs, w, no_placement\<lparr>has_best_placement := True, best_placement_edgeset := placement_edgeset b,
                            best_placement_synced_victimset := peredge_synced_victimset (placement_victims b),
                            best_placement_fetched_victimset := peredge_fetched_victimset (placement_victims b)\<rparr>)
                else bindE (CoveredCacheManager_parallelFetchVictims env srv seqn (agg_object_size p)
                              (victim_fetch_edgeset (placement_victims b)) evs w) (\<lambda>(evs, st, w, fin).
                     if fin then Inr (evs, w, no_placement\<lparr>is_finish := True\<rparr>)
                     else bindE (recalc_with_fetched srv p (mgr_tracker mgr) b st) (\<lambda>r. Inr (evs, w, r))))))"

section \<open>Reports of popularity\<close>

fun remove_placed_loop :: "(u32 \<times> key list) list \<Rightarrow> victim_tracker \<Rightarrow> victim_tracker exec" where
  "remove_placed_loop [] t = Inr t"
| "remove_placed_loop ((e, ks) # rest) t = bindE (VictimTracker_removeVictimsForGivenEdge e ks t) (\<lambda>t. remove_placed_loop rest t)"

record popularity_outcome =
  outcome_finish :: bool
  outcome_edgeset :: edgeset
  need_hybrid_fetching :: bool
  outcome_hint :: fast_path_hint

definition deploy_placement ::
    "edge_services \<Rightarrow> key \<Rightarrow> bool \<Rightarrow> placement_result \<Rightarrow> covered_manager \<Rightarrow> (covered_manager \<times> bool) exec" where
  "deploy_placement srv key is_global_cached r mgr =
     bindE (PopularityAggregator_updatePreservedEdgesetForPlacement (uncached_reward srv) key (best_placement_edgeset r) is_global_cached
              (mgr_aggregator mgr)) (\<lambda>a.
     bindE (remove_placed_loop (best_placement_synced_victimset r) (mgr_tracker mgr)) (\<lambda>t.
     bindE (start_data_fetch srv key (best_placement_edgeset r)) (\<lambda>hybrid.
     Inr (mgr\<lparr>mgr_aggregator := a, mgr_tracker := t\<rparr>, hybrid))))"

text \<open>The handler is not one critical section: the aggregator is locked for the question whether the key is being admitted, for
  the report, for the copy of the popularity that the calculation uses, and for the preservation of the chosen nodes. What
  other threads do to the aggregator between two of these is a list of requests, \<open>others 0\<close>, \<open>others 1\<close> and \<open>others 2\<close>; if one
  of them stops, it stops the process.\<close>

definition serve_others :: "aggregator_request list \<Rightarrow> covered_manager \<Rightarrow> covered_manager exec" where
  "serve_others rs mgr = bindE (aggregator_serve_all rs (mgr_aggregator mgr)) (\<lambda>a. Inr (mgr\<lparr>mgr_aggregator := a\<rparr>))"

definition CoveredCacheManager_updatePopularityAggregatorForAggregatedPopularity ::
    "('m, 'z) lock_env_scheme \<Rightarrow> edge_services \<Rightarrow> (nat \<Rightarrow> aggregator_request list) \<Rightarrow> u64 \<Rightarrow> key \<Rightarrow> u32 \<Rightarrow> collected_popularity
     \<Rightarrow> bool \<Rightarrow> bool \<Rightarrow> bool \<Rightarrow> fetch_event list \<Rightarrow> ('m, 'g) cooperation_wrapper \<Rightarrow> covered_manager
     \<Rightarrow> (fetch_event list \<times> ('m, 'g) cooperation_wrapper \<times> covered_manager \<times> popularity_outcome) exec" where
  "CoveredCacheManager_updatePopularityAggregatorForAggregatedPopularity env srv others seqn key source_edge_idx collected
       is_global_cached is_source_cached need_placement_calculation evs w mgr =
     (let is_global_cached = (is_global_cached \<or> PopularityAggregator_isKeyBeingAdmitted key (mgr_aggregator mgr))
      in bindE (serve_others (others 0) mgr) (\<lambda>mgr.
         bindE (PopularityAggregator_updateAggregatedUncachedPopularity (uncached_reward srv) key source_edge_idx collected
                  is_global_cached is_source_cached FastPathHint_default (mgr_aggregator mgr)) (\<lambda>(a, hint).
         bindE (serve_others (others 1) (mgr\<lparr>mgr_aggregator := a\<rparr>)) (\<lambda>mgr.
         let outcome = \<lparr>outcome_finish = False, outcome_edgeset = [], need_hybrid_fetching = False, outcome_hint = hint\<rparr>
         in if need_placement_calculation \<and> is_tracked collected \<and> \<not> is_source_cached
            then bindE (CoveredCacheManager_placementCalculation env srv seqn key is_global_cached evs w mgr) (\<lambda>(evs, w, r).
                 assertE (Edgeset_size (best_placement_edgeset r) \<le> mgr_topk_edgecnt mgr) (
                 let outcome = outcome\<lparr>outcome_edgeset := best_placement_edgeset r\<rparr>
                 in if is_finish r then Inr (evs, w, mgr, outcome\<lparr>outcome_finish := True\<rparr>)
                    else if has_best_placement r
                    then bindE (serve_others (others 2) mgr) (\<lambda>mgr.
                         bindE (deploy_placement srv key is_global_cached r mgr) (\<lambda>(mgr, hybrid).
                         Inr (evs, w, mgr, outcome\<lparr>need_hybrid_fetching := hybrid\<rparr>)))
                    else Inr (evs, w, mgr, outcome)))
            else Inr (evs, w, mgr, outcome)))))"

definition CoveredCacheManager_clearPopularityAggregatorForPreservedEdgesetAfterAdmission ::
    "key \<Rightarrow> u32 \<Rightarrow> covered_manager \<Rightarrow> covered_manager exec" where
  "CoveredCacheManager_clearPopularityAggregatorForPreservedEdgesetAfterAdmission key source_edge_idx mgr =
     bindE (PopularityAggregator_clearPreservedEdgesetAfterAdmission key source_edge_idx (mgr_aggregator mgr)) (\<lambda>a.
     Inr (mgr\<lparr>mgr_aggregator := a\<rparr>))"

section \<open>Victims and cached directories\<close>

definition CoveredCacheManager_updateVictimTrackerForLocalCacheMarginBytes ::
    "('m, 'z) lock_env_scheme \<Rightarrow> u64 \<Rightarrow> covered_manager \<Rightarrow> covered_manager exec" where
  "CoveredCacheManager_updateVictimTrackerForLocalCacheMarginBytes env margin mgr =
     bindE (VictimTracker_updateLocalCacheMarginBytes env margin (mgr_tracker mgr)) (\<lambda>t. Inr (mgr\<lparr>mgr_tracker := t\<rparr>))"

definition CoveredCacheManager_updateVictimTrackerForLocalSyncedVictims ::
    "('m, 'z) lock_env_scheme \<Rightarrow> u64 \<Rightarrow> victim_cacheinfo list \<Rightarrow> ('m, 'g) cooperation_wrapper \<Rightarrow> covered_manager
     \<Rightarrow> (('m, 'g) cooperation_wrapper \<times> covered_manager) exec" where
  "CoveredCacheManager_updateVictimTrackerForLocalSyncedVictims env margin victims w mgr =
     bindE (VictimTracker_updateLocalSyncedVictims env margin victims w (mgr_tracker mgr)) (\<lambda>(w, t). Inr (w, mgr\<lparr>mgr_tracker := t\<rparr>))"

definition CoveredCacheManager_updateVictimTrackerForLocalBeaconedVictimDirinfo ::
    "('m, 'z) lock_env_scheme \<Rightarrow> key \<Rightarrow> bool \<Rightarrow> directory_info \<Rightarrow> covered_manager \<Rightarrow> covered_manager exec" where
  "CoveredCacheManager_updateVictimTrackerForLocalBeaconedVictimDirinfo env key is_admit info mgr =
     bindE (VictimTracker_updateLocalBeaconedVictimDirinfo env key is_admit info (mgr_tracker mgr)) (\<lambda>t. Inr (mgr\<lparr>mgr_tracker := t\<rparr>))"

definition CoveredCacheManager_accessVictimTrackerForLocalVictimSyncset ::
    "bool \<Rightarrow> u32 \<Rightarrow> u64 \<Rightarrow> covered_manager \<Rightarrow> (covered_manager \<times> victim_syncset) exec" where
  "CoveredCacheManager_accessVictimTrackerForLocalVictimSyncset chk dst margin mgr =
     bindE (VictimTracker_getLocalVictimSyncsetForSynchronization chk dst margin (mgr_tracker mgr)) (\<lambda>(t, s).
     Inr (mgr\<lparr>mgr_tracker := t\<rparr>, s))"

definition CoveredCacheManager_updateVictimTrackerForNeighborVictimSyncset ::
    "('m, 'z) lock_env_scheme \<Rightarrow> u32 \<Rightarrow> victim_syncset \<Rightarrow> ('m, 'g) cooperation_wrapper \<Rightarrow> covered_manager
     \<Rightarrow> (('m, 'g) cooperation_wrapper \<times> covered_manager) exec" where
  "CoveredCacheManager_updateVictimTrackerForNeighborVictimSyncset env source s w mgr =
     bindE (VictimTracker_updateForNeighborVictimSyncset env source s w (mgr_tracker mgr)) (\<lambda>(w, t). Inr (w, mgr\<lparr>mgr_tracker := t\<rparr>))"

definition CoveredCacheManager_accessDirectoryCacherForCachedDirectory :: "key \<Rightarrow> covered_manager \<Rightarrow> cached_directory option" where
  "CoveredCacheManager_accessDirectoryCacherForCachedDirectory key mgr = DirectoryCacher_getCachedDirectory key (mgr_cacher mgr)"

definition CoveredCacheManager_accessDirectoryCacherToCheckPopularityChange ::
    "key \<Rightarrow> u32 \<Rightarrow> covered_manager \<Rightarrow> (cached_directory \<times> bool) option exec" where
  "CoveredCacheManager_accessDirectoryCacherToCheckPopularityChange key popularity mgr =
     DirectoryCacher_checkPopularityChange key popularity (mgr_cacher mgr)"

definition CoveredCacheManager_updateDirectoryCacherToRemoveCachedDirectory :: "key \<Rightarrow> covered_manager \<Rightarrow> covered_manager" where
  "CoveredCacheManager_updateDirectoryCacherToRemoveCachedDirectory key mgr =
     mgr\<lparr>mgr_cacher := DirectoryCacher_removeCachedDirectoryIfAny key (mgr_cacher mgr)\<rparr>"

definition CoveredCacheManager_updateDirectoryCacherForNewCachedDirectory ::
    "key \<Rightarrow> cached_directory \<Rightarrow> covered_manager \<Rightarrow> covered_manager exec" where
  "CoveredCacheManager_updateDirectoryCacherForNewCachedDirectory key d mgr =
     bindE (DirectoryCacher_updateForNewCachedDirectory key d (mgr_cacher mgr)) (\<lambda>c. Inr (mgr\<lparr>mgr_cacher := c\<rparr>))"

definition CoveredCacheManager_accessVictimTrackerForFastPathEvictionCost ::
    "edge_services \<Rightarrow> victim_cacheinfo list \<Rightarrow> (key \<times> dirinfo_set) list \<Rightarrow> covered_manager \<Rightarrow> u32 exec" where
  "CoveredCacheManager_accessVictimTrackerForFastPathEvictionCost srv victims sets mgr =
     VictimTracker_calcEvictionCostForFastPathPlacement (edge_weights srv) victims sets (mgr_tracker mgr)"

definition CoveredCacheManager_getSizeForCapacity :: "covered_manager \<Rightarrow> u64" where
  "CoveredCacheManager_getSizeForCapacity mgr =
     PopularityAggregator_getSizeForCapacity (mgr_aggregator mgr) + VictimTracker_getSizeForCapacity (mgr_tracker mgr)
     + DirectoryCacher_getSizeForCapacity (mgr_cacher mgr)"

definition CoveredCacheManager_dumpCoveredCacheManagerSnapshot :: "covered_manager \<Rightarrow> u8 list \<Rightarrow> u8 list exec" where
  "CoveredCacheManager_dumpCoveredCacheManagerSnapshot mgr out =
     bindE (PopularityAggregator_dumpPopularityAggregator (mgr_aggregator mgr) out) (\<lambda>out.
     bindE (VictimTracker_dumpVictimTracker (mgr_tracker mgr) out) (\<lambda>out.
     DirectoryCacher_dumpDirectoryCacher (mgr_cacher mgr) out))"

definition CoveredCacheManager_loadCoveredCacheManagerSnapshot :: "covered_manager \<Rightarrow> fstream \<Rightarrow> (covered_manager \<times> fstream) exec" where
  "CoveredCacheManager_loadCoveredCacheManagerSnapshot this fs =
     bindE (PopularityAggregator_loadPopularityAggregator (mgr_aggregator this) fs) (\<lambda>(a, fs).
     bindE (VictimTracker_loadVictimTracker (mgr_tracker this) fs) (\<lambda>(t, fs).
     bindE (DirectoryCacher_loadDirectoryCacher (mgr_cacher this) fs) (\<lambda>(c, fs).
     Inr (this\<lparr>mgr_aggregator := a, mgr_tracker := t, mgr_cacher := c\<rparr>, fs))))"

end
