(* ===== verification/Placement_Decision.thy ===== *)
theory Placement_Decision
  imports Covered_Manager
begin

text \<open>
  What a placement decision guarantees: the nodes chosen are the most popular ones for which the gain is greatest, and a
  node that has been chosen for a key is not chosen for it again before it admits the object, unless another thread decides
  for the same key between the calculation and the preservation of the chosen nodes.
\<close>

section \<open>The order of gains\<close>

lemma fval_less_trans: "fval_less a b \<Longrightarrow> fval_less b c \<Longrightarrow> fval_less a c"
  by (cases a; cases b; cases c) (auto simp: fval_less_def)

lemma fval_less_irrefl [simp]: "\<not> fval_less a a"
  by (cases a) (auto simp: fval_less_def)

lemma fval_not_less_trans: "a \<noteq> NaN \<Longrightarrow> \<not> fval_less b a \<Longrightarrow> fval_less b c \<Longrightarrow> fval_less a c"
  by (cases a; cases b; cases c) (auto simp: fval_less_def split: if_splits)

abbreviation gain_val :: "placement_candidate \<Rightarrow> fval" where
  "gain_val c \<equiv> f32_val (placement_gain c)"

definition first_greatest :: "placement_candidate list \<Rightarrow> nat \<Rightarrow> bool" where
  "first_greatest cs j \<longleftrightarrow> j < length cs
     \<and> (\<forall>i < length cs. \<not> fval_less (gain_val (cs ! j)) (gain_val (cs ! i)) \<and> (i < j \<longrightarrow> fval_less (gain_val (cs ! i)) (gain_val (cs ! j))))"

abbreviation keep_better :: "placement_candidate option \<Rightarrow> placement_candidate \<Rightarrow> placement_candidate option" where
  "keep_better best c \<equiv> Some (better_candidate best c)"

lemma foldl_better:
  assumes "cs \<noteq> []" and "\<forall>c \<in> set cs. gain_val c \<noteq> NaN"
  shows "\<exists>j. first_greatest cs j \<and> foldl keep_better None cs = Some (cs ! j)"
  using assms
proof (induction cs rule: rev_induct)
  case (snoc c cs)
  show ?case
  proof (cases "cs = []")
    case True
    then show ?thesis by (intro exI [of _ 0]) (simp add: first_greatest_def better_candidate_def)
  next
    case False
    then obtain j where j: "first_greatest cs j" "foldl keep_better None cs = Some (cs ! j)" using snoc by auto
    show ?thesis
    proof (cases "fval_less (gain_val (cs ! j)) (gain_val c)")
      case True
      have "fval_less (gain_val (cs ! i)) (gain_val c)" if "i < length cs" for i
        by (rule fval_not_less_trans [OF _ _ True]) (use that j(1) snoc.prems in \<open>simp_all add: first_greatest_def\<close>)
      then have "first_greatest (cs @ [c]) (length cs)"
        using fval_less_trans by (fastforce simp: first_greatest_def nth_append less_Suc_eq)
      then show ?thesis using j True by (intro exI [of _ "length cs"]) (simp add: better_candidate_def)
    next
      case False
      then have "first_greatest (cs @ [c]) j" using j(1) by (auto simp: first_greatest_def nth_append less_Suc_eq)
      moreover have "(cs @ [c]) ! j = cs ! j" using j(1) by (simp add: first_greatest_def nth_append)
      ultimately show ?thesis using j False by (intro exI [of _ j]) (simp add: better_candidate_def)
    qed
  qed
qed simp

lemma greedy_loop_candidates:
  assumes "greedy_loop srv p g t is best = Inr best'"
  shows "\<exists>cs. length cs = length is \<and> (\<forall>j < length is. calc_candidate srv p g t (is ! j) = Inr (cs ! j))
    \<and> best' = foldl keep_better best cs"
  using assms
proof (induction "is" arbitrary: best)
  case (Cons i "is")
  then obtain c where c: "calc_candidate srv p g t i = Inr c" "greedy_loop srv p g t is (keep_better best c) = Inr best'"
    by (auto simp: bindE_eq_Inr)
  from Cons.IH [OF c(2)] obtain cs where "length cs = length is" "\<forall>j < length is. calc_candidate srv p g t (is ! j) = Inr (cs ! j)"
    "best' = foldl keep_better (keep_better best c) cs" by blast
  then show ?case using c(1) by (intro exI [of _ "c # cs"]) (auto simp: nth_Cons split: nat.splits)
qed simp

section \<open>The nodes of a candidate\<close>

lemma topi_loop_edges: "topi_loop xs s es = Inr (s', es') \<Longrightarrow> set es' = set es \<union> fst ` set xs"
  by (induction xs s es rule: topi_loop.induct) (auto simp: bindE_eq_Inr)

lemma candidate_edges:
  assumes "calc_candidate srv p g t (word_of_nat i) = Inr c" and "i \<le> length (topk p)" and "length (topk p) < 2 ^ 32"
  shows "set (placement_edgeset c) = fst ` set (drop (length (topk p) - i) (topk p))"
proof -
  let ?n = "word_of_nat (length (topk p)) :: u32" and ?i = "word_of_nat i :: u32"
  have u: "unat ?n = length (topk p)" "unat ?i = i" using assms(2,3) by (simp_all add: unat_of_nat_small)
  then have "?i \<le> ?n" using assms(2) by (simp add: word_le_nat_alt)
  then have "unat (?n - ?i) = length (topk p) - i" using u by (simp add: unat_sub)
  moreover obtain s where "AggregatedUncachedPopularity_getTopiLocalUncachedPopularitySum ?i p = Inr (s, placement_edgeset c)"
    using assms(1) by (auto simp: calc_candidate_def AggregatedUncachedPopularity_calcAdmissionBenefit_def exit_ifE_eq_Inr bindE_eq_Inr)
  then have "topi_loop (drop (unat (?n - ?i)) (topk p)) 0 [] = Inr (s, placement_edgeset c)"
    by (simp add: AggregatedUncachedPopularity_getTopiLocalUncachedPopularitySum_def Let_def assertE_eq_Inr)
  ultimately show ?thesis using topi_loop_edges by fastforce
qed

lemma candidate_none: "set (placement_edgeset c) = fst ` set (drop n xs) \<Longrightarrow> e \<in> set (placement_edgeset c) \<Longrightarrow> e \<in> fst ` set xs"
  by (auto dest: in_set_dropD)

text \<open>What the calculation returns when it has found a placement.\<close>

lemma recalc_cases:
  "recalc_with_fetched srv p t b st = Inr r \<Longrightarrow> r = no_placement \<or> has_best_placement r \<and> \<not> is_finish r \<and> best_placement_edgeset r = placement_edgeset b"
  by (auto simp: recalc_with_fetched_def no_placement_def bindE_eq_Inr assertE_eq_Inr split: if_splits)

lemma placement_best:
  assumes "CoveredCacheManager_placementCalculation env srv seqn key g evs w mgr = Inr (evs', w', r)"
    and "has_best_placement r \<or> best_placement_edgeset r \<noteq> []"
  obtains p b where "PopularityAggregator_getAggregatedUncachedPopularity key (mgr_aggregator mgr) = Inr (Some p)"
    "greedy_loop srv p g (mgr_tracker mgr) (topi_counts (AggregatedUncachedPopularity_getTopkListLength p)) None = Inr (Some b)"
    "fval_less (Fin 0) (gain_val b)" "best_placement_edgeset r = placement_edgeset b"
proof -
  have no: "r \<noteq> no_placement" "r \<noteq> no_placement\<lparr>is_finish := True\<rparr>" using assms(2) by (auto simp: no_placement_def)
  obtain p where p: "PopularityAggregator_getAggregatedUncachedPopularity key (mgr_aggregator mgr) = Inr (Some p)"
    using assms(1) no by (auto simp: CoveredCacheManager_placementCalculation_def bindE_eq_Inr split: option.splits)
  obtain b where b: "greedy_loop srv p g (mgr_tracker mgr) (topi_counts (AggregatedUncachedPopularity_getTopkListLength p)) None = Inr (Some b)"
    using assms(1) no by (auto simp: CoveredCacheManager_placementCalculation_def p Let_def bindE_eq_Inr assertE_eq_Inr split: option.splits)
  have pos: "fval_less (Fin 0) (gain_val b)"
    using assms(1) no by (auto simp: CoveredCacheManager_placementCalculation_def p b Let_def assertE_eq_Inr split: if_splits)
  have "best_placement_edgeset r = placement_edgeset b"
    using assms(1) no pos
    by (auto simp: CoveredCacheManager_placementCalculation_def p b Let_def assertE_eq_Inr bindE_eq_Inr dest!: recalc_cases split: if_splits)
  then show ?thesis using that p b pos by blast
qed

lemma reach_popularity:
  assumes "aggregator_reach n capacity k a" and "0 < n" and "0 < k" and "unat capacity < 2 ^ 62"
    and "PopularityAggregator_getAggregatedUncachedPopularity key a = Inr (Some p)"
  shows "popularity_of a key = Some p" and "popularity_ok a p" and "length (topk p) < 2 ^ 32"
proof -
  have core: "agg_core a" using aggregator_reach_inv [OF assms(1-4)] by (simp add: agg_inv_def)
  then show 1: "popularity_of a key = Some p" using assms(5) by (simp add: getAggregated_popularity_of)
  then show 2: "popularity_ok a p" using popularity_of_in [OF 1] core by (auto simp: agg_core_def)
  then show "length (topk p) < 2 ^ 32" using unat_less_32 [of "agg_topk_edgecnt a"] by (simp add: popularity_ok_def agg_ok_def)
qed

text \<open>C33: A placement has the greatest gain. When a beacon places an object, the nodes are, for some number \<open>i\<close>, the \<open>i\<close> nodes that
  reported the greatest popularities; the gain (admission benefit less eviction cost) is positive, no other number of
  nodes has a greater gain, and every smaller number has a smaller one.\<close>

theorem placement_maximizes_gain:
  assumes "aggregator_reach n capacity k (mgr_aggregator mgr)" and "0 < n" and "0 < k" and "unat capacity < 2 ^ 62"
    and "CoveredCacheManager_placementCalculation env srv seqn key g evs w mgr = Inr (evs', w', r)" and "has_best_placement r"
    and "PopularityAggregator_getAggregatedUncachedPopularity key (mgr_aggregator mgr) = Inr (Some p)"
    and "\<forall>i c. 1 \<le> i \<longrightarrow> i \<le> length (topk p) \<longrightarrow> calc_candidate srv p g (mgr_tracker mgr) (word_of_nat i) = Inr c
          \<longrightarrow> f32_val (placement_gain c) \<noteq> NaN"
  shows "\<exists>i c. 1 \<le> i \<and> i \<le> length (topk p) \<and> calc_candidate srv p g (mgr_tracker mgr) (word_of_nat i) = Inr c
    \<and> best_placement_edgeset r = placement_edgeset c \<and> fval_less (Fin 0) (f32_val (placement_gain c))
    \<and> set (placement_edgeset c) = fst ` set (drop (length (topk p) - i) (topk p))
    \<and> (\<forall>j. 1 \<le> j \<longrightarrow> j \<le> length (topk p) \<longrightarrow> (\<exists>d. calc_candidate srv p g (mgr_tracker mgr) (word_of_nat j) = Inr d
         \<and> \<not> fval_less (f32_val (placement_gain c)) (f32_val (placement_gain d))
         \<and> (j < i \<longrightarrow> fval_less (f32_val (placement_gain d)) (f32_val (placement_gain c)))))"
proof -
  note small = reach_popularity(3) [OF assms(1-4,7)]
  let ?n = "length (topk p)" and ?is = "topi_counts (AggregatedUncachedPopularity_getTopkListLength p)"
  have k: "?is = map word_of_nat [1..<Suc ?n]"
    using small by (simp add: topi_counts_def AggregatedUncachedPopularity_getTopkListLength_def unat_of_nat_small del: upt_Suc)
  have len: "length ?is = ?n" and nth: "\<And>j. j < ?n \<Longrightarrow> ?is ! j = word_of_nat (Suc j)" unfolding k by (simp_all del: upt_Suc)
  obtain b where b: "greedy_loop srv p g (mgr_tracker mgr) ?is None = Inr (Some b)"
    "fval_less (Fin 0) (gain_val b)" "best_placement_edgeset r = placement_edgeset b"
    by (rule placement_best [OF assms(5)]) (use assms(6,7) in auto)
  from greedy_loop_candidates [OF b(1)] obtain cs where cs: "length cs = ?n"
    "\<And>j. j < ?n \<Longrightarrow> calc_candidate srv p g (mgr_tracker mgr) (word_of_nat (Suc j)) = Inr (cs ! j)" "Some b = foldl keep_better None cs"
    using len nth by auto
  have "cs \<noteq> []" using cs(3) by auto
  moreover have "gain_val c \<noteq> NaN" if c: "c \<in> set cs" for c
  proof -
    obtain i where i: "i < ?n" "c = cs ! i" using c cs(1) by (metis in_set_conv_nth)
    have "Suc i \<le> ?n" using i(1) by simp
    then show ?thesis using assms(8) cs(2) [OF i(1)] i(2) by (metis One_nat_def le_add1 plus_1_eq_Suc)
  qed
  ultimately obtain j where j: "first_greatest cs j" "b = cs ! j" using foldl_better [of cs] cs(3) by force
  then have jn: "j < ?n" using cs(1) by (simp add: first_greatest_def)
  have c: "calc_candidate srv p g (mgr_tracker mgr) (word_of_nat (Suc j)) = Inr b" using cs(2) [OF jn] j(2) by simp
  moreover have "\<exists>d. calc_candidate srv p g (mgr_tracker mgr) (word_of_nat i) = Inr d \<and> \<not> fval_less (gain_val b) (gain_val d)
      \<and> (i < Suc j \<longrightarrow> fval_less (gain_val d) (gain_val b))" if i: "1 \<le> i" "i \<le> ?n" for i
    using cs(2) [of "i - 1"] j i cs(1) by (intro exI [of _ "cs ! (i - 1)"]) (auto simp: first_greatest_def)
  moreover have "set (placement_edgeset b) = fst ` set (drop (?n - Suc j) (topk p))"
    by (rule candidate_edges [OF c _ small]) (use jn in simp)
  ultimately show ?thesis using b jn by (intro exI [of _ "Suc j"] exI [of _ b]) simp
qed

section \<open>A chosen node is not chosen again\<close>

definition being_placed :: "key \<Rightarrow> u32 \<Rightarrow> popularity_aggregator \<Rightarrow> bool" where
  "being_placed key e a \<longleftrightarrow>
     (case map_of (perkey_preserved_edgeset a) key of None \<Rightarrow> False | Some bm \<Rightarrow> PreservedEdgeset_isPreserved e bm = Inr True)"

lemma report_keeps_preserved:
  assumes "PopularityAggregator_updateAggregatedUncachedPopularity reward key e c g s hint a = Inr (a', hint')" and "agg_inv a"
  shows "perkey_preserved_edgeset a' = perkey_preserved_edgeset a"
proof -
  have core: "agg_core a" and tot: "total_bytes a < 2 ^ 63" using assms(2) agg_inv_total [OF assms(2)] by (simp_all add: agg_inv_def)
  have disc: "perkey_preserved_edgeset a' = perkey_preserved_edgeset a1"
    if "PopularityAggregator_discardGlobalLessPopularObjects a1 = Inr a'" "agg_core a1" for a1
    using discard_ok [OF that(2)] that(1) by (auto simp: discarded_def)
  from assms(1) show ?thesis
  proof (cases rule: update_request_cases)
    case (added a1)
    from new_key_ok [OF added(1) core tot] have "agg_core a1" "perkey_preserved_edgeset a1 = perkey_preserved_edgeset a"
      by (auto simp: replaced_def)
    then show ?thesis using disc [OF added(2)] by simp
  next
    case (updated a1)
    from existing_ok [OF updated(1) core tot] have "agg_core a1" "perkey_preserved_edgeset a1 = perkey_preserved_edgeset a"
      by (auto simp: replaced_def)
    then show ?thesis using disc [OF updated(2)] by simp
  next
    case (cleared success)
    from existing_ok [OF cleared core tot] show ?thesis by (auto simp: replaced_def)
  next
    case same
    then show ?thesis by simp
  qed
qed

lemma preserve_range: "PreservedEdgeset_preserveEdgesetForPlacement es bm = Inr bm' \<Longrightarrow> e \<in> set es \<Longrightarrow> unat e < length bm"
proof (induction es arbitrary: bm)
  case (Cons a es)
  let ?b = "if bm ! unat a then bm else bm[unat a := True]"
  have a: "unat a < length bm" "PreservedEdgeset_preserveEdgesetForPlacement es ?b = Inr bm'"
    using Cons.prems(1) by (simp_all only: PreservedEdgeset_preserveEdgesetForPlacement.simps assertE_eq_Inr)
  have "length ?b = length bm" by simp
  then show ?case using a(1) Cons.IH [OF a(2)] Cons.prems(2) by (metis set_ConsD)
qed simp

lemma placed_in_range:
  assumes "PopularityAggregator_updatePreservedEdgesetForPlacement reward key es g a = Inr a'" and "agg_inv a" and "e \<in> set es"
  shows "unat e < unat (agg_edgecnt a)"
proof (cases "map_of (perkey_preserved_edgeset a) key")
  case None
  then show ?thesis using assms(1,3)
    by (auto simp: PopularityAggregator_updatePreservedEdgesetForPlacement_def PreservedEdgeset_new_def Let_def bindE_eq_Inr assertE_eq_Inr
        dest!: preserve_range)
next
  case (Some bm)
  then have "length bm = unat (agg_edgecnt a)" using assms(2) by (force simp: agg_inv_def agg_core_def dest: map_of_SomeD)
  then show ?thesis using assms(1,3) Some
    by (auto simp: PopularityAggregator_updatePreservedEdgesetForPlacement_def Let_def bindE_eq_Inr dest!: preserve_range)
qed

lemma placement_preserves:
  assumes "PopularityAggregator_updatePreservedEdgesetForPlacement reward key es g a = Inr a'" and "agg_inv a"
  shows "being_placed k e a' \<longleftrightarrow> being_placed k e a \<or> k = key \<and> e \<in> set es"
proof -
  have core: "agg_core a" using assms(2) by (simp add: agg_inv_def)
  from assms obtain bm0 bm a1 a2 v where pr: "preserving key bm a a1" and len: "length bm = unat (agg_edgecnt a)"
    and b: "\<forall>e. unat e < unat (agg_edgecnt a) \<longrightarrow> (bm ! unat e \<longleftrightarrow> bm0 ! unat e \<or> e \<in> set es)"
    and b0: "map_of (perkey_preserved_edgeset a) key = Some bm0
      \<or> map_of (perkey_preserved_edgeset a) key = None \<and> bm0 = replicate (unat (agg_edgecnt a)) False"
    and r: "replaced key v a1 a2" and v: "v = None \<or> (\<exists>q. v = Some q \<and> disjoint_bits (unat (agg_edgecnt a)) bm (agg_bitmap q))"
    and d: "PopularityAggregator_discardGlobalLessPopularObjects a2 = Inr a'"
    by (rule placement_replaced)
  have c2: "agg_core a2" "perkey_preserved_edgeset a2 = perkey_preserved_edgeset a1" using r by (simp_all add: replaced_def)
  then have "perkey_preserved_edgeset a' = perkey_preserved_edgeset a1" using discard_ok [OF c2(1)] d by (auto simp: discarded_def)
  then have m: "map_of (perkey_preserved_edgeset a') = (map_of (perkey_preserved_edgeset a))(key \<mapsto> bm)" using pr by (simp add: preserving_def)
  have len0: "length bm0 = unat (agg_edgecnt a)" using b0 core by (force simp: agg_core_def dest: map_of_SomeD)
  have bm: "being_placed key e a' \<longleftrightarrow> unat e < unat (agg_edgecnt a) \<and> bm ! unat e"
    using len m by (auto simp: being_placed_def PreservedEdgeset_isPreserved_def assertE_eq_Inr)
  have bm0: "being_placed key e a \<longleftrightarrow> unat e < unat (agg_edgecnt a) \<and> bm0 ! unat e"
    using b0 len0 by (auto simp: being_placed_def PreservedEdgeset_isPreserved_def assertE_eq_Inr)
  show ?thesis
  proof (cases "k = key")
    case True
    then show ?thesis using bm bm0 b placed_in_range [OF assms, of e] by auto
  next
    case False
    then show ?thesis using m by (simp add: being_placed_def)
  qed
qed

lemma admission_clears:
  assumes "PopularityAggregator_clearPreservedEdgesetAfterAdmission key e a = Inr a'"
  shows "being_placed k i a' \<Longrightarrow> being_placed k i a" and "being_placed k i a \<Longrightarrow> k \<noteq> key \<or> i \<noteq> e \<Longrightarrow> being_placed k i a'"
proof -
  have "(being_placed k i a' \<longrightarrow> being_placed k i a) \<and> (being_placed k i a \<longrightarrow> k \<noteq> key \<or> i \<noteq> e \<longrightarrow> being_placed k i a')"
  proof (cases "map_of (perkey_preserved_edgeset a) key")
    case None
    then show ?thesis using assms by (simp add: PopularityAggregator_clearPreservedEdgesetAfterAdmission_def)
  next
    case (Some bm0)
    define bm where "bm = (if bm0 ! unat e then bm0[unat e := False] else bm0)"
    from assms Some have e: "unat e < length bm0"
      and m: "map_of (perkey_preserved_edgeset a') = (map_of (perkey_preserved_edgeset a))(key := if \<exists>b \<in> set bm. b then Some bm else None)"
      by (auto simp: PopularityAggregator_clearPreservedEdgesetAfterAdmission_def PreservedEdgeset_clearPreservedEdgeNode_def
          Let_def bindE_eq_Inr assertE_eq_Inr bm_def split: if_splits)
    have bit: "unat i < length bm0 \<Longrightarrow> bm ! unat i \<longleftrightarrow> bm0 ! unat i \<and> i \<noteq> e" for i
      using e by (auto simp: bm_def nth_list_update word_unat_eq_iff)
    have len: "length bm = length bm0" by (simp add: bm_def)
    show ?thesis
    proof (cases "k = key")
      case True
      have "being_placed key i a \<longleftrightarrow> unat i < length bm0 \<and> bm0 ! unat i" for i
        using Some by (auto simp: being_placed_def PreservedEdgeset_isPreserved_def assertE_eq_Inr)
      moreover have "being_placed key i a' \<longleftrightarrow> unat i < length bm0 \<and> bm ! unat i" for i
        using m len by (auto simp: being_placed_def PreservedEdgeset_isPreserved_def assertE_eq_Inr in_set_conv_nth)
      ultimately show ?thesis using True bit by auto
    next
      case False
      then show ?thesis using m by (simp add: being_placed_def)
    qed
  qed
  then show "being_placed k i a' \<Longrightarrow> being_placed k i a" "being_placed k i a \<Longrightarrow> k \<noteq> key \<or> i \<noteq> e \<Longrightarrow> being_placed k i a'"
    by blast+
qed

text \<open>What other threads do to a pending choice: it is made by a placement of the node and ends with its admission.\<close>

definition places :: "key \<Rightarrow> u32 \<Rightarrow> aggregator_request \<Rightarrow> bool" where
  "places key e r \<longleftrightarrow> (\<exists>reward es g. r = AggPlace reward key es g \<and> e \<in> set es)"

lemma serve_placed:
  assumes "aggregator_serve r a = Inr a'" and "agg_inv a"
  shows "being_placed key e a' \<Longrightarrow> being_placed key e a \<or> places key e r"
    and "being_placed key e a \<Longrightarrow> r \<noteq> AggAdmit key e \<Longrightarrow> being_placed key e a'"
proof -
  have "(being_placed key e a' \<longrightarrow> being_placed key e a \<or> places key e r) \<and> (being_placed key e a \<longrightarrow> r \<noteq> AggAdmit key e \<longrightarrow> being_placed key e a')"
  proof (cases r)
    case (AggReport reward k i c g s)
    then obtain hint where "PopularityAggregator_updateAggregatedUncachedPopularity reward k i c g s FastPathHint_default a = Inr (a', hint)"
      using assms(1) by (auto simp: bindE_eq_Inr)
    from report_keeps_preserved [OF this assms(2)] show ?thesis by (simp add: being_placed_def)
  next
    case (AggPlace reward k es g)
    then have "PopularityAggregator_updatePreservedEdgesetForPlacement reward k es g a = Inr a'" using assms(1) by simp
    from placement_preserves [OF this assms(2), of key e] show ?thesis using AggPlace by (auto simp: places_def)
  next
    case (AggAdmit k i)
    then have "PopularityAggregator_clearPreservedEdgesetAfterAdmission k i a = Inr a'" using assms(1) by simp
    from admission_clears [OF this] show ?thesis using AggAdmit by blast
  qed
  then show "being_placed key e a' \<Longrightarrow> being_placed key e a \<or> places key e r"
    "being_placed key e a \<Longrightarrow> r \<noteq> AggAdmit key e \<Longrightarrow> being_placed key e a'" by blast+
qed

lemma serve_all_placed:
  assumes "aggregator_serve_all rs a = Inr a'" and "aggregator_reach n capacity k a" and "0 < n" and "0 < k" and "unat capacity < 2 ^ 62"
  shows "being_placed key e a' \<Longrightarrow> being_placed key e a \<or> (\<exists>r \<in> set rs. places key e r)"
    and "being_placed key e a \<Longrightarrow> AggAdmit key e \<notin> set rs \<Longrightarrow> being_placed key e a'"
proof -
  from assms(1,2) have "(being_placed key e a' \<longrightarrow> being_placed key e a \<or> (\<exists>r \<in> set rs. places key e r))
      \<and> (being_placed key e a \<longrightarrow> AggAdmit key e \<notin> set rs \<longrightarrow> being_placed key e a')"
  proof (induction rs arbitrary: a)
    case (Cons r rs)
    from Cons.prems(1) obtain b where b: "aggregator_serve r a = Inr b" "aggregator_serve_all rs b = Inr a'" by (auto simp: bindE_eq_Inr)
    have inv: "agg_inv a" using aggregator_reach_inv [OF Cons.prems(2) assms(3-5)] .
    show ?case using Cons.IH [OF b(2) aggregator_serve_reach [OF b(1) Cons.prems(2)]] serve_placed [OF b(1) inv, of key e] by auto
  qed simp
  then show "being_placed key e a' \<Longrightarrow> being_placed key e a \<or> (\<exists>r \<in> set rs. places key e r)"
    "being_placed key e a \<Longrightarrow> AggAdmit key e \<notin> set rs \<Longrightarrow> being_placed key e a'" by blast+
qed

lemma foldl_better_in: "foldl keep_better best cs = Some b \<Longrightarrow> b \<in> set cs \<or> best = Some b"
  by (induction cs arbitrary: best) (auto simp: better_candidate_def split: option.splits if_splits)

lemma greedy_chosen:
  assumes "greedy_loop srv p g t (topi_counts (AggregatedUncachedPopularity_getTopkListLength p)) None = Inr (Some b)"
    and "length (topk p) < 2 ^ 32"
  shows "set (placement_edgeset b) \<subseteq> fst ` set (topk p)"
proof -
  let ?is = "topi_counts (AggregatedUncachedPopularity_getTopkListLength p)"
  have k: "?is = map word_of_nat [1..<Suc (length (topk p))]"
    using assms(2) by (simp add: topi_counts_def AggregatedUncachedPopularity_getTopkListLength_def unat_of_nat_small del: upt_Suc)
  from greedy_loop_candidates [OF assms(1)] obtain cs where cs: "length cs = length ?is"
    "\<forall>j < length ?is. calc_candidate srv p g t (?is ! j) = Inr (cs ! j)" "Some b = foldl keep_better None cs" by blast
  then obtain j where j: "j < length ?is" "b = cs ! j" using foldl_better_in [of None cs b] by (auto simp: in_set_conv_nth)
  then have "j < length (topk p)" "calc_candidate srv p g t (word_of_nat (Suc j)) = Inr b" using cs(2) unfolding k by (simp_all del: upt_Suc)
  then have "set (placement_edgeset b) = fst ` set (drop (length (topk p) - Suc j) (topk p))"
    using candidate_edges assms(2) by simp
  then show ?thesis by (auto dest: in_set_dropD)
qed

lemma placed_not_chosen:
  assumes "CoveredCacheManager_placementCalculation env srv seqn key g evs w mgr = Inr (evs', w', r)"
    and "aggregator_reach n capacity k (mgr_aggregator mgr)" and "0 < n" and "0 < k" and "unat capacity < 2 ^ 62"
    and "e \<in> set (best_placement_edgeset r)"
  shows "\<not> being_placed key e (mgr_aggregator mgr)" and "unat e < unat (agg_edgecnt (mgr_aggregator mgr))"
proof -
  let ?a = "mgr_aggregator mgr"
  have inv: "agg_inv ?a" using aggregator_reach_inv [OF assms(2-5)] .
  obtain p b where p: "PopularityAggregator_getAggregatedUncachedPopularity key ?a = Inr (Some p)"
    and b: "greedy_loop srv p g (mgr_tracker mgr) (topi_counts (AggregatedUncachedPopularity_getTopkListLength p)) None = Inr (Some b)"
      "best_placement_edgeset r = placement_edgeset b"
    by (rule placement_best [OF assms(1)]) (use assms(6) in auto)
  note pop = reach_popularity [OF assms(2-5) p]
  have "e \<in> fst ` set (topk p)" using greedy_chosen [OF b(1) pop(3)] b(2) assms(6) by auto
  then have bit: "unat e < length (agg_bitmap p)" "agg_bitmap p ! unat e" using pop(2) by (auto simp: popularity_ok_def agg_ok_def)
  then show "unat e < unat (agg_edgecnt ?a)" using pop(2) by (simp add: popularity_ok_def)
  then show "\<not> being_placed key e ?a"
    using inv pop(1) bit by (auto simp: agg_inv_def apart_def disjoint_bits_def being_placed_def PreservedEdgeset_isPreserved_def assertE_eq_Inr split: option.splits)
qed

lemma placement_result_cases:
  assumes "CoveredCacheManager_placementCalculation env srv seqn key g evs w mgr = Inr (evs', w', r)"
  shows "if has_best_placement r then \<not> is_finish r else best_placement_edgeset r = []"
proof (cases "has_best_placement r \<or> best_placement_edgeset r \<noteq> []")
  case True
  then have no: "r \<noteq> no_placement" "r \<noteq> no_placement\<lparr>is_finish := True\<rparr>" by (auto simp: no_placement_def)
  from assms True obtain p b where p: "PopularityAggregator_getAggregatedUncachedPopularity key (mgr_aggregator mgr) = Inr (Some p)"
    and b: "greedy_loop srv p g (mgr_tracker mgr) (topi_counts (AggregatedUncachedPopularity_getTopkListLength p)) None = Inr (Some b)"
    and pos: "fval_less (Fin 0) (gain_val b)" and e: "best_placement_edgeset r = placement_edgeset b"
    by (rule placement_best)
  show ?thesis using assms no pos
    by (auto simp: CoveredCacheManager_placementCalculation_def p b Let_def assertE_eq_Inr bindE_eq_Inr no_placement_def
        dest!: recalc_cases split: if_splits)
qed simp

lemma serve_others_eq: "serve_others rs mgr = Inr mgr' \<longleftrightarrow>
    (\<exists>a. aggregator_serve_all rs (mgr_aggregator mgr) = Inr a \<and> mgr' = mgr\<lparr>mgr_aggregator := a\<rparr>)"
  by (auto simp: serve_others_def bindE_eq_Inr)

text \<open>The aggregator after the other threads and before the report, after the report, when the calculation copies the popularity,
  and when the chosen nodes are preserved.\<close>

lemma handler_cases:
  assumes "CoveredCacheManager_updatePopularityAggregatorForAggregatedPopularity env srv others seqn key source collected
      is_global_cached is_source_cached need evs w mgr = Inr (evs', w', mgr', out)"
  obtains g a0 a1 hint a2 where
    "aggregator_serve_all (others 0) (mgr_aggregator mgr) = Inr a0"
    "PopularityAggregator_updateAggregatedUncachedPopularity (uncached_reward srv) key source collected g is_source_cached
       FastPathHint_default a0 = Inr (a1, hint)"
    "aggregator_serve_all (others 1) a1 = Inr a2"
    "outcome_edgeset out = [] \<and> mgr_aggregator mgr' = a2
     \<or> (\<exists>m evs'' w'' r a3. mgr_aggregator m = a2 \<and> CoveredCacheManager_placementCalculation env srv seqn key g evs w m = Inr (evs'', w'', r)
         \<and> outcome_edgeset out = best_placement_edgeset r \<and> aggregator_serve_all (others 2) a2 = Inr a3
         \<and> PopularityAggregator_updatePreservedEdgesetForPlacement (uncached_reward srv) key (best_placement_edgeset r) g a3
           = Inr (mgr_aggregator mgr'))"
proof -
  define g where "g = (is_global_cached \<or> PopularityAggregator_isKeyBeingAdmitted key (mgr_aggregator mgr))"
  note d = CoveredCacheManager_updatePopularityAggregatorForAggregatedPopularity_def Let_def g_def [symmetric] bindE_eq_Inr serve_others_eq
  from assms obtain a0 a1 hint a2 where a: "aggregator_serve_all (others 0) (mgr_aggregator mgr) = Inr a0"
    "PopularityAggregator_updateAggregatedUncachedPopularity (uncached_reward srv) key source collected g
      is_source_cached FastPathHint_default a0 = Inr (a1, hint)"
    "aggregator_serve_all (others 1) a1 = Inr a2" by (auto simp del: One_nat_def simp: d)
  note d' = CoveredCacheManager_updatePopularityAggregatorForAggregatedPopularity_def Let_def g_def [symmetric] serve_others_def a
  let ?m = "mgr\<lparr>mgr_aggregator := a2\<rparr>"
  show ?thesis
  proof (cases "need \<and> is_tracked collected \<and> \<not> is_source_cached")
    case False
    then show ?thesis using assms that [OF a] by (auto simp del: One_nat_def simp: d')
  next
    case True
    then have src: "is_source_cached = False" by simp
    note d'' = d' a [unfolded src]
    from assms True obtain evs'' w'' r where r: "CoveredCacheManager_placementCalculation env srv seqn key g evs w ?m = Inr (evs'', w'', r)"
      by (auto simp del: One_nat_def simp: d'' bindE_eq_Inr)
    show ?thesis
    proof (cases "has_best_placement r")
      case best: True
      then have nf: "\<not> is_finish r" using placement_result_cases [OF r] by simp
      from assms True r best nf obtain a3 where a3: "aggregator_serve_all (others 2) a2 = Inr a3"
        by (auto simp del: One_nat_def simp: d'' bindE_eq_Inr assertE_eq_Inr)
      have "outcome_edgeset out = best_placement_edgeset r \<and> PopularityAggregator_updatePreservedEdgesetForPlacement (uncached_reward srv) key
          (best_placement_edgeset r) g a3 = Inr (mgr_aggregator mgr')"
        using assms True r best nf a3 by (auto simp del: One_nat_def simp: d'' bindE_eq_Inr assertE_eq_Inr deploy_placement_def)
      then show ?thesis using that [OF a] r a3 by (metis covered_manager.select_convs(2) covered_manager.surjective covered_manager.update_convs(2))
    next
      case False
      then have "best_placement_edgeset r = []" using placement_result_cases [OF r] by simp
      then show ?thesis using assms True r False that [OF a] by (auto simp del: One_nat_def simp: d'' assertE_eq_Inr split: if_splits)
    qed
  qed
qed

text \<open>C34: When a node is chosen twice. A report may trigger a placement while other threads report, place and admit. The nodes now
  chosen are remembered as such. A node whose choice for the key was pending when the report came is chosen again only if
  it has admitted the object in between; and a node whose choice is pending when the chosen nodes are preserved was placed
  for the same key by another thread since the calculation, so that without such a thread no choice is repeated. No earlier
  choice is forgotten before its admission, and the popularity aggregator is again in a reachable state.\<close>

theorem placement_not_repeated:
  assumes "aggregator_reach n capacity k (mgr_aggregator mgr)" and "0 < n" and "0 < k" and "unat capacity < 2 ^ 62"
    and "CoveredCacheManager_updatePopularityAggregatorForAggregatedPopularity env srv others seqn key source collected
      is_global_cached is_source_cached need evs w mgr = Inr (evs', w', mgr', out)"
  shows "aggregator_reach n capacity k (mgr_aggregator mgr')
    \<and> (\<forall>e \<in> set (outcome_edgeset out). being_placed key e (mgr_aggregator mgr')
        \<and> (being_placed key e (mgr_aggregator mgr) \<longrightarrow> AggAdmit key e \<in> set (others 0 @ others 1)))
    \<and> (outcome_edgeset out \<noteq> [] \<longrightarrow> (\<exists>g a0 a1 hint a2 a3. aggregator_serve_all (others 0) (mgr_aggregator mgr) = Inr a0
        \<and> PopularityAggregator_updateAggregatedUncachedPopularity (uncached_reward srv) key source collected g is_source_cached
            FastPathHint_default a0 = Inr (a1, hint)
        \<and> aggregator_serve_all (others 1) a1 = Inr a2 \<and> aggregator_serve_all (others 2) a2 = Inr a3
        \<and> PopularityAggregator_updatePreservedEdgesetForPlacement (uncached_reward srv) key (outcome_edgeset out) g a3 = Inr (mgr_aggregator mgr')
        \<and> (\<forall>e \<in> set (outcome_edgeset out). \<not> being_placed key e a2
            \<and> (being_placed key e a3 \<longrightarrow> (\<exists>r \<in> set (others 2). places key e r)))))
    \<and> (\<forall>key' e. being_placed key' e (mgr_aggregator mgr) \<longrightarrow>
        being_placed key' e (mgr_aggregator mgr') \<or> AggAdmit key' e \<in> set (others 0 @ others 1 @ others 2))"
proof -
  from assms(5) obtain g a0 a1 hint a2 where
    a: "aggregator_serve_all (others 0) (mgr_aggregator mgr) = Inr a0"
      "PopularityAggregator_updateAggregatedUncachedPopularity (uncached_reward srv) key source collected g is_source_cached
       FastPathHint_default a0 = Inr (a1, hint)" "aggregator_serve_all (others 1) a1 = Inr a2"
    and alt: "outcome_edgeset out = [] \<and> mgr_aggregator mgr' = a2
     \<or> (\<exists>m evs'' w'' r a3. mgr_aggregator m = a2 \<and> CoveredCacheManager_placementCalculation env srv seqn key g evs w m = Inr (evs'', w'', r)
         \<and> outcome_edgeset out = best_placement_edgeset r \<and> aggregator_serve_all (others 2) a2 = Inr a3
         \<and> PopularityAggregator_updatePreservedEdgesetForPlacement (uncached_reward srv) key (best_placement_edgeset r) g a3
           = Inr (mgr_aggregator mgr'))"
    by (rule handler_cases)
  have r0: "aggregator_reach n capacity k a0" using aggregator_serve_all_reach [OF a(1) assms(1)] .
  have r1: "aggregator_reach n capacity k a1" using aggregator_reach.report [OF r0 a(2)] .
  have r2: "aggregator_reach n capacity k a2" using aggregator_serve_all_reach [OF a(3) r1] .
  note s0 = serve_all_placed(2) [OF a(1) assms(1-4)] and s1 = serve_all_placed(2) [OF a(3) r1 assms(2-4)]
  have "being_placed k' e a1 \<longleftrightarrow> being_placed k' e a0" for k' e
    using report_keeps_preserved [OF a(2) aggregator_reach_inv [OF r0 assms(2-4)]] by (simp add: being_placed_def)
  then have keep: "being_placed k' e (mgr_aggregator mgr) \<Longrightarrow> being_placed k' e a2 \<or> AggAdmit k' e \<in> set (others 0 @ others 1)" for k' e
    using s0 [of k' e] s1 [of k' e] by auto
  from alt show ?thesis
  proof (elim disjE exE conjE)
    assume "outcome_edgeset out = []" "mgr_aggregator mgr' = a2"
    then show ?thesis using r2 keep by auto
  next
    fix m evs'' w'' r a3
    assume m: "mgr_aggregator m = a2" and r: "CoveredCacheManager_placementCalculation env srv seqn key g evs w m = Inr (evs'', w'', r)"
      and o: "outcome_edgeset out = best_placement_edgeset r" and a3: "aggregator_serve_all (others 2) a2 = Inr a3"
      and u: "PopularityAggregator_updatePreservedEdgesetForPlacement (uncached_reward srv) key (best_placement_edgeset r) g a3
           = Inr (mgr_aggregator mgr')"
    have r3: "aggregator_reach n capacity k a3" using aggregator_serve_all_reach [OF a3 r2] .
    note s2 = serve_all_placed [OF a3 r2 assms(2-4)]
    note p = placement_preserves [OF u aggregator_reach_inv [OF r3 assms(2-4)]]
    have c: "\<not> being_placed key e a2" if "e \<in> set (best_placement_edgeset r)" for e
      using placed_not_chosen [OF r _ assms(2-4) that] r2 m by simp
    have "aggregator_reach n capacity k (mgr_aggregator mgr')" using aggregator_reach.placement [OF r3 u] .
    moreover have "\<forall>e \<in> set (outcome_edgeset out). being_placed key e (mgr_aggregator mgr')
        \<and> (being_placed key e (mgr_aggregator mgr) \<longrightarrow> AggAdmit key e \<in> set (others 0 @ others 1))"
      using p c keep unfolding o by blast
    moreover have "\<exists>g a0 a1 hint a2 a3. aggregator_serve_all (others 0) (mgr_aggregator mgr) = Inr a0
        \<and> PopularityAggregator_updateAggregatedUncachedPopularity (uncached_reward srv) key source collected g is_source_cached
            FastPathHint_default a0 = Inr (a1, hint)
        \<and> aggregator_serve_all (others 1) a1 = Inr a2 \<and> aggregator_serve_all (others 2) a2 = Inr a3
        \<and> PopularityAggregator_updatePreservedEdgesetForPlacement (uncached_reward srv) key (outcome_edgeset out) g a3 = Inr (mgr_aggregator mgr')
        \<and> (\<forall>e \<in> set (outcome_edgeset out). \<not> being_placed key e a2
            \<and> (being_placed key e a3 \<longrightarrow> (\<exists>r \<in> set (others 2). places key e r)))"
      using a a3 u c s2(1) unfolding o by blast
    moreover have "being_placed key' e (mgr_aggregator mgr') \<or> AggAdmit key' e \<in> set (others 0 @ others 1 @ others 2)"
      if "being_placed key' e (mgr_aggregator mgr)" for key' e
      using keep [OF that] s2(2) [of key' e] p [of key' e] by auto
    ultimately show ?thesis by blast
  qed
qed

section \<open>An example\<close>

definition example_services :: edge_services where
  "example_services = \<lparr>node_idx = 0, edge_weights = (example_tuner 0)\<lparr>tuner_weight_info := WeightInfo_new 0x3F800000 0\<rparr>,
     local_victims = (\<lambda>n. Inr (False, [])), start_data_fetch = (\<lambda>k es. Inr False)\<rparr>"

definition example_report :: collected_popularity where
  "example_report = \<lparr>is_tracked = True, collected_local_uncached_popularity = 0x3F800000, collected_object_size = 100\<rparr>"

definition placement_tracker :: victim_tracker where
  "placement_tracker = \<lparr>tracker_edge_idx = 0, peredge_synced_victimcnt = 3, peredge_monitored_victimsetcnt = 3, tracker_size_bytes = 0,
     peredge_victim_metadata = replicate 4 EdgelevelVictimMetadata_new, perkey_victim_dirinfo = [], peredge_victimsync_monitor = []\<rparr>"

definition example_manager :: "popularity_aggregator \<Rightarrow> covered_manager" where
  "example_manager a = \<lparr>mgr_topk_edgecnt = 2, mgr_aggregator = a, mgr_tracker = placement_tracker, mgr_cacher = DirectoryCacher_new (Fin 0)\<rparr>"

definition example_popularity :: aggregated_uncached_popularity where
  "example_popularity = \<lparr>agg_key = Key [1], agg_object_size = 100, sum_local_uncached_popularity = 0x3F800000,
     topk_edgeidx_local_uncached_popularity_pairs = [(1, 0x3F800000)], agg_bitmap = [False, True, False, False], exist_edgecnt = 1\<rparr>"

definition example_aggregator :: popularity_aggregator where
  "example_aggregator = \<lparr>agg_edgecnt = 4, popularity_aggregation_capacity_bytes = 1000, agg_topk_edgecnt = 2, agg_size_bytes = 35,
     benefit_popularity_multimap = [(0, 0x3F800000, example_popularity)], perkey_benefit_popularity_table = [(Key [1], 0)],
     perkey_preserved_edgeset = [], next_entry = 1\<rparr>"

definition example_placed :: popularity_aggregator where
  "example_placed = \<lparr>agg_edgecnt = 4, popularity_aggregation_capacity_bytes = 1000, agg_topk_edgecnt = 2, agg_size_bytes = 2,
     benefit_popularity_multimap = [], perkey_benefit_popularity_table = [],
     perkey_preserved_edgeset = [(Key [1], [False, True, False, False])], next_entry = 1\<rparr>"

definition example_candidate :: placement_candidate where
  "example_candidate = \<lparr>placement_gain = 0x3F800000, admission_benefit = 0x3F800000, placement_edgeset = [1],
     placement_victims = \<lparr>pervictim_edgeset = [], pervictim_cacheinfos = [], peredge_synced_victimset = [],
       peredge_fetched_victimset = [], victim_fetch_edgeset = []\<rparr>\<rparr>"

lemma example_steps:
  "PopularityAggregator_updateAggregatedUncachedPopularity (uncached_reward example_services) (Key [1]) 1 example_report False False
     FastPathHint_default (PopularityAggregator_new 4 1000 2) = Inr (example_aggregator, FastPathHint_default)"
  "PopularityAggregator_getAggregatedUncachedPopularity (Key [1]) example_aggregator = Inr (Some example_popularity)"
  "calc_candidate example_services example_popularity False placement_tracker 1 = Inr example_candidate"
  "PopularityAggregator_updatePreservedEdgesetForPlacement (uncached_reward example_services) (Key [1]) [1] False example_aggregator
     = Inr example_placed"
  "fval_less (Fin 0) (f32_val 0x3F800000)"
  "PopularityAggregator_updatePreservedEdgesetForPlacement (uncached_reward example_services) (Key [1]) [1] False example_placed
     = Inr example_placed"
  by code_simp+

definition example_others :: "nat \<Rightarrow> aggregator_request list" where
  "example_others i = (if i = 2 then [AggPlace (uncached_reward example_services) (Key [1]) [1] False] else [])"

lemma example_shape:
  "AggregatedUncachedPopularity_getTopkListLength example_popularity = 1" "PopularityAggregator_getTopkEdgecnt example_aggregator = 2"
  "topi_counts 1 = [1]"
  by (simp_all add: AggregatedUncachedPopularity_getTopkListLength_def PopularityAggregator_getTopkEdgecnt_def example_popularity_def
      example_aggregator_def topi_counts_def)

lemma example_placement:
  "CoveredCacheManager_placementCalculation env example_services seqn (Key [1]) False evs w (example_manager example_aggregator)
     = Inr (evs, w, no_placement\<lparr>has_best_placement := True, best_placement_edgeset := [1]\<rparr>)"
  using example_steps(5)
  by (simp add: CoveredCacheManager_placementCalculation_def example_manager_def example_steps(2,3) example_shape
      example_candidate_def Edgeset_size_def no_placement_def better_candidate_def)

lemma example_reach: "aggregator_reach 4 1000 2 example_aggregator"
  using aggregator_reach.report [OF aggregator_reach.start example_steps(1)] .

theorem placement_maximizes_gain_witness:
  "\<forall>env :: (nat, unit) lock_env_scheme. \<forall>w :: (nat, unit) cooperation_wrapper. \<exists>r p i c. aggregator_reach 4 1000 2 example_aggregator
     \<and> CoveredCacheManager_placementCalculation env example_services 5 (Key [1]) False [] w (example_manager example_aggregator) = Inr ([], w, r)
     \<and> has_best_placement r \<and> best_placement_edgeset r = [1]
     \<and> calc_candidate example_services p False placement_tracker (word_of_nat i) = Inr c \<and> best_placement_edgeset r = placement_edgeset c
     \<and> fval_less (Fin 0) (f32_val (placement_gain c))"
proof (intro allI)
  fix env :: "(nat, unit) lock_env_scheme" and w :: "(nat, unit) cooperation_wrapper"
  let ?m = "example_manager example_aggregator" and ?p = example_popularity
  let ?r = "no_placement\<lparr>has_best_placement := True, best_placement_edgeset := [1]\<rparr>"
  have a: "mgr_aggregator ?m = example_aggregator" "mgr_tracker ?m = placement_tracker" by (simp_all add: example_manager_def)
  have h1: "aggregator_reach 4 1000 2 (mgr_aggregator ?m)" using example_reach by (simp add: a)
  have h2: "PopularityAggregator_getAggregatedUncachedPopularity (Key [1]) (mgr_aggregator ?m) = Inr (Some ?p)" using example_steps(2) by (simp add: a)
  have h3: "\<forall>i c. 1 \<le> i \<longrightarrow> i \<le> length (topk ?p) \<longrightarrow> calc_candidate example_services ?p False (mgr_tracker ?m) (word_of_nat i) = Inr c
          \<longrightarrow> f32_val (placement_gain c) \<noteq> NaN"
    using example_steps(3,5) by (auto simp: a example_popularity_def le_Suc_eq example_candidate_def fval_less_def)
  have h4: "(0 :: u32) < 4" "(0 :: u32) < 2" "unat (1000 :: u64) < 2 ^ 62" "has_best_placement ?r" by simp_all
  from placement_maximizes_gain [OF h1 h4(1-3) example_placement h4(4) h2 h3]
  show "\<exists>r p i c. aggregator_reach 4 1000 2 example_aggregator
     \<and> CoveredCacheManager_placementCalculation env example_services 5 (Key [1]) False [] w (example_manager example_aggregator) = Inr ([], w, r)
     \<and> has_best_placement r \<and> best_placement_edgeset r = [1]
     \<and> calc_candidate example_services p False placement_tracker (word_of_nat i) = Inr c \<and> best_placement_edgeset r = placement_edgeset c
     \<and> fval_less (Fin 0) (f32_val (placement_gain c))"
    using h1 example_placement [of env 5 "[]" w] by (auto simp: a)
qed

text \<open>Two threads decide for the same key at the same time: node 1 is chosen although its choice is pending by now.\<close>

theorem placement_not_repeated_witness:
  "\<forall>env :: (nat, unit) lock_env_scheme. \<forall>w :: (nat, unit) cooperation_wrapper. \<exists>mgr' out g a2 a3.
     CoveredCacheManager_updatePopularityAggregatorForAggregatedPopularity env example_services example_others 5 (Key [1]) 1 example_report
       False False True [] w (example_manager (PopularityAggregator_new 4 1000 2)) = Inr ([], w, mgr', out)
     \<and> outcome_edgeset out = [1] \<and> being_placed (Key [1]) 1 (mgr_aggregator mgr')
     \<and> aggregator_serve_all (example_others 2) a2 = Inr a3
     \<and> PopularityAggregator_updatePreservedEdgesetForPlacement (uncached_reward example_services) (Key [1]) [1] g a3 = Inr (mgr_aggregator mgr')
     \<and> \<not> being_placed (Key [1]) 1 a2"
proof (intro allI)
  fix env :: "(nat, unit) lock_env_scheme" and w :: "(nat, unit) cooperation_wrapper"
  let ?m = "example_manager (PopularityAggregator_new 4 1000 2)"
  have m: "mgr_aggregator ?m = PopularityAggregator_new 4 1000 2" "?m\<lparr>mgr_aggregator := example_aggregator\<rparr> = example_manager example_aggregator"
    by (simp_all add: example_manager_def)
  have n: "\<not> PopularityAggregator_isKeyBeingAdmitted (Key [1]) (PopularityAggregator_new 4 1000 2)"
    by (simp add: PopularityAggregator_isKeyBeingAdmitted_def PopularityAggregator_new_def)
  have o: "example_others 0 = []" "example_others 1 = []"
    "aggregator_serve_all (example_others 2) example_aggregator = Inr example_placed"
    using example_steps(4) by (simp_all add: example_others_def)
  obtain mgr' out where h: "CoveredCacheManager_updatePopularityAggregatorForAggregatedPopularity env example_services example_others 5 (Key [1]) 1
      example_report False False True [] w ?m = Inr ([], w, mgr', out)" and e: "outcome_edgeset out = [1]"
    using example_steps(1,6) example_placement [of env 5 "[]" w] n o
    by (simp add: CoveredCacheManager_updatePopularityAggregatorForAggregatedPopularity_def serve_others_def m example_report_def deploy_placement_def
        no_placement_def Edgeset_size_def example_services_def example_manager_def)
  have r: "aggregator_reach 4 1000 2 (mgr_aggregator ?m)" unfolding m by (rule aggregator_reach.start)
  have c: "0 < (4 :: u32)" "0 < (2 :: u32)" "unat (1000 :: u64) < 2 ^ 62" by simp_all
  show "\<exists>mgr' out g a2 a3.
     CoveredCacheManager_updatePopularityAggregatorForAggregatedPopularity env example_services example_others 5 (Key [1]) 1 example_report
       False False True [] w (example_manager (PopularityAggregator_new 4 1000 2)) = Inr ([], w, mgr', out)
     \<and> outcome_edgeset out = [1] \<and> being_placed (Key [1]) 1 (mgr_aggregator mgr')
     \<and> aggregator_serve_all (example_others 2) a2 = Inr a3
     \<and> PopularityAggregator_updatePreservedEdgesetForPlacement (uncached_reward example_services) (Key [1]) [1] g a3 = Inr (mgr_aggregator mgr')
     \<and> \<not> being_placed (Key [1]) 1 a2"
  proof -
    from placement_not_repeated [OF r c h] e obtain g a2 a3 where
      "being_placed (Key [1]) 1 (mgr_aggregator mgr')" "aggregator_serve_all (example_others 2) a2 = Inr a3"
      "PopularityAggregator_updatePreservedEdgesetForPlacement (uncached_reward example_services) (Key [1]) [1] g a3 = Inr (mgr_aggregator mgr')"
      "\<not> being_placed (Key [1]) 1 a2" by auto
    then show ?thesis using h e by blast
  qed
qed

end
