(* ===== verification/Victim_Fetch.thy ===== *)
theory Victim_Fetch
  imports Covered_Manager
begin

text \<open>
  What \<open>CoveredCacheManager::parallelFetchVictims_\<close> achieves: a fetch that ends while the node runs has collected the
  victims of every node it asked, once each and from an answer to this very fetch, whatever time-outs, stale and foreign
  responses came in between; and a node that answers two copies of a request breaks an assertion while another node is
  still awaited.
\<close>

section \<open>The state of a fetch\<close>

definition from_answer :: "('m, 'z) lock_env_scheme \<Rightarrow> u64 \<Rightarrow> fetch_event list \<Rightarrow> u32 \<Rightarrow> victim_cacheinfo list \<Rightarrow> bool" where
  "from_answer env seqn evs e vs \<longleftrightarrow>
     (\<exists>s. RecvResponse seqn True e s \<in> set evs \<and> VictimSyncset_isComplete s = Inr True
        \<and> VictimSyncset_getLocalSyncedVictimsPtr (is_assert env) s = Inr (True, vs))"

definition victims_from ::
    "('m, 'z) lock_env_scheme \<Rightarrow> edge_services \<Rightarrow> u32 \<Rightarrow> u64 \<Rightarrow> fetch_event list \<Rightarrow> u32 \<Rightarrow> victim_cacheinfo list \<Rightarrow> bool" where
  "victims_from env srv obj_size seqn evs e vs \<longleftrightarrow>
     (e = node_idx srv \<and> local_victims srv obj_size = Inr (True, vs)) \<or> from_answer env seqn evs e vs"

text \<open>The acknowledged nodes are those whose victims have been collected.\<close>

definition fetch_inv :: "edgeset \<Rightarrow> (u32 \<Rightarrow> victim_cacheinfo list \<Rightarrow> bool) \<Rightarrow> fetch_state \<Rightarrow> bool" where
  "fetch_inv es src st \<longleftrightarrow>
     um_wf (acked_flags st) \<and> fst ` set (acked_flags st) = set es
     \<and> distinct (map fst (extra_peredge_victim_cacheinfos st))
     \<and> (\<forall>e. map_of (acked_flags st) e = Some True \<longleftrightarrow> e \<in> fst ` set (extra_peredge_victim_cacheinfos st))
     \<and> acked_edgecnt st = word_of_nat (length (extra_peredge_victim_cacheinfos st))
     \<and> (\<forall>(e, vs) \<in> set (extra_peredge_victim_cacheinfos st). src e vs)
     \<and> set (requests_sent st) \<subseteq> set es"

text \<open>Every other node of the set has been asked, or nothing has happened yet.\<close>

definition fetch_asked :: "edgeset \<Rightarrow> edge_services \<Rightarrow> fetch_state \<Rightarrow> bool" where
  "fetch_asked es srv st \<longleftrightarrow> set es - {node_idx srv} \<subseteq> set (requests_sent st)"

definition fetch_fresh :: "fetch_state \<Rightarrow> bool" where
  "fetch_fresh st \<longleftrightarrow> (\<forall>(e, b) \<in> set (acked_flags st). \<not> b) \<and> extra_peredge_victim_cacheinfos st = []"

lemma fetch_inv_sets [simp]:
  "fetch_inv es src (st\<lparr>extra_perkey_victim_dirinfoset := sets\<rparr>) = fetch_inv es src st"
  "fetch_asked es srv (st\<lparr>extra_perkey_victim_dirinfoset := sets\<rparr>) = fetch_asked es srv st"
  by (simp_all add: fetch_inv_def fetch_asked_def)

lemma fetch_inv_request: "fetch_inv es src st \<Longrightarrow> e \<in> set es \<Longrightarrow> fetch_inv es src (st\<lparr>requests_sent := requests_sent st @ [e]\<rparr>)"
  by (simp add: fetch_inv_def)

text \<open>Collecting the victims of a node that is still awaited.\<close>

lemma fetch_inv_collect:
  assumes "fetch_inv es src st" "map_of (acked_flags st) e = Some False" "src e vs"
  shows "fetch_inv es src (mark_acked e (st\<lparr>extra_peredge_victim_cacheinfos := extra_peredge_victim_cacheinfos st @ [(e, vs)],
           extra_perkey_victim_dirinfoset := sets\<rparr>))"
proof -
  have "map_of (acked_flags st) e \<noteq> Some True" using assms(2) by simp
  then have "e \<notin> fst ` set (extra_peredge_victim_cacheinfos st)" using assms(1) unfolding fetch_inv_def by blast
  moreover have "e \<in> set es" using assms(1) map_of_SomeD [OF assms(2)] by (force simp: fetch_inv_def simp del: map_of_eq_Some_iff)
  ultimately show ?thesis using assms(1,3) by (auto simp: fetch_inv_def mark_acked_def insert_absorb)
qed

lemma local_fetch_inv:
  assumes "local_victim_fetch env srv obj_size e st w = Inr (st', w')" "fetch_inv es src st"
    and "\<And>vs. local_victims srv obj_size = Inr (True, vs) \<Longrightarrow> src e vs"
  shows "fetch_inv es src st' \<and> requests_sent st' = requests_sent st"
proof -
  from assms(1) obtain vs sets where "local_victims srv obj_size = Inr (True, vs)" "map_of (acked_flags st) e = Some False"
    "st' = mark_acked e (st\<lparr>extra_peredge_victim_cacheinfos := extra_peredge_victim_cacheinfos st @ [(e, vs)],
       extra_perkey_victim_dirinfoset := sets\<rparr>)"
    by (auto simp: local_victim_fetch_def bindE_eq_Inr assertE_eq_Inr) (auto simp: assertE_eq_Inr split: coop_custom_param.split_asm)
  then show ?thesis using fetch_inv_collect [OF assms(2)] assms(3) by (simp add: mark_acked_def)
qed

lemma process_response_cases:
  assumes "CoveredCacheManager_processVictimFetchResponse env e s st w = Inr (st', w')"
  obtains vs sets where "VictimSyncset_isComplete s = Inr True" "VictimSyncset_getLocalSyncedVictimsPtr (is_assert env) s = Inr (True, vs)"
    "st' = st\<lparr>extra_peredge_victim_cacheinfos := extra_peredge_victim_cacheinfos st @ [(e, vs)], extra_perkey_victim_dirinfoset := sets\<rparr>"
  using assms that
  by (auto simp: CoveredCacheManager_processVictimFetchResponse_def bindE_eq_Inr assertE_eq_Inr)
    (auto simp: bindE_eq_Inr split: coop_custom_param.split_asm)

section \<open>Rounds of a fetch\<close>

lemma send_inv:
  assumes "send_fetch_requests env srv obj_size fs st w = Inr (st', w')" "fetch_inv es src st" "fst ` set fs \<subseteq> set es"
    and "\<And>vs. local_victims srv obj_size = Inr (True, vs) \<Longrightarrow> src (node_idx srv) vs"
  shows "fetch_inv es src st' \<and> set (requests_sent st) \<subseteq> set (requests_sent st')
     \<and> (\<forall>(e, b) \<in> set fs. \<not> b \<longrightarrow> e \<noteq> node_idx srv \<longrightarrow> e \<in> set (requests_sent st'))"
  using assms
proof (induction env srv obj_size fs st w rule: send_fetch_requests.induct)
  case (2 env srv obj_size e acked fs st w)
  consider "acked" | "\<not> acked" "e = node_idx srv" | "\<not> acked" "e \<noteq> node_idx srv" by blast
  then show ?case
  proof cases
    case 1
    with 2 show ?thesis by simp
  next
    case 2
    note this_case = this
    from this_case "2.prems"(1) obtain st1 w1 where s: "local_victim_fetch env srv obj_size e st w = Inr (st1, w1)"
      "send_fetch_requests env srv obj_size fs st1 w1 = Inr (st', w')" by (auto simp: bindE_eq_Inr)
    have "fetch_inv es src st1 \<and> requests_sent st1 = requests_sent st"
      using local_fetch_inv [OF s(1) "2.prems"(2)] "2.prems"(4) this_case(2) by blast
    with "2.IH"(2) [OF this_case s(1) _ s(2)] "2.prems"(3,4) this_case show ?thesis by auto
  next
    case 3
    with 2 fetch_inv_request [OF "2.prems"(2), of e] show ?thesis by (auto simp: fetch_asked_def)
  qed
qed simp

lemma recv_inv:
  assumes "recv_fetch_responses env seqn n evs st w stale = Inr (evs', st', w', fin, stale')" "fetch_inv es src st"
    and "\<And>e s vs. RecvResponse seqn True e s \<in> set evs \<Longrightarrow> VictimSyncset_isComplete s = Inr True
          \<Longrightarrow> VictimSyncset_getLocalSyncedVictimsPtr (is_assert env) s = Inr (True, vs) \<Longrightarrow> src e vs"
  shows "fetch_inv es src st' \<and> requests_sent st' = requests_sent st \<and> set evs' \<subseteq> set evs"
  using assms
proof (induction env seqn n evs st w stale rule: recv_fetch_responses.induct)
  case (4 env seqn n q is_fetch e fetchset evs st w stale)
  show ?case
  proof (cases "q = seqn \<and> map_of (acked_flags st) e \<noteq> None")
    case True
    with "4.prems"(1) obtain st1 w1 where f: is_fetch "map_of (acked_flags st) e = Some False"
      and p: "CoveredCacheManager_processVictimFetchResponse env e fetchset st w = Inr (st1, w1)"
      and r: "recv_fetch_responses env seqn n evs (mark_acked e st1) w1 stale = Inr (evs', st', w', fin, stale')"
      by (auto simp: assertE_eq_Inr bindE_eq_Inr)
    from p obtain vs sets where c: "VictimSyncset_isComplete fetchset = Inr True"
        "VictimSyncset_getLocalSyncedVictimsPtr (is_assert env) fetchset = Inr (True, vs)"
        "st1 = st\<lparr>extra_peredge_victim_cacheinfos := extra_peredge_victim_cacheinfos st @ [(e, vs)], extra_perkey_victim_dirinfoset := sets\<rparr>"
      by (rule process_response_cases)
    have "src e vs" using "4.prems"(3) [of e fetchset vs] True f(1) c(1,2) by simp
    then have i: "fetch_inv es src (mark_acked e st1)" using fetch_inv_collect [OF "4.prems"(2) f(2)] c(3) by simp
    have "requests_sent (mark_acked e st1) = requests_sent st" by (simp add: c(3) mark_acked_def)
    with "4.IH"(2) [OF _ f(2) p _ r] i "4.prems"(3) True f show ?thesis by auto
  next
    case False
    with 4 show ?thesis by (auto simp: assertE_eq_Inr split: if_splits option.splits)
  qed
qed (auto split: if_splits)

lemma first_send_asks:
  assumes "fetch_asked es srv st \<or> fetch_fresh st" "fst ` set (acked_flags st) = set es" "set (requests_sent st) \<subseteq> set (requests_sent st')"
    and "\<forall>(e, b) \<in> set (acked_flags st). \<not> b \<longrightarrow> e \<noteq> node_idx srv \<longrightarrow> e \<in> set (requests_sent st')"
  shows "fetch_asked es srv st'"
  using assms(1)
proof
  assume "fetch_asked es srv st"
  with assms(3) show ?thesis unfolding fetch_asked_def by blast
next
  assume fr: "fetch_fresh st"
  have "e \<in> set (requests_sent st')" if "e \<in> set es" "e \<noteq> node_idx srv" for e
  proof -
    from that(1) assms(2) obtain b where "(e, b) \<in> set (acked_flags st)" by force
    with fr assms(4) that(2) show ?thesis unfolding fetch_fresh_def by fast
  qed
  then show ?thesis unfolding fetch_asked_def by blast
qed

lemma rounds_inv:
  assumes "fetch_rounds env srv seqn obj_size cnt evs st w stale = Inr (evs', st', w', fin)" "fetch_inv es src st"
    and "fetch_asked es srv st \<or> \<not> stale \<and> fetch_fresh st"
    and "\<And>vs. local_victims srv obj_size = Inr (True, vs) \<Longrightarrow> src (node_idx srv) vs"
    and "\<And>e s vs. RecvResponse seqn True e s \<in> set evs \<Longrightarrow> VictimSyncset_isComplete s = Inr True
          \<Longrightarrow> VictimSyncset_getLocalSyncedVictimsPtr (is_assert env) s = Inr (True, vs) \<Longrightarrow> src e vs"
  shows "fetch_inv es src st' \<and> (\<not> fin \<longrightarrow> acked_edgecnt st' = cnt) \<and> (fetch_asked es srv st' \<or> fetch_fresh st')"
  using assms
proof (induction env srv seqn obj_size cnt evs st w stale rule: fetch_rounds.induct)
  case (1 env srv seqn obj_size cnt evs st w stale)
  show ?case
  proof (cases "acked_edgecnt st = cnt")
    case True
    with "1.prems" show ?thesis by (auto simp: fetch_rounds.simps)
  next
    case False
    with "1.prems"(1) obtain st1 w1 evs2 st2 w2 fin2 stale2 where
      s: "(if stale then Inr (st, w) else send_fetch_requests env srv obj_size (acked_flags st) st w) = Inr (st1, w1)"
      and r: "recv_fetch_responses env seqn (unat (cnt - acked_edgecnt st1)) evs st1 w1 stale = Inr (evs2, st2, w2, fin2, stale2)"
      and f: "if fin2 then evs' = evs2 \<and> st' = st2 \<and> w' = w2 \<and> fin
              else fetch_rounds env srv seqn obj_size cnt evs2 st2 w2 stale2 = Inr (evs', st', w', fin)"
      by (subst (asm) fetch_rounds.simps) (auto simp: bindE_eq_Inr split: if_splits)
    have i1: "fetch_inv es src st1 \<and> fetch_asked es srv st1"
    proof (cases stale)
      case True
      with s "1.prems"(2,3) show ?thesis by simp
    next
      case False
      with s have c: "send_fetch_requests env srv obj_size (acked_flags st) st w = Inr (st1, w1)" by simp
      have k: "fst ` set (acked_flags st) = set es" using "1.prems"(2) by (simp add: fetch_inv_def)
      then have "fetch_inv es src st1 \<and> set (requests_sent st) \<subseteq> set (requests_sent st1)
          \<and> (\<forall>(e, b) \<in> set (acked_flags st). \<not> b \<longrightarrow> e \<noteq> node_idx srv \<longrightarrow> e \<in> set (requests_sent st1))"
        using send_inv [OF c "1.prems"(2) _ "1.prems"(4)] by simp
      with first_send_asks [OF _ k] "1.prems"(3) show ?thesis by blast
    qed
    have "fetch_inv es src st2 \<and> requests_sent st2 = requests_sent st1 \<and> set evs2 \<subseteq> set evs"
      using recv_inv [OF r conjunct1 [OF i1]] "1.prems"(5) by blast
    with i1 have i2: "fetch_inv es src st2 \<and> fetch_asked es srv st2 \<and> set evs2 \<subseteq> set evs" by (simp add: fetch_asked_def)
    show ?thesis
    proof (cases fin2)
      case True
      with f i2 show ?thesis by simp
    next
      case fin: False
      with f have "fetch_rounds env srv seqn obj_size cnt evs2 st2 w2 stale2 = Inr (evs', st', w', fin)" by simp
      from "1.IH" [OF False s _ r _ _ _ _ fin this] i2 "1.prems"(4,5) show ?thesis by blast
    qed
  qed
qed

section \<open>A fetch that ends\<close>

definition fetch_start :: "edgeset \<Rightarrow> fetch_state" where
  "fetch_start es = \<lparr>acked_flags = map (\<lambda>e. (e, False)) es, acked_edgecnt = 0, extra_peredge_victim_cacheinfos = [],
     extra_perkey_victim_dirinfoset = [], requests_sent = []\<rparr>"

lemma fetch_from_start:
  "CoveredCacheManager_parallelFetchVictims env srv seqn obj_size es evs w
     = assertE (0 < Edgeset_size es) (fetch_rounds env srv seqn obj_size (Edgeset_size es) evs (fetch_start es) w False)"
  by (simp add: CoveredCacheManager_parallelFetchVictims_def fetch_start_def)

lemma fetch_start_inv: "distinct es \<Longrightarrow> fetch_inv es src (fetch_start es) \<and> fetch_fresh (fetch_start es)"
  by (auto simp: fetch_inv_def fetch_start_def fetch_fresh_def comp_def image_image dest: map_of_SomeD)

lemma fetch_inv_all:
  assumes "fetch_inv es src st" "acked_edgecnt st = Edgeset_size es" "distinct es" "length es < 2 ^ 32"
  shows "fst ` set (extra_peredge_victim_cacheinfos st) = set es"
proof -
  let ?xs = "map fst (extra_peredge_victim_cacheinfos st)"
  have sub: "set ?xs \<subseteq> set es" using assms(1) by (force simp: fetch_inv_def)
  have d: "distinct ?xs" using assms(1) by (simp add: fetch_inv_def)
  have le: "length ?xs \<le> length es"
    using card_mono [OF _ sub] distinct_card [OF d] distinct_card [OF assms(3)] by simp
  have "(word_of_nat (length ?xs) :: u32) = word_of_nat (length es)"
    using assms(1,2) by (simp add: fetch_inv_def Edgeset_size_def)
  then have "unat (word_of_nat (length ?xs) :: u32) = unat (word_of_nat (length es) :: u32)" by (rule arg_cong)
  then have "length ?xs = length es" using le assms(4) by (simp add: unat_of_nat)
  then have "set ?xs = set es"
    using card_subset_eq [OF _ sub] distinct_card [OF d] distinct_card [OF assms(3)] by simp
  then show ?thesis by simp
qed

text \<open>C35: A fetch of victims collects what it is for. The nodes whose victims are collected are listed once each, and the
  victims of a node are those its own cache gave or those of a complete answer to this very fetch; unless the node stops,
  the fetch has collected the victims of exactly the nodes it was started for, and every other node has been asked.
  Time-outs, stale responses, responses of other nodes and their order make no difference.\<close>

theorem victim_fetch_collects_all:
  assumes "distinct es" and "length es < 2 ^ 32"
    and "CoveredCacheManager_parallelFetchVictims env srv seqn obj_size es evs w = Inr (evs', st, w', fin)"
  shows "distinct (map fst (extra_peredge_victim_cacheinfos st))
    \<and> (\<forall>(e, vs) \<in> set (extra_peredge_victim_cacheinfos st). victims_from env srv obj_size seqn evs e vs)
    \<and> (\<not> fin \<longrightarrow> fst ` set (extra_peredge_victim_cacheinfos st) = set es \<and> set es - {node_idx srv} \<subseteq> set (requests_sent st))"
proof -
  let ?src = "victims_from env srv obj_size seqn evs"
  from assms(3) have ne: "0 < Edgeset_size es"
    and r: "fetch_rounds env srv seqn obj_size (Edgeset_size es) evs (fetch_start es) w False = Inr (evs', st, w', fin)"
    by (simp_all add: fetch_from_start assertE_eq_Inr)
  have i: "fetch_inv es ?src st \<and> (\<not> fin \<longrightarrow> acked_edgecnt st = Edgeset_size es) \<and> (fetch_asked es srv st \<or> fetch_fresh st)"
    using rounds_inv [OF r, of es ?src] fetch_start_inv [OF assms(1), of ?src]
    by (auto simp: victims_from_def from_answer_def)
  have "\<not> fetch_fresh st" if "\<not> fin"
    using i that ne by (auto simp: fetch_inv_def fetch_fresh_def)
  moreover have "fst ` set (extra_peredge_victim_cacheinfos st) = set es" if "\<not> fin"
    using fetch_inv_all [OF conjunct1 [OF i] _ assms(1,2)] i that by blast
  ultimately show ?thesis using i unfolding fetch_asked_def fetch_inv_def by blast
qed

section \<open>An answer given twice\<close>

lemma send_all_remote:
  "node_idx srv \<notin> set es \<Longrightarrow> send_fetch_requests env srv obj_size (map (\<lambda>e. (e, False)) es) st w
     = Inr (st\<lparr>requests_sent := requests_sent st @ es\<rparr>, w)"
  by (induction es arbitrary: st) auto

text \<open>C36: A request that timed out is sent again under the same sequence number, so a slow node answers twice; the second
  answer breaks an assertion as long as another node is still awaited.\<close>

theorem duplicate_victim_answer_aborts:
  assumes "distinct es" and "2 \<le> length es" and "length es < 2 ^ 32" and "e \<in> set es" and "node_idx srv \<notin> set es"
    and "CoveredCacheManager_processVictimFetchResponse env e s ((fetch_start es)\<lparr>requests_sent := es @ es\<rparr>) w = Inr p"
  shows "CoveredCacheManager_parallelFetchVictims env srv seqn obj_size es
           (RecvTimeout True # RecvResponse seqn True e s # RecvResponse seqn True e s' # evs) w = Inl AssertFailed"
proof -
  let ?cnt = "Edgeset_size es"
  obtain st1 w1 where p: "p = (st1, w1)" by force
  have u: "unat ?cnt = length es" using assms(3) by (simp add: Edgeset_size_def unat_of_nat)
  then obtain n where n: "unat ?cnt = Suc (Suc n)" using assms(2) by (metis add_2_eq_Suc le_Suc_ex)
  have pos: "0 < ?cnt" using n by (metis unat_0 word_neq_0_conv nat.distinct(1))
  have flag: "map_of (map (\<lambda>e. (e, False)) es) e = Some False"
    using assms(1,4) by (simp add: map_of_eq_Some_iff comp_def)
  have flags: "acked_flags st1 = acked_flags (fetch_start es)"
    using assms(6) unfolding p by (rule process_response_cases) simp
  show ?thesis
    using assms(5,6) pos n flag flags
    by (simp add: fetch_from_start p fetch_rounds.simps send_all_remote fetch_start_def mark_acked_def)
qed

section \<open>An example\<close>

definition example_fetch_services :: edge_services where
  "example_fetch_services = \<lparr>node_idx = 0, edge_weights = example_tuner 0,
     local_victims = (\<lambda>n. Inr (True, [])), start_data_fetch = (\<lambda>k es. Inr False)\<rparr>"

definition example_fetchset :: victim_syncset where
  "example_fetchset = syncset 0 False False False False 0 0 [] []"

lemma example_fetchset_processed:
  "CoveredCacheManager_processVictimFetchResponse env e example_fetchset st w
     = Inr (st\<lparr>extra_peredge_victim_cacheinfos := extra_peredge_victim_cacheinfos st @ [(e, [])]\<rparr>, w)"
  by (simp add: CoveredCacheManager_processVictimFetchResponse_def example_fetchset_def victims_whole_def sets_whole_def
      CoveredCooperationWrapper_constCustomFunc_def CoveredCooperationWrapper_getLocalBeaconedVictimsFromVictimSyncsetInternal_def)

lemma example_local_fetch:
  "map_of (acked_flags st) e = Some False \<Longrightarrow> local_victim_fetch env example_fetch_services n e st w
     = Inr (mark_acked e (st\<lparr>extra_peredge_victim_cacheinfos := extra_peredge_victim_cacheinfos st @ [(e, [])]\<rparr>), w)"
  by (simp add: local_victim_fetch_def example_fetch_services_def CoveredCooperationWrapper_constCustomFunc_def
      GET_FROM_CACHEINFOS_FUNCNAME_def GET_FROM_VICTIM_SYNCSET_FUNCNAME_def)

text \<open>The node's own victims, a stale response, a response of a node outside the set and a time-out before node 1 answers.\<close>

definition example_events :: "fetch_event list" where
  "example_events = [RecvResponse 4 True 1 example_fetchset, RecvResponse 5 True 7 example_fetchset, RecvTimeout True,
     RecvResponse 5 True 1 example_fetchset]"

definition example_fetched :: fetch_state where
  "example_fetched = \<lparr>acked_flags = [(0, True), (1, True)], acked_edgecnt = 2, extra_peredge_victim_cacheinfos = [(0, []), (1, [])],
     extra_perkey_victim_dirinfoset = [], requests_sent = [1, 1]\<rparr>"

lemma example_fetch:
  "CoveredCacheManager_parallelFetchVictims env example_fetch_services 5 100 [0, 1] example_events w = Inr ([], example_fetched, w, False)"
proof -
  have n: "node_idx example_fetch_services = 0" by (simp add: example_fetch_services_def)
  show ?thesis
    by (simp add: fetch_from_start Edgeset_size_def fetch_start_def example_events_def fetch_rounds.simps n example_local_fetch
        mark_acked_def um_put_def example_fetchset_processed example_fetched_def)
qed

theorem victim_fetch_collects_all_witness:
  "\<forall>env :: (nat, unit) lock_env_scheme. \<forall>w :: (nat, unit) cooperation_wrapper.
     CoveredCacheManager_parallelFetchVictims env example_fetch_services 5 100 [0, 1] example_events w = Inr ([], example_fetched, w, False)
     \<and> fst ` set (extra_peredge_victim_cacheinfos example_fetched) = {0, 1}
     \<and> victims_from env example_fetch_services 100 5 example_events 1 []"
proof (intro allI)
  fix env :: "(nat, unit) lock_env_scheme" and w :: "(nat, unit) cooperation_wrapper"
  have "distinct [0 :: u32, 1]" "length [0 :: u32, 1] < 2 ^ 32" by simp_all
  from victim_fetch_collects_all [OF this example_fetch [of env w]] example_fetch [of env w]
  show "CoveredCacheManager_parallelFetchVictims env example_fetch_services 5 100 [0, 1] example_events w = Inr ([], example_fetched, w, False)
     \<and> fst ` set (extra_peredge_victim_cacheinfos example_fetched) = {0, 1}
     \<and> victims_from env example_fetch_services 100 5 example_events 1 []"
    by (simp add: example_fetched_def)
qed

theorem duplicate_victim_answer_aborts_witness:
  "\<forall>env :: (nat, unit) lock_env_scheme. \<forall>w :: (nat, unit) cooperation_wrapper.
     CoveredCacheManager_parallelFetchVictims env example_fetch_services 5 100 [1, 2]
       [RecvTimeout True, RecvResponse 5 True 1 example_fetchset, RecvResponse 5 True 1 example_fetchset,
        RecvResponse 5 True 2 example_fetchset] w = Inl AssertFailed"
proof (intro allI)
  fix env :: "(nat, unit) lock_env_scheme" and w :: "(nat, unit) cooperation_wrapper"
  have h: "distinct [1 :: u32, 2]" "2 \<le> length [1 :: u32, 2]" "length [1 :: u32, 2] < 2 ^ 32" "(1 :: u32) \<in> set [1, 2]"
    "node_idx example_fetch_services \<notin> set [1, 2]" by (simp_all add: example_fetch_services_def)
  show "CoveredCacheManager_parallelFetchVictims env example_fetch_services 5 100 [1, 2]
       [RecvTimeout True, RecvResponse 5 True 1 example_fetchset, RecvResponse 5 True 1 example_fetchset,
        RecvResponse 5 True 2 example_fetchset] w = Inl AssertFailed"
    by (rule duplicate_victim_answer_aborts [OF h example_fetchset_processed])
qed

end
