(* ===== verification/Message_Types.thy ===== *)
theory Message_Types
  imports Wire_Format
begin

text \<open>
  The types of messages (\<open>message/message_type.h\<close>) and their classification by \<open>MessageBase\<close> (\<open>message/message_base.c\<close>).
  \<open>static_cast<MessageType>\<close> of a received number does not check it, so a type is a number and the enumerators are names
  of numbers; the same holds for \<open>Hitflag\<close>. The methods of a message take the type of a valid message.
\<close>

type_synonym message_type = nat
type_synonym hitflag = u8

abbreviation (input) kLocalGetRequest :: message_type where "kLocalGetRequest \<equiv> 1"
abbreviation (input) kLocalPutRequest :: message_type where "kLocalPutRequest \<equiv> 2"
abbreviation (input) kLocalDelRequest :: message_type where "kLocalDelRequest \<equiv> 3"
abbreviation (input) kLocalGetResponse :: message_type where "kLocalGetResponse \<equiv> 4"
abbreviation (input) kLocalPutResponse :: message_type where "kLocalPutResponse \<equiv> 5"
abbreviation (input) kLocalDelResponse :: message_type where "kLocalDelResponse \<equiv> 6"
abbreviation (input) kGlobalGetRequest :: message_type where "kGlobalGetRequest \<equiv> 7"
abbreviation (input) kGlobalPutRequest :: message_type where "kGlobalPutRequest \<equiv> 8"
abbreviation (input) kGlobalDelRequest :: message_type where "kGlobalDelRequest \<equiv> 9"
abbreviation (input) kGlobalGetResponse :: message_type where "kGlobalGetResponse \<equiv> 10"
abbreviation (input) kGlobalPutResponse :: message_type where "kGlobalPutResponse \<equiv> 11"
abbreviation (input) kGlobalDelResponse :: message_type where "kGlobalDelResponse \<equiv> 12"
abbreviation (input) kRedirectedGetRequest :: message_type where "kRedirectedGetRequest \<equiv> 13"
abbreviation (input) kRedirectedGetResponse :: message_type where "kRedirectedGetResponse \<equiv> 14"
abbreviation (input) kInitializationRequest :: message_type where "kInitializationRequest \<equiv> 15"
abbreviation (input) kInitializationResponse :: message_type where "kInitializationResponse \<equiv> 16"
abbreviation (input) kStartrunRequest :: message_type where "kStartrunRequest \<equiv> 17"
abbreviation (input) kStartrunResponse :: message_type where "kStartrunResponse \<equiv> 18"
abbreviation (input) kSwitchSlotRequest :: message_type where "kSwitchSlotRequest \<equiv> 19"
abbreviation (input) kSwitchSlotResponse :: message_type where "kSwitchSlotResponse \<equiv> 20"
abbreviation (input) kFinishWarmupRequest :: message_type where "kFinishWarmupRequest \<equiv> 21"
abbreviation (input) kFinishWarmupResponse :: message_type where "kFinishWarmupResponse \<equiv> 22"
abbreviation (input) kFinishrunRequest :: message_type where "kFinishrunRequest \<equiv> 23"
abbreviation (input) kFinishrunResponse :: message_type where "kFinishrunResponse \<equiv> 24"
abbreviation (input) kDumpSnapshotRequest :: message_type where "kDumpSnapshotRequest \<equiv> 25"
abbreviation (input) kDumpSnapshotResponse :: message_type where "kDumpSnapshotResponse \<equiv> 26"
abbreviation (input) kSimpleFinishrunResponse :: message_type where "kSimpleFinishrunResponse \<equiv> 27"
abbreviation (input) kUpdateRulesRequest :: message_type where "kUpdateRulesRequest \<equiv> 28"
abbreviation (input) kUpdateRulesResponse :: message_type where "kUpdateRulesResponse \<equiv> 29"
abbreviation (input) kAcquireWritelockRequest :: message_type where "kAcquireWritelockRequest \<equiv> 30"
abbreviation (input) kAcquireWritelockResponse :: message_type where "kAcquireWritelockResponse \<equiv> 31"
abbreviation (input) kDirectoryLookupRequest :: message_type where "kDirectoryLookupRequest \<equiv> 32"
abbreviation (input) kDirectoryUpdateRequest :: message_type where "kDirectoryUpdateRequest \<equiv> 33"
abbreviation (input) kDirectoryLookupResponse :: message_type where "kDirectoryLookupResponse \<equiv> 34"
abbreviation (input) kDirectoryUpdateResponse :: message_type where "kDirectoryUpdateResponse \<equiv> 35"
abbreviation (input) kFinishBlockRequest :: message_type where "kFinishBlockRequest \<equiv> 36"
abbreviation (input) kFinishBlockResponse :: message_type where "kFinishBlockResponse \<equiv> 37"
abbreviation (input) kInvalidationRequest :: message_type where "kInvalidationRequest \<equiv> 38"
abbreviation (input) kInvalidationResponse :: message_type where "kInvalidationResponse \<equiv> 39"
abbreviation (input) kReleaseWritelockRequest :: message_type where "kReleaseWritelockRequest \<equiv> 40"
abbreviation (input) kReleaseWritelockResponse :: message_type where "kReleaseWritelockResponse \<equiv> 41"
abbreviation (input) kCoveredDirectoryLookupRequest :: message_type where "kCoveredDirectoryLookupRequest \<equiv> 42"
abbreviation (input) kCoveredDirectoryLookupResponse :: message_type where "kCoveredDirectoryLookupResponse \<equiv> 43"
abbreviation (input) kCoveredDirectoryUpdateRequest :: message_type where "kCoveredDirectoryUpdateRequest \<equiv> 44"
abbreviation (input) kCoveredDirectoryUpdateResponse :: message_type where "kCoveredDirectoryUpdateResponse \<equiv> 45"
abbreviation (input) kCoveredAcquireWritelockRequest :: message_type where "kCoveredAcquireWritelockRequest \<equiv> 46"
abbreviation (input) kCoveredAcquireWritelockResponse :: message_type where "kCoveredAcquireWritelockResponse \<equiv> 47"
abbreviation (input) kCoveredReleaseWritelockRequest :: message_type where "kCoveredReleaseWritelockRequest \<equiv> 48"
abbreviation (input) kCoveredReleaseWritelockResponse :: message_type where "kCoveredReleaseWritelockResponse \<equiv> 49"
abbreviation (input) kCoveredRedirectedGetRequest :: message_type where "kCoveredRedirectedGetRequest \<equiv> 50"
abbreviation (input) kCoveredRedirectedGetResponse :: message_type where "kCoveredRedirectedGetResponse \<equiv> 51"
abbreviation (input) kCoveredBgfetchRedirectedGetRequest :: message_type where "kCoveredBgfetchRedirectedGetRequest \<equiv> 52"
abbreviation (input) kCoveredBgfetchRedirectedGetResponse :: message_type where "kCoveredBgfetchRedirectedGetResponse \<equiv> 53"
abbreviation (input) kCoveredBgfetchGlobalGetRequest :: message_type where "kCoveredBgfetchGlobalGetRequest \<equiv> 54"
abbreviation (input) kCoveredBgfetchGlobalGetResponse :: message_type where "kCoveredBgfetchGlobalGetResponse \<equiv> 55"
abbreviation (input) kCoveredBgplacePlacementNotifyRequest :: message_type where "kCoveredBgplacePlacementNotifyRequest \<equiv> 56"
abbreviation (input) kCoveredBgplaceDirectoryUpdateRequest :: message_type where "kCoveredBgplaceDirectoryUpdateRequest \<equiv> 57"
abbreviation (input) kCoveredBgplaceDirectoryUpdateResponse :: message_type where "kCoveredBgplaceDirectoryUpdateResponse \<equiv> 58"
abbreviation (input) kCoveredVictimFetchRequest :: message_type where "kCoveredVictimFetchRequest \<equiv> 59"
abbreviation (input) kCoveredVictimFetchResponse :: message_type where "kCoveredVictimFetchResponse \<equiv> 60"
abbreviation (input) kCoveredFghybridDirectoryLookupResponse :: message_type where "kCoveredFghybridDirectoryLookupResponse \<equiv> 61"
abbreviation (input) kCoveredFghybridDirectoryEvictResponse :: message_type where "kCoveredFghybridDirectoryEvictResponse \<equiv> 62"
abbreviation (input) kCoveredFghybridReleaseWritelockResponse :: message_type where "kCoveredFghybridReleaseWritelockResponse \<equiv> 63"
abbreviation (input) kCoveredFghybridHybridFetchedRequest :: message_type where "kCoveredFghybridHybridFetchedRequest \<equiv> 64"
abbreviation (input) kCoveredFghybridHybridFetchedResponse :: message_type where "kCoveredFghybridHybridFetchedResponse \<equiv> 65"
abbreviation (input) kCoveredFghybridDirectoryAdmitRequest :: message_type where "kCoveredFghybridDirectoryAdmitRequest \<equiv> 66"
abbreviation (input) kCoveredFghybridDirectoryAdmitResponse :: message_type where "kCoveredFghybridDirectoryAdmitResponse \<equiv> 67"
abbreviation (input) kCoveredInvalidationRequest :: message_type where "kCoveredInvalidationRequest \<equiv> 68"
abbreviation (input) kCoveredInvalidationResponse :: message_type where "kCoveredInvalidationResponse \<equiv> 69"
abbreviation (input) kCoveredFinishBlockRequest :: message_type where "kCoveredFinishBlockRequest \<equiv> 70"
abbreviation (input) kCoveredFinishBlockResponse :: message_type where "kCoveredFinishBlockResponse \<equiv> 71"
abbreviation (input) kCoveredFastpathDirectoryLookupResponse :: message_type where "kCoveredFastpathDirectoryLookupResponse \<equiv> 72"
abbreviation (input) kCoveredMetadataUpdateRequest :: message_type where "kCoveredMetadataUpdateRequest \<equiv> 73"
abbreviation (input) kCoveredPlacementTriggerRequest :: message_type where "kCoveredPlacementTriggerRequest \<equiv> 74"
abbreviation (input) kCoveredPlacementTriggerResponse :: message_type where "kCoveredPlacementTriggerResponse \<equiv> 75"
abbreviation (input) kCoveredFghybridPlacementTriggerResponse :: message_type where "kCoveredFghybridPlacementTriggerResponse \<equiv> 76"
abbreviation (input) kBestGuessPlacementTriggerRequest :: message_type where "kBestGuessPlacementTriggerRequest \<equiv> 77"
abbreviation (input) kBestGuessPlacementTriggerResponse :: message_type where "kBestGuessPlacementTriggerResponse \<equiv> 78"
abbreviation (input) kBestGuessDirectoryUpdateRequest :: message_type where "kBestGuessDirectoryUpdateRequest \<equiv> 79"
abbreviation (input) kBestGuessDirectoryUpdateResponse :: message_type where "kBestGuessDirectoryUpdateResponse \<equiv> 80"
abbreviation (input) kBestGuessBgplaceDirectoryUpdateRequest :: message_type where "kBestGuessBgplaceDirectoryUpdateRequest \<equiv> 81"
abbreviation (input) kBestGuessBgplaceDirectoryUpdateResponse :: message_type where "kBestGuessBgplaceDirectoryUpdateResponse \<equiv> 82"
abbreviation (input) kBestGuessBgplacePlacementNotifyRequest :: message_type where "kBestGuessBgplacePlacementNotifyRequest \<equiv> 83"
abbreviation (input) kBestGuessDirectoryLookupRequest :: message_type where "kBestGuessDirectoryLookupRequest \<equiv> 84"
abbreviation (input) kBestGuessDirectoryLookupResponse :: message_type where "kBestGuessDirectoryLookupResponse \<equiv> 85"
abbreviation (input) kBestGuessFinishBlockRequest :: message_type where "kBestGuessFinishBlockRequest \<equiv> 86"
abbreviation (input) kBestGuessFinishBlockResponse :: message_type where "kBestGuessFinishBlockResponse \<equiv> 87"
abbreviation (input) kBestGuessAcquireWritelockRequest :: message_type where "kBestGuessAcquireWritelockRequest \<equiv> 88"
abbreviation (input) kBestGuessAcquireWritelockResponse :: message_type where "kBestGuessAcquireWritelockResponse \<equiv> 89"
abbreviation (input) kBestGuessInvalidationRequest :: message_type where "kBestGuessInvalidationRequest \<equiv> 90"
abbreviation (input) kBestGuessInvalidationResponse :: message_type where "kBestGuessInvalidationResponse \<equiv> 91"
abbreviation (input) kBestGuessReleaseWritelockRequest :: message_type where "kBestGuessReleaseWritelockRequest \<equiv> 92"
abbreviation (input) kBestGuessReleaseWritelockResponse :: message_type where "kBestGuessReleaseWritelockResponse \<equiv> 93"
abbreviation (input) kBestGuessRedirectedGetRequest :: message_type where "kBestGuessRedirectedGetRequest \<equiv> 94"
abbreviation (input) kBestGuessRedirectedGetResponse :: message_type where "kBestGuessRedirectedGetResponse \<equiv> 95"
abbreviation (input) kLocalHit :: hitflag where "kLocalHit \<equiv> 1"
abbreviation (input) kCooperativeHit :: hitflag where "kCooperativeHit \<equiv> 2"
abbreviation (input) kCooperativeInvalid :: hitflag where "kCooperativeInvalid \<equiv> 3"
abbreviation (input) kGlobalMiss :: hitflag where "kGlobalMiss \<equiv> 4"

section \<open>Names\<close>

text \<open>\<open>std::to_string\<close>.\<close>

fun decimal_digits :: "nat \<Rightarrow> string" where
  "decimal_digits n = (if n < 10 then [char_of (48 + n)] else decimal_digits (n div 10) @ [char_of (48 + n mod 10)])"

declare decimal_digits.simps [simp del]

definition message_type_names :: "(message_type \<times> string) list" where
  "message_type_names =
     [(kLocalGetRequest, ''kLocalGetRequest''), (kLocalPutRequest, ''kLocalPutRequest''),
      (kLocalDelRequest, ''kLocalDelRequest''), (kLocalGetResponse, ''kLocalGetResponse''),
      (kLocalPutResponse, ''kLocalPutResponse''), (kLocalDelResponse, ''kLocalDelResponse''),
      (kRedirectedGetRequest, ''kRedirectedGetRequest''), (kRedirectedGetResponse, ''kRedirectedGetResponse''),
      (kInitializationRequest, ''kInitializationRequest''), (kInitializationResponse, ''kInitializationResponse''),
      (kStartrunRequest, ''kStartrunRequest''), (kStartrunResponse, ''kStartrunResponse''),
      (kSwitchSlotRequest, ''kSwitchSlotRequest''), (kSwitchSlotResponse, ''kSwitchSlotResponse''),
      (kFinishWarmupRequest, ''kFinishWarmupRequest''), (kFinishWarmupResponse, ''kFinishWarmupResponse''),
      (kFinishrunRequest, ''kFinishrunRequest''), (kFinishrunResponse, ''kFinishrunResponse''),
      (kDumpSnapshotRequest, ''kDumpSnapshotRequest''), (kDumpSnapshotResponse, ''kDumpSnapshotResponse''),
      (kSimpleFinishrunResponse, ''kSimpleFinishrunResponse''), (kUpdateRulesRequest, ''kUpdateRulesRequest''),
      (kUpdateRulesResponse, ''kUpdateRulesResponse''), (kAcquireWritelockRequest, ''kAcquireWritelockRequest''),
      (kAcquireWritelockResponse, ''kAcquireWritelockResponse''), (kDirectoryLookupRequest, ''kDirectoryLookupRequest''),
      (kDirectoryUpdateRequest, ''kDirectoryUpdateRequest''), (kDirectoryLookupResponse, ''kDirectoryLookupResponse''),
      (kDirectoryUpdateResponse, ''kDirectoryUpdateResponse''), (kFinishBlockRequest, ''kFinishBlockRequest''),
      (kFinishBlockResponse, ''kFinishBlockResponse''), (kInvalidationRequest, ''kInvalidationRequest''),
      (kInvalidationResponse, ''kInvalidationResponse''), (kReleaseWritelockRequest, ''kReleaseWritelockRequest''),
      (kReleaseWritelockResponse, ''kReleaseWritelockResponse''),
      (kCoveredDirectoryLookupRequest, ''kCoveredDirectoryLookupRequest''),
      (kCoveredDirectoryLookupResponse, ''kCoveredDirectoryLookupResponse''),
      (kCoveredDirectoryUpdateRequest, ''kCoveredDirectoryUpdateRequest''),
      (kCoveredDirectoryUpdateResponse, ''kCoveredDirectoryUpdateResponse''),
      (kCoveredAcquireWritelockRequest, ''kCoveredAcquireWritelockRequest''),
      (kCoveredAcquireWritelockResponse, ''kCoveredAcquireWritelockResponse''),
      (kCoveredReleaseWritelockRequest, ''kCoveredReleaseWritelockRequest''),
      (kCoveredReleaseWritelockResponse, ''kCoveredReleaseWritelockResponse''),
      (kCoveredRedirectedGetRequest, ''kCoveredRedirectedGetRequest''),
      (kCoveredRedirectedGetResponse, ''kCoveredRedirectedGetResponse''),
      (kCoveredBgfetchRedirectedGetRequest, ''kCoveredBgfetchRedirectedGetRequest''),
      (kCoveredBgfetchRedirectedGetResponse, ''kCoveredBgfetchRedirectedGetResponse''),
      (kCoveredBgfetchGlobalGetRequest, ''kCoveredBgfetchGlobalGetRequest''),
      (kCoveredBgfetchGlobalGetResponse, ''kCoveredBgfetchGlobalGetResponse''),
      (kCoveredBgplacePlacementNotifyRequest, ''kCoveredBgplacePlacementNotifyRequest''),
      (kCoveredBgplaceDirectoryUpdateRequest, ''kCoveredBgplaceDirectoryUpdateRequest''),
      (kCoveredBgplaceDirectoryUpdateResponse, ''kCoveredBgplaceDirectoryUpdateResponse''),
      (kCoveredVictimFetchRequest, ''kCoveredVictimFetchRequest''),
      (kCoveredVictimFetchResponse, ''kCoveredVictimFetchResponse''),
      (kCoveredFghybridDirectoryLookupResponse, ''kCoveredFghybridDirectoryLookupResponse''),
      (kCoveredFghybridDirectoryEvictResponse, ''kCoveredFghybridDirectoryEvictResponse''),
      (kCoveredFghybridReleaseWritelockResponse, ''kCoveredFghybridReleaseWritelockResponse''),
      (kCoveredFghybridHybridFetchedRequest, ''kCoveredFghybridHybridFetchedRequest''),
      (kCoveredFghybridHybridFetchedResponse, ''kCoveredFghybridHybridFetchedResponse''),
      (kCoveredFghybridDirectoryAdmitRequest, ''kCoveredFghybridDirectoryAdmitRequest''),
      (kCoveredFghybridDirectoryAdmitResponse, ''kCoveredFghybridDirectoryAdmitResponse''),
      (kCoveredInvalidationRequest, ''kCoveredInvalidationRequest''),
      (kCoveredInvalidationResponse, ''kCoveredInvalidationResponse''),
      (kCoveredFinishBlockRequest, ''kCoveredFinishBlockRequest''),
      (kCoveredFinishBlockResponse, ''kCoveredFinishBlockResponse''),
      (kCoveredFastpathDirectoryLookupResponse, ''kCoveredFastpathDirectoryLookupResponse''),
      (kCoveredMetadataUpdateRequest, ''kCoveredMetadataUpdateRequest''),
      (kCoveredPlacementTriggerRequest, ''kCoveredPlacementTriggerRequest''),
      (kCoveredPlacementTriggerResponse, ''kCoveredPlacementTriggerResponse''),
      (kCoveredFghybridPlacementTriggerResponse, ''kCoveredFghybridPlacementTriggerResponse''),
      (kBestGuessPlacementTriggerRequest, ''kBestGuessPlacementTriggerRequest''),
      (kBestGuessPlacementTriggerResponse, ''kBestGuessPlacementTriggerResponse''),
      (kBestGuessDirectoryUpdateRequest, ''kBestGuessDirectoryUpdateRequest''),
      (kBestGuessDirectoryUpdateResponse, ''kBestGuessDirectoryUpdateResponse''),
      (kBestGuessBgplaceDirectoryUpdateRequest, ''kBestGuessBgplaceDirectoryUpdateRequest''),
      (kBestGuessBgplaceDirectoryUpdateResponse, ''kBestGuessBgplaceDirectoryUpdateResponse''),
      (kBestGuessBgplacePlacementNotifyRequest, ''kBestGuessBgplacePlacementNotifyRequest''),
      (kBestGuessDirectoryLookupRequest, ''kBestGuessDirectoryLookupRequest''),
      (kBestGuessDirectoryLookupResponse, ''kBestGuessDirectoryLookupResponse''),
      (kBestGuessFinishBlockRequest, ''kBestGuessFinishBlockRequest''),
      (kBestGuessFinishBlockResponse, ''kBestGuessFinishBlockResponse''),
      (kBestGuessAcquireWritelockRequest, ''kBestGuessAcquireWritelockRequest''),
      (kBestGuessAcquireWritelockResponse, ''kBestGuessAcquireWritelockResponse''),
      (kBestGuessInvalidationRequest, ''kBestGuessInvalidationRequest''),
      (kBestGuessInvalidationResponse, ''kBestGuessInvalidationResponse''),
      (kBestGuessReleaseWritelockRequest, ''kBestGuessReleaseWritelockRequest''),
      (kBestGuessReleaseWritelockResponse, ''kBestGuessReleaseWritelockResponse''),
      (kBestGuessRedirectedGetRequest, ''kBestGuessRedirectedGetRequest''),
      (kBestGuessRedirectedGetResponse, ''kBestGuessRedirectedGetResponse'')]"

definition MessageBase_messageTypeToString :: "message_type \<Rightarrow> string" where
  "MessageBase_messageTypeToString t =
     (case map_of message_type_names t of Some s \<Rightarrow> s | None \<Rightarrow> decimal_digits t)"

definition MessageBase_hitflagToString :: "hitflag \<Rightarrow> string" where
  "MessageBase_hitflagToString h =
     (if h = kLocalHit then ''kLocalHit'' else if h = kCooperativeHit then ''kCooperativeHit''
      else if h = kCooperativeInvalid then ''kCooperativeInvalid'' else if h = kGlobalMiss then ''kGlobalMiss''
      else decimal_digits (unat h))"

section \<open>Kinds of messages\<close>

definition MessageBase_isLocalDataRequest :: "message_type \<Rightarrow> bool" where
  "MessageBase_isLocalDataRequest t \<longleftrightarrow>
     t \<in> {kLocalGetRequest, kLocalPutRequest, kLocalDelRequest}"

definition MessageBase_isRedirectedDataRequest :: "message_type \<Rightarrow> bool" where
  "MessageBase_isRedirectedDataRequest t \<longleftrightarrow>
     t \<in> {kRedirectedGetRequest, kCoveredRedirectedGetRequest, kCoveredBgfetchRedirectedGetRequest,
           kBestGuessRedirectedGetRequest}"

definition MessageBase_isGlobalDataRequest :: "message_type \<Rightarrow> bool" where
  "MessageBase_isGlobalDataRequest t \<longleftrightarrow>
     t \<in> {kGlobalGetRequest, kGlobalPutRequest, kGlobalDelRequest, kCoveredBgfetchGlobalGetRequest}"

definition MessageBase_isLocalDataResponse :: "message_type \<Rightarrow> bool" where
  "MessageBase_isLocalDataResponse t \<longleftrightarrow>
     t \<in> {kLocalGetResponse, kLocalPutResponse, kLocalDelResponse}"

definition MessageBase_isRedirectedDataResponse :: "message_type \<Rightarrow> bool" where
  "MessageBase_isRedirectedDataResponse t \<longleftrightarrow>
     t \<in> {kRedirectedGetResponse, kCoveredRedirectedGetResponse, kCoveredBgfetchRedirectedGetResponse,
           kBestGuessRedirectedGetResponse}"

definition MessageBase_isGlobalDataResponse :: "message_type \<Rightarrow> bool" where
  "MessageBase_isGlobalDataResponse t \<longleftrightarrow>
     t \<in> {kGlobalGetResponse, kGlobalPutResponse, kGlobalDelResponse, kCoveredBgfetchGlobalGetResponse}"

definition MessageBase_isCooperationControlRequest :: "message_type \<Rightarrow> bool" where
  "MessageBase_isCooperationControlRequest t \<longleftrightarrow>
     t \<in> {kAcquireWritelockRequest, kDirectoryLookupRequest, kDirectoryUpdateRequest, kFinishBlockRequest,
           kInvalidationRequest, kReleaseWritelockRequest, kCoveredDirectoryLookupRequest, kCoveredDirectoryUpdateRequest,
           kCoveredAcquireWritelockRequest, kCoveredReleaseWritelockRequest, kCoveredBgplaceDirectoryUpdateRequest,
           kCoveredBgplacePlacementNotifyRequest, kCoveredVictimFetchRequest, kCoveredFghybridHybridFetchedRequest,
           kCoveredFghybridDirectoryAdmitRequest, kCoveredInvalidationRequest, kCoveredFinishBlockRequest,
           kCoveredMetadataUpdateRequest, kBestGuessPlacementTriggerRequest, kBestGuessDirectoryUpdateRequest,
           kBestGuessBgplaceDirectoryUpdateRequest, kBestGuessBgplacePlacementNotifyRequest,
           kBestGuessDirectoryLookupRequest, kBestGuessFinishBlockRequest, kBestGuessAcquireWritelockRequest,
           kBestGuessInvalidationRequest, kBestGuessReleaseWritelockRequest, kCoveredPlacementTriggerRequest}"

definition MessageBase_isBenchmarkControlRequest :: "message_type \<Rightarrow> bool" where
  "MessageBase_isBenchmarkControlRequest t \<longleftrightarrow>
     t \<in> {kInitializationRequest, kStartrunRequest, kSwitchSlotRequest, kFinishWarmupRequest, kFinishrunRequest,
           kDumpSnapshotRequest, kUpdateRulesRequest}"

definition MessageBase_isDirectoryLookupMessage :: "message_type \<Rightarrow> bool" where
  "MessageBase_isDirectoryLookupMessage t \<longleftrightarrow>
     t \<in> {kDirectoryLookupRequest, kDirectoryLookupResponse, kCoveredDirectoryLookupRequest,
           kCoveredDirectoryLookupResponse, kCoveredFghybridDirectoryLookupResponse,
           kCoveredFastpathDirectoryLookupResponse, kBestGuessDirectoryLookupRequest, kBestGuessDirectoryLookupResponse}"

definition MessageBase_isDirectoryUpdateMessage :: "message_type \<Rightarrow> bool" where
  "MessageBase_isDirectoryUpdateMessage t \<longleftrightarrow>
     t \<in> {kDirectoryUpdateRequest, kDirectoryUpdateResponse, kCoveredDirectoryUpdateRequest,
           kCoveredDirectoryUpdateResponse, kCoveredBgplaceDirectoryUpdateRequest, kCoveredBgplaceDirectoryUpdateResponse,
           kCoveredFghybridDirectoryEvictResponse, kCoveredFghybridDirectoryAdmitRequest,
           kCoveredFghybridDirectoryAdmitResponse, kBestGuessDirectoryUpdateRequest, kBestGuessDirectoryUpdateResponse,
           kBestGuessBgplaceDirectoryUpdateRequest, kBestGuessBgplaceDirectoryUpdateResponse}"

definition MessageBase_isCooperationControlResponse :: "message_type \<Rightarrow> bool" where
  "MessageBase_isCooperationControlResponse t \<longleftrightarrow>
     t \<in> {kAcquireWritelockResponse, kDirectoryLookupResponse, kDirectoryUpdateResponse, kFinishBlockResponse,
           kInvalidationResponse, kReleaseWritelockResponse, kCoveredDirectoryLookupResponse,
           kCoveredDirectoryUpdateResponse, kCoveredAcquireWritelockResponse, kCoveredReleaseWritelockResponse,
           kCoveredBgplaceDirectoryUpdateResponse, kCoveredVictimFetchResponse, kCoveredFghybridDirectoryLookupResponse,
           kCoveredFghybridDirectoryEvictResponse, kCoveredFghybridReleaseWritelockResponse,
           kCoveredFghybridHybridFetchedResponse, kCoveredFghybridDirectoryAdmitResponse, kCoveredInvalidationResponse,
           kCoveredFinishBlockResponse, kCoveredFastpathDirectoryLookupResponse, kBestGuessPlacementTriggerResponse,
           kBestGuessDirectoryUpdateResponse, kBestGuessBgplaceDirectoryUpdateResponse, kBestGuessDirectoryLookupResponse,
           kBestGuessFinishBlockResponse, kBestGuessAcquireWritelockResponse, kBestGuessInvalidationResponse,
           kBestGuessReleaseWritelockResponse, kCoveredPlacementTriggerResponse, kCoveredFghybridPlacementTriggerResponse}"

definition MessageBase_isBenchmarkControlResponse :: "message_type \<Rightarrow> bool" where
  "MessageBase_isBenchmarkControlResponse t \<longleftrightarrow>
     t \<in> {kInitializationResponse, kStartrunResponse, kSwitchSlotResponse, kFinishWarmupResponse, kFinishrunResponse,
           kDumpSnapshotResponse, kSimpleFinishrunResponse, kUpdateRulesResponse}"

definition MessageBase_isBackgroundRequest :: "message_type \<Rightarrow> bool" where
  "MessageBase_isBackgroundRequest t \<longleftrightarrow>
     t \<in> {kCoveredBgfetchRedirectedGetRequest, kCoveredBgfetchGlobalGetRequest, kCoveredBgplacePlacementNotifyRequest,
           kCoveredBgplaceDirectoryUpdateRequest, kBestGuessBgplaceDirectoryUpdateRequest,
           kBestGuessBgplacePlacementNotifyRequest}"

definition MessageBase_isBackgroundResponse :: "message_type \<Rightarrow> bool" where
  "MessageBase_isBackgroundResponse t \<longleftrightarrow>
     t \<in> {kCoveredBgfetchRedirectedGetResponse, kCoveredBgfetchGlobalGetResponse, kCoveredBgplaceDirectoryUpdateResponse,
           kBestGuessBgplaceDirectoryUpdateResponse}"

definition MessageBase_isDataRequest :: "message_type \<Rightarrow> bool" where
  "MessageBase_isDataRequest t \<longleftrightarrow> MessageBase_isLocalDataRequest t \<or> MessageBase_isRedirectedDataRequest t \<or> MessageBase_isGlobalDataRequest t"

definition MessageBase_isDataResponse :: "message_type \<Rightarrow> bool" where
  "MessageBase_isDataResponse t \<longleftrightarrow> MessageBase_isLocalDataResponse t \<or> MessageBase_isRedirectedDataResponse t \<or> MessageBase_isGlobalDataResponse t"

definition MessageBase_isControlRequest :: "message_type \<Rightarrow> bool" where
  "MessageBase_isControlRequest t \<longleftrightarrow> MessageBase_isCooperationControlRequest t \<or> MessageBase_isBenchmarkControlRequest t"

definition MessageBase_isControlResponse :: "message_type \<Rightarrow> bool" where
  "MessageBase_isControlResponse t \<longleftrightarrow> MessageBase_isCooperationControlResponse t \<or> MessageBase_isBenchmarkControlResponse t"

definition MessageBase_isBackgroundMessage :: "message_type \<Rightarrow> bool" where
  "MessageBase_isBackgroundMessage t \<longleftrightarrow> MessageBase_isBackgroundRequest t \<or> MessageBase_isBackgroundResponse t"

text \<open>\<open>is_response_\<close>, set by the constructor and by \<open>deserialize\<close>.\<close>

definition is_response_type :: "message_type \<Rightarrow> bool" where
  "is_response_type t \<longleftrightarrow> MessageBase_isDataResponse t \<or> MessageBase_isControlResponse t"

lemmas message_kind_defs = MessageBase_isLocalDataRequest_def MessageBase_isRedirectedDataRequest_def MessageBase_isGlobalDataRequest_def
  MessageBase_isLocalDataResponse_def MessageBase_isRedirectedDataResponse_def MessageBase_isGlobalDataResponse_def
  MessageBase_isCooperationControlRequest_def MessageBase_isBenchmarkControlRequest_def
  MessageBase_isCooperationControlResponse_def MessageBase_isBenchmarkControlResponse_def
  MessageBase_isDataRequest_def MessageBase_isDataResponse_def MessageBase_isControlRequest_def MessageBase_isControlResponse_def
  MessageBase_isBackgroundRequest_def MessageBase_isBackgroundResponse_def MessageBase_isBackgroundMessage_def
  MessageBase_isDirectoryLookupMessage_def MessageBase_isDirectoryUpdateMessage_def is_response_type_def

section \<open>The classification\<close>

text \<open>The ten kinds of messages.\<close>

definition message_kinds :: "(message_type \<Rightarrow> bool) list" where
  "message_kinds = [MessageBase_isLocalDataRequest, MessageBase_isRedirectedDataRequest, MessageBase_isGlobalDataRequest,
     MessageBase_isLocalDataResponse, MessageBase_isRedirectedDataResponse, MessageBase_isGlobalDataResponse,
     MessageBase_isCooperationControlRequest, MessageBase_isBenchmarkControlRequest,
     MessageBase_isCooperationControlResponse, MessageBase_isBenchmarkControlResponse]"

text \<open>Numbers outside the enumeration are of no kind.\<close>

definition all_message_types :: "message_type list" where
  "all_message_types =
     [kLocalGetRequest, kLocalPutRequest, kLocalDelRequest, kLocalGetResponse, kLocalPutResponse, kLocalDelResponse,
      kGlobalGetRequest, kGlobalPutRequest, kGlobalDelRequest, kGlobalGetResponse, kGlobalPutResponse, kGlobalDelResponse,
      kRedirectedGetRequest, kRedirectedGetResponse, kInitializationRequest, kInitializationResponse, kStartrunRequest,
      kStartrunResponse, kSwitchSlotRequest, kSwitchSlotResponse, kFinishWarmupRequest, kFinishWarmupResponse,
      kFinishrunRequest, kFinishrunResponse, kDumpSnapshotRequest, kDumpSnapshotResponse, kSimpleFinishrunResponse,
      kUpdateRulesRequest, kUpdateRulesResponse, kAcquireWritelockRequest, kAcquireWritelockResponse,
      kDirectoryLookupRequest, kDirectoryUpdateRequest, kDirectoryLookupResponse, kDirectoryUpdateResponse,
      kFinishBlockRequest, kFinishBlockResponse, kInvalidationRequest, kInvalidationResponse, kReleaseWritelockRequest,
      kReleaseWritelockResponse, kCoveredDirectoryLookupRequest, kCoveredDirectoryLookupResponse,
      kCoveredDirectoryUpdateRequest, kCoveredDirectoryUpdateResponse, kCoveredAcquireWritelockRequest,
      kCoveredAcquireWritelockResponse, kCoveredReleaseWritelockRequest, kCoveredReleaseWritelockResponse,
      kCoveredRedirectedGetRequest, kCoveredRedirectedGetResponse, kCoveredBgfetchRedirectedGetRequest,
      kCoveredBgfetchRedirectedGetResponse, kCoveredBgfetchGlobalGetRequest, kCoveredBgfetchGlobalGetResponse,
      kCoveredBgplacePlacementNotifyRequest, kCoveredBgplaceDirectoryUpdateRequest, kCoveredBgplaceDirectoryUpdateResponse,
      kCoveredVictimFetchRequest, kCoveredVictimFetchResponse, kCoveredFghybridDirectoryLookupResponse,
      kCoveredFghybridDirectoryEvictResponse, kCoveredFghybridReleaseWritelockResponse,
      kCoveredFghybridHybridFetchedRequest, kCoveredFghybridHybridFetchedResponse, kCoveredFghybridDirectoryAdmitRequest,
      kCoveredFghybridDirectoryAdmitResponse, kCoveredInvalidationRequest, kCoveredInvalidationResponse,
      kCoveredFinishBlockRequest, kCoveredFinishBlockResponse, kCoveredFastpathDirectoryLookupResponse,
      kCoveredMetadataUpdateRequest, kCoveredPlacementTriggerRequest, kCoveredPlacementTriggerResponse,
      kCoveredFghybridPlacementTriggerResponse, kBestGuessPlacementTriggerRequest, kBestGuessPlacementTriggerResponse,
      kBestGuessDirectoryUpdateRequest, kBestGuessDirectoryUpdateResponse, kBestGuessBgplaceDirectoryUpdateRequest,
      kBestGuessBgplaceDirectoryUpdateResponse, kBestGuessBgplacePlacementNotifyRequest, kBestGuessDirectoryLookupRequest,
      kBestGuessDirectoryLookupResponse, kBestGuessFinishBlockRequest, kBestGuessFinishBlockResponse,
      kBestGuessAcquireWritelockRequest, kBestGuessAcquireWritelockResponse, kBestGuessInvalidationRequest,
      kBestGuessInvalidationResponse, kBestGuessReleaseWritelockRequest, kBestGuessReleaseWritelockResponse,
      kBestGuessRedirectedGetRequest, kBestGuessRedirectedGetResponse]"

definition is_message_type :: "message_type \<Rightarrow> bool" where
  "is_message_type t \<longleftrightarrow> t \<in> set all_message_types"

lemma kinds_in_range:
  "MessageBase_isLocalDataRequest t \<Longrightarrow> is_message_type t" "MessageBase_isRedirectedDataRequest t \<Longrightarrow> is_message_type t"
  "MessageBase_isGlobalDataRequest t \<Longrightarrow> is_message_type t" "MessageBase_isLocalDataResponse t \<Longrightarrow> is_message_type t"
  "MessageBase_isRedirectedDataResponse t \<Longrightarrow> is_message_type t" "MessageBase_isGlobalDataResponse t \<Longrightarrow> is_message_type t"
  "MessageBase_isCooperationControlRequest t \<Longrightarrow> is_message_type t" "MessageBase_isBenchmarkControlRequest t \<Longrightarrow> is_message_type t"
  "MessageBase_isCooperationControlResponse t \<Longrightarrow> is_message_type t" "MessageBase_isBenchmarkControlResponse t \<Longrightarrow> is_message_type t"
  by (auto simp: message_kind_defs is_message_type_def all_message_types_def)

lemma all_types_have_a_kind: "list_all (\<lambda>t. length (filter (\<lambda>P. P t) message_kinds) = 1) all_message_types"
  by (simp add: all_message_types_def message_kinds_def message_kind_defs)

lemma all_types_answered: "list_all (\<lambda>t. is_response_type t \<noteq> (MessageBase_isDataRequest t \<or> MessageBase_isControlRequest t)) all_message_types"
  by (simp add: all_message_types_def message_kind_defs)

lemma response_not_request:
  "is_message_type t \<Longrightarrow> is_response_type t \<Longrightarrow> \<not> MessageBase_isDataRequest t \<and> \<not> MessageBase_isControlRequest t"
  using all_types_answered unfolding list_all_iff is_message_type_def by blast

lemma message_types_answered:
  "is_message_type t \<Longrightarrow> is_response_type t \<or> MessageBase_isDataRequest t \<or> MessageBase_isControlRequest t"
  using all_types_answered unfolding list_all_iff is_message_type_def by blast

text \<open>The classification is a partition: a number is the type of a message exactly when one of the ten kinds accepts it,
  then exactly one does, and it is either a request or a response.\<close>

theorem message_kinds_partition:
  "length (filter (\<lambda>P. P t) message_kinds) = (if is_message_type t then 1 else 0)
   \<and> (is_message_type t \<longleftrightarrow> is_response_type t \<or> MessageBase_isDataRequest t \<or> MessageBase_isControlRequest t)
   \<and> \<not> (is_response_type t \<and> (MessageBase_isDataRequest t \<or> MessageBase_isControlRequest t))"
proof (cases "is_message_type t")
  case True
  then have "length (filter (\<lambda>P. P t) message_kinds) = 1"
    "is_response_type t \<noteq> (MessageBase_isDataRequest t \<or> MessageBase_isControlRequest t)"
    using all_types_have_a_kind all_types_answered unfolding is_message_type_def list_all_iff by blast+
  with True show ?thesis by auto
next
  case False
  then show ?thesis using kinds_in_range [of t]
    by (auto simp: message_kinds_def is_response_type_def MessageBase_isDataRequest_def MessageBase_isDataResponse_def
        MessageBase_isControlRequest_def MessageBase_isControlResponse_def)
qed

end
