(* ===== verification/Message_Fields.thy ===== *)
theory Message_Fields
  imports Wire_Format
begin

text \<open>
  How \<open>serialize\<close> and \<open>deserialize\<close> of a message and its parts are written: one field after the other, each adding its size
  to \<open>size\<close>. \<open>put_field\<close> and \<open>get_field\<close> are such a step with a field that is an object, \<open>put_mem\<close> and \<open>get_mem\<close> with a number or
  flag copied as it is in memory; \<open>put_end\<close> and \<open>get_end\<close> are \<open>return size - position\<close>. A composition of steps writes and
  reads the concatenation of the formats of its fields.
\<close>

type_synonym writer = "dynamic_array \<Rightarrow> u32 \<Rightarrow> (dynamic_array \<times> u32) exec"
type_synonym 'a reader = "dynamic_array \<Rightarrow> u32 \<Rightarrow> ('a \<times> u32) exec"

definition put_field :: "writer \<Rightarrow> writer \<Rightarrow> writer" where
  "put_field ser k msg_payload sz = bindE (ser msg_payload sz) (\<lambda>(msg_payload, n). k msg_payload (sz + n))"

definition put_mem :: "u8 list \<Rightarrow> writer \<Rightarrow> writer" where
  "put_mem bs k msg_payload sz =
     bindE (DynamicArray_deserialize msg_payload sz bs (word_of_nat (length bs))) (\<lambda>msg_payload.
     k msg_payload (sz + word_of_nat (length bs)))"

definition put_end :: "u32 \<Rightarrow> writer" where
  "put_end position msg_payload sz = Inr (msg_payload, sz - position)"

definition get_field :: "'a reader \<Rightarrow> ('a \<Rightarrow> 'b reader) \<Rightarrow> 'b reader" where
  "get_field deser k msg_payload sz = bindE (deser msg_payload sz) (\<lambda>(x, n). k x msg_payload (sz + n))"

definition get_mem :: "u32 \<Rightarrow> (u8 list \<Rightarrow> 'b reader) \<Rightarrow> 'b reader" where
  "get_mem n k msg_payload sz = bindE (DynamicArray_serialize msg_payload sz n) (\<lambda>bs. k bs msg_payload (sz + n))"

definition get_end :: "u32 \<Rightarrow> 'a \<Rightarrow> 'a reader" where
  "get_end position x msg_payload sz = Inr (x, sz - position)"

text \<open>\<open>uint32_t size = position\<close>.\<close>

definition from_position :: "(u32 \<Rightarrow> dynamic_array \<Rightarrow> u32 \<Rightarrow> 'r) \<Rightarrow> dynamic_array \<Rightarrow> u32 \<Rightarrow> 'r" where
  "from_position f msg_payload position = f position msg_payload position"

section \<open>What is written\<close>

text \<open>\<open>writes ser bs\<close>: at every position where they fit, \<open>ser\<close> writes the bytes \<open>bs\<close> and returns their number;
  \<open>writes_on\<close> is the same for the rest of a composition. An empty rest writes nothing.\<close>

definition put_bytes :: "nat \<Rightarrow> u8 list \<Rightarrow> dynamic_array \<Rightarrow> dynamic_array" where
  "put_bytes p bs a = (if bs = [] then a else da_put p bs a)"

definition writes :: "writer \<Rightarrow> u8 list \<Rightarrow> bool" where
  "writes ser bs \<longleftrightarrow> (\<forall>a p. unat p + length bs \<le> da_capacity a \<longrightarrow> unat p + length bs < 2 ^ 32 \<longrightarrow>
     ser a p = Inr (put_bytes (unat p) bs a, word_of_nat (length bs)))"

definition writes_on :: "u32 \<Rightarrow> writer \<Rightarrow> u8 list \<Rightarrow> bool" where
  "writes_on position k bs \<longleftrightarrow> (\<forall>a p. unat p + length bs \<le> da_capacity a \<longrightarrow> unat p + length bs < 2 ^ 32 \<longrightarrow>
     k a p = Inr (put_bytes (unat p) bs a, p + word_of_nat (length bs) - position))"

lemma put_bytes_twice: "put_bytes (p + length bs) cs (put_bytes p bs a) = put_bytes p (bs @ cs) a"
  by (cases "bs = []"; cases "cs = []") (simp_all add: put_bytes_def da_put_put)

lemma put_bytes_capacity [simp]: "da_capacity (put_bytes p bs a) = da_capacity a"
  by (simp add: put_bytes_def)

lemma field_end: "unat p + length bs < 2 ^ 32 \<Longrightarrow> unat (p + word_of_nat (length bs) :: u32) = unat p + length bs"
  by (simp add: unat_plus_of_nat)

lemma writes_on_end: "writes_on position (put_end position) []"
  by (simp add: writes_on_def put_end_def put_bytes_def)

lemma writes_on_field:
  assumes "writes ser bs" "writes_on position k cs"
  shows "writes_on position (put_field ser k) (bs @ cs)"
  unfolding writes_on_def
proof (intro allI impI)
  fix a :: dynamic_array and p :: u32
  assume c: "unat p + length (bs @ cs) \<le> da_capacity a" "unat p + length (bs @ cs) < 2 ^ 32"
  then have e: "unat (p + word_of_nat (length bs)) = unat p + length bs" by (simp add: field_end)
  have "ser a p = Inr (put_bytes (unat p) bs a, word_of_nat (length bs))" using assms(1) c by (simp add: writes_def)
  moreover have "k (put_bytes (unat p) bs a) (p + word_of_nat (length bs))
      = Inr (put_bytes (unat p + length bs) cs (put_bytes (unat p) bs a), p + word_of_nat (length bs) + word_of_nat (length cs) - position)"
    using assms(2) c e by (simp add: writes_on_def add.assoc)
  ultimately show "put_field ser k a p = Inr (put_bytes (unat p) (bs @ cs) a, p + word_of_nat (length (bs @ cs)) - position)"
    by (simp add: put_field_def put_bytes_twice add.assoc)
qed

lemma put_mem_as_field:
  "put_mem bs k = put_field (\<lambda>a p. bindE (DynamicArray_deserialize a p bs (word_of_nat (length bs))) (\<lambda>a. Inr (a, word_of_nat (length bs)))) k"
  by (intro ext) (simp add: put_mem_def put_field_def bindE_assoc)

lemma writes_on_mem:
  assumes "bs \<noteq> []" "writes_on position k cs"
  shows "writes_on position (put_mem bs k) (bs @ cs)"
  unfolding put_mem_as_field
  by (rule writes_on_field [OF _ assms(2)]) (simp add: writes_def put_bytes_def assms(1) deserialize_ok)

lemma writes_whole: "(\<And>position. writes_on position (ser position) bs) \<Longrightarrow> writes (from_position ser) bs"
  by (simp add: writes_on_def writes_def from_position_def)

section \<open>What is read\<close>

definition reads :: "'a reader \<Rightarrow> u8 list \<Rightarrow> 'a \<Rightarrow> bool" where
  "reads deser bs x \<longleftrightarrow> (\<forall>a p. da_holds a (unat p) bs \<longrightarrow> unat p + length bs < 2 ^ 32 \<longrightarrow>
     deser a p = Inr (x, word_of_nat (length bs)))"

definition reads_on :: "u32 \<Rightarrow> 'a reader \<Rightarrow> u8 list \<Rightarrow> 'a \<Rightarrow> bool" where
  "reads_on position k bs x \<longleftrightarrow> (\<forall>a p. da_holds a (unat p) bs \<longrightarrow> unat p + length bs < 2 ^ 32 \<longrightarrow>
     k a p = Inr (x, p + word_of_nat (length bs) - position))"

lemma reads_on_end: "x = y \<Longrightarrow> reads_on position (get_end position x) [] y"
  by (simp add: reads_on_def get_end_def)

lemma reads_on_field:
  assumes "reads deser bs x" "reads_on position (k x) cs y"
  shows "reads_on position (get_field deser k) (bs @ cs) y"
  unfolding reads_on_def
proof (intro allI impI)
  fix a :: dynamic_array and p :: u32
  assume h: "da_holds a (unat p) (bs @ cs)" and l: "unat p + length (bs @ cs) < 2 ^ 32"
  then have e: "unat (p + word_of_nat (length bs)) = unat p + length bs" by (simp add: field_end)
  have h2: "da_holds a (unat p) bs" "da_holds a (unat (p + word_of_nat (length bs))) cs" using h e by (simp_all add: da_holds_append)
  have "deser a p = Inr (x, word_of_nat (length bs))" using assms(1) h2(1) l by (simp add: reads_def)
  moreover have "k x a (p + word_of_nat (length bs)) = Inr (y, p + word_of_nat (length bs) + word_of_nat (length cs) - position)"
    using assms(2) h2(2) l e by (simp add: reads_on_def add.assoc)
  ultimately show "get_field deser k a p = Inr (y, p + word_of_nat (length (bs @ cs)) - position)"
    by (simp add: get_field_def add.assoc)
qed

lemma get_mem_as_field: "get_mem n k = get_field (\<lambda>a p. bindE (DynamicArray_serialize a p n) (\<lambda>bs. Inr (bs, n))) k"
  by (intro ext) (simp add: get_mem_def get_field_def bindE_assoc)

lemma reads_on_mem:
  assumes "n = word_of_nat (length bs)" "reads_on position (k bs) cs y"
  shows "reads_on position (get_mem n k) (bs @ cs) y"
  unfolding get_mem_as_field
  by (rule reads_on_field [where x = bs and k = k, OF _ assms(2)]) (simp add: reads_def serialize_ok assms(1))

lemma reads_whole: "(\<And>position. reads_on position (deser position) bs x) \<Longrightarrow> reads (from_position deser) bs x"
  by (simp add: reads_on_def reads_def from_position_def)

lemmas writes_steps = writes_on_end writes_on_field writes_on_mem
lemmas reads_steps = reads_on_end reads_on_field reads_on_mem

section \<open>Fields of a class\<close>

text \<open>A class with the contract \<open>wire_codec\<close> whose format is never empty.\<close>

locale message_field = wire_codec wf enc fresh ser deser
  for wf :: "'a \<Rightarrow> bool" and enc fresh ser deser +
  assumes enc_nonempty: "wf x \<Longrightarrow> enc x \<noteq> []"
begin

lemma writes_field: "wf x \<Longrightarrow> writes (ser x) (enc x)"
  by (simp add: writes_def ser_enc put_bytes_def enc_nonempty)

lemma reads_field: "wf x \<Longrightarrow> fresh y \<Longrightarrow> reads (deser y) (enc x) x"
  by (simp add: reads_def deser_enc)

end

text \<open>Conversely, a class whose methods are compositions of steps has the contract.\<close>

lemma message_field_of_steps:
  assumes "\<And>x. ok x \<Longrightarrow> writes (ser x) (enc x)" and "\<And>x y. ok x \<Longrightarrow> fresh y \<Longrightarrow> reads (deser y) (enc x) x"
    and "\<And>x. ok x \<Longrightarrow> enc x \<noteq> []"
  shows "message_field ok enc fresh ser deser"
proof unfold_locales
  show "ser x a p = Inr (da_put (unat p) (enc x) a, word_of_nat (length (enc x)))"
    if "ok x" "unat p + length (enc x) \<le> da_capacity a" "unat p + length (enc x) < 2 ^ 32" for x p a
    using assms(1,3) [OF that(1)] that(2,3) by (simp add: writes_def put_bytes_def)
  show "deser y a p = Inr (x, word_of_nat (length (enc x)))"
    if "ok x" "fresh y" "da_holds a (unat p) (enc x)" "unat p + length (enc x) < 2 ^ 32" for x y p a
    using assms(2) [OF that(1,2)] that(3,4) by (simp add: reads_def)
  show "enc x \<noteq> []" if "ok x" for x using assms(3) [OF that] .
qed

end
