(* ===== verification/Message_Header.thy ===== *)
theory Message_Header
  imports Message_Types Message_Fields
begin

text \<open>
  What every message carries before its own fields: the numbers of \<open>ExtraCommonMsghdr\<close> (\<open>message/extra_common_msghdr.c\<close>) and, in
  a response, \<open>BandwidthUsage\<close> (\<open>common/bandwidth_usage.c\<close>) and \<open>EventList\<close> (\<open>event/event.c\<close>, \<open>event/event_list.c\<close>). Event lists
  travel only when the configuration tracks events (the argument \<open>is_track_event\<close>, \<open>Config::isTrackEvent\<close>). All are instances
  of \<open>message_field\<close>, the list of events when they are tracked.
\<close>

section \<open>ExtraCommonMsghdr\<close>

record extra_common_msghdr =
  skip_propagation_latency :: bool
  is_monitored :: bool
  msg_seqnum :: u64

definition ExtraCommonMsghdr_default :: extra_common_msghdr where
  "ExtraCommonMsghdr_default = \<lparr>skip_propagation_latency = False, is_monitored = False, msg_seqnum = 0\<rparr>"

definition ExtraCommonMsghdr_getExtraCommonMsghdrPayloadSize :: "extra_common_msghdr \<Rightarrow> u32" where
  "ExtraCommonMsghdr_getExtraCommonMsghdrPayloadSize h = 1 + 1 + 8"

definition ExtraCommonMsghdr_serialize :: "extra_common_msghdr serializer" where
  "ExtraCommonMsghdr_serialize h = from_position (\<lambda>position.
     put_mem (bool_mem (skip_propagation_latency h)) (
     put_mem (bool_mem (is_monitored h)) (
     put_mem (u64_mem (msg_seqnum h)) (
     put_end position))))"

definition ExtraCommonMsghdr_deserialize :: "extra_common_msghdr deserializer" where
  "ExtraCommonMsghdr_deserialize this = from_position (\<lambda>position.
     get_mem 1 (\<lambda>skip. get_mem 1 (\<lambda>monitored. get_mem 8 (\<lambda>n.
     get_end position \<lparr>skip_propagation_latency = mem_bool skip, is_monitored = mem_bool monitored, msg_seqnum = mem_u64 n\<rparr>)))
      )"

definition ExtraCommonMsghdr_enc :: "extra_common_msghdr \<Rightarrow> u8 list" where
  "ExtraCommonMsghdr_enc h = bool_mem (skip_propagation_latency h) @ bool_mem (is_monitored h) @ u64_mem (msg_seqnum h) @ []"

lemma mem_nonempty [simp]: "bool_mem b \<noteq> []" "u32_mem w \<noteq> []" "u64_mem x \<noteq> []" "htonl_mem w \<noteq> []"
  by (simp_all flip: length_greater_0_conv)

interpretation msghdr_field: message_field "\<lambda>_. True" ExtraCommonMsghdr_enc "\<lambda>_. True" ExtraCommonMsghdr_serialize ExtraCommonMsghdr_deserialize
proof (rule message_field_of_steps)
  fix h y :: extra_common_msghdr
  show "writes (ExtraCommonMsghdr_serialize h) (ExtraCommonMsghdr_enc h)"
    unfolding ExtraCommonMsghdr_serialize_def ExtraCommonMsghdr_enc_def
    by (intro writes_whole writes_steps) simp_all
  show "reads (ExtraCommonMsghdr_deserialize y) (ExtraCommonMsghdr_enc h) h"
    unfolding ExtraCommonMsghdr_deserialize_def ExtraCommonMsghdr_enc_def
    by (intro reads_whole reads_steps) simp_all
  show "ExtraCommonMsghdr_enc h \<noteq> []" by (simp add: ExtraCommonMsghdr_enc_def)
qed

section \<open>BandwidthUsage\<close>

record bandwidth_usage =
  client_edge_bandwidth_bytes :: u64
  cross_edge_control_content_discovery_bandwidth_bytes :: u64
  cross_edge_control_directory_udpate_bandwidth_bytes :: u64
  cross_edge_control_others_bandwidth_bytes :: u64
  cross_edge_data_bandwidth_bytes :: u64
  edge_cloud_bandwidth_bytes :: u64
  victim_syncset_bandwidth_bytes :: u64
  client_edge_msgcnt :: u64
  cross_edge_control_content_discovery_msgcnt :: u64
  cross_edge_control_directory_udpate_msgcnt :: u64
  cross_edge_control_others_msgcnt :: u64
  cross_edge_data_msgcnt :: u64
  edge_cloud_msgcnt :: u64

definition BandwidthUsage_default :: bandwidth_usage where
  "BandwidthUsage_default = \<lparr>client_edge_bandwidth_bytes = 0, cross_edge_control_content_discovery_bandwidth_bytes = 0, cross_edge_control_directory_udpate_bandwidth_bytes = 0,
     cross_edge_control_others_bandwidth_bytes = 0, cross_edge_data_bandwidth_bytes = 0, edge_cloud_bandwidth_bytes = 0,
     victim_syncset_bandwidth_bytes = 0, client_edge_msgcnt = 0, cross_edge_control_content_discovery_msgcnt = 0,
     cross_edge_control_directory_udpate_msgcnt = 0, cross_edge_control_others_msgcnt = 0, cross_edge_data_msgcnt = 0,
     edge_cloud_msgcnt = 0\<rparr>"

text \<open>The constructor counts cross-edge traffic for one of four kinds, by the type of the message. Bytes and messages of a
  link are both zero or both not.\<close>

definition BandwidthUsage_new ::
    "u64 \<Rightarrow> u64 \<Rightarrow> u64 \<Rightarrow> u64 \<Rightarrow> u64 \<Rightarrow> u64 \<Rightarrow> message_type \<Rightarrow> u32 \<Rightarrow> bandwidth_usage exec" where
  "BandwidthUsage_new client_edge_bytes cross_edge_bytes edge_cloud_bytes client_edge_cnt cross_edge_cnt edge_cloud_cnt t victim_bytes =
     assertE (client_edge_bytes = 0 \<longleftrightarrow> client_edge_cnt = 0) (
     assertE (cross_edge_bytes = 0 \<longleftrightarrow> cross_edge_cnt = 0) (
     assertE (edge_cloud_bytes = 0 \<longleftrightarrow> edge_cloud_cnt = 0) (
     let u = BandwidthUsage_default\<lparr>client_edge_bandwidth_bytes := client_edge_bytes, edge_cloud_bandwidth_bytes := edge_cloud_bytes,
               victim_syncset_bandwidth_bytes := ucast victim_bytes, client_edge_msgcnt := client_edge_cnt, edge_cloud_msgcnt := edge_cloud_cnt\<rparr>
     in Inr (if MessageBase_isDataRequest t \<or> MessageBase_isDataResponse t
             then u\<lparr>cross_edge_data_bandwidth_bytes := cross_edge_bytes, cross_edge_data_msgcnt := cross_edge_cnt\<rparr>
             else if MessageBase_isDirectoryLookupMessage t
             then u\<lparr>cross_edge_control_content_discovery_bandwidth_bytes := cross_edge_bytes,
                    cross_edge_control_content_discovery_msgcnt := cross_edge_cnt\<rparr>
             else if MessageBase_isDirectoryUpdateMessage t
             then u\<lparr>cross_edge_control_directory_udpate_bandwidth_bytes := cross_edge_bytes,
                    cross_edge_control_directory_udpate_msgcnt := cross_edge_cnt\<rparr>
             else u\<lparr>cross_edge_control_others_bandwidth_bytes := cross_edge_bytes, cross_edge_control_others_msgcnt := cross_edge_cnt\<rparr>))))"

definition BandwidthUsage_update :: "bandwidth_usage \<Rightarrow> bandwidth_usage \<Rightarrow> bandwidth_usage" where
  "BandwidthUsage_update this x = \<lparr>
     client_edge_bandwidth_bytes = client_edge_bandwidth_bytes this + client_edge_bandwidth_bytes x,
     cross_edge_control_content_discovery_bandwidth_bytes = cross_edge_control_content_discovery_bandwidth_bytes this + cross_edge_control_content_discovery_bandwidth_bytes x,
     cross_edge_control_directory_udpate_bandwidth_bytes = cross_edge_control_directory_udpate_bandwidth_bytes this + cross_edge_control_directory_udpate_bandwidth_bytes x,
     cross_edge_control_others_bandwidth_bytes = cross_edge_control_others_bandwidth_bytes this + cross_edge_control_others_bandwidth_bytes x,
     cross_edge_data_bandwidth_bytes = cross_edge_data_bandwidth_bytes this + cross_edge_data_bandwidth_bytes x,
     edge_cloud_bandwidth_bytes = edge_cloud_bandwidth_bytes this + edge_cloud_bandwidth_bytes x,
     victim_syncset_bandwidth_bytes = victim_syncset_bandwidth_bytes this + victim_syncset_bandwidth_bytes x,
     client_edge_msgcnt = client_edge_msgcnt this + client_edge_msgcnt x,
     cross_edge_control_content_discovery_msgcnt = cross_edge_control_content_discovery_msgcnt this + cross_edge_control_content_discovery_msgcnt x,
     cross_edge_control_directory_udpate_msgcnt = cross_edge_control_directory_udpate_msgcnt this + cross_edge_control_directory_udpate_msgcnt x,
     cross_edge_control_others_msgcnt = cross_edge_control_others_msgcnt this + cross_edge_control_others_msgcnt x,
     cross_edge_data_msgcnt = cross_edge_data_msgcnt this + cross_edge_data_msgcnt x,
     edge_cloud_msgcnt = edge_cloud_msgcnt this + edge_cloud_msgcnt x\<rparr>"

definition BandwidthUsage_updateClientEdgeBandwidthAndMsgcnt :: "u64 \<Rightarrow> u64 \<Rightarrow> bandwidth_usage \<Rightarrow> bandwidth_usage" where
  "BandwidthUsage_updateClientEdgeBandwidthAndMsgcnt bytes n u =
     u\<lparr>client_edge_bandwidth_bytes := client_edge_bandwidth_bytes u + bytes, client_edge_msgcnt := client_edge_msgcnt u + n\<rparr>"

definition BandwidthUsage_updateCrossEdgeControlContentDiscoveryBandwidthAndMsgcnt :: "u64 \<Rightarrow> u64 \<Rightarrow> bandwidth_usage \<Rightarrow> bandwidth_usage" where
  "BandwidthUsage_updateCrossEdgeControlContentDiscoveryBandwidthAndMsgcnt bytes n u =
     u\<lparr>cross_edge_control_content_discovery_bandwidth_bytes := cross_edge_control_content_discovery_bandwidth_bytes u + bytes, cross_edge_control_content_discovery_msgcnt := cross_edge_control_content_discovery_msgcnt u + n\<rparr>"

definition BandwidthUsage_updateCrossEdgeControlDirectoryUpdateBandwidthAndMsgcnt :: "u64 \<Rightarrow> u64 \<Rightarrow> bandwidth_usage \<Rightarrow> bandwidth_usage" where
  "BandwidthUsage_updateCrossEdgeControlDirectoryUpdateBandwidthAndMsgcnt bytes n u =
     u\<lparr>cross_edge_control_directory_udpate_bandwidth_bytes := cross_edge_control_directory_udpate_bandwidth_bytes u + bytes, cross_edge_control_directory_udpate_msgcnt := cross_edge_control_directory_udpate_msgcnt u + n\<rparr>"

definition BandwidthUsage_updateCrossEdgeControlOthersBandwidthAndMsgcnt :: "u64 \<Rightarrow> u64 \<Rightarrow> bandwidth_usage \<Rightarrow> bandwidth_usage" where
  "BandwidthUsage_updateCrossEdgeControlOthersBandwidthAndMsgcnt bytes n u =
     u\<lparr>cross_edge_control_others_bandwidth_bytes := cross_edge_control_others_bandwidth_bytes u + bytes, cross_edge_control_others_msgcnt := cross_edge_control_others_msgcnt u + n\<rparr>"

definition BandwidthUsage_updateCrossEdgeDataBandwidthAndMsgcnt :: "u64 \<Rightarrow> u64 \<Rightarrow> bandwidth_usage \<Rightarrow> bandwidth_usage" where
  "BandwidthUsage_updateCrossEdgeDataBandwidthAndMsgcnt bytes n u =
     u\<lparr>cross_edge_data_bandwidth_bytes := cross_edge_data_bandwidth_bytes u + bytes, cross_edge_data_msgcnt := cross_edge_data_msgcnt u + n\<rparr>"

definition BandwidthUsage_updateEdgeCloudBandwidthAndMsgcnt :: "u64 \<Rightarrow> u64 \<Rightarrow> bandwidth_usage \<Rightarrow> bandwidth_usage" where
  "BandwidthUsage_updateEdgeCloudBandwidthAndMsgcnt bytes n u =
     u\<lparr>edge_cloud_bandwidth_bytes := edge_cloud_bandwidth_bytes u + bytes, edge_cloud_msgcnt := edge_cloud_msgcnt u + n\<rparr>"

definition BandwidthUsage_updateVictimSyncsetBandwidth :: "u32 \<Rightarrow> bandwidth_usage \<Rightarrow> bandwidth_usage" where
  "BandwidthUsage_updateVictimSyncsetBandwidth bytes u =
     u\<lparr>victim_syncset_bandwidth_bytes := victim_syncset_bandwidth_bytes u + ucast bytes\<rparr>"

definition BandwidthUsage_getCrossEdgeControlTotalBandwidthBytes :: "bandwidth_usage \<Rightarrow> u64" where
  "BandwidthUsage_getCrossEdgeControlTotalBandwidthBytes u = cross_edge_control_content_discovery_bandwidth_bytes u
     + cross_edge_control_directory_udpate_bandwidth_bytes u + cross_edge_control_others_bandwidth_bytes u"

definition BandwidthUsage_getCrossEdgeControlTotalMsgcnt :: "bandwidth_usage \<Rightarrow> u64" where
  "BandwidthUsage_getCrossEdgeControlTotalMsgcnt u = cross_edge_control_content_discovery_msgcnt u
     + cross_edge_control_directory_udpate_msgcnt u + cross_edge_control_others_msgcnt u"

definition BandwidthUsage_getBandwidthUsagePayloadSize :: u32 where
  "BandwidthUsage_getBandwidthUsagePayloadSize = (8 + 8 * 5 + 8) + (8 + 8 * 4 + 8)"

definition BandwidthUsage_serialize :: "bandwidth_usage serializer" where
  "BandwidthUsage_serialize u = from_position (\<lambda>position.
     put_mem (u64_mem (client_edge_bandwidth_bytes u)) (
     put_mem (u64_mem (cross_edge_control_content_discovery_bandwidth_bytes u)) (
     put_mem (u64_mem (cross_edge_control_directory_udpate_bandwidth_bytes u)) (
     put_mem (u64_mem (cross_edge_control_others_bandwidth_bytes u)) (
     put_mem (u64_mem (cross_edge_data_bandwidth_bytes u)) (
     put_mem (u64_mem (edge_cloud_bandwidth_bytes u)) (
     put_mem (u64_mem (victim_syncset_bandwidth_bytes u)) (
     put_mem (u64_mem (client_edge_msgcnt u)) (
     put_mem (u64_mem (cross_edge_control_content_discovery_msgcnt u)) (
     put_mem (u64_mem (cross_edge_control_directory_udpate_msgcnt u)) (
     put_mem (u64_mem (cross_edge_control_others_msgcnt u)) (
     put_mem (u64_mem (cross_edge_data_msgcnt u)) (
     put_mem (u64_mem (edge_cloud_msgcnt u)) (
     put_end position))))))))))))))"

definition BandwidthUsage_deserialize :: "bandwidth_usage deserializer" where
  "BandwidthUsage_deserialize this = from_position (\<lambda>position.
     get_mem 8 (\<lambda>x0.     get_mem 8 (\<lambda>x1.     get_mem 8 (\<lambda>x2.
     get_mem 8 (\<lambda>x3.     get_mem 8 (\<lambda>x4.     get_mem 8 (\<lambda>x5.
     get_mem 8 (\<lambda>x6.     get_mem 8 (\<lambda>x7.     get_mem 8 (\<lambda>x8.
     get_mem 8 (\<lambda>x9.     get_mem 8 (\<lambda>x10.     get_mem 8 (\<lambda>x11.
     get_mem 8 (\<lambda>x12.
     get_end position \<lparr>client_edge_bandwidth_bytes = mem_u64 x0, cross_edge_control_content_discovery_bandwidth_bytes = mem_u64 x1,
       cross_edge_control_directory_udpate_bandwidth_bytes = mem_u64 x2, cross_edge_control_others_bandwidth_bytes = mem_u64 x3,
       cross_edge_data_bandwidth_bytes = mem_u64 x4, edge_cloud_bandwidth_bytes = mem_u64 x5,
       victim_syncset_bandwidth_bytes = mem_u64 x6, client_edge_msgcnt = mem_u64 x7,
       cross_edge_control_content_discovery_msgcnt = mem_u64 x8, cross_edge_control_directory_udpate_msgcnt = mem_u64 x9,
       cross_edge_control_others_msgcnt = mem_u64 x10, cross_edge_data_msgcnt = mem_u64 x11,
       edge_cloud_msgcnt = mem_u64 x12\<rparr>))))))))))))))"

definition BandwidthUsage_enc :: "bandwidth_usage \<Rightarrow> u8 list" where
  "BandwidthUsage_enc u = u64_mem (client_edge_bandwidth_bytes u) @ u64_mem (cross_edge_control_content_discovery_bandwidth_bytes u) @ u64_mem (cross_edge_control_directory_udpate_bandwidth_bytes u) @
     u64_mem (cross_edge_control_others_bandwidth_bytes u) @ u64_mem (cross_edge_data_bandwidth_bytes u) @ u64_mem (edge_cloud_bandwidth_bytes u) @
     u64_mem (victim_syncset_bandwidth_bytes u) @ u64_mem (client_edge_msgcnt u) @ u64_mem (cross_edge_control_content_discovery_msgcnt u) @ u64_mem (cross_edge_control_directory_udpate_msgcnt u) @
     u64_mem (cross_edge_control_others_msgcnt u) @ u64_mem (cross_edge_data_msgcnt u) @ u64_mem (edge_cloud_msgcnt u) @ []"

interpretation bandwidth_field: message_field "\<lambda>_. True" BandwidthUsage_enc "\<lambda>_. True" BandwidthUsage_serialize BandwidthUsage_deserialize
proof (rule message_field_of_steps)
  fix u y :: bandwidth_usage
  show "writes (BandwidthUsage_serialize u) (BandwidthUsage_enc u)"
    unfolding BandwidthUsage_serialize_def BandwidthUsage_enc_def
    by (intro writes_whole writes_steps) simp_all
  show "reads (BandwidthUsage_deserialize y) (BandwidthUsage_enc u) u"
    unfolding BandwidthUsage_deserialize_def BandwidthUsage_enc_def
    by (intro reads_whole reads_steps) simp_all
  show "BandwidthUsage_enc u \<noteq> []" by (simp add: BandwidthUsage_enc_def)
qed

lemma bandwidth_payload: "BandwidthUsage_getBandwidthUsagePayloadSize = word_of_nat (length (BandwidthUsage_enc u))"
  by (simp add: BandwidthUsage_enc_def BandwidthUsage_getBandwidthUsagePayloadSize_def)

section \<open>Events\<close>

text \<open>Names are bytes.\<close>

definition ascii :: "string \<Rightarrow> u8 list" where
  "ascii s = map (\<lambda>c. word_of_nat (of_char c)) s"

record event =
  event_name :: "u8 list"
  event_latency_us :: u32

definition Event_default :: event where
  "Event_default = \<lparr>event_name = [], event_latency_us = 0\<rparr>"

definition Event_new :: "u8 list \<Rightarrow> u32 \<Rightarrow> event exec" where
  "Event_new name latency = assertE (name \<noteq> []) (Inr \<lparr>event_name = name, event_latency_us = latency\<rparr>)"

definition background_event_names :: "string list" where
  "background_event_names =
     [''bg::edge::cache_server_worker::target_get_local_cache'', ''bg::cloud::get_rocksdb'',
      ''bg::edge::cache_server_placement_processor::placement_notify'',
      ''bg::edge::cache_server_placement_processor::local_cache_admission'',
      ''bg::edge:cache_server::update_diretory_to_admit'', ''bg::edge::cache_server::update_directory_to_evict'',
      ''bg::edge::beacon_server::update_local_directory'', ''bg::edge::cache_server_metadata_update_processor::update'']"

definition Event_isBackgroundEvent :: "event \<Rightarrow> bool" where
  "Event_isBackgroundEvent e \<longleftrightarrow> event_name e \<in> set (map ascii background_event_names)"

definition Event_getEventPayloadSize :: "event \<Rightarrow> u32" where
  "Event_getEventPayloadSize e = 4 + word_of_nat (length (event_name e)) + 4"

definition Event_serialize :: "event serializer" where
  "Event_serialize e = from_position (\<lambda>position.
     put_mem (htonl_mem (word_of_nat (length (event_name e)))) (
     put_mem (event_name e) (
     put_mem (htonl_mem (event_latency_us e)) (
     put_end position))))"

definition read_name :: "u32 \<Rightarrow> u8 list reader" where
  "read_name n msg_payload sz =
     bindE (DynamicArray_arraycpy msg_payload sz (DynamicArray_with_capacity n) 0 n) (\<lambda>name.
     Inr (take (unat n) (da_bytes name), n))"

definition Event_deserialize :: "event deserializer" where
  "Event_deserialize this = from_position (\<lambda>position.
     get_mem 4 (\<lambda>n. get_field (read_name (mem_ntohl n)) (\<lambda>name. get_mem 4 (\<lambda>latency.
     get_end position \<lparr>event_name = name, event_latency_us = mem_ntohl latency\<rparr>))))"

type_synonym event_list = "event list"

definition EventList_addEvent :: "bool \<Rightarrow> event \<Rightarrow> event_list \<Rightarrow> event_list" where
  "EventList_addEvent is_track_event e es = (if is_track_event then es @ [e] else es)"

definition EventList_addEvent_name :: "bool \<Rightarrow> u8 list \<Rightarrow> u32 \<Rightarrow> event_list \<Rightarrow> event_list exec" where
  "EventList_addEvent_name is_track_event name latency es =
     (if is_track_event then bindE (Event_new name latency) (\<lambda>e. Inr (es @ [e])) else Inr es)"

definition EventList_addEvents :: "bool \<Rightarrow> event list \<Rightarrow> event_list \<Rightarrow> event_list" where
  "EventList_addEvents is_track_event new_events es = (if is_track_event then es @ new_events else es)"

definition EventList_getEventsRef :: "bool \<Rightarrow> event_list \<Rightarrow> event list exec" where
  "EventList_getEventsRef is_track_event es = exit_ifE (\<not> is_track_event \<and> 0 < length es) (Inr es)"

definition EventList_getEventListPayloadSize :: "bool \<Rightarrow> event_list \<Rightarrow> u32" where
  "EventList_getEventListPayloadSize is_track_event es =
     (if is_track_event then foldl (\<lambda>n e. n + Event_getEventPayloadSize e) 4 es else 0)"

definition EventList_serialize :: "bool \<Rightarrow> event_list serializer" where
  "EventList_serialize is_track_event es = from_position (\<lambda>position.
     (if is_track_event
      then put_mem (htonl_mem (word_of_nat (length es))) (\<lambda>msg_payload sz.
           bindE (ser_list Event_serialize es msg_payload sz) (\<lambda>(msg_payload, sz).
           put_end position msg_payload sz))
      else put_end position))"

definition EventList_deserialize :: "bool \<Rightarrow> event_list deserializer" where
  "EventList_deserialize is_track_event this = from_position (\<lambda>position.
     (if is_track_event
      then get_mem 4 (\<lambda>n msg_payload sz.
           bindE (deser_list Event_deserialize Event_default (unat (mem_ntohl n)) msg_payload sz) (\<lambda>(es, sz).
           get_end position es msg_payload sz))
      else get_end position this))"

definition Event_wf :: "event \<Rightarrow> bool" where
  "Event_wf e \<longleftrightarrow> event_name e \<noteq> [] \<and> length (event_name e) < 2 ^ 32"

definition Event_enc :: "event \<Rightarrow> u8 list" where
  "Event_enc e = htonl_mem (word_of_nat (length (event_name e))) @ event_name e @ htonl_mem (event_latency_us e) @ []"

lemma reads_name: "n = word_of_nat (length bs) \<Longrightarrow> length bs < 2 ^ 32 \<Longrightarrow> reads (read_name n) bs bs"
  unfolding reads_def
proof (intro allI impI)
  fix a :: dynamic_array and p :: u32
  assume n: "n = word_of_nat (length bs)" "length bs < 2 ^ 32" and h: "da_holds a (unat p) bs" "unat p + length bs < 2 ^ 32"
  have u: "unat n = length bs" using n by (simp add: unat_of_nat_small)
  have "DynamicArray_arraycpy a p (DynamicArray_with_capacity n) 0 n = Inr ((DynamicArray_with_capacity n)\<lparr>da_bytes := bs\<rparr>)"
    using h n u by (intro arraycpy_ok) (auto simp: DynamicArray_with_capacity_def DynamicArray_clear_def DynamicArray_new_def)
  then show "read_name n a p = Inr (bs, word_of_nat (length bs))" using u n by (simp add: read_name_def)
qed

interpretation event_field: message_field Event_wf Event_enc "\<lambda>_. True" Event_serialize Event_deserialize
proof (rule message_field_of_steps)
  fix e y :: event
  assume e: "Event_wf e"
  then show "writes (Event_serialize e) (Event_enc e)"
    unfolding Event_serialize_def Event_enc_def by (intro writes_whole writes_steps) (simp_all add: Event_wf_def)
  have "reads (read_name (mem_ntohl (htonl_mem (word_of_nat (length (event_name e)))))) (event_name e) (event_name e)"
    using e reads_name by (simp add: Event_wf_def)
  then show "reads (Event_deserialize y) (Event_enc e) e"
    unfolding Event_deserialize_def Event_enc_def by (intro reads_whole reads_steps) (auto intro: event.equality)
  show "Event_enc e \<noteq> []" by (simp add: Event_enc_def)
qed

definition EventList_enc :: "bool \<Rightarrow> event_list \<Rightarrow> u8 list" where
  "EventList_enc is_track_event es =
     (if is_track_event then htonl_mem (word_of_nat (length es)) @ event_field.enc_list es else [])"

definition EventList_wf :: "bool \<Rightarrow> event_list \<Rightarrow> bool" where
  "EventList_wf is_track_event es \<longleftrightarrow>
     (if is_track_event then length es < 2 ^ 32 \<and> (\<forall>e \<in> set es. Event_wf e) else es = [])"

text \<open>The loops over the events.\<close>

lemma writes_events:
  assumes "\<forall>e \<in> set es. Event_wf e"
  shows "writes_on position (\<lambda>a sz. bindE (ser_list Event_serialize es a sz) (\<lambda>(a, sz). put_end position a sz)) (event_field.enc_list es)"
  using assms
proof (induction es)
  case Nil
  then show ?case by (simp add: writes_on_def put_end_def put_bytes_def)
next
  case (Cons e es)
  have "(\<lambda>a sz. bindE (ser_list Event_serialize (e # es) a sz) (\<lambda>(a, sz). put_end position a sz))
      = put_field (Event_serialize e) (\<lambda>a sz. bindE (ser_list Event_serialize es a sz) (\<lambda>(a, sz). put_end position a sz))"
    by (intro ext) (simp add: put_field_def bindE_assoc case_prod_unfold)
  then show ?case using Cons by (simp add: writes_on_field event_field.writes_field)
qed

lemma reads_events:
  assumes "\<forall>e \<in> set es. Event_wf e"
  shows "reads_on position (\<lambda>a sz. bindE (deser_list Event_deserialize Event_default (length es) a sz) (\<lambda>(es, sz). get_end position es a sz))
    (event_field.enc_list es) es"
proof -
  have "deser_list Event_deserialize Event_default (length es) a p = Inr (es, p + word_of_nat (length (event_field.enc_list es)))"
    if "da_holds a (unat p) (event_field.enc_list es)" "unat p + length (event_field.enc_list es) < 2 ^ 32" for a p
    using event_field.deser_list_enc [OF assms _ that] by simp
  then show ?thesis by (simp add: reads_on_def get_end_def)
qed

lemma EventList_writes: "EventList_wf b es \<Longrightarrow> writes (EventList_serialize b es) (EventList_enc b es)"
  unfolding EventList_serialize_def EventList_enc_def EventList_wf_def
  by (cases b) (auto intro!: writes_whole writes_steps writes_events)

lemma EventList_reads: "EventList_wf b es \<Longrightarrow> reads (EventList_deserialize b []) (EventList_enc b es) es"
  unfolding EventList_deserialize_def EventList_enc_def EventList_wf_def
  by (cases b) (auto intro!: reads_whole reads_steps simp: reads_events unat_of_nat_small)

lemma EventList_payload: "EventList_getEventListPayloadSize b es = word_of_nat (length (EventList_enc b es))"
proof -
  have "foldl (\<lambda>n e. n + Event_getEventPayloadSize e) n es = n + word_of_nat (length (event_field.enc_list es))" for n
    by (induction es arbitrary: n) (simp_all add: Event_getEventPayloadSize_def Event_enc_def add.assoc)
  then show ?thesis by (simp add: EventList_getEventListPayloadSize_def EventList_enc_def)
qed

end
