(* ===== verification/Message_Bodies.thy ===== *)
theory Message_Bodies
  imports Message_Header Victim_Codec Edge_Set Collected_Popularity Network_Addr
begin

text \<open>
  The classes of messages between \<open>MessageBase\<close> and the concrete messages (\<open>message/*_message.c\<close>), each a list of fields with
  its payload size, \<open>serializeInternal_\<close> and \<open>deserializeInternal_\<close>. A body is a value of \<open>message_body\<close>, with one constructor
  for each class; the virtual methods are \<open>body_size\<close>, \<open>body_bandwidth\<close>, \<open>body_serialize\<close> and \<open>body_deserialize\<close>. The settings that
  fields depend on are in \<open>msg_env\<close>. Every class writes the concatenation of the formats of its fields, announces its
  length, and reads it back.
\<close>

record msg_env =
  msg_inet :: inet_env
  is_track_event :: bool
  is_random :: bool
  random_string :: "u32 \<Rightarrow> u8 list"
  is_space_efficient :: bool

section \<open>Fields of the baselines\<close>

datatype bestguess_syncinfo = BestGuessSyncinfo (vtime: u64)
datatype bestguess_placeinfo = BestGuessPlaceinfo (placement_edge_idx: u32)

definition BestGuessSyncinfo_getSyncinfoPayloadSize :: "bestguess_syncinfo \<Rightarrow> u32" where
  "BestGuessSyncinfo_getSyncinfoPayloadSize s = 8"

definition BestGuessSyncinfo_serialize :: "bestguess_syncinfo serializer" where
  "BestGuessSyncinfo_serialize s = from_position (\<lambda>position. put_mem (u64_mem (vtime s)) (put_end position))"

definition BestGuessSyncinfo_deserialize :: "bestguess_syncinfo deserializer" where
  "BestGuessSyncinfo_deserialize this = from_position (\<lambda>position. get_mem 8 (\<lambda>t. get_end position (BestGuessSyncinfo (mem_u64 t))))"

definition BestGuessPlaceinfo_getPlaceinfoPayloadSize :: "bestguess_placeinfo \<Rightarrow> u32" where
  "BestGuessPlaceinfo_getPlaceinfoPayloadSize p = 4"

definition BestGuessPlaceinfo_serialize :: "bestguess_placeinfo serializer" where
  "BestGuessPlaceinfo_serialize p = from_position (\<lambda>position. put_mem (u32_mem (placement_edge_idx p)) (put_end position))"

definition BestGuessPlaceinfo_deserialize :: "bestguess_placeinfo deserializer" where
  "BestGuessPlaceinfo_deserialize this = from_position (\<lambda>position. get_mem 4 (\<lambda>e. get_end position (BestGuessPlaceinfo (mem_u32 e))))"

definition BestGuessSyncinfo_enc :: "bestguess_syncinfo \<Rightarrow> u8 list" where
  "BestGuessSyncinfo_enc s = u64_mem (vtime s) @ []"

definition BestGuessPlaceinfo_enc :: "bestguess_placeinfo \<Rightarrow> u8 list" where
  "BestGuessPlaceinfo_enc p = u32_mem (placement_edge_idx p) @ []"

interpretation syncinfo_field: message_field "\<lambda>_. True" BestGuessSyncinfo_enc "\<lambda>_. True" BestGuessSyncinfo_serialize BestGuessSyncinfo_deserialize
  by (rule message_field_of_steps)
    (auto simp: BestGuessSyncinfo_serialize_def BestGuessSyncinfo_deserialize_def BestGuessSyncinfo_enc_def
      simp del: append_Nil2 intro!: writes_whole writes_steps reads_whole reads_steps)

interpretation placeinfo_field: message_field "\<lambda>_. True" BestGuessPlaceinfo_enc "\<lambda>_. True" BestGuessPlaceinfo_serialize BestGuessPlaceinfo_deserialize
  by (rule message_field_of_steps)
    (auto simp: BestGuessPlaceinfo_serialize_def BestGuessPlaceinfo_deserialize_def BestGuessPlaceinfo_enc_def
      simp del: append_Nil2 intro!: writes_whole writes_steps reads_whole reads_steps)

section \<open>Statistics of a run\<close>

text \<open>Doubles are their bit patterns.\<close>

record aggregated_statistics =
  agg_total_local_hitcnt :: u32
  agg_total_cooperative_hitcnt :: u32
  agg_total_reqcnt :: u32
  agg_total_local_hitbytes :: u64
  agg_total_cooperative_hitbytes :: u64
  agg_total_reqbytes :: u64
  agg_avg_latency :: u32
  agg_min_latency :: u32
  agg_medium_latency :: u32
  agg_tail90_latency :: u32
  agg_tail95_latency :: u32
  agg_tail99_latency :: u32
  agg_max_latency :: u32
  agg_total_readcnt :: u32
  agg_total_writecnt :: u32
  agg_total_cache_size_bytes :: u64
  agg_total_cache_capacity_bytes :: u64
  agg_localhit_workload_key_size :: u64
  agg_cooperativehit_workload_key_size :: u64
  agg_globalmiss_workload_key_size :: u64
  agg_total_workload_key_size :: u64
  agg_localhit_workload_value_size :: u64
  agg_cooperativehit_workload_value_size :: u64
  agg_globalmiss_workload_value_size :: u64
  agg_total_workload_value_size :: u64
  agg_bandwidth_usage :: bandwidth_usage

definition AggregatedStatistics_default :: aggregated_statistics where
  "AggregatedStatistics_default = \<lparr>agg_total_local_hitcnt = 0, agg_total_cooperative_hitcnt = 0, agg_total_reqcnt = 0, agg_total_local_hitbytes = 0,
     agg_total_cooperative_hitbytes = 0, agg_total_reqbytes = 0, agg_avg_latency = 0, agg_min_latency = 0,
     agg_medium_latency = 0, agg_tail90_latency = 0, agg_tail95_latency = 0, agg_tail99_latency = 0,
     agg_max_latency = 0, agg_total_readcnt = 0, agg_total_writecnt = 0, agg_total_cache_size_bytes = 0,
     agg_total_cache_capacity_bytes = 0, agg_localhit_workload_key_size = 0, agg_cooperativehit_workload_key_size = 0, agg_globalmiss_workload_key_size = 0,
     agg_total_workload_key_size = 0, agg_localhit_workload_value_size = 0, agg_cooperativehit_workload_value_size = 0, agg_globalmiss_workload_value_size = 0,
     agg_total_workload_value_size = 0,
     agg_bandwidth_usage = BandwidthUsage_default\<rparr>"

definition AggregatedStatistics_getAggregatedStatisticsIOSize :: u32 where
  "AggregatedStatistics_getAggregatedStatisticsIOSize =
     4 * 3 + 8 * 3 + 4 * 7 + 4 * 2 + 8 * 2 + 8 * 8 + BandwidthUsage_getBandwidthUsagePayloadSize"

definition AggregatedStatistics_serialize :: "aggregated_statistics serializer" where
  "AggregatedStatistics_serialize st = from_position (\<lambda>position.
     put_mem (u32_mem (agg_total_local_hitcnt st)) (
     put_mem (u32_mem (agg_total_cooperative_hitcnt st)) (
     put_mem (u32_mem (agg_total_reqcnt st)) (
     put_mem (u64_mem (agg_total_local_hitbytes st)) (
     put_mem (u64_mem (agg_total_cooperative_hitbytes st)) (
     put_mem (u64_mem (agg_total_reqbytes st)) (
     put_mem (u32_mem (agg_avg_latency st)) (
     put_mem (u32_mem (agg_min_latency st)) (
     put_mem (u32_mem (agg_medium_latency st)) (
     put_mem (u32_mem (agg_tail90_latency st)) (
     put_mem (u32_mem (agg_tail95_latency st)) (
     put_mem (u32_mem (agg_tail99_latency st)) (
     put_mem (u32_mem (agg_max_latency st)) (
     put_mem (u32_mem (agg_total_readcnt st)) (
     put_mem (u32_mem (agg_total_writecnt st)) (
     put_mem (u64_mem (agg_total_cache_size_bytes st)) (
     put_mem (u64_mem (agg_total_cache_capacity_bytes st)) (
     put_mem (u64_mem (agg_localhit_workload_key_size st)) (
     put_mem (u64_mem (agg_cooperativehit_workload_key_size st)) (
     put_mem (u64_mem (agg_globalmiss_workload_key_size st)) (
     put_mem (u64_mem (agg_total_workload_key_size st)) (
     put_mem (u64_mem (agg_localhit_workload_value_size st)) (
     put_mem (u64_mem (agg_cooperativehit_workload_value_size st)) (
     put_mem (u64_mem (agg_globalmiss_workload_value_size st)) (
     put_mem (u64_mem (agg_total_workload_value_size st)) (
     put_field (BandwidthUsage_serialize (agg_bandwidth_usage st)) (
     put_end position)))))))))))))))))))))))))))"

definition AggregatedStatistics_deserialize :: "aggregated_statistics deserializer" where
  "AggregatedStatistics_deserialize this = from_position (\<lambda>position.
     get_mem 4 (\<lambda>x0.     get_mem 4 (\<lambda>x1.     get_mem 4 (\<lambda>x2.     get_mem 8 (\<lambda>x3.
     get_mem 8 (\<lambda>x4.     get_mem 8 (\<lambda>x5.     get_mem 4 (\<lambda>x6.     get_mem 4 (\<lambda>x7.
     get_mem 4 (\<lambda>x8.     get_mem 4 (\<lambda>x9.     get_mem 4 (\<lambda>x10.     get_mem 4 (\<lambda>x11.
     get_mem 4 (\<lambda>x12.     get_mem 4 (\<lambda>x13.     get_mem 4 (\<lambda>x14.     get_mem 8 (\<lambda>x15.
     get_mem 8 (\<lambda>x16.     get_mem 8 (\<lambda>x17.     get_mem 8 (\<lambda>x18.     get_mem 8 (\<lambda>x19.
     get_mem 8 (\<lambda>x20.     get_mem 8 (\<lambda>x21.     get_mem 8 (\<lambda>x22.     get_mem 8 (\<lambda>x23.
     get_mem 8 (\<lambda>x24.
     get_field (BandwidthUsage_deserialize (agg_bandwidth_usage this)) (\<lambda>u.
     get_end position \<lparr>agg_total_local_hitcnt = mem_u32 x0, agg_total_cooperative_hitcnt = mem_u32 x1, agg_total_reqcnt = mem_u32 x2,
       agg_total_local_hitbytes = mem_u64 x3, agg_total_cooperative_hitbytes = mem_u64 x4, agg_total_reqbytes = mem_u64 x5,
       agg_avg_latency = mem_u32 x6, agg_min_latency = mem_u32 x7, agg_medium_latency = mem_u32 x8,
       agg_tail90_latency = mem_u32 x9, agg_tail95_latency = mem_u32 x10, agg_tail99_latency = mem_u32 x11,
       agg_max_latency = mem_u32 x12, agg_total_readcnt = mem_u32 x13, agg_total_writecnt = mem_u32 x14,
       agg_total_cache_size_bytes = mem_u64 x15, agg_total_cache_capacity_bytes = mem_u64 x16, agg_localhit_workload_key_size = mem_u64 x17,
       agg_cooperativehit_workload_key_size = mem_u64 x18, agg_globalmiss_workload_key_size = mem_u64 x19, agg_total_workload_key_size = mem_u64 x20,
       agg_localhit_workload_value_size = mem_u64 x21, agg_cooperativehit_workload_value_size = mem_u64 x22, agg_globalmiss_workload_value_size = mem_u64 x23,
       agg_total_workload_value_size = mem_u64 x24,
       agg_bandwidth_usage = u\<rparr>)))))))))))))))))))))))))))"

definition AggregatedStatistics_enc :: "aggregated_statistics \<Rightarrow> u8 list" where
  "AggregatedStatistics_enc st =
     u32_mem (agg_total_local_hitcnt st) @ u32_mem (agg_total_cooperative_hitcnt st) @ u32_mem (agg_total_reqcnt st) @ u64_mem (agg_total_local_hitbytes st) @
     u64_mem (agg_total_cooperative_hitbytes st) @ u64_mem (agg_total_reqbytes st) @ u32_mem (agg_avg_latency st) @ u32_mem (agg_min_latency st) @
     u32_mem (agg_medium_latency st) @ u32_mem (agg_tail90_latency st) @ u32_mem (agg_tail95_latency st) @ u32_mem (agg_tail99_latency st) @
     u32_mem (agg_max_latency st) @ u32_mem (agg_total_readcnt st) @ u32_mem (agg_total_writecnt st) @ u64_mem (agg_total_cache_size_bytes st) @
     u64_mem (agg_total_cache_capacity_bytes st) @ u64_mem (agg_localhit_workload_key_size st) @ u64_mem (agg_cooperativehit_workload_key_size st) @ u64_mem (agg_globalmiss_workload_key_size st) @
     u64_mem (agg_total_workload_key_size st) @ u64_mem (agg_localhit_workload_value_size st) @ u64_mem (agg_cooperativehit_workload_value_size st) @ u64_mem (agg_globalmiss_workload_value_size st) @
     u64_mem (agg_total_workload_value_size st) @
     BandwidthUsage_enc (agg_bandwidth_usage st) @ []"

interpretation statistics_field: message_field "\<lambda>_. True" AggregatedStatistics_enc "\<lambda>_. True" AggregatedStatistics_serialize AggregatedStatistics_deserialize
proof (rule message_field_of_steps)
  fix st y :: aggregated_statistics
  show "writes (AggregatedStatistics_serialize st) (AggregatedStatistics_enc st)"
    unfolding AggregatedStatistics_serialize_def AggregatedStatistics_enc_def
    by (intro writes_whole writes_steps bandwidth_field.writes_field) simp_all
  show "reads (AggregatedStatistics_deserialize y) (AggregatedStatistics_enc st) st"
    unfolding AggregatedStatistics_deserialize_def AggregatedStatistics_enc_def
    by (intro reads_whole reads_on_mem reads_on_end reads_on_field [OF bandwidth_field.reads_field]) simp_all
  show "AggregatedStatistics_enc st \<noteq> []" by (simp add: AggregatedStatistics_enc_def)
qed

section \<open>The classes\<close>

text \<open>Sums of sizes.\<close>

fun sizesE :: "u32 exec list \<Rightarrow> u32 exec" where
  "sizesE [] = Inr 0"
| "sizesE (m # ms) = bindE m (\<lambda>n. bindE (sizesE ms) (\<lambda>k. Inr (n + k)))"

datatype message_body =
    DoubleVictimsetMessage victim_syncset victim_syncset
  | KeyByteMessage key u8
  | KeyByteSyncinfoMessage key u8 bestguess_syncinfo
  | KeyByteVictimsetEdgesetMessage key u8 victim_syncset edgeset
  | KeyByteVictimsetMessage key u8 victim_syncset
  | KeyCollectpopVictimsetMessage key collected_popularity victim_syncset
  | KeyEdgesetMessage key edgeset
  | KeyHitflagUtilizationMessage key hitflag u64 u64
  | KeyMessage key
  | KeySyncinfoMessage key bestguess_syncinfo
  | KeyTwoByteVictimsetMessage key u8 u8 victim_syncset
  | KeyValidityDirectoryCollectpopVictimsetMessage key bool directory_info collected_popularity victim_syncset
  | KeyValidityDirectoryMessage key bool directory_info
  | KeyValidityDirectorySyncinfoMessage key bool directory_info bestguess_syncinfo
  | KeyValueByteSyncinfoMessage key data_value u8 bestguess_syncinfo
  | KeyValueByteVictimsetMessage key data_value u8 victim_syncset
  | KeyValueDirectoryVictimsetEdgesetMessage key data_value directory_info victim_syncset edgeset
  | KeyValueEdgesetMessage key data_value edgeset
  | KeyValueHitflagMessage key data_value hitflag
  | KeyValueHitflagUtilizationMessage key data_value hitflag u64 u64
  | KeyValueHitflagVictimsetEdgesetMessage key data_value hitflag victim_syncset edgeset
  | KeyValueMessage key data_value
  | KeyValuePlaceinfoSyncinfoMessage key data_value bestguess_placeinfo bestguess_syncinfo
  | KeyValueVictimsetEdgesetMessage key data_value victim_syncset edgeset
  | KeyVictimsetEdgesetMessage key victim_syncset edgeset
  | KeyVictimsetMessage key victim_syncset
  | KeyWriteflagValidityDirectoryMessage key bool bool directory_info
  | KeyWriteflagValidityDirectorySyncinfoMessage key bool bool directory_info bestguess_syncinfo
  | KeyWriteflagValidityDirectoryVictimsetEdgesetMessage key bool bool directory_info victim_syncset edgeset
  | KeyWriteflagValidityDirectoryVictimsetFphintMessage key bool bool directory_info victim_syncset fast_path_hint
  | KeyWriteflagValidityDirectoryVictimsetMessage key bool bool directory_info victim_syncset
  | SimpleMessage
  | SingleVictimsetMessage victim_syncset
  | UintAggstatMessage u32 aggregated_statistics
  | UintMessage u32
  | UintTwoAggstatMessage u32 aggregated_statistics aggregated_statistics
  | UintVictimsetMessage u32 victim_syncset

definition DoubleVictimsetMessage_getMsgPayloadSizeInternal :: "victim_syncset \<Rightarrow> victim_syncset \<Rightarrow> u32 exec" where
  "DoubleVictimsetMessage_getMsgPayloadSizeInternal fs vs =
     sizesE [VictimSyncset_getVictimSyncsetPayloadSize fs, VictimSyncset_getVictimSyncsetPayloadSize vs]"

definition DoubleVictimsetMessage_serializeInternal :: "victim_syncset \<Rightarrow> victim_syncset \<Rightarrow> writer" where
  "DoubleVictimsetMessage_serializeInternal fs vs = from_position (\<lambda>position.
     put_field (VictimSyncset_serialize fs) (
     put_field (VictimSyncset_serialize vs) (
     put_end position)))"

definition DoubleVictimsetMessage_deserializeInternal :: "message_body reader" where
  "DoubleVictimsetMessage_deserializeInternal = from_position (\<lambda>position.
     get_field (VictimSyncset_deserialize VictimSyncset_invalid) (\<lambda>fs.
     get_field (VictimSyncset_deserialize VictimSyncset_invalid) (\<lambda>vs.
     get_end position (DoubleVictimsetMessage fs vs))))"

definition KeyByteMessage_getMsgPayloadSizeInternal :: "key \<Rightarrow> u8 \<Rightarrow> u32 exec" where
  "KeyByteMessage_getMsgPayloadSizeInternal k b =
     sizesE [Inr (Key_getKeyPayloadSize k), Inr 1]"

definition KeyByteMessage_serializeInternal :: "key \<Rightarrow> u8 \<Rightarrow> writer" where
  "KeyByteMessage_serializeInternal k b = from_position (\<lambda>position.
     put_field (Key_serialize k) (
     put_mem [b] (
     put_end position)))"

definition KeyByteMessage_deserializeInternal :: "message_body reader" where
  "KeyByteMessage_deserializeInternal = from_position (\<lambda>position.
     get_field (Key_deserialize (Key [])) (\<lambda>k.
     get_mem 1 (\<lambda>b.
     get_end position (KeyByteMessage k (hd b)))))"

definition KeyByteSyncinfoMessage_getMsgPayloadSizeInternal :: "key \<Rightarrow> u8 \<Rightarrow> bestguess_syncinfo \<Rightarrow> u32 exec" where
  "KeyByteSyncinfoMessage_getMsgPayloadSizeInternal k b si =
     sizesE [Inr (Key_getKeyPayloadSize k), Inr 1, Inr (BestGuessSyncinfo_getSyncinfoPayloadSize si)]"

definition KeyByteSyncinfoMessage_serializeInternal :: "key \<Rightarrow> u8 \<Rightarrow> bestguess_syncinfo \<Rightarrow> writer" where
  "KeyByteSyncinfoMessage_serializeInternal k b si = from_position (\<lambda>position.
     put_field (Key_serialize k) (
     put_mem [b] (
     put_field (BestGuessSyncinfo_serialize si) (
     put_end position))))"

definition KeyByteSyncinfoMessage_deserializeInternal :: "message_body reader" where
  "KeyByteSyncinfoMessage_deserializeInternal = from_position (\<lambda>position.
     get_field (Key_deserialize (Key [])) (\<lambda>k.
     get_mem 1 (\<lambda>b.
     get_field (BestGuessSyncinfo_deserialize (BestGuessSyncinfo 0)) (\<lambda>si.
     get_end position (KeyByteSyncinfoMessage k (hd b) si)))))"

definition KeyByteVictimsetEdgesetMessage_getMsgPayloadSizeInternal :: "key \<Rightarrow> u8 \<Rightarrow> victim_syncset \<Rightarrow> edgeset \<Rightarrow> u32 exec" where
  "KeyByteVictimsetEdgesetMessage_getMsgPayloadSizeInternal k b vs es =
     sizesE [Inr (Key_getKeyPayloadSize k), Inr 1, VictimSyncset_getVictimSyncsetPayloadSize vs, Inr (Edgeset_getEdgesetPayloadSize es)]"

definition KeyByteVictimsetEdgesetMessage_serializeInternal :: "key \<Rightarrow> u8 \<Rightarrow> victim_syncset \<Rightarrow> edgeset \<Rightarrow> writer" where
  "KeyByteVictimsetEdgesetMessage_serializeInternal k b vs es = from_position (\<lambda>position.
     put_field (Key_serialize k) (
     put_mem [b] (
     put_field (VictimSyncset_serialize vs) (
     put_field (Edgeset_serialize es) (
     put_end position)))))"

definition KeyByteVictimsetEdgesetMessage_deserializeInternal :: "message_body reader" where
  "KeyByteVictimsetEdgesetMessage_deserializeInternal = from_position (\<lambda>position.
     get_field (Key_deserialize (Key [])) (\<lambda>k.
     get_mem 1 (\<lambda>b.
     get_field (VictimSyncset_deserialize VictimSyncset_invalid) (\<lambda>vs.
     get_field (Edgeset_deserialize []) (\<lambda>es.
     get_end position (KeyByteVictimsetEdgesetMessage k (hd b) vs es))))))"

definition KeyByteVictimsetMessage_getMsgPayloadSizeInternal :: "key \<Rightarrow> u8 \<Rightarrow> victim_syncset \<Rightarrow> u32 exec" where
  "KeyByteVictimsetMessage_getMsgPayloadSizeInternal k b vs =
     sizesE [Inr (Key_getKeyPayloadSize k), Inr 1, VictimSyncset_getVictimSyncsetPayloadSize vs]"

definition KeyByteVictimsetMessage_serializeInternal :: "key \<Rightarrow> u8 \<Rightarrow> victim_syncset \<Rightarrow> writer" where
  "KeyByteVictimsetMessage_serializeInternal k b vs = from_position (\<lambda>position.
     put_field (Key_serialize k) (
     put_mem [b] (
     put_field (VictimSyncset_serialize vs) (
     put_end position))))"

definition KeyByteVictimsetMessage_deserializeInternal :: "message_body reader" where
  "KeyByteVictimsetMessage_deserializeInternal = from_position (\<lambda>position.
     get_field (Key_deserialize (Key [])) (\<lambda>k.
     get_mem 1 (\<lambda>b.
     get_field (VictimSyncset_deserialize VictimSyncset_invalid) (\<lambda>vs.
     get_end position (KeyByteVictimsetMessage k (hd b) vs)))))"

definition KeyCollectpopVictimsetMessage_getMsgPayloadSizeInternal :: "key \<Rightarrow> collected_popularity \<Rightarrow> victim_syncset \<Rightarrow> u32 exec" where
  "KeyCollectpopVictimsetMessage_getMsgPayloadSizeInternal k cp vs =
     sizesE [Inr (Key_getKeyPayloadSize k), Inr (CollectedPopularity_getCollectedPopularityPayloadSize cp), VictimSyncset_getVictimSyncsetPayloadSize vs]"

definition KeyCollectpopVictimsetMessage_serializeInternal :: "key \<Rightarrow> collected_popularity \<Rightarrow> victim_syncset \<Rightarrow> writer" where
  "KeyCollectpopVictimsetMessage_serializeInternal k cp vs = from_position (\<lambda>position.
     put_field (Key_serialize k) (
     put_field (CollectedPopularity_serialize cp) (
     put_field (VictimSyncset_serialize vs) (
     put_end position))))"

definition KeyCollectpopVictimsetMessage_deserializeInternal :: "message_body reader" where
  "KeyCollectpopVictimsetMessage_deserializeInternal = from_position (\<lambda>position.
     get_field (Key_deserialize (Key [])) (\<lambda>k.
     get_field (CollectedPopularity_deserialize CollectedPopularity_new) (\<lambda>cp.
     get_field (VictimSyncset_deserialize VictimSyncset_invalid) (\<lambda>vs.
     get_end position (KeyCollectpopVictimsetMessage k cp vs)))))"

definition KeyEdgesetMessage_getMsgPayloadSizeInternal :: "key \<Rightarrow> edgeset \<Rightarrow> u32 exec" where
  "KeyEdgesetMessage_getMsgPayloadSizeInternal k es =
     sizesE [Inr (Key_getKeyPayloadSize k), Inr (Edgeset_getEdgesetPayloadSize es)]"

definition KeyEdgesetMessage_serializeInternal :: "key \<Rightarrow> edgeset \<Rightarrow> writer" where
  "KeyEdgesetMessage_serializeInternal k es = from_position (\<lambda>position.
     put_field (Key_serialize k) (
     put_field (Edgeset_serialize es) (
     put_end position)))"

definition KeyEdgesetMessage_deserializeInternal :: "message_body reader" where
  "KeyEdgesetMessage_deserializeInternal = from_position (\<lambda>position.
     get_field (Key_deserialize (Key [])) (\<lambda>k.
     get_field (Edgeset_deserialize []) (\<lambda>es.
     get_end position (KeyEdgesetMessage k es))))"

definition KeyHitflagUtilizationMessage_getMsgPayloadSizeInternal :: "key \<Rightarrow> hitflag \<Rightarrow> u64 \<Rightarrow> u64 \<Rightarrow> u32 exec" where
  "KeyHitflagUtilizationMessage_getMsgPayloadSizeInternal k h n c =
     sizesE [Inr (Key_getKeyPayloadSize k), Inr 1, Inr 8, Inr 8]"

definition KeyHitflagUtilizationMessage_serializeInternal :: "key \<Rightarrow> hitflag \<Rightarrow> u64 \<Rightarrow> u64 \<Rightarrow> writer" where
  "KeyHitflagUtilizationMessage_serializeInternal k h n c = from_position (\<lambda>position.
     put_field (Key_serialize k) (
     put_mem [h] (
     put_mem (u64_mem n) (
     put_mem (u64_mem c) (
     put_end position)))))"

definition KeyHitflagUtilizationMessage_deserializeInternal :: "message_body reader" where
  "KeyHitflagUtilizationMessage_deserializeInternal = from_position (\<lambda>position.
     get_field (Key_deserialize (Key [])) (\<lambda>k.
     get_mem 1 (\<lambda>h.
     get_mem 8 (\<lambda>n.
     get_mem 8 (\<lambda>c.
     get_end position (KeyHitflagUtilizationMessage k (hd h) (mem_u64 n) (mem_u64 c)))))))"

definition KeyMessage_getMsgPayloadSizeInternal :: "key \<Rightarrow> u32 exec" where
  "KeyMessage_getMsgPayloadSizeInternal k =
     sizesE [Inr (Key_getKeyPayloadSize k)]"

definition KeyMessage_serializeInternal :: "key \<Rightarrow> writer" where
  "KeyMessage_serializeInternal k = from_position (\<lambda>position.
     put_field (Key_serialize k) (
     put_end position))"

definition KeyMessage_deserializeInternal :: "message_body reader" where
  "KeyMessage_deserializeInternal = from_position (\<lambda>position.
     get_field (Key_deserialize (Key [])) (\<lambda>k.
     get_end position (KeyMessage k)))"

definition KeySyncinfoMessage_getMsgPayloadSizeInternal :: "key \<Rightarrow> bestguess_syncinfo \<Rightarrow> u32 exec" where
  "KeySyncinfoMessage_getMsgPayloadSizeInternal k si =
     sizesE [Inr (Key_getKeyPayloadSize k), Inr (BestGuessSyncinfo_getSyncinfoPayloadSize si)]"

definition KeySyncinfoMessage_serializeInternal :: "key \<Rightarrow> bestguess_syncinfo \<Rightarrow> writer" where
  "KeySyncinfoMessage_serializeInternal k si = from_position (\<lambda>position.
     put_field (Key_serialize k) (
     put_field (BestGuessSyncinfo_serialize si) (
     put_end position)))"

definition KeySyncinfoMessage_deserializeInternal :: "message_body reader" where
  "KeySyncinfoMessage_deserializeInternal = from_position (\<lambda>position.
     get_field (Key_deserialize (Key [])) (\<lambda>k.
     get_field (BestGuessSyncinfo_deserialize (BestGuessSyncinfo 0)) (\<lambda>si.
     get_end position (KeySyncinfoMessage k si))))"

definition KeyTwoByteVictimsetMessage_getMsgPayloadSizeInternal :: "key \<Rightarrow> u8 \<Rightarrow> u8 \<Rightarrow> victim_syncset \<Rightarrow> u32 exec" where
  "KeyTwoByteVictimsetMessage_getMsgPayloadSizeInternal k b1 b2 vs =
     sizesE [Inr (Key_getKeyPayloadSize k), Inr 1, Inr 1, VictimSyncset_getVictimSyncsetPayloadSize vs]"

definition KeyTwoByteVictimsetMessage_serializeInternal :: "key \<Rightarrow> u8 \<Rightarrow> u8 \<Rightarrow> victim_syncset \<Rightarrow> writer" where
  "KeyTwoByteVictimsetMessage_serializeInternal k b1 b2 vs = from_position (\<lambda>position.
     put_field (Key_serialize k) (
     put_mem [b1] (
     put_mem [b2] (
     put_field (VictimSyncset_serialize vs) (
     put_end position)))))"

definition KeyTwoByteVictimsetMessage_deserializeInternal :: "message_body reader" where
  "KeyTwoByteVictimsetMessage_deserializeInternal = from_position (\<lambda>position.
     get_field (Key_deserialize (Key [])) (\<lambda>k.
     get_mem 1 (\<lambda>b1.
     get_mem 1 (\<lambda>b2.
     get_field (VictimSyncset_deserialize VictimSyncset_invalid) (\<lambda>vs.
     get_end position (KeyTwoByteVictimsetMessage k (hd b1) (hd b2) vs))))))"

definition KeyValidityDirectoryCollectpopVictimsetMessage_getMsgPayloadSizeInternal :: "key \<Rightarrow> bool \<Rightarrow> directory_info \<Rightarrow> collected_popularity \<Rightarrow> victim_syncset \<Rightarrow> u32 exec" where
  "KeyValidityDirectoryCollectpopVictimsetMessage_getMsgPayloadSizeInternal k e d cp vs =
     (if e then sizesE [Inr (Key_getKeyPayloadSize k), Inr 1, Inr (DirectoryInfo_getDirectoryInfoPayloadSize d), VictimSyncset_getVictimSyncsetPayloadSize vs]
      else sizesE [Inr (Key_getKeyPayloadSize k), Inr 1, Inr (DirectoryInfo_getDirectoryInfoPayloadSize d), Inr (CollectedPopularity_getCollectedPopularityPayloadSize cp), VictimSyncset_getVictimSyncsetPayloadSize vs])"

definition KeyValidityDirectoryCollectpopVictimsetMessage_serializeInternal :: "key \<Rightarrow> bool \<Rightarrow> directory_info \<Rightarrow> collected_popularity \<Rightarrow> victim_syncset \<Rightarrow> writer" where
  "KeyValidityDirectoryCollectpopVictimsetMessage_serializeInternal k e d cp vs = from_position (\<lambda>position.
     put_field (Key_serialize k) (
     put_mem (bool_mem e) (
     put_field (DirectoryInfo_serialize d) (
     (if e then (\<lambda>k. k) else put_field (CollectedPopularity_serialize cp)) (
     put_field (VictimSyncset_serialize vs) (
     put_end position))))))"

definition KeyValidityDirectoryCollectpopVictimsetMessage_deserializeInternal :: "message_body reader" where
  "KeyValidityDirectoryCollectpopVictimsetMessage_deserializeInternal = from_position (\<lambda>position.
     get_field (Key_deserialize (Key [])) (\<lambda>k. 
     get_mem 1 (\<lambda>e. get_field (DirectoryInfo_deserialize DirectoryInfo_default) (\<lambda>d. 
     (if mem_bool e then (\<lambda>k. k CollectedPopularity_new) else get_field (CollectedPopularity_deserialize CollectedPopularity_new)) (\<lambda>cp.
     get_field (VictimSyncset_deserialize VictimSyncset_invalid) (\<lambda>vs. 
     get_end position (KeyValidityDirectoryCollectpopVictimsetMessage k (mem_bool e) d cp vs)))))))"

definition KeyValidityDirectoryMessage_getMsgPayloadSizeInternal :: "key \<Rightarrow> bool \<Rightarrow> directory_info \<Rightarrow> u32 exec" where
  "KeyValidityDirectoryMessage_getMsgPayloadSizeInternal k e d =
     sizesE [Inr (Key_getKeyPayloadSize k), Inr 1, Inr (DirectoryInfo_getDirectoryInfoPayloadSize d)]"

definition KeyValidityDirectoryMessage_serializeInternal :: "key \<Rightarrow> bool \<Rightarrow> directory_info \<Rightarrow> writer" where
  "KeyValidityDirectoryMessage_serializeInternal k e d = from_position (\<lambda>position.
     put_field (Key_serialize k) (
     put_mem (bool_mem e) (
     put_field (DirectoryInfo_serialize d) (
     put_end position))))"

definition KeyValidityDirectoryMessage_deserializeInternal :: "message_body reader" where
  "KeyValidityDirectoryMessage_deserializeInternal = from_position (\<lambda>position.
     get_field (Key_deserialize (Key [])) (\<lambda>k.
     get_mem 1 (\<lambda>e.
     get_field (DirectoryInfo_deserialize DirectoryInfo_default) (\<lambda>d.
     get_end position (KeyValidityDirectoryMessage k (mem_bool e) d)))))"

definition KeyValidityDirectorySyncinfoMessage_getMsgPayloadSizeInternal :: "key \<Rightarrow> bool \<Rightarrow> directory_info \<Rightarrow> bestguess_syncinfo \<Rightarrow> u32 exec" where
  "KeyValidityDirectorySyncinfoMessage_getMsgPayloadSizeInternal k e d si =
     sizesE [Inr (Key_getKeyPayloadSize k), Inr 1, Inr (DirectoryInfo_getDirectoryInfoPayloadSize d), Inr (BestGuessSyncinfo_getSyncinfoPayloadSize si)]"

definition KeyValidityDirectorySyncinfoMessage_serializeInternal :: "key \<Rightarrow> bool \<Rightarrow> directory_info \<Rightarrow> bestguess_syncinfo \<Rightarrow> writer" where
  "KeyValidityDirectorySyncinfoMessage_serializeInternal k e d si = from_position (\<lambda>position.
     put_field (Key_serialize k) (
     put_mem (bool_mem e) (
     put_field (DirectoryInfo_serialize d) (
     put_field (BestGuessSyncinfo_serialize si) (
     put_end position)))))"

definition KeyValidityDirectorySyncinfoMessage_deserializeInternal :: "message_body reader" where
  "KeyValidityDirectorySyncinfoMessage_deserializeInternal = from_position (\<lambda>position.
     get_field (Key_deserialize (Key [])) (\<lambda>k.
     get_mem 1 (\<lambda>e.
     get_field (DirectoryInfo_deserialize DirectoryInfo_default) (\<lambda>d.
     get_field (BestGuessSyncinfo_deserialize (BestGuessSyncinfo 0)) (\<lambda>si.
     get_end position (KeyValidityDirectorySyncinfoMessage k (mem_bool e) d si))))))"

definition KeyValueByteSyncinfoMessage_getMsgPayloadSizeInternal :: "msg_env \<Rightarrow> key \<Rightarrow> data_value \<Rightarrow> u8 \<Rightarrow> bestguess_syncinfo \<Rightarrow> u32 exec" where
  "KeyValueByteSyncinfoMessage_getMsgPayloadSizeInternal env k v b si =
     sizesE [Inr (Key_getKeyPayloadSize k), Inr (Value_getValuePayloadSize (is_space_efficient env) v), Inr 1, Inr (BestGuessSyncinfo_getSyncinfoPayloadSize si)]"

definition KeyValueByteSyncinfoMessage_getMsgBandwidthSizeInternal :: "key \<Rightarrow> data_value \<Rightarrow> u8 \<Rightarrow> bestguess_syncinfo \<Rightarrow> u32 exec" where
  "KeyValueByteSyncinfoMessage_getMsgBandwidthSizeInternal k v b si =
     sizesE [Inr (Key_getKeyPayloadSize k), Inr (valuesize v), Inr 1, Inr (BestGuessSyncinfo_getSyncinfoPayloadSize si)]"

definition KeyValueByteSyncinfoMessage_serializeInternal :: "msg_env \<Rightarrow> key \<Rightarrow> data_value \<Rightarrow> u8 \<Rightarrow> bestguess_syncinfo \<Rightarrow> writer" where
  "KeyValueByteSyncinfoMessage_serializeInternal env k v b si = from_position (\<lambda>position.
     put_field (Key_serialize k) (
     put_field (Value_serialize (is_random env) (random_string env) (is_space_efficient env) v) (
     put_mem [b] (
     put_field (BestGuessSyncinfo_serialize si) (
     put_end position)))))"

definition KeyValueByteSyncinfoMessage_deserializeInternal :: "msg_env \<Rightarrow> message_body reader" where
  "KeyValueByteSyncinfoMessage_deserializeInternal env = from_position (\<lambda>position.
     get_field (Key_deserialize (Key [])) (\<lambda>k.
     get_field (Value_deserialize (is_space_efficient env) Value_deleted) (\<lambda>v.
     get_mem 1 (\<lambda>b.
     get_field (BestGuessSyncinfo_deserialize (BestGuessSyncinfo 0)) (\<lambda>si.
     get_end position (KeyValueByteSyncinfoMessage k v (hd b) si))))))"

definition KeyValueByteVictimsetMessage_getMsgPayloadSizeInternal :: "msg_env \<Rightarrow> key \<Rightarrow> data_value \<Rightarrow> u8 \<Rightarrow> victim_syncset \<Rightarrow> u32 exec" where
  "KeyValueByteVictimsetMessage_getMsgPayloadSizeInternal env k v b vs =
     sizesE [Inr (Key_getKeyPayloadSize k), Inr (Value_getValuePayloadSize (is_space_efficient env) v), Inr 1, VictimSyncset_getVictimSyncsetPayloadSize vs]"

definition KeyValueByteVictimsetMessage_getMsgBandwidthSizeInternal :: "key \<Rightarrow> data_value \<Rightarrow> u8 \<Rightarrow> victim_syncset \<Rightarrow> u32 exec" where
  "KeyValueByteVictimsetMessage_getMsgBandwidthSizeInternal k v b vs =
     sizesE [Inr (Key_getKeyPayloadSize k), Inr (valuesize v), Inr 1, VictimSyncset_getVictimSyncsetPayloadSize vs]"

definition KeyValueByteVictimsetMessage_serializeInternal :: "msg_env \<Rightarrow> key \<Rightarrow> data_value \<Rightarrow> u8 \<Rightarrow> victim_syncset \<Rightarrow> writer" where
  "KeyValueByteVictimsetMessage_serializeInternal env k v b vs = from_position (\<lambda>position.
     put_field (Key_serialize k) (
     put_field (Value_serialize (is_random env) (random_string env) (is_space_efficient env) v) (
     put_mem [b] (
     put_field (VictimSyncset_serialize vs) (
     put_end position)))))"

definition KeyValueByteVictimsetMessage_deserializeInternal :: "msg_env \<Rightarrow> message_body reader" where
  "KeyValueByteVictimsetMessage_deserializeInternal env = from_position (\<lambda>position.
     get_field (Key_deserialize (Key [])) (\<lambda>k.
     get_field (Value_deserialize (is_space_efficient env) Value_deleted) (\<lambda>v.
     get_mem 1 (\<lambda>b.
     get_field (VictimSyncset_deserialize VictimSyncset_invalid) (\<lambda>vs.
     get_end position (KeyValueByteVictimsetMessage k v (hd b) vs))))))"

definition KeyValueDirectoryVictimsetEdgesetMessage_getMsgPayloadSizeInternal :: "msg_env \<Rightarrow> key \<Rightarrow> data_value \<Rightarrow> directory_info \<Rightarrow> victim_syncset \<Rightarrow> edgeset \<Rightarrow> u32 exec" where
  "KeyValueDirectoryVictimsetEdgesetMessage_getMsgPayloadSizeInternal env k v d vs es =
     sizesE [Inr (Key_getKeyPayloadSize k), Inr (Value_getValuePayloadSize (is_space_efficient env) v), Inr (DirectoryInfo_getDirectoryInfoPayloadSize d), VictimSyncset_getVictimSyncsetPayloadSize vs, Inr (Edgeset_getEdgesetPayloadSize es)]"

definition KeyValueDirectoryVictimsetEdgesetMessage_getMsgBandwidthSizeInternal :: "key \<Rightarrow> data_value \<Rightarrow> directory_info \<Rightarrow> victim_syncset \<Rightarrow> edgeset \<Rightarrow> u32 exec" where
  "KeyValueDirectoryVictimsetEdgesetMessage_getMsgBandwidthSizeInternal k v d vs es =
     sizesE [Inr (Key_getKeyPayloadSize k), Inr (valuesize v), Inr (DirectoryInfo_getDirectoryInfoPayloadSize d), VictimSyncset_getVictimSyncsetPayloadSize vs, Inr (Edgeset_getEdgesetPayloadSize es)]"

definition KeyValueDirectoryVictimsetEdgesetMessage_serializeInternal :: "msg_env \<Rightarrow> key \<Rightarrow> data_value \<Rightarrow> directory_info \<Rightarrow> victim_syncset \<Rightarrow> edgeset \<Rightarrow> writer" where
  "KeyValueDirectoryVictimsetEdgesetMessage_serializeInternal env k v d vs es = from_position (\<lambda>position.
     put_field (Key_serialize k) (
     put_field (Value_serialize (is_random env) (random_string env) (is_space_efficient env) v) (
     put_field (DirectoryInfo_serialize d) (
     put_field (VictimSyncset_serialize vs) (
     put_field (Edgeset_serialize es) (
     put_end position))))))"

definition KeyValueDirectoryVictimsetEdgesetMessage_deserializeInternal :: "msg_env \<Rightarrow> message_body reader" where
  "KeyValueDirectoryVictimsetEdgesetMessage_deserializeInternal env = from_position (\<lambda>position.
     get_field (Key_deserialize (Key [])) (\<lambda>k.
     get_field (Value_deserialize (is_space_efficient env) Value_deleted) (\<lambda>v.
     get_field (DirectoryInfo_deserialize DirectoryInfo_default) (\<lambda>d.
     get_field (VictimSyncset_deserialize VictimSyncset_invalid) (\<lambda>vs.
     get_field (Edgeset_deserialize []) (\<lambda>es.
     get_end position (KeyValueDirectoryVictimsetEdgesetMessage k v d vs es)))))))"

definition KeyValueEdgesetMessage_getMsgPayloadSizeInternal :: "msg_env \<Rightarrow> key \<Rightarrow> data_value \<Rightarrow> edgeset \<Rightarrow> u32 exec" where
  "KeyValueEdgesetMessage_getMsgPayloadSizeInternal env k v es =
     sizesE [Inr (Key_getKeyPayloadSize k), Inr (Value_getValuePayloadSize (is_space_efficient env) v), Inr (Edgeset_getEdgesetPayloadSize es)]"

definition KeyValueEdgesetMessage_getMsgBandwidthSizeInternal :: "key \<Rightarrow> data_value \<Rightarrow> edgeset \<Rightarrow> u32 exec" where
  "KeyValueEdgesetMessage_getMsgBandwidthSizeInternal k v es =
     sizesE [Inr (Key_getKeyPayloadSize k), Inr (valuesize v), Inr (Edgeset_getEdgesetPayloadSize es)]"

definition KeyValueEdgesetMessage_serializeInternal :: "msg_env \<Rightarrow> key \<Rightarrow> data_value \<Rightarrow> edgeset \<Rightarrow> writer" where
  "KeyValueEdgesetMessage_serializeInternal env k v es = from_position (\<lambda>position.
     put_field (Key_serialize k) (
     put_field (Value_serialize (is_random env) (random_string env) (is_space_efficient env) v) (
     put_field (Edgeset_serialize es) (
     put_end position))))"

definition KeyValueEdgesetMessage_deserializeInternal :: "msg_env \<Rightarrow> message_body reader" where
  "KeyValueEdgesetMessage_deserializeInternal env = from_position (\<lambda>position.
     get_field (Key_deserialize (Key [])) (\<lambda>k.
     get_field (Value_deserialize (is_space_efficient env) Value_deleted) (\<lambda>v.
     get_field (Edgeset_deserialize []) (\<lambda>es.
     get_end position (KeyValueEdgesetMessage k v es)))))"

definition KeyValueHitflagMessage_getMsgPayloadSizeInternal :: "msg_env \<Rightarrow> key \<Rightarrow> data_value \<Rightarrow> hitflag \<Rightarrow> u32 exec" where
  "KeyValueHitflagMessage_getMsgPayloadSizeInternal env k v h =
     sizesE [Inr (Key_getKeyPayloadSize k), Inr (Value_getValuePayloadSize (is_space_efficient env) v), Inr 1]"

definition KeyValueHitflagMessage_getMsgBandwidthSizeInternal :: "key \<Rightarrow> data_value \<Rightarrow> hitflag \<Rightarrow> u32 exec" where
  "KeyValueHitflagMessage_getMsgBandwidthSizeInternal k v h =
     sizesE [Inr (Key_getKeyPayloadSize k), Inr (valuesize v), Inr 1]"

definition KeyValueHitflagMessage_serializeInternal :: "msg_env \<Rightarrow> key \<Rightarrow> data_value \<Rightarrow> hitflag \<Rightarrow> writer" where
  "KeyValueHitflagMessage_serializeInternal env k v h = from_position (\<lambda>position.
     put_field (Key_serialize k) (
     put_field (Value_serialize (is_random env) (random_string env) (is_space_efficient env) v) (
     put_mem [h] (
     put_end position))))"

definition KeyValueHitflagMessage_deserializeInternal :: "msg_env \<Rightarrow> message_body reader" where
  "KeyValueHitflagMessage_deserializeInternal env = from_position (\<lambda>position.
     get_field (Key_deserialize (Key [])) (\<lambda>k.
     get_field (Value_deserialize (is_space_efficient env) Value_deleted) (\<lambda>v.
     get_mem 1 (\<lambda>h.
     get_end position (KeyValueHitflagMessage k v (hd h))))))"

definition KeyValueHitflagUtilizationMessage_getMsgPayloadSizeInternal :: "msg_env \<Rightarrow> key \<Rightarrow> data_value \<Rightarrow> hitflag \<Rightarrow> u64 \<Rightarrow> u64 \<Rightarrow> u32 exec" where
  "KeyValueHitflagUtilizationMessage_getMsgPayloadSizeInternal env k v h n c =
     sizesE [Inr (Key_getKeyPayloadSize k), Inr (Value_getValuePayloadSize (is_space_efficient env) v), Inr 1, Inr 8, Inr 8]"

definition KeyValueHitflagUtilizationMessage_getMsgBandwidthSizeInternal :: "key \<Rightarrow> data_value \<Rightarrow> hitflag \<Rightarrow> u64 \<Rightarrow> u64 \<Rightarrow> u32 exec" where
  "KeyValueHitflagUtilizationMessage_getMsgBandwidthSizeInternal k v h n c =
     sizesE [Inr (Key_getKeyPayloadSize k), Inr (valuesize v), Inr 1, Inr 8, Inr 8]"

definition KeyValueHitflagUtilizationMessage_serializeInternal :: "msg_env \<Rightarrow> key \<Rightarrow> data_value \<Rightarrow> hitflag \<Rightarrow> u64 \<Rightarrow> u64 \<Rightarrow> writer" where
  "KeyValueHitflagUtilizationMessage_serializeInternal env k v h n c = from_position (\<lambda>position.
     put_field (Key_serialize k) (
     put_field (Value_serialize (is_random env) (random_string env) (is_space_efficient env) v) (
     put_mem [h] (
     put_mem (u64_mem n) (
     put_mem (u64_mem c) (
     put_end position))))))"

definition KeyValueHitflagUtilizationMessage_deserializeInternal :: "msg_env \<Rightarrow> message_body reader" where
  "KeyValueHitflagUtilizationMessage_deserializeInternal env = from_position (\<lambda>position.
     get_field (Key_deserialize (Key [])) (\<lambda>k.
     get_field (Value_deserialize (is_space_efficient env) Value_deleted) (\<lambda>v.
     get_mem 1 (\<lambda>h.
     get_mem 8 (\<lambda>n.
     get_mem 8 (\<lambda>c.
     get_end position (KeyValueHitflagUtilizationMessage k v (hd h) (mem_u64 n) (mem_u64 c))))))))"

definition KeyValueHitflagVictimsetEdgesetMessage_getMsgPayloadSizeInternal :: "msg_env \<Rightarrow> key \<Rightarrow> data_value \<Rightarrow> hitflag \<Rightarrow> victim_syncset \<Rightarrow> edgeset \<Rightarrow> u32 exec" where
  "KeyValueHitflagVictimsetEdgesetMessage_getMsgPayloadSizeInternal env k v h vs es =
     sizesE [Inr (Key_getKeyPayloadSize k), Inr (Value_getValuePayloadSize (is_space_efficient env) v), Inr 1, VictimSyncset_getVictimSyncsetPayloadSize vs, Inr (Edgeset_getEdgesetPayloadSize es)]"

definition KeyValueHitflagVictimsetEdgesetMessage_getMsgBandwidthSizeInternal :: "key \<Rightarrow> data_value \<Rightarrow> hitflag \<Rightarrow> victim_syncset \<Rightarrow> edgeset \<Rightarrow> u32 exec" where
  "KeyValueHitflagVictimsetEdgesetMessage_getMsgBandwidthSizeInternal k v h vs es =
     sizesE [Inr (Key_getKeyPayloadSize k), Inr (valuesize v), Inr 1, VictimSyncset_getVictimSyncsetPayloadSize vs, Inr (Edgeset_getEdgesetPayloadSize es)]"

definition KeyValueHitflagVictimsetEdgesetMessage_serializeInternal :: "msg_env \<Rightarrow> key \<Rightarrow> data_value \<Rightarrow> hitflag \<Rightarrow> victim_syncset \<Rightarrow> edgeset \<Rightarrow> writer" where
  "KeyValueHitflagVictimsetEdgesetMessage_serializeInternal env k v h vs es = from_position (\<lambda>position.
     put_field (Key_serialize k) (
     put_field (Value_serialize (is_random env) (random_string env) (is_space_efficient env) v) (
     put_mem [h] (
     put_field (VictimSyncset_serialize vs) (
     put_field (Edgeset_serialize es) (
     put_end position))))))"

definition KeyValueHitflagVictimsetEdgesetMessage_deserializeInternal :: "msg_env \<Rightarrow> message_body reader" where
  "KeyValueHitflagVictimsetEdgesetMessage_deserializeInternal env = from_position (\<lambda>position.
     get_field (Key_deserialize (Key [])) (\<lambda>k.
     get_field (Value_deserialize (is_space_efficient env) Value_deleted) (\<lambda>v.
     get_mem 1 (\<lambda>h.
     get_field (VictimSyncset_deserialize VictimSyncset_invalid) (\<lambda>vs.
     get_field (Edgeset_deserialize []) (\<lambda>es.
     get_end position (KeyValueHitflagVictimsetEdgesetMessage k v (hd h) vs es)))))))"

definition KeyValueMessage_getMsgPayloadSizeInternal :: "msg_env \<Rightarrow> key \<Rightarrow> data_value \<Rightarrow> u32 exec" where
  "KeyValueMessage_getMsgPayloadSizeInternal env k v =
     sizesE [Inr (Key_getKeyPayloadSize k), Inr (Value_getValuePayloadSize (is_space_efficient env) v)]"

definition KeyValueMessage_getMsgBandwidthSizeInternal :: "key \<Rightarrow> data_value \<Rightarrow> u32 exec" where
  "KeyValueMessage_getMsgBandwidthSizeInternal k v =
     sizesE [Inr (Key_getKeyPayloadSize k), Inr (valuesize v)]"

definition KeyValueMessage_serializeInternal :: "msg_env \<Rightarrow> key \<Rightarrow> data_value \<Rightarrow> writer" where
  "KeyValueMessage_serializeInternal env k v = from_position (\<lambda>position.
     put_field (Key_serialize k) (
     put_field (Value_serialize (is_random env) (random_string env) (is_space_efficient env) v) (
     put_end position)))"

definition KeyValueMessage_deserializeInternal :: "msg_env \<Rightarrow> message_body reader" where
  "KeyValueMessage_deserializeInternal env = from_position (\<lambda>position.
     get_field (Key_deserialize (Key [])) (\<lambda>k.
     get_field (Value_deserialize (is_space_efficient env) Value_deleted) (\<lambda>v.
     get_end position (KeyValueMessage k v))))"

definition KeyValuePlaceinfoSyncinfoMessage_getMsgPayloadSizeInternal :: "msg_env \<Rightarrow> key \<Rightarrow> data_value \<Rightarrow> bestguess_placeinfo \<Rightarrow> bestguess_syncinfo \<Rightarrow> u32 exec" where
  "KeyValuePlaceinfoSyncinfoMessage_getMsgPayloadSizeInternal env k v pl si =
     sizesE [Inr (Key_getKeyPayloadSize k), Inr (Value_getValuePayloadSize (is_space_efficient env) v), Inr (BestGuessPlaceinfo_getPlaceinfoPayloadSize pl), Inr (BestGuessSyncinfo_getSyncinfoPayloadSize si)]"

definition KeyValuePlaceinfoSyncinfoMessage_getMsgBandwidthSizeInternal :: "key \<Rightarrow> data_value \<Rightarrow> bestguess_placeinfo \<Rightarrow> bestguess_syncinfo \<Rightarrow> u32 exec" where
  "KeyValuePlaceinfoSyncinfoMessage_getMsgBandwidthSizeInternal k v pl si =
     sizesE [Inr (Key_getKeyPayloadSize k), Inr (valuesize v), Inr (BestGuessPlaceinfo_getPlaceinfoPayloadSize pl), Inr (BestGuessSyncinfo_getSyncinfoPayloadSize si)]"

definition KeyValuePlaceinfoSyncinfoMessage_serializeInternal :: "msg_env \<Rightarrow> key \<Rightarrow> data_value \<Rightarrow> bestguess_placeinfo \<Rightarrow> bestguess_syncinfo \<Rightarrow> writer" where
  "KeyValuePlaceinfoSyncinfoMessage_serializeInternal env k v pl si = from_position (\<lambda>position.
     put_field (Key_serialize k) (
     put_field (Value_serialize (is_random env) (random_string env) (is_space_efficient env) v) (
     put_field (BestGuessPlaceinfo_serialize pl) (
     put_field (BestGuessSyncinfo_serialize si) (
     put_end position)))))"

definition KeyValuePlaceinfoSyncinfoMessage_deserializeInternal :: "msg_env \<Rightarrow> message_body reader" where
  "KeyValuePlaceinfoSyncinfoMessage_deserializeInternal env = from_position (\<lambda>position.
     get_field (Key_deserialize (Key [])) (\<lambda>k.
     get_field (Value_deserialize (is_space_efficient env) Value_deleted) (\<lambda>v.
     get_field (BestGuessPlaceinfo_deserialize (BestGuessPlaceinfo 0)) (\<lambda>pl.
     get_field (BestGuessSyncinfo_deserialize (BestGuessSyncinfo 0)) (\<lambda>si.
     get_end position (KeyValuePlaceinfoSyncinfoMessage k v pl si))))))"

definition KeyValueVictimsetEdgesetMessage_getMsgPayloadSizeInternal :: "msg_env \<Rightarrow> key \<Rightarrow> data_value \<Rightarrow> victim_syncset \<Rightarrow> edgeset \<Rightarrow> u32 exec" where
  "KeyValueVictimsetEdgesetMessage_getMsgPayloadSizeInternal env k v vs es =
     sizesE [Inr (Key_getKeyPayloadSize k), Inr (Value_getValuePayloadSize (is_space_efficient env) v), VictimSyncset_getVictimSyncsetPayloadSize vs, Inr (Edgeset_getEdgesetPayloadSize es)]"

definition KeyValueVictimsetEdgesetMessage_getMsgBandwidthSizeInternal :: "key \<Rightarrow> data_value \<Rightarrow> victim_syncset \<Rightarrow> edgeset \<Rightarrow> u32 exec" where
  "KeyValueVictimsetEdgesetMessage_getMsgBandwidthSizeInternal k v vs es =
     sizesE [Inr (Key_getKeyPayloadSize k), Inr (valuesize v), VictimSyncset_getVictimSyncsetPayloadSize vs, Inr (Edgeset_getEdgesetPayloadSize es)]"

definition KeyValueVictimsetEdgesetMessage_serializeInternal :: "msg_env \<Rightarrow> key \<Rightarrow> data_value \<Rightarrow> victim_syncset \<Rightarrow> edgeset \<Rightarrow> writer" where
  "KeyValueVictimsetEdgesetMessage_serializeInternal env k v vs es = from_position (\<lambda>position.
     put_field (Key_serialize k) (
     put_field (Value_serialize (is_random env) (random_string env) (is_space_efficient env) v) (
     put_field (VictimSyncset_serialize vs) (
     put_field (Edgeset_serialize es) (
     put_end position)))))"

definition KeyValueVictimsetEdgesetMessage_deserializeInternal :: "msg_env \<Rightarrow> message_body reader" where
  "KeyValueVictimsetEdgesetMessage_deserializeInternal env = from_position (\<lambda>position.
     get_field (Key_deserialize (Key [])) (\<lambda>k.
     get_field (Value_deserialize (is_space_efficient env) Value_deleted) (\<lambda>v.
     get_field (VictimSyncset_deserialize VictimSyncset_invalid) (\<lambda>vs.
     get_field (Edgeset_deserialize []) (\<lambda>es.
     get_end position (KeyValueVictimsetEdgesetMessage k v vs es))))))"

definition KeyVictimsetEdgesetMessage_getMsgPayloadSizeInternal :: "key \<Rightarrow> victim_syncset \<Rightarrow> edgeset \<Rightarrow> u32 exec" where
  "KeyVictimsetEdgesetMessage_getMsgPayloadSizeInternal k vs es =
     sizesE [Inr (Key_getKeyPayloadSize k), VictimSyncset_getVictimSyncsetPayloadSize vs, Inr (Edgeset_getEdgesetPayloadSize es)]"

definition KeyVictimsetEdgesetMessage_serializeInternal :: "key \<Rightarrow> victim_syncset \<Rightarrow> edgeset \<Rightarrow> writer" where
  "KeyVictimsetEdgesetMessage_serializeInternal k vs es = from_position (\<lambda>position.
     put_field (Key_serialize k) (
     put_field (VictimSyncset_serialize vs) (
     put_field (Edgeset_serialize es) (
     put_end position))))"

definition KeyVictimsetEdgesetMessage_deserializeInternal :: "message_body reader" where
  "KeyVictimsetEdgesetMessage_deserializeInternal = from_position (\<lambda>position.
     get_field (Key_deserialize (Key [])) (\<lambda>k.
     get_field (VictimSyncset_deserialize VictimSyncset_invalid) (\<lambda>vs.
     get_field (Edgeset_deserialize []) (\<lambda>es.
     get_end position (KeyVictimsetEdgesetMessage k vs es)))))"

definition KeyVictimsetMessage_getMsgPayloadSizeInternal :: "key \<Rightarrow> victim_syncset \<Rightarrow> u32 exec" where
  "KeyVictimsetMessage_getMsgPayloadSizeInternal k vs =
     sizesE [Inr (Key_getKeyPayloadSize k), VictimSyncset_getVictimSyncsetPayloadSize vs]"

definition KeyVictimsetMessage_serializeInternal :: "key \<Rightarrow> victim_syncset \<Rightarrow> writer" where
  "KeyVictimsetMessage_serializeInternal k vs = from_position (\<lambda>position.
     put_field (Key_serialize k) (
     put_field (VictimSyncset_serialize vs) (
     put_end position)))"

definition KeyVictimsetMessage_deserializeInternal :: "message_body reader" where
  "KeyVictimsetMessage_deserializeInternal = from_position (\<lambda>position.
     get_field (Key_deserialize (Key [])) (\<lambda>k.
     get_field (VictimSyncset_deserialize VictimSyncset_invalid) (\<lambda>vs.
     get_end position (KeyVictimsetMessage k vs))))"

definition KeyWriteflagValidityDirectoryMessage_getMsgPayloadSizeInternal :: "key \<Rightarrow> bool \<Rightarrow> bool \<Rightarrow> directory_info \<Rightarrow> u32 exec" where
  "KeyWriteflagValidityDirectoryMessage_getMsgPayloadSizeInternal k wr e d =
     sizesE [Inr (Key_getKeyPayloadSize k), Inr 1, Inr 1, Inr (DirectoryInfo_getDirectoryInfoPayloadSize d)]"

definition KeyWriteflagValidityDirectoryMessage_serializeInternal :: "key \<Rightarrow> bool \<Rightarrow> bool \<Rightarrow> directory_info \<Rightarrow> writer" where
  "KeyWriteflagValidityDirectoryMessage_serializeInternal k wr e d = from_position (\<lambda>position.
     put_field (Key_serialize k) (
     put_mem (bool_mem wr) (
     put_mem (bool_mem e) (
     put_field (DirectoryInfo_serialize d) (
     put_end position)))))"

definition KeyWriteflagValidityDirectoryMessage_deserializeInternal :: "message_body reader" where
  "KeyWriteflagValidityDirectoryMessage_deserializeInternal = from_position (\<lambda>position.
     get_field (Key_deserialize (Key [])) (\<lambda>k.
     get_mem 1 (\<lambda>wr.
     get_mem 1 (\<lambda>e.
     get_field (DirectoryInfo_deserialize DirectoryInfo_default) (\<lambda>d.
     get_end position (KeyWriteflagValidityDirectoryMessage k (mem_bool wr) (mem_bool e) d))))))"

definition KeyWriteflagValidityDirectorySyncinfoMessage_getMsgPayloadSizeInternal :: "key \<Rightarrow> bool \<Rightarrow> bool \<Rightarrow> directory_info \<Rightarrow> bestguess_syncinfo \<Rightarrow> u32 exec" where
  "KeyWriteflagValidityDirectorySyncinfoMessage_getMsgPayloadSizeInternal k wr e d si =
     sizesE [Inr (Key_getKeyPayloadSize k), Inr 1, Inr 1, Inr (DirectoryInfo_getDirectoryInfoPayloadSize d), Inr (BestGuessSyncinfo_getSyncinfoPayloadSize si)]"

definition KeyWriteflagValidityDirectorySyncinfoMessage_serializeInternal :: "key \<Rightarrow> bool \<Rightarrow> bool \<Rightarrow> directory_info \<Rightarrow> bestguess_syncinfo \<Rightarrow> writer" where
  "KeyWriteflagValidityDirectorySyncinfoMessage_serializeInternal k wr e d si = from_position (\<lambda>position.
     put_field (Key_serialize k) (
     put_mem (bool_mem wr) (
     put_mem (bool_mem e) (
     put_field (DirectoryInfo_serialize d) (
     put_field (BestGuessSyncinfo_serialize si) (
     put_end position))))))"

definition KeyWriteflagValidityDirectorySyncinfoMessage_deserializeInternal :: "message_body reader" where
  "KeyWriteflagValidityDirectorySyncinfoMessage_deserializeInternal = from_position (\<lambda>position.
     get_field (Key_deserialize (Key [])) (\<lambda>k.
     get_mem 1 (\<lambda>wr.
     get_mem 1 (\<lambda>e.
     get_field (DirectoryInfo_deserialize DirectoryInfo_default) (\<lambda>d.
     get_field (BestGuessSyncinfo_deserialize (BestGuessSyncinfo 0)) (\<lambda>si.
     get_end position (KeyWriteflagValidityDirectorySyncinfoMessage k (mem_bool wr) (mem_bool e) d si)))))))"

definition KeyWriteflagValidityDirectoryVictimsetEdgesetMessage_getMsgPayloadSizeInternal :: "key \<Rightarrow> bool \<Rightarrow> bool \<Rightarrow> directory_info \<Rightarrow> victim_syncset \<Rightarrow> edgeset \<Rightarrow> u32 exec" where
  "KeyWriteflagValidityDirectoryVictimsetEdgesetMessage_getMsgPayloadSizeInternal k wr e d vs es =
     sizesE [Inr (Key_getKeyPayloadSize k), Inr 1, Inr 1, Inr (DirectoryInfo_getDirectoryInfoPayloadSize d), VictimSyncset_getVictimSyncsetPayloadSize vs, Inr (Edgeset_getEdgesetPayloadSize es)]"

definition KeyWriteflagValidityDirectoryVictimsetEdgesetMessage_serializeInternal :: "key \<Rightarrow> bool \<Rightarrow> bool \<Rightarrow> directory_info \<Rightarrow> victim_syncset \<Rightarrow> edgeset \<Rightarrow> writer" where
  "KeyWriteflagValidityDirectoryVictimsetEdgesetMessage_serializeInternal k wr e d vs es = from_position (\<lambda>position.
     put_field (Key_serialize k) (
     put_mem (bool_mem wr) (
     put_mem (bool_mem e) (
     put_field (DirectoryInfo_serialize d) (
     put_field (VictimSyncset_serialize vs) (
     put_field (Edgeset_serialize es) (
     put_end position)))))))"

definition KeyWriteflagValidityDirectoryVictimsetEdgesetMessage_deserializeInternal :: "message_body reader" where
  "KeyWriteflagValidityDirectoryVictimsetEdgesetMessage_deserializeInternal = from_position (\<lambda>position.
     get_field (Key_deserialize (Key [])) (\<lambda>k.
     get_mem 1 (\<lambda>wr.
     get_mem 1 (\<lambda>e.
     get_field (DirectoryInfo_deserialize DirectoryInfo_default) (\<lambda>d.
     get_field (VictimSyncset_deserialize VictimSyncset_invalid) (\<lambda>vs.
     get_field (Edgeset_deserialize []) (\<lambda>es.
     get_end position (KeyWriteflagValidityDirectoryVictimsetEdgesetMessage k (mem_bool wr) (mem_bool e) d vs es))))))))"

definition KeyWriteflagValidityDirectoryVictimsetFphintMessage_getMsgPayloadSizeInternal :: "key \<Rightarrow> bool \<Rightarrow> bool \<Rightarrow> directory_info \<Rightarrow> victim_syncset \<Rightarrow> fast_path_hint \<Rightarrow> u32 exec" where
  "KeyWriteflagValidityDirectoryVictimsetFphintMessage_getMsgPayloadSizeInternal k wr e d vs fh =
     sizesE [Inr (Key_getKeyPayloadSize k), Inr 1, Inr 1, Inr (DirectoryInfo_getDirectoryInfoPayloadSize d), VictimSyncset_getVictimSyncsetPayloadSize vs, FastPathHint_getFastPathHintPayloadSize fh]"

definition KeyWriteflagValidityDirectoryVictimsetFphintMessage_serializeInternal :: "key \<Rightarrow> bool \<Rightarrow> bool \<Rightarrow> directory_info \<Rightarrow> victim_syncset \<Rightarrow> fast_path_hint \<Rightarrow> writer" where
  "KeyWriteflagValidityDirectoryVictimsetFphintMessage_serializeInternal k wr e d vs fh = from_position (\<lambda>position.
     put_field (Key_serialize k) (
     put_mem (bool_mem wr) (
     put_mem (bool_mem e) (
     put_field (DirectoryInfo_serialize d) (
     put_field (VictimSyncset_serialize vs) (
     put_field (FastPathHint_serialize fh) (
     put_end position)))))))"

definition KeyWriteflagValidityDirectoryVictimsetFphintMessage_deserializeInternal :: "message_body reader" where
  "KeyWriteflagValidityDirectoryVictimsetFphintMessage_deserializeInternal = from_position (\<lambda>position.
     get_field (Key_deserialize (Key [])) (\<lambda>k.
     get_mem 1 (\<lambda>wr.
     get_mem 1 (\<lambda>e.
     get_field (DirectoryInfo_deserialize DirectoryInfo_default) (\<lambda>d.
     get_field (VictimSyncset_deserialize VictimSyncset_invalid) (\<lambda>vs.
     get_field (FastPathHint_deserialize FastPathHint_default) (\<lambda>fh.
     get_end position (KeyWriteflagValidityDirectoryVictimsetFphintMessage k (mem_bool wr) (mem_bool e) d vs fh))))))))"

definition KeyWriteflagValidityDirectoryVictimsetMessage_getMsgPayloadSizeInternal :: "key \<Rightarrow> bool \<Rightarrow> bool \<Rightarrow> directory_info \<Rightarrow> victim_syncset \<Rightarrow> u32 exec" where
  "KeyWriteflagValidityDirectoryVictimsetMessage_getMsgPayloadSizeInternal k wr e d vs =
     sizesE [Inr (Key_getKeyPayloadSize k), Inr 1, Inr 1, Inr (DirectoryInfo_getDirectoryInfoPayloadSize d), VictimSyncset_getVictimSyncsetPayloadSize vs]"

definition KeyWriteflagValidityDirectoryVictimsetMessage_serializeInternal :: "key \<Rightarrow> bool \<Rightarrow> bool \<Rightarrow> directory_info \<Rightarrow> victim_syncset \<Rightarrow> writer" where
  "KeyWriteflagValidityDirectoryVictimsetMessage_serializeInternal k wr e d vs = from_position (\<lambda>position.
     put_field (Key_serialize k) (
     put_mem (bool_mem wr) (
     put_mem (bool_mem e) (
     put_field (DirectoryInfo_serialize d) (
     put_field (VictimSyncset_serialize vs) (
     put_end position))))))"

definition KeyWriteflagValidityDirectoryVictimsetMessage_deserializeInternal :: "message_body reader" where
  "KeyWriteflagValidityDirectoryVictimsetMessage_deserializeInternal = from_position (\<lambda>position.
     get_field (Key_deserialize (Key [])) (\<lambda>k.
     get_mem 1 (\<lambda>wr.
     get_mem 1 (\<lambda>e.
     get_field (DirectoryInfo_deserialize DirectoryInfo_default) (\<lambda>d.
     get_field (VictimSyncset_deserialize VictimSyncset_invalid) (\<lambda>vs.
     get_end position (KeyWriteflagValidityDirectoryVictimsetMessage k (mem_bool wr) (mem_bool e) d vs)))))))"

definition SimpleMessage_getMsgPayloadSizeInternal :: "u32 exec" where
  "SimpleMessage_getMsgPayloadSizeInternal =
     sizesE []"

definition SimpleMessage_serializeInternal :: "writer" where
  "SimpleMessage_serializeInternal = from_position (\<lambda>position.
     put_end position)"

definition SimpleMessage_deserializeInternal :: "message_body reader" where
  "SimpleMessage_deserializeInternal = from_position (\<lambda>position.
     get_end position SimpleMessage)"

definition SingleVictimsetMessage_getMsgPayloadSizeInternal :: "victim_syncset \<Rightarrow> u32 exec" where
  "SingleVictimsetMessage_getMsgPayloadSizeInternal fs =
     sizesE [VictimSyncset_getVictimSyncsetPayloadSize fs]"

definition SingleVictimsetMessage_serializeInternal :: "victim_syncset \<Rightarrow> writer" where
  "SingleVictimsetMessage_serializeInternal fs = from_position (\<lambda>position.
     put_field (VictimSyncset_serialize fs) (
     put_end position))"

definition SingleVictimsetMessage_deserializeInternal :: "message_body reader" where
  "SingleVictimsetMessage_deserializeInternal = from_position (\<lambda>position.
     get_field (VictimSyncset_deserialize VictimSyncset_invalid) (\<lambda>fs.
     get_end position (SingleVictimsetMessage fs)))"

definition UintAggstatMessage_getMsgPayloadSizeInternal :: "u32 \<Rightarrow> aggregated_statistics \<Rightarrow> u32 exec" where
  "UintAggstatMessage_getMsgPayloadSizeInternal u st =
     sizesE [Inr 4, Inr AggregatedStatistics_getAggregatedStatisticsIOSize]"

definition UintAggstatMessage_serializeInternal :: "u32 \<Rightarrow> aggregated_statistics \<Rightarrow> writer" where
  "UintAggstatMessage_serializeInternal u st = from_position (\<lambda>position.
     put_mem (htonl_mem u) (
     put_field (AggregatedStatistics_serialize st) (
     put_end position)))"

definition UintAggstatMessage_deserializeInternal :: "message_body reader" where
  "UintAggstatMessage_deserializeInternal = from_position (\<lambda>position.
     get_mem 4 (\<lambda>u.
     get_field (AggregatedStatistics_deserialize AggregatedStatistics_default) (\<lambda>st.
     get_end position (UintAggstatMessage (mem_ntohl u) st))))"

definition UintMessage_getMsgPayloadSizeInternal :: "u32 \<Rightarrow> u32 exec" where
  "UintMessage_getMsgPayloadSizeInternal u =
     sizesE [Inr 4]"

definition UintMessage_serializeInternal :: "u32 \<Rightarrow> writer" where
  "UintMessage_serializeInternal u = from_position (\<lambda>position.
     put_mem (htonl_mem u) (
     put_end position))"

definition UintMessage_deserializeInternal :: "message_body reader" where
  "UintMessage_deserializeInternal = from_position (\<lambda>position.
     get_mem 4 (\<lambda>u.
     get_end position (UintMessage (mem_ntohl u))))"

definition UintTwoAggstatMessage_getMsgPayloadSizeInternal :: "u32 \<Rightarrow> aggregated_statistics \<Rightarrow> aggregated_statistics \<Rightarrow> u32 exec" where
  "UintTwoAggstatMessage_getMsgPayloadSizeInternal u st1 st2 =
     sizesE [Inr 4, Inr AggregatedStatistics_getAggregatedStatisticsIOSize, Inr AggregatedStatistics_getAggregatedStatisticsIOSize]"

definition UintTwoAggstatMessage_serializeInternal :: "u32 \<Rightarrow> aggregated_statistics \<Rightarrow> aggregated_statistics \<Rightarrow> writer" where
  "UintTwoAggstatMessage_serializeInternal u st1 st2 = from_position (\<lambda>position.
     put_mem (htonl_mem u) (
     put_field (AggregatedStatistics_serialize st1) (
     put_field (AggregatedStatistics_serialize st2) (
     put_end position))))"

definition UintTwoAggstatMessage_deserializeInternal :: "message_body reader" where
  "UintTwoAggstatMessage_deserializeInternal = from_position (\<lambda>position.
     get_mem 4 (\<lambda>u.
     get_field (AggregatedStatistics_deserialize AggregatedStatistics_default) (\<lambda>st1.
     get_field (AggregatedStatistics_deserialize AggregatedStatistics_default) (\<lambda>st2.
     get_end position (UintTwoAggstatMessage (mem_ntohl u) st1 st2)))))"

definition UintVictimsetMessage_getMsgPayloadSizeInternal :: "u32 \<Rightarrow> victim_syncset \<Rightarrow> u32 exec" where
  "UintVictimsetMessage_getMsgPayloadSizeInternal u vs =
     sizesE [Inr 4, VictimSyncset_getVictimSyncsetPayloadSize vs]"

definition UintVictimsetMessage_serializeInternal :: "u32 \<Rightarrow> victim_syncset \<Rightarrow> writer" where
  "UintVictimsetMessage_serializeInternal u vs = from_position (\<lambda>position.
     put_mem (htonl_mem u) (
     put_field (VictimSyncset_serialize vs) (
     put_end position)))"

definition UintVictimsetMessage_deserializeInternal :: "message_body reader" where
  "UintVictimsetMessage_deserializeInternal = from_position (\<lambda>position.
     get_mem 4 (\<lambda>u.
     get_field (VictimSyncset_deserialize VictimSyncset_invalid) (\<lambda>vs.
     get_end position (UintVictimsetMessage (mem_ntohl u) vs))))"

section \<open>The virtual methods\<close>

datatype message_class =
    cls_DoubleVictimsetMessage | cls_KeyByteMessage | cls_KeyByteSyncinfoMessage
  | cls_KeyByteVictimsetEdgesetMessage | cls_KeyByteVictimsetMessage | cls_KeyCollectpopVictimsetMessage
  | cls_KeyEdgesetMessage | cls_KeyHitflagUtilizationMessage | cls_KeyMessage
  | cls_KeySyncinfoMessage | cls_KeyTwoByteVictimsetMessage | cls_KeyValidityDirectoryCollectpopVictimsetMessage
  | cls_KeyValidityDirectoryMessage | cls_KeyValidityDirectorySyncinfoMessage | cls_KeyValueByteSyncinfoMessage
  | cls_KeyValueByteVictimsetMessage | cls_KeyValueDirectoryVictimsetEdgesetMessage | cls_KeyValueEdgesetMessage
  | cls_KeyValueHitflagMessage | cls_KeyValueHitflagUtilizationMessage | cls_KeyValueHitflagVictimsetEdgesetMessage
  | cls_KeyValueMessage | cls_KeyValuePlaceinfoSyncinfoMessage | cls_KeyValueVictimsetEdgesetMessage
  | cls_KeyVictimsetEdgesetMessage | cls_KeyVictimsetMessage | cls_KeyWriteflagValidityDirectoryMessage
  | cls_KeyWriteflagValidityDirectorySyncinfoMessage | cls_KeyWriteflagValidityDirectoryVictimsetEdgesetMessage | cls_KeyWriteflagValidityDirectoryVictimsetFphintMessage
  | cls_KeyWriteflagValidityDirectoryVictimsetMessage | cls_SimpleMessage | cls_SingleVictimsetMessage
  | cls_UintAggstatMessage | cls_UintMessage | cls_UintTwoAggstatMessage
  | cls_UintVictimsetMessage

fun body_class :: "message_body \<Rightarrow> message_class" where
  "body_class (DoubleVictimsetMessage fs vs) = cls_DoubleVictimsetMessage"
| "body_class (KeyByteMessage k b) = cls_KeyByteMessage"
| "body_class (KeyByteSyncinfoMessage k b si) = cls_KeyByteSyncinfoMessage"
| "body_class (KeyByteVictimsetEdgesetMessage k b vs es) = cls_KeyByteVictimsetEdgesetMessage"
| "body_class (KeyByteVictimsetMessage k b vs) = cls_KeyByteVictimsetMessage"
| "body_class (KeyCollectpopVictimsetMessage k cp vs) = cls_KeyCollectpopVictimsetMessage"
| "body_class (KeyEdgesetMessage k es) = cls_KeyEdgesetMessage"
| "body_class (KeyHitflagUtilizationMessage k h n c) = cls_KeyHitflagUtilizationMessage"
| "body_class (KeyMessage k) = cls_KeyMessage"
| "body_class (KeySyncinfoMessage k si) = cls_KeySyncinfoMessage"
| "body_class (KeyTwoByteVictimsetMessage k b1 b2 vs) = cls_KeyTwoByteVictimsetMessage"
| "body_class (KeyValidityDirectoryCollectpopVictimsetMessage k e d cp vs) = cls_KeyValidityDirectoryCollectpopVictimsetMessage"
| "body_class (KeyValidityDirectoryMessage k e d) = cls_KeyValidityDirectoryMessage"
| "body_class (KeyValidityDirectorySyncinfoMessage k e d si) = cls_KeyValidityDirectorySyncinfoMessage"
| "body_class (KeyValueByteSyncinfoMessage k v b si) = cls_KeyValueByteSyncinfoMessage"
| "body_class (KeyValueByteVictimsetMessage k v b vs) = cls_KeyValueByteVictimsetMessage"
| "body_class (KeyValueDirectoryVictimsetEdgesetMessage k v d vs es) = cls_KeyValueDirectoryVictimsetEdgesetMessage"
| "body_class (KeyValueEdgesetMessage k v es) = cls_KeyValueEdgesetMessage"
| "body_class (KeyValueHitflagMessage k v h) = cls_KeyValueHitflagMessage"
| "body_class (KeyValueHitflagUtilizationMessage k v h n c) = cls_KeyValueHitflagUtilizationMessage"
| "body_class (KeyValueHitflagVictimsetEdgesetMessage k v h vs es) = cls_KeyValueHitflagVictimsetEdgesetMessage"
| "body_class (KeyValueMessage k v) = cls_KeyValueMessage"
| "body_class (KeyValuePlaceinfoSyncinfoMessage k v pl si) = cls_KeyValuePlaceinfoSyncinfoMessage"
| "body_class (KeyValueVictimsetEdgesetMessage k v vs es) = cls_KeyValueVictimsetEdgesetMessage"
| "body_class (KeyVictimsetEdgesetMessage k vs es) = cls_KeyVictimsetEdgesetMessage"
| "body_class (KeyVictimsetMessage k vs) = cls_KeyVictimsetMessage"
| "body_class (KeyWriteflagValidityDirectoryMessage k wr e d) = cls_KeyWriteflagValidityDirectoryMessage"
| "body_class (KeyWriteflagValidityDirectorySyncinfoMessage k wr e d si) = cls_KeyWriteflagValidityDirectorySyncinfoMessage"
| "body_class (KeyWriteflagValidityDirectoryVictimsetEdgesetMessage k wr e d vs es) = cls_KeyWriteflagValidityDirectoryVictimsetEdgesetMessage"
| "body_class (KeyWriteflagValidityDirectoryVictimsetFphintMessage k wr e d vs fh) = cls_KeyWriteflagValidityDirectoryVictimsetFphintMessage"
| "body_class (KeyWriteflagValidityDirectoryVictimsetMessage k wr e d vs) = cls_KeyWriteflagValidityDirectoryVictimsetMessage"
| "body_class SimpleMessage = cls_SimpleMessage"
| "body_class (SingleVictimsetMessage fs) = cls_SingleVictimsetMessage"
| "body_class (UintAggstatMessage u st) = cls_UintAggstatMessage"
| "body_class (UintMessage u) = cls_UintMessage"
| "body_class (UintTwoAggstatMessage u st1 st2) = cls_UintTwoAggstatMessage"
| "body_class (UintVictimsetMessage u vs) = cls_UintVictimsetMessage"

fun body_size :: "msg_env \<Rightarrow> message_body \<Rightarrow> u32 exec" where
  "body_size env (DoubleVictimsetMessage fs vs) = DoubleVictimsetMessage_getMsgPayloadSizeInternal fs vs"
| "body_size env (KeyByteMessage k b) = KeyByteMessage_getMsgPayloadSizeInternal k b"
| "body_size env (KeyByteSyncinfoMessage k b si) = KeyByteSyncinfoMessage_getMsgPayloadSizeInternal k b si"
| "body_size env (KeyByteVictimsetEdgesetMessage k b vs es) = KeyByteVictimsetEdgesetMessage_getMsgPayloadSizeInternal k b vs es"
| "body_size env (KeyByteVictimsetMessage k b vs) = KeyByteVictimsetMessage_getMsgPayloadSizeInternal k b vs"
| "body_size env (KeyCollectpopVictimsetMessage k cp vs) = KeyCollectpopVictimsetMessage_getMsgPayloadSizeInternal k cp vs"
| "body_size env (KeyEdgesetMessage k es) = KeyEdgesetMessage_getMsgPayloadSizeInternal k es"
| "body_size env (KeyHitflagUtilizationMessage k h n c) = KeyHitflagUtilizationMessage_getMsgPayloadSizeInternal k h n c"
| "body_size env (KeyMessage k) = KeyMessage_getMsgPayloadSizeInternal k"
| "body_size env (KeySyncinfoMessage k si) = KeySyncinfoMessage_getMsgPayloadSizeInternal k si"
| "body_size env (KeyTwoByteVictimsetMessage k b1 b2 vs) = KeyTwoByteVictimsetMessage_getMsgPayloadSizeInternal k b1 b2 vs"
| "body_size env (KeyValidityDirectoryCollectpopVictimsetMessage k e d cp vs) = KeyValidityDirectoryCollectpopVictimsetMessage_getMsgPayloadSizeInternal k e d cp vs"
| "body_size env (KeyValidityDirectoryMessage k e d) = KeyValidityDirectoryMessage_getMsgPayloadSizeInternal k e d"
| "body_size env (KeyValidityDirectorySyncinfoMessage k e d si) = KeyValidityDirectorySyncinfoMessage_getMsgPayloadSizeInternal k e d si"
| "body_size env (KeyValueByteSyncinfoMessage k v b si) = KeyValueByteSyncinfoMessage_getMsgPayloadSizeInternal env k v b si"
| "body_size env (KeyValueByteVictimsetMessage k v b vs) = KeyValueByteVictimsetMessage_getMsgPayloadSizeInternal env k v b vs"
| "body_size env (KeyValueDirectoryVictimsetEdgesetMessage k v d vs es) = KeyValueDirectoryVictimsetEdgesetMessage_getMsgPayloadSizeInternal env k v d vs es"
| "body_size env (KeyValueEdgesetMessage k v es) = KeyValueEdgesetMessage_getMsgPayloadSizeInternal env k v es"
| "body_size env (KeyValueHitflagMessage k v h) = KeyValueHitflagMessage_getMsgPayloadSizeInternal env k v h"
| "body_size env (KeyValueHitflagUtilizationMessage k v h n c) = KeyValueHitflagUtilizationMessage_getMsgPayloadSizeInternal env k v h n c"
| "body_size env (KeyValueHitflagVictimsetEdgesetMessage k v h vs es) = KeyValueHitflagVictimsetEdgesetMessage_getMsgPayloadSizeInternal env k v h vs es"
| "body_size env (KeyValueMessage k v) = KeyValueMessage_getMsgPayloadSizeInternal env k v"
| "body_size env (KeyValuePlaceinfoSyncinfoMessage k v pl si) = KeyValuePlaceinfoSyncinfoMessage_getMsgPayloadSizeInternal env k v pl si"
| "body_size env (KeyValueVictimsetEdgesetMessage k v vs es) = KeyValueVictimsetEdgesetMessage_getMsgPayloadSizeInternal env k v vs es"
| "body_size env (KeyVictimsetEdgesetMessage k vs es) = KeyVictimsetEdgesetMessage_getMsgPayloadSizeInternal k vs es"
| "body_size env (KeyVictimsetMessage k vs) = KeyVictimsetMessage_getMsgPayloadSizeInternal k vs"
| "body_size env (KeyWriteflagValidityDirectoryMessage k wr e d) = KeyWriteflagValidityDirectoryMessage_getMsgPayloadSizeInternal k wr e d"
| "body_size env (KeyWriteflagValidityDirectorySyncinfoMessage k wr e d si) = KeyWriteflagValidityDirectorySyncinfoMessage_getMsgPayloadSizeInternal k wr e d si"
| "body_size env (KeyWriteflagValidityDirectoryVictimsetEdgesetMessage k wr e d vs es) = KeyWriteflagValidityDirectoryVictimsetEdgesetMessage_getMsgPayloadSizeInternal k wr e d vs es"
| "body_size env (KeyWriteflagValidityDirectoryVictimsetFphintMessage k wr e d vs fh) = KeyWriteflagValidityDirectoryVictimsetFphintMessage_getMsgPayloadSizeInternal k wr e d vs fh"
| "body_size env (KeyWriteflagValidityDirectoryVictimsetMessage k wr e d vs) = KeyWriteflagValidityDirectoryVictimsetMessage_getMsgPayloadSizeInternal k wr e d vs"
| "body_size env SimpleMessage = SimpleMessage_getMsgPayloadSizeInternal"
| "body_size env (SingleVictimsetMessage fs) = SingleVictimsetMessage_getMsgPayloadSizeInternal fs"
| "body_size env (UintAggstatMessage u st) = UintAggstatMessage_getMsgPayloadSizeInternal u st"
| "body_size env (UintMessage u) = UintMessage_getMsgPayloadSizeInternal u"
| "body_size env (UintTwoAggstatMessage u st1 st2) = UintTwoAggstatMessage_getMsgPayloadSizeInternal u st1 st2"
| "body_size env (UintVictimsetMessage u vs) = UintVictimsetMessage_getMsgPayloadSizeInternal u vs"

text \<open>The size counted for the bandwidth: the default is the payload size.\<close>

fun body_bandwidth :: "msg_env \<Rightarrow> message_body \<Rightarrow> u32 exec" where
  "body_bandwidth env (DoubleVictimsetMessage fs vs) = DoubleVictimsetMessage_getMsgPayloadSizeInternal fs vs"
| "body_bandwidth env (KeyByteMessage k b) = KeyByteMessage_getMsgPayloadSizeInternal k b"
| "body_bandwidth env (KeyByteSyncinfoMessage k b si) = KeyByteSyncinfoMessage_getMsgPayloadSizeInternal k b si"
| "body_bandwidth env (KeyByteVictimsetEdgesetMessage k b vs es) = KeyByteVictimsetEdgesetMessage_getMsgPayloadSizeInternal k b vs es"
| "body_bandwidth env (KeyByteVictimsetMessage k b vs) = KeyByteVictimsetMessage_getMsgPayloadSizeInternal k b vs"
| "body_bandwidth env (KeyCollectpopVictimsetMessage k cp vs) = KeyCollectpopVictimsetMessage_getMsgPayloadSizeInternal k cp vs"
| "body_bandwidth env (KeyEdgesetMessage k es) = KeyEdgesetMessage_getMsgPayloadSizeInternal k es"
| "body_bandwidth env (KeyHitflagUtilizationMessage k h n c) = KeyHitflagUtilizationMessage_getMsgPayloadSizeInternal k h n c"
| "body_bandwidth env (KeyMessage k) = KeyMessage_getMsgPayloadSizeInternal k"
| "body_bandwidth env (KeySyncinfoMessage k si) = KeySyncinfoMessage_getMsgPayloadSizeInternal k si"
| "body_bandwidth env (KeyTwoByteVictimsetMessage k b1 b2 vs) = KeyTwoByteVictimsetMessage_getMsgPayloadSizeInternal k b1 b2 vs"
| "body_bandwidth env (KeyValidityDirectoryCollectpopVictimsetMessage k e d cp vs) = KeyValidityDirectoryCollectpopVictimsetMessage_getMsgPayloadSizeInternal k e d cp vs"
| "body_bandwidth env (KeyValidityDirectoryMessage k e d) = KeyValidityDirectoryMessage_getMsgPayloadSizeInternal k e d"
| "body_bandwidth env (KeyValidityDirectorySyncinfoMessage k e d si) = KeyValidityDirectorySyncinfoMessage_getMsgPayloadSizeInternal k e d si"
| "body_bandwidth env (KeyValueByteSyncinfoMessage k v b si) = KeyValueByteSyncinfoMessage_getMsgBandwidthSizeInternal k v b si"
| "body_bandwidth env (KeyValueByteVictimsetMessage k v b vs) = KeyValueByteVictimsetMessage_getMsgBandwidthSizeInternal k v b vs"
| "body_bandwidth env (KeyValueDirectoryVictimsetEdgesetMessage k v d vs es) = KeyValueDirectoryVictimsetEdgesetMessage_getMsgBandwidthSizeInternal k v d vs es"
| "body_bandwidth env (KeyValueEdgesetMessage k v es) = KeyValueEdgesetMessage_getMsgBandwidthSizeInternal k v es"
| "body_bandwidth env (KeyValueHitflagMessage k v h) = KeyValueHitflagMessage_getMsgBandwidthSizeInternal k v h"
| "body_bandwidth env (KeyValueHitflagUtilizationMessage k v h n c) = KeyValueHitflagUtilizationMessage_getMsgBandwidthSizeInternal k v h n c"
| "body_bandwidth env (KeyValueHitflagVictimsetEdgesetMessage k v h vs es) = KeyValueHitflagVictimsetEdgesetMessage_getMsgBandwidthSizeInternal k v h vs es"
| "body_bandwidth env (KeyValueMessage k v) = KeyValueMessage_getMsgBandwidthSizeInternal k v"
| "body_bandwidth env (KeyValuePlaceinfoSyncinfoMessage k v pl si) = KeyValuePlaceinfoSyncinfoMessage_getMsgBandwidthSizeInternal k v pl si"
| "body_bandwidth env (KeyValueVictimsetEdgesetMessage k v vs es) = KeyValueVictimsetEdgesetMessage_getMsgBandwidthSizeInternal k v vs es"
| "body_bandwidth env (KeyVictimsetEdgesetMessage k vs es) = KeyVictimsetEdgesetMessage_getMsgPayloadSizeInternal k vs es"
| "body_bandwidth env (KeyVictimsetMessage k vs) = KeyVictimsetMessage_getMsgPayloadSizeInternal k vs"
| "body_bandwidth env (KeyWriteflagValidityDirectoryMessage k wr e d) = KeyWriteflagValidityDirectoryMessage_getMsgPayloadSizeInternal k wr e d"
| "body_bandwidth env (KeyWriteflagValidityDirectorySyncinfoMessage k wr e d si) = KeyWriteflagValidityDirectorySyncinfoMessage_getMsgPayloadSizeInternal k wr e d si"
| "body_bandwidth env (KeyWriteflagValidityDirectoryVictimsetEdgesetMessage k wr e d vs es) = KeyWriteflagValidityDirectoryVictimsetEdgesetMessage_getMsgPayloadSizeInternal k wr e d vs es"
| "body_bandwidth env (KeyWriteflagValidityDirectoryVictimsetFphintMessage k wr e d vs fh) = KeyWriteflagValidityDirectoryVictimsetFphintMessage_getMsgPayloadSizeInternal k wr e d vs fh"
| "body_bandwidth env (KeyWriteflagValidityDirectoryVictimsetMessage k wr e d vs) = KeyWriteflagValidityDirectoryVictimsetMessage_getMsgPayloadSizeInternal k wr e d vs"
| "body_bandwidth env SimpleMessage = SimpleMessage_getMsgPayloadSizeInternal"
| "body_bandwidth env (SingleVictimsetMessage fs) = SingleVictimsetMessage_getMsgPayloadSizeInternal fs"
| "body_bandwidth env (UintAggstatMessage u st) = UintAggstatMessage_getMsgPayloadSizeInternal u st"
| "body_bandwidth env (UintMessage u) = UintMessage_getMsgPayloadSizeInternal u"
| "body_bandwidth env (UintTwoAggstatMessage u st1 st2) = UintTwoAggstatMessage_getMsgPayloadSizeInternal u st1 st2"
| "body_bandwidth env (UintVictimsetMessage u vs) = UintVictimsetMessage_getMsgPayloadSizeInternal u vs"

fun body_serialize :: "msg_env \<Rightarrow> message_body \<Rightarrow> writer" where
  "body_serialize env (DoubleVictimsetMessage fs vs) = DoubleVictimsetMessage_serializeInternal fs vs"
| "body_serialize env (KeyByteMessage k b) = KeyByteMessage_serializeInternal k b"
| "body_serialize env (KeyByteSyncinfoMessage k b si) = KeyByteSyncinfoMessage_serializeInternal k b si"
| "body_serialize env (KeyByteVictimsetEdgesetMessage k b vs es) = KeyByteVictimsetEdgesetMessage_serializeInternal k b vs es"
| "body_serialize env (KeyByteVictimsetMessage k b vs) = KeyByteVictimsetMessage_serializeInternal k b vs"
| "body_serialize env (KeyCollectpopVictimsetMessage k cp vs) = KeyCollectpopVictimsetMessage_serializeInternal k cp vs"
| "body_serialize env (KeyEdgesetMessage k es) = KeyEdgesetMessage_serializeInternal k es"
| "body_serialize env (KeyHitflagUtilizationMessage k h n c) = KeyHitflagUtilizationMessage_serializeInternal k h n c"
| "body_serialize env (KeyMessage k) = KeyMessage_serializeInternal k"
| "body_serialize env (KeySyncinfoMessage k si) = KeySyncinfoMessage_serializeInternal k si"
| "body_serialize env (KeyTwoByteVictimsetMessage k b1 b2 vs) = KeyTwoByteVictimsetMessage_serializeInternal k b1 b2 vs"
| "body_serialize env (KeyValidityDirectoryCollectpopVictimsetMessage k e d cp vs) = KeyValidityDirectoryCollectpopVictimsetMessage_serializeInternal k e d cp vs"
| "body_serialize env (KeyValidityDirectoryMessage k e d) = KeyValidityDirectoryMessage_serializeInternal k e d"
| "body_serialize env (KeyValidityDirectorySyncinfoMessage k e d si) = KeyValidityDirectorySyncinfoMessage_serializeInternal k e d si"
| "body_serialize env (KeyValueByteSyncinfoMessage k v b si) = KeyValueByteSyncinfoMessage_serializeInternal env k v b si"
| "body_serialize env (KeyValueByteVictimsetMessage k v b vs) = KeyValueByteVictimsetMessage_serializeInternal env k v b vs"
| "body_serialize env (KeyValueDirectoryVictimsetEdgesetMessage k v d vs es) = KeyValueDirectoryVictimsetEdgesetMessage_serializeInternal env k v d vs es"
| "body_serialize env (KeyValueEdgesetMessage k v es) = KeyValueEdgesetMessage_serializeInternal env k v es"
| "body_serialize env (KeyValueHitflagMessage k v h) = KeyValueHitflagMessage_serializeInternal env k v h"
| "body_serialize env (KeyValueHitflagUtilizationMessage k v h n c) = KeyValueHitflagUtilizationMessage_serializeInternal env k v h n c"
| "body_serialize env (KeyValueHitflagVictimsetEdgesetMessage k v h vs es) = KeyValueHitflagVictimsetEdgesetMessage_serializeInternal env k v h vs es"
| "body_serialize env (KeyValueMessage k v) = KeyValueMessage_serializeInternal env k v"
| "body_serialize env (KeyValuePlaceinfoSyncinfoMessage k v pl si) = KeyValuePlaceinfoSyncinfoMessage_serializeInternal env k v pl si"
| "body_serialize env (KeyValueVictimsetEdgesetMessage k v vs es) = KeyValueVictimsetEdgesetMessage_serializeInternal env k v vs es"
| "body_serialize env (KeyVictimsetEdgesetMessage k vs es) = KeyVictimsetEdgesetMessage_serializeInternal k vs es"
| "body_serialize env (KeyVictimsetMessage k vs) = KeyVictimsetMessage_serializeInternal k vs"
| "body_serialize env (KeyWriteflagValidityDirectoryMessage k wr e d) = KeyWriteflagValidityDirectoryMessage_serializeInternal k wr e d"
| "body_serialize env (KeyWriteflagValidityDirectorySyncinfoMessage k wr e d si) = KeyWriteflagValidityDirectorySyncinfoMessage_serializeInternal k wr e d si"
| "body_serialize env (KeyWriteflagValidityDirectoryVictimsetEdgesetMessage k wr e d vs es) = KeyWriteflagValidityDirectoryVictimsetEdgesetMessage_serializeInternal k wr e d vs es"
| "body_serialize env (KeyWriteflagValidityDirectoryVictimsetFphintMessage k wr e d vs fh) = KeyWriteflagValidityDirectoryVictimsetFphintMessage_serializeInternal k wr e d vs fh"
| "body_serialize env (KeyWriteflagValidityDirectoryVictimsetMessage k wr e d vs) = KeyWriteflagValidityDirectoryVictimsetMessage_serializeInternal k wr e d vs"
| "body_serialize env SimpleMessage = SimpleMessage_serializeInternal"
| "body_serialize env (SingleVictimsetMessage fs) = SingleVictimsetMessage_serializeInternal fs"
| "body_serialize env (UintAggstatMessage u st) = UintAggstatMessage_serializeInternal u st"
| "body_serialize env (UintMessage u) = UintMessage_serializeInternal u"
| "body_serialize env (UintTwoAggstatMessage u st1 st2) = UintTwoAggstatMessage_serializeInternal u st1 st2"
| "body_serialize env (UintVictimsetMessage u vs) = UintVictimsetMessage_serializeInternal u vs"

fun body_deserialize :: "msg_env \<Rightarrow> message_class \<Rightarrow> message_body reader" where
  "body_deserialize env cls_DoubleVictimsetMessage = DoubleVictimsetMessage_deserializeInternal"
| "body_deserialize env cls_KeyByteMessage = KeyByteMessage_deserializeInternal"
| "body_deserialize env cls_KeyByteSyncinfoMessage = KeyByteSyncinfoMessage_deserializeInternal"
| "body_deserialize env cls_KeyByteVictimsetEdgesetMessage = KeyByteVictimsetEdgesetMessage_deserializeInternal"
| "body_deserialize env cls_KeyByteVictimsetMessage = KeyByteVictimsetMessage_deserializeInternal"
| "body_deserialize env cls_KeyCollectpopVictimsetMessage = KeyCollectpopVictimsetMessage_deserializeInternal"
| "body_deserialize env cls_KeyEdgesetMessage = KeyEdgesetMessage_deserializeInternal"
| "body_deserialize env cls_KeyHitflagUtilizationMessage = KeyHitflagUtilizationMessage_deserializeInternal"
| "body_deserialize env cls_KeyMessage = KeyMessage_deserializeInternal"
| "body_deserialize env cls_KeySyncinfoMessage = KeySyncinfoMessage_deserializeInternal"
| "body_deserialize env cls_KeyTwoByteVictimsetMessage = KeyTwoByteVictimsetMessage_deserializeInternal"
| "body_deserialize env cls_KeyValidityDirectoryCollectpopVictimsetMessage = KeyValidityDirectoryCollectpopVictimsetMessage_deserializeInternal"
| "body_deserialize env cls_KeyValidityDirectoryMessage = KeyValidityDirectoryMessage_deserializeInternal"
| "body_deserialize env cls_KeyValidityDirectorySyncinfoMessage = KeyValidityDirectorySyncinfoMessage_deserializeInternal"
| "body_deserialize env cls_KeyValueByteSyncinfoMessage = KeyValueByteSyncinfoMessage_deserializeInternal env"
| "body_deserialize env cls_KeyValueByteVictimsetMessage = KeyValueByteVictimsetMessage_deserializeInternal env"
| "body_deserialize env cls_KeyValueDirectoryVictimsetEdgesetMessage = KeyValueDirectoryVictimsetEdgesetMessage_deserializeInternal env"
| "body_deserialize env cls_KeyValueEdgesetMessage = KeyValueEdgesetMessage_deserializeInternal env"
| "body_deserialize env cls_KeyValueHitflagMessage = KeyValueHitflagMessage_deserializeInternal env"
| "body_deserialize env cls_KeyValueHitflagUtilizationMessage = KeyValueHitflagUtilizationMessage_deserializeInternal env"
| "body_deserialize env cls_KeyValueHitflagVictimsetEdgesetMessage = KeyValueHitflagVictimsetEdgesetMessage_deserializeInternal env"
| "body_deserialize env cls_KeyValueMessage = KeyValueMessage_deserializeInternal env"
| "body_deserialize env cls_KeyValuePlaceinfoSyncinfoMessage = KeyValuePlaceinfoSyncinfoMessage_deserializeInternal env"
| "body_deserialize env cls_KeyValueVictimsetEdgesetMessage = KeyValueVictimsetEdgesetMessage_deserializeInternal env"
| "body_deserialize env cls_KeyVictimsetEdgesetMessage = KeyVictimsetEdgesetMessage_deserializeInternal"
| "body_deserialize env cls_KeyVictimsetMessage = KeyVictimsetMessage_deserializeInternal"
| "body_deserialize env cls_KeyWriteflagValidityDirectoryMessage = KeyWriteflagValidityDirectoryMessage_deserializeInternal"
| "body_deserialize env cls_KeyWriteflagValidityDirectorySyncinfoMessage = KeyWriteflagValidityDirectorySyncinfoMessage_deserializeInternal"
| "body_deserialize env cls_KeyWriteflagValidityDirectoryVictimsetEdgesetMessage = KeyWriteflagValidityDirectoryVictimsetEdgesetMessage_deserializeInternal"
| "body_deserialize env cls_KeyWriteflagValidityDirectoryVictimsetFphintMessage = KeyWriteflagValidityDirectoryVictimsetFphintMessage_deserializeInternal"
| "body_deserialize env cls_KeyWriteflagValidityDirectoryVictimsetMessage = KeyWriteflagValidityDirectoryVictimsetMessage_deserializeInternal"
| "body_deserialize env cls_SimpleMessage = SimpleMessage_deserializeInternal"
| "body_deserialize env cls_SingleVictimsetMessage = SingleVictimsetMessage_deserializeInternal"
| "body_deserialize env cls_UintAggstatMessage = UintAggstatMessage_deserializeInternal"
| "body_deserialize env cls_UintMessage = UintMessage_deserializeInternal"
| "body_deserialize env cls_UintTwoAggstatMessage = UintTwoAggstatMessage_deserializeInternal"
| "body_deserialize env cls_UintVictimsetMessage = UintVictimsetMessage_deserializeInternal"

section \<open>Formats\<close>

fun body_wf :: "message_body \<Rightarrow> bool" where
  "body_wf (DoubleVictimsetMessage fs vs) = (VictimSyncset_wf fs \<and> VictimSyncset_wf vs)"
| "body_wf (KeyByteMessage k b) = (Key_wf k)"
| "body_wf (KeyByteSyncinfoMessage k b si) = (Key_wf k)"
| "body_wf (KeyByteVictimsetEdgesetMessage k b vs es) = (Key_wf k \<and> VictimSyncset_wf vs \<and> distinct es \<and> length es < 2 ^ 32)"
| "body_wf (KeyByteVictimsetMessage k b vs) = (Key_wf k \<and> VictimSyncset_wf vs)"
| "body_wf (KeyCollectpopVictimsetMessage k cp vs) = (Key_wf k \<and> CollectedPopularity_wf cp \<and> VictimSyncset_wf vs)"
| "body_wf (KeyEdgesetMessage k es) = (Key_wf k \<and> distinct es \<and> length es < 2 ^ 32)"
| "body_wf (KeyHitflagUtilizationMessage k h n c) = (Key_wf k)"
| "body_wf (KeyMessage k) = (Key_wf k)"
| "body_wf (KeySyncinfoMessage k si) = (Key_wf k)"
| "body_wf (KeyTwoByteVictimsetMessage k b1 b2 vs) = (Key_wf k \<and> VictimSyncset_wf vs)"
| "body_wf (KeyValidityDirectoryCollectpopVictimsetMessage k e d cp vs) = (Key_wf k \<and> VictimSyncset_wf vs \<and> (if e then cp = CollectedPopularity_new else CollectedPopularity_wf cp))"
| "body_wf (KeyValidityDirectoryMessage k e d) = (Key_wf k)"
| "body_wf (KeyValidityDirectorySyncinfoMessage k e d si) = (Key_wf k)"
| "body_wf (KeyValueByteSyncinfoMessage k v b si) = (Key_wf k)"
| "body_wf (KeyValueByteVictimsetMessage k v b vs) = (Key_wf k \<and> VictimSyncset_wf vs)"
| "body_wf (KeyValueDirectoryVictimsetEdgesetMessage k v d vs es) = (Key_wf k \<and> VictimSyncset_wf vs \<and> distinct es \<and> length es < 2 ^ 32)"
| "body_wf (KeyValueEdgesetMessage k v es) = (Key_wf k \<and> distinct es \<and> length es < 2 ^ 32)"
| "body_wf (KeyValueHitflagMessage k v h) = (Key_wf k)"
| "body_wf (KeyValueHitflagUtilizationMessage k v h n c) = (Key_wf k)"
| "body_wf (KeyValueHitflagVictimsetEdgesetMessage k v h vs es) = (Key_wf k \<and> VictimSyncset_wf vs \<and> distinct es \<and> length es < 2 ^ 32)"
| "body_wf (KeyValueMessage k v) = (Key_wf k)"
| "body_wf (KeyValuePlaceinfoSyncinfoMessage k v pl si) = (Key_wf k)"
| "body_wf (KeyValueVictimsetEdgesetMessage k v vs es) = (Key_wf k \<and> VictimSyncset_wf vs \<and> distinct es \<and> length es < 2 ^ 32)"
| "body_wf (KeyVictimsetEdgesetMessage k vs es) = (Key_wf k \<and> VictimSyncset_wf vs \<and> distinct es \<and> length es < 2 ^ 32)"
| "body_wf (KeyVictimsetMessage k vs) = (Key_wf k \<and> VictimSyncset_wf vs)"
| "body_wf (KeyWriteflagValidityDirectoryMessage k wr e d) = (Key_wf k)"
| "body_wf (KeyWriteflagValidityDirectorySyncinfoMessage k wr e d si) = (Key_wf k)"
| "body_wf (KeyWriteflagValidityDirectoryVictimsetEdgesetMessage k wr e d vs es) = (Key_wf k \<and> VictimSyncset_wf vs \<and> distinct es \<and> length es < 2 ^ 32)"
| "body_wf (KeyWriteflagValidityDirectoryVictimsetFphintMessage k wr e d vs fh) = (Key_wf k \<and> VictimSyncset_wf vs \<and> hint_is_valid fh)"
| "body_wf (KeyWriteflagValidityDirectoryVictimsetMessage k wr e d vs) = (Key_wf k \<and> VictimSyncset_wf vs)"
| "body_wf SimpleMessage = (True)"
| "body_wf (SingleVictimsetMessage fs) = (VictimSyncset_wf fs)"
| "body_wf (UintAggstatMessage u st) = (True)"
| "body_wf (UintMessage u) = (True)"
| "body_wf (UintTwoAggstatMessage u st1 st2) = (True)"
| "body_wf (UintVictimsetMessage u vs) = (VictimSyncset_wf vs)"

fun body_enc :: "message_body \<Rightarrow> u8 list" where
  "body_enc (DoubleVictimsetMessage fs vs) = VictimSyncset_enc fs @ VictimSyncset_enc vs @ []"
| "body_enc (KeyByteMessage k b) = Key_enc k @ [b] @ []"
| "body_enc (KeyByteSyncinfoMessage k b si) = Key_enc k @ [b] @ BestGuessSyncinfo_enc si @ []"
| "body_enc (KeyByteVictimsetEdgesetMessage k b vs es) = Key_enc k @ [b] @ VictimSyncset_enc vs @ edge_idx_wire.counted_enc es @ []"
| "body_enc (KeyByteVictimsetMessage k b vs) = Key_enc k @ [b] @ VictimSyncset_enc vs @ []"
| "body_enc (KeyCollectpopVictimsetMessage k cp vs) = Key_enc k @ CollectedPopularity_enc cp @ VictimSyncset_enc vs @ []"
| "body_enc (KeyEdgesetMessage k es) = Key_enc k @ edge_idx_wire.counted_enc es @ []"
| "body_enc (KeyHitflagUtilizationMessage k h n c) = Key_enc k @ [h] @ u64_mem n @ u64_mem c @ []"
| "body_enc (KeyMessage k) = Key_enc k @ []"
| "body_enc (KeySyncinfoMessage k si) = Key_enc k @ BestGuessSyncinfo_enc si @ []"
| "body_enc (KeyTwoByteVictimsetMessage k b1 b2 vs) = Key_enc k @ [b1] @ [b2] @ VictimSyncset_enc vs @ []"
| "body_enc (KeyValidityDirectoryCollectpopVictimsetMessage k e d cp vs) = Key_enc k @ bool_mem e @ DirectoryInfo_enc d @ (if e then [] else CollectedPopularity_enc cp) @ VictimSyncset_enc vs @ []"
| "body_enc (KeyValidityDirectoryMessage k e d) = Key_enc k @ bool_mem e @ DirectoryInfo_enc d @ []"
| "body_enc (KeyValidityDirectorySyncinfoMessage k e d si) = Key_enc k @ bool_mem e @ DirectoryInfo_enc d @ BestGuessSyncinfo_enc si @ []"
| "body_enc (KeyValueByteSyncinfoMessage k v b si) = Key_enc k @ Value_enc v @ [b] @ BestGuessSyncinfo_enc si @ []"
| "body_enc (KeyValueByteVictimsetMessage k v b vs) = Key_enc k @ Value_enc v @ [b] @ VictimSyncset_enc vs @ []"
| "body_enc (KeyValueDirectoryVictimsetEdgesetMessage k v d vs es) = Key_enc k @ Value_enc v @ DirectoryInfo_enc d @ VictimSyncset_enc vs @ edge_idx_wire.counted_enc es @ []"
| "body_enc (KeyValueEdgesetMessage k v es) = Key_enc k @ Value_enc v @ edge_idx_wire.counted_enc es @ []"
| "body_enc (KeyValueHitflagMessage k v h) = Key_enc k @ Value_enc v @ [h] @ []"
| "body_enc (KeyValueHitflagUtilizationMessage k v h n c) = Key_enc k @ Value_enc v @ [h] @ u64_mem n @ u64_mem c @ []"
| "body_enc (KeyValueHitflagVictimsetEdgesetMessage k v h vs es) = Key_enc k @ Value_enc v @ [h] @ VictimSyncset_enc vs @ edge_idx_wire.counted_enc es @ []"
| "body_enc (KeyValueMessage k v) = Key_enc k @ Value_enc v @ []"
| "body_enc (KeyValuePlaceinfoSyncinfoMessage k v pl si) = Key_enc k @ Value_enc v @ BestGuessPlaceinfo_enc pl @ BestGuessSyncinfo_enc si @ []"
| "body_enc (KeyValueVictimsetEdgesetMessage k v vs es) = Key_enc k @ Value_enc v @ VictimSyncset_enc vs @ edge_idx_wire.counted_enc es @ []"
| "body_enc (KeyVictimsetEdgesetMessage k vs es) = Key_enc k @ VictimSyncset_enc vs @ edge_idx_wire.counted_enc es @ []"
| "body_enc (KeyVictimsetMessage k vs) = Key_enc k @ VictimSyncset_enc vs @ []"
| "body_enc (KeyWriteflagValidityDirectoryMessage k wr e d) = Key_enc k @ bool_mem wr @ bool_mem e @ DirectoryInfo_enc d @ []"
| "body_enc (KeyWriteflagValidityDirectorySyncinfoMessage k wr e d si) = Key_enc k @ bool_mem wr @ bool_mem e @ DirectoryInfo_enc d @ BestGuessSyncinfo_enc si @ []"
| "body_enc (KeyWriteflagValidityDirectoryVictimsetEdgesetMessage k wr e d vs es) = Key_enc k @ bool_mem wr @ bool_mem e @ DirectoryInfo_enc d @ VictimSyncset_enc vs @ edge_idx_wire.counted_enc es @ []"
| "body_enc (KeyWriteflagValidityDirectoryVictimsetFphintMessage k wr e d vs fh) = Key_enc k @ bool_mem wr @ bool_mem e @ DirectoryInfo_enc d @ VictimSyncset_enc vs @ FastPathHint_enc fh @ []"
| "body_enc (KeyWriteflagValidityDirectoryVictimsetMessage k wr e d vs) = Key_enc k @ bool_mem wr @ bool_mem e @ DirectoryInfo_enc d @ VictimSyncset_enc vs @ []"
| "body_enc SimpleMessage = []"
| "body_enc (SingleVictimsetMessage fs) = VictimSyncset_enc fs @ []"
| "body_enc (UintAggstatMessage u st) = htonl_mem u @ AggregatedStatistics_enc st @ []"
| "body_enc (UintMessage u) = htonl_mem u @ []"
| "body_enc (UintTwoAggstatMessage u st1 st2) = htonl_mem u @ AggregatedStatistics_enc st1 @ AggregatedStatistics_enc st2 @ []"
| "body_enc (UintVictimsetMessage u vs) = htonl_mem u @ VictimSyncset_enc vs @ []"

lemmas body_serialize_defs =
  DoubleVictimsetMessage_serializeInternal_def
  KeyByteMessage_serializeInternal_def
  KeyByteSyncinfoMessage_serializeInternal_def
  KeyByteVictimsetEdgesetMessage_serializeInternal_def
  KeyByteVictimsetMessage_serializeInternal_def
  KeyCollectpopVictimsetMessage_serializeInternal_def
  KeyEdgesetMessage_serializeInternal_def
  KeyHitflagUtilizationMessage_serializeInternal_def
  KeyMessage_serializeInternal_def
  KeySyncinfoMessage_serializeInternal_def
  KeyTwoByteVictimsetMessage_serializeInternal_def
  KeyValidityDirectoryCollectpopVictimsetMessage_serializeInternal_def
  KeyValidityDirectoryMessage_serializeInternal_def
  KeyValidityDirectorySyncinfoMessage_serializeInternal_def
  KeyValueByteSyncinfoMessage_serializeInternal_def
  KeyValueByteVictimsetMessage_serializeInternal_def
  KeyValueDirectoryVictimsetEdgesetMessage_serializeInternal_def
  KeyValueEdgesetMessage_serializeInternal_def
  KeyValueHitflagMessage_serializeInternal_def
  KeyValueHitflagUtilizationMessage_serializeInternal_def
  KeyValueHitflagVictimsetEdgesetMessage_serializeInternal_def
  KeyValueMessage_serializeInternal_def
  KeyValuePlaceinfoSyncinfoMessage_serializeInternal_def
  KeyValueVictimsetEdgesetMessage_serializeInternal_def
  KeyVictimsetEdgesetMessage_serializeInternal_def
  KeyVictimsetMessage_serializeInternal_def
  KeyWriteflagValidityDirectoryMessage_serializeInternal_def
  KeyWriteflagValidityDirectorySyncinfoMessage_serializeInternal_def
  KeyWriteflagValidityDirectoryVictimsetEdgesetMessage_serializeInternal_def
  KeyWriteflagValidityDirectoryVictimsetFphintMessage_serializeInternal_def
  KeyWriteflagValidityDirectoryVictimsetMessage_serializeInternal_def
  SimpleMessage_serializeInternal_def
  SingleVictimsetMessage_serializeInternal_def
  UintAggstatMessage_serializeInternal_def
  UintMessage_serializeInternal_def
  UintTwoAggstatMessage_serializeInternal_def
  UintVictimsetMessage_serializeInternal_def

lemmas body_deserialize_defs =
  DoubleVictimsetMessage_deserializeInternal_def
  KeyByteMessage_deserializeInternal_def
  KeyByteSyncinfoMessage_deserializeInternal_def
  KeyByteVictimsetEdgesetMessage_deserializeInternal_def
  KeyByteVictimsetMessage_deserializeInternal_def
  KeyCollectpopVictimsetMessage_deserializeInternal_def
  KeyEdgesetMessage_deserializeInternal_def
  KeyHitflagUtilizationMessage_deserializeInternal_def
  KeyMessage_deserializeInternal_def
  KeySyncinfoMessage_deserializeInternal_def
  KeyTwoByteVictimsetMessage_deserializeInternal_def
  KeyValidityDirectoryCollectpopVictimsetMessage_deserializeInternal_def
  KeyValidityDirectoryMessage_deserializeInternal_def
  KeyValidityDirectorySyncinfoMessage_deserializeInternal_def
  KeyValueByteSyncinfoMessage_deserializeInternal_def
  KeyValueByteVictimsetMessage_deserializeInternal_def
  KeyValueDirectoryVictimsetEdgesetMessage_deserializeInternal_def
  KeyValueEdgesetMessage_deserializeInternal_def
  KeyValueHitflagMessage_deserializeInternal_def
  KeyValueHitflagUtilizationMessage_deserializeInternal_def
  KeyValueHitflagVictimsetEdgesetMessage_deserializeInternal_def
  KeyValueMessage_deserializeInternal_def
  KeyValuePlaceinfoSyncinfoMessage_deserializeInternal_def
  KeyValueVictimsetEdgesetMessage_deserializeInternal_def
  KeyVictimsetEdgesetMessage_deserializeInternal_def
  KeyVictimsetMessage_deserializeInternal_def
  KeyWriteflagValidityDirectoryMessage_deserializeInternal_def
  KeyWriteflagValidityDirectorySyncinfoMessage_deserializeInternal_def
  KeyWriteflagValidityDirectoryVictimsetEdgesetMessage_deserializeInternal_def
  KeyWriteflagValidityDirectoryVictimsetFphintMessage_deserializeInternal_def
  KeyWriteflagValidityDirectoryVictimsetMessage_deserializeInternal_def
  SimpleMessage_deserializeInternal_def
  SingleVictimsetMessage_deserializeInternal_def
  UintAggstatMessage_deserializeInternal_def
  UintMessage_deserializeInternal_def
  UintTwoAggstatMessage_deserializeInternal_def
  UintVictimsetMessage_deserializeInternal_def

lemmas body_size_defs =
  DoubleVictimsetMessage_getMsgPayloadSizeInternal_def
  KeyByteMessage_getMsgPayloadSizeInternal_def
  KeyByteSyncinfoMessage_getMsgPayloadSizeInternal_def
  KeyByteVictimsetEdgesetMessage_getMsgPayloadSizeInternal_def
  KeyByteVictimsetMessage_getMsgPayloadSizeInternal_def
  KeyCollectpopVictimsetMessage_getMsgPayloadSizeInternal_def
  KeyEdgesetMessage_getMsgPayloadSizeInternal_def
  KeyHitflagUtilizationMessage_getMsgPayloadSizeInternal_def
  KeyMessage_getMsgPayloadSizeInternal_def
  KeySyncinfoMessage_getMsgPayloadSizeInternal_def
  KeyTwoByteVictimsetMessage_getMsgPayloadSizeInternal_def
  KeyValidityDirectoryCollectpopVictimsetMessage_getMsgPayloadSizeInternal_def
  KeyValidityDirectoryMessage_getMsgPayloadSizeInternal_def
  KeyValidityDirectorySyncinfoMessage_getMsgPayloadSizeInternal_def
  KeyValueByteSyncinfoMessage_getMsgPayloadSizeInternal_def
  KeyValueByteVictimsetMessage_getMsgPayloadSizeInternal_def
  KeyValueDirectoryVictimsetEdgesetMessage_getMsgPayloadSizeInternal_def
  KeyValueEdgesetMessage_getMsgPayloadSizeInternal_def
  KeyValueHitflagMessage_getMsgPayloadSizeInternal_def
  KeyValueHitflagUtilizationMessage_getMsgPayloadSizeInternal_def
  KeyValueHitflagVictimsetEdgesetMessage_getMsgPayloadSizeInternal_def
  KeyValueMessage_getMsgPayloadSizeInternal_def
  KeyValuePlaceinfoSyncinfoMessage_getMsgPayloadSizeInternal_def
  KeyValueVictimsetEdgesetMessage_getMsgPayloadSizeInternal_def
  KeyVictimsetEdgesetMessage_getMsgPayloadSizeInternal_def
  KeyVictimsetMessage_getMsgPayloadSizeInternal_def
  KeyWriteflagValidityDirectoryMessage_getMsgPayloadSizeInternal_def
  KeyWriteflagValidityDirectorySyncinfoMessage_getMsgPayloadSizeInternal_def
  KeyWriteflagValidityDirectoryVictimsetEdgesetMessage_getMsgPayloadSizeInternal_def
  KeyWriteflagValidityDirectoryVictimsetFphintMessage_getMsgPayloadSizeInternal_def
  KeyWriteflagValidityDirectoryVictimsetMessage_getMsgPayloadSizeInternal_def
  SimpleMessage_getMsgPayloadSizeInternal_def
  SingleVictimsetMessage_getMsgPayloadSizeInternal_def
  UintAggstatMessage_getMsgPayloadSizeInternal_def
  UintMessage_getMsgPayloadSizeInternal_def
  UintTwoAggstatMessage_getMsgPayloadSizeInternal_def
  UintVictimsetMessage_getMsgPayloadSizeInternal_def

text \<open>The classes of the fields, from their contracts elsewhere.\<close>

interpretation key_field: message_field Key_wf Key_enc "\<lambda>_. True" Key_serialize Key_deserialize
  by unfold_locales (simp flip: length_greater_0_conv)

interpretation value_field: message_field "\<lambda>_. True" Value_enc "\<lambda>_. True" "Value_serialize r g b" "Value_deserialize b" for r g b
  by unfold_locales (simp flip: length_greater_0_conv)

interpretation dirinfo_field: message_field "\<lambda>_. True" DirectoryInfo_enc "\<lambda>_. True" DirectoryInfo_serialize DirectoryInfo_deserialize
  by unfold_locales (simp add: DirectoryInfo_enc_def)

interpretation collected_field: message_field CollectedPopularity_wf CollectedPopularity_enc "\<lambda>y. y = CollectedPopularity_new"
    CollectedPopularity_serialize CollectedPopularity_deserialize
  by unfold_locales (simp add: CollectedPopularity_enc_def)

interpretation hint_field: message_field hint_is_valid FastPathHint_enc "\<lambda>_. True" FastPathHint_serialize FastPathHint_deserialize
  by unfold_locales (simp add: FastPathHint_enc_def)

interpretation edgeset_field: message_field "\<lambda>es. distinct es \<and> length es < 2 ^ 32" edge_idx_wire.counted_enc "\<lambda>y. y = []"
    Edgeset_serialize Edgeset_deserialize
  by unfold_locales (simp add: edge_idx_wire.counted_enc_def)

interpretation syncset_field: message_field VictimSyncset_wf VictimSyncset_enc "\<lambda>y. y = VictimSyncset_invalid"
    VictimSyncset_serialize VictimSyncset_deserialize
  by unfold_locales (simp add: VictimSyncset_enc_def head_enc_def)

lemmas field_writes = writes_on_field [OF key_field.writes_field] writes_on_field [OF value_field.writes_field]
  writes_on_field [OF dirinfo_field.writes_field] writes_on_field [OF collected_field.writes_field]
  writes_on_field [OF hint_field.writes_field] writes_on_field [OF edgeset_field.writes_field]
  writes_on_field [OF syncset_field.writes_field] writes_on_field [OF syncinfo_field.writes_field]
  writes_on_field [OF placeinfo_field.writes_field] writes_on_field [OF statistics_field.writes_field]

lemmas field_reads = reads_on_field [OF key_field.reads_field] reads_on_field [OF value_field.reads_field]
  reads_on_field [OF dirinfo_field.reads_field] reads_on_field [OF collected_field.reads_field]
  reads_on_field [OF hint_field.reads_field] reads_on_field [OF edgeset_field.reads_field]
  reads_on_field [OF syncset_field.reads_field] reads_on_field [OF syncinfo_field.reads_field]
  reads_on_field [OF placeinfo_field.reads_field] reads_on_field [OF statistics_field.reads_field]

section \<open>Every body is written and read back\<close>

lemma body_writes: "body_wf m \<Longrightarrow> writes (body_serialize env m) (body_enc m)"
proof (cases m)
  case (KeyValidityDirectoryCollectpopVictimsetMessage k e d cp vs)
  assume "body_wf m"
  then show ?thesis
    unfolding KeyValidityDirectoryCollectpopVictimsetMessage body_serialize.simps body_enc.simps body_wf.simps
      KeyValidityDirectoryCollectpopVictimsetMessage_serializeInternal_def
    by (cases e; simp only: if_True if_False simp_thms append_Nil; intro writes_whole field_writes writes_on_mem writes_on_end; simp)
qed (simp only: body_serialize.simps body_serialize_defs body_enc.simps body_wf.simps;
     intro writes_whole field_writes writes_on_mem writes_on_end; simp)+

lemma body_reads: "body_wf m \<Longrightarrow> reads (body_deserialize env (body_class m)) (body_enc m) m"
proof (cases m)
  case (KeyValidityDirectoryCollectpopVictimsetMessage k e d cp vs)
  assume "body_wf m"
  then show ?thesis
    unfolding KeyValidityDirectoryCollectpopVictimsetMessage body_deserialize.simps body_enc.simps body_wf.simps body_class.simps
      KeyValidityDirectoryCollectpopVictimsetMessage_deserializeInternal_def
    by (cases e; simp only: if_True if_False simp_thms append_Nil;
        intro reads_whole field_reads reads_on_mem; (simp only: mem_bool_inverse if_True if_False)?;
        (intro field_reads reads_on_end)?; simp)
qed (simp only: body_deserialize.simps body_deserialize_defs body_enc.simps body_wf.simps body_class.simps;
     intro reads_whole field_reads reads_on_mem reads_on_end; simp)+

section \<open>The announced sizes\<close>

lemma sum_sizes_enc:
  assumes "\<forall>x \<in> set xs. f x = Inr (word_of_nat (length (g x)))"
  shows "sum_sizes f xs acc = Inr (acc + word_of_nat (length (concat (map g xs))))"
  using assms by (induction xs arbitrary: acc) (simp_all add: add.assoc)

lemma victim_payload: "VictimCacheinfo_wf v \<Longrightarrow> VictimCacheinfo_getVictimCacheinfoPayloadSize v = Inr (word_of_nat (length (VictimCacheinfo_enc v)))"
  by (simp add: VictimCacheinfo_getVictimCacheinfoPayloadSize_def VictimCacheinfo_wf_def VictimCacheinfo_sendable_def validE_def
      VictimCacheinfo_enc_def opt_enc_def sized_def Key_getKeyPayloadSize_def)

lemma keyed_set_payload:
  "keyed_set_wf b \<Longrightarrow> (case b of (k, ds) \<Rightarrow> bindE (DirinfoSet_getDirinfoSetPayloadSize ds) (\<lambda>n. Inr (Key_getKeyPayloadSize k + n)))
     = Inr (word_of_nat (length (keyed_set_enc b)))"
  by (cases b) (simp add: keyed_set_wf_def keyed_set_enc_def length_DirinfoSet_enc Key_getKeyPayloadSize_def)

lemma syncset_payload:
  assumes "VictimSyncset_wf s"
  shows "VictimSyncset_getVictimSyncsetPayloadSize s = Inr (word_of_nat (length (VictimSyncset_enc s)))"
proof -
  have "syncset_shape s" using assms by (simp add: VictimSyncset_wf_def VictimSyncset_sendable_def)
  then obtain dm ds db where b: "compressed_bitmap s = sync_bits dm ds (local_synced_victims s = []) db (local_beaconed_victims s = [])"
    by (rule shape_bits)
  have 1: "sum_sizes VictimCacheinfo_getVictimCacheinfoPayloadSize (local_synced_victims s) acc
      = Inr (acc + word_of_nat (length (victim_wire.enc_list (local_synced_victims s))))" for acc
    unfolding victim_wire.enc_list_def
    by (rule sum_sizes_enc) (use assms victim_payload in \<open>auto simp: VictimSyncset_wf_def\<close>)
  have 2: "sum_sizes (\<lambda>(k, ds). bindE (DirinfoSet_getDirinfoSetPayloadSize ds) (\<lambda>n. Inr (Key_getKeyPayloadSize k + n))) (local_beaconed_victims s) acc
      = Inr (acc + word_of_nat (length (keyed_set_wire.enc_list (local_beaconed_victims s))))" for acc
    unfolding keyed_set_wire.enc_list_def
    by (rule sum_sizes_enc) (use assms keyed_set_payload in \<open>auto simp: VictimSyncset_wf_def VictimSyncset_sendable_def\<close>)
  show ?thesis using 1 2
    by (auto simp: VictimSyncset_getVictimSyncsetPayloadSize_def Let_def b VictimSyncset_enc_def head_enc_def length_margin_mem
        synced_enc_def beaconed_enc_def victim_wire.counted_enc_def keyed_set_wire.counted_enc_def add.assoc)
qed

lemmas field_sizes = syncset_payload Edgeset_payload_size Key_getKeyPayloadSize_def Value_getValuePayloadSize_def
  DirectoryInfo_getDirectoryInfoPayloadSize_def CollectedPopularity_getCollectedPopularityPayloadSize_def CollectedPopularity_enc_def
  FastPathHint_getFastPathHintPayloadSize_def FastPathHint_enc_def BestGuessSyncinfo_getSyncinfoPayloadSize_def BestGuessSyncinfo_enc_def
  BestGuessPlaceinfo_getPlaceinfoPayloadSize_def BestGuessPlaceinfo_enc_def DirectoryInfo_enc_def
  AggregatedStatistics_getAggregatedStatisticsIOSize_def AggregatedStatistics_enc_def BandwidthUsage_getBandwidthUsagePayloadSize_def BandwidthUsage_enc_def

lemma body_size_enc: "body_wf m \<Longrightarrow> body_size env m = Inr (word_of_nat (length (body_enc m)))"
  by (cases m) (simp_all add: body_size_defs field_sizes split: if_splits)

end
