(* ===== verification/Message_Base.thy ===== *)
theory Message_Base
  imports Message_Bodies Udp_Roundtrip
begin

text \<open>
  \<open>MessageBase\<close> (\<open>message/message_base.c\<close>): the header all messages share, \<open>serialize\<close> and \<open>deserialize\<close>, and the construction of a
  message from received bytes by its type. \<open>is_response_\<close> is a function of the type; \<open>is_valid_\<close> is true of every message
  outside its constructor and left out.
\<close>

record message =
  msg_type :: message_type
  source_index :: u32
  source_addr :: network_addr
  msg_bandwidth_usage :: bandwidth_usage
  msg_event_list :: event_list
  msg_extra_common_msghdr :: extra_common_msghdr
  msg_body :: message_body

definition MessageBase_new ::
    "message_type \<Rightarrow> u32 \<Rightarrow> network_addr \<Rightarrow> bandwidth_usage \<Rightarrow> event_list \<Rightarrow> extra_common_msghdr \<Rightarrow> message_body \<Rightarrow> message" where
  "MessageBase_new t i addr u es h b = \<lparr>msg_type = t, source_index = i, source_addr = addr, msg_bandwidth_usage = u,
     msg_event_list = es, msg_extra_common_msghdr = h, msg_body = b\<rparr>"

definition MessageBase_getCommonMsghdrSize :: "msg_env \<Rightarrow> message \<Rightarrow> u32" where
  "MessageBase_getCommonMsghdrSize env m =
     (if is_response_type (msg_type m)
      then 4 + 4 + NetworkAddr_getAddrPayloadSize (source_addr m) + BandwidthUsage_getBandwidthUsagePayloadSize
           + EventList_getEventListPayloadSize (is_track_event env) (msg_event_list m)
           + ExtraCommonMsghdr_getExtraCommonMsghdrPayloadSize (msg_extra_common_msghdr m)
      else 4 + 4 + NetworkAddr_getAddrPayloadSize (source_addr m)
           + ExtraCommonMsghdr_getExtraCommonMsghdrPayloadSize (msg_extra_common_msghdr m))"

definition MessageBase_getMsgPayloadSize :: "msg_env \<Rightarrow> message \<Rightarrow> u32 exec" where
  "MessageBase_getMsgPayloadSize env m =
     bindE (body_size env (msg_body m)) (\<lambda>n. Inr (MessageBase_getCommonMsghdrSize env m + n))"

definition MessageBase_getMsgBandwidthSize :: "msg_env \<Rightarrow> message \<Rightarrow> u32 exec" where
  "MessageBase_getMsgBandwidthSize env m =
     bindE (body_bandwidth env (msg_body m)) (\<lambda>n. Inr (MessageBase_getCommonMsghdrSize env m + n))"

definition MessageBase_serialize :: "msg_env \<Rightarrow> message \<Rightarrow> dynamic_array \<Rightarrow> (dynamic_array \<times> u32) exec" where
  "MessageBase_serialize env m msg_payload =
     put_mem (htonl_mem (word_of_nat (msg_type m))) (
     put_mem (htonl_mem (source_index m)) (
     put_field (NetworkAddr_serialize (msg_inet env) (source_addr m)) (
     (if is_response_type (msg_type m)
      then (\<lambda>k. put_field (BandwidthUsage_serialize (msg_bandwidth_usage m)) (
                put_field (EventList_serialize (is_track_event env) (msg_event_list m)) k))
      else (\<lambda>k. k)) (
     put_field (ExtraCommonMsghdr_serialize (msg_extra_common_msghdr m)) (
     put_field (body_serialize env (msg_body m)) (
     put_end 0)))))) msg_payload 0"

definition MessageBase_deserializeMessageTypeFromMsgPayload :: "dynamic_array \<Rightarrow> (message_type \<times> u32) exec" where
  "MessageBase_deserializeMessageTypeFromMsgPayload msg_payload =
     bindE (DynamicArray_serialize msg_payload 0 4) (\<lambda>t. Inr (unat (mem_ntohl t), 4))"

text \<open>The constructor of a class of messages from bytes: the fields of a default object are overwritten.\<close>

definition MessageBase_deserialize :: "msg_env \<Rightarrow> message_class \<Rightarrow> dynamic_array \<Rightarrow> (message \<times> u32) exec" where
  "MessageBase_deserialize env c msg_payload =
     get_field (\<lambda>msg_payload _. MessageBase_deserializeMessageTypeFromMsgPayload msg_payload) (\<lambda>t.
     get_mem 4 (\<lambda>i.
     get_field (NetworkAddr_deserialize (msg_inet env) NetworkAddr_invalid) (\<lambda>addr.
     (if is_response_type t
      then (\<lambda>k. get_field (BandwidthUsage_deserialize BandwidthUsage_default) (\<lambda>u.
                get_field (EventList_deserialize (is_track_event env) []) (\<lambda>es. k u es)))
      else (\<lambda>k. k BandwidthUsage_default [])) (\<lambda>u es.
     get_field (ExtraCommonMsghdr_deserialize ExtraCommonMsghdr_default) (\<lambda>h.
     get_field (body_deserialize env c) (\<lambda>b.
     get_end 0 (MessageBase_new t (mem_ntohl i) addr u es h b))))))) msg_payload 0"

section \<open>Construction by type\<close>

text \<open>The classes that the two switches construct, with the class each inherits its fields from.\<close>

definition request_classes :: "(message_type \<times> message_class) list" where
  "request_classes =
     [(kLocalGetRequest, cls_KeyMessage), (kLocalPutRequest, cls_KeyValueMessage), (kLocalDelRequest, cls_KeyMessage),
      (kGlobalGetRequest, cls_KeyMessage), (kGlobalPutRequest, cls_KeyValueMessage), (kGlobalDelRequest, cls_KeyMessage),
      (kRedirectedGetRequest, cls_KeyMessage), (kInitializationRequest, cls_SimpleMessage),
      (kStartrunRequest, cls_SimpleMessage), (kSwitchSlotRequest, cls_UintMessage), (kFinishWarmupRequest, cls_SimpleMessage),
      (kFinishrunRequest, cls_SimpleMessage), (kDumpSnapshotRequest, cls_SimpleMessage),
      (kUpdateRulesRequest, cls_SimpleMessage), (kAcquireWritelockRequest, cls_KeyMessage),
      (kDirectoryLookupRequest, cls_KeyMessage), (kDirectoryUpdateRequest, cls_KeyValidityDirectoryMessage),
      (kFinishBlockRequest, cls_KeyMessage), (kInvalidationRequest, cls_KeyMessage),
      (kReleaseWritelockRequest, cls_KeyMessage), (kCoveredDirectoryLookupRequest, cls_KeyCollectpopVictimsetMessage),
      (kCoveredDirectoryUpdateRequest, cls_KeyValidityDirectoryCollectpopVictimsetMessage),
      (kCoveredAcquireWritelockRequest, cls_KeyCollectpopVictimsetMessage),
      (kCoveredReleaseWritelockRequest, cls_KeyCollectpopVictimsetMessage),
      (kCoveredRedirectedGetRequest, cls_KeyVictimsetMessage),
      (kCoveredBgfetchRedirectedGetRequest, cls_KeyVictimsetEdgesetMessage),
      (kCoveredBgfetchRedirectedGetResponse, cls_KeyValueHitflagVictimsetEdgesetMessage),
      (kCoveredBgfetchGlobalGetRequest, cls_KeyEdgesetMessage), (kCoveredBgfetchGlobalGetResponse, cls_KeyValueEdgesetMessage),
      (kCoveredBgplacePlacementNotifyRequest, cls_KeyValueByteVictimsetMessage),
      (kCoveredBgplaceDirectoryUpdateRequest, cls_KeyValidityDirectoryCollectpopVictimsetMessage),
      (kCoveredVictimFetchRequest, cls_UintMessage),
      (kCoveredFghybridHybridFetchedRequest, cls_KeyValueVictimsetEdgesetMessage),
      (kCoveredFghybridDirectoryAdmitRequest, cls_KeyValueDirectoryVictimsetEdgesetMessage),
      (kCoveredInvalidationRequest, cls_KeyMessage), (kCoveredFinishBlockRequest, cls_KeyVictimsetMessage),
      (kCoveredMetadataUpdateRequest, cls_KeyByteMessage),
      (kCoveredPlacementTriggerRequest, cls_KeyCollectpopVictimsetMessage),
      (kBestGuessPlacementTriggerRequest, cls_KeyValuePlaceinfoSyncinfoMessage),
      (kBestGuessDirectoryUpdateRequest, cls_KeyValidityDirectorySyncinfoMessage),
      (kBestGuessBgplaceDirectoryUpdateRequest, cls_KeyValidityDirectorySyncinfoMessage),
      (kBestGuessBgplacePlacementNotifyRequest, cls_KeyValueByteSyncinfoMessage),
      (kBestGuessDirectoryLookupRequest, cls_KeySyncinfoMessage), (kBestGuessFinishBlockRequest, cls_KeySyncinfoMessage),
      (kBestGuessAcquireWritelockRequest, cls_KeySyncinfoMessage), (kBestGuessInvalidationRequest, cls_KeySyncinfoMessage),
      (kBestGuessReleaseWritelockRequest, cls_KeySyncinfoMessage), (kBestGuessRedirectedGetRequest, cls_KeySyncinfoMessage)]"

definition response_classes :: "(message_type \<times> message_class) list" where
  "response_classes =
     [(kLocalGetResponse, cls_KeyValueHitflagUtilizationMessage), (kLocalPutResponse, cls_KeyHitflagUtilizationMessage),
      (kLocalDelResponse, cls_KeyHitflagUtilizationMessage), (kGlobalGetResponse, cls_KeyValueMessage),
      (kGlobalPutResponse, cls_KeyMessage), (kGlobalDelResponse, cls_KeyMessage),
      (kRedirectedGetResponse, cls_KeyValueHitflagMessage), (kInitializationResponse, cls_SimpleMessage),
      (kStartrunResponse, cls_SimpleMessage), (kSwitchSlotResponse, cls_UintAggstatMessage),
      (kFinishWarmupResponse, cls_SimpleMessage), (kFinishrunResponse, cls_UintTwoAggstatMessage),
      (kDumpSnapshotResponse, cls_SimpleMessage), (kSimpleFinishrunResponse, cls_SimpleMessage),
      (kUpdateRulesResponse, cls_SimpleMessage), (kAcquireWritelockResponse, cls_KeyByteMessage),
      (kDirectoryLookupResponse, cls_KeyWriteflagValidityDirectoryMessage), (kDirectoryUpdateResponse, cls_KeyByteMessage),
      (kFinishBlockResponse, cls_KeyMessage), (kInvalidationResponse, cls_KeyMessage),
      (kReleaseWritelockResponse, cls_KeyMessage),
      (kCoveredDirectoryLookupResponse, cls_KeyWriteflagValidityDirectoryVictimsetMessage),
      (kCoveredDirectoryUpdateResponse, cls_KeyTwoByteVictimsetMessage),
      (kCoveredAcquireWritelockResponse, cls_KeyByteVictimsetMessage),
      (kCoveredReleaseWritelockResponse, cls_KeyVictimsetMessage),
      (kCoveredRedirectedGetResponse, cls_KeyValueByteVictimsetMessage),
      (kCoveredBgfetchRedirectedGetResponse, cls_KeyValueHitflagVictimsetEdgesetMessage),
      (kCoveredBgfetchGlobalGetResponse, cls_KeyValueEdgesetMessage),
      (kCoveredBgplaceDirectoryUpdateResponse, cls_KeyTwoByteVictimsetMessage),
      (kCoveredVictimFetchResponse, cls_SingleVictimsetMessage),
      (kCoveredFghybridDirectoryLookupResponse, cls_KeyWriteflagValidityDirectoryVictimsetEdgesetMessage),
      (kCoveredFghybridDirectoryEvictResponse, cls_KeyByteVictimsetEdgesetMessage),
      (kCoveredFghybridReleaseWritelockResponse, cls_KeyVictimsetEdgesetMessage),
      (kCoveredFghybridHybridFetchedResponse, cls_KeyVictimsetMessage),
      (kCoveredFghybridDirectoryAdmitResponse, cls_KeyTwoByteVictimsetMessage), (kCoveredInvalidationResponse, cls_KeyMessage),
      (kCoveredFinishBlockResponse, cls_KeyVictimsetMessage),
      (kCoveredFastpathDirectoryLookupResponse, cls_KeyWriteflagValidityDirectoryVictimsetFphintMessage),
      (kCoveredPlacementTriggerResponse, cls_KeyVictimsetMessage),
      (kCoveredFghybridPlacementTriggerResponse, cls_KeyVictimsetEdgesetMessage),
      (kBestGuessPlacementTriggerResponse, cls_KeyByteSyncinfoMessage),
      (kBestGuessDirectoryUpdateResponse, cls_KeyByteSyncinfoMessage),
      (kBestGuessBgplaceDirectoryUpdateResponse, cls_KeyByteSyncinfoMessage),
      (kBestGuessDirectoryLookupResponse, cls_KeyWriteflagValidityDirectorySyncinfoMessage),
      (kBestGuessFinishBlockResponse, cls_KeySyncinfoMessage),
      (kBestGuessAcquireWritelockResponse, cls_KeyByteSyncinfoMessage),
      (kBestGuessInvalidationResponse, cls_KeySyncinfoMessage), (kBestGuessReleaseWritelockResponse, cls_KeySyncinfoMessage),
      (kBestGuessRedirectedGetResponse, cls_KeyValueByteSyncinfoMessage)]"

definition MessageBase_getRequestFromMsgPayload :: "msg_env \<Rightarrow> dynamic_array \<Rightarrow> message exec" where
  "MessageBase_getRequestFromMsgPayload env msg_payload =
     bindE (MessageBase_deserializeMessageTypeFromMsgPayload msg_payload) (\<lambda>(t, _).
     case map_of request_classes t of
       None \<Rightarrow> Inl Exited
     | Some c \<Rightarrow>
         bindE (MessageBase_deserialize env c msg_payload) (\<lambda>(m, _).
         let special_case = (t = kCoveredBgfetchRedirectedGetResponse \<or> t = kCoveredBgfetchGlobalGetResponse)
         in assertE (\<not> special_case \<longrightarrow> MessageBase_isDataRequest (msg_type m) \<or> MessageBase_isControlRequest (msg_type m)) (Inr m)))"

definition MessageBase_getResponseFromMsgPayload :: "msg_env \<Rightarrow> dynamic_array \<Rightarrow> message exec" where
  "MessageBase_getResponseFromMsgPayload env msg_payload =
     bindE (MessageBase_deserializeMessageTypeFromMsgPayload msg_payload) (\<lambda>(t, _).
     case map_of response_classes t of
       None \<Rightarrow> Inl Exited
     | Some c \<Rightarrow>
         bindE (MessageBase_deserialize env c msg_payload) (\<lambda>(m, _).
         assertE (MessageBase_isDataResponse (msg_type m) \<or> MessageBase_isControlResponse (msg_type m)) (Inr m)))"

fun body_victim_syncset_bytes :: "message_body \<Rightarrow> u32 exec" where
  "body_victim_syncset_bytes (DoubleVictimsetMessage _ vs) = VictimSyncset_getVictimSyncsetPayloadSize vs"
| "body_victim_syncset_bytes (KeyByteVictimsetEdgesetMessage _ _ vs _) = VictimSyncset_getVictimSyncsetPayloadSize vs"
| "body_victim_syncset_bytes (KeyByteVictimsetMessage _ _ vs) = VictimSyncset_getVictimSyncsetPayloadSize vs"
| "body_victim_syncset_bytes (KeyCollectpopVictimsetMessage _ _ vs) = VictimSyncset_getVictimSyncsetPayloadSize vs"
| "body_victim_syncset_bytes (KeyTwoByteVictimsetMessage _ _ _ vs) = VictimSyncset_getVictimSyncsetPayloadSize vs"
| "body_victim_syncset_bytes (KeyValidityDirectoryCollectpopVictimsetMessage _ _ _ _ vs) = VictimSyncset_getVictimSyncsetPayloadSize vs"
| "body_victim_syncset_bytes (KeyValueByteVictimsetMessage _ _ _ vs) = VictimSyncset_getVictimSyncsetPayloadSize vs"
| "body_victim_syncset_bytes (KeyValueDirectoryVictimsetEdgesetMessage _ _ _ vs _) = VictimSyncset_getVictimSyncsetPayloadSize vs"
| "body_victim_syncset_bytes (KeyValueHitflagVictimsetEdgesetMessage _ _ _ vs _) = VictimSyncset_getVictimSyncsetPayloadSize vs"
| "body_victim_syncset_bytes (KeyValueVictimsetEdgesetMessage _ _ vs _) = VictimSyncset_getVictimSyncsetPayloadSize vs"
| "body_victim_syncset_bytes (KeyVictimsetEdgesetMessage _ vs _) = VictimSyncset_getVictimSyncsetPayloadSize vs"
| "body_victim_syncset_bytes (KeyVictimsetMessage _ vs) = VictimSyncset_getVictimSyncsetPayloadSize vs"
| "body_victim_syncset_bytes (KeyWriteflagValidityDirectoryVictimsetEdgesetMessage _ _ _ _ vs _) = VictimSyncset_getVictimSyncsetPayloadSize vs"
| "body_victim_syncset_bytes (KeyWriteflagValidityDirectoryVictimsetFphintMessage _ _ _ _ vs _) = VictimSyncset_getVictimSyncsetPayloadSize vs"
| "body_victim_syncset_bytes (KeyWriteflagValidityDirectoryVictimsetMessage _ _ _ _ vs) = VictimSyncset_getVictimSyncsetPayloadSize vs"
| "body_victim_syncset_bytes (UintVictimsetMessage _ vs) = VictimSyncset_getVictimSyncsetPayloadSize vs"
| "body_victim_syncset_bytes _ = Inr 0"

text \<open>The bytes of a message that synchronise victims; \<open>MessageBase::getVictimSyncsetBytes\<close> is overridden by the classes with a victim syncset.\<close>

definition MessageBase_getVictimSyncsetBytes :: "message \<Rightarrow> u32 exec" where
  "MessageBase_getVictimSyncsetBytes m = body_victim_syncset_bytes (msg_body m)"

fun body_key :: "message_body \<Rightarrow> key option" where
  "body_key (DoubleVictimsetMessage _ _) = None"
| "body_key (KeyByteMessage k _) = Some k"
| "body_key (KeyByteSyncinfoMessage k _ _) = Some k"
| "body_key (KeyByteVictimsetEdgesetMessage k _ _ _) = Some k"
| "body_key (KeyByteVictimsetMessage k _ _) = Some k"
| "body_key (KeyCollectpopVictimsetMessage k _ _) = Some k"
| "body_key (KeyEdgesetMessage k _) = Some k"
| "body_key (KeyHitflagUtilizationMessage k _ _ _) = Some k"
| "body_key (KeyMessage k) = Some k"
| "body_key (KeySyncinfoMessage k _) = Some k"
| "body_key (KeyTwoByteVictimsetMessage k _ _ _) = Some k"
| "body_key (KeyValidityDirectoryCollectpopVictimsetMessage k _ _ _ _) = Some k"
| "body_key (KeyValidityDirectoryMessage k _ _) = Some k"
| "body_key (KeyValidityDirectorySyncinfoMessage k _ _ _) = Some k"
| "body_key (KeyValueByteSyncinfoMessage k _ _ _) = Some k"
| "body_key (KeyValueByteVictimsetMessage k _ _ _) = Some k"
| "body_key (KeyValueDirectoryVictimsetEdgesetMessage k _ _ _ _) = Some k"
| "body_key (KeyValueEdgesetMessage k _ _) = Some k"
| "body_key (KeyValueHitflagMessage k _ _) = Some k"
| "body_key (KeyValueHitflagUtilizationMessage k _ _ _ _) = Some k"
| "body_key (KeyValueHitflagVictimsetEdgesetMessage k _ _ _ _) = Some k"
| "body_key (KeyValueMessage k _) = Some k"
| "body_key (KeyValuePlaceinfoSyncinfoMessage k _ _ _) = Some k"
| "body_key (KeyValueVictimsetEdgesetMessage k _ _ _) = Some k"
| "body_key (KeyVictimsetEdgesetMessage k _ _) = Some k"
| "body_key (KeyVictimsetMessage k _) = Some k"
| "body_key (KeyWriteflagValidityDirectoryMessage k _ _ _) = Some k"
| "body_key (KeyWriteflagValidityDirectorySyncinfoMessage k _ _ _ _) = Some k"
| "body_key (KeyWriteflagValidityDirectoryVictimsetEdgesetMessage k _ _ _ _ _) = Some k"
| "body_key (KeyWriteflagValidityDirectoryVictimsetFphintMessage k _ _ _ _ _) = Some k"
| "body_key (KeyWriteflagValidityDirectoryVictimsetMessage k _ _ _ _) = Some k"
| "body_key SimpleMessage = None"
| "body_key (SingleVictimsetMessage _) = None"
| "body_key (UintAggstatMessage _ _) = None"
| "body_key (UintMessage _) = None"
| "body_key (UintTwoAggstatMessage _ _ _) = None"
| "body_key (UintVictimsetMessage _ _) = None"

text \<open>The types with a branch in \<open>getKeyFromMessage\<close>; a branch casts to the class of the type.\<close>

definition keyed_types :: "message_type list" where
  "keyed_types =
     [kLocalGetRequest, kLocalPutRequest, kLocalDelRequest, kLocalGetResponse, kLocalPutResponse, kLocalDelResponse,
      kGlobalGetRequest, kGlobalPutRequest, kGlobalDelRequest, kGlobalGetResponse, kGlobalPutResponse, kGlobalDelResponse,
      kRedirectedGetRequest, kRedirectedGetResponse, kAcquireWritelockRequest, kAcquireWritelockResponse,
      kDirectoryLookupRequest, kDirectoryUpdateRequest, kDirectoryLookupResponse, kDirectoryUpdateResponse,
      kFinishBlockRequest, kFinishBlockResponse, kInvalidationRequest, kInvalidationResponse, kReleaseWritelockRequest,
      kReleaseWritelockResponse, kCoveredDirectoryLookupRequest, kCoveredDirectoryLookupResponse,
      kCoveredDirectoryUpdateRequest, kCoveredDirectoryUpdateResponse, kCoveredAcquireWritelockRequest,
      kCoveredAcquireWritelockResponse, kCoveredReleaseWritelockRequest, kCoveredReleaseWritelockResponse,
      kCoveredRedirectedGetRequest, kCoveredRedirectedGetResponse, kCoveredBgfetchRedirectedGetRequest,
      kCoveredBgfetchRedirectedGetResponse, kCoveredBgfetchGlobalGetRequest, kCoveredBgfetchGlobalGetResponse,
      kCoveredBgplacePlacementNotifyRequest, kCoveredBgplaceDirectoryUpdateRequest, kCoveredBgplaceDirectoryUpdateResponse,
      kCoveredFghybridDirectoryLookupResponse, kCoveredFghybridDirectoryEvictResponse,
      kCoveredFghybridReleaseWritelockResponse, kCoveredFghybridHybridFetchedRequest, kCoveredFghybridHybridFetchedResponse,
      kCoveredFghybridDirectoryAdmitRequest, kCoveredFghybridDirectoryAdmitResponse, kCoveredInvalidationRequest,
      kCoveredInvalidationResponse, kCoveredFinishBlockRequest, kCoveredFinishBlockResponse,
      kCoveredFastpathDirectoryLookupResponse, kCoveredMetadataUpdateRequest, kCoveredPlacementTriggerRequest,
      kCoveredPlacementTriggerResponse, kCoveredFghybridPlacementTriggerResponse, kBestGuessPlacementTriggerRequest,
      kBestGuessPlacementTriggerResponse, kBestGuessDirectoryUpdateRequest, kBestGuessDirectoryUpdateResponse,
      kBestGuessBgplaceDirectoryUpdateRequest, kBestGuessBgplaceDirectoryUpdateResponse,
      kBestGuessBgplacePlacementNotifyRequest, kBestGuessDirectoryLookupRequest, kBestGuessDirectoryLookupResponse,
      kBestGuessFinishBlockRequest, kBestGuessFinishBlockResponse, kBestGuessAcquireWritelockRequest,
      kBestGuessAcquireWritelockResponse, kBestGuessInvalidationRequest, kBestGuessInvalidationResponse,
      kBestGuessReleaseWritelockRequest, kBestGuessReleaseWritelockResponse, kBestGuessRedirectedGetRequest,
      kBestGuessRedirectedGetResponse]"

definition MessageBase_getKeyFromMessage :: "message \<Rightarrow> key exec" where
  "MessageBase_getKeyFromMessage m =
     exit_ifE (msg_type m \<notin> set keyed_types)
       (case body_key (msg_body m) of Some k \<Rightarrow> Inr k | None \<Rightarrow> Inl Undefined)"

section \<open>The format of a message\<close>

definition message_classes :: "(message_type \<times> message_class) list" where
  "message_classes = request_classes @ response_classes"

text \<open>A message with an address that can be sent, a body of the class of its type that can be sent, and, if it is a request,
  no bandwidth usage and no events.\<close>

definition message_ok :: "msg_env \<Rightarrow> message \<Rightarrow> bool" where
  "message_ok env m \<longleftrightarrow> is_message_type (msg_type m) \<and> NetworkAddr_wf (msg_inet env) (source_addr m)
     \<and> map_of message_classes (msg_type m) = Some (body_class (msg_body m)) \<and> body_wf (msg_body m)
     \<and> (if is_response_type (msg_type m) then EventList_wf (is_track_event env) (msg_event_list m)
        else msg_bandwidth_usage m = BandwidthUsage_default \<and> msg_event_list m = [])"

definition message_rest :: "msg_env \<Rightarrow> message \<Rightarrow> u8 list" where
  "message_rest env m = htonl_mem (source_index m) @ NetworkAddr_enc (msg_inet env) (source_addr m)
     @ (if is_response_type (msg_type m)
        then BandwidthUsage_enc (msg_bandwidth_usage m) @ EventList_enc (is_track_event env) (msg_event_list m) else [])
     @ ExtraCommonMsghdr_enc (msg_extra_common_msghdr m) @ body_enc (msg_body m) @ []"

definition message_enc :: "msg_env \<Rightarrow> message \<Rightarrow> u8 list" where
  "message_enc env m = htonl_mem (word_of_nat (msg_type m)) @ message_rest env m"

interpretation addr_field: message_field "NetworkAddr_wf inet" "NetworkAddr_enc inet" "\<lambda>_. True"
    "NetworkAddr_serialize inet" "NetworkAddr_deserialize inet" for inet
  by unfold_locales (use length_NetworkAddr_enc in \<open>force simp flip: length_greater_0_conv\<close>)

lemmas header_writes = writes_on_field [OF addr_field.writes_field] writes_on_field [OF bandwidth_field.writes_field]
  writes_on_field [OF EventList_writes] writes_on_field [OF msghdr_field.writes_field] writes_on_field [OF body_writes]

lemmas header_reads = reads_on_field [OF addr_field.reads_field] reads_on_field [OF bandwidth_field.reads_field]
  reads_on_field [OF EventList_reads] reads_on_field [OF msghdr_field.reads_field] reads_on_field [OF body_reads]

lemma message_written:
  assumes "message_ok env m" and "length (message_enc env m) \<le> da_capacity a" and "length (message_enc env m) < 2 ^ 32"
  shows "MessageBase_serialize env m a = Inr (da_put 0 (message_enc env m) a, word_of_nat (length (message_enc env m)))"
proof -
  let ?w = "put_mem (htonl_mem (word_of_nat (msg_type m))) (put_mem (htonl_mem (source_index m)) (
     put_field (NetworkAddr_serialize (msg_inet env) (source_addr m)) (
     (if is_response_type (msg_type m)
      then (\<lambda>k. put_field (BandwidthUsage_serialize (msg_bandwidth_usage m)) (
                put_field (EventList_serialize (is_track_event env) (msg_event_list m)) k))
      else (\<lambda>k. k)) (
     put_field (ExtraCommonMsghdr_serialize (msg_extra_common_msghdr m)) (
     put_field (body_serialize env (msg_body m)) (put_end 0))))))"
  have "writes_on 0 ?w (message_enc env m)"
    using assms(1) unfolding message_enc_def message_rest_def message_ok_def
    by (cases "is_response_type (msg_type m)"; simp only: if_True if_False simp_thms append_Nil append_assoc;
        intro header_writes writes_on_mem writes_on_end; simp)
  moreover have "message_enc env m \<noteq> []" by (simp add: message_enc_def)
  ultimately show ?thesis using assms(2,3) by (simp add: writes_on_def MessageBase_serialize_def put_bytes_def)
qed

lemma message_payload:
  assumes "message_ok env m"
  shows "MessageBase_getMsgPayloadSize env m = Inr (word_of_nat (length (message_enc env m)))"
proof -
  have "length (NetworkAddr_enc (msg_inet env) (source_addr m)) = 6" "body_wf (msg_body m)"
    using assms length_NetworkAddr_enc by (simp_all add: message_ok_def)
  then show ?thesis
    by (simp add: MessageBase_getMsgPayloadSize_def MessageBase_getCommonMsghdrSize_def body_size_enc message_enc_def message_rest_def
        bandwidth_payload [of "msg_bandwidth_usage m"] EventList_payload NetworkAddr_getAddrPayloadSize_def
        ExtraCommonMsghdr_getExtraCommonMsghdrPayloadSize_def ExtraCommonMsghdr_enc_def)
qed

lemma message_type_small: "is_message_type t \<Longrightarrow> t < 2 ^ 32"
  by (auto simp: is_message_type_def all_message_types_def)

lemma message_type_read:
  assumes "message_ok env m" and "da_holds a 0 (message_enc env m)" and "length (message_enc env m) < 2 ^ 32"
  shows "MessageBase_deserializeMessageTypeFromMsgPayload a = Inr (msg_type m, 4)"
proof -
  have "da_holds a 0 (htonl_mem (word_of_nat (msg_type m)))" using assms(2) by (simp add: message_enc_def da_holds_append)
  then have "DynamicArray_serialize a 0 4 = Inr (htonl_mem (word_of_nat (msg_type m)))" by (intro serialize_ok) simp_all
  then show ?thesis using assms(1) message_type_small
    by (simp add: MessageBase_deserializeMessageTypeFromMsgPayload_def message_ok_def unat_of_nat_small)
qed

lemma message_read:
  assumes "message_ok env m" and h: "da_holds a 0 (message_enc env m)" and l: "length (message_enc env m) < 2 ^ 32"
  shows "MessageBase_deserialize env (body_class (msg_body m)) a = Inr (m, word_of_nat (length (message_enc env m)))"
proof -
  let ?r = "\<lambda>t. get_mem 4 (\<lambda>i. get_field (NetworkAddr_deserialize (msg_inet env) NetworkAddr_invalid) (\<lambda>addr.
     (if is_response_type t
      then (\<lambda>k. get_field (BandwidthUsage_deserialize BandwidthUsage_default) (\<lambda>u.
                get_field (EventList_deserialize (is_track_event env) []) (\<lambda>es. k u es)))
      else (\<lambda>k. k BandwidthUsage_default [])) (\<lambda>u es.
     get_field (ExtraCommonMsghdr_deserialize ExtraCommonMsghdr_default) (\<lambda>h.
     get_field (body_deserialize env (body_class (msg_body m))) (\<lambda>b.
     get_end 0 (MessageBase_new t (mem_ntohl i) addr u es h b))))))"
  have r: "reads_on 0 (?r (msg_type m)) (message_rest env m) m"
    using assms(1) unfolding message_rest_def message_ok_def
    by (cases "is_response_type (msg_type m)"; simp only: if_True if_False simp_thms append_Nil append_assoc;
        intro header_reads reads_on_mem reads_on_end; simp add: MessageBase_new_def)
  have "da_holds a (unat (4 :: u32)) (message_rest env m)" "unat (4 :: u32) + length (message_rest env m) < 2 ^ 32"
    using h l by (simp_all add: message_enc_def da_holds_append)
  then have "?r (msg_type m) a 4 = Inr (m, 4 + word_of_nat (length (message_rest env m)) - 0)"
    by (rule r [unfolded reads_on_def, rule_format])
  then show ?thesis using message_type_read [OF assms(1) h l] by (simp add: MessageBase_deserialize_def get_field_def message_enc_def)
qed

section \<open>The switches\<close>

lemma request_switch:
  "list_all (\<lambda>t. map_of request_classes t \<noteq> None \<longleftrightarrow> MessageBase_isDataRequest t \<or> MessageBase_isControlRequest t
     \<or> t = kCoveredBgfetchRedirectedGetResponse \<or> t = kCoveredBgfetchGlobalGetResponse) all_message_types"
  by (simp add: all_message_types_def message_kind_defs request_classes_def)

lemma response_switch: "list_all (\<lambda>t. map_of response_classes t \<noteq> None \<longleftrightarrow> is_response_type t) all_message_types"
  by (simp add: all_message_types_def message_kind_defs response_classes_def)

lemma special_cases:
  "map_of request_classes kCoveredBgfetchRedirectedGetResponse = Some cls_KeyValueHitflagVictimsetEdgesetMessage"
  "map_of response_classes kCoveredBgfetchRedirectedGetResponse = Some cls_KeyValueHitflagVictimsetEdgesetMessage"
  "map_of request_classes kCoveredBgfetchGlobalGetResponse = Some cls_KeyValueEdgesetMessage"
  "map_of response_classes kCoveredBgfetchGlobalGetResponse = Some cls_KeyValueEdgesetMessage"
  by (simp_all add: request_classes_def response_classes_def)

definition has_key :: "message_class \<Rightarrow> bool" where
  "has_key c \<longleftrightarrow> c \<notin> {cls_SimpleMessage, cls_UintMessage, cls_UintAggstatMessage, cls_UintTwoAggstatMessage,
     cls_UintVictimsetMessage, cls_SingleVictimsetMessage, cls_DoubleVictimsetMessage}"

lemma body_key_class: "body_key b \<noteq> None \<longleftrightarrow> has_key (body_class b)"
  by (cases b) (simp_all add: has_key_def)

lemma keyed_switch: "list_all (\<lambda>(t, c). t \<in> set keyed_types \<longleftrightarrow> has_key c) message_classes"
  by (simp add: message_classes_def request_classes_def response_classes_def keyed_types_def has_key_def)

lemma request_class:
  assumes "is_message_type t"
  shows "map_of request_classes t \<noteq> None \<longleftrightarrow> MessageBase_isDataRequest t \<or> MessageBase_isControlRequest t
     \<or> t = kCoveredBgfetchRedirectedGetResponse \<or> t = kCoveredBgfetchGlobalGetResponse"
  using request_switch assms unfolding list_all_iff is_message_type_def by blast

lemma response_class:
  assumes "is_message_type t"
  shows "map_of response_classes t \<noteq> None \<longleftrightarrow> is_response_type t"
  using response_switch assms unfolding list_all_iff is_message_type_def by blast

lemma class_of_request:
  "map_of request_classes t \<noteq> None \<Longrightarrow> map_of request_classes t = map_of message_classes t"
  by (auto simp: message_classes_def map_add_def)

lemma class_of_response:
  assumes "is_message_type t" and "is_response_type t"
  shows "map_of response_classes t = map_of message_classes t"
proof (cases "map_of request_classes t")
  case None
  then show ?thesis by (simp add: message_classes_def map_add_def)
next
  case (Some c)
  then have "t = kCoveredBgfetchRedirectedGetResponse \<or> t = kCoveredBgfetchGlobalGetResponse"
    using request_class [OF assms(1)] response_not_request [OF assms] by simp
  then show ?thesis using special_cases Some by (auto simp: message_classes_def map_add_def)
qed

section \<open>Messages arrive\<close>

definition special_response :: "message_type \<Rightarrow> bool" where
  "special_response t \<longleftrightarrow> t = kCoveredBgfetchRedirectedGetResponse \<or> t = kCoveredBgfetchGlobalGetResponse"

lemma message_request:
  assumes "message_ok env m" and h: "da_holds a 0 (message_enc env m)" and l: "length (message_enc env m) < 2 ^ 32"
  shows "MessageBase_getRequestFromMsgPayload env a
    = (if \<not> is_response_type (msg_type m) \<or> special_response (msg_type m) then Inr m else Inl Exited)"
proof -
  have t: "is_message_type (msg_type m)" and c: "map_of message_classes (msg_type m) = Some (body_class (msg_body m))"
    using assms(1) by (simp_all add: message_ok_def)
  note r = request_class [OF t] response_not_request [OF t] message_types_answered [OF t]
  show ?thesis
  proof (cases "map_of request_classes (msg_type m)")
    case None
    with r message_type_read [OF assms] show ?thesis
      by (auto simp: MessageBase_getRequestFromMsgPayload_def special_response_def)
  next
    case (Some d)
    then have "d = body_class (msg_body m)" using class_of_request [of "msg_type m"] c by simp
    with Some r message_type_read [OF assms] message_read [OF assms] show ?thesis
      by (auto simp: MessageBase_getRequestFromMsgPayload_def special_response_def)
  qed
qed

lemma message_response:
  assumes "message_ok env m" and h: "da_holds a 0 (message_enc env m)" and l: "length (message_enc env m) < 2 ^ 32"
  shows "MessageBase_getResponseFromMsgPayload env a = (if is_response_type (msg_type m) then Inr m else Inl Exited)"
proof -
  have t: "is_message_type (msg_type m)" and c: "map_of message_classes (msg_type m) = Some (body_class (msg_body m))"
    using assms(1) by (simp_all add: message_ok_def)
  show ?thesis
  proof (cases "is_response_type (msg_type m)")
    case False
    with response_class [OF t] message_type_read [OF assms] show ?thesis
      by (auto simp: MessageBase_getResponseFromMsgPayload_def)
  next
    case True
    then have "map_of response_classes (msg_type m) = Some (body_class (msg_body m))" using class_of_response [OF t] c by simp
    with True message_type_read [OF assms] message_read [OF assms] show ?thesis
      by (simp add: MessageBase_getResponseFromMsgPayload_def is_response_type_def)
  qed
qed

lemma message_key:
  assumes "message_ok env m"
  shows "MessageBase_getKeyFromMessage m = (case body_key (msg_body m) of Some k \<Rightarrow> Inr k | None \<Rightarrow> Inl Exited)"
proof -
  have "(msg_type m, body_class (msg_body m)) \<in> set message_classes" using assms by (auto simp: message_ok_def dest: map_of_SomeD)
  then have "msg_type m \<in> set keyed_types \<longleftrightarrow> has_key (body_class (msg_body m))"
    using keyed_switch by (auto simp: list_all_iff)
  then show ?thesis using body_key_class [of "msg_body m"] by (auto simp: MessageBase_getKeyFromMessage_def exit_ifE_def)
qed

text \<open>C40: Messages cross the network. The sender asks for a buffer of the size the message announces, fills it exactly and sends
  its fragments; in whatever order these arrive, the receiver rebuilds the bytes, and consumes no packet after the last one.
  The type decides what they become. Read as a request, the bytes of a request, and of the two responses the beacon server
  also receives as requests, become the message again; read as a response, those of a response; anything else ends
  the process. A message with a key yields its key, one without ends the process.\<close>

theorem message_over_network:
  assumes "message_ok env m" and "length (message_enc env m) < 2 ^ 32"
    and "NetworkAddr_wf (msg_inet env) addr" and "UDP_MIN_PORT < port addr"
    and "is_valid remote_addr" and "ipstr remote_addr \<noteq> any_ipstr" and "outdated st addr seqn"
  shows "\<exists>n pkts. MessageBase_getMsgPayloadSize env m = Inr n
    \<and> UdpMsgSocketClient_send (msg_inet env) any_ipstr seqn addr n (MessageBase_serialize env m) remote_addr = Inr (seqn + 1, pkts)
    \<and> (\<forall>evs rest. mset evs = mset (map (RecvPacket \<circ> da_bytes) pkts) \<longrightarrow>
        (\<exists>st' b. UdpMsgSocketServer_recv (msg_inet env) st (evs @ rest) buf = Inr (st', rest, False, b)
           \<and> MessageBase_getRequestFromMsgPayload env b
               = (if \<not> is_response_type (msg_type m) \<or> special_response (msg_type m) then Inr m else Inl Exited)
           \<and> MessageBase_getResponseFromMsgPayload env b = (if is_response_type (msg_type m) then Inr m else Inl Exited)))
    \<and> MessageBase_getKeyFromMessage m = (case body_key (msg_body m) of Some k \<Rightarrow> Inr k | None \<Rightarrow> Inl Exited)"
proof -
  let ?e = "message_enc env m" and ?n = "word_of_nat (length (message_enc env m)) :: u32"
  let ?a = "DynamicArray_with_capacity ?n"
  have len: "0 < length ?e" by (simp add: message_enc_def)
  have w: "MessageBase_serialize env m ?a = Inr (da_put 0 ?e ?a, ?n)"
    using message_written [OF assms(1) _ assms(2), of ?a] assms(2)
    by (simp add: DynamicArray_with_capacity_def DynamicArray_clear_def DynamicArray_new_def unat_of_nat_small)
  have b: "da_bytes (da_put 0 ?e ?a) = ?e"
    by (simp add: da_put_def DynamicArray_with_capacity_def DynamicArray_clear_def DynamicArray_new_def write_at_def grow_to_def)
  from packets_rebuild_message [where message_serialize = "MessageBase_serialize env m" and msg = ?e
      and message_payload = "da_put 0 ?e ?a" and buf = buf, OF assms(3-6) len assms(2) w b assms(7)]
  obtain pkts where p: "UdpMsgSocketClient_send (msg_inet env) any_ipstr seqn addr ?n (MessageBase_serialize env m) remote_addr = Inr (seqn + 1, pkts)"
    and r: "\<forall>evs rest. mset evs = mset (map (RecvPacket \<circ> da_bytes) pkts) \<longrightarrow>
          (\<exists>st' b. UdpMsgSocketServer_recv (msg_inet env) st (evs @ rest) buf = Inr (st', rest, False, b)
             \<and> da_bytes b = ?e \<and> outdated st' addr seqn \<and> (\<forall>k. k \<noteq> addr_key addr \<longrightarrow> map_of st' k = map_of st k))" by blast
  have "da_holds b 0 ?e" if "da_bytes b = ?e" for b using that by (simp add: da_holds_def read_at_def)
  with p r message_payload [OF assms(1)] message_request [OF assms(1) _ assms(2)] message_response [OF assms(1) _ assms(2)]
    message_key [OF assms(1)] show ?thesis by blast
qed

section \<open>An example\<close>

text \<open>The answer of a beacon node that a write lock was acquired.\<close>

definition example_env :: msg_env where
  "example_env = \<lparr>msg_inet = udp_inet, is_track_event = False, is_random = False, random_string = (\<lambda>_. []),
     is_space_efficient = True\<rparr>"

definition example_message :: message where
  "example_message = MessageBase_new kAcquireWritelockResponse 3 udp_source BandwidthUsage_default [] ExtraCommonMsghdr_default
     (KeyByteMessage (Key [1]) 1)"

lemma example_parts:
  "is_response_type kAcquireWritelockResponse" "is_message_type kAcquireWritelockResponse"
  "map_of message_classes kAcquireWritelockResponse = Some cls_KeyByteMessage" "Key_wf (Key [1])" "EventList_wf False []"
  by (simp add: message_kind_defs, simp add: is_message_type_def all_message_types_def,
      simp add: message_classes_def request_classes_def response_classes_def,
      simp_all add: Key_wf_def EventList_wf_def)

lemma example_message_ok:
  "message_ok example_env example_message" "length (message_enc example_env example_message) < 2 ^ 32"
  "is_response_type (msg_type example_message)" "msg_inet example_env = udp_inet"
proof -
  note d = example_message_def MessageBase_new_def example_env_def
  show "is_response_type (msg_type example_message)" "msg_inet example_env = udp_inet" using example_parts by (simp_all add: d)
  show "message_ok example_env example_message" using example_parts udp_example(1) by (simp add: d message_ok_def)
  have "length (NetworkAddr_enc udp_inet udp_source) = 6" using length_NetworkAddr_enc [OF udp_example(1)] .
  then show "length (message_enc example_env example_message) < 2 ^ 32" using example_parts
    by (simp add: d message_enc_def message_rest_def BandwidthUsage_enc_def EventList_enc_def ExtraCommonMsghdr_enc_def Key_enc_def)
qed

theorem message_over_network_witness:
  "\<exists>n pkts. MessageBase_getMsgPayloadSize example_env example_message = Inr n
    \<and> UdpMsgSocketClient_send udp_inet [] 5 udp_source n (MessageBase_serialize example_env example_message) udp_source = Inr (5 + 1, pkts)
    \<and> (\<exists>st' b. UdpMsgSocketServer_recv udp_inet [] (map (RecvPacket \<circ> da_bytes) pkts @ [RecvTimeout]) DynamicArray_new
          = Inr (st', [RecvTimeout], False, b)
       \<and> MessageBase_getRequestFromMsgPayload example_env b = Inl Exited
       \<and> MessageBase_getResponseFromMsgPayload example_env b = Inr example_message)
    \<and> MessageBase_getKeyFromMessage example_message = Inr (Key [1])"
proof -
  note inet = udp_example(1) [folded example_message_ok(4)]
  have "\<not> special_response (msg_type example_message)" "body_key (msg_body example_message) = Some (Key [1])"
    by (simp_all add: special_response_def example_message_def MessageBase_new_def)
  with message_over_network [where buf = DynamicArray_new, OF example_message_ok(1,2) inet udp_example(2-4,8)]
  show ?thesis unfolding example_message_ok(4) using example_message_ok(3) by fastforce
qed

end
