(* ===== verification/Spec2Isabelle.thy ===== *)
theory Spec2Isabelle
  imports Beacon_Runs Validity_Map Udp_Roundtrip Victim_Codec Tracker_Placement
    Ring_Threads Cache_Coherence Placement_Decision Victim_Fetch Message_Base
begin

text \<open>
  \<^bold>\<open>A verification development for the COVERED/DACO cooperative edge cache\<close> (\<open>src/src\<close>, C++ in \<open>.c\<close> files).

  \<^bold>\<open>The program.\<close> Edge nodes cache objects and cooperate: each key has a beacon edge node, found on a hash ring,
  which keeps the directory of the nodes that cache the key and the state of a write to it (an MSI-like
  protocol with blocking). Nodes talk in UDP messages that carry serialized objects. Directory sets and victim
  sets are piggybacked complete or compressed against the previous one.

  \<^bold>\<open>Theories, from the bottom.\<close>

  \<^item> \<open>Daco_Prelude\<close>: outcomes of calls (a value, a failed assertion, \<open>exit\<close>, undefined behaviour, waiting), machine
    integers and their bytes, byte vectors, streams, association lists for the standard containers.
  \<^item> \<open>Dynamic_Array\<close>, \<open>Wire_Format\<close>, \<open>Keys_Values\<close>, \<open>Util_Arithmetic\<close>, \<open>Network_Addr\<close> (\<open>common/\<close>, \<open>network/network_addr.c\<close>):
    the message buffer, the contract of serializable classes as the locales \<open>wire_codec\<close> and \<open>stream_codec\<close>, keys,
    values and addresses as instances.
  \<^item> \<open>Directory_Info\<close>, \<open>Dirinfo_Set\<close>, \<open>Directory_Entry\<close>, \<open>Directory_Table\<close> (\<open>cooperation/directory\<close>, \<open>directory_table.c\<close>):
    who caches a key. Delta compression of a set and its recovery, look-up of a valid neighbour, updates with
    their notification rules, snapshots.
  \<^item> \<open>Perkey_Rwlock\<close>, \<open>Concurrent_Hashtable\<close> (\<open>concurrency/\<close>): the locks as interleaved atomic actions with mutual
    exclusion, and the hash table that checks for them.
  \<^item> \<open>Msi_Metadata\<close>, \<open>Dht_Wrapper\<close>, \<open>Cooperation_Wrapper\<close> (\<open>cooperation/\<close>): write flags and block lists, the hash ring,
    every request of the beacon.
  \<^item> \<open>Beacon_State\<close>, \<open>Beacon_Protocol\<close>, \<open>Beacon_Runs\<close>: an abstract MSI directory, the simulation of it by the
    requests, and invariants of all reachable states of a beacon.
  \<^item> \<open>Validity_Map\<close> (\<open>cache/validity_map.c\<close>): validity flags of cached objects.
  \<^item> \<open>Udp_Fragments\<close>, \<open>Udp_Roundtrip\<close> (\<open>network/\<close>): cutting messages into packets and reassembling them.
  \<^item> \<open>Message_Types\<close>, \<open>Message_Fields\<close>, \<open>Message_Header\<close>, \<open>Message_Bodies\<close>, \<open>Message_Base\<close> (\<open>message/\<close>, \<open>common/bandwidth_usage.c\<close>, \<open>event/\<close>):
    the types of messages and their partition into kinds, the steps that serialize one field after the other, the common
    header, the 37 classes of messages by their fields, and whole messages. A message that crosses the network in
    fragments becomes itself again, as a request or as a response by its type.
  \<^item> \<open>Float_Compare\<close>, \<open>Keyed_List\<close> (\<open>common/\<close>): the tolerant comparison of rewards on exact values of float bit patterns,
    and lists searched by key.
  \<^item> \<open>Victim_Cacheinfo\<close>, \<open>Victim_Syncset\<close>, \<open>Victim_Sync\<close>, \<open>Victimsync_Monitor\<close>, \<open>Victim_Codec\<close> (\<open>core/victim\<close>): victims and
    the syncsets that carry them. A relation between what the sender sent and what the receiver holds is kept by
    every round of compression and recovery; syncsets that arrive out of order are applied in order; messages and
    snapshots.
  \<^item> \<open>Edge_Set\<close>, \<open>Victim_Metadata\<close>, \<open>Covered_Cooperation\<close>, \<open>Victim_Tracker\<close> (\<open>core/popularity/edgeset.c\<close>, \<open>core/victim\<close>,
    \<open>cooperation/covered_cooperation_wrapper.c\<close>, \<open>core/victim_tracker.c\<close>): what an edge node knows of the victims of all
    nodes, how it synchronises this knowledge, and the cost of evicting them. The search for victims takes the shortest
    prefix that frees enough space.
  \<^item> \<open>Tracker_References\<close>, \<open>Tracker_Placement\<close>: the reference counts of the tracker are exact in all reachable states of an
    edge node; the eviction cost is the sum of the rewards of the victims found, and its calculation exits exactly when
    one of these rewards is not finite.

  \<^item> \<open>Lru_Cache\<close>, \<open>Local_Cache\<close>, \<open>Cache_Wrapper\<close>, \<open>Cache_Coherence\<close> (\<open>cache/lru\<close>, \<open>cache/lru_local_cache.c\<close>, \<open>local_cache_base.c\<close>,
    \<open>cache_wrapper.c\<close>): the cache of an edge node. The LRU list refines a clock of last uses; engines are a table of
    methods with the contract \<open>engine_laws\<close>; the wrapper with its validity flags refines a map from keys to values and
    validity bits.
  \<^item> \<open>Ring_Buffer\<close>, \<open>Ring_Threads\<close> (\<open>concurrency/\<close>): the ring buffers as bounded queues (\<open>bounded_queue\<close>), the end of their
    release loop, and the interleavings of a producer and a consumer without a lock.

  \<^item> \<open>Float_Arith\<close> (\<open>common/util.c\<close>): single-precision arithmetic on bit patterns, rounded to nearest with ties to even (shown
    for the addition against all other numbers), and the checked operations on popularities.
  \<^item> \<open>Aggregated_Popularity\<close>, \<open>Aggregated_Facts\<close>, \<open>Collected_Popularity\<close>, \<open>Popularity_Aggregator\<close>, \<open>Aggregator_Facts\<close>,
    \<open>Aggregator_Runs\<close> (\<open>core/popularity\<close>, \<open>core/popularity_aggregator.c\<close>): the reports of edge nodes on keys they do not
    cache. The list of a key holds the greatest reports; the aggregator keeps the keys of greatest benefit within its
    capacity, in the order of benefit and with an exact byte counter in all reachable states; exactly when rounding and
    pending placements stop the process.

  \<^item> \<open>Weight_Tuner\<close> (\<open>edge/utils/weight_tuner.c\<close>, \<open>edge/covered_edge_wrapper.c\<close>): the weights of local and cooperative hits
    from moving averages of latencies, in double precision, and the rewards calculated with them. Reachable states start
    from either constructor, with one latency for all links or one for each.
  \<^item> \<open>Directory_Cacher\<close> (\<open>core/directory_cacher.c\<close>): cached directory look-ups, a refinement of a map.
  \<^item> \<open>Covered_Manager\<close>, \<open>Placement_Decision\<close>, \<open>Victim_Fetch\<close> (\<open>core/covered_cache_manager.c\<close>): the manager that joins the
    aggregator, the victim tracker and the directory cacher. A placement has the greatest gain among the prefixes of the
    list of interested nodes. A report takes the lock of the aggregator four times (is the key being admitted, the
    update, the look-up for the calculation, the preservation), and other threads may report, place and admit in between
    (\<open>others\<close>, a list of requests for each gap); a pending choice is repeated only if such a thread made it
    after the calculation. The victim tracker and the weights are those of the start
    of a calculation. A fetch of victims collects the victims of all the nodes asked. Its events are a finite list: receiving beyond the list is the outcome of waiting, so the loop ends by the
    length of the list.

  \<^bold>\<open>Parameters.\<close> Hash functions, random generators, the C library's address conversion and \<open>boost::shared_mutex\<close> are
  arguments of the definitions; where a property needs something of them it is a named hypothesis with a
  witness. Sockets are lists of events. Threads appear where locks are studied, in the lock-free ring buffer and between
  the critical sections of a report of popularity; elsewhere an operation runs under the lock it takes.

  \<^bold>\<open>Not modelled.\<close> Sockets, threads, files and processes; the configuration and command line; workload generators
  and the calculation of statistics; the concrete message classes, which only choose a type and a class;
  the third-party cache engines under \<open>cache/\<close>.
\<close>

end
